(* ===== verification/F32.thy ===== *)
theory F32
  imports Prelude
begin

section \<open>Single precision floating point\<close>

text \<open>
  The layout stores split ratios as Rust \<open>f32\<close> values (IEEE 754 binary32). Every finite
  binary32 value is an integer multiple of \<open>2 ^ -149\<close>, the smallest subnormal, so a
  finite value is represented exactly by that integer. Addition and the product of a
  \<open>u16\<close> with a ratio are exact on these integers and then rounded by \<open>f32_rnd\<close>, to
  nearest with ties to even, at 24 significant bits. The two zeros are identified: no
  operation used by the layout distinguishes them.
\<close>

datatype f32 = F32_NaN | F32_Inf bool | F32_Fin int

fun bit_count :: "nat \<Rightarrow> nat" where
  "bit_count n = (if n = 0 then 0 else Suc (bit_count (n div 2)))"

declare bit_count.simps [simp del]

definition round_half_even :: "nat \<Rightarrow> nat \<Rightarrow> nat" where
  "round_half_even a k =
     (let q = a div 2 ^ k; r = a mod 2 ^ k; half = 2 ^ (k - 1)
      in if half < r \<or> (r = half \<and> odd q) then q + 1 else q)"

definition f32_rnd_mag :: "nat \<Rightarrow> nat" where
  "f32_rnd_mag a =
     (if bit_count a \<le> 24 then a
      else (let k = bit_count a - 24 in round_half_even a k * 2 ^ k))"

definition f32_rnd :: "int \<Rightarrow> f32" where
  "f32_rnd n =
     (let v = f32_rnd_mag (nat \<bar>n\<bar>)
      in if v \<ge> 2 ^ 277 then F32_Inf (n < 0) else F32_Fin (sgn n * int v))"

definition f32_unit :: int where
  "f32_unit = 2 ^ 149"

definition f32_half :: f32 where
  "f32_half = F32_Fin (2 ^ 148)"

text \<open>\<open>0.1_f32 = 13421773 * 2 ^ -27\<close> and \<open>0.9_f32 = 15099494 * 2 ^ -24\<close>.\<close>

definition f32_tenth :: f32 where
  "f32_tenth = F32_Fin (13421773 * 2 ^ 122)"

definition f32_nine_tenths :: f32 where
  "f32_nine_tenths = F32_Fin (15099494 * 2 ^ 125)"

definition f32_is_finite :: "f32 \<Rightarrow> bool" where
  "f32_is_finite x = (case x of F32_Fin _ \<Rightarrow> True | _ \<Rightarrow> False)"

text \<open>The order of the non-NaN values; every comparison with NaN is false.\<close>

fun f32_less :: "f32 \<Rightarrow> f32 \<Rightarrow> bool" where
  "f32_less F32_NaN _ = False"
| "f32_less _ F32_NaN = False"
| "f32_less (F32_Inf s) (F32_Inf t) = (s \<and> \<not> t)"
| "f32_less (F32_Inf s) (F32_Fin _) = s"
| "f32_less (F32_Fin _) (F32_Inf t) = (\<not> t)"
| "f32_less (F32_Fin a) (F32_Fin b) = (a < b)"

definition f32_eq :: "f32 \<Rightarrow> f32 \<Rightarrow> bool" where
  "f32_eq x y = (x \<noteq> F32_NaN \<and> x = y)"

definition f32_clamp :: "f32 \<Rightarrow> f32 \<Rightarrow> f32 \<Rightarrow> f32" where
  "f32_clamp x lo hi = (let y = (if f32_less x lo then lo else x) in if f32_less hi y then hi else y)"

fun f32_add :: "f32 \<Rightarrow> f32 \<Rightarrow> f32" where
  "f32_add F32_NaN _ = F32_NaN"
| "f32_add _ F32_NaN = F32_NaN"
| "f32_add (F32_Inf s) (F32_Inf t) = (if s = t then F32_Inf s else F32_NaN)"
| "f32_add (F32_Inf s) (F32_Fin _) = F32_Inf s"
| "f32_add (F32_Fin _) (F32_Inf t) = F32_Inf t"
| "f32_add (F32_Fin a) (F32_Fin b) = f32_rnd (a + b)"

fun f32_neg :: "f32 \<Rightarrow> f32" where
  "f32_neg F32_NaN = F32_NaN"
| "f32_neg (F32_Inf s) = F32_Inf (\<not> s)"
| "f32_neg (F32_Fin a) = F32_Fin (- a)"

text \<open>\<open>(w as f32) * x\<close>: a \<open>u16\<close> converts exactly.\<close>

fun f32_scale :: "u16 \<Rightarrow> f32 \<Rightarrow> f32" where
  "f32_scale w F32_NaN = F32_NaN"
| "f32_scale w (F32_Inf s) = (if w = 0 then F32_NaN else F32_Inf s)"
| "f32_scale w (F32_Fin a) = f32_rnd (int (unat w) * a)"

text \<open>\<open>f32::round\<close>, half away from zero, and the saturating cast \<open>as u16\<close> after it.\<close>

definition f32_round_int :: "int \<Rightarrow> int" where
  "f32_round_int a = sgn a * ((\<bar>a\<bar> + 2 ^ 148) div 2 ^ 149)"

fun f32_round_to_u16 :: "f32 \<Rightarrow> u16" where
  "f32_round_to_u16 F32_NaN = 0"
| "f32_round_to_u16 (F32_Inf s) = (if s then 0 else 65535)"
| "f32_round_to_u16 (F32_Fin a) = of_int (max 0 (min 65535 (f32_round_int a)))"

subsection \<open>Bit counts\<close>

lemma bit_count_0 [simp]: "bit_count 0 = 0"
  by (simp add: bit_count.simps)

lemma bit_count_upper: "n < 2 ^ bit_count n"
proof (induction n rule: bit_count.induct)
  case (1 n)
  show ?case
  proof (cases "n = 0")
    case True
    then show ?thesis by simp
  next
    case False
    with 1 have "n div 2 < 2 ^ bit_count (n div 2)" by simp
    then have "n < 2 * 2 ^ bit_count (n div 2)" by arith
    with False show ?thesis by (simp add: bit_count.simps [of n])
  qed
qed

lemma bit_count_lower: "0 < n \<Longrightarrow> 2 ^ (bit_count n - 1) \<le> n"
proof (induction n rule: bit_count.induct)
  case (1 n)
  show ?case
  proof (cases "n div 2 = 0")
    case True
    with 1 show ?thesis by (simp add: bit_count.simps [of n])
  next
    case False
    with 1 have IH: "2 ^ (bit_count (n div 2) - 1) \<le> n div 2" by simp
    have "0 < bit_count (n div 2)" using False by (simp add: bit_count.simps [of "n div 2"])
    then have "2 ^ bit_count (n div 2) = 2 * (2::nat) ^ (bit_count (n div 2) - 1)"
      by (metis power_eq_if less_not_refl)
    with IH "1.prems" show ?thesis by (simp add: bit_count.simps [of n])
  qed
qed

lemma bit_count_le: "n < 2 ^ k \<Longrightarrow> bit_count n \<le> k"
proof (cases "n = 0")
  case False
  assume "n < 2 ^ k"
  have "(2::nat) ^ (bit_count n - 1) \<le> n" using False by (intro bit_count_lower) simp
  also note \<open>n < 2 ^ k\<close>
  finally have "bit_count n - 1 < k" by (rule power_less_imp_less_exp [rotated]) simp
  then show ?thesis by simp
qed simp

subsection \<open>Rounding is monotone around integers\<close>

text \<open>
  An integer \<open>c\<close> below \<open>2 ^ 16\<close> is a fixed point of the rounding, so rounding cannot
  carry a value across it: the two bounds every geometric property of the layout uses.
\<close>

lemma round_half_even_upper:
  assumes "a \<le> Q * 2 ^ k"
  shows "round_half_even a k * 2 ^ k \<le> Q * 2 ^ k"
proof (cases "a = Q * 2 ^ k")
  case True
  then show ?thesis by (simp add: round_half_even_def)
next
  case False
  with assms have "a < Q * 2 ^ k" by simp
  then have "a div 2 ^ k < Q" by (simp add: less_mult_imp_div_less)
  then have "round_half_even a k \<le> Q" by (simp add: round_half_even_def Let_def)
  then show ?thesis by simp
qed

lemma round_half_even_lower:
  assumes "Q * 2 ^ k \<le> a"
  shows "Q * 2 ^ k \<le> round_half_even a k * 2 ^ k"
proof -
  have "Q \<le> a div 2 ^ k" using assms by (simp add: less_eq_div_iff_mult_less_eq)
  then have "Q \<le> round_half_even a k" by (simp add: round_half_even_def Let_def)
  then show ?thesis by simp
qed

lemma integer_multiple:
  assumes "k \<le> 149"
  shows "c * 2 ^ 149 = (c * 2 ^ (149 - k)) * (2 ^ k :: nat)"
proof -
  have "(2::nat) ^ 149 = 2 ^ (149 - k) * 2 ^ k"
    using assms by (simp flip: power_add)
  then show ?thesis by simp
qed

lemma f32_rnd_mag_upper:
  assumes "a \<le> c * 2 ^ 149" "c < 2 ^ 16"
  shows "f32_rnd_mag a \<le> c * 2 ^ 149"
proof -
  have "c * 2 ^ 149 < 2 ^ 165" using assms(2) by simp
  with assms(1) have "bit_count a \<le> 165" by (intro bit_count_le) linarith
  then have k: "bit_count a - 24 \<le> 149" by simp
  let ?k = "bit_count a - 24" and ?Q = "c * 2 ^ (149 - (bit_count a - 24))"
  have "round_half_even a ?k * 2 ^ ?k \<le> ?Q * 2 ^ ?k"
    using assms(1) by (intro round_half_even_upper) (simp only: integer_multiple [OF k, symmetric])
  also have "\<dots> = c * 2 ^ 149" by (rule integer_multiple [OF k, symmetric])
  finally show ?thesis using assms(1) by (simp add: f32_rnd_mag_def Let_def)
qed

lemma f32_rnd_mag_lower:
  assumes "c * 2 ^ 149 \<le> a" "a < 2 ^ 165"
  shows "c * 2 ^ 149 \<le> f32_rnd_mag a"
proof -
  from assms(2) have "bit_count a \<le> 165" by (rule bit_count_le)
  then have k: "bit_count a - 24 \<le> 149" by simp
  let ?k = "bit_count a - 24" and ?Q = "c * 2 ^ (149 - (bit_count a - 24))"
  have "c * 2 ^ 149 = ?Q * 2 ^ ?k" by (rule integer_multiple [OF k])
  also have "?Q * 2 ^ ?k \<le> round_half_even a ?k * 2 ^ ?k"
    using assms(1) by (intro round_half_even_lower) (simp only: integer_multiple [OF k, symmetric])
  finally show ?thesis using assms(1) by (simp add: f32_rnd_mag_def Let_def)
qed

lemma round_div_bounds:
  fixes H :: int
  assumes H: "0 < H" and "c * (2 * H) \<le> v" "v \<le> d * (2 * H)"
  shows "c \<le> (v + H) div (2 * H)" and "(v + H) div (2 * H) \<le> d"
proof -
  have "(c * (2 * H)) div (2 * H) \<le> (v + H) div (2 * H)"
    using assms by (intro zdiv_mono1) auto
  then show "c \<le> (v + H) div (2 * H)" using H by simp
  have "(v + H) div (2 * H) \<le> (H + d * (2 * H)) div (2 * H)"
    using assms by (intro zdiv_mono1) auto
  also have "\<dots> = d + H div (2 * H)" using H by (intro div_mult_self1) simp
  also have "H div (2 * H) = 0" using H by simp
  finally show "(v + H) div (2 * H) \<le> d" by simp
qed

lemma f32_round_to_u16_bounds:
  assumes c: "0 \<le> c" and v: "c * 2 ^ 149 \<le> v" "v \<le> d * 2 ^ 149" and d: "d < 2 ^ 16"
  shows "c \<le> int (unat (f32_round_to_u16 (F32_Fin v)))"
    and "int (unat (f32_round_to_u16 (F32_Fin v))) \<le> d"
proof -
  have "0 \<le> c * 2 ^ 149" using c by simp
  with v(1) have "0 \<le> v" by linarith
  then have "f32_round_int v = (v + 2 ^ 148) div (2 * 2 ^ 148)"
    by (auto simp: f32_round_int_def sgn_if)
  with round_div_bounds [of "2 ^ 148" c v d] v
  have r: "c \<le> f32_round_int v" "f32_round_int v \<le> d" by simp_all
  with c d have "f32_round_to_u16 (F32_Fin v) = of_nat (nat (f32_round_int v))"
    "nat (f32_round_int v) < 2 ^ 16" by simp_all
  then have "unat (f32_round_to_u16 (F32_Fin v)) = nat (f32_round_int v)"
    by (simp add: unat_of_nat take_bit_nat_eq_self)
  with r c show "c \<le> int (unat (f32_round_to_u16 (F32_Fin v)))"
    "int (unat (f32_round_to_u16 (F32_Fin v))) \<le> d" by simp_all
qed

text \<open>The product of a \<open>u16\<close> and a ratio between \<open>c / w\<close> and \<open>d / w\<close>, rounded to an integer,
  stays between \<open>c\<close> and \<open>d\<close>.\<close>

lemma f32_scale_round_bounds:
  assumes n: "0 \<le> n" and lo: "int c * 2 ^ 149 \<le> int (unat w) * n"
    and hi: "int (unat w) * n \<le> int d * 2 ^ 149" and d: "d < 2 ^ 16"
  shows "c \<le> unat (f32_round_to_u16 (f32_scale w (F32_Fin n)))
       \<and> unat (f32_round_to_u16 (f32_scale w (F32_Fin n))) \<le> d"
proof -
  let ?a = "nat (int (unat w) * n)"
  have nonneg: "0 \<le> int (unat w) * n" using n by simp
  have a_hi: "?a \<le> d * 2 ^ 149" using hi nonneg by (simp add: nat_le_iff)
  have a_lo: "c * 2 ^ 149 \<le> ?a" using lo nonneg by (simp add: le_nat_iff)
  have "d * 2 ^ 149 < 2 ^ 165" using d by simp
  with a_hi have "?a < 2 ^ 165" by linarith
  with a_lo a_hi d have v: "c * 2 ^ 149 \<le> f32_rnd_mag ?a" "f32_rnd_mag ?a \<le> d * 2 ^ 149"
    using f32_rnd_mag_lower f32_rnd_mag_upper by auto
  have small: "f32_rnd_mag ?a < 2 ^ 277" using v(2) d by simp
  have fin: "f32_scale w (F32_Fin n) = F32_Fin (int (f32_rnd_mag ?a))"
  proof (cases "int (unat w) * n = 0")
    case True
    then show ?thesis by (simp add: f32_rnd_def f32_rnd_mag_def del: mult_eq_0_iff)
  next
    case False
    with nonneg small show ?thesis by (simp add: f32_rnd_def Let_def sgn_if)
  qed
  have "int c * 2 ^ 149 \<le> int (f32_rnd_mag ?a)" "int (f32_rnd_mag ?a) \<le> int d * 2 ^ 149"
    using v [folded of_nat_le_iff [where 'a = int]]
    by (simp_all only: of_nat_mult of_nat_power of_nat_numeral)
  from f32_round_to_u16_bounds [OF _ this] d have
    "int c \<le> int (unat (f32_round_to_u16 (F32_Fin (int (f32_rnd_mag ?a)))))"
    "int (unat (f32_round_to_u16 (F32_Fin (int (f32_rnd_mag ?a))))) \<le> int d"
    by simp_all
  then show ?thesis by (simp only: fin of_nat_le_iff simp_thms)
qed

subsection \<open>Ratios\<close>

text \<open>A ratio the layout accepts: between \<open>0.1\<close> and \<open>0.9\<close>.\<close>

definition ratio_ok :: "f32 \<Rightarrow> bool" where
  "ratio_ok r = (case r of F32_Fin n \<Rightarrow> 13421773 * 2 ^ 122 \<le> n \<and> n \<le> 15099494 * 2 ^ 125 | _ \<Rightarrow> False)"

text \<open>A ratio that at least keeps the first part inside the area.\<close>

definition ratio_unit :: "f32 \<Rightarrow> bool" where
  "ratio_unit r = (case r of F32_Fin n \<Rightarrow> 0 \<le> n \<and> n \<le> 2 ^ 149 | _ \<Rightarrow> False)"

lemma ratio_ok_unit: "ratio_ok r \<Longrightarrow> ratio_unit r"
  by (auto simp: ratio_ok_def ratio_unit_def split: f32.splits)

lemma f32_clamp_ratio_ok:
  "x \<noteq> F32_NaN \<Longrightarrow> ratio_ok (f32_clamp x f32_tenth f32_nine_tenths)"
  by (cases x) (auto simp: f32_clamp_def f32_tenth_def f32_nine_tenths_def ratio_ok_def Let_def)

lemma f32_clamp_NaN: "f32_clamp F32_NaN lo hi = F32_NaN"
  by (cases hi) (simp_all add: f32_clamp_def)

lemma ratio_ok_half: "ratio_ok f32_half"
  by (simp add: ratio_ok_def f32_half_def)

lemma ratio_unit_scale:
  assumes "ratio_unit r"
  shows "unat (f32_round_to_u16 (f32_scale w r)) \<le> unat w"
proof -
  from assms obtain n where n: "r = F32_Fin n" "0 \<le> n" "n \<le> 2 ^ 149"
    by (auto simp: ratio_unit_def split: f32.splits)
  have "int (unat w) * n \<le> int (unat w) * 2 ^ 149" using n by (intro mult_left_mono) auto
  moreover have "unat w < 2 ^ 16" using unsigned_less [of w] by simp
  ultimately show ?thesis
    using f32_scale_round_bounds [of n 0 w "unat w"] n by simp
qed

lemma nine_tenths_below: "10 \<le> (k::int) \<Longrightarrow> k * (15099494 * 2 ^ 125) \<le> (k - 1) * 2 ^ 149"
  by simp

lemma ratio_ok_scale:
  assumes "ratio_ok r" "10 \<le> unat w"
  shows "1 \<le> unat (f32_round_to_u16 (f32_scale w r))
       \<and> unat (f32_round_to_u16 (f32_scale w r)) < unat w"
proof -
  from assms(1) obtain n where n: "r = F32_Fin n" "13421773 * 2 ^ 122 \<le> n" "n \<le> 15099494 * 2 ^ 125"
    by (auto simp: ratio_ok_def split: f32.splits)
  have w: "unat w < 2 ^ 16" using unsigned_less [of w] by simp
  have n0: "0 \<le> n" using n(2) by simp
  have "int 1 * 2 ^ 149 \<le> 10 * n" using n by simp
  also have "10 * n \<le> int (unat w) * n"
    using assms(2) n0 by (intro mult_right_mono) linarith+
  finally have lo: "int 1 * 2 ^ 149 \<le> int (unat w) * n" .
  have "int (unat w) * n \<le> int (unat w) * (15099494 * 2 ^ 125)" using n by (intro mult_left_mono) auto
  also have "\<dots> \<le> (int (unat w) - 1) * 2 ^ 149" using assms(2) by (intro nine_tenths_below) linarith
  also have "int (unat w) - 1 = int (unat w - 1)" using assms(2) by linarith
  finally have hi: "int (unat w) * n \<le> int (unat w - 1) * 2 ^ 149" .
  have "unat w - 1 < 2 ^ 16" using w by linarith
  from f32_scale_round_bounds [OF n0 lo hi this] assms(2) show ?thesis
    unfolding n(1) by linarith
qed

end
