(* ===== verification/Layout.thy ===== *)
theory Layout
  imports Prelude F32
begin

section \<open>What a tab relies on in its layout\<close>

text \<open>
  A tab keeps a layout, a hash map with the state of every pane and the id of its root pane.
  The layout is edited first and the map after it, so the two stay in step only because of
  what the layout promises of its operations. The locale states that contract; its lemmas
  say, once for every operation that adds or removes a pane, that layout, map and root pane
  stay consistent.
\<close>

definition panes_match :: "'p list \<Rightarrow> ('p, 'v) hmap \<Rightarrow> 'p \<Rightarrow> bool" where
  "panes_match is m root \<longleftrightarrow> hm_ok m \<and> fst ` set m = set is \<and> root \<in> set is"

lemma dom_delete_fst: "fst ` set (AList.delete k m) = fst ` set m - {k}"
  using delete_conv' [of k m] by (metis dom_fun_upd dom_map_of_conv_image_fst)

lemma dom_update_fst: "fst ` set (AList.update k v m) = insert k (fst ` set m)"
  using update_conv' [of k v m] by (metis dom_fun_upd dom_map_of_conv_image_fst option.distinct(1))

lemma panes_match_contains: "panes_match is m root \<Longrightarrow> hm_contains m i \<longleftrightarrow> i \<in> set is"
  by (simp add: panes_match_def map_of_eq_None_iff)

lemma panes_match_value: "panes_match is m root \<Longrightarrow> i \<in> set is \<Longrightarrow> \<exists>v. hm_get m i = Some v"
  using panes_match_contains [of "is" m root i] by auto

locale pane_tree =
  fixes wf :: "'l \<Rightarrow> bool"
    and ids :: "'l \<Rightarrow> 'p list"
    and close :: "'l \<Rightarrow> 'p \<Rightarrow> ('l \<times> bool) option"
    and insert_near :: "'x \<Rightarrow> 'l \<Rightarrow> 'p \<Rightarrow> 'p \<Rightarrow> 'l \<times> bool"
    and focus_on :: "'l \<Rightarrow> 'p \<Rightarrow> 'l"
  assumes ids_distinct: "wf l \<Longrightarrow> distinct (ids l)"
    and close_removes: "wf l \<Longrightarrow> \<exists>l' ok. close l i = Some (l', ok) \<and> wf l'
      \<and> ids l' = (if 1 < length (ids l) then filter (\<lambda>j. j \<noteq> i) (ids l) else ids l)"
    and insert_adds: "wf l \<Longrightarrow> insert_near x l target i = (l', ok) \<Longrightarrow> wf l'
      \<and> (if ok then i \<notin> set (ids l) \<and> set (ids l') = insert i (set (ids l)) else l' = l)"
    and focus_keeps: "wf l \<Longrightarrow> wf (focus_on l i) \<and> ids (focus_on l i) = ids l"
begin

text \<open>Another pane is left to become the root when one of several panes goes.\<close>

lemma other_pane:
  assumes "wf l" "1 < length (ids l)"
  obtains j where "find (\<lambda>j. j \<noteq> i) (ids l) = Some j" "j \<in> set (ids l)" "j \<noteq> i"
proof (cases "find (\<lambda>j. j \<noteq> i) (ids l)")
  case None
  then have "set (ids l) \<subseteq> {i}" by (auto simp: find_None_iff)
  then have "card (set (ids l)) \<le> 1" using card_mono [of "{i}"] by fastforce
  with assms distinct_card [OF ids_distinct [OF assms(1)]] show ?thesis by simp
next
  case (Some j)
  with that find_Some_set [OF Some] show ?thesis by blast
qed

lemma close_match:
  assumes "wf l" "panes_match (ids l) m root" "1 < length (ids l)"
    and "root' = (if root = i then the (find (\<lambda>j. j \<noteq> i) (ids l)) else root)"
  obtains l' ok where "close l i = Some (l', ok)" "wf l'" "panes_match (ids l') (hm_remove m i) root'"
    "ids l' = filter (\<lambda>j. j \<noteq> i) (ids l)"
proof -
  obtain l' ok where c: "close l i = Some (l', ok)" "wf l'" "ids l' = filter (\<lambda>j. j \<noteq> i) (ids l)"
    using close_removes [OF assms(1), of i] assms(3) by auto
  obtain j where "find (\<lambda>j. j \<noteq> i) (ids l) = Some j" "j \<in> set (ids l)" "j \<noteq> i"
    using other_pane [OF assms(1,3)] .
  with assms(2,4) c(3) have "panes_match (ids l') (hm_remove m i) root'"
    by (auto simp: panes_match_def AList.distinct_delete dom_delete_fst)
  with c that show ?thesis by blast
qed

lemma insert_match:
  assumes "wf l" "panes_match (ids l) m root" "insert_near x l target i = (l', True)"
  shows "wf l' \<and> panes_match (ids l') (hm_insert m i v) root \<and> i \<notin> set (ids l)"
  using assms insert_adds [OF assms(1,3)] by (auto simp: panes_match_def dom_update_fst)

lemma focus_match:
  assumes "wf l" "panes_match (ids l) m root"
  shows "wf (focus_on l i) \<and> panes_match (ids (focus_on l i)) m root"
  using assms focus_keeps [OF assms(1), of i] by simp

end

section \<open>The pane tree\<close>

text \<open>
  The model of the tree half of \<open>src/src/layout.rs\<close>: pane ids and their global counter,
  the binary space partition tree, the layout with its focus and previous focus, and the
  operations that edit them. A panic of the code (an \<open>unwrap\<close> or an index out of range)
  is the result \<open>None\<close> of the operations that can panic. The geometry of the tree is in
  the theory LayoutGeometry.
\<close>

subsection \<open>State\<close>

type_synonym pane_id = u32

text \<open>\<open>PaneId::alloc\<close>: the atomic counter is threaded as a value; \<open>fetch_add\<close> wraps.\<close>

definition pane_id_alloc :: "u32 \<Rightarrow> pane_id \<times> u32" where
  "pane_id_alloc next_id = (next_id, next_id + 1)"

datatype direction = Horizontal | Vertical

datatype nav_direction = NavLeft | NavRight | NavUp | NavDown

datatype node =
    Pane pane_id
  | Split direction f32 node node

record tile_layout =
  tl_root :: node
  tl_focus :: pane_id
  tl_prev_focus :: "pane_id option"

definition tile_layout_new :: "u32 \<Rightarrow> (tile_layout \<times> pane_id) \<times> u32" where
  "tile_layout_new next_id =
     (let (root_id, next') = pane_id_alloc next_id
      in ((\<lparr>tl_root = Pane root_id, tl_focus = root_id, tl_prev_focus = None\<rparr>, root_id), next'))"

definition from_saved :: "node \<Rightarrow> pane_id \<Rightarrow> tile_layout" where
  "from_saved root fcs = \<lparr>tl_root = root, tl_focus = fcs, tl_prev_focus = None\<rparr>"

subsection \<open>Tree operations\<close>

fun count_panes :: "node \<Rightarrow> nat" where
  "count_panes (Pane _) = 1"
| "count_panes (Split _ _ a b) = count_panes a + count_panes b"

fun collect_ids :: "node \<Rightarrow> pane_id list" where
  "collect_ids (Pane i) = [i]"
| "collect_ids (Split _ _ a b) = collect_ids a @ collect_ids b"

fun swap_pane_ids :: "node \<Rightarrow> pane_id \<Rightarrow> pane_id \<Rightarrow> node" where
  "swap_pane_ids (Pane i) f s = (if i = f then Pane s else if i = s then Pane f else Pane i)"
| "swap_pane_ids (Split d r a b) f s = Split d r (swap_pane_ids a f s) (swap_pane_ids b f s)"

fun split_at :: "node \<Rightarrow> pane_id \<Rightarrow> direction \<Rightarrow> pane_id \<Rightarrow> f32 \<Rightarrow> node" where
  "split_at (Pane i) target d new_id r =
     (if i = target then Split d r (Pane i) (Pane new_id) else Pane i)"
| "split_at (Split d' r' a b) target d new_id r =
     Split d' r' (split_at a target d new_id r) (split_at b target d new_id r)"

definition valid_split_ratio :: "f32 \<Rightarrow> f32" where
  "valid_split_ratio r =
     (if f32_is_finite r then f32_clamp r f32_tenth f32_nine_tenths else f32_half)"

fun node_remove_pane :: "node \<Rightarrow> pane_id \<Rightarrow> node option" where
  "node_remove_pane (Pane i) target = (if i = target then None else Some (Pane i))"
| "node_remove_pane (Split d r a b) target =
     (case (node_remove_pane a target, node_remove_pane b target) of
        (None, Some s) \<Rightarrow> Some s
      | (Some f, None) \<Rightarrow> Some f
      | (Some f, Some s) \<Rightarrow> Some (Split d r f s)
      | (None, None) \<Rightarrow> None)"

text \<open>\<open>set_ratio_at\<close> mutates the node in place and says whether the path names a split.\<close>

fun node_set_ratio_at :: "node \<Rightarrow> bool list \<Rightarrow> f32 \<Rightarrow> node \<times> bool" where
  "node_set_ratio_at (Pane i) path r = (Pane i, False)"
| "node_set_ratio_at (Split d r0 a b) [] r = (Split d r a b, True)"
| "node_set_ratio_at (Split d r0 a b) (p # ps) r =
     (if p then (let (b', ok) = node_set_ratio_at b ps r in (Split d r0 a b', ok))
      else (let (a', ok) = node_set_ratio_at a ps r in (Split d r0 a' b, ok)))"

fun get_ratio_at :: "node \<Rightarrow> bool list \<Rightarrow> f32 option" where
  "get_ratio_at (Pane i) path = None"
| "get_ratio_at (Split d r a b) [] = Some r"
| "get_ratio_at (Split d r a b) (p # ps) = (if p then get_ratio_at b ps else get_ratio_at a ps)"

fun split_ratios_from :: "node \<Rightarrow> bool list \<Rightarrow> (bool list \<times> f32) list" where
  "split_ratios_from (Pane i) path = []"
| "split_ratios_from (Split d r a b) path =
     (path, r) # split_ratios_from a (path @ [False]) @ split_ratios_from b (path @ [True])"

definition split_ratios :: "node \<Rightarrow> (bool list \<times> f32) list" where
  "split_ratios n = split_ratios_from n []"

subsection \<open>Layout operations\<close>

definition set_focus :: "tile_layout \<Rightarrow> pane_id \<Rightarrow> tile_layout" where
  "set_focus l i =
     (if i \<noteq> tl_focus l then l\<lparr>tl_prev_focus := Some (tl_focus l), tl_focus := i\<rparr> else l)"

definition pane_count :: "tile_layout \<Rightarrow> nat" where
  "pane_count l = count_panes (tl_root l)"

definition pane_ids :: "tile_layout \<Rightarrow> pane_id list" where
  "pane_ids l = collect_ids (tl_root l)"

definition split_pane ::
  "tile_layout \<Rightarrow> pane_id \<Rightarrow> direction \<Rightarrow> f32 \<Rightarrow> u32 \<Rightarrow> (tile_layout \<times> pane_id option) \<times> u32" where
  "split_pane l target d r next_id =
     (if target \<notin> set (pane_ids l) then ((l, None), next_id)
      else (let (new_id, next') = pane_id_alloc next_id
            in ((l\<lparr>tl_root := split_at (tl_root l) target d new_id (valid_split_ratio r)\<rparr>, Some new_id),
                next')))"

definition insert_pane_near ::
  "tile_layout \<Rightarrow> pane_id \<Rightarrow> pane_id \<Rightarrow> direction \<Rightarrow> f32 \<Rightarrow> bool \<Rightarrow> tile_layout \<times> bool" where
  "insert_pane_near l target moved d r fcs =
     (if target = moved then (l, False)
      else if target \<notin> set (pane_ids l) \<or> moved \<in> set (pane_ids l) then (l, False)
      else (let l' = l\<lparr>tl_root := split_at (tl_root l) target d moved (valid_split_ratio r)\<rparr>
            in (if fcs then set_focus l' moved else l', True)))"

text \<open>The pane that takes the focus when the focused one closes: the previous focus if it
  is still there, else the next pane in tree order, else the one before.\<close>

definition next_focus_after_close :: "pane_id list \<Rightarrow> pane_id \<Rightarrow> pane_id option \<Rightarrow> nat \<Rightarrow> pane_id" where
  "next_focus_after_close ids target prev pos =
     (let ordered = (if pos + 1 < length ids then ids ! (pos + 1) else ids ! (pos - 1))
      in (case prev of
            Some p \<Rightarrow> if p \<noteq> target \<and> p \<in> set ids then p else ordered
          | None \<Rightarrow> ordered))"

definition close_focused :: "tile_layout \<Rightarrow> (tile_layout \<times> bool) option" where
  "close_focused l =
     (if pane_count l \<le> 1 then Some (l, False)
      else (case position (\<lambda>i. i = tl_focus l) (pane_ids l) of
          None \<Rightarrow> None
        | Some pos \<Rightarrow>
            Some (let target = tl_focus l;
                      new_focus = next_focus_after_close (pane_ids l) target (tl_prev_focus l) pos
                  in (case node_remove_pane (tl_root l) target of
                        Some new_root \<Rightarrow>
                          (l\<lparr>tl_root := new_root, tl_focus := new_focus, tl_prev_focus := None\<rparr>, True)
                      | None \<Rightarrow> (l\<lparr>tl_root := Pane 0\<rparr>, False)))))"

definition close_pane :: "tile_layout \<Rightarrow> pane_id \<Rightarrow> (tile_layout \<times> bool) option" where
  "close_pane l i =
     (if tl_focus l = i then close_focused l
      else if pane_count l \<le> 1 \<or> i \<notin> set (pane_ids l) then Some (l, False)
      else (case node_remove_pane (tl_root l) i of
              None \<Rightarrow> Some (l\<lparr>tl_root := Pane 0\<rparr>, False)
            | Some new_root \<Rightarrow>
                Some (l\<lparr>tl_root := new_root,
                        tl_prev_focus := (if tl_prev_focus l = Some i then None else tl_prev_focus l)\<rparr>,
                      True)))"

definition focus_pane :: "tile_layout \<Rightarrow> pane_id \<Rightarrow> tile_layout" where
  "focus_pane l i = (if i \<in> set (pane_ids l) then set_focus l i else l)"

definition swap_panes :: "tile_layout \<Rightarrow> pane_id \<Rightarrow> pane_id \<Rightarrow> tile_layout \<times> bool" where
  "swap_panes l f s =
     (if f = s then (l, False)
      else if f \<notin> set (pane_ids l) \<or> s \<notin> set (pane_ids l) then (l, False)
      else (l\<lparr>tl_root := swap_pane_ids (tl_root l) f s\<rparr>, True))"

definition set_ratio_at :: "tile_layout \<Rightarrow> bool list \<Rightarrow> f32 \<Rightarrow> tile_layout \<times> bool" where
  "set_ratio_at l path r =
     (let (n, ok) = node_set_ratio_at (tl_root l) path (f32_clamp r f32_tenth f32_nine_tenths)
      in (l\<lparr>tl_root := n\<rparr>, ok))"

subsection \<open>Well-formed layouts\<close>

text \<open>
  What the code relies on: the ids of the tree are distinct, the focus is one of them, and
  the recorded previous focus is another one of them.
\<close>

definition layout_wf :: "tile_layout \<Rightarrow> bool" where
  "layout_wf l \<longleftrightarrow> distinct (pane_ids l) \<and> tl_focus l \<in> set (pane_ids l)
     \<and> (\<forall>p. tl_prev_focus l = Some p \<longrightarrow> p \<in> set (pane_ids l) \<and> p \<noteq> tl_focus l)"

fun node_ratios :: "node \<Rightarrow> f32 set" where
  "node_ratios (Pane _) = {}"
| "node_ratios (Split _ r a b) = insert r (node_ratios a \<union> node_ratios b)"

lemma count_panes_ids: "count_panes n = length (collect_ids n)"
  by (induction n) auto

lemma collect_ids_nonempty [simp]: "collect_ids n \<noteq> []"
  by (induction n) auto

lemma split_at_absent: "target \<notin> set (collect_ids n) \<Longrightarrow> split_at n target d i r = n"
  by (induction n) auto

lemma set_ids_split_at:
  "set (collect_ids (split_at n target d i r))
   = set (collect_ids n) \<union> (if target \<in> set (collect_ids n) then {i} else {})"
  by (induction n) auto

lemma distinct_ids_split_at:
  "distinct (collect_ids n) \<Longrightarrow> i \<notin> set (collect_ids n) \<Longrightarrow> distinct (collect_ids (split_at n target d i r))"
  by (induction n) (auto simp: set_ids_split_at)

lemma ratios_split_at:
  "node_ratios (split_at n target d i r) \<subseteq> insert r (node_ratios n)"
  by (induction n) auto

lemma remove_absent: "target \<notin> set (collect_ids n) \<Longrightarrow> node_remove_pane n target = Some n"
  by (induction n) auto

lemma remove_ids:
  "case node_remove_pane n target of
     None \<Rightarrow> set (collect_ids n) = {target}
   | Some n' \<Rightarrow> collect_ids n' = filter (\<lambda>i. i \<noteq> target) (collect_ids n)
       \<and> node_ratios n' \<subseteq> node_ratios n"
proof (induction n)
  case (Pane i)
  then show ?case by simp
next
  case (Split d r a b)
  have "collect_ids a \<noteq> []" "collect_ids b \<noteq> []" by simp_all
  with Split show ?case
    by (auto split: option.splits simp: filter_empty_conv)
qed

lemma remove_Some:
  assumes "node_remove_pane n target = Some n'"
  shows "collect_ids n' = filter (\<lambda>i. i \<noteq> target) (collect_ids n)" "node_ratios n' \<subseteq> node_ratios n"
  using remove_ids [of n target] assms by auto

lemma remove_exists:
  assumes "distinct (collect_ids n)" "1 < length (collect_ids n)"
  shows "\<exists>n'. node_remove_pane n target = Some n'"
proof -
  have "set (collect_ids n) \<noteq> {target}"
  proof
    assume "set (collect_ids n) = {target}"
    then have "card (set (collect_ids n)) = 1" by simp
    with assms show False by (simp add: distinct_card)
  qed
  with remove_ids [of n target] show ?thesis by (auto split: option.splits)
qed

lemma remove_after_split:
  assumes "distinct (collect_ids n)" "i \<notin> set (collect_ids n)" "target \<in> set (collect_ids n)"
  shows "node_remove_pane (split_at n target d i r) i = Some n"
  using assms
proof (induction n)
  case (Pane j)
  then show ?case by auto
next
  case (Split d' r' a b)
  show ?case
  proof (cases "target \<in> set (collect_ids a)")
    case True
    with Split.prems have "target \<notin> set (collect_ids b)" by auto
    with Split True show ?thesis by (simp add: remove_absent split_at_absent)
  next
    case False
    with Split show ?thesis by (simp add: remove_absent split_at_absent)
  qed
qed

lemma swap_ids:
  "collect_ids (swap_pane_ids n f s)
   = map (\<lambda>i. if i = f then s else if i = s then f else i) (collect_ids n)"
  by (induction n) auto

lemma swap_twice: "swap_pane_ids (swap_pane_ids n f s) f s = n"
  by (induction n) auto

lemma swap_ratios: "split_ratios_from (swap_pane_ids n f s) p = split_ratios_from n p"
  by (induction n arbitrary: p) auto

lemma swap_node_ratios: "node_ratios (swap_pane_ids n f s) = node_ratios n"
  by (induction n) auto

lemma set_ratio_ids: "collect_ids (fst (node_set_ratio_at n path r)) = collect_ids n"
  by (induction n path r rule: node_set_ratio_at.induct) (auto split: prod.splits)

lemma set_ratio_ratios: "node_ratios (fst (node_set_ratio_at n path r)) \<subseteq> insert r (node_ratios n)"
  by (induction n path r rule: node_set_ratio_at.induct) (auto split: prod.splits)

lemma set_ratio_ok_iff: "snd (node_set_ratio_at n path r) \<longleftrightarrow> get_ratio_at n path \<noteq> None"
  by (induction n path r rule: node_set_ratio_at.induct) (auto split: prod.splits)

lemma get_after_set_ratio:
  "snd (node_set_ratio_at n path r) \<Longrightarrow>
   get_ratio_at (fst (node_set_ratio_at n path r)) q = (if q = path then Some r else get_ratio_at n q)"
proof (induction n path r arbitrary: q rule: node_set_ratio_at.induct)
  case (3 d r0 a b p ps r)
  then show ?case by (cases q) (auto split: prod.splits if_splits)
next
  case (2 d r0 a b r)
  then show ?case by (cases q) auto
qed simp

lemma set_ratio_fail: "\<not> snd (node_set_ratio_at n path r) \<Longrightarrow> fst (node_set_ratio_at n path r) = n"
  by (induction n path r rule: node_set_ratio_at.induct) (auto split: prod.splits if_splits)

subsection \<open>Every operation keeps a layout well formed\<close>

lemma layout_wf_new: "layout_wf (fst (fst (tile_layout_new n)))"
  by (simp add: tile_layout_new_def pane_id_alloc_def layout_wf_def pane_ids_def)

lemma pane_ids_simps [simp]:
  "pane_ids (l\<lparr>tl_focus := i\<rparr>) = pane_ids l"
  "pane_ids (l\<lparr>tl_prev_focus := p\<rparr>) = pane_ids l"
  "pane_ids (l\<lparr>tl_root := n\<rparr>) = collect_ids n"
  "pane_ids (set_focus l i) = pane_ids l"
  by (simp_all add: pane_ids_def set_focus_def)

lemma pane_count_ids: "pane_count l = length (pane_ids l)"
  by (simp add: pane_count_def pane_ids_def count_panes_ids)

lemma layout_wf_set_focus: "layout_wf l \<Longrightarrow> i \<in> set (pane_ids l) \<Longrightarrow> layout_wf (set_focus l i)"
  by (auto simp: layout_wf_def set_focus_def)

lemma layout_wf_focus_pane: "layout_wf l \<Longrightarrow> layout_wf (focus_pane l i)"
  by (auto simp: focus_pane_def intro: layout_wf_set_focus)

lemma layout_wf_split_root:
  assumes "layout_wf l" "i \<notin> set (pane_ids l)"
  shows "layout_wf (l\<lparr>tl_root := split_at (tl_root l) target d i r\<rparr>)"
  using assms by (auto simp: layout_wf_def set_ids_split_at pane_ids_def intro: distinct_ids_split_at)

lemma layout_wf_split_pane:
  "layout_wf l \<Longrightarrow> n \<notin> set (pane_ids l) \<Longrightarrow> layout_wf (fst (fst (split_pane l target d r n)))"
  by (simp add: split_pane_def pane_id_alloc_def layout_wf_split_root)

lemma layout_wf_insert:
  assumes "layout_wf l"
  shows "layout_wf (fst (insert_pane_near l target moved d r fcs))"
proof (cases "target = moved \<or> target \<notin> set (pane_ids l) \<or> moved \<in> set (pane_ids l)")
  case True
  with assms show ?thesis by (auto simp: insert_pane_near_def)
next
  case False
  let ?l = "l\<lparr>tl_root := split_at (tl_root l) target d moved (valid_split_ratio r)\<rparr>"
  have "layout_wf ?l" using assms False by (simp add: layout_wf_split_root)
  moreover have "moved \<in> set (pane_ids ?l)" using False by (simp add: set_ids_split_at pane_ids_def)
  ultimately show ?thesis using False
    by (simp add: insert_pane_near_def Let_def layout_wf_set_focus)
qed

lemma next_focus_in_rest:
  assumes "distinct ids" "1 < length ids" "pos < length ids" "ids ! pos = target"
  shows "next_focus_after_close ids target prev pos \<in> set ids - {target}"
proof -
  let ?ord = "if pos + 1 < length ids then ids ! (pos + 1) else ids ! (pos - 1)"
  have "?ord \<in> set ids - {target}"
    using assms nth_eq_iff_index_eq [OF assms(1)] by (auto intro: nth_mem)
  then show ?thesis by (auto simp: next_focus_after_close_def Let_def split: option.splits)
qed

text \<open>What closing the focused pane of a well-formed layout does.\<close>

lemma close_focused_wf:
  assumes wf: "layout_wf l" and many: "1 < length (pane_ids l)"
  obtains pos n where
    "position (\<lambda>i. i = tl_focus l) (pane_ids l) = Some pos"
    "pos < length (pane_ids l)" "pane_ids l ! pos = tl_focus l"
    "node_remove_pane (tl_root l) (tl_focus l) = Some n"
    "close_focused l = Some (l\<lparr>tl_root := n, tl_prev_focus := None,
        tl_focus := next_focus_after_close (pane_ids l) (tl_focus l) (tl_prev_focus l) pos\<rparr>, True)"
proof -
  from wf have "position (\<lambda>i. i = tl_focus l) (pane_ids l) \<noteq> None"
    by (auto simp: layout_wf_def)
  then obtain pos where pos: "position (\<lambda>i. i = tl_focus l) (pane_ids l) = Some pos"
    by (metis not_None_eq)
  from wf many obtain n where n: "node_remove_pane (tl_root l) (tl_focus l) = Some n"
    using remove_exists [of "tl_root l" "tl_focus l"] by (auto simp: layout_wf_def pane_ids_def)
  from position_Some [OF pos] that [OF pos _ _ n] pos n many show thesis
    by (simp add: close_focused_def pane_count_ids)
qed

lemma close_focused_one: "length (pane_ids l) \<le> 1 \<Longrightarrow> close_focused l = Some (l, False)"
  by (simp add: close_focused_def pane_count_ids)

lemma layout_wf_close_focused:
  assumes "layout_wf l"
  obtains l' ok where "close_focused l = Some (l', ok)" "layout_wf l'"
    "ok \<longleftrightarrow> 1 < length (pane_ids l)"
    "pane_ids l' = (if ok then filter (\<lambda>i. i \<noteq> tl_focus l) (pane_ids l) else pane_ids l)"
proof (cases "1 < length (pane_ids l)")
  case False
  with assms that close_focused_one show thesis by fastforce
next
  case True
  from close_focused_wf [OF assms True] obtain pos n where
    c: "pos < length (pane_ids l)" "pane_ids l ! pos = tl_focus l"
      "node_remove_pane (tl_root l) (tl_focus l) = Some n"
      "close_focused l = Some (l\<lparr>tl_root := n, tl_prev_focus := None,
        tl_focus := next_focus_after_close (pane_ids l) (tl_focus l) (tl_prev_focus l) pos\<rparr>, True)"
    by metis
  let ?f = "next_focus_after_close (pane_ids l) (tl_focus l) (tl_prev_focus l) pos"
  have ids: "collect_ids n = filter (\<lambda>i. i \<noteq> tl_focus l) (pane_ids l)"
    using remove_Some(1) [OF c(3)] by (simp add: pane_ids_def)
  have "?f \<in> set (pane_ids l) - {tl_focus l}"
    using assms True c by (intro next_focus_in_rest) (auto simp: layout_wf_def)
  with ids assms have "layout_wf (l\<lparr>tl_root := n, tl_prev_focus := None, tl_focus := ?f\<rparr>)"
    by (auto simp: layout_wf_def)
  with c(4) ids True that show thesis by fastforce
qed

lemma layout_wf_close_pane:
  assumes wf: "layout_wf l"
  obtains l' ok where "close_pane l i = Some (l', ok)" "layout_wf l'"
    "ok \<longleftrightarrow> 1 < length (pane_ids l) \<and> i \<in> set (pane_ids l)"
    "pane_ids l' = (if ok then filter (\<lambda>j. j \<noteq> i) (pane_ids l) else pane_ids l)"
proof (cases "tl_focus l = i")
  case True
  from layout_wf_close_focused [OF wf] obtain l' ok where
    "close_focused l = Some (l', ok)" "layout_wf l'" "ok \<longleftrightarrow> 1 < length (pane_ids l)"
    "pane_ids l' = (if ok then filter (\<lambda>i. i \<noteq> tl_focus l) (pane_ids l) else pane_ids l)" .
  with True wf that show thesis by (auto simp: close_pane_def layout_wf_def)
next
  case focus: False
  show thesis
  proof (cases "length (pane_ids l) \<le> 1 \<or> i \<notin> set (pane_ids l)")
    case True
    with focus wf that [of l False] show thesis by (auto simp: close_pane_def pane_count_ids)
  next
    case False
    with wf obtain n where n: "node_remove_pane (tl_root l) i = Some n"
      using remove_exists [of "tl_root l" i] by (auto simp: layout_wf_def pane_ids_def not_le)
    have ids: "collect_ids n = filter (\<lambda>j. j \<noteq> i) (pane_ids l)"
      using remove_Some(1) [OF n] by (simp add: pane_ids_def)
    let ?l = "l\<lparr>tl_root := n,
       tl_prev_focus := (if tl_prev_focus l = Some i then None else tl_prev_focus l)\<rparr>"
    have "close_pane l i = Some (?l, True)"
      using focus False n by (simp add: close_pane_def pane_count_ids)
    moreover have "layout_wf ?l" using wf ids focus by (auto simp: layout_wf_def)
    ultimately show thesis using that [of ?l True] ids False by simp
  qed
qed

lemma layout_wf_swap:
  assumes "layout_wf l"
  shows "layout_wf (fst (swap_panes l f s))"
proof (cases "f = s \<or> f \<notin> set (pane_ids l) \<or> s \<notin> set (pane_ids l)")
  case True
  with assms show ?thesis by (auto simp: swap_panes_def)
next
  case False
  let ?g = "\<lambda>i. if i = f then s else if i = s then f else i"
  have inj: "inj ?g" by (auto simp: inj_def)
  have "?g ` set (pane_ids l) = set (pane_ids l)" using False by (auto simp: image_iff)
  with inj assms False show ?thesis
    by (auto simp: swap_panes_def layout_wf_def swap_ids distinct_map pane_ids_def
        intro: inj_on_subset split: if_splits)
qed

lemma layout_wf_set_ratio: "layout_wf l \<Longrightarrow> layout_wf (fst (set_ratio_at l path r))"
  by (simp add: set_ratio_at_def layout_wf_def pane_ids_def set_ratio_ids split: prod.splits)
     (metis fst_conv set_ratio_ids)

lemma valid_split_ratio_ok: "ratio_ok (valid_split_ratio r)"
  by (cases r)
     (auto simp: valid_split_ratio_def f32_is_finite_def ratio_ok_half intro: f32_clamp_ratio_ok)

subsection \<open>The contract with the tabs\<close>

lemma insert_pane_near_adds:
  assumes "insert_pane_near l target moved d r fcs = (l', True)"
  shows "moved \<notin> set (pane_ids l) \<and> target \<in> set (pane_ids l)
    \<and> set (pane_ids l') = insert moved (set (pane_ids l))"
  using assms
  by (auto simp: insert_pane_near_def Let_def set_ids_split_at pane_ids_def set_focus_def split: if_splits)

interpretation layout_tree: pane_tree layout_wf pane_ids close_pane
  "\<lambda>(d, r, fcs) l target moved. insert_pane_near l target moved d r fcs" focus_pane
proof unfold_locales
  fix l i
  assume wf: "layout_wf l"
  then show "distinct (pane_ids l)" by (simp add: layout_wf_def)
  show "layout_wf (focus_pane l i) \<and> pane_ids (focus_pane l i) = pane_ids l"
    using layout_wf_focus_pane [OF wf, of i] by (simp add: focus_pane_def)
  from wf obtain l' ok where "close_pane l i = Some (l', ok)" "layout_wf l'"
    "ok \<longleftrightarrow> 1 < length (pane_ids l) \<and> i \<in> set (pane_ids l)"
    "pane_ids l' = (if ok then filter (\<lambda>j. j \<noteq> i) (pane_ids l) else pane_ids l)"
    by (rule layout_wf_close_pane)
  then show "\<exists>l' ok. close_pane l i = Some (l', ok) \<and> layout_wf l'
      \<and> pane_ids l' = (if 1 < length (pane_ids l) then filter (\<lambda>j. j \<noteq> i) (pane_ids l) else pane_ids l)"
    by (auto intro!: filter_True [symmetric])
next
  fix l x target i l' ok
  assume "layout_wf l"
    and "(case x of (d, r, fcs) \<Rightarrow> \<lambda>l target moved. insert_pane_near l target moved d r fcs) l target i = (l', ok)"
  then show "layout_wf l' \<and> (if ok then i \<notin> set (pane_ids l) \<and> set (pane_ids l') = insert i (set (pane_ids l)) else l' = l)"
    using layout_wf_insert [of l target i "fst x" "fst (snd x)" "snd (snd x)"]
      insert_pane_near_adds [of l target i "fst x" "fst (snd x)" "snd (snd x)" l']
    by (cases x) (auto simp: insert_pane_near_def Let_def split: if_splits)
qed

text \<open>Splitting with a fresh id is inserting that id, and closing the new pane undoes it.\<close>

lemma split_pane_as_insert:
  assumes "n \<notin> set (pane_ids l)" "split_pane l target d r n = ((l', Some i), n')"
  shows "i = n \<and> n' = n + 1 \<and> insert_pane_near l target n d r False = (l', True)"
  using assms by (auto simp: split_pane_def pane_id_alloc_def insert_pane_near_def split: if_splits)

lemma split_pane_None:
  "split_pane l target d r n = ((l', None), n') \<Longrightarrow> l' = l \<and> n' = n \<and> target \<notin> set (pane_ids l)"
  by (auto simp: split_pane_def pane_id_alloc_def split: if_splits)

lemma close_after_split:
  assumes "layout_wf l" "n \<notin> set (pane_ids l)" "split_pane l target d r n = ((l', Some i), n')"
  shows "close_pane l' i = Some (l, True)"
proof -
  from assms(3) have i: "i = n" "target \<in> set (pane_ids l)"
    and l': "l' = l\<lparr>tl_root := split_at (tl_root l) target d n (valid_split_ratio r)\<rparr>"
    by (auto simp: split_pane_def pane_id_alloc_def split: if_splits)
  have "node_remove_pane (tl_root l') n = Some (tl_root l)"
    using assms(1,2) i(2) by (simp add: l' remove_after_split layout_wf_def pane_ids_def)
  moreover have "tl_focus l \<noteq> n" "tl_prev_focus l \<noteq> Some n" using assms(1,2) by (auto simp: layout_wf_def)
  moreover have ids: "set (pane_ids l') = insert n (set (pane_ids l))"
    using i(2) by (simp add: l' set_ids_split_at pane_ids_def)
  have "\<not> pane_count l' \<le> 1"
  proof
    assume "pane_count l' \<le> 1"
    then have "card (set (pane_ids l')) \<le> 1" using card_length [of "pane_ids l'"] by (simp add: pane_count_ids)
    with ids i(2) assms(2) show False by (auto simp: card_le_Suc0_iff_eq)
  qed
  ultimately show ?thesis using ids by (simp add: close_pane_def i(1) l')
qed

end
