(* ===== verification/LayoutGeometry.thy ===== *)
theory LayoutGeometry
  imports Layout
begin

section \<open>The geometry of a layout\<close>

text \<open>
  The model of the geometric half of \<open>src/src/layout.rs\<close>: the rectangles of the panes, the
  split borders, the search for a neighbour in a direction, and the resize operations.
  \<open>Rect\<close> and its constructor \<open>Rect::new\<close> belong to the ratatui crate, so the constructor
  is the parameter \<open>rn\<close> of the definitions that call it; \<open>rect_new_ok\<close> states what the
  crate documents of it. Plain \<open>u16\<close> sums wrap, as in a release build.
\<close>

record rect =
  rect_x :: u16
  rect_y :: u16
  rect_width :: u16
  rect_height :: u16

type_synonym rect_new = "u16 \<Rightarrow> u16 \<Rightarrow> u16 \<Rightarrow> u16 \<Rightarrow> rect"

record pane_info =
  pi_id :: pane_id
  pi_rect :: rect
  pi_inner_rect :: rect
  pi_scrollbar_rect :: "rect option"
  pi_borders :: u8
  pi_is_focused :: bool

record split_border =
  sb_pos :: u16
  sb_direction :: direction
  sb_ratio :: f32
  sb_area :: rect
  sb_path :: "bool list"

subsection \<open>Rectangles of the panes and of the splits\<close>

definition split_rect :: "rect_new \<Rightarrow> rect \<Rightarrow> direction \<Rightarrow> f32 \<Rightarrow> rect \<times> rect" where
  "split_rect rn area d r =
     (case d of
        Horizontal \<Rightarrow>
          (let first_w = f32_round_to_u16 (f32_scale (rect_width area) r);
               second_w = saturating_sub (rect_width area) first_w
           in (rn (rect_x area) (rect_y area) first_w (rect_height area),
               rn (rect_x area + first_w) (rect_y area) second_w (rect_height area)))
      | Vertical \<Rightarrow>
          (let first_h = f32_round_to_u16 (f32_scale (rect_height area) r);
               second_h = saturating_sub (rect_height area) first_h
           in (rn (rect_x area) (rect_y area) (rect_width area) first_h,
               rn (rect_x area) (rect_y area + first_h) (rect_width area) second_h)))"

fun collect_panes :: "rect_new \<Rightarrow> node \<Rightarrow> rect \<Rightarrow> pane_id \<Rightarrow> pane_info list" where
  "collect_panes rn (Pane i) area fcs =
     [\<lparr>pi_id = i, pi_rect = area, pi_inner_rect = area, pi_scrollbar_rect = None,
       pi_borders = 0, pi_is_focused = (i = fcs)\<rparr>]"
| "collect_panes rn (Split d r f s) area fcs =
     (let (a, b) = split_rect rn area d r
      in collect_panes rn f a fcs @ collect_panes rn s b fcs)"

fun collect_splits :: "rect_new \<Rightarrow> node \<Rightarrow> rect \<Rightarrow> bool list \<Rightarrow> split_border list" where
  "collect_splits rn (Pane i) area path = []"
| "collect_splits rn (Split d r f s) area path =
     (let (a, b) = split_rect rn area d r;
          pos = (case d of Horizontal \<Rightarrow> rect_x a + rect_width a
                         | Vertical \<Rightarrow> rect_y a + rect_height a)
      in \<lparr>sb_pos = pos, sb_direction = d, sb_ratio = r, sb_area = area, sb_path = path\<rparr>
         # collect_splits rn f a (path @ [False]) @ collect_splits rn s b (path @ [True]))"

definition layout_panes :: "rect_new \<Rightarrow> tile_layout \<Rightarrow> rect \<Rightarrow> pane_info list" where
  "layout_panes rn l area = collect_panes rn (tl_root l) area (tl_focus l)"

definition layout_splits :: "rect_new \<Rightarrow> tile_layout \<Rightarrow> rect \<Rightarrow> split_border list" where
  "layout_splits rn l area = collect_splits rn (tl_root l) area []"

subsection \<open>Neighbours in a direction\<close>

definition ranges_overlap :: "u16 \<Rightarrow> u16 \<Rightarrow> u16 \<Rightarrow> u16 \<Rightarrow> bool" where
  "ranges_overlap a_start a_len b_start b_len \<longleftrightarrow>
     a_start < b_start + b_len \<and> b_start < a_start + a_len"

definition range_overlap_amount :: "u16 \<Rightarrow> u16 \<Rightarrow> u16 \<Rightarrow> u16 \<Rightarrow> u16" where
  "range_overlap_amount a_start a_len b_start b_len =
     (let a_end = saturating_add a_start a_len; b_end = saturating_add b_start b_len
      in saturating_sub (min a_end b_end) (max a_start b_start))"

definition saturating_double_plus :: "u16 \<Rightarrow> u16 \<Rightarrow> u16" where
  "saturating_double_plus a len = saturating_add (if unat a * 2 < 2 ^ 16 then a * 2 else - 1) len"

definition abs_diff :: "u16 \<Rightarrow> u16 \<Rightarrow> u16" where
  "abs_diff a b = (if a < b then b - a else a - b)"

definition range_center_distance :: "u16 \<Rightarrow> u16 \<Rightarrow> u16 \<Rightarrow> u16 \<Rightarrow> u16" where
  "range_center_distance a_start a_len b_start b_len =
     abs_diff (saturating_double_plus a_start a_len) (saturating_double_plus b_start b_len)"

definition is_horizontal_nav :: "nav_direction \<Rightarrow> bool" where
  "is_horizontal_nav nav = (nav = NavLeft \<or> nav = NavRight)"

definition lies_in_direction :: "rect \<Rightarrow> nav_direction \<Rightarrow> rect \<Rightarrow> bool" where
  "lies_in_direction fr nav r =
     (case nav of
        NavLeft \<Rightarrow> rect_x r + rect_width r \<le> rect_x fr
          \<and> ranges_overlap (rect_y r) (rect_height r) (rect_y fr) (rect_height fr)
      | NavRight \<Rightarrow> rect_x fr + rect_width fr \<le> rect_x r
          \<and> ranges_overlap (rect_y r) (rect_height r) (rect_y fr) (rect_height fr)
      | NavUp \<Rightarrow> rect_y r + rect_height r \<le> rect_y fr
          \<and> ranges_overlap (rect_x r) (rect_width r) (rect_x fr) (rect_width fr)
      | NavDown \<Rightarrow> rect_y fr + rect_height fr \<le> rect_y r
          \<and> ranges_overlap (rect_x r) (rect_width r) (rect_x fr) (rect_width fr))"

definition edge_distance :: "rect \<Rightarrow> nav_direction \<Rightarrow> rect \<Rightarrow> u16" where
  "edge_distance fr nav r =
     (case nav of
        NavLeft \<Rightarrow> saturating_sub (rect_x fr) (rect_x r + rect_width r)
      | NavRight \<Rightarrow> saturating_sub (rect_x r) (rect_x fr + rect_width fr)
      | NavUp \<Rightarrow> saturating_sub (rect_y fr) (rect_y r + rect_height r)
      | NavDown \<Rightarrow> saturating_sub (rect_y r) (rect_y fr + rect_height fr))"

definition cross_overlap :: "rect \<Rightarrow> nav_direction \<Rightarrow> rect \<Rightarrow> u16" where
  "cross_overlap fr nav r =
     (if is_horizontal_nav nav
      then range_overlap_amount (rect_y r) (rect_height r) (rect_y fr) (rect_height fr)
      else range_overlap_amount (rect_x r) (rect_width r) (rect_x fr) (rect_width fr))"

definition cross_center_distance :: "rect \<Rightarrow> nav_direction \<Rightarrow> rect \<Rightarrow> u16" where
  "cross_center_distance fr nav r =
     (if is_horizontal_nav nav
      then range_center_distance (rect_y r) (rect_height r) (rect_y fr) (rect_height fr)
      else range_center_distance (rect_x r) (rect_width r) (rect_x fr) (rect_width fr))"

text \<open>The key \<open>(edge_distance, Reverse(overlap), center_distance, index)\<close>, ordered
  lexicographically; \<open>Reverse\<close> is the negated overlap.\<close>

definition direction_key :: "rect \<Rightarrow> nav_direction \<Rightarrow> nat \<times> pane_info \<Rightarrow> nat \<times> int \<times> nat \<times> nat" where
  "direction_key fr nav ip =
     (let r = pi_rect (snd ip)
      in (unat (edge_distance fr nav r), - int (unat (cross_overlap fr nav r)),
          unat (cross_center_distance fr nav r), fst ip))"

definition find_in_direction :: "pane_info \<Rightarrow> nav_direction \<Rightarrow> pane_info list \<Rightarrow> pane_id option" where
  "find_in_direction focused nav panes =
     map_option (\<lambda>(i, p). pi_id p)
       (min_by_key (direction_key (pi_rect focused) nav)
         (filter (\<lambda>(i, p). lies_in_direction (pi_rect focused) nav (pi_rect p))
           (filter (\<lambda>(i, p). pi_id p \<noteq> pi_id focused) (List.enumerate 0 panes))))"

subsection \<open>Resizing\<close>

definition opposite_direction :: "nav_direction \<Rightarrow> nav_direction" where
  "opposite_direction nav =
     (case nav of NavLeft \<Rightarrow> NavRight | NavRight \<Rightarrow> NavLeft | NavUp \<Rightarrow> NavDown | NavDown \<Rightarrow> NavUp)"

definition split_edge_distance :: "split_border \<Rightarrow> rect \<Rightarrow> nav_direction \<Rightarrow> nat" where
  "split_edge_distance sb focused nav =
     nat \<bar>int (unat (sb_pos sb)) -
       int (unat (case nav of
         NavLeft \<Rightarrow> rect_x focused
       | NavRight \<Rightarrow> rect_x focused + rect_width focused
       | NavUp \<Rightarrow> rect_y focused
       | NavDown \<Rightarrow> rect_y focused + rect_height focused))\<bar>"

definition split_on_requested_edge :: "split_border \<Rightarrow> rect \<Rightarrow> nav_direction \<Rightarrow> bool" where
  "split_on_requested_edge sb focused nav = (split_edge_distance sb focused nav \<le> 1)"

definition split_area_overlaps_focused_pane :: "split_border \<Rightarrow> rect \<Rightarrow> nav_direction \<Rightarrow> bool" where
  "split_area_overlaps_focused_pane sb focused nav =
     (if is_horizontal_nav nav
      then ranges_overlap (rect_y (sb_area sb)) (rect_height (sb_area sb)) (rect_y focused) (rect_height focused)
      else ranges_overlap (rect_x (sb_area sb)) (rect_width (sb_area sb)) (rect_x focused) (rect_width focused))"

definition nearest_resize_split ::
  "split_border list \<Rightarrow> direction \<Rightarrow> rect \<Rightarrow> nav_direction \<Rightarrow> split_border option" where
  "nearest_resize_split splits target_dir focused nav =
     min_by_key (\<lambda>sb. split_edge_distance sb focused nav)
       (filter (\<lambda>sb. split_on_requested_edge sb focused nav)
         (filter (\<lambda>sb. split_area_overlaps_focused_pane sb focused nav)
           (filter (\<lambda>sb. sb_direction sb = target_dir) splits)))"

definition resize_focused ::
  "rect_new \<Rightarrow> tile_layout \<Rightarrow> nav_direction \<Rightarrow> f32 \<Rightarrow> rect \<Rightarrow> tile_layout" where
  "resize_focused rn l nav delta area =
     (case find pi_is_focused (layout_panes rn l area) of
        None \<Rightarrow> l
      | Some focused \<Rightarrow>
          (let splits = layout_splits rn l area;
               target_dir = (if is_horizontal_nav nav then Horizontal else Vertical);
               grows = (nav = NavRight \<or> nav = NavDown);
               best = or_else (nearest_resize_split splits target_dir (pi_rect focused) nav)
                        (nearest_resize_split splits target_dir (pi_rect focused) (opposite_direction nav))
           in (case best of
                 None \<Rightarrow> l
               | Some sb \<Rightarrow>
                   (let current = (case get_ratio_at (tl_root l) (sb_path sb) of Some r \<Rightarrow> r | None \<Rightarrow> f32_half);
                        adj = (if grows then delta else f32_neg delta)
                    in fst (set_ratio_at l (sb_path sb) (f32_add current adj))))))"

text \<open>\<open>Vec<(Vec<bool>, f32)>\<close> compares element by element with the IEEE equality.\<close>

definition ratios_eq :: "(bool list \<times> f32) list \<Rightarrow> (bool list \<times> f32) list \<Rightarrow> bool" where
  "ratios_eq xs ys = list_all2 (\<lambda>(p, r) (q, s). p = q \<and> f32_eq r s) xs ys"

definition resize_pane ::
  "rect_new \<Rightarrow> tile_layout \<Rightarrow> pane_id \<Rightarrow> nav_direction \<Rightarrow> f32 \<Rightarrow> rect \<Rightarrow> tile_layout \<times> bool" where
  "resize_pane rn l i nav delta area =
     (if i \<notin> set (pane_ids l) then (l, False)
      else (let before = split_ratios (tl_root l);
                previous_focus = tl_focus l;
                l1 = resize_focused rn (l\<lparr>tl_focus := i\<rparr>) nav delta area;
                l2 = l1\<lparr>tl_focus := previous_focus\<rparr>
            in (l2, \<not> ratios_eq (split_ratios (tl_root l2)) before)))"

end
