(* ===== verification/LayoutSteps.thy ===== *)
theory LayoutSteps
  imports LayoutGeometry
begin

section \<open>Tiling, navigation and resizing: what the geometry guarantees\<close>

text \<open>
  The panes of a layout tile the area: every cell of the area lies in exactly one pane's
  rectangle. The lemmas on one split come first, then the tree, then the neighbour search
  and the resize operations.
\<close>

text \<open>What ratatui documents of \<open>Rect::new\<close>: a rectangle whose far edges stay within
  \<open>u16\<close> is built from the four arguments as they are.\<close>

definition rect_new_ok :: "rect_new \<Rightarrow> bool" where
  "rect_new_ok rn \<longleftrightarrow> (\<forall>x y w h. unat x + unat w < 2 ^ 16 \<and> unat y + unat h < 2 ^ 16 \<longrightarrow>
     rn x y w h = \<lparr>rect_x = x, rect_y = y, rect_width = w, rect_height = h\<rparr>)"

definition plain_rect :: rect_new where
  "plain_rect x y w h = \<lparr>rect_x = x, rect_y = y, rect_width = w, rect_height = h\<rparr>"

lemma plain_rect_ok: "rect_new_ok plain_rect"
  by (simp add: rect_new_ok_def plain_rect_def)

definition rect_fits :: "rect \<Rightarrow> bool" where
  "rect_fits r \<longleftrightarrow> unat (rect_x r) + unat (rect_width r) < 2 ^ 16
     \<and> unat (rect_y r) + unat (rect_height r) < 2 ^ 16"

definition cell_in :: "rect \<Rightarrow> nat \<Rightarrow> nat \<Rightarrow> bool" where
  "cell_in r i j \<longleftrightarrow> unat (rect_x r) \<le> i \<and> i < unat (rect_x r) + unat (rect_width r)
     \<and> unat (rect_y r) \<le> j \<and> j < unat (rect_y r) + unat (rect_height r)"

definition rect_cells :: "rect \<Rightarrow> nat" where
  "rect_cells r = unat (rect_width r) * unat (rect_height r)"

lemma split_rect_parts:
  assumes "rect_new_ok rn" "rect_fits area" "ratio_unit r" "split_rect rn area d r = (a, b)"
  shows "rect_fits a" "rect_fits b"
    and "cell_in area i j \<longleftrightarrow> cell_in a i j \<or> cell_in b i j"
    and "\<not> (cell_in a i j \<and> cell_in b i j)"
proof -
  let ?w = "f32_round_to_u16 (f32_scale (rect_width area) r)"
  let ?h = "f32_round_to_u16 (f32_scale (rect_height area) r)"
  have w: "unat ?w \<le> unat (rect_width area)" and h: "unat ?h \<le> unat (rect_height area)"
    using assms(3) by (rule ratio_unit_scale)+
  have x: "unat (rect_x area + ?w) = unat (rect_x area) + unat ?w"
    using w assms(2) by (intro unat_add_no_wrap) (auto simp: rect_fits_def)
  have y: "unat (rect_y area + ?h) = unat (rect_y area) + unat ?h"
    using h assms(2) by (intro unat_add_no_wrap) (auto simp: rect_fits_def)
  note facts = w h x y assms(2)
  show "rect_fits a" "rect_fits b" "cell_in area i j \<longleftrightarrow> cell_in a i j \<or> cell_in b i j"
    "\<not> (cell_in a i j \<and> cell_in b i j)"
    using assms(1,4) facts
    by (cases d; auto simp: split_rect_def Let_def rect_new_ok_def rect_fits_def cell_in_def
        unat_saturating_sub)+
qed

lemma panes_tile:
  assumes "rect_new_ok rn" "rect_fits area" "\<forall>r \<in> node_ratios n. ratio_unit r"
  shows "length (filter (\<lambda>p. cell_in (pi_rect p) i j) (collect_panes rn n area fcs))
    = (if cell_in area i j then 1 else 0)"
  using assms(2,3)
proof (induction n arbitrary: area)
  case (Pane k)
  then show ?case by simp
next
  case (Split d r f s)
  obtain a b where ab: "split_rect rn area d r = (a, b)" by (cases "split_rect rn area d r")
  from Split.prems have "ratio_unit r" by simp
  note parts = split_rect_parts [OF assms(1) Split.prems(1) this ab]
  from Split.IH(1) [OF parts(1)] Split.IH(2) [OF parts(2)] Split.prems(2)
  have "length (filter (\<lambda>p. cell_in (pi_rect p) i j) (collect_panes rn (Split d r f s) area fcs))
    = (if cell_in a i j then 1 else 0) + (if cell_in b i j then 1 else 0)"
    by (simp add: ab)
  with parts(3,4) [of i j] show ?case by auto
qed

lemma collect_panes_ids: "map pi_id (collect_panes rn n area fcs) = collect_ids n"
  by (induction n arbitrary: area) (auto split: prod.splits)

lemma collect_panes_focused:
  "p \<in> set (collect_panes rn n area fcs) \<Longrightarrow> pi_is_focused p \<longleftrightarrow> pi_id p = fcs"
  by (induction n arbitrary: area) (auto split: prod.splits)

lemma split_rect_not_empty:
  assumes "rect_new_ok rn" "rect_fits area" "ratio_ok r" "split_rect rn area d r = (a, b)"
    and "case d of Horizontal \<Rightarrow> 10 \<le> unat (rect_width area) \<and> rect_height area \<noteq> 0
                 | Vertical \<Rightarrow> 10 \<le> unat (rect_height area) \<and> rect_width area \<noteq> 0"
  shows "0 < rect_cells a \<and> 0 < rect_cells b \<and> rect_cells a + rect_cells b = rect_cells area"
proof (cases d)
  case Horizontal
  let ?w = "f32_round_to_u16 (f32_scale (rect_width area) r)"
  have w: "1 \<le> unat ?w" "unat ?w < unat (rect_width area)"
    using ratio_ok_scale [OF assms(3), of "rect_width area"] assms(5) Horizontal by auto
  then have "unat (rect_x area + ?w) = unat (rect_x area) + unat ?w"
    using assms(2) by (intro unat_add_no_wrap) (auto simp: rect_fits_def)
  with w have "unat (rect_width a) = unat ?w" "unat (rect_width b) = unat (rect_width area) - unat ?w"
    "rect_height a = rect_height area" "rect_height b = rect_height area"
    using assms(1,2,4) Horizontal
    by (auto simp: split_rect_def Let_def rect_new_ok_def rect_fits_def unat_saturating_sub)
  with w assms(5) Horizontal show ?thesis
    by (auto simp: rect_cells_def unat_gt_0 simp flip: add_mult_distrib)
next
  case Vertical
  let ?h = "f32_round_to_u16 (f32_scale (rect_height area) r)"
  have h: "1 \<le> unat ?h" "unat ?h < unat (rect_height area)"
    using ratio_ok_scale [OF assms(3), of "rect_height area"] assms(5) Vertical by auto
  then have "unat (rect_y area + ?h) = unat (rect_y area) + unat ?h"
    using assms(2) by (intro unat_add_no_wrap) (auto simp: rect_fits_def)
  with h have "unat (rect_height a) = unat ?h" "unat (rect_height b) = unat (rect_height area) - unat ?h"
    "rect_width a = rect_width area" "rect_width b = rect_width area"
    using assms(1,2,4) Vertical
    by (auto simp: split_rect_def Let_def rect_new_ok_def rect_fits_def unat_saturating_sub)
  with h assms(5) Vertical show ?thesis
    by (auto simp: rect_cells_def unat_gt_0 simp flip: add_mult_distrib2)
qed

subsection \<open>Neighbours\<close>

definition direction_candidates :: "pane_info \<Rightarrow> nav_direction \<Rightarrow> pane_info list \<Rightarrow> pane_info set" where
  "direction_candidates focused nav panes =
     {p \<in> set panes. pi_id p \<noteq> pi_id focused \<and> lies_in_direction (pi_rect focused) nav (pi_rect p)}"

lemma enumerate_set: "(i, p) \<in> set (List.enumerate n xs) \<Longrightarrow> p \<in> set xs"
  by (auto simp: enumerate_eq_zip dest: set_zip_rightD)

lemma set_enumerate_ex: "p \<in> set xs \<Longrightarrow> \<exists>i. (i, p) \<in> set (List.enumerate n xs)"
  by (induction xs arbitrary: n) (force simp: enumerate_simps)+

lemma direction_key_le:
  assumes "direction_key fr nav (i, p) \<le> direction_key fr nav (j, q)"
  shows "edge_distance fr nav (pi_rect p) < edge_distance fr nav (pi_rect q)
    \<or> edge_distance fr nav (pi_rect p) = edge_distance fr nav (pi_rect q)
      \<and> cross_overlap fr nav (pi_rect q) \<le> cross_overlap fr nav (pi_rect p)"
  using assms
  by (auto simp: direction_key_def Let_def less_eq_prod_def
      simp flip: word_less_nat_alt word_le_nat_alt word_less_def word_le_def)

lemma find_in_direction_Some:
  assumes "find_in_direction focused nav panes = Some k"
  shows "\<exists>p \<in> direction_candidates focused nav panes. pi_id p = k
    \<and> (\<forall>q \<in> direction_candidates focused nav panes.
         edge_distance (pi_rect focused) nav (pi_rect p) < edge_distance (pi_rect focused) nav (pi_rect q)
       \<or> edge_distance (pi_rect focused) nav (pi_rect p) = edge_distance (pi_rect focused) nav (pi_rect q)
         \<and> cross_overlap (pi_rect focused) nav (pi_rect q) \<le> cross_overlap (pi_rect focused) nav (pi_rect p))"
proof -
  let ?C = "filter (\<lambda>(i, p). lies_in_direction (pi_rect focused) nav (pi_rect p))
           (filter (\<lambda>(i, p). pi_id p \<noteq> pi_id focused) (List.enumerate 0 panes))"
  let ?key = "direction_key (pi_rect focused) nav"
  from assms obtain i p where m: "min_by_key ?key ?C = Some (i, p)" and k: "pi_id p = k"
    by (auto simp: find_in_direction_def)
  note min = min_by_key_Some [OF m]
  have "p \<in> direction_candidates focused nav panes"
    using min by (auto simp: direction_candidates_def dest: enumerate_set)
  moreover have "\<exists>j. ?key (i, p) \<le> ?key (j, q)" if q: "q \<in> direction_candidates focused nav panes" for q
  proof -
    from q obtain j where "(j, q) \<in> set (List.enumerate 0 panes)"
      using set_enumerate_ex [of q panes 0] by (auto simp: direction_candidates_def)
    with q have "(j, q) \<in> set ?C" by (auto simp: direction_candidates_def)
    with min show ?thesis by blast
  qed
  ultimately show ?thesis using k direction_key_le by blast
qed

lemma find_in_direction_None:
  "find_in_direction focused nav panes = None \<longleftrightarrow> direction_candidates focused nav panes = {}"
  using enumerate_set [of _ _ 0 panes] set_enumerate_ex [of _ panes 0]
  by (fastforce simp: find_in_direction_def direction_candidates_def filter_empty_conv)

subsection \<open>Resizing\<close>

lemma resize_focused_cases:
  "resize_focused rn l nav delta area = l \<or>
   (\<exists>path r. resize_focused rn l nav delta area = fst (set_ratio_at l path r))"
  by (simp add: resize_focused_def Let_def split: option.splits) blast

lemma set_ratio_at_keeps:
  "pane_ids (fst (set_ratio_at l path r)) = pane_ids l"
  "tl_focus (fst (set_ratio_at l path r)) = tl_focus l"
  "tl_prev_focus (fst (set_ratio_at l path r)) = tl_prev_focus l"
  by (simp_all add: set_ratio_at_def pane_ids_def split: prod.splits) (metis fst_conv set_ratio_ids)

lemma resize_focused_keeps:
  "pane_ids (resize_focused rn l nav delta area) = pane_ids l"
  "tl_focus (resize_focused rn l nav delta area) = tl_focus l"
  "tl_prev_focus (resize_focused rn l nav delta area) = tl_prev_focus l"
  using resize_focused_cases [of rn l nav delta area] set_ratio_at_keeps by auto

lemma layout_wf_resize_focused: "layout_wf l \<Longrightarrow> layout_wf (resize_focused rn l nav delta area)"
  by (simp add: layout_wf_def resize_focused_keeps)

lemma resize_pane_keeps:
  "pane_ids (fst (resize_pane rn l i nav delta area)) = pane_ids l"
  "tl_focus (fst (resize_pane rn l i nav delta area)) = tl_focus l"
  "tl_prev_focus (fst (resize_pane rn l i nav delta area)) = tl_prev_focus l"
  by (simp_all add: resize_pane_def Let_def resize_focused_keeps)

lemma set_ratio_at_others:
  "q \<noteq> path \<Longrightarrow> get_ratio_at (tl_root (fst (set_ratio_at l path r))) q = get_ratio_at (tl_root l) q"
proof -
  assume q: "q \<noteq> path"
  let ?r = "f32_clamp r f32_tenth f32_nine_tenths"
  have "get_ratio_at (fst (node_set_ratio_at (tl_root l) path ?r)) q = get_ratio_at (tl_root l) q"
  proof (cases "snd (node_set_ratio_at (tl_root l) path ?r)")
    case True
    with q show ?thesis by (simp add: get_after_set_ratio)
  next
    case False
    then show ?thesis by (simp add: set_ratio_fail)
  qed
  moreover have "tl_root (fst (set_ratio_at l path r)) = fst (node_set_ratio_at (tl_root l) path ?r)"
    by (simp add: set_ratio_at_def case_prod_beta)
  ultimately show ?thesis by simp
qed

lemma resize_pane_others:
  "\<exists>path. \<forall>q. q \<noteq> path \<longrightarrow>
     get_ratio_at (tl_root (fst (resize_pane rn l i nav delta area))) q = get_ratio_at (tl_root l) q"
proof -
  let ?l = "l\<lparr>tl_focus := i\<rparr>"
  from resize_focused_cases [of rn ?l nav delta area] obtain path where
    "\<forall>q. q \<noteq> path \<longrightarrow> get_ratio_at (tl_root (resize_focused rn ?l nav delta area)) q = get_ratio_at (tl_root ?l) q"
  proof (elim disjE exE)
    fix path r
    assume "resize_focused rn ?l nav delta area = fst (set_ratio_at ?l path r)"
    then show thesis using set_ratio_at_others [where l = ?l and path = path and r = r]
      by (intro that [of path]) (rule allI, rule impI, simp only:)
  qed (use that in simp)
  then show ?thesis by (auto simp: resize_pane_def Let_def)
qed

lemma layout_wf_resize_pane: "layout_wf l \<Longrightarrow> layout_wf (fst (resize_pane rn l i nav delta area))"
  by (simp add: layout_wf_def resize_pane_keeps)

section \<open>Reachable layouts\<close>

text \<open>
  The layout as a state machine: a state is a layout together with the global pane id
  counter, a step is one call of a public operation of \<open>TileLayout\<close>. The invariant says
  that the tree's ids are distinct and all below the counter, that focus and previous
  focus are live and different, and that every ratio lies between \<open>0.1\<close> and \<open>0.9\<close>. It
  holds in every reachable state, so a reachable layout tiles its area. The rules leave
  out a counter that wraps (the code would reuse ids after \<open>2 ^ 32\<close> panes) and a ratio
  that is not a number (the API handler rejects those before it calls the layout).
\<close>

type_synonym layout_state = "tile_layout \<times> u32"

inductive layout_step :: "rect_new \<Rightarrow> layout_state \<Rightarrow> layout_state \<Rightarrow> bool" for rn where
  split: "unat n + 1 < 2 ^ 32 \<Longrightarrow> split_pane l target d r n = ((l', res), n')
     \<Longrightarrow> layout_step rn (l, n) (l', n')"
| insert: "unat moved < unat n \<Longrightarrow> insert_pane_near l target moved d r fcs = (l', ok)
     \<Longrightarrow> layout_step rn (l, n) (l', n)"
| close_foc: "close_focused l = Some (l', ok) \<Longrightarrow> layout_step rn (l, n) (l', n)"
| close: "close_pane l i = Some (l', ok) \<Longrightarrow> layout_step rn (l, n) (l', n)"
| focus: "layout_step rn (l, n) (focus_pane l i, n)"
| swap: "swap_panes l f s = (l', ok) \<Longrightarrow> layout_step rn (l, n) (l', n)"
| set_ratio: "r \<noteq> F32_NaN \<Longrightarrow> set_ratio_at l path r = (l', ok) \<Longrightarrow> layout_step rn (l, n) (l', n)"
| resize_foc: "delta \<noteq> F32_NaN \<Longrightarrow> layout_step rn (l, n) (resize_focused rn l nav delta area, n)"
| resize: "delta \<noteq> F32_NaN \<Longrightarrow> resize_pane rn l i nav delta area = (l', changed)
     \<Longrightarrow> layout_step rn (l, n) (l', n)"

inductive layout_reachable :: "rect_new \<Rightarrow> layout_state \<Rightarrow> bool" for rn where
  start: "unat n + 1 < 2 ^ 32 \<Longrightarrow> tile_layout_new n = ((l, i), n') \<Longrightarrow> layout_reachable rn (l, n')"
| step: "layout_reachable rn s \<Longrightarrow> layout_step rn s t \<Longrightarrow> layout_reachable rn t"

definition layout_inv :: "layout_state \<Rightarrow> bool" where
  "layout_inv s \<longleftrightarrow> layout_wf (fst s) \<and> (\<forall>i \<in> set (pane_ids (fst s)). unat i < unat (snd s))
     \<and> (\<forall>r \<in> node_ratios (tl_root (fst s)). ratio_ok r)"

subsection \<open>Ratios through the operations\<close>

lemma get_ratio_in: "get_ratio_at n path = Some r \<Longrightarrow> r \<in> node_ratios n"
  by (induction n path rule: get_ratio_at.induct) (auto split: if_splits)

lemma f32_rnd_not_NaN: "f32_rnd n \<noteq> F32_NaN"
  by (simp add: f32_rnd_def Let_def)

lemma ratio_add_not_NaN: "ratio_ok r \<Longrightarrow> d \<noteq> F32_NaN \<Longrightarrow> f32_add r d \<noteq> F32_NaN"
  by (cases r; cases d) (auto simp: ratio_ok_def f32_rnd_not_NaN)

lemma f32_neg_NaN_iff: "f32_neg d = F32_NaN \<longleftrightarrow> d = F32_NaN"
  by (cases d) auto

lemma set_ratio_at_ratios:
  assumes "r \<noteq> F32_NaN" "\<forall>q \<in> node_ratios (tl_root l). ratio_ok q"
  shows "\<forall>q \<in> node_ratios (tl_root (fst (set_ratio_at l path r))). ratio_ok q"
proof -
  let ?r = "f32_clamp r f32_tenth f32_nine_tenths"
  have "tl_root (fst (set_ratio_at l path r)) = fst (node_set_ratio_at (tl_root l) path ?r)"
    by (simp add: set_ratio_at_def split: prod.splits)
  with set_ratio_ratios [of "tl_root l" path ?r] f32_clamp_ratio_ok [OF assms(1)] assms(2)
  show ?thesis by auto
qed

lemma resize_focused_ratios:
  assumes "delta \<noteq> F32_NaN" "\<forall>q \<in> node_ratios (tl_root l). ratio_ok q"
  shows "\<forall>q \<in> node_ratios (tl_root (resize_focused rn l nav delta area)). ratio_ok q"
proof -
  have step: "\<forall>q \<in> node_ratios (tl_root (fst (set_ratio_at l path
      (f32_add (case get_ratio_at (tl_root l) path of Some r \<Rightarrow> r | None \<Rightarrow> f32_half) adj)))). ratio_ok q"
    if "adj \<noteq> F32_NaN" for path adj
    using assms(2) that ratio_ok_half
    by (intro set_ratio_at_ratios ratio_add_not_NaN) (auto dest: get_ratio_in split: option.splits)
  show ?thesis
    using assms step f32_neg_NaN_iff [of delta]
    by (simp add: resize_focused_def Let_def split: option.splits)
qed

lemma resize_pane_ratios:
  assumes "delta \<noteq> F32_NaN" "\<forall>q \<in> node_ratios (tl_root l). ratio_ok q"
  shows "\<forall>q \<in> node_ratios (tl_root (fst (resize_pane rn l i nav delta area))). ratio_ok q"
  using assms resize_focused_ratios [of delta "l\<lparr>tl_focus := i\<rparr>"]
  by (simp add: resize_pane_def Let_def)

lemma split_pane_ratios:
  assumes "\<forall>q \<in> node_ratios (tl_root l). ratio_ok q"
  shows "\<forall>q \<in> node_ratios (split_at (tl_root l) target d i (valid_split_ratio r)). ratio_ok q"
  using ratios_split_at [of "tl_root l" target d i "valid_split_ratio r"] assms valid_split_ratio_ok
  by blast

lemma remove_ratio_in: "node_remove_pane n i = Some n' \<Longrightarrow> r \<in> node_ratios n' \<Longrightarrow> r \<in> node_ratios n"
  using remove_Some(2) by blast

lemma close_focused_ratios:
  assumes "close_focused l = Some (l', ok)"
  shows "node_ratios (tl_root l') \<subseteq> node_ratios (tl_root l)"
  using assms
  by (auto simp: close_focused_def Let_def split: if_splits option.splits dest: remove_ratio_in)

lemma close_pane_ratios:
  assumes "close_pane l i = Some (l', ok)"
  shows "node_ratios (tl_root l') \<subseteq> node_ratios (tl_root l)"
  using assms
  by (auto simp: close_pane_def Let_def split: if_splits option.splits
      dest: remove_ratio_in subsetD [OF close_focused_ratios])

lemma focus_pane_keeps:
  "pane_ids (focus_pane l i) = pane_ids l" "tl_root (focus_pane l i) = tl_root l"
  by (simp_all add: focus_pane_def set_focus_def)

subsection \<open>The invariant\<close>

lemma layout_inv_new:
  "unat n + 1 < 2 ^ 32 \<Longrightarrow> tile_layout_new n = ((l, i), n') \<Longrightarrow> layout_inv (l, n')"
  using layout_wf_new [of n]
  by (auto simp: layout_inv_def tile_layout_new_def pane_id_alloc_def pane_ids_def unat_add_no_wrap)

lemma ids_below_split:
  assumes "\<forall>i \<in> set (pane_ids l). unat i < unat (n::u32)" "unat moved < unat m" "unat n \<le> unat m"
  shows "\<forall>i \<in> set (collect_ids (split_at (tl_root l) target d moved r)). unat i < unat (m::u32)"
  using assms by (fastforce simp: set_ids_split_at pane_ids_def split: if_splits)

lemma layout_step_inv: "layout_step rn s t \<Longrightarrow> layout_inv s \<Longrightarrow> layout_inv t"
proof (induction rule: layout_step.induct)
  case (split n l target d r l' res n')
  have next': "unat (n + 1) = unat n + 1" using split.hyps(1) by (simp add: unat_add_no_wrap)
  have fresh: "n \<notin> set (pane_ids l)" using split.prems by (auto simp: layout_inv_def)
  show ?case
  proof (cases "target \<in> set (pane_ids l)")
    case False
    with split show ?thesis by (simp add: split_pane_def)
  next
    case True
    with split.hyps(2) have l': "l' = l\<lparr>tl_root := split_at (tl_root l) target d n (valid_split_ratio r)\<rparr>"
      "n' = n + 1" by (auto simp: split_pane_def pane_id_alloc_def)
    from split.prems have "\<forall>q \<in> node_ratios (tl_root l). ratio_ok q" by (simp add: layout_inv_def)
    with split.prems fresh next' show ?thesis
      unfolding l' using ids_below_split [of l n n "n + 1"] split_pane_ratios [of l target d n r]
      by (simp add: layout_inv_def layout_wf_split_root)
  qed
next
  case (insert moved n l target d r fcs l' ok)
  have wf: "layout_wf l'" using layout_wf_insert [of l target moved d r fcs] insert
    by (simp add: layout_inv_def)
  have root: "tl_root l' = tl_root l \<or> tl_root l' = split_at (tl_root l) target d moved (valid_split_ratio r)"
    using insert.hyps(2) by (auto simp: insert_pane_near_def set_focus_def Let_def split: if_splits)
  from insert.prems have old: "\<forall>i \<in> set (pane_ids l). unat i < unat n"
    "\<forall>q \<in> node_ratios (tl_root l). ratio_ok q" by (simp_all add: layout_inv_def)
  have new: "\<forall>i \<in> set (collect_ids (split_at (tl_root l) target d moved (valid_split_ratio r))). unat i < unat n"
    by (rule ids_below_split [OF old(1) insert.hyps(1) order_refl])
  have "\<forall>i \<in> set (pane_ids l'). unat i < unat n"
    using root old(1) new by (elim disjE) (simp_all only: pane_ids_def)
  moreover have "\<forall>q \<in> node_ratios (tl_root l'). ratio_ok q"
    using root old(2) split_pane_ratios [OF old(2)] by (elim disjE) (simp_all only:)
  ultimately show ?case using wf by (simp add: layout_inv_def)
next
  case (close_foc l l' ok n)
  then have "layout_wf l" by (simp add: layout_inv_def)
  from layout_wf_close_focused [OF this] obtain l2 ok2 where "close_focused l = Some (l2, ok2)"
    "layout_wf l2" "pane_ids l2 = (if ok2 then filter (\<lambda>i. i \<noteq> tl_focus l) (pane_ids l) else pane_ids l)" .
  with close_foc.hyps have "layout_wf l'" "set (pane_ids l') \<subseteq> set (pane_ids l)" by auto
  with close_foc.prems close_focused_ratios [OF close_foc.hyps] show ?case by (auto simp: layout_inv_def)
next
  case (close l i l' ok n)
  then have "layout_wf l" by (simp add: layout_inv_def)
  from layout_wf_close_pane [OF this, of i] obtain l2 ok2 where "close_pane l i = Some (l2, ok2)"
    "layout_wf l2" "pane_ids l2 = (if ok2 then filter (\<lambda>j. j \<noteq> i) (pane_ids l) else pane_ids l)" .
  with close.hyps have "layout_wf l'" "set (pane_ids l') \<subseteq> set (pane_ids l)" by auto
  with close.prems close_pane_ratios [OF close.hyps] show ?case by (auto simp: layout_inv_def)
next
  case (focus l n i)
  then show ?case
    by (simp add: layout_inv_def layout_wf_focus_pane focus_pane_keeps)
next
  case (swap l f s l' ok n)
  have "set (pane_ids l') \<subseteq> set (pane_ids l)" "node_ratios (tl_root l') = node_ratios (tl_root l)"
    using swap.hyps
    by (auto simp: swap_panes_def pane_ids_def swap_ids swap_node_ratios split: if_splits)
  with swap layout_wf_swap [of l f s] show ?case by (auto simp: layout_inv_def)
next
  case (set_ratio r l path l' ok n)
  with set_ratio_at_ratios [of r l path] layout_wf_set_ratio [of l path r] set_ratio_at_keeps [of l path r]
  show ?case by (simp add: layout_inv_def)
next
  case (resize_foc delta l n nav area)
  with resize_focused_ratios [of delta l] show ?case
    by (simp add: layout_inv_def layout_wf_resize_focused resize_focused_keeps)
next
  case (resize delta l i nav area l' changed n)
  with resize_pane_ratios [of delta l rn i nav area] layout_wf_resize_pane [of l rn i nav delta area]
    resize_pane_keeps [of rn l i nav delta area]
  show ?case by (simp add: layout_inv_def)
qed

lemma layout_reachable_inv: "layout_reachable rn s \<Longrightarrow> layout_inv s"
  by (induction rule: layout_reachable.induct) (auto intro: layout_inv_new layout_step_inv)

end
