(* ===== verification/LayoutProps.thy ===== *)
theory LayoutProps
  imports LayoutSteps
begin

section \<open>Properties of the layout\<close>

text \<open>
  The properties of the tiling layout that the rest of the program relies on, each with a
  witness on a small concrete layout: pane 1 split horizontally at one half, then pane 2
  split vertically.
\<close>

definition demo_layout :: tile_layout where
  "demo_layout = \<lparr>tl_root = Split Horizontal f32_half (Pane 1) (Split Vertical f32_half (Pane 2) (Pane 3)),
     tl_focus = 2, tl_prev_focus = Some 1\<rparr>"

definition demo_area :: rect where
  "demo_area = \<lparr>rect_x = 0, rect_y = 1, rect_width = 80, rect_height = 24\<rparr>"

definition demo_pane :: "pane_id \<Rightarrow> u16 \<Rightarrow> u16 \<Rightarrow> pane_info" where
  "demo_pane i x w =
     (let r = \<lparr>rect_x = x, rect_y = 1, rect_width = w, rect_height = 24\<rparr>
      in \<lparr>pi_id = i, pi_rect = r, pi_inner_rect = r, pi_scrollbar_rect = None, pi_borders = 0,
          pi_is_focused = (i = 2)\<rparr>)"

lemma demo_layout_wf: "layout_wf demo_layout"
  by (simp add: demo_layout_def layout_wf_def pane_ids_def)

lemma demo_area_fits: "rect_fits demo_area"
  by (simp add: demo_area_def rect_fits_def)

lemma valid_half: "valid_split_ratio f32_half = f32_half"
  by (simp add: valid_split_ratio_def f32_is_finite_def f32_half_def f32_clamp_def f32_tenth_def
      f32_nine_tenths_def)

lemma demo_layout_reachable: "layout_reachable plain_rect (demo_layout, 4)"
proof -
  let ?l0 = "\<lparr>tl_root = Pane 1, tl_focus = 1, tl_prev_focus = None\<rparr>"
  let ?l1 = "?l0\<lparr>tl_root := Split Horizontal f32_half (Pane 1) (Pane 2)\<rparr>"
  let ?l2 = "?l1\<lparr>tl_focus := 2, tl_prev_focus := Some 1\<rparr>"
  have 0: "layout_reachable plain_rect (?l0, 2)"
    by (rule layout_reachable.start [of 1 _ 1]) (simp_all add: tile_layout_new_def pane_id_alloc_def)
  have 1: "layout_step plain_rect (?l0, 2) (?l1, 3)"
    by (rule layout_step.split [where target = 1 and d = Horizontal and r = f32_half and res = "Some 2"])
       (simp_all add: split_pane_def pane_id_alloc_def pane_ids_def valid_half)
  have 2: "layout_step plain_rect (?l1, 3) (?l2, 3)"
    using layout_step.focus [of plain_rect ?l1 3 2] by (simp add: focus_pane_def set_focus_def pane_ids_def)
  have 3: "layout_step plain_rect (?l2, 3) (demo_layout, 4)"
    by (rule layout_step.split [where target = 2 and d = Vertical and r = f32_half and res = "Some 3"])
       (simp_all add: split_pane_def pane_id_alloc_def pane_ids_def valid_half demo_layout_def)
  from 0 1 2 3 show ?thesis by (blast intro: layout_reachable.step)
qed

text \<open>Property C12. In every reachable layout the pane ids are distinct, the focused pane is in
  the tree, the remembered previous focus is another live pane, and every split ratio lies between
  0.1 and 0.9.\<close>

theorem layout_reachable_invariant:
  assumes "layout_reachable rn (l, n)"
  shows "distinct (pane_ids l) \<and> tl_focus l \<in> set (pane_ids l)
    \<and> tl_prev_focus l \<noteq> Some (tl_focus l)
    \<and> set_option (tl_prev_focus l) \<subseteq> set (pane_ids l)
    \<and> node_ratios (tl_root l) \<subseteq> {r. ratio_ok r}"
  using layout_reachable_inv [OF assms] by (auto simp: layout_inv_def layout_wf_def)

theorem layout_reachable_invariant_witness:
  "distinct (pane_ids demo_layout) \<and> tl_prev_focus demo_layout \<noteq> Some (tl_focus demo_layout)"
  using layout_reachable_invariant [OF demo_layout_reachable] by blast

text \<open>Property C3. The panes of a reachable layout tile the area they are laid out in: a cell
  inside the area lies in exactly one pane rectangle, a cell outside in none.\<close>

theorem layout_tiles_area:
  assumes "rect_new_ok rn" "layout_reachable rn (l, n)" "rect_fits area"
  shows "length (filter (\<lambda>p. cell_in (pi_rect p) i j) (layout_panes rn l area))
    = (if cell_in area i j then 1 else 0)"
  unfolding layout_panes_def
  using layout_reachable_inv [OF assms(2)] assms(1,3)
  by (intro panes_tile) (auto simp: layout_inv_def intro: ratio_ok_unit)

theorem layout_tiles_area_witness:
  "length (filter (\<lambda>p. cell_in (pi_rect p) 50 20) (layout_panes plain_rect demo_layout demo_area)) = 1"
  using layout_tiles_area [OF plain_rect_ok demo_layout_reachable demo_area_fits, of 50 20]
  by (simp add: cell_in_def demo_area_def)

text \<open>Splitting an area of at least ten cells along the split direction leaves both
  parts non-empty, and the two parts together have exactly the cells of the area.\<close>

theorem split_rect_keeps_both_parts:
  assumes "rect_new_ok rn" "rect_fits area" "ratio_ok r" "split_rect rn area d r = (a, b)"
    and "case d of Horizontal \<Rightarrow> 10 \<le> unat (rect_width area) \<and> rect_height area \<noteq> 0
                 | Vertical \<Rightarrow> 10 \<le> unat (rect_height area) \<and> rect_width area \<noteq> 0"
  shows "0 < rect_cells a \<and> 0 < rect_cells b \<and> rect_cells a + rect_cells b = rect_cells area"
  using assms by (rule split_rect_not_empty)

theorem split_rect_keeps_both_parts_witness:
  "\<exists>a b. split_rect plain_rect demo_area Vertical f32_half = (a, b)
     \<and> 0 < rect_cells a \<and> 0 < rect_cells b \<and> rect_cells a + rect_cells b = rect_cells demo_area"
proof -
  obtain a b where ab: "split_rect plain_rect demo_area Vertical f32_half = (a, b)"
    by (cases "split_rect plain_rect demo_area Vertical f32_half")
  from split_rect_keeps_both_parts [OF plain_rect_ok demo_area_fits ratio_ok_half ab] ab
  show ?thesis by (simp add: demo_area_def)
qed

text \<open>Closing a pane right after it was split off gives back the layout as it was,
  tree, ratios, focus and previous focus: a failed spawn rolls back without a trace.\<close>

theorem split_then_close_restores:
  assumes "layout_wf l" "n \<notin> set (pane_ids l)" "split_pane l target d r n = ((l', Some i), n')"
  shows "close_pane l' i = Some (l, True)"
  using assms by (rule close_after_split)

theorem split_then_close_restores_witness:
  "\<exists>l' n'. split_pane demo_layout 2 Horizontal f32_tenth 4 = ((l', Some 4), n')
     \<and> close_pane l' 4 = Some (demo_layout, True)"
proof -
  obtain l' n' where s: "split_pane demo_layout 2 Horizontal f32_tenth 4 = ((l', Some 4), n')"
    by (simp add: split_pane_def pane_id_alloc_def demo_layout_def pane_ids_def)
  have "4 \<notin> set (pane_ids demo_layout)" by (simp add: demo_layout_def pane_ids_def)
  from split_then_close_restores [OF demo_layout_wf this s] s show ?thesis by blast
qed

text \<open>Property C28. Closing the focused pane of a well-formed layout with more than one pane never
  panics, removes exactly that pane, forgets the previous focus and moves the focus back to the
  pane it came from; without one it moves to the next pane in tree order, or to the one before
  when the closed pane was the last.\<close>

theorem close_focused_returns_focus:
  assumes "layout_wf l" "1 < length (pane_ids l)" "pos < length (pane_ids l)"
    and "pane_ids l ! pos = tl_focus l"
  shows "\<exists>l'. close_focused l = Some (l', True)
    \<and> pane_ids l' = filter (\<lambda>i. i \<noteq> tl_focus l) (pane_ids l)
    \<and> tl_prev_focus l' = None
    \<and> tl_focus l' = (case tl_prev_focus l of Some p \<Rightarrow> p
         | None \<Rightarrow> if pos + 1 < length (pane_ids l) then pane_ids l ! (pos + 1) else pane_ids l ! (pos - 1))"
proof -
  obtain k n where k: "k < length (pane_ids l)" "pane_ids l ! k = tl_focus l"
    and n: "node_remove_pane (tl_root l) (tl_focus l) = Some n"
    and c: "close_focused l = Some (l\<lparr>tl_root := n, tl_prev_focus := None,
        tl_focus := next_focus_after_close (pane_ids l) (tl_focus l) (tl_prev_focus l) k\<rparr>, True)"
    using close_focused_wf [OF assms(1,2)] by metis
  have "k = pos"
    using assms k nth_eq_iff_index_eq [of "pane_ids l" k pos] by (auto simp: layout_wf_def)
  moreover have "collect_ids n = filter (\<lambda>i. i \<noteq> tl_focus l) (pane_ids l)"
    using remove_Some(1) [OF n] by (simp add: pane_ids_def)
  ultimately show ?thesis
    using c assms(1)
    by (auto simp: next_focus_after_close_def Let_def layout_wf_def split: option.splits)
qed

theorem close_focused_returns_focus_witness:
  "\<exists>l'. close_focused demo_layout = Some (l', True) \<and> pane_ids l' = [1, 3] \<and> tl_focus l' = 1"
proof -
  have ids: "pane_ids demo_layout = [1, 2, 3]" by (simp add: demo_layout_def pane_ids_def)
  show ?thesis
    using close_focused_returns_focus [OF demo_layout_wf, of 1] ids
    by (simp add: demo_layout_def) (auto simp: demo_layout_def)
qed

text \<open>Property C40. On a well-formed layout, closing any pane never panics; it succeeds exactly when
  the pane is in a layout with another pane, and the focus only moves when the focused pane itself
  was closed.\<close>

theorem close_pane_total:
  assumes "layout_wf l"
  shows "\<exists>l' ok. close_pane l i = Some (l', ok) \<and> layout_wf l'
    \<and> (ok \<longleftrightarrow> 1 < length (pane_ids l) \<and> i \<in> set (pane_ids l))
    \<and> pane_ids l' = (if ok then filter (\<lambda>j. j \<noteq> i) (pane_ids l) else pane_ids l)
    \<and> (i = tl_focus l \<or> tl_focus l' = tl_focus l)"
proof -
  from layout_wf_close_pane [OF assms, of i] obtain l' ok where c: "close_pane l i = Some (l', ok)"
    and rest: "layout_wf l'" "ok \<longleftrightarrow> 1 < length (pane_ids l) \<and> i \<in> set (pane_ids l)"
    "pane_ids l' = (if ok then filter (\<lambda>j. j \<noteq> i) (pane_ids l) else pane_ids l)" .
  have nonpanic: "node_remove_pane (tl_root l) i \<noteq> None" if "1 < length (pane_ids l)"
    using remove_exists [of "tl_root l" i] assms that by (auto simp: layout_wf_def pane_ids_def)
  have "i = tl_focus l \<or> tl_focus l' = tl_focus l"
    using c nonpanic by (auto simp: close_pane_def pane_count_ids split: if_splits option.splits)
  with c rest show ?thesis by blast
qed

theorem close_pane_total_witness:
  "\<exists>l'. close_pane demo_layout 3 = Some (l', True) \<and> pane_ids l' = [1, 2]"
  using close_pane_total [OF demo_layout_wf, of 3] by (auto simp: demo_layout_def pane_ids_def)

lemma swap_rects:
  "map pi_rect (collect_panes rn (swap_pane_ids n f s) area fcs) = map pi_rect (collect_panes rn n area fcs)"
  by (induction n arbitrary: area) (auto split: prod.splits)

text \<open>Swapping two panes exchanges their ids and nothing else: the rectangles of the
  layout, in tree order, are the same before and after, and swapping again restores the tree.\<close>

theorem swap_panes_keeps_rectangles:
  "swap_panes l f s = (l', ok) \<Longrightarrow>
     map pi_rect (layout_panes rn l' area) = map pi_rect (layout_panes rn l area)
     \<and> pane_ids l' = (if ok then map (\<lambda>i. if i = f then s else if i = s then f else i) (pane_ids l) else pane_ids l)
     \<and> tl_root (fst (swap_panes l' f s)) = tl_root l"
  by (auto simp: swap_panes_def layout_panes_def swap_rects swap_ids pane_ids_def swap_twice
      split: if_splits)

theorem swap_panes_keeps_rectangles_witness:
  "map pi_rect (layout_panes plain_rect (fst (swap_panes demo_layout 1 3)) demo_area)
     = map pi_rect (layout_panes plain_rect demo_layout demo_area)
   \<and> pane_ids (fst (swap_panes demo_layout 1 3)) = [3, 2, 1]"
proof -
  obtain l' where s: "swap_panes demo_layout 1 3 = (l', True)"
    by (simp add: swap_panes_def demo_layout_def pane_ids_def)
  from swap_panes_keeps_rectangles [OF this, of plain_rect demo_area] s show ?thesis
    by (simp add: demo_layout_def pane_ids_def)
qed

text \<open>The neighbour of a pane in a direction: the search finds a pane exactly when some
  other pane lies wholly on that side and overlaps it across, and the pane found is a nearest one;
  among equally near panes it has the largest overlap.\<close>

theorem find_in_direction_nearest:
  "case find_in_direction focused nav panes of
     None \<Rightarrow> direction_candidates focused nav panes = {}
   | Some k \<Rightarrow> \<exists>p \<in> direction_candidates focused nav panes. pi_id p = k
       \<and> (\<forall>q \<in> direction_candidates focused nav panes.
            edge_distance (pi_rect focused) nav (pi_rect p) < edge_distance (pi_rect focused) nav (pi_rect q)
          \<or> edge_distance (pi_rect focused) nav (pi_rect p) = edge_distance (pi_rect focused) nav (pi_rect q)
            \<and> cross_overlap (pi_rect focused) nav (pi_rect q) \<le> cross_overlap (pi_rect focused) nav (pi_rect p))"
proof (cases "find_in_direction focused nav panes")
  case None
  then show ?thesis using find_in_direction_None [of focused nav panes] by simp
next
  case (Some k)
  from find_in_direction_Some [OF this] Some show ?thesis by simp
qed

theorem find_in_direction_nearest_witness:
  "find_in_direction (demo_pane 2 40 40) NavLeft [demo_pane 1 0 40] = Some 1"
  (is "find_in_direction ?f NavLeft ?ps = Some 1")
proof -
  have "direction_candidates ?f NavLeft ?ps = set ?ps"
    by (auto simp: demo_pane_def Let_def direction_candidates_def lies_in_direction_def ranges_overlap_def)
  with find_in_direction_nearest [of ?f NavLeft ?ps] show ?thesis
    by (auto simp: demo_pane_def Let_def split: option.splits)
qed

text \<open>Resizing a pane keeps the panes, the focus and the previous focus, changes the
  ratio of at most one split, and reports a change exactly when the ratios of the tree changed; a
  pane that is not in the layout changes nothing.\<close>

theorem resize_pane_changes_one_ratio:
  "resize_pane rn l i nav delta area = (l', changed) \<Longrightarrow>
     pane_ids l' = pane_ids l \<and> tl_focus l' = tl_focus l \<and> tl_prev_focus l' = tl_prev_focus l
     \<and> (\<exists>path. \<forall>q. q \<noteq> path \<longrightarrow> get_ratio_at (tl_root l') q = get_ratio_at (tl_root l) q)
     \<and> changed = (i \<in> set (pane_ids l) \<and> \<not> ratios_eq (split_ratios (tl_root l')) (split_ratios (tl_root l)))"
  using resize_pane_keeps [of rn l i nav delta area] resize_pane_others [of rn l i nav delta area]
  by (auto simp: resize_pane_def Let_def split: if_splits)

theorem resize_pane_changes_one_ratio_witness:
  "pane_ids (fst (resize_pane plain_rect demo_layout 2 NavLeft f32_tenth demo_area)) = pane_ids demo_layout"
  using resize_pane_changes_one_ratio [OF surjective_pairing, of plain_rect demo_layout 2 NavLeft f32_tenth demo_area]
  by blast

end
