(* ===== verification/RustStr.thy ===== *)
theory RustStr
  imports Prelude "HOL-Library.Sublist"
begin

section \<open>Rust strings\<close>

text \<open>
  A Rust string as the list of its UTF-8 bytes, written as a HOL string: equality, length,
  prefixes and ASCII separators work on bytes, and \<open>chars\<close> groups the bytes of one
  character for the operations that look at whole characters (\<open>trim\<close>, \<open>char::is_control\<close>,
  \<open>char::is_whitespace\<close>, \<open>to_lowercase\<close>). The standard library functions the modelled code
  calls are written out here once.
\<close>

type_synonym rstr = string

subsection \<open>Characters\<close>

definition byte :: "char \<Rightarrow> nat" where
  "byte c = of_char c"

definition utf8_tail :: "char \<Rightarrow> nat" where
  "utf8_tail c = (if byte c < 192 then 0 else if byte c < 224 then 1 else if byte c < 240 then 2 else 3)"

fun chars :: "rstr \<Rightarrow> rstr list" where
  "chars [] = []"
| "chars (c # cs) = (c # take (utf8_tail c) cs) # chars (drop (utf8_tail c) cs)"

definition codepoint :: "rstr \<Rightarrow> nat" where
  "codepoint c = (case map byte c of
       [a] \<Rightarrow> a
     | [a, b] \<Rightarrow> (a - 192) * 64 + (b - 128)
     | [a, b, d] \<Rightarrow> ((a - 224) * 64 + (b - 128)) * 64 + (d - 128)
     | [a, b, d, e] \<Rightarrow> (((a - 240) * 64 + (b - 128)) * 64 + (d - 128)) * 64 + (e - 128)
     | _ \<Rightarrow> 65533)"

definition is_whitespace :: "rstr \<Rightarrow> bool" where
  "is_whitespace c = (let n = codepoint c in
     (9 \<le> n \<and> n \<le> 13) \<or> n \<in> {32, 133, 160, 5760} \<or> (8192 \<le> n \<and> n \<le> 8202)
     \<or> n \<in> {8232, 8233, 8239, 8287, 12288})"

definition is_control :: "rstr \<Rightarrow> bool" where
  "is_control c = (let n = codepoint c in n < 32 \<or> (127 \<le> n \<and> n < 160))"

definition ascii_lower :: "char \<Rightarrow> char" where
  "ascii_lower c = (if 65 \<le> byte c \<and> byte c \<le> 90 then char_of (byte c + 32) else c)"

text \<open>
  \<open>to_lowercase\<close> as far as the code can see it: its result is only compared with ASCII
  literals, searched for ASCII suffixes or compared with another lowered string that
  matched one. The Kelvin sign is the one non-ASCII character with an ASCII lower case;
  every other non-ASCII character lowers to something that is not ASCII and is kept.
\<close>

definition kelvin_sign :: rstr where
  "kelvin_sign = map char_of [226, 132, 170 :: nat]"

definition lower_char :: "rstr \<Rightarrow> rstr" where
  "lower_char c = (if c = kelvin_sign then ''k'' else case c of [b] \<Rightarrow> [ascii_lower b] | _ \<Rightarrow> c)"

definition to_lowercase :: "rstr \<Rightarrow> rstr" where
  "to_lowercase s = concat (map lower_char (chars s))"

definition eq_ignore_ascii_case :: "rstr \<Rightarrow> rstr \<Rightarrow> bool" where
  "eq_ignore_ascii_case a b = (map ascii_lower a = map ascii_lower b)"

subsection \<open>Trimming and splitting\<close>

definition drop_end_while :: "('a \<Rightarrow> bool) \<Rightarrow> 'a list \<Rightarrow> 'a list" where
  "drop_end_while p xs = rev (dropWhile p (rev xs))"

definition trim_start :: "rstr \<Rightarrow> rstr" where
  "trim_start s = concat (dropWhile is_whitespace (chars s))"

definition trim :: "rstr \<Rightarrow> rstr" where
  "trim s = concat (drop_end_while is_whitespace (dropWhile is_whitespace (chars s)))"

definition trim_matches :: "(char \<Rightarrow> bool) \<Rightarrow> rstr \<Rightarrow> rstr" where
  "trim_matches p s = drop_end_while p (dropWhile p s)"

fun split_on :: "(char \<Rightarrow> bool) \<Rightarrow> rstr \<Rightarrow> rstr list" where
  "split_on p [] = [[]]"
| "split_on p (c # cs) =
     (if p c then [] # split_on p cs
      else (case split_on p cs of [] \<Rightarrow> [[c]] | w # ws \<Rightarrow> (c # w) # ws))"

definition strip_prefix :: "rstr \<Rightarrow> rstr \<Rightarrow> rstr option" where
  "strip_prefix p s = (if prefix p s then Some (drop (length p) s) else None)"

definition first_word :: "rstr \<Rightarrow> rstr option" where
  "first_word s = (let w = takeWhile (\<lambda>c. \<not> is_whitespace c) (dropWhile is_whitespace (chars s))
     in if w = [] then None else Some (concat w))"

subsection \<open>Lemmas\<close>

lemma concat_chars [simp]: "concat (chars s) = s"
  by (induction s rule: chars.induct) auto

lemma chars_nonempty: "c \<in> set (chars s) \<Longrightarrow> c \<noteq> []"
  by (induction s rule: chars.induct) auto

lemma chars_Nil_iff [simp]: "chars s = [] \<longleftrightarrow> s = []"
  by (cases s) auto

lemma chars_concat_suffix: "suffix xs (chars s) \<Longrightarrow> chars (concat xs) = xs"
proof (induction s rule: chars.induct)
  case 1
  then show ?case by simp
next
  case (2 c cs)
  have full: "chars (concat (chars (c # cs))) = chars (c # cs)" by (simp only: concat_chars)
  from 2(2) consider "xs = chars (c # cs)" | "suffix xs (chars (drop (utf8_tail c) cs))"
    by (auto simp: suffix_Cons)
  then show ?case using 2(1) full by cases auto
qed

lemma length_concat_dropWhile: "length (concat (dropWhile p xs)) \<le> length (concat xs)"
  by (induction xs) auto

lemma length_trim_start: "length (trim_start s) \<le> length s"
  using length_concat_dropWhile [of is_whitespace "chars s"] by (simp add: trim_start_def)

lemma chars_ascii: "list_all (\<lambda>c. byte c < 128) s \<Longrightarrow> chars s = map (\<lambda>c. [c]) s"
  by (induction s) (auto simp: utf8_tail_def)

text \<open>Visible ASCII without capitals: trimming and lowering leave such a string alone.\<close>

definition plain :: "rstr \<Rightarrow> bool" where
  "plain s = list_all (\<lambda>c. 33 \<le> byte c \<and> byte c \<le> 126 \<and> \<not> (65 \<le> byte c \<and> byte c \<le> 90)) s"

lemma whitespace_letter: "33 \<le> byte c \<Longrightarrow> byte c \<le> 126 \<Longrightarrow> \<not> is_whitespace [c]"
  by (auto simp: is_whitespace_def codepoint_def)

lemma chars_plain: "plain s \<Longrightarrow> chars s = map (\<lambda>c. [c]) s"
  by (rule chars_ascii) (auto simp: plain_def list_all_iff)

lemma dropWhile_none: "\<forall>x \<in> set xs. \<not> p x \<Longrightarrow> dropWhile p xs = xs"
  by (cases xs) auto

lemma concat_singletons [simp]: "concat (map (\<lambda>c. [c]) s) = s"
  by (induction s) auto

lemma trim_plain: "plain s \<Longrightarrow> trim s = s"
  by (auto simp: trim_def drop_end_while_def chars_plain dropWhile_none plain_def list_all_iff
      whitespace_letter)

lemma lower_plain: "plain s \<Longrightarrow> to_lowercase s = s"
proof -
  assume s: "plain s"
  then have "map (\<lambda>c. lower_char [c]) s = map (\<lambda>c. [c]) s"
    by (auto simp: plain_def list_all_iff lower_char_def ascii_lower_def kelvin_sign_def)
  then show ?thesis using s
    by (simp add: to_lowercase_def chars_plain comp_def del: map_eq_conv)
qed

lemma split_on_nonempty [simp]: "split_on p s \<noteq> []"
  by (induction s) (auto split: list.splits)

lemma split_on_none: "list_all (\<lambda>c. \<not> p c) s \<Longrightarrow> split_on p s = [s]"
  by (induction s) auto

lemma no_control_plain: "plain s \<Longrightarrow> \<not> list_ex is_control (chars s)"
  by (auto simp: chars_plain plain_def list_all_iff list_ex_iff is_control_def codepoint_def)

section \<open>Rust numbers as text\<close>

text \<open>
  \<open>to_string\<close> of an unsigned number and \<open>str::parse\<close> into an unsigned type: the parser takes one
  leading plus sign, refuses the empty string and what does not fit. A type is given by its
  bound, so that \<open>parse_unsigned 256\<close> is the parser of \<open>u8\<close>.
\<close>

fun decimal :: "nat \<Rightarrow> rstr" where
  "decimal n = (if n < 10 then [''0123456789'' ! n] else decimal (n div 10) @ [''0123456789'' ! (n mod 10)])"

declare decimal.simps [simp del]

definition is_digit :: "char \<Rightarrow> bool" where
  "is_digit c \<longleftrightarrow> 48 \<le> byte c \<and> byte c \<le> 57"

definition digits_value :: "rstr \<Rightarrow> nat" where
  "digits_value s = foldl (\<lambda>n c. 10 * n + (byte c - 48)) 0 s"

definition parse_unsigned :: "nat \<Rightarrow> rstr \<Rightarrow> nat option" where
  "parse_unsigned bound s =
     (let ds = (case strip_prefix ''+'' s of Some r \<Rightarrow> r | None \<Rightarrow> s)
      in if ds = [] \<or> \<not> list_all is_digit ds \<or> bound \<le> digits_value ds then None else Some (digits_value ds))"

definition nat_checked_sub :: "nat \<Rightarrow> nat \<Rightarrow> nat option" where
  "nat_checked_sub a b = (if b \<le> a then Some (a - b) else None)"

text \<open>\<open>split_once\<close> and \<open>strip_suffix\<close> with one ASCII character.\<close>

definition split_once :: "char \<Rightarrow> rstr \<Rightarrow> (rstr \<times> rstr) option" where
  "split_once c s =
     (if c \<in> set s then Some (takeWhile (\<lambda>x. x \<noteq> c) s, tl (dropWhile (\<lambda>x. x \<noteq> c) s)) else None)"

definition strip_suffix :: "char \<Rightarrow> rstr \<Rightarrow> rstr option" where
  "strip_suffix c s = (if s \<noteq> [] \<and> last s = c then Some (butlast s) else None)"

lemma digit_char: "n < 10 \<Longrightarrow> is_digit (''0123456789'' ! n) \<and> byte (''0123456789'' ! n) = n + 48"
proof -
  assume n: "n < 10"
  have "\<forall>n \<in> set [0..<10]. is_digit (''0123456789'' ! n) \<and> byte (''0123456789'' ! n) = n + 48"
    by (simp add: upt_rec is_digit_def byte_def)
  then show ?thesis using n by auto
qed

lemma decimal_digit: "n < 10 \<Longrightarrow> decimal n = [''0123456789'' ! n]"
  by (subst decimal.simps) simp

lemma decimal_step: "\<not> n < 10 \<Longrightarrow> decimal n = decimal (n div 10) @ [''0123456789'' ! (n mod 10)]"
  by (subst decimal.simps) simp

lemmas decimal_eval = decimal_digit decimal_step

lemma digits_value_snoc [simp]: "digits_value (s @ [c]) = 10 * digits_value s + (byte c - 48)"
  by (simp add: digits_value_def)

lemma decimal_digits: "list_all is_digit (decimal n)"
proof (induction n rule: decimal.induct)
  case (1 n)
  then show ?case using digit_char [of n] digit_char [of "n mod 10"] by (subst decimal.simps) auto
qed

lemma decimal_value [simp]: "digits_value (decimal n) = n"
proof (induction n rule: decimal.induct)
  case (1 n)
  show ?case
  proof (cases "n < 10")
    case True
    then show ?thesis using digit_char [of n] by (subst decimal.simps) (simp add: digits_value_def)
  next
    case False
    then show ?thesis using 1 digit_char [of "n mod 10"] by (subst decimal.simps) simp
  qed
qed

lemma decimal_not_Nil [simp]: "decimal n \<noteq> []"
  by (subst decimal.simps) auto

lemma decimal_no_sign: "strip_prefix ''+'' (decimal n) = None"
  using decimal_digits [of n] by (cases "decimal n") (auto simp: strip_prefix_def is_digit_def byte_def)

lemma parse_decimal [simp]: "parse_unsigned b (decimal n) = (if n < b then Some n else None)"
  by (simp add: parse_unsigned_def decimal_no_sign decimal_digits)

lemma parse_unsigned_bound: "parse_unsigned b s = Some n \<Longrightarrow> n < b"
  by (auto simp: parse_unsigned_def Let_def split: if_splits option.splits)

lemma decimal_no_separator: "c \<in> set (decimal n) \<Longrightarrow> 48 \<le> byte c \<and> byte c \<le> 57"
  using decimal_digits [of n] by (auto simp: list_all_iff is_digit_def)

lemma decimal_no_char: "\<not> is_digit c \<Longrightarrow> c \<notin> set (decimal n)"
  using decimal_digits [of n] by (auto simp: list_all_iff)

lemma strip_suffix_snoc [simp]: "strip_suffix c (s @ [d]) = (if d = c then Some s else None)"
  by (simp add: strip_suffix_def)

lemma split_once_append [simp]: "c \<notin> set a \<Longrightarrow> split_once c (a @ c # b) = Some (a, b)"
  by (auto simp: split_once_def takeWhile_append dropWhile_append)

lemma split_once_none [simp]: "c \<notin> set a \<Longrightarrow> split_once c a = None"
  by (simp add: split_once_def)

lemma strip_prefix_append [simp]: "strip_prefix p (p @ s) = Some s"
  by (simp add: strip_prefix_def)

lemma split_on_clean: "\<forall>x \<in> set a. \<not> p x \<Longrightarrow> split_on p a = [a]"
  by (induction a) auto

lemma split_on_append: "\<forall>x \<in> set a. \<not> p x \<Longrightarrow> p c \<Longrightarrow> split_on p (a @ c # b) = a # split_on p b"
  by (induction a) auto

end
