(* ===== verification/Agents.thy ===== *)
theory Agents
  imports RustStr
begin

section \<open>Agents: names, integrations and process identification\<close>

text \<open>
  The agents of \<open>detect/mod.rs\<close>, the labels they go by, which integration may report what
  for which agent, and how the agent running in a pane is recognised from the processes of
  its foreground job. The build is the Unix one (\<open>cfg!(windows)\<close> is false). Resolving a path
  on disk (\<open>std::fs::canonicalize\<close>) is the parameter \<open>resolve\<close>, which gives the file name
  the path resolves to.
\<close>

datatype agent_state = Idle | Working | Blocked | Unknown

datatype agent = Pi | Claude | Codex | Gemini | Cursor | Devin | Antigravity | Cline | Omp
  | Mastracode | OpenCode | GithubCopilot | Kimi | Kiro | Droid | Amp | Grok | Hermes | Kilo
  | Qodercli | Maki | Reasonix | Dsh

definition agent_all :: "agent list" where
  "agent_all = [Pi, Claude, Codex, Gemini, Cursor, Devin, Antigravity, Cline, Omp, Mastracode,
     OpenCode, GithubCopilot, Kimi, Kiro, Droid, Amp, Grok, Hermes, Kilo, Qodercli, Maki,
     Reasonix, Dsh]"

fun agent_label :: "agent \<Rightarrow> rstr" where
  "agent_label Pi = ''pi''"
| "agent_label Claude = ''claude''"
| "agent_label Codex = ''codex''"
| "agent_label Gemini = ''gemini''"
| "agent_label Cursor = ''cursor''"
| "agent_label Devin = ''devin''"
| "agent_label Antigravity = ''agy''"
| "agent_label Cline = ''cline''"
| "agent_label Omp = ''omp''"
| "agent_label Mastracode = ''mastracode''"
| "agent_label OpenCode = ''opencode''"
| "agent_label GithubCopilot = ''copilot''"
| "agent_label Kimi = ''kimi''"
| "agent_label Kiro = ''kiro''"
| "agent_label Droid = ''droid''"
| "agent_label Amp = ''amp''"
| "agent_label Grok = ''grok''"
| "agent_label Hermes = ''hermes''"
| "agent_label Kilo = ''kilo''"
| "agent_label Qodercli = ''qodercli''"
| "agent_label Maki = ''maki''"
| "agent_label Reasonix = ''reasonix''"
| "agent_label Dsh = ''dsh''"

fun interactive_agent_executable :: "agent \<Rightarrow> rstr" where
  "interactive_agent_executable Cursor = ''cursor-agent''"
| "interactive_agent_executable Kiro = ''kiro-cli''"
| "interactive_agent_executable Dsh = ''podsh''"
| "interactive_agent_executable a = agent_label a"

subsection \<open>Labels\<close>

definition lookup_table :: "(rstr \<times> agent) list" where
  "lookup_table =
     [(''pi'', Pi), (''claude'', Claude), (''claude-code'', Claude), (''codex'', Codex),
      (''gemini'', Gemini), (''cursor'', Cursor), (''cursor-agent'', Cursor), (''devin'', Devin),
      (''devin-cli'', Devin), (''devin cli'', Devin), (''agy'', Antigravity),
      (''antigravity'', Antigravity), (''antigravity-cli'', Antigravity), (''cline'', Cline),
      (''omp'', Omp), (''mastracode'', Mastracode), (''mastra-code'', Mastracode),
      (''mastra code'', Mastracode), (''opencode'', OpenCode), (''opencode2'', OpenCode),
      (''open-code'', OpenCode), (''copilot'', GithubCopilot), (''github-copilot'', GithubCopilot),
      (''ghcs'', GithubCopilot), (''kimi'', Kimi), (''kimi-code'', Kimi), (''kimi code'', Kimi),
      (''kiro'', Kiro), (''kiro-cli'', Kiro), (''droid'', Droid), (''amp'', Amp),
      (''amp-local'', Amp), (''grok'', Grok), (''grok-build'', Grok), (''hermes'', Hermes),
      (''hermes-agent'', Hermes), (''kilo'', Kilo), (''kilo-code'', Kilo), (''kilo code'', Kilo),
      (''qodercli'', Qodercli), (''qoderclicn'', Qodercli), (''qoder'', Qodercli),
      (''qodercn'', Qodercli), (''maki'', Maki), (''reasonix'', Reasonix),
      (''deepseek-reasonix'', Reasonix), (''dsh'', Dsh), (''podsh'', Dsh), (''evolv'', Dsh),
      (''attach.mjs'', Dsh)]"

definition lookup_agent :: "rstr \<Rightarrow> agent option" where
  "lookup_agent name = map_of lookup_table name"

fun strip_first_suffix :: "rstr list \<Rightarrow> rstr \<Rightarrow> rstr" where
  "strip_first_suffix [] name = name"
| "strip_first_suffix (s # ss) name =
     (if suffix s name then take (length name - length s) name else strip_first_suffix ss name)"

definition normalized_agent_lookup_name :: "rstr \<Rightarrow> rstr" where
  "normalized_agent_lookup_name name =
     strip_first_suffix [''.exe'', ''.cmd'', ''.bat'', ''.ps1'', ''.js''] (to_lowercase (trim name))"

definition parse_canonical_agent_label :: "rstr \<Rightarrow> agent option" where
  "parse_canonical_agent_label label =
     (case lookup_agent label of None \<Rightarrow> None
      | Some a \<Rightarrow> if agent_label a = label then Some a else None)"

definition parse_agent_label :: "rstr \<Rightarrow> agent option" where
  "parse_agent_label s =
     (let name = normalized_agent_lookup_name s
      in or_else (parse_canonical_agent_label name) (lookup_agent name))"

abbreviation identify_agent :: "rstr \<Rightarrow> agent option" where
  "identify_agent \<equiv> parse_agent_label"

subsection \<open>Integrations\<close>

definition full_lifecycle_hook_authority :: "rstr \<Rightarrow> rstr \<Rightarrow> bool" where
  "full_lifecycle_hook_authority source label =
     ((source, label) \<in> set [(''herdr:pi'', ''pi''), (''herdr:omp'', ''omp''),
        (''herdr:mastracode'', ''mastracode''), (''herdr:opencode'', ''opencode''),
        (''herdr:kilo'', ''kilo''), (''herdr:kimi'', ''kimi''), (''herdr:reasonix'', ''reasonix'')])"

definition session_identity_only_integration :: "rstr \<Rightarrow> rstr \<Rightarrow> bool" where
  "session_identity_only_integration source label =
     ((source, label) \<in> set [(''herdr:hermes'', ''hermes''), (''herdr:antigravity_cli'', ''agy'')])"

subsection \<open>Lemmas about labels\<close>

lemma agent_all_UNIV: "set agent_all = UNIV"
proof -
  have "a \<in> set agent_all" for a by (cases a) (simp_all add: agent_all_def)
  then show ?thesis by blast
qed

lemma parse_agent_label_lookup: "parse_agent_label s = lookup_agent (normalized_agent_lookup_name s)"
  by (auto simp: parse_agent_label_def parse_canonical_agent_label_def or_else_def Let_def split: option.splits)

lemma lookup_agent_label: "lookup_agent (agent_label a) = Some a"
  by (cases a) (simp_all add: lookup_agent_def lookup_table_def)

definition wrapper_suffixes :: "rstr list" where
  "wrapper_suffixes = [''.exe'', ''.cmd'', ''.bat'', ''.ps1'', ''.js'']"

lemma not_prefix_rev: "CHR ''.'' \<notin> set s \<Longrightarrow> CHR ''.'' \<in> set t \<Longrightarrow> \<not> prefix t (rev s)"
  using set_mono_prefix [of t "rev s"] by auto

lemma normalized_plain:
  "plain s \<Longrightarrow> CHR ''.'' \<notin> set s \<Longrightarrow> ext \<in> set wrapper_suffixes \<or> ext = [] \<Longrightarrow>
   normalized_agent_lookup_name (s @ ext) = s"
proof -
  assume s: "plain s" "CHR ''.'' \<notin> set s" and ext: "ext \<in> set wrapper_suffixes \<or> ext = []"
  have p: "plain (s @ ext)"
    using s(1) ext by (auto simp: plain_def wrapper_suffixes_def byte_def)
  from ext consider "ext = ''.exe''" | "ext = ''.cmd''" | "ext = ''.bat''" | "ext = ''.ps1''"
    | "ext = ''.js''" | "ext = []"
    by (auto simp: wrapper_suffixes_def)
  then show ?thesis
    using s(2) p
    by cases (simp_all add: normalized_agent_lookup_name_def trim_plain lower_plain
        suffix_to_prefix not_prefix_rev)
qed

lemma normalized_plain_bare: "plain s \<Longrightarrow> CHR ''.'' \<notin> set s \<Longrightarrow> normalized_agent_lookup_name s = s"
  using normalized_plain [of s "[]"] by simp

lemma plain_agent_label: "plain (agent_label a) \<and> CHR ''.'' \<notin> set (agent_label a)"
  by (cases a) (simp_all add: plain_def byte_def)

lemma parse_agent_label_with_suffix:
  "ext \<in> set wrapper_suffixes \<or> ext = [] \<Longrightarrow> parse_agent_label (agent_label a @ ext) = Some a"
  by (simp add: parse_agent_label_lookup normalized_plain plain_agent_label lookup_agent_label)

lemma parse_agent_label_inverse [simp]: "parse_agent_label (agent_label a) = Some a"
  using parse_agent_label_with_suffix [of "[]" a] by simp

lemma agent_label_inject [simp]: "agent_label a = agent_label b \<longleftrightarrow> a = b"
  by (metis parse_agent_label_inverse option.inject)

lemma full_lifecycle_cases:
  assumes "full_lifecycle_hook_authority source label"
  obtains a where "a \<in> {Pi, Omp, Mastracode, OpenCode, Kilo, Kimi, Reasonix}"
    "label = agent_label a" "source = ''herdr:'' @ agent_label a"
  using assms by (fastforce simp: full_lifecycle_hook_authority_def)

lemma full_lifecycle_known:
  "full_lifecycle_hook_authority source label \<Longrightarrow> parse_agent_label label \<noteq> None"
  by (erule full_lifecycle_cases) simp

end
