(* ===== verification/AgentIdentify.thy ===== *)
theory AgentIdentify
  imports Agents
begin

section \<open>Recognising the agent of a foreground job\<close>

text \<open>
  The process side of \<open>detect/mod.rs\<close>: how a process name is looked through wrappers (node,
  python, shells, cmd, powershell) to the agent behind it, and how the agent of a foreground
  job is chosen among its processes. \<open>resolve\<close> stands for the file name that
  \<open>std::fs::canonicalize\<close> resolves a path to, None when that fails.
\<close>

type_synonym resolver = "rstr \<Rightarrow> rstr option"

record foreground_process =
  fp_pid :: u32
  fp_name :: rstr
  fp_argv0 :: "rstr option"
  fp_argv :: "rstr list option"
  fp_cmdline :: "rstr option"

record foreground_job =
  fj_process_group_id :: u32
  fj_processes :: "foreground_process list"

subsection \<open>Paths\<close>

definition is_path_sep :: "char \<Rightarrow> bool" where
  "is_path_sep c = (c = CHR ''/'' \<or> c = CHR 0x5C)"

definition path_basename :: "rstr \<Rightarrow> rstr" where
  "path_basename path =
     (case find (\<lambda>c. c \<noteq> []) (rev (split_on is_path_sep path)) of Some c \<Rightarrow> c | None \<Rightarrow> path)"

definition is_quote :: "char \<Rightarrow> bool" where
  "is_quote c = (c = CHR 0x22 \<or> c = CHR 0x27)"

text \<open>\<open>Path::components().count()\<close> on Unix: the root, a leading \<open>.\<close> of a relative path,
  and every other component that is neither empty nor \<open>.\<close>.\<close>

definition path_component_count :: "rstr \<Rightarrow> nat" where
  "path_component_count p =
     (let parts = split_on (\<lambda>c. c = CHR ''/'') p; rooted = prefix ''/'' p
      in (if rooted \<or> hd parts = ''.'' then 1 else 0)
         + length (filter (\<lambda>c. c \<noteq> [] \<and> c \<noteq> ''.'') parts))"

definition windows :: "nat \<Rightarrow> 'a list \<Rightarrow> 'a list list" where
  "windows n xs = map (\<lambda>i. take n (drop i xs)) [0 ..< length xs + 1 - n]"

subsection \<open>Names behind a path\<close>

definition agent_name_from_basename :: "rstr \<Rightarrow> rstr option" where
  "agent_name_from_basename b = map_option agent_label (parse_agent_label b)"

definition agent_name_from_known_package_path :: "rstr \<Rightarrow> rstr option" where
  "agent_name_from_known_package_path path =
     (let components = map normalized_agent_lookup_name
            (filter (\<lambda>c. c \<noteq> []) (split_on is_path_sep path))
      in if [''node_modules'', ''@earendil-works'', ''pi-coding-agent'', ''dist'', ''cli'']
              \<in> set (windows 5 components) then Some (agent_label Pi)
         else if [''node_modules'', ''mastracode'', ''dist'', ''cli''] \<in> set (windows 4 components)
              then Some (agent_label Mastracode)
         else None)"

definition resolved_agent_name_from_path_token :: "resolver \<Rightarrow> rstr \<Rightarrow> rstr option" where
  "resolved_agent_name_from_path_token resolve token =
     (if path_component_count token < 2 then None
      else Option.bind (resolve token) agent_name_from_basename)"

definition agent_name_from_path_token :: "resolver \<Rightarrow> rstr \<Rightarrow> rstr option" where
  "agent_name_from_path_token resolve token =
     (let trimmed = trim_matches is_quote token
      in if trimmed = [] \<or> prefix ''-'' trimmed then None
         else or_else (or_else (agent_name_from_basename (path_basename trimmed))
                         (agent_name_from_known_package_path trimmed))
                (resolved_agent_name_from_path_token resolve trimmed))"

subsection \<open>Command lines\<close>

definition command_text_token :: "rstr \<Rightarrow> (rstr \<times> rstr) option" where
  "command_text_token input0 =
     (let input = trim_start input0
      in (case input of
            [] \<Rightarrow> None
          | first # rest \<Rightarrow>
              if is_quote first then
                (case position (\<lambda>c. c = first) rest of
                   Some i \<Rightarrow> Some (take i rest, drop (Suc i) rest)
                 | None \<Rightarrow> Some (rest, []))
              else
                (let word = takeWhile (\<lambda>c. \<not> is_whitespace c) (chars input);
                     after = dropWhile (\<lambda>c. \<not> is_whitespace c) (chars input)
                 in Some (concat word, concat after))))"

lemma trim_start_head:
  assumes "trim_start s = c # cs"
  shows "\<not> is_whitespace (hd (chars (trim_start s)))"
proof -
  obtain w ws where w: "dropWhile is_whitespace (chars s) = w # ws"
    using assms by (cases "dropWhile is_whitespace (chars s)") (auto simp: trim_start_def)
  then have nw: "\<not> is_whitespace w" by (simp add: dropWhile_eq_Cons_conv)
  have "w \<in> set (chars s)" using w by (metis list.set_intros(1) set_dropWhileD)
  moreover have "hd (chars (concat (dropWhile is_whitespace (chars s)))) = w"
    using chars_concat_suffix [OF suffix_dropWhile] w by (metis list.sel(1))
  ultimately show ?thesis using nw by (simp add: trim_start_def)
qed

lemma command_text_token_shorter:
  "command_text_token s = Some (t, n) \<Longrightarrow> length n < length s"
proof -
  assume tok: "command_text_token s = Some (t, n)"
  then obtain c cs where i: "trim_start s = c # cs"
    by (auto simp: command_text_token_def Let_def split: list.splits)
  have le: "length (c # cs) \<le> length s" using length_trim_start [of s] i by simp
  show ?thesis
  proof (cases "is_quote c")
    case True
    with tok i have "length n \<le> length cs"
      by (auto simp: command_text_token_def split: option.splits)
    with le show ?thesis by simp
  next
    case False
    have "chars (trim_start s) \<noteq> []" using i by simp
    then obtain w ws where ws: "chars (trim_start s) = w # ws" by (meson neq_Nil_conv)
    have "\<not> is_whitespace w" using trim_start_head [OF i] ws by simp
    with tok i ws False have n: "n = concat (dropWhile (\<lambda>c. \<not> is_whitespace c) ws)"
      by (simp add: command_text_token_def Let_def)
    have "w \<noteq> []" using ws by (metis chars_nonempty list.set_intros(1))
    moreover have "length (trim_start s) = length (concat (w # ws))"
      using ws by (metis concat_chars)
    ultimately have "length (concat ws) < length (c # cs)" using i by (cases w) simp_all
    moreover have "length n \<le> length (concat ws)"
      unfolding n by (rule length_concat_dropWhile)
    ultimately show ?thesis using le by linarith
  qed
qed

function command_text_agent_name :: "resolver \<Rightarrow> rstr \<Rightarrow> rstr option" where
  "command_text_agent_name resolve rest =
     (case command_text_token rest of
        None \<Rightarrow> None
      | Some (token0, nxt) \<Rightarrow>
          (let token = trim token0
           in if eq_ignore_ascii_case token ''&'' \<or> eq_ignore_ascii_case token ''.''
                 \<or> eq_ignore_ascii_case token ''call''
              then command_text_agent_name resolve nxt
              else agent_name_from_path_token resolve token))"
  by pat_completeness auto
termination
  by (relation "measure (\<lambda>(r, s). length s)") (auto dest: command_text_token_shorter)

declare command_text_agent_name.simps [simp del]

fun windows_cmd_args :: "resolver \<Rightarrow> rstr list \<Rightarrow> rstr option" where
  "windows_cmd_args resolve [] = None"
| "windows_cmd_args resolve (arg # args) =
     (let flag = to_lowercase (trim_matches (\<lambda>c. c = CHR 0x22) arg)
      in if flag \<in> {''/c'', ''/k''} then
           (case args of [] \<Rightarrow> None | command # _ \<Rightarrow> command_text_agent_name resolve command)
         else windows_cmd_args resolve args)"

definition windows_cmd_arg_agent_name :: "resolver \<Rightarrow> rstr list \<Rightarrow> rstr option" where
  "windows_cmd_arg_agent_name resolve argv = windows_cmd_args resolve (drop 1 argv)"

fun powershell_args :: "resolver \<Rightarrow> rstr list \<Rightarrow> rstr option" where
  "powershell_args resolve [] = None"
| "powershell_args resolve (arg # args) =
     (let flag = to_lowercase (trim_matches (\<lambda>c. c = CHR 0x22) arg)
      in if flag \<in> {''-file'', ''-f'', ''/file''} then
           (case args of [] \<Rightarrow> None | path # _ \<Rightarrow> agent_name_from_path_token resolve path)
         else if flag \<in> {''-command'', ''-c'', ''/command'', ''/c''} then
           (case args of [] \<Rightarrow> None | command # _ \<Rightarrow> command_text_agent_name resolve command)
         else if flag \<in> {''-encodedcommand'', ''-enc'', ''/encodedcommand'', ''/enc''} then None
         else if flag \<in> {''-configurationname'', ''-executionpolicy'', ''-outputformat'',
             ''-psconsolefile'', ''-version'', ''-windowstyle'', ''-workingdirectory''} then
           (case args of [] \<Rightarrow> None | _ # args' \<Rightarrow> powershell_args resolve args')
         else if prefix ''-'' flag \<or> prefix ''/'' flag then powershell_args resolve args
         else agent_name_from_path_token resolve arg)"

definition powershell_arg_agent_name :: "resolver \<Rightarrow> rstr list \<Rightarrow> rstr option" where
  "powershell_arg_agent_name resolve argv = powershell_args resolve (drop 1 argv)"

subsection \<open>Script arguments\<close>

definition short_flag_payload :: "rstr \<Rightarrow> rstr \<Rightarrow> bool" where
  "short_flag_payload arg flag =
     (prefix ''-'' flag \<and> \<not> prefix ''--'' flag \<and> prefix flag arg \<and> length flag < length arg)"

definition long_flag_value :: "rstr \<Rightarrow> rstr \<Rightarrow> bool" where
  "long_flag_value arg flag =
     (prefix ''--'' flag \<and> is_some_and (prefix ''='') (strip_prefix flag arg))"

definition flag_matches :: "rstr \<Rightarrow> rstr list \<Rightarrow> bool" where
  "flag_matches arg flags =
     list_ex (\<lambda>flag. arg = flag \<or> short_flag_payload arg flag \<or> long_flag_value arg flag) flags"

definition option_takes_value :: "rstr \<Rightarrow> bool" where
  "option_takes_value arg = (arg \<in> {''-r'', ''--require'', ''--loader'', ''--import'',
     ''--experimental-loader'', ''--inspect-port'', ''-W'', ''-X'', ''-S'', ''-L'', ''-o''})"

fun script_args :: "resolver \<Rightarrow> rstr list \<Rightarrow> rstr list \<Rightarrow> rstr list \<Rightarrow> rstr option" where
  "script_args resolve eval_flags module_flags [] = None"
| "script_args resolve eval_flags module_flags (arg # args) =
     (if arg = ''--'' then
        (case args of [] \<Rightarrow> None | token # _ \<Rightarrow> agent_name_from_path_token resolve token)
      else if flag_matches arg eval_flags \<or> flag_matches arg module_flags then None
      else if prefix ''-'' arg then
        (if option_takes_value arg
         then (case args of [] \<Rightarrow> None | _ # args' \<Rightarrow> script_args resolve eval_flags module_flags args')
         else script_args resolve eval_flags module_flags args)
      else agent_name_from_path_token resolve arg)"

definition script_arg_agent_name :: "resolver \<Rightarrow> rstr list \<Rightarrow> rstr list \<Rightarrow> rstr list \<Rightarrow> rstr option" where
  "script_arg_agent_name resolve argv eval_flags module_flags =
     script_args resolve eval_flags module_flags (drop 1 argv)"

subsection \<open>Processes\<close>

definition is_ascii_digit :: "char \<Rightarrow> bool" where
  "is_ascii_digit c = (48 \<le> byte c \<and> byte c \<le> 57)"

definition is_python_runtime :: "rstr \<Rightarrow> bool" where
  "is_python_runtime name =
     (name = ''python'' \<or>
      is_some_and (\<lambda>version. version \<noteq> [] \<and>
          list_all (\<lambda>part. part \<noteq> [] \<and> list_all is_ascii_digit part) (split_on (\<lambda>c. c = CHR ''.'') version))
        (strip_prefix ''python'' name))"

definition is_generic_runtime_or_shell :: "rstr \<Rightarrow> bool" where
  "is_generic_runtime_or_shell name0 =
     (let name = normalized_agent_lookup_name (path_basename name0)
      in is_python_runtime name \<or>
         name \<in> {''sh'', ''bash'', ''zsh'', ''fish'', ''tmux'', ''node'', ''bun'', ''cmd'',
                 ''powershell'', ''pwsh''})"

definition wrapped_agent_name_from_runtime_argv ::
  "resolver \<Rightarrow> rstr \<Rightarrow> rstr list option \<Rightarrow> rstr option" where
  "wrapped_agent_name_from_runtime_argv resolve runtime argv0 =
     (case argv0 of None \<Rightarrow> None | Some argv \<Rightarrow>
       (let name = normalized_agent_lookup_name (path_basename runtime)
        in if name \<in> {''node'', ''bun''} then
             script_arg_agent_name resolve argv [''-e'', ''--eval'', ''-p'', ''--print''] []
           else if is_python_runtime name then script_arg_agent_name resolve argv [''-c''] [''-m'']
           else if name \<in> {''sh'', ''bash'', ''zsh'', ''fish''} then
             script_arg_agent_name resolve argv [''-c''] []
           else if name = ''cmd'' then windows_cmd_arg_agent_name resolve argv
           else if name \<in> {''powershell'', ''pwsh''} then powershell_arg_agent_name resolve argv
           else None))"

definition argv0_agent_name :: "resolver \<Rightarrow> rstr list option \<Rightarrow> rstr option" where
  "argv0_agent_name resolve argv =
     (case argv of Some (a # _) \<Rightarrow> agent_name_from_path_token resolve a | _ \<Rightarrow> None)"

definition cmdline_argv0_agent_name :: "resolver \<Rightarrow> rstr \<Rightarrow> rstr option" where
  "cmdline_argv0_agent_name resolve cmdline =
     Option.bind (first_word cmdline) (agent_name_from_path_token resolve)"

definition normalized_process_name :: "resolver \<Rightarrow> foreground_process \<Rightarrow> rstr" where
  "normalized_process_name resolve p =
     (let effective = (case fp_argv0 p of Some a \<Rightarrow> a | None \<Rightarrow> fp_name p);
          lower_effective = to_lowercase effective;
          wrapped = (if is_generic_runtime_or_shell lower_effective
                     then wrapped_agent_name_from_runtime_argv resolve lower_effective (fp_argv p) else None)
      in (case wrapped of
            Some w \<Rightarrow> w
          | None \<Rightarrow>
              if identify_agent effective \<noteq> None then effective
              else (case or_else (argv0_agent_name resolve (fp_argv p))
                           (cmdline_argv0_agent_name resolve
                              (case fp_cmdline p of Some c \<Rightarrow> c | None \<Rightarrow> [])) of
                      Some w \<Rightarrow> w
                    | None \<Rightarrow> effective)))"

definition process_priority :: "foreground_process \<Rightarrow> rstr \<Rightarrow> u8" where
  "process_priority p normalized_name =
     (let lower_name = to_lowercase normalized_name
      in if lower_name \<noteq> to_lowercase (fp_name p) then 3
         else if \<not> is_generic_runtime_or_shell lower_name then 2
         else 1)"

text \<open>The loop over the processes keeps the first candidate of the best score.\<close>

fun best_candidate ::
  "resolver \<Rightarrow> foreground_process list \<Rightarrow> (u8 \<times> agent \<times> rstr) option \<Rightarrow> (u8 \<times> agent \<times> rstr) option" where
  "best_candidate resolve [] best = best"
| "best_candidate resolve (p # ps) best =
     (let candidate = normalized_process_name resolve p
      in (case identify_agent candidate of
            None \<Rightarrow> best_candidate resolve ps best
          | Some a \<Rightarrow>
              (let score = process_priority p candidate
               in (case best of
                     Some (best_score, b) \<Rightarrow>
                       if score \<le> best_score then best_candidate resolve ps best
                       else best_candidate resolve ps (Some (score, a, candidate))
                   | None \<Rightarrow> best_candidate resolve ps (Some (score, a, candidate))))))"

definition identify_agent_in_job :: "resolver \<Rightarrow> foreground_job \<Rightarrow> (agent \<times> rstr) option" where
  "identify_agent_in_job resolve job =
     (let from_leader =
        (case find (\<lambda>p. fp_pid p = fj_process_group_id job) (fj_processes job) of
           None \<Rightarrow> None
         | Some p \<Rightarrow>
             (let candidate = normalized_process_name resolve p
              in map_option (\<lambda>a. (a, candidate)) (identify_agent candidate)))
      in (case from_leader of
            Some r \<Rightarrow> Some r
          | None \<Rightarrow> map_option (\<lambda>(score, a, name). (a, name)) (best_candidate resolve (fj_processes job) None)))"

subsection \<open>Lemmas\<close>

definition process_agent :: "resolver \<Rightarrow> foreground_process \<Rightarrow> agent option" where
  "process_agent resolve p = identify_agent (normalized_process_name resolve p)"

definition process_score :: "resolver \<Rightarrow> foreground_process \<Rightarrow> u8" where
  "process_score resolve p = process_priority p (normalized_process_name resolve p)"

text \<open>The first process of the best score: every identified process before it scores less, every
  one after it at most as much.\<close>

definition is_best :: "resolver \<Rightarrow> foreground_process list \<Rightarrow> foreground_process \<Rightarrow> bool" where
  "is_best resolve ps p \<longleftrightarrow> (\<exists>xs ys. ps = xs @ p # ys \<and> process_agent resolve p \<noteq> None
     \<and> (\<forall>q \<in> set xs. process_agent resolve q \<noteq> None \<longrightarrow> process_score resolve q < process_score resolve p)
     \<and> (\<forall>q \<in> set ys. process_agent resolve q \<noteq> None \<longrightarrow> process_score resolve q \<le> process_score resolve p))"

definition best_is :: "resolver \<Rightarrow> foreground_process list \<Rightarrow> u8 \<times> agent \<times> rstr \<Rightarrow> bool" where
  "best_is resolve ps r \<longleftrightarrow> (\<exists>p a. is_best resolve ps p \<and> process_agent resolve p = Some a
     \<and> r = (process_score resolve p, a, normalized_process_name resolve p))"

lemma is_best_Cons:
  "is_best resolve ps p \<Longrightarrow> process_agent resolve x = None \<or> process_score resolve x < process_score resolve p
   \<Longrightarrow> is_best resolve (x # ps) p"
  unfolding is_best_def by (elim exE) (rule_tac x = "x # xs" in exI, auto)

lemma is_best_head:
  "process_agent resolve x \<noteq> None \<Longrightarrow>
   \<forall>q \<in> set ps. process_agent resolve q \<noteq> None \<longrightarrow> process_score resolve q \<le> process_score resolve x
   \<Longrightarrow> is_best resolve (x # ps) x"
  unfolding is_best_def by (rule exI [of _ "[]"]) auto

lemma best_is_Cons:
  "best_is resolve ps r \<Longrightarrow> process_agent resolve x = None \<or> process_score resolve x < fst r
   \<Longrightarrow> best_is resolve (x # ps) r"
  unfolding best_is_def by (metis fst_conv is_best_Cons)

lemma best_is_head:
  "process_agent resolve x = Some a \<Longrightarrow>
   \<forall>q \<in> set ps. process_agent resolve q \<noteq> None \<longrightarrow> process_score resolve q \<le> process_score resolve x
   \<Longrightarrow> best_is resolve (x # ps) (process_score resolve x, a, normalized_process_name resolve x)"
  unfolding best_is_def by (metis is_best_head option.distinct(1))

lemma best_candidate_Cons:
  "best_candidate resolve (x # ps) best =
     (case process_agent resolve x of
        None \<Rightarrow> best_candidate resolve ps best
      | Some a \<Rightarrow>
          if \<exists>sc b. best = Some (sc, b) \<and> process_score resolve x \<le> sc then best_candidate resolve ps best
          else best_candidate resolve ps (Some (process_score resolve x, a, normalized_process_name resolve x)))"
  by (auto simp: process_agent_def process_score_def Let_def split: option.splits)

declare best_candidate.simps(2) [simp del]

lemma best_candidate_from:
  "\<exists>r. best_candidate resolve ps (Some (sc, b)) = Some r \<and>
     (r = (sc, b) \<and> (\<forall>q \<in> set ps. process_agent resolve q \<noteq> None \<longrightarrow> process_score resolve q \<le> sc)
      \<or> best_is resolve ps r \<and> sc < fst r)"
proof (induction ps arbitrary: sc b)
  case Nil
  then show ?case by simp
next
  case (Cons x ps)
  let ?b = "\<lambda>a. (a, normalized_process_name resolve x)"
  consider (keep) "process_agent resolve x = None \<or> process_score resolve x \<le> sc"
    | (replace) a where "process_agent resolve x = Some a" "sc < process_score resolve x"
    by fastforce
  then show ?case
  proof cases
    case keep
    then have "best_candidate resolve (x # ps) (Some (sc, b)) = best_candidate resolve ps (Some (sc, b))"
      by (auto simp: best_candidate_Cons split: option.splits)
    moreover obtain r where r: "best_candidate resolve ps (Some (sc, b)) = Some r"
      "r = (sc, b) \<and> (\<forall>q \<in> set ps. process_agent resolve q \<noteq> None \<longrightarrow> process_score resolve q \<le> sc)
       \<or> best_is resolve ps r \<and> sc < fst r"
      using Cons.IH [of sc b] by blast
    moreover have "best_is resolve (x # ps) r" if "best_is resolve ps r" "sc < fst r"
      using that keep by (intro best_is_Cons) (auto intro: le_less_trans)
    ultimately show ?thesis using keep by auto
  next
    case replace
    then have "best_candidate resolve (x # ps) (Some (sc, b))
        = best_candidate resolve ps (Some (process_score resolve x, ?b a))"
      by (auto simp: best_candidate_Cons)
    moreover obtain r where r: "best_candidate resolve ps (Some (process_score resolve x, ?b a)) = Some r"
      "r = (process_score resolve x, ?b a)
         \<and> (\<forall>q \<in> set ps. process_agent resolve q \<noteq> None \<longrightarrow> process_score resolve q \<le> process_score resolve x)
       \<or> best_is resolve ps r \<and> process_score resolve x < fst r"
      using Cons.IH [of "process_score resolve x" "?b a"] by blast
    moreover from r(2) have "best_is resolve (x # ps) r"
      using best_is_head [OF replace(1), of ps] best_is_Cons [of resolve ps r x] by blast
    moreover from r(2) replace(2) have "sc < fst r" by auto
    ultimately show ?thesis by auto
  qed
qed

lemma best_candidate_spec:
  "case best_candidate resolve ps None of
     None \<Rightarrow> \<forall>p \<in> set ps. process_agent resolve p = None
   | Some r \<Rightarrow> best_is resolve ps r"
proof (induction ps)
  case Nil
  then show ?case by simp
next
  case (Cons x ps)
  show ?case
  proof (cases "process_agent resolve x")
    case None
    with Cons.IH show ?thesis
      by (auto simp: best_candidate_Cons split: option.splits intro: best_is_Cons)
  next
    case (Some a)
    then have "best_candidate resolve (x # ps) None
      = best_candidate resolve ps (Some (process_score resolve x, a, normalized_process_name resolve x))"
      by (simp add: best_candidate_Cons)
    moreover obtain r where r: "best_candidate resolve ps
        (Some (process_score resolve x, a, normalized_process_name resolve x)) = Some r"
      "r = (process_score resolve x, a, normalized_process_name resolve x)
         \<and> (\<forall>q \<in> set ps. process_agent resolve q \<noteq> None \<longrightarrow> process_score resolve q \<le> process_score resolve x)
       \<or> best_is resolve ps r \<and> process_score resolve x < fst r"
      using best_candidate_from by blast
    moreover from r(2) have "best_is resolve (x # ps) r"
      using best_is_head [OF Some, of ps] best_is_Cons [of resolve ps r x] by blast
    ultimately show ?thesis by simp
  qed
qed

lemma agent_name_from_basename_canonical:
  "agent_name_from_basename b = Some n \<Longrightarrow> \<exists>a. n = agent_label a"
  by (auto simp: agent_name_from_basename_def)

lemma agent_name_from_known_package_path_canonical:
  "agent_name_from_known_package_path p = Some n \<Longrightarrow> \<exists>a. n = agent_label a"
  unfolding agent_name_from_known_package_path_def Let_def
  by (metis option.inject option.distinct(1))

lemma resolved_agent_name_canonical:
  "resolved_agent_name_from_path_token resolve p = Some n \<Longrightarrow> \<exists>a. n = agent_label a"
  by (auto simp: resolved_agent_name_from_path_token_def bind_eq_Some_conv
      dest: agent_name_from_basename_canonical split: if_splits)

lemma agent_name_from_path_token_canonical:
  "agent_name_from_path_token resolve t = Some n \<Longrightarrow> \<exists>a. n = agent_label a"
  using agent_name_from_basename_canonical agent_name_from_known_package_path_canonical
    resolved_agent_name_canonical
  by (auto simp: agent_name_from_path_token_def or_else_def Let_def split: option.splits if_splits)

lemma command_text_agent_name_canonical:
  "command_text_agent_name resolve t = Some n \<Longrightarrow> \<exists>a. n = agent_label a"
proof (induction resolve t rule: command_text_agent_name.induct)
  case (1 resolve rest)
  from 1(2) show ?case
    by (subst (asm) command_text_agent_name.simps)
       (auto simp: Let_def split: option.splits prod.splits if_splits
         dest: agent_name_from_path_token_canonical 1(1))
qed

lemma windows_cmd_args_canonical:
  "windows_cmd_args resolve argv = Some n \<Longrightarrow> \<exists>a. n = agent_label a"
  by (induction resolve argv rule: windows_cmd_args.induct)
     (auto simp: Let_def split: if_splits list.splits dest: command_text_agent_name_canonical)

lemma powershell_args_canonical:
  "powershell_args resolve argv = Some n \<Longrightarrow> \<exists>a. n = agent_label a"
  by (induction resolve argv rule: powershell_args.induct)
     (auto simp: Let_def split: if_splits list.splits
       dest: command_text_agent_name_canonical agent_name_from_path_token_canonical)

lemma script_args_canonical:
  "script_args resolve ef mf argv = Some n \<Longrightarrow> \<exists>a. n = agent_label a"
  by (induction resolve ef mf argv rule: script_args.induct)
     (auto simp: Let_def split: if_splits list.splits dest: agent_name_from_path_token_canonical)

lemma wrapped_agent_name_canonical:
  "wrapped_agent_name_from_runtime_argv resolve rt argv = Some n \<Longrightarrow> \<exists>a. n = agent_label a"
  by (auto simp: wrapped_agent_name_from_runtime_argv_def Let_def script_arg_agent_name_def
      windows_cmd_arg_agent_name_def powershell_arg_agent_name_def
      split: option.splits if_splits
      dest: script_args_canonical windows_cmd_args_canonical powershell_args_canonical)

end
