(* ===== verification/AgentResume.thy ===== *)
theory AgentResume
  imports Agents
begin

section \<open>Native agent sessions\<close>

text \<open>
  \<open>agent_resume.rs\<close>: references to the agents' own sessions, which reports may name one, and
  the command line that resumes it. Unix build: an absolute path starts with a slash.
\<close>

datatype agent_session_ref_kind = RefId | RefPath

record agent_session_ref =
  sr_kind :: agent_session_ref_kind
  sr_value :: rstr

record agent_resume_plan =
  rp_agent :: rstr
  rp_argv :: "rstr list"
  rp_dedupe_key :: rstr

record persisted_agent_session =
  ps_source :: rstr
  ps_agent :: rstr
  ps_session_ref :: agent_session_ref

subsection \<open>References\<close>

definition MAX_SESSION_ID_LEN :: nat where
  "MAX_SESSION_ID_LEN = 512"

definition MAX_SESSION_PATH_LEN :: nat where
  "MAX_SESSION_PATH_LEN = 4096"

definition valid_session_id :: "rstr \<Rightarrow> bool" where
  "valid_session_id v = (v \<noteq> [] \<and> length v \<le> MAX_SESSION_ID_LEN \<and> \<not> list_ex is_control (chars v))"

definition valid_session_path :: "rstr \<Rightarrow> bool" where
  "valid_session_path v =
     (v \<noteq> [] \<and> length v \<le> MAX_SESSION_PATH_LEN \<and> \<not> list_ex is_control (chars v) \<and> prefix ''/'' v)"

definition session_ref_id :: "rstr \<Rightarrow> agent_session_ref option" where
  "session_ref_id v = (if valid_session_id v then Some \<lparr>sr_kind = RefId, sr_value = v\<rparr> else None)"

definition session_ref_path :: "rstr \<Rightarrow> agent_session_ref option" where
  "session_ref_path v = (if valid_session_path v then Some \<lparr>sr_kind = RefPath, sr_value = v\<rparr> else None)"

definition official_sources :: "(rstr \<times> rstr) list" where
  "official_sources =
     [(''herdr:claude'', ''claude''), (''herdr:codex'', ''codex''), (''herdr:copilot'', ''copilot''),
      (''herdr:devin'', ''devin''), (''herdr:droid'', ''droid''), (''herdr:kimi'', ''kimi''),
      (''herdr:omp'', ''omp''), (''herdr:mastracode'', ''mastracode''), (''herdr:pi'', ''pi''),
      (''herdr:hermes'', ''hermes''), (''herdr:opencode'', ''opencode''),
      (''herdr:qodercli'', ''qodercli''), (''herdr:kilo'', ''kilo''), (''herdr:cursor'', ''cursor''),
      (''herdr:antigravity_cli'', ''agy''), (''herdr:grok'', ''grok''), (''herdr:reasonix'', ''reasonix'')]"

definition is_official_agent_source :: "rstr \<Rightarrow> rstr \<Rightarrow> bool" where
  "is_official_agent_source source label = ((source, label) \<in> set official_sources)"

definition is_reserved_native_state_source :: "rstr \<Rightarrow> rstr \<Rightarrow> bool" where
  "is_reserved_native_state_source source label =
     ((source, label) \<in> set [(''herdr:claude'', ''claude''), (''herdr:codex'', ''codex''),
        (''herdr:copilot'', ''copilot''), (''herdr:devin'', ''devin''), (''herdr:droid'', ''droid''),
        (''herdr:qodercli'', ''qodercli''), (''herdr:cursor'', ''cursor''), (''herdr:grok'', ''grok'')])"

definition session_ref_from_report ::
  "rstr \<Rightarrow> rstr \<Rightarrow> rstr option \<Rightarrow> rstr option \<Rightarrow> agent_session_ref option" where
  "session_ref_from_report source label session_id session_path =
     (if \<not> is_official_agent_source source label then None
      else if label = ''pi'' \<or> label = ''omp'' then
        or_else (Option.bind session_path session_ref_path) (Option.bind session_id session_ref_id)
      else Option.bind session_id session_ref_id)"

definition session_start_sources :: "rstr list" where
  "session_start_sources = [''startup'', ''resume'', ''clear'', ''compact'', ''new'', ''fork'']"

definition normalize_session_start_source :: "rstr option \<Rightarrow> rstr option" where
  "normalize_session_start_source v =
     (case v of None \<Rightarrow> None
      | Some s \<Rightarrow> if trim s \<in> set session_start_sources then Some (trim s) else None)"

definition session_ref_from_snapshot ::
  "rstr \<Rightarrow> rstr \<Rightarrow> agent_session_ref_kind \<Rightarrow> rstr \<Rightarrow> persisted_agent_session option" where
  "session_ref_from_snapshot source label kind v =
     (if \<not> is_official_agent_source source label then None
      else (let ref = (case kind of
                RefPath \<Rightarrow> if label = ''pi'' \<or> label = ''omp'' then session_ref_path v else None
              | RefId \<Rightarrow> session_ref_id v)
            in map_option (\<lambda>r. \<lparr>ps_source = source, ps_agent = label, ps_session_ref = r\<rparr>) ref))"

subsection \<open>Resuming\<close>

definition nul :: rstr where
  "nul = [CHR 0x00]"

fun kind_debug :: "agent_session_ref_kind \<Rightarrow> rstr" where
  "kind_debug RefId = ''Id''"
| "kind_debug RefPath = ''Path''"

definition dedupe_key :: "rstr \<Rightarrow> rstr \<Rightarrow> agent_session_ref \<Rightarrow> rstr" where
  "dedupe_key source label r =
     source @ nul @ label @ nul @ kind_debug (sr_kind r) @ nul @ sr_value r"

text \<open>The command line: the program, the flag, and whether the value is glued to the flag.\<close>

definition resume_argv :: "rstr \<Rightarrow> rstr \<Rightarrow> agent_session_ref_kind \<Rightarrow> rstr \<Rightarrow> rstr list option" where
  "resume_argv source label kind v =
     (let resume = (source, label)
      in if kind = RefId then
           (if resume = (''herdr:claude'', ''claude'') then Some [''claude'', ''--resume'', v]
            else if resume = (''herdr:codex'', ''codex'') then Some [''codex'', ''resume'', v]
            else if resume = (''herdr:copilot'', ''copilot'') then Some [''copilot'', ''--resume='' @ v]
            else if resume = (''herdr:devin'', ''devin'') then Some [''devin'', ''--resume'', v]
            else if resume = (''herdr:droid'', ''droid'') then Some [''droid'', ''--resume'', v]
            else if resume = (''herdr:kimi'', ''kimi'') then Some [''kimi'', ''--session'', v]
            else if resume = (''herdr:mastracode'', ''mastracode'') then Some [''mastracode'', ''--thread'', v]
            else if resume = (''herdr:pi'', ''pi'') then Some [''pi'', ''--session'', v]
            else if resume = (''herdr:omp'', ''omp'') then Some [''omp'', ''--resume='' @ v]
            else if resume = (''herdr:hermes'', ''hermes'') then Some [''hermes'', ''--resume'', v]
            else if resume = (''herdr:opencode'', ''opencode'') then Some [''opencode'', ''--session'', v]
            else if resume = (''herdr:qodercli'', ''qodercli'') then Some [''qodercli'', ''--resume'', v]
            else if resume = (''herdr:kilo'', ''kilo'') then Some [''kilo'', ''--session'', v]
            else if resume = (''herdr:cursor'', ''cursor'') then Some [''cursor-agent'', ''--resume'', v]
            else if resume = (''herdr:antigravity_cli'', ''agy'') then Some [''agy'', ''--conversation'', v]
            else if resume = (''herdr:grok'', ''grok'') then Some [''grok'', ''--resume'', v]
            else if resume = (''herdr:reasonix'', ''reasonix'') then Some [''reasonix'', ''--resume'', v]
            else None)
         else if resume = (''herdr:pi'', ''pi'') then Some [''pi'', ''--session'', v]
         else if resume = (''herdr:omp'', ''omp'') then Some [''omp'', ''--resume='' @ v]
         else None)"

definition plan :: "rstr \<Rightarrow> rstr \<Rightarrow> agent_session_ref \<Rightarrow> agent_resume_plan option" where
  "plan source label r =
     (if \<not> is_official_agent_source source label then None
      else map_option (\<lambda>argv. \<lparr>rp_agent = label, rp_argv = argv, rp_dedupe_key = dedupe_key source label r\<rparr>)
             (resume_argv source label (sr_kind r) (sr_value r)))"

subsection \<open>Lemmas\<close>

definition valid_session_ref :: "agent_session_ref \<Rightarrow> bool" where
  "valid_session_ref r =
     (case sr_kind r of RefId \<Rightarrow> valid_session_id (sr_value r) | RefPath \<Rightarrow> valid_session_path (sr_value r))"

lemma session_ref_id_valid: "session_ref_id v = Some r \<Longrightarrow> valid_session_ref r \<and> sr_kind r = RefId \<and> sr_value r = v"
  by (auto simp: session_ref_id_def valid_session_ref_def split: if_splits)

lemma session_ref_path_valid: "session_ref_path v = Some r \<Longrightarrow> valid_session_ref r \<and> sr_kind r = RefPath \<and> sr_value r = v"
  by (auto simp: session_ref_path_def valid_session_ref_def split: if_splits)

lemma resume_argv_Some_iff:
  "is_official_agent_source source label \<Longrightarrow>
   resume_argv source label kind v \<noteq> None \<longleftrightarrow> kind = RefId \<or> label = ''pi'' \<or> label = ''omp''"
  by (cases kind) (auto simp: is_official_agent_source_def official_sources_def resume_argv_def)

lemma plan_Some_iff:
  "plan source label r \<noteq> None \<longleftrightarrow>
   is_official_agent_source source label \<and> (sr_kind r = RefId \<or> label = ''pi'' \<or> label = ''omp'')"
  using resume_argv_Some_iff by (auto simp: plan_def)

lemma official_known: "is_official_agent_source source label \<Longrightarrow> \<exists>a. label = agent_label a"
proof -
  assume "is_official_agent_source source label"
  then have "label \<in> snd ` set official_sources" by (force simp: is_official_agent_source_def)
  moreover have "snd ` set official_sources \<subseteq> agent_label ` set
     [Claude, Codex, GithubCopilot, Devin, Droid, Kimi, Omp, Mastracode, Pi, Hermes, OpenCode,
      Qodercli, Kilo, Cursor, Antigravity, Grok, Reasonix]"
    by (simp add: official_sources_def)
  ultimately show ?thesis by blast
qed

lemma full_lifecycle_official:
  "full_lifecycle_hook_authority source label \<Longrightarrow> is_official_agent_source source label"
  by (auto simp: full_lifecycle_hook_authority_def is_official_agent_source_def official_sources_def)

lemma official_partition:
  "is_official_agent_source source label \<longleftrightarrow>
     full_lifecycle_hook_authority source label \<or> is_reserved_native_state_source source label
     \<or> session_identity_only_integration source label"
  by (auto simp: full_lifecycle_hook_authority_def is_official_agent_source_def official_sources_def
      is_reserved_native_state_source_def session_identity_only_integration_def)

lemma official_disjoint:
  "\<not> (full_lifecycle_hook_authority source label \<and> is_reserved_native_state_source source label)"
  "\<not> (full_lifecycle_hook_authority source label \<and> session_identity_only_integration source label)"
  "\<not> (is_reserved_native_state_source source label \<and> session_identity_only_integration source label)"
  by (auto simp: full_lifecycle_hook_authority_def is_reserved_native_state_source_def
      session_identity_only_integration_def)

text \<open>Splitting at the first separator is unique when the left parts are free of it.\<close>

lemma append_sep_inject:
  "s \<notin> set a \<Longrightarrow> s \<notin> set b \<Longrightarrow> a @ s # c = b @ s # d \<longleftrightarrow> a = b \<and> c = d"
proof (induction a arbitrary: b)
  case Nil
  then show ?case by (cases b) auto
next
  case (Cons x a)
  then show ?case by (cases b) auto
qed

lemma official_no_nul:
  "is_official_agent_source source label \<Longrightarrow> CHR 0x00 \<notin> set source \<and> CHR 0x00 \<notin> set label"
proof -
  assume "is_official_agent_source source label"
  then have "(source, label) \<in> set official_sources" by (simp add: is_official_agent_source_def)
  moreover have "list_all (\<lambda>(s, l). CHR 0x00 \<notin> set s \<and> CHR 0x00 \<notin> set l) official_sources"
    by (simp add: official_sources_def)
  ultimately show ?thesis by (auto simp: list_all_iff)
qed

lemma dedupe_key_inject:
  assumes "CHR 0x00 \<notin> set s \<and> CHR 0x00 \<notin> set l" "CHR 0x00 \<notin> set s' \<and> CHR 0x00 \<notin> set l'"
    and "dedupe_key s l r = dedupe_key s' l' r'"
  shows "s = s' \<and> l = l' \<and> r = r'"
proof -
  have k: "CHR 0x00 \<notin> set (kind_debug k)" for k by (cases k) auto
  from assms k have "s = s'" "l = l'" "kind_debug (sr_kind r) = kind_debug (sr_kind r')" "sr_value r = sr_value r'"
    by (auto simp: dedupe_key_def nul_def append_sep_inject)
  moreover from this(3) have "sr_kind r = sr_kind r'" by (cases "sr_kind r"; cases "sr_kind r'") auto
  ultimately show ?thesis by simp
qed

end
