(* ===== verification/AgentProps.thy ===== *)
theory AgentProps
  imports AgentIdentify AgentResume
begin

section \<open>Properties of agent names and sessions\<close>

text \<open>Names round-trip through their labels, a foreground job's agent is the best process, every
  session a report can name can be resumed, and two sessions never share a dedupe key.\<close>

text \<open>Every agent is recognised by its own label, bare or with one of the wrapper
  suffixes of a Windows or script launcher.\<close>

theorem agent_label_roundtrip:
  "ext \<in> set ('''' # wrapper_suffixes) \<Longrightarrow> parse_agent_label (agent_label a @ ext) = Some a"
  by (rule parse_agent_label_with_suffix) auto

theorem agent_label_roundtrip_witness:
  "parse_agent_label ''claude.cmd'' = Some Claude"
  using agent_label_roundtrip [of "''.cmd''" Claude] by (simp add: wrapper_suffixes_def)

text \<open>The integrations split into three disjoint groups: those whose hooks own the
  whole lifecycle, those whose native state is reserved for screen detection, and those that only
  report the session identity; together they are exactly the official sources, and each names a
  known agent.\<close>

theorem official_sources_partition:
  "(is_official_agent_source source label \<longleftrightarrow>
      full_lifecycle_hook_authority source label \<or> is_reserved_native_state_source source label
      \<or> session_identity_only_integration source label)
   \<and> \<not> (full_lifecycle_hook_authority source label \<and> is_reserved_native_state_source source label)
   \<and> \<not> (full_lifecycle_hook_authority source label \<and> session_identity_only_integration source label)
   \<and> \<not> (is_reserved_native_state_source source label \<and> session_identity_only_integration source label)
   \<and> (is_official_agent_source source label \<longrightarrow> parse_agent_label label \<noteq> None)"
  using official_partition official_disjoint official_known by fastforce

theorem official_sources_partition_witness:
  "parse_agent_label ''kimi'' \<noteq> None \<and> \<not> is_reserved_native_state_source ''herdr:kimi'' ''kimi''"
proof -
  have "is_official_agent_source ''herdr:kimi'' ''kimi''" "full_lifecycle_hook_authority ''herdr:kimi'' ''kimi''"
    by (simp_all add: is_official_agent_source_def official_sources_def full_lifecycle_hook_authority_def)
  with official_sources_partition [of "''herdr:kimi''" "''kimi''"] show ?thesis by blast
qed

text \<open>The agent of a foreground job: the group leader decides when it is recognised;
  otherwise the answer is the first of the recognised processes with the highest priority, and
  there is no answer only when no process is recognised.\<close>

theorem identify_agent_in_job_best:
  "case identify_agent_in_job resolve job of
     None \<Rightarrow> \<forall>p \<in> set (fj_processes job). process_agent resolve p = None
   | Some (a, name) \<Rightarrow> \<exists>p \<in> set (fj_processes job).
       process_agent resolve p = Some a \<and> name = normalized_process_name resolve p
       \<and> (case find (\<lambda>q. fp_pid q = fj_process_group_id job) (fj_processes job) of
            Some leader \<Rightarrow> p = leader
              \<or> process_agent resolve leader = None \<and> is_best resolve (fj_processes job) p
          | None \<Rightarrow> is_best resolve (fj_processes job) p)"
proof -
  let ?ps = "fj_processes job" and ?lead = "\<lambda>q. fp_pid q = fj_process_group_id job"
  have best: "p \<in> set ?ps" if "is_best resolve ?ps p" for p
    using that by (auto simp: is_best_def)
  note spec = best_candidate_spec [where resolve = resolve and ps = ?ps]
  show ?thesis
  proof (cases "find ?lead ?ps")
    case None
    with spec best show ?thesis
      by (fastforce simp: identify_agent_in_job_def best_is_def split: option.splits)
  next
    case (Some leader)
    then have "leader \<in> set ?ps" by (simp add: find_Some_set)
    with Some spec best show ?thesis
      by (fastforce simp: identify_agent_in_job_def best_is_def process_agent_def [of resolve leader] Let_def
          split: option.splits)
  qed
qed

theorem identify_agent_in_job_best_witness:
  "\<exists>name. identify_agent_in_job (\<lambda>p. None)
     \<lparr>fj_process_group_id = 7, fj_processes =
        [\<lparr>fp_pid = 7, fp_name = ''claude'', fp_argv0 = None, fp_argv = None, fp_cmdline = None\<rparr>]\<rparr>
   = Some (Claude, name)"
  (is "\<exists>name. identify_agent_in_job ?r ?job = _")
proof -
  have e: "parse_agent_label ''claude'' = Some Claude"
    using parse_agent_label_inverse [of Claude] by simp
  have pl: "plain ''claude''" by (simp add: plain_def byte_def)
  then have g: "\<not> is_generic_runtime_or_shell (to_lowercase ''claude'')"
    by (simp add: is_generic_runtime_or_shell_def lower_plain normalized_plain_bare path_basename_def
        split_on_none is_path_sep_def is_python_runtime_def strip_prefix_def)
  have "process_agent ?r \<lparr>fp_pid = 7, fp_name = ''claude'', fp_argv0 = None, fp_argv = None, fp_cmdline = None\<rparr>
      = Some Claude"
    using e g by (simp add: process_agent_def normalized_process_name_def Let_def)
  with identify_agent_in_job_best [where resolve = ?r and job = ?job] show ?thesis
    by (auto split: option.splits)
qed

text \<open>Every session reference accepted from a report or a snapshot is well formed
  and can be resumed: its plan runs the agent's own command line, which ends with the session.\<close>

theorem reported_session_resumable:
  assumes "session_ref_from_report source label session_id session_path = Some r
    \<or> session_ref_from_snapshot source label kind v = Some \<lparr>ps_source = source, ps_agent = label, ps_session_ref = r\<rparr>"
  shows "valid_session_ref r \<and>
    (\<exists>p. plan source label r = Some p \<and> rp_agent p = label
       \<and> suffix (sr_value r) (last (rp_argv p)) \<and> rp_dedupe_key p = dedupe_key source label r)"
proof -
  from assms have r: "valid_session_ref r" "is_official_agent_source source label"
    "sr_kind r = RefId \<or> label = ''pi'' \<or> label = ''omp''"
    by (auto simp: session_ref_from_report_def session_ref_from_snapshot_def or_else_def bind_eq_Some_conv
        dest: session_ref_id_valid session_ref_path_valid split: if_splits option.splits agent_session_ref_kind.splits)
  then have "plan source label r \<noteq> None" using plan_Some_iff by blast
  then obtain p where p: "plan source label r = Some p" by blast
  then obtain argv where "resume_argv source label (sr_kind r) (sr_value r) = Some argv"
    and "p = \<lparr>rp_agent = label, rp_argv = argv, rp_dedupe_key = dedupe_key source label r\<rparr>"
    by (auto simp: plan_def split: if_splits)
  moreover from this(1) have "suffix (sr_value r) (last argv)"
    by (auto simp: resume_argv_def Let_def suffix_def split: if_splits)
  ultimately show ?thesis using r(1) p by simp
qed

theorem reported_session_resumable_witness:
  "\<exists>p. plan ''herdr:codex'' ''codex'' \<lparr>sr_kind = RefId, sr_value = ''s1''\<rparr> = Some p \<and> rp_agent p = ''codex''"
proof -
  have "plain ''s1''" by (simp add: plain_def byte_def)
  then have "valid_session_id ''s1''"
    using no_control_plain [of "''s1''"] by (simp add: valid_session_id_def MAX_SESSION_ID_LEN_def del: chars.simps)
  then have "session_ref_from_report ''herdr:codex'' ''codex'' (Some ''s1'') None
      = Some \<lparr>sr_kind = RefId, sr_value = ''s1''\<rparr>"
    by (simp add: session_ref_from_report_def is_official_agent_source_def official_sources_def session_ref_id_def)
  from reported_session_resumable [OF disjI1 [OF this]] show ?thesis by blast
qed

text \<open>The key that keeps a session from being resumed twice is injective: two
  resume plans with the same key resume the same session of the same agent and source.\<close>

theorem dedupe_key_identifies_session:
  assumes "plan s l r = Some p" "plan s' l' r' = Some p'" "rp_dedupe_key p = rp_dedupe_key p'"
  shows "s = s' \<and> l = l' \<and> r = r' \<and> p = p'"
proof -
  from assms have "is_official_agent_source s l" "is_official_agent_source s' l'"
    "dedupe_key s l r = dedupe_key s' l' r'"
    by (auto simp: plan_def split: if_splits)
  then have "s = s' \<and> l = l' \<and> r = r'"
    using dedupe_key_inject official_no_nul by blast
  with assms show ?thesis by simp
qed

theorem dedupe_key_identifies_session_witness:
  "dedupe_key ''herdr:pi'' ''pi'' \<lparr>sr_kind = RefPath, sr_value = ''/a''\<rparr>
   \<noteq> dedupe_key ''herdr:pi'' ''pi'' \<lparr>sr_kind = RefPath, sr_value = ''/b''\<rparr>"
proof
  let ?r = "\<lambda>v. \<lparr>sr_kind = RefPath, sr_value = v\<rparr>"
  let ?p = "\<lambda>v. \<lparr>rp_agent = ''pi'', rp_argv = [''pi'', ''--session'', v],
      rp_dedupe_key = dedupe_key ''herdr:pi'' ''pi'' (?r v)\<rparr>"
  assume "dedupe_key ''herdr:pi'' ''pi'' (?r ''/a'') = dedupe_key ''herdr:pi'' ''pi'' (?r ''/b'')"
  moreover have "plan ''herdr:pi'' ''pi'' (?r v) = Some (?p v)" for v
    by (simp add: plan_def is_official_agent_source_def official_sources_def resume_argv_def)
  ultimately have "?r ''/a'' = ?r ''/b''"
    using dedupe_key_identifies_session [of "''herdr:pi''" "''pi''" "?r ''/a''" "?p ''/a''"
        "''herdr:pi''" "''pi''" "?r ''/b''" "?p ''/b''"] by simp
  then show False by simp
qed

end
