(* ===== verification/MetadataTokens.thy ===== *)
theory MetadataTokens
  imports RustStr
begin

section \<open>Per-source sequence gates\<close>

text \<open>
  Hook reports, metadata reports and metadata tokens arrive from concurrent reporters, each
  numbering its own reports. All three components keep the last number accepted from every
  source and promise the same contract: a numbered report is only accepted above the last
  number of its source, and acceptance records it for that source alone. The lemmas of the
  locale are proved once from the contract and hold for every component that provides it.
\<close>

locale seq_gate =
  fixes last_seq :: "'st \<Rightarrow> rstr \<Rightarrow> u64 option"
    and accept :: "'st \<Rightarrow> rstr \<Rightarrow> u64 option \<Rightarrow> 'st \<times> bool"
  assumes accepted: "accept st src (Some n) = (st', True) \<Longrightarrow>
      (case last_seq st src of None \<Rightarrow> True | Some m \<Rightarrow> m < n) \<and> last_seq st' = (last_seq st)(src \<mapsto> n)"
    and rejected: "accept st src q = (st', False) \<Longrightarrow> last_seq st' = last_seq st"
    and unnumbered: "accept st src None = (st', b) \<Longrightarrow> last_seq st' = last_seq st"
begin

text \<open>The state after a list of reports, and the numbers accepted from one source on the way.\<close>

fun run :: "'st \<Rightarrow> (rstr \<times> u64 option) list \<Rightarrow> 'st" where
  "run st [] = st"
| "run st ((src, q) # rs) = run (fst (accept st src q)) rs"

fun accepted_seqs :: "'st \<Rightarrow> (rstr \<times> u64 option) list \<Rightarrow> rstr \<Rightarrow> u64 list" where
  "accepted_seqs st [] s = []"
| "accepted_seqs st ((src, q) # rs) s =
     (let (st', ok) = accept st src q
      in (case q of Some n \<Rightarrow> if ok \<and> src = s then [n] else [] | None \<Rightarrow> []) @ accepted_seqs st' rs s)"

lemma last_seq_step:
  assumes "accept st src q = (st', ok)"
  shows "last_seq st' s = (case q of Some n \<Rightarrow> if ok \<and> src = s then Some n else last_seq st s | None \<Rightarrow> last_seq st s)"
  using assms accepted [of st src _ st'] rejected [of st src q st'] unnumbered [of st src st' ok]
  by (cases q; cases ok) (auto simp: fun_upd_def)

lemma accepted_seqs_above:
  "last_seq st s = Some m \<Longrightarrow> \<forall>n \<in> set (accepted_seqs st rs s). m < n"
proof (induction st rs s arbitrary: m rule: accepted_seqs.induct)
  case (1 st s)
  then show ?case by simp
next
  case (2 st src q rs s)
  obtain st' ok where a: "accept st src q = (st', ok)" by (cases "accept st src q")
  show ?case
  proof (cases "ok \<and> src = s \<and> q \<noteq> None")
    case True
    then obtain n where n: "q = Some n" by auto
    with True a accepted [of st src n st'] 2(2) have "m < n" by simp
    moreover have "\<forall>k \<in> set (accepted_seqs st' rs s). n < k"
      using last_seq_step [OF a, of s] True n by (intro 2(1) [OF a [symmetric] refl]) simp
    ultimately show ?thesis using a n by (auto split: if_splits)
  next
    case False
    then have "last_seq st' s = Some m" using last_seq_step [OF a, of s] 2(2) by (auto split: option.splits)
    with 2(1) [OF a [symmetric] refl] a False show ?thesis by (auto split: option.splits if_splits)
  qed
qed

lemma accepted_seqs_increase: "sorted_wrt (<) (accepted_seqs st rs s)"
proof (induction st rs s rule: accepted_seqs.induct)
  case (1 st s)
  then show ?case by simp
next
  case (2 st src q rs s)
  obtain st' ok where a: "accept st src q = (st', ok)" by (cases "accept st src q")
  have "\<forall>k \<in> set (accepted_seqs st' rs s). n < k" if "q = Some n" "ok" "src = s" for n
    using last_seq_step [OF a, of s] that by (intro accepted_seqs_above) simp
  with 2 [OF a [symmetric] refl] a show ?case by (auto split: option.splits)
qed

lemma replay_rejected:
  assumes "accept st src (Some n) = (st', True)" "accept st' src (Some k) = (st'', ok)" "k \<le> n"
  shows "\<not> ok"
proof
  assume ok
  with assms(1,2) accepted [of st' src k st''] accepted [of st src n st'] have "n < k" by simp
  with assms(3) show False by simp
qed

end

section \<open>Metadata tokens\<close>

text \<open>
  \<open>metadata_tokens.rs\<close>: the key/value tokens reporters attach to a terminal or a workspace,
  each with an optional expiry, and the bounded table of sequence numbers that guards them.
\<close>

record metadata_token =
  mt_value :: rstr
  mt_expires_at :: "instant option"

type_synonym metadata_tokens = "(rstr, metadata_token) hmap"

type_synonym sequences = "(rstr, u64) hmap"

definition MAX_SEQUENCE_SOURCES :: nat where
  "MAX_SEQUENCE_SOURCES = 32"

definition sequence_is_fresh :: "sequences \<Rightarrow> rstr \<Rightarrow> u64 option \<Rightarrow> bool" where
  "sequence_is_fresh sequences source seq =
     is_none_or (\<lambda>s. is_none_or (\<lambda>last. last < s) (hm_get sequences source)) seq"

definition accept_sequence :: "sequences \<Rightarrow> rstr \<Rightarrow> u64 option \<Rightarrow> sequences \<times> (unit + bool)" where
  "accept_sequence sequences source seq =
     (case seq of
        None \<Rightarrow> (sequences, Inr True)
      | Some s \<Rightarrow>
          if \<not> sequence_is_fresh sequences source (Some s) then (sequences, Inr False)
          else if \<not> hm_contains sequences source \<and> MAX_SEQUENCE_SOURCES \<le> length sequences
          then (sequences, Inl ())
          else (hm_insert sequences source s, Inr True))"

subsection \<open>Tokens\<close>

fun tokens_patch_loop ::
  "(rstr \<times> rstr option) list \<Rightarrow> instant option \<Rightarrow> metadata_tokens \<Rightarrow> bool \<Rightarrow> metadata_tokens \<times> bool" where
  "tokens_patch_loop [] expires_at entries changed = (entries, changed)"
| "tokens_patch_loop ((key, v) # ps) expires_at entries changed =
     (case v of
        Some x \<Rightarrow>
          (let token = \<lparr>mt_value = x, mt_expires_at = expires_at\<rparr>
           in if hm_get entries key \<noteq> Some token
              then tokens_patch_loop ps expires_at (hm_insert entries key token) True
              else tokens_patch_loop ps expires_at entries changed)
      | None \<Rightarrow>
          tokens_patch_loop ps expires_at (hm_remove entries key) (changed \<or> hm_contains entries key))"

definition tokens_patch ::
  "metadata_tokens \<Rightarrow> (rstr, rstr option) hmap \<Rightarrow> duration option \<Rightarrow> instant \<Rightarrow> metadata_tokens \<times> bool" where
  "tokens_patch entries patch ttl now =
     tokens_patch_loop patch (Option.bind ttl (instant_checked_add now)) entries False"

text \<open>The hash set of keys, as the list of its elements.\<close>

fun key_set_after :: "(rstr \<times> rstr option) list \<Rightarrow> rstr list \<Rightarrow> rstr list" where
  "key_set_after [] keys = keys"
| "key_set_after ((key, v) # ps) keys =
     key_set_after ps (if v \<noteq> None then List.insert key keys else removeAll key keys)"

definition tokens_values :: "metadata_tokens \<Rightarrow> (rstr, rstr) hmap" where
  "tokens_values entries = map (\<lambda>(key, token). (key, mt_value token)) entries"

definition key_count_after_patch :: "metadata_tokens \<Rightarrow> (rstr, rstr option) hmap \<Rightarrow> nat" where
  "key_count_after_patch entries patch = length (key_set_after patch (map fst (tokens_values entries)))"

definition tokens_next_expiry :: "metadata_tokens \<Rightarrow> instant option" where
  "tokens_next_expiry entries =
     min_by_key id (List.map_filter (\<lambda>(_, token). mt_expires_at token) entries)"

definition tokens_expire_at :: "metadata_tokens \<Rightarrow> instant \<Rightarrow> metadata_tokens \<times> bool" where
  "tokens_expire_at entries now =
     (let entries' = hm_retain (\<lambda>_ token. is_none_or (\<lambda>deadline. now < deadline) (mt_expires_at token)) entries
      in (entries', length entries' \<noteq> length entries))"

subsection \<open>The sequence table\<close>

definition token_sequence_accepted :: "sequences \<Rightarrow> rstr \<Rightarrow> u64 option \<Rightarrow> sequences \<times> bool" where
  "token_sequence_accepted st source seq =
     (let (st', r) = accept_sequence st source seq in (st', r = Inr True))"

lemma hm_insert_map: "map_of (hm_insert m k v) = (map_of m)(k \<mapsto> v)"
  by (auto simp: update_conv')

interpretation token_seq: seq_gate map_of token_sequence_accepted
  by unfold_locales
     (auto simp: token_sequence_accepted_def accept_sequence_def sequence_is_fresh_def hm_insert_map
       split: option.splits if_splits)

lemma accept_sequence_bounded:
  "hm_ok m \<Longrightarrow> length m \<le> MAX_SEQUENCE_SOURCES \<Longrightarrow> accept_sequence m s q = (m', r) \<Longrightarrow>
   hm_ok m' \<and> length m' \<le> MAX_SEQUENCE_SOURCES"
proof -
  assume ok: "hm_ok m" "length m \<le> MAX_SEQUENCE_SOURCES" and a: "accept_sequence m s q = (m', r)"
  have len: "length (hm_insert m s n) = (if hm_contains m s then length m else Suc (length m))" for n
    by (induction m) auto
  from ok a len show ?thesis
    by (auto simp: accept_sequence_def distinct_update split: option.splits if_splits)
qed

subsection \<open>Patching\<close>

lemma tokens_patch_loop_get:
  assumes "distinct (map fst ps)"
  shows "hm_get (fst (tokens_patch_loop ps e m c)) k =
    (case map_of ps k of None \<Rightarrow> hm_get m k | Some v \<Rightarrow> map_option (\<lambda>x. \<lparr>mt_value = x, mt_expires_at = e\<rparr>) v)"
  using assms
proof (induction ps e m c rule: tokens_patch_loop.induct)
  case (1 e m c)
  then show ?case by simp
next
  case (2 key v ps e m c)
  have k: "map_of ps key = None" using 2(4) by (simp add: map_of_eq_None_iff)
  show ?case
  proof (cases v)
    case None
    with 2 k show ?thesis by (auto split: option.splits)
  next
    case (Some x)
    show ?thesis
    proof (cases "hm_get m key = Some \<lparr>mt_value = x, mt_expires_at = e\<rparr>")
      case True
      with Some 2 k show ?thesis by (auto split: option.splits)
    next
      case False
      with Some 2 k show ?thesis by (auto split: option.splits)
    qed
  qed
qed

lemma tokens_patch_loop_changed:
  assumes "distinct (map fst ps)"
  shows "snd (tokens_patch_loop ps e m c) \<longleftrightarrow>
    c \<or> (\<exists>k. hm_get (fst (tokens_patch_loop ps e m c)) k \<noteq> hm_get m k)"
  using assms
proof (induction ps e m c rule: tokens_patch_loop.induct)
  case (1 e m c)
  then show ?case by simp
next
  case (2 key v ps e m c)
  note IH = 2(1-3) and d = 2(4)
  have k: "map_of ps key = None" "distinct (map fst ps)" using d by (simp_all add: map_of_eq_None_iff)
  note get = tokens_patch_loop_get [OF d, of e m c] tokens_patch_loop_get [OF k(2)]
  consider (none) "v = None" | (same) x where "v = Some x" "hm_get m key = Some \<lparr>mt_value = x, mt_expires_at = e\<rparr>"
    | (new) x where "v = Some x" "hm_get m key \<noteq> Some \<lparr>mt_value = x, mt_expires_at = e\<rparr>"
    by (cases v) auto
  then show ?case
  proof cases
    case none
    let ?R = "\<lambda>c'. hm_get (fst (tokens_patch_loop ps e (hm_remove m key) c'))"
    have "?R c' key = None" for c' using get(2) k by simp
    then have "(\<exists>j. ?R c' j \<noteq> hm_get m j) \<longleftrightarrow> hm_contains m key \<or> (\<exists>j. ?R c' j \<noteq> hm_get (hm_remove m key) j)" for c'
      by (metis fun_upd_apply hm_remove_get)
    then show ?thesis using none IH(1) [OF none k(2)] by simp
  next
    case same
    with IH(3) k show ?thesis by simp
  next
    case new
    have "hm_get (fst (tokens_patch_loop ps e (hm_insert m key \<lparr>mt_value = x, mt_expires_at = e\<rparr>) True)) key
        \<noteq> hm_get m key"
      using get(2) k new by auto
    with new IH(2) [OF new(1) refl new(2) k(2)] show ?thesis by (auto simp: Let_def)
  qed
qed

lemma hm_ok_patch: "hm_ok m \<Longrightarrow> hm_ok (fst (tokens_patch_loop ps e m c))"
  by (induction ps e m c rule: tokens_patch_loop.induct) (auto simp: Let_def split: option.splits)

lemma key_set_after_set:
  assumes "distinct (map fst ps)"
  shows "set (key_set_after ps ks) =
    {k. case map_of ps k of None \<Rightarrow> k \<in> set ks | Some v \<Rightarrow> v \<noteq> None}"
  using assms
proof (induction ps ks rule: key_set_after.induct)
  case (1 ks)
  then show ?case by simp
next
  case (2 key v ps ks)
  then have "map_of ps key = None" by (simp add: map_of_eq_None_iff)
  with 2 show ?case by (auto split: option.splits if_splits)
qed

lemma key_set_after_distinct: "distinct ks \<Longrightarrow> distinct (key_set_after ps ks)"
  by (induction ps ks rule: key_set_after.induct) (auto simp: distinct_removeAll)

lemma key_count_patch:
  assumes "hm_ok m" "distinct (map fst p)"
  shows "key_count_after_patch m p = length (fst (tokens_patch m p ttl now))"
proof -
  let ?m = "fst (tokens_patch m p ttl now)" and ?ks = "key_set_after p (map fst m)"
  have vals: "map fst (tokens_values m) = map fst m" by (auto simp: tokens_values_def)
  have mem: "k \<in> fst ` set xs \<longleftrightarrow> map_of xs k \<noteq> None" for k and xs :: "(rstr \<times> metadata_token) list"
    by (simp add: map_of_eq_None_iff)
  have "k \<in> set ?ks \<longleftrightarrow> hm_get ?m k \<noteq> None" for k
    unfolding tokens_patch_def tokens_patch_loop_get [OF assms(2)]
    by (auto simp: key_set_after_set [OF assms(2)] mem split: option.splits)
  then have "set ?ks = set (map fst ?m)"
    unfolding set_map by (intro set_eqI) (simp only: mem)
  moreover have "distinct ?ks" "distinct (map fst ?m)"
    using assms(1) by (simp_all add: key_set_after_distinct hm_ok_patch tokens_patch_def)
  ultimately have "length ?ks = length (map fst ?m)" by (metis distinct_card)
  then show ?thesis by (simp add: key_count_after_patch_def vals)
qed

subsection \<open>Expiry\<close>

definition token_live :: "instant \<Rightarrow> metadata_token \<Rightarrow> bool" where
  "token_live now t = is_none_or (\<lambda>deadline. now < deadline) (mt_expires_at t)"

lemma tokens_expire_get:
  "hm_ok m \<Longrightarrow> hm_get (fst (tokens_expire_at m now)) k = opt_filter (token_live now) (hm_get m k)"
  by (auto simp: tokens_expire_at_def Let_def hm_retain_get token_live_def opt_filter_def split: option.splits)

lemma length_retain_iff: "length (hm_retain p m) \<noteq> length m \<longleftrightarrow> (\<exists>k t. (k, t) \<in> set m \<and> \<not> p k t)"
proof (induction m)
  case Nil
  then show ?case by simp
next
  case (Cons x m)
  have "length (hm_retain p m) < Suc (length m)" by (simp add: less_Suc_eq_le)
  with Cons show ?case by (cases x) auto
qed

lemma tokens_expire_changed:
  "hm_ok m \<Longrightarrow> snd (tokens_expire_at m now) \<longleftrightarrow> (\<exists>k t. hm_get m k = Some t \<and> \<not> token_live now t)"
  by (simp add: tokens_expire_at_def Let_def length_retain_iff token_live_def)

lemma tokens_next_expiry_cases:
  assumes "hm_ok m"
  shows "case tokens_next_expiry m of
      None \<Rightarrow> (\<forall>k t. hm_get m k = Some t \<longrightarrow> mt_expires_at t = None)
    | Some d \<Rightarrow> (\<exists>k t. hm_get m k = Some t \<and> mt_expires_at t = Some d)
        \<and> (\<forall>k t e. hm_get m k = Some t \<longrightarrow> mt_expires_at t = Some e \<longrightarrow> d \<le> e)"
proof -
  let ?ds = "List.map_filter (\<lambda>(k, t). mt_expires_at t) m"
  have ds: "d \<in> set ?ds \<longleftrightarrow> (\<exists>k t. hm_get m k = Some t \<and> mt_expires_at t = Some d)" for d
    using assms by (force simp: List.map_filter_def hm_get_set [symmetric])
  show ?thesis
  proof (cases "tokens_next_expiry m")
    case None
    then have "set ?ds = {}" by (simp add: tokens_next_expiry_def)
    with ds show ?thesis using None by (auto simp del: set_empty) (metis not_None_eq)
  next
    case (Some d)
    then have "d \<in> set ?ds" "\<And>e. e \<in> set ?ds \<Longrightarrow> d \<le> e"
      using min_by_key_Some [of id ?ds d] by (simp_all add: tokens_next_expiry_def)
    with ds show ?thesis using Some by auto
  qed
qed

section \<open>Properties of the metadata tokens\<close>

lemma run_sequences_bounded:
  "hm_ok m \<Longrightarrow> length m \<le> MAX_SEQUENCE_SOURCES \<Longrightarrow>
   hm_ok (token_seq.run m rs) \<and> length (token_seq.run m rs) \<le> MAX_SEQUENCE_SOURCES"
proof (induction m rs rule: token_seq.run.induct)
  case (1 m)
  then show ?case by simp
next
  case (2 m src q rs)
  obtain m' r where "accept_sequence m src q = (m', r)" by (cases "accept_sequence m src q")
  then have "fst (token_sequence_accepted m src q) = m'" by (simp add: token_sequence_accepted_def)
  with accept_sequence_bounded [OF 2(2,3) \<open>accept_sequence m src q = (m', r)\<close>] 2(1) show ?case
    by simp
qed

text \<open>Whatever reports arrive in whatever order, the token sequence numbers accepted
  from one source are strictly increasing, so no report is applied twice or out of order, and the
  table never tracks more than 32 sources.\<close>

theorem token_sequences_increase_bounded:
  assumes "hm_ok m" "length m \<le> MAX_SEQUENCE_SOURCES"
  shows "sorted_wrt (<) (seq_gate.accepted_seqs token_sequence_accepted m reports source)
    \<and> length (seq_gate.run token_sequence_accepted m reports) \<le> MAX_SEQUENCE_SOURCES"
  using token_seq.accepted_seqs_increase run_sequences_bounded [OF assms] by blast

theorem token_sequences_increase_bounded_witness:
  "length (seq_gate.run token_sequence_accepted [] [(''a'', Some 2), (''a'', Some 1)]) \<le> 32"
  using token_sequences_increase_bounded [where m = "[]" and reports = "[(''a'', Some 2), (''a'', Some 1)]"]
  by (simp add: MAX_SEQUENCE_SOURCES_def del: token_seq.run.simps)

text \<open>A patch sets exactly the keys it gives a value, with the expiry the time to live
  asks for (none when the clock cannot represent it), removes the keys it gives none, leaves every
  other key alone, and reports a change exactly when some key changed.\<close>

theorem tokens_patch_exact:
  assumes "hm_ok patch"
  shows "hm_get (fst (tokens_patch m patch ttl now)) k =
      (case hm_get patch k of
         None \<Rightarrow> hm_get m k
       | Some None \<Rightarrow> None
       | Some (Some x) \<Rightarrow> Some \<lparr>mt_value = x, mt_expires_at = Option.bind ttl (instant_checked_add now)\<rparr>)
    \<and> (snd (tokens_patch m patch ttl now) \<longleftrightarrow>
        (\<exists>j. hm_get (fst (tokens_patch m patch ttl now)) j \<noteq> hm_get m j))"
  using tokens_patch_loop_get [OF assms] tokens_patch_loop_changed [OF assms]
  by (auto simp: tokens_patch_def split: option.splits)

theorem tokens_patch_exact_witness:
  "hm_get (fst (tokens_patch [] [(''k'', Some ''v'')] (Some 5) 10)) ''k''
     = Some \<lparr>mt_value = ''v'', mt_expires_at = Some 15\<rparr>"
  using tokens_patch_exact [of "[(''k'', Some ''v'')]" "[]" "Some 5" 10 "''k''"]
  by (simp add: instant_checked_add_def instant_max_def)

text \<open>The number of keys predicted before a patch is the number of tokens the patch
  leaves, so a limit checked on the prediction holds afterwards.\<close>

theorem key_count_predicts_patch:
  assumes "hm_ok m" "hm_ok patch"
  shows "key_count_after_patch m patch = length (fst (tokens_patch m patch ttl now))
    \<and> hm_ok (fst (tokens_patch m patch ttl now))"
  using key_count_patch [OF assms] hm_ok_patch [OF assms(1)] by (simp add: tokens_patch_def)

theorem key_count_predicts_patch_witness:
  "key_count_after_patch [(''a'', \<lparr>mt_value = [], mt_expires_at = None\<rparr>)] [(''a'', None), (''b'', Some ''x'')]
   = length (fst (tokens_patch [(''a'', \<lparr>mt_value = [], mt_expires_at = None\<rparr>)]
       [(''a'', None), (''b'', Some ''x'')] None 0))"
  using key_count_predicts_patch
    [of "[(''a'', \<lparr>mt_value = [], mt_expires_at = None\<rparr>)]" "[(''a'', None), (''b'', Some ''x'')]" None 0]
  by simp

text \<open>Expiring keeps exactly the tokens that are not due, reports whether any was
  dropped, and the next expiry it leaves lies in the future, so the timer never fires twice for one
  instant.\<close>

theorem tokens_expire_exact:
  assumes "hm_ok m" "tokens_expire_at m now = (m', changed)"
  shows "hm_get m' k = opt_filter (token_live now) (hm_get m k)
    \<and> (changed \<longleftrightarrow> (\<exists>j t. hm_get m j = Some t \<and> \<not> token_live now t))
    \<and> is_none_or (\<lambda>d. now < d) (tokens_next_expiry m')"
proof -
  note get = tokens_expire_get [OF assms(1), of now] and ch = tokens_expire_changed [OF assms(1), of now]
  have ok: "hm_ok m'" using assms by (auto simp: tokens_expire_at_def Let_def)
  have "is_none_or (\<lambda>d. now < d) (tokens_next_expiry m')"
    using tokens_next_expiry_cases [OF ok] get assms(2)
    by (auto simp: is_none_or_def opt_filter_Some_iff token_live_def split: option.splits)
  with get ch assms(2) show ?thesis by simp
qed

theorem tokens_expire_exact_witness:
  "tokens_next_expiry (fst (tokens_expire_at
      [(''a'', \<lparr>mt_value = [], mt_expires_at = Some 3\<rparr>), (''b'', \<lparr>mt_value = [], mt_expires_at = Some 9\<rparr>)] 5)) = Some 9
   \<and> 5 < (9::nat)"
  (is "tokens_next_expiry (fst (tokens_expire_at ?m 5)) = _ \<and> _")
proof -
  have e: "tokens_expire_at ?m 5 = ([(''b'', \<lparr>mt_value = [], mt_expires_at = Some 9\<rparr>)], True)"
    by (simp add: tokens_expire_at_def)
  then show ?thesis
    using tokens_expire_exact [OF _ e, of "''a''"]
    by (simp add: tokens_next_expiry_def List.map_filter_def)
qed

end
