(* ===== verification/TerminalState.thy ===== *)
theory TerminalState
  imports MetadataTokens AgentResume "HOL-Library.Option_ord"
begin

section \<open>Server-owned terminal state\<close>

text \<open>
  The types and queries of \<open>terminal/state.rs\<close> and \<open>terminal/metadata.rs\<close>: what is known about
  the agent of a terminal from hooks, screen detection and metadata reports, and how these
  are arbitrated into the effective label, state and presentation. Hash maps are association
  lists whose order is one iteration order. A call to \<open>Instant::now()\<close> inside an operation is
  an extra clock argument of its model.
\<close>

record hook_authority =
  ha_source :: rstr
  ha_agent_label :: rstr
  ha_state :: agent_state
  ha_message :: "rstr option"
  ha_reported_at :: instant
  ha_session_ref :: "agent_session_ref option"

record pending_hook_report =
  pr_authority :: hook_authority
  pr_seq :: u64

datatype suppression_reason = HookClear | ProcessExit

record suppressed_hook_report =
  su_agent_label :: rstr
  su_session_ref :: "agent_session_ref option"
  su_observed_at :: instant
  su_reason :: suppression_reason
  su_replacement_session_ref :: "agent_session_ref option"
  su_pending :: "pending_hook_report option"

datatype hook_report_route = Accept bool | Ignore

record stale_hook_session =
  st_agent_label :: rstr
  st_session_ref :: agent_session_ref

datatype managed_agent_phase = Pending "instant option" instant bool | Active

record managed_agent =
  ma_kind :: agent
  ma_phase :: managed_agent_phase

record agent_name_owner =
  no_agent_label :: rstr
  no_session_ref :: "agent_session_ref option"

record recent_agent_process_exit =
  re_agent :: agent
  re_observed_at :: instant

record agent_metadata =
  am_source :: rstr
  am_agent_label :: "rstr option"
  am_applies_to_source :: "rstr option"
  am_title :: "rstr option"
  am_display_agent :: "rstr option"
  am_state_labels :: "(rstr, rstr) hmap"
  am_reported_at :: instant
  am_title_reported_at :: "instant option"
  am_display_agent_reported_at :: "instant option"
  am_state_label_reported_at :: "(rstr, instant) hmap"
  am_ttl :: "duration option"
  am_expiry_event_pending :: bool

record effective_presentation =
  ep_title :: "rstr option"
  ep_display_agent :: "rstr option"
  ep_state_labels :: "(rstr, rstr) hmap"

record effective_state_change =
  ec_previous_agent_label :: "rstr option"
  ec_previous_known_agent :: "agent option"
  ec_previous_state :: agent_state
  ec_previous_presentation :: effective_presentation
  ec_agent_label :: "rstr option"
  ec_known_agent :: "agent option"
  ec_state :: agent_state
  ec_presentation :: effective_presentation

record terminal_state_mutation =
  tm_effective_state_change :: "effective_state_change option"
  tm_session_ref_changed :: bool
  tm_agent_released :: bool

record terminal_state =
  ts_id :: rstr
  ts_cwd :: rstr
  ts_detected_agent :: "agent option"
  ts_fallback_state :: agent_state
  ts_fallback_visible_blocker :: bool
  ts_fallback_observed_at :: "instant option"
  ts_hook_authority :: "hook_authority option"
  ts_agent_metadata :: "(rstr, agent_metadata) hmap"
  ts_metadata_tokens :: metadata_tokens
  ts_persisted_agent_session :: "persisted_agent_session option"
  ts_terminal_title :: "rstr option"
  ts_manual_label :: "rstr option"
  ts_agent_name :: "rstr option"
  ts_agent_name_owner :: "agent_name_owner option"
  ts_managed_agent :: "managed_agent option"
  ts_hook_report_sequences :: sequences
  ts_suppressed :: "(rstr, suppressed_hook_report) hmap"
  ts_stale_sessions :: "(rstr, stale_hook_session list) hmap"
  ts_metadata_report_sequences :: sequences
  ts_metadata_report_agents :: "(rstr, agent) hmap"
  ts_metadata_token_sequence_sources :: "rstr list"
  ts_state :: agent_state
  ts_last_agent_state_change_seq :: "u64 option"
  ts_revision :: u64
  ts_launch_argv :: "rstr list option"
  ts_respawn_shell_on_exit :: bool
  ts_recent_agent_process_exit :: "recent_agent_process_exit option"
  ts_pending_agent_resume_plan :: "agent_resume_plan option"

definition terminal_new :: "rstr \<Rightarrow> rstr \<Rightarrow> terminal_state" where
  "terminal_new i cwd = \<lparr>ts_id = i, ts_cwd = cwd, ts_detected_agent = None, ts_fallback_state = Unknown,
     ts_fallback_visible_blocker = False, ts_fallback_observed_at = None, ts_hook_authority = None,
     ts_agent_metadata = [], ts_metadata_tokens = [], ts_persisted_agent_session = None,
     ts_terminal_title = None, ts_manual_label = None, ts_agent_name = None, ts_agent_name_owner = None,
     ts_managed_agent = None, ts_hook_report_sequences = [], ts_suppressed = [], ts_stale_sessions = [],
     ts_metadata_report_sequences = [], ts_metadata_report_agents = [],
     ts_metadata_token_sequence_sources = [], ts_state = Unknown, ts_last_agent_state_change_seq = None,
     ts_revision = 0, ts_launch_argv = None, ts_respawn_shell_on_exit = False,
     ts_recent_agent_process_exit = None, ts_pending_agent_resume_plan = None\<rparr>"

subsection \<open>Titles\<close>

definition activity_glyphs :: "nat list" where
  "activity_glyphs = [0xB7, 0x2722, 0x2733, 0x2736, 0x273B, 0x273D]"

definition stripped_terminal_title :: "rstr \<Rightarrow> rstr option" where
  "stripped_terminal_title title0 =
     (let title = trim title0
      in (case chars title of
            [] \<Rightarrow> None
          | first # rest \<Rightarrow>
              (let after_first = concat rest;
                   recognized = (0x2800 \<le> codepoint first \<and> codepoint first \<le> 0x28FF)
                     \<or> codepoint first \<in> set activity_glyphs;
                   stripped = (if recognized \<and> (rest = [] \<or> is_whitespace (hd rest))
                               then trim after_first else title)
               in if stripped = [] then None else Some stripped)))"

definition terminal_title_stripped :: "terminal_state \<Rightarrow> rstr option" where
  "terminal_title_stripped t = Option.bind (ts_terminal_title t) stripped_terminal_title"

text \<open>The result is the pair (raw title changed, stripped title changed).\<close>

definition set_terminal_title :: "terminal_state \<Rightarrow> rstr option \<Rightarrow> terminal_state \<times> (bool \<times> bool)" where
  "set_terminal_title t title =
     (if ts_terminal_title t = title then (t, (False, False))
      else (let t1 = t\<lparr>ts_terminal_title := title\<rparr>;
                stripped_changed = terminal_title_stripped t \<noteq> terminal_title_stripped t1
            in (if stripped_changed then t1\<lparr>ts_revision := ts_revision t1 + 1\<rparr> else t1, (True, stripped_changed))))"

definition with_launch_argv :: "terminal_state \<Rightarrow> rstr list \<Rightarrow> terminal_state" where
  "with_launch_argv t argv = t\<lparr>ts_launch_argv := Some argv\<rparr>"

definition with_respawn_shell_on_exit :: "terminal_state \<Rightarrow> terminal_state" where
  "with_respawn_shell_on_exit t = t\<lparr>ts_respawn_shell_on_exit := True\<rparr>"

definition with_pending_agent_resume_plan :: "terminal_state \<Rightarrow> agent_resume_plan \<Rightarrow> terminal_state" where
  "with_pending_agent_resume_plan t p = t\<lparr>ts_pending_agent_resume_plan := Some p\<rparr>"

subsection \<open>The effective agent\<close>

definition hook_authority_is_effective :: "terminal_state \<Rightarrow> hook_authority \<Rightarrow> bool" where
  "hook_authority_is_effective t a =
     (\<not> full_lifecycle_hook_authority (ha_source a) (ha_agent_label a)
      \<or> is_none_or (\<lambda>k. ts_detected_agent t = Some k \<and> ts_recent_agent_process_exit t = None)
          (parse_agent_label (ha_agent_label a)))"

definition effective_agent_label :: "terminal_state \<Rightarrow> rstr option" where
  "effective_agent_label t =
     or_else (map_option ha_agent_label (opt_filter (hook_authority_is_effective t) (ts_hook_authority t)))
       (if ts_recent_agent_process_exit t = None then map_option agent_label (ts_detected_agent t) else None)"

definition effective_known_agent :: "terminal_state \<Rightarrow> agent option" where
  "effective_known_agent t = Option.bind (effective_agent_label t) parse_agent_label"

definition live_full_lifecycle_hook_authority :: "terminal_state \<Rightarrow> bool" where
  "live_full_lifecycle_hook_authority t =
     is_some_and (\<lambda>a. hook_authority_is_effective t a
         \<and> full_lifecycle_hook_authority (ha_source a) (ha_agent_label a)) (ts_hook_authority t)"

definition fallback_not_older_than_hook :: "terminal_state \<Rightarrow> bool" where
  "fallback_not_older_than_hook t =
     is_none_or (\<lambda>a. is_some_and (\<lambda>o'. ha_reported_at a \<le> o') (ts_fallback_observed_at t)) (ts_hook_authority t)"

definition visible_blocker_overrides_hook :: "terminal_state \<Rightarrow> bool" where
  "visible_blocker_overrides_hook t =
     (if live_full_lifecycle_hook_authority t then False
      else ts_fallback_visible_blocker t \<and> fallback_not_older_than_hook t
        \<and> is_some_and (\<lambda>a. ha_state a \<noteq> Blocked \<and> parse_agent_label (ha_agent_label a) = ts_detected_agent t)
            (ts_hook_authority t))"

text \<open>The state the arbitration gives, computed inline by \<open>recompute_effective_state\<close>.\<close>

definition effective_state :: "terminal_state \<Rightarrow> agent_state" where
  "effective_state t =
     (if visible_blocker_overrides_hook t then Blocked
      else (case opt_filter (hook_authority_is_effective t) (ts_hook_authority t) of
              Some a \<Rightarrow> ha_state a | None \<Rightarrow> ts_fallback_state t))"

definition is_agent_terminal :: "terminal_state \<Rightarrow> bool" where
  "is_agent_terminal t = (ts_agent_name t \<noteq> None \<or> effective_agent_label t \<noteq> None)"

end
