(* ===== verification/TerminalPresentation.thy ===== *)
theory TerminalPresentation
  imports TerminalState
begin

section \<open>Presentation and arbitration\<close>

text \<open>
  The presentation side of \<open>terminal/metadata.rs\<close> (which reported title, display agent and
  state labels are shown) and \<open>recompute_effective_state\<close> of \<open>terminal/state.rs\<close>, through
  which every operation on the terminal publishes its effect.
\<close>

subsection \<open>Metadata validity\<close>

definition metadata_guards_match :: "terminal_state \<Rightarrow> rstr option \<Rightarrow> rstr option \<Rightarrow> bool" where
  "metadata_guards_match t label applies_to =
     (if is_some_and (\<lambda>l. effective_agent_label t \<noteq> Some l) label then False
      else \<not> is_some_and (\<lambda>source. is_none_or (\<lambda>a. ha_source a \<noteq> source) (ts_hook_authority t)) applies_to)"

definition agent_metadata_matches_guards :: "terminal_state \<Rightarrow> agent_metadata \<Rightarrow> bool" where
  "agent_metadata_matches_guards t m =
     metadata_guards_match t (am_agent_label m) (am_applies_to_source m)"

definition agent_metadata_expiry :: "agent_metadata \<Rightarrow> instant option" where
  "agent_metadata_expiry m = map_option (instant_add_or_self (am_reported_at m)) (am_ttl m)"

definition agent_metadata_is_expired :: "agent_metadata \<Rightarrow> instant \<Rightarrow> bool" where
  "agent_metadata_is_expired m now = is_some_and (\<lambda>deadline. deadline \<le> now) (agent_metadata_expiry m)"

definition agent_metadata_is_valid :: "terminal_state \<Rightarrow> agent_metadata \<Rightarrow> instant \<Rightarrow> bool \<Rightarrow> bool" where
  "agent_metadata_is_valid t m now enforce_ttl =
     (if am_title m = None \<and> am_display_agent m = None \<and> am_state_labels m = [] then False
      else if enforce_ttl \<and> agent_metadata_is_expired m now then False
      else agent_metadata_matches_guards t m)"

definition agent_metadata_is_visible_ignoring_ttl :: "terminal_state \<Rightarrow> agent_metadata \<Rightarrow> bool" where
  "agent_metadata_is_visible_ignoring_ttl t m =
     ((am_title m \<noteq> None \<or> am_display_agent m \<noteq> None \<or> am_state_labels m \<noteq> [])
      \<and> agent_metadata_matches_guards t m)"

definition valid_agent_metadata :: "terminal_state \<Rightarrow> instant \<Rightarrow> bool \<Rightarrow> agent_metadata list" where
  "valid_agent_metadata t now enforce_ttl =
     filter (\<lambda>m. agent_metadata_is_valid t m now enforce_ttl) (map snd (ts_agent_metadata t))"

subsection \<open>The newest report wins\<close>

definition newest_metadata_title :: "terminal_state \<Rightarrow> instant \<Rightarrow> bool \<Rightarrow> rstr option" where
  "newest_metadata_title t now enforce_ttl =
     Option.bind (max_by_key am_title_reported_at
         (filter (\<lambda>m. am_title m \<noteq> None) (valid_agent_metadata t now enforce_ttl))) am_title"

definition newest_metadata_display_agent :: "terminal_state \<Rightarrow> instant \<Rightarrow> bool \<Rightarrow> rstr option" where
  "newest_metadata_display_agent t now enforce_ttl =
     Option.bind (max_by_key am_display_agent_reported_at
         (filter (\<lambda>m. am_display_agent m \<noteq> None) (valid_agent_metadata t now enforce_ttl))) am_display_agent"

definition metadata_label_entries :: "agent_metadata \<Rightarrow> (instant \<times> rstr \<times> rstr) list" where
  "metadata_label_entries m =
     List.map_filter (\<lambda>(st, label). map_option (\<lambda>at. (at, st, label)) (hm_get (am_state_label_reported_at m) st))
       (am_state_labels m)"

definition effective_metadata_state_labels :: "terminal_state \<Rightarrow> instant \<Rightarrow> bool \<Rightarrow> (rstr, rstr) hmap" where
  "effective_metadata_state_labels t now enforce_ttl =
     foldl (\<lambda>m (at, st, label). hm_insert m st label) []
       (sort_key fst (concat (map metadata_label_entries (valid_agent_metadata t now enforce_ttl))))"

definition effective_presentation_with_ttl :: "terminal_state \<Rightarrow> instant \<Rightarrow> bool \<Rightarrow> effective_presentation" where
  "effective_presentation_with_ttl t now enforce_ttl =
     \<lparr>ep_title = newest_metadata_title t now enforce_ttl,
      ep_display_agent = newest_metadata_display_agent t now enforce_ttl,
      ep_state_labels = effective_metadata_state_labels t now enforce_ttl\<rparr>"

definition effective_presentation_at :: "terminal_state \<Rightarrow> instant \<Rightarrow> effective_presentation" where
  "effective_presentation_at t now = effective_presentation_with_ttl t now True"

definition effective_presentation_ignoring_ttl :: "terminal_state \<Rightarrow> instant \<Rightarrow> effective_presentation" where
  "effective_presentation_ignoring_ttl t now = effective_presentation_with_ttl t now False"

text \<open>Two hash maps are equal when they have as many entries and each entry of one is in the other.\<close>

definition hm_eq :: "('k, 'v) hmap \<Rightarrow> ('k, 'v) hmap \<Rightarrow> bool" where
  "hm_eq a b = (length a = length b \<and> list_all (\<lambda>(k, v). hm_get b k = Some v) a)"

definition presentation_eq :: "effective_presentation \<Rightarrow> effective_presentation \<Rightarrow> bool" where
  "presentation_eq a b =
     (ep_title a = ep_title b \<and> ep_display_agent a = ep_display_agent b
      \<and> hm_eq (ep_state_labels a) (ep_state_labels b))"

definition border_label :: "terminal_state \<Rightarrow> bool \<Rightarrow> instant \<Rightarrow> rstr option" where
  "border_label t show_agent_labels now =
     or_else (ep_title (effective_presentation_at t now))
       (or_else (ts_manual_label t)
         (if show_agent_labels
          then or_else (ep_display_agent (effective_presentation_at t now)) (effective_agent_label t)
          else None))"

subsection \<open>Publishing a change\<close>

definition clear_expiry_pending_for_hidden_metadata :: "terminal_state \<Rightarrow> terminal_state" where
  "clear_expiry_pending_for_hidden_metadata t =
     t\<lparr>ts_agent_metadata := map (\<lambda>(source, m).
        (source, if am_expiry_event_pending m \<and> \<not> agent_metadata_is_visible_ignoring_ttl t m
                 then m\<lparr>am_expiry_event_pending := False\<rparr> else m)) (ts_agent_metadata t)\<rparr>"

text \<open>What an operation captures before it changes anything.\<close>

record previous_effect =
  pe_agent_label :: "rstr option"
  pe_known_agent :: "agent option"
  pe_state :: agent_state
  pe_presentation :: effective_presentation

definition capture :: "terminal_state \<Rightarrow> instant \<Rightarrow> previous_effect" where
  "capture t now = \<lparr>pe_agent_label = effective_agent_label t, pe_known_agent = effective_known_agent t,
     pe_state = ts_state t, pe_presentation = effective_presentation_at t now\<rparr>"

definition recompute_effective_state ::
  "terminal_state \<Rightarrow> previous_effect \<Rightarrow> instant \<Rightarrow> terminal_state \<times> effective_state_change option" where
  "recompute_effective_state t prev now =
     (let new_state = effective_state t;
          label = effective_agent_label t;
          known = effective_known_agent t;
          presentation = effective_presentation_at t now;
          t1 = clear_expiry_pending_for_hidden_metadata t
      in if pe_agent_label prev = label \<and> pe_state prev = new_state
            \<and> presentation_eq (pe_presentation prev) presentation
         then (t1, None)
         else (t1\<lparr>ts_state := new_state\<rparr>,
               Some \<lparr>ec_previous_agent_label = pe_agent_label prev,
                     ec_previous_known_agent = pe_known_agent prev,
                     ec_previous_state = pe_state prev,
                     ec_previous_presentation = pe_presentation prev,
                     ec_agent_label = label, ec_known_agent = known, ec_state = new_state,
                     ec_presentation = presentation\<rparr>))"

definition unchanged_effective_state_change_at :: "terminal_state \<Rightarrow> instant \<Rightarrow> effective_state_change" where
  "unchanged_effective_state_change_at t now =
     (let p = effective_presentation_at t now
      in \<lparr>ec_previous_agent_label = effective_agent_label t, ec_previous_known_agent = effective_known_agent t,
          ec_previous_state = ts_state t, ec_previous_presentation = p,
          ec_agent_label = effective_agent_label t, ec_known_agent = effective_known_agent t,
          ec_state = ts_state t, ec_presentation = p\<rparr>)"

subsection \<open>Lemmas\<close>

text \<open>The arbitration only reads the detected agent, the process exit, the fallback and the hook
  authority: two terminals that agree on them agree on their effective agent and state.\<close>

definition same_arbitration :: "terminal_state \<Rightarrow> terminal_state \<Rightarrow> bool" where
  "same_arbitration t u \<longleftrightarrow> ts_detected_agent t = ts_detected_agent u
     \<and> ts_recent_agent_process_exit t = ts_recent_agent_process_exit u
     \<and> ts_hook_authority t = ts_hook_authority u
     \<and> ts_fallback_state t = ts_fallback_state u
     \<and> ts_fallback_visible_blocker t = ts_fallback_visible_blocker u
     \<and> ts_fallback_observed_at t = ts_fallback_observed_at u"

lemma same_arbitration_effective:
  assumes "same_arbitration t u"
  shows "hook_authority_is_effective t a = hook_authority_is_effective u a"
    and "effective_agent_label t = effective_agent_label u"
    and "effective_known_agent t = effective_known_agent u"
    and "live_full_lifecycle_hook_authority t = live_full_lifecycle_hook_authority u"
    and "visible_blocker_overrides_hook t = visible_blocker_overrides_hook u"
    and "effective_state t = effective_state u"
proof -
  have eff: "hook_authority_is_effective t = hook_authority_is_effective u"
    using assms by (intro ext) (simp add: hook_authority_is_effective_def same_arbitration_def)
  then show "hook_authority_is_effective t a = hook_authority_is_effective u a" by simp
  show label: "effective_agent_label t = effective_agent_label u"
    using assms eff by (simp add: effective_agent_label_def same_arbitration_def)
  then show "effective_known_agent t = effective_known_agent u"
    by (simp add: effective_known_agent_def)
  show live: "live_full_lifecycle_hook_authority t = live_full_lifecycle_hook_authority u"
    using assms eff by (simp add: live_full_lifecycle_hook_authority_def same_arbitration_def)
  then show vb: "visible_blocker_overrides_hook t = visible_blocker_overrides_hook u"
    using assms by (simp add: visible_blocker_overrides_hook_def fallback_not_older_than_hook_def
        same_arbitration_def)
  then show "effective_state t = effective_state u"
    using assms eff by (simp add: effective_state_def same_arbitration_def split: option.split)
qed

lemma same_arbitration_refl [simp]: "same_arbitration t t"
  by (simp add: same_arbitration_def)

lemma same_arbitration_clear_hidden [simp]:
  "same_arbitration (clear_expiry_pending_for_hidden_metadata t) t"
  by (simp add: same_arbitration_def clear_expiry_pending_for_hidden_metadata_def)

lemma clear_hidden_effective [simp]:
  "effective_agent_label (clear_expiry_pending_for_hidden_metadata t) = effective_agent_label t"
  "effective_state (clear_expiry_pending_for_hidden_metadata t) = effective_state t"
  using same_arbitration_effective [OF same_arbitration_clear_hidden] by simp_all

lemma recompute_same_arbitration:
  "same_arbitration (fst (recompute_effective_state t prev now)) t"
  by (simp add: recompute_effective_state_def Let_def same_arbitration_def
      clear_expiry_pending_for_hidden_metadata_def)

lemma recompute_state:
  assumes "pe_state prev = ts_state t"
  shows "ts_state (fst (recompute_effective_state t prev now)) = effective_state t"
  using assms by (simp add: recompute_effective_state_def Let_def clear_expiry_pending_for_hidden_metadata_def)

text \<open>The invariant of the whole component: the published state is the arbitrated one.\<close>

definition state_settled :: "terminal_state \<Rightarrow> bool" where
  "state_settled t \<longleftrightarrow> ts_state t = effective_state t"

lemma recompute_settled:
  "pe_state prev = ts_state t \<Longrightarrow> state_settled (fst (recompute_effective_state t prev now))"
  using same_arbitration_effective [OF recompute_same_arbitration]
  by (simp add: state_settled_def recompute_state)

lemma same_arbitration_settled:
  "same_arbitration t u \<Longrightarrow> ts_state t = ts_state u \<Longrightarrow> state_settled t = state_settled u"
  by (simp add: state_settled_def same_arbitration_effective)

lemma capture_simps [simp]:
  "pe_state (capture t now) = ts_state t"
  "pe_agent_label (capture t now) = effective_agent_label t"
  "pe_known_agent (capture t now) = effective_known_agent t"
  "pe_presentation (capture t now) = effective_presentation_at t now"
  by (simp_all add: capture_def)

lemma recompute_fields [simp]:
  "ts_hook_authority (fst (recompute_effective_state t prev now)) = ts_hook_authority t"
  "ts_detected_agent (fst (recompute_effective_state t prev now)) = ts_detected_agent t"
  "ts_persisted_agent_session (fst (recompute_effective_state t prev now)) = ts_persisted_agent_session t"
  "ts_suppressed (fst (recompute_effective_state t prev now)) = ts_suppressed t"
  "ts_stale_sessions (fst (recompute_effective_state t prev now)) = ts_stale_sessions t"
  "ts_hook_report_sequences (fst (recompute_effective_state t prev now)) = ts_hook_report_sequences t"
  "ts_metadata_report_sequences (fst (recompute_effective_state t prev now)) = ts_metadata_report_sequences t"
  "ts_recent_agent_process_exit (fst (recompute_effective_state t prev now)) = ts_recent_agent_process_exit t"
  "ts_fallback_state (fst (recompute_effective_state t prev now)) = ts_fallback_state t"
  "ts_agent_name (fst (recompute_effective_state t prev now)) = ts_agent_name t"
  "ts_managed_agent (fst (recompute_effective_state t prev now)) = ts_managed_agent t"
  "ts_agent_name_owner (fst (recompute_effective_state t prev now)) = ts_agent_name_owner t"
  "map fst (ts_agent_metadata (fst (recompute_effective_state t prev now))) = map fst (ts_agent_metadata t)"
  by (auto simp: recompute_effective_state_def Let_def clear_expiry_pending_for_hidden_metadata_def)

end
