(* ===== verification/TerminalSession.thy ===== *)
theory TerminalSession
  imports TerminalPresentation
begin

section \<open>Sessions, names and suppression\<close>

text \<open>
  The private helpers of \<open>terminal/state.rs\<close>: whose session the terminal holds, which hook
  reports are stale or suppressed after a release or a process exit, the name given to the
  agent, and the gate of hook report sequence numbers.
\<close>

subsection \<open>Names\<close>

definition clear_agent_name :: "terminal_state \<Rightarrow> terminal_state" where
  "clear_agent_name t = t\<lparr>ts_agent_name := None, ts_agent_name_owner := None, ts_managed_agent := None\<rparr>"

definition set_manual_label :: "terminal_state \<Rightarrow> rstr \<Rightarrow> terminal_state" where
  "set_manual_label t label = (let l = trim label in t\<lparr>ts_manual_label := if l = [] then None else Some l\<rparr>)"

definition clear_manual_label :: "terminal_state \<Rightarrow> terminal_state" where
  "clear_manual_label t = t\<lparr>ts_manual_label := None\<rparr>"

definition agent_name_owner_of :: "terminal_state \<Rightarrow> agent_name_owner option" where
  "agent_name_owner_of t =
     or_else (map_option (\<lambda>a. \<lparr>no_agent_label = ha_agent_label a, no_session_ref = ha_session_ref a\<rparr>)
                (ts_hook_authority t))
       (or_else (map_option (\<lambda>s. \<lparr>no_agent_label = ps_agent s, no_session_ref = Some (ps_session_ref s)\<rparr>)
                  (ts_persisted_agent_session t))
         (map_option (\<lambda>l. \<lparr>no_agent_label = l, no_session_ref = None\<rparr>) (effective_agent_label t)))"

definition set_agent_name :: "terminal_state \<Rightarrow> rstr \<Rightarrow> terminal_state" where
  "set_agent_name t name =
     (let name' = (if name = [] then None else Some name)
      in t\<lparr>ts_agent_name := name',
           ts_agent_name_owner := (if name' = None then None else agent_name_owner_of t)\<rparr>)"

definition session_refs_conflict :: "agent_session_ref option \<Rightarrow> agent_session_ref option \<Rightarrow> bool" where
  "session_refs_conflict current incoming =
     (case (current, incoming) of (Some c, Some i) \<Rightarrow> c \<noteq> i | _ \<Rightarrow> False)"

definition reconcile_agent_name_owner ::
  "terminal_state \<Rightarrow> rstr \<Rightarrow> agent_session_ref option \<Rightarrow> terminal_state" where
  "reconcile_agent_name_owner t label session_ref =
     (if ts_agent_name t = None then t
      else if is_some_and (\<lambda>m. parse_agent_label label = Some (ma_kind m)) (ts_managed_agent t) then t
      else (case ts_agent_name_owner t of
          Some owner \<Rightarrow>
            if no_agent_label owner \<noteq> label
               \<or> session_refs_conflict (no_session_ref owner) session_ref
            then t\<lparr>ts_agent_name := None, ts_agent_name_owner := None\<rparr>
            else if no_session_ref owner = None \<and> session_ref \<noteq> None
            then t\<lparr>ts_agent_name_owner := Some (owner\<lparr>no_session_ref := session_ref\<rparr>)\<rparr>
            else t
        | None \<Rightarrow> t\<lparr>ts_agent_name_owner := Some \<lparr>no_agent_label = label, no_session_ref = session_ref\<rparr>\<rparr>))"

subsection \<open>Current session\<close>

definition current_session_identity ::
  "terminal_state \<Rightarrow> (rstr \<times> rstr \<times> agent_session_ref_kind \<times> rstr) option" where
  "current_session_identity t =
     (let persisted = map_option (\<lambda>s. (ps_source s, ps_agent s, sr_kind (ps_session_ref s), sr_value (ps_session_ref s)))
            (ts_persisted_agent_session t)
      in (case ts_hook_authority t of
            Some a \<Rightarrow> (case ha_session_ref a of
                Some r \<Rightarrow> Some (ha_source a, ha_agent_label a, sr_kind r, sr_value r)
              | None \<Rightarrow> persisted)
          | None \<Rightarrow> persisted))"

definition current_session_owner_conflicts :: "terminal_state \<Rightarrow> rstr \<Rightarrow> rstr \<Rightarrow> bool" where
  "current_session_owner_conflicts t source label =
     is_some_and (\<lambda>(s, a, _, _). s \<noteq> source \<or> a \<noteq> label) (current_session_identity t)"

definition session_report_allows_session_replacement :: "rstr \<Rightarrow> rstr \<Rightarrow> rstr option \<Rightarrow> bool" where
  "session_report_allows_session_replacement source label start =
     (let report = (source, label); via = (\<lambda>ws. is_some_and (\<lambda>w. w \<in> set ws) start)
      in report = (''herdr:claude'', ''claude'') \<and> via [''clear'', ''resume'', ''compact'']
       \<or> report = (''herdr:codex'', ''codex'') \<and> via [''startup'', ''clear'', ''resume'', ''compact'']
       \<or> report = (''herdr:mastracode'', ''mastracode'') \<and> via [''startup'']
       \<or> report = (''herdr:hermes'', ''hermes'') \<and> via [''startup'', ''new'', ''resume'']
       \<or> report = (''herdr:opencode'', ''opencode'') \<and> via [''new'']
       \<or> report = (''herdr:pi'', ''pi'') \<and> via [''new'', ''resume'', ''fork'']
       \<or> report = (''herdr:omp'', ''omp'') \<and> via [''startup'', ''new'', ''resume'', ''fork'']
       \<or> report = (''herdr:antigravity_cli'', ''agy'') \<and> start = None)"

definition session_start_source_is_recognized :: "rstr option \<Rightarrow> bool" where
  "session_start_source_is_recognized start =
     is_some_and (\<lambda>w. w \<in> set [''startup'', ''clear'', ''resume'', ''compact'', ''new'', ''fork'']) start"

definition conflicting_same_owner_session_ref ::
  "terminal_state \<Rightarrow> rstr \<Rightarrow> rstr \<Rightarrow> agent_session_ref \<Rightarrow> rstr option \<Rightarrow> agent_session_ref option" where
  "conflicting_same_owner_session_ref t source label r start =
     (case current_session_identity t of
        None \<Rightarrow> None
      | Some (s, a, kind, v) \<Rightarrow>
          if s = source \<and> a = label \<and> kind = RefId \<and> sr_kind r = RefId \<and> v \<noteq> sr_value r
             \<and> \<not> session_report_allows_session_replacement source label start
          then Some \<lparr>sr_kind = kind, sr_value = v\<rparr> else None)"

definition lifecycle_hook_report_replaces_persisted_session ::
  "terminal_state \<Rightarrow> rstr \<Rightarrow> rstr \<Rightarrow> agent_session_ref \<Rightarrow> bool" where
  "lifecycle_hook_report_replaces_persisted_session t source label r =
     (ts_hook_authority t = None \<and> (source, label) = (''herdr:mastracode'', ''mastracode'')
      \<and> is_some_and (\<lambda>s. ps_source s = source \<and> ps_agent s = label
            \<and> sr_kind (ps_session_ref s) = RefId \<and> sr_kind r = RefId
            \<and> sr_value (ps_session_ref s) \<noteq> sr_value r) (ts_persisted_agent_session t))"

definition persisted_agent_session_matches :: "terminal_state \<Rightarrow> rstr \<Rightarrow> rstr \<Rightarrow> bool" where
  "persisted_agent_session_matches t source label =
     is_some_and (\<lambda>s. ps_source s = source \<and> ps_agent s = label) (ts_persisted_agent_session t)"

definition known_agent_label_conflicts_with_detected_agent :: "terminal_state \<Rightarrow> rstr \<Rightarrow> bool" where
  "known_agent_label_conflicts_with_detected_agent t label =
     (case ts_detected_agent t of None \<Rightarrow> False
      | Some d \<Rightarrow> is_some_and (\<lambda>k. k \<noteq> d) (parse_agent_label label))"

definition foreground_agent_confirms_session_owner ::
  "terminal_state \<Rightarrow> rstr \<Rightarrow> rstr \<Rightarrow> agent_session_ref \<Rightarrow> bool" where
  "foreground_agent_confirms_session_owner t source label r =
     (case ts_detected_agent t of None \<Rightarrow> False
      | Some d \<Rightarrow> parse_agent_label label = Some d \<and> plan source label r \<noteq> None)"

definition foreground_agent_confirms_hook_authority_takeover ::
  "terminal_state \<Rightarrow> rstr \<Rightarrow> rstr \<Rightarrow> agent_session_ref option \<Rightarrow> bool" where
  "foreground_agent_confirms_hook_authority_takeover t source label r =
     is_some_and (foreground_agent_confirms_session_owner t source label) r"

definition foreground_agent_confirms_different_owner_takeover ::
  "terminal_state \<Rightarrow> rstr \<Rightarrow> rstr \<Rightarrow> agent_session_ref \<Rightarrow> rstr option \<Rightarrow> bool" where
  "foreground_agent_confirms_different_owner_takeover t source label r start =
     (session_start_source_is_recognized start \<and> foreground_agent_confirms_session_owner t source label r)"

subsection \<open>Stale sessions\<close>

definition full_lifecycle_hook_report_matches_stale_session ::
  "terminal_state \<Rightarrow> rstr \<Rightarrow> rstr \<Rightarrow> agent_session_ref option \<Rightarrow> bool" where
  "full_lifecycle_hook_report_matches_stale_session t source label r =
     (if \<not> full_lifecycle_hook_authority source label then False
      else is_some_and (\<lambda>stale. is_some_and (\<lambda>incoming.
             list_ex (\<lambda>s. st_agent_label s = label \<and> incoming = st_session_ref s) stale) r)
           (hm_get (ts_stale_sessions t) source))"

definition full_lifecycle_hook_report_has_fresh_session_after_stale_session ::
  "terminal_state \<Rightarrow> rstr \<Rightarrow> rstr \<Rightarrow> agent_session_ref option \<Rightarrow> bool" where
  "full_lifecycle_hook_report_has_fresh_session_after_stale_session t source label r =
     (if \<not> full_lifecycle_hook_authority source label then False
      else is_some_and (\<lambda>stale. list_ex (\<lambda>s. st_agent_label s = label) stale
             \<and> is_some_and (\<lambda>incoming.
                  list_all (\<lambda>s. st_agent_label s \<noteq> label \<or> incoming \<noteq> st_session_ref s) stale) r)
           (hm_get (ts_stale_sessions t) source))"

definition remember_stale_session :: "terminal_state \<Rightarrow> rstr \<Rightarrow> rstr \<Rightarrow> agent_session_ref \<Rightarrow> terminal_state" where
  "remember_stale_session t source label r =
     (let stale = \<lparr>st_agent_label = label, st_session_ref = r\<rparr>;
          known = (case hm_get (ts_stale_sessions t) source of Some ss \<Rightarrow> ss | None \<Rightarrow> [])
      in t\<lparr>ts_stale_sessions := hm_insert (ts_stale_sessions t) source
             (if list_ex (\<lambda>e. e = stale) known then known else known @ [stale])\<rparr>)"

definition forget_stale_session :: "terminal_state \<Rightarrow> rstr \<Rightarrow> rstr \<Rightarrow> agent_session_ref \<Rightarrow> terminal_state" where
  "forget_stale_session t source label r =
     (case hm_get (ts_stale_sessions t) source of
        None \<Rightarrow> t
      | Some stale \<Rightarrow>
          (let kept = filter (\<lambda>s. st_agent_label s \<noteq> label \<or> st_session_ref s \<noteq> r) stale
           in t\<lparr>ts_stale_sessions := if kept = [] then hm_remove (ts_stale_sessions t) source
                  else hm_insert (ts_stale_sessions t) source kept\<rparr>))"

definition live_full_lifecycle_hook_authority_conflicts_with_session ::
  "terminal_state \<Rightarrow> rstr \<Rightarrow> rstr \<Rightarrow> agent_session_ref option \<Rightarrow> bool" where
  "live_full_lifecycle_hook_authority_conflicts_with_session t source label r =
     (case ts_hook_authority t of None \<Rightarrow> False
      | Some a \<Rightarrow>
          if \<not> full_lifecycle_hook_authority (ha_source a) (ha_agent_label a) then False
          else if ha_source a \<noteq> source \<or> ha_agent_label a \<noteq> label then False
          else session_refs_conflict (ha_session_ref a) r)"

definition same_owner_full_lifecycle_hook_authority_session_ref ::
  "terminal_state \<Rightarrow> rstr \<Rightarrow> rstr \<Rightarrow> agent_session_ref \<Rightarrow> agent_session_ref option" where
  "same_owner_full_lifecycle_hook_authority_session_ref t source label r =
     (case ts_hook_authority t of None \<Rightarrow> None
      | Some a \<Rightarrow>
          if \<not> full_lifecycle_hook_authority (ha_source a) (ha_agent_label a)
             \<or> ha_source a \<noteq> source \<or> ha_agent_label a \<noteq> label then None
          else opt_filter (\<lambda>c. c \<noteq> r) (ha_session_ref a))"

subsection \<open>Suppression\<close>

definition suppress_with_session_ref ::
  "terminal_state \<Rightarrow> rstr \<Rightarrow> rstr \<Rightarrow> agent_session_ref option \<Rightarrow> suppression_reason \<Rightarrow> instant \<Rightarrow> terminal_state" where
  "suppress_with_session_ref t source label r reason observed_at =
     t\<lparr>ts_suppressed := hm_insert (ts_suppressed t) source
        \<lparr>su_agent_label = label, su_session_ref = r, su_observed_at = observed_at, su_reason = reason,
         su_replacement_session_ref = None, su_pending = None\<rparr>\<rparr>"

definition suppress_current_full_lifecycle_hook_authority ::
  "terminal_state \<Rightarrow> suppression_reason \<Rightarrow> instant \<Rightarrow> terminal_state" where
  "suppress_current_full_lifecycle_hook_authority t reason clk =
     (case ts_hook_authority t of
        Some a \<Rightarrow>
          if full_lifecycle_hook_authority (ha_source a) (ha_agent_label a)
          then suppress_with_session_ref t (ha_source a) (ha_agent_label a) (ha_session_ref a) reason clk
          else t
      | None \<Rightarrow> t)"

definition suppress_full_lifecycle_hook_report ::
  "terminal_state \<Rightarrow> rstr \<Rightarrow> rstr \<Rightarrow> suppression_reason \<Rightarrow> instant \<Rightarrow> terminal_state" where
  "suppress_full_lifecycle_hook_report t source label reason clk =
     (if full_lifecycle_hook_authority source label
      then suppress_with_session_ref t source label
             (Option.bind (ts_hook_authority t) ha_session_ref) reason clk
      else t)"

definition detected_state_observed_before_release_suppression ::
  "terminal_state \<Rightarrow> agent option \<Rightarrow> instant \<Rightarrow> bool" where
  "detected_state_observed_before_release_suppression t detected observed_at =
     (case detected of None \<Rightarrow> False
      | Some d \<Rightarrow> list_ex (\<lambda>(_, su). parse_agent_label (su_agent_label su) = Some d \<and> observed_at \<le> su_observed_at su)
          (ts_suppressed t))"

subsection \<open>The sequence gate of hook reports\<close>

definition accept_hook_report :: "terminal_state \<Rightarrow> rstr \<Rightarrow> u64 option \<Rightarrow> terminal_state \<times> bool" where
  "accept_hook_report t source seq =
     (case seq of
        None \<Rightarrow> (t, \<not> hm_contains (ts_hook_report_sequences t) source)
      | Some s \<Rightarrow>
          if is_some_and (\<lambda>last. s \<le> last) (hm_get (ts_hook_report_sequences t) source) then (t, False)
          else (t\<lparr>ts_hook_report_sequences := hm_insert (ts_hook_report_sequences t) source s\<rparr>, True))"

definition hook_seq :: "terminal_state \<Rightarrow> rstr \<Rightarrow> u64 option" where
  "hook_seq t = map_of (ts_hook_report_sequences t)"

interpretation hook_gate: seq_gate hook_seq accept_hook_report
proof unfold_locales
  fix t :: terminal_state and source :: rstr and n :: u64 and t' :: terminal_state
  assume "accept_hook_report t source (Some n) = (t', True)"
  then show "(case hook_seq t source of None \<Rightarrow> True | Some m \<Rightarrow> m < n) \<and> hook_seq t' = (hook_seq t)(source \<mapsto> n)"
    by (auto simp: accept_hook_report_def hook_seq_def update_conv' split: if_splits option.splits)
qed (auto simp: accept_hook_report_def hook_seq_def split: option.splits if_splits)

end
