(* ===== verification/TerminalHooks.thy ===== *)
theory TerminalHooks
  imports TerminalSession
begin

section \<open>Hook reports\<close>

text \<open>
  The operations of \<open>terminal/state.rs\<close> behind agent hooks: routing a lifecycle report against
  suppressed and stale sessions, accepting a report, adopting a session reference, clearing
  the authority and releasing the agent. An operation that returns None leaves no report.
\<close>

type_synonym mutation_result = "terminal_state \<times> terminal_state_mutation option"

subsection \<open>Routing\<close>

definition process_present :: "terminal_state \<Rightarrow> rstr \<Rightarrow> bool" where
  "process_present t label =
     (let known = parse_agent_label label
      in known \<noteq> None \<and> ts_detected_agent t = known \<and> ts_recent_agent_process_exit t = None)"

definition anchored_session_ref :: "terminal_state \<Rightarrow> rstr \<Rightarrow> rstr \<Rightarrow> agent_session_ref option" where
  "anchored_session_ref t source label =
     or_else (Option.bind (opt_filter (\<lambda>a. ha_source a = source \<and> ha_agent_label a = label)
                (ts_hook_authority t)) ha_session_ref)
       (map_option ps_session_ref (opt_filter (\<lambda>s. ps_source s = source \<and> ps_agent s = label)
          (ts_persisted_agent_session t)))"

definition session_anchored :: "terminal_state \<Rightarrow> rstr \<Rightarrow> rstr \<Rightarrow> agent_session_ref option \<Rightarrow> bool" where
  "session_anchored t source label r =
     is_some_and (\<lambda>anchored. is_none_or (\<lambda>incoming. incoming = anchored) r) (anchored_session_ref t source label)"

text \<open>The report of a session that is not anchored yet waits on the suppressed entry of its
  source; the newest sequence number is the one kept.\<close>

definition queue_pending_report ::
  "terminal_state \<Rightarrow> hook_authority \<Rightarrow> u64 \<Rightarrow> terminal_state" where
  "queue_pending_report t authority seq =
     (let source = ha_source authority; label = ha_agent_label authority;
          previous = map_option ps_session_ref (opt_filter (\<lambda>s. ps_source s = source \<and> ps_agent s = label)
             (ts_persisted_agent_session t));
          su = (case hm_get (ts_suppressed t) source of
                  Some su \<Rightarrow> su
                | None \<Rightarrow> \<lparr>su_agent_label = label, su_session_ref = previous,
                     su_observed_at = ha_reported_at authority, su_reason = ProcessExit,
                     su_replacement_session_ref = None, su_pending = None\<rparr>);
          su' = (if is_none_or (\<lambda>p. pr_seq p < seq) (su_pending su)
                 then su\<lparr>su_pending := Some \<lparr>pr_authority = authority, pr_seq = seq\<rparr>\<rparr> else su)
      in t\<lparr>ts_suppressed := hm_insert (ts_suppressed t) source su'\<rparr>)"

definition route_unanchored_hook_report ::
  "terminal_state \<Rightarrow> rstr \<Rightarrow> rstr \<Rightarrow> agent_state \<Rightarrow> rstr option \<Rightarrow> agent_session_ref option \<Rightarrow>
   u64 option \<Rightarrow> instant \<Rightarrow> terminal_state \<times> hook_report_route" where
  "route_unanchored_hook_report t source label st message r seq reported_at =
     (case (r, seq) of
        (Some session, Some s) \<Rightarrow>
          if is_some_and (\<lambda>last. s \<le> last) (hm_get (ts_hook_report_sequences t) source) then (t, Ignore)
          else (queue_pending_report t \<lparr>ha_source = source, ha_agent_label = label, ha_state = st,
                  ha_message = message, ha_reported_at = reported_at, ha_session_ref = Some session\<rparr> s,
                Ignore)
      | _ \<Rightarrow> (t, Ignore))"

definition route_full_lifecycle_hook_report ::
  "terminal_state \<Rightarrow> rstr \<Rightarrow> rstr \<Rightarrow> agent_state \<Rightarrow> rstr option \<Rightarrow> agent_session_ref option \<Rightarrow>
   u64 option \<Rightarrow> instant \<Rightarrow> terminal_state \<times> hook_report_route" where
  "route_full_lifecycle_hook_report t source label st message r seq reported_at =
     (if \<not> full_lifecycle_hook_authority source label then (t, Accept False)
      else if full_lifecycle_hook_report_matches_stale_session t source label r then (t, Ignore)
      else (case hm_get (ts_suppressed t) source of
          Some su \<Rightarrow>
            if su_agent_label su \<noteq> label then (t, Ignore)
            else if su_reason su = HookClear then
              (t, if session_refs_conflict (su_session_ref su) r then Accept True else Ignore)
            else route_unanchored_hook_report t source label st message r seq reported_at
        | None \<Rightarrow>
            if process_present t label \<and> session_anchored t source label r
            then (t, Accept (full_lifecycle_hook_report_has_fresh_session_after_stale_session t source label r))
            else route_unanchored_hook_report t source label st message r seq reported_at))"

subsection \<open>Accepting a report\<close>

text \<open>The accepted report: the previous effect is captured, the name is reconciled, a taken-over
  owner is suppressed, the suppressed entry of the source turns into a stale session, and the
  report becomes the authority.\<close>

definition drop_suppressed_entry :: "terminal_state \<Rightarrow> rstr \<Rightarrow> terminal_state" where
  "drop_suppressed_entry t source =
     (let t1 = t\<lparr>ts_suppressed := hm_remove (ts_suppressed t) source\<rparr>
      in (case hm_get (ts_suppressed t) source of
            None \<Rightarrow> t1
          | Some su \<Rightarrow> (case su_session_ref su of
                None \<Rightarrow> t1 | Some r \<Rightarrow> remember_stale_session t1 source (su_agent_label su) r)))"

definition publish ::
  "terminal_state \<Rightarrow> terminal_state \<Rightarrow> instant \<Rightarrow> bool \<Rightarrow> mutation_result" where
  "publish before t now released =
     (let (t', change) = recompute_effective_state t (capture before now) now
      in (t', Some \<lparr>tm_effective_state_change = change,
            tm_session_ref_changed = (current_session_identity before \<noteq> current_session_identity t),
            tm_agent_released = released\<rparr>))"

definition accept_hook_authority ::
  "terminal_state \<Rightarrow> rstr \<Rightarrow> rstr \<Rightarrow> agent_state \<Rightarrow> rstr option \<Rightarrow> agent_session_ref option \<Rightarrow>
   bool \<Rightarrow> bool \<Rightarrow> instant \<Rightarrow> instant \<Rightarrow> mutation_result" where
  "accept_hook_authority t source label st message r reanchor_sequence takeover now clk =
     (let t1 = reconcile_agent_name_owner t label r;
          t2 = (if takeover then suppress_current_full_lifecycle_hook_authority t1 HookClear clk else t1);
          t3 = (if r \<noteq> None \<or> reanchor_sequence then drop_suppressed_entry t2 source else t2);
          t4 = t3\<lparr>ts_persisted_agent_session := None,
                  ts_hook_authority := Some \<lparr>ha_source = source, ha_agent_label = label, ha_state = st,
                    ha_message = message, ha_reported_at = now, ha_session_ref = r\<rparr>\<rparr>
      in publish t t4 now False)"

definition set_hook_authority_at ::
  "terminal_state \<Rightarrow> rstr \<Rightarrow> rstr \<Rightarrow> agent_state \<Rightarrow> rstr option \<Rightarrow> agent_session_ref option \<Rightarrow>
   u64 option \<Rightarrow> instant \<Rightarrow> instant \<Rightarrow> mutation_result" where
  "set_hook_authority_at t source label st message r0 seq now clk =
     (if session_identity_only_integration source label then (t, None)
      else if \<not> full_lifecycle_hook_authority source label
        \<and> is_some_and (\<lambda>e. parse_agent_label label = Some (re_agent e)) (ts_recent_agent_process_exit t)
      then (t, None)
      else (case route_full_lifecycle_hook_report t source label st message r0 seq now of
          (t1, Ignore) \<Rightarrow> (t1, None)
        | (t1, Accept reanchor_sequence) \<Rightarrow>
            if known_agent_label_conflicts_with_detected_agent t1 label then (t1, None)
            else (let owner_conflicts = current_session_owner_conflicts t1 source label;
                      takeover = owner_conflicts
                        \<and> foreground_agent_confirms_hook_authority_takeover t1 source label r0
                  in if owner_conflicts \<and> \<not> takeover then (t1, None)
                  else (let r = map_option (\<lambda>incoming.
                              if lifecycle_hook_report_replaces_persisted_session t1 source label incoming
                              then incoming
                              else (case conflicting_same_owner_session_ref t1 source label incoming None of
                                      Some current \<Rightarrow> current | None \<Rightarrow> incoming)) r0
                        in if live_full_lifecycle_hook_authority_conflicts_with_session t1 source label r
                           then (t1, None)
                           else (let t2 = (if reanchor_sequence
                                     then t1\<lparr>ts_hook_report_sequences := hm_remove (ts_hook_report_sequences t1) source\<rparr>
                                     else t1)
                                 in (case accept_hook_report t2 source seq of
                                       (t3, False) \<Rightarrow> (t3, None)
                                     | (t3, True) \<Rightarrow>
                                         accept_hook_authority t3 source label st message r
                                           reanchor_sequence takeover now clk))))))"

subsection \<open>A process comes back\<close>

text \<open>\<open>clear_full_lifecycle_hook_suppression_for_detected_agent\<close>: the suppressed entries of the
  detected agent are dropped, except those of an exited process that no new session has been
  announced for; an announced session replaces the exited one, and the newest report that was
  waiting for it becomes the authority.\<close>

definition keep_suppressed :: "agent \<Rightarrow> suppressed_hook_report \<Rightarrow> bool" where
  "keep_suppressed d su =
     (if parse_agent_label (su_agent_label su) \<noteq> Some d then True
      else if su_reason su = ProcessExit then su_replacement_session_ref su = None
      else False)"

definition cleared_stale_session :: "agent \<Rightarrow> rstr \<times> suppressed_hook_report \<Rightarrow> (rstr \<times> rstr \<times> agent_session_ref) option" where
  "cleared_stale_session d ssu =
     (let (source, su) = ssu
      in if parse_agent_label (su_agent_label su) \<noteq> Some d then None
         else if su_reason su = ProcessExit then
           (case su_replacement_session_ref su of
              None \<Rightarrow> None
            | Some replacement \<Rightarrow>
                map_option (\<lambda>exited. (source, su_agent_label su, exited))
                  (opt_filter (\<lambda>exited. exited \<noteq> replacement) (su_session_ref su)))
         else map_option (\<lambda>r. (source, su_agent_label su, r)) (su_session_ref su))"

definition validated_replacement ::
  "agent \<Rightarrow> sequences \<Rightarrow> rstr \<times> suppressed_hook_report \<Rightarrow>
   (rstr \<times> rstr \<times> agent_session_ref \<times> pending_hook_report option) option" where
  "validated_replacement d sequences ssu =
     (let (source, su) = ssu
      in if parse_agent_label (su_agent_label su) = Some d \<and> su_reason su = ProcessExit then
           map_option (\<lambda>replacement. (source, su_agent_label su, replacement,
               opt_filter (\<lambda>p. ha_session_ref (pr_authority p) = Some replacement
                    \<and> is_none_or (\<lambda>start. start < pr_seq p) (hm_get sequences source)) (su_pending su)))
             (su_replacement_session_ref su)
         else None)"

definition adopt_replacement ::
  "terminal_state \<Rightarrow> rstr \<times> rstr \<times> agent_session_ref \<times> pending_hook_report option \<Rightarrow> terminal_state" where
  "adopt_replacement t v =
     (let (source, label, r, pending) = v;
          t1 = reconcile_agent_name_owner (forget_stale_session t source label r) label (Some r);
          t2 = t1\<lparr>ts_persisted_agent_session := Some \<lparr>ps_source = source, ps_agent = label, ps_session_ref = r\<rparr>\<rparr>
      in (case pending of
            None \<Rightarrow> t2
          | Some p \<Rightarrow> t2\<lparr>ts_hook_report_sequences := hm_insert (ts_hook_report_sequences t2) source (pr_seq p),
                         ts_hook_authority := Some (pr_authority p)\<rparr>))"

definition clear_suppression_for_detected_agent ::
  "terminal_state \<Rightarrow> agent option \<Rightarrow> agent option \<Rightarrow> terminal_state" where
  "clear_suppression_for_detected_agent t previous detected =
     (case detected of None \<Rightarrow> t
      | Some d \<Rightarrow>
          if previous = Some d then t
          else (let su = ts_suppressed t;
                    stale = List.map_filter (cleared_stale_session d) su;
                    validated = List.map_filter (validated_replacement d (ts_hook_report_sequences t)) su;
                    t1 = t\<lparr>ts_suppressed := hm_retain (\<lambda>_. keep_suppressed d) su\<rparr>;
                    t2 = foldl (\<lambda>u (source, label, r). remember_stale_session u source label r) t1 stale;
                    t3 = t2\<lparr>ts_hook_report_sequences := hm_retain (\<lambda>source _.
                            source \<in> set (map fst validated)
                            \<or> \<not> full_lifecycle_hook_authority source (agent_label d))
                          (ts_hook_report_sequences t2)\<rparr>
                in foldl adopt_replacement t3 validated))"

subsection \<open>Session references\<close>

definition announce_replacement_session ::
  "terminal_state \<Rightarrow> rstr \<Rightarrow> rstr \<Rightarrow> agent_session_ref \<Rightarrow> instant \<Rightarrow> terminal_state" where
  "announce_replacement_session t source label r now =
     (let su = (case hm_get (ts_suppressed t) source of
                  Some su \<Rightarrow> su
                | None \<Rightarrow> \<lparr>su_agent_label = label, su_session_ref = None, su_observed_at = now,
                     su_reason = ProcessExit, su_replacement_session_ref = None, su_pending = None\<rparr>);
          su' = (if su_replacement_session_ref su \<noteq> Some r
                 then su\<lparr>su_pending :=
                          opt_filter (\<lambda>p. ha_session_ref (pr_authority p) = Some r) (su_pending su),
                        su_replacement_session_ref := Some r\<rparr>
                 else su)
      in t\<lparr>ts_suppressed := hm_insert (ts_suppressed t) source su'\<rparr>)"

definition generation_gated :: "terminal_state \<Rightarrow> rstr \<Rightarrow> rstr \<Rightarrow> bool" where
  "generation_gated t source label =
     is_some_and (\<lambda>su. su_agent_label su = label \<and> su_reason su \<noteq> HookClear) (hm_get (ts_suppressed t) source)"

definition session_report_anchored :: "terminal_state \<Rightarrow> rstr \<Rightarrow> rstr \<Rightarrow> bool" where
  "session_report_anchored t source label =
     (is_some_and (\<lambda>a. ha_source a = source \<and> ha_agent_label a = label \<and> ha_session_ref a \<noteq> None)
        (ts_hook_authority t)
      \<or> persisted_agent_session_matches t source label)"

definition start_session_generation ::
  "terminal_state \<Rightarrow> rstr \<Rightarrow> rstr \<Rightarrow> agent_session_ref \<Rightarrow> u64 option \<Rightarrow> rstr option \<Rightarrow> instant \<Rightarrow> mutation_result" where
  "start_session_generation t source label r seq start now =
     (if \<not> session_start_source_is_recognized start then (t, None)
      else (case seq of
          None \<Rightarrow> (t, None)
        | Some s \<Rightarrow>
            if is_some_and (\<lambda>last. s \<le> last) (hm_get (ts_hook_report_sequences t) source) then (t, None)
            else (let t1 = announce_replacement_session t source label r now;
                      t2 = t1\<lparr>ts_hook_report_sequences := hm_insert (ts_hook_report_sequences t1) source s\<rparr>
                  in if process_present t label
                     then publish t (clear_suppression_for_detected_agent t2 None (parse_agent_label label)) now False
                     else (t2, None))))"

definition replacing_identity_only_session ::
  "terminal_state \<Rightarrow> rstr \<Rightarrow> rstr \<Rightarrow> agent_session_ref \<Rightarrow> rstr option \<Rightarrow> bool" where
  "replacing_identity_only_session t source label r start =
     (session_identity_only_integration source label
      \<and> session_report_allows_session_replacement source label start
      \<and> is_some_and (\<lambda>(s, a, kind, v). s = source \<and> a = label \<and> kind = RefId \<and> sr_kind r = RefId
            \<and> v \<noteq> sr_value r) (current_session_identity t))"

definition adopt_session_ref ::
  "terminal_state \<Rightarrow> rstr \<Rightarrow> rstr \<Rightarrow> agent_session_ref \<Rightarrow> rstr option \<Rightarrow> bool \<Rightarrow> instant \<Rightarrow> instant \<Rightarrow> mutation_result" where
  "adopt_session_ref t source label r start takeover now clk =
     (let replaced = same_owner_full_lifecycle_hook_authority_session_ref t source label r;
          t1 = (if session_report_allows_session_replacement source label start \<or> takeover
                then forget_stale_session t source label r else t);
          t2 = (case replaced of
                  Some old \<Rightarrow> (remember_stale_session t1 source label old)\<lparr>ts_hook_authority := None\<rparr>
                | None \<Rightarrow> if takeover
                    then (suppress_current_full_lifecycle_hook_authority t1 HookClear clk)\<lparr>ts_hook_authority := None\<rparr>
                    else t1);
          t3 = reconcile_agent_name_owner t2 label (Some r);
          t4 = t3\<lparr>ts_persisted_agent_session := Some \<lparr>ps_source = source, ps_agent = label, ps_session_ref = r\<rparr>\<rparr>
      in publish t t4 now False)"

definition set_agent_session_ref_for_session_start ::
  "terminal_state \<Rightarrow> rstr \<Rightarrow> rstr \<Rightarrow> agent_session_ref option \<Rightarrow> u64 option \<Rightarrow> rstr option \<Rightarrow>
   instant \<Rightarrow> instant \<Rightarrow> mutation_result" where
  "set_agent_session_ref_for_session_start t source label r0 seq start now clk =
     (case r0 of
        None \<Rightarrow> (t, None)
      | Some r \<Rightarrow>
          if full_lifecycle_hook_authority source label
             \<and> (\<not> process_present t label \<or> generation_gated t source label \<or> \<not> session_report_anchored t source label)
          then start_session_generation t source label r seq start now
          else (case accept_hook_report t source seq of
              (t1, False) \<Rightarrow> (t1, None)
            | (t1, True) \<Rightarrow>
                if known_agent_label_conflicts_with_detected_agent t1 label then (t1, None)
                else if replacing_identity_only_session t1 source label r start \<and> \<not> process_present t label
                then (t1, None)
                else (let owner_conflicts = current_session_owner_conflicts t1 source label;
                          takeover = owner_conflicts
                            \<and> foreground_agent_confirms_different_owner_takeover t1 source label r start
                      in if owner_conflicts \<and> \<not> takeover then (t1, None)
                      else if conflicting_same_owner_session_ref t1 source label r start \<noteq> None then (t1, None)
                      else if same_owner_full_lifecycle_hook_authority_session_ref t1 source label r \<noteq> None
                           \<and> \<not> session_report_allows_session_replacement source label start
                      then (t1, None)
                      else adopt_session_ref t1 source label r start takeover now clk)))"

definition set_agent_session_ref ::
  "terminal_state \<Rightarrow> rstr \<Rightarrow> rstr \<Rightarrow> agent_session_ref option \<Rightarrow> u64 option \<Rightarrow> instant \<Rightarrow> instant \<Rightarrow> mutation_result" where
  "set_agent_session_ref t source label r seq now clk =
     set_agent_session_ref_for_session_start t source label r seq None now clk"

definition set_persisted_agent_session :: "terminal_state \<Rightarrow> persisted_agent_session \<Rightarrow> terminal_state" where
  "set_persisted_agent_session t s = t\<lparr>ts_persisted_agent_session := Some s\<rparr>"

subsection \<open>Clearing and releasing\<close>

definition clear_hook_authority_with_mutation ::
  "terminal_state \<Rightarrow> rstr option \<Rightarrow> u64 option \<Rightarrow> instant \<Rightarrow> instant \<Rightarrow> mutation_result" where
  "clear_hook_authority_with_mutation t source seq now clk =
     (let sequence_source = or_else source (map_option ha_source (ts_hook_authority t));
          should_clear = is_some_and (\<lambda>a. is_none_or (\<lambda>s. ha_source a = s) source) (ts_hook_authority t)
      in if \<not> should_clear then (t, None)
         else (case (case sequence_source of Some s \<Rightarrow> accept_hook_report t s seq | None \<Rightarrow> (t, True)) of
             (t1, False) \<Rightarrow> (t1, None)
           | (t1, True) \<Rightarrow>
               (let t2 = (suppress_current_full_lifecycle_hook_authority t1 HookClear clk)
                      \<lparr>ts_hook_authority := None, ts_persisted_agent_session := None\<rparr>;
                    (t3, change) = recompute_effective_state t2 (capture t1 now) now
                in (t3, Some \<lparr>tm_effective_state_change = change,
                       tm_session_ref_changed = (current_session_identity t1 \<noteq> None),
                       tm_agent_released = False\<rparr>))))"

definition release_agent_with_mutation ::
  "terminal_state \<Rightarrow> rstr \<Rightarrow> rstr \<Rightarrow> u64 option \<Rightarrow> instant \<Rightarrow> instant \<Rightarrow> mutation_result" where
  "release_agent_with_mutation t source label seq now clk =
     (if is_some_and (\<lambda>a. ha_agent_label a \<noteq> label \<or> ha_source a \<noteq> source) (ts_hook_authority t) then (t, None)
      else if effective_agent_label t \<noteq> Some label \<and> \<not> persisted_agent_session_matches t source label then (t, None)
      else (case accept_hook_report t source seq of
          (t1, False) \<Rightarrow> (t1, None)
        | (t1, True) \<Rightarrow>
            (let preserve_foreign = is_some_and (\<lambda>s. ps_source s \<noteq> source \<or> ps_agent s \<noteq> label)
                   (ts_persisted_agent_session t1);
                 process_owns_agent = process_present t1 label;
                 t2 = suppress_full_lifecycle_hook_report t1 source label HookClear clk;
                 t3 = (if process_owns_agent then t2
                       else clear_agent_name (t2\<lparr>ts_detected_agent := None, ts_fallback_state := Unknown,
                              ts_fallback_visible_blocker := False, ts_fallback_observed_at := None\<rparr>));
                 t4 = t3\<lparr>ts_hook_authority := None,
                        ts_persisted_agent_session :=
                          (if preserve_foreign then ts_persisted_agent_session t3 else None)\<rparr>
             in publish t1 t4 now (\<not> process_owns_agent))))"

end
