(* ===== verification/TerminalDetect.thy ===== *)
theory TerminalDetect
  imports TerminalHooks
begin

section \<open>Screen and process detection\<close>

text \<open>
  \<open>set_detected_state_with_screen_signals_at\<close> of \<open>terminal/state.rs\<close>: what a detection tick
  does to the terminal, and everything a process exit withdraws from it.
\<close>

definition agent_matches :: "rstr \<Rightarrow> agent option \<Rightarrow> bool" where
  "agent_matches label agent = (parse_agent_label label = agent)"

definition hook_authority_not_newer_than :: "terminal_state \<Rightarrow> instant \<Rightarrow> bool" where
  "hook_authority_not_newer_than t observed_at =
     is_none_or (\<lambda>a. ha_reported_at a \<le> observed_at) (ts_hook_authority t)"

definition hook_authority_conflicts_with_detected_agent :: "terminal_state \<Rightarrow> agent option \<Rightarrow> bool" where
  "hook_authority_conflicts_with_detected_agent t detected =
     (case detected of None \<Rightarrow> False
      | Some d \<Rightarrow> is_some_and (\<lambda>a. is_some_and (\<lambda>k. k \<noteq> d) (parse_agent_label (ha_agent_label a)))
          (ts_hook_authority t))"

definition should_ignore_detected_state_under_full_lifecycle_hook ::
  "terminal_state \<Rightarrow> agent option \<Rightarrow> bool \<Rightarrow> bool" where
  "should_ignore_detected_state_under_full_lifecycle_hook t detected process_exited =
     (live_full_lifecycle_hook_authority t \<and> \<not> process_exited
      \<and> \<not> hook_authority_conflicts_with_detected_agent t detected)"

definition newer_custom_authority :: "terminal_state \<Rightarrow> agent option \<Rightarrow> bool \<Rightarrow> instant \<Rightarrow> bool" where
  "newer_custom_authority t agent process_exited now =
     (process_exited \<and> is_some_and (\<lambda>a. agent_matches (ha_agent_label a) agent
        \<and> \<not> is_official_agent_source (ha_source a) (ha_agent_label a)
        \<and> now < ha_reported_at a) (ts_hook_authority t))"

subsection \<open>Process exit\<close>

text \<open>A suppressed entry of the exited agent forgets what was waiting; the newest session it knows
  becomes the exited one and an older one becomes stale.\<close>

definition exit_gates :: "agent option \<Rightarrow> suppressed_hook_report \<Rightarrow> bool" where
  "exit_gates agent su = (agent_matches (su_agent_label su) agent \<and> su_reason su \<noteq> HookClear)"

definition exited_session_ref :: "suppressed_hook_report \<Rightarrow> agent_session_ref option" where
  "exited_session_ref su =
     or_else (su_replacement_session_ref su)
       (or_else (Option.bind (su_pending su) (\<lambda>p. ha_session_ref (pr_authority p))) (su_session_ref su))"

definition exit_suppressed_reports :: "terminal_state \<Rightarrow> agent option \<Rightarrow> instant \<Rightarrow> terminal_state" where
  "exit_suppressed_reports t agent now =
     (let su = ts_suppressed t;
          stale = List.map_filter (\<lambda>(source, s).
              if exit_gates agent s \<and> session_refs_conflict (su_session_ref s) (exited_session_ref s)
              then map_option (\<lambda>r. (source, su_agent_label s, r)) (su_session_ref s) else None) su;
          reset = map fst (filter (\<lambda>(source, s). exit_gates agent s) su);
          t1 = t\<lparr>ts_suppressed := map (\<lambda>(source, s). (source,
                 if exit_gates agent s
                 then s\<lparr>su_replacement_session_ref := None, su_session_ref := exited_session_ref s,
                        su_pending := None, su_observed_at := now\<rparr>
                 else s)) su\<rparr>;
          t2 = foldl (\<lambda>u (source, label, r). remember_stale_session u source label r) t1 stale
      in foldl (\<lambda>u source. u\<lparr>ts_hook_report_sequences := hm_remove (ts_hook_report_sequences u) source\<rparr>) t2 reset)"

definition exit_official_session ::
  "terminal_state \<Rightarrow> agent option \<Rightarrow> (rstr \<times> rstr \<times> agent_session_ref option) option" where
  "exit_official_session t agent =
     or_else
       (map_option (\<lambda>a. (ha_source a, ha_agent_label a, ha_session_ref a))
          (opt_filter (\<lambda>a. is_official_agent_source (ha_source a) (ha_agent_label a)
             \<and> agent_matches (ha_agent_label a) agent) (ts_hook_authority t)))
       (map_option (\<lambda>s. (ps_source s, ps_agent s, Some (ps_session_ref s)))
          (opt_filter (\<lambda>s. is_official_agent_source (ps_source s) (ps_agent s)
             \<and> agent_matches (ps_agent s) agent) (ts_persisted_agent_session t)))"

definition exit_sessions :: "terminal_state \<Rightarrow> agent option \<Rightarrow> bool \<Rightarrow> instant \<Rightarrow> terminal_state" where
  "exit_sessions t agent newer_custom now =
     (let t1 = (case exit_official_session t agent of
                  None \<Rightarrow> t
                | Some (source, label, r) \<Rightarrow>
                    suppress_with_session_ref
                      (t\<lparr>ts_hook_report_sequences := hm_remove (ts_hook_report_sequences t) source\<rparr>)
                      source label r ProcessExit now);
          t2 = (case ts_hook_authority t1 of
                  None \<Rightarrow> t1
                | Some a \<Rightarrow>
                    if agent_matches (ha_agent_label a) agent \<and> \<not> newer_custom
                    then t1\<lparr>ts_hook_report_sequences := hm_remove (ts_hook_report_sequences t1) (ha_source a),
                            ts_hook_authority := None\<rparr>
                    else t1)
      in if \<not> newer_custom \<and> is_some_and (\<lambda>s. agent_matches (ps_agent s) agent) (ts_persisted_agent_session t2)
         then t2\<lparr>ts_persisted_agent_session := None\<rparr> else t2)"

definition exit_clears_metadata :: "agent \<Rightarrow> instant \<Rightarrow> agent_metadata \<Rightarrow> bool" where
  "exit_clears_metadata agent now m =
     (let label = agent_label agent;
          official = is_official_agent_source (am_source m) label
            \<or> is_some_and (\<lambda>s. is_official_agent_source s label) (am_applies_to_source m);
          matches_agent = am_agent_label m = Some label \<or> official
      in matches_agent \<and> (official \<or> am_reported_at m \<le> now))"

definition forget_metadata_source :: "terminal_state \<Rightarrow> rstr \<Rightarrow> terminal_state" where
  "forget_metadata_source t source =
     t\<lparr>ts_metadata_report_sequences := hm_remove (ts_metadata_report_sequences t) source,
       ts_metadata_token_sequence_sources := removeAll source (ts_metadata_token_sequence_sources t)\<rparr>"

definition exit_metadata :: "terminal_state \<Rightarrow> agent option \<Rightarrow> instant \<Rightarrow> terminal_state" where
  "exit_metadata t agent now =
     (case agent of None \<Rightarrow> t
      | Some a \<Rightarrow>
          (let cleared = map fst (filter (\<lambda>(source, m). exit_clears_metadata a now m) (ts_agent_metadata t));
               t1 = t\<lparr>ts_agent_metadata := hm_retain (\<lambda>source m. \<not> exit_clears_metadata a now m) (ts_agent_metadata t)\<rparr>;
               t2 = foldl (\<lambda>u source. (forget_metadata_source u source)
                       \<lparr>ts_metadata_report_agents := hm_remove (ts_metadata_report_agents u) source\<rparr>) t1 cleared;
               exited = map fst (filter (\<lambda>(source, owner). owner = a) (ts_metadata_report_agents t2));
               t3 = t2\<lparr>ts_metadata_report_agents := hm_retain (\<lambda>source owner. owner \<noteq> a) (ts_metadata_report_agents t2)\<rparr>
           in foldl forget_metadata_source t3 exited))"

definition process_exit :: "terminal_state \<Rightarrow> agent option \<Rightarrow> bool \<Rightarrow> instant \<Rightarrow> terminal_state" where
  "process_exit t agent newer_custom now =
     exit_metadata (exit_sessions (exit_suppressed_reports t agent now) agent newer_custom now) agent now"

subsection \<open>A detection tick\<close>

text \<open>The part that records the detection itself.\<close>

definition record_detection ::
  "terminal_state \<Rightarrow> agent option \<Rightarrow> agent_state \<Rightarrow> bool \<Rightarrow> bool \<Rightarrow> bool \<Rightarrow> instant \<Rightarrow> terminal_state" where
  "record_detection t agent fallback_state visible_blocker process_exited replacement_detected now =
     (let previous_detected = ts_detected_agent t;
          t1 = t\<lparr>ts_detected_agent := agent\<rparr>;
          t2 = (case agent of Some a \<Rightarrow> reconcile_agent_name_owner t1 (agent_label a) None | None \<Rightarrow> t1);
          t3 = (if \<not> process_exited
                then clear_suppression_for_detected_agent t2
                       (if replacement_detected then None else previous_detected) agent
                else t2);
          t4 = t3\<lparr>ts_fallback_state := fallback_state,
                  ts_fallback_visible_blocker := (visible_blocker \<and> fallback_state = Blocked),
                  ts_fallback_observed_at := Some now\<rparr>
      in if process_exited
         then (case agent of
                 Some a \<Rightarrow> t4\<lparr>ts_recent_agent_process_exit := Some \<lparr>re_agent = a, re_observed_at = now\<rparr>\<rparr>
               | None \<Rightarrow> t4)
         else if agent \<noteq> None then t4\<lparr>ts_recent_agent_process_exit := None\<rparr> else t4)"

text \<open>A live authority of another agent, or of the agent that just went away, is dropped; its
  session stays as the persisted one.\<close>

definition drop_conflicting_authority ::
  "terminal_state \<Rightarrow> agent option \<Rightarrow> agent option \<Rightarrow> instant \<Rightarrow> instant \<Rightarrow> terminal_state" where
  "drop_conflicting_authority t agent previous_detected now clk =
     (if hook_authority_not_newer_than t now
         \<and> (hook_authority_conflicts_with_detected_agent t agent
            \<or> (previous_detected \<noteq> None \<and> agent \<noteq> previous_detected
               \<and> is_some_and (\<lambda>a. agent_matches (ha_agent_label a) previous_detected) (ts_hook_authority t)))
      then (let durable = Option.bind (ts_hook_authority t) (\<lambda>a. map_option (\<lambda>r.
                  \<lparr>ps_source = ha_source a, ps_agent = ha_agent_label a, ps_session_ref = r\<rparr>) (ha_session_ref a));
                t1 = suppress_current_full_lifecycle_hook_authority t HookClear clk
            in t1\<lparr>ts_hook_authority := None, ts_persisted_agent_session := durable\<rparr>)
      else t)"

definition set_detected_state_with_screen_signals_at ::
  "terminal_state \<Rightarrow> agent option \<Rightarrow> agent_state \<Rightarrow> bool \<Rightarrow> bool \<Rightarrow> bool \<Rightarrow> bool \<Rightarrow> instant \<Rightarrow> instant \<Rightarrow>
   terminal_state \<times> terminal_state_mutation" where
  "set_detected_state_with_screen_signals_at t agent fallback_state visible_blocker visible_idle visible_working
     process_exited now clk =
     (let newer_custom = newer_custom_authority t agent process_exited now;
          agent_released = process_exited \<and> \<not> newer_custom
            \<and> (effective_agent_label t \<noteq> None \<or> ts_agent_name t \<noteq> None);
          finish = (\<lambda>u released.
            (let (u', change) = recompute_effective_state u (capture t now) now
             in (u', \<lparr>tm_effective_state_change = change,
                   tm_session_ref_changed = (current_session_identity t \<noteq> current_session_identity u'),
                   tm_agent_released = released\<rparr>)))
      in if should_ignore_detected_state_under_full_lifecycle_hook t agent process_exited then
           finish (if Option.bind (ts_hook_authority t) (\<lambda>a. parse_agent_label (ha_agent_label a)) = agent
                   then t\<lparr>ts_detected_agent := agent\<rparr> else t) False
         else if \<not> process_exited \<and> detected_state_observed_before_release_suppression t agent now then
           finish t False
         else
           (let replacement_detected = \<not> process_exited \<and> agent \<noteq> None
                  \<and> is_some_and (\<lambda>e. Some (re_agent e) = agent \<and> re_observed_at e < now)
                      (ts_recent_agent_process_exit t);
                t1 = record_detection t agent fallback_state visible_blocker process_exited replacement_detected now;
                t2 = (if process_exited then process_exit t1 agent newer_custom now else t1);
                t3 = drop_conflicting_authority t2 agent (ts_detected_agent t) now clk;
                t4 = (if agent_released then clear_agent_name t3 else t3)
            in finish t4 agent_released))"

end
