(* ===== verification/TerminalMetadata.thy ===== *)
theory TerminalMetadata
  imports TerminalDetect
begin

section \<open>Managed agents\<close>

text \<open>
  An agent the program started itself (\<open>terminal/state.rs\<close>): it is pending until the expected
  agent is seen idle or blocked after a settle delay, and is given up at the deadline, at the
  process exit, when another agent shows up, or when the expected one disappears again.
\<close>

definition begin_managed_agent ::
  "terminal_state \<Rightarrow> rstr \<Rightarrow> agent \<Rightarrow> instant \<Rightarrow> duration \<Rightarrow> duration \<Rightarrow> terminal_state" where
  "begin_managed_agent t name kind now settle_delay timeout =
     (set_agent_name t name)
       \<lparr>ts_agent_name_owner := Some \<lparr>no_agent_label = agent_label kind, no_session_ref = None\<rparr>,
        ts_managed_agent := Some \<lparr>ma_kind = kind,
          ma_phase = Pending (Some (instant_add_or_self now settle_delay)) (instant_add_or_self now timeout) False\<rparr>\<rparr>"

definition restore_managed_agent :: "terminal_state \<Rightarrow> rstr \<Rightarrow> agent \<Rightarrow> terminal_state" where
  "restore_managed_agent t name kind =
     (set_agent_name t name)
       \<lparr>ts_agent_name_owner := Some \<lparr>no_agent_label = agent_label kind, no_session_ref = None\<rparr>,
        ts_managed_agent := Some \<lparr>ma_kind = kind, ma_phase = Active\<rparr>\<rparr>"

fun is_pending :: "managed_agent_phase \<Rightarrow> bool" where
  "is_pending (Pending _ _ _) = True"
| "is_pending Active = False"

definition managed_agent_launch_pending :: "terminal_state \<Rightarrow> bool" where
  "managed_agent_launch_pending t = is_some_and (\<lambda>m. is_pending (ma_phase m)) (ts_managed_agent t)"

definition managed_agent_interactive_ready :: "terminal_state \<Rightarrow> bool" where
  "managed_agent_interactive_ready t = is_some_and (\<lambda>m. ma_phase m = Active) (ts_managed_agent t)"

definition managed_agent_kind :: "terminal_state \<Rightarrow> agent option" where
  "managed_agent_kind t = map_option ma_kind (ts_managed_agent t)"

definition next_managed_agent_deadline :: "terminal_state \<Rightarrow> instant option" where
  "next_managed_agent_deadline t =
     (case ts_managed_agent t of None \<Rightarrow> None
      | Some m \<Rightarrow> (case ma_phase m of
            Pending ready_after deadline _ \<Rightarrow> Some (min (case ready_after of Some r \<Rightarrow> r | None \<Rightarrow> deadline) deadline)
          | Active \<Rightarrow> None))"

definition set_managed_phase :: "terminal_state \<Rightarrow> agent \<Rightarrow> managed_agent_phase \<Rightarrow> terminal_state" where
  "set_managed_phase t kind phase = t\<lparr>ts_managed_agent := Some \<lparr>ma_kind = kind, ma_phase = phase\<rparr>\<rparr>"

definition reconcile_managed_agent_at :: "terminal_state \<Rightarrow> instant \<Rightarrow> bool \<Rightarrow> terminal_state \<times> bool" where
  "reconcile_managed_agent_at t now process_exited =
     (case ts_managed_agent t of
        None \<Rightarrow> (t, False)
      | Some m \<Rightarrow>
          (let known = effective_known_agent t; kind = ma_kind m;
               observed = (case ma_phase m of Pending _ _ o' \<Rightarrow> o' \<or> known = Some kind | Active \<Rightarrow> False);
               clear = process_exited \<or> is_some_and (\<lambda>k. k \<noteq> kind) known
                 \<or> is_pending (ma_phase m) \<and> observed \<and> known = None
           in if clear then (clear_agent_name t, True)
              else (case ma_phase m of
                  Active \<Rightarrow> (t, False)
                | Pending ready_after deadline previously_observed \<Rightarrow>
                    if deadline \<le> now then (clear_agent_name t, True)
                    else if is_none_or (\<lambda>r. r \<le> now) ready_after
                            \<and> known = Some kind \<and> ts_state t \<in> {Idle, Blocked}
                    then (set_managed_phase t kind Active, True)
                    else if is_none_or (\<lambda>r. r \<le> now) ready_after \<and> ready_after \<noteq> None
                    then (set_managed_phase t kind (Pending None deadline observed), True)
                    else if observed \<noteq> previously_observed
                    then (set_managed_phase t kind (Pending ready_after deadline observed), True)
                    else (t, False))))"

definition clear_agent_runtime_identity_after_respawn :: "terminal_state \<Rightarrow> terminal_state" where
  "clear_agent_runtime_identity_after_respawn t =
     clear_agent_name (t\<lparr>ts_detected_agent := None, ts_fallback_state := Unknown,
       ts_fallback_visible_blocker := False, ts_fallback_observed_at := None, ts_hook_authority := None,
       ts_persisted_agent_session := None, ts_agent_metadata := [], ts_metadata_report_agents := [],
       ts_suppressed := [], ts_stale_sessions := [], ts_state := Unknown,
       ts_last_agent_state_change_seq := None, ts_launch_argv := None, ts_respawn_shell_on_exit := False,
       ts_recent_agent_process_exit := None, ts_pending_agent_resume_plan := None\<rparr>)"

section \<open>Metadata reports\<close>

text \<open>
  The operations of \<open>terminal/metadata.rs\<close>: accepting a report behind the sequence gate,
  storing it, and expiring it.
\<close>

record agent_metadata_report =
  mr_source :: rstr
  mr_agent_label :: "rstr option"
  mr_applies_to_source :: "rstr option"
  mr_title :: "rstr option"
  mr_display_agent :: "rstr option"
  mr_state_labels :: "(rstr, rstr) hmap"
  mr_clear_title :: bool
  mr_clear_display_agent :: bool
  mr_clear_state_labels :: bool
  mr_ttl :: "duration option"
  mr_seq :: "u64 option"

definition metadata_report_sequence_is_fresh :: "terminal_state \<Rightarrow> rstr \<Rightarrow> u64 option \<Rightarrow> bool" where
  "metadata_report_sequence_is_fresh t source seq =
     sequence_is_fresh (ts_metadata_report_sequences t) source seq"

definition metadata_report_agent :: "rstr \<Rightarrow> rstr option \<Rightarrow> rstr option \<Rightarrow> agent option" where
  "metadata_report_agent source label applies_to =
     or_else (Option.bind label parse_agent_label)
       (find (\<lambda>a. is_official_agent_source source (agent_label a)
          \<or> is_some_and (\<lambda>s. is_official_agent_source s (agent_label a)) applies_to) agent_all)"

definition metadata_report_blocked_by_process_exit ::
  "terminal_state \<Rightarrow> rstr \<Rightarrow> rstr option \<Rightarrow> rstr option \<Rightarrow> bool" where
  "metadata_report_blocked_by_process_exit t source label applies_to =
     (case ts_recent_agent_process_exit t of
        None \<Rightarrow> False
      | Some exit \<Rightarrow>
          (let exited = agent_label (re_agent exit)
           in Option.bind label parse_agent_label = Some (re_agent exit)
              \<or> is_official_agent_source source exited
              \<or> is_some_and (\<lambda>s. is_official_agent_source s exited) applies_to))"

definition accept_metadata_report ::
  "terminal_state \<Rightarrow> rstr \<Rightarrow> u64 option \<Rightarrow> bool \<Rightarrow> agent option \<Rightarrow> terminal_state \<times> (unit + bool)" where
  "accept_metadata_report t source seq includes_tokens agent =
     (case seq of
        None \<Rightarrow> (t, Inr True)
      | Some s \<Rightarrow>
          if \<not> metadata_report_sequence_is_fresh t source (Some s) then (t, Inr False)
          else if includes_tokens \<and> source \<notin> set (ts_metadata_token_sequence_sources t)
                  \<and> MAX_SEQUENCE_SOURCES \<le> length (ts_metadata_token_sequence_sources t)
          then (t, Inl ())
          else (let t1 = t\<lparr>ts_metadata_report_sequences := hm_insert (ts_metadata_report_sequences t) source s\<rparr>;
                    t2 = (case agent of
                            Some a \<Rightarrow> t1\<lparr>ts_metadata_report_agents := hm_insert (ts_metadata_report_agents t1) source a\<rparr>
                          | None \<Rightarrow> t1);
                    t3 = (if includes_tokens
                          then t2\<lparr>ts_metadata_token_sequence_sources :=
                                 List.insert source (ts_metadata_token_sequence_sources t2)\<rparr>
                          else t2)
                in (t3, Inr True)))"

definition metadata_seq :: "terminal_state \<Rightarrow> rstr \<Rightarrow> u64 option" where
  "metadata_seq t = map_of (ts_metadata_report_sequences t)"

definition metadata_report_accepted ::
  "bool \<Rightarrow> agent option \<Rightarrow> terminal_state \<Rightarrow> rstr \<Rightarrow> u64 option \<Rightarrow> terminal_state \<times> bool" where
  "metadata_report_accepted includes_tokens agent t source seq =
     (let (t', r) = accept_metadata_report t source seq includes_tokens agent in (t', r = Inr True))"

interpretation metadata_gate: seq_gate metadata_seq "metadata_report_accepted includes_tokens agent"
  for includes_tokens agent
proof unfold_locales
  fix t :: terminal_state and source :: rstr and n :: u64 and t' :: terminal_state
  assume "metadata_report_accepted includes_tokens agent t source (Some n) = (t', True)"
  then show "(case metadata_seq t source of None \<Rightarrow> True | Some m \<Rightarrow> m < n) \<and> metadata_seq t' = (metadata_seq t)(source \<mapsto> n)"
    by (auto simp: metadata_report_accepted_def accept_metadata_report_def metadata_seq_def
        metadata_report_sequence_is_fresh_def sequence_is_fresh_def update_conv' Let_def
        split: if_splits option.splits)
qed (auto simp: metadata_report_accepted_def accept_metadata_report_def metadata_seq_def Let_def
      split: option.splits if_splits)

subsection \<open>Storing a report\<close>

definition metadata_from_report :: "agent_metadata_report \<Rightarrow> instant \<Rightarrow> agent_metadata" where
  "metadata_from_report r now =
     \<lparr>am_source = mr_source r, am_agent_label = mr_agent_label r, am_applies_to_source = mr_applies_to_source r,
      am_title = mr_title r, am_display_agent = mr_display_agent r, am_state_labels = mr_state_labels r,
      am_reported_at = now, am_title_reported_at = map_option (\<lambda>_. now) (mr_title r),
      am_display_agent_reported_at = map_option (\<lambda>_. now) (mr_display_agent r),
      am_state_label_reported_at = map (\<lambda>(st, _). (st, now)) (mr_state_labels r),
      am_ttl = mr_ttl r, am_expiry_event_pending = False\<rparr>"

text \<open>A report that clears something merges into the stored entry.\<close>

definition metadata_cleared :: "agent_metadata_report \<Rightarrow> agent_metadata \<Rightarrow> agent_metadata" where
  "metadata_cleared r m =
     (let m1 = (if mr_clear_title r then m\<lparr>am_title := None, am_title_reported_at := None\<rparr> else m);
          m2 = (if mr_clear_display_agent r
                then m1\<lparr>am_display_agent := None, am_display_agent_reported_at := None\<rparr> else m1)
      in if mr_clear_state_labels r
         then m2\<lparr>am_state_labels := [], am_state_label_reported_at := []\<rparr> else m2)"

definition metadata_merged :: "agent_metadata_report \<Rightarrow> instant \<Rightarrow> agent_metadata \<Rightarrow> agent_metadata" where
  "metadata_merged r now m0 =
     (let m = metadata_cleared r m0;
          m1 = (case mr_agent_label r of Some l \<Rightarrow> m\<lparr>am_agent_label := Some l\<rparr> | None \<Rightarrow> m);
          m2 = (case mr_applies_to_source r of Some s \<Rightarrow> m1\<lparr>am_applies_to_source := Some s\<rparr> | None \<Rightarrow> m1);
          m3 = (case mr_title r of
                  Some x \<Rightarrow> m2\<lparr>am_title := Some x, am_title_reported_at := Some now\<rparr> | None \<Rightarrow> m2);
          m4 = (case mr_display_agent r of
                  Some x \<Rightarrow> m3\<lparr>am_display_agent := Some x, am_display_agent_reported_at := Some now\<rparr>
                | None \<Rightarrow> m3);
          m5 = foldl (\<lambda>u (st, label). u\<lparr>am_state_labels := hm_insert (am_state_labels u) st label,
                   am_state_label_reported_at := hm_insert (am_state_label_reported_at u) st now\<rparr>)
                 m4 (mr_state_labels r);
          has_set_fields = (mr_title r \<noteq> None \<or> mr_display_agent r \<noteq> None \<or> mr_state_labels r \<noteq> [])
      in if has_set_fields \<or> mr_ttl r \<noteq> None
         then m5\<lparr>am_reported_at := now, am_ttl := mr_ttl r, am_expiry_event_pending := False\<rparr>
         else m5)"

definition empty_metadata :: "agent_metadata_report \<Rightarrow> instant \<Rightarrow> agent_metadata" where
  "empty_metadata r now =
     \<lparr>am_source = mr_source r, am_agent_label = mr_agent_label r, am_applies_to_source = mr_applies_to_source r,
      am_title = None, am_display_agent = None, am_state_labels = [], am_reported_at = now,
      am_title_reported_at = None, am_display_agent_reported_at = None, am_state_label_reported_at = [],
      am_ttl = mr_ttl r, am_expiry_event_pending = False\<rparr>"

definition store_metadata :: "terminal_state \<Rightarrow> agent_metadata_report \<Rightarrow> instant \<Rightarrow> terminal_state" where
  "store_metadata t r now =
     (let source = mr_source r; stored = ts_agent_metadata t;
          m = (if mr_clear_title r \<or> mr_clear_display_agent r \<or> mr_clear_state_labels r
               then metadata_merged r now
                      (case hm_get stored source of Some m \<Rightarrow> m | None \<Rightarrow> empty_metadata r now)
               else metadata_from_report r now);
          m' = (if mr_ttl r \<noteq> None \<and> agent_metadata_is_visible_ignoring_ttl t m
                then m\<lparr>am_expiry_event_pending := True\<rparr> else m)
      in t\<lparr>ts_agent_metadata := hm_insert stored source m'\<rparr>)"

definition drop_expired_metadata :: "terminal_state \<Rightarrow> rstr \<Rightarrow> instant \<Rightarrow> terminal_state" where
  "drop_expired_metadata t source now =
     (if is_some_and (\<lambda>m. agent_metadata_is_expired m now) (hm_get (ts_agent_metadata t) source)
      then t\<lparr>ts_agent_metadata := hm_remove (ts_agent_metadata t) source\<rparr> else t)"

definition set_agent_metadata ::
  "terminal_state \<Rightarrow> agent_metadata_report \<Rightarrow> instant \<Rightarrow> terminal_state \<times> terminal_state_mutation option" where
  "set_agent_metadata t r now =
     (if metadata_report_blocked_by_process_exit t (mr_source r) (mr_agent_label r) (mr_applies_to_source r)
      then (t, None)
      else (case accept_metadata_report t (mr_source r) (mr_seq r) False
              (metadata_report_agent (mr_source r) (mr_agent_label r) (mr_applies_to_source r)) of
          (t1, Inr True) \<Rightarrow>
            (let t2 = drop_expired_metadata t1 (mr_source r) now;
                 (t3, change) = recompute_effective_state (store_metadata t2 r now) (capture t2 now) now;
                 t4 = (if change \<noteq> None then clear_expiry_pending_for_hidden_metadata t3 else t3)
             in (t4, Some \<lparr>tm_effective_state_change = change, tm_session_ref_changed = False,
                   tm_agent_released = False\<rparr>))
        | (t1, _) \<Rightarrow> (t1, None)))"

subsection \<open>Expiry\<close>

definition next_agent_metadata_expiry :: "terminal_state \<Rightarrow> instant \<Rightarrow> instant option" where
  "next_agent_metadata_expiry t now =
     (let ms = map snd (ts_agent_metadata t)
      in min_by_key id (filter (\<lambda>deadline. now < deadline
             \<or> list_ex (\<lambda>m. am_expiry_event_pending m \<and> agent_metadata_matches_guards t m
                  \<and> agent_metadata_expiry m = Some deadline) ms)
           (List.map_filter agent_metadata_expiry (filter (agent_metadata_matches_guards t) ms))))"

definition expire_agent_metadata_at ::
  "terminal_state \<Rightarrow> instant \<Rightarrow> instant \<Rightarrow> terminal_state \<times> terminal_state_mutation option" where
  "expire_agent_metadata_at t scheduled_deadline now =
     (let due = List.map_filter (\<lambda>(source, m). case agent_metadata_expiry m of
              Some deadline \<Rightarrow> if deadline \<le> now then Some (source, deadline) else None
            | None \<Rightarrow> None) (ts_agent_metadata t);
          expired = map fst (filter (\<lambda>(_, deadline). scheduled_deadline \<le> deadline) due);
          stale = map fst (filter (\<lambda>(_, deadline). \<not> scheduled_deadline \<le> deadline) due);
          drop = (\<lambda>u source. u\<lparr>ts_agent_metadata := hm_remove (ts_agent_metadata u) source\<rparr>);
          t1 = foldl drop t stale
      in if expired = [] then (t1, None)
         else (let prev = (capture t1 now)\<lparr>pe_presentation := effective_presentation_ignoring_ttl t1 now\<rparr>;
                   (t2, change) = recompute_effective_state (foldl drop t1 expired) prev now
               in (t2, Some \<lparr>tm_effective_state_change = change, tm_session_ref_changed = False,
                     tm_agent_released = False\<rparr>)))"

end
