(* ===== verification/TerminalSteps.thy ===== *)
theory TerminalSteps
  imports TerminalMetadata
begin

section \<open>The terminal as a state machine\<close>

text \<open>
  Every operation another module may call on a terminal, as one step relation, and what holds
  in every reachable terminal: the published state is the arbitrated one, an integration that
  only reports the session identity never becomes the authority, and a report waits only on
  the suppressed entry of its own source.
\<close>

subsection \<open>Bookkeeping keeps the arbitration\<close>

definition bookkeeping :: "terminal_state \<Rightarrow> terminal_state \<Rightarrow> bool" where
  "bookkeeping t u \<longleftrightarrow> same_arbitration t u \<and> ts_state t = ts_state u"

lemma bookkeeping_refl [simp]: "bookkeeping t t"
  by (simp add: bookkeeping_def)

lemma bookkeeping_trans: "bookkeeping t u \<Longrightarrow> bookkeeping u v \<Longrightarrow> bookkeeping t v"
  by (simp add: bookkeeping_def same_arbitration_def)

lemma bookkeeping_settled: "bookkeeping t u \<Longrightarrow> state_settled u \<Longrightarrow> state_settled t"
  using same_arbitration_settled unfolding bookkeeping_def by blast

lemma bookkeeping_foldl:
  "(\<And>u x. bookkeeping (f u x) u) \<Longrightarrow> bookkeeping (foldl f t xs) t"
proof (induction xs arbitrary: t)
  case Nil
  then show ?case by simp
next
  case (Cons x xs)
  show ?case
    using bookkeeping_trans [OF Cons.IH [OF Cons.prems] Cons.prems [of t x]] by simp
qed

named_theorems book \<open>operations that only keep books\<close>

lemma reconcile_agent_name_owner_book [book]: "bookkeeping (reconcile_agent_name_owner t l r) t"
  by (auto simp: reconcile_agent_name_owner_def bookkeeping_def same_arbitration_def split: option.splits)

lemma clear_agent_name_book [book]: "bookkeeping (clear_agent_name t) t"
  by (simp add: clear_agent_name_def bookkeeping_def same_arbitration_def)

lemma set_agent_name_book [book]: "bookkeeping (set_agent_name t n) t"
  by (simp add: set_agent_name_def Let_def bookkeeping_def same_arbitration_def)

lemma manual_label_book [book]:
  "bookkeeping (set_manual_label t l) t" "bookkeeping (clear_manual_label t) t"
  by (simp_all add: set_manual_label_def clear_manual_label_def Let_def bookkeeping_def same_arbitration_def)

lemma title_book [book]: "bookkeeping (fst (set_terminal_title t x)) t"
  by (simp add: set_terminal_title_def Let_def bookkeeping_def same_arbitration_def)

lemma remember_book [book]: "bookkeeping (remember_stale_session t s l r) t"
  by (simp add: remember_stale_session_def Let_def bookkeeping_def same_arbitration_def)

lemma forget_book [book]: "bookkeeping (forget_stale_session t s l r) t"
  by (simp add: forget_stale_session_def Let_def bookkeeping_def same_arbitration_def split: option.splits)

lemma suppress_book [book]:
  "bookkeeping (suppress_with_session_ref t s l r why at) t"
  "bookkeeping (suppress_current_full_lifecycle_hook_authority t why at) t"
  "bookkeeping (suppress_full_lifecycle_hook_report t s l why at) t"
  by (auto simp: suppress_with_session_ref_def suppress_current_full_lifecycle_hook_authority_def
      suppress_full_lifecycle_hook_report_def bookkeeping_def same_arbitration_def split: option.splits)

lemma accept_hook_report_book [book]: "bookkeeping (fst (accept_hook_report t s q)) t"
  by (auto simp: accept_hook_report_def bookkeeping_def same_arbitration_def split: option.splits)

lemma queue_pending_book [book]: "bookkeeping (queue_pending_report t a s) t"
  by (simp add: queue_pending_report_def Let_def bookkeeping_def same_arbitration_def)

lemma announce_book [book]: "bookkeeping (announce_replacement_session t s l r now) t"
  by (simp add: announce_replacement_session_def Let_def bookkeeping_def same_arbitration_def)

lemma route_book [book]: "bookkeeping (fst (route_full_lifecycle_hook_report t s l st m r q now)) t"
  by (auto simp: route_full_lifecycle_hook_report_def route_unanchored_hook_report_def
      intro: queue_pending_book split: option.splits)

lemma drop_suppressed_book [book]: "bookkeeping (drop_suppressed_entry t s) t"
proof -
  have "bookkeeping (t\<lparr>ts_suppressed := x\<rparr>) t" for x
    by (simp add: bookkeeping_def same_arbitration_def)
  then show ?thesis
    by (auto simp: drop_suppressed_entry_def Let_def intro: bookkeeping_trans remember_book split: option.splits)
qed

lemma exit_suppressed_book [book]: "bookkeeping (exit_suppressed_reports t a now) t"
proof -
  have 1: "bookkeeping (t\<lparr>ts_suppressed := x\<rparr>) t" for x
    by (simp add: bookkeeping_def same_arbitration_def)
  have 2: "bookkeeping (u\<lparr>ts_hook_report_sequences := x\<rparr>) u" for u x
    by (simp add: bookkeeping_def same_arbitration_def)
  show ?thesis
    unfolding exit_suppressed_reports_def Let_def
    by (rule bookkeeping_trans, rule bookkeeping_foldl, rule 2,
        rule bookkeeping_trans, rule bookkeeping_foldl, auto simp: case_prod_beta intro: remember_book 1)
qed

lemma exit_metadata_book [book]: "bookkeeping (exit_metadata t a now) t"
proof (cases a)
  case None
  then show ?thesis by (simp add: exit_metadata_def)
next
  case (Some a')
  have 1: "bookkeeping (forget_metadata_source u s) u" for u s
    by (simp add: forget_metadata_source_def bookkeeping_def same_arbitration_def)
  have 2: "bookkeeping (u\<lparr>ts_metadata_report_agents := x\<rparr>) u" for u x
    by (simp add: bookkeeping_def same_arbitration_def)
  have 3: "bookkeeping (u\<lparr>ts_agent_metadata := x\<rparr>) u" for u x
    by (simp add: bookkeeping_def same_arbitration_def)
  show ?thesis
    unfolding exit_metadata_def Let_def Some option.case
    by (rule bookkeeping_trans, rule bookkeeping_foldl, rule 1, rule bookkeeping_trans, rule 2,
        rule bookkeeping_trans, rule bookkeeping_foldl, rule bookkeeping_trans, rule 2, rule 1, rule 3)
qed

lemma accept_metadata_book [book]: "bookkeeping (fst (accept_metadata_report t s q b a)) t"
  by (auto simp: accept_metadata_report_def bookkeeping_def same_arbitration_def Let_def split: option.splits)

lemma managed_book [book]:
  "bookkeeping (begin_managed_agent t n k now d d') t"
  "bookkeeping (restore_managed_agent t n k) t"
  "bookkeeping (fst (reconcile_managed_agent_at t now ex)) t"
  by (auto simp: begin_managed_agent_def restore_managed_agent_def reconcile_managed_agent_at_def
      set_agent_name_def clear_agent_name_def set_managed_phase_def Let_def bookkeeping_def
      same_arbitration_def split: option.splits managed_agent_phase.splits)

subsection \<open>Operations that change the arbitration publish it\<close>

lemma book_state: "bookkeeping t u \<Longrightarrow> ts_state t = ts_state u"
  by (simp add: bookkeeping_def)

lemmas book_states [simp] = book [THEN book_state]

lemma foldl_state: "(\<And>u x. ts_state (f u x) = ts_state u) \<Longrightarrow> ts_state (foldl f t xs) = ts_state t"
  by (induction xs arbitrary: t) auto

lemma adopt_replacement_state [simp]: "ts_state (adopt_replacement t v) = ts_state t"
  by (simp add: adopt_replacement_def Let_def split: prod.splits option.splits)

lemma clear_suppression_state [simp]: "ts_state (clear_suppression_for_detected_agent t p d) = ts_state t"
  by (auto simp: clear_suppression_for_detected_agent_def Let_def foldl_state case_prod_beta
      split: option.splits)

lemma record_detection_state [simp]: "ts_state (record_detection t a st vb ex rep now) = ts_state t"
  by (auto simp: record_detection_def Let_def split: option.splits)

lemma exit_sessions_state [simp]: "ts_state (exit_sessions t a nc now) = ts_state t"
  by (auto simp: exit_sessions_def Let_def split: option.splits)

lemma process_exit_state [simp]: "ts_state (process_exit t a nc now) = ts_state t"
  by (simp add: process_exit_def)

lemma drop_conflicting_state [simp]: "ts_state (drop_conflicting_authority t a p now clk) = ts_state t"
  by (simp add: drop_conflicting_authority_def Let_def)

lemma publish_settled: "ts_state before = ts_state t \<Longrightarrow> state_settled (fst (publish before t now b))"
  by (simp add: publish_def recompute_settled split: prod.splits) (metis capture_simps(1) fst_conv recompute_settled)

lemma accept_hook_authority_settled: "state_settled (fst (accept_hook_authority t s l st m r re tk now clk))"
  by (simp add: accept_hook_authority_def Let_def publish_settled)

lemma set_hook_authority_settled:
  "state_settled t \<Longrightarrow> state_settled (fst (set_hook_authority_at t s l st m r q now clk))"
proof -
  assume t: "state_settled t"
  have route: "state_settled t1" if "route_full_lifecycle_hook_report t s l st m r q now = (t1, x)" for t1 x
    using bookkeeping_settled [OF route_book t] that by (metis fst_conv)
  have gate: "state_settled u" if "accept_hook_report v s q = (u, b)" "state_settled v" for u v b
    using bookkeeping_settled [OF accept_hook_report_book that(2)] that(1) by (metis fst_conv)
  have drop: "state_settled (u\<lparr>ts_hook_report_sequences := x\<rparr>)" if "state_settled u" for u x
    using that by (rule bookkeeping_settled [rotated]) (simp add: bookkeeping_def same_arbitration_def)
  show ?thesis
    using t by (auto simp: set_hook_authority_at_def Let_def accept_hook_authority_settled
        dest: route intro: gate drop split: prod.splits hook_report_route.splits bool.splits)
qed

lemma start_session_generation_settled:
  "state_settled t \<Longrightarrow> state_settled (fst (start_session_generation t s l r q st now))"
proof -
  assume t: "state_settled t"
  have book: "bookkeeping ((announce_replacement_session t s l r now)\<lparr>ts_hook_report_sequences := x\<rparr>) t" for x
    using announce_book [of t s l r now] by (simp add: bookkeeping_def same_arbitration_def)
  show ?thesis
    using t bookkeeping_settled [OF book t]
    by (auto simp: start_session_generation_def Let_def publish_settled split: option.splits)
qed

lemma adopt_session_ref_settled: "state_settled (fst (adopt_session_ref t s l r st tk now clk))"
  by (simp add: adopt_session_ref_def Let_def publish_settled split: option.splits)

lemma set_agent_session_ref_settled:
  "state_settled t \<Longrightarrow> state_settled (fst (set_agent_session_ref_for_session_start t s l r q st now clk))"
proof -
  assume t: "state_settled t"
  have gate: "state_settled u" if "accept_hook_report t s q = (u, b)" for u b
    using bookkeeping_settled [OF accept_hook_report_book t] that by (metis fst_conv)
  show ?thesis
    using t by (auto simp: set_agent_session_ref_for_session_start_def Let_def adopt_session_ref_settled
        start_session_generation_settled intro: gate split: option.splits prod.splits bool.splits)
qed

lemma clear_hook_authority_settled:
  "state_settled t \<Longrightarrow> state_settled (fst (clear_hook_authority_with_mutation t s q now clk))"
proof -
  assume t: "state_settled t"
  have gate: "bookkeeping u t" if "accept_hook_report t s' q = (u, b)" for u b s'
    using accept_hook_report_book [of t s' q] that by simp
  have fin: "state_settled t3" if "recompute_effective_state u (capture v now) now = (t3, c)" "ts_state v = ts_state u" for u v t3 c
    using recompute_settled [of "capture v now" u now] that by simp
  show ?thesis
    using t by (auto simp: clear_hook_authority_with_mutation_def Let_def
        split: option.splits prod.splits bool.splits intro: fin bookkeeping_settled [OF gate])
qed

lemma release_agent_settled:
  "state_settled t \<Longrightarrow> state_settled (fst (release_agent_with_mutation t s l q now clk))"
proof -
  assume t: "state_settled t"
  have gate: "state_settled u" if "accept_hook_report t s q = (u, b)" for u b
    using bookkeeping_settled [OF accept_hook_report_book t] that by (metis fst_conv)
  show ?thesis
    using t by (auto simp: release_agent_with_mutation_def Let_def publish_settled intro: gate
        split: prod.splits bool.splits)
qed

lemma set_detected_state_settled:
  "state_settled t \<Longrightarrow> state_settled (fst (set_detected_state_with_screen_signals_at t a st vb vi vw ex now clk))"
proof -
  assume t: "state_settled t"
  have fin: "state_settled u'" if "recompute_effective_state u (capture t now) now = (u', c)" "ts_state u = ts_state t" for u u' c
    using recompute_settled [of "capture t now" u now] that by simp
  show ?thesis
    by (auto simp: set_detected_state_with_screen_signals_at_def Let_def split: prod.splits intro: fin)
qed

lemma clear_hidden_book: "bookkeeping (clear_expiry_pending_for_hidden_metadata t) t"
  by (simp add: bookkeeping_def) (simp add: clear_expiry_pending_for_hidden_metadata_def)

lemma drop_expired_book: "bookkeeping (drop_expired_metadata t s now) t"
  by (simp add: drop_expired_metadata_def bookkeeping_def same_arbitration_def)

lemma store_metadata_book: "bookkeeping (store_metadata t r now) t"
  by (simp add: store_metadata_def Let_def bookkeeping_def same_arbitration_def)

lemma set_agent_metadata_settled:
  "state_settled t \<Longrightarrow> state_settled (fst (set_agent_metadata t r now))"
proof -
  assume t: "state_settled t"
  let ?acc = "accept_metadata_report t (mr_source r) (mr_seq r) False
    (metadata_report_agent (mr_source r) (mr_agent_label r) (mr_applies_to_source r))"
  have gate: "state_settled u" if "?acc = (u, b)" for u b
    using bookkeeping_settled [OF accept_metadata_book t] that by (metis fst_conv)
  have "ts_state (store_metadata u r now) = ts_state u" for u
    by (rule book_state [OF store_metadata_book])
  then have fin: "state_settled t3" if "recompute_effective_state (store_metadata u r now) (capture u now) now = (t3, c)" for u t3 c
    using recompute_settled [of "capture u now" "store_metadata u r now" now] that by simp
  show ?thesis
    using t by (auto simp: set_agent_metadata_def Let_def split: prod.splits sum.splits bool.splits
        intro: gate fin bookkeeping_settled [OF clear_hidden_book])
qed

lemma expire_agent_metadata_settled:
  "state_settled t \<Longrightarrow> state_settled (fst (expire_agent_metadata_at t sched now))"
proof -
  assume t: "state_settled t"
  let ?drop = "\<lambda>u source. u\<lparr>ts_agent_metadata := hm_remove (ts_agent_metadata u) source\<rparr>"
  have drop: "bookkeeping (foldl ?drop u xs) u" for u and xs :: "rstr list"
    by (rule bookkeeping_foldl) (simp add: bookkeeping_def same_arbitration_def)
  have fin: "state_settled t3" if "recompute_effective_state u (v\<lparr>pe_presentation := x\<rparr>) now = (t3, c)" "pe_state v = ts_state u" for u v t3 x c
    using recompute_settled [of "v\<lparr>pe_presentation := x\<rparr>" u now] that by simp
  show ?thesis
    using t by (auto simp: expire_agent_metadata_at_def Let_def book_state [OF drop] split: prod.splits
        intro: fin bookkeeping_settled [OF drop])
qed

subsection \<open>Steps\<close>

inductive terminal_step :: "terminal_state \<Rightarrow> terminal_state \<Rightarrow> bool" where
  title: "terminal_step t (fst (set_terminal_title t x))"
| launch_argv: "terminal_step t (with_launch_argv t argv)"
| respawn_shell: "terminal_step t (with_respawn_shell_on_exit t)"
| resume_plan: "terminal_step t (with_pending_agent_resume_plan t p)"
| detected: "terminal_step t (fst (set_detected_state_with_screen_signals_at t a st vb vi vw ex now clk))"
| hook_report: "terminal_step t (fst (set_hook_authority_at t s l st m r q now clk))"
| session_start: "terminal_step t (fst (set_agent_session_ref_for_session_start t s l r q start now clk))"
| persisted: "terminal_step t (set_persisted_agent_session t ps)"
| clear_hook: "terminal_step t (fst (clear_hook_authority_with_mutation t src q now clk))"
| release: "terminal_step t (fst (release_agent_with_mutation t s l q now clk))"
| manual_label: "terminal_step t (set_manual_label t l)"
| no_manual_label: "terminal_step t (clear_manual_label t)"
| name: "terminal_step t (set_agent_name t n)"
| no_name: "terminal_step t (clear_agent_name t)"
| begin_managed: "terminal_step t (begin_managed_agent t n k now d d')"
| restore_managed: "terminal_step t (restore_managed_agent t n k)"
| reconcile_managed: "terminal_step t (fst (reconcile_managed_agent_at t now ex))"
| respawn: "terminal_step t (clear_agent_runtime_identity_after_respawn t)"
| accept_metadata: "terminal_step t (fst (accept_metadata_report t s q b oa))"
| metadata: "terminal_step t (fst (set_agent_metadata t rep now))"
| expire: "terminal_step t (fst (expire_agent_metadata_at t sched now))"
| patch_tokens: "terminal_step t (t\<lparr>ts_metadata_tokens := fst (tokens_patch (ts_metadata_tokens t) p ttl now)\<rparr>)"
| expire_tokens: "terminal_step t (t\<lparr>ts_metadata_tokens := fst (tokens_expire_at (ts_metadata_tokens t) now)\<rparr>)"

inductive terminal_reachable :: "terminal_state \<Rightarrow> bool" where
  start: "terminal_reachable (terminal_new i cwd)"
| step: "terminal_reachable t \<Longrightarrow> terminal_step t t' \<Longrightarrow> terminal_reachable t'"

inductive_cases terminal_stepE: "terminal_step t t'"

lemma terminal_new_settled: "state_settled (terminal_new i cwd)"
  by (simp add: state_settled_def terminal_new_def effective_state_def visible_blocker_overrides_hook_def)

lemma respawn_settled: "state_settled (clear_agent_runtime_identity_after_respawn t)"
  by (simp add: state_settled_def clear_agent_runtime_identity_after_respawn_def clear_agent_name_def
      effective_state_def visible_blocker_overrides_hook_def)

lemma plain_updates_book:
  "bookkeeping (with_launch_argv t argv) t" "bookkeeping (with_respawn_shell_on_exit t) t"
  "bookkeeping (with_pending_agent_resume_plan t p) t" "bookkeeping (set_persisted_agent_session t ps) t"
  "bookkeeping (t\<lparr>ts_metadata_tokens := x\<rparr>) t"
  by (simp_all add: with_launch_argv_def with_respawn_shell_on_exit_def with_pending_agent_resume_plan_def
      set_persisted_agent_session_def bookkeeping_def same_arbitration_def)

lemma terminal_step_settled: "terminal_step t t' \<Longrightarrow> state_settled t \<Longrightarrow> state_settled t'"
  by (induction rule: terminal_step.induct)
     (auto intro: set_detected_state_settled set_hook_authority_settled set_agent_session_ref_settled
       clear_hook_authority_settled release_agent_settled respawn_settled set_agent_metadata_settled
       expire_agent_metadata_settled book [THEN bookkeeping_settled] plain_updates_book [THEN bookkeeping_settled])

lemma terminal_reachable_settled: "terminal_reachable t \<Longrightarrow> state_settled t"
  by (induction rule: terminal_reachable.induct) (auto intro: terminal_new_settled terminal_step_settled)

end
