(* ===== verification/TerminalAuthority.thy ===== *)
theory TerminalAuthority
  imports TerminalSteps
begin

section \<open>Who may own the state of a terminal\<close>

text \<open>
  The second invariant of the reachable terminals: an integration that only reports the
  session identity is never the hook authority, and what waits on a suppressed entry is a
  lifecycle report of the entry's own source that names a session.
\<close>

definition pending_ok :: "rstr \<times> suppressed_hook_report \<Rightarrow> bool" where
  "pending_ok ssu = is_none_or (\<lambda>p. ha_source (pr_authority p) = fst ssu
     \<and> full_lifecycle_hook_authority (fst ssu) (ha_agent_label (pr_authority p))
     \<and> ha_session_ref (pr_authority p) \<noteq> None) (su_pending (snd ssu))"

definition authority_ok :: "terminal_state \<Rightarrow> bool" where
  "authority_ok t \<longleftrightarrow>
     is_none_or (\<lambda>a. \<not> session_identity_only_integration (ha_source a) (ha_agent_label a)) (ts_hook_authority t)
     \<and> list_all pending_ok (ts_suppressed t)"

text \<open>The authority and the waiting reports of the first terminal come from the second.\<close>

definition authority_from :: "terminal_state \<Rightarrow> terminal_state \<Rightarrow> bool" where
  "authority_from t u \<longleftrightarrow> (ts_hook_authority t = ts_hook_authority u \<or> ts_hook_authority t = None)
     \<and> (\<forall>s su. (s, su) \<in> set (ts_suppressed t) \<longrightarrow> su_pending su = None
        \<or> (\<exists>su'. (s, su') \<in> set (ts_suppressed u) \<and> su_pending su' = su_pending su))"

lemma authority_from_ok: "authority_from t u \<Longrightarrow> authority_ok u \<Longrightarrow> authority_ok t"
  by (fastforce simp: authority_from_def authority_ok_def pending_ok_def list_all_iff)

lemma authority_from_refl [simp]: "authority_from t t"
  by (auto simp: authority_from_def)

lemma authority_from_trans: "authority_from t u \<Longrightarrow> authority_from u v \<Longrightarrow> authority_from t v"
  unfolding authority_from_def by metis

lemma authority_from_same:
  "ts_hook_authority t = ts_hook_authority u \<or> ts_hook_authority t = None \<Longrightarrow>
   set (ts_suppressed t) \<subseteq> set (ts_suppressed u) \<Longrightarrow> authority_from t u"
  by (auto simp: authority_from_def)

lemma authority_from_foldl:
  "(\<And>u x. authority_from (f u x) u) \<Longrightarrow> authority_from (foldl f t xs) t"
proof (induction xs arbitrary: t)
  case Nil
  then show ?case by simp
next
  case (Cons x xs)
  show ?case
    using authority_from_trans [OF Cons.IH [OF Cons.prems] Cons.prems [of t x]] by simp
qed

lemma set_hm_insert: "set (hm_insert m k v) \<subseteq> insert (k, v) (set m)"
  by (induction m) auto

lemma set_hm_remove: "set (hm_remove m k) \<subseteq> set m"
  by (simp add: AList.delete_eq filter_is_subset)

named_theorems auth \<open>operations that bring in no authority\<close>

lemma simple_auth [auth]:
  "authority_from (reconcile_agent_name_owner t l r) t"
  "authority_from (clear_agent_name t) t"
  "authority_from (set_agent_name t n) t"
  "authority_from (set_manual_label t l) t"
  "authority_from (clear_manual_label t) t"
  "authority_from (fst (set_terminal_title t x)) t"
  "authority_from (remember_stale_session t s l r0) t"
  "authority_from (forget_stale_session t s l r0) t"
  "authority_from (fst (accept_hook_report t s q)) t"
  "authority_from (fst (accept_metadata_report t s q b oa)) t"
  "authority_from (store_metadata t rep now) t"
  "authority_from (drop_expired_metadata t s now) t"
  "authority_from (clear_expiry_pending_for_hidden_metadata t) t"
  "authority_from (with_launch_argv t argv) t" "authority_from (with_respawn_shell_on_exit t) t"
  "authority_from (with_pending_agent_resume_plan t p) t" "authority_from (set_persisted_agent_session t ps) t"
  "authority_from (begin_managed_agent t n k now d d') t"
  "authority_from (restore_managed_agent t n k) t"
  "authority_from (fst (reconcile_managed_agent_at t now ex)) t"
  by (rule authority_from_same;
      simp add: reconcile_agent_name_owner_def clear_agent_name_def set_agent_name_def set_manual_label_def
        clear_manual_label_def set_terminal_title_def remember_stale_session_def forget_stale_session_def
        accept_hook_report_def accept_metadata_report_def store_metadata_def drop_expired_metadata_def
        clear_expiry_pending_for_hidden_metadata_def with_launch_argv_def with_respawn_shell_on_exit_def
        with_pending_agent_resume_plan_def set_persisted_agent_session_def begin_managed_agent_def
        restore_managed_agent_def reconcile_managed_agent_at_def set_managed_phase_def Let_def
      split: option.split managed_agent_phase.split)+

lemma suppress_auth [auth]:
  "authority_from (suppress_with_session_ref t s l r why at) t"
  "authority_from (suppress_current_full_lifecycle_hook_authority t why at) t"
  "authority_from (suppress_full_lifecycle_hook_report t s l why at) t"
proof -
  show s: "authority_from (suppress_with_session_ref t s l r why at) t" for s l r
    using set_hm_insert by (fastforce simp: authority_from_def suppress_with_session_ref_def)
  show "authority_from (suppress_current_full_lifecycle_hook_authority t why at) t"
    "authority_from (suppress_full_lifecycle_hook_report t s l why at) t"
    by (auto simp: suppress_current_full_lifecycle_hook_authority_def suppress_full_lifecycle_hook_report_def
        intro: s split: option.splits)
qed

lemma drop_suppressed_auth [auth]: "authority_from (drop_suppressed_entry t s) t"
proof -
  have "authority_from (t\<lparr>ts_suppressed := hm_remove (ts_suppressed t) s\<rparr>) t"
    using set_hm_remove [of s "ts_suppressed t"] by (intro authority_from_same) simp_all
  then show ?thesis
    by (auto simp: drop_suppressed_entry_def Let_def intro: authority_from_trans simple_auth split: option.splits)
qed

lemma announce_auth [auth]: "authority_from (announce_replacement_session t s l r now) t"
proof -
  let ?su = "case hm_get (ts_suppressed t) s of Some su \<Rightarrow> su
    | None \<Rightarrow> \<lparr>su_agent_label = l, su_session_ref = None, su_observed_at = now,
         su_reason = ProcessExit, su_replacement_session_ref = None, su_pending = None\<rparr>"
  have "su_pending ?su = None \<or> (s, ?su) \<in> set (ts_suppressed t)"
    by (auto split: option.splits dest: map_of_SomeD)
  then show ?thesis
    using set_hm_insert [of s _ "ts_suppressed t"]
    by (fastforce simp: authority_from_def announce_replacement_session_def Let_def opt_filter_def
        split: option.splits)
qed

lemma exit_suppressed_auth [auth]: "authority_from (exit_suppressed_reports t a now) t"
proof -
  have 1: "authority_from (t\<lparr>ts_suppressed := map (\<lambda>(source, s). (source,
                 if exit_gates a s
                 then s\<lparr>su_replacement_session_ref := None, su_session_ref := exited_session_ref s,
                        su_pending := None, su_observed_at := now\<rparr>
                 else s)) (ts_suppressed t)\<rparr>) t"
    by (force simp: authority_from_def)
  have 2: "authority_from (u\<lparr>ts_hook_report_sequences := x\<rparr>) u" for u x
    by (simp add: authority_from_same)
  show ?thesis
    unfolding exit_suppressed_reports_def Let_def
    by (rule authority_from_trans, rule authority_from_foldl, rule 2,
        rule authority_from_trans, rule authority_from_foldl, auto simp: case_prod_beta intro: simple_auth 1)
qed

lemma exit_sessions_auth [auth]: "authority_from (exit_sessions t a nc now) t"
proof -
  have 1: "authority_from (suppress_with_session_ref (t\<lparr>ts_hook_report_sequences := x\<rparr>) s l r why now) t" for x s l r why
    by (rule authority_from_trans [OF suppress_auth(1)]) (simp add: authority_from_same)
  have 2: "authority_from (u\<lparr>ts_hook_report_sequences := x, ts_hook_authority := None\<rparr>) u" for u x
    by (simp add: authority_from_same)
  have 3: "authority_from (u\<lparr>ts_persisted_agent_session := None\<rparr>) u" for u
    by (simp add: authority_from_same)
  have 4: "authority_from (u\<lparr>ts_hook_report_sequences := x, ts_hook_authority := None, ts_persisted_agent_session := None\<rparr>) u" for u x
    by (simp add: authority_from_same)
  show ?thesis
    by (auto simp: exit_sessions_def Let_def split: option.splits
        intro: 1 2 3 4 authority_from_trans [OF 2] authority_from_trans [OF 3] authority_from_trans [OF 4])
qed

lemma exit_metadata_auth [auth]: "authority_from (exit_metadata t a now) t"
proof (cases a)
  case None
  then show ?thesis by (simp add: exit_metadata_def)
next
  case (Some a')
  have 1: "authority_from (forget_metadata_source u s) u" for u s
    by (simp add: forget_metadata_source_def authority_from_same)
  have 2: "authority_from (u\<lparr>ts_metadata_report_agents := x\<rparr>) u" for u x
    by (simp add: authority_from_same)
  have 3: "authority_from (u\<lparr>ts_agent_metadata := x\<rparr>) u" for u x
    by (simp add: authority_from_same)
  show ?thesis
    unfolding exit_metadata_def Let_def Some option.case
    by (rule authority_from_trans, rule authority_from_foldl, rule 1, rule authority_from_trans, rule 2,
        rule authority_from_trans, rule authority_from_foldl, rule authority_from_trans, rule 2, rule 1, rule 3)
qed

lemma process_exit_auth [auth]: "authority_from (process_exit t a nc now) t"
  unfolding process_exit_def by (blast intro: authority_from_trans auth)

lemma drop_conflicting_auth [auth]: "authority_from (drop_conflicting_authority t a p now clk) t"
proof -
  have "authority_from (u\<lparr>ts_hook_authority := None, ts_persisted_agent_session := x\<rparr>) u" for u x
    by (simp add: authority_from_same)
  from authority_from_trans [OF this suppress_auth(2)] show ?thesis
    by (simp add: drop_conflicting_authority_def Let_def)
qed

lemma recompute_auth [auth]: "authority_from (fst (recompute_effective_state t prev now)) t"
  by (rule authority_from_same) simp_all

lemma publish_auth [auth]: "authority_from (fst (publish b t now rel)) t"
  using recompute_auth [of t "capture b now" now] by (simp add: publish_def split: prod.splits) (metis fst_conv)

lemma full_lifecycle_not_identity_only:
  "full_lifecycle_hook_authority s l \<Longrightarrow> \<not> session_identity_only_integration s l"
  using official_disjoint by blast

lemma queue_pending_ok:
  assumes "authority_ok t" "full_lifecycle_hook_authority (ha_source a) (ha_agent_label a)" "ha_session_ref a \<noteq> None"
  shows "authority_ok (queue_pending_report t a q)"
proof -
  let ?m = "ts_suppressed t" and ?s = "ha_source a"
  have new: "pending_ok (?s, su\<lparr>su_pending := Some \<lparr>pr_authority = a, pr_seq = q\<rparr>\<rparr>)" for su
    using assms by (simp add: pending_ok_def)
  have old: "pending_ok (?s, su)" if "hm_get ?m ?s = Some su" for su
    using assms(1) that by (auto simp: authority_ok_def list_all_iff dest: map_of_SomeD)
  have "list_all pending_ok (hm_insert ?m ?s x)" if "pending_ok (?s, x)" for x
    using assms(1) that set_hm_insert [of ?s x ?m] by (auto simp: authority_ok_def list_all_iff)
  then show ?thesis
    using assms(1) new old
    by (auto simp: queue_pending_report_def Let_def authority_ok_def pending_ok_def split: option.splits)
qed

lemma route_ok:
  "authority_ok t \<Longrightarrow> authority_ok (fst (route_full_lifecycle_hook_report t s l st m r q now))"
  by (auto simp: route_full_lifecycle_hook_report_def route_unanchored_hook_report_def
      intro!: queue_pending_ok split: option.splits)

lemma accept_hook_authority_ok:
  assumes "authority_ok t" "\<not> session_identity_only_integration s l"
  shows "authority_ok (fst (accept_hook_authority t s l st m r re tk now clk))"
proof -
  let ?a = "\<lparr>ha_source = s, ha_agent_label = l, ha_state = st, ha_message = m, ha_reported_at = now, ha_session_ref = r\<rparr>"
  have new: "authority_ok (u\<lparr>ts_persisted_agent_session := None, ts_hook_authority := Some ?a\<rparr>)" if "authority_ok u" for u
    using that assms(2) by (simp add: authority_ok_def)
  have "authority_ok (if tk then suppress_current_full_lifecycle_hook_authority (reconcile_agent_name_owner t l r) HookClear clk
      else reconcile_agent_name_owner t l r)"
    using assms(1) by (auto intro: authority_from_ok authority_from_trans auth)
  then have "authority_ok (if c then drop_suppressed_entry (if tk
      then suppress_current_full_lifecycle_hook_authority (reconcile_agent_name_owner t l r) HookClear clk
      else reconcile_agent_name_owner t l r) s else (if tk
      then suppress_current_full_lifecycle_hook_authority (reconcile_agent_name_owner t l r) HookClear clk
      else reconcile_agent_name_owner t l r))" for c
    by (auto intro: authority_from_ok auth)
  from authority_from_ok [OF publish_auth new [OF this]] show ?thesis
    by (simp add: accept_hook_authority_def Let_def)
qed

lemma set_hook_authority_ok:
  "authority_ok t \<Longrightarrow> authority_ok (fst (set_hook_authority_at t s l st m r q now clk))"
proof -
  assume t: "authority_ok t"
  have route: "authority_ok t1" if "route_full_lifecycle_hook_report t s l st m r q now = (t1, x)" for t1 x
    using route_ok [OF t] that by (metis fst_conv)
  have gate: "authority_ok u" if "accept_hook_report v s q = (u, b)" "authority_ok v" for u v b
    using authority_from_ok [OF simple_auth(9) that(2)] that(1) by (metis fst_conv)
  have drop: "authority_ok (u\<lparr>ts_hook_report_sequences := x\<rparr>)" if "authority_ok u" for u x
    using that by (simp add: authority_ok_def)
  show ?thesis
    using t by (auto simp: set_hook_authority_at_def Let_def accept_hook_authority_ok
        dest: route intro: gate drop intro!: accept_hook_authority_ok
        split: prod.splits hook_report_route.splits bool.splits)
qed

lemma adopt_replacement_ok:
  assumes "authority_ok t"
    and "\<And>p. snd (snd (snd v)) = Some p \<Longrightarrow>
      \<not> session_identity_only_integration (ha_source (pr_authority p)) (ha_agent_label (pr_authority p))"
  shows "authority_ok (adopt_replacement t v)"
proof -
  obtain s l r p where v: "v = (s, l, r, p)" by (cases v)
  have "authority_ok (reconcile_agent_name_owner (forget_stale_session t s l r) l (Some r))"
    using assms(1) by (blast intro: authority_from_ok auth)
  then show ?thesis
    using assms(2) v by (auto simp: adopt_replacement_def Let_def authority_ok_def split: option.splits)
qed

lemma adopt_replacements_ok:
  assumes "authority_ok t"
    and "\<forall>v \<in> set vs. \<forall>p. snd (snd (snd v)) = Some p \<longrightarrow>
      \<not> session_identity_only_integration (ha_source (pr_authority p)) (ha_agent_label (pr_authority p))"
  shows "authority_ok (foldl adopt_replacement t vs)"
  using assms by (induction vs arbitrary: t) (auto intro: adopt_replacement_ok)

lemma validated_replacement_ok:
  assumes "authority_ok t" "v \<in> set (List.map_filter (validated_replacement d sq) (ts_suppressed t))"
    and "snd (snd (snd v)) = Some p"
  shows "\<not> session_identity_only_integration (ha_source (pr_authority p)) (ha_agent_label (pr_authority p))"
proof -
  from assms(2) obtain s su where su: "(s, su) \<in> set (ts_suppressed t)" "validated_replacement d sq (s, su) = Some v"
    by (auto simp: List.map_filter_def)
  with assms(3) have "su_pending su = Some p"
    by (auto simp: validated_replacement_def opt_filter_Some_iff split: if_splits)
  with su(1) assms(1) have "full_lifecycle_hook_authority (ha_source (pr_authority p)) (ha_agent_label (pr_authority p))"
    by (auto simp: authority_ok_def list_all_iff pending_ok_def dest: bspec)
  then show ?thesis by (rule full_lifecycle_not_identity_only)
qed

lemma clear_suppression_ok:
  assumes "authority_ok t"
  shows "authority_ok (clear_suppression_for_detected_agent t p d)"
proof -
  have from1: "authority_from (foldl (\<lambda>u (source, label, r). remember_stale_session u source label r)
      (t\<lparr>ts_suppressed := hm_retain (\<lambda>_. keep_suppressed d') (ts_suppressed t)\<rparr>) xs) t" for d' xs
    by (rule authority_from_trans [OF authority_from_foldl])
       (auto simp: case_prod_beta intro: simple_auth authority_from_same)
  have seqs: "authority_ok (u\<lparr>ts_hook_report_sequences := x\<rparr>)" if "authority_ok u" for u x
    using that by (simp add: authority_ok_def)
  show ?thesis
    using assms validated_replacement_ok [OF assms]
    by (auto simp: clear_suppression_for_detected_agent_def Let_def split: option.splits
        intro!: adopt_replacements_ok seqs authority_from_ok [OF from1])
qed

lemma start_session_generation_ok:
  "authority_ok t \<Longrightarrow> authority_ok (fst (start_session_generation t s l r q st now))"
proof -
  assume t: "authority_ok t"
  have "authority_ok ((announce_replacement_session t s l r now)\<lparr>ts_hook_report_sequences := x\<rparr>)" for x
    using authority_from_ok [OF announce_auth t] by (simp add: authority_ok_def)
  then show ?thesis
    using t by (auto simp: start_session_generation_def Let_def split: option.splits
        intro: authority_from_ok [OF publish_auth clear_suppression_ok])
qed

lemma adopt_session_ref_auth: "authority_from (fst (adopt_session_ref t s l r st tk now clk)) t"
proof -
  have none: "authority_from (u\<lparr>ts_hook_authority := None\<rparr>) u" for u
    by (simp add: authority_from_same)
  have pers: "authority_from (u\<lparr>ts_persisted_agent_session := x\<rparr>) u" for u x
    by (simp add: authority_from_same)
  show ?thesis
    unfolding adopt_session_ref_def Let_def
    by (rule authority_from_trans [OF publish_auth], rule authority_from_trans [OF pers],
        rule authority_from_trans [OF simple_auth(1)])
       (auto split: option.splits intro: none simple_auth suppress_auth authority_from_trans [OF none]
         authority_from_trans [OF simple_auth(7)] authority_from_trans [OF suppress_auth(2)]
         authority_from_trans [OF none authority_from_trans [OF simple_auth(7)]]
         authority_from_trans [OF none authority_from_trans [OF suppress_auth(2)]])
qed

lemma set_agent_session_ref_ok:
  "authority_ok t \<Longrightarrow> authority_ok (fst (set_agent_session_ref_for_session_start t s l r q st now clk))"
proof -
  assume t: "authority_ok t"
  have gate: "authority_ok u" if "accept_hook_report t s q = (u, b)" for u b
    using authority_from_ok [OF simple_auth(9) t] that by (metis fst_conv)
  show ?thesis
    using t by (auto simp: set_agent_session_ref_for_session_start_def Let_def
        intro: gate start_session_generation_ok authority_from_ok [OF adopt_session_ref_auth]
        split: option.splits prod.splits bool.splits)
qed

lemma clear_hook_authority_ok:
  "authority_ok t \<Longrightarrow> authority_ok (fst (clear_hook_authority_with_mutation t s q now clk))"
proof -
  assume t: "authority_ok t"
  have gate: "authority_ok u" if "accept_hook_report t s' q = (u, b)" for u b s'
    using authority_from_ok [OF simple_auth(9) t] that by (metis fst_conv)
  have none: "authority_from (u\<lparr>ts_hook_authority := None, ts_persisted_agent_session := x\<rparr>) u" for u x
    by (simp add: authority_from_same)
  have fin: "authority_ok t3" if "recompute_effective_state ((suppress_current_full_lifecycle_hook_authority u HookClear clk)
      \<lparr>ts_hook_authority := None, ts_persisted_agent_session := x\<rparr>) pv now = (t3, c)" "authority_ok u" for u x pv t3 c
    using authority_from_ok [OF authority_from_trans [OF recompute_auth authority_from_trans [OF none suppress_auth(2)]] that(2)]
      that(1) by (metis fst_conv)
  show ?thesis
    using t by (auto simp: clear_hook_authority_with_mutation_def Let_def
        split: option.splits prod.splits bool.splits intro: fin gate)
qed

lemma release_agent_ok:
  "authority_ok t \<Longrightarrow> authority_ok (fst (release_agent_with_mutation t s l q now clk))"
proof -
  assume t: "authority_ok t"
  have gate: "authority_ok u" if "accept_hook_report t s q = (u, b)" for u b
    using authority_from_ok [OF simple_auth(9) t] that by (metis fst_conv)
  have none: "authority_from (u\<lparr>ts_hook_authority := None, ts_persisted_agent_session := x\<rparr>) u" for u x
    by (simp add: authority_from_same)
  have det: "authority_from (clear_agent_name (u\<lparr>ts_detected_agent := None, ts_fallback_state := Unknown,
      ts_fallback_visible_blocker := False, ts_fallback_observed_at := None\<rparr>)) u" for u
    by (rule authority_from_trans [OF simple_auth(2)]) (simp add: authority_from_same)
  have none1: "authority_from (u\<lparr>ts_hook_authority := None\<rparr>) u" for u
    by (simp add: authority_from_same)
  note pub = authority_from_ok [OF authority_from_trans [OF publish_auth]]
  note sup = authority_from_trans [OF _ suppress_auth(3)] and supd = authority_from_trans [OF _ authority_from_trans [OF det suppress_auth(3)]]
  show ?thesis
    using t by (auto simp: release_agent_with_mutation_def Let_def split: prod.splits bool.splits
        intro: gate pub [OF sup [OF none]] pub [OF sup [OF none1]] pub [OF supd [OF none]] pub [OF supd [OF none1]])
qed

lemma record_detection_ok:
  assumes "authority_ok t"
  shows "authority_ok (record_detection t a st vb ex rep now)"
proof -
  have upd: "authority_ok (u\<lparr>ts_fallback_state := x, ts_fallback_visible_blocker := y, ts_fallback_observed_at := z\<rparr>)"
    "authority_ok (u\<lparr>ts_fallback_state := x, ts_fallback_visible_blocker := y, ts_fallback_observed_at := z,
       ts_recent_agent_process_exit := e\<rparr>)" "authority_ok (u\<lparr>ts_detected_agent := d\<rparr>)"
    if "authority_ok u" for u x y z e d
    using that by (simp_all add: authority_ok_def)
  have "authority_ok (case a of Some b \<Rightarrow> reconcile_agent_name_owner (t\<lparr>ts_detected_agent := a\<rparr>) (agent_label b) None
      | None \<Rightarrow> t\<lparr>ts_detected_agent := a\<rparr>)"
    using upd(3) [OF assms] by (auto split: option.splits intro: authority_from_ok [OF simple_auth(1)])
  then show ?thesis
    by (auto simp: record_detection_def Let_def split: option.splits intro!: upd clear_suppression_ok)
qed

lemma authority_ok_if:
  "(b \<Longrightarrow> authority_ok t) \<Longrightarrow> (\<not> b \<Longrightarrow> authority_ok u) \<Longrightarrow> authority_ok (if b then t else u)"
  "(b \<Longrightarrow> authority_ok (fst p)) \<Longrightarrow> (\<not> b \<Longrightarrow> authority_ok (fst q)) \<Longrightarrow> authority_ok (fst (if b then p else q))"
  by simp_all

lemma authority_ok_recompute:
  "authority_ok t
    \<Longrightarrow> authority_ok (fst (case recompute_effective_state t pv now of (u, c) \<Rightarrow> (u, f u c)))"
  using authority_from_ok [OF recompute_auth] by (simp add: case_prod_beta)

lemma set_detected_state_ok:
  assumes "authority_ok t"
  shows "authority_ok (fst (set_detected_state_with_screen_signals_at t a st vb vi vw ex now clk))"
proof -
  have det: "authority_ok (t\<lparr>ts_detected_agent := d\<rparr>)" for d
    using assms by (simp add: authority_ok_def)
  show ?thesis
    unfolding set_detected_state_with_screen_signals_at_def Let_def
    by (intro authority_ok_if authority_ok_recompute det assms record_detection_ok
        authority_from_ok [OF simple_auth(2)] authority_from_ok [OF drop_conflicting_auth]
        authority_from_ok [OF process_exit_auth])
qed

lemma set_agent_metadata_ok: "authority_ok t \<Longrightarrow> authority_ok (fst (set_agent_metadata t r now))"
proof -
  assume t: "authority_ok t"
  let ?acc = "accept_metadata_report t (mr_source r) (mr_seq r) False
    (metadata_report_agent (mr_source r) (mr_agent_label r) (mr_applies_to_source r))"
  have gate: "authority_ok u" if "?acc = (u, b)" for u b
    using authority_from_ok [OF simple_auth(10) t] that by (metis fst_conv)
  have fin: "authority_ok t3" if "recompute_effective_state (store_metadata (drop_expired_metadata u s now) r now) pv now = (t3, c)"
      "authority_ok u" for u s pv t3 c
    using authority_from_ok [OF authority_from_trans [OF recompute_auth
        authority_from_trans [OF simple_auth(11) simple_auth(12)]] that(2)] that(1) by (metis fst_conv)
  show ?thesis
    using t by (auto simp: set_agent_metadata_def Let_def split: prod.splits sum.splits bool.splits
        intro: gate fin authority_from_ok [OF simple_auth(13)])
qed

lemma expire_agent_metadata_ok: "authority_ok t \<Longrightarrow> authority_ok (fst (expire_agent_metadata_at t sched now))"
proof -
  assume t: "authority_ok t"
  let ?drop = "\<lambda>u source. u\<lparr>ts_agent_metadata := hm_remove (ts_agent_metadata u) source\<rparr>"
  have drop: "authority_from (foldl ?drop u xs) u" for u and xs :: "rstr list"
    by (rule authority_from_foldl) (simp add: authority_from_same)
  have fin: "authority_ok (fst (recompute_effective_state (foldl ?drop (foldl ?drop t xs) ys) pv now))" for xs ys pv
    by (rule authority_from_ok [OF authority_from_trans [OF recompute_auth authority_from_trans [OF drop drop]] t])
  show ?thesis
    unfolding expire_agent_metadata_at_def Let_def case_prod_beta
    by (simp only: fst_conv if_distrib [of fst] split: if_split)
       (intro conjI impI authority_from_ok [OF drop t] fin)
qed

lemma respawn_auth: "authority_from (clear_agent_runtime_identity_after_respawn t) t"
  by (simp add: clear_agent_runtime_identity_after_respawn_def clear_agent_name_def authority_from_def)

lemma tokens_auth: "authority_from (t\<lparr>ts_metadata_tokens := x\<rparr>) t"
  by (simp add: authority_from_same)

lemma terminal_step_authority_ok: "terminal_step t t' \<Longrightarrow> authority_ok t \<Longrightarrow> authority_ok t'"
  by (induction rule: terminal_step.induct)
     (auto intro: set_detected_state_ok set_hook_authority_ok set_agent_session_ref_ok clear_hook_authority_ok
       release_agent_ok set_agent_metadata_ok expire_agent_metadata_ok
       simple_auth [THEN authority_from_ok] respawn_auth [THEN authority_from_ok] tokens_auth [THEN authority_from_ok])

lemma terminal_new_authority_ok: "authority_ok (terminal_new i cwd)"
  by (simp add: authority_ok_def terminal_new_def)

lemma terminal_reachable_authority_ok: "terminal_reachable t \<Longrightarrow> authority_ok t"
  by (induction rule: terminal_reachable.induct)
     (auto intro: terminal_step_authority_ok terminal_new_authority_ok)

end
