(* ===== verification/TerminalProps.thy ===== *)
theory TerminalProps
  imports TerminalAuthority
begin

section \<open>Properties of hook reports and detection\<close>

text \<open>What the terminal promises about its published state and about late, stale, cleared and
  replayed reports, each with a witness on a small terminal that runs pi.\<close>

definition pi_session :: "rstr \<Rightarrow> agent_session_ref" where
  "pi_session v = \<lparr>sr_kind = RefPath, sr_value = v\<rparr>"

definition pi_authority :: "agent_state \<Rightarrow> rstr \<Rightarrow> hook_authority" where
  "pi_authority st v = \<lparr>ha_source = ''herdr:pi'', ha_agent_label = ''pi'', ha_state = st,
     ha_message = None, ha_reported_at = 5, ha_session_ref = Some (pi_session v)\<rparr>"

definition demo_terminal :: terminal_state where
  "demo_terminal = (terminal_new ''term_1'' ''/'')\<lparr>ts_detected_agent := Some Pi,
     ts_hook_authority := Some (pi_authority Working ''/a''), ts_state := Working,
     ts_hook_report_sequences := [(''herdr:pi'', 20)]\<rparr>"

lemma parse_pi [simp]: "parse_agent_label ''pi'' = Some Pi"
  using parse_agent_label_inverse [of Pi] by simp

lemma lifecycle_pi [simp]: "full_lifecycle_hook_authority ''herdr:pi'' ''pi''"
  by (simp add: full_lifecycle_hook_authority_def)

lemma detected_reachable:
  "terminal_reachable (fst (set_detected_state_with_screen_signals_at (terminal_new i c) a st vb vi vw ex now clk))"
  by (rule terminal_reachable.step [OF terminal_reachable.start terminal_step.detected])

subsection \<open>The published state\<close>

text \<open>Property C2. In every reachable terminal the published state is the arbitrated one: a blocker
  visible on the screen wins over a custom hook, otherwise the effective hook decides, otherwise the
  screen; while a lifecycle hook is live nothing on the screen can override it.\<close>

theorem published_state_is_arbitrated:
  assumes "terminal_reachable t"
  shows "ts_state t =
      (if visible_blocker_overrides_hook t then Blocked
       else (case opt_filter (hook_authority_is_effective t) (ts_hook_authority t) of
               Some a \<Rightarrow> ha_state a | None \<Rightarrow> ts_fallback_state t))
    \<and> (live_full_lifecycle_hook_authority t \<longrightarrow> map_option ha_state (ts_hook_authority t) = Some (ts_state t))"
proof -
  have s: "ts_state t = effective_state t"
    using terminal_reachable_settled [OF assms] by (simp add: state_settled_def)
  moreover have "map_option ha_state (ts_hook_authority t) = Some (effective_state t)"
    if "live_full_lifecycle_hook_authority t"
    using that by (auto simp: effective_state_def visible_blocker_overrides_hook_def
        live_full_lifecycle_hook_authority_def is_some_and_iff)
  ultimately show ?thesis by (simp add: effective_state_def)
qed

theorem published_state_is_arbitrated_witness:
  "ts_state (fst (set_detected_state_with_screen_signals_at (terminal_new ''t'' ''/'') (Some Pi) Idle
      False False False False 3 3)) = Idle"
proof -
  let ?t = "fst (set_detected_state_with_screen_signals_at (terminal_new ''t'' ''/'') (Some Pi) Idle
      False False False False 3 3)"
  have h: "ts_hook_authority ?t = None" "ts_fallback_state ?t = Idle"
    by (simp_all add: set_detected_state_with_screen_signals_at_def Let_def terminal_new_def
        should_ignore_detected_state_under_full_lifecycle_hook_def live_full_lifecycle_hook_authority_def
        detected_state_observed_before_release_suppression_def record_detection_def
        clear_suppression_for_detected_agent_def reconcile_agent_name_owner_def drop_conflicting_authority_def
        hook_authority_conflicts_with_detected_agent_def List.map_filter_def case_prod_beta)
  from published_state_is_arbitrated [OF detected_reachable] h show ?thesis
    by (simp add: visible_blocker_overrides_hook_def)
qed

text \<open>Property C29. In every reachable terminal the hook authority never belongs to an integration
  that only reports the session identity, and a report waiting for a session belongs to the source
  it waits on, is a lifecycle report and names its session.\<close>

theorem authority_owner_invariant:
  assumes "terminal_reachable t"
  shows "is_none_or (\<lambda>a. \<not> session_identity_only_integration (ha_source a) (ha_agent_label a)) (ts_hook_authority t)
    \<and> list_all (\<lambda>(source, su). is_none_or (\<lambda>p. ha_source (pr_authority p) = source
        \<and> full_lifecycle_hook_authority source (ha_agent_label (pr_authority p))
        \<and> ha_session_ref (pr_authority p) \<noteq> None) (su_pending su)) (ts_suppressed t)"
  using terminal_reachable_authority_ok [OF assms]
  by (simp add: authority_ok_def pending_ok_def [abs_def] case_prod_beta')

theorem authority_owner_invariant_witness:
  "is_none_or (\<lambda>a. \<not> session_identity_only_integration (ha_source a) (ha_agent_label a))
     (ts_hook_authority (fst (set_hook_authority_at (terminal_new ''t'' ''/'') ''herdr:hermes'' ''hermes''
        Working None None None 3 3)))"
  using authority_owner_invariant
    [OF terminal_reachable.step [OF terminal_reachable.start [of "''t''" "''/''"]
        terminal_step.hook_report [of _ "''herdr:hermes''" "''hermes''" Working None None None 3 3]]]
  by (rule conjunct1)

subsection \<open>Stale, cleared and replayed reports\<close>

text \<open>A lifecycle report of a session that was replaced or released is ignored and
  leaves no trace, whatever its sequence number.\<close>

theorem stale_session_report_ignored:
  assumes "full_lifecycle_hook_report_matches_stale_session t source label r"
  shows "set_hook_authority_at t source label st message r seq now clk = (t, None)"
proof -
  have f: "full_lifecycle_hook_authority source label"
    using assms by (simp add: full_lifecycle_hook_report_matches_stale_session_def split: if_splits)
  with assms show ?thesis
    by (simp add: set_hook_authority_at_def route_full_lifecycle_hook_report_def)
qed

theorem stale_session_report_ignored_witness:
  "set_hook_authority_at (remember_stale_session demo_terminal ''herdr:pi'' ''pi'' (pi_session ''/old''))
     ''herdr:pi'' ''pi'' Blocked None (Some (pi_session ''/old'')) (Some 99) 9 9
   = (remember_stale_session demo_terminal ''herdr:pi'' ''pi'' (pi_session ''/old''), None)"
  by (rule stale_session_report_ignored)
     (simp add: full_lifecycle_hook_report_matches_stale_session_def remember_stale_session_def Let_def
       demo_terminal_def terminal_new_def)

lemma cleared_entry_ignored:
  assumes "full_lifecycle_hook_authority source label" "hm_get (ts_suppressed t) source = Some su"
    and "su_agent_label su = label" "su_reason su = HookClear" "\<not> session_refs_conflict (su_session_ref su) r"
  shows "set_hook_authority_at t source label st message r seq now clk = (t, None)"
  using assms full_lifecycle_not_identity_only [OF assms(1)]
  by (simp add: set_hook_authority_at_def route_full_lifecycle_hook_report_def)

lemma suppress_get:
  "hm_get (ts_suppressed (suppress_with_session_ref t s l r why at)) s
   = Some \<lparr>su_agent_label = l, su_session_ref = r, su_observed_at = at, su_reason = why,
       su_replacement_session_ref = None, su_pending = None\<rparr>"
  by (simp add: suppress_with_session_ref_def)

text \<open>Property C25. Once the lifecycle authority of a terminal was cleared or its agent released, the
  reports still on their way from that session are ignored: those naming the same session, none, or
  any when the authority had none.\<close>

theorem cleared_authority_stays_silent:
  assumes "ts_hook_authority t = Some a" "full_lifecycle_hook_authority (ha_source a) (ha_agent_label a)"
    and "clear_hook_authority_with_mutation t source q now clk = (t', Some mu)
       \<or> release_agent_with_mutation t (ha_source a) (ha_agent_label a) q now clk = (t', Some mu)"
    and "r = None \<or> r = ha_session_ref a \<or> ha_session_ref a = None"
  shows "set_hook_authority_at t' (ha_source a) (ha_agent_label a) st message r seq now' clk' = (t', None)"
proof -
  have gate: "ts_hook_authority u = Some a" if "accept_hook_report t s q = (u, b)" for u b s
    using accept_hook_report_book [of t s q] that assms(1) by (simp add: bookkeeping_def same_arbitration_def)
  have rec: "ts_suppressed u' = ts_suppressed u" if "recompute_effective_state u pv now = (u', c)" for u u' pv c
    using recompute_fields(4) [of u pv now] that by simp
  have "hm_get (ts_suppressed t') (ha_source a) = Some \<lparr>su_agent_label = ha_agent_label a,
      su_session_ref = ha_session_ref a, su_observed_at = clk, su_reason = HookClear,
      su_replacement_session_ref = None, su_pending = None\<rparr>"
    using assms(3)
  proof
    assume "clear_hook_authority_with_mutation t source q now clk = (t', Some mu)"
    then show ?thesis
      using assms(1,2)
      by (auto simp: clear_hook_authority_with_mutation_def suppress_current_full_lifecycle_hook_authority_def
          suppress_get Let_def dest!: gate rec split: option.splits prod.splits bool.splits if_splits)
  next
    assume "release_agent_with_mutation t (ha_source a) (ha_agent_label a) q now clk = (t', Some mu)"
    then show ?thesis
      using assms(1,2)
      by (auto simp: release_agent_with_mutation_def suppress_full_lifecycle_hook_report_def publish_def
          clear_agent_name_def suppress_get Let_def dest!: gate rec split: prod.splits bool.splits if_splits)
  qed
  then show ?thesis
    using assms(2,4) by (rule_tac cleared_entry_ignored) (auto simp: session_refs_conflict_def split: option.splits)
qed

theorem cleared_authority_stays_silent_witness:
  "\<exists>t' mu. clear_hook_authority_with_mutation demo_terminal None (Some 21) 8 8 = (t', Some mu)
    \<and> set_hook_authority_at t' ''herdr:pi'' ''pi'' Working None (Some (pi_session ''/a'')) (Some 22) 9 9 = (t', None)"
proof -
  have h: "ts_hook_authority demo_terminal = Some (pi_authority Working ''/a'')"
    and f: "full_lifecycle_hook_authority (ha_source (pi_authority Working ''/a'')) (ha_agent_label (pi_authority Working ''/a''))"
    by (simp_all add: demo_terminal_def pi_authority_def)
  have "snd (clear_hook_authority_with_mutation demo_terminal None (Some 21) 8 8) \<noteq> None"
    by (simp add: clear_hook_authority_with_mutation_def demo_terminal_def accept_hook_report_def
        pi_authority_def terminal_new_def Let_def case_prod_beta)
  then obtain t' mu where c: "clear_hook_authority_with_mutation demo_terminal None (Some 21) 8 8 = (t', Some mu)"
    by (metis not_None_eq prod.collapse)
  from cleared_authority_stays_silent [OF h f disjI1 [OF c], where r = "Some (pi_session ''/a'')"] c
  show ?thesis by (simp add: pi_authority_def)
qed

text \<open>Property C26. Let an agent with lifecycle authority run in the terminal, anchored to a session, with
  nothing of its source suppressed. A report of that session, unless the session is itself among the stale
  ones, is accepted exactly when its sequence number is new, or when a stale session is remembered for
  the same source and agent: in that case the sequence gate is reset by every report, and late or
  replayed reports get through.\<close>

theorem anchored_report_accepted_iff:
  assumes "full_lifecycle_hook_authority source label" "process_present t label"
    and "ts_hook_authority t = Some a" "ha_source a = source" "ha_agent_label a = label"
    and "ha_session_ref a = Some r" "hm_get (ts_suppressed t) source = None"
    and "\<not> full_lifecycle_hook_report_matches_stale_session t source label (Some r)"
  shows "snd (set_hook_authority_at t source label st message (Some r) (Some k) now clk) \<noteq> None
    \<longleftrightarrow> is_none_or (\<lambda>last. last < k) (hook_seq t source)
      \<or> is_some_and (\<lambda>ss. list_ex (\<lambda>e. st_agent_label e = label) ss) (hm_get (ts_stale_sessions t) source)"
proof -
  let ?fresh = "full_lifecycle_hook_report_has_fresh_session_after_stale_session t source label (Some r)"
  have fresh: "?fresh \<longleftrightarrow> is_some_and (\<lambda>ss. list_ex (\<lambda>e. st_agent_label e = label) ss) (hm_get (ts_stale_sessions t) source)"
    using assms(1,8)
    by (auto simp: full_lifecycle_hook_report_has_fresh_session_after_stale_session_def
        full_lifecycle_hook_report_matches_stale_session_def is_some_and_def list_ex_iff list_all_iff
        split: option.splits)
  have route: "route_full_lifecycle_hook_report t source label st message (Some r) (Some k) now = (t, Accept ?fresh)"
    using assms by (simp add: route_full_lifecycle_hook_report_def session_anchored_def anchored_session_ref_def)
  have acc: "snd (accept_hook_authority u source label st message x y z now clk) \<noteq> None" for u x y z
    by (simp add: accept_hook_authority_def Let_def publish_def split: prod.splits)
  have det: "ts_detected_agent t = parse_agent_label label" "parse_agent_label label \<noteq> None"
    using assms(2) by (auto simp: process_present_def Let_def)
  have "\<not> known_agent_label_conflicts_with_detected_agent t label"
    using det by (auto simp: known_agent_label_conflicts_with_detected_agent_def)
  moreover have "current_session_identity t = Some (source, label, sr_kind r, sr_value r)"
    using assms(3-6) by (simp add: current_session_identity_def)
  moreover have "\<not> live_full_lifecycle_hook_authority_conflicts_with_session t source label (Some r)"
    using assms(3-6) by (simp add: live_full_lifecycle_hook_authority_conflicts_with_session_def session_refs_conflict_def)
  ultimately have "snd (set_hook_authority_at t source label st message (Some r) (Some k) now clk) \<noteq> None \<longleftrightarrow>
      snd (accept_hook_report (if ?fresh then t\<lparr>ts_hook_report_sequences := hm_remove (ts_hook_report_sequences t) source\<rparr>
        else t) source (Some k))"
    using assms(1,3) full_lifecycle_not_identity_only [OF assms(1)] acc
    by (auto simp: set_hook_authority_at_def route Let_def current_session_owner_conflicts_def
        lifecycle_hook_report_replaces_persisted_session_def conflicting_same_owner_session_ref_def
        split: prod.splits bool.splits)
  also have "\<dots> \<longleftrightarrow> is_none_or (\<lambda>last. last < k) (hook_seq t source) \<or> ?fresh"
    by (auto simp: accept_hook_report_def hook_seq_def is_some_and_def is_none_or_def split: option.splits)
  finally show ?thesis using fresh by simp
qed

theorem anchored_report_accepted_iff_witness:
  "snd (set_hook_authority_at demo_terminal ''herdr:pi'' ''pi'' Idle None (Some (pi_session ''/a'')) (Some 19) 9 9) = None
   \<and> snd (set_hook_authority_at (remember_stale_session demo_terminal ''herdr:pi'' ''pi'' (pi_session ''/old''))
       ''herdr:pi'' ''pi'' Idle None (Some (pi_session ''/a'')) (Some 19) 9 9) \<noteq> None"
  (is "?late \<and> ?bypass")
proof
  let ?t = "remember_stale_session demo_terminal ''herdr:pi'' ''pi'' (pi_session ''/old'')"
  show ?late
    using anchored_report_accepted_iff [of "''herdr:pi''" "''pi''" demo_terminal "pi_authority Working ''/a''"
        "pi_session ''/a''" Idle None 19 9 9]
    by (auto simp: demo_terminal_def terminal_new_def pi_authority_def process_present_def hook_seq_def
        full_lifecycle_hook_report_matches_stale_session_def)
  show ?bypass
    using anchored_report_accepted_iff [of "''herdr:pi''" "''pi''" ?t "pi_authority Working ''/a''"
        "pi_session ''/a''" Idle None 19 9 9]
    by (auto simp: remember_stale_session_def demo_terminal_def terminal_new_def pi_authority_def pi_session_def
        process_present_def hook_seq_def full_lifecycle_hook_report_matches_stale_session_def)
qed

section \<open>Properties of acceptance and process exit\<close>

text \<open>What an accepted report leaves behind, how waiting reports are kept, and everything a process
  exit withdraws from the terminal.\<close>

subsection \<open>Accepted reports\<close>

lemma drop_suppressed_gone: "hm_get (ts_suppressed (drop_suppressed_entry t s)) s = None"
  by (auto simp: drop_suppressed_entry_def remember_stale_session_def Let_def split: option.splits)

lemma publish_fields:
  assumes "publish b t now rel = (t', mu)"
  shows "ts_hook_authority t' = ts_hook_authority t" "ts_persisted_agent_session t' = ts_persisted_agent_session t"
    "ts_suppressed t' = ts_suppressed t" "ts_detected_agent t' = ts_detected_agent t"
    "ts_agent_name t' = ts_agent_name t" "effective_agent_label t' = effective_agent_label t"
    "effective_state t' = effective_state t"
proof -
  have t': "t' = fst (recompute_effective_state t (capture b now) now)"
    using assms by (simp add: publish_def split: prod.splits)
  show "ts_hook_authority t' = ts_hook_authority t" "ts_persisted_agent_session t' = ts_persisted_agent_session t"
    "ts_suppressed t' = ts_suppressed t" "ts_detected_agent t' = ts_detected_agent t" "ts_agent_name t' = ts_agent_name t"
    by (simp_all add: t')
  show "effective_agent_label t' = effective_agent_label t" "effective_state t' = effective_state t"
    unfolding t' by (rule same_arbitration_effective [OF recompute_same_arbitration])+
qed

text \<open>An accepted report becomes the hook authority as reported, with the session it
  names or the current one of its owner, replaces the persisted session, and comes neither from an
  integration that only reports identities nor from a stale session; the state is published at once.\<close>

theorem accepted_report_is_authority:
  assumes "set_hook_authority_at t source label st message r seq now clk = (t', Some mu)"
  shows "(\<exists>r'. ts_hook_authority t' = Some \<lparr>ha_source = source, ha_agent_label = label, ha_state = st,
            ha_message = message, ha_reported_at = now, ha_session_ref = r'\<rparr>
          \<and> (r' = None \<longleftrightarrow> r = None))
    \<and> ts_persisted_agent_session t' = None
    \<and> \<not> session_identity_only_integration source label
    \<and> \<not> full_lifecycle_hook_report_matches_stale_session t source label r
    \<and> ts_state t' = effective_state t'"
proof -
  have acc: "ts_hook_authority u' = Some \<lparr>ha_source = source, ha_agent_label = label, ha_state = st,
            ha_message = message, ha_reported_at = now, ha_session_ref = r'\<rparr>
      \<and> ts_persisted_agent_session u' = None \<and> state_settled u'"
    if "accept_hook_authority u source label st message r' x y now clk = (u', Some mu)" for u r' x y u'
  proof -
    have "state_settled u'"
      using accept_hook_authority_settled [of u source label st message r' x y now clk] that by simp
    then show ?thesis
      using that unfolding accept_hook_authority_def Let_def
      by (frule_tac publish_fields(1), frule_tac publish_fields(2)) simp
  qed
  show ?thesis
    using assms
    by (auto simp: set_hook_authority_at_def route_full_lifecycle_hook_report_def Let_def state_settled_def
        full_lifecycle_hook_report_matches_stale_session_def
        split: if_splits prod.splits bool.splits hook_report_route.splits dest!: acc)
qed

theorem accepted_report_is_authority_witness:
  "\<exists>t' mu. set_hook_authority_at (terminal_new ''t'' ''/'') ''my:tool'' ''mytool'' Working None None None 3 3 = (t', Some mu)
     \<and> map_option ha_state (ts_hook_authority t') = Some Working"
proof -
  have "snd (set_hook_authority_at (terminal_new ''t'' ''/'') ''my:tool'' ''mytool'' Working None None None 3 3) \<noteq> None"
    by (simp add: set_hook_authority_at_def session_identity_only_integration_def full_lifecycle_hook_authority_def
        route_full_lifecycle_hook_report_def terminal_new_def known_agent_label_conflicts_with_detected_agent_def
        current_session_owner_conflicts_def current_session_identity_def accept_hook_report_def
        live_full_lifecycle_hook_authority_conflicts_with_session_def accept_hook_authority_def publish_def Let_def
        case_prod_beta)
  then obtain t' mu where "set_hook_authority_at (terminal_new ''t'' ''/'') ''my:tool'' ''mytool'' Working None None None 3 3
      = (t', Some mu)"
    by (metis not_None_eq prod.collapse)
  from accepted_report_is_authority [OF this] this show ?thesis by auto
qed

text \<open>While a session is not validated yet, its newest report waits: queueing keeps the
  report with the larger sequence number, and what waits for another source is untouched.\<close>

theorem newest_report_waits:
  "case hm_get (ts_suppressed (queue_pending_report t authority seq)) (ha_source authority) of
     None \<Rightarrow> False
   | Some su \<Rightarrow> (case Option.bind (hm_get (ts_suppressed t) (ha_source authority)) su_pending of
         None \<Rightarrow> su_pending su = Some \<lparr>pr_authority = authority, pr_seq = seq\<rparr>
       | Some old \<Rightarrow> su_pending su = Some (if pr_seq old < seq
            then \<lparr>pr_authority = authority, pr_seq = seq\<rparr> else old))"
  by (auto simp: queue_pending_report_def Let_def is_none_or_def split: option.splits)

subsection \<open>Process exit\<close>

lemma foldl_field: "(\<And>u x. g (f u x) = g u) \<Longrightarrow> g (foldl f t xs) = g t"
  by (induction xs arbitrary: t) auto

lemma exit_suppressed_persisted:
  "ts_persisted_agent_session (exit_suppressed_reports t a now) = ts_persisted_agent_session t"
  unfolding exit_suppressed_reports_def Let_def
  by (subst foldl_field, simp, subst foldl_field) (simp_all add: remember_stale_session_def Let_def case_prod_beta)

lemma exit_metadata_persisted:
  "ts_persisted_agent_session (exit_metadata t a now) = ts_persisted_agent_session t"
  unfolding exit_metadata_def Let_def
  by (auto simp: foldl_field [where g = ts_persisted_agent_session] forget_metadata_source_def split: option.splits)

lemma book_hook: "bookkeeping t u \<Longrightarrow> ts_hook_authority t = ts_hook_authority u"
  by (simp add: bookkeeping_def same_arbitration_def)

lemma book_exit: "bookkeeping t u \<Longrightarrow> ts_recent_agent_process_exit t = ts_recent_agent_process_exit u"
  by (simp add: bookkeeping_def same_arbitration_def)

lemma process_exit_hook:
  "ts_hook_authority (process_exit t a False now)
   = (case ts_hook_authority t of None \<Rightarrow> None
      | Some h \<Rightarrow> if agent_matches (ha_agent_label h) a then None else Some h)"
  by (simp add: process_exit_def book_hook [OF exit_metadata_book])
     (auto simp: exit_sessions_def Let_def suppress_with_session_ref_def book_hook [OF exit_suppressed_book]
       split: option.splits)

lemma process_exit_persisted:
  "ts_persisted_agent_session (process_exit t a False now)
   = opt_filter (\<lambda>s. \<not> agent_matches (ps_agent s) a) (ts_persisted_agent_session t)"
  by (simp add: process_exit_def exit_metadata_persisted)
     (auto simp: exit_sessions_def Let_def suppress_with_session_ref_def exit_suppressed_persisted opt_filter_def
       split: option.splits)

lemma process_exit_exit:
  "ts_recent_agent_process_exit (process_exit t a nc now) = ts_recent_agent_process_exit t"
  by (simp add: process_exit_def book_exit [OF exit_metadata_book])
     (auto simp: exit_sessions_def Let_def suppress_with_session_ref_def book_exit [OF exit_suppressed_book]
       split: option.splits)

lemma record_exit_fields:
  "ts_hook_authority (record_detection t (Some a) st vb True rep now) = ts_hook_authority t"
  "ts_persisted_agent_session (record_detection t (Some a) st vb True rep now) = ts_persisted_agent_session t"
  "ts_recent_agent_process_exit (record_detection t (Some a) st vb True rep now) = Some \<lparr>re_agent = a, re_observed_at = now\<rparr>"
  by (auto simp: record_detection_def Let_def reconcile_agent_name_owner_def split: option.splits)

lemma drop_conflicting_fields:
  assumes "t' = drop_conflicting_authority t (Some a) p now clk"
    and "\<And>h. ts_hook_authority t = Some h \<Longrightarrow> parse_agent_label (ha_agent_label h) \<noteq> Some a"
    and "\<And>s. ts_persisted_agent_session t = Some s \<Longrightarrow> parse_agent_label (ps_agent s) \<noteq> Some a"
  shows "ts_hook_authority t' = Some h \<Longrightarrow> parse_agent_label (ha_agent_label h) \<noteq> Some a"
    and "ts_persisted_agent_session t' = Some s \<Longrightarrow> parse_agent_label (ps_agent s) \<noteq> Some a"
    and "ts_recent_agent_process_exit t' = ts_recent_agent_process_exit t"
proof -
  show "ts_hook_authority t' = Some h \<Longrightarrow> parse_agent_label (ha_agent_label h) \<noteq> Some a"
    using assms(1,2) by (auto simp: drop_conflicting_authority_def Let_def split: if_splits)
  show "ts_persisted_agent_session t' = Some s \<Longrightarrow> parse_agent_label (ps_agent s) \<noteq> Some a"
    using assms by (auto simp: drop_conflicting_authority_def Let_def bind_eq_Some_conv split: if_splits)
  show "ts_recent_agent_process_exit t' = ts_recent_agent_process_exit t"
    using assms(1) by (auto simp: drop_conflicting_authority_def Let_def book_exit [OF suppress_book(2)])
qed

text \<open>Property C11. When the process of an agent exits, the terminal keeps nothing of it: no authority
  and no persisted session of that agent survive, its label is gone, and the agent counts as released
  exactly when the terminal had a label or a name. A newer report of a custom integration is the one
  exception the statement excludes.\<close>

theorem process_exit_withdraws_agent:
  assumes "set_detected_state_with_screen_signals_at t (Some a) st vb vi vw True now clk = (t', mu)"
    and "\<not> newer_custom_authority t (Some a) True now"
  shows "(case ts_hook_authority t' of None \<Rightarrow> True | Some h \<Rightarrow> parse_agent_label (ha_agent_label h) \<noteq> Some a)
    \<and> (case ts_persisted_agent_session t' of None \<Rightarrow> True | Some s \<Rightarrow> parse_agent_label (ps_agent s) \<noteq> Some a)
    \<and> effective_known_agent t' \<noteq> Some a
    \<and> ts_recent_agent_process_exit t' = Some \<lparr>re_agent = a, re_observed_at = now\<rparr>
    \<and> (tm_agent_released mu \<longleftrightarrow> effective_agent_label t \<noteq> None \<or> ts_agent_name t \<noteq> None)
    \<and> (tm_agent_released mu \<longrightarrow> ts_agent_name t' = None)"
proof -
  let ?rel = "effective_agent_label t \<noteq> None \<or> ts_agent_name t \<noteq> None"
  let ?t1 = "record_detection t (Some a) st vb True False now"
  let ?t2 = "process_exit ?t1 (Some a) False now"
  let ?t3 = "drop_conflicting_authority ?t2 (Some a) (ts_detected_agent t) now clk"
  let ?t4 = "if ?rel then clear_agent_name ?t3 else ?t3"
  have t': "t' = fst (recompute_effective_state ?t4 (capture t now) now)" and mu: "tm_agent_released mu = ?rel"
    using assms by (auto simp: set_detected_state_with_screen_signals_at_def Let_def
        should_ignore_detected_state_under_full_lifecycle_hook_def split: prod.splits if_splits)
  have h2: "parse_agent_label (ha_agent_label h) \<noteq> Some a" if "ts_hook_authority ?t2 = Some h" for h
    using that by (auto simp: process_exit_hook agent_matches_def split: option.splits if_splits)
  have p2: "parse_agent_label (ps_agent s) \<noteq> Some a" if "ts_persisted_agent_session ?t2 = Some s" for s
    using that by (auto simp: process_exit_persisted agent_matches_def opt_filter_Some_iff)
  note f = drop_conflicting_fields [OF refl h2 p2, where p = "ts_detected_agent t" and now = now and clk = clk]
  have keep: "ts_hook_authority t' = ts_hook_authority ?t3" "ts_persisted_agent_session t' = ts_persisted_agent_session ?t3"
    "ts_recent_agent_process_exit t' = ts_recent_agent_process_exit ?t3" "?rel \<Longrightarrow> ts_agent_name t' = None"
    by (auto simp: t' clear_agent_name_def)
  have ex: "ts_recent_agent_process_exit t' = Some \<lparr>re_agent = a, re_observed_at = now\<rparr>"
    using f(3) by (simp add: keep process_exit_exit record_exit_fields)
  have hook: "parse_agent_label (ha_agent_label h) \<noteq> Some a" if "ts_hook_authority t' = Some h" for h
    using f(1) that keep by simp
  moreover have "effective_known_agent t' \<noteq> Some a"
    using hook ex by (auto simp: effective_known_agent_def effective_agent_label_def bind_eq_Some_conv
        or_else_def opt_filter_Some_iff split: option.splits)
  ultimately show ?thesis using f(2) keep ex mu by (auto split: option.splits)
qed

theorem process_exit_withdraws_agent_witness:
  "effective_known_agent (fst (set_detected_state_with_screen_signals_at demo_terminal (Some Pi) Unknown
      False False False True 9 9)) \<noteq> Some Pi"
proof -
  have "\<not> newer_custom_authority demo_terminal (Some Pi) True 9"
    by (simp add: newer_custom_authority_def demo_terminal_def pi_authority_def)
  from process_exit_withdraws_agent [OF surjective_pairing this] show ?thesis by blast
qed

text \<open>After a process exit, reports of the exited agent that are still on their way are
  ignored until its process is seen again: a hook of a custom integration and a metadata report both
  leave the terminal as it is.\<close>

theorem exited_agent_reports_ignored:
  assumes "ts_recent_agent_process_exit t = Some e" "parse_agent_label label = Some (re_agent e)"
  shows "(\<not> full_lifecycle_hook_authority source label \<longrightarrow>
            set_hook_authority_at t source label st message r seq now clk = (t, None))
    \<and> (mr_agent_label report = Some label \<longrightarrow> set_agent_metadata t report now = (t, None))"
  using assms
  by (simp add: set_hook_authority_at_def set_agent_metadata_def metadata_report_blocked_by_process_exit_def Let_def)

theorem exited_agent_reports_ignored_witness:
  "set_hook_authority_at ((terminal_new ''t'' ''/'')\<lparr>ts_recent_agent_process_exit := Some \<lparr>re_agent = Pi, re_observed_at = 4\<rparr>\<rparr>)
     ''my:tool'' ''pi'' Working None None None 9 9
   = ((terminal_new ''t'' ''/'')\<lparr>ts_recent_agent_process_exit := Some \<lparr>re_agent = Pi, re_observed_at = 4\<rparr>\<rparr>, None)"
  using exited_agent_reports_ignored [of "(terminal_new ''t'' ''/'')\<lparr>ts_recent_agent_process_exit :=
      Some \<lparr>re_agent = Pi, re_observed_at = 4\<rparr>\<rparr>" "\<lparr>re_agent = Pi, re_observed_at = 4\<rparr>" "''pi''" "''my:tool''"]
  by (simp add: full_lifecycle_hook_authority_def terminal_new_def)

end
