(* ===== verification/TerminalMetadataProps.thy ===== *)
theory TerminalMetadataProps
  imports TerminalProps
begin

section \<open>Properties of managed agents and metadata\<close>

text \<open>The launch of a managed agent always ends, the newest metadata report is the one shown, and
  expired metadata disappears with its timer.\<close>

subsection \<open>Managed agents\<close>

text \<open>After every reconciliation a launch that is still pending has its next deadline
  in the future, so the timer never fires twice for one instant and no launch outlives its deadline;
  a change is reported exactly when the managed agent changed.\<close>

theorem managed_launch_timer_advances:
  assumes "reconcile_managed_agent_at t now process_exited = (t', changed)"
  shows "(managed_agent_launch_pending t' \<longrightarrow> is_some_and (\<lambda>d. now < d) (next_managed_agent_deadline t'))
    \<and> (changed \<longleftrightarrow> ts_managed_agent t' \<noteq> ts_managed_agent t)"
proof (cases "ts_managed_agent t")
  case None
  with assms show ?thesis by (simp add: reconcile_managed_agent_at_def managed_agent_launch_pending_def)
next
  case (Some m)
  show ?thesis
  proof (cases "ma_phase m")
    case Active
    with Some assms show ?thesis
      by (auto simp: reconcile_managed_agent_at_def managed_agent_launch_pending_def clear_agent_name_def Let_def
          split: if_splits)
  next
    case (Pending ready deadline obs)
    with Some assms show ?thesis
      by (cases ready; cases m)
         (auto simp: reconcile_managed_agent_at_def managed_agent_launch_pending_def clear_agent_name_def Let_def
          set_managed_phase_def next_managed_agent_deadline_def split: if_splits)
  qed
qed

theorem managed_launch_timer_advances_witness:
  "(let t = begin_managed_agent (terminal_new ''t'' ''/'') ''bob'' Claude 10 5 50;
        t' = fst (reconcile_managed_agent_at t 15 False)
    in is_some_and (\<lambda>d. 15 < d) (next_managed_agent_deadline t'))"
proof -
  let ?t = "begin_managed_agent (terminal_new ''t'' ''/'') ''bob'' Claude 10 5 50"
  have "managed_agent_launch_pending (fst (reconcile_managed_agent_at ?t 15 False))"
    by (simp add: begin_managed_agent_def set_agent_name_def Let_def terminal_new_def reconcile_managed_agent_at_def
        effective_known_agent_def effective_agent_label_def instant_add_or_self_def instant_checked_add_def
        instant_max_def set_managed_phase_def managed_agent_launch_pending_def)
  with managed_launch_timer_advances [OF surjective_pairing, of ?t 15 False] show ?thesis
    by (simp add: Let_def)
qed

text \<open>A managed agent becomes ready only when the expected agent is seen idle or blocked
  after its settle delay and before its deadline and its process did not exit; it keeps its kind, and
  another agent, an exit, the deadline or the expected agent disappearing ends the launch together with
  the name.\<close>

theorem managed_agent_becomes_ready:
  assumes "reconcile_managed_agent_at t now process_exited = (t', changed)"
    and "ts_managed_agent t = Some \<lparr>ma_kind = kind, ma_phase = Pending ready deadline obs\<rparr>"
  shows "(managed_agent_interactive_ready t' \<longleftrightarrow>
            \<not> process_exited \<and> effective_known_agent t = Some kind \<and> ts_state t \<in> {Idle, Blocked}
            \<and> now < deadline \<and> is_none_or (\<lambda>r. r \<le> now) ready)
    \<and> (ts_managed_agent t' \<noteq> None \<longrightarrow> managed_agent_kind t' = Some kind \<and> ts_agent_name t' = ts_agent_name t)
    \<and> (ts_managed_agent t' = None \<longleftrightarrow>
         process_exited \<or> deadline \<le> now \<or> (effective_known_agent t \<noteq> Some kind \<and> (effective_known_agent t \<noteq> None \<or> obs)))
    \<and> (ts_managed_agent t' = None \<longrightarrow> ts_agent_name t' = None)"
  using assms
  by (cases "effective_known_agent t"; cases ready)
     (auto simp: reconcile_managed_agent_at_def Let_def managed_agent_interactive_ready_def managed_agent_kind_def
       clear_agent_name_def set_managed_phase_def split: if_splits)

theorem managed_agent_becomes_ready_witness:
  "managed_agent_interactive_ready (fst (reconcile_managed_agent_at
     (demo_terminal\<lparr>ts_state := Idle,
        ts_managed_agent := Some \<lparr>ma_kind = Pi, ma_phase = Pending (Some 12) 60 True\<rparr>\<rparr>) 15 False))"
proof -
  let ?t = "demo_terminal\<lparr>ts_state := Idle,
        ts_managed_agent := Some \<lparr>ma_kind = Pi, ma_phase = Pending (Some 12) 60 True\<rparr>\<rparr>"
  have "effective_known_agent ?t = Some Pi"
    by (simp add: demo_terminal_def terminal_new_def effective_known_agent_def effective_agent_label_def
        hook_authority_is_effective_def pi_authority_def)
  with managed_agent_becomes_ready [OF surjective_pairing, where t = ?t and now = 15 and process_exited = False
      and kind = Pi and ready = "Some 12" and deadline = 60 and obs = True] show ?thesis
    by simp
qed

subsection \<open>The newest report\<close>

text \<open>The title shown is that of a valid report, and no valid report with a title was
  reported later; there is none only when no valid report has a title.\<close>

theorem newest_title_wins:
  "case newest_metadata_title t now enforce_ttl of
     None \<Rightarrow> \<forall>m \<in> set (valid_agent_metadata t now enforce_ttl). am_title m = None
   | Some x \<Rightarrow> \<exists>m \<in> set (valid_agent_metadata t now enforce_ttl). am_title m = Some x
       \<and> (\<forall>m' \<in> set (valid_agent_metadata t now enforce_ttl). am_title m' \<noteq> None \<longrightarrow>
            am_title_reported_at m' \<le> am_title_reported_at m)"
proof -
  let ?ms = "filter (\<lambda>m. am_title m \<noteq> None) (valid_agent_metadata t now enforce_ttl)"
  show ?thesis
  proof (cases "max_by_key am_title_reported_at ?ms")
    case None
    then have "?ms = []" by simp
    then show ?thesis by (auto simp: newest_metadata_title_def filter_empty_conv)
  next
    case (Some m)
    from max_by_key_Some [OF Some] have "m \<in> set ?ms" "\<forall>m' \<in> set ?ms. am_title_reported_at m' \<le> am_title_reported_at m"
      by simp_all
    then have m: "m \<in> set (valid_agent_metadata t now enforce_ttl)"
      "\<forall>m' \<in> set (valid_agent_metadata t now enforce_ttl). am_title m' \<noteq> None \<longrightarrow>
         am_title_reported_at m' \<le> am_title_reported_at m" and "am_title m \<noteq> None"
      by simp_all
    from this(3) obtain x where x: "am_title m = Some x" by blast
    have "newest_metadata_title t now enforce_ttl = Some x"
      unfolding newest_metadata_title_def Some by (simp add: x)
    with m x show ?thesis by auto
  qed
qed

theorem newest_title_wins_witness:
  "newest_metadata_title (terminal_new ''t'' ''/'') 3 True = None"
  using newest_title_wins [of "terminal_new ''t'' ''/''" 3 True]
  by (auto simp: valid_agent_metadata_def terminal_new_def split: option.splits)

lemma newest_title_unique:
  assumes "(s, m) \<in> set (ts_agent_metadata t)" "agent_metadata_is_valid t m now b" "am_title m = Some x"
    and "am_title_reported_at m = Some now"
    and "\<forall>(s', m') \<in> set (ts_agent_metadata t). am_title_reported_at m' < Some now \<or> am_title m' = Some x"
  shows "newest_metadata_title t now b = Some x"
proof -
  have v: "m \<in> set (valid_agent_metadata t now b)"
    using assms(1,2) by (force simp: valid_agent_metadata_def)
  show ?thesis
  proof (cases "newest_metadata_title t now b")
    case None
    with newest_title_wins [of t now b] v assms(3) show ?thesis by auto
  next
    case (Some y)
    with newest_title_wins [of t now b] obtain n where n: "n \<in> set (valid_agent_metadata t now b)" "am_title n = Some y"
      and "\<forall>m' \<in> set (valid_agent_metadata t now b). am_title m' \<noteq> None \<longrightarrow> am_title_reported_at m' \<le> am_title_reported_at n"
      by auto
    with v assms(3,4) have "\<not> am_title_reported_at n < Some now" by force
    moreover have "\<exists>s'. (s', n) \<in> set (ts_agent_metadata t)" using n(1) by (auto simp: valid_agent_metadata_def)
    ultimately show ?thesis using assms(5) n(2) Some by auto
  qed
qed

text \<open>Clearing the pending flags touches neither what is shown nor when it was reported.\<close>

definition metadata_core :: "agent_metadata \<Rightarrow> agent_metadata" where
  "metadata_core m = m\<lparr>am_expiry_event_pending := False\<rparr>"

lemma metadata_core_eq:
  assumes "metadata_core m = metadata_core m'"
  shows "am_title m = am_title m'" "am_title_reported_at m = am_title_reported_at m'"
    "agent_metadata_expiry m = agent_metadata_expiry m'" "agent_metadata_is_expired m now = agent_metadata_is_expired m' now"
    "agent_metadata_is_valid t m now b = agent_metadata_is_valid t m' now b"
    "agent_metadata_matches_guards t m = agent_metadata_matches_guards t m'"
  using assms
  by (cases m; cases m'; simp add: metadata_core_def agent_metadata_expiry_def agent_metadata_is_expired_def
      agent_metadata_is_valid_def agent_metadata_matches_guards_def)+

lemma clear_hidden_core:
  "map (\<lambda>(s, m). (s, metadata_core m)) (ts_agent_metadata (clear_expiry_pending_for_hidden_metadata t))
   = map (\<lambda>(s, m). (s, metadata_core m)) (ts_agent_metadata t)"
  by (auto simp: clear_expiry_pending_for_hidden_metadata_def metadata_core_def)

lemma recompute_core:
  "map (\<lambda>(s, m). (s, metadata_core m)) (ts_agent_metadata (fst (recompute_effective_state t pv now)))
   = map (\<lambda>(s, m). (s, metadata_core m)) (ts_agent_metadata t)"
  using clear_hidden_core [of t] by (simp add: recompute_effective_state_def Let_def)

lemma core_member:
  assumes "map (\<lambda>(s, m). (s, metadata_core m)) xs = map (\<lambda>(s, m). (s, metadata_core m)) ys" "(s, m) \<in> set xs"
  shows "\<exists>m'. (s, m') \<in> set ys \<and> metadata_core m = metadata_core m'"
proof -
  have "(s, metadata_core m) \<in> (\<lambda>(s, m). (s, metadata_core m)) ` set xs" using assms(2) by force
  also have "\<dots> = (\<lambda>(s, m). (s, metadata_core m)) ` set ys" using assms(1) by (metis set_map)
  finally show ?thesis by auto
qed

lemma guards_same_arbitration:
  "same_arbitration t u \<Longrightarrow> metadata_guards_match t l s = metadata_guards_match u l s"
  by (simp add: metadata_guards_match_def same_arbitration_effective(2)) (simp add: same_arbitration_def)

text \<open>An accepted report with a title that applies to the current agent and does not
  expire at once is the title shown, whatever older reports say.\<close>

theorem reported_title_is_shown:
  assumes "set_agent_metadata t r now = (t', Some mu)" "mr_title r = Some x"
    and "\<not> mr_clear_title r" "\<not> mr_clear_display_agent r" "\<not> mr_clear_state_labels r"
    and "metadata_guards_match t (mr_agent_label r) (mr_applies_to_source r)"
    and "is_none_or (\<lambda>ttl. now < instant_add_or_self now ttl) (mr_ttl r)"
    and "list_all (\<lambda>(s, m). am_title_reported_at m < Some now) (ts_agent_metadata t)"
  shows "ep_title (effective_presentation_at t' now) = Some x"
proof -
  let ?agent = "metadata_report_agent (mr_source r) (mr_agent_label r) (mr_applies_to_source r)"
  let ?t1 = "fst (accept_metadata_report t (mr_source r) (mr_seq r) False ?agent)"
  let ?t2 = "drop_expired_metadata ?t1 (mr_source r) now"
  let ?t3 = "fst (recompute_effective_state (store_metadata ?t2 r now) (capture ?t2 now) now)"
  let ?core = "map (\<lambda>(s, m). (s, metadata_core m))"
  have t': "t' = ?t3 \<or> t' = clear_expiry_pending_for_hidden_metadata ?t3"
    using assms(1) by (auto simp: set_agent_metadata_def Let_def case_prod_beta split: if_splits sum.splits bool.splits)
  have core: "?core (ts_agent_metadata t') = ?core (ts_agent_metadata (store_metadata ?t2 r now))"
    using t' clear_hidden_core [of ?t3] recompute_core by metis
  have arb: "same_arbitration t' t"
  proof -
    have "bookkeeping (store_metadata ?t2 r now) t"
      using bookkeeping_trans [OF store_metadata_book bookkeeping_trans [OF drop_expired_book accept_metadata_book]] .
    moreover have "same_arbitration ?t3 (store_metadata ?t2 r now)" by (rule recompute_same_arbitration)
    moreover have "same_arbitration t' ?t3" using t' by auto
    ultimately show ?thesis by (simp add: bookkeeping_def same_arbitration_def)
  qed
  let ?m = "metadata_from_report r now"
  let ?m' = "if mr_ttl r \<noteq> None \<and> agent_metadata_is_visible_ignoring_ttl ?t2 ?m then ?m\<lparr>am_expiry_event_pending := True\<rparr> else ?m"
  have mcore: "metadata_core ?m' = metadata_core ?m" by (simp add: metadata_core_def)
  have stored: "ts_agent_metadata (store_metadata ?t2 r now) = hm_insert (ts_agent_metadata ?t2) (mr_source r) ?m'"
    using assms(3-5) by (simp add: store_metadata_def Let_def)
  have old: "set (ts_agent_metadata ?t2) \<subseteq> set (ts_agent_metadata t)"
    by (auto simp: drop_expired_metadata_def accept_metadata_report_def Let_def
        dest: set_hm_remove [THEN subsetD] split: option.splits if_splits)
  have "(mr_source r, ?m') \<in> set (hm_insert (ts_agent_metadata ?t2) (mr_source r) ?m')"
    by (rule map_of_SomeD) simp
  with core_member [OF core [symmetric]] stored obtain n where
    n: "(mr_source r, n) \<in> set (ts_agent_metadata t')" "metadata_core ?m' = metadata_core n"
    by metis
  note eq = metadata_core_eq [OF trans [OF n(2) [symmetric] mcore]]
  have "agent_metadata_is_valid t' ?m now True"
    using assms(2,6,7) guards_same_arbitration [OF arb]
    by (auto simp: agent_metadata_is_valid_def metadata_from_report_def agent_metadata_matches_guards_def
        agent_metadata_is_expired_def agent_metadata_expiry_def is_none_or_def split: option.splits)
  then have valid: "agent_metadata_is_valid t' n now True" by (simp only: eq(5))
  have rest: "\<forall>(s', m') \<in> set (ts_agent_metadata t'). am_title_reported_at m' < Some now \<or> am_title m' = Some x"
  proof (intro ballI, clarify)
    fix s' m'
    assume "(s', m') \<in> set (ts_agent_metadata t')" and ne: "am_title m' \<noteq> Some x"
    from core_member [OF core this(1)] obtain k where k: "(s', k) \<in> set (ts_agent_metadata (store_metadata ?t2 r now))"
      "metadata_core m' = metadata_core k" by blast
    have "k = ?m' \<or> (s', k) \<in> set (ts_agent_metadata t)"
      using k(1) stored set_hm_insert [of "mr_source r" ?m' "ts_agent_metadata ?t2"] old by auto
    moreover have "k \<noteq> ?m'"
      using ne metadata_core_eq(1) [OF k(2)] metadata_core_eq(1) [OF mcore] assms(2)
      by (auto simp: metadata_from_report_def)
    ultimately show "am_title_reported_at m' < Some now"
      using assms(8) metadata_core_eq(2) [OF k(2)] by (auto simp: list_all_iff)
  qed
  have "newest_metadata_title t' now True = Some x"
    using n(1) valid rest assms(2)
    by (intro newest_title_unique [where m = n and s = "mr_source r"]) (auto simp: eq(1,2) metadata_from_report_def)
  then show ?thesis by (simp add: effective_presentation_at_def effective_presentation_with_ttl_def)
qed

definition demo_report :: agent_metadata_report where
  "demo_report = \<lparr>mr_source = ''my:tool'', mr_agent_label = None, mr_applies_to_source = None,
     mr_title = Some ''build'', mr_display_agent = None, mr_state_labels = [], mr_clear_title = False,
     mr_clear_display_agent = False, mr_clear_state_labels = False, mr_ttl = Some 30, mr_seq = Some 1\<rparr>"

theorem reported_title_is_shown_witness:
  "\<exists>t' mu. set_agent_metadata demo_terminal demo_report 9 = (t', Some mu)
     \<and> ep_title (effective_presentation_at t' 9) = Some ''build''"
proof -
  have "snd (set_agent_metadata demo_terminal demo_report 9) \<noteq> None"
    by (simp add: set_agent_metadata_def demo_report_def demo_terminal_def terminal_new_def
        metadata_report_blocked_by_process_exit_def accept_metadata_report_def
        metadata_report_sequence_is_fresh_def sequence_is_fresh_def Let_def case_prod_beta)
  then obtain t' mu where s: "set_agent_metadata demo_terminal demo_report 9 = (t', Some mu)"
    by (metis not_None_eq prod.collapse)
  from reported_title_is_shown [OF this, of "''build''"] s show ?thesis
    by (simp add: demo_report_def metadata_guards_match_def demo_terminal_def terminal_new_def
        instant_add_or_self_def instant_checked_add_def instant_max_def)
qed

subsection \<open>Expiry\<close>

lemma foldl_drop_metadata:
  "ts_agent_metadata (foldl (\<lambda>u source. u\<lparr>ts_agent_metadata := hm_remove (ts_agent_metadata u) source\<rparr>) t xs)
   = filter (\<lambda>(s, m). s \<notin> set xs) (ts_agent_metadata t)"
proof (induction xs arbitrary: t)
  case Nil
  then show ?case by simp
next
  case (Cons x xs)
  then show ?case by (auto simp: AList.delete_eq intro: filter_cong)
qed

lemma in_map_filter: "y \<in> set (List.map_filter f xs) \<longleftrightarrow> (\<exists>x \<in> set xs. f x = Some y)"
  by (force simp: List.map_filter_def)

lemma in_fst_image: "s \<in> fst ` D \<longleftrightarrow> (\<exists>d. (s, d) \<in> D)"
  by force

lemma expire_remaining:
  "\<exists>u. same_arbitration (fst (expire_agent_metadata_at t sched now)) t
     \<and> map (\<lambda>(s, m). (s, metadata_core m)) (ts_agent_metadata (fst (expire_agent_metadata_at t sched now)))
       = map (\<lambda>(s, m). (s, metadata_core m)) u
     \<and> u = filter (\<lambda>(s, m). \<not> (\<exists>m'. (s, m') \<in> set (ts_agent_metadata t) \<and> agent_metadata_is_expired m' now))
         (ts_agent_metadata t)"
proof -
  let ?drop = "\<lambda>u source. u\<lparr>ts_agent_metadata := hm_remove (ts_agent_metadata u) source\<rparr>"
  let ?due = "List.map_filter (\<lambda>(source, m). case agent_metadata_expiry m of
              Some deadline \<Rightarrow> if deadline \<le> now then Some (source, deadline) else None
            | None \<Rightarrow> None) (ts_agent_metadata t)"
  let ?exp = "map fst (filter (\<lambda>(_, deadline). sched \<le> deadline) ?due)"
  let ?stale = "map fst (filter (\<lambda>(_, deadline). \<not> sched \<le> deadline) ?due)"
  have due: "s \<in> fst ` set ?due \<longleftrightarrow> (\<exists>m'. (s, m') \<in> set (ts_agent_metadata t) \<and> agent_metadata_is_expired m' now)" for s
  proof -
    have "(s, d) \<in> set ?due \<longleftrightarrow> (\<exists>m. (s, m) \<in> set (ts_agent_metadata t) \<and> agent_metadata_expiry m = Some d \<and> d \<le> now)" for d
    proof -
      have "(case sm of (source, m) \<Rightarrow> case agent_metadata_expiry m of
              Some deadline \<Rightarrow> if deadline \<le> now then Some (source, deadline) else None
            | None \<Rightarrow> None) = Some (s, d) \<longleftrightarrow> fst sm = s \<and> agent_metadata_expiry (snd sm) = Some d \<and> d \<le> now" for sm
        by (cases sm) (auto split: option.splits if_splits)
      then show ?thesis unfolding in_map_filter by (metis (no_types, lifting) fst_conv snd_conv prod.collapse)
    qed
    then show ?thesis unfolding in_fst_image agent_metadata_is_expired_def is_some_and_iff by blast
  qed
  have part: "s \<in> set ?exp \<or> s \<in> set ?stale \<longleftrightarrow> s \<in> fst ` set ?due" for s by force
  have "ts_agent_metadata (foldl ?drop (foldl ?drop t ?stale) ?exp)
      = filter (\<lambda>(s, m). \<not> (s \<in> set ?exp \<or> s \<in> set ?stale)) (ts_agent_metadata t)"
    unfolding foldl_drop_metadata filter_filter by (rule filter_cong) auto
  then have both: "ts_agent_metadata (foldl ?drop (foldl ?drop t ?stale) ?exp)
      = filter (\<lambda>(s, m). \<not> (\<exists>m'. (s, m') \<in> set (ts_agent_metadata t) \<and> agent_metadata_is_expired m' now)) (ts_agent_metadata t)"
    unfolding part due .
  have "bookkeeping (foldl ?drop u xs) u" for u and xs :: "rstr list"
    by (rule bookkeeping_foldl) (simp add: bookkeeping_def same_arbitration_def)
  then have arb: "same_arbitration (foldl ?drop (foldl ?drop t ?stale) ?exp) t" "same_arbitration (foldl ?drop t ?stale) t"
    by (meson bookkeeping_def bookkeeping_trans)+
  show ?thesis
  proof (cases "?exp = []")
    case True
    then have "fst (expire_agent_metadata_at t sched now) = foldl ?drop (foldl ?drop t ?stale) ?exp"
      by (simp add: expire_agent_metadata_at_def Let_def)
    with both arb(1) show ?thesis by metis
  next
    case False
    then obtain pv where "fst (expire_agent_metadata_at t sched now)
        = fst (recompute_effective_state (foldl ?drop (foldl ?drop t ?stale) ?exp) pv now)"
      by (simp add: expire_agent_metadata_at_def Let_def case_prod_beta)
    with both arb(1) recompute_core [of "foldl ?drop (foldl ?drop t ?stale) ?exp" pv now]
      recompute_same_arbitration [of "foldl ?drop (foldl ?drop t ?stale) ?exp" pv now]
    show ?thesis by (metis (no_types, lifting) same_arbitration_def)
  qed
qed

text \<open>When the expiry timer fires, exactly the reports whose time to live is over are
  removed, every other report keeps its content, and the next expiry lies in the future.\<close>

theorem expiry_drops_exactly_due:
  assumes "hm_ok (ts_agent_metadata t)" "expire_agent_metadata_at t scheduled_deadline now = (t', mu)"
  shows "map (\<lambda>(s, m). (s, metadata_core m)) (ts_agent_metadata t')
      = map (\<lambda>(s, m). (s, metadata_core m)) (filter (\<lambda>(s, m). \<not> agent_metadata_is_expired m now) (ts_agent_metadata t))
    \<and> is_none_or (\<lambda>d. now < d) (next_agent_metadata_expiry t' now)"
proof -
  let ?live = "filter (\<lambda>(s, m). \<not> agent_metadata_is_expired m now) (ts_agent_metadata t)"
  have "filter (\<lambda>(s, m). \<not> (\<exists>m'. (s, m') \<in> set (ts_agent_metadata t) \<and> agent_metadata_is_expired m' now)) (ts_agent_metadata t)
      = ?live"
    using assms(1) by (intro filter_cong) (auto dest: eq_key_imp_eq_value)
  then have core: "map (\<lambda>(s, m). (s, metadata_core m)) (ts_agent_metadata t') = map (\<lambda>(s, m). (s, metadata_core m)) ?live"
    using expire_remaining [of t scheduled_deadline now] assms(2) by auto
  have alive: "now < d" if "(s, m) \<in> set (ts_agent_metadata t')" "agent_metadata_expiry m = Some d" for s m d
  proof -
    from core_member [OF core that(1)] obtain k where k: "(s, k) \<in> set ?live" "metadata_core m = metadata_core k"
      by blast
    from k(1) have "\<not> agent_metadata_is_expired k now" by simp
    moreover have "agent_metadata_expiry k = Some d" using metadata_core_eq(3) [OF k(2)] that(2) by simp
    ultimately show ?thesis by (simp add: agent_metadata_is_expired_def not_le)
  qed
  have "is_none_or (\<lambda>d. now < d) (next_agent_metadata_expiry t' now)"
    unfolding is_none_or_iff
  proof (intro allI impI)
    fix d
    assume "next_agent_metadata_expiry t' now = Some d"
    then have "d \<in> set (List.map_filter agent_metadata_expiry
        (filter (agent_metadata_matches_guards t') (map snd (ts_agent_metadata t'))))"
      unfolding next_agent_metadata_expiry_def Let_def by (auto dest!: min_by_key_Some)
    then show "now < d" unfolding in_map_filter using alive by auto
  qed
  with core show ?thesis by blast
qed

definition demo_expiring :: terminal_state where
  "demo_expiring = demo_terminal\<lparr>ts_agent_metadata :=
     [(''a'', (metadata_from_report demo_report 2)\<lparr>am_source := ''a''\<rparr>), (''my:tool'', metadata_from_report demo_report 20)]\<rparr>"

theorem expiry_drops_exactly_due_witness:
  "map fst (ts_agent_metadata (fst (expire_agent_metadata_at demo_expiring 32 40))) = [''my:tool'']"
proof -
  have "hm_ok (ts_agent_metadata demo_expiring)" by (simp add: demo_expiring_def)
  from expiry_drops_exactly_due [OF this surjective_pairing, of 32 40]
  have "map fst (map (\<lambda>(s, m). (s, metadata_core m)) (ts_agent_metadata (fst (expire_agent_metadata_at demo_expiring 32 40))))
     = map fst (map (\<lambda>(s, m). (s, metadata_core m)) (filter (\<lambda>(s, m). \<not> agent_metadata_is_expired m 40) (ts_agent_metadata demo_expiring)))"
    by simp
  also have "\<dots> = [''my:tool'']"
    by (simp add: demo_expiring_def agent_metadata_is_expired_def agent_metadata_expiry_def metadata_from_report_def
        demo_report_def instant_add_or_self_def instant_checked_add_def instant_max_def)
  finally show ?thesis by (simp add: comp_def case_prod_beta)
qed

subsection \<open>Sequence gates\<close>

text \<open>Whatever hook reports are offered to the sequence gate of a terminal, the numbers it
  accepts from one source are strictly increasing, and once a source numbers its reports an unnumbered
  one is refused.\<close>

theorem hook_gate_increases:
  "sorted_wrt (<) (seq_gate.accepted_seqs accept_hook_report t reports source)
   \<and> (snd (accept_hook_report t source None) \<longleftrightarrow> hook_seq t source = None)"
  using hook_gate.accepted_seqs_increase by (simp add: accept_hook_report_def hook_seq_def)

text \<open>The metadata gate likewise only accepts increasing numbers of a source, and the
  sources that send tokens never exceed the limit of 32.\<close>

theorem metadata_gate_increases_bounded:
  assumes "length (ts_metadata_token_sequence_sources t) \<le> MAX_SEQUENCE_SOURCES"
  shows "sorted_wrt (<) (seq_gate.accepted_seqs (metadata_report_accepted includes_tokens agent) t reports source)
    \<and> length (ts_metadata_token_sequence_sources (seq_gate.run (metadata_report_accepted includes_tokens agent) t reports))
        \<le> MAX_SEQUENCE_SOURCES"
proof -
  have step: "length (ts_metadata_token_sequence_sources (fst (metadata_report_accepted includes_tokens agent u s q)))
      \<le> MAX_SEQUENCE_SOURCES" if "length (ts_metadata_token_sequence_sources u) \<le> MAX_SEQUENCE_SOURCES" for u s q
    using that by (auto simp: metadata_report_accepted_def accept_metadata_report_def Let_def List.insert_def
        split: option.splits)
  have "length (ts_metadata_token_sequence_sources (metadata_gate.run includes_tokens agent u reports)) \<le> MAX_SEQUENCE_SOURCES"
    if "length (ts_metadata_token_sequence_sources u) \<le> MAX_SEQUENCE_SOURCES" for u
    using that
  proof (induction reports arbitrary: u)
    case Nil
    then show ?case by simp
  next
    case (Cons r rs)
    then show ?case using step by (cases r) simp
  qed
  with assms show ?thesis using metadata_gate.accepted_seqs_increase by blast
qed

theorem metadata_gate_increases_bounded_witness:
  "length (ts_metadata_token_sequence_sources (seq_gate.run (metadata_report_accepted True None) demo_terminal
     [(''a'', Some 3), (''b'', Some 1)])) \<le> 32"
  using metadata_gate_increases_bounded [where t = demo_terminal and includes_tokens = True and agent = None
      and reports = "[(''a'', Some 3), (''b'', Some 1)]"]
  by (simp add: MAX_SEQUENCE_SOURCES_def demo_terminal_def terminal_new_def del: metadata_gate.run.simps)

end
