(* ===== verification/PublicIds.thy ===== *)
theory PublicIds
  imports RustStr
begin

section \<open>Public numbers and handles\<close>

text \<open>
  The handles under which workspaces, tabs and panes are known outside the program
  (\<open>src/src/workspace.rs\<close>): a number is written in bijective base 32 over an alphabet
  without look-alike letters, so every non-empty string over the alphabet is the handle of
  exactly one number. Numbers are 64-bit \<open>usize\<close> values and decoding uses the checked
  operations. Also the terminal ids of \<open>src/src/terminal/id.rs\<close>, which concatenate a clock
  reading and a counter in hexadecimal.
\<close>

type_synonym usize = u64

definition checked_mul :: "usize \<Rightarrow> usize \<Rightarrow> usize option" where
  "checked_mul a b = (if unat a * unat b < 2 ^ 64 then Some (a * b) else None)"

definition checked_add :: "usize \<Rightarrow> usize \<Rightarrow> usize option" where
  "checked_add a b = (if unat a + unat b < 2 ^ 64 then Some (a + b) else None)"

definition checked_sub :: "usize \<Rightarrow> usize \<Rightarrow> usize option" where
  "checked_sub a b = (if b \<le> a then Some (a - b) else None)"

subsection \<open>Encoding and decoding\<close>

definition public_id_alphabet :: rstr where
  "public_id_alphabet = ''123456789ABCDEFGHJKMNPQRSTVWXYZ0''"

text \<open>The loop of \<open>encode_public_number\<close>: the digits are pushed least significant first.\<close>

function encode_loop :: "usize \<Rightarrow> rstr \<Rightarrow> rstr" where
  "encode_loop value encoded =
     (if value = 0 then encoded
      else encode_loop ((value - 1) div 32)
             (encoded @ [public_id_alphabet ! unat ((value - 1) mod 32)]))"
  by pat_completeness auto

lemma unat_pred: "v \<noteq> 0 \<Longrightarrow> unat (v - 1 :: 'a::len word) = unat v - 1"
  by (metis unat_minus_one)

lemma pred_div_less:
  fixes v :: usize
  assumes "v \<noteq> 0"
  shows "unat ((v - 1) div 32) < unat v"
proof -
  have "0 < unat v" using assms by (simp add: unat_gt_0)
  then show ?thesis using unat_pred [OF assms] by (simp add: unat_div_distrib)
qed

termination encode_loop
  by (relation "measure (\<lambda>(value, encoded). unat value)") (auto simp: pred_div_less)

declare encode_loop.simps [simp del]

definition encode_public_number :: "usize \<Rightarrow> rstr" where
  "encode_public_number value = (if value = 0 then ''0'' else rev (encode_loop value []))"

fun decode_loop :: "usize \<Rightarrow> rstr list \<Rightarrow> usize option" where
  "decode_loop decoded [] = Some decoded"
| "decode_loop decoded (ch # chs) =
     (case position (\<lambda>c. [c] = ch) public_id_alphabet of
        None \<Rightarrow> None
      | Some digit \<Rightarrow>
          (case checked_mul decoded 32 of
             None \<Rightarrow> None
           | Some m \<Rightarrow>
               (case checked_add m (of_nat (digit + 1)) of
                  None \<Rightarrow> None
                | Some d \<Rightarrow> decode_loop d chs)))"

definition decode_public_number :: "rstr \<Rightarrow> usize option" where
  "decode_public_number value = decode_loop 0 (chars value)"

definition public_workspace_number :: "rstr \<Rightarrow> usize option" where
  "public_workspace_number i = Option.bind (strip_prefix ''w'' i) decode_public_number"

definition public_pane_id_for_number :: "rstr \<Rightarrow> usize \<Rightarrow> rstr" where
  "public_pane_id_for_number workspace_id pane_number =
     workspace_id @ '':p'' @ encode_public_number pane_number"

definition public_tab_id_for_number :: "rstr \<Rightarrow> usize \<Rightarrow> rstr" where
  "public_tab_id_for_number workspace_id tab_number =
     workspace_id @ '':t'' @ encode_public_number tab_number"

text \<open>\<open>generate_workspace_id\<close>: the atomic counter is threaded as a value; \<open>fetch_add\<close> wraps.\<close>

definition generate_workspace_id :: "u64 \<Rightarrow> rstr \<times> u64" where
  "generate_workspace_id next_id = (''w'' @ encode_public_number next_id, next_id + 1)"

subsection \<open>One digit\<close>

definition decode_step :: "usize \<Rightarrow> rstr \<Rightarrow> usize option" where
  "decode_step d ch = decode_loop d [ch]"

lemma decode_loop_append:
  "decode_loop d (xs @ ys) = Option.bind (decode_loop d xs) (\<lambda>e. decode_loop e ys)"
  by (induction d xs rule: decode_loop.induct) (auto simp del: position_None split: option.splits)

lemma length_alphabet: "length public_id_alphabet = 32"
  by (simp add: public_id_alphabet_def)

lemma distinct_alphabet: "distinct public_id_alphabet"
  by (simp add: public_id_alphabet_def)

lemma position_nth:
  "distinct xs \<Longrightarrow> i < length xs \<Longrightarrow> position (\<lambda>c. [c] = [xs ! i]) xs = Some i"
  by (induction xs arbitrary: i) (auto simp: nth_Cons split: nat.splits)

lemma position_digit: "position (\<lambda>c. [c] = ch) public_id_alphabet = Some i
    \<longleftrightarrow> i < 32 \<and> ch = [public_id_alphabet ! i]"
  using position_nth [OF distinct_alphabet, of i]
  by (auto simp: length_alphabet dest!: position_Some)

text \<open>A digit takes the prefix value \<open>d\<close> to \<open>32 * d + i + 1\<close>, unless that does not fit.\<close>

lemma decode_step_iff:
  "decode_step d ch = Some v \<longleftrightarrow>
     (\<exists>i < 32. ch = [public_id_alphabet ! i] \<and> unat v = 32 * unat d + i + 1)"
proof
  assume "decode_step d ch = Some v"
  then obtain i m where i: "i < 32" "ch = [public_id_alphabet ! i]"
    and m: "checked_mul d 32 = Some m" and v: "checked_add m (of_nat (i + 1)) = Some v"
    by (auto simp: decode_step_def position_digit split: option.splits)
  have um: "unat m = 32 * unat d" using m
    by (auto simp: checked_mul_def unat_word_ariths split: if_splits)
  have ui: "unat (of_nat (i + 1) :: usize) = i + 1" using i(1) by (simp only: unat_of_nat) simp
  have "unat m + (i + 1) < 2 ^ 64" "v = m + of_nat (i + 1)"
    using v ui unfolding checked_add_def by (auto split: if_splits)
  with ui um have "unat v = 32 * unat d + i + 1" using unat_add_no_wrap [of m "of_nat (i + 1)"] by simp
  with i show "\<exists>i < 32. ch = [public_id_alphabet ! i] \<and> unat v = 32 * unat d + i + 1" by blast
next
  assume "\<exists>i < 32. ch = [public_id_alphabet ! i] \<and> unat v = 32 * unat d + i + 1"
  then obtain i where i: "i < 32" "ch = [public_id_alphabet ! i]" and v: "unat v = 32 * unat d + i + 1"
    by blast
  have ui: "unat (of_nat (i + 1) :: usize) = i + 1" using i(1) by (simp only: unat_of_nat) simp
  have lt: "unat v < 2 ^ 64" by (rule order_less_le_trans [OF unsigned_less]) simp
  with v have m: "checked_mul d 32 = Some (d * 32)" "unat (d * 32) = 32 * unat d"
    by (simp_all add: checked_mul_def unat_word_ariths)
  from lt v m(2) ui have "unat (d * 32) + unat (of_nat (i + 1) :: usize) < 2 ^ 64" by linarith
  moreover from this have "d * 32 + of_nat (i + 1) = v"
    using v m(2) ui unat_add_no_wrap [of "d * 32" "of_nat (i + 1)"]
    by (intro word_unat_eq_iff [THEN iffD2]) simp
  ultimately show "decode_step d ch = Some v"
    using i m(1) position_digit [of ch i]
    unfolding decode_step_def by (simp add: checked_add_def del: of_nat_add of_nat_Suc)
qed

lemma encode_loop_acc: "encode_loop v (a @ acc) = a @ encode_loop v acc"
proof (induction v acc rule: encode_loop.induct)
  case (1 v acc)
  then show ?case
    using encode_loop.simps [of v acc] encode_loop.simps [of v "a @ acc"] by (cases "v = 0") auto
qed

lemma encode_public_number_unfold:
  "v \<noteq> 0 \<Longrightarrow> encode_public_number v
    = (if (v - 1) div 32 = 0 then [] else encode_public_number ((v - 1) div 32))
        @ [public_id_alphabet ! unat ((v - 1) mod 32)]"
  using encode_loop.simps [of v "[]"] encode_loop.simps [of 0]
    encode_loop_acc [of "(v - 1) div 32" "[public_id_alphabet ! unat ((v - 1) mod 32)]" "[]"]
  by (simp add: encode_public_number_def)

subsection \<open>Decoding what was encoded\<close>

lemma alphabet_ascii: "c \<in> set public_id_alphabet \<Longrightarrow> byte c < 128"
  by (auto simp: public_id_alphabet_def byte_def)

lemma digit_in_alphabet: "i < 32 \<Longrightarrow> public_id_alphabet ! i \<in> set public_id_alphabet"
  by (simp add: length_alphabet)

lemma unat_mod_32: "unat ((v :: usize) mod 32) < 32"
  by (simp add: unat_mod_distrib)

lemma encode_in_alphabet: "set (encode_public_number v) \<subseteq> set public_id_alphabet"
proof (induction v rule: measure_induct_rule [of unat])
  case (less v)
  show ?case
  proof (cases "v = 0")
    case True
    then show ?thesis by (simp add: encode_public_number_def public_id_alphabet_def)
  next
    case False
    from less [OF pred_div_less [OF False]] digit_in_alphabet [OF unat_mod_32, of "v - 1"]
    show ?thesis unfolding encode_public_number_unfold [OF False] by auto
  qed
qed

lemma chars_encode: "chars (encode_public_number v) = map (\<lambda>c. [c]) (encode_public_number v)"
  using encode_in_alphabet [of v] alphabet_ascii by (intro chars_ascii) (auto simp: list_all_iff)

lemma pred_div_mod:
  fixes v :: usize
  assumes "v \<noteq> 0"
  shows "unat v = 32 * unat ((v - 1) div 32) + unat ((v - 1) mod 32) + 1"
proof -
  have "0 < unat v" using assms by (simp add: unat_gt_0)
  then show ?thesis
    using unat_pred [OF assms] by (simp add: unat_div_distrib unat_mod_distrib)
qed

lemma decode_encode: "v \<noteq> 0 \<Longrightarrow> decode_public_number (encode_public_number v) = Some v"
proof (induction v rule: measure_induct_rule [of unat])
  case (less v)
  let ?d = "(v - 1) div 32" and ?c = "public_id_alphabet ! unat ((v - 1) mod 32)"
  have step: "decode_loop ?d [[?c]] = Some v"
    using pred_div_mod [OF less.prems] unat_mod_32 [of "v - 1"]
      decode_step_iff [of ?d "[?c]" v] unfolding decode_step_def by auto
  show ?case
  proof (cases "?d = 0")
    case True
    with step show ?thesis
      using encode_public_number_unfold [OF less.prems] chars_encode [of v]
      by (simp add: decode_public_number_def del: chars.simps decode_loop.simps)
  next
    case False
    from less.IH [OF pred_div_less [OF less.prems] False]
    have "decode_loop 0 (map (\<lambda>c. [c]) (encode_public_number ?d)) = Some ?d"
      by (simp add: decode_public_number_def chars_encode)
    moreover have "encode_public_number v = encode_public_number ?d @ [?c]"
      using encode_public_number_unfold [OF less.prems] False by simp
    then have "chars (encode_public_number v) = map (\<lambda>c. [c]) (encode_public_number ?d) @ [[?c]]"
      unfolding chars_encode by simp
    ultimately show ?thesis
      using step unfolding decode_public_number_def by (simp only: decode_loop_append bind.simps)
  qed
qed

text \<open>Conversely a decoded string is the handle of its value.\<close>

lemma decode_loop_canonical:
  assumes "decode_loop 0 cs = Some v"
  shows "(cs = [] \<longleftrightarrow> v = 0) \<and> (cs \<noteq> [] \<longrightarrow> concat cs = encode_public_number v)"
  using assms
proof (induction cs arbitrary: v rule: rev_induct)
  case Nil
  then show ?case by simp
next
  case (snoc ch cs)
  from snoc.prems obtain d where d: "decode_loop 0 cs = Some d" "decode_step d ch = Some v"
    by (auto simp: decode_loop_append decode_step_def simp del: decode_loop.simps split: bind_splits)
  from d(2) obtain i where i: "i < 32" "ch = [public_id_alphabet ! i]" "unat v = 32 * unat d + i + 1"
    unfolding decode_step_iff by blast
  have v: "v \<noteq> 0" using i(3) by auto
  have "32 * a + i + 1 = 32 * b + j + 1 \<Longrightarrow> i < 32 \<Longrightarrow> j < 32 \<Longrightarrow> b = a \<and> j = i" for a b j :: nat
    by presburger
  from this [OF _ i(1) unat_mod_32 [of "v - 1"], of "unat d" "unat ((v - 1) div 32)"]
  have "unat ((v - 1) div 32) = unat d \<and> unat ((v - 1) mod 32) = i"
    using i(3) pred_div_mod [OF v] by simp
  then have split: "(v - 1) div 32 = d" "unat ((v - 1) mod 32) = i"
    by (simp_all add: word_unat_eq_iff)
  from snoc.IH [OF d(1)] v i(2) show ?case
    unfolding encode_public_number_unfold [OF v] split by auto
qed

text \<open>A public number and its handle correspond one to one: for every positive
  64-bit number, decoding a string gives that number exactly when the string is the handle
  the number is written as. So no two strings name the same pane, tab or workspace number,
  no overflow of the checked arithmetic loses a number, and the encoding loop ends.\<close>

theorem public_number_handle_iff:
  assumes "n \<noteq> 0"
  shows "decode_public_number s = Some n \<longleftrightarrow> s = encode_public_number n"
proof
  assume "decode_public_number s = Some n"
  with assms decode_loop_canonical [of "chars s" n]
  show "s = encode_public_number n" by (auto simp: decode_public_number_def simp del: chars.simps)
qed (simp add: decode_encode assms)

theorem public_number_handle_iff_witness:
  "decode_public_number ''5V'' = Some 189 \<longleftrightarrow> ''5V'' = encode_public_number 189"
  using public_number_handle_iff [of 189 "''5V''"] by simp

lemma decode_zero_iff: "decode_public_number s = Some 0 \<longleftrightarrow> s = []"
  using decode_loop_canonical [of "chars s" 0]
  by (auto simp: decode_public_number_def simp del: chars.simps) simp

lemma encode_inj: "m \<noteq> 0 \<Longrightarrow> n \<noteq> 0 \<Longrightarrow> encode_public_number m = encode_public_number n \<longleftrightarrow> m = n"
  by (metis decode_encode option.inject)

lemma encode_nonempty: "encode_public_number n \<noteq> []"
  using encode_public_number_unfold [of n] by (cases "n = 0") (auto simp: encode_public_number_def)

lemma encode_no_colon: "CHR '':'' \<notin> set (encode_public_number n)"
proof
  assume "CHR '':'' \<in> set (encode_public_number n)"
  with encode_in_alphabet [of n] have "CHR '':'' \<in> set public_id_alphabet" by blast
  then show False by (simp add: public_id_alphabet_def)
qed

subsection \<open>Terminal ids\<close>

text \<open>\<open>{:x}\<close> of a number, without leading zeros.\<close>

definition hex_digits :: rstr where
  "hex_digits = ''0123456789abcdef''"

fun lower_hex :: "nat \<Rightarrow> rstr" where
  "lower_hex n = (if n < 16 then [hex_digits ! n] else lower_hex (n div 16) @ [hex_digits ! (n mod 16)])"

declare lower_hex.simps [simp del]

text \<open>\<open>TerminalId::alloc\<close>: the microseconds since 1970 (0 for a clock before it) and the counter.\<close>

definition terminal_id_alloc :: "nat \<Rightarrow> u64 \<Rightarrow> rstr \<times> u64" where
  "terminal_id_alloc micros counter =
     (''term_'' @ lower_hex micros @ lower_hex (unat counter), counter + 1)"

lemma terminal_id_alloc_snd [simp]: "snd (terminal_id_alloc micros counter) = counter + 1"
  by (simp add: terminal_id_alloc_def)

lemma hex_digit_inj: "i < 16 \<Longrightarrow> j < 16 \<Longrightarrow> hex_digits ! i = hex_digits ! j \<longleftrightarrow> i = j"
proof -
  have "distinct hex_digits" "length hex_digits = 16" by (simp_all add: hex_digits_def)
  then show "i < 16 \<Longrightarrow> j < 16 \<Longrightarrow> hex_digits ! i = hex_digits ! j \<longleftrightarrow> i = j"
    by (simp add: nth_eq_iff_index_eq)
qed

lemma lower_hex_nonempty [simp]: "lower_hex n \<noteq> []" "[] \<noteq> lower_hex n"
  by (subst lower_hex.simps, simp) (subst lower_hex.simps, simp)

lemma div_mod_eq: "m div 16 = n div 16 \<Longrightarrow> m mod 16 = n mod 16 \<Longrightarrow> m = (n :: nat)"
  by (metis div_mult_mod_eq)

lemma lower_hex_inj: "lower_hex m = lower_hex n \<longleftrightarrow> m = n"
proof (induction m arbitrary: n rule: less_induct)
  case (less m)
  show ?case
  proof (cases "m < 16 \<or> n < 16")
    case True
    then show ?thesis
      using hex_digit_inj by (auto simp: lower_hex.simps [of m] lower_hex.simps [of n] split: if_splits)
  next
    case False
    then have "lower_hex (m div 16) = lower_hex (n div 16) \<longleftrightarrow> m div 16 = n div 16"
      by (intro less) simp
    with False show ?thesis
      using hex_digit_inj [of "m mod 16" "n mod 16"] div_mod_eq [of m n]
      by (auto simp: lower_hex.simps [of m] lower_hex.simps [of n])
  qed
qed

lemma length_lower_hex: "16 ^ k \<le> n \<Longrightarrow> n < 16 ^ Suc k \<Longrightarrow> length (lower_hex n) = Suc k"
proof (induction k arbitrary: n)
  case 0
  then show ?case by (simp add: lower_hex.simps)
next
  case (Suc k)
  have "(1 :: nat) \<le> 16 ^ k" by simp
  with Suc.prems have "\<not> n < 16" by (simp only: power_Suc)
  with Suc.prems have ge: "16 ^ k \<le> n div 16" "n div 16 < 16 ^ Suc k" "\<not> n < 16"
    by (auto simp: less_mult_imp_div_less less_eq_div_iff_mult_less_eq mult.commute)
  from Suc.IH [OF ge(1,2)] ge(3) show ?case by (simp add: lower_hex.simps [of n])
qed

text \<open>
  The two readings are concatenated without a separator, so ids can only be told apart while
  the clock has a fixed number of digits: thirteen from 1978 to 2112.
\<close>

definition clock_in_range :: "nat \<Rightarrow> bool" where
  "clock_in_range micros \<longleftrightarrow> 16 ^ 12 \<le> micros \<and> micros < 16 ^ 13"

lemma terminal_id_alloc_inj:
  assumes "clock_in_range m" "clock_in_range m'"
    and "fst (terminal_id_alloc m c) = fst (terminal_id_alloc m' c')"
  shows "m = m' \<and> c = c'"
proof -
  have "length (lower_hex m) = 13" "length (lower_hex m') = 13"
    using assms(1,2) length_lower_hex [of 12] by (simp_all add: clock_in_range_def)
  with assms(3) show ?thesis
    by (auto simp: terminal_id_alloc_def lower_hex_inj word_unat_eq_iff)
qed

end
