(* ===== verification/Tabs.thy ===== *)
theory Tabs
  imports Layout TerminalState PublicIds "HOL-Library.Multiset"
begin

section \<open>Tabs\<close>

text \<open>
  The model of \<open>src/src/workspace/tab.rs\<close> with \<open>PaneState\<close> of \<open>src/src/pane/state.rs\<close> and
  \<open>PaneLaunchEnv\<close> of \<open>src/src/pane.rs\<close>. Spawning a terminal runtime is a parameter
  \<open>spawn\<close> that answers a request with an error message or with success; the geometry, theme
  and channel arguments the code only hands on to it are left out. The global counters of
  pane and terminal ids are threaded through, and a clock reading is an argument. A panic is
  the result \<open>None\<close> of an operation that can panic.
\<close>

subsection \<open>State\<close>

record pane_state =
  ps_attached_terminal_id :: rstr
  ps_seen :: bool
  ps_right_click_passthrough :: bool

definition pane_state_new :: "rstr \<Rightarrow> pane_state" where
  "pane_state_new tid =
     \<lparr>ps_attached_terminal_id = tid, ps_seen = True, ps_right_click_passthrough = False\<rparr>"

datatype pane_launch_identity = Inherit | Managed (mgd_workspace: rstr) (mgd_tab: rstr) (mgd_pane: rstr) | OmitPane

record pane_launch_env =
  le_extra :: "(rstr \<times> rstr) list"
  le_identity :: pane_launch_identity

definition launch_env_from_extra :: "(rstr \<times> rstr) list \<Rightarrow> pane_launch_env" where
  "launch_env_from_extra extra = \<lparr>le_extra = extra, le_identity = Inherit\<rparr>"

definition with_identity :: "pane_launch_env \<Rightarrow> rstr \<Rightarrow> rstr \<Rightarrow> rstr \<Rightarrow> pane_launch_env" where
  "with_identity e workspace_id tab_id pane_id = e\<lparr>le_identity := Managed workspace_id tab_id pane_id\<rparr>"

text \<open>What a new pane runs: a login shell, one shell command or an argument vector.\<close>

datatype split_command = LoginShell | ShellCommand rstr | Argv "rstr list"

record spawn_request =
  sr_pane_id :: pane_id
  sr_cwd :: rstr
  sr_command :: split_command
  sr_launch_env :: pane_launch_env

type_synonym spawner = "spawn_request \<Rightarrow> rstr option"

datatype split_error = SplitTargetMissing | SpawnFailed rstr

text \<open>The counters behind \<open>PaneId::alloc\<close> and \<open>TerminalId::alloc\<close>.\<close>

record id_counters =
  ic_pane :: u32
  ic_terminal :: u64

record tab =
  tab_custom_name :: "rstr option"
  tab_number :: usize
  tab_root_pane :: pane_id
  tab_layout :: tile_layout
  tab_panes :: "(pane_id, pane_state) hmap"
  tab_zoomed :: bool

record new_pane =
  np_pane_id :: pane_id
  np_terminal :: terminal_state

record moved_pane =
  mp_pane_id :: pane_id
  mp_pane_state :: pane_state

subsection \<open>Operations\<close>

definition new_terminal :: "rstr \<Rightarrow> rstr \<Rightarrow> split_command \<Rightarrow> terminal_state" where
  "new_terminal tid cwd command =
     (case command of Argv argv \<Rightarrow> with_launch_argv (terminal_new tid cwd) argv | _ \<Rightarrow> terminal_new tid cwd)"

definition tab_new_with_runtime ::
  "spawner \<Rightarrow> usize \<Rightarrow> rstr \<Rightarrow> split_command \<Rightarrow> pane_launch_env \<Rightarrow> nat \<Rightarrow> id_counters \<Rightarrow>
   (rstr + tab \<times> terminal_state) \<times> id_counters" where
  "tab_new_with_runtime spawn number initial_cwd command launch_env micros ids =
     (let ((layout, root_id), next_pane) = tile_layout_new (ic_pane ids);
          ids1 = ids\<lparr>ic_pane := next_pane\<rparr>
      in (case spawn \<lparr>sr_pane_id = root_id, sr_cwd = initial_cwd, sr_command = command, sr_launch_env = launch_env\<rparr> of
            Some err \<Rightarrow> (Inl err, ids1)
          | None \<Rightarrow>
              (let (tid, next_terminal) = terminal_id_alloc micros (ic_terminal ids1)
               in (Inr (\<lparr>tab_custom_name = None, tab_number = number, tab_root_pane = root_id,
                         tab_layout = layout, tab_panes = hm_insert [] root_id (pane_state_new tid),
                         tab_zoomed = False\<rparr>, new_terminal tid initial_cwd command),
                   ids1\<lparr>ic_terminal := next_terminal\<rparr>))))"

definition is_auto_named :: "tab \<Rightarrow> bool" where
  "is_auto_named t \<longleftrightarrow> tab_custom_name t = None"

definition tab_set_custom_name :: "tab \<Rightarrow> rstr \<Rightarrow> tab" where
  "tab_set_custom_name t name = t\<lparr>tab_custom_name := Some name\<rparr>"

text \<open>Splitting: the layout grows first; a failed spawn closes the new pane again.\<close>

definition tab_split_pane_with_runtime ::
  "spawner \<Rightarrow> tab \<Rightarrow> pane_id \<Rightarrow> bool \<Rightarrow> direction \<Rightarrow> f32 option \<Rightarrow> rstr option \<Rightarrow> rstr option \<Rightarrow>
   pane_launch_env \<Rightarrow> split_command \<Rightarrow> nat \<Rightarrow> id_counters \<Rightarrow>
   ((split_error + new_pane) \<times> tab \<times> id_counters) option" where
  "tab_split_pane_with_runtime spawn t target focus_new_pane d ratio cwd current_dir launch_env command micros ids =
     (case split_pane (tab_layout t) target d (case ratio of Some r \<Rightarrow> r | None \<Rightarrow> f32_half) (ic_pane ids) of
        ((l1, None), next_pane) \<Rightarrow> Some (Inl SplitTargetMissing, t\<lparr>tab_layout := l1\<rparr>, ids\<lparr>ic_pane := next_pane\<rparr>)
      | ((l1, Some new_id), next_pane) \<Rightarrow>
          (let ids1 = ids\<lparr>ic_pane := next_pane\<rparr>;
               actual_cwd = (case cwd of Some c \<Rightarrow> c
                 | None \<Rightarrow> (case current_dir of Some c \<Rightarrow> c | None \<Rightarrow> ''/''))
           in (case spawn \<lparr>sr_pane_id = new_id, sr_cwd = actual_cwd, sr_command = command, sr_launch_env = launch_env\<rparr> of
                 Some err \<Rightarrow>
                   (case close_pane l1 new_id of
                      None \<Rightarrow> None
                    | Some (l2, _) \<Rightarrow> Some (Inl (SpawnFailed err), t\<lparr>tab_layout := l2\<rparr>, ids1))
               | None \<Rightarrow>
                   (let (tid, next_terminal) = terminal_id_alloc micros (ic_terminal ids1);
                        l2 = (if focus_new_pane then focus_pane l1 new_id else l1)
                    in Some (Inr \<lparr>np_pane_id = new_id, np_terminal = new_terminal tid actual_cwd command\<rparr>,
                             t\<lparr>tab_layout := l2, tab_panes := hm_insert (tab_panes t) new_id (pane_state_new tid),
                               tab_zoomed := False\<rparr>,
                             ids1\<lparr>ic_terminal := next_terminal\<rparr>)))))"

definition promoted_root_if_needed :: "tab \<Rightarrow> pane_id \<Rightarrow> pane_id option" where
  "promoted_root_if_needed t closing =
     (if tab_root_pane t \<noteq> closing then None
      else find (\<lambda>i. i \<noteq> closing) (pane_ids (tab_layout t)))"

text \<open>\<open>detach_pane\<close>, which \<open>close_pane\<close> and \<open>remove_pane\<close> of a tab both are.\<close>

definition detach_pane :: "tab \<Rightarrow> pane_id \<Rightarrow> (tab \<times> (pane_id \<times> rstr) option) option" where
  "detach_pane t i =
     (if pane_count (tab_layout t) \<le> 1 then Some (t, None)
      else (let next_root = promoted_root_if_needed t i
            in (case close_pane (tab_layout t) i of
                  None \<Rightarrow> None
                | Some (l', _) \<Rightarrow>
                    (let t1 = t\<lparr>tab_layout := l'\<rparr>
                     in (case hm_get (tab_panes t1) i of
                           None \<Rightarrow> Some (t1, None)
                         | Some pane \<Rightarrow>
                             Some (t1\<lparr>tab_panes := hm_remove (tab_panes t1) i, tab_zoomed := False,
                                      tab_root_pane := (case next_root of Some r \<Rightarrow> r | None \<Rightarrow> tab_root_pane t1)\<rparr>,
                                   Some (i, ps_attached_terminal_id pane)))))))"

definition tab_from_existing_pane :: "usize \<Rightarrow> rstr option \<Rightarrow> moved_pane \<Rightarrow> tab" where
  "tab_from_existing_pane number custom_name moved =
     \<lparr>tab_custom_name = custom_name, tab_number = number, tab_root_pane = mp_pane_id moved,
      tab_layout = from_saved (Pane (mp_pane_id moved)) (mp_pane_id moved),
      tab_panes = hm_insert [] (mp_pane_id moved) (mp_pane_state moved), tab_zoomed = False\<rparr>"

definition tab_take_pane_for_move :: "tab \<Rightarrow> pane_id \<Rightarrow> (tab \<times> moved_pane option) option" where
  "tab_take_pane_for_move t i =
     (if \<not> hm_contains (tab_panes t) i then Some (t, None)
      else (case (if 1 < pane_count (tab_layout t)
                  then (let next_root = promoted_root_if_needed t i
                        in (case close_pane (tab_layout t) i of
                              None \<Rightarrow> None
                            | Some (l', _) \<Rightarrow>
                                Some (t\<lparr>tab_layout := l',
                                        tab_root_pane := (case next_root of Some r \<Rightarrow> r | None \<Rightarrow> tab_root_pane t)\<rparr>)))
                  else Some t) of
              None \<Rightarrow> None
            | Some t1 \<Rightarrow>
                (case hm_get (tab_panes t1) i of
                   None \<Rightarrow> Some (t1, None)
                 | Some pane \<Rightarrow>
                     Some (t1\<lparr>tab_panes := hm_remove (tab_panes t1) i, tab_zoomed := False\<rparr>,
                           Some \<lparr>mp_pane_id = i, mp_pane_state = pane\<rparr>))))"

definition insert_existing_pane ::
  "tab \<Rightarrow> pane_id \<Rightarrow> moved_pane \<Rightarrow> direction \<Rightarrow> f32 \<Rightarrow> bool \<Rightarrow> tab \<times> (moved_pane + pane_id)" where
  "insert_existing_pane t target moved d ratio fcs =
     (case insert_pane_near (tab_layout t) target (mp_pane_id moved) d ratio fcs of
        (l', False) \<Rightarrow> (t\<lparr>tab_layout := l'\<rparr>, Inl moved)
      | (l', True) \<Rightarrow>
          (t\<lparr>tab_layout := l', tab_panes := hm_insert (tab_panes t) (mp_pane_id moved) (mp_pane_state moved),
             tab_zoomed := False\<rparr>, Inr (mp_pane_id moved)))"

definition tab_terminal_id :: "tab \<Rightarrow> pane_id \<Rightarrow> rstr option" where
  "tab_terminal_id t i = map_option ps_attached_terminal_id (hm_get (tab_panes t) i)"

subsection \<open>Well-formed tabs\<close>

text \<open>The layout is well formed, the map holds exactly its panes, the root is one of them.\<close>

definition tab_wf :: "tab \<Rightarrow> bool" where
  "tab_wf t \<longleftrightarrow> layout_wf (tab_layout t)
     \<and> panes_match (pane_ids (tab_layout t)) (tab_panes t) (tab_root_pane t)"

definition tab_pane_ids :: "tab \<Rightarrow> pane_id list" where
  "tab_pane_ids t = pane_ids (tab_layout t)"

lemma tab_wf_contains: "tab_wf t \<Longrightarrow> hm_contains (tab_panes t) i \<longleftrightarrow> i \<in> set (tab_pane_ids t)"
  unfolding tab_wf_def tab_pane_ids_def by (intro panes_match_contains) blast

lemma tab_wf_root: "tab_wf t \<Longrightarrow> tab_root_pane t \<in> set (tab_pane_ids t)"
  by (simp add: tab_wf_def panes_match_def tab_pane_ids_def)

lemma tab_wf_distinct: "tab_wf t \<Longrightarrow> distinct (tab_pane_ids t)"
  by (simp add: tab_wf_def layout_wf_def tab_pane_ids_def)

lemma tab_wf_keys: "tab_wf t \<Longrightarrow> fst ` set (tab_panes t) = set (tab_pane_ids t)"
  by (simp add: tab_wf_def panes_match_def tab_pane_ids_def)

lemma tab_wf_hm: "tab_wf t \<Longrightarrow> hm_ok (tab_panes t)"
  by (simp add: tab_wf_def panes_match_def)

lemma mset_hm_insert: "i \<notin> fst ` set m \<Longrightarrow> mset (hm_insert m i v) = add_mset (i, v) (mset m)"
  by (induction m) auto

lemma mset_hm_remove:
  "hm_ok m \<Longrightarrow> hm_get m i = Some v \<Longrightarrow> mset m = add_mset (i, v) (mset (hm_remove m i))"
proof (induction m)
  case (Cons p m)
  show ?case
  proof (cases "fst p = i")
    case True
    with Cons.prems(1) have "i \<notin> fst ` set m" by auto
    then have "hm_remove m i = m" by (rule AList.delete_id)
    with True Cons.prems(2) show ?thesis by (cases p) simp
  next
    case False
    with Cons show ?thesis by (cases p) simp
  qed
qed simp

text \<open>A new tab.\<close>

lemma new_terminal_id [simp]: "ts_id (new_terminal tid cwd command) = tid"
  by (simp add: new_terminal_def with_launch_argv_def terminal_new_def split: split_command.splits)

lemma tab_new_cases:
  assumes "tab_new_with_runtime spawn number cwd command env micros ids = (res, ids')"
  obtains (failed) err where "res = Inl err" "ids' = ids\<lparr>ic_pane := ic_pane ids + 1\<rparr>"
  | (created) t trm where "res = Inr (t, trm)" "ids' = \<lparr>ic_pane = ic_pane ids + 1, ic_terminal = ic_terminal ids + 1\<rparr>"
      "tab_wf t" "tab_pane_ids t = [ic_pane ids]" "tab_root_pane t = ic_pane ids" "tab_number t = number"
      "tab_panes t = [(ic_pane ids, pane_state_new (fst (terminal_id_alloc micros (ic_terminal ids))))]"
      "ts_id trm = fst (terminal_id_alloc micros (ic_terminal ids))"
proof (cases "spawn \<lparr>sr_pane_id = ic_pane ids, sr_cwd = cwd, sr_command = command, sr_launch_env = env\<rparr>")
  case None
  with assms created show ?thesis
    by (cases ids)
       (auto simp: tab_new_with_runtime_def tile_layout_new_def pane_id_alloc_def case_prod_beta Let_def
        tab_wf_def layout_wf_def pane_ids_def panes_match_def tab_pane_ids_def)
next
  case (Some err)
  with assms failed show ?thesis
    by (auto simp: tab_new_with_runtime_def tile_layout_new_def pane_id_alloc_def)
qed

lemma tab_from_existing_wf:
  "tab_wf (tab_from_existing_pane number nm moved)"
  "tab_pane_ids (tab_from_existing_pane number nm moved) = [mp_pane_id moved]"
  "tab_root_pane (tab_from_existing_pane number nm moved) = mp_pane_id moved"
  "tab_number (tab_from_existing_pane number nm moved) = number"
  "tab_panes (tab_from_existing_pane number nm moved) = [(mp_pane_id moved, mp_pane_state moved)]"
  by (simp_all add: tab_from_existing_pane_def tab_wf_def layout_wf_def pane_ids_def panes_match_def
      from_saved_def tab_pane_ids_def)

text \<open>Splitting a pane: a failure changes nothing but the counter, a success adds one pane.\<close>

lemma tab_split_cases:
  assumes wf: "tab_wf t" and fresh: "ic_pane ids \<notin> set (tab_pane_ids t)"
  obtains (missing) "target \<notin> set (tab_pane_ids t)"
      "tab_split_pane_with_runtime spawn t target fcs d ratio cwd cur env command micros ids
         = Some (Inl SplitTargetMissing, t, ids)"
  | (failed) err where "target \<in> set (tab_pane_ids t)"
      "tab_split_pane_with_runtime spawn t target fcs d ratio cwd cur env command micros ids
         = Some (Inl (SpawnFailed err), t, ids\<lparr>ic_pane := ic_pane ids + 1\<rparr>)"
  | (split) np t' where "target \<in> set (tab_pane_ids t)"
      "tab_split_pane_with_runtime spawn t target fcs d ratio cwd cur env command micros ids
         = Some (Inr np, t', \<lparr>ic_pane = ic_pane ids + 1, ic_terminal = ic_terminal ids + 1\<rparr>)"
      "np_pane_id np = ic_pane ids" "ts_id (np_terminal np) = fst (terminal_id_alloc micros (ic_terminal ids))"
      "tab_wf t'" "set (tab_pane_ids t') = insert (ic_pane ids) (set (tab_pane_ids t))"
      "tab_panes t' = hm_insert (tab_panes t) (ic_pane ids)
         (pane_state_new (fst (terminal_id_alloc micros (ic_terminal ids))))"
      "tab_number t' = tab_number t" "tab_root_pane t' = tab_root_pane t"
proof -
  let ?r = "case ratio of Some r \<Rightarrow> r | None \<Rightarrow> f32_half"
  note unf = tab_split_pane_with_runtime_def Let_def
  have lwf: "layout_wf (tab_layout t)" and nf: "ic_pane ids \<notin> set (pane_ids (tab_layout t))"
    and match: "panes_match (pane_ids (tab_layout t)) (tab_panes t) (tab_root_pane t)"
    using wf fresh by (simp_all add: tab_wf_def tab_pane_ids_def)
  obtain l1 new next_pane where sp: "split_pane (tab_layout t) target d ?r (ic_pane ids) = ((l1, new), next_pane)"
    by (metis prod.exhaust)
  show ?thesis
  proof (cases new)
    case None
    with sp split_pane_None have "l1 = tab_layout t" "next_pane = ic_pane ids" "target \<notin> set (pane_ids (tab_layout t))"
      by blast+
    with sp None missing show ?thesis by (simp add: unf tab_pane_ids_def)
  next
    case (Some i)
    from split_pane_as_insert [OF nf sp [unfolded Some]]
    have i: "i = ic_pane ids" "next_pane = ic_pane ids + 1"
      and ins: "insert_pane_near (tab_layout t) target i d ?r False = (l1, True)" by simp_all
    have target: "target \<in> set (tab_pane_ids t)"
      using insert_pane_near_adds [OF ins] by (simp add: tab_pane_ids_def)
    define cwd' where "cwd' = (case cwd of Some c \<Rightarrow> c | None \<Rightarrow> (case cur of Some c \<Rightarrow> c | None \<Rightarrow> ''/''))"
    define req where "req = \<lparr>sr_pane_id = i, sr_cwd = cwd', sr_command = command, sr_launch_env = env\<rparr>"
    show ?thesis
    proof (cases "spawn req")
      case (Some err)
      have "close_pane l1 i = Some (tab_layout t, True)"
        using close_after_split [OF lwf nf] sp \<open>new = Some i\<close> by blast
      with sp \<open>new = Some i\<close> Some i(2) target failed [of err] show ?thesis
        by (simp add: unf flip: cwd'_def) (simp add: req_def)
    next
      case None
      let ?l2 = "if fcs then focus_pane l1 i else l1"
      let ?p = "pane_state_new (fst (terminal_id_alloc micros (ic_terminal ids)))"
      have m1: "layout_wf l1 \<and> panes_match (pane_ids l1) (hm_insert (tab_panes t) i ?p) (tab_root_pane t)"
        using layout_tree.insert_match [OF lwf match, of "(d, ?r, False)" target i l1 ?p] ins by simp
      then have "layout_wf ?l2 \<and> panes_match (pane_ids ?l2) (hm_insert (tab_panes t) i ?p) (tab_root_pane t)"
        using layout_tree.focus_match [OF conjunct1 [OF m1] conjunct2 [OF m1], of i] by simp
      moreover have "set (pane_ids ?l2) = insert i (set (pane_ids (tab_layout t)))"
        using insert_pane_near_adds [OF ins] layout_tree.focus_keeps [OF conjunct1 [OF m1], of i] by simp
      ultimately show ?thesis
        using sp \<open>new = Some i\<close> None i target
        by (intro split [of "\<lparr>np_pane_id = i, np_terminal = new_terminal (fst (terminal_id_alloc micros (ic_terminal ids))) cwd' command\<rparr>"
              "t\<lparr>tab_layout := ?l2, tab_panes := hm_insert (tab_panes t) i ?p, tab_zoomed := False\<rparr>"])
           (simp_all add: unf case_prod_beta tab_wf_def tab_pane_ids_def req_def cwd'_def)
    qed
  qed
qed

text \<open>Detaching one of several panes.\<close>

lemma detach_pane_cases:
  assumes wf: "tab_wf t" and many: "1 < length (tab_pane_ids t)" and i: "hm_get (tab_panes t) i = Some p"
  obtains t' where "detach_pane t i = Some (t', Some (i, ps_attached_terminal_id p))" "tab_wf t'"
    "tab_pane_ids t' = filter (\<lambda>j. j \<noteq> i) (tab_pane_ids t)" "tab_panes t' = hm_remove (tab_panes t) i"
    "tab_number t' = tab_number t"
    "tab_take_pane_for_move t i = Some (t', Some \<lparr>mp_pane_id = i, mp_pane_state = p\<rparr>)"
proof -
  have lwf: "layout_wf (tab_layout t)" and many': "1 < length (pane_ids (tab_layout t))"
    and match: "panes_match (pane_ids (tab_layout t)) (tab_panes t) (tab_root_pane t)"
    using wf many by (simp_all add: tab_wf_def tab_pane_ids_def)
  let ?root = "case promoted_root_if_needed t i of Some r \<Rightarrow> r | None \<Rightarrow> tab_root_pane t"
  obtain j where "find (\<lambda>j. j \<noteq> i) (pane_ids (tab_layout t)) = Some j"
    by (rule layout_tree.other_pane [OF lwf many'])
  then have root: "?root = (if tab_root_pane t = i then the (find (\<lambda>j. j \<noteq> i) (pane_ids (tab_layout t))) else tab_root_pane t)"
    by (simp add: promoted_root_if_needed_def)
  obtain l' ok where c: "close_pane (tab_layout t) i = Some (l', ok)" "layout_wf l'"
    "panes_match (pane_ids l') (hm_remove (tab_panes t) i) ?root"
    "pane_ids l' = filter (\<lambda>j. j \<noteq> i) (pane_ids (tab_layout t))"
    by (rule layout_tree.close_match [OF lwf match many' root])
  let ?t = "t\<lparr>tab_layout := l', tab_panes := hm_remove (tab_panes t) i, tab_zoomed := False, tab_root_pane := ?root\<rparr>"
  have "detach_pane t i = Some (?t, Some (i, ps_attached_terminal_id p))"
    using many' c(1) i by (cases "promoted_root_if_needed t i") (simp_all add: detach_pane_def pane_count_ids Let_def)
  moreover have "tab_take_pane_for_move t i = Some (?t, Some \<lparr>mp_pane_id = i, mp_pane_state = p\<rparr>)"
    using many' c(1) i by (cases "promoted_root_if_needed t i") (simp_all add: tab_take_pane_for_move_def pane_count_ids Let_def)
  moreover have "tab_wf ?t" using c(2,3) by (simp add: tab_wf_def)
  ultimately show ?thesis using c(4) that [of ?t] by (simp add: tab_pane_ids_def)
qed

lemma tab_take_last:
  assumes "tab_wf t" "length (tab_pane_ids t) \<le> 1" "hm_get (tab_panes t) i = Some p"
  shows "tab_take_pane_for_move t i
    = Some (t\<lparr>tab_panes := hm_remove (tab_panes t) i, tab_zoomed := False\<rparr>, Some \<lparr>mp_pane_id = i, mp_pane_state = p\<rparr>)"
  using assms by (simp add: tab_take_pane_for_move_def pane_count_ids tab_pane_ids_def)

lemma insert_existing_cases:
  assumes wf: "tab_wf t"
  obtains (refused) "insert_existing_pane t target moved d ratio fcs = (t, Inl moved)"
  | (inserted) t' where "insert_existing_pane t target moved d ratio fcs = (t', Inr (mp_pane_id moved))"
      "tab_wf t'" "mp_pane_id moved \<notin> set (tab_pane_ids t)"
      "set (tab_pane_ids t') = insert (mp_pane_id moved) (set (tab_pane_ids t))"
      "tab_panes t' = hm_insert (tab_panes t) (mp_pane_id moved) (mp_pane_state moved)"
      "tab_number t' = tab_number t" "tab_root_pane t' = tab_root_pane t"
proof -
  have lwf: "layout_wf (tab_layout t)"
    and match: "panes_match (pane_ids (tab_layout t)) (tab_panes t) (tab_root_pane t)"
    using wf by (simp_all add: tab_wf_def)
  obtain l' ok where ins: "insert_pane_near (tab_layout t) target (mp_pane_id moved) d ratio fcs = (l', ok)"
    by (metis prod.exhaust)
  show ?thesis
  proof (cases ok)
    case False
    with ins layout_tree.insert_adds [OF lwf, of "(d, ratio, fcs)" target "mp_pane_id moved" l' ok]
    have "l' = tab_layout t" by simp
    with ins False refused show ?thesis by (simp add: insert_existing_pane_def)
  next
    case True
    with ins layout_tree.insert_match [OF lwf match, of "(d, ratio, fcs)" target "mp_pane_id moved" l' "mp_pane_state moved"]
      insert_pane_near_adds [of "tab_layout t" target "mp_pane_id moved" d ratio fcs l']
    show ?thesis
      by (intro inserted [of "t\<lparr>tab_layout := l', tab_panes := hm_insert (tab_panes t) (mp_pane_id moved) (mp_pane_state moved), tab_zoomed := False\<rparr>"])
         (auto simp: insert_existing_pane_def tab_wf_def tab_pane_ids_def)
  qed
qed

text \<open>Editing the layout alone, the map as it is.\<close>

lemma tab_wf_layout_edit:
  assumes "tab_wf t" "layout_wf l'" "set (pane_ids l') = set (tab_pane_ids t)"
  shows "tab_wf (t\<lparr>tab_layout := l'\<rparr>)"
  using assms by (simp add: tab_wf_def panes_match_def tab_pane_ids_def)

end
