(* ===== verification/Workspaces.thy ===== *)
theory Workspaces
  imports Tabs RustStr
begin

section \<open>Workspaces\<close>

text \<open>
  The model of \<open>src/src/workspace.rs\<close>: a workspace is a list of tabs with an active one and
  the public numbers of its panes. The Git status caches are left out; the label found for a
  directory is the parameter \<open>discover\<close>. The counter behind the workspace ids is threaded
  through. \<open>None\<close> is a panic of the code: an \<open>expect\<close> on a workspace without tabs, or a panic
  of the layout. Additions on public numbers wrap, as in a release build.
\<close>

subsection \<open>State\<close>

record worktree_space_membership =
  wm_key :: rstr
  wm_label :: rstr
  wm_repo_root :: rstr
  wm_checkout_path :: rstr
  wm_is_linked_worktree :: bool

record workspace =
  ws_id :: rstr
  ws_custom_name :: "rstr option"
  ws_identity_cwd :: rstr
  ws_cached_identity_cwd :: rstr
  ws_cached_auto_label :: rstr
  ws_worktree_space :: "worktree_space_membership option"
  ws_metadata_tokens :: metadata_tokens
  ws_metadata_token_sequences :: sequences
  ws_public_pane_numbers :: "(pane_id, usize) hmap"
  ws_next_public_pane_number :: usize
  ws_next_public_tab_number :: usize
  ws_tabs :: "tab list"
  ws_active_tab :: nat

record taken_pane =
  tp_moved :: moved_pane
  tp_removed_tab_idx :: "nat option"
  tp_workspace_empty :: bool

subsection \<open>Queries\<close>

definition active_tab :: "workspace \<Rightarrow> tab option" where
  "active_tab w = (if ws_active_tab w < length (ws_tabs w) then Some (ws_tabs w ! ws_active_tab w) else None)"

definition find_tab_index_for_pane :: "workspace \<Rightarrow> pane_id \<Rightarrow> nat option" where
  "find_tab_index_for_pane w i = position (\<lambda>t. hm_contains (tab_panes t) i) (ws_tabs w)"

fun find_map :: "('a \<Rightarrow> 'b option) \<Rightarrow> 'a list \<Rightarrow> 'b option" where
  "find_map f [] = None"
| "find_map f (x # xs) = (case f x of Some y \<Rightarrow> Some y | None \<Rightarrow> find_map f xs)"

definition ws_pane_state :: "workspace \<Rightarrow> pane_id \<Rightarrow> pane_state option" where
  "ws_pane_state w i = find_map (\<lambda>t. hm_get (tab_panes t) i) (ws_tabs w)"

definition ws_terminal_id :: "workspace \<Rightarrow> pane_id \<Rightarrow> rstr option" where
  "ws_terminal_id w i = find_map (\<lambda>t. tab_terminal_id t i) (ws_tabs w)"

definition focused_pane_id :: "workspace \<Rightarrow> pane_id option" where
  "focused_pane_id w = map_option (\<lambda>t. tl_focus (tab_layout t)) (active_tab w)"

definition public_pane_number :: "workspace \<Rightarrow> pane_id \<Rightarrow> usize option" where
  "public_pane_number w i = hm_get (ws_public_pane_numbers w) i"

definition public_tab_number :: "workspace \<Rightarrow> nat \<Rightarrow> usize option" where
  "public_tab_number w idx = (if idx < length (ws_tabs w) then Some (tab_number (ws_tabs w ! idx)) else None)"

definition launch_env_for_new_pane :: "workspace \<Rightarrow> usize \<Rightarrow> usize \<Rightarrow> (rstr \<times> rstr) list \<Rightarrow> pane_launch_env" where
  "launch_env_for_new_pane w tab_num pane_number extra_env =
     with_identity (launch_env_from_extra extra_env) (ws_id w)
       (public_tab_id_for_number (ws_id w) tab_num) (public_pane_id_for_number (ws_id w) pane_number)"

subsection \<open>Public numbers\<close>

definition register_new_pane_with_number :: "workspace \<Rightarrow> pane_id \<Rightarrow> usize \<Rightarrow> workspace" where
  "register_new_pane_with_number w i number =
     w\<lparr>ws_public_pane_numbers := hm_insert (ws_public_pane_numbers w) i number,
       ws_next_public_pane_number := max (ws_next_public_pane_number w) (number + 1)\<rparr>"

definition unregister_pane :: "workspace \<Rightarrow> pane_id \<Rightarrow> workspace" where
  "unregister_pane w i = w\<lparr>ws_public_pane_numbers := hm_remove (ws_public_pane_numbers w) i\<rparr>"

definition unregister_moved_pane :: "workspace \<Rightarrow> pane_id \<Rightarrow> workspace" where
  "unregister_moved_pane w i = unregister_pane w i"

text \<open>\<open>reserve_workspace_ids\<close>: the counter moves past every handle in use.\<close>

definition reserve_workspace_ids :: "workspace list \<Rightarrow> u64 \<Rightarrow> u64" where
  "reserve_workspace_ids ws current =
     (case List.map_filter (\<lambda>w. public_workspace_number (ws_id w)) ws of
        [] \<Rightarrow> current
      | n # ns \<Rightarrow>
          (case checked_add (foldr max ns n) 1 of
             None \<Rightarrow> current
           | Some nxt \<Rightarrow> if current < nxt then nxt else current))"

subsection \<open>Creation\<close>

definition new_workspace :: "(rstr \<Rightarrow> rstr) \<Rightarrow> rstr \<Rightarrow> rstr option \<Rightarrow> rstr \<Rightarrow> tab \<Rightarrow> workspace" where
  "new_workspace discover wid label cwd t =
     \<lparr>ws_id = wid, ws_custom_name = label, ws_identity_cwd = cwd, ws_cached_identity_cwd = cwd,
      ws_cached_auto_label = discover cwd, ws_worktree_space = None, ws_metadata_tokens = [], ws_metadata_token_sequences = [],
      ws_public_pane_numbers = hm_insert [] (tab_root_pane t) 1, ws_next_public_pane_number = 2,
      ws_next_public_tab_number = 2, ws_tabs = [t], ws_active_tab = 0\<rparr>"

definition ws_from_existing_pane ::
  "(rstr \<Rightarrow> rstr) \<Rightarrow> rstr option \<Rightarrow> rstr option \<Rightarrow> rstr \<Rightarrow> moved_pane \<Rightarrow> u64 \<Rightarrow> workspace \<times> u64" where
  "ws_from_existing_pane discover label tab_label identity_cwd moved next_ws =
     (let (wid, next_ws') = generate_workspace_id next_ws
      in (new_workspace discover wid label identity_cwd (tab_from_existing_pane 1 tab_label moved), next_ws'))"

definition ws_new_with_tab ::
  "spawner \<Rightarrow> (rstr \<Rightarrow> rstr) \<Rightarrow> rstr \<Rightarrow> split_command \<Rightarrow> (rstr \<times> rstr) list \<Rightarrow> nat \<Rightarrow> id_counters \<Rightarrow> u64 \<Rightarrow>
   (rstr + workspace \<times> terminal_state) \<times> id_counters \<times> u64" where
  "ws_new_with_tab spawn discover initial_cwd command extra_env micros ids next_ws =
     (let (wid, next_ws') = generate_workspace_id next_ws;
          launch_env = with_identity (launch_env_from_extra extra_env) wid
            (public_tab_id_for_number wid 1) (public_pane_id_for_number wid 1)
      in (case tab_new_with_runtime spawn 1 initial_cwd command launch_env micros ids of
            (Inl err, ids') \<Rightarrow> (Inl err, ids', next_ws')
          | (Inr (t, trm), ids') \<Rightarrow> (Inr (new_workspace discover wid None initial_cwd t, trm), ids', next_ws')))"

subsection \<open>Tabs of a workspace\<close>

definition switch_tab :: "workspace \<Rightarrow> nat \<Rightarrow> workspace" where
  "switch_tab w idx =
     (if idx < length (ws_tabs w)
      then (let t = ws_tabs w ! idx;
                t' = t\<lparr>tab_panes := map (\<lambda>(i, p). (i, p\<lparr>ps_seen := True\<rparr>)) (tab_panes t)\<rparr>
            in w\<lparr>ws_tabs := (ws_tabs w)[idx := t'], ws_active_tab := idx\<rparr>)
      else w)"

definition create_tab_with_runtime ::
  "spawner \<Rightarrow> workspace \<Rightarrow> rstr \<Rightarrow> split_command \<Rightarrow> (rstr \<times> rstr) list \<Rightarrow> nat \<Rightarrow> id_counters \<Rightarrow>
   ((rstr + nat \<times> terminal_state) \<times> workspace \<times> id_counters) option" where
  "create_tab_with_runtime spawn w cwd command extra_env micros ids =
     (let number = ws_next_public_tab_number w;
          w1 = w\<lparr>ws_next_public_tab_number := number + 1\<rparr>;
          pane_number = ws_next_public_pane_number w1;
          launch_env = launch_env_for_new_pane w1 number pane_number extra_env
      in if active_tab w1 = None then None
         else (case tab_new_with_runtime spawn number cwd command launch_env micros ids of
             (Inl err, ids') \<Rightarrow> Some (Inl err, w1, ids')
           | (Inr (t, trm), ids') \<Rightarrow>
               (let w2 = register_new_pane_with_number w1 (tab_root_pane t) pane_number;
                    w3 = w2\<lparr>ws_tabs := ws_tabs w2 @ [t]\<rparr>
                in Some (Inr (length (ws_tabs w3) - 1, trm), w3, ids'))))"

text \<open>Which tab is active after the tab at \<open>idx\<close> went; the code repeats it in three places.\<close>

definition active_after_removal :: "workspace \<Rightarrow> nat \<Rightarrow> workspace" where
  "active_after_removal w idx =
     (if length (ws_tabs w) \<le> ws_active_tab w then w\<lparr>ws_active_tab := length (ws_tabs w) - 1\<rparr>
      else if idx \<le> ws_active_tab w \<and> 0 < ws_active_tab w then w\<lparr>ws_active_tab := ws_active_tab w - 1\<rparr>
      else w)"

definition adjust_active_tab_after_removal :: "workspace \<Rightarrow> nat \<Rightarrow> workspace" where
  "adjust_active_tab_after_removal w removed_idx =
     (if ws_tabs w = [] then w\<lparr>ws_active_tab := 0\<rparr> else active_after_removal w removed_idx)"

definition close_tab :: "workspace \<Rightarrow> nat \<Rightarrow> workspace \<times> bool" where
  "close_tab w idx =
     (if length (ws_tabs w) \<le> 1 \<or> length (ws_tabs w) \<le> idx then (w, False)
      else (let t = ws_tabs w ! idx;
                w1 = w\<lparr>ws_tabs := remove_at idx (ws_tabs w)\<rparr>;
                w2 = foldl unregister_pane w1 (map fst (tab_panes t))
            in (active_after_removal w2 idx, True)))"

definition move_tab :: "workspace \<Rightarrow> nat \<Rightarrow> nat \<Rightarrow> workspace \<times> bool" where
  "move_tab w source_idx insert_idx =
     (if length (ws_tabs w) \<le> source_idx \<or> length (ws_tabs w) < insert_idx then (w, False)
      else (let target_idx = min (if source_idx < insert_idx then insert_idx - 1 else insert_idx) (length (ws_tabs w) - 1)
            in if source_idx = target_idx then (w, False)
               else (let active_root_pane = map_option tab_root_pane (active_tab w);
                         t = ws_tabs w ! source_idx;
                         tabs = insert_at target_idx t (remove_at source_idx (ws_tabs w))
                     in (w\<lparr>ws_tabs := tabs,
                           ws_active_tab := (case Option.bind active_root_pane
                                (\<lambda>root. position (\<lambda>t. tab_root_pane t = root) tabs) of
                              Some k \<Rightarrow> k | None \<Rightarrow> target_idx)\<rparr>, True))))"

subsection \<open>Panes of a workspace\<close>

definition split_focused_command ::
  "spawner \<Rightarrow> workspace \<Rightarrow> direction \<Rightarrow> rstr option \<Rightarrow> rstr option \<Rightarrow> rstr \<Rightarrow> (rstr \<times> rstr) list \<Rightarrow> nat \<Rightarrow>
   id_counters \<Rightarrow> ((split_error + new_pane) \<times> workspace \<times> id_counters) option" where
  "split_focused_command spawn w d cwd current_dir command extra_env micros ids =
     (case active_tab w of
        None \<Rightarrow> None
      | Some t \<Rightarrow>
          (let pane_number = ws_next_public_pane_number w;
               launch_env = launch_env_for_new_pane w (tab_number t) pane_number extra_env
           in (case tab_split_pane_with_runtime spawn t (tl_focus (tab_layout t)) True d None cwd current_dir
                      launch_env (ShellCommand command) micros ids of
                 None \<Rightarrow> None
               | Some (res, t', ids') \<Rightarrow>
                   (let w1 = w\<lparr>ws_tabs := (ws_tabs w)[ws_active_tab w := t']\<rparr>
                    in Some (res,
                         (case res of Inl _ \<Rightarrow> w1
                          | Inr np \<Rightarrow> register_new_pane_with_number w1 (np_pane_id np) pane_number), ids')))))"

text \<open>The outer \<open>None\<close> is a panic, the inner one a pane that is in no tab.\<close>

definition ws_split_pane_with_runtime ::
  "spawner \<Rightarrow> workspace \<Rightarrow> pane_id \<Rightarrow> direction \<Rightarrow> f32 option \<Rightarrow> rstr option \<Rightarrow> rstr option \<Rightarrow>
   (rstr \<times> rstr) list \<Rightarrow> bool \<Rightarrow> split_command \<Rightarrow> nat \<Rightarrow> id_counters \<Rightarrow>
   ((split_error + nat \<times> new_pane) option \<times> workspace \<times> id_counters) option" where
  "ws_split_pane_with_runtime spawn w i d ratio cwd current_dir extra_env focus_new_pane command micros ids =
     (case find_tab_index_for_pane w i of
        None \<Rightarrow> Some (None, w, ids)
      | Some idx \<Rightarrow>
          (let pane_number = ws_next_public_pane_number w;
               launch_env = launch_env_for_new_pane w (tab_number (ws_tabs w ! idx)) pane_number extra_env
           in (case tab_split_pane_with_runtime spawn (ws_tabs w ! idx) i focus_new_pane d ratio cwd current_dir
                      launch_env command micros ids of
                 None \<Rightarrow> None
               | Some (res, t', ids') \<Rightarrow>
                   (let w1 = w\<lparr>ws_tabs := (ws_tabs w)[idx := t']\<rparr>
                    in (case res of
                          Inl err \<Rightarrow> Some (Some (Inl err), w1, ids')
                        | Inr np \<Rightarrow>
                            Some (Some (Inr (idx, np)),
                              register_new_pane_with_number w1 (np_pane_id np) pane_number, ids'))))))"

text \<open>Closing a pane; the answer says whether the whole workspace should close.
  \<open>remove_pane\<close> has the same body.\<close>

definition ws_close_pane :: "workspace \<Rightarrow> pane_id \<Rightarrow> (workspace \<times> bool) option" where
  "ws_close_pane w i =
     (case find_tab_index_for_pane w i of
        None \<Rightarrow> Some (w, False)
      | Some idx \<Rightarrow>
          (if pane_count (tab_layout (ws_tabs w ! idx)) \<le> 1
           then if length (ws_tabs w) \<le> 1 then Some (w, True)
                else Some (active_after_removal
                       (unregister_pane (w\<lparr>ws_tabs := remove_at idx (ws_tabs w)\<rparr>) i) idx, False)
           else (case detach_pane (ws_tabs w ! idx) i of
                   None \<Rightarrow> None
                 | Some (t', removed) \<Rightarrow>
                     (let w1 = w\<lparr>ws_tabs := (ws_tabs w)[idx := t']\<rparr>
                      in Some (case removed of Some (r, _) \<Rightarrow> unregister_pane w1 r | None \<Rightarrow> w1, False)))))"

definition ws_remove_pane :: "workspace \<Rightarrow> pane_id \<Rightarrow> (workspace \<times> bool) option" where
  "ws_remove_pane w i = ws_close_pane w i"

definition ws_take_pane_for_move :: "workspace \<Rightarrow> pane_id \<Rightarrow> (workspace \<times> taken_pane option) option" where
  "ws_take_pane_for_move w i =
     (case find_tab_index_for_pane w i of
        None \<Rightarrow> Some (w, None)
      | Some idx \<Rightarrow>
          (if pane_count (tab_layout (ws_tabs w ! idx)) \<le> 1
           then (let w1 = w\<lparr>ws_tabs := remove_at idx (ws_tabs w)\<rparr>
                 in (case tab_take_pane_for_move (ws_tabs w ! idx) i of
                       None \<Rightarrow> None
                     | Some (_, None) \<Rightarrow> Some (w1, None)
                     | Some (_, Some moved) \<Rightarrow>
                         (let w2 = adjust_active_tab_after_removal w1 idx
                          in Some (w2, Some \<lparr>tp_moved = moved, tp_removed_tab_idx = Some idx,
                                             tp_workspace_empty = (ws_tabs w2 = [])\<rparr>))))
           else (case tab_take_pane_for_move (ws_tabs w ! idx) i of
                   None \<Rightarrow> None
                 | Some (t', taken) \<Rightarrow>
                     Some (w\<lparr>ws_tabs := (ws_tabs w)[idx := t']\<rparr>,
                           map_option (\<lambda>moved. \<lparr>tp_moved = moved, tp_removed_tab_idx = None,
                                                tp_workspace_empty = False\<rparr>) taken))))"

definition register_if_missing :: "workspace \<Rightarrow> pane_id \<Rightarrow> workspace" where
  "register_if_missing w i =
     (if \<not> hm_contains (ws_public_pane_numbers w) i
      then register_new_pane_with_number w i (ws_next_public_pane_number w) else w)"

definition insert_moved_pane_into_tab ::
  "workspace \<Rightarrow> nat \<Rightarrow> pane_id \<Rightarrow> moved_pane \<Rightarrow> direction \<Rightarrow> f32 \<Rightarrow> bool \<Rightarrow> workspace \<times> (moved_pane + pane_id)" where
  "insert_moved_pane_into_tab w tab_idx target moved d ratio fcs =
     (if length (ws_tabs w) \<le> tab_idx then (w, Inl moved)
      else (case insert_existing_pane (ws_tabs w ! tab_idx) target moved d ratio fcs of
              (t', Inl m) \<Rightarrow> (w\<lparr>ws_tabs := (ws_tabs w)[tab_idx := t']\<rparr>, Inl m)
            | (t', Inr i) \<Rightarrow>
                (register_if_missing (w\<lparr>ws_tabs := (ws_tabs w)[tab_idx := t']\<rparr>) (mp_pane_id moved),
                 Inr (mp_pane_id moved))))"

definition create_tab_from_existing_pane :: "workspace \<Rightarrow> moved_pane \<Rightarrow> rstr option \<Rightarrow> workspace \<times> nat" where
  "create_tab_from_existing_pane w moved label =
     (let number = ws_next_public_tab_number w;
          w1 = register_if_missing (w\<lparr>ws_next_public_tab_number := number + 1\<rparr>) (mp_pane_id moved);
          w2 = w1\<lparr>ws_tabs := ws_tabs w1 @ [tab_from_existing_pane number label moved]\<rparr>
      in (w2, length (ws_tabs w2) - 1))"

definition ws_set_custom_name :: "workspace \<Rightarrow> rstr \<Rightarrow> workspace" where
  "ws_set_custom_name w name = w\<lparr>ws_custom_name := Some name\<rparr>"

subsection \<open>Names\<close>

definition tab_display_name :: "workspace \<Rightarrow> nat \<Rightarrow> rstr option" where
  "tab_display_name w idx =
     (if idx < length (ws_tabs w)
      then Some (case tab_custom_name (ws_tabs w ! idx) of Some n \<Rightarrow> n | None \<Rightarrow> decimal (idx + 1))
      else None)"

definition automatic_display_name_for_cwd :: "(rstr \<Rightarrow> rstr) \<Rightarrow> workspace \<Rightarrow> rstr \<Rightarrow> rstr" where
  "automatic_display_name_for_cwd fallback_label w cwd =
     (if cwd = ws_cached_identity_cwd w then ws_cached_auto_label w else fallback_label cwd)"

definition display_name_from_terminals ::
  "(rstr \<Rightarrow> rstr) \<Rightarrow> workspace \<Rightarrow> (rstr, terminal_state) hmap \<Rightarrow> rstr" where
  "display_name_from_terminals fallback_label w terminals =
     (case ws_custom_name w of
        Some name \<Rightarrow> name
      | None \<Rightarrow>
          (let cwd = (case (case ws_tabs w of [] \<Rightarrow> None
                  | t # _ \<Rightarrow> Option.bind (tab_terminal_id t (tab_root_pane t)) (hm_get terminals)) of
                Some trm \<Rightarrow> ts_cwd trm | None \<Rightarrow> ws_identity_cwd w)
           in automatic_display_name_for_cwd fallback_label w cwd))"

end
