(* ===== verification/WorkspaceInv.thy ===== *)
theory WorkspaceInv
  imports Workspaces
begin

section \<open>The workspace invariant\<close>

text \<open>
  The invariant the authors assert in their tests (\<open>assert_invariants_for_test\<close>): the tabs are
  well formed with distinct positive numbers below the next one, a pane is in one tab and a
  terminal in one pane, and the public numbers are those of the live panes, distinct, positive
  and below the next one. While a pane is being moved its number may be held without a tab;
  the invariant is therefore stated with the set of panes that are out. All panes of a
  workspace are one flat association list, and every operation adds or removes one entry.
\<close>

definition entries :: "tab list \<Rightarrow> (pane_id \<times> pane_state) list" where
  "entries ts = concat (map tab_panes ts)"

abbreviation ws_entries :: "workspace \<Rightarrow> (pane_id \<times> pane_state) list" where
  "ws_entries w \<equiv> entries (ws_tabs w)"

definition tids :: "(pane_id \<times> pane_state) list \<Rightarrow> rstr list" where
  "tids es = map (\<lambda>e. ps_attached_terminal_id (snd e)) es"

definition tabs_ok :: "tab list \<Rightarrow> bool" where
  "tabs_ok ts \<longleftrightarrow> (\<forall>t \<in> set ts. tab_wf t) \<and> distinct (map tab_number ts)
     \<and> distinct (map fst (entries ts)) \<and> distinct (tids (entries ts))"

definition numbers_ok :: "(pane_id, usize) hmap \<Rightarrow> usize \<Rightarrow> bool" where
  "numbers_ok m nxt \<longleftrightarrow> 0 < nxt \<and> hm_ok m \<and> distinct (map snd m)
     \<and> (\<forall>n \<in> snd ` set m. 0 < n \<and> n < nxt)"

definition ws_ok :: "pane_id set \<Rightarrow> workspace \<Rightarrow> bool" where
  "ws_ok out w \<longleftrightarrow> tabs_ok (ws_tabs w)
     \<and> (ws_active_tab w < length (ws_tabs w) \<or> ws_active_tab w = 0 \<and> ws_tabs w = [])
     \<and> 0 < ws_next_public_tab_number w
     \<and> (\<forall>n \<in> tab_number ` set (ws_tabs w). 0 < n \<and> n < ws_next_public_tab_number w)
     \<and> numbers_ok (ws_public_pane_numbers w) (ws_next_public_pane_number w)
     \<and> fst ` set (ws_public_pane_numbers w) = fst ` set (ws_entries w) \<union> out
     \<and> fst ` set (ws_entries w) \<inter> out = {}"

definition ws_wf :: "workspace \<Rightarrow> bool" where
  "ws_wf w \<longleftrightarrow> ws_ok {} w \<and> ws_tabs w \<noteq> []"

subsection \<open>One entry more or less\<close>

lemma distinct_mset_iff: "mset xs = mset ys \<Longrightarrow> distinct xs \<longleftrightarrow> distinct ys"
  by (rule mset_eq_imp_distinct_iff)

lemma entry_added:
  assumes "mset es' = add_mset e (mset es)"
  shows "fst ` set es' = insert (fst e) (fst ` set es)"
    "distinct (map fst es') \<longleftrightarrow> fst e \<notin> fst ` set es \<and> distinct (map fst es)"
    "distinct (tids es') \<longleftrightarrow> ps_attached_terminal_id (snd e) \<notin> set (tids es) \<and> distinct (tids es)"
    "set (tids es') = insert (ps_attached_terminal_id (snd e)) (set (tids es))"
proof -
  from assms have m: "mset es' = mset (e # es)" by simp
  then have s: "set es' = set (e # es)" by (rule mset_eq_setD)
  from m have d: "distinct (map f es') \<longleftrightarrow> distinct (map f (e # es))" for f :: "_ \<Rightarrow> 'c"
    by (intro distinct_mset_iff) (simp only: mset_map)
  show "fst ` set es' = insert (fst e) (fst ` set es)" using s by simp
  show "distinct (map fst es') \<longleftrightarrow> fst e \<notin> fst ` set es \<and> distinct (map fst es)" using d [of fst] by simp
  show "distinct (tids es') \<longleftrightarrow> ps_attached_terminal_id (snd e) \<notin> set (tids es) \<and> distinct (tids es)"
    using d [of "\<lambda>e. ps_attached_terminal_id (snd e)"] by (simp add: tids_def)
  show "set (tids es') = insert (ps_attached_terminal_id (snd e)) (set (tids es))"
    using s by (simp add: tids_def)
qed

lemma entries_append: "entries (ts @ us) = entries ts @ entries us"
  by (simp add: entries_def)

lemma entries_Cons: "entries (t # ts) = tab_panes t @ entries ts"
  by (simp add: entries_def)

lemma entries_split:
  assumes "idx < length ts"
  shows "mset (entries ts) = mset (tab_panes (ts ! idx)) + mset (entries (remove_at idx ts))"
    "mset (entries (ts[idx := t'])) = mset (tab_panes t') + mset (entries (remove_at idx ts))"
proof -
  have "entries ts = entries (take idx ts @ ts ! idx # drop (Suc idx) ts)"
    by (rule arg_cong [OF id_take_nth_drop [OF assms]])
  then show "mset (entries ts) = mset (tab_panes (ts ! idx)) + mset (entries (remove_at idx ts))"
    by (simp add: entries_append entries_Cons remove_at_def)
  show "mset (entries (ts[idx := t'])) = mset (tab_panes t') + mset (entries (remove_at idx ts))"
    by (simp add: upd_conv_take_nth_drop [OF assms] entries_append entries_Cons remove_at_def)
qed

lemma set_remove_at: "idx < length xs \<Longrightarrow> set xs = insert (xs ! idx) (set (remove_at idx xs))"
  by (subst (1) id_take_nth_drop [of idx]) (auto simp: remove_at_def)

lemma set_remove_at_subset: "set (remove_at idx xs) \<subseteq> set xs"
  using set_take_subset [of idx xs] set_drop_subset [of "Suc idx" xs] by (auto simp: remove_at_def)

lemma map_remove_at: "map f (remove_at idx xs) = remove_at idx (map f xs)"
  by (simp add: remove_at_def take_map drop_map)

lemma distinct_remove_at: "distinct xs \<Longrightarrow> distinct (remove_at idx xs)"
  by (auto simp: remove_at_def dest: set_take_disj_set_drop_if_distinct [of xs idx "Suc idx"])

lemma map_update_same: "idx < length ts \<Longrightarrow> f t' = f (ts ! idx) \<Longrightarrow> map f (ts[idx := t']) = map f ts"
  by (simp add: map_update) (metis list_update_id nth_map)

text \<open>A pane more in the tab at \<open>idx\<close>.\<close>

lemma tabs_ok_add:
  assumes ok: "tabs_ok ts" and idx: "idx < length ts" and t': "tab_wf t'" "tab_number t' = tab_number (ts ! idx)"
    and panes: "tab_panes t' = hm_insert (tab_panes (ts ! idx)) i p"
    and fresh: "i \<notin> fst ` set (entries ts)" "ps_attached_terminal_id p \<notin> set (tids (entries ts))"
  shows "tabs_ok (ts[idx := t'])" "mset (entries (ts[idx := t'])) = add_mset (i, p) (mset (entries ts))"
proof -
  have "i \<notin> fst ` set (tab_panes (ts ! idx))"
    using fresh(1) nth_mem [OF idx] by (auto simp: entries_def)
  from mset_hm_insert [OF this, of p] panes entries_split [OF idx]
  show m: "mset (entries (ts[idx := t'])) = add_mset (i, p) (mset (entries ts))" by simp
  have "map tab_number (ts[idx := t']) = map tab_number ts" using idx t'(2) by (rule map_update_same)
  moreover have "\<forall>t \<in> set (ts[idx := t']). tab_wf t"
    using ok t'(1) set_update_subset_insert [of ts idx t'] by (auto simp: tabs_ok_def)
  ultimately show "tabs_ok (ts[idx := t'])"
    using ok fresh entry_added [OF m] by (simp add: tabs_ok_def)
qed

text \<open>A pane less in the tab at \<open>idx\<close>, which stays.\<close>

lemma tabs_ok_remove:
  assumes ok: "tabs_ok ts" and idx: "idx < length ts" and t': "tab_wf t'" "tab_number t' = tab_number (ts ! idx)"
    and panes: "tab_panes t' = hm_remove (tab_panes (ts ! idx)) i" and i: "hm_get (tab_panes (ts ! idx)) i = Some p"
  shows "tabs_ok (ts[idx := t'])" "mset (entries ts) = add_mset (i, p) (mset (entries (ts[idx := t'])))"
proof -
  have "hm_ok (tab_panes (ts ! idx))" using ok idx by (simp add: tabs_ok_def tab_wf_hm)
  from mset_hm_remove [OF this i] panes entries_split [OF idx]
  show m: "mset (entries ts) = add_mset (i, p) (mset (entries (ts[idx := t'])))" by simp
  have "map tab_number (ts[idx := t']) = map tab_number ts" using idx t'(2) by (rule map_update_same)
  moreover have "\<forall>t \<in> set (ts[idx := t']). tab_wf t"
    using ok t'(1) set_update_subset_insert [of ts idx t'] by (auto simp: tabs_ok_def)
  ultimately show "tabs_ok (ts[idx := t'])"
    using ok entry_added [OF m] by (simp add: tabs_ok_def)
qed

text \<open>A whole tab less.\<close>

lemma tabs_ok_remove_at:
  assumes "tabs_ok ts" "idx < length ts"
  shows "tabs_ok (remove_at idx ts)"
proof -
  have "mset (entries ts) = mset (tab_panes (ts ! idx) @ entries (remove_at idx ts))"
    using entries_split(1) [OF assms(2)] by simp
  then have "distinct (map f (entries ts)) \<longleftrightarrow> distinct (map f (tab_panes (ts ! idx) @ entries (remove_at idx ts)))"
    for f :: "_ \<Rightarrow> 'c" by (intro distinct_mset_iff) (simp only: mset_map)
  from this [of fst] this [of "\<lambda>e. ps_attached_terminal_id (snd e)"]
  have "distinct (map fst (entries (remove_at idx ts)))" "distinct (tids (entries (remove_at idx ts)))"
    using assms(1) by (simp_all add: tabs_ok_def tids_def)
  with assms(1) set_remove_at_subset [of idx ts] show ?thesis
    by (auto simp: tabs_ok_def map_remove_at intro: distinct_remove_at)
qed

text \<open>A tab more, with one pane.\<close>

lemma tabs_ok_append:
  assumes "tabs_ok ts" "tab_wf t" "tab_number t \<notin> tab_number ` set ts" "tab_panes t = [(i, p)]"
    and "i \<notin> fst ` set (entries ts)" "ps_attached_terminal_id p \<notin> set (tids (entries ts))"
  shows "tabs_ok (ts @ [t])" "mset (entries (ts @ [t])) = add_mset (i, p) (mset (entries ts))"
  using assms by (auto simp: tabs_ok_def entries_def tids_def)

subsection \<open>Registering and unregistering\<close>

definition room :: "workspace \<Rightarrow> bool" where
  "room w \<longleftrightarrow> unat (ws_next_public_pane_number w) + 1 < 2 ^ 64 \<and> unat (ws_next_public_tab_number w) + 1 < 2 ^ 64"

lemma word_Suc_greater: "unat (n :: usize) + 1 < 2 ^ 64 \<Longrightarrow> n < n + 1"
  using unat_add_no_wrap [of n 1] by (simp add: word_less_nat_alt)

lemma snd_hm_insert: "i \<notin> fst ` set m \<Longrightarrow> map snd (hm_insert m i n) = map snd m @ [n]"
  by (induction m) auto

lemma numbers_ok_insert:
  assumes "numbers_ok m nxt" "i \<notin> fst ` set m" "unat nxt + 1 < 2 ^ 64"
  shows "numbers_ok (hm_insert m i nxt) (max nxt (nxt + 1))"
proof -
  have lt: "nxt < nxt + 1" using assms(3) by (rule word_Suc_greater)
  have "snd ` set (hm_insert m i nxt) = set (map snd (hm_insert m i nxt))" by simp
  also have "\<dots> = insert nxt (snd ` set m)" unfolding snd_hm_insert [OF assms(2)] by simp
  finally have vals: "snd ` set (hm_insert m i nxt) = insert nxt (snd ` set m)" .
  have "distinct (map snd (hm_insert m i nxt))"
    using assms(1) unfolding snd_hm_insert [OF assms(2)] by (auto simp: numbers_ok_def)
  moreover have "max nxt (nxt + 1) = nxt + 1" using lt by (simp add: max_def)
  moreover have "hm_ok (hm_insert m i nxt)" "0 < nxt + 1" "\<forall>n \<in> insert nxt (snd ` set m). 0 < n \<and> n < nxt + 1"
    using assms(1) lt unfolding numbers_ok_def by (auto intro: less_trans)
  ultimately show ?thesis unfolding numbers_ok_def vals by simp
qed

lemma numbers_ok_remove:
  assumes "numbers_ok m nxt"
  shows "numbers_ok (hm_remove m i) nxt"
proof -
  have "set (hm_remove m i) \<subseteq> set m" by (auto simp: AList.delete_eq)
  moreover have "distinct (map snd (hm_remove m i))"
    using assms unfolding AList.delete_eq numbers_ok_def by (simp add: distinct_map_filter)
  ultimately show ?thesis using assms unfolding numbers_ok_def by (auto intro: distinct_delete)
qed

lemma register_if_missing_fields:
  "ws_tabs (register_if_missing w i) = ws_tabs w"
  "ws_active_tab (register_if_missing w i) = ws_active_tab w"
  "ws_next_public_tab_number (register_if_missing w i) = ws_next_public_tab_number w"
  "ws_id (register_if_missing w i) = ws_id w"
  "fst ` set (ws_public_pane_numbers (register_if_missing w i)) = insert i (fst ` set (ws_public_pane_numbers w))"
  by (auto simp: register_if_missing_def register_new_pane_with_number_def dom_update_fst map_of_eq_None_iff)

lemma register_if_missing_numbers:
  assumes "numbers_ok (ws_public_pane_numbers w) (ws_next_public_pane_number w)"
    "unat (ws_next_public_pane_number w) + 1 < 2 ^ 64"
  shows "numbers_ok (ws_public_pane_numbers (register_if_missing w i)) (ws_next_public_pane_number (register_if_missing w i))"
  using assms numbers_ok_insert [of "ws_public_pane_numbers w" "ws_next_public_pane_number w" i]
  by (auto simp: register_if_missing_def register_new_pane_with_number_def map_of_eq_None_iff)

lemma register_fresh:
  "i \<notin> fst ` set (ws_public_pane_numbers w)
    \<Longrightarrow> register_new_pane_with_number w i (ws_next_public_pane_number w) = register_if_missing w i"
  by (simp add: register_if_missing_def map_of_eq_None_iff)

lemma ws_ok_unregister: "ws_ok out w \<Longrightarrow> i \<in> out \<Longrightarrow> ws_ok (out - {i}) (unregister_pane w i)"
  by (auto simp: ws_ok_def unregister_pane_def dom_delete_fst numbers_ok_remove)

lemma ws_ok_unregister_all: "ws_ok out w \<Longrightarrow> set is \<subseteq> out \<Longrightarrow> distinct is
    \<Longrightarrow> ws_ok (out - set is) (foldl unregister_pane w is)"
proof (induction "is" arbitrary: out w)
  case (Cons i "is")
  from Cons.prems have "ws_ok (out - {i}) (unregister_pane w i)" by (intro ws_ok_unregister) auto
  from Cons.IH [OF this] Cons.prems
  have "ws_ok (out - {i} - set is) (foldl unregister_pane (unregister_pane w i) is)" by auto
  moreover have "out - {i} - set is = out - set (i # is)" by auto
  ultimately show ?case by simp
qed simp

subsection \<open>Placing and taking panes\<close>

lemma ws_ok_put:
  assumes ok: "ws_ok out w" and rm: "room w" and idx: "idx < length (ws_tabs w)"
    and t': "tab_wf t'" "tab_number t' = tab_number (ws_tabs w ! idx)"
      "tab_panes t' = hm_insert (tab_panes (ws_tabs w ! idx)) i p"
    and fresh: "i \<notin> fst ` set (ws_entries w)" "ps_attached_terminal_id p \<notin> set (tids (ws_entries w))"
  shows "ws_ok (out - {i}) (register_if_missing (w\<lparr>ws_tabs := (ws_tabs w)[idx := t']\<rparr>) i)"
proof -
  let ?w = "w\<lparr>ws_tabs := (ws_tabs w)[idx := t']\<rparr>"
  have tabs: "tabs_ok (ws_tabs ?w)" "mset (ws_entries ?w) = add_mset (i, p) (mset (ws_entries w))"
    using tabs_ok_add [OF _ idx t' fresh] ok by (simp_all add: ws_ok_def)
  have keys: "fst ` set (ws_entries ?w) = insert i (fst ` set (ws_entries w))"
    using entry_added(1) [OF tabs(2)] by simp
  have nums: "map tab_number (ws_tabs ?w) = map tab_number (ws_tabs w)"
    using map_update_same [of idx "ws_tabs w" tab_number t'] idx t'(2) by simp
  then have "tab_number ` set (ws_tabs ?w) = tab_number ` set (ws_tabs w)" by (metis set_map)
  with ok tabs(1) keys rm register_if_missing_numbers [of ?w i] show ?thesis
    by (auto simp: ws_ok_def register_if_missing_fields room_def)
qed

lemma ws_ok_put_tab:
  assumes ok: "ws_ok out w" and rm: "room w"
    and t: "tab_wf t" "tab_number t = ws_next_public_tab_number w" "tab_panes t = [(i, p)]"
    and fresh: "i \<notin> fst ` set (ws_entries w)" "ps_attached_terminal_id p \<notin> set (tids (ws_entries w))"
    and w': "w' = register_if_missing (w\<lparr>ws_next_public_tab_number := ws_next_public_tab_number w + 1\<rparr>) i"
  shows "ws_ok (out - {i}) (w'\<lparr>ws_tabs := ws_tabs w' @ [t]\<rparr>)"
proof -
  have lt: "ws_next_public_tab_number w < ws_next_public_tab_number w + 1"
    using rm by (intro word_Suc_greater) (simp add: room_def)
  have "tab_number t \<notin> tab_number ` set (ws_tabs w)" using ok t(2) by (auto simp: ws_ok_def)
  from tabs_ok_append [OF _ t(1) this t(3) fresh] ok
  have tabs: "tabs_ok (ws_tabs w @ [t])" "mset (entries (ws_tabs w @ [t])) = add_mset (i, p) (mset (ws_entries w))"
    by (simp_all add: ws_ok_def)
  have keys: "fst ` set (entries (ws_tabs w @ [t])) = insert i (fst ` set (ws_entries w))"
    using entry_added(1) [OF tabs(2)] by simp
  have "numbers_ok (ws_public_pane_numbers w') (ws_next_public_pane_number w')"
    unfolding w' using ok rm by (intro register_if_missing_numbers) (simp_all add: ws_ok_def room_def)
  moreover have "0 < ws_next_public_tab_number w" using ok by (simp add: ws_ok_def)
  ultimately show ?thesis
    using ok tabs(1) keys lt t(2) unfolding w' by (auto simp: ws_ok_def register_if_missing_fields intro: less_trans)
qed

lemma ws_ok_take:
  assumes ok: "ws_ok out w" and idx: "idx < length (ws_tabs w)"
    and t': "tab_wf t'" "tab_number t' = tab_number (ws_tabs w ! idx)"
      "tab_panes t' = hm_remove (tab_panes (ws_tabs w ! idx)) i"
    and i: "hm_get (tab_panes (ws_tabs w ! idx)) i = Some p"
  shows "ws_ok (insert i out) (w\<lparr>ws_tabs := (ws_tabs w)[idx := t']\<rparr>)"
proof -
  let ?w = "w\<lparr>ws_tabs := (ws_tabs w)[idx := t']\<rparr>"
  have tabs: "tabs_ok (ws_tabs ?w)" "mset (ws_entries w) = add_mset (i, p) (mset (ws_entries ?w))"
    using tabs_ok_remove [OF _ idx t' i] ok by (simp_all add: ws_ok_def)
  have keys: "fst ` set (ws_entries w) = insert i (fst ` set (ws_entries ?w))" "i \<notin> fst ` set (ws_entries ?w)"
    using entry_added(1,2) [OF tabs(2)] ok by (simp_all add: ws_ok_def tabs_ok_def)
  have "map tab_number (ws_tabs ?w) = map tab_number (ws_tabs w)"
    using map_update_same [of idx "ws_tabs w" tab_number t'] idx t'(2) by simp
  then have "tab_number ` set (ws_tabs ?w) = tab_number ` set (ws_tabs w)" by (metis set_map)
  with ok tabs(1) keys show ?thesis by (auto simp: ws_ok_def)
qed

lemma active_after_removal_fields:
  "ws_tabs (active_after_removal w idx) = ws_tabs w"
  "ws_next_public_tab_number (active_after_removal w idx) = ws_next_public_tab_number w"
  "ws_next_public_pane_number (active_after_removal w idx) = ws_next_public_pane_number w"
  "ws_public_pane_numbers (active_after_removal w idx) = ws_public_pane_numbers w"
  "ws_id (active_after_removal w idx) = ws_id w"
  "ws_tabs w \<noteq> [] \<Longrightarrow> ws_active_tab (active_after_removal w idx) < length (ws_tabs w)"
  by (auto simp: active_after_removal_def)

lemma adjust_active_fields:
  "ws_tabs (adjust_active_tab_after_removal w idx) = ws_tabs w"
  "ws_next_public_tab_number (adjust_active_tab_after_removal w idx) = ws_next_public_tab_number w"
  "ws_next_public_pane_number (adjust_active_tab_after_removal w idx) = ws_next_public_pane_number w"
  "ws_public_pane_numbers (adjust_active_tab_after_removal w idx) = ws_public_pane_numbers w"
  "ws_id (adjust_active_tab_after_removal w idx) = ws_id w"
  "ws_active_tab (adjust_active_tab_after_removal w idx) < length (ws_tabs w)
    \<or> ws_active_tab (adjust_active_tab_after_removal w idx) = 0 \<and> ws_tabs w = []"
  by (simp_all add: adjust_active_tab_after_removal_def active_after_removal_fields)

text \<open>Dropping a whole tab, its panes still registered.\<close>

lemma ws_ok_drop_tab:
  assumes ok: "ws_ok out w" and idx: "idx < length (ws_tabs w)"
    and w': "w' = adjust_active_tab_after_removal (w\<lparr>ws_tabs := remove_at idx (ws_tabs w)\<rparr>) idx"
  shows "ws_ok (fst ` set (tab_panes (ws_tabs w ! idx)) \<union> out) w'"
proof -
  let ?ts = "remove_at idx (ws_tabs w)"
  have m: "mset (ws_entries w) = mset (tab_panes (ws_tabs w ! idx) @ entries ?ts)"
    using entries_split(1) [OF idx] by simp
  then have keys: "fst ` set (ws_entries w) = fst ` set (tab_panes (ws_tabs w ! idx)) \<union> fst ` set (entries ?ts)"
    by (metis image_Un mset_eq_setD set_append)
  have "mset (map fst (ws_entries w)) = mset (map fst (tab_panes (ws_tabs w ! idx) @ entries ?ts))"
    using m by (simp only: mset_map)
  from distinct_mset_iff [OF this] ok have disj: "fst ` set (tab_panes (ws_tabs w ! idx)) \<inter> fst ` set (entries ?ts) = {}"
    by (auto simp: ws_ok_def tabs_ok_def)
  have tabs: "tabs_ok ?ts" using ok idx by (intro tabs_ok_remove_at) (simp_all add: ws_ok_def)
  have "\<forall>n \<in> tab_number ` set ?ts. 0 < n \<and> n < ws_next_public_tab_number w"
    using ok set_remove_at_subset [of idx "ws_tabs w"] by (auto simp: ws_ok_def)
  with ok keys disj tabs adjust_active_fields [of "w\<lparr>ws_tabs := ?ts\<rparr>" idx] show ?thesis
    unfolding w' ws_ok_def by (simp add: Int_Un_distrib Un_assoc) blast
qed

end
