(* ===== verification/WorkspaceSteps.thy ===== *)
theory WorkspaceSteps
  imports WorkspaceInv LayoutSteps
begin

section \<open>Every workspace operation keeps the invariant\<close>

text \<open>
  The operations of the theory Workspaces on well-formed workspaces, one lemma each, and the
  state machine they form together with the global id counters. Terminal ids are the issued
  ones: read off the clock in its thirteen-digit range with a counter value already used.
\<close>

definition issued :: "id_counters \<Rightarrow> rstr \<Rightarrow> bool" where
  "issued ids s \<longleftrightarrow> (\<exists>m c. clock_in_range m \<and> c < ic_terminal ids \<and> s = fst (terminal_id_alloc m c))"

definition ids_below :: "id_counters \<Rightarrow> workspace \<Rightarrow> bool" where
  "ids_below ids w \<longleftrightarrow> (\<forall>i \<in> fst ` set (ws_entries w). i < ic_pane ids)
     \<and> (\<forall>s \<in> set (tids (ws_entries w)). issued ids s)"

definition ids_room :: "id_counters \<Rightarrow> bool" where
  "ids_room ids \<longleftrightarrow> unat (ic_pane ids) + 1 < 2 ^ 32 \<and> unat (ic_terminal ids) + 1 < 2 ^ 64"

definition ws_inv :: "workspace \<Rightarrow> id_counters \<Rightarrow> bool" where
  "ws_inv w ids \<longleftrightarrow> ws_wf w \<and> ids_below ids w"

subsection \<open>Fresh ids\<close>

lemma fresh_terminal_id:
  "clock_in_range m \<Longrightarrow> issued ids s \<Longrightarrow> s \<noteq> fst (terminal_id_alloc m (ic_terminal ids))"
  unfolding issued_def using terminal_id_alloc_inj less_irrefl by metis

lemma fresh_entry:
  assumes "ids_below ids w" "clock_in_range m"
  shows "ic_pane ids \<notin> fst ` set (ws_entries w)"
    "ps_attached_terminal_id (pane_state_new (fst (terminal_id_alloc m (ic_terminal ids)))) \<notin> set (tids (ws_entries w))"
  using assms fresh_terminal_id [OF assms(2)] by (auto simp: ids_below_def pane_state_new_def)

lemma next_ids:
  assumes "ids_room ids"
  shows "ic_pane ids < ic_pane ids + 1" "ic_terminal ids < ic_terminal ids + 1"
  using assms unat_add_no_wrap [of "ic_pane ids" 1] unat_add_no_wrap [of "ic_terminal ids" 1]
  by (simp_all add: ids_room_def word_less_nat_alt)

lemma issued_mono: "issued ids s \<Longrightarrow> ic_terminal ids \<le> ic_terminal ids' \<Longrightarrow> issued ids' s"
  by (auto simp: issued_def intro: less_le_trans)

lemma ids_below_mono:
  "ids_below ids w \<Longrightarrow> ic_pane ids \<le> ic_pane ids' \<Longrightarrow> ic_terminal ids \<le> ic_terminal ids' \<Longrightarrow> ids_below ids' w"
  by (auto simp: ids_below_def intro: less_le_trans issued_mono)

lemma ids_below_cong: "ws_tabs w' = ws_tabs w \<Longrightarrow> ids_below ids w' \<longleftrightarrow> ids_below ids w"
  by (simp add: ids_below_def)

lemma ids_below_subset: "set (ws_entries w') \<subseteq> set (ws_entries w) \<Longrightarrow> ids_below ids w \<Longrightarrow> ids_below ids w'"
  by (auto simp: ids_below_def tids_def)

lemma ids_below_added:
  assumes "ids_below ids w" "mset (ws_entries w') = add_mset (i, p) (mset (ws_entries w))"
    and "i < ic_pane ids" "issued ids (ps_attached_terminal_id p)"
  shows "ids_below ids w'"
  using assms entry_added(1,4) [OF assms(2)] by (simp add: ids_below_def)

text \<open>A freshly allocated pane, after the counters moved on.\<close>

lemma ids_below_new_pane:
  assumes "ids_below ids w" "ids_room ids" "clock_in_range m"
    and "ids' = \<lparr>ic_pane = ic_pane ids + 1, ic_terminal = ic_terminal ids + 1\<rparr>"
    and "mset (ws_entries w') = add_mset (ic_pane ids, pane_state_new (fst (terminal_id_alloc m (ic_terminal ids)))) (mset (ws_entries w))"
  shows "ids_below ids' w'"
proof (rule ids_below_added [OF _ assms(5)])
  show "ids_below ids' w"
    using next_ids [OF assms(2)] by (intro ids_below_mono [OF assms(1)]) (simp_all add: assms(4) less_imp_le)
  show "ic_pane ids < ic_pane ids'" using next_ids [OF assms(2)] assms(4) by simp
  show "issued ids' (ps_attached_terminal_id (pane_state_new (fst (terminal_id_alloc m (ic_terminal ids)))))"
    using next_ids [OF assms(2)] assms(3,4) by (auto simp: issued_def pane_state_new_def)
qed

subsection \<open>Looking up a pane\<close>

lemma find_tab_index_Some:
  assumes "find_tab_index_for_pane w i = Some idx"
  obtains p where "idx < length (ws_tabs w)" "hm_get (tab_panes (ws_tabs w ! idx)) i = Some p"
  using position_Some [OF assms [unfolded find_tab_index_for_pane_def]] by auto

lemma find_tab_index_None: "find_tab_index_for_pane w i = None \<Longrightarrow> i \<notin> fst ` set (ws_entries w)"
  by (auto simp: find_tab_index_for_pane_def entries_def map_of_eq_None_iff)

lemma ws_ok_tab_wf: "ws_ok out w \<Longrightarrow> idx < length (ws_tabs w) \<Longrightarrow> tab_wf (ws_tabs w ! idx)"
  by (simp add: ws_ok_def tabs_ok_def)

lemma ws_wf_ok: "ws_wf w \<Longrightarrow> ws_ok {} w"
  by (simp add: ws_wf_def)

lemma tab_entries_subset: "idx < length ts \<Longrightarrow> set (tab_panes (ts ! idx)) \<subseteq> set (entries ts)"
  using nth_mem by (fastforce simp: entries_def)

lemma tab_keys_subset:
  assumes "ws_ok out w" "idx < length (ws_tabs w)"
  shows "set (tab_pane_ids (ws_tabs w ! idx)) \<subseteq> fst ` set (ws_entries w)"
  using tab_wf_keys [OF ws_ok_tab_wf [OF assms]] tab_entries_subset [OF assms(2)] by (metis image_mono)

lemma ws_wf_registered: "ws_ok {} w \<Longrightarrow> i \<in> fst ` set (ws_public_pane_numbers w) \<longleftrightarrow> i \<in> fst ` set (ws_entries w)"
  by (simp add: ws_ok_def)

subsection \<open>A tab whose panes stay the same\<close>

lemma ws_ok_same_tab:
  assumes ok: "ws_ok out w" and idx: "idx < length (ws_tabs w)"
    and t': "tab_wf t'" "tab_number t' = tab_number (ws_tabs w ! idx)"
      "map fst (tab_panes t') = map fst (tab_panes (ws_tabs w ! idx))"
      "tids (tab_panes t') = tids (tab_panes (ws_tabs w ! idx))"
  shows "ws_ok out (w\<lparr>ws_tabs := (ws_tabs w)[idx := t']\<rparr>)"
    "map fst (entries ((ws_tabs w)[idx := t'])) = map fst (ws_entries w)"
    "tids (entries ((ws_tabs w)[idx := t'])) = tids (ws_entries w)"
proof -
  let ?ts = "(ws_tabs w)[idx := t']"
  show keys: "map fst (entries ?ts) = map fst (ws_entries w)"
    using map_update_same [OF idx, of "\<lambda>t. map fst (tab_panes t)" t'] t'(3)
    by (simp add: entries_def map_concat comp_def)
  show ts: "tids (entries ?ts) = tids (ws_entries w)"
    using map_update_same [OF idx, of "\<lambda>t. tids (tab_panes t)" t'] t'(4)
    by (simp add: entries_def map_concat comp_def tids_def)
  have nums: "map tab_number ?ts = map tab_number (ws_tabs w)"
    using map_update_same [OF idx, of tab_number t'] t'(2) by simp
  have sets: "fst ` set (entries ?ts) = fst ` set (ws_entries w)" "tab_number ` set ?ts = tab_number ` set (ws_tabs w)"
    using keys nums by (metis set_map)+
  have "\<forall>t \<in> set ?ts. tab_wf t"
    using ok t'(1) set_update_subset_insert [of "ws_tabs w" idx t'] by (auto simp: ws_ok_def tabs_ok_def)
  with ok keys ts nums sets show "ws_ok out (w\<lparr>ws_tabs := ?ts\<rparr>)"
    by (auto simp: ws_ok_def tabs_ok_def)
qed

lemma ws_inv_same_tab:
  assumes "ws_inv w ids" "idx < length (ws_tabs w)" "tab_wf t'" "tab_number t' = tab_number (ws_tabs w ! idx)"
    "map fst (tab_panes t') = map fst (tab_panes (ws_tabs w ! idx))"
    "tids (tab_panes t') = tids (tab_panes (ws_tabs w ! idx))"
  shows "ws_inv (w\<lparr>ws_tabs := (ws_tabs w)[idx := t']\<rparr>) ids"
proof -
  note same = ws_ok_same_tab [OF _ assms(2-6)]
  have ok: "ws_ok {} w" using assms(1) by (simp add: ws_inv_def ws_wf_def)
  have "fst ` set (entries ((ws_tabs w)[idx := t'])) = fst ` set (ws_entries w)"
    using same(2) [OF ok] by (metis set_map)
  with assms(1) same [OF ok] show ?thesis by (auto simp: ws_inv_def ws_wf_def ids_below_def)
qed

lemma tab_wf_same_keys:
  assumes "tab_wf t" "map fst ps = map fst (tab_panes t)"
  shows "tab_wf (t\<lparr>tab_panes := ps\<rparr>)"
proof -
  have "fst ` set ps = fst ` set (tab_panes t)" using assms(2) by (metis set_map)
  with assms show ?thesis by (simp add: tab_wf_def panes_match_def)
qed

text \<open>The active tab may be any tab.\<close>

lemma ws_inv_active: "ws_inv w ids \<Longrightarrow> k < length (ws_tabs w) \<Longrightarrow> ws_inv (w\<lparr>ws_active_tab := k\<rparr>) ids"
  by (auto simp: ws_inv_def ws_wf_def ws_ok_def ids_below_def)

lemma switch_tab_inv:
  assumes "ws_inv w ids"
  shows "ws_inv (switch_tab w idx) ids"
proof (cases "idx < length (ws_tabs w)")
  case True
  let ?t = "ws_tabs w ! idx"
  let ?ps = "map (\<lambda>(i, p). (i, p\<lparr>ps_seen := True\<rparr>)) (tab_panes ?t)"
  have same: "map fst ?ps = map fst (tab_panes ?t)" "tids ?ps = tids (tab_panes ?t)"
    by (auto simp: tids_def)
  have "tab_wf ?t" using assms True by (auto simp: ws_inv_def ws_wf_def intro: ws_ok_tab_wf)
  then have "tab_wf (?t\<lparr>tab_panes := ?ps\<rparr>)" using same(1) by (rule tab_wf_same_keys)
  from ws_inv_same_tab [OF assms True this _ _ _] same
  have "ws_inv (w\<lparr>ws_tabs := (ws_tabs w)[idx := ?t\<lparr>tab_panes := ?ps\<rparr>]\<rparr>) ids" by simp
  from ws_inv_active [OF this, of idx] True show ?thesis
    by (simp add: switch_tab_def Let_def)
qed (use assms in \<open>simp add: switch_tab_def\<close>)

subsection \<open>Splitting\<close>

lemma list_update_same: "idx < length ts \<Longrightarrow> w\<lparr>ws_tabs := (ws_tabs w)[idx := ws_tabs w ! idx]\<rparr> = w"
  by (simp add: list_update_id)

lemma ws_inv_ids_mono: "ws_inv w ids \<Longrightarrow> ids_room ids \<Longrightarrow> ws_inv w (ids\<lparr>ic_pane := ic_pane ids + 1\<rparr>)"
  using next_ids [of ids] by (auto simp: ws_inv_def less_imp_le intro: ids_below_mono)

lemma split_tab_inv:
  assumes inv: "ws_inv w ids" and idx: "idx < length (ws_tabs w)"
    and clk: "clock_in_range micros" and rm: "ids_room ids" "room w"
    and res: "tab_split_pane_with_runtime spawn (ws_tabs w ! idx) target fcs d ratio cwd cur env command micros ids
      = Some (res, t', ids')"
  shows "case res of
      Inl _ \<Rightarrow> w\<lparr>ws_tabs := (ws_tabs w)[idx := t']\<rparr> = w \<and> ws_inv w ids'
    | Inr np \<Rightarrow> ws_inv (register_new_pane_with_number (w\<lparr>ws_tabs := (ws_tabs w)[idx := t']\<rparr>)
                 (np_pane_id np) (ws_next_public_pane_number w)) ids'
        \<and> np_pane_id np \<notin> fst ` set (ws_entries w)
        \<and> mset (entries ((ws_tabs w)[idx := t'])) = add_mset (np_pane_id np, pane_state_new (ts_id (np_terminal np))) (mset (ws_entries w))"
proof -
  have ok: "ws_ok {} w" and below: "ids_below ids w" and ne: "ws_tabs w \<noteq> []"
    using inv by (simp_all add: ws_inv_def ws_wf_def)
  note fresh = fresh_entry [OF below clk]
  have nt: "ic_pane ids \<notin> set (tab_pane_ids (ws_tabs w ! idx))"
    using fresh(1) tab_keys_subset [OF ok idx] by blast
  show ?thesis
  proof (cases rule: tab_split_cases [OF ws_ok_tab_wf [OF ok idx] nt, of target spawn fcs d ratio cwd cur env command micros])
    case 1
    with res inv show ?thesis by (auto simp: list_update_id)
  next
    case (2 err)
    with res ws_inv_ids_mono [OF inv rm(1)] show ?thesis by (auto simp: list_update_id)
  next
    case (3 np t'')
    let ?p = "pane_state_new (fst (terminal_id_alloc micros (ic_terminal ids)))"
    let ?w = "w\<lparr>ws_tabs := (ws_tabs w)[idx := t'']\<rparr>"
    have r: "res = Inr np" "t' = t''" "ids' = \<lparr>ic_pane = ic_pane ids + 1, ic_terminal = ic_terminal ids + 1\<rparr>"
      using 3(2) res by auto
    have put: "ws_ok ({} - {ic_pane ids}) (register_if_missing ?w (ic_pane ids))"
      using ws_ok_put [OF ok rm(2) idx 3(5,8,7) fresh] .
    have m: "mset (entries ((ws_tabs w)[idx := t''])) = add_mset (ic_pane ids, ?p) (mset (ws_entries w))"
      using tabs_ok_add(2) [OF _ idx 3(5,8,7) fresh] ok by (simp add: ws_ok_def)
    have reg: "register_new_pane_with_number ?w (ic_pane ids) (ws_next_public_pane_number w)
        = register_if_missing ?w (ic_pane ids)"
      using register_fresh [of "ic_pane ids" ?w] ws_wf_registered [OF ok] fresh(1) by simp
    have "ids_below ids' (register_if_missing ?w (ic_pane ids))"
      by (rule ids_below_new_pane [OF below rm(1) clk r(3)]) (simp add: register_if_missing_fields m)
    with put reg ne r 3(3,4) m fresh(1) show ?thesis
      by (simp add: ws_inv_def ws_wf_def register_if_missing_fields)
  qed
qed

lemma tab_split_total:
  assumes "ws_inv w ids" "idx < length (ws_tabs w)" "clock_in_range micros"
  shows "tab_split_pane_with_runtime spawn (ws_tabs w ! idx) target fcs d ratio cwd cur env command micros ids \<noteq> None"
proof -
  have ok: "ws_ok {} w" and below: "ids_below ids w" using assms(1) by (simp_all add: ws_inv_def ws_wf_def)
  have nt: "ic_pane ids \<notin> set (tab_pane_ids (ws_tabs w ! idx))"
    using fresh_entry(1) [OF below assms(3)] tab_keys_subset [OF ok assms(2)] by blast
  show ?thesis
    by (cases rule: tab_split_cases [OF ws_ok_tab_wf [OF ok assms(2)] nt, of target spawn fcs d ratio cwd cur env command micros])
       simp_all
qed

lemma ws_split_inv:
  assumes "ws_inv w ids" "clock_in_range micros" "ids_room ids" "room w"
    and "ws_split_pane_with_runtime spawn w i d ratio cwd cur extra fcs command micros ids = Some (res, w', ids')"
  shows "ws_inv w' ids'"
proof (cases "find_tab_index_for_pane w i")
  case None
  with assms show ?thesis by (simp add: ws_split_pane_with_runtime_def)
next
  case (Some idx)
  then have idx: "idx < length (ws_tabs w)" using find_tab_index_Some by blast
  let ?env = "launch_env_for_new_pane w (tab_number (ws_tabs w ! idx)) (ws_next_public_pane_number w) extra"
  obtain r t' ids'' where s: "tab_split_pane_with_runtime spawn (ws_tabs w ! idx) i fcs d ratio cwd cur ?env command micros ids
      = Some (r, t', ids'')"
    using tab_split_total [OF assms(1) idx assms(2)] by (metis not_None_eq prod_cases3)
  from split_tab_inv [OF assms(1) idx assms(2-4) s] s Some assms(5) show ?thesis
    by (cases r) (auto simp: ws_split_pane_with_runtime_def Let_def)
qed

lemma split_focused_inv:
  assumes "ws_inv w ids" "clock_in_range micros" "ids_room ids" "room w"
    and "split_focused_command spawn w d cwd cur command extra micros ids = Some (res, w', ids')"
  shows "ws_inv w' ids'"
proof -
  have idx: "ws_active_tab w < length (ws_tabs w)"
    using assms(1) by (auto simp: ws_inv_def ws_wf_def ws_ok_def)
  let ?t = "ws_tabs w ! ws_active_tab w"
  let ?env = "launch_env_for_new_pane w (tab_number ?t) (ws_next_public_pane_number w) extra"
  obtain r t' ids'' where s: "tab_split_pane_with_runtime spawn ?t (tl_focus (tab_layout ?t)) True d None cwd cur ?env
      (ShellCommand command) micros ids = Some (r, t', ids'')"
    using tab_split_total [OF assms(1) idx assms(2)] by (metis not_None_eq prod_cases3)
  from split_tab_inv [OF assms(1) idx assms(2-4) s] s idx assms(5) show ?thesis
    by (cases r) (auto simp: split_focused_command_def active_tab_def Let_def)
qed

subsection \<open>Creating tabs\<close>

lemma create_tab_inv:
  assumes inv: "ws_inv w ids" and clk: "clock_in_range micros" and rm: "ids_room ids" "room w"
    and res: "create_tab_with_runtime spawn w cwd command extra micros ids = Some (res, w', ids')"
  shows "ws_inv w' ids'"
proof -
  have ok: "ws_ok {} w" and below: "ids_below ids w" and ne: "ws_tabs w \<noteq> []"
    using inv by (simp_all add: ws_inv_def ws_wf_def)
  let ?n = "ws_next_public_tab_number w"
  let ?w1 = "w\<lparr>ws_next_public_tab_number := ?n + 1\<rparr>"
  let ?env = "launch_env_for_new_pane ?w1 ?n (ws_next_public_pane_number w) extra"
  note fresh = fresh_entry [OF below clk]
  have lt: "?n < ?n + 1" using rm(2) by (intro word_Suc_greater) (simp add: room_def)
  obtain r ids'' where t: "tab_new_with_runtime spawn ?n cwd command ?env micros ids = (r, ids'')"
    by (metis surj_pair)
  show ?thesis
  proof (cases rule: tab_new_cases [OF t])
    case (1 err)
    have "ws_inv ?w1 ids" using inv lt
      by (auto simp: ws_inv_def ws_wf_def ws_ok_def ids_below_def intro: less_trans)
    with 1 t res ws_inv_ids_mono [OF _ rm(1)] show ?thesis
      by (auto simp: create_tab_with_runtime_def Let_def split: if_splits)
  next
    case (2 t' trm)
    let ?w2 = "register_if_missing ?w1 (ic_pane ids)"
    let ?w3 = "?w2\<lparr>ws_tabs := ws_tabs ?w2 @ [t']\<rparr>"
    have put: "ws_ok ({} - {ic_pane ids}) ?w3"
      by (rule ws_ok_put_tab [OF ok rm(2) _ _ _ fresh refl]) (use 2 in simp_all)
    have m: "mset (ws_entries ?w3) = add_mset (ic_pane ids, pane_state_new (fst (terminal_id_alloc micros (ic_terminal ids)))) (mset (ws_entries w))"
      using 2 by (simp add: register_if_missing_fields entries_def)
    have "register_new_pane_with_number ?w1 (ic_pane ids) (ws_next_public_pane_number w) = ?w2"
      using register_fresh [of "ic_pane ids" ?w1] ws_wf_registered [OF ok] fresh(1) by simp
    with t 2 res have "w' = ?w3" "ids' = ids''"
      by (auto simp: create_tab_with_runtime_def Let_def split: if_splits)
    with put ids_below_new_pane [OF below rm(1) clk 2(2) m] show ?thesis
      by (simp add: ws_inv_def ws_wf_def)
  qed
qed

subsection \<open>Closing and moving tabs\<close>

lemma mset_remove_at: "idx < length xs \<Longrightarrow> mset xs = add_mset (xs ! idx) (mset (remove_at idx xs))"
  by (subst (1) id_take_nth_drop [of idx]) (simp_all add: remove_at_def)

lemma mset_insert_at: "mset (insert_at k x xs) = add_mset x (mset xs)"
  unfolding insert_at_def by (metis append_take_drop_id mset.simps(2) mset_append union_mset_add_mset_right)

lemma mset_entries: "mset (entries ts) = sum_mset (image_mset (\<lambda>t. mset (tab_panes t)) (mset ts))"
  by (induction ts) (simp_all add: entries_def)

lemma tabs_ok_perm:
  assumes "mset ts' = mset ts"
  shows "tabs_ok ts' \<longleftrightarrow> tabs_ok ts" "set (entries ts') = set (entries ts)"
proof -
  have e: "mset (entries ts') = mset (entries ts)" using assms by (simp add: mset_entries)
  have "mset (map f (entries ts')) = mset (map f (entries ts))" for f :: "_ \<Rightarrow> 'b" using e by simp
  from distinct_mset_iff [OF this, of fst] distinct_mset_iff [OF this, of "\<lambda>e. ps_attached_terminal_id (snd e)"]
  have "distinct (map fst (entries ts')) \<longleftrightarrow> distinct (map fst (entries ts))"
    "distinct (tids (entries ts')) \<longleftrightarrow> distinct (tids (entries ts))" by (simp_all only: tids_def)
  moreover have "mset (map tab_number ts') = mset (map tab_number ts)" using assms by simp
  then have "distinct (map tab_number ts') \<longleftrightarrow> distinct (map tab_number ts)" by (rule distinct_mset_iff)
  ultimately show "tabs_ok ts' \<longleftrightarrow> tabs_ok ts"
    unfolding tabs_ok_def using mset_eq_setD [OF assms] by simp
  show "set (entries ts') = set (entries ts)" using e by (rule mset_eq_setD)
qed

lemma move_tab_moved:
  assumes "move_tab w a b = (w', True)"
  obtains target where "a < length (ws_tabs w)" "b \<le> length (ws_tabs w)"
    "target = min (if a < b then b - 1 else b) (length (ws_tabs w) - 1)" "a \<noteq> target"
    "ws_tabs w' = insert_at target (ws_tabs w ! a) (remove_at a (ws_tabs w))"
    "ws_active_tab w' = (case Option.bind (map_option tab_root_pane (active_tab w))
                    (\<lambda>root. position (\<lambda>t. tab_root_pane t = root) (ws_tabs w')) of Some k \<Rightarrow> k | None \<Rightarrow> target)"
    "w' = w\<lparr>ws_tabs := ws_tabs w', ws_active_tab := ws_active_tab w'\<rparr>"
proof -
  define target where "target = min (if a < b then b - 1 else b) (length (ws_tabs w) - 1)"
  have guard: "\<not> (length (ws_tabs w) \<le> a \<or> length (ws_tabs w) < b)" "a \<noteq> target"
    using assms unfolding move_tab_def Let_def target_def by (simp_all split: if_splits)
  have "w' = w\<lparr>ws_tabs := insert_at target (ws_tabs w ! a) (remove_at a (ws_tabs w)),
      ws_active_tab := (case Option.bind (map_option tab_root_pane (active_tab w))
         (\<lambda>root. position (\<lambda>t. tab_root_pane t = root) (insert_at target (ws_tabs w ! a) (remove_at a (ws_tabs w)))) of
           Some k \<Rightarrow> k | None \<Rightarrow> target)\<rparr>"
    using assms guard unfolding move_tab_def Let_def target_def [symmetric] by simp
  then show ?thesis using guard target_def that [of target] by simp
qed

lemma move_tab_inv:
  assumes "ws_inv w ids" "move_tab w a b = (w', ok)"
  shows "ws_inv w' ids"
proof (cases ok)
  case False
  with assms show ?thesis by (simp add: move_tab_def Let_def split: if_splits)
next
  case True
  with assms(2) have "move_tab w a b = (w', True)" by simp
  then obtain target where a: "a < length (ws_tabs w)" and "b \<le> length (ws_tabs w)"
    and target: "target = min (if a < b then b - 1 else b) (length (ws_tabs w) - 1)" and "a \<noteq> target"
    and tabs: "ws_tabs w' = insert_at target (ws_tabs w ! a) (remove_at a (ws_tabs w))"
    and act: "ws_active_tab w' = (case Option.bind (map_option tab_root_pane (active_tab w))
                    (\<lambda>root. position (\<lambda>t. tab_root_pane t = root) (ws_tabs w')) of Some k \<Rightarrow> k | None \<Rightarrow> target)"
    and w': "w' = w\<lparr>ws_tabs := ws_tabs w', ws_active_tab := ws_active_tab w'\<rparr>"
    by (rule move_tab_moved)
  have m: "mset (ws_tabs w') = mset (ws_tabs w)" using mset_remove_at [OF a] by (simp add: tabs mset_insert_at)
  have "target < length (ws_tabs w)" using a target by (simp add: min_def) linarith
  then have "ws_active_tab w' < length (ws_tabs w')"
    using act mset_eq_length [OF m] by (auto simp: bind_eq_Some_conv split: option.splits dest: position_Some)
  moreover have "ws_inv (w\<lparr>ws_tabs := ws_tabs w', ws_active_tab := ws_active_tab w'\<rparr>) ids" if "ws_active_tab w' < length (ws_tabs w')"
    using assms(1) tabs_ok_perm [OF m] mset_eq_setD [OF m] that
    by (auto simp: ws_inv_def ws_wf_def ws_ok_def ids_below_def tids_def)
  ultimately show ?thesis using w' by simp
qed

lemma active_after_unregister:
  "active_after_removal (foldl unregister_pane w is) idx = foldl unregister_pane (active_after_removal w idx) is"
proof (induction "is" arbitrary: w)
  case (Cons i "is")
  have "active_after_removal (unregister_pane w i) idx = unregister_pane (active_after_removal w idx) i"
    by (simp add: active_after_removal_def unregister_pane_def)
  with Cons [of "unregister_pane w i"] show ?case by simp
qed simp

lemma unregister_tabs [simp]: "ws_tabs (unregister_pane w i) = ws_tabs w"
  by (simp add: unregister_pane_def)

lemma unregister_all_tabs [simp]: "ws_tabs (foldl unregister_pane w is) = ws_tabs w"
  by (induction "is" arbitrary: w) simp_all

text \<open>A tab goes with all its panes, and their numbers after it.\<close>

lemma ws_inv_drop_tab:
  assumes inv: "ws_inv w ids" and idx: "idx < length (ws_tabs w)" and many: "1 < length (ws_tabs w)"
    and "is": "set is = fst ` set (tab_panes (ws_tabs w ! idx))" "distinct is"
  shows "ws_inv (active_after_removal (foldl unregister_pane (w\<lparr>ws_tabs := remove_at idx (ws_tabs w)\<rparr>) is) idx) ids"
proof -
  let ?w1 = "w\<lparr>ws_tabs := remove_at idx (ws_tabs w)\<rparr>"
  have ne: "remove_at idx (ws_tabs w) \<noteq> []" using many idx length_remove_at [OF idx] by fastforce
  have ok: "ws_ok {} w" using inv by (simp add: ws_inv_def ws_wf_def)
  from ws_ok_drop_tab [OF ok idx refl] ne "is"(1) have "ws_ok (set is) (active_after_removal ?w1 idx)"
    by (simp add: adjust_active_tab_after_removal_def)
  from ws_ok_unregister_all [OF this subset_refl "is"(2)] ne
  have "ws_wf (active_after_removal (foldl unregister_pane ?w1 is) idx)"
    by (simp add: ws_wf_def active_after_unregister active_after_removal_fields)
  moreover have "set (entries (remove_at idx (ws_tabs w))) \<subseteq> set (ws_entries w)"
    using set_remove_at_subset [of idx "ws_tabs w"] by (auto simp: entries_def)
  then have "ids_below ids (active_after_removal (foldl unregister_pane ?w1 is) idx)"
    using inv ids_below_subset [of "active_after_removal (foldl unregister_pane ?w1 is) idx" w ids]
    by (simp add: ws_inv_def active_after_removal_fields)
  ultimately show ?thesis by (simp add: ws_inv_def)
qed

lemma close_tab_inv:
  assumes "ws_inv w ids" "close_tab w idx = (w', ok)"
  shows "ws_inv w' ids"
proof (cases "length (ws_tabs w) \<le> 1 \<or> length (ws_tabs w) \<le> idx")
  case True
  with assms show ?thesis by (auto simp: close_tab_def)
next
  case False
  then have idx: "idx < length (ws_tabs w)" by simp
  have "tab_wf (ws_tabs w ! idx)" using assms(1) idx by (auto simp: ws_inv_def ws_wf_def intro: ws_ok_tab_wf)
  from ws_inv_drop_tab [OF assms(1) idx, of "map fst (tab_panes (ws_tabs w ! idx))"] False assms(2) tab_wf_hm [OF this]
  show ?thesis by (auto simp: close_tab_def Let_def)
qed

subsection \<open>Closing and moving panes\<close>

text \<open>What a pane's own tab looks like.\<close>

lemma single_pane_keys:
  assumes "tab_wf t" "length (tab_pane_ids t) \<le> 1" "hm_get (tab_panes t) i = Some p"
  shows "fst ` set (tab_panes t) = {i}"
proof -
  have i: "i \<in> set (tab_pane_ids t)" using tab_wf_contains [OF assms(1), of i] assms(3) by simp
  with assms(2) have "tab_pane_ids t = [i]" by (cases "tab_pane_ids t") auto
  with tab_wf_keys [OF assms(1)] show ?thesis by simp
qed

lemma single_pane_panes:
  assumes "tab_wf t" "length (tab_pane_ids t) \<le> 1" "hm_get (tab_panes t) i = Some p"
  shows "tab_panes t = [(i, p)]"
  using single_pane_keys [OF assms] tab_wf_hm [OF assms(1)] assms(3)
  by (cases "tab_panes t"; cases "tl (tab_panes t)") (auto split: if_splits)

lemma ws_close_pane_inv:
  assumes inv: "ws_inv w ids" and res: "ws_close_pane w i = Some (w', closes)"
  shows "ws_inv w' ids
    \<and> (w' = w \<and> (closes \<longrightarrow> fst ` set (ws_entries w) = {i}) \<and> (i \<in> fst ` set (ws_entries w) \<longrightarrow> closes)
      \<or> \<not> closes \<and> (\<exists>p. mset (ws_entries w) = add_mset (i, p) (mset (ws_entries w'))))"
proof (cases "find_tab_index_for_pane w i")
  case None
  then have "i \<notin> fst ` set (ws_entries w)" by (rule find_tab_index_None)
  with None assms show ?thesis by (simp add: ws_close_pane_def)
next
  case (Some idx)
  from find_tab_index_Some [OF Some] obtain p where idx: "idx < length (ws_tabs w)"
    and p: "hm_get (tab_panes (ws_tabs w ! idx)) i = Some p" .
  have ok: "ws_ok {} w" using inv by (simp add: ws_inv_def ws_wf_def)
  note wf = ws_ok_tab_wf [OF ok idx]
  let ?t = "ws_tabs w ! idx"
  show ?thesis
  proof (cases "length (tab_pane_ids ?t) \<le> 1")
    case True
    show ?thesis
    proof (cases "length (ws_tabs w) \<le> 1")
      case one: True
      with idx have "ws_tabs w = [?t]" by (cases "ws_tabs w") auto
      then have "fst ` set (ws_entries w) = {i}"
        using single_pane_keys [OF wf True p] by (metis concat.simps append_Nil2 entries_def list.simps(8,9))
      with one Some True res inv show ?thesis
        by (simp add: ws_close_pane_def pane_count_ids tab_pane_ids_def)
    next
      case False
      let ?w1 = "unregister_pane (w\<lparr>ws_tabs := remove_at idx (ws_tabs w)\<rparr>) i"
      have w': "w' = active_after_removal ?w1 idx" "\<not> closes"
        using False Some True res by (auto simp: ws_close_pane_def pane_count_ids tab_pane_ids_def)
      have "ws_inv w' ids"
        using ws_inv_drop_tab [OF inv idx, of "[i]"] single_pane_keys [OF wf True p] False w'(1) by simp
      moreover have "mset (ws_entries w) = add_mset (i, p) (mset (ws_entries w'))"
        using entries_split(1) [OF idx] single_pane_panes [OF wf True p]
        by (simp add: w'(1) active_after_removal_fields)
      ultimately show ?thesis using w'(2) by blast
    qed
  next
    case False
    then have many: "1 < length (tab_pane_ids ?t)" by simp
    from detach_pane_cases [OF wf many p] obtain t' where
      t': "detach_pane ?t i = Some (t', Some (i, ps_attached_terminal_id p))" "tab_wf t'"
        "tab_panes t' = hm_remove (tab_panes ?t) i" "tab_number t' = tab_number ?t" by metis
    let ?w = "w\<lparr>ws_tabs := (ws_tabs w)[idx := t']\<rparr>"
    have "ws_ok {i} ?w" using ws_ok_take [OF ok idx t'(2,4,3) p] by simp
    from ws_ok_unregister [OF this, of i] have "ws_ok {} (unregister_pane ?w i)" by simp
    moreover have "w' = unregister_pane ?w i" "\<not> closes"
      using res Some many t'(1) by (auto simp: ws_close_pane_def pane_count_ids tab_pane_ids_def Let_def)
    moreover have m: "mset (ws_entries w) = add_mset (i, p) (mset (entries ((ws_tabs w)[idx := t'])))"
      using tabs_ok_remove(2) [OF _ idx t'(2,4,3) p] ok by (simp add: ws_ok_def)
    then have "set (entries ((ws_tabs w)[idx := t'])) \<subseteq> set (ws_entries w)"
      by (metis set_mset_add_mset_insert set_mset_mset subset_insertI)
    ultimately show ?thesis
      using inv ids_below_subset [of w' w ids] m by (auto simp: ws_inv_def ws_wf_def)
  qed
qed

text \<open>Taking a pane leaves its number registered until the pane is placed again or given up.\<close>

lemma ws_take_cases:
  assumes inv: "ws_inv w ids" and res: "ws_take_pane_for_move w i = Some (w1, taken)"
  obtains (absent) "taken = None" "w1 = w" "i \<notin> fst ` set (ws_entries w)"
  | (taken) tk where "taken = Some tk" "mp_pane_id (tp_moved tk) = i" "ws_ok {i} w1"
      "set (ws_entries w1) \<subseteq> set (ws_entries w)" "i < ic_pane ids"
      "issued ids (ps_attached_terminal_id (mp_pane_state (tp_moved tk)))"
      "ps_attached_terminal_id (mp_pane_state (tp_moved tk)) \<notin> set (tids (ws_entries w1))"
      "tp_workspace_empty tk \<longleftrightarrow> ws_tabs w1 = []"
      "ws_next_public_tab_number w1 = ws_next_public_tab_number w"
      "ws_next_public_pane_number w1 = ws_next_public_pane_number w"
      "ws_public_pane_numbers w1 = ws_public_pane_numbers w" "ws_id w1 = ws_id w"
      "mset (ws_entries w) = add_mset (i, mp_pane_state (tp_moved tk)) (mset (ws_entries w1))"
proof (cases "find_tab_index_for_pane w i")
  case None
  with None find_tab_index_None [OF None] res absent show ?thesis by (simp add: ws_take_pane_for_move_def)
next
  case (Some idx)
  from find_tab_index_Some [OF Some] obtain p where idx: "idx < length (ws_tabs w)"
    and p: "hm_get (tab_panes (ws_tabs w ! idx)) i = Some p" .
  have ok: "ws_ok {} w" and below: "ids_below ids w" and ne: "ws_tabs w \<noteq> []"
    using inv by (simp_all add: ws_inv_def ws_wf_def)
  note wf = ws_ok_tab_wf [OF ok idx]
  let ?t = "ws_tabs w ! idx" and ?mv = "\<lparr>mp_pane_id = i, mp_pane_state = p\<rparr>"
  have entry: "(i, p) \<in> set (ws_entries w)"
    using tab_entries_subset [OF idx] map_of_SomeD [OF p] by auto
  then have i: "i < ic_pane ids" "issued ids (ps_attached_terminal_id p)"
    using below by (force simp: ids_below_def tids_def)+
  have dist: "distinct (tids (ws_entries w))" using ok by (simp add: ws_ok_def tabs_ok_def)
  show ?thesis
  proof (cases "length (tab_pane_ids ?t) \<le> 1")
    case True
    let ?w1 = "adjust_active_tab_after_removal (w\<lparr>ws_tabs := remove_at idx (ws_tabs w)\<rparr>) idx"
    have w1: "w1 = ?w1" "taken = Some \<lparr>tp_moved = ?mv, tp_removed_tab_idx = Some idx, tp_workspace_empty = (ws_tabs ?w1 = [])\<rparr>"
      using res Some True tab_take_last [OF wf True p]
      by (auto simp add: ws_take_pane_for_move_def pane_count_ids tab_pane_ids_def Let_def)
    have "fst ` set (tab_panes ?t) = {i}" by (rule single_pane_keys [OF wf True p])
    with ws_ok_drop_tab [OF ok idx refl] have ok1: "ws_ok {i} w1" by (simp add: w1(1))
    have "tab_panes ?t = [(i, p)]" by (rule single_pane_panes [OF wf True p])
    then have m: "mset (ws_entries w) = add_mset (i, p) (mset (ws_entries w1))"
      using entries_split(1) [OF idx] by (simp add: w1(1) adjust_active_fields)
    from entry_added(3,4) [OF m] dist have "ps_attached_terminal_id p \<notin> set (tids (ws_entries w1))" by simp
    moreover have "set (ws_entries w1) \<subseteq> set (ws_entries w)"
      using m by (metis set_mset_add_mset_insert set_mset_mset subset_insertI)
    moreover have "ws_next_public_tab_number w1 = ws_next_public_tab_number w"
      "ws_next_public_pane_number w1 = ws_next_public_pane_number w"
      "ws_public_pane_numbers w1 = ws_public_pane_numbers w" "ws_id w1 = ws_id w"
      by (simp_all add: w1(1) adjust_active_fields)
    ultimately show ?thesis using taken [OF w1(2)] ok1 i m by (simp add: w1(1))
  next
    case False
    then have many: "1 < length (tab_pane_ids ?t)" by simp
    from detach_pane_cases [OF wf many p] obtain t' where
      t': "tab_take_pane_for_move ?t i = Some (t', Some ?mv)" "tab_wf t'"
        "tab_panes t' = hm_remove (tab_panes ?t) i" "tab_number t' = tab_number ?t" by metis
    have w1: "w1 = w\<lparr>ws_tabs := (ws_tabs w)[idx := t']\<rparr>"
      "taken = Some \<lparr>tp_moved = ?mv, tp_removed_tab_idx = None, tp_workspace_empty = False\<rparr>"
      using res Some many t'(1) by (simp_all add: ws_take_pane_for_move_def pane_count_ids tab_pane_ids_def Let_def)
    have ok1: "ws_ok {i} w1" using ws_ok_take [OF ok idx t'(2,4,3) p] by (simp add: w1(1))
    have m: "mset (ws_entries w) = add_mset (i, p) (mset (ws_entries w1))"
      using tabs_ok_remove(2) [OF _ idx t'(2,4,3) p] ok by (simp add: ws_ok_def w1(1))
    from entry_added(3,4) [OF m] dist have "ps_attached_terminal_id p \<notin> set (tids (ws_entries w1))" by simp
    moreover have "set (ws_entries w1) \<subseteq> set (ws_entries w)"
      using m by (metis set_mset_add_mset_insert set_mset_mset subset_insertI)
    ultimately show ?thesis using taken [OF w1(2)] ok1 i ne m by (simp add: w1(1))
  qed
qed

text \<open>Placing a pane that is out: from another workspace, or just taken from this one.\<close>

definition placeable :: "id_counters \<Rightarrow> workspace \<Rightarrow> moved_pane \<Rightarrow> bool" where
  "placeable ids w moved \<longleftrightarrow> mp_pane_id moved < ic_pane ids
     \<and> mp_pane_id moved \<notin> fst ` set (ws_entries w)
     \<and> issued ids (ps_attached_terminal_id (mp_pane_state moved))
     \<and> ps_attached_terminal_id (mp_pane_state moved) \<notin> set (tids (ws_entries w))"

lemma placeable_added:
  assumes "ids_below ids w" "placeable ids w moved"
    and "mset (ws_entries w') = add_mset (mp_pane_id moved, mp_pane_state moved) (mset (ws_entries w))"
  shows "ids_below ids w'"
  using ids_below_added [OF assms(1,3)] assms(2) by (simp add: placeable_def)

lemma insert_moved_ok:
  assumes ok: "ws_ok out w" "out \<subseteq> {mp_pane_id moved}" and below: "ids_below ids w" and rm: "room w"
    and pl: "placeable ids w moved"
    and res: "insert_moved_pane_into_tab w idx target moved d ratio fcs = (w', r)"
  shows "case r of Inl m \<Rightarrow> w' = w \<and> m = moved | Inr i \<Rightarrow> ws_inv w' ids \<and> i = mp_pane_id moved
    \<and> mset (ws_entries w') = add_mset (mp_pane_id moved, mp_pane_state moved) (mset (ws_entries w))"
proof (cases "length (ws_tabs w) \<le> idx")
  case True
  with res show ?thesis by (auto simp: insert_moved_pane_into_tab_def)
next
  case False
  then have idx: "idx < length (ws_tabs w)" by simp
  have fresh: "mp_pane_id moved \<notin> fst ` set (ws_entries w)"
    "ps_attached_terminal_id (mp_pane_state moved) \<notin> set (tids (ws_entries w))"
    using pl by (simp_all add: placeable_def)
  show ?thesis
  proof (cases rule: insert_existing_cases [OF ws_ok_tab_wf [OF ok(1) idx], of target moved d ratio fcs])
    case 1
    with res False show ?thesis by (auto simp: insert_moved_pane_into_tab_def list_update_id)
  next
    case (2 t')
    let ?w = "w\<lparr>ws_tabs := (ws_tabs w)[idx := t']\<rparr>"
    from ok have tabs: "tabs_ok (ws_tabs w)" by (simp add: ws_ok_def)
    have put: "ws_ok (out - {mp_pane_id moved}) (register_if_missing ?w (mp_pane_id moved))"
      using ws_ok_put [OF ok(1) rm idx 2(2,6,5) fresh] .
    have none: "out - {mp_pane_id moved} = {}" using ok(2) by auto
    have m: "mset (entries ((ws_tabs w)[idx := t'])) = add_mset (mp_pane_id moved, mp_pane_state moved) (mset (ws_entries w))"
      using tabs_ok_add(2) [OF tabs idx 2(2,6,5) fresh] .
    have "ids_below ids (register_if_missing ?w (mp_pane_id moved))"
      by (rule placeable_added [OF below pl]) (simp add: register_if_missing_fields m)
    with put none idx 2(1) res False m show ?thesis
      by (auto simp: insert_moved_pane_into_tab_def ws_inv_def ws_wf_def register_if_missing_fields)
  qed
qed

lemma create_from_existing_ok:
  assumes ok: "ws_ok out w" "out \<subseteq> {mp_pane_id moved}" and below: "ids_below ids w" and rm: "room w"
    and pl: "placeable ids w moved" and res: "create_tab_from_existing_pane w moved label = (w', k)"
  shows "ws_inv w' ids \<and> k < length (ws_tabs w')
    \<and> mset (ws_entries w') = add_mset (mp_pane_id moved, mp_pane_state moved) (mset (ws_entries w))"
proof -
  let ?t = "tab_from_existing_pane (ws_next_public_tab_number w) label moved"
  let ?w1 = "register_if_missing (w\<lparr>ws_next_public_tab_number := ws_next_public_tab_number w + 1\<rparr>) (mp_pane_id moved)"
  have w': "w' = ?w1\<lparr>ws_tabs := ws_tabs ?w1 @ [?t]\<rparr>" "k = length (ws_tabs w') - 1"
    using res by (auto simp: create_tab_from_existing_pane_def Let_def)
  have fresh: "mp_pane_id moved \<notin> fst ` set (ws_entries w)"
    "ps_attached_terminal_id (mp_pane_state moved) \<notin> set (tids (ws_entries w))"
    using pl by (simp_all add: placeable_def)
  have "ws_ok (out - {mp_pane_id moved}) w'"
    unfolding w'(1)
    by (rule ws_ok_put_tab [OF ok(1) rm _ _ _ fresh refl])
       (simp_all add: tab_from_existing_wf)
  moreover have "out - {mp_pane_id moved} = {}" using ok(2) by auto
  moreover have "mset (ws_entries w') = add_mset (mp_pane_id moved, mp_pane_state moved) (mset (ws_entries w))"
    by (simp add: w'(1) register_if_missing_fields entries_def tab_from_existing_wf)
  ultimately show ?thesis
    using placeable_added [OF below pl] w' by (auto simp: ws_inv_def ws_wf_def)
qed

end
