(* ===== verification/WorkspaceReach.thy ===== *)
theory WorkspaceReach
  imports WorkspaceSteps
begin

section \<open>Reachable workspaces\<close>

text \<open>
  The workspace as a state machine: a state is a workspace with the global counters of pane
  and terminal ids, a step is one operation of \<open>workspace.rs\<close> or an edit of one tab's layout,
  and a pane that is moved leaves and arrives in one step, as the handler of the move does
  it. The rules leave out counters that wrap and a clock outside its thirteen-digit range.
\<close>

type_synonym ws_state = "workspace \<times> id_counters"

abbreviation set_tab :: "workspace \<Rightarrow> nat \<Rightarrow> tab \<Rightarrow> workspace" where
  "set_tab w idx t \<equiv> w\<lparr>ws_tabs := (ws_tabs w)[idx := t]\<rparr>"

inductive ws_step :: "rect_new \<Rightarrow> ws_state \<Rightarrow> ws_state \<Rightarrow> bool" for rn where
  switch: "ws_step rn (w, ids) (switch_tab w idx, ids)"
| create_tab: "clock_in_range micros \<Longrightarrow> ids_room ids \<Longrightarrow> room w
     \<Longrightarrow> create_tab_with_runtime spawn w cwd command extra micros ids = Some (created, w', ids')
     \<Longrightarrow> ws_step rn (w, ids) (w', ids')"
| close_tab: "close_tab w idx = (w', ok) \<Longrightarrow> ws_step rn (w, ids) (w', ids)"
| move_tab: "move_tab w a b = (w', ok) \<Longrightarrow> ws_step rn (w, ids) (w', ids)"
| split_focused: "clock_in_range micros \<Longrightarrow> ids_room ids \<Longrightarrow> room w
     \<Longrightarrow> split_focused_command spawn w d cwd cur cmd extra micros ids = Some (new, w', ids')
     \<Longrightarrow> ws_step rn (w, ids) (w', ids')"
| split: "clock_in_range micros \<Longrightarrow> ids_room ids \<Longrightarrow> room w
     \<Longrightarrow> ws_split_pane_with_runtime spawn w i d ratio cwd cur extra fcs command micros ids = Some (res, w', ids')
     \<Longrightarrow> ws_step rn (w, ids) (w', ids')"
| close_pane: "ws_close_pane w i = Some (w', closes) \<Longrightarrow> ws_step rn (w, ids) (w', ids)"
| remove_pane: "ws_remove_pane w i = Some (w', closes) \<Longrightarrow> ws_step rn (w, ids) (w', ids)"
| move_out: "ws_take_pane_for_move w i = Some (w1, Some tk) \<Longrightarrow> \<not> tp_workspace_empty tk
     \<Longrightarrow> ws_step rn (w, ids) (unregister_moved_pane w1 (mp_pane_id (tp_moved tk)), ids)"
| move_in: "room w \<Longrightarrow> placeable ids w moved
     \<Longrightarrow> insert_moved_pane_into_tab w idx target moved d ratio fcs = (w', placed)
     \<Longrightarrow> ws_step rn (w, ids) (w', ids)"
| move_in_tab: "room w \<Longrightarrow> placeable ids w moved
     \<Longrightarrow> create_tab_from_existing_pane w moved label = (w', k) \<Longrightarrow> ws_step rn (w, ids) (w', ids)"
| move_within: "room w \<Longrightarrow> ws_take_pane_for_move w i = Some (w1, Some tk)
     \<Longrightarrow> insert_moved_pane_into_tab w1 idx target (tp_moved tk) d ratio fcs = (w', Inr j)
     \<Longrightarrow> ws_step rn (w, ids) (w', ids)"
| move_to_tab: "room w \<Longrightarrow> ws_take_pane_for_move w i = Some (w1, Some tk)
     \<Longrightarrow> create_tab_from_existing_pane w1 (tp_moved tk) label = (w', k)
     \<Longrightarrow> ws_step rn (w, ids) (w', ids)"
| rename: "ws_step rn (w, ids) (ws_set_custom_name w name, ids)"
| rename_tab: "idx < length (ws_tabs w)
     \<Longrightarrow> ws_step rn (w, ids) (set_tab w idx (tab_set_custom_name (ws_tabs w ! idx) name), ids)"
| focus: "idx < length (ws_tabs w)
     \<Longrightarrow> ws_step rn (w, ids) (set_tab w idx ((ws_tabs w ! idx)\<lparr>tab_layout := focus_pane (tab_layout (ws_tabs w ! idx)) i\<rparr>), ids)"
| swap: "idx < length (ws_tabs w) \<Longrightarrow> swap_panes (tab_layout (ws_tabs w ! idx)) i j = (l', ok)
     \<Longrightarrow> ws_step rn (w, ids) (set_tab w idx ((ws_tabs w ! idx)\<lparr>tab_layout := l'\<rparr>), ids)"
| ratio: "idx < length (ws_tabs w) \<Longrightarrow> set_ratio_at (tab_layout (ws_tabs w ! idx)) path r = (l', ok)
     \<Longrightarrow> ws_step rn (w, ids) (set_tab w idx ((ws_tabs w ! idx)\<lparr>tab_layout := l'\<rparr>), ids)"
| resize: "idx < length (ws_tabs w) \<Longrightarrow> resize_pane rn (tab_layout (ws_tabs w ! idx)) i nav delta area = (l', changed)
     \<Longrightarrow> ws_step rn (w, ids) (set_tab w idx ((ws_tabs w ! idx)\<lparr>tab_layout := l'\<rparr>), ids)"

inductive ws_reachable :: "rect_new \<Rightarrow> ws_state \<Rightarrow> bool" for rn where
  new: "clock_in_range micros \<Longrightarrow> ids_room ids
     \<Longrightarrow> ws_new_with_tab spawn discover cwd command extra micros ids n = (Inr (w, trm), ids', n')
     \<Longrightarrow> ws_reachable rn (w, ids')"
| from_pane: "mp_pane_id moved < ic_pane ids \<Longrightarrow> issued ids (ps_attached_terminal_id (mp_pane_state moved))
     \<Longrightarrow> ws_from_existing_pane discover label tab_label cwd moved n = (w, n') \<Longrightarrow> ws_reachable rn (w, ids)"
| step: "ws_reachable rn s \<Longrightarrow> ws_step rn s t \<Longrightarrow> ws_reachable rn t"

inductive_cases ws_stepE: "ws_step rn (w, ids) (w', ids')"

subsection \<open>The first state\<close>

lemma new_workspace_wf:
  assumes "tab_wf t" "tab_number t = 1" "tab_panes t = [(tab_root_pane t, p)]"
  shows "ws_wf (new_workspace discover wid label cwd t)"
  using assms
  by (simp add: ws_wf_def ws_ok_def tabs_ok_def numbers_ok_def new_workspace_def entries_def tids_def word_less_nat_alt)

lemma ids_below_single:
  "ws_tabs w = [t] \<Longrightarrow> tab_panes t = [(i, p)] \<Longrightarrow> i < ic_pane ids \<Longrightarrow> issued ids (ps_attached_terminal_id p) \<Longrightarrow> ids_below ids w"
  by (simp add: ids_below_def entries_def tids_def)

lemma new_with_tab_inv:
  assumes "clock_in_range micros" "ids_room ids"
    and "ws_new_with_tab spawn discover cwd command extra micros ids n = (Inr (w, trm), ids', n')"
  shows "ws_inv w ids'"
proof -
  let ?wid = "fst (generate_workspace_id n)"
  let ?env = "with_identity (launch_env_from_extra extra) ?wid (public_tab_id_for_number ?wid 1) (public_pane_id_for_number ?wid 1)"
  obtain r ids'' where t: "tab_new_with_runtime spawn 1 cwd command ?env micros ids = (r, ids'')"
    by (metis surj_pair)
  show ?thesis
  proof (cases rule: tab_new_cases [OF t])
    case (1 err)
    with t assms(3) show ?thesis by (auto simp: ws_new_with_tab_def case_prod_beta Let_def)
  next
    case (2 t' trm')
    with t assms(3) have w: "w = new_workspace discover ?wid None cwd t'" "ids' = ids''"
      by (auto simp: ws_new_with_tab_def case_prod_beta Let_def)
    have "issued ids'' (fst (terminal_id_alloc micros (ic_terminal ids)))"
      using 2(2) next_ids [OF assms(2)] assms(1) by (auto simp: issued_def)
    with 2 next_ids [OF assms(2)] have "ids_below ids' w"
      unfolding w by (intro ids_below_single [of _ t' "ic_pane ids" "pane_state_new (fst (terminal_id_alloc micros (ic_terminal ids)))"])
         (simp_all add: new_workspace_def pane_state_new_def)
    with 2 show ?thesis unfolding ws_inv_def w by (auto intro: new_workspace_wf)
  qed
qed

lemma from_existing_inv:
  assumes "mp_pane_id moved < ic_pane ids" "issued ids (ps_attached_terminal_id (mp_pane_state moved))"
    and "ws_from_existing_pane discover label tab_label cwd moved n = (w, n')"
  shows "ws_inv w ids"
proof -
  let ?t = "tab_from_existing_pane 1 tab_label moved"
  have w: "w = new_workspace discover (fst (generate_workspace_id n)) label cwd ?t"
    using assms(3) by (auto simp: ws_from_existing_pane_def case_prod_beta Let_def)
  have "ws_wf w" unfolding w by (rule new_workspace_wf) (simp_all add: tab_from_existing_wf)
  moreover have "ids_below ids w"
    using assms(1,2) unfolding w
    by (intro ids_below_single [of _ ?t]) (simp_all add: new_workspace_def tab_from_existing_wf)
  ultimately show ?thesis by (simp add: ws_inv_def)
qed

subsection \<open>Every step\<close>

lemma layout_edit_inv:
  assumes inv: "ws_inv w ids" and idx: "idx < length (ws_tabs w)" and l': "layout_wf l'"
    and same: "set (pane_ids l') = set (pane_ids (tab_layout (ws_tabs w ! idx)))"
  shows "ws_inv (set_tab w idx ((ws_tabs w ! idx)\<lparr>tab_layout := l'\<rparr>)) ids"
proof -
  have "tab_wf (ws_tabs w ! idx)" using inv idx by (auto simp: ws_inv_def ws_wf_def intro: ws_ok_tab_wf)
  then have "tab_wf ((ws_tabs w ! idx)\<lparr>tab_layout := l'\<rparr>)"
    using l' same by (intro tab_wf_layout_edit) (simp_all add: tab_pane_ids_def)
  from ws_inv_same_tab [OF inv idx this] show ?thesis by simp
qed

lemma ws_inv_tab_layout_wf:
  "ws_inv w ids \<Longrightarrow> idx < length (ws_tabs w) \<Longrightarrow> layout_wf (tab_layout (ws_tabs w ! idx))"
  using ws_ok_tab_wf [of "{}" w idx] by (auto simp: ws_inv_def ws_wf_def tab_wf_def)

lemma move_out_inv:
  assumes inv: "ws_inv w ids" and take: "ws_take_pane_for_move w i = Some (w1, Some tk)" and ne: "\<not> tp_workspace_empty tk"
  shows "ws_inv (unregister_moved_pane w1 (mp_pane_id (tp_moved tk))) ids"
proof (cases rule: ws_take_cases [OF inv take])
  case (2 tk')
  have "ws_ok {} (unregister_pane w1 i)" using ws_ok_unregister [OF 2(3), of i] by simp
  moreover have "ids_below ids (unregister_pane w1 i)"
    using inv ids_below_subset [of "unregister_pane w1 i" w ids] 2(4) by (simp add: ws_inv_def)
  ultimately show ?thesis using 2(1,2,8) ne by (auto simp: ws_inv_def ws_wf_def unregister_moved_pane_def)
qed simp

lemma taken_placeable:
  assumes inv: "ws_inv w ids" and take: "ws_take_pane_for_move w i = Some (w1, Some tk)" and rm: "room w"
  shows "ws_ok {mp_pane_id (tp_moved tk)} w1 \<and> ids_below ids w1 \<and> room w1 \<and> placeable ids w1 (tp_moved tk)"
proof (cases rule: ws_take_cases [OF inv take])
  case (2 tk')
  have "i \<notin> fst ` set (ws_entries w1)" using 2(3) by (simp add: ws_ok_def)
  moreover have "ids_below ids w1" using inv ids_below_subset [OF 2(4)] by (simp add: ws_inv_def)
  ultimately show ?thesis using 2 rm by (simp add: placeable_def room_def)
qed simp

lemma ws_step_inv: "ws_step rn s t \<Longrightarrow> ws_inv (fst s) (snd s) \<Longrightarrow> ws_inv (fst t) (snd t)"
proof (induction rule: ws_step.induct)
  case (move_in w ids moved idx target d ratio fcs w' placed)
  then show ?case
    using insert_moved_ok [of "{}" w moved ids idx target d ratio fcs w' placed]
    by (cases placed) (auto simp: ws_inv_def ws_wf_def)
next
  case (move_in_tab w ids moved label w' k)
  then show ?case
    using create_from_existing_ok [of "{}" w moved ids label w' k] by (auto simp: ws_inv_def ws_wf_def)
next
  case (move_within w i w1 tk idx target d ratio fcs w' j ids)
  then have "ws_inv w ids" by simp
  from taken_placeable [OF this move_within(2,1)]
  show ?case
    using insert_moved_ok [of "{mp_pane_id (tp_moved tk)}" w1 "tp_moved tk" ids idx target d ratio fcs w' "Inr j"]
      move_within(3) by simp
next
  case (move_to_tab w i w1 tk label w' k ids)
  then have "ws_inv w ids" by simp
  from taken_placeable [OF this move_to_tab(2,1)]
  show ?case
    using create_from_existing_ok [of "{mp_pane_id (tp_moved tk)}" w1 "tp_moved tk" ids label w' k]
      move_to_tab(3) by simp
next
  case (rename w ids name)
  then show ?case by (auto simp: ws_set_custom_name_def ws_inv_def ws_wf_def ws_ok_def ids_below_def)
next
  case (rename_tab idx w ids name)
  let ?t = "tab_set_custom_name (ws_tabs w ! idx) name"
  have "tab_wf (ws_tabs w ! idx)" using rename_tab by (auto simp: ws_inv_def ws_wf_def intro: ws_ok_tab_wf)
  then have "tab_wf ?t" by (simp add: tab_wf_def tab_set_custom_name_def)
  with rename_tab ws_inv_same_tab [of w ids idx ?t] show ?case by (simp add: tab_set_custom_name_def)
next
  case (focus idx w ids i)
  then have "ws_inv w ids" by simp
  from layout_edit_inv [OF this focus(1)] layout_tree.focus_keeps [OF ws_inv_tab_layout_wf [OF this focus(1)], of i]
  show ?case by simp
next
  case (swap idx w i j l' ok ids)
  then have inv: "ws_inv w ids" by simp
  let ?l = "tab_layout (ws_tabs w ! idx)"
  have "layout_wf l'" using layout_wf_swap [OF ws_inv_tab_layout_wf [OF inv swap(1)], of i j] swap(2) by simp
  moreover have "set (pane_ids l') = set (pane_ids ?l)"
    using swap(2) by (auto simp: swap_panes_def swap_ids pane_ids_def split: if_splits)
  ultimately show ?case using layout_edit_inv [OF inv swap(1)] by simp
next
  case (ratio idx w path r l' ok ids)
  then have inv: "ws_inv w ids" by simp
  let ?l = "tab_layout (ws_tabs w ! idx)"
  have "layout_wf l'" using layout_wf_set_ratio [OF ws_inv_tab_layout_wf [OF inv ratio(1)], of path r] ratio(2) by simp
  moreover have "pane_ids l' = pane_ids ?l"
    using ratio(2) set_ratio_ids [of "tl_root ?l" path "f32_clamp r f32_tenth f32_nine_tenths"]
    by (auto simp: set_ratio_at_def pane_ids_def split: prod.splits)
  ultimately show ?case using layout_edit_inv [OF inv ratio(1)] by simp
next
  case (resize idx w i nav delta area l' changed ids)
  then have inv: "ws_inv w ids" by simp
  let ?l = "tab_layout (ws_tabs w ! idx)"
  have wf: "layout_wf ?l" using ws_inv_tab_layout_wf [OF inv resize(1)] .
  have "layout_wf l'" using layout_wf_resize_pane [OF wf, of rn i nav delta area] resize(2) by simp
  moreover have "pane_ids l' = pane_ids ?l" using resize(2) resize_pane_keeps by (metis fst_conv)
  ultimately show ?case using layout_edit_inv [OF inv resize(1)] by simp
next
  case (switch w ids idx)
  then show ?case by (simp add: switch_tab_inv)
next
  case create_tab
  from create_tab_inv [OF _ create_tab(1-4)] create_tab(5) show ?case by simp
next
  case close_tab
  from close_tab_inv [OF _ close_tab(1)] close_tab(2) show ?case by simp
next
  case move_tab
  from move_tab_inv [OF _ move_tab(1)] move_tab(2) show ?case by simp
next
  case split_focused
  from split_focused_inv [OF _ split_focused(1-4)] split_focused(5) show ?case by simp
next
  case split
  from ws_split_inv [OF _ split(1-4)] split(5) show ?case by simp
next
  case close_pane
  from ws_close_pane_inv [OF _ close_pane(1)] close_pane(2) show ?case by simp
next
  case remove_pane
  from ws_close_pane_inv [OF _ remove_pane(1) [unfolded ws_remove_pane_def]] remove_pane(2) show ?case by simp
next
  case move_out
  from move_out_inv [OF _ move_out(1,2)] move_out(3) show ?case by simp
qed

lemma ws_reachable_inv: "ws_reachable rn s \<Longrightarrow> ws_inv (fst s) (snd s)"
proof (induction rule: ws_reachable.induct)
  case (new micros ids spawn discover cwd command extra n w trm ids' n')
  then show ?case by (simp add: new_with_tab_inv)
next
  case (from_pane moved ids discover label tab_label cwd n w n')
  then show ?case by (simp add: from_existing_inv)
next
  case (step s t)
  then show ?case by (blast intro: ws_step_inv)
qed

end
