(* ===== verification/WorkspaceRefine.thy ===== *)
theory WorkspaceRefine
  imports WorkspaceReach
begin

section \<open>The workspace as a map from panes to terminals\<close>

text \<open>
  An abstract view of a workspace that forgets tabs, layouts and names: which terminal a pane
  shows. Every step of the detailed workspace is a step of this view that adds one fresh pane
  with a fresh terminal, drops panes but never the last one, or changes nothing. The same
  walk over the steps shows that public pane numbers only grow.
\<close>

inductive pane_map_step :: "(pane_id \<Rightarrow> rstr option) \<Rightarrow> (pane_id \<Rightarrow> rstr option) \<Rightarrow> bool" where
  keep: "pane_map_step m m"
| add: "i \<notin> dom m \<Longrightarrow> t \<notin> ran m \<Longrightarrow> pane_map_step m (m(i \<mapsto> t))"
| drop: "dom m - I \<noteq> {} \<Longrightarrow> pane_map_step m (m |` (- I))"

inductive_simps pane_map_step_from: "pane_map_step m m'"

definition pairs :: "workspace \<Rightarrow> (pane_id \<times> rstr) list" where
  "pairs w = map (\<lambda>e. (fst e, ps_attached_terminal_id (snd e))) (ws_entries w)"

definition pane_change :: "workspace \<Rightarrow> workspace \<Rightarrow> bool" where
  "pane_change w w' \<longleftrightarrow> set (pairs w') = set (pairs w)
     \<or> (\<exists>i t. i \<notin> fst ` set (pairs w) \<and> t \<notin> snd ` set (pairs w) \<and> set (pairs w') = insert (i, t) (set (pairs w)))
     \<or> (\<exists>I. set (pairs w') = {e \<in> set (pairs w). fst e \<notin> I})"

definition numbers_grow :: "workspace \<Rightarrow> workspace \<Rightarrow> bool" where
  "numbers_grow w w' \<longleftrightarrow> ws_next_public_pane_number w \<le> ws_next_public_pane_number w'
     \<and> (\<forall>i n. public_pane_number w' i = Some n \<longrightarrow>
          public_pane_number w i = Some n \<or> ws_next_public_pane_number w \<le> n)"

subsection \<open>The view of a workspace\<close>

lemma find_map_entries:
  "find_map (\<lambda>t. map_option f (hm_get (tab_panes t) i)) ts = map_option f (hm_get (entries ts) i)"
proof (induction ts)
  case Nil
  show ?case by (simp add: entries_def)
next
  case (Cons t ts)
  have "hm_get (entries (t # ts)) i = (case hm_get (tab_panes t) i of Some p \<Rightarrow> Some p | None \<Rightarrow> hm_get (entries ts) i)"
    by (simp add: entries_Cons map_add_def)
  with Cons show ?case by (cases "hm_get (tab_panes t) i") simp_all
qed

lemma map_of_map_values: "map_of (map (\<lambda>e. (fst e, g (snd e))) es) i = map_option g (map_of es i)"
  by (induction es) auto

lemma map_of_filter_keys: "map_of (filter (\<lambda>e. fst e \<in> A) xs) = map_of xs |` A"
  by (induction xs) (auto simp: restrict_map_def fun_eq_iff)

lemma ws_terminal_id_pairs: "ws_terminal_id w = map_of (pairs w)"
proof
  fix i
  have "ws_terminal_id w i = map_option ps_attached_terminal_id (hm_get (ws_entries w) i)"
    unfolding ws_terminal_id_def tab_terminal_id_def by (rule find_map_entries)
  also have "\<dots> = map_of (pairs w) i" unfolding pairs_def by (rule map_of_map_values [symmetric])
  finally show "ws_terminal_id w i = map_of (pairs w) i" .
qed

lemma ws_pane_state_entries: "ws_pane_state w i = hm_get (ws_entries w) i"
  unfolding ws_pane_state_def using find_map_entries [of "\<lambda>p. p" i "ws_tabs w"] by (simp add: option.map_ident)

lemma pairs_keys: "map fst (pairs w) = map fst (ws_entries w)" "map snd (pairs w) = tids (ws_entries w)"
  by (simp_all add: pairs_def tids_def)

lemma pairs_inv:
  assumes "ws_inv w ids"
  shows "distinct (map fst (pairs w))" "distinct (map snd (pairs w))" "pairs w \<noteq> []"
proof -
  have ok: "tabs_ok (ws_tabs w)" "ws_tabs w \<noteq> []" using assms by (auto simp: ws_inv_def ws_wf_def ws_ok_def)
  then show "distinct (map fst (pairs w))" "distinct (map snd (pairs w))"
    unfolding pairs_keys by (simp_all add: tabs_ok_def)
  obtain t ts where ts: "ws_tabs w = t # ts" using ok(2) by (cases "ws_tabs w") auto
  with ok(1) have "tab_wf t" by (simp add: tabs_ok_def)
  from tab_wf_root [OF this] tab_wf_keys [OF this] have "tab_panes t \<noteq> []" by auto
  then show "pairs w \<noteq> []" by (simp add: pairs_def ts entries_Cons)
qed

lemma map_of_eq_set: "distinct (map fst xs) \<Longrightarrow> distinct (map fst ys) \<Longrightarrow> set xs = set ys \<Longrightarrow> map_of xs = map_of ys"
  by (simp add: map_of_inject_set)

lemma pane_change_step:
  assumes "pane_change w w'" "ws_inv w ids" "ws_inv w' ids'"
  shows "pane_map_step (ws_terminal_id w) (ws_terminal_id w')"
proof -
  note p = pairs_inv [OF assms(2)] and p' = pairs_inv [OF assms(3)]
  have ran: "ran (map_of (pairs w)) = snd ` set (pairs w)" using p(1) by (rule ran_distinct)
  have dom: "dom (map_of (pairs w)) = fst ` set (pairs w)" by (rule dom_map_of_conv_image_fst)
  from assms(1) consider "set (pairs w') = set (pairs w)"
    | i t where "i \<notin> fst ` set (pairs w)" "t \<notin> snd ` set (pairs w)" "set (pairs w') = set ((i, t) # pairs w)"
    | I where "set (pairs w') = set (filter (\<lambda>e. fst e \<in> - I) (pairs w))"
    by (auto simp: pane_change_def)
  then show ?thesis
  proof cases
    case 1
    with map_of_eq_set [OF p'(1) p(1)] show ?thesis by (simp add: ws_terminal_id_pairs pane_map_step.keep)
  next
    case (2 i t)
    have "map_of (pairs w') = (map_of (pairs w))(i \<mapsto> t)"
      using map_of_eq_set [OF p'(1), of "(i, t) # pairs w"] p(1) 2 by simp
    with 2 ran dom pane_map_step.add [of i "map_of (pairs w)" t] show ?thesis by (simp add: ws_terminal_id_pairs)
  next
    case (3 I)
    let ?f = "filter (\<lambda>e. fst e \<in> - I) (pairs w)"
    have "map_of (pairs w') = map_of ?f"
      using p(1) 3 by (intro map_of_eq_set [OF p'(1)]) (simp_all add: distinct_map_filter)
    also have "\<dots> = map_of (pairs w) |` (- I)"
      by (rule map_of_filter_keys)
    finally have m: "map_of (pairs w') = map_of (pairs w) |` (- I)" .
    have "dom (map_of (pairs w')) \<noteq> {}" using p'(3) by (simp add: dom_map_of_conv_image_fst)
    with m have "dom (map_of (pairs w)) - I \<noteq> {}" by auto
    with m pane_map_step.drop show ?thesis by (simp add: ws_terminal_id_pairs)
  qed
qed

subsection \<open>What each operation changes\<close>

lemma change_same: "map fst (ws_entries w') = map fst (ws_entries w) \<Longrightarrow> tids (ws_entries w') = tids (ws_entries w)
    \<Longrightarrow> pane_change w w'"
  by (metis pairs_keys pane_change_def zip_map_fst_snd)

lemma change_tabs: "mset (ws_tabs w') = mset (ws_tabs w) \<Longrightarrow> pane_change w w'"
  using tabs_ok_perm(2) [of "ws_tabs w'" "ws_tabs w"] by (simp add: pane_change_def pairs_def)

lemma change_added:
  assumes m: "mset (ws_entries w') = add_mset (i, p) (mset (ws_entries w))" and inv: "ws_inv w' ids'"
  shows "pane_change w w'"
proof -
  have ok: "tabs_ok (ws_tabs w')" using inv by (simp add: ws_inv_def ws_wf_def ws_ok_def)
  have "set (ws_entries w') = insert (i, p) (set (ws_entries w))" using m by (metis set_mset_add_mset_insert set_mset_mset)
  then have "set (pairs w') = insert (i, ps_attached_terminal_id p) (set (pairs w))" by (simp add: pairs_def)
  moreover have "fst ` set (pairs w) = fst ` set (ws_entries w)" "snd ` set (pairs w) = set (tids (ws_entries w))"
    by (metis pairs_keys set_map)+
  ultimately show ?thesis
    using entry_added(2,3) [OF m] ok by (auto simp: pane_change_def tabs_ok_def)
qed

lemma change_removed:
  assumes m: "mset (ws_entries w) = add_mset (i, p) (mset (ws_entries w'))" and inv: "ws_inv w ids"
  shows "pane_change w w'"
proof -
  have ok: "tabs_ok (ws_tabs w)" using inv by (simp add: ws_inv_def ws_wf_def ws_ok_def)
  have "set (ws_entries w) = insert (i, p) (set (ws_entries w'))" using m by (metis set_mset_add_mset_insert set_mset_mset)
  moreover have "i \<notin> fst ` set (ws_entries w')" using entry_added(2) [OF m] ok by (simp add: tabs_ok_def)
  ultimately have "set (pairs w') = {e \<in> set (pairs w). fst e \<notin> {i}}" by (auto simp: pairs_def image_iff)
  then show ?thesis unfolding pane_change_def by blast
qed

lemma image_apart:
  assumes "fst ` A \<inter> fst ` B = {}"
  shows "(\<lambda>e. (fst e, g (snd e))) ` B = {e \<in> (\<lambda>e. (fst e, g (snd e))) ` (A \<union> B). fst e \<notin> fst ` A}"
    (is "?g ` B = ?R")
proof (intro subset_antisym subsetI)
  fix x
  assume "x \<in> ?g ` B"
  then obtain e where e: "e \<in> B" "x = ?g e" by blast
  then have "fst e \<notin> fst ` A" using assms by (metis disjoint_iff imageI)
  with e show "x \<in> ?R" by simp
next
  fix x
  assume "x \<in> ?R"
  then obtain e where e: "e \<in> A \<union> B" "x = ?g e" "fst x \<notin> fst ` A" by blast
  then have "e \<in> B" using imageI [of e A fst] by auto
  with e(2) show "x \<in> ?g ` B" by blast
qed

lemma change_dropped_tab:
  assumes inv: "ws_inv w ids" and idx: "idx < length (ws_tabs w)" and w': "ws_tabs w' = remove_at idx (ws_tabs w)"
  shows "pane_change w w'"
proof -
  let ?ps = "tab_panes (ws_tabs w ! idx)"
  have m: "mset (ws_entries w) = mset (?ps @ ws_entries w')" using entries_split(1) [OF idx] w' by simp
  then have sets: "set (ws_entries w) = set (?ps @ ws_entries w')" by (rule mset_eq_setD)
  have "mset (map fst (ws_entries w)) = mset (map fst (?ps @ ws_entries w'))" using m by (simp only: mset_map)
  from distinct_mset_iff [OF this] inv have "fst ` set ?ps \<inter> fst ` set (ws_entries w') = {}"
    by (auto simp: ws_inv_def ws_wf_def ws_ok_def tabs_ok_def)
  from image_apart [OF this] sets have "set (pairs w') = {e \<in> set (pairs w). fst e \<notin> fst ` set ?ps}"
    by (simp add: pairs_def)
  then show ?thesis unfolding pane_change_def by blast
qed

lemma change_replaced:
  assumes "mset (ws_entries w) = add_mset e (mset (ws_entries w1))" "mset (ws_entries w') = add_mset e (mset (ws_entries w1))"
  shows "pane_change w w'"
proof -
  have "set (ws_entries w') = set (ws_entries w)" using assms by (metis mset_eq_setD)
  then show ?thesis by (simp add: pane_change_def pairs_def)
qed

lemma change_split:
  assumes inv: "ws_inv w ids" "clock_in_range micros" "ids_room ids" "room w"
    and res: "ws_split_pane_with_runtime spawn w i d ratio cwd cur extra fcs command micros ids = Some (res, w', ids')"
  shows "pane_change w w'"
proof (cases "find_tab_index_for_pane w i")
  case None
  with res show ?thesis by (simp add: ws_split_pane_with_runtime_def change_same)
next
  case (Some idx)
  then have idx: "idx < length (ws_tabs w)" using find_tab_index_Some by blast
  let ?env = "launch_env_for_new_pane w (tab_number (ws_tabs w ! idx)) (ws_next_public_pane_number w) extra"
  obtain r t' ids'' where s: "tab_split_pane_with_runtime spawn (ws_tabs w ! idx) i fcs d ratio cwd cur ?env command micros ids
      = Some (r, t', ids'')"
    using tab_split_total [OF inv(1) idx inv(2)] by (metis not_None_eq prod_cases3)
  note inv' = split_tab_inv [OF inv(1) idx inv(2-4) s]
  show ?thesis
  proof (cases r)
    case (Inl err)
    with inv' s Some res show ?thesis by (auto simp: ws_split_pane_with_runtime_def Let_def change_same)
  next
    case (Inr np)
    with s Some res have "w' = register_new_pane_with_number (set_tab w idx t') (np_pane_id np) (ws_next_public_pane_number w)"
      by (auto simp: ws_split_pane_with_runtime_def Let_def)
    with inv' Inr show ?thesis
      by (intro change_added [of w' "np_pane_id np"]) (auto simp: register_new_pane_with_number_def)
  qed
qed

lemma change_split_focused:
  assumes inv: "ws_inv w ids" "clock_in_range micros" "ids_room ids" "room w"
    and res: "split_focused_command spawn w d cwd cur command extra micros ids = Some (res, w', ids')"
  shows "pane_change w w'"
proof -
  have idx: "ws_active_tab w < length (ws_tabs w)"
    using inv(1) by (auto simp: ws_inv_def ws_wf_def ws_ok_def)
  let ?t = "ws_tabs w ! ws_active_tab w"
  let ?env = "launch_env_for_new_pane w (tab_number ?t) (ws_next_public_pane_number w) extra"
  obtain r t' ids'' where s: "tab_split_pane_with_runtime spawn ?t (tl_focus (tab_layout ?t)) True d None cwd cur ?env
      (ShellCommand command) micros ids = Some (r, t', ids'')"
    using tab_split_total [OF inv(1) idx inv(2)] by (metis not_None_eq prod_cases3)
  note inv' = split_tab_inv [OF inv(1) idx inv(2-4) s]
  show ?thesis
  proof (cases r)
    case (Inl err)
    with inv' s idx res show ?thesis by (auto simp: split_focused_command_def active_tab_def Let_def change_same)
  next
    case (Inr np)
    with s idx res have "w' = register_new_pane_with_number (set_tab w (ws_active_tab w) t') (np_pane_id np) (ws_next_public_pane_number w)"
      by (auto simp: split_focused_command_def active_tab_def Let_def)
    with inv' Inr show ?thesis
      by (intro change_added [of w' "np_pane_id np"]) (auto simp: register_new_pane_with_number_def)
  qed
qed

lemma change_create_tab:
  assumes inv: "ws_inv w ids" "clock_in_range micros" "ids_room ids" "room w"
    and res: "create_tab_with_runtime spawn w cwd command extra micros ids = Some (res, w', ids')"
  shows "pane_change w w'"
proof -
  let ?n = "ws_next_public_tab_number w"
  let ?w1 = "w\<lparr>ws_next_public_tab_number := ?n + 1\<rparr>"
  let ?env = "launch_env_for_new_pane ?w1 ?n (ws_next_public_pane_number w) extra"
  obtain r ids'' where t: "tab_new_with_runtime spawn ?n cwd command ?env micros ids = (r, ids'')"
    by (metis surj_pair)
  show ?thesis
  proof (cases rule: tab_new_cases [OF t])
    case 1
    with t res show ?thesis by (auto simp: create_tab_with_runtime_def Let_def change_same split: if_splits)
  next
    case (2 t' trm)
    with t res have "ws_tabs w' = ws_tabs w @ [t']"
      by (auto simp: create_tab_with_runtime_def Let_def register_new_pane_with_number_def split: if_splits)
    with 2 have "mset (ws_entries w') = add_mset (ic_pane ids, pane_state_new (fst (terminal_id_alloc micros (ic_terminal ids)))) (mset (ws_entries w))"
      by (simp add: entries_def)
    from change_added [OF this create_tab_inv [OF inv res]] show ?thesis .
  qed
qed

lemma set_tab_same_panes: "idx < length (ws_tabs w) \<Longrightarrow> tab_panes t' = tab_panes (ws_tabs w ! idx)
    \<Longrightarrow> pane_change w (set_tab w idx t')"
  using map_update_same [of idx "ws_tabs w" tab_panes t']
  by (intro change_same) (simp_all add: entries_def)

lemma change_switch: "pane_change w (switch_tab w idx)"
proof (cases "idx < length (ws_tabs w)")
  case True
  let ?t = "ws_tabs w ! idx"
  let ?t' = "?t\<lparr>tab_panes := map (\<lambda>(i, p). (i, p\<lparr>ps_seen := True\<rparr>)) (tab_panes ?t)\<rparr>"
  have "map f ((ws_tabs w)[idx := ?t']) = map f (ws_tabs w)" if "f ?t' = f ?t" for f :: "tab \<Rightarrow> 'a list"
    using map_update_same [OF True, of f ?t'] that by simp
  from this [of "\<lambda>t. map fst (tab_panes t)"] this [of "\<lambda>t. tids (tab_panes t)"]
  have "map fst (entries ((ws_tabs w)[idx := ?t'])) = map fst (ws_entries w)"
    "tids (entries ((ws_tabs w)[idx := ?t'])) = tids (ws_entries w)"
    by (auto simp: entries_def map_concat comp_def tids_def case_prod_beta)
  with True show ?thesis by (intro change_same) (simp_all add: switch_tab_def Let_def)
qed (simp add: switch_tab_def change_same)

lemma ws_step_change: "ws_step rn s t \<Longrightarrow> ws_inv (fst s) (snd s) \<Longrightarrow> pane_change (fst s) (fst t)"
proof (induction rule: ws_step.induct)
  case switch
  show ?case by (simp add: change_switch)
next
  case create_tab
  from change_create_tab [OF _ create_tab(1-4)] create_tab(5) show ?case by simp
next
  case (close_tab w idx w' ok ids)
  show ?case
  proof (cases "length (ws_tabs w) \<le> 1 \<or> length (ws_tabs w) \<le> idx")
    case True
    with close_tab(1) show ?thesis by (auto simp: close_tab_def change_same)
  next
    case False
    with close_tab(1) have "ws_tabs w' = remove_at idx (ws_tabs w)"
      by (auto simp: close_tab_def Let_def active_after_removal_fields)
    with change_dropped_tab [OF _ _ this] close_tab(2) False show ?thesis by simp
  qed
next
  case (move_tab w a b w' ok ids)
  show ?case
  proof (cases ok)
    case False
    with move_tab(1) show ?thesis by (simp add: move_tab_def Let_def change_same split: if_splits)
  next
    case True
    with move_tab(1) have m: "move_tab w a b = (w', True)" by simp
    obtain target where "a < length (ws_tabs w)"
      "ws_tabs w' = insert_at target (ws_tabs w ! a) (remove_at a (ws_tabs w))"
      by (rule move_tab_moved [OF m]) blast
    with mset_remove_at [of a "ws_tabs w"] show ?thesis by (simp add: change_tabs mset_insert_at)
  qed
next
  case split_focused
  from change_split_focused [OF _ split_focused(1-4)] split_focused(5) show ?case by simp
next
  case split
  from change_split [OF _ split(1-4)] split(5) show ?case by simp
next
  case (close_pane w i w' closes ids)
  with ws_close_pane_inv [OF _ close_pane(1), of ids] change_removed [of w i _ w' ids] show ?case
    by (auto simp: change_same)
next
  case (remove_pane w i w' closes ids)
  with ws_close_pane_inv [OF _ remove_pane(1) [unfolded ws_remove_pane_def], of ids] change_removed [of w i _ w' ids]
  show ?case by (auto simp: change_same)
next
  case (move_out w i w1 tk ids)
  then have inv: "ws_inv w ids" by simp
  show ?case
  proof (cases rule: ws_take_cases [OF inv move_out(1)])
    case (2 tk')
    then show ?thesis
      using change_removed [of w i "mp_pane_state (tp_moved tk)" "unregister_moved_pane w1 (mp_pane_id (tp_moved tk))" ids] inv
      by (simp add: unregister_moved_pane_def)
  qed simp
next
  case (move_in w ids moved idx target d ratio fcs w' placed)
  then show ?case
    using insert_moved_ok [of "{}" w moved ids idx target d ratio fcs w' placed] change_added [of w' _ _ w ids]
    by (cases placed) (auto simp: ws_inv_def ws_wf_def change_same)
next
  case (move_in_tab w ids moved label w' k)
  then show ?case
    using create_from_existing_ok [of "{}" w moved ids label w' k] change_added [of w' _ _ w ids]
    by (auto simp: ws_inv_def ws_wf_def)
next
  case (move_within w i w1 tk idx target d ratio fcs w' j ids)
  then have inv: "ws_inv w ids" by simp
  from taken_placeable [OF inv move_within(2,1)]
  have put: "mset (ws_entries w') = add_mset (mp_pane_id (tp_moved tk), mp_pane_state (tp_moved tk)) (mset (ws_entries w1))"
    using insert_moved_ok [of "{mp_pane_id (tp_moved tk)}" w1 "tp_moved tk" ids idx target d ratio fcs w' "Inr j"]
      move_within(3) by simp
  show ?case
    by (cases rule: ws_take_cases [OF inv move_within(2)]) (use put change_replaced [OF _ put] in auto)
next
  case (move_to_tab w i w1 tk label w' k ids)
  then have inv: "ws_inv w ids" by simp
  from taken_placeable [OF inv move_to_tab(2,1)]
  have put: "mset (ws_entries w') = add_mset (mp_pane_id (tp_moved tk), mp_pane_state (tp_moved tk)) (mset (ws_entries w1))"
    using create_from_existing_ok [of "{mp_pane_id (tp_moved tk)}" w1 "tp_moved tk" ids label w' k]
      move_to_tab(3) by simp
  show ?case
    by (cases rule: ws_take_cases [OF inv move_to_tab(2)]) (use put change_replaced [OF _ put] in auto)
next
  case rename
  show ?case by (simp add: ws_set_custom_name_def change_same)
next
  case rename_tab
  then show ?case by (simp add: set_tab_same_panes tab_set_custom_name_def)
qed (simp_all add: set_tab_same_panes)

subsection \<open>Public numbers\<close>

lemma numbers_grow_same:
  "ws_next_public_pane_number w' = ws_next_public_pane_number w
    \<Longrightarrow> ws_public_pane_numbers w' = ws_public_pane_numbers w \<Longrightarrow> numbers_grow w w'"
  by (simp add: numbers_grow_def public_pane_number_def)

lemma numbers_grow_trans: "numbers_grow u v \<Longrightarrow> numbers_grow v w \<Longrightarrow> numbers_grow u w"
  unfolding numbers_grow_def by (meson order_trans)

lemma numbers_grow_register:
  "numbers_grow w (register_new_pane_with_number w i (ws_next_public_pane_number w))"
  "numbers_grow w (register_if_missing w i)"
  by (auto simp: numbers_grow_def register_if_missing_def register_new_pane_with_number_def public_pane_number_def)

lemma numbers_grow_unregister: "numbers_grow w (unregister_pane w i)"
  by (auto simp: numbers_grow_def unregister_pane_def public_pane_number_def)

lemma numbers_grow_unregister_all: "numbers_grow w (foldl unregister_pane w is)"
proof (induction "is" arbitrary: w)
  case (Cons i "is")
  show ?case using numbers_grow_trans [OF numbers_grow_unregister Cons.IH] by simp
qed (simp add: numbers_grow_same)

text \<open>The fields the numbers live in, before and after.\<close>

lemma numbers_grow_cong:
  assumes "numbers_grow v v'"
    and "ws_next_public_pane_number v = ws_next_public_pane_number w" "ws_public_pane_numbers v = ws_public_pane_numbers w"
    and "ws_next_public_pane_number v' = ws_next_public_pane_number w'" "ws_public_pane_numbers v' = ws_public_pane_numbers w'"
  shows "numbers_grow w w'"
  using assms by (simp add: numbers_grow_def public_pane_number_def)

lemma numbers_grow_tabs: "numbers_grow w (v\<lparr>ws_tabs := ts\<rparr>) = numbers_grow w v"
  by (simp add: numbers_grow_def public_pane_number_def)

lemma numbers_grow_active: "numbers_grow w (active_after_removal v k) = numbers_grow w v"
  by (simp add: numbers_grow_def public_pane_number_def active_after_removal_fields)

lemma grow_unregister:
  "ws_next_public_pane_number v = ws_next_public_pane_number w \<Longrightarrow> ws_public_pane_numbers v = ws_public_pane_numbers w
    \<Longrightarrow> numbers_grow w (unregister_pane v i)"
  "ws_next_public_pane_number v = ws_next_public_pane_number w \<Longrightarrow> ws_public_pane_numbers v = ws_public_pane_numbers w
    \<Longrightarrow> numbers_grow w (foldl unregister_pane v is)"
  using numbers_grow_cong [of v _ w] numbers_grow_unregister [of v] numbers_grow_unregister_all [of v] by blast+

lemma grow_put:
  "ws_next_public_pane_number v = ws_next_public_pane_number w \<Longrightarrow> ws_public_pane_numbers v = ws_public_pane_numbers w
    \<Longrightarrow> numbers_grow w (register_if_missing v i)"
  "ws_next_public_pane_number v = ws_next_public_pane_number w \<Longrightarrow> ws_public_pane_numbers v = ws_public_pane_numbers w
    \<Longrightarrow> numbers_grow w (register_new_pane_with_number v i (ws_next_public_pane_number w))"
  using numbers_grow_register [of v i] numbers_grow_cong [of v _ w] by metis+

lemma grow_split:
  "ws_split_pane_with_runtime spawn w i d ratio cwd cur extra fcs command micros ids = Some (res, w', ids') \<Longrightarrow> numbers_grow w w'"
  by (auto simp: ws_split_pane_with_runtime_def Let_def numbers_grow_same grow_put
      split: option.splits sum.splits prod.splits)

lemma grow_split_focused:
  "split_focused_command spawn w d cwd cur command extra micros ids = Some (res, w', ids') \<Longrightarrow> numbers_grow w w'"
  by (auto simp: split_focused_command_def Let_def numbers_grow_same grow_put
      split: option.splits sum.splits prod.splits)

lemma grow_create_tab:
  "create_tab_with_runtime spawn w cwd command extra micros ids = Some (res, w', ids') \<Longrightarrow> numbers_grow w w'"
  by (auto simp: create_tab_with_runtime_def Let_def numbers_grow_same numbers_grow_tabs grow_put
      split: if_splits sum.splits prod.splits)

lemma grow_insert_moved:
  "insert_moved_pane_into_tab w idx target moved d ratio fcs = (w', res) \<Longrightarrow> numbers_grow w w'"
  by (auto simp: insert_moved_pane_into_tab_def numbers_grow_same grow_put split: if_splits sum.splits prod.splits)

lemma grow_create_existing:
  "create_tab_from_existing_pane w moved label = (w', k) \<Longrightarrow> numbers_grow w w'"
  by (auto simp: create_tab_from_existing_pane_def Let_def numbers_grow_tabs grow_put)

lemma grow_take:
  assumes "ws_take_pane_for_move w i = Some (w1, taken)"
  shows "numbers_grow w w1"
  using assms
  by (auto simp: ws_take_pane_for_move_def Let_def adjust_active_fields intro!: numbers_grow_same
      split: if_splits option.splits prod.splits)

lemma grow_close_pane: "ws_close_pane w i = Some (w', closes) \<Longrightarrow> numbers_grow w w'"
  by (auto simp: ws_close_pane_def Let_def numbers_grow_active grow_unregister numbers_grow_same
      split: if_splits option.splits prod.splits)

lemma grow_close_tab: "close_tab w idx = (w', ok) \<Longrightarrow> numbers_grow w w'"
  by (auto simp: close_tab_def Let_def numbers_grow_active grow_unregister numbers_grow_same split: if_splits)

lemma grow_move_tab: "move_tab w a b = (w', ok) \<Longrightarrow> numbers_grow w w'"
  by (cases ok) (auto elim!: move_tab_moved intro!: numbers_grow_same simp: move_tab_def Let_def split: if_splits)

lemma ws_step_numbers: "ws_step rn s t \<Longrightarrow> numbers_grow (fst s) (fst t)"
  by (induction rule: ws_step.induct)
     (auto simp: switch_tab_def Let_def ws_remove_pane_def unregister_moved_pane_def ws_set_custom_name_def
      intro: numbers_grow_same grow_split grow_split_focused grow_create_tab grow_insert_moved grow_create_existing
        grow_close_pane grow_close_tab grow_move_tab numbers_grow_trans [OF grow_take numbers_grow_unregister]
        numbers_grow_trans [OF grow_take grow_insert_moved] numbers_grow_trans [OF grow_take grow_create_existing])

end
