(* ===== verification/WorkspaceProps.thy ===== *)
theory WorkspaceProps
  imports WorkspaceRefine LayoutProps
begin

section \<open>Properties of workspaces\<close>

text \<open>A workspace with one tab of two panes and a second tab, as inputs for the witnesses.\<close>

definition demo_tid :: "u64 \<Rightarrow> rstr" where
  "demo_tid c = fst (terminal_id_alloc (16 ^ 12) c)"

definition demo_tab :: tab where
  "demo_tab = \<lparr>tab_custom_name = None, tab_number = 1, tab_root_pane = 1,
     tab_layout = \<lparr>tl_root = Pane 1, tl_focus = 1, tl_prev_focus = None\<rparr>,
     tab_panes = [(1, pane_state_new (demo_tid 1))], tab_zoomed = False\<rparr>"

definition demo_tab2 :: tab where
  "demo_tab2 = \<lparr>tab_custom_name = None, tab_number = 2, tab_root_pane = 2,
     tab_layout = \<lparr>tl_root = Pane 2, tl_focus = 2, tl_prev_focus = None\<rparr>,
     tab_panes = [(2, pane_state_new (demo_tid 2))], tab_zoomed = False\<rparr>"

definition demo_ws :: workspace where
  "demo_ws = new_workspace (\<lambda>_. ''src'') (fst (generate_workspace_id 1)) None ''/src'' demo_tab"

definition demo_ws2 :: workspace where
  "demo_ws2 = demo_ws\<lparr>ws_next_public_tab_number := 3, ws_next_public_pane_number := 3,
     ws_public_pane_numbers := [(1, 1), (2, 2)], ws_tabs := [demo_tab, demo_tab2]\<rparr>"

definition demo_ids :: "u32 \<Rightarrow> u64 \<Rightarrow> id_counters" where
  "demo_ids p t = \<lparr>ic_pane = p, ic_terminal = t\<rparr>"

lemma demo2_fields [simp]:
  "ws_tabs demo_ws2 = [demo_tab, demo_tab2]" "ws_active_tab demo_ws2 = 0"
  "ws_public_pane_numbers demo_ws2 = [(1, 1), (2, 2)]"
  by (simp_all add: demo_ws2_def demo_ws_def new_workspace_def)

lemma demo_tab_fields [simp]:
  "tab_number demo_tab = 1" "tab_number demo_tab2 = 2"
  "tab_root_pane demo_tab = 1" "tab_root_pane demo_tab2 = 2"
  by (simp_all add: demo_tab_def demo_tab2_def)

lemma demo_clock: "clock_in_range (16 ^ 12)"
  by (simp add: clock_in_range_def)

lemma demo_reachable: "ws_reachable plain_rect (demo_ws, demo_ids 2 2)"
proof (rule ws_reachable.new [OF demo_clock])
  show "ids_room (demo_ids 1 1)" by (simp add: ids_room_def demo_ids_def)
  show "ws_new_with_tab (\<lambda>_. None) (\<lambda>_. ''src'') ''/src'' LoginShell [] (16 ^ 12) (demo_ids 1 1) 1
    = (Inr (demo_ws, new_terminal (demo_tid 1) ''/src'' LoginShell), demo_ids 2 2, 2)"
    by (simp add: ws_new_with_tab_def tab_new_with_runtime_def tile_layout_new_def pane_id_alloc_def
        demo_ids_def demo_ws_def demo_tab_def demo_tid_def case_prod_beta Let_def generate_workspace_id_def)
qed

lemma demo_room: "room demo_ws" "ids_room (demo_ids 2 2)"
  by (simp_all add: room_def ids_room_def demo_ws_def new_workspace_def demo_ids_def)

lemma demo_create_tab:
  "create_tab_with_runtime (\<lambda>_. None) demo_ws ''/src'' LoginShell [] (16 ^ 12) (demo_ids 2 2)
   = Some (Inr (1, new_terminal (demo_tid 2) ''/src'' LoginShell), demo_ws2, demo_ids 3 3)"
  by (simp add: create_tab_with_runtime_def tab_new_with_runtime_def tile_layout_new_def pane_id_alloc_def
      demo_ids_def demo_ws_def demo_ws2_def demo_tab_def demo_tab2_def demo_tid_def new_workspace_def case_prod_beta Let_def
      active_tab_def register_new_pane_with_number_def)

lemma demo2_reachable: "ws_reachable plain_rect (demo_ws2, demo_ids 3 3)"
  using ws_step.create_tab [OF demo_clock demo_room(2,1) demo_create_tab]
  by (rule ws_reachable.step [OF demo_reachable])

text \<open>Property C4. The invariant the authors assert in their tests holds in every reachable state of
  a workspace: it has a tab and the active one exists, the public tab numbers are distinct,
  positive and below the next one, every tab's layout and pane map agree, no pane is in two
  tabs and no terminal in two panes, and the public pane numbers are those of exactly the
  live panes, distinct, positive and below the next one.\<close>

theorem workspace_reachable_invariant:
  assumes "ws_reachable rn (w, ids)"
  shows "ws_tabs w \<noteq> [] \<and> ws_active_tab w < length (ws_tabs w)
    \<and> distinct (map tab_number (ws_tabs w))
    \<and> tab_number ` set (ws_tabs w) \<subseteq> {0<..<ws_next_public_tab_number w}
    \<and> set (ws_tabs w) \<subseteq> Collect tab_wf
    \<and> distinct (map fst (ws_entries w)) \<and> distinct (tids (ws_entries w))
    \<and> fst ` set (ws_public_pane_numbers w) = fst ` set (ws_entries w)
    \<and> hm_ok (ws_public_pane_numbers w) \<and> distinct (map snd (ws_public_pane_numbers w))
    \<and> snd ` set (ws_public_pane_numbers w) \<subseteq> {0<..<ws_next_public_pane_number w}"
  using ws_reachable_inv [OF assms]
  by (auto simp: ws_inv_def ws_wf_def ws_ok_def tabs_ok_def numbers_ok_def)

theorem workspace_reachable_invariant_witness:
  "ws_tabs demo_ws2 \<noteq> [] \<and> distinct (tids (ws_entries demo_ws2))
   \<and> fst ` set (ws_public_pane_numbers demo_ws2) = fst ` set (ws_entries demo_ws2)"
  using workspace_reachable_invariant [OF demo2_reachable] by blast

text \<open>Splitting a pane of a reachable workspace never panics, and a split that fails,
  because the pane is gone or because the new terminal cannot be spawned, leaves the
  workspace exactly as it was: layout, focus history, pane map and public numbers.\<close>

theorem failed_split_leaves_workspace:
  assumes "ws_reachable rn (w, ids)" "clock_in_range micros" "ids_room ids" "room w"
  shows "\<exists>res w' ids'. ws_split_pane_with_runtime spawn w i d ratio cwd cur extra fcs command micros ids = Some (res, w', ids')
    \<and> (case res of Some (Inr (idx, np)) \<Rightarrow> True | _ \<Rightarrow> w' = w)"
proof (cases "find_tab_index_for_pane w i")
  case None
  then show ?thesis by (simp add: ws_split_pane_with_runtime_def)
next
  case (Some idx)
  then have idx: "idx < length (ws_tabs w)" using find_tab_index_Some by blast
  have inv: "ws_inv w ids" using ws_reachable_inv [OF assms(1)] by simp
  let ?env = "launch_env_for_new_pane w (tab_number (ws_tabs w ! idx)) (ws_next_public_pane_number w) extra"
  obtain r t' ids'' where s: "tab_split_pane_with_runtime spawn (ws_tabs w ! idx) i fcs d ratio cwd cur ?env command micros ids
      = Some (r, t', ids'')"
    using tab_split_total [OF inv idx assms(2)] by (metis not_None_eq prod_cases3)
  from split_tab_inv [OF inv idx assms(2-4) s] s Some show ?thesis
    by (cases r) (auto simp: ws_split_pane_with_runtime_def Let_def)
qed

theorem failed_split_leaves_workspace_witness:
  "\<exists>ids'. ws_split_pane_with_runtime (\<lambda>_. Some ''no pty'') demo_ws 1 Vertical None None None [] True LoginShell
     (16 ^ 12) (demo_ids 2 2) = Some (Some (Inl (SpawnFailed ''no pty'')), demo_ws, ids')"
proof -
  let ?s = "ws_split_pane_with_runtime (\<lambda>_. Some ''no pty'') demo_ws 1 Vertical None None None [] True LoginShell
     (16 ^ 12) (demo_ids 2 2)"
  obtain res w' ids' where s: "?s = Some (res, w', ids')"
    "case res of Some (Inr (idx, np)) \<Rightarrow> True | _ \<Rightarrow> w' = demo_ws"
    using failed_split_leaves_workspace [OF demo_reachable demo_clock demo_room(2,1)] by meson
  have "map_option fst ?s = Some (Some (Inl (SpawnFailed ''no pty'')))"
    by (simp add: ws_split_pane_with_runtime_def find_tab_index_for_pane_def demo_ws_def new_workspace_def
        demo_tab_def tab_split_pane_with_runtime_def split_pane_def pane_ids_def pane_id_alloc_def Let_def
        close_pane_def pane_count_def demo_ids_def)
  with s show ?thesis by (cases res) auto
qed

subsection \<open>The active tab\<close>

lemma ws_inv_reachable_ok:
  assumes "ws_reachable rn (w, ids)"
  shows "tabs_ok (ws_tabs w)" "ws_active_tab w < length (ws_tabs w)"
  using ws_reachable_inv [OF assms] by (auto simp: ws_inv_def ws_wf_def ws_ok_def)

lemma roots_distinct: "tabs_ok ts \<Longrightarrow> distinct (map tab_root_pane ts)"
proof (induction ts)
  case (Cons t ts)
  have root: "tab_root_pane u \<in> fst ` set (tab_panes u)" if "u \<in> set (t # ts)" for u
    using Cons.prems that tab_wf_root [of u] tab_wf_keys [of u] by (auto simp: tabs_ok_def)
  have sub: "fst ` set (tab_panes u) \<subseteq> fst ` set (entries ts)" if "u \<in> set ts" for u
    using that by (auto simp: entries_def)
  have "fst ` set (tab_panes t) \<inter> fst ` set (entries ts) = {}"
    using Cons.prems by (auto simp: tabs_ok_def entries_Cons)
  moreover have "tab_root_pane u \<in> fst ` set (entries ts)" if "u \<in> set ts" for u
    using root [of u] sub [OF that] that by auto
  ultimately have "tab_root_pane t \<notin> tab_root_pane ` set ts" 
    using root [of t] by (metis (no_types, lifting) disjoint_iff imageE list.set_intros(1))
  moreover have "tabs_ok ts" using Cons.prems by (auto simp: tabs_ok_def entries_Cons tids_def)
  ultimately show ?case using Cons.IH by simp
qed simp

lemma nth_remove_at:
  "k < length xs - 1 \<Longrightarrow> idx < length xs \<Longrightarrow> remove_at idx xs ! k = xs ! (if k < idx then k else Suc k)"
  by (auto simp: remove_at_def nth_append)

lemma nth_insert_at: "k \<le> length xs \<Longrightarrow> insert_at k x xs ! k = x"
  by (simp add: insert_at_def nth_append)

text \<open>Moving a tab reorders the tabs and nothing else: the same tabs, the moved one at the
  place it was dropped, and the tab that was active is still the active one.\<close>

theorem move_tab_keeps_active_tab:
  assumes "ws_reachable rn (w, ids)" "move_tab w a b = (w', True)"
  shows "mset (ws_tabs w') = mset (ws_tabs w) \<and> active_tab w' = active_tab w
    \<and> ws_tabs w' ! min (if a < b then b - 1 else b) (length (ws_tabs w) - 1) = ws_tabs w ! a"
proof -
  note ok = ws_inv_reachable_ok [OF assms(1)]
  obtain target where a: "a < length (ws_tabs w)" and "b \<le> length (ws_tabs w)"
    and target: "target = min (if a < b then b - 1 else b) (length (ws_tabs w) - 1)" and "a \<noteq> target"
    and tabs: "ws_tabs w' = insert_at target (ws_tabs w ! a) (remove_at a (ws_tabs w))"
    and act: "ws_active_tab w' = (case Option.bind (map_option tab_root_pane (active_tab w))
                    (\<lambda>root. position (\<lambda>t. tab_root_pane t = root) (ws_tabs w')) of Some k \<Rightarrow> k | None \<Rightarrow> target)"
    and w': "w' = w\<lparr>ws_tabs := ws_tabs w', ws_active_tab := ws_active_tab w'\<rparr>"
    using assms(2) by (rule move_tab_moved)
  have m: "mset (ws_tabs w') = mset (ws_tabs w)" using mset_remove_at [OF a] by (simp add: tabs mset_insert_at)
  have ok': "tabs_ok (ws_tabs w')" using ok(1) tabs_ok_perm(1) [OF m] by simp
  let ?t = "ws_tabs w ! ws_active_tab w"
  have t: "?t \<in> set (ws_tabs w')" using ok(2) mset_eq_setD [OF m] by simp
  obtain k where k: "position (\<lambda>u. tab_root_pane u = tab_root_pane ?t) (ws_tabs w') = Some k"
    using t by (cases "position (\<lambda>u. tab_root_pane u = tab_root_pane ?t) (ws_tabs w')") auto
  with act ok(2) have "ws_active_tab w' = k" by (simp add: active_tab_def)
  moreover have "k < length (ws_tabs w') \<and> tab_root_pane (ws_tabs w' ! k) = tab_root_pane ?t"
    using position_Some [OF k] by simp
  moreover from this t roots_distinct [OF ok'] have "ws_tabs w' ! k = ?t"
    by (metis distinct_map inj_onD nth_mem)
  moreover have "ws_tabs w' ! target = ws_tabs w ! a"
    unfolding tabs using a target by (intro nth_insert_at) simp
  ultimately show ?thesis
    unfolding target [symmetric] using m ok(2) by (simp add: active_tab_def)
qed

theorem move_tab_keeps_active_tab_witness:
  "\<exists>w'. move_tab demo_ws2 0 2 = (w', True) \<and> active_tab w' = active_tab demo_ws2
     \<and> map tab_number (ws_tabs w') = [2, 1]"
proof -
  have "snd (move_tab demo_ws2 0 2)" "map tab_number (ws_tabs (fst (move_tab demo_ws2 0 2))) = [2, 1]"
    by (simp_all add: move_tab_def insert_at_def remove_at_def)
  then obtain w' where m: "move_tab demo_ws2 0 2 = (w', True)" "map tab_number (ws_tabs w') = [2, 1]"
    by (cases "move_tab demo_ws2 0 2") simp
  have "active_tab w' = active_tab demo_ws2"
    using move_tab_keeps_active_tab [OF demo2_reachable m(1)] by (elim conjE)
  with m show ?thesis by (intro exI [of _ w'] conjI)
qed

text \<open>Closing another tab keeps the active tab active; closing the active tab makes the one
  before it active, or the second tab when the first was closed. The remaining tabs keep
  their order.\<close>

theorem close_tab_next_active:
  assumes "ws_reachable rn (w, ids)" "close_tab w idx = (w', True)"
  shows "ws_tabs w' = remove_at idx (ws_tabs w)
    \<and> active_tab w' = (if idx \<noteq> ws_active_tab w then active_tab w
        else Some (ws_tabs w ! (if idx = 0 then 1 else idx - 1)))"
proof -
  note ok = ws_inv_reachable_ok [OF assms(1)]
  have guard: "1 < length (ws_tabs w)" "idx < length (ws_tabs w)"
    using assms(2) by (auto simp: close_tab_def split: if_splits)
  let ?w = "foldl unregister_pane (w\<lparr>ws_tabs := remove_at idx (ws_tabs w)\<rparr>) (map fst (tab_panes (ws_tabs w ! idx)))"
  have act: "ws_active_tab (foldl unregister_pane v is) = ws_active_tab v" for v "is"
    by (induction "is" arbitrary: v) (simp_all add: unregister_pane_def)
  have w': "w' = active_after_removal ?w idx" using assms(2) guard by (auto simp: close_tab_def Let_def)
  then have tabs: "ws_tabs w' = remove_at idx (ws_tabs w)" by (simp add: active_after_removal_fields)
  have "ws_active_tab w' = (if length (ws_tabs w) - 1 \<le> ws_active_tab w then length (ws_tabs w) - 1 - 1
      else if idx \<le> ws_active_tab w \<and> 0 < ws_active_tab w then ws_active_tab w - 1 else ws_active_tab w)"
    using guard(2) by (simp add: w' active_after_removal_def act)
  then have k: "ws_active_tab w' < length (ws_tabs w) - 1"
    "(if ws_active_tab w' < idx then ws_active_tab w' else Suc (ws_active_tab w'))
      = (if idx \<noteq> ws_active_tab w then ws_active_tab w else if idx = 0 then 1 else idx - 1)"
    using guard ok(2) by (auto split: if_splits)
  have "ws_tabs w' ! ws_active_tab w'
      = ws_tabs w ! (if idx \<noteq> ws_active_tab w then ws_active_tab w else if idx = 0 then 1 else idx - 1)"
    unfolding tabs using nth_remove_at [OF k(1) guard(2)] k(2) by simp
  with tabs guard ok(2) k(1) show ?thesis by (auto simp: active_tab_def)
qed

theorem close_tab_next_active_witness:
  "\<exists>w'. close_tab demo_ws2 0 = (w', True) \<and> active_tab w' = Some (ws_tabs demo_ws2 ! 1)"
proof -
  have "snd (close_tab demo_ws2 0)" "ws_active_tab demo_ws2 = 0"
    by (simp_all add: close_tab_def)
  then obtain w' where "close_tab demo_ws2 0 = (w', True)" by (cases "close_tab demo_ws2 0") simp
  with close_tab_next_active [OF demo2_reachable this] \<open>ws_active_tab demo_ws2 = 0\<close> show ?thesis by simp
qed

subsection \<open>The abstract view\<close>

text \<open>Property C5. Seen as a map from panes to the terminals they show, a workspace is a simple
  machine: every operation either changes nothing, adds one pane that was not there with a
  terminal no other pane shows, or drops panes but never all of them. No tab or pane
  operation, move or failed spawn ever re-attaches a pane to another terminal.\<close>

theorem workspace_refines_pane_map:
  assumes "ws_reachable rn s" "ws_step rn s t"
  shows "pane_map_step (ws_terminal_id (fst s)) (ws_terminal_id (fst t))"
proof -
  have inv: "ws_inv (fst s) (snd s)" by (rule ws_reachable_inv [OF assms(1)])
  show ?thesis
    by (rule pane_change_step [OF ws_step_change [OF assms(2) inv] inv ws_step_inv [OF assms(2) inv]])
qed

lemma demo_step: "ws_step plain_rect (demo_ws, demo_ids 2 2) (demo_ws2, demo_ids 3 3)"
  by (rule ws_step.create_tab [OF demo_clock demo_room(2,1) demo_create_tab])

theorem workspace_refines_pane_map_witness:
  "pane_map_step (ws_terminal_id demo_ws) (ws_terminal_id demo_ws2)"
  using workspace_refines_pane_map [OF demo_reachable demo_step] by simp

text \<open>Property C27. A public pane number is never given to a second pane: in any later state of the
  workspace a pane either still has the number it had, or its number is at least the next
  number of the earlier state, above every number in use then or before. A handle that an
  agent kept names its pane or nothing.\<close>

theorem public_numbers_never_reused:
  assumes "(ws_step rn)\<^sup>*\<^sup>* (w, ids) (w', ids')" "public_pane_number w' i = Some n"
  shows "public_pane_number w i = Some n \<or> ws_next_public_pane_number w \<le> n"
proof -
  have "numbers_grow (fst (w, ids)) (fst t)" if "(ws_step rn)\<^sup>*\<^sup>* (w, ids) t" for t
    using that
  proof induction
    case base
    show ?case by (simp add: numbers_grow_same)
  next
    case (step s t)
    then show ?case by (blast intro: numbers_grow_trans ws_step_numbers)
  qed
  from this [OF assms(1)] assms(2) show ?thesis by (auto simp: numbers_grow_def)
qed

theorem public_numbers_never_reused_witness:
  "public_pane_number demo_ws 2 = Some 2 \<or> ws_next_public_pane_number demo_ws \<le> 2"
proof -
  have "public_pane_number demo_ws2 2 = Some 2" by (simp add: public_pane_number_def)
  from public_numbers_never_reused [OF r_into_rtranclp this] demo_step show ?thesis by blast
qed

end
