(* ===== verification/AggregateProps.thy ===== *)
theory AggregateProps
  imports Workspaces TerminalPresentation WorkspaceProps TerminalSession
begin

section \<open>What a workspace shows of its panes\<close>

text \<open>
  The model of \<open>src/src/workspace/aggregate.rs\<close>: the most urgent agent state of a workspace and
  the rows of the agent panel. \<open>Instant::now()\<close> is the argument \<open>now\<close>; the panes of a tab are
  visited in the iteration order of its map, the rows in the order of its layout.
\<close>

record pane_detail =
  pd_pane_id :: pane_id
  pd_tab_idx :: nat
  pd_tab_label :: rstr
  pd_label :: rstr
  pd_pane_label :: "rstr option"
  pd_terminal_title :: "rstr option"
  pd_terminal_title_stripped :: "rstr option"
  pd_agent_label :: rstr
  pd_agent_kind_label :: "rstr option"
  pd_agent :: "agent option"
  pd_state :: agent_state
  pd_seen :: bool
  pd_last_agent_state_change_seq :: "u64 option"
  pd_state_labels :: "(rstr, rstr) hmap"
  pd_tokens :: "(rstr, rstr) hmap"

definition pane_row :: "instant \<Rightarrow> nat \<Rightarrow> rstr \<Rightarrow> pane_id \<Rightarrow> pane_state \<Rightarrow> terminal_state \<Rightarrow> pane_detail option" where
  "pane_row now tab_idx tab_label i pane trm =
     (let agent_kind_label = effective_agent_label trm;
          presentation = effective_presentation_at trm now
      in (case or_else (ts_agent_name trm) agent_kind_label of
            None \<Rightarrow> None
          | Some fallback_agent_label \<Rightarrow>
              (let agent_label = (case ep_display_agent presentation of
                     Some a \<Rightarrow> a | None \<Rightarrow> fallback_agent_label)
               in Some \<lparr>pd_pane_id = i, pd_tab_idx = tab_idx, pd_tab_label = tab_label,
                        pd_label = agent_label,
                        pd_pane_label = or_else (ep_title presentation) (ts_manual_label trm),
                        pd_terminal_title = ts_terminal_title trm,
                        pd_terminal_title_stripped = terminal_title_stripped trm,
                        pd_agent_label = agent_label, pd_agent_kind_label = agent_kind_label,
                        pd_agent = effective_known_agent trm, pd_state = ts_state trm,
                        pd_seen = ps_seen pane,
                        pd_last_agent_state_change_seq = ts_last_agent_state_change_seq trm,
                        pd_state_labels = ep_state_labels presentation,
                        pd_tokens = tokens_values (ts_metadata_tokens trm)\<rparr>)))"

definition tab_pane_details ::
  "tab \<Rightarrow> (rstr, terminal_state) hmap \<Rightarrow> instant \<Rightarrow> nat \<Rightarrow> rstr \<Rightarrow> pane_detail list" where
  "tab_pane_details t terminals now tab_idx tab_label =
     List.map_filter (\<lambda>i. Option.bind (hm_get (tab_panes t) i)
         (\<lambda>pane. Option.bind (hm_get terminals (ps_attached_terminal_id pane))
            (pane_row now tab_idx tab_label i pane)))
       (pane_ids (tab_layout t))"

fun pane_attention_priority :: "agent_state \<Rightarrow> bool \<Rightarrow> u8" where
  "pane_attention_priority Blocked _ = 4"
| "pane_attention_priority Idle False = 3"
| "pane_attention_priority Working _ = 2"
| "pane_attention_priority Idle True = 1"
| "pane_attention_priority Unknown _ = 0"

text \<open>The state and the seen flag of a pane whose terminal exists.\<close>

definition pane_status :: "(rstr, terminal_state) hmap \<Rightarrow> pane_state \<Rightarrow> (agent_state \<times> bool) option" where
  "pane_status terminals pane =
     map_option (\<lambda>trm. (ts_state trm, ps_seen pane)) (hm_get terminals (ps_attached_terminal_id pane))"

definition aggregate_state :: "workspace \<Rightarrow> (rstr, terminal_state) hmap \<Rightarrow> agent_state \<times> bool" where
  "aggregate_state w terminals =
     (case max_by_key (\<lambda>(st, seen). pane_attention_priority st seen)
             (List.map_filter (pane_status terminals)
                (concat (map (\<lambda>t. map snd (tab_panes t)) (ws_tabs w)))) of
        None \<Rightarrow> (Unknown, True)
      | Some s \<Rightarrow> s)"

text \<open>The separator is the two bytes of a middle dot.\<close>

definition middle_dot :: rstr where
  "middle_dot = [CHR 0xC2, CHR 0xB7]"

definition ws_pane_details :: "workspace \<Rightarrow> (rstr, terminal_state) hmap \<Rightarrow> instant \<Rightarrow> pane_detail list" where
  "ws_pane_details w terminals now =
     (let multi_tab = 1 < length (ws_tabs w)
      in map (\<lambda>detail. if multi_tab
               then detail\<lparr>pd_label := pd_tab_label detail @ middle_dot @ pd_agent_label detail\<rparr>
               else detail)
           (concat (map (\<lambda>(tab_idx, t).
              (let tab_label = (case tab_display_name w tab_idx of
                     Some l \<Rightarrow> l | None \<Rightarrow> decimal (tab_idx + 1))
               in tab_pane_details t terminals now tab_idx tab_label))
             (enumerate 0 (ws_tabs w)))))"

section \<open>Properties of what a workspace shows\<close>

text \<open>
  The aggregated state is compared with a case distinction on the set of pane states, so it
  does not depend on the order in which a hash map is iterated; the agent panel is compared
  with the panes of the layouts.
\<close>

subsection \<open>The most urgent pane\<close>

definition pane_statuses :: "workspace \<Rightarrow> (rstr, terminal_state) hmap \<Rightarrow> (agent_state \<times> bool) set" where
  "pane_statuses w terminals =
     set (List.map_filter (pane_status terminals) (map snd (ws_entries w)))"

definition most_urgent :: "(agent_state \<times> bool) set \<Rightarrow> agent_state" where
  "most_urgent S =
     (if Blocked \<in> fst ` S then Blocked
      else if (Idle, False) \<in> S then Idle
      else if Working \<in> fst ` S then Working
      else if (Idle, True) \<in> S then Idle
      else Unknown)"

lemma attention_at_least:
  "4 \<le> pane_attention_priority st seen \<longleftrightarrow> st = Blocked"
  "3 \<le> pane_attention_priority st seen \<longleftrightarrow> st = Blocked \<or> st = Idle \<and> \<not> seen"
  "2 \<le> pane_attention_priority st seen \<longleftrightarrow> st \<in> {Blocked, Working} \<or> st = Idle \<and> \<not> seen"
  "1 \<le> pane_attention_priority st seen \<longleftrightarrow> st \<noteq> Unknown"
  by (cases st; cases seen; simp add: word_le_nat_alt)+

lemma entries_values: "concat (map (\<lambda>t. map snd (tab_panes t)) ts) = map snd (entries ts)"
  by (induction ts) (simp_all add: entries_def)

lemma top_attention:
  assumes "(st, seen) \<in> S" "\<forall>s \<in> S. pane_attention_priority (fst s) (snd s) \<le> pane_attention_priority st seen"
  shows "most_urgent S = st"
proof -
  have le: "pane_attention_priority st' seen' \<le> pane_attention_priority st seen" if "(st', seen') \<in> S" for st' seen'
    using assms(2) that by auto
  have blocked: "st = Blocked" if "(Blocked, x) \<in> S" for x
    using le [OF that] attention_at_least(1) [of st seen] by simp
  have finished: "st = Blocked \<or> st = Idle \<and> \<not> seen" if "(Idle, False) \<in> S"
    using le [OF that] attention_at_least(2) [of st seen] by simp
  have working: "st \<in> {Blocked, Working} \<or> st = Idle \<and> \<not> seen" if "(Working, x) \<in> S" for x
    using le [OF that] attention_at_least(3) [of st seen] by simp
  have idle: "st \<noteq> Unknown" if "(Idle, True) \<in> S"
    using le [OF that] attention_at_least(4) [of st seen] by simp
  have b: "Blocked \<in> fst ` S \<longleftrightarrow> st = Blocked" using blocked assms(1) by force
  have f: "(Idle, False) \<in> S \<longrightarrow> st = Blocked \<or> st = Idle \<and> \<not> seen" using finished by blast
  have w: "Working \<in> fst ` S \<longrightarrow> st \<in> {Blocked, Working} \<or> st = Idle \<and> \<not> seen" using working by force
  have wi: "st = Working \<longrightarrow> Working \<in> fst ` S" using assms(1) by force
  show ?thesis
  proof (cases st)
    case Idle
    with assms(1) b w idle show ?thesis by (cases seen) (simp_all add: most_urgent_def)
  next
    case Unknown
    with b f w idle show ?thesis by (auto simp: most_urgent_def)
  qed (use b f wi in \<open>simp_all add: most_urgent_def\<close>)
qed

text \<open>The state a workspace shows is that of its most urgent pane: blocked before
  finished but not yet seen, before working, before idle, and unknown when no pane has an
  agent. It depends only on which states its panes have, not on the iteration order of the
  pane maps, and what is shown is the state of one of its panes.\<close>

theorem aggregate_state_most_urgent:
  "fst (aggregate_state w terminals) = most_urgent (pane_statuses w terminals)
   \<and> (if pane_statuses w terminals = {} then aggregate_state w terminals = (Unknown, True)
      else aggregate_state w terminals \<in> pane_statuses w terminals)"
proof (cases "max_by_key (\<lambda>(st, seen). pane_attention_priority st seen)
    (List.map_filter (pane_status terminals) (map snd (ws_entries w)))")
  case None
  then have "pane_statuses w terminals = {}" by (simp add: pane_statuses_def)
  with None show ?thesis by (simp add: aggregate_state_def entries_values most_urgent_def)
next
  case (Some s)
  from max_by_key_Some [OF this] have s: "s \<in> pane_statuses w terminals"
    "\<forall>s' \<in> pane_statuses w terminals.
       pane_attention_priority (fst s') (snd s') \<le> pane_attention_priority (fst s) (snd s)"
    by (simp_all add: pane_statuses_def case_prod_beta)
  from Some have "aggregate_state w terminals = s" by (simp add: aggregate_state_def entries_values)
  with s top_attention [of "fst s" "snd s"] show ?thesis by auto
qed

subsection \<open>The agent panel\<close>

definition shows_agent :: "workspace \<Rightarrow> (rstr, terminal_state) hmap \<Rightarrow> pane_id \<Rightarrow> bool" where
  "shows_agent w terminals i =
     is_some_and is_agent_terminal (Option.bind (ws_terminal_id w i) (hm_get terminals))"

lemma pane_row_Some:
  "pane_row now k l i pane trm = None \<longleftrightarrow> \<not> is_agent_terminal trm"
  "pane_row now k l i pane trm = Some d \<Longrightarrow> pd_pane_id d = i \<and> pd_tab_idx d = k"
  by (auto simp: pane_row_def is_agent_terminal_def or_else_def Let_def split: option.splits)

lemma map_map_filter:
  "(\<And>x y. x \<in> set xs \<Longrightarrow> f x = Some y \<Longrightarrow> g y = x) \<Longrightarrow>
   map g (List.map_filter f xs) = filter (\<lambda>x. f x \<noteq> None) xs"
  by (induction xs) (auto simp: map_filter_simps split: option.splits)

lemma tab_details_panes:
  "map pd_pane_id (tab_pane_details t terminals now k l)
     = filter (\<lambda>i. is_some_and is_agent_terminal (Option.bind (tab_terminal_id t i) (hm_get terminals)))
         (tab_pane_ids t)"
proof -
  have "map pd_pane_id (tab_pane_details t terminals now k l)
      = filter (\<lambda>i. Option.bind (hm_get (tab_panes t) i) (\<lambda>pane. Option.bind
          (hm_get terminals (ps_attached_terminal_id pane)) (pane_row now k l i pane)) \<noteq> None) (tab_pane_ids t)"
    unfolding tab_pane_details_def tab_pane_ids_def
    by (rule map_map_filter) (auto simp: pane_row_Some(2) bind_eq_Some_conv)
  also have "\<dots> = filter (\<lambda>i. is_some_and is_agent_terminal
      (Option.bind (tab_terminal_id t i) (hm_get terminals))) (tab_pane_ids t)"
    by (rule filter_cong) (auto simp: tab_terminal_id_def is_some_and_def pane_row_Some(1)
        simp del: not_None_eq split: option.splits bind_splits)
  finally show ?thesis .
qed

lemma tab_terminal_in_workspace:
  assumes "ws_wf w" "t \<in> set (ws_tabs w)" "i \<in> set (tab_pane_ids t)"
  shows "ws_terminal_id w i = tab_terminal_id t i"
proof -
  have ok: "tabs_ok (ws_tabs w)" using assms(1) by (simp add: ws_wf_def ws_ok_def)
  have "tab_wf t" using ok assms(2) by (simp add: tabs_ok_def)
  from tab_wf_contains [OF this, of i] assms(3) obtain p where p: "hm_get (tab_panes t) i = Some p" by auto
  then have "(i, p) \<in> set (ws_entries w)" using assms(2) by (auto simp: entries_def dest: hm_get_Some_set)
  with ok have "hm_get (ws_entries w) i = Some p" by (simp add: tabs_ok_def)
  with p show ?thesis
    unfolding ws_terminal_id_def tab_terminal_id_def find_map_entries by simp
qed

text \<open>The agent panel of a workspace has one row for every pane that shows an agent,
  and no other: the rows are the panes of the tabs, in the order of the tabs and of their
  layouts, whose terminal has an agent name or an effective agent.\<close>

theorem agent_panel_lists_agent_panes:
  assumes "ws_wf w"
  shows "map pd_pane_id (ws_pane_details w terminals now)
    = filter (shows_agent w terminals) (concat (map tab_pane_ids (ws_tabs w)))"
proof -
  have inner: "map pd_pane_id (tab_pane_details t terminals now k l) = filter (shows_agent w terminals) (tab_pane_ids t)"
    if "t \<in> set (ws_tabs w)" for t k l
    unfolding tab_details_panes shows_agent_def
    by (rule filter_cong) (simp_all add: tab_terminal_in_workspace [OF assms that])
  have "concat (map (\<lambda>(k, t). filter (shows_agent w terminals) (tab_pane_ids t)) (enumerate n ts))
      = filter (shows_agent w terminals) (concat (map tab_pane_ids ts))" for n ts
    by (induction ts arbitrary: n) (simp_all add: enumerate_simps)
  moreover have "map pd_pane_id (ws_pane_details w terminals now)
      = concat (map (\<lambda>(k, t). filter (shows_agent w terminals) (tab_pane_ids t)) (enumerate 0 (ws_tabs w)))"
    unfolding ws_pane_details_def Let_def
    by (auto simp: map_concat comp_def if_distrib [of pd_pane_id] inner [OF enumerate_set] cong: if_cong
        intro!: arg_cong [of _ _ concat])
  ultimately show ?thesis by simp
qed

theorem agent_panel_lists_agent_panes_witness:
  "map pd_pane_id (ws_pane_details demo_ws2
     [(demo_tid 2, set_agent_name (new_terminal (demo_tid 2) ''/src'' LoginShell) ''bob'')] 0) = [2]"
proof -
  have "ws_wf demo_ws2" using ws_reachable_inv [OF demo2_reachable] by (simp add: ws_inv_def)
  let ?trm = "set_agent_name (new_terminal (demo_tid 2) ''/src'' LoginShell) ''bob''"
  have "is_agent_terminal ?trm"
    by (simp add: is_agent_terminal_def set_agent_name_def Let_def)
  moreover have "demo_tid 1 \<noteq> demo_tid 2"
    using terminal_id_alloc_inj [OF demo_clock demo_clock, of 1 2] by (auto simp: demo_tid_def)
  ultimately have "filter (shows_agent demo_ws2 [(demo_tid 2, ?trm)]) [1, 2] = [2]"
    by (simp add: shows_agent_def ws_terminal_id_def tab_terminal_id_def demo_tab_def demo_tab2_def pane_state_new_def)
  with agent_panel_lists_agent_panes [OF \<open>ws_wf demo_ws2\<close>, of "[(demo_tid 2, ?trm)]" 0] show ?thesis
    by (simp add: tab_pane_ids_def demo_tab_def demo_tab2_def pane_ids_def)
qed

end
