(* ===== verification/Session.thy ===== *)
theory Session
  imports Workspaces TerminalMetadata
begin

section \<open>The session: workspaces, focus and selection\<close>

text \<open>
  The part of \<open>AppState\<close> (\<open>src/src/app/state.rs\<close>) that is the session: the workspaces, the
  terminals their panes show, what is active, selected and was focused before, the aliases of
  pane ids, pending notifications and the terminals whose runtime is to be shut down, with the
  operations of \<open>src/src/app/actions.rs\<close> on it. Left out is the state of the user interface that
  these operations write and never read: input mode, copy mode, text selection, scroll
  offsets and view geometry. Logging is left out too, and the position of a toast, which the
  toasts built here do not set.
\<close>

subsection \<open>State\<close>

record pane_focus_target =
  ft_workspace_id :: rstr
  ft_pane_id :: pane_id

datatype toast_kind = NeedsAttention | Finished | UpdateInstalled

record toast_target =
  tt_workspace_id :: rstr
  tt_pane_id :: pane_id

record toast_notification =
  tn_kind :: toast_kind
  tn_title :: rstr
  tn_context :: rstr
  tn_target :: "toast_target option"

record pending_agent_notification =
  pn_pane_id :: pane_id
  pn_workspace_id :: rstr
  pn_agent_label :: rstr
  pn_known_agent :: "agent option"
  pn_kind :: toast_kind
  pn_state :: agent_state
  pn_deadline :: instant

datatype toast_delivery = DeliverOff | DeliverHerdr | DeliverTerminal | DeliverSystem

record toast_config =
  tc_delivery :: toast_delivery
  tc_delay_seconds :: u64

datatype agent_sound_setting = SoundDefault | SoundOn | SoundOff

record sound_config =
  sc_enabled :: bool
  sc_agents :: "agent \<Rightarrow> agent_sound_setting"

record plugin_pane_record =
  pp_plugin_id :: rstr
  pp_entrypoint :: rstr

record app_state =
  as_terminals :: "(rstr, terminal_state) hmap"
  as_pane_id_aliases :: "(u32, pane_id) hmap"
  as_public_pane_id_aliases :: "(rstr, pane_id) hmap"
  as_workspaces :: "workspace list"
  as_active :: "nat option"
  as_previous_pane_focus :: "pane_focus_target option"
  as_selected :: nat
  as_toast :: "toast_notification option"
  as_pending_agent_notifications :: "(pane_id, pending_agent_notification) hmap"
  as_update_available :: "rstr option"
  as_update_install_command :: rstr
  as_latest_release_notes_available :: bool
  as_update_dismissed :: bool
  as_outer_terminal_focus :: "bool option"
  as_next_agent_state_change_seq :: u64
  as_confirm_close :: bool
  as_sound :: sound_config
  as_toast_config :: toast_config
  as_plugin_panes :: "(pane_id, plugin_pane_record) hmap"
  as_session_dirty :: bool
  as_terminal_runtime_shutdowns :: "rstr list"

definition mark_session_dirty :: "app_state \<Rightarrow> app_state" where
  "mark_session_dirty s = s\<lparr>as_session_dirty := True\<rparr>"

text \<open>\<open>workspaces.get(i)\<close> and a write through \<open>get_mut(i)\<close>.\<close>

definition get_workspace :: "app_state \<Rightarrow> nat \<Rightarrow> workspace option" where
  "get_workspace s i = (if i < length (as_workspaces s) then Some (as_workspaces s ! i) else None)"

definition put_workspace :: "app_state \<Rightarrow> nat \<Rightarrow> workspace \<Rightarrow> app_state" where
  "put_workspace s i w = s\<lparr>as_workspaces := (as_workspaces s)[i := w]\<rparr>"

definition find_pane :: "app_state \<Rightarrow> pane_id \<Rightarrow> (nat \<times> pane_state) option" where
  "find_pane s i =
     find_map (\<lambda>(ws_idx, w). map_option (\<lambda>pane. (ws_idx, pane)) (ws_pane_state w i))
       (enumerate 0 (as_workspaces s))"

definition remove_alias_shadowed_by_new_pane :: "app_state \<Rightarrow> pane_id \<Rightarrow> app_state" where
  "remove_alias_shadowed_by_new_pane s i = s\<lparr>as_pane_id_aliases := hm_remove (as_pane_id_aliases s) i\<rparr>"

subsection \<open>Focus\<close>

definition current_pane_focus_target :: "app_state \<Rightarrow> pane_focus_target option" where
  "current_pane_focus_target s =
     Option.bind (as_active s) (\<lambda>ws_idx. Option.bind (get_workspace s ws_idx)
       (\<lambda>w. map_option (\<lambda>i. \<lparr>ft_workspace_id = ws_id w, ft_pane_id = i\<rparr>) (focused_pane_id w)))"

definition pane_focus_target_indices :: "app_state \<Rightarrow> pane_focus_target \<Rightarrow> (nat \<times> nat) option" where
  "pane_focus_target_indices s target =
     Option.bind (position (\<lambda>w. ws_id w = ft_workspace_id target) (as_workspaces s))
       (\<lambda>ws_idx. map_option (\<lambda>tab_idx. (ws_idx, tab_idx))
          (find_tab_index_for_pane (as_workspaces s ! ws_idx) (ft_pane_id target)))"

definition record_pane_focus_change :: "app_state \<Rightarrow> pane_focus_target option \<Rightarrow> nat \<Rightarrow> pane_id \<Rightarrow> app_state" where
  "record_pane_focus_change s previous ws_idx i =
     (case get_workspace s ws_idx of
        None \<Rightarrow> s
      | Some w \<Rightarrow>
          (let target = \<lparr>ft_workspace_id = ws_id w, ft_pane_id = i\<rparr>
           in if previous \<noteq> Some target then s\<lparr>as_previous_pane_focus := previous\<rparr> else s))"

definition record_pane_focus_after_navigation :: "app_state \<Rightarrow> pane_focus_target option \<Rightarrow> app_state" where
  "record_pane_focus_after_navigation s previous =
     (if previous \<noteq> current_pane_focus_target s then s\<lparr>as_previous_pane_focus := previous\<rparr> else s)"

definition switch_workspace :: "app_state \<Rightarrow> nat \<Rightarrow> app_state" where
  "switch_workspace s idx =
     (if idx < length (as_workspaces s)
      then (let previous_focus = current_pane_focus_target s;
                s1 = mark_session_dirty (s\<lparr>as_active := Some idx, as_selected := idx\<rparr>);
                w = as_workspaces s1 ! idx;
                s2 = put_workspace s1 idx (switch_tab w (ws_active_tab w))
            in record_pane_focus_after_navigation s2 previous_focus)
      else s)"

definition switch_workspace_tab :: "app_state \<Rightarrow> nat \<Rightarrow> nat \<Rightarrow> app_state \<times> bool" where
  "switch_workspace_tab s ws_idx tab_idx =
     (if length (as_workspaces s) \<le> ws_idx then (s, False)
      else if is_none_or (\<lambda>w. length (ws_tabs w) \<le> tab_idx) (get_workspace s ws_idx) then (s, False)
      else (let previous_focus = current_pane_focus_target s;
                s1 = mark_session_dirty (s\<lparr>as_active := Some ws_idx, as_selected := ws_idx\<rparr>);
                s2 = put_workspace s1 ws_idx (switch_tab (as_workspaces s1 ! ws_idx) tab_idx)
            in (record_pane_focus_after_navigation s2 previous_focus, True)))"

text \<open>A write to the tab at \<open>tab_idx\<close> of the workspace at \<open>ws_idx\<close>, if both exist.\<close>

definition update_tab :: "app_state \<Rightarrow> nat \<Rightarrow> nat \<Rightarrow> (tab \<Rightarrow> tab) \<Rightarrow> app_state" where
  "update_tab s ws_idx tab_idx f =
     put_workspace s ws_idx ((as_workspaces s ! ws_idx)\<lparr>ws_tabs :=
       (ws_tabs (as_workspaces s ! ws_idx))[tab_idx := f (ws_tabs (as_workspaces s ! ws_idx) ! tab_idx)]\<rparr>)"

definition get_tab :: "app_state \<Rightarrow> nat \<Rightarrow> nat \<Rightarrow> tab option" where
  "get_tab s ws_idx tab_idx =
     Option.bind (get_workspace s ws_idx)
       (\<lambda>w. if tab_idx < length (ws_tabs w) then Some (ws_tabs w ! tab_idx) else None)"

definition focus_pane_in_workspace :: "app_state \<Rightarrow> nat \<Rightarrow> pane_id \<Rightarrow> app_state \<times> bool" where
  "focus_pane_in_workspace s ws_idx i =
     (case get_workspace s ws_idx of
        None \<Rightarrow> (s, False)
      | Some w \<Rightarrow>
          (case find_tab_index_for_pane w i of
             None \<Rightarrow> (s, False)
           | Some tab_idx \<Rightarrow>
               (let previous = current_pane_focus_target s;
                    target = \<lparr>ft_workspace_id = ws_id w, ft_pane_id = i\<rparr>
                in if previous = Some target then (s, False)
                   else (let s1 = fst (switch_workspace_tab s ws_idx tab_idx)
                         in (case get_tab s1 ws_idx tab_idx of
                               None \<Rightarrow> (s1, False)
                             | Some t \<Rightarrow>
                                 (let s2 = update_tab s1 ws_idx tab_idx
                                        (\<lambda>t. t\<lparr>tab_layout := focus_pane (tab_layout t) i\<rparr>)
                                  in (mark_session_dirty (s2\<lparr>as_previous_pane_focus := previous\<rparr>), True)))))))"

definition mark_active_tab_seen :: "app_state \<Rightarrow> app_state \<times> bool" where
  "mark_active_tab_seen s =
     (case as_active s of
        None \<Rightarrow> (s, False)
      | Some ws_idx \<Rightarrow>
          (case Option.bind (get_workspace s ws_idx) active_tab of
             None \<Rightarrow> (s, False)
           | Some t \<Rightarrow>
               (update_tab s ws_idx (ws_active_tab (as_workspaces s ! ws_idx))
                  (\<lambda>t. t\<lparr>tab_panes := map (\<lambda>(i, p). (i, p\<lparr>ps_seen := True\<rparr>)) (tab_panes t)\<rparr>),
                list_ex (\<lambda>(i, p). \<not> ps_seen p) (tab_panes t))))"

definition pane_is_in_active_tab :: "app_state \<Rightarrow> nat \<Rightarrow> pane_id \<Rightarrow> bool" where
  "pane_is_in_active_tab s ws_idx i =
     (case as_active s of
        None \<Rightarrow> False
      | Some active_ws_idx \<Rightarrow>
          active_ws_idx = ws_idx
          \<and> is_some_and (\<lambda>tab_idx. tab_idx = ws_active_tab (as_workspaces s ! ws_idx))
              (find_tab_index_for_pane (as_workspaces s ! ws_idx) i))"

subsection \<open>Zooming a pane\<close>

datatype pane_zoom_command = ZoomToggle | ZoomOn | ZoomOff

datatype pane_zoom_noop_reason = SinglePane | AlreadyZoomed | AlreadyUnzoomed

record pane_zoom_outcome =
  zo_changed :: bool
  zo_focus_changed :: bool
  zo_reason :: "pane_zoom_noop_reason option"
  zo_zoomed :: bool

definition apply_pane_zoom :: "app_state \<Rightarrow> nat \<Rightarrow> pane_id \<Rightarrow> pane_zoom_command \<Rightarrow> app_state \<times> pane_zoom_outcome option" where
  "apply_pane_zoom s ws_idx i command =
     (case Option.bind (get_workspace s ws_idx) (\<lambda>w. find_tab_index_for_pane w i) of
        None \<Rightarrow> (s, None)
      | Some tab_idx \<Rightarrow>
          (let (s1, focus_changed) = focus_pane_in_workspace s ws_idx i
           in (case get_tab s1 ws_idx tab_idx of
                 None \<Rightarrow> (s1, None)
               | Some t \<Rightarrow>
                   (if pane_count (tab_layout t) \<le> 1
                    then (s1, Some \<lparr>zo_changed = False, zo_focus_changed = focus_changed,
                                    zo_reason = Some SinglePane, zo_zoomed = tab_zoomed t\<rparr>)
                    else (let desired = (case command of ZoomToggle \<Rightarrow> \<not> tab_zoomed t | ZoomOn \<Rightarrow> True | ZoomOff \<Rightarrow> False);
                              reason = (case (command, tab_zoomed t) of
                                 (ZoomOn, True) \<Rightarrow> Some AlreadyZoomed
                               | (ZoomOff, False) \<Rightarrow> Some AlreadyUnzoomed
                               | _ \<Rightarrow> None)
                          in if reason \<noteq> None
                             then (s1, Some \<lparr>zo_changed = False, zo_focus_changed = focus_changed,
                                             zo_reason = reason, zo_zoomed = tab_zoomed t\<rparr>)
                             else (mark_session_dirty (update_tab s1 ws_idx tab_idx (\<lambda>t. t\<lparr>tab_zoomed := desired\<rparr>)),
                                   Some \<lparr>zo_changed = True, zo_focus_changed = focus_changed,
                                         zo_reason = None, zo_zoomed = desired\<rparr>))))))"

subsection \<open>Reordering workspaces\<close>

text \<open>The indices of the workspaces that were active and selected, after the order changed.\<close>

definition restore_indices :: "app_state \<Rightarrow> rstr option \<Rightarrow> rstr option \<Rightarrow> app_state" where
  "restore_indices s active_id selected_id =
     s\<lparr>as_active := Option.bind active_id (\<lambda>i. position (\<lambda>w. ws_id w = i) (as_workspaces s)),
       as_selected := (case Option.bind selected_id (\<lambda>i. position (\<lambda>w. ws_id w = i) (as_workspaces s)) of
          Some k \<Rightarrow> k | None \<Rightarrow> 0)\<rparr>"

definition move_workspace :: "app_state \<Rightarrow> nat \<Rightarrow> nat \<Rightarrow> app_state \<times> bool" where
  "move_workspace s source_idx insert_idx =
     (if length (as_workspaces s) \<le> source_idx \<or> length (as_workspaces s) < insert_idx then (s, False)
      else (let target_idx = (if source_idx < insert_idx then insert_idx - 1 else insert_idx)
            in if source_idx = target_idx then (s, False)
               else (let s1 = mark_session_dirty s;
                         active_id = map_option (\<lambda>idx. ws_id (as_workspaces s1 ! idx)) (as_active s1);
                         selected_id = map_option ws_id (get_workspace s1 (as_selected s1));
                         w = as_workspaces s1 ! source_idx;
                         s2 = s1\<lparr>as_workspaces := insert_at target_idx w (remove_at source_idx (as_workspaces s1))\<rparr>
                     in (restore_indices s2 active_id selected_id, True))))"

definition move_workspace_block :: "app_state \<Rightarrow> rstr list \<Rightarrow> rstr option \<Rightarrow> app_state \<times> bool" where
  "move_workspace_block s workspace_ids before =
     (let ids = map ws_id (as_workspaces s)
      in if workspace_ids = [] \<or> \<not> distinct workspace_ids
            \<or> \<not> list_all (\<lambda>i. i \<in> set ids) workspace_ids
            \<or> is_some_and (\<lambda>i. i \<in> set workspace_ids \<or> i \<notin> set ids) before
         then (s, False)
         else (let rest = filter (\<lambda>i. i \<notin> set workspace_ids) ids;
                   insert_idx = (case Option.bind before (\<lambda>i. position (\<lambda>c. c = i) rest) of
                      Some k \<Rightarrow> k | None \<Rightarrow> length rest);
                   desired_ids = take insert_idx rest @ workspace_ids @ drop insert_idx rest
               in if ids = desired_ids then (s, False)
                  else (let active_id = map_option (\<lambda>idx. ws_id (as_workspaces s ! idx)) (as_active s);
                            selected_id = map_option ws_id (get_workspace s (as_selected s));
                            desired_positions = map_of (rev (zip desired_ids [0..<length desired_ids]));
                            s1 = mark_session_dirty s;
                            s2 = s1\<lparr>as_workspaces :=
                              sort_key (\<lambda>w. case desired_positions (ws_id w) of
                                 Some k \<Rightarrow> k | None \<Rightarrow> 2 ^ 64 - 1) (as_workspaces s1)\<rparr>
                        in (restore_indices s2 active_id selected_id, True))))"

end
