(* ===== verification/SessionClose.thy ===== *)
theory SessionClose
  imports Session
begin

section \<open>Notifications about agents\<close>

text \<open>
  When a state change of an agent is worth a sound or a toast, when it is delivered and when it
  is held back for a while (\<open>src/src/app/actions.rs\<close>, \<open>src/src/config/sound.rs\<close>). Reading the
  clock is the argument \<open>now\<close>. Playing a sound is not modelled; the label of a workspace for the
  context line is that of the workspace model, with its fallback as a parameter.
\<close>

subsection \<open>What a transition is worth\<close>

datatype sound = SoundDone | SoundRequest

definition is_background_completion_transition :: "agent_state \<Rightarrow> agent_state \<Rightarrow> bool" where
  "is_background_completion_transition prev_state new_state \<longleftrightarrow>
     new_state = Idle \<and> (prev_state = Working \<or> prev_state = Blocked)"

definition is_completion_transition_parts :: "agent_state \<Rightarrow> agent_state \<Rightarrow> rstr option \<Rightarrow> rstr option \<Rightarrow> bool" where
  "is_completion_transition_parts previous_state st previous_label label \<longleftrightarrow>
     is_background_completion_transition previous_state st
     \<or> previous_state = Unknown \<and> st = Idle \<and> is_some previous_label \<and> previous_label = label"

definition is_completion_transition :: "effective_state_change \<Rightarrow> bool" where
  "is_completion_transition c =
     is_completion_transition_parts (ec_previous_state c) (ec_state c) (ec_previous_agent_label c) (ec_agent_label c)"

definition active_tab_suppresses_notifications :: "bool \<Rightarrow> bool option \<Rightarrow> bool" where
  "active_tab_suppresses_notifications is_active_tab outer_focus \<longleftrightarrow> is_active_tab \<and> outer_focus \<noteq> Some False"

definition notification_sound :: "bool \<Rightarrow> effective_state_change \<Rightarrow> sound option" where
  "notification_sound suppress c =
     (if ec_state c = ec_previous_state c then None
      else (case ec_state c of
              Blocked \<Rightarrow> Some SoundRequest
            | Idle \<Rightarrow> if is_completion_transition c \<and> \<not> suppress then Some SoundDone else None
            | _ \<Rightarrow> None))"

definition notification_toast :: "bool \<Rightarrow> effective_state_change \<Rightarrow> toast_kind option" where
  "notification_toast suppress c =
     (if suppress \<or> ec_state c = ec_previous_state c then None
      else (case ec_state c of
              Blocked \<Rightarrow> Some NeedsAttention
            | Idle \<Rightarrow> if is_completion_transition c then Some Finished else None
            | _ \<Rightarrow> None))"

fun toast_event_text :: "toast_kind \<Rightarrow> rstr" where
  "toast_event_text NeedsAttention = ''needs attention''"
| "toast_event_text Finished = ''finished''"
| "toast_event_text UpdateInstalled = ''updated''"

fun sound_for_toast_kind :: "toast_kind \<Rightarrow> bool \<Rightarrow> sound option" where
  "sound_for_toast_kind NeedsAttention _ = Some SoundRequest"
| "sound_for_toast_kind Finished suppress = (if \<not> suppress then Some SoundDone else None)"
| "sound_for_toast_kind UpdateInstalled _ = None"

text \<open>Two agents have no setting of their own.\<close>

definition for_agent :: "(agent \<Rightarrow> agent_sound_setting) \<Rightarrow> agent option \<Rightarrow> agent_sound_setting" where
  "for_agent overrides a =
     (case a of None \<Rightarrow> SoundDefault
      | Some Omp \<Rightarrow> SoundDefault
      | Some Mastracode \<Rightarrow> SoundDefault
      | Some k \<Rightarrow> overrides k)"

definition sound_allows :: "sound_config \<Rightarrow> agent option \<Rightarrow> bool" where
  "sound_allows cfg a = (if \<not> sc_enabled cfg then False else for_agent (sc_agents cfg) a \<noteq> SoundOff)"

text \<open>The separator is a space, the two bytes of a middle dot and a space.\<close>

definition spaced_dot :: rstr where
  "spaced_dot = [CHR '' '', CHR 0xC2, CHR 0xB7, CHR '' '']"

definition notification_context :: "workspace \<Rightarrow> rstr \<Rightarrow> nat \<Rightarrow> pane_id \<Rightarrow> rstr" where
  "notification_context w workspace_label ws_idx i =
     workspace_label @ spaced_dot @ decimal (ws_idx + 1)
     @ (if 1 < length (ws_tabs w)
        then (case Option.bind (find_tab_index_for_pane w i) (tab_display_name w) of
                Some label \<Rightarrow> spaced_dot @ label | None \<Rightarrow> [])
        else [])"

subsection \<open>Delivery\<close>

record notification_delivery =
  nd_pane_id :: pane_id
  nd_workspace_id :: rstr
  nd_agent_label :: rstr
  nd_known_agent :: "agent option"
  nd_kind :: toast_kind
  nd_toast :: "toast_notification option"
  nd_client_notification :: "toast_notification option"
  nd_sound :: "sound option"

definition agent_notification_delivery ::
  "(rstr \<Rightarrow> rstr) \<Rightarrow> app_state \<Rightarrow> nat \<Rightarrow> pane_id \<Rightarrow> rstr \<Rightarrow> rstr \<Rightarrow> agent option \<Rightarrow> toast_kind \<Rightarrow> agent_state \<Rightarrow>
   notification_delivery option" where
  "agent_notification_delivery fallback_label s ws_idx i wid label known_agent kind expected_state =
     (case Option.bind (Option.bind (get_workspace s ws_idx) (\<lambda>w. ws_pane_state w i))
             (\<lambda>pane. hm_get (as_terminals s) (ps_attached_terminal_id pane)) of
        None \<Rightarrow> None
      | Some trm \<Rightarrow>
          (if ts_state trm \<noteq> expected_state then None
           else if is_some_and (\<lambda>current. current \<noteq> label) (effective_agent_label trm) then None
           else (let is_active_tab = pane_is_in_active_tab s ws_idx i;
                     suppress = active_tab_suppresses_notifications is_active_tab (as_outer_terminal_focus s);
                     snd' = opt_filter (\<lambda>_. sound_allows (as_sound s) known_agent) (sound_for_toast_kind kind suppress);
                     w = as_workspaces s ! ws_idx;
                     built = \<lparr>tn_kind = kind, tn_title = label @ '' '' @ toast_event_text kind,
                              tn_context = notification_context w
                                (display_name_from_terminals fallback_label w (as_terminals s)) ws_idx i,
                              tn_target = Some \<lparr>tt_workspace_id = wid, tt_pane_id = i\<rparr>\<rparr>;
                     toast = (if \<not> is_active_tab then Some built else None);
                     client = (if \<not> suppress then Some built else None)
                 in if toast = None \<and> client = None \<and> snd' = None then None
                    else Some \<lparr>nd_pane_id = i, nd_workspace_id = wid, nd_agent_label = label,
                               nd_known_agent = known_agent, nd_kind = kind, nd_toast = toast,
                               nd_client_notification = client, nd_sound = snd'\<rparr>)))"

definition apply_agent_notification_delivery :: "app_state \<Rightarrow> notification_delivery \<Rightarrow> app_state" where
  "apply_agent_notification_delivery s d =
     (if tc_delivery (as_toast_config s) = DeliverHerdr
      then (case nd_toast d of Some t \<Rightarrow> s\<lparr>as_toast := Some t\<rparr> | None \<Rightarrow> s)
      else s)"

definition max_toast_delay_seconds :: u64 where
  "max_toast_delay_seconds = 3600"

definition record_or_deliver_agent_notification ::
  "(rstr \<Rightarrow> rstr) \<Rightarrow> app_state \<Rightarrow> nat \<Rightarrow> pane_id \<Rightarrow> effective_state_change \<Rightarrow> instant \<Rightarrow>
   app_state \<times> notification_delivery option" where
  "record_or_deliver_agent_notification fallback_label s0 ws_idx i c now =
     (let s = s0\<lparr>as_pending_agent_notifications := hm_remove (as_pending_agent_notifications s0) i\<rparr>;
          suppress = active_tab_suppresses_notifications (pane_is_in_active_tab s ws_idx i) (as_outer_terminal_focus s);
          client_kind = notification_toast suppress c;
          snd' = notification_sound suppress c
      in if client_kind = None \<and> snd' = None then (s, None)
         else (case or_else (ec_agent_label c) (ec_previous_agent_label c) of
                 None \<Rightarrow> (s, None)
               | Some label \<Rightarrow>
                   (let known_agent = or_else (ec_known_agent c) (ec_previous_known_agent c);
                        kind = (case client_kind of Some k \<Rightarrow> k
                          | None \<Rightarrow> (case snd' of Some SoundRequest \<Rightarrow> NeedsAttention | _ \<Rightarrow> Finished));
                        wid = ws_id (as_workspaces s ! ws_idx)
                    in if tc_delay_seconds (as_toast_config s) = 0
                       then (s, agent_notification_delivery fallback_label s ws_idx i wid label known_agent kind (ec_state c))
                       else (s\<lparr>as_pending_agent_notifications := hm_insert (as_pending_agent_notifications s) i
                               \<lparr>pn_pane_id = i, pn_workspace_id = wid, pn_agent_label = label,
                                pn_known_agent = known_agent, pn_kind = kind, pn_state = ec_state c,
                                pn_deadline = instant_add_or_self now
                                  (unat (min (tc_delay_seconds (as_toast_config s)) max_toast_delay_seconds) * 1000000000)\<rparr>\<rparr>,
                             None))))"

definition next_pending_agent_notification_deadline :: "app_state \<Rightarrow> instant option" where
  "next_pending_agent_notification_deadline s =
     min_by_key id (map (\<lambda>(_, p). pn_deadline p) (as_pending_agent_notifications s))"

text \<open>The notifications that are due are taken out one by one, in the order of the map.\<close>

definition drain_one ::
  "(rstr \<Rightarrow> rstr) \<Rightarrow> app_state \<times> notification_delivery list \<Rightarrow> pane_id \<Rightarrow>
   app_state \<times> notification_delivery list" where
  "drain_one fallback_label = (\<lambda>(s, deliveries) i.
     (case hm_get (as_pending_agent_notifications s) i of
        None \<Rightarrow> (s, deliveries)
      | Some pending \<Rightarrow>
          (let s1 = s\<lparr>as_pending_agent_notifications := hm_remove (as_pending_agent_notifications s) i\<rparr>
           in (case Option.bind (position (\<lambda>w. ws_id w = pn_workspace_id pending) (as_workspaces s1))
                      (\<lambda>ws_idx. agent_notification_delivery fallback_label s1 ws_idx (pn_pane_id pending)
                         (pn_workspace_id pending) (pn_agent_label pending) (pn_known_agent pending)
                         (pn_kind pending) (pn_state pending)) of
                 None \<Rightarrow> (s1, deliveries)
               | Some d \<Rightarrow> (apply_agent_notification_delivery s1 d, deliveries @ [d])))))"

definition drain_due_agent_notifications ::
  "(rstr \<Rightarrow> rstr) \<Rightarrow> app_state \<Rightarrow> instant \<Rightarrow> app_state \<times> notification_delivery list" where
  "drain_due_agent_notifications fallback_label s now =
     (let due_panes = map fst (filter (\<lambda>(_, p). pn_deadline p \<le> now) (as_pending_agent_notifications s))
      in foldl (drain_one fallback_label) (s, []) due_panes)"

section \<open>Closing workspaces and panes\<close>

text \<open>
  The operations of \<open>src/src/app/actions.rs\<close> that take panes away: closing the selected
  workspace, with its group of worktrees, a pane whose process died, and the clean-up of the
  terminals, plugin records and aliases that go with them. \<open>None\<close> is a panic of the layout.
\<close>

subsection \<open>What belongs to a workspace, a tab, a pane\<close>

definition terminal_ids_for_workspace :: "app_state \<Rightarrow> nat \<Rightarrow> rstr list" where
  "terminal_ids_for_workspace s ws_idx =
     (case get_workspace s ws_idx of
        None \<Rightarrow> []
      | Some w \<Rightarrow> concat (map (\<lambda>t. map (\<lambda>(_, pane). ps_attached_terminal_id pane) (tab_panes t)) (ws_tabs w)))"

definition pane_ids_for_workspace :: "app_state \<Rightarrow> nat \<Rightarrow> pane_id list" where
  "pane_ids_for_workspace s ws_idx =
     (case get_workspace s ws_idx of
        None \<Rightarrow> [] | Some w \<Rightarrow> concat (map (\<lambda>t. pane_ids (tab_layout t)) (ws_tabs w)))"

definition terminal_ids_for_tab :: "app_state \<Rightarrow> nat \<Rightarrow> nat \<Rightarrow> rstr list" where
  "terminal_ids_for_tab s ws_idx tab_idx =
     (case get_tab s ws_idx tab_idx of
        None \<Rightarrow> [] | Some t \<Rightarrow> map (\<lambda>(_, pane). ps_attached_terminal_id pane) (tab_panes t))"

definition terminal_id_for_pane :: "app_state \<Rightarrow> nat \<Rightarrow> pane_id \<Rightarrow> rstr option" where
  "terminal_id_for_pane s ws_idx i =
     Option.bind (get_workspace s ws_idx) (\<lambda>w. map_option ps_attached_terminal_id (ws_pane_state w i))"

subsection \<open>Clean-up\<close>

definition still_attached :: "app_state \<Rightarrow> rstr \<Rightarrow> bool" where
  "still_attached s tid =
     list_ex (\<lambda>w. list_ex (\<lambda>t. list_ex (\<lambda>(_, pane). ps_attached_terminal_id pane = tid) (tab_panes t)) (ws_tabs w))
       (as_workspaces s)"

definition remove_unattached_terminal_id :: "app_state \<Rightarrow> rstr \<Rightarrow> app_state" where
  "remove_unattached_terminal_id s tid =
     (if \<not> still_attached s tid \<and> hm_contains (as_terminals s) tid
      then (let s1 = s\<lparr>as_terminals := hm_remove (as_terminals s) tid\<rparr>
            in if tid \<notin> set (as_terminal_runtime_shutdowns s1)
               then s1\<lparr>as_terminal_runtime_shutdowns := as_terminal_runtime_shutdowns s1 @ [tid]\<rparr>
               else s1)
      else s)"

definition remove_unattached_terminal_ids :: "app_state \<Rightarrow> rstr list \<Rightarrow> app_state" where
  "remove_unattached_terminal_ids s terminal_ids = foldl remove_unattached_terminal_id s terminal_ids"

definition remove_plugin_pane_records :: "app_state \<Rightarrow> pane_id list \<Rightarrow> app_state" where
  "remove_plugin_pane_records s is =
     (let s1 = (if is_some_and (\<lambda>f. ft_pane_id f \<in> set is) (as_previous_pane_focus s)
                then s\<lparr>as_previous_pane_focus := None\<rparr> else s)
      in s1\<lparr>as_plugin_panes := foldl hm_remove (as_plugin_panes s1) is\<rparr>)"

subsection \<open>Closing a workspace\<close>

text \<open>The members of the worktree group that \<open>ws_idx\<close> leads, if it leads one of at least two.\<close>

definition worktree_group :: "app_state \<Rightarrow> nat \<Rightarrow> nat list option" where
  "worktree_group s ws_idx =
     opt_filter (\<lambda>indices. 2 \<le> length indices)
       (map_option (\<lambda>space. map fst (filter (\<lambda>(_, w). is_some_and (\<lambda>m. wm_key m = wm_key space) (ws_worktree_space w))
             (enumerate 0 (as_workspaces s))))
          (opt_filter (\<lambda>space. \<not> wm_is_linked_worktree space)
             (Option.bind (get_workspace s ws_idx) ws_worktree_space)))"

definition workspace_close_would_close_worktree_group :: "app_state \<Rightarrow> nat \<Rightarrow> bool" where
  "workspace_close_would_close_worktree_group s ws_idx =
     is_some_and (\<lambda>space. 2 \<le> length (filter (\<lambda>w. is_some_and (\<lambda>m. wm_key m = wm_key space) (ws_worktree_space w))
           (as_workspaces s)))
       (opt_filter (\<lambda>space. \<not> wm_is_linked_worktree space)
          (Option.bind (get_workspace s ws_idx) ws_worktree_space))"

definition confirm_implicit_worktree_group_close :: "app_state \<Rightarrow> nat \<Rightarrow> app_state \<times> bool" where
  "confirm_implicit_worktree_group_close s ws_idx =
     (if as_confirm_close s \<and> workspace_close_would_close_worktree_group s ws_idx
      then (s\<lparr>as_selected := ws_idx\<rparr>, True) else (s, False))"

definition close_pane_would_close_workspace :: "app_state \<Rightarrow> nat \<Rightarrow> pane_id \<Rightarrow> bool" where
  "close_pane_would_close_workspace s ws_idx i =
     is_some_and (\<lambda>w. is_some_and (\<lambda>tab_idx.
         pane_count (tab_layout (ws_tabs w ! tab_idx)) \<le> 1 \<and> length (ws_tabs w) \<le> 1) (find_tab_index_for_pane w i))
       (get_workspace s ws_idx)"

text \<open>\<open>Vec::remove\<close> panics out of range; the indices removed here are in range.\<close>

definition close_selected_workspace :: "app_state \<Rightarrow> app_state" where
  "close_selected_workspace s =
     (if as_workspaces s = [] then s
      else (let s1 = mark_session_dirty s;
                close_indices = (case worktree_group s1 (as_selected s1) of
                   Some indices \<Rightarrow> indices | None \<Rightarrow> [as_selected s1]);
                terminal_ids = concat (map (terminal_ids_for_workspace s1) close_indices);
                is = concat (map (pane_ids_for_workspace s1) close_indices);
                active_workspace_id = map_option ws_id (Option.bind (as_active s1) (get_workspace s1));
                s2 = remove_plugin_pane_records s1 is;
                s3 = s2\<lparr>as_workspaces := foldl (\<lambda>ws idx. remove_at idx ws) (as_workspaces s2) (rev close_indices)\<rparr>;
                s4 = remove_unattached_terminal_ids s3 terminal_ids
            in if as_workspaces s4 = [] then s4\<lparr>as_active := None, as_selected := 0\<rparr>
               else (let sel1 = (case Option.bind active_workspace_id
                              (\<lambda>i. position (\<lambda>w. ws_id w = i) (as_workspaces s4)) of
                            Some idx \<Rightarrow> idx | None \<Rightarrow> as_selected s4);
                         sel2 = (if length (as_workspaces s4) \<le> sel1 then length (as_workspaces s4) - 1 else sel1)
                     in s4\<lparr>as_active := Some sel2, as_selected := sel2\<rparr>)))"

subsection \<open>A pane died\<close>

definition handle_pane_died :: "app_state \<Rightarrow> pane_id \<Rightarrow> app_state option" where
  "handle_pane_died s0 i =
     (let s = remove_plugin_pane_records
            (s0\<lparr>as_pending_agent_notifications := hm_remove (as_pending_agent_notifications s0) i\<rparr>) [i]
      in (case position (\<lambda>w. find_tab_index_for_pane w i \<noteq> None) (as_workspaces s) of
            None \<Rightarrow> Some s
          | Some ws_idx \<Rightarrow>
              (let pane_terminal_id = terminal_id_for_pane s ws_idx i;
                   workspace_terminal_ids = terminal_ids_for_workspace s ws_idx;
                   s1 = s\<lparr>as_pane_id_aliases := hm_retain (\<lambda>_ alias. alias \<noteq> i) (as_pane_id_aliases s),
                          as_public_pane_id_aliases := hm_retain (\<lambda>_ alias. alias \<noteq> i) (as_public_pane_id_aliases s)\<rparr>
               in (case ws_remove_pane (as_workspaces s1 ! ws_idx) i of
                     None \<Rightarrow> None
                   | Some (w', should_close_workspace) \<Rightarrow>
                       (let s2 = mark_session_dirty (put_workspace s1 ws_idx w')
                        in if should_close_workspace
                           then (let active_workspace_id = map_option ws_id (Option.bind (as_active s2) (get_workspace s2));
                                     selected_workspace_id = map_option ws_id (get_workspace s2 (as_selected s2));
                                     s3 = remove_unattached_terminal_ids
                                       (s2\<lparr>as_workspaces := remove_at ws_idx (as_workspaces s2)\<rparr>) workspace_terminal_ids
                                 in if as_workspaces s3 = [] then Some (s3\<lparr>as_active := None, as_selected := 0\<rparr>)
                                    else (let act1 = (case Option.bind active_workspace_id
                                                   (\<lambda>k. position (\<lambda>w. ws_id w = k) (as_workspaces s3)) of
                                                 Some idx \<Rightarrow> Some idx | None \<Rightarrow> as_active s3);
                                              act2 = map_option (\<lambda>a. if length (as_workspaces s3) \<le> a
                                                 then length (as_workspaces s3) - 1 else a) act1;
                                              sel1 = (case Option.bind selected_workspace_id
                                                   (\<lambda>k. position (\<lambda>w. ws_id w = k) (as_workspaces s3)) of
                                                 Some idx \<Rightarrow> idx | None \<Rightarrow> as_selected s3);
                                              sel2 = (if length (as_workspaces s3) \<le> sel1
                                                 then length (as_workspaces s3) - 1 else sel1)
                                          in Some (s3\<lparr>as_active := act2, as_selected := sel2\<rparr>)))
                           else Some (remove_unattached_terminal_ids s2
                                  (case pane_terminal_id of Some tid \<Rightarrow> [tid] | None \<Rightarrow> [])))))))"

end
