(* ===== verification/AppEvents.thy ===== *)
theory AppEvents
  imports SessionClose
begin

section \<open>Events from the panes\<close>

text \<open>
  How an event reaches the terminal of a pane and what follows for the session
  (\<open>handle_app_event\<close> and what it calls in \<open>src/src/app/actions.rs\<close>): the terminal is updated, a
  managed launch is advanced, a change of state is numbered, the pane is marked seen or not
  and a notification is delivered or held back. A clock reading inside the code is one
  argument \<open>now\<close>, that inside the suppression of a terminal \<open>clk\<close>; whether a path is a directory
  is the parameter \<open>is_dir\<close>. The manifest status shown in the settings is left out.
\<close>

subsection \<open>What an event reports back\<close>

datatype agent_status = StatusIdle | StatusWorking | StatusBlocked | StatusDone | StatusUnknown

fun pane_agent_status :: "agent_state \<Rightarrow> bool \<Rightarrow> agent_status" where
  "pane_agent_status Idle False = StatusDone"
| "pane_agent_status Idle True = StatusIdle"
| "pane_agent_status Working _ = StatusWorking"
| "pane_agent_status Blocked _ = StatusBlocked"
| "pane_agent_status Unknown _ = StatusUnknown"

record pane_state_update =
  pu_pane_id :: pane_id
  pu_ws_idx :: nat
  pu_previous_agent_label :: "rstr option"
  pu_previous_known_agent :: "agent option"
  pu_previous_state :: agent_state
  pu_previous_seen :: bool
  pu_previous_presentation :: effective_presentation
  pu_agent_label :: "rstr option"
  pu_known_agent :: "agent option"
  pu_state :: agent_state
  pu_seen :: bool
  pu_presentation :: effective_presentation
  pu_agent_name_changed :: bool
  pu_agent_released :: bool
  pu_agent_release_status :: "agent_status option"

subsection \<open>A change of the state of a pane\<close>

definition set_pane_seen :: "workspace \<Rightarrow> pane_id \<Rightarrow> bool \<Rightarrow> workspace" where
  "set_pane_seen w i b =
     (case find_tab_index_for_pane w i of
        None \<Rightarrow> w
      | Some idx \<Rightarrow>
          (let t = ws_tabs w ! idx
           in (case hm_get (tab_panes t) i of
                 None \<Rightarrow> w
               | Some pane \<Rightarrow>
                   w\<lparr>ws_tabs := (ws_tabs w)[idx := t\<lparr>tab_panes :=
                      hm_insert (tab_panes t) i (pane\<lparr>ps_seen := b\<rparr>)\<rparr>]\<rparr>)))"

definition apply_pane_state_change ::
  "(rstr \<Rightarrow> rstr) \<Rightarrow> app_state \<Rightarrow> nat \<Rightarrow> pane_id \<Rightarrow> effective_state_change \<Rightarrow> instant \<Rightarrow> app_state \<times> bool option" where
  "apply_pane_state_change fallback_label s ws_idx i c now =
     (let suppress = active_tab_suppresses_notifications (pane_is_in_active_tab s ws_idx i) (as_outer_terminal_focus s)
      in (case ws_pane_state (as_workspaces s ! ws_idx) i of
            None \<Rightarrow> (s, None)
          | Some pane \<Rightarrow>
              (let seen = (if ec_state c \<noteq> Idle then True
                           else if is_completion_transition c then suppress else ps_seen pane);
                   s1 = put_workspace s ws_idx (set_pane_seen (as_workspaces s ! ws_idx) i seen)
               in (case record_or_deliver_agent_notification fallback_label s1 ws_idx i c now of
                     (s2, None) \<Rightarrow> (s2, Some seen)
                   | (s2, Some d) \<Rightarrow> (apply_agent_notification_delivery s2 d, Some seen)))))"

type_synonym terminal_update = "terminal_state \<Rightarrow> terminal_state \<times> terminal_state_mutation option"

definition state_update ::
  "pane_id \<Rightarrow> nat \<Rightarrow> bool \<Rightarrow> effective_state_change \<Rightarrow> bool \<Rightarrow> bool \<Rightarrow> bool \<Rightarrow> pane_state_update" where
  "state_update i ws_idx previous_seen c seen agent_name_changed agent_released =
     \<lparr>pu_pane_id = i, pu_ws_idx = ws_idx, pu_previous_agent_label = ec_previous_agent_label c,
      pu_previous_known_agent = ec_previous_known_agent c, pu_previous_state = ec_previous_state c,
      pu_previous_seen = previous_seen, pu_previous_presentation = ec_previous_presentation c,
      pu_agent_label = (if agent_released then ec_previous_agent_label c else ec_agent_label c),
      pu_known_agent = (if agent_released then ec_previous_known_agent c else ec_known_agent c),
      pu_state = ec_state c, pu_seen = seen, pu_presentation = ec_presentation c,
      pu_agent_name_changed = agent_name_changed, pu_agent_released = agent_released,
      pu_agent_release_status = (if agent_released then Some (pane_agent_status (ec_state c) seen) else None)\<rparr>"

text \<open>The change of state gets the next number, which its terminal remembers.\<close>

definition number_state_change :: "app_state \<Rightarrow> rstr \<Rightarrow> effective_state_change \<Rightarrow> app_state" where
  "number_state_change s tid c =
     (if ec_previous_state c \<noteq> ec_state c
      then (let n = as_next_agent_state_change_seq s + 1;
                s1 = s\<lparr>as_next_agent_state_change_seq := n\<rparr>
            in (case hm_get (as_terminals s1) tid of
                  None \<Rightarrow> s1
                | Some trm \<Rightarrow> s1\<lparr>as_terminals :=
                    hm_insert (as_terminals s1) tid (trm\<lparr>ts_last_agent_state_change_seq := Some n\<rparr>)\<rparr>))
      else s)"

definition update_terminal_state ::
  "(rstr \<Rightarrow> rstr) \<Rightarrow> app_state \<Rightarrow> pane_id \<Rightarrow> terminal_update \<Rightarrow> instant \<Rightarrow> app_state \<times> pane_state_update option" where
  "update_terminal_state fallback_label s i update now =
     (case position (\<lambda>w. ws_pane_state w i \<noteq> None) (as_workspaces s) of
        None \<Rightarrow> (s, None)
      | Some ws_idx \<Rightarrow>
          (case ws_pane_state (as_workspaces s ! ws_idx) i of
             None \<Rightarrow> (s, None)
           | Some pane \<Rightarrow>
               (let tid = ps_attached_terminal_id pane; previous_seen = ps_seen pane
                in (case hm_get (as_terminals s) tid of
                      None \<Rightarrow> (s, None)
                    | Some trm \<Rightarrow>
                        (case update trm of
                           (t1, None) \<Rightarrow> (s\<lparr>as_terminals := hm_insert (as_terminals s) tid t1\<rparr>, None)
                         | (t1, Some mutation) \<Rightarrow>
                             (let (t2, managed_changed) = reconcile_managed_agent_at t1 now False;
                                  agent_name_changed = (ts_agent_name t2 \<noteq> ts_agent_name trm);
                                  agent_released = tm_agent_released mutation;
                                  unchanged_change = (if agent_released \<or> agent_name_changed
                                    then Some (unchanged_effective_state_change_at t2 now) else None);
                                  s1 = s\<lparr>as_terminals := hm_insert (as_terminals s) tid t2\<rparr>;
                                  s2 = (if tm_session_ref_changed mutation \<or> managed_changed \<or> agent_name_changed
                                        then mark_session_dirty s1 else s1)
                              in (case or_else (tm_effective_state_change mutation) unchanged_change of
                                    None \<Rightarrow> (s2, None)
                                  | Some c \<Rightarrow>
                                      (case apply_pane_state_change fallback_label (number_state_change s2 tid c) ws_idx i c now of
                                         (s3, None) \<Rightarrow> (s3, None)
                                       | (s3, Some seen) \<Rightarrow>
                                           (s3, Some (state_update i ws_idx previous_seen c seen
                                              agent_name_changed agent_released))))))))))"

subsection \<open>The events\<close>

datatype app_event =
    PaneDied pane_id
  | UpdateReady rstr rstr
  | ManifestsUpdated "(agent \<times> rstr) list"
  | StateChanged pane_id "agent option" agent_state bool bool bool instant
  | HookStateReported pane_id rstr rstr agent_state "rstr option" "u64 option" "agent_session_ref option"
  | AgentSessionReported pane_id rstr rstr "u64 option" "agent_session_ref option" "rstr option"
  | HookMetadataReported pane_id agent_metadata_report
  | HookAuthorityCleared pane_id "rstr option" "u64 option"
  | HookAgentReleased pane_id rstr rstr "agent option" "u64 option"
  | TerminalCwdReported pane_id rstr
  | HandledElsewhere

definition update_install_instruction :: "rstr \<Rightarrow> rstr" where
  "update_install_instruction command =
     (if command = ''herdr update'' then ''detach, run `herdr update`, then follow its restart guidance''
      else if command = ''brew update && brew upgrade herdr''
      then ''detach, run `brew update && brew upgrade herdr`, then restart this Herdr session when ready''
      else if command = ''mise upgrade herdr''
      then ''detach, run `mise upgrade herdr`, then restart this Herdr session when ready''
      else if command = ''update through Nix''
      then ''detach, update through Nix, then restart this Herdr session when ready''
      else ''detach, run `'' @ command @ ''`, then restart this Herdr session when ready'')"

fun join_comma :: "rstr list \<Rightarrow> rstr" where
  "join_comma [] = []"
| "join_comma [x] = x"
| "join_comma (x # xs) = x @ '', '' @ join_comma xs"

definition update_toast :: "app_state \<Rightarrow> rstr \<Rightarrow> rstr \<Rightarrow> app_state" where
  "update_toast s title context =
     (if tc_delivery (as_toast_config s) = DeliverHerdr
      then s\<lparr>as_toast := Some \<lparr>tn_kind = UpdateInstalled, tn_title = title, tn_context = context, tn_target = None\<rparr>\<rparr>
      else s)"

definition report_terminal_cwd :: "(rstr \<Rightarrow> bool) \<Rightarrow> app_state \<Rightarrow> pane_id \<Rightarrow> rstr \<Rightarrow> app_state" where
  "report_terminal_cwd is_dir s i cwd =
     (if \<not> prefix ''/'' cwd \<or> \<not> is_dir cwd then s
      else (case find_map (\<lambda>w. map_option ps_attached_terminal_id (ws_pane_state w i)) (as_workspaces s) of
              None \<Rightarrow> s
            | Some tid \<Rightarrow>
                (case hm_get (as_terminals s) tid of
                   None \<Rightarrow> s
                 | Some trm \<Rightarrow>
                     if ts_cwd trm \<noteq> cwd
                     then mark_session_dirty
                       (s\<lparr>as_terminals := hm_insert (as_terminals s) tid (trm\<lparr>ts_cwd := cwd\<rparr>)\<rparr>)
                     else s)))"

text \<open>The result \<open>None\<close> is a panic; otherwise the new state and the update to publish, if any.\<close>

definition handle_app_event ::
  "(rstr \<Rightarrow> rstr) \<Rightarrow> (rstr \<Rightarrow> bool) \<Rightarrow> app_state \<Rightarrow> app_event \<Rightarrow> instant \<Rightarrow> instant \<Rightarrow>
   (app_state \<times> pane_state_update option) option" where
  "handle_app_event fallback_label is_dir s ev now clk =
     (case ev of
        PaneDied i \<Rightarrow> map_option (\<lambda>s'. (s', None)) (handle_pane_died s i)
      | UpdateReady version install_command \<Rightarrow>
          Some (update_toast (s\<lparr>as_update_available := Some version, as_update_install_command := install_command,
                   as_latest_release_notes_available := True, as_update_dismissed := True\<rparr>)
                 (''v'' @ version @ '' available'') (update_install_instruction install_command), None)
      | ManifestsUpdated updated \<Rightarrow>
          Some (if updated \<noteq> []
                then update_toast s ''Agent detection rules updated''
                       (join_comma (map (\<lambda>(a, version). agent_label a @ '' '' @ version) updated))
                else s, None)
      | StateChanged i a st visible_blocker visible_working process_exited observed_at \<Rightarrow>
          Some (update_terminal_state fallback_label s i
                 (\<lambda>t. let (t', m) = set_detected_state_with_screen_signals_at t a st visible_blocker False
                              visible_working process_exited observed_at clk in (t', Some m)) now)
      | HookStateReported i source label st message seq session_ref \<Rightarrow>
          Some (if is_reserved_native_state_source source label
                then update_terminal_state fallback_label s i
                       (\<lambda>t. set_agent_session_ref t source label session_ref seq now clk) now
                else update_terminal_state fallback_label s i
                       (\<lambda>t. set_hook_authority_at t source label st message session_ref seq now clk) now)
      | AgentSessionReported i source label seq session_ref start \<Rightarrow>
          Some (update_terminal_state fallback_label s i
                 (\<lambda>t. set_agent_session_ref_for_session_start t source label session_ref seq start now clk) now)
      | HookMetadataReported i report \<Rightarrow>
          Some (update_terminal_state fallback_label s i (\<lambda>t. set_agent_metadata t report now) now)
      | HookAuthorityCleared i source seq \<Rightarrow>
          Some (update_terminal_state fallback_label s i
                 (\<lambda>t. clear_hook_authority_with_mutation t source seq now clk) now)
      | HookAgentReleased i source label known_agent seq \<Rightarrow>
          Some (if is_official_agent_source source label then (s, None)
                else update_terminal_state fallback_label s i
                       (\<lambda>t. release_agent_with_mutation t source label seq now clk) now)
      | TerminalCwdReported i cwd \<Rightarrow> Some (report_terminal_cwd is_dir s i cwd, None)
      | HandledElsewhere \<Rightarrow> Some (s, None))"

subsection \<open>Process exits and timers\<close>

definition publish_pane_process_exit_if_agent ::
  "(rstr \<Rightarrow> rstr) \<Rightarrow> app_state \<Rightarrow> pane_id \<Rightarrow> instant \<Rightarrow> instant \<Rightarrow> app_state \<times> pane_state_update option" where
  "publish_pane_process_exit_if_agent fallback_label s i now clk =
     (let (s', u) = update_terminal_state fallback_label s i
            (\<lambda>t. let a = or_else (effective_known_agent t) (ts_detected_agent t)
                 in if a = None \<and> \<not> live_full_lifecycle_hook_authority t then (t, None)
                    else (let (t', m) = set_detected_state_with_screen_signals_at t a Idle False True False True now clk
                          in (t', Some m))) now
      in (s', opt_filter pu_agent_released u))"

definition session_next_managed_agent_deadline :: "app_state \<Rightarrow> instant option" where
  "session_next_managed_agent_deadline s =
     min_by_key id (List.map_filter (\<lambda>(_, t). next_managed_agent_deadline t) (as_terminals s))"

definition reconcile_managed_agents_at :: "app_state \<Rightarrow> instant \<Rightarrow> app_state \<times> (nat \<times> pane_id) list" where
  "reconcile_managed_agents_at s now =
     (let changed = map fst (filter (\<lambda>(_, t). snd (reconcile_managed_agent_at t now False)) (as_terminals s));
          s1 = s\<lparr>as_terminals := map (\<lambda>(tid, t). (tid, fst (reconcile_managed_agent_at t now False))) (as_terminals s)\<rparr>
      in if changed = [] then (s1, [])
         else (mark_session_dirty s1,
               concat (map (\<lambda>(ws_idx, w). concat (map (\<lambda>t. List.map_filter (\<lambda>(i, pane).
                     if ps_attached_terminal_id pane \<in> set changed then Some (ws_idx, i) else None) (tab_panes t)) (ws_tabs w)))
                 (enumerate 0 (as_workspaces s1)))))"

text \<open>The panes of all workspaces with their terminals, in the order of the layouts.\<close>

definition pane_terminals :: "app_state \<Rightarrow> (nat \<times> pane_id \<times> rstr) list" where
  "pane_terminals s =
     concat (map (\<lambda>(ws_idx, w). concat (map (\<lambda>t. List.map_filter (\<lambda>i.
           map_option (\<lambda>pane. (ws_idx, i, ps_attached_terminal_id pane)) (ws_pane_state w i))
         (pane_ids (tab_layout t))) (ws_tabs w)))
       (enumerate 0 (as_workspaces s)))"

definition expire_metadata_of_pane ::
  "(rstr \<Rightarrow> rstr) \<Rightarrow> instant \<Rightarrow> instant \<Rightarrow> app_state \<times> pane_state_update list \<Rightarrow> nat \<times> pane_id \<times> rstr \<Rightarrow>
   app_state \<times> pane_state_update list" where
  "expire_metadata_of_pane fallback_label scheduled_deadline now = (\<lambda>(s, updates) (ws_idx, i, tid).
     (case ws_pane_state (as_workspaces s ! ws_idx) i of
        None \<Rightarrow> (s, updates)
      | Some pane \<Rightarrow>
          (case hm_get (as_terminals s) tid of
             None \<Rightarrow> (s, updates)
           | Some trm \<Rightarrow>
               (let (t1, m) = expire_agent_metadata_at trm scheduled_deadline now;
                    s1 = s\<lparr>as_terminals := hm_insert (as_terminals s) tid t1\<rparr>
                in (case Option.bind m tm_effective_state_change of
                      None \<Rightarrow> (s1, updates)
                    | Some c \<Rightarrow>
                        (case apply_pane_state_change fallback_label s1 ws_idx i c now of
                           (s2, None) \<Rightarrow> (s2, updates)
                         | (s2, Some seen) \<Rightarrow>
                             (s2, updates @ [state_update i ws_idx (ps_seen pane) c seen False False])))))))"

definition session_expire_agent_metadata_at ::
  "(rstr \<Rightarrow> rstr) \<Rightarrow> app_state \<Rightarrow> instant \<Rightarrow> instant \<Rightarrow> app_state \<times> pane_state_update list" where
  "session_expire_agent_metadata_at fallback_label s scheduled_deadline now =
     foldl (expire_metadata_of_pane fallback_label scheduled_deadline now) (s, []) (pane_terminals s)"

definition session_next_agent_metadata_expiry :: "app_state \<Rightarrow> instant \<Rightarrow> instant option" where
  "session_next_agent_metadata_expiry s now =
     min_by_key id (List.map_filter (\<lambda>(_, t). next_agent_metadata_expiry t now) (as_terminals s)
       @ List.map_filter (\<lambda>(_, t). tokens_next_expiry (ts_metadata_tokens t)) (as_terminals s)
       @ List.map_filter (\<lambda>w. tokens_next_expiry (ws_metadata_tokens w)) (as_workspaces s))"

definition expire_tokens_of_pane ::
  "instant \<Rightarrow> app_state \<times> (nat \<times> pane_id) list \<Rightarrow> nat \<times> pane_id \<times> rstr \<Rightarrow> app_state \<times> (nat \<times> pane_id) list" where
  "expire_tokens_of_pane now = (\<lambda>(s, changed) (ws_idx, i, tid).
     (case hm_get (as_terminals s) tid of
        None \<Rightarrow> (s, changed)
      | Some trm \<Rightarrow>
          (let (tokens, expired) = tokens_expire_at (ts_metadata_tokens trm) now;
               trm1 = trm\<lparr>ts_metadata_tokens := tokens\<rparr>;
               trm2 = (if expired then trm1\<lparr>ts_revision := saturating_add (ts_revision trm1) 1\<rparr> else trm1)
           in (s\<lparr>as_terminals := hm_insert (as_terminals s) tid trm2\<rparr>,
               if expired then changed @ [(ws_idx, i)] else changed))))"

definition session_expire_metadata_tokens :: "app_state \<Rightarrow> instant \<Rightarrow> app_state \<times> (nat \<times> pane_id) list \<times> nat list" where
  "session_expire_metadata_tokens s now =
     (let (s1, changed_panes) = foldl (expire_tokens_of_pane now) (s, []) (pane_terminals s);
          expired = map (\<lambda>w. tokens_expire_at (ws_metadata_tokens w) now) (as_workspaces s1)
      in (s1\<lparr>as_workspaces := map2 (\<lambda>w e. w\<lparr>ws_metadata_tokens := fst e\<rparr>) (as_workspaces s1) expired\<rparr>,
          changed_panes, map fst (filter (\<lambda>(_, e). snd e) (enumerate 0 expired))))"

end
