(* ===== verification/SessionApi.thy ===== *)
theory SessionApi
  imports Session AppEvents
begin

section \<open>Handles of the session\<close>

text \<open>
  The model of \<open>src/src/app/ids.rs\<close>: how workspaces, tabs and panes are named to the outside and
  how a name is resolved, with the older forms \<open>w_1\<close>, \<open>t_1_2\<close>, \<open>p_3\<close>, \<open>1-2\<close> still accepted. The
  numbers of those forms are read by \<open>str::parse\<close>, which takes a leading plus sign and refuses
  what does not fit.
\<close>

subsection \<open>Strings and numbers of the standard library\<close>

definition parse_usize :: "rstr \<Rightarrow> nat option" where
  "parse_usize s = parse_unsigned (2 ^ 64) s"

definition parse_u32 :: "rstr \<Rightarrow> u32 option" where
  "parse_u32 s = map_option of_nat (parse_unsigned (2 ^ 32) s)"

text \<open>\<open>rsplit_once\<close> with a non-empty pattern: the last occurrence counts.\<close>

fun rsplit_once :: "rstr \<Rightarrow> rstr \<Rightarrow> (rstr \<times> rstr) option" where
  "rsplit_once pat [] = None"
| "rsplit_once pat (c # cs) =
     (case rsplit_once pat cs of
        Some (a, b) \<Rightarrow> Some (c # a, b)
      | None \<Rightarrow> if prefix pat (c # cs) then Some ([], drop (length pat) (c # cs)) else None)"

subsection \<open>Naming\<close>

definition session_public_tab_id :: "app_state \<Rightarrow> nat \<Rightarrow> nat \<Rightarrow> rstr option" where
  "session_public_tab_id s ws_idx tab_idx =
     Option.bind (get_workspace s ws_idx)
       (\<lambda>w. map_option (public_tab_id_for_number (ws_id w)) (public_tab_number w tab_idx))"

definition session_public_pane_id :: "app_state \<Rightarrow> nat \<Rightarrow> pane_id \<Rightarrow> rstr option" where
  "session_public_pane_id s ws_idx i =
     Option.bind (get_workspace s ws_idx)
       (\<lambda>w. map_option (public_pane_id_for_number (ws_id w)) (public_pane_number w i))"

text \<open>\<open>public_workspace_id\<close> indexes the workspaces: out of range it panics, the result \<open>None\<close>.\<close>

definition session_public_workspace_id :: "app_state \<Rightarrow> nat \<Rightarrow> rstr option" where
  "session_public_workspace_id s ws_idx = map_option ws_id (get_workspace s ws_idx)"

definition pane_launch_env_for :: "app_state \<Rightarrow> nat \<Rightarrow> pane_id \<Rightarrow> (rstr \<times> rstr) list \<Rightarrow> pane_launch_env option option" where
  "pane_launch_env_for s ws_idx i extra_env =
     map_option (\<lambda>workspace_id.
       Option.bind (get_workspace s ws_idx) (\<lambda>w. Option.bind (find_tab_index_for_pane w i) (\<lambda>tab_idx.
         Option.bind (session_public_tab_id s ws_idx tab_idx) (\<lambda>tab_id.
           map_option (with_identity (launch_env_from_extra extra_env) workspace_id tab_id)
             (session_public_pane_id s ws_idx i)))))
       (session_public_workspace_id s ws_idx)"

subsection \<open>Resolving\<close>

definition parse_workspace_id :: "app_state \<Rightarrow> rstr \<Rightarrow> nat option" where
  "parse_workspace_id s i =
     or_else (or_else (position (\<lambda>w. ws_id w = i) (as_workspaces s))
        (Option.bind (Option.bind (strip_prefix ''w_'' i) parse_usize) (\<lambda>n. nat_checked_sub n 1)))
        (Option.bind (parse_usize i) (\<lambda>n. nat_checked_sub n 1))"

definition parse_tab_id :: "app_state \<Rightarrow> rstr \<Rightarrow> (nat \<times> nat) option" where
  "parse_tab_id s i =
     (case strip_prefix ''t_'' i of
        Some rest \<Rightarrow>
          Option.bind (rsplit_once ''_'' rest) (\<lambda>(ws_raw, tab_raw).
            Option.bind (parse_workspace_id s ws_raw) (\<lambda>ws_idx.
              Option.bind (Option.bind (parse_usize tab_raw) (\<lambda>n. nat_checked_sub n 1)) (\<lambda>tab_idx.
                map_option (\<lambda>_. (ws_idx, tab_idx)) (get_tab s ws_idx tab_idx))))
      | None \<Rightarrow>
          Option.bind (rsplit_once '':'' i) (\<lambda>(ws_raw, tab_raw).
            Option.bind (parse_workspace_id s ws_raw) (\<lambda>ws_idx.
              Option.bind (case strip_prefix ''t'' tab_raw of
                  Some encoded \<Rightarrow>
                    Option.bind (decode_public_number encoded) (\<lambda>tab_num.
                      Option.bind (get_workspace s ws_idx) (\<lambda>w. position (\<lambda>t. tab_number t = tab_num) (ws_tabs w)))
                | None \<Rightarrow> Option.bind (parse_usize tab_raw) (\<lambda>n. nat_checked_sub n 1))
                (\<lambda>tab_idx. map_option (\<lambda>_. (ws_idx, tab_idx)) (get_tab s ws_idx tab_idx)))))"

definition resolve_raw_pane_id :: "app_state \<Rightarrow> u32 \<Rightarrow> pane_id option" where
  "resolve_raw_pane_id s raw =
     (case hm_get (as_pane_id_aliases s) raw of
        Some alias \<Rightarrow> map_option (\<lambda>_. alias) (find_pane s alias)
      | None \<Rightarrow> if find_pane s raw \<noteq> None then Some raw else None)"

text \<open>The pane with a public number: \<open>find_map\<close> over the map.\<close>

definition pane_with_number :: "workspace \<Rightarrow> usize \<Rightarrow> pane_id option" where
  "pane_with_number w n = find_map (\<lambda>(i, number). if number = n then Some i else None) (ws_public_pane_numbers w)"

definition parse_pane_id :: "app_state \<Rightarrow> rstr \<Rightarrow> (nat \<times> pane_id) option" where
  "parse_pane_id s i =
     (case hm_get (as_public_pane_id_aliases s) i of
        Some alias \<Rightarrow> map_option (\<lambda>(ws_idx, _). (ws_idx, alias)) (find_pane s alias)
      | None \<Rightarrow>
          (case strip_prefix ''p_'' i of
             Some rest \<Rightarrow>
               (case rsplit_once ''_'' rest of
                  Some (ws_raw, pane_raw) \<Rightarrow>
                    Option.bind (parse_workspace_id s ws_raw) (\<lambda>ws_idx.
                      Option.bind (Option.bind (parse_u32 pane_raw) (resolve_raw_pane_id s)) (\<lambda>pane.
                        Option.bind (get_workspace s ws_idx)
                          (\<lambda>w. map_option (\<lambda>_. (ws_idx, pane)) (ws_pane_state w pane))))
                | None \<Rightarrow>
                    Option.bind (Option.bind (parse_u32 rest) (resolve_raw_pane_id s)) (\<lambda>pane.
                      map_option (\<lambda>(ws_idx, _). (ws_idx, pane)) (find_pane s pane)))
           | None \<Rightarrow>
               (case rsplit_once '':p'' i of
                  Some (ws_raw, number_raw) \<Rightarrow>
                    Option.bind (parse_workspace_id s ws_raw) (\<lambda>ws_idx.
                      Option.bind (decode_public_number number_raw) (\<lambda>n.
                        Option.bind (get_workspace s ws_idx)
                          (\<lambda>w. map_option (\<lambda>pane. (ws_idx, pane)) (pane_with_number w n))))
                | None \<Rightarrow>
                    Option.bind (rsplit_once ''-'' i) (\<lambda>(ws_raw, number_raw).
                      Option.bind (parse_workspace_id s ws_raw) (\<lambda>ws_idx.
                        Option.bind (parse_usize number_raw) (\<lambda>n.
                          Option.bind (get_workspace s ws_idx)
                            (\<lambda>w. map_option (\<lambda>pane. (ws_idx, pane)) (pane_with_number w (of_nat n)))))))))"

definition parse_current_public_pane_id :: "app_state \<Rightarrow> rstr \<Rightarrow> (nat \<times> pane_id) option" where
  "parse_current_public_pane_id s i =
     Option.bind (parse_pane_id s i) (\<lambda>(ws_idx, pane).
       if session_public_pane_id s ws_idx pane = Some i then Some (ws_idx, pane) else None)"

section \<open>Requests of clients\<close>

text \<open>
  The request handlers of \<open>src/src/app/api/panes.rs\<close>, \<open>tabs.rs\<close>, \<open>workspaces.rs\<close> and
  \<open>src/src/app/creation.rs\<close> that change the session. A handler answers with an error code or a
  result, \<open>None\<close> is a panic. Building the snapshots of a response, the events sent to
  subscribers, plugin hooks and input leases are left out, but the conditions under which a
  snapshot exists are part of the control flow and are kept. The runtimes are the set of the
  terminals that have one; the working directory a new terminal falls back to and the clock
  readings are arguments.
\<close>

record app =
  ap_state :: app_state
  ap_runtimes :: "rstr list"
  ap_ids :: id_counters
  ap_next_workspace_id :: u64
  ap_no_session :: bool
  ap_session_save_deadline :: "instant option"

type_synonym 'r handled = "(app \<times> (rstr + 'r)) option"

subsection \<open>Shared steps\<close>

definition session_save_debounce :: duration where
  "session_save_debounce = 5 * 1000000000"

definition schedule_session_save :: "app \<Rightarrow> instant \<Rightarrow> app" where
  "schedule_session_save a now =
     (if \<not> ap_no_session a then a\<lparr>ap_session_save_deadline := Some (now + session_save_debounce)\<rparr> else a)"

definition insert_runtime :: "app \<Rightarrow> rstr \<Rightarrow> app" where
  "insert_runtime a tid = a\<lparr>ap_runtimes := List.insert tid (ap_runtimes a)\<rparr>"

definition shutdown_terminal_runtime :: "app \<Rightarrow> rstr \<Rightarrow> app" where
  "shutdown_terminal_runtime a tid = a\<lparr>ap_runtimes := removeAll tid (ap_runtimes a)\<rparr>"

definition shutdown_detached_terminal_runtimes :: "app \<Rightarrow> app" where
  "shutdown_detached_terminal_runtimes a =
     (let terminal_ids = as_terminal_runtime_shutdowns (ap_state a);
          a1 = a\<lparr>ap_state := (ap_state a)\<lparr>as_terminal_runtime_shutdowns := []\<rparr>\<rparr>
      in foldl shutdown_terminal_runtime a1 terminal_ids)"

text \<open>When \<open>pane_info\<close> and \<open>pane_layout_snapshot\<close> answer.\<close>

definition pane_info_exists :: "app_state \<Rightarrow> nat \<Rightarrow> pane_id \<Rightarrow> bool" where
  "pane_info_exists s ws_idx i =
     is_some_and (\<lambda>w.
         is_some_and (\<lambda>pane. hm_contains (as_terminals s) (ps_attached_terminal_id pane)) (ws_pane_state w i)
         \<and> is_some_and (\<lambda>tab_idx. session_public_tab_id s ws_idx tab_idx \<noteq> None) (find_tab_index_for_pane w i)
         \<and> session_public_pane_id s ws_idx i \<noteq> None)
       (get_workspace s ws_idx)"

definition layout_snapshot_exists :: "app_state \<Rightarrow> nat \<Rightarrow> nat \<Rightarrow> bool" where
  "layout_snapshot_exists s ws_idx tab_idx =
     is_some_and (\<lambda>t. session_public_pane_id s ws_idx (tl_focus (tab_layout t)) \<noteq> None
         \<and> session_public_tab_id s ws_idx tab_idx \<noteq> None)
       (get_tab s ws_idx tab_idx)"

definition resolve_optional_pane :: "app_state \<Rightarrow> rstr option \<Rightarrow> (nat \<times> pane_id) option" where
  "resolve_optional_pane s p =
     (case p of
        Some i \<Rightarrow> parse_pane_id s i
      | None \<Rightarrow> Option.bind (as_active s) (\<lambda>ws_idx.
          Option.bind (get_workspace s ws_idx) (\<lambda>w. map_option (\<lambda>i. (ws_idx, i)) (focused_pane_id w))))"

subsection \<open>Launch environments\<close>

text \<open>The key must not be empty and must not hold \<open>=\<close> or a zero byte, nor the value a zero byte.\<close>

definition valid_env_entry :: "rstr \<times> rstr \<Rightarrow> bool" where
  "valid_env_entry = (\<lambda>(key, val). key \<noteq> [] \<and> CHR ''='' \<notin> set key \<and> CHR 0x00 \<notin> set key \<and> CHR 0x00 \<notin> set val)"

fun rstr_le :: "rstr \<Rightarrow> rstr \<Rightarrow> bool" where
  "rstr_le [] _ = True"
| "rstr_le (_ # _) [] = False"
| "rstr_le (a # as) (b # bs) = (byte a < byte b \<or> byte a = byte b \<and> rstr_le as bs)"

fun insert_env :: "rstr \<times> rstr \<Rightarrow> (rstr \<times> rstr) list \<Rightarrow> (rstr \<times> rstr) list" where
  "insert_env e [] = [e]"
| "insert_env e (f # es) = (if rstr_le (fst e) (fst f) then e # f # es else f # insert_env e es)"

definition normalize_launch_env :: "(rstr, rstr) hmap \<Rightarrow> rstr + (rstr \<times> rstr) list" where
  "normalize_launch_env env =
     (if list_all valid_env_entry env then Inr (foldr insert_env env []) else Inl ''invalid_env'')"

subsection \<open>Creating a workspace, a tab, a pane\<close>

definition create_workspace_with_launch_env ::
  "spawner \<Rightarrow> (rstr \<Rightarrow> rstr) \<Rightarrow> app \<Rightarrow> rstr \<Rightarrow> bool \<Rightarrow> (rstr \<times> rstr) list \<Rightarrow> nat \<Rightarrow> instant \<Rightarrow> app \<times> (rstr + nat)" where
  "create_workspace_with_launch_env spawn discover a initial_cwd fcs extra_env micros now =
     (case ws_new_with_tab spawn discover initial_cwd LoginShell extra_env micros (ap_ids a) (ap_next_workspace_id a) of
        (Inl err, ids', next') \<Rightarrow> (a\<lparr>ap_ids := ids', ap_next_workspace_id := next'\<rparr>, Inl err)
      | (Inr (w, trm), ids', next') \<Rightarrow>
          (let a1 = insert_runtime (a\<lparr>ap_ids := ids', ap_next_workspace_id := next'\<rparr>) (ts_id trm);
               s1 = (ap_state a1)\<lparr>as_terminals := hm_insert (as_terminals (ap_state a1)) (ts_id trm) trm,
                                  as_workspaces := as_workspaces (ap_state a1) @ [w]\<rparr>;
               idx = length (as_workspaces s1) - 1;
               s2 = remove_alias_shadowed_by_new_pane s1 (tab_root_pane (hd (ws_tabs w)));
               s3 = (if fcs \<or> as_active s2 = None then switch_workspace s2 idx else s2)
           in (schedule_session_save (a1\<lparr>ap_state := s3\<rparr>) now, Inr idx)))"

definition handle_workspace_create ::
  "spawner \<Rightarrow> (rstr \<Rightarrow> rstr) \<Rightarrow> app \<Rightarrow> rstr \<Rightarrow> bool \<Rightarrow> rstr option \<Rightarrow> (rstr, rstr) hmap \<Rightarrow> nat \<Rightarrow> instant \<Rightarrow> nat handled" where
  "handle_workspace_create spawn discover a cwd fcs label env micros now =
     (case normalize_launch_env env of
        Inl code \<Rightarrow> Some (a, Inl code)
      | Inr extra_env \<Rightarrow>
          (case create_workspace_with_launch_env spawn discover a cwd fcs extra_env micros now of
             (a1, Inl err) \<Rightarrow> Some (a1, Inl ''workspace_create_failed'')
           | (a1, Inr idx) \<Rightarrow>
               (let s1 = ap_state a1;
                    s2 = (case label of
                       None \<Rightarrow> s1
                     | Some l \<Rightarrow> (case get_workspace s1 idx of
                          None \<Rightarrow> s1 | Some w \<Rightarrow> put_workspace s1 idx (ws_set_custom_name w l)))
                in Some (a1\<lparr>ap_state := s2\<rparr>, Inr idx))))"

text \<open>Without a workspace in the request the active one is meant.\<close>

definition handle_tab_create ::
  "spawner \<Rightarrow> app \<Rightarrow> rstr option \<Rightarrow> rstr \<Rightarrow> bool \<Rightarrow> rstr option \<Rightarrow> (rstr, rstr) hmap \<Rightarrow> nat \<Rightarrow> instant \<Rightarrow>
   (nat \<times> nat) handled" where
  "handle_tab_create spawn a workspace_id cwd fcs label env micros now =
     (case (case workspace_id of Some i \<Rightarrow> parse_workspace_id (ap_state a) i | None \<Rightarrow> as_active (ap_state a)) of
        None \<Rightarrow> Some (a, Inl ''workspace_not_found'')
      | Some ws_idx \<Rightarrow>
          (case normalize_launch_env env of
             Inl code \<Rightarrow> Some (a, Inl code)
           | Inr extra_env \<Rightarrow>
               (case get_workspace (ap_state a) ws_idx of
                  None \<Rightarrow> Some (a, Inl ''tab_create_failed'')
                | Some w \<Rightarrow>
                    (case create_tab_with_runtime spawn w cwd LoginShell extra_env micros (ap_ids a) of
                       None \<Rightarrow> None
                     | Some (Inl err, w1, ids') \<Rightarrow>
                         Some (a\<lparr>ap_state := put_workspace (ap_state a) ws_idx w1, ap_ids := ids'\<rparr>, Inl ''tab_create_failed'')
                     | Some (Inr (tab_idx, trm), w1, ids') \<Rightarrow>
                         (let a1 = insert_runtime (a\<lparr>ap_state := put_workspace (ap_state a) ws_idx w1, ap_ids := ids'\<rparr>) (ts_id trm);
                              s1 = (ap_state a1)\<lparr>as_terminals := hm_insert (as_terminals (ap_state a1)) (ts_id trm) trm\<rparr>;
                              s2 = remove_alias_shadowed_by_new_pane s1 (tab_root_pane (ws_tabs w1 ! tab_idx));
                              s3 = (case label of
                                 None \<Rightarrow> s2
                               | Some l \<Rightarrow> update_tab s2 ws_idx tab_idx (\<lambda>t. tab_set_custom_name t l));
                              s4 = (if fcs then fst (switch_workspace_tab s3 ws_idx tab_idx) else s3)
                          in Some (schedule_session_save (a1\<lparr>ap_state := s4\<rparr>) now, Inr (ws_idx, tab_idx)))))))"

definition set_right_click_passthrough :: "workspace \<Rightarrow> pane_id \<Rightarrow> bool \<Rightarrow> workspace" where
  "set_right_click_passthrough w i b =
     (case find_tab_index_for_pane w i of
        None \<Rightarrow> w
      | Some idx \<Rightarrow>
          (case hm_get (tab_panes (ws_tabs w ! idx)) i of
             None \<Rightarrow> w
           | Some pane \<Rightarrow> w\<lparr>ws_tabs := (ws_tabs w)[idx := (ws_tabs w ! idx)\<lparr>tab_panes :=
               hm_insert (tab_panes (ws_tabs w ! idx)) i (pane\<lparr>ps_right_click_passthrough := b\<rparr>)\<rparr>]\<rparr>))"

definition split_target :: "app_state \<Rightarrow> rstr option \<Rightarrow> rstr option \<Rightarrow> (nat \<times> pane_id) option" where
  "split_target s target_pane_id workspace_id =
     (case target_pane_id of
        Some p \<Rightarrow> parse_pane_id s p
      | None \<Rightarrow>
          Option.bind (case workspace_id of Some i \<Rightarrow> parse_workspace_id s i | None \<Rightarrow> as_active s) (\<lambda>ws_idx.
            Option.bind (get_workspace s ws_idx) (\<lambda>w. map_option (\<lambda>i. (ws_idx, i)) (focused_pane_id w))))"

definition handle_pane_split ::
  "spawner \<Rightarrow> app \<Rightarrow> rstr option \<Rightarrow> rstr option \<Rightarrow> direction \<Rightarrow> f32 option \<Rightarrow> rstr \<Rightarrow> bool \<Rightarrow> bool \<Rightarrow>
   (rstr, rstr) hmap \<Rightarrow> nat \<Rightarrow> instant \<Rightarrow> (nat \<times> pane_id) handled" where
  "handle_pane_split spawn a target_pane_id workspace_id d ratio cwd fcs right_click_pane env micros now =
     (case split_target (ap_state a) target_pane_id workspace_id of
        None \<Rightarrow> Some (a, Inl ''pane_not_found'')
      | Some (ws_idx, target) \<Rightarrow>
          (case normalize_launch_env env of
             Inl code \<Rightarrow> Some (a, Inl code)
           | Inr extra_env \<Rightarrow>
               (let previous_focus = current_pane_focus_target (ap_state a)
                in (case get_workspace (ap_state a) ws_idx of
                      None \<Rightarrow> Some (a, Inl ''pane_not_found'')
                    | Some w \<Rightarrow>
                        (case ws_split_pane_with_runtime spawn w target d ratio (Some cwd) None extra_env fcs
                                LoginShell micros (ap_ids a) of
                           None \<Rightarrow> None
                         | Some (None, w1, ids') \<Rightarrow> Some (a\<lparr>ap_state := put_workspace (ap_state a) ws_idx w1, ap_ids := ids'\<rparr>, Inl ''pane_not_found'')
                         | Some (Some (Inl err), w1, ids') \<Rightarrow>
                             Some (a\<lparr>ap_state := put_workspace (ap_state a) ws_idx w1, ap_ids := ids'\<rparr>,
                                   Inl ''pane_split_failed'')
                         | Some (Some (Inr (tab_idx, np)), w1, ids') \<Rightarrow>
                             (let s1 = put_workspace (ap_state a) ws_idx
                                    (set_right_click_passthrough w1 (np_pane_id np) right_click_pane);
                                  s2 = (if fcs then record_pane_focus_change (fst (switch_workspace_tab s1 ws_idx tab_idx))
                                          previous_focus ws_idx (np_pane_id np) else s1);
                                  a1 = insert_runtime (a\<lparr>ap_ids := ids'\<rparr>) (ts_id (np_terminal np));
                                  s3 = remove_alias_shadowed_by_new_pane s2 (np_pane_id np);
                                  s4 = s3\<lparr>as_terminals := hm_insert (as_terminals s3) (ts_id (np_terminal np)) (np_terminal np)\<rparr>
                              in if \<not> pane_info_exists s4 ws_idx (np_pane_id np) then None
                                 else Some (schedule_session_save (a1\<lparr>ap_state := s4\<rparr>) now, Inr (ws_idx, np_pane_id np))))))))"

end
