(* ===== verification/SessionHandlers.thy ===== *)
theory SessionHandlers
  imports SessionApi LayoutGeometry
begin

section \<open>Requests that close, focus and rearrange\<close>

text \<open>
  The handlers of \<open>src/src/app/api\<close> that take panes, tabs and workspaces away, move the focus and
  rearrange what is there. The area of the terminal view and \<open>Rect::new\<close> are arguments where
  neighbours are looked up.
\<close>

subsection \<open>Closing\<close>

definition api_close_pane :: "app \<Rightarrow> rstr \<Rightarrow> instant \<Rightarrow> unit handled" where
  "api_close_pane a target now =
     (case parse_pane_id (ap_state a) target of
        None \<Rightarrow> Some (a, Inl ''pane_not_found'')
      | Some (ws_idx, i) \<Rightarrow>
          (if session_public_pane_id (ap_state a) ws_idx i = None then Some (a, Inl ''pane_not_found'')
           else (case (if close_pane_would_close_workspace (ap_state a) ws_idx i
                       then confirm_implicit_worktree_group_close (ap_state a) ws_idx else (ap_state a, False)) of
                   (s1, True) \<Rightarrow> Some (a\<lparr>ap_state := s1\<rparr>, Inl ''confirmation_required'')
                 | (s1, False) \<Rightarrow>
                     (let terminal_id = terminal_id_for_pane s1 ws_idx i
                      in (case get_workspace s1 ws_idx of
                            None \<Rightarrow> Some (a\<lparr>ap_state := s1\<rparr>, Inl ''pane_not_found'')
                          | Some w \<Rightarrow>
                              (case ws_close_pane w i of
                                 None \<Rightarrow> None
                               | Some (w1, should_close_workspace) \<Rightarrow>
                                   (let s2 = remove_plugin_pane_records (put_workspace s1 ws_idx w1) [i]
                                    in if should_close_workspace
                                       then Some (shutdown_detached_terminal_runtimes (a\<lparr>ap_state :=
                                              close_selected_workspace (s2\<lparr>as_selected := ws_idx\<rparr>)\<rparr>), Inr ())
                                       else Some (schedule_session_save (shutdown_detached_terminal_runtimes (a\<lparr>ap_state :=
                                              remove_unattached_terminal_ids s2
                                                (case terminal_id of Some tid \<Rightarrow> [tid] | None \<Rightarrow> [])\<rparr>)) now, Inr ()))))))))"

definition handle_tab_close :: "app \<Rightarrow> rstr \<Rightarrow> instant \<Rightarrow> unit handled" where
  "handle_tab_close a target now =
     (case parse_tab_id (ap_state a) target of
        None \<Rightarrow> Some (a, Inl ''tab_not_found'')
      | Some (ws_idx, tab_idx) \<Rightarrow>
          (if session_public_tab_id (ap_state a) ws_idx tab_idx = None then Some (a, Inl ''tab_not_found'')
           else (case get_workspace (ap_state a) ws_idx of
                   None \<Rightarrow> Some (a, Inl ''tab_not_found'')
                 | Some w \<Rightarrow>
                     (let terminal_ids = terminal_ids_for_tab (ap_state a) ws_idx tab_idx;
                          is = (if tab_idx < length (ws_tabs w) then pane_ids (tab_layout (ws_tabs w ! tab_idx)) else [])
                      in if length (ws_tabs w) \<le> 1
                         then (case confirm_implicit_worktree_group_close (ap_state a) ws_idx of
                                 (s1, True) \<Rightarrow> Some (a\<lparr>ap_state := s1\<rparr>, Inl ''confirmation_required'')
                               | (s1, False) \<Rightarrow>
                                   Some (shutdown_detached_terminal_runtimes (a\<lparr>ap_state := remove_plugin_pane_records
                                           (close_selected_workspace (s1\<lparr>as_selected := ws_idx\<rparr>)) is\<rparr>), Inr ()))
                         else (case close_tab w tab_idx of
                                 (w1, False) \<Rightarrow>
                                   Some (a\<lparr>ap_state := put_workspace (ap_state a) ws_idx w1\<rparr>, Inl ''tab_close_failed'')
                               | (w1, True) \<Rightarrow>
                                   (let s1 = remove_unattached_terminal_ids (remove_plugin_pane_records
                                          (put_workspace (ap_state a) ws_idx w1) is) terminal_ids
                                    in Some (schedule_session_save (shutdown_detached_terminal_runtimes (a\<lparr>ap_state := s1\<rparr>)) now,
                                             Inr ())))))))"

definition handle_workspace_close :: "app \<Rightarrow> rstr \<Rightarrow> unit handled" where
  "handle_workspace_close a target =
     (case parse_workspace_id (ap_state a) target of
        None \<Rightarrow> Some (a, Inl ''workspace_not_found'')
      | Some index \<Rightarrow>
          (if get_workspace (ap_state a) index = None then Some (a, Inl ''workspace_not_found'')
           else (let is = pane_ids_for_workspace (ap_state a) index;
                     s1 = close_selected_workspace ((ap_state a)\<lparr>as_selected := index\<rparr>)
                 in Some (shutdown_detached_terminal_runtimes (a\<lparr>ap_state := remove_plugin_pane_records s1 is\<rparr>), Inr ()))))"

subsection \<open>Focus\<close>

definition handle_workspace_focus :: "app \<Rightarrow> rstr \<Rightarrow> nat handled" where
  "handle_workspace_focus a target =
     (case parse_workspace_id (ap_state a) target of
        None \<Rightarrow> Some (a, Inl ''workspace_not_found'')
      | Some index \<Rightarrow>
          (if get_workspace (ap_state a) index = None then Some (a, Inl ''workspace_not_found'')
           else Some (a\<lparr>ap_state := switch_workspace (ap_state a) index\<rparr>, Inr index)))"

text \<open>\<open>tab_info\<close> of an existing tab answers, so its \<open>unwrap\<close> does not panic.\<close>

definition handle_tab_focus :: "app \<Rightarrow> rstr \<Rightarrow> (nat \<times> nat) handled" where
  "handle_tab_focus a target =
     (case parse_tab_id (ap_state a) target of
        None \<Rightarrow> Some (a, Inl ''tab_not_found'')
      | Some (ws_idx, tab_idx) \<Rightarrow>
          Some (a\<lparr>ap_state := fst (switch_workspace_tab (ap_state a) ws_idx tab_idx)\<rparr>, Inr (ws_idx, tab_idx)))"

text \<open>\<open>workspaces[i]\<close> of a parsed pane handle: a panic when it is out of range.\<close>

definition tab_of_parsed_pane :: "app_state \<Rightarrow> nat \<times> pane_id \<Rightarrow> nat option option" where
  "tab_of_parsed_pane s = (\<lambda>(ws_idx, i). map_option (\<lambda>w. find_tab_index_for_pane w i) (get_workspace s ws_idx))"

definition handle_pane_focus :: "app \<Rightarrow> rstr \<Rightarrow> (nat \<times> pane_id) handled" where
  "handle_pane_focus a target =
     (case parse_pane_id (ap_state a) target of
        None \<Rightarrow> Some (a, Inl ''pane_not_found'')
      | Some (ws_idx, i) \<Rightarrow>
          (case tab_of_parsed_pane (ap_state a) (ws_idx, i) of
             None \<Rightarrow> None
           | Some None \<Rightarrow> Some (a, Inl ''pane_not_found'')
           | Some (Some _) \<Rightarrow>
               (let s1 = fst (mark_active_tab_seen (fst (focus_pane_in_workspace (ap_state a) ws_idx i)))
                in Some (a\<lparr>ap_state := s1\<rparr>,
                     if pane_info_exists s1 ws_idx i then Inr (ws_idx, i) else Inl ''pane_not_found''))))"

definition directional_pane_target ::
  "rect_new \<Rightarrow> rect \<Rightarrow> app_state \<Rightarrow> nat \<Rightarrow> nat \<Rightarrow> pane_id \<Rightarrow> nav_direction \<Rightarrow> pane_id option" where
  "directional_pane_target rn area s ws_idx tab_idx source nav =
     Option.bind (get_tab s ws_idx tab_idx) (\<lambda>t.
       (let panes = layout_panes rn (tab_layout t) area
        in Option.bind (find (\<lambda>p. pi_id p = source) panes) (\<lambda>p. find_in_direction p nav panes)))"

definition handle_pane_focus_direction ::
  "rect_new \<Rightarrow> rect \<Rightarrow> app \<Rightarrow> rstr option \<Rightarrow> nav_direction \<Rightarrow> bool handled" where
  "handle_pane_focus_direction rn area a target nav =
     (case resolve_optional_pane (ap_state a) target of
        None \<Rightarrow> Some (a, Inl ''pane_not_found'')
      | Some (ws_idx, source) \<Rightarrow>
          (case tab_of_parsed_pane (ap_state a) (ws_idx, source) of
             None \<Rightarrow> None
           | Some None \<Rightarrow> Some (a, Inl ''pane_not_found'')
           | Some (Some tab_idx) \<Rightarrow>
               (if session_public_pane_id (ap_state a) ws_idx source = None then Some (a, Inl ''pane_not_found'')
                else (let found = directional_pane_target rn area (ap_state a) ws_idx tab_idx source nav;
                          s1 = (case found of
                             None \<Rightarrow> ap_state a
                           | Some i \<Rightarrow> fst (switch_workspace_tab (fst (focus_pane_in_workspace (ap_state a) ws_idx i)) ws_idx tab_idx))
                      in Some (a\<lparr>ap_state := s1\<rparr>,
                           if layout_snapshot_exists s1 ws_idx tab_idx then Inr (found \<noteq> None)
                           else Inl ''pane_layout_unavailable'')))))"

definition handle_pane_zoom :: "app \<Rightarrow> rstr option \<Rightarrow> pane_zoom_command \<Rightarrow> instant \<Rightarrow> pane_zoom_outcome handled" where
  "handle_pane_zoom a target command now =
     (case resolve_optional_pane (ap_state a) target of
        None \<Rightarrow> Some (a, Inl ''pane_not_found'')
      | Some (ws_idx, i) \<Rightarrow>
          (case tab_of_parsed_pane (ap_state a) (ws_idx, i) of
             None \<Rightarrow> None
           | Some None \<Rightarrow> Some (a, Inl ''pane_not_found'')
           | Some (Some tab_idx) \<Rightarrow>
               (if session_public_pane_id (ap_state a) ws_idx i = None then Some (a, Inl ''pane_not_found'')
                else (case apply_pane_zoom (ap_state a) ws_idx i command of
                        (s1, None) \<Rightarrow> Some (a\<lparr>ap_state := s1\<rparr>, Inl ''pane_not_found'')
                      | (s1, Some outcome) \<Rightarrow>
                          (let a1 = a\<lparr>ap_state := s1\<rparr>;
                               a2 = (if zo_changed outcome \<or> zo_focus_changed outcome then schedule_session_save a1 now else a1)
                           in Some (a2, if layout_snapshot_exists s1 ws_idx tab_idx then Inr outcome
                                        else Inl ''pane_layout_unavailable''))))))"

subsection \<open>Rearranging\<close>

definition handle_tab_move :: "app \<Rightarrow> rstr \<Rightarrow> nat \<Rightarrow> instant \<Rightarrow> nat handled" where
  "handle_tab_move a target insert_index now =
     (case parse_tab_id (ap_state a) target of
        None \<Rightarrow> Some (a, Inl ''tab_not_found'')
      | Some (ws_idx, tab_idx) \<Rightarrow>
          (case get_workspace (ap_state a) ws_idx of
             None \<Rightarrow> Some (a, Inl ''tab_not_found'')
           | Some w \<Rightarrow>
               (if length (ws_tabs w) < insert_index then Some (a, Inl ''tab_move_failed'')
                else (let (w1, moved) = move_tab w tab_idx insert_index;
                          a1 = a\<lparr>ap_state := put_workspace (ap_state a) ws_idx w1\<rparr>
                      in Some (if moved then schedule_session_save a1 now else a1, Inr ws_idx)))))"

definition handle_tab_rename :: "app \<Rightarrow> rstr \<Rightarrow> rstr \<Rightarrow> instant \<Rightarrow> (nat \<times> nat) handled" where
  "handle_tab_rename a target label now =
     (case parse_tab_id (ap_state a) target of
        None \<Rightarrow> Some (a, Inl ''tab_not_found'')
      | Some (ws_idx, tab_idx) \<Rightarrow>
          (case get_tab (ap_state a) ws_idx tab_idx of
             None \<Rightarrow> Some (a, Inl ''tab_not_found'')
           | Some t \<Rightarrow>
               Some (schedule_session_save (a\<lparr>ap_state :=
                 update_tab (ap_state a) ws_idx tab_idx (\<lambda>t. tab_set_custom_name t label)\<rparr>) now, Inr (ws_idx, tab_idx))))"

definition handle_workspace_rename :: "app \<Rightarrow> rstr \<Rightarrow> rstr \<Rightarrow> instant \<Rightarrow> nat handled" where
  "handle_workspace_rename a target label now =
     (case parse_workspace_id (ap_state a) target of
        None \<Rightarrow> Some (a, Inl ''workspace_not_found'')
      | Some index \<Rightarrow>
          (case get_workspace (ap_state a) index of
             None \<Rightarrow> Some (a, Inl ''workspace_not_found'')
           | Some w \<Rightarrow>
               Some (schedule_session_save (a\<lparr>ap_state := put_workspace (ap_state a) index (ws_set_custom_name w label)\<rparr>) now,
                     Inr index)))"

definition handle_workspace_move :: "app \<Rightarrow> rstr \<Rightarrow> nat \<Rightarrow> nat handled" where
  "handle_workspace_move a target insert_index =
     (case parse_workspace_id (ap_state a) target of
        None \<Rightarrow> Some (a, Inl ''workspace_not_found'')
      | Some index \<Rightarrow>
          (if get_workspace (ap_state a) index = None then Some (a, Inl ''workspace_not_found'')
           else if length (as_workspaces (ap_state a)) < insert_index then Some (a, Inl ''workspace_move_failed'')
           else Some (a\<lparr>ap_state := fst (move_workspace (ap_state a) index insert_index)\<rparr>, Inr index)))"

text \<open>The requested workspaces by their ids, refusing one that is missing or named twice.\<close>

fun requested_ids :: "app_state \<Rightarrow> rstr list \<Rightarrow> rstr list \<Rightarrow> rstr + rstr list" where
  "requested_ids s acc [] = Inr acc"
| "requested_ids s acc (r # rs) =
     (case Option.bind (parse_workspace_id s r) (get_workspace s) of
        None \<Rightarrow> Inl ''workspace_not_found''
      | Some w \<Rightarrow> if ws_id w \<in> set acc then Inl ''workspace_move_block_failed''
                  else requested_ids s (acc @ [ws_id w]) rs)"

definition handle_workspace_move_block :: "app \<Rightarrow> rstr list \<Rightarrow> rstr option \<Rightarrow> bool handled" where
  "handle_workspace_move_block a requested before =
     (if requested = [] then Some (a, Inl ''workspace_move_block_failed'')
      else (case requested_ids (ap_state a) [] requested of
              Inl code \<Rightarrow> Some (a, Inl code)
            | Inr ids \<Rightarrow>
                (let finish = (\<lambda>before_id.
                       (let (s1, moved) = move_workspace_block (ap_state a) ids before_id
                        in Some (a\<lparr>ap_state := s1\<rparr>, Inr moved)))
                 in (case before of
                       None \<Rightarrow> finish None
                     | Some r \<Rightarrow>
                         (case Option.bind (parse_workspace_id (ap_state a) r) (get_workspace (ap_state a)) of
                            None \<Rightarrow> Some (a, Inl ''workspace_not_found'')
                          | Some w \<Rightarrow> if ws_id w \<in> set ids then Some (a, Inl ''workspace_move_block_failed'')
                                      else finish (Some (ws_id w)))))))"

definition handle_pane_input_set :: "app \<Rightarrow> rstr \<Rightarrow> bool \<Rightarrow> unit handled" where
  "handle_pane_input_set a target right_click_pane =
     (case parse_pane_id (ap_state a) target of
        None \<Rightarrow> Some (a, Inl ''pane_not_found'')
      | Some (ws_idx, i) \<Rightarrow>
          (case Option.bind (get_workspace (ap_state a) ws_idx) (\<lambda>w. map_option (\<lambda>_. w) (ws_pane_state w i)) of
             None \<Rightarrow> Some (a, Inl ''pane_not_found'')
           | Some w \<Rightarrow>
               Some (a\<lparr>ap_state := put_workspace (ap_state a) ws_idx (set_right_click_passthrough w i right_click_pane)\<rparr>, Inr ())))"

definition handle_pane_rename :: "app \<Rightarrow> rstr \<Rightarrow> rstr option \<Rightarrow> (nat \<times> pane_id) handled" where
  "handle_pane_rename a target label =
     (case parse_pane_id (ap_state a) target of
        None \<Rightarrow> Some (a, Inl ''pane_not_found'')
      | Some (ws_idx, i) \<Rightarrow>
          (case Option.bind (get_workspace (ap_state a) ws_idx) (\<lambda>w. ws_terminal_id w i) of
             None \<Rightarrow> Some (a, Inl ''pane_not_found'')
           | Some tid \<Rightarrow>
               (case hm_get (as_terminals (ap_state a)) tid of
                  None \<Rightarrow> Some (a, Inl ''pane_not_found'')
                | Some trm \<Rightarrow>
                    (let trm1 = (case map_option trim label of
                           Some l \<Rightarrow> if l \<noteq> [] then set_manual_label trm l else clear_manual_label trm
                         | None \<Rightarrow> clear_manual_label trm);
                         s1 = mark_session_dirty ((ap_state a)\<lparr>as_terminals := hm_insert (as_terminals (ap_state a)) tid trm1\<rparr>)
                     in if \<not> pane_info_exists s1 ws_idx i then None
                        else Some (a\<lparr>ap_state := s1\<rparr>, Inr (ws_idx, i))))))"

end
