(* ===== verification/PaneMove.thy ===== *)
theory PaneMove
  imports SessionHandlers
begin

section \<open>Moving a pane to another tab or workspace\<close>

text \<open>
  The model of \<open>handle_pane_move\<close> and \<open>recover_failed_pane_move\<close> in \<open>src/src/app/api/panes.rs\<close>. The
  destination is resolved and checked first, then the pane is taken out of its tab, its
  workspace is dropped when it became empty, and the pane is put where it goes; if that fails
  it is put back. The result of a handler is as for the other requests; \<open>None\<close> is a panic.
\<close>

datatype pane_move_destination =
    DestTab rstr "rstr option" direction "f32 option"
  | DestNewTab "rstr option" "rstr option"
  | DestNewWorkspace "rstr option" "rstr option"

datatype resolved_destination =
    ExistingTab rstr pane_id direction f32 bool
  | NewTab rstr "rstr option"
  | NewWorkspace "rstr option" "rstr option"

datatype pane_move_reason = ZoomedTab | SameTab

record pane_moved =
  pm_ws_idx :: nat
  pm_tab_idx :: nat
  pm_pane_id :: pane_id
  pm_previous_pane_id :: rstr
  pm_closed_workspace :: "rstr option"
  pm_closed_tab :: "rstr option"
  pm_created_tab :: bool
  pm_created_workspace :: bool

datatype pane_move_result = Unchanged pane_move_reason | Changed pane_moved

record recovery_context =
  rc_source_ws_idx :: nat
  rc_previous_workspace_id :: rstr
  rc_previous_workspace_label :: "rstr option"
  rc_previous_tab_label :: "rstr option"
  rc_previous_worktree_space :: "worktree_space_membership option"
  rc_identity_cwd :: rstr

subsection \<open>Resolving the destination\<close>

text \<open>An unchanged move is answered with the layouts of both tabs and the pane.\<close>

definition unchanged_move ::
  "app_state \<Rightarrow> pane_move_reason \<Rightarrow> nat \<times> nat \<times> pane_id \<Rightarrow> nat \<times> nat \<Rightarrow> rstr + pane_move_result" where
  "unchanged_move s reason = (\<lambda>(ws_idx, tab_idx, i) (target_ws, target_tab).
     (if \<not> layout_snapshot_exists s ws_idx tab_idx then Inl ''pane_layout_unavailable''
      else if \<not> layout_snapshot_exists s target_ws target_tab then Inl ''pane_layout_unavailable''
      else if \<not> pane_info_exists s ws_idx i then Inl ''pane_not_found''
      else Inr (Unchanged reason)))"

text \<open>Either an answer that ends the request, or where the pane is to go; \<open>None\<close> is a panic.\<close>

definition resolve_tab_destination ::
  "app_state \<Rightarrow> nat \<times> nat \<times> pane_id \<Rightarrow> rstr \<Rightarrow> rstr option \<Rightarrow> direction \<Rightarrow> f32 option \<Rightarrow>
   ((rstr + pane_move_result) + resolved_destination) option" where
  "resolve_tab_destination s source tab_id target_pane d ratio =
     (case parse_tab_id s tab_id of
        None \<Rightarrow> Some (Inl (Inl ''tab_not_found''))
      | Some (target_ws, target_tab) \<Rightarrow>
          (let (ws_idx, tab_idx, i) = source
           in if ws_idx = target_ws \<and> tab_idx = target_tab
              then Some (Inl (unchanged_move s SameTab source (ws_idx, tab_idx)))
              else (case get_tab s target_ws target_tab of
                 None \<Rightarrow> None
               | Some t \<Rightarrow>
                   (if tab_zoomed t then Some (Inl (unchanged_move s ZoomedTab source (target_ws, target_tab)))
                    else (let target = (case target_pane of
                               None \<Rightarrow> Some (Inr (tl_focus (tab_layout t)))
                             | Some raw \<Rightarrow>
                                 (case parse_pane_id s raw of
                                    None \<Rightarrow> Some (Inl ''target_pane_not_found'')
                                  | Some (pane_ws, p) \<Rightarrow>
                                      (case tab_of_parsed_pane s (pane_ws, p) of
                                         None \<Rightarrow> None
                                       | Some pane_tab \<Rightarrow>
                                           (if pane_ws \<noteq> target_ws \<or> pane_tab \<noteq> Some target_tab
                                            then Some (Inl ''target_pane_not_found'') else Some (Inr p)))))
                          in (case target of
                                None \<Rightarrow> None
                              | Some (Inl code) \<Rightarrow> Some (Inl (Inl code))
                              | Some (Inr p) \<Rightarrow>
                                  (case session_public_tab_id s target_ws target_tab of
                                     None \<Rightarrow> Some (Inl (Inl ''tab_not_found''))
                                   | Some target_tab_id \<Rightarrow>
                                       Some (Inr (ExistingTab target_tab_id p d
                                         (case ratio of Some r \<Rightarrow> r | None \<Rightarrow> f32_half) (ws_idx \<noteq> target_ws))))))))))"

definition resolve_destination ::
  "app_state \<Rightarrow> nat \<times> nat \<times> pane_id \<Rightarrow> rstr \<Rightarrow> pane_move_destination \<Rightarrow>
   ((rstr + pane_move_result) + resolved_destination) option" where
  "resolve_destination s source previous_workspace_id dest =
     (case dest of
        DestTab tab_id target_pane d ratio \<Rightarrow> resolve_tab_destination s source tab_id target_pane d ratio
      | DestNewTab workspace_id label \<Rightarrow>
          (case workspace_id of
             None \<Rightarrow> Some (Inr (NewTab previous_workspace_id label))
           | Some r \<Rightarrow>
               (case parse_workspace_id s r of
                  None \<Rightarrow> Some (Inl (Inl ''workspace_not_found''))
                | Some idx \<Rightarrow>
                    map_option (\<lambda>wid. Inr (NewTab wid label)) (session_public_workspace_id s idx)))
      | DestNewWorkspace label tab_label \<Rightarrow> Some (Inr (NewWorkspace label tab_label)))"

subsection \<open>Dropping an empty workspace, putting a pane back\<close>

definition drop_empty_source :: "app_state \<Rightarrow> nat \<Rightarrow> app_state" where
  "drop_empty_source s k =
     (let s1 = s\<lparr>as_workspaces := remove_at k (as_workspaces s)\<rparr>;
          n = length (as_workspaces s1)
      in if as_workspaces s1 = [] then s1\<lparr>as_active := None, as_selected := 0\<rparr>
         else s1\<lparr>as_active := map_option (\<lambda>act. if act = k then min k (n - 1)
                                 else if k < act then act - 1 else act) (as_active s1),
                 as_selected := (if as_selected s1 = k then min k (n - 1)
                                 else if k < as_selected s1 then as_selected s1 - 1 else as_selected s1)\<rparr>)"

definition recover_failed_pane_move ::
  "(rstr \<Rightarrow> rstr) \<Rightarrow> app \<Rightarrow> recovery_context \<Rightarrow> moved_pane \<Rightarrow> instant \<Rightarrow> app option" where
  "recover_failed_pane_move discover a ctx moved now =
     (case parse_workspace_id (ap_state a) (rc_previous_workspace_id ctx) of
        Some ws_idx \<Rightarrow>
          (case get_workspace (ap_state a) ws_idx of
             None \<Rightarrow> None
           | Some w \<Rightarrow>
               Some (schedule_session_save (a\<lparr>ap_state := mark_session_dirty (put_workspace (ap_state a) ws_idx
                 (fst (create_tab_from_existing_pane w moved (rc_previous_tab_label ctx))))\<rparr>) now))
      | None \<Rightarrow>
          (let (w0, next') = ws_from_existing_pane discover (rc_previous_workspace_label ctx)
                 (rc_previous_tab_label ctx) (rc_identity_cwd ctx) moved (ap_next_workspace_id a);
               w = w0\<lparr>ws_id := rc_previous_workspace_id ctx, ws_worktree_space := rc_previous_worktree_space ctx\<rparr>;
               s = ap_state a;
               k = min (rc_source_ws_idx ctx) (length (as_workspaces s));
               s1 = s\<lparr>as_active := map_option (\<lambda>act. if k \<le> act then act + 1 else act) (as_active s),
                      as_selected := (if k \<le> as_selected s \<and> as_workspaces s \<noteq> [] then as_selected s + 1 else as_selected s)\<rparr>;
               s2 = s1\<lparr>as_workspaces := insert_at k w (as_workspaces s1)\<rparr>
           in Some (schedule_session_save (a\<lparr>ap_state := mark_session_dirty s2, ap_next_workspace_id := next'\<rparr>) now)))"

subsection \<open>The move\<close>

text \<open>Where the pane went, or the pane itself when it could not be put there.\<close>

definition place_moved_pane ::
  "(rstr \<Rightarrow> rstr) \<Rightarrow> rstr \<Rightarrow> app \<Rightarrow> resolved_destination \<Rightarrow> bool \<Rightarrow> rstr \<Rightarrow> moved_pane \<Rightarrow>
   (app \<times> (moved_pane + nat \<times> nat \<times> pane_id)) option" where
  "place_moved_pane discover current_dir a resolved fcs source_terminal_id moved =
     (case resolved of
        ExistingTab tab_id target d ratio _ \<Rightarrow>
          (case parse_tab_id (ap_state a) tab_id of
             None \<Rightarrow> Some (a, Inl moved)
           | Some (target_ws, target_tab) \<Rightarrow>
               (case get_workspace (ap_state a) target_ws of
                  None \<Rightarrow> None
                | Some w \<Rightarrow>
                    (case insert_moved_pane_into_tab w target_tab target moved d ratio fcs of
                       (w1, Inl m) \<Rightarrow> Some (a\<lparr>ap_state := put_workspace (ap_state a) target_ws w1\<rparr>, Inl m)
                     | (w1, Inr i) \<Rightarrow>
                         Some (a\<lparr>ap_state := put_workspace (ap_state a) target_ws w1\<rparr>, Inr (target_ws, target_tab, i)))))
      | NewTab workspace_id label \<Rightarrow>
          (case parse_workspace_id (ap_state a) workspace_id of
             None \<Rightarrow> Some (a, Inl moved)
           | Some target_ws \<Rightarrow>
               (case get_workspace (ap_state a) target_ws of
                  None \<Rightarrow> None
                | Some w \<Rightarrow>
                    (let (w1, tab_idx) = create_tab_from_existing_pane w moved label
                     in Some (a\<lparr>ap_state := put_workspace (ap_state a) target_ws w1\<rparr>,
                              Inr (target_ws, tab_idx, mp_pane_id moved)))))
      | NewWorkspace label tab_label \<Rightarrow>
          (let cwd = (case hm_get (as_terminals (ap_state a)) source_terminal_id of
                 Some trm \<Rightarrow> ts_cwd trm | None \<Rightarrow> current_dir);
               (w, next') = ws_from_existing_pane discover label tab_label cwd moved (ap_next_workspace_id a);
               s1 = (ap_state a)\<lparr>as_workspaces := as_workspaces (ap_state a) @ [w]\<rparr>
           in Some (a\<lparr>ap_state := s1, ap_next_workspace_id := next'\<rparr>,
                    Inr (length (as_workspaces s1) - 1, 0, mp_pane_id moved))))"

definition crosses_workspace :: "resolved_destination \<Rightarrow> rstr \<Rightarrow> bool" where
  "crosses_workspace resolved previous_workspace_id =
     (case resolved of
        ExistingTab _ _ _ _ cross \<Rightarrow> cross
      | NewTab workspace_id _ \<Rightarrow> workspace_id \<noteq> previous_workspace_id
      | NewWorkspace _ _ \<Rightarrow> True)"

text \<open>The pane leaves: its tab, the public numbers of its workspace, an empty workspace.\<close>

definition take_pane_out ::
  "app \<Rightarrow> nat \<Rightarrow> pane_id \<Rightarrow> rstr \<Rightarrow> bool \<Rightarrow> (app \<times> (taken_pane \<times> bool) option) option" where
  "take_pane_out a ws_idx i previous_pane_id cross =
     (case get_workspace (ap_state a) ws_idx of
        None \<Rightarrow> Some (a, None)
      | Some w \<Rightarrow>
          (case ws_take_pane_for_move w i of
             None \<Rightarrow> None
           | Some (w1, None) \<Rightarrow> Some (a\<lparr>ap_state := put_workspace (ap_state a) ws_idx w1\<rparr>, None)
           | Some (w1, Some taken) \<Rightarrow>
               (let s1 = put_workspace (ap_state a) ws_idx w1;
                    s2 = (if cross
                          then (put_workspace s1 ws_idx (unregister_moved_pane w1 i))\<lparr>as_public_pane_id_aliases :=
                                 hm_insert (as_public_pane_id_aliases s1) previous_pane_id i\<rparr>
                          else s1);
                    gone = (tp_workspace_empty taken \<and> cross);
                    s3 = (if gone then drop_empty_source s2 ws_idx else s2)
                in Some (a\<lparr>ap_state := s3\<rparr>, Some (taken, gone)))))"

definition finish_move ::
  "app \<Rightarrow> pane_focus_target option \<Rightarrow> bool \<Rightarrow> resolved_destination \<Rightarrow> nat \<times> nat \<times> pane_id \<Rightarrow> rstr \<Rightarrow>
   rstr option \<Rightarrow> rstr option \<Rightarrow> instant \<Rightarrow> pane_move_result handled" where
  "finish_move a previous_focus fcs resolved = (\<lambda>(target_ws, target_tab, i) previous_pane_id closed_workspace closed_tab now.
     (let s1 = (if fcs \<or> as_active (ap_state a) = None
                then record_pane_focus_change (fst (switch_workspace_tab (ap_state a) target_ws target_tab))
                       previous_focus target_ws i
                else ap_state a);
          s2 = mark_session_dirty (remove_alias_shadowed_by_new_pane s1 i);
          a1 = schedule_session_save (a\<lparr>ap_state := s2\<rparr>) now
      in Some (a1,
           if \<not> pane_info_exists s2 target_ws i then Inl ''pane_move_failed''
           else if \<not> layout_snapshot_exists s2 target_ws target_tab then Inl ''pane_layout_unavailable''
           else Inr (Changed \<lparr>pm_ws_idx = target_ws, pm_tab_idx = target_tab, pm_pane_id = i,
                  pm_previous_pane_id = previous_pane_id, pm_closed_workspace = closed_workspace,
                  pm_closed_tab = closed_tab,
                  pm_created_tab = (case resolved of ExistingTab _ _ _ _ _ \<Rightarrow> False | _ \<Rightarrow> True),
                  pm_created_workspace = (case resolved of NewWorkspace _ _ \<Rightarrow> True | _ \<Rightarrow> False)\<rparr>))))"

text \<open>The checked part of a request: the source, its ids and where it goes.\<close>

record checked_move =
  cm_ws_idx :: nat
  cm_tab_idx :: nat
  cm_pane :: pane_id
  cm_previous_pane_id :: rstr
  cm_previous_workspace_id :: rstr
  cm_previous_tab_id :: rstr
  cm_terminal_id :: rstr
  cm_context :: recovery_context
  cm_resolved :: resolved_destination

definition check_pane_move ::
  "app_state \<Rightarrow> rstr \<Rightarrow> pane_move_destination \<Rightarrow> ((rstr + pane_move_result) + checked_move) option" where
  "check_pane_move s pane_handle dest =
     (case parse_pane_id s pane_handle of
        None \<Rightarrow> Some (Inl (Inl ''pane_not_found''))
      | Some (ws_idx, i) \<Rightarrow>
          (case get_workspace s ws_idx of
             None \<Rightarrow> None
           | Some w \<Rightarrow>
               (case find_tab_index_for_pane w i of
                  None \<Rightarrow> Some (Inl (Inl ''pane_not_found''))
                | Some tab_idx \<Rightarrow>
                    (let t = ws_tabs w ! tab_idx;
                         previous_pane_id = (case session_public_pane_id s ws_idx i of Some p \<Rightarrow> p | None \<Rightarrow> pane_handle)
                     in (case session_public_tab_id s ws_idx tab_idx of
                           None \<Rightarrow> Some (Inl (Inl ''tab_not_found''))
                         | Some previous_tab_id \<Rightarrow>
                             (case tab_terminal_id t i of
                                None \<Rightarrow> Some (Inl (Inl ''pane_not_found''))
                              | Some tid \<Rightarrow>
                                  (if tab_zoomed t
                                   then Some (Inl (unchanged_move s ZoomedTab (ws_idx, tab_idx, i) (ws_idx, tab_idx)))
                                   else (case resolve_destination s (ws_idx, tab_idx, i) (ws_id w) dest of
                                           None \<Rightarrow> None
                                         | Some (Inl answer) \<Rightarrow> Some (Inl answer)
                                         | Some (Inr resolved) \<Rightarrow>
                                             Some (Inr \<lparr>cm_ws_idx = ws_idx, cm_tab_idx = tab_idx, cm_pane = i,
                                               cm_previous_pane_id = previous_pane_id,
                                               cm_previous_workspace_id = ws_id w, cm_previous_tab_id = previous_tab_id,
                                               cm_terminal_id = tid,
                                               cm_context = \<lparr>rc_source_ws_idx = ws_idx, rc_previous_workspace_id = ws_id w,
                                                 rc_previous_workspace_label = ws_custom_name w,
                                                 rc_previous_tab_label = tab_custom_name t,
                                                 rc_previous_worktree_space = ws_worktree_space w,
                                                 rc_identity_cwd = ws_identity_cwd w\<rparr>,
                                               cm_resolved = resolved\<rparr>)))))))))"

definition handle_pane_move ::
  "(rstr \<Rightarrow> rstr) \<Rightarrow> rstr \<Rightarrow> app \<Rightarrow> rstr \<Rightarrow> pane_move_destination \<Rightarrow> bool \<Rightarrow> instant \<Rightarrow> pane_move_result handled" where
  "handle_pane_move discover current_dir a pane_handle dest fcs now =
     (case check_pane_move (ap_state a) pane_handle dest of
        None \<Rightarrow> None
      | Some (Inl answer) \<Rightarrow> Some (a, answer)
      | Some (Inr m) \<Rightarrow>
          (let previous_focus = current_pane_focus_target (ap_state a);
               cross = crosses_workspace (cm_resolved m) (cm_previous_workspace_id m)
           in (case take_pane_out a (cm_ws_idx m) (cm_pane m) (cm_previous_pane_id m) cross of
                 None \<Rightarrow> None
               | Some (a1, None) \<Rightarrow> Some (a1, Inl ''pane_move_failed'')
               | Some (a1, Some (taken, gone)) \<Rightarrow>
                   (case place_moved_pane discover current_dir a1 (cm_resolved m) fcs (cm_terminal_id m) (tp_moved taken) of
                      None \<Rightarrow> None
                    | Some (a2, Inl moved) \<Rightarrow>
                        map_option (\<lambda>a3. (a3, Inl ''pane_move_failed''))
                          (recover_failed_pane_move discover a2 (cm_context m) moved now)
                    | Some (a2, Inr place) \<Rightarrow>
                        finish_move a2 previous_focus fcs (cm_resolved m) place (cm_previous_pane_id m)
                          (if gone then Some (cm_previous_workspace_id m) else None)
                          (map_option (\<lambda>_. cm_previous_tab_id m) (tp_removed_tab_idx taken)) now))))"

end
