(* ===== verification/SessionHandles.thy ===== *)
theory SessionHandles
  imports PaneMove WorkspaceRefine
begin

section \<open>The invariant of the session\<close>

text \<open>
  What holds between the parts of the session: every workspace is well formed, workspace ids,
  panes and terminals are each in one place only, the terminals are exactly those that a pane
  shows, the active and the selected workspace exist, and a runtime belongs to a terminal or
  is about to be shut down. The panes of all workspaces are one flat list of entries.
\<close>

definition all_entries :: "workspace list \<Rightarrow> (pane_id \<times> pane_state) list" where
  "all_entries ws = concat (map ws_entries ws)"

definition named_below :: "u64 \<Rightarrow> rstr \<Rightarrow> bool" where
  "named_below n i \<longleftrightarrow> (\<exists>k. 0 < k \<and> k < n \<and> i = fst (generate_workspace_id k))"

definition spaces_ok :: "id_counters \<Rightarrow> u64 \<Rightarrow> workspace list \<Rightarrow> bool" where
  "spaces_ok ids n ws \<longleftrightarrow> 0 < n \<and> (\<forall>w \<in> set ws. ws_inv w ids \<and> named_below n (ws_id w))
     \<and> distinct (map ws_id ws) \<and> distinct (map fst (all_entries ws)) \<and> distinct (tids (all_entries ws))"

definition terms_ok :: "app_state \<Rightarrow> bool" where
  "terms_ok s \<longleftrightarrow> hm_ok (as_terminals s) \<and> fst ` set (as_terminals s) = set (tids (all_entries (as_workspaces s)))"

definition cursor_ok :: "app_state \<Rightarrow> bool" where
  "cursor_ok s \<longleftrightarrow> (if as_workspaces s = [] then as_active s = None \<and> as_selected s = 0
     else is_some_and (\<lambda>a. a < length (as_workspaces s)) (as_active s) \<and> as_selected s < length (as_workspaces s))"

definition runtimes_ok :: "id_counters \<Rightarrow> rstr list \<Rightarrow> app_state \<Rightarrow> bool" where
  "runtimes_ok ids rs s \<longleftrightarrow> set rs = fst ` set (as_terminals s) \<union> set (as_terminal_runtime_shutdowns s)
     \<and> fst ` set (as_terminals s) \<inter> set (as_terminal_runtime_shutdowns s) = {}
     \<and> (\<forall>t \<in> set (as_terminal_runtime_shutdowns s). issued ids t)"

definition session_ok :: "id_counters \<Rightarrow> u64 \<Rightarrow> rstr list \<Rightarrow> app_state \<Rightarrow> bool" where
  "session_ok ids n rs s \<longleftrightarrow> spaces_ok ids n (as_workspaces s) \<and> terms_ok s \<and> cursor_ok s \<and> runtimes_ok ids rs s"

definition app_ok :: "app \<Rightarrow> bool" where
  "app_ok a \<longleftrightarrow> session_ok (ap_ids a) (ap_next_workspace_id a) (ap_runtimes a) (ap_state a)"

subsection \<open>The panes of all workspaces\<close>

lemma all_entries_simps [simp]:
  "all_entries [] = []" "all_entries (w # ws) = ws_entries w @ all_entries ws"
  "all_entries (ws @ vs) = all_entries ws @ all_entries vs"
  by (simp_all add: all_entries_def)

lemma tids_append [simp]: "tids (xs @ ys) = tids xs @ tids ys"
  by (simp add: tids_def)

lemma set_tids: "set (tids es) = (\<lambda>e. ps_attached_terminal_id (snd e)) ` set es"
  by (simp add: tids_def)

lemma mset_all_entries: "mset (all_entries ws) = sum_mset (image_mset (\<lambda>w. mset (ws_entries w)) (mset ws))"
  by (induction ws) simp_all

lemma set_all_entries: "set (all_entries ws) = (\<Union>w \<in> set ws. set (ws_entries w))"
  by (simp add: all_entries_def)

lemma ws_entries_subset: "idx < length ws \<Longrightarrow> set (ws_entries (ws ! idx)) \<subseteq> set (all_entries ws)"
  using nth_mem [of idx ws] unfolding set_all_entries by blast

lemma all_entries_split:
  assumes "idx < length ws"
  shows "mset (all_entries ws) = mset (ws_entries (ws ! idx) @ all_entries (remove_at idx ws))"
    "mset (all_entries (ws[idx := w'])) = mset (ws_entries w' @ all_entries (remove_at idx ws))"
  using mset_remove_at [OF assms] mset_update [OF assms, of w'] by (simp_all add: mset_all_entries)

lemma distinct_keys_mset:
  assumes "mset es = mset es'"
  shows "distinct (map fst es) \<longleftrightarrow> distinct (map fst es')" "distinct (tids es) \<longleftrightarrow> distinct (tids es')"
    "set es = set es'" "set (tids es) = set (tids es')"
proof -
  have d: "distinct (map f es) \<longleftrightarrow> distinct (map f es')" for f :: "_ \<Rightarrow> 'c"
    using assms by (intro distinct_mset_iff) (simp only: mset_map)
  show "distinct (map fst es) \<longleftrightarrow> distinct (map fst es')" by (rule d)
  show "distinct (tids es) \<longleftrightarrow> distinct (tids es')" unfolding tids_def by (rule d)
  show "set es = set es'" using assms by (rule mset_eq_setD)
  then show "set (tids es) = set (tids es')" by (simp add: set_tids)
qed

subsection \<open>Lists of workspaces\<close>

lemma ws_inv_mono:
  "ws_inv w ids \<Longrightarrow> ic_pane ids \<le> ic_pane ids' \<Longrightarrow> ic_terminal ids \<le> ic_terminal ids' \<Longrightarrow> ws_inv w ids'"
  by (auto simp: ws_inv_def intro: ids_below_mono)

definition ids_le :: "id_counters \<Rightarrow> id_counters \<Rightarrow> bool" where
  "ids_le ids ids' \<longleftrightarrow> ic_pane ids \<le> ic_pane ids' \<and> ic_terminal ids \<le> ic_terminal ids'"

lemma ids_le_refl [simp, intro]: "ids_le ids ids"
  by (simp add: ids_le_def)

lemma ws_inv_le: "ws_inv w ids \<Longrightarrow> ids_le ids ids' \<Longrightarrow> ws_inv w ids'"
  by (auto simp: ids_le_def intro: ws_inv_mono)

lemma ws_inv_distinct: "ws_inv w ids \<Longrightarrow> distinct (map fst (ws_entries w)) \<and> distinct (tids (ws_entries w))"
  by (simp add: ws_inv_def ws_wf_def ws_ok_def tabs_ok_def)

lemma spaces_ok_nth:
  assumes "spaces_ok ids n ws" "idx < length ws"
  shows "ws_inv (ws ! idx) ids" "named_below n (ws_id (ws ! idx))"
  using assms nth_mem by (auto simp: spaces_ok_def)

text \<open>A workspace changes: it keeps panes, loses some, or gains panes the session does not have.\<close>

lemma spaces_ok_put:
  assumes ok: "spaces_ok ids n ws" and idx: "idx < length ws" and w': "ws_inv w' ids'" "ws_id w' = ws_id (ws ! idx)"
    and le: "ids_le ids ids'"
    and panes: "fst ` set (ws_entries w') \<subseteq> fst ` set (ws_entries (ws ! idx)) \<union> - (fst ` set (all_entries ws))"
    and terms: "set (tids (ws_entries w')) \<subseteq> set (tids (ws_entries (ws ! idx))) \<union> - set (tids (all_entries ws))"
  shows "spaces_ok ids' n (ws[idx := w'])"
proof -
  let ?rest = "all_entries (remove_at idx ws)"
  note old = distinct_keys_mset [OF all_entries_split(1) [OF idx]]
    and new = distinct_keys_mset [OF all_entries_split(2) [OF idx, of w']]
  have "fst ` set (ws_entries (ws ! idx)) \<inter> fst ` set ?rest = {}"
    using ok old(1) by (simp add: spaces_ok_def)
  moreover have "fst ` set ?rest \<subseteq> fst ` set (all_entries ws)" using old(3) by auto
  ultimately have "fst ` set (ws_entries w') \<inter> fst ` set ?rest = {}" using panes by blast
  moreover have "set (tids (ws_entries (ws ! idx))) \<inter> set (tids ?rest) = {}"
    using ok old(2) by (simp add: spaces_ok_def)
  then have "set (tids (ws_entries w')) \<inter> set (tids ?rest) = {}" using terms old(4) by auto
  moreover have "distinct (map fst ?rest)" "distinct (tids ?rest)"
    using ok old(1,2) by (simp_all add: spaces_ok_def)
  ultimately have "distinct (map fst (all_entries (ws[idx := w'])))" "distinct (tids (all_entries (ws[idx := w'])))"
    using new(1,2) ws_inv_distinct [OF w'(1)] by auto
  moreover have "map ws_id (ws[idx := w']) = map ws_id ws"
    using map_update_same [of idx ws ws_id w'] idx w'(2) by simp
  moreover have "\<forall>w \<in> set (ws[idx := w']). ws_inv w ids' \<and> named_below n (ws_id w)"
    using ok w' spaces_ok_nth(2) [OF ok idx] ws_inv_le [OF _ le] set_update_subset_insert [of ws idx w']
    by (auto simp: spaces_ok_def)
  ultimately show ?thesis using ok by (simp add: spaces_ok_def)
qed

text \<open>Some of the workspaces, in any order.\<close>

lemma spaces_ok_sub:
  assumes ok: "spaces_ok ids n ws" and sub: "mset vs \<subseteq># mset ws"
  shows "spaces_ok ids n vs"
proof -
  from sub obtain us where us: "mset ws = mset (vs @ us)"
    by (metis ex_mset mset_append mset_subset_eq_exists_conv)
  have "mset (all_entries ws) = mset (all_entries (vs @ us))" using us by (simp only: mset_all_entries)
  from distinct_keys_mset(1,2) [OF this] ok
  have "distinct (map fst (all_entries vs))" "distinct (tids (all_entries vs))" by (simp_all add: spaces_ok_def)
  moreover have "mset (map ws_id ws) = mset (map ws_id (vs @ us))" using us by (simp only: mset_map)
  from distinct_mset_iff [OF this] ok have "distinct (map ws_id vs)" by (simp add: spaces_ok_def)
  moreover have "set vs \<subseteq> set ws" using us by (metis Un_upper1 mset_eq_setD set_append)
  ultimately show ?thesis using ok by (auto simp: spaces_ok_def)
qed

text \<open>A new workspace, wherever it is put.\<close>

lemma spaces_ok_new:
  assumes ok: "spaces_ok ids n ws" and vs: "mset vs = add_mset w (mset ws)" and w: "ws_inv w ids'"
    and le: "ids_le ids ids'" "n \<le> n'" and wid: "named_below n' (ws_id w)" "ws_id w \<notin> ws_id ` set ws"
    and fresh: "fst ` set (ws_entries w) \<inter> fst ` set (all_entries ws) = {}"
      "set (tids (ws_entries w)) \<inter> set (tids (all_entries ws)) = {}"
  shows "spaces_ok ids' n' vs"
proof -
  have "spaces_ok ids' n' (w # ws)"
    using ok w wid fresh ws_inv_distinct [OF w] ws_inv_le [OF _ le(1)] le(2)
    by (fastforce simp: spaces_ok_def named_below_def)
  then show ?thesis by (rule spaces_ok_sub) (simp add: vs)
qed

lemma named_below_fresh:
  assumes "named_below n i"
  shows "i \<noteq> fst (generate_workspace_id n)"
proof
  assume *: "i = fst (generate_workspace_id n)"
  obtain k where k: "0 < k" "k < n" "i = fst (generate_workspace_id k)" using assms by (auto simp: named_below_def)
  then have "encode_public_number k = encode_public_number n" using * by (simp add: generate_workspace_id_def)
  moreover have "k \<noteq> 0" "n \<noteq> 0" using k(1,2) by auto
  ultimately show False using encode_inj [of k n] k(2) by simp
qed

section \<open>Public handles name what they should\<close>

text \<open>
  In a session that keeps the invariant the id of a workspace, the handle of a tab and the
  handle of a pane resolve to what they name: generated ids start with \<open>w\<close>, so none of the
  older forms applies, an encoded number holds no colon, so the split is where it should be,
  and numbers are decoded to what was encoded.
\<close>

lemma strip_prefix_None [simp]: "\<not> prefix p s \<Longrightarrow> strip_prefix p s = None"
  by (simp add: strip_prefix_def)

lemma prefix_cons_not_in: "x \<in> set pat \<Longrightarrow> x \<notin> set s \<Longrightarrow> \<not> prefix pat s"
  by (auto dest: set_mono_prefix)

lemma rsplit_once_absent: "x \<in> set pat \<Longrightarrow> x \<notin> set s \<Longrightarrow> rsplit_once pat s = None"
proof (induction s)
  case (Cons a s)
  have "\<not> prefix pat (a # s)" using Cons.prems by (rule prefix_cons_not_in)
  with Cons show ?case by simp
qed simp

lemma rsplit_once_append:
  assumes "x \<notin> set b" "x \<notin> set ps"
  shows "rsplit_once (x # ps) (a @ (x # ps) @ b) = Some (a, b)"
proof (induction a)
  case Nil
  have "rsplit_once (x # ps) (ps @ b) = None" using assms by (intro rsplit_once_absent [of x]) auto
  then show ?case by simp
next
  case (Cons y a)
  then show ?case by simp
qed

lemma named_first: "named_below n i \<Longrightarrow> \<exists>e. i = CHR ''w'' # e"
  by (auto simp: named_below_def generate_workspace_id_def)

lemma named_no_parse: "named_below n i \<Longrightarrow> parse_usize i = None \<and> strip_prefix ''w_'' i = None"
proof -
  assume "named_below n i"
  then obtain k where i: "i = ''w'' @ encode_public_number k" by (auto simp: named_below_def generate_workspace_id_def)
  have "CHR ''_'' \<notin> set (encode_public_number k)"
    using encode_in_alphabet [of k] by (auto simp: public_id_alphabet_def)
  then have "\<not> prefix ''w_'' i" unfolding i by (auto dest: set_mono_prefix)
  moreover have "\<not> is_digit (CHR ''w'')" by (simp add: is_digit_def byte_def)
  ultimately show ?thesis by (simp add: i parse_usize_def parse_unsigned_def strip_prefix_def)
qed

lemma position_unique:
  assumes "distinct (map f xs)" "k < length xs"
  shows "position (\<lambda>x. f x = f (xs ! k)) xs = Some k"
proof -
  obtain j where j: "position (\<lambda>x. f x = f (xs ! k)) xs = Some j"
    using assms(2) nth_mem [OF assms(2)] by (cases "position (\<lambda>x. f x = f (xs ! k)) xs") auto
  from position_Some [OF j] assms have "j = k" by (metis length_map nth_eq_iff_index_eq nth_map)
  with j show ?thesis by simp
qed

lemma parse_workspace_named:
  assumes "distinct (map ws_id (as_workspaces s))" "k < length (as_workspaces s)"
  shows "parse_workspace_id s (ws_id (as_workspaces s ! k)) = Some k"
  using position_unique [OF assms] by (simp add: parse_workspace_id_def)

lemma parse_workspace_absent:
  assumes "named_below n i" "i \<notin> ws_id ` set (as_workspaces s)"
  shows "parse_workspace_id s i = None"
proof -
  have "position (\<lambda>w. ws_id w = i) (as_workspaces s) = None" using assms(2) by auto
  with named_no_parse [OF assms(1)] show ?thesis by (simp add: parse_workspace_id_def del: position_None)
qed

lemma colon_apart: "CHR '':'' \<noteq> CHR ''t''" "CHR '':'' \<noteq> CHR ''p''"
  by simp_all

lemma parse_tab_public:
  assumes ids: "distinct (map ws_id (as_workspaces s))" and k: "k < length (as_workspaces s)"
    and nm: "named_below n (ws_id (as_workspaces s ! k))"
    and idx: "idx < length (ws_tabs (as_workspaces s ! k))"
    and tabs: "distinct (map tab_number (ws_tabs (as_workspaces s ! k)))" "tab_number (ws_tabs (as_workspaces s ! k) ! idx) \<noteq> 0"
  shows "parse_tab_id s (public_tab_id_for_number (ws_id (as_workspaces s ! k)) (tab_number (ws_tabs (as_workspaces s ! k) ! idx)))
    = Some (k, idx)"
proof -
  let ?w = "as_workspaces s ! k" and ?e = "encode_public_number (tab_number (ws_tabs (as_workspaces s ! k) ! idx))"
  let ?h = "ws_id ?w @ '':t'' @ ?e"
  obtain e where w: "ws_id ?w = CHR ''w'' # e" using named_first [OF nm] by blast
  have "rsplit_once '':'' (ws_id ?w @ '':'' @ (''t'' @ ?e)) = Some (ws_id ?w, ''t'' @ ?e)"
    using encode_no_colon by (intro rsplit_once_append) auto
  then have "rsplit_once '':'' ?h = Some (ws_id ?w, ''t'' @ ?e)" by simp
  moreover have "strip_prefix ''t_'' ?h = None" by (simp add: w strip_prefix_def)
  moreover have "strip_prefix ''t'' (''t'' @ ?e) = Some ?e" by (simp add: strip_prefix_def)
  moreover have "position (\<lambda>t. tab_number t = tab_number (ws_tabs ?w ! idx)) (ws_tabs ?w) = Some idx"
    using position_unique [OF tabs(1) idx] .
  ultimately show ?thesis
    using parse_workspace_named [OF ids k] decode_encode [OF tabs(2)] k idx
    by (simp add: parse_tab_id_def public_tab_id_for_number_def get_workspace_def get_tab_def)
qed

lemma pane_with_number_registered:
  assumes "numbers_ok (ws_public_pane_numbers w) nxt" "public_pane_number w i = Some m"
  shows "pane_with_number w m = Some i"
proof -
  let ?ps = "ws_public_pane_numbers w"
  have mem: "(i, m) \<in> set ?ps" using assms(2) by (simp add: public_pane_number_def map_of_SomeD)
  have inj: "distinct (map snd ?ps)" using assms(1) by (simp add: numbers_ok_def)
  have "find_map (\<lambda>(i, number). if number = m then Some i else None) ps = Some i"
    if "(i, m) \<in> set ps" "distinct (map snd ps)" for ps
    using that by (induction ps) (force split: if_splits)+
  from this [OF mem inj] show ?thesis by (simp add: pane_with_number_def)
qed

lemma parse_pane_public:
  assumes ids: "distinct (map ws_id (as_workspaces s))" and k: "k < length (as_workspaces s)"
    and nm: "named_below n (ws_id (as_workspaces s ! k))"
    and num: "numbers_ok (ws_public_pane_numbers (as_workspaces s ! k)) nxt"
    and h: "session_public_pane_id s k i = Some h" and al: "hm_get (as_public_pane_id_aliases s) h = None"
  shows "parse_pane_id s h = Some (k, i)"
proof -
  let ?w = "as_workspaces s ! k"
  obtain m where m: "public_pane_number ?w i = Some m" "h = ws_id ?w @ '':p'' @ encode_public_number m"
    using h k by (auto simp: session_public_pane_id_def get_workspace_def public_pane_id_for_number_def)
  have "m \<noteq> 0" using num m(1) by (auto simp: numbers_ok_def public_pane_number_def dest: map_of_SomeD)
  obtain e where w: "ws_id ?w = CHR ''w'' # e" using named_first [OF nm] by blast
  have "strip_prefix ''p_'' h = None" by (simp add: m(2) w strip_prefix_def)
  moreover have "rsplit_once '':p'' h = Some (ws_id ?w, encode_public_number m)"
    unfolding m(2) using encode_no_colon by (intro rsplit_once_append) auto
  ultimately show ?thesis
    using parse_workspace_named [OF ids k] decode_encode [OF \<open>m \<noteq> 0\<close>] k al pane_with_number_registered [OF num m(1)]
    by (simp add: parse_pane_id_def get_workspace_def)
qed

end
