(* ===== verification/SessionSteps.thy ===== *)
theory SessionSteps
  imports SessionHandles
begin

section \<open>The operations on the session keep the invariant\<close>

text \<open>
  One lemma per operation of Session, Notifications and AppEvents: changes of focus, selection
  and order, updates of terminals, notifications and timers. The invariant looks at the
  workspaces, the terminals, the cursor and the runtimes to shut down; every other field of the
  state may change freely.
\<close>

subsection \<open>Fields the invariant does not see\<close>

lemma session_ok_cong:
  assumes "as_workspaces s' = as_workspaces s" "fst ` set (as_terminals s') = fst ` set (as_terminals s)"
    "hm_ok (as_terminals s')" "as_active s' = as_active s" "as_selected s' = as_selected s"
    "as_terminal_runtime_shutdowns s' = as_terminal_runtime_shutdowns s"
  shows "session_ok ids n rs s \<Longrightarrow> session_ok ids n rs s'"
proof -
  have "cursor_ok s' = cursor_ok s" by (simp add: cursor_ok_def assms)
  moreover have "runtimes_ok ids rs s' = runtimes_ok ids rs s" by (simp add: runtimes_ok_def assms)
  moreover have "terms_ok s \<Longrightarrow> terms_ok s'" using assms(3) by (simp add: terms_ok_def assms(1,2))
  ultimately show "session_ok ids n rs s \<Longrightarrow> session_ok ids n rs s'" by (simp add: session_ok_def assms(1))
qed

lemma session_ok_hm: "session_ok ids n rs s \<Longrightarrow> hm_ok (as_terminals s)"
  by (simp add: session_ok_def terms_ok_def)

lemma session_ok_fields [simp]:
  "session_ok ids n rs (s\<lparr>as_session_dirty := b\<rparr>) = session_ok ids n rs s"
  "session_ok ids n rs (s\<lparr>as_previous_pane_focus := f\<rparr>) = session_ok ids n rs s"
  "session_ok ids n rs (s\<lparr>as_pane_id_aliases := m\<rparr>) = session_ok ids n rs s"
  "session_ok ids n rs (s\<lparr>as_public_pane_id_aliases := k\<rparr>) = session_ok ids n rs s"
  "session_ok ids n rs (s\<lparr>as_toast := t\<rparr>) = session_ok ids n rs s"
  "session_ok ids n rs (s\<lparr>as_pending_agent_notifications := p\<rparr>) = session_ok ids n rs s"
  "session_ok ids n rs (s\<lparr>as_plugin_panes := q\<rparr>) = session_ok ids n rs s"
  "session_ok ids n rs (s\<lparr>as_next_agent_state_change_seq := c\<rparr>) = session_ok ids n rs s"
  "session_ok ids n rs (s\<lparr>as_update_available := u\<rparr>) = session_ok ids n rs s"
  "session_ok ids n rs (s\<lparr>as_update_install_command := v\<rparr>) = session_ok ids n rs s"
  "session_ok ids n rs (s\<lparr>as_latest_release_notes_available := b\<rparr>) = session_ok ids n rs s"
  "session_ok ids n rs (s\<lparr>as_update_dismissed := b\<rparr>) = session_ok ids n rs s"
  by (simp_all add: session_ok_def terms_ok_def cursor_ok_def runtimes_ok_def)

lemma session_ok_dirty [simp]: "session_ok ids n rs (mark_session_dirty s) = session_ok ids n rs s"
  by (simp add: mark_session_dirty_def)

lemma mark_session_dirty_fields [simp]:
  "as_workspaces (mark_session_dirty s) = as_workspaces s" "as_terminals (mark_session_dirty s) = as_terminals s"
  "as_active (mark_session_dirty s) = as_active s" "as_selected (mark_session_dirty s) = as_selected s"
  "as_terminal_runtime_shutdowns (mark_session_dirty s) = as_terminal_runtime_shutdowns s"
  "get_workspace (mark_session_dirty s) k = get_workspace s k"
  by (simp_all add: mark_session_dirty_def get_workspace_def)

lemma session_ok_shadowed [simp]: "session_ok ids n rs (remove_alias_shadowed_by_new_pane s i) = session_ok ids n rs s"
  by (simp add: remove_alias_shadowed_by_new_pane_def)

lemma session_ok_focus_recorded [simp]:
  "session_ok ids n rs (record_pane_focus_after_navigation s f) = session_ok ids n rs s"
  "session_ok ids n rs (record_pane_focus_change s f k i) = session_ok ids n rs s"
  by (simp_all add: record_pane_focus_after_navigation_def record_pane_focus_change_def Let_def split: option.split)

lemma session_ok_plugin_records [simp]:
  "session_ok ids n rs (remove_plugin_pane_records s is) = session_ok ids n rs s"
  by (simp add: remove_plugin_pane_records_def Let_def)

lemma session_ok_delivered [simp]:
  "session_ok ids n rs (apply_agent_notification_delivery s d) = session_ok ids n rs s"
  by (simp add: apply_agent_notification_delivery_def split: option.split)

lemma session_ok_update_toast [simp]: "session_ok ids n rs (update_toast s a b) = session_ok ids n rs s"
  by (simp add: update_toast_def)

lemma set_terminal_keys: "hm_get m k = Some v \<Longrightarrow> fst ` set (hm_insert m k u) = fst ` set m"
  using hm_get_Some_set [of m k v] by (force simp: dom_update_fst)

lemma session_ok_set_terminal:
  "session_ok ids n rs s \<Longrightarrow> hm_get (as_terminals s) tid = Some v
    \<Longrightarrow> session_ok ids n rs (s\<lparr>as_terminals := hm_insert (as_terminals s) tid t\<rparr>)"
  by (rule session_ok_cong) (simp_all add: set_terminal_keys session_ok_hm)

subsection \<open>The workspaces\<close>

lemma get_workspace_Some: "get_workspace s k = Some w \<longleftrightarrow> k < length (as_workspaces s) \<and> w = as_workspaces s ! k"
  by (auto simp: get_workspace_def)

lemma get_workspace_None: "get_workspace s k = None \<longleftrightarrow> length (as_workspaces s) \<le> k"
  by (simp add: get_workspace_def)

lemma put_workspace_fields [simp]:
  "as_workspaces (put_workspace s k w) = (as_workspaces s)[k := w]" "as_terminals (put_workspace s k w) = as_terminals s"
  "as_active (put_workspace s k w) = as_active s" "as_selected (put_workspace s k w) = as_selected s"
  "as_terminal_runtime_shutdowns (put_workspace s k w) = as_terminal_runtime_shutdowns s"
  by (simp_all add: put_workspace_def)

lemma session_ok_ws:
  "session_ok ids n rs s \<Longrightarrow> k < length (as_workspaces s) \<Longrightarrow> ws_inv (as_workspaces s ! k) ids"
  by (auto simp: session_ok_def intro: spaces_ok_nth)

lemma session_ok_put:
  assumes ok: "session_ok ids n rs s" and k: "k < length (as_workspaces s)"
    and w': "ws_inv w' ids" "ws_id w' = ws_id (as_workspaces s ! k)"
    and keys: "fst ` set (ws_entries w') = fst ` set (ws_entries (as_workspaces s ! k))"
      "set (tids (ws_entries w')) = set (tids (ws_entries (as_workspaces s ! k)))"
  shows "session_ok ids n rs (put_workspace s k w')"
proof -
  have "spaces_ok ids n ((as_workspaces s)[k := w'])"
    using ok keys by (intro spaces_ok_put [OF _ k w']) (auto simp: session_ok_def)
  moreover have "set (tids (all_entries ((as_workspaces s)[k := w']))) = set (tids (all_entries (as_workspaces s)))"
    using distinct_keys_mset(4) [OF all_entries_split(1) [OF k]]
      distinct_keys_mset(4) [OF all_entries_split(2) [OF k, of w']] keys(2) by simp
  ultimately show ?thesis
    using ok k by (auto simp: session_ok_def terms_ok_def cursor_ok_def runtimes_ok_def)
qed

lemma session_ok_cursor:
  "session_ok ids n rs s \<Longrightarrow> a < length (as_workspaces s) \<Longrightarrow> k < length (as_workspaces s)
    \<Longrightarrow> session_ok ids n rs (s\<lparr>as_active := Some a, as_selected := k\<rparr>)"
  by (auto simp: session_ok_def terms_ok_def cursor_ok_def runtimes_ok_def)

lemma session_ok_select:
  "session_ok ids n rs s \<Longrightarrow> k < length (as_workspaces s) \<Longrightarrow> session_ok ids n rs (s\<lparr>as_selected := k\<rparr>)"
  by (auto simp: session_ok_def terms_ok_def cursor_ok_def runtimes_ok_def)

text \<open>A tab changes but keeps its number, its panes and their terminals.\<close>

lemma session_ok_put_tab:
  assumes ok: "session_ok ids n rs s" and k: "k < length (as_workspaces s)"
    and idx: "idx < length (ws_tabs (as_workspaces s ! k))"
    and t': "tab_wf t'" "tab_number t' = tab_number (ws_tabs (as_workspaces s ! k) ! idx)"
      "map fst (tab_panes t') = map fst (tab_panes (ws_tabs (as_workspaces s ! k) ! idx))"
      "tids (tab_panes t') = tids (tab_panes (ws_tabs (as_workspaces s ! k) ! idx))"
  shows "session_ok ids n rs (put_workspace s k ((as_workspaces s ! k)\<lparr>ws_tabs := (ws_tabs (as_workspaces s ! k))[idx := t']\<rparr>))"
proof (rule session_ok_put [OF ok k])
  let ?w = "as_workspaces s ! k"
  have inv: "ws_inv ?w ids" using ok k by (rule session_ok_ws)
  then have "ws_ok {} ?w" by (simp add: ws_inv_def ws_wf_def)
  from ws_ok_same_tab(2,3) [OF this idx t']
  show "fst ` set (ws_entries (?w\<lparr>ws_tabs := (ws_tabs ?w)[idx := t']\<rparr>)) = fst ` set (ws_entries ?w)"
    "set (tids (ws_entries (?w\<lparr>ws_tabs := (ws_tabs ?w)[idx := t']\<rparr>))) = set (tids (ws_entries ?w))"
    by (simp_all flip: set_map)
  show "ws_inv (?w\<lparr>ws_tabs := (ws_tabs ?w)[idx := t']\<rparr>) ids" using inv idx t' by (rule ws_inv_same_tab)
qed simp

lemma ws_inv_tab_wf: "ws_inv w ids \<Longrightarrow> idx < length (ws_tabs w) \<Longrightarrow> tab_wf (ws_tabs w ! idx)"
  by (auto simp: ws_inv_def ws_wf_def intro: ws_ok_tab_wf)

lemma session_ok_update_tab:
  assumes "session_ok ids n rs s" "k < length (as_workspaces s)" "idx < length (ws_tabs (as_workspaces s ! k))"
    and "\<And>t. tab_wf t \<Longrightarrow> tab_wf (f t) \<and> tab_number (f t) = tab_number t
       \<and> map fst (tab_panes (f t)) = map fst (tab_panes t) \<and> tids (tab_panes (f t)) = tids (tab_panes t)"
  shows "session_ok ids n rs (update_tab s k idx f)"
  using session_ok_put_tab [OF assms(1-3)] assms(4) [OF ws_inv_tab_wf [OF session_ok_ws [OF assms(1,2)] assms(3)]]
  by (simp add: update_tab_def)

lemma switch_tab_keys:
  "map fst (ws_entries (switch_tab w idx)) = map fst (ws_entries w)" "tids (ws_entries (switch_tab w idx)) = tids (ws_entries w)"
  "ws_id (switch_tab w idx) = ws_id w"
proof -
  let ?t = "(ws_tabs w ! idx)\<lparr>tab_panes := map (\<lambda>(i, p). (i, p\<lparr>ps_seen := True\<rparr>)) (tab_panes (ws_tabs w ! idx))\<rparr>"
  have "map fst (tab_panes ?t) = map fst (tab_panes (ws_tabs w ! idx))" "tids (tab_panes ?t) = tids (tab_panes (ws_tabs w ! idx))"
    by (auto simp: tids_def)
  then have "idx < length (ws_tabs w) \<Longrightarrow> map (\<lambda>t. map fst (tab_panes t)) ((ws_tabs w)[idx := ?t]) = map (\<lambda>t. map fst (tab_panes t)) (ws_tabs w)"
    "idx < length (ws_tabs w) \<Longrightarrow> map (\<lambda>t. tids (tab_panes t)) ((ws_tabs w)[idx := ?t]) = map (\<lambda>t. tids (tab_panes t)) (ws_tabs w)"
    by (auto intro: map_update_same)
  then show "map fst (ws_entries (switch_tab w idx)) = map fst (ws_entries w)" "tids (ws_entries (switch_tab w idx)) = tids (ws_entries w)"
    by (auto simp: switch_tab_def entries_def tids_def map_concat comp_def Let_def)
  show "ws_id (switch_tab w idx) = ws_id w" by (simp add: switch_tab_def Let_def)
qed

lemma session_ok_switch_tab:
  assumes "session_ok ids n rs s" "k < length (as_workspaces s)"
  shows "session_ok ids n rs (put_workspace s k (switch_tab (as_workspaces s ! k) idx))"
  using switch_tab_keys [of "as_workspaces s ! k" idx] switch_tab_inv [OF session_ok_ws [OF assms]]
  by (intro session_ok_put [OF assms]) (simp_all flip: set_map)

subsection \<open>Focus and selection\<close>

lemma switch_workspace_ok: "session_ok ids n rs s \<Longrightarrow> session_ok ids n rs (switch_workspace s k)"
  using session_ok_switch_tab [of ids n rs "mark_session_dirty (s\<lparr>as_active := Some k, as_selected := k\<rparr>)" k]
  by (simp add: switch_workspace_def Let_def session_ok_cursor mark_session_dirty_def)

lemma switch_workspace_tab_ok: "session_ok ids n rs s \<Longrightarrow> session_ok ids n rs (fst (switch_workspace_tab s k idx))"
  using session_ok_switch_tab [of ids n rs "mark_session_dirty (s\<lparr>as_active := Some k, as_selected := k\<rparr>)" k]
  by (simp add: switch_workspace_tab_def Let_def session_ok_cursor mark_session_dirty_def)

lemma get_tab_Some: "get_tab s k idx = Some t \<longleftrightarrow> k < length (as_workspaces s)
    \<and> idx < length (ws_tabs (as_workspaces s ! k)) \<and> t = ws_tabs (as_workspaces s ! k) ! idx"
  by (auto simp: get_tab_def get_workspace_def)

lemma session_ok_focus_tab:
  assumes "session_ok ids n rs s" "get_tab s k idx = Some t"
  shows "session_ok ids n rs (update_tab s k idx (\<lambda>t. t\<lparr>tab_layout := focus_pane (tab_layout t) i\<rparr>))"
proof (rule session_ok_update_tab [OF assms(1)])
  show "k < length (as_workspaces s)" "idx < length (ws_tabs (as_workspaces s ! k))"
    using assms(2) by (simp_all add: get_tab_Some)
  show "tab_wf (t\<lparr>tab_layout := focus_pane (tab_layout t) i\<rparr>)
      \<and> tab_number (t\<lparr>tab_layout := focus_pane (tab_layout t) i\<rparr>) = tab_number t
      \<and> map fst (tab_panes (t\<lparr>tab_layout := focus_pane (tab_layout t) i\<rparr>)) = map fst (tab_panes t)
      \<and> tids (tab_panes (t\<lparr>tab_layout := focus_pane (tab_layout t) i\<rparr>)) = tids (tab_panes t)" if "tab_wf t" for t
    using that layout_tree.focus_keeps [of "tab_layout t" i] tab_wf_layout_edit [OF that]
    by (simp add: tab_pane_ids_def tab_wf_def)
qed

lemma focus_pane_ok:
  assumes "session_ok ids n rs s"
  shows "session_ok ids n rs (fst (focus_pane_in_workspace s k i))"
  using assms switch_workspace_tab_ok [OF assms]
  by (auto simp: focus_pane_in_workspace_def Let_def split: option.split intro: session_ok_focus_tab)

lemma mark_seen_ok:
  assumes "session_ok ids n rs s"
  shows "session_ok ids n rs (fst (mark_active_tab_seen s))"
proof -
  have "tab_wf (t\<lparr>tab_panes := map (\<lambda>(i, p). (i, p\<lparr>ps_seen := True\<rparr>)) (tab_panes t)\<rparr>)" if "tab_wf t" for t
    using that by (intro tab_wf_same_keys) auto
  moreover have "map fst (map (\<lambda>(i, p). (i, p\<lparr>ps_seen := True\<rparr>)) ps) = map fst ps"
    "tids (map (\<lambda>(i, p). (i, p\<lparr>ps_seen := True\<rparr>)) ps) = tids ps" for ps by (auto simp: tids_def)
  ultimately show ?thesis
    using assms by (auto simp: mark_active_tab_seen_def get_workspace_Some active_tab_def bind_eq_Some_conv
      split: option.split if_splits intro!: session_ok_update_tab)
qed

lemma apply_pane_zoom_ok:
  assumes "session_ok ids n rs s"
  shows "session_ok ids n rs (fst (apply_pane_zoom s k i command))"
proof -
  have "session_ok ids n rs (update_tab s' k idx (\<lambda>t. t\<lparr>tab_zoomed := b\<rparr>))"
    if "session_ok ids n rs s'" "get_tab s' k idx = Some t" for s' idx t b
    using that by (intro session_ok_update_tab) (auto simp: get_tab_Some tab_wf_def)
  with focus_pane_ok [OF assms, of k i] assms show ?thesis
    by (cases "focus_pane_in_workspace s k i") (auto simp: apply_pane_zoom_def Let_def split: option.split)
qed

end
