(* ===== verification/SessionEventSteps.thy ===== *)
theory SessionEventSteps
  imports SessionSteps
begin

section \<open>Reordering, terminal events and timers keep the invariant\<close>

text \<open>
  Workspaces that change their order, terminals that change with an event, and the timers of metadata and managed agents:
  none of them disturbs the invariant of the session.
\<close>

subsection \<open>Reordering workspaces\<close>

lemma position_ex:
  assumes "\<exists>x \<in> set xs. p x"
  obtains k where "position p xs = Some k" "k < length xs" "p (xs ! k)"
  using assms position_Some [of p xs] by (cases "position p xs") auto

lemma mset_length: "mset xs = mset ys \<Longrightarrow> length xs = length ys"
  by (rule mset_eq_length)

lemma restore_indices_ok:
  assumes ok: "session_ok ids n rs s" and perm: "mset ws' = mset (as_workspaces s)"
    and a: "active_id = map_option (\<lambda>a. ws_id (as_workspaces s ! a)) (as_active s)"
    and k: "selected_id = map_option ws_id (get_workspace s (as_selected s))"
  shows "session_ok ids n rs (restore_indices (s\<lparr>as_workspaces := ws'\<rparr>) active_id selected_id)"
proof -
  let ?s = "restore_indices (s\<lparr>as_workspaces := ws'\<rparr>) active_id selected_id"
  have sp: "spaces_ok ids n ws'" using ok perm spaces_ok_sub [of ids n "as_workspaces s" ws'] by (simp add: session_ok_def)
  have "mset (all_entries ws') = mset (all_entries (as_workspaces s))" using perm by (simp add: mset_all_entries)
  from distinct_keys_mset(4) [OF this] ok have "terms_ok ?s" by (simp add: session_ok_def terms_ok_def restore_indices_def)
  moreover have "runtimes_ok ids rs ?s" using ok by (simp add: session_ok_def runtimes_ok_def restore_indices_def)
  moreover have "cursor_ok ?s"
  proof (cases "as_workspaces s = []")
    case True
    with perm have "ws' = []" by simp
    with True ok a k show ?thesis by (simp add: session_ok_def cursor_ok_def restore_indices_def get_workspace_def)
  next
    case False
    with ok obtain x where x: "as_active s = Some x" "x < length (as_workspaces s)" "as_selected s < length (as_workspaces s)"
      by (auto simp: session_ok_def cursor_ok_def is_some_and_iff)
    have mem: "as_workspaces s ! i \<in> set ws'" if "i < length (as_workspaces s)" for i
      using nth_mem [OF that] mset_eq_setD [OF perm] by simp
    obtain p where p: "position (\<lambda>w. ws_id w = ws_id (as_workspaces s ! x)) ws' = Some p" "p < length ws'"
      by (rule position_ex [of ws' "\<lambda>w. ws_id w = ws_id (as_workspaces s ! x)"]) (use mem [OF x(2)] in auto)
    obtain q where q: "position (\<lambda>w. ws_id w = ws_id (as_workspaces s ! as_selected s)) ws' = Some q" "q < length ws'"
      by (rule position_ex [of ws' "\<lambda>w. ws_id w = ws_id (as_workspaces s ! as_selected s)"]) (use mem [OF x(3)] in auto)
    from p q x a k show ?thesis by (auto simp: cursor_ok_def restore_indices_def get_workspace_def)
  qed
  ultimately show ?thesis using sp by (simp add: session_ok_def restore_indices_def)
qed

lemma move_workspace_ok:
  assumes "session_ok ids n rs s"
  shows "session_ok ids n rs (fst (move_workspace s a b))"
proof -
  have "session_ok ids n rs (mark_session_dirty s)" using assms by simp
  from restore_indices_ok [OF this _ refl refl] show ?thesis
    using assms mset_remove_at [of a "as_workspaces s"]
    by (simp add: move_workspace_def Let_def mset_insert_at)
qed

lemma move_workspace_block_ok:
  assumes "session_ok ids n rs s"
  shows "session_ok ids n rs (fst (move_workspace_block s moved before))"
proof -
  have "session_ok ids n rs (mark_session_dirty s)" using assms by simp
  from restore_indices_ok [OF this _ refl refl] show ?thesis
    using assms unfolding move_workspace_block_def Let_def by (simp split: if_splits)
qed

subsection \<open>Terminal events\<close>

lemma set_pane_flag:
  assumes "hm_get m i = Some p" "ps_attached_terminal_id p' = ps_attached_terminal_id p"
  shows "map fst (hm_insert m i p') = map fst m" "tids (hm_insert m i p') = tids m"
  using assms by (induction m) (auto simp: tids_def)

lemma session_ok_put_pane:
  assumes ok: "session_ok ids n rs s" and k: "k < length (as_workspaces s)"
    and idx: "find_tab_index_for_pane (as_workspaces s ! k) i = Some idx"
    and p: "hm_get (tab_panes (ws_tabs (as_workspaces s ! k) ! idx)) i = Some p"
      "ps_attached_terminal_id p' = ps_attached_terminal_id p"
  shows "session_ok ids n rs (put_workspace s k ((as_workspaces s ! k)\<lparr>ws_tabs := (ws_tabs (as_workspaces s ! k))[idx :=
    (ws_tabs (as_workspaces s ! k) ! idx)\<lparr>tab_panes := hm_insert (tab_panes (ws_tabs (as_workspaces s ! k) ! idx)) i p'\<rparr>]\<rparr>))"
proof -
  have l: "idx < length (ws_tabs (as_workspaces s ! k))" using find_tab_index_Some [OF idx] by blast
  note wf = ws_inv_tab_wf [OF session_ok_ws [OF ok k] l]
  show ?thesis
    by (rule session_ok_put_tab [OF ok k l])
      (simp_all add: set_pane_flag [OF p] tab_wf_same_keys [OF wf set_pane_flag(1) [OF p]])
qed

lemma put_same_workspace: "k < length (as_workspaces s) \<Longrightarrow> put_workspace s k (as_workspaces s ! k) = s"
  by (simp add: put_workspace_def)

lemma set_pane_seen_ok:
  assumes "session_ok ids n rs s" "k < length (as_workspaces s)"
  shows "session_ok ids n rs (put_workspace s k (set_pane_seen (as_workspaces s ! k) i b))"
  using assms session_ok_put_pane [OF assms]
  by (auto simp: set_pane_seen_def Let_def put_same_workspace split: option.split)

lemma set_right_click_ok:
  assumes "session_ok ids n rs s" "k < length (as_workspaces s)"
  shows "session_ok ids n rs (put_workspace s k (set_right_click_passthrough (as_workspaces s ! k) i b))"
  using assms session_ok_put_pane [OF assms]
  by (auto simp: set_right_click_passthrough_def Let_def put_same_workspace split: option.split)

lemma record_notification_ok:
  "session_ok ids n rs s \<Longrightarrow> session_ok ids n rs (fst (record_or_deliver_agent_notification f s k i c now))"
  by (auto simp: record_or_deliver_agent_notification_def Let_def split: option.split sound.split)

lemma apply_pane_state_change_ok:
  assumes "session_ok ids n rs s" "k < length (as_workspaces s)"
  shows "session_ok ids n rs (fst (apply_pane_state_change f s k i c now))"
  using record_notification_ok [OF set_pane_seen_ok [OF assms]] assms
  by (auto simp: apply_pane_state_change_def Let_def split: option.split prod.split) (metis fst_conv)+

lemma position_workspace:
  assumes "position P (as_workspaces s) = Some k"
  shows "k < length (as_workspaces s)" "P (as_workspaces s ! k)"
  using position_Some [OF assms] by simp_all

lemma number_state_change_ok:
  "session_ok ids n rs s \<Longrightarrow> session_ok ids n rs (number_state_change s tid c)"
  using session_ok_set_terminal [of ids n rs "s\<lparr>as_next_agent_state_change_seq := as_next_agent_state_change_seq s + 1\<rparr>" tid]
  by (auto simp: number_state_change_def Let_def split: option.split)

lemma number_state_change_workspaces [simp]: "as_workspaces (number_state_change s tid c) = as_workspaces s"
  by (simp add: number_state_change_def Let_def split: option.split)

lemma update_terminal_state_ok:
  assumes ok: "session_ok ids n rs s"
  shows "session_ok ids n rs (fst (update_terminal_state f s i upd now))"
proof (cases "position (\<lambda>w. ws_pane_state w i \<noteq> None) (as_workspaces s)")
  case None
  with ok show ?thesis unfolding update_terminal_state_def by (simp only: option.case fst_conv)
next
  case (Some k)
  note k = position_workspace(1) [OF Some]
  show ?thesis
  proof (cases "ws_pane_state (as_workspaces s ! k) i")
    case None
    with ok Some show ?thesis unfolding update_terminal_state_def by (simp only: option.case fst_conv)
  next
    case (Some p)
    note p = \<open>position _ _ = Some k\<close> Some
    let ?tid = "ps_attached_terminal_id p"
    show ?thesis
    proof (cases "hm_get (as_terminals s) ?tid")
      case None
      with ok p show ?thesis unfolding update_terminal_state_def by (simp only: option.case fst_conv Let_def)
    next
      case (Some trm)
      have upd: "session_ok ids n rs (s\<lparr>as_terminals := hm_insert (as_terminals s) ?tid t\<rparr>)" for t
        using ok Some by (rule session_ok_set_terminal)
      show ?thesis
      proof (cases "upd trm")
        case (Pair t1 m)
        show ?thesis
        proof (cases m)
          case None
          with Pair Some p upd [of t1] show ?thesis
            unfolding update_terminal_state_def by (simp only: option.case fst_conv Let_def prod.case)
        next
          case (Some mutation)
          obtain t2 mc where r: "reconcile_managed_agent_at t1 now False = (t2, mc)" by (metis surj_pair)
          let ?s1 = "s\<lparr>as_terminals := hm_insert (as_terminals s) ?tid t2\<rparr>"
          have s1: "session_ok ids n rs ?s1" "session_ok ids n rs (mark_session_dirty ?s1)" using upd by simp_all
          have "session_ok ids n rs (fst (apply_pane_state_change f (number_state_change s2 ?tid c) k i c now))"
            if "session_ok ids n rs s2" "as_workspaces s2 = as_workspaces s" for s2 c
            using apply_pane_state_change_ok [OF number_state_change_ok [OF that(1)], of k ?tid c] that(2) k by simp
          from this [OF s1(1)] this [OF s1(2)]
          have chg: "session_ok ids n rs (fst (apply_pane_state_change f (number_state_change s2 ?tid c) k i c now))"
            if "s2 = (if b then mark_session_dirty ?s1 else ?s1)" for s2 b c
            using that by (simp add: mark_session_dirty_def)
          have ok2: "session_ok ids n rs (if b then mark_session_dirty ?s1 else ?s1)" for b using s1 by simp
          show ?thesis
            unfolding update_terminal_state_def
            using p Pair \<open>hm_get (as_terminals s) ?tid = Some trm\<close> \<open>m = Some mutation\<close> r chg [OF refl] ok2
            by (simp only: option.case prod.case Let_def) (simp only: fst_conv split: option.split prod.split, metis fst_conv)
        qed
      qed
    qed
  qed
qed

end
