(* ===== verification/SessionCloseSteps.thy ===== *)
theory SessionCloseSteps
  imports SessionEventSteps
begin

section \<open>Closing keeps the invariant\<close>

text \<open>
  What closing a workspace and the death of a pane leave behind: the workspaces that go are
  exactly the chosen ones, the terminals that go are exactly those no pane shows any more, and
  these are listed for the shutdown of their runtime.
\<close>

subsection \<open>Terminals nobody shows\<close>

lemma still_attached_iff: "still_attached s tid \<longleftrightarrow> tid \<in> set (tids (all_entries (as_workspaces s)))"
  by (force simp: still_attached_def list_ex_iff set_tids set_all_entries entries_def)

lemma remove_unattached_fields [simp]:
  "as_workspaces (remove_unattached_terminal_id s t) = as_workspaces s"
  "as_active (remove_unattached_terminal_id s t) = as_active s"
  "as_selected (remove_unattached_terminal_id s t) = as_selected s"
  by (simp_all add: remove_unattached_terminal_id_def Let_def)

lemma remove_unattached_all_fields [simp]:
  "as_workspaces (remove_unattached_terminal_ids s ts) = as_workspaces s"
  "as_active (remove_unattached_terminal_ids s ts) = as_active s"
  "as_selected (remove_unattached_terminal_ids s ts) = as_selected s"
  by (induction ts arbitrary: s) (simp_all add: remove_unattached_terminal_ids_def)

lemma remove_unattached_one:
  "fst ` set (as_terminals (remove_unattached_terminal_id s t)) = fst ` set (as_terminals s) - ({t} - Collect (still_attached s))"
  "set (as_terminal_runtime_shutdowns (remove_unattached_terminal_id s t))
    = set (as_terminal_runtime_shutdowns s) \<union> (fst ` set (as_terminals s) \<inter> ({t} - Collect (still_attached s)))"
  "hm_ok (as_terminals s) \<Longrightarrow> hm_ok (as_terminals (remove_unattached_terminal_id s t))"
  by (auto simp: remove_unattached_terminal_id_def Let_def dom_delete_fst map_of_eq_None_iff)

lemma still_attached_unattached [simp]:
  "still_attached (remove_unattached_terminal_id s t) = still_attached s"
  by (simp add: still_attached_iff fun_eq_iff)

lemma remove_unattached_Cons:
  "remove_unattached_terminal_ids s (t # ts) = remove_unattached_terminal_ids (remove_unattached_terminal_id s t) ts"
  by (simp add: remove_unattached_terminal_ids_def)

lemma remove_unattached_Nil: "remove_unattached_terminal_ids s [] = s"
  by (simp add: remove_unattached_terminal_ids_def)

lemma remove_unattached_keys:
  "fst ` set (as_terminals (remove_unattached_terminal_ids s ts)) = fst ` set (as_terminals s) - (set ts - Collect (still_attached s))"
proof (induction ts arbitrary: s)
  case (Cons t ts)
  show ?case unfolding remove_unattached_Cons Cons.IH remove_unattached_one(1) by auto
qed (simp add: remove_unattached_Nil)

lemma remove_unattached_shutdowns:
  "set (as_terminal_runtime_shutdowns (remove_unattached_terminal_ids s ts))
    = set (as_terminal_runtime_shutdowns s) \<union> (fst ` set (as_terminals s) \<inter> (set ts - Collect (still_attached s)))"
proof (induction ts arbitrary: s)
  case (Cons t ts)
  show ?case unfolding remove_unattached_Cons Cons.IH remove_unattached_one(1,2) by auto
qed (simp add: remove_unattached_Nil)

lemma remove_unattached_hm: "hm_ok (as_terminals s) \<Longrightarrow> hm_ok (as_terminals (remove_unattached_terminal_ids s ts))"
  by (induction ts arbitrary: s) (simp_all add: remove_unattached_Cons remove_unattached_Nil remove_unattached_one(3))

lemmas remove_unattached_all = remove_unattached_keys remove_unattached_shutdowns remove_unattached_hm

lemma spaces_ok_issued:
  assumes "spaces_ok ids n ws" "t \<in> set (tids (all_entries ws))"
  shows "issued ids t"
proof -
  obtain w where "w \<in> set ws" "t \<in> set (tids (ws_entries w))"
    using assms(2) by (auto simp: set_tids set_all_entries)
  with assms(1) show ?thesis by (auto simp: spaces_ok_def ws_inv_def ids_below_def)
qed

lemma removed_terminals_ok:
  assumes s0: "spaces_ok ids n (as_workspaces s0)" "terms_ok s0" "runtimes_ok ids rs s0"
    and same: "as_terminals s = as_terminals s0" "as_terminal_runtime_shutdowns s = as_terminal_runtime_shutdowns s0"
    and sub: "set (tids (all_entries (as_workspaces s))) \<subseteq> set (tids (all_entries (as_workspaces s0)))"
    and gone: "set (tids (all_entries (as_workspaces s0))) - set (tids (all_entries (as_workspaces s))) \<subseteq> set ts"
  shows "terms_ok (remove_unattached_terminal_ids s ts)" "runtimes_ok ids rs (remove_unattached_terminal_ids s ts)"
proof -
  let ?O = "set (tids (all_entries (as_workspaces s0)))" and ?A = "set (tids (all_entries (as_workspaces s)))"
  have keys: "fst ` set (as_terminals s) = ?O" using s0(2) same(1) by (simp add: terms_ok_def)
  have att: "Collect (still_attached s) = ?A" using still_attached_iff by auto
  note all = remove_unattached_all [of s ts, unfolded att keys]
  have k': "fst ` set (as_terminals (remove_unattached_terminal_ids s ts)) = ?A"
    unfolding all(1) using sub gone by auto
  have "?O \<inter> (set ts - ?A) = ?O - ?A" using gone by auto
  with all(2) have d': "set (as_terminal_runtime_shutdowns (remove_unattached_terminal_ids s ts))
      = set (as_terminal_runtime_shutdowns s0) \<union> (?O - ?A)" using same(2) by simp
  show "terms_ok (remove_unattached_terminal_ids s ts)"
    using k' all(3) s0(2) same(1) by (simp add: terms_ok_def)
  have "set rs = ?O \<union> set (as_terminal_runtime_shutdowns s0)" "?O \<inter> set (as_terminal_runtime_shutdowns s0) = {}"
    "\<forall>t \<in> set (as_terminal_runtime_shutdowns s0). issued ids t"
    using s0(2,3) by (simp_all add: runtimes_ok_def terms_ok_def)
  moreover have "\<forall>t \<in> ?O - ?A. issued ids t" using spaces_ok_issued [OF s0(1)] by blast
  ultimately show "runtimes_ok ids rs (remove_unattached_terminal_ids s ts)"
    unfolding runtimes_ok_def k' d' using sub by blast
qed

subsection \<open>Several workspaces at once\<close>

definition remove_all_at :: "nat list \<Rightarrow> 'a list \<Rightarrow> 'a list" where
  "remove_all_at is xs = foldl (\<lambda>xs i. remove_at i xs) xs (rev is)"

lemma remove_all_at_simps: "remove_all_at [] xs = xs" "remove_all_at (is @ [k]) xs = remove_all_at is (remove_at k xs)"
  by (simp_all add: remove_all_at_def)

lemma mset_remove_all_at:
  "sorted_wrt (<) is \<Longrightarrow> \<forall>i \<in> set is. i < length xs
    \<Longrightarrow> mset xs = mset (remove_all_at is xs) + mset (map (nth xs) is)"
proof (induction "is" arbitrary: xs rule: rev_induct)
  case Nil
  show ?case by (simp add: remove_all_at_simps)
next
  case (snoc k "is")
  then have k: "k < length xs" and lt: "\<forall>i \<in> set is. i < k" and s: "sorted_wrt (<) is" by (simp_all add: sorted_wrt_append)
  have nth: "remove_at k xs ! i = xs ! i" if "i \<in> set is" for i
    using that lt k by (simp add: remove_at_def nth_append)
  have "mset (remove_at k xs) = mset (remove_all_at is (remove_at k xs)) + mset (map (nth (remove_at k xs)) is)"
    using lt k by (intro snoc.IH [OF s]) auto
  moreover have "map (nth (remove_at k xs)) is = map (nth xs) is" using nth by simp
  ultimately show ?case using mset_remove_at [OF k] by (simp add: remove_all_at_simps)
qed

lemma worktree_group_indices:
  assumes "worktree_group s k = Some is"
  shows "sorted_wrt (<) is" "\<forall>i \<in> set is. i < length (as_workspaces s)" "is \<noteq> []"
proof -
  obtain P where "is": "is = map fst (filter P (enumerate 0 (as_workspaces s)))" "2 \<le> length is"
    using assms by (auto simp: worktree_group_def opt_filter_Some_iff)
  have "sorted_wrt (<) (map fst (enumerate 0 (as_workspaces s)))" by (simp add: sorted_wrt_upt)
  then have "sorted_wrt (\<lambda>a b. fst a < fst b) (enumerate 0 (as_workspaces s))" by (simp only: sorted_wrt_map)
  then have "sorted_wrt (\<lambda>a b. fst a < fst b) (filter P (enumerate 0 (as_workspaces s)))"
    by (rule sorted_wrt_filter)
  then show "sorted_wrt (<) is" unfolding "is"(1) by (simp add: sorted_wrt_map)
  show "\<forall>i \<in> set is. i < length (as_workspaces s)" unfolding "is"(1) by (auto simp: in_set_enumerate_eq)
  show "is \<noteq> []" using "is"(2) by auto
qed

definition close_indices :: "app_state \<Rightarrow> nat list" where
  "close_indices s = (case worktree_group s (as_selected s) of Some is \<Rightarrow> is | None \<Rightarrow> [as_selected s])"

lemma close_indices_ok:
  assumes "as_selected s < length (as_workspaces s)"
  shows "sorted_wrt (<) (close_indices s)" "\<forall>i \<in> set (close_indices s). i < length (as_workspaces s)"
  using assms worktree_group_indices [of s "as_selected s"] by (auto simp: close_indices_def split: option.split)

lemma tids_for_workspaces:
  assumes "\<forall>i \<in> set is. i < length (as_workspaces s)"
  shows "set (concat (map (terminal_ids_for_workspace s) is)) = set (tids (all_entries (map (nth (as_workspaces s)) is)))"
  using assms
  by (induction "is")
    (auto simp: terminal_ids_for_workspace_def get_workspace_def set_tids entries_def image_Un image_UN case_prod_beta)

text \<open>What is left of the session when some workspaces went, before the cursor is set.\<close>

lemma closed_workspaces_ok:
  assumes ok: "session_ok ids n rs s" and "is": "sorted_wrt (<) is" "\<forall>i \<in> set is. i < length (as_workspaces s)"
    and s': "as_workspaces s' = remove_all_at is (as_workspaces s)" "as_terminals s' = as_terminals s"
      "as_terminal_runtime_shutdowns s' = as_terminal_runtime_shutdowns s"
    and ts: "set (tids (all_entries (map (nth (as_workspaces s)) is))) \<subseteq> set ts"
  shows "spaces_ok ids n (as_workspaces s')" "terms_ok (remove_unattached_terminal_ids s' ts)"
    "runtimes_ok ids rs (remove_unattached_terminal_ids s' ts)"
proof -
  let ?ws = "as_workspaces s" and ?ws' = "remove_all_at is (as_workspaces s)"
  have m: "mset ?ws = mset (?ws' @ map (nth ?ws) is)" using mset_remove_all_at [OF "is"] by simp
  have sp: "spaces_ok ids n ?ws" "terms_ok s" "runtimes_ok ids rs s" using ok by (simp_all add: session_ok_def)
  show "spaces_ok ids n (as_workspaces s')" unfolding s'(1) using sp(1) by (rule spaces_ok_sub) (simp add: m)
  have "mset (all_entries ?ws) = mset (all_entries (?ws' @ map (nth ?ws) is))" using m by (simp only: mset_all_entries)
  from distinct_keys_mset(4) [OF this]
  have "set (tids (all_entries ?ws)) = set (tids (all_entries ?ws')) \<union> set (tids (all_entries (map (nth ?ws) is)))" by simp
  then show "terms_ok (remove_unattached_terminal_ids s' ts)" "runtimes_ok ids rs (remove_unattached_terminal_ids s' ts)"
    using ts by (auto intro!: removed_terminals_ok [OF sp s'(2,3)] simp: s'(1))
qed

lemma session_ok_parts:
  "spaces_ok ids n (as_workspaces s) \<Longrightarrow> terms_ok s \<Longrightarrow> runtimes_ok ids rs s
    \<Longrightarrow> session_ok ids n rs (s\<lparr>as_active := a, as_selected := k\<rparr>) \<longleftrightarrow> cursor_ok (s\<lparr>as_active := a, as_selected := k\<rparr>)"
  by (simp add: session_ok_def terms_ok_def runtimes_ok_def)

subsection \<open>Closing the selected workspace\<close>

text \<open>The state after the chosen workspaces and their terminals went, before the cursor is set.\<close>

definition close_chosen :: "app_state \<Rightarrow> app_state" where
  "close_chosen s =
     (let s2 = remove_plugin_pane_records (mark_session_dirty s) (concat (map (pane_ids_for_workspace s) (close_indices s)))
      in remove_unattached_terminal_ids (s2\<lparr>as_workspaces := remove_all_at (close_indices s) (as_workspaces s)\<rparr>)
           (concat (map (terminal_ids_for_workspace s) (close_indices s))))"

definition after_close :: "app_state \<Rightarrow> nat" where
  "after_close s =
     (let ws = remove_all_at (close_indices s) (as_workspaces s);
          k = (case Option.bind (map_option ws_id (Option.bind (as_active s) (get_workspace s)))
                (\<lambda>i. position (\<lambda>w. ws_id w = i) ws) of Some k \<Rightarrow> k | None \<Rightarrow> as_selected s)
      in if length ws \<le> k then length ws - 1 else k)"

lemma remove_plugin_pane_records_fields [simp]:
  "as_workspaces (remove_plugin_pane_records s is) = as_workspaces s"
  "as_terminals (remove_plugin_pane_records s is) = as_terminals s"
  "as_active (remove_plugin_pane_records s is) = as_active s"
  "as_selected (remove_plugin_pane_records s is) = as_selected s"
  "as_terminal_runtime_shutdowns (remove_plugin_pane_records s is) = as_terminal_runtime_shutdowns s"
  by (simp_all add: remove_plugin_pane_records_def Let_def)

lemma dirty_get: "get_workspace (mark_session_dirty s) = get_workspace s"
  by (simp add: fun_eq_iff)

lemma dirty_lookups [simp]:
  "worktree_group (mark_session_dirty s) = worktree_group s"
  "terminal_ids_for_workspace (mark_session_dirty s) = terminal_ids_for_workspace s"
  "pane_ids_for_workspace (mark_session_dirty s) = pane_ids_for_workspace s"
  by (simp_all add: fun_eq_iff worktree_group_def terminal_ids_for_workspace_def pane_ids_for_workspace_def)

lemma dirty_close_indices [simp]: "close_indices (mark_session_dirty s) = close_indices s"
  by (simp add: close_indices_def cong: option.case_cong)

lemma close_chosen_fields [simp]:
  "as_workspaces (close_chosen s) = remove_all_at (close_indices s) (as_workspaces s)"
  "as_active (close_chosen s) = as_active s" "as_selected (close_chosen s) = as_selected s"
  by (simp_all add: close_chosen_def Let_def)

lemma close_selected_eq:
  "close_selected_workspace s =
     (if as_workspaces s = [] then s
      else if remove_all_at (close_indices s) (as_workspaces s) = []
      then close_chosen s\<lparr>as_active := None, as_selected := 0\<rparr>
      else close_chosen s\<lparr>as_active := Some (after_close s), as_selected := after_close s\<rparr>)"
  unfolding close_selected_workspace_def close_chosen_def after_close_def
  by (simp add: Let_def close_indices_def [symmetric] remove_all_at_def [symmetric] dirty_get cong: option.case_cong)

lemma after_close_less: "remove_all_at (close_indices s) (as_workspaces s) \<noteq> []
    \<Longrightarrow> after_close s < length (remove_all_at (close_indices s) (as_workspaces s))"
  by (simp add: after_close_def Let_def)

lemma close_chosen_ok:
  assumes ok: "session_ok ids n rs s" and ne: "as_workspaces s \<noteq> []"
  shows "spaces_ok ids n (as_workspaces (close_chosen s))" "terms_ok (close_chosen s)" "runtimes_ok ids rs (close_chosen s)"
proof -
  have "as_selected s < length (as_workspaces s)" using ok ne by (simp add: session_ok_def cursor_ok_def)
  note ci = close_indices_ok [OF this]
  let ?s = "(remove_plugin_pane_records (mark_session_dirty s) (concat (map (pane_ids_for_workspace s) (close_indices s))))
    \<lparr>as_workspaces := remove_all_at (close_indices s) (as_workspaces s)\<rparr>"
  from closed_workspaces_ok [OF ok ci, of ?s "concat (map (terminal_ids_for_workspace s) (close_indices s))"]
    tids_for_workspaces [OF ci(2)]
  show "spaces_ok ids n (as_workspaces (close_chosen s))" "terms_ok (close_chosen s)" "runtimes_ok ids rs (close_chosen s)"
    unfolding close_chosen_def Let_def by simp_all
qed

lemma close_selected_ok:
  assumes ok: "session_ok ids n rs s"
  shows "session_ok ids n rs (close_selected_workspace s)"
proof (cases "as_workspaces s = []")
  case True
  with ok show ?thesis by (simp add: close_selected_eq)
next
  case False
  from after_close_less [of s] session_ok_parts [OF close_chosen_ok [OF ok False]] False show ?thesis
    by (auto simp: close_selected_eq cursor_ok_def)
qed

subsection \<open>A workspace loses panes\<close>

lemma session_ok_lose:
  assumes ok: "session_ok ids n rs s" and k: "k < length (as_workspaces s)"
    and w': "ws_inv w' ids" "ws_id w' = ws_id (as_workspaces s ! k)"
    and sub: "set (ws_entries w') \<subseteq> set (ws_entries (as_workspaces s ! k))"
    and gone: "set (tids (ws_entries (as_workspaces s ! k))) - set (tids (ws_entries w')) \<subseteq> set ts"
    and s': "as_workspaces s' = (as_workspaces s)[k := w']" "as_terminals s' = as_terminals s" "as_active s' = as_active s"
      "as_selected s' = as_selected s" "as_terminal_runtime_shutdowns s' = as_terminal_runtime_shutdowns s"
  shows "session_ok ids n rs (remove_unattached_terminal_ids s' ts)"
proof -
  have sp: "spaces_ok ids n (as_workspaces s)" "terms_ok s" "runtimes_ok ids rs s" "cursor_ok s"
    using ok by (simp_all add: session_ok_def)
  have tsub: "set (tids (ws_entries w')) \<subseteq> set (tids (ws_entries (as_workspaces s ! k)))"
    using sub by (auto simp: set_tids)
  have "spaces_ok ids n ((as_workspaces s)[k := w'])"
    using sub tsub by (intro spaces_ok_put [OF sp(1) k w']) auto
  moreover have "terms_ok (remove_unattached_terminal_ids s' ts)" "runtimes_ok ids rs (remove_unattached_terminal_ids s' ts)"
    using distinct_keys_mset(4) [OF all_entries_split(1) [OF k]]
      distinct_keys_mset(4) [OF all_entries_split(2) [OF k, of w']] tsub gone
    by (auto intro!: removed_terminals_ok [OF sp(1-3) s'(2,5)] simp: s'(1))
  moreover have "cursor_ok (remove_unattached_terminal_ids s' ts)"
    using sp(4) by (simp add: cursor_ok_def s')
  ultimately show ?thesis by (simp add: session_ok_def s'(1))
qed

lemma lost_one:
  assumes "mset (ws_entries w) = add_mset (i, p) (mset (ws_entries w'))"
  shows "set (ws_entries w') \<subseteq> set (ws_entries w)"
    "set (tids (ws_entries w)) - set (tids (ws_entries w')) \<subseteq> {ps_attached_terminal_id p}"
proof -
  have "set (ws_entries w) = insert (i, p) (set (ws_entries w'))" using assms by (metis set_mset_add_mset_insert set_mset_mset)
  then show "set (ws_entries w') \<subseteq> set (ws_entries w)" by blast
  show "set (tids (ws_entries w)) - set (tids (ws_entries w')) \<subseteq> {ps_attached_terminal_id p}"
    using entry_added(4) [OF assms] by auto
qed

subsection \<open>The death of a pane\<close>

lemma close_pane_fields: "ws_close_pane w i = Some (w', closes) \<Longrightarrow> ws_id w' = ws_id w"
  by (auto simp: ws_close_pane_def active_after_removal_fields close_tab_def unregister_pane_def Let_def
      split: option.splits prod.splits if_splits)

lemma find_tab_index_mem:
  "find_tab_index_for_pane w i \<noteq> None \<longleftrightarrow> i \<in> fst ` set (ws_entries w)"
proof
  assume "find_tab_index_for_pane w i \<noteq> None"
  then obtain idx where idx: "find_tab_index_for_pane w i = Some idx" by blast
  obtain p where "idx < length (ws_tabs w)" "hm_get (tab_panes (ws_tabs w ! idx)) i = Some p"
    by (rule find_tab_index_Some [OF idx])
  with tab_entries_subset [of idx "ws_tabs w"] show "i \<in> fst ` set (ws_entries w)" by (force dest: hm_get_Some_set)
qed (use find_tab_index_None in blast)

lemma terminal_id_for_pane_entry:
  assumes "ws_inv (as_workspaces s ! k) ids" "k < length (as_workspaces s)" "(i, p) \<in> set (ws_entries (as_workspaces s ! k))"
  shows "terminal_id_for_pane s k i = Some (ps_attached_terminal_id p)"
  using assms(2) iffD1 [OF hm_get_set [OF conjunct1 [OF ws_inv_distinct [OF assms(1)]]] assms(3)]
  by (simp add: terminal_id_for_pane_def get_workspace_def ws_pane_state_entries)

text \<open>The cursor after the workspace at \<open>k\<close> went: by the ids where they are left, else clamped.\<close>

lemma cursor_after_died:
  assumes "ws \<noteq> []" "cursor_ok s" "as_workspaces s \<noteq> []"
  shows "is_some_and (\<lambda>a. a < length ws) (map_option (\<lambda>a. if length ws \<le> a then length ws - 1 else a)
      (case Option.bind aid (\<lambda>k. position (\<lambda>w. ws_id w = k) ws) of Some idx \<Rightarrow> Some idx | None \<Rightarrow> as_active s))"
proof -
  obtain a where "as_active s = Some a" using assms(2,3) by (auto simp: cursor_ok_def is_some_and_iff)
  with assms(1) show ?thesis
    by (cases "Option.bind aid (\<lambda>k. position (\<lambda>w. ws_id w = k) ws)") (simp_all add: Suc_le_eq)
qed

lemma handle_pane_died_ok:
  assumes ok: "session_ok ids n rs s0" and res: "handle_pane_died s0 i = Some s'"
  shows "session_ok ids n rs s'"
proof -
  define s where "s = remove_plugin_pane_records
      (s0\<lparr>as_pending_agent_notifications := hm_remove (as_pending_agent_notifications s0) i\<rparr>) [i]"
  have ok: "session_ok ids n rs s" using ok by (simp add: s_def)
  note res = res [unfolded handle_pane_died_def, folded s_def, unfolded Let_def]
  show ?thesis
  proof (cases "position (\<lambda>w. find_tab_index_for_pane w i \<noteq> None) (as_workspaces s)")
    case None
    with res [unfolded None option.case] ok show ?thesis by (simp only: option.inject)
  next
    case (Some k)
    note k = position_workspace [OF Some]
    define s1 where "s1 = s\<lparr>as_pane_id_aliases := hm_retain (\<lambda>_ alias. alias \<noteq> i) (as_pane_id_aliases s),
        as_public_pane_id_aliases := hm_retain (\<lambda>_ alias. alias \<noteq> i) (as_public_pane_id_aliases s)\<rparr>"
    have f1: "as_workspaces s1 = as_workspaces s" "session_ok ids n rs s1" using ok by (simp_all add: s1_def)
    note res = res [unfolded Some option.case, folded s1_def]
    have inv: "ws_inv (as_workspaces s ! k) ids" using ok k(1) by (rule session_ok_ws)
    obtain w' closes where c: "ws_close_pane (as_workspaces s ! k) i = Some (w', closes)"
      using res by (auto simp: f1 ws_remove_pane_def split: option.splits)
    note rm = c [folded ws_remove_pane_def]
    from ws_close_pane_inv [OF inv c] k(2) find_tab_index_mem consider
      (all) "closes" "w' = as_workspaces s ! k"
    | (one) p where "\<not> closes" "ws_inv w' ids" "mset (ws_entries (as_workspaces s ! k)) = add_mset (i, p) (mset (ws_entries w'))"
      by auto
    then show ?thesis
    proof cases
      case (one p)
      have e: "(i, p) \<in> set (ws_entries (as_workspaces s ! k))" using one(3) by (metis union_single_eq_member set_mset_mset)
      let ?s2 = "mark_session_dirty (put_workspace s1 k w')"
      have "s' = remove_unattached_terminal_ids ?s2 [ps_attached_terminal_id p]"
        using res one(1) terminal_id_for_pane_entry [OF inv k(1) e] by (simp add: f1 rm)
      moreover have "session_ok ids n rs (remove_unattached_terminal_ids ?s2 [ps_attached_terminal_id p])"
        using k(1) one(2) close_pane_fields [OF c] lost_one [OF one(3)] f1
        by (intro session_ok_lose [OF f1(2), of k w']) simp_all
      ultimately show ?thesis by simp
    next
      case all
      let ?ts = "terminal_ids_for_workspace s k"
      have same: "(as_workspaces s)[k := w'] = as_workspaces s" by (simp add: all(2))
      have put: "put_workspace s1 k w' = s1" using put_same_workspace [of k s1] k(1) f1(1) all(2) by simp
      let ?s2 = "(mark_session_dirty s1)\<lparr>as_workspaces := remove_at k (as_workspaces s)\<rparr>"
      have idx: "sorted_wrt (<) [k]" "\<forall>j \<in> set [k]. j < length (as_workspaces s)" using k(1) by simp_all
      have "set (tids (all_entries (map (nth (as_workspaces s)) [k]))) \<subseteq> set ?ts"
        using tids_for_workspaces [OF idx(2)] by simp
      from closed_workspaces_ok [OF ok idx _ _ _ this, of ?s2]
      have parts: "spaces_ok ids n (remove_at k (as_workspaces s))" "terms_ok (remove_unattached_terminal_ids ?s2 ?ts)"
        "runtimes_ok ids rs (remove_unattached_terminal_ids ?s2 ?ts)"
        by (simp_all add: remove_all_at_def s1_def mark_session_dirty_def)
      have cur: "cursor_ok s1" "as_workspaces s1 \<noteq> []" using f1 k(1) by (auto simp: session_ok_def)
      from session_ok_parts [of ids n "remove_unattached_terminal_ids ?s2 ?ts"] parts
      have goal: "session_ok ids n rs (remove_unattached_terminal_ids ?s2 ?ts\<lparr>as_active := a, as_selected := j\<rparr>)
          \<longleftrightarrow> cursor_ok (remove_unattached_terminal_ids ?s2 ?ts\<lparr>as_active := a, as_selected := j\<rparr>)" for a j by simp
      show ?thesis
      proof (cases "remove_at k (as_workspaces s) = []")
        case True
        with res rm all(1) put f1(1)
        have "s' = remove_unattached_terminal_ids ?s2 ?ts\<lparr>as_active := None, as_selected := 0\<rparr>"
          by simp
        with goal True show ?thesis by (simp add: cursor_ok_def)
      next
        case False
        from cursor_after_died [OF False cur] res rm all(1) put f1(1) False same
        show ?thesis by (auto simp: goal cursor_ok_def cong: option.case_cong if_cong)
      qed
    qed
  qed
qed

end
