(* ===== verification/SessionGrow.thy ===== *)
theory SessionGrow
  imports SessionCloseSteps
begin

section \<open>Events, notifications and timers keep the invariant\<close>

text \<open>
  The events and timers of \<open>src/src/app/actions.rs\<close> and the operations that add panes, tabs and workspaces, each with its lemma
  that the invariant of the session holds afterwards.
\<close>

lemma report_cwd_ok:
  "session_ok ids n rs s \<Longrightarrow> session_ok ids n rs (report_terminal_cwd is_dir s i cwd)"
  by (auto simp: report_terminal_cwd_def split: option.split intro: session_ok_set_terminal)

lemma handle_app_event_ok:
  assumes ok: "session_ok ids n rs s" and res: "handle_app_event f is_dir s ev now clk = Some (s', u)"
  shows "session_ok ids n rs s'"
proof (cases ev)
  case (PaneDied i)
  with res show ?thesis by (auto simp: handle_app_event_def intro: handle_pane_died_ok [OF ok])
next
  case (TerminalCwdReported i cwd)
  with res ok show ?thesis by (auto simp: handle_app_event_def intro: report_cwd_ok)
qed (use res ok update_terminal_state_ok [OF ok, of f] in \<open>auto simp: handle_app_event_def dest!: arg_cong [of _ _ fst] split: if_splits\<close>)

lemma publish_exit_ok:
  "session_ok ids n rs s \<Longrightarrow> session_ok ids n rs (fst (publish_pane_process_exit_if_agent f s i now clk))"
  using update_terminal_state_ok [of ids n rs s f i _ now]
  by (simp add: publish_pane_process_exit_if_agent_def case_prod_beta)

lemma drain_one_ok:
  "session_ok ids n rs (fst acc) \<Longrightarrow> session_ok ids n rs (fst (drain_one f acc i))"
  by (cases acc) (auto simp: drain_one_def Let_def split: option.split)

lemma foldl_ok: "(\<And>acc x. P (fst acc) \<Longrightarrow> P (fst (step acc x))) \<Longrightarrow> P (fst acc) \<Longrightarrow> P (fst (foldl step acc xs))"
  by (induction xs arbitrary: acc) auto

lemma drain_ok:
  "session_ok ids n rs s \<Longrightarrow> session_ok ids n rs (fst (drain_due_agent_notifications f s now))"
  unfolding drain_due_agent_notifications_def Let_def
  by (rule foldl_ok [where P = "session_ok ids n rs"]) (auto intro: drain_one_ok)

lemma reconcile_managed_ok:
  assumes "session_ok ids n rs s"
  shows "session_ok ids n rs (fst (reconcile_managed_agents_at s now))"
proof -
  let ?s = "s\<lparr>as_terminals := map (\<lambda>(tid, t). (tid, fst (reconcile_managed_agent_at t now False))) (as_terminals s)\<rparr>"
  have k: "map fst (as_terminals ?s) = map fst (as_terminals s)" by (simp add: case_prod_beta comp_def)
  then have "fst ` set (as_terminals ?s) = fst ` set (as_terminals s)" by (metis set_map)
  moreover have "hm_ok (as_terminals ?s)" unfolding k using assms by (rule session_ok_hm)
  ultimately have "session_ok ids n rs ?s" by (intro session_ok_cong [OF _ _ _ _ _ _ assms]) simp_all
  then show ?thesis by (simp add: reconcile_managed_agents_at_def Let_def)
qed

text \<open>The panes listed for a timer stay in their workspaces while the timer works through them.\<close>

lemma record_notification_workspaces [simp]:
  "as_workspaces (fst (record_or_deliver_agent_notification f s k i c now)) = as_workspaces s"
  by (simp add: record_or_deliver_agent_notification_def Let_def split: option.split sound.split)

lemma delivered_workspaces [simp]: "as_workspaces (apply_agent_notification_delivery s d) = as_workspaces s"
  by (simp add: apply_agent_notification_delivery_def split: option.split)

lemma apply_pane_state_change_length [simp]:
  "length (as_workspaces (fst (apply_pane_state_change f s k i c now))) = length (as_workspaces s)"
proof -
  have "length (as_workspaces s2) = length (as_workspaces s1)"
    if "record_or_deliver_agent_notification f s1 k i c now = (s2, d)" for s1 s2 d
    using that record_notification_workspaces [of f s1 k i c now] by simp
  then show ?thesis
    by (auto simp: apply_pane_state_change_def Let_def split: option.split prod.split)
qed

lemma expire_metadata_of_pane_ok:
  assumes "session_ok ids n rs (fst acc)" "fst x < length (as_workspaces (fst acc))"
  shows "session_ok ids n rs (fst (expire_metadata_of_pane f dl now acc x))
    \<and> length (as_workspaces (fst (expire_metadata_of_pane f dl now acc x))) = length (as_workspaces (fst acc))"
proof -
  obtain s us where acc: "acc = (s, us)" by fastforce
  obtain k i tid where x: "x = (k, i, tid)" using prod_cases3 by blast
  have ok: "session_ok ids n rs s" "k < length (as_workspaces s)" using assms by (simp_all add: acc x)
  show ?thesis
  proof (cases "ws_pane_state (as_workspaces s ! k) i = None \<or> hm_get (as_terminals s) tid = None")
    case True
    with ok show ?thesis by (auto simp: expire_metadata_of_pane_def acc x split: option.split)
  next
    case False
    then obtain p trm where p: "ws_pane_state (as_workspaces s ! k) i = Some p" "hm_get (as_terminals s) tid = Some trm" by auto
    obtain t1 m where e: "expire_agent_metadata_at trm dl now = (t1, m)" by fastforce
    let ?s1 = "s\<lparr>as_terminals := hm_insert (as_terminals s) tid t1\<rparr>"
    have s1: "session_ok ids n rs ?s1" using ok(1) p(2) by (rule session_ok_set_terminal)
    show ?thesis
    proof (cases "Option.bind m tm_effective_state_change")
      case None
      with p e s1 show ?thesis by (simp add: expire_metadata_of_pane_def acc x)
    next
      case (Some c)
      obtain s2 r where r: "apply_pane_state_change f ?s1 k i c now = (s2, r)" by fastforce
      have "session_ok ids n rs s2" "length (as_workspaces s2) = length (as_workspaces s)"
        using apply_pane_state_change_ok [OF s1, of k f i c now] apply_pane_state_change_length [of f ?s1 k i c now] ok(2) r
        by simp_all
      with p e Some r show ?thesis by (cases r) (simp_all add: expire_metadata_of_pane_def acc x)
    qed
  qed
qed

lemma pane_terminals_place: "x \<in> set (pane_terminals s) \<Longrightarrow> fst x < length (as_workspaces s)"
  by (auto simp: pane_terminals_def in_set_enumerate_eq map_filter_def)

lemma expire_metadata_ok:
  assumes "session_ok ids n rs s"
  shows "session_ok ids n rs (fst (session_expire_agent_metadata_at f s dl now))"
proof -
  have "session_ok ids n rs (fst (foldl (expire_metadata_of_pane f dl now) acc xs))"
    if "session_ok ids n rs (fst acc)" "\<forall>x \<in> set xs. fst x < length (as_workspaces (fst acc))" for acc xs
    using that
  proof (induction xs arbitrary: acc)
    case (Cons x xs)
    from expire_metadata_of_pane_ok [of ids n rs acc x f dl now] Cons show ?case by simp
  qed simp
  with assms pane_terminals_place [of _ s] show ?thesis by (simp add: session_expire_agent_metadata_at_def)
qed

lemma expire_tokens_of_pane_ok:
  "session_ok ids n rs (fst acc) \<Longrightarrow> session_ok ids n rs (fst (expire_tokens_of_pane now acc x))"
  by (cases acc; cases x) (auto simp: expire_tokens_of_pane_def Let_def case_prod_beta split: option.split intro: session_ok_set_terminal)

lemma ws_inv_tokens: "ws_inv (w\<lparr>ws_metadata_tokens := m\<rparr>) ids = ws_inv w ids"
  by (simp add: ws_inv_def ws_wf_def ws_ok_def ids_below_def)

lemma spaces_ok_tokens:
  assumes "spaces_ok ids n ws" "length ms = length ws"
  shows "spaces_ok ids n (map2 (\<lambda>w e. w\<lparr>ws_metadata_tokens := fst e\<rparr>) ws ms)"
    "all_entries (map2 (\<lambda>w e. w\<lparr>ws_metadata_tokens := fst e\<rparr>) ws ms) = all_entries ws"
proof -
  let ?vs = "map2 (\<lambda>w e. w\<lparr>ws_metadata_tokens := fst e\<rparr>) ws ms"
  have "all_entries ?vs = all_entries ws \<and> map ws_id ?vs = map ws_id ws
      \<and> (\<forall>v \<in> set ?vs. \<exists>w \<in> set ws. \<exists>m. v = w\<lparr>ws_metadata_tokens := m\<rparr>)" using assms(2)[symmetric]
    by (induction rule: list_induct2) auto
  then show "all_entries ?vs = all_entries ws" "spaces_ok ids n ?vs"
    using assms(1) unfolding spaces_ok_def by (force simp: ws_inv_tokens)+
qed

lemma expire_tokens_ok:
  assumes "session_ok ids n rs s"
  shows "session_ok ids n rs (fst (session_expire_metadata_tokens s now))"
proof -
  obtain s1 ch where f: "foldl (expire_tokens_of_pane now) (s, []) (pane_terminals s) = (s1, ch)" by fastforce
  have ok: "session_ok ids n rs s1"
    using foldl_ok [where P = "session_ok ids n rs" and step = "expire_tokens_of_pane now" and acc = "(s, [])" and xs = "pane_terminals s"]
      expire_tokens_of_pane_ok assms f by auto
  let ?ms = "map (\<lambda>w. tokens_expire_at (ws_metadata_tokens w) now) (as_workspaces s1)"
  have sp: "spaces_ok ids n (as_workspaces s1)" using ok by (simp add: session_ok_def)
  from spaces_ok_tokens [OF sp, of ?ms] ok
  have "session_ok ids n rs (s1\<lparr>as_workspaces := map2 (\<lambda>w e. w\<lparr>ws_metadata_tokens := fst e\<rparr>) (as_workspaces s1) ?ms\<rparr>)"
    by (auto simp: session_ok_def terms_ok_def cursor_ok_def runtimes_ok_def)
  then show ?thesis by (simp add: session_expire_metadata_tokens_def f Let_def)
qed

section \<open>New panes, tabs and workspaces\<close>

text \<open>
  What an operation that starts a terminal does to the session: the new pane and the new
  terminal have ids nobody in the session has, and the terminal gets an entry and a runtime.
\<close>

abbreviation next_tid :: "nat \<Rightarrow> id_counters \<Rightarrow> rstr" where
  "next_tid micros ids \<equiv> fst (terminal_id_alloc micros (ic_terminal ids))"

abbreviation both_next :: "id_counters \<Rightarrow> id_counters" where
  "both_next ids \<equiv> \<lparr>ic_pane = ic_pane ids + 1, ic_terminal = ic_terminal ids + 1\<rparr>"

lemma ids_le_next:
  assumes "ids_room ids"
  shows "ids_le ids (both_next ids)" "ids_le ids (ids\<lparr>ic_pane := ic_pane ids + 1\<rparr>)"
  using next_ids [OF assms] by (simp_all add: ids_le_def less_imp_le)

subsection \<open>What the workspace operations add\<close>

lemma ws_split_cases:
  assumes inv: "ws_inv w ids" and clk: "clock_in_range micros" and rm: "ids_room ids" "room w"
    and res: "ws_split_pane_with_runtime spawn w i d ratio cwd cur extra fcs command micros ids = Some (res, w', ids')"
  obtains (kept) "res = None \<or> (\<exists>err. res = Some (Inl err))" "w' = w" "ids_le ids ids'"
  | (split) idx np where "res = Some (Inr (idx, np))" "ws_inv w' ids'" "ws_id w' = ws_id w"
      "find_tab_index_for_pane w i = Some idx"
      "mset (ws_entries w') = add_mset (ic_pane ids, pane_state_new (next_tid micros ids)) (mset (ws_entries w))"
      "np_pane_id np = ic_pane ids" "ts_id (np_terminal np) = next_tid micros ids" "ids' = both_next ids"
proof (cases "find_tab_index_for_pane w i")
  case None
  with res kept show ?thesis by (simp add: ws_split_pane_with_runtime_def)
next
  case (Some idx)
  then have idx: "idx < length (ws_tabs w)" using find_tab_index_Some by blast
  have ok: "ws_ok {} w" and below: "ids_below ids w" using inv by (simp_all add: ws_inv_def ws_wf_def)
  have nt: "ic_pane ids \<notin> set (tab_pane_ids (ws_tabs w ! idx))"
    using fresh_entry(1) [OF below clk] tab_keys_subset [OF ok idx] by blast
  let ?env = "launch_env_for_new_pane w (tab_number (ws_tabs w ! idx)) (ws_next_public_pane_number w) extra"
  obtain r t' ids'' where s: "tab_split_pane_with_runtime spawn (ws_tabs w ! idx) i fcs d ratio cwd cur ?env command micros ids
      = Some (r, t', ids'')"
    using tab_split_total [OF inv idx clk] by (metis not_None_eq prod_cases3)
  note inv' = split_tab_inv [OF inv idx clk rm s]
  have same: "set_tab w idx (ws_tabs w ! idx) = w" by (simp add: list_update_id)
  show ?thesis
  proof (cases rule: tab_split_cases [OF ws_ok_tab_wf [OF ok idx] nt, of i spawn fcs d ratio cwd cur ?env command micros])
    case 1
    with s res Some have "res = Some (Inl SplitTargetMissing)" "w' = w" "ids' = ids"
      by (auto simp: ws_split_pane_with_runtime_def Let_def same)
    with kept show ?thesis by simp
  next
    case (2 err)
    with s res Some have "res = Some (Inl (SpawnFailed err))" "w' = w" "ids' = ids\<lparr>ic_pane := ic_pane ids + 1\<rparr>"
      by (auto simp: ws_split_pane_with_runtime_def Let_def same)
    with kept ids_le_next(2) [OF rm(1)] show ?thesis by simp
  next
    case (3 np t'')
    have r: "r = Inr np" "t' = t''" "ids'' = both_next ids" using 3(2) s by auto
    have w': "w' = register_new_pane_with_number (set_tab w idx t'') (np_pane_id np) (ws_next_public_pane_number w)"
      "res = Some (Inr (idx, np))" "ids' = both_next ids"
      using s res Some r by (auto simp: ws_split_pane_with_runtime_def Let_def)
    show ?thesis
    proof (rule split [OF w'(2) _ _ Some])
      show "ws_inv w' ids'" using inv' r w' by simp
      show "ws_id w' = ws_id w" by (simp add: w'(1) register_new_pane_with_number_def)
      show "mset (ws_entries w') = add_mset (ic_pane ids, pane_state_new (next_tid micros ids)) (mset (ws_entries w))"
        using inv' r 3(3,4) by (simp add: w'(1) register_new_pane_with_number_def)
    qed (use 3(3,4) w'(3) in simp_all)
  qed
qed

lemma create_tab_cases:
  assumes inv: "ws_inv w ids" and clk: "clock_in_range micros" and rm: "ids_room ids" "room w"
    and res: "create_tab_with_runtime spawn w cwd command extra micros ids = Some (res, w', ids')"
  obtains (failed) err where "res = Inl err" "ws_tabs w' = ws_tabs w" "ws_inv w' ids'" "ws_id w' = ws_id w" "ids_le ids ids'"
  | (created) k trm where "res = Inr (k, trm)" "ws_inv w' ids'" "ws_id w' = ws_id w" "k < length (ws_tabs w')"
      "mset (ws_entries w') = add_mset (ic_pane ids, pane_state_new (next_tid micros ids)) (mset (ws_entries w))"
      "ts_id trm = next_tid micros ids" "ids' = both_next ids"
proof -
  let ?n = "ws_next_public_tab_number w"
  let ?w1 = "w\<lparr>ws_next_public_tab_number := ?n + 1\<rparr>"
  let ?env = "launch_env_for_new_pane ?w1 ?n (ws_next_public_pane_number w) extra"
  note inv' = create_tab_inv [OF inv clk rm res]
  obtain r ids'' where t: "tab_new_with_runtime spawn ?n cwd command ?env micros ids = (r, ids'')"
    by (metis surj_pair)
  show ?thesis
  proof (cases rule: tab_new_cases [OF t])
    case (1 err)
    with t res have "res = Inl err" "w' = ?w1" "ids' = ids\<lparr>ic_pane := ic_pane ids + 1\<rparr>"
      by (auto simp: create_tab_with_runtime_def Let_def split: if_splits)
    with failed inv' ids_le_next(2) [OF rm(1)] show ?thesis by simp
  next
    case (2 t' trm)
    let ?w2 = "register_new_pane_with_number ?w1 (tab_root_pane t') (ws_next_public_pane_number w)"
    from t 2 res have w': "w' = ?w2\<lparr>ws_tabs := ws_tabs ?w2 @ [t']\<rparr>" "res = Inr (length (ws_tabs w') - 1, trm)" "ids' = both_next ids"
      by (auto simp: create_tab_with_runtime_def Let_def split: if_splits)
    show ?thesis
    proof (rule created [OF w'(2) inv'])
      show "mset (ws_entries w') = add_mset (ic_pane ids, pane_state_new (next_tid micros ids)) (mset (ws_entries w))"
        using 2 by (simp add: w'(1) entries_def register_new_pane_with_number_def)
    qed (use 2 w' in \<open>simp_all add: register_new_pane_with_number_def\<close>)
  qed
qed

subsection \<open>The session gains a pane\<close>

lemma fresh_in_session:
  assumes ok: "session_ok ids n rs s" and clk: "clock_in_range micros"
  shows "ic_pane ids \<notin> fst ` set (all_entries (as_workspaces s))"
    "next_tid micros ids \<notin> set (tids (all_entries (as_workspaces s)))"
    "next_tid micros ids \<notin> set (as_terminal_runtime_shutdowns s)"
proof -
  have sp: "spaces_ok ids n (as_workspaces s)" and ro: "runtimes_ok ids rs s" using ok by (simp_all add: session_ok_def)
  show "ic_pane ids \<notin> fst ` set (all_entries (as_workspaces s))"
  proof
    assume "ic_pane ids \<in> fst ` set (all_entries (as_workspaces s))"
    then obtain w where w: "w \<in> set (as_workspaces s)" "ic_pane ids \<in> fst ` set (ws_entries w)"
      by (auto simp: set_all_entries)
    with sp have "ids_below ids w" by (simp add: spaces_ok_def ws_inv_def)
    with w(2) have "ic_pane ids < ic_pane ids" unfolding ids_below_def by blast
    then show False by simp
  qed
  show "next_tid micros ids \<notin> set (tids (all_entries (as_workspaces s)))"
    using spaces_ok_issued [OF sp] fresh_terminal_id [OF clk] by blast
  show "next_tid micros ids \<notin> set (as_terminal_runtime_shutdowns s)"
    using ro fresh_terminal_id [OF clk, of ids] unfolding runtimes_ok_def by blast
qed

lemma keys_of_gain:
  "fst ` set (as_terminals s) = A \<Longrightarrow> fst ` set (hm_insert (as_terminals s) t v) = insert t A"
  by (simp add: dom_update_fst)

text \<open>The pane \<open>i\<close> with the terminal \<open>t\<close> joins the workspace at \<open>k\<close>.\<close>

lemma session_ok_gain:
  assumes ok: "session_ok ids n rs s" and k: "k < length (as_workspaces s)"
    and w': "ws_inv w' ids'" "ws_id w' = ws_id (as_workspaces s ! k)" and le: "ids_le ids ids'"
    and m: "mset (ws_entries w') = add_mset (i, p) (mset (ws_entries (as_workspaces s ! k)))" "ps_attached_terminal_id p = t"
    and fresh: "i \<notin> fst ` set (all_entries (as_workspaces s))" "t \<notin> set (tids (all_entries (as_workspaces s)))"
      "t \<notin> set (as_terminal_runtime_shutdowns s)"
    and s': "as_workspaces s' = (as_workspaces s)[k := w']" "as_terminals s' = hm_insert (as_terminals s) t trm"
      "as_active s' = as_active s" "as_selected s' = as_selected s" "as_terminal_runtime_shutdowns s' = as_terminal_runtime_shutdowns s"
  shows "session_ok ids' n (List.insert t rs) s'"
proof -
  let ?w = "as_workspaces s ! k"
  have sp: "spaces_ok ids n (as_workspaces s)" using ok by (simp add: session_ok_def)
  note e = entry_added [OF m(1)]
  have "spaces_ok ids' n ((as_workspaces s)[k := w'])"
    using e(1,4) m(2) fresh(1,2) by (intro spaces_ok_put [OF sp k w' le]) auto
  moreover have "set (tids (all_entries ((as_workspaces s)[k := w']))) = insert t (set (tids (all_entries (as_workspaces s))))"
    using distinct_keys_mset(4) [OF all_entries_split(1) [OF k]]
      distinct_keys_mset(4) [OF all_entries_split(2) [OF k, of w']] e(4) m(2) by simp
  moreover have "hm_ok (hm_insert (as_terminals s) t trm)"
    using session_ok_hm [OF ok] by (rule distinct_update)
  moreover have "fst ` set (hm_insert (as_terminals s) t trm) = insert t (set (tids (all_entries (as_workspaces s))))"
    using ok by (intro keys_of_gain) (simp add: session_ok_def terms_ok_def)
  moreover have "\<forall>x \<in> set (as_terminal_runtime_shutdowns s). issued ids' x"
    using ok le by (auto simp: session_ok_def runtimes_ok_def ids_le_def intro: issued_mono)
  ultimately show ?thesis
    using ok k fresh(3)
    by (auto simp: session_ok_def terms_ok_def cursor_ok_def runtimes_ok_def s')
qed

end
