(* ===== verification/AppSteps.thy ===== *)
theory AppSteps
  imports SessionGrow
begin

section \<open>The requests keep the invariant\<close>

text \<open>
  One lemma per request handler. Handlers that start a terminal need room in the counters of
  pane ids, terminal ids, workspace ids and public numbers, and a clock in its range.
\<close>

definition session_room :: "app_state \<Rightarrow> bool" where
  "session_room s \<longleftrightarrow> (\<forall>w \<in> set (as_workspaces s). room w)"

definition app_room :: "app \<Rightarrow> bool" where
  "app_room a \<longleftrightarrow> session_room (ap_state a) \<and> ids_room (ap_ids a) \<and> unat (ap_next_workspace_id a) + 1 < 2 ^ 64"

lemma app_ok_session: "app_ok a \<Longrightarrow> session_ok (ap_ids a) (ap_next_workspace_id a) (ap_runtimes a) (ap_state a)"
  by (simp add: app_ok_def)

lemma app_ok_state:
  "session_ok (ap_ids a) (ap_next_workspace_id a) (ap_runtimes a) s \<Longrightarrow> app_ok (a\<lparr>ap_state := s\<rparr>)"
  by (simp add: app_ok_def)

lemma app_ok_saved [simp]: "app_ok (schedule_session_save a now) = app_ok a"
  by (simp add: schedule_session_save_def app_ok_def)

lemma get_workspace_nth: "get_workspace s k = Some w \<Longrightarrow> k < length (as_workspaces s) \<and> w = as_workspaces s ! k"
  by (simp add: get_workspace_Some)

subsection \<open>Shutting runtimes down\<close>

lemma shutdown_all_fields:
  "ap_state (foldl shutdown_terminal_runtime a ts) = ap_state a" "ap_ids (foldl shutdown_terminal_runtime a ts) = ap_ids a"
  "ap_next_workspace_id (foldl shutdown_terminal_runtime a ts) = ap_next_workspace_id a"
  "set (ap_runtimes (foldl shutdown_terminal_runtime a ts)) = set (ap_runtimes a) - set ts"
  by (induction ts arbitrary: a) (auto simp: shutdown_terminal_runtime_def)

lemma session_ok_shut:
  assumes "session_ok ids n rs s"
    and "set rs' = set rs - set (as_terminal_runtime_shutdowns s)"
  shows "session_ok ids n rs' (s\<lparr>as_terminal_runtime_shutdowns := []\<rparr>)"
  using assms by (auto simp: session_ok_def terms_ok_def cursor_ok_def runtimes_ok_def)

lemma shutdown_detached_ok:
  assumes "app_ok a"
  shows "app_ok (shutdown_detached_terminal_runtimes a)"
  using session_ok_shut [OF app_ok_session [OF assms]]
  by (simp add: shutdown_detached_terminal_runtimes_def app_ok_def shutdown_all_fields Let_def)

lemma shutdown_detached_runtimes:
  assumes "app_ok a"
  shows "set (ap_runtimes (shutdown_detached_terminal_runtimes a)) = fst ` set (as_terminals (ap_state a))"
  using assms by (auto simp: shutdown_detached_terminal_runtimes_def shutdown_all_fields Let_def app_ok_def session_ok_def runtimes_ok_def)

subsection \<open>Closing\<close>

lemma confirm_close_ok:
  assumes "session_ok ids n rs s" "k < length (as_workspaces s)" "confirm_implicit_worktree_group_close s k = (s', c)"
  shows "session_ok ids n rs s'" "as_workspaces s' = as_workspaces s"
  using assms session_ok_select [OF assms(1,2)]
  by (auto simp: confirm_implicit_worktree_group_close_def split: if_splits)

lemma close_selected_at_ok:
  assumes "session_ok ids n rs s" "k < length (as_workspaces s)"
  shows "session_ok ids n rs (close_selected_workspace (s\<lparr>as_selected := k\<rparr>))"
  by (rule close_selected_ok [OF session_ok_select [OF assms]])

lemma closed_pane_ok:
  assumes ok: "session_ok ids n rs s" and k: "k < length (as_workspaces s)"
    and c: "ws_close_pane (as_workspaces s ! k) i = Some (w', closes)"
    and tid: "gone = (case terminal_id_for_pane s k i of Some t \<Rightarrow> [t] | None \<Rightarrow> [])"
  shows "closes \<Longrightarrow> session_ok ids n rs (close_selected_workspace ((remove_plugin_pane_records (put_workspace s k w') is)\<lparr>as_selected := k\<rparr>))"
    "\<not> closes \<Longrightarrow> session_ok ids n rs (remove_unattached_terminal_ids (remove_plugin_pane_records (put_workspace s k w') is) gone)"
proof -
  have inv: "ws_inv (as_workspaces s ! k) ids" using ok k by (rule session_ok_ws)
  note cases = ws_close_pane_inv [OF inv c]
  show "session_ok ids n rs (close_selected_workspace ((remove_plugin_pane_records (put_workspace s k w') is)\<lparr>as_selected := k\<rparr>))" if closes
    using that cases ok k put_same_workspace [OF k] by (intro close_selected_at_ok) auto
  show "session_ok ids n rs (remove_unattached_terminal_ids (remove_plugin_pane_records (put_workspace s k w') is) gone)" if "\<not> closes"
  proof (cases "w' = as_workspaces s ! k")
    case True
    with k have "put_workspace s k w' = s" by (simp add: put_same_workspace)
    moreover have "as_workspaces s = (as_workspaces s)[k := as_workspaces s ! k]" by simp
    ultimately show ?thesis by (intro session_ok_lose [OF ok k inv refl]) simp_all
  next
    case False
    with cases that obtain p where one: "mset (ws_entries (as_workspaces s ! k)) = add_mset (i, p) (mset (ws_entries w'))"
      and w': "ws_inv w' ids" by auto
    have "(i, p) \<in> set (ws_entries (as_workspaces s ! k))" using one by (metis union_single_eq_member set_mset_mset)
    from terminal_id_for_pane_entry [OF inv k this] tid have "gone = [ps_attached_terminal_id p]" by simp
    with lost_one [OF one] close_pane_fields [OF c] show ?thesis by (intro session_ok_lose [OF ok k w']) simp_all
  qed
qed

lemma api_close_pane_ok:
  assumes ok: "app_ok a" and res: "api_close_pane a target now = Some (a', r)"
  shows "app_ok a'"
proof (cases "parse_pane_id (ap_state a) target")
  case None
  with ok res show ?thesis by (simp add: api_close_pane_def)
next
  case (Some p)
  obtain k i where p: "p = (k, i)" by fastforce
  note so = app_ok_session [OF ok]
  show ?thesis
  proof (cases "session_public_pane_id (ap_state a) k i")
    case None
    with Some p ok res show ?thesis by (simp add: api_close_pane_def)
  next
    case (Some pid)
    note p = \<open>parse_pane_id _ _ = Some p\<close> p Some
    have k: "k < length (as_workspaces (ap_state a))"
      using Some by (auto simp: session_public_pane_id_def get_workspace_Some bind_eq_Some_conv)
    obtain s1 c where s1: "(if close_pane_would_close_workspace (ap_state a) k i
        then confirm_implicit_worktree_group_close (ap_state a) k else (ap_state a, False)) = (s1, c)" by fastforce
    then have ok1: "session_ok (ap_ids a) (ap_next_workspace_id a) (ap_runtimes a) s1" "k < length (as_workspaces s1)"
      using so k confirm_close_ok [OF so k] by (auto split: if_splits)
    note res = res [unfolded api_close_pane_def p(1,2) option.case prod.case p(3), simplified option.simps if_False s1 prod.case]
    show ?thesis
    proof (cases c)
      case True
      with res ok1 show ?thesis by (auto intro: app_ok_state)
    next
      case False
      note res = res [unfolded Let_def]
      obtain w' closes where w': "ws_close_pane (as_workspaces s1 ! k) i = Some (w', closes)"
        using res ok1(2) False by (auto simp: get_workspace_def split: option.splits)
      note closed = closed_pane_ok [OF ok1 w' refl, of "[i]"]
      show ?thesis
        using res ok1(2) w' closed False
        by (cases closes) (auto simp: get_workspace_def app_ok_state shutdown_detached_ok)
    qed
  qed
qed

lemma close_tab_lost:
  assumes inv: "ws_inv w ids" and c: "close_tab w idx = (w', True)"
  shows "idx < length (ws_tabs w)" "ws_id w' = ws_id w" "set (ws_entries w') \<subseteq> set (ws_entries w)"
    "set (tids (ws_entries w)) - set (tids (ws_entries w')) \<subseteq> set (tids (tab_panes (ws_tabs w ! idx)))"
proof -
  have g: "\<not> (length (ws_tabs w) \<le> 1 \<or> length (ws_tabs w) \<le> idx)" using c by (auto simp: close_tab_def)
  then show idx: "idx < length (ws_tabs w)" by simp
  have "ws_id (foldl unregister_pane v is) = ws_id v" for v "is"
    by (induction "is" arbitrary: v) (simp_all add: unregister_pane_def)
  with c g have w': "ws_tabs w' = remove_at idx (ws_tabs w)" "ws_id w' = ws_id w"
    by (auto simp: close_tab_def Let_def active_after_removal_fields)
  have "mset (ws_entries w) = mset (tab_panes (ws_tabs w ! idx) @ ws_entries w')"
    using entries_split(1) [OF idx] w'(1) by simp
  from distinct_keys_mset(3,4) [OF this] w'(2)
  show "ws_id w' = ws_id w" "set (ws_entries w') \<subseteq> set (ws_entries w)"
    "set (tids (ws_entries w)) - set (tids (ws_entries w')) \<subseteq> set (tids (tab_panes (ws_tabs w ! idx)))" by auto
qed

lemma handle_tab_close_ok:
  assumes ok: "app_ok a" and res: "handle_tab_close a target now = Some (a', r)"
  shows "app_ok a'"
proof (cases "parse_tab_id (ap_state a) target")
  case None
  with ok res show ?thesis by (simp add: handle_tab_close_def)
next
  case (Some p)
  obtain k idx where p: "p = (k, idx)" by fastforce
  note so = app_ok_session [OF ok]
  note res = res [unfolded handle_tab_close_def Some p option.case prod.case]
  show ?thesis
  proof (cases "session_public_tab_id (ap_state a) k idx = None \<or> get_workspace (ap_state a) k = None")
    case True
    with ok res show ?thesis by (auto split: if_splits)
  next
    case False
    then have k: "k < length (as_workspaces (ap_state a))" by (auto simp: get_workspace_Some)
    let ?w = "as_workspaces (ap_state a) ! k"
    have gw: "get_workspace (ap_state a) k = Some ?w" using k by (simp add: get_workspace_def)
    show ?thesis
    proof (cases "length (ws_tabs ?w) \<le> 1")
      case True
      obtain s1 c where s1: "confirm_implicit_worktree_group_close (ap_state a) k = (s1, c)" by fastforce
      note ok1 = confirm_close_ok [OF so k s1]
      have "session_ok (ap_ids a) (ap_next_workspace_id a) (ap_runtimes a) (close_selected_workspace (s1\<lparr>as_selected := k\<rparr>))"
        using close_selected_at_ok [OF ok1(1)] k ok1(2) by simp
      with ok1(1) res False gw True s1 show ?thesis
        by (cases c) (auto simp: Let_def intro!: app_ok_state shutdown_detached_ok)
    next
      case False
      obtain w' c where c: "close_tab ?w idx = (w', c)" by fastforce
      note inv = session_ok_ws [OF so k]
      show ?thesis
      proof (cases c)
        case True
        have ct: "close_tab ?w idx = (w', True)" using c True by simp
        note lost = close_tab_lost [OF inv ct]
        have "terminal_ids_for_tab (ap_state a) k idx = tids (tab_panes (ws_tabs ?w ! idx))"
          using lost(1) gw by (simp add: terminal_ids_for_tab_def get_tab_def tids_def case_prod_beta)
        then have "session_ok (ap_ids a) (ap_next_workspace_id a) (ap_runtimes a)
            (remove_unattached_terminal_ids (remove_plugin_pane_records (put_workspace (ap_state a) k w') is)
              (terminal_ids_for_tab (ap_state a) k idx))" for "is"
          using lost(4) by (intro session_ok_lose [OF so k close_tab_inv [OF inv c] lost(2,3)]) simp_all
        with res False \<open>\<not> (_ \<or> _)\<close> gw c True show ?thesis
          by (auto simp: Let_def intro!: app_ok_state shutdown_detached_ok)
      next
        case cf: False
        then have "w' = ?w" using c by (auto simp: close_tab_def Let_def split: if_splits)
        with res False \<open>\<not> (_ \<or> _)\<close> gw c cf put_same_workspace [OF k] ok show ?thesis by (auto simp: Let_def)
      qed
    qed
  qed
qed

lemma handle_workspace_close_ok:
  assumes ok: "app_ok a" and res: "handle_workspace_close a target = Some (a', r)"
  shows "app_ok a'"
  using res ok close_selected_at_ok [OF app_ok_session [OF ok]]
  by (auto simp: handle_workspace_close_def Let_def get_workspace_None split: option.splits if_splits
      intro!: app_ok_state shutdown_detached_ok)

subsection \<open>Focus\<close>

lemma handle_workspace_focus_ok:
  "app_ok a \<Longrightarrow> handle_workspace_focus a target = Some (a', r) \<Longrightarrow> app_ok a'"
  by (auto simp: handle_workspace_focus_def split: option.splits if_splits intro!: app_ok_state switch_workspace_ok app_ok_session)

lemma handle_tab_focus_ok:
  "app_ok a \<Longrightarrow> handle_tab_focus a target = Some (a', r) \<Longrightarrow> app_ok a'"
  by (auto simp: handle_tab_focus_def split: option.splits intro!: app_ok_state switch_workspace_tab_ok app_ok_session)

lemma handle_pane_focus_ok:
  "app_ok a \<Longrightarrow> handle_pane_focus a target = Some (a', r) \<Longrightarrow> app_ok a'"
  by (auto simp: handle_pane_focus_def Let_def split: option.splits
      intro!: app_ok_state mark_seen_ok focus_pane_ok app_ok_session)

lemma handle_pane_focus_direction_ok:
  "app_ok a \<Longrightarrow> handle_pane_focus_direction rn area a target nav = Some (a', r) \<Longrightarrow> app_ok a'"
  by (auto simp: handle_pane_focus_direction_def Let_def split: option.splits if_splits
      intro!: app_ok_state switch_workspace_tab_ok focus_pane_ok app_ok_session)

lemma handle_pane_zoom_ok:
  assumes ok: "app_ok a" and res: "handle_pane_zoom a target command now = Some (a', r)"
  shows "app_ok a'"
proof -
  have "app_ok (a\<lparr>ap_state := fst (apply_pane_zoom (ap_state a) k i command)\<rparr>)" for k i
    using app_ok_session [OF ok] by (intro app_ok_state apply_pane_zoom_ok)
  then have "apply_pane_zoom (ap_state a) k i command = (s1, x) \<Longrightarrow> app_ok (a\<lparr>ap_state := s1\<rparr>)" for k i s1 x
    by (metis fst_conv)
  with res ok show ?thesis
    by (auto simp: handle_pane_zoom_def Let_def split: option.splits if_splits prod.splits)
qed

subsection \<open>Rearranging\<close>

lemma move_tab_keeps:
  assumes "move_tab w a b = (w', c)"
  shows "ws_id w' = ws_id w" "set (ws_entries w') = set (ws_entries w)"
proof (atomize (full), cases c)
  case False
  with assms show "ws_id w' = ws_id w \<and> set (ws_entries w') = set (ws_entries w)"
    by (simp add: move_tab_def Let_def split: if_splits)
next
  case True
  have m: "move_tab w a b = (w', True)" using assms True by simp
  obtain t where t: "a < length (ws_tabs w)" "ws_tabs w' = insert_at t (ws_tabs w ! a) (remove_at a (ws_tabs w))"
      "w' = w\<lparr>ws_tabs := ws_tabs w', ws_active_tab := ws_active_tab w'\<rparr>"
    using move_tab_moved [OF m] by metis
  have "mset (ws_tabs w') = mset (ws_tabs w)" using t mset_remove_at [OF t(1)] by (simp add: mset_insert_at)
  from tabs_ok_perm(2) [OF this] t(3) show "ws_id w' = ws_id w \<and> set (ws_entries w') = set (ws_entries w)"
    by (metis workspace.select_convs(1) workspace.surjective workspace.update_convs(12,13))
qed

lemma handle_tab_move_ok:
  assumes ok: "app_ok a" and res: "handle_tab_move a target b now = Some (a', r)"
  shows "app_ok a'"
proof -
  note so = app_ok_session [OF ok]
  have "app_ok (a\<lparr>ap_state := put_workspace (ap_state a) k w'\<rparr>)"
    if k: "k < length (as_workspaces (ap_state a))" and m: "move_tab (as_workspaces (ap_state a) ! k) x b = (w', c)" for k x w' c
    using move_tab_keeps [OF m] move_tab_inv [OF session_ok_ws [OF so k] m]
    by (intro app_ok_state session_ok_put [OF so k]) (simp_all add: set_tids)
  with res ok show ?thesis
    by (auto simp: handle_tab_move_def get_workspace_Some Let_def split: option.splits if_splits prod.splits)
qed

lemma handle_tab_rename_ok:
  assumes ok: "app_ok a" and res: "handle_tab_rename a target label now = Some (a', r)"
  shows "app_ok a'"
proof -
  have "app_ok (a\<lparr>ap_state := update_tab (ap_state a) k idx (\<lambda>t. tab_set_custom_name t label)\<rparr>)"
    if "get_tab (ap_state a) k idx = Some t" for k idx t
    using that by (intro app_ok_state session_ok_update_tab [OF app_ok_session [OF ok]])
      (auto simp: get_tab_Some tab_set_custom_name_def tab_wf_def)
  with res ok show ?thesis by (auto simp: handle_tab_rename_def split: option.splits)
qed

lemma custom_name_fields:
  "ws_inv (ws_set_custom_name w l) ids = ws_inv w ids" "ws_id (ws_set_custom_name w l) = ws_id w"
  "ws_entries (ws_set_custom_name w l) = ws_entries w"
  by (simp_all add: ws_set_custom_name_def ws_inv_def ws_wf_def ws_ok_def ids_below_def)

lemma rename_workspace_ok:
  assumes "session_ok ids n rs s" "k < length (as_workspaces s)"
  shows "session_ok ids n rs (put_workspace s k (ws_set_custom_name (as_workspaces s ! k) l))"
  using session_ok_ws [OF assms] by (intro session_ok_put [OF assms]) (simp_all add: custom_name_fields)

lemma handle_workspace_rename_ok:
  "app_ok a \<Longrightarrow> handle_workspace_rename a target label now = Some (a', r) \<Longrightarrow> app_ok a'"
  by (auto simp: handle_workspace_rename_def get_workspace_Some split: option.splits
      intro!: app_ok_state rename_workspace_ok app_ok_session)

lemma handle_workspace_move_ok:
  "app_ok a \<Longrightarrow> handle_workspace_move a target b = Some (a', r) \<Longrightarrow> app_ok a'"
  by (auto simp: handle_workspace_move_def split: option.splits if_splits
      intro!: app_ok_state move_workspace_ok app_ok_session)

lemma handle_workspace_move_block_ok:
  assumes ok: "app_ok a" and res: "handle_workspace_move_block a requested before = Some (a', r)"
  shows "app_ok a'"
proof -
  have "app_ok (a\<lparr>ap_state := s1\<rparr>)" if "move_workspace_block (ap_state a) ids b = (s1, x)" for ids b s1 x
    using move_workspace_block_ok [OF app_ok_session [OF ok], of ids b] that by (auto intro: app_ok_state)
  with res ok show ?thesis
    by (auto simp: handle_workspace_move_block_def Let_def split: option.splits if_splits sum.splits prod.splits)
qed

lemma handle_pane_input_set_ok:
  "app_ok a \<Longrightarrow> handle_pane_input_set a target b = Some (a', r) \<Longrightarrow> app_ok a'"
  by (auto simp: handle_pane_input_set_def get_workspace_Some bind_eq_Some_conv split: option.splits
      intro!: app_ok_state set_right_click_ok app_ok_session)

lemma handle_pane_rename_ok:
  "app_ok a \<Longrightarrow> handle_pane_rename a target label = Some (a', r) \<Longrightarrow> app_ok a'"
  by (auto simp: handle_pane_rename_def Let_def split: option.splits if_splits
      intro!: app_ok_state session_ok_set_terminal [THEN session_ok_dirty [THEN iffD2]] app_ok_session)

end
