(* ===== verification/AppOpenSteps.thy ===== *)
theory AppOpenSteps
  imports AppSteps
begin

section \<open>Requests that open a pane keep the invariant\<close>

text \<open>
  The requests of \<open>src/src/app/api\<close> that start a terminal: a split, a new tab and a new workspace, each with its lemma that the
  invariant of the session holds afterwards.
\<close>

lemma attached_new [simp]: "ps_attached_terminal_id (pane_state_new t) = t"
  by (simp add: pane_state_new_def)

lemma session_ok_ids_mono:
  assumes "session_ok ids n rs s" "ids_le ids ids'"
  shows "session_ok ids' n rs s"
  using assms ws_inv_le [OF _ assms(2)]
  by (auto simp: session_ok_def spaces_ok_def runtimes_ok_def ids_le_def intro: issued_mono)

lemma put_put [simp]: "put_workspace (put_workspace s k v) k w = put_workspace s k w"
  by (simp add: put_workspace_def)

subsection \<open>A split\<close>

text \<open>The terminal is stored after the focus moved; neither step sees the other.\<close>

abbreviation tab_exists :: "app_state \<Rightarrow> nat \<Rightarrow> nat \<Rightarrow> bool" where
  "tab_exists s k idx \<equiv> k < length (as_workspaces s) \<and> idx < length (ws_tabs (as_workspaces s ! k))"

lemma record_focus_fields [simp]:
  "as_workspaces (record_pane_focus_change s f k i) = as_workspaces s" "as_terminals (record_pane_focus_change s f k i) = as_terminals s"
  "as_active (record_pane_focus_change s f k i) = as_active s" "as_selected (record_pane_focus_change s f k i) = as_selected s"
  "as_terminal_runtime_shutdowns (record_pane_focus_change s f k i) = as_terminal_runtime_shutdowns s"
  by (simp_all add: record_pane_focus_change_def Let_def split: option.split)

lemma record_navigation_fields [simp]:
  "as_workspaces (record_pane_focus_after_navigation s f) = as_workspaces s"
  "as_terminals (record_pane_focus_after_navigation s f) = as_terminals s"
  "as_active (record_pane_focus_after_navigation s f) = as_active s" "as_selected (record_pane_focus_after_navigation s f) = as_selected s"
  "as_terminal_runtime_shutdowns (record_pane_focus_after_navigation s f) = as_terminal_runtime_shutdowns s"
  by (simp_all add: record_pane_focus_after_navigation_def)

lemma shadow_fields [simp]:
  "as_workspaces (remove_alias_shadowed_by_new_pane s i) = as_workspaces s"
  "as_terminals (remove_alias_shadowed_by_new_pane s i) = as_terminals s"
  "as_active (remove_alias_shadowed_by_new_pane s i) = as_active s" "as_selected (remove_alias_shadowed_by_new_pane s i) = as_selected s"
  "as_terminal_runtime_shutdowns (remove_alias_shadowed_by_new_pane s i) = as_terminal_runtime_shutdowns s"
  by (simp_all add: remove_alias_shadowed_by_new_pane_def)

lemma switch_workspace_tab_fields:
  "as_workspaces (fst (switch_workspace_tab s k idx)) = (if tab_exists s k idx
     then (as_workspaces s)[k := switch_tab (as_workspaces s ! k) idx] else as_workspaces s)"
  "as_terminals (fst (switch_workspace_tab s k idx)) = as_terminals s"
  "as_active (fst (switch_workspace_tab s k idx)) = (if tab_exists s k idx then Some k else as_active s)"
  "as_selected (fst (switch_workspace_tab s k idx)) = (if tab_exists s k idx then k else as_selected s)"
  "as_terminal_runtime_shutdowns (fst (switch_workspace_tab s k idx)) = as_terminal_runtime_shutdowns s"
  by (auto simp: switch_workspace_tab_def get_workspace_def Let_def)

text \<open>A state that shows the same workspaces, cursor and shutdowns may take the terminals over.\<close>

lemma session_ok_take_terminals:
  assumes "session_ok ids n rs s"
    and "as_workspaces s' = as_workspaces s" "as_active s' = as_active s" "as_selected s' = as_selected s"
      "as_terminal_runtime_shutdowns s' = as_terminal_runtime_shutdowns s"
  shows "session_ok ids n rs (s'\<lparr>as_terminals := as_terminals s\<rparr>)"
  by (rule session_ok_cong [OF _ _ _ _ _ _ assms(1)]) (simp_all add: assms session_ok_hm [OF assms(1)])

lemma split_session_ok:
  assumes so: "session_ok ids n rs s" and k: "k < length (as_workspaces s)" and clk: "clock_in_range micros"
    and new: "ws_inv w1 ids'" "ws_id w1 = ws_id (as_workspaces s ! k)" "ids_le ids ids'"
      "mset (ws_entries w1) = add_mset (ic_pane ids, pane_state_new (next_tid micros ids)) (mset (ws_entries (as_workspaces s ! k)))"
  shows "session_ok ids' n (List.insert (next_tid micros ids) rs)
    ((put_workspace s k (set_right_click_passthrough w1 i b))\<lparr>as_terminals := hm_insert (as_terminals s) (next_tid micros ids) trm\<rparr>)"
proof -
  note fresh = fresh_in_session [OF so clk]
  let ?s = "(put_workspace s k w1)\<lparr>as_terminals := hm_insert (as_terminals s) (next_tid micros ids) trm\<rparr>"
  have ok: "session_ok ids' n (List.insert (next_tid micros ids) rs) ?s"
    by (rule session_ok_gain [OF so k new _ fresh]) (simp_all add: pane_state_new_def)
  let ?s' = "put_workspace ?s k (set_right_click_passthrough (as_workspaces ?s ! k) i b)"
  have "session_ok ids' n (List.insert (next_tid micros ids) rs) ?s'"
    using set_right_click_ok [OF ok, of k i b] k by simp
  from session_ok_take_terminals [OF this, of "put_workspace s k (set_right_click_passthrough w1 i b)"] k
  show ?thesis by simp
qed

lemma handle_pane_split_ok:
  assumes ok: "app_ok a" and rm: "app_room a" and clk: "clock_in_range micros"
    and res: "handle_pane_split spawn a target wid d ratio cwd fcs b env micros now = Some (a', r)"
  shows "app_ok a'"
proof -
  let ?s = "ap_state a"
  note so = app_ok_session [OF ok]
  consider "split_target ?s target wid = None" | (err) "\<exists>k c. split_target ?s target wid \<noteq> None \<and> normalize_launch_env env = Inl c"
    | (go) k i extra where "split_target ?s target wid = Some (k, i)" "normalize_launch_env env = Inr extra"
    by (metis not_None_eq sum.exhaust surj_pair)
  then show ?thesis
  proof cases
    case (go k i extra)
    note res = res [unfolded handle_pane_split_def go option.case prod.case sum.case Let_def]
    show ?thesis
    proof (cases "get_workspace ?s k")
      case None
      with res ok show ?thesis by simp
    next
      case (Some w)
      then have k: "k < length (as_workspaces ?s)" and w: "w = as_workspaces ?s ! k" by (auto simp: get_workspace_Some)
      have rmw: "room w" "ids_room (ap_ids a)" using rm k by (auto simp: app_room_def session_room_def w)
      obtain sr w1 ids' where sp: "ws_split_pane_with_runtime spawn w i d ratio (Some cwd) None extra fcs LoginShell micros (ap_ids a)
          = Some (sr, w1, ids')"
        using res Some by (auto split: option.splits)
      have inv: "ws_inv w (ap_ids a)" using session_ok_ws [OF so k] by (simp add: w)
      note res = res [unfolded Some option.case sp prod.case]
      show ?thesis
      proof (cases rule: ws_split_cases [OF inv clk rmw(2,1) sp])
        case 1
        with session_ok_ids_mono [OF so 1(3)] put_same_workspace [OF k] res w show ?thesis
          by (auto simp: app_ok_def)
      next
        case (2 idx np)
        let ?t = "next_tid micros (ap_ids a)"
        let ?s1 = "put_workspace ?s k (set_right_click_passthrough w1 (np_pane_id np) b)"
        let ?m = "hm_insert (as_terminals ?s) ?t (np_terminal np)"
        have "session_ok ids' (ap_next_workspace_id a) (List.insert ?t (ap_runtimes a)) (?s1\<lparr>as_terminals := ?m\<rparr>)"
          using split_session_ok [OF so k clk 2(2)] 2 ids_le_next(1) [OF rmw(2)] by (simp add: w)
        then have base: "session_ok ids' (ap_next_workspace_id a) (List.insert ?t (ap_runtimes a)) (?s1\<lparr>as_terminals := ?m\<rparr>)" .
        have "session_ok ids' (ap_next_workspace_id a) (List.insert ?t (ap_runtimes a)) (s4\<lparr>as_terminals := ?m\<rparr>)"
          if "s4 = remove_alias_shadowed_by_new_pane s3 j"
            "s3 = (if fcs then record_pane_focus_change (fst (switch_workspace_tab ?s1 k idx)) f k j else ?s1)" for s3 s4 f j
        proof (cases fcs)
          case True
          have "session_ok ids' (ap_next_workspace_id a) (List.insert ?t (ap_runtimes a))
              (s4\<lparr>as_terminals := as_terminals (fst (switch_workspace_tab (?s1\<lparr>as_terminals := ?m\<rparr>) k idx))\<rparr>)"
            by (rule session_ok_take_terminals [OF switch_workspace_tab_ok [OF base]])
              (use k in \<open>simp_all add: that True switch_workspace_tab_fields\<close>)
          then show ?thesis by (simp add: switch_workspace_tab_fields)
        next
          case False
          have "session_ok ids' (ap_next_workspace_id a) (List.insert ?t (ap_runtimes a))
              (s4\<lparr>as_terminals := as_terminals (?s1\<lparr>as_terminals := ?m\<rparr>)\<rparr>)"
            by (rule session_ok_take_terminals [OF base]) (simp_all add: that False)
          then show ?thesis by simp
        qed
        from this [OF refl refl] res 2 show ?thesis
          by (auto simp: Let_def app_ok_def insert_runtime_def schedule_session_save_def switch_workspace_tab_fields split: if_splits)
      qed
    qed
  qed (use res ok in \<open>auto simp: handle_pane_split_def\<close>)
qed

subsection \<open>A new tab\<close>

lemma handle_tab_create_ok:
  assumes ok: "app_ok a" and rm: "app_room a" and clk: "clock_in_range micros"
    and res: "handle_tab_create spawn a wid cwd fcs label env micros now = Some (a', r)"
  shows "app_ok a'"
proof -
  let ?s = "ap_state a"
  note so = app_ok_session [OF ok]
  let ?k = "case wid of Some i \<Rightarrow> parse_workspace_id ?s i | None \<Rightarrow> as_active ?s"
  consider (none) "?k = None \<or> (\<exists>k. ?k = Some k \<and> (\<exists>c. normalize_launch_env env = Inl c) \<or> ?k = Some k \<and> get_workspace ?s k = None)"
    | (go) k extra w where "?k = Some k" "normalize_launch_env env = Inr extra" "get_workspace ?s k = Some w"
    by (metis not_None_eq sum.exhaust)
  then show ?thesis
  proof cases
    case none
    with res ok show ?thesis by (auto simp: handle_tab_create_def split: sum.splits option.splits)
  next
    case (go k extra w)
    then have k: "k < length (as_workspaces ?s)" and w: "w = as_workspaces ?s ! k" by (auto simp: get_workspace_Some)
    have rmw: "room w" "ids_room (ap_ids a)" using rm k by (auto simp: app_room_def session_room_def w)
    have inv: "ws_inv w (ap_ids a)" using session_ok_ws [OF so k] by (simp add: w)
    note res = res [unfolded handle_tab_create_def go option.case sum.case]
    obtain cr w1 ids' where ct: "create_tab_with_runtime spawn w cwd LoginShell extra micros (ap_ids a) = Some (cr, w1, ids')"
      using res by (auto split: option.splits)
    note res = res [unfolded ct option.case prod.case]
    show ?thesis
    proof (cases rule: create_tab_cases [OF inv clk rmw(2,1) ct])
      case (1 err)
      have "session_ok ids' (ap_next_workspace_id a) (ap_runtimes a) (put_workspace ?s k w1)"
        using 1 by (intro session_ok_put [OF session_ok_ids_mono [OF so 1(5)] k]) (simp_all add: w)
      with 1(1) res show ?thesis by (auto simp: app_ok_def)
    next
      case (2 idx trm)
      let ?t = "next_tid micros (ap_ids a)"
      let ?rs = "List.insert ?t (ap_runtimes a)"
      let ?s1 = "(put_workspace ?s k w1)\<lparr>as_terminals := hm_insert (as_terminals ?s) ?t trm\<rparr>"
      note new = 2(5) [unfolded w]
      let ?s2 = "remove_alias_shadowed_by_new_pane ?s1 (tab_root_pane (ws_tabs w1 ! idx))"
      have ok1: "session_ok ids' (ap_next_workspace_id a) ?rs ?s1"
        by (rule session_ok_gain [OF so k 2(2) _ _ new attached_new fresh_in_session [OF so clk]])
          (use 2 ids_le_next(1) [OF rmw(2)] in \<open>simp_all add: w\<close>)
      have ok3: "session_ok ids' (ap_next_workspace_id a) ?rs
          (case label of None \<Rightarrow> ?s2 | Some l \<Rightarrow> update_tab ?s2 k idx (\<lambda>t. tab_set_custom_name t l))"
        using ok1 k 2(4) by (auto split: option.split intro!: session_ok_update_tab simp: tab_set_custom_name_def tab_wf_def)
      from res 2(1,6) have "ap_ids a' = ids'" "ap_next_workspace_id a' = ap_next_workspace_id a" "ap_runtimes a' = ?rs"
        "ap_state a' = (if fcs then fst (switch_workspace_tab (case label of None \<Rightarrow> ?s2
            | Some l \<Rightarrow> update_tab ?s2 k idx (\<lambda>t. tab_set_custom_name t l)) k idx)
          else (case label of None \<Rightarrow> ?s2 | Some l \<Rightarrow> update_tab ?s2 k idx (\<lambda>t. tab_set_custom_name t l)))"
        by (auto simp: Let_def insert_runtime_def schedule_session_save_def cong: option.case_cong)
      with ok3 switch_workspace_tab_ok [OF ok3] show ?thesis by (simp add: app_ok_def)
    qed
  qed
qed

subsection \<open>A new workspace\<close>

lemma next_workspace_id:
  assumes "0 < n" "unat (n :: u64) + 1 < 2 ^ 64"
  shows "n < n + 1" "0 < n + 1" "named_below (n + 1) (fst (generate_workspace_id n))"
proof -
  show lt: "n < n + 1" using word_Suc_greater assms(2) by blast
  with assms(1) show "0 < n + 1" by (rule less_trans)
  show "named_below (n + 1) (fst (generate_workspace_id n))" using assms(1) lt by (auto simp: named_below_def)
qed

lemma spaces_ok_fresh_id:
  "spaces_ok ids n ws \<Longrightarrow> fst (generate_workspace_id n) \<notin> ws_id ` set ws"
  using named_below_fresh unfolding spaces_ok_def by fastforce

text \<open>A workspace with one pane joins the session at the end.\<close>

lemma session_ok_join:
  assumes so: "session_ok ids n rs s" and n: "unat n + 1 < 2 ^ 64" and le: "ids_le ids ids'"
    and w: "ws_inv w ids'" "ws_id w = fst (generate_workspace_id n)" "ws_entries w = [(i, p)]"
    and fresh: "i \<notin> fst ` set (all_entries (as_workspaces s))"
      "ps_attached_terminal_id p \<notin> set (tids (all_entries (as_workspaces s)))"
  shows "spaces_ok ids' (n + 1) (as_workspaces s @ [w])"
proof -
  have sp: "spaces_ok ids n (as_workspaces s)" using so by (simp add: session_ok_def)
  then have n0: "0 < n" by (simp add: spaces_ok_def)
  note nx = next_workspace_id [OF n0 n]
  show "spaces_ok ids' (n + 1) (as_workspaces s @ [w])"
    using nx spaces_ok_fresh_id [OF sp] fresh
    by (intro spaces_ok_new [OF sp _ w(1) le]) (simp_all add: w(2,3) tids_def less_imp_le)
qed

lemma create_workspace_ok:
  assumes ok: "app_ok a" and rm: "app_room a" and clk: "clock_in_range micros"
    and res: "create_workspace_with_launch_env spawn discover a cwd fcs extra micros now = (a', r)"
  shows "app_ok a'" "r = Inr k \<Longrightarrow> k < length (as_workspaces (ap_state a'))"
proof -
  let ?s = "ap_state a" and ?n = "ap_next_workspace_id a"
  note so = app_ok_session [OF ok]
  have rmi: "ids_room (ap_ids a)" "unat ?n + 1 < 2 ^ 64" using rm by (simp_all add: app_room_def)
  let ?wid = "fst (generate_workspace_id ?n)"
  let ?env = "with_identity (launch_env_from_extra extra) ?wid (public_tab_id_for_number ?wid 1) (public_pane_id_for_number ?wid 1)"
  obtain tr ids' where t: "tab_new_with_runtime spawn 1 cwd LoginShell ?env micros (ap_ids a) = (tr, ids')" by fastforce
  have gen: "snd (generate_workspace_id ?n) = ?n + 1" by (simp add: generate_workspace_id_def)
  have n0: "0 < ?n" using so by (simp add: session_ok_def spaces_ok_def)
  note nx = next_workspace_id [OF n0 rmi(2)]
  have "app_ok a' \<and> (\<forall>k. r = Inr k \<longrightarrow> k < length (as_workspaces (ap_state a')))"
  proof (cases rule: tab_new_cases [OF t])
    case (1 err)
    have "spaces_ok ids' (?n + 1) (as_workspaces ?s)"
      using so ids_le_next(2) [OF rmi(1)] nx 1(2) ws_inv_le
      by (fastforce simp: session_ok_def spaces_ok_def named_below_def)
    moreover have "session_ok ids' ?n (ap_runtimes a) ?s"
      using session_ok_ids_mono [OF so] ids_le_next(2) [OF rmi(1)] 1(2) by simp
    ultimately have "session_ok ids' (?n + 1) (ap_runtimes a) ?s" by (simp add: session_ok_def)
    with t 1 res gen show ?thesis
      by (auto simp: create_workspace_with_launch_env_def ws_new_with_tab_def case_prod_beta Let_def app_ok_def)
  next
    case (2 t' trm)
    let ?w = "new_workspace discover ?wid None cwd t'" and ?t = "next_tid micros (ap_ids a)"
    have nw: "ws_new_with_tab spawn discover cwd LoginShell extra micros (ap_ids a) ?n = (Inr (?w, trm), ids', ?n + 1)"
      using t 2 gen by (simp add: ws_new_with_tab_def case_prod_beta Let_def)
    have inv: "ws_inv ?w ids'" by (rule new_with_tab_inv [OF clk rmi(1) nw])
    note fresh = fresh_in_session [OF so clk]
    have le: "ids_le (ap_ids a) ids'" using ids_le_next(1) [OF rmi(1)] 2(2) by simp
    have e: "ws_id ?w = ?wid" "ws_entries ?w = [(ic_pane (ap_ids a), pane_state_new ?t)]"
      using 2 by (simp_all add: new_workspace_def entries_def)
    have join: "spaces_ok ids' (?n + 1) (as_workspaces ?s @ [?w])"
      by (rule session_ok_join [OF so rmi(2) le inv e fresh(1)]) (simp add: fresh(2))
    have joint: "set (tids (all_entries (as_workspaces ?s @ [?w]))) = insert ?t (set (tids (all_entries (as_workspaces ?s))))"
      by (auto simp: e(2) tids_def)
    let ?m = "hm_insert (as_terminals ?s) ?t trm"
    let ?s1 = "?s\<lparr>as_terminals := ?m, as_workspaces := as_workspaces ?s @ [?w]\<rparr>"
    let ?s2 = "remove_alias_shadowed_by_new_pane ?s1 (tab_root_pane t')"
    let ?rs = "List.insert ?t (ap_runtimes a)"
    have keys: "fst ` set ?m = insert ?t (set (tids (all_entries (as_workspaces ?s))))"
      using so by (intro keys_of_gain) (simp add: session_ok_def terms_ok_def)
    have hm: "hm_ok ?m" using session_ok_hm [OF so] by (rule distinct_update)
    have terms: "terms_ok ?s1" using keys joint hm by (simp add: terms_ok_def)
    have runs: "runtimes_ok ids' ?rs ?s1"
      using so keys le fresh(3) by (auto simp: session_ok_def runtimes_ok_def terms_ok_def ids_le_def intro: issued_mono)
    have sw: "session_ok ids' (?n + 1) ?rs (switch_workspace ?s2 (length (as_workspaces ?s)))"
    proof -
      have "session_ok ids' (?n + 1) ?rs (?s2\<lparr>as_active := Some (length (as_workspaces ?s)), as_selected := length (as_workspaces ?s)\<rparr>)"
        using terms runs join
        by (simp add: session_ok_def terms_ok_def runtimes_ok_def cursor_ok_def remove_alias_shadowed_by_new_pane_def)
      from session_ok_switch_tab [OF this, of "length (as_workspaces ?s)"]
      have "session_ok ids' (?n + 1) ?rs (put_workspace (?s2\<lparr>as_active := Some (length (as_workspaces ?s)),
          as_selected := length (as_workspaces ?s)\<rparr>) (length (as_workspaces ?s)) (switch_tab ?w (ws_active_tab ?w)))" by simp
      then have "session_ok ids' (?n + 1) ?rs (put_workspace (mark_session_dirty (?s2\<lparr>as_active := Some (length (as_workspaces ?s)),
          as_selected := length (as_workspaces ?s)\<rparr>)) (length (as_workspaces ?s)) (switch_tab ?w (ws_active_tab ?w)))"
        by (rule session_ok_cong [rotated 6]) (simp_all add: hm)
      then show ?thesis by (simp add: switch_workspace_def Let_def)
    qed
    have stay: "session_ok ids' (?n + 1) ?rs ?s2" if "as_active ?s \<noteq> None"
    proof -
      from that so have "as_workspaces ?s \<noteq> []" by (auto simp: session_ok_def cursor_ok_def)
      with so have "cursor_ok ?s2" by (auto simp: session_ok_def cursor_ok_def is_some_and_iff)
      then show ?thesis using terms runs join by (simp add: session_ok_def terms_ok_def runtimes_ok_def remove_alias_shadowed_by_new_pane_def)
    qed
    have len: "length (as_workspaces (switch_workspace ?s2 k)) = length (as_workspaces ?s) + 1" for k
      by (simp add: switch_workspace_def Let_def)
    from res nw 2(8) have "a' = schedule_session_save (insert_runtime (a\<lparr>ap_ids := ids', ap_next_workspace_id := ?n + 1\<rparr>) ?t
        \<lparr>ap_state := (if fcs \<or> as_active ?s = None then switch_workspace ?s2 (length (as_workspaces ?s)) else ?s2)\<rparr>) now"
      "r = Inr (length (as_workspaces ?s))"
      by (auto simp: create_workspace_with_launch_env_def Let_def insert_runtime_def new_workspace_def)
    with sw stay len show ?thesis
      by (auto simp: app_ok_def insert_runtime_def schedule_session_save_def)
  qed
  then show "app_ok a'" "r = Inr k \<Longrightarrow> k < length (as_workspaces (ap_state a'))" by auto
qed

lemma handle_workspace_create_ok:
  assumes ok: "app_ok a" and rm: "app_room a" and clk: "clock_in_range micros"
    and res: "handle_workspace_create spawn discover a cwd fcs label env micros now = Some (a', r)"
  shows "app_ok a'"
proof (cases "normalize_launch_env env")
  case (Inl c)
  with res ok show ?thesis by (simp add: handle_workspace_create_def)
next
  case (Inr extra)
  obtain a1 r1 where c: "create_workspace_with_launch_env spawn discover a cwd fcs extra micros now = (a1, r1)" by fastforce
  note ok1 = create_workspace_ok [OF ok rm clk c]
  have "app_ok (a1\<lparr>ap_state := put_workspace (ap_state a1) k (ws_set_custom_name (as_workspaces (ap_state a1) ! k) l)\<rparr>)"
    if "k < length (as_workspaces (ap_state a1))" for k l
    using that by (intro app_ok_state rename_workspace_ok app_ok_session [OF ok1(1)])
  with res Inr c ok1 show ?thesis
    by (auto simp: handle_workspace_create_def Let_def get_workspace_Some split: sum.splits option.splits)
qed

end
