(* ===== verification/PaneMoveSteps.thy ===== *)
theory PaneMoveSteps
  imports AppOpenSteps SessionHandles
begin

section \<open>A checked pane move succeeds and keeps the invariant\<close>

text \<open>
  Once the request is checked, taking the pane out and putting it where it goes cannot fail: the
  destination is found again by its handle although indices may have shifted, and its target
  pane is still there. The recovery of a failed move is never reached from a session that
  keeps the invariant.
\<close>

subsection \<open>Taking the pane\<close>

lemma nth_mem_remove_at:
  assumes "i < length xs" "j < length xs" "j \<noteq> i"
  shows "xs ! j \<in> set (remove_at i xs)"
proof (cases "j < i")
  case True
  then have "remove_at i xs ! j = xs ! j" using assms by (simp add: remove_at_def nth_append)
  moreover have "j < length (remove_at i xs)" using True assms by simp
  ultimately show ?thesis by (metis nth_mem)
next
  case False
  then obtain k where "j = Suc k" "i \<le> k" using assms(3) by (cases j) auto
  then have "remove_at i xs ! (j - 1) = xs ! j" using assms by (simp add: remove_at_def nth_append)
  moreover have "j - 1 < length (remove_at i xs)" using False assms by simp
  ultimately show ?thesis by (metis nth_mem)
qed

lemma ws_take_total:
  assumes inv: "ws_inv w ids" and i: "find_tab_index_for_pane w i = Some idx"
  obtains w1 tk where "ws_take_pane_for_move w i = Some (w1, Some tk)"
    "\<And>j. j < length (ws_tabs w) \<Longrightarrow> j \<noteq> idx \<Longrightarrow> ws_tabs w ! j \<in> set (ws_tabs w1)"
proof -
  from find_tab_index_Some [OF i] obtain p where idx: "idx < length (ws_tabs w)"
    and p: "hm_get (tab_panes (ws_tabs w ! idx)) i = Some p" .
  note wf = ws_inv_tab_wf [OF inv idx]
  show ?thesis
  proof (cases "length (tab_pane_ids (ws_tabs w ! idx)) \<le> 1")
    case True
    let ?w1 = "adjust_active_tab_after_removal (w\<lparr>ws_tabs := remove_at idx (ws_tabs w)\<rparr>) idx"
    have "ws_take_pane_for_move w i = Some (?w1, Some \<lparr>tp_moved = \<lparr>mp_pane_id = i, mp_pane_state = p\<rparr>,
        tp_removed_tab_idx = Some idx, tp_workspace_empty = (ws_tabs ?w1 = [])\<rparr>)"
      using i True tab_take_last [OF wf True p]
      by (auto simp add: ws_take_pane_for_move_def pane_count_ids tab_pane_ids_def Let_def)
    moreover have "ws_tabs w ! j \<in> set (ws_tabs ?w1)" if "j < length (ws_tabs w)" "j \<noteq> idx" for j
      using nth_mem_remove_at [OF idx that] by (simp add: adjust_active_fields)
    ultimately show ?thesis by (rule that)
  next
    case False
    then have many: "1 < length (tab_pane_ids (ws_tabs w ! idx))" by simp
    from detach_pane_cases [OF wf many p] obtain t' where
      "tab_take_pane_for_move (ws_tabs w ! idx) i = Some (t', Some \<lparr>mp_pane_id = i, mp_pane_state = p\<rparr>)" by metis
    with i False have "ws_take_pane_for_move w i = Some (set_tab w idx t', Some \<lparr>tp_moved = \<lparr>mp_pane_id = i, mp_pane_state = p\<rparr>,
        tp_removed_tab_idx = None, tp_workspace_empty = False\<rparr>)"
      by (simp add: ws_take_pane_for_move_def pane_count_ids tab_pane_ids_def)
    moreover have "ws_tabs w ! j \<in> set (ws_tabs (set_tab w idx t'))" if "j < length (ws_tabs w)" "j \<noteq> idx" for j
      using that nth_mem [of j "(ws_tabs w)[idx := t']"] by simp
    ultimately show ?thesis by (rule that)
  qed
qed

subsection \<open>Putting it into a workspace\<close>

lemma insert_existing_succeeds:
  assumes "target \<in> set (tab_pane_ids t)" "mp_pane_id moved \<notin> set (tab_pane_ids t)"
  shows "\<exists>t'. insert_existing_pane t target moved d ratio fcs = (t', Inr (mp_pane_id moved))"
  using assms by (auto simp: insert_existing_pane_def insert_pane_near_def tab_pane_ids_def Let_def)

text \<open>Into a tab: the workspace may still hold the number of the pane it just lost.\<close>

lemma place_in_tab:
  assumes ok: "ws_ok out w" "out \<subseteq> {mp_pane_id moved}" and below: "ids_below ids w" and rm: "room w"
    and pl: "placeable ids w moved" and idx: "idx < length (ws_tabs w)" and tgt: "target \<in> set (tab_pane_ids (ws_tabs w ! idx))"
  obtains w' where "insert_moved_pane_into_tab w idx target moved d ratio fcs = (w', Inr (mp_pane_id moved))"
    "ws_inv w' ids" "ws_id w' = ws_id w" "idx < length (ws_tabs w')"
    "mset (ws_entries w') = add_mset (mp_pane_id moved, mp_pane_state moved) (mset (ws_entries w))"
proof -
  have "mp_pane_id moved \<notin> set (tab_pane_ids (ws_tabs w ! idx))"
    using tab_keys_subset [OF ok(1) idx] pl by (auto simp: placeable_def)
  from insert_existing_succeeds [OF tgt this] obtain t'
    where t': "insert_existing_pane (ws_tabs w ! idx) target moved d ratio fcs = (t', Inr (mp_pane_id moved))" by blast
  let ?w' = "register_if_missing (set_tab w idx t') (mp_pane_id moved)"
  have ins: "insert_moved_pane_into_tab w idx target moved d ratio fcs = (?w', Inr (mp_pane_id moved))"
    using t' idx by (simp add: insert_moved_pane_into_tab_def)
  from insert_moved_ok [OF ok below rm pl ins] show ?thesis
    by (intro that [OF ins]) (use idx in \<open>simp_all add: register_if_missing_fields\<close>)
qed

lemma place_in_new_tab:
  assumes ok: "ws_ok out w" "out \<subseteq> {mp_pane_id moved}" and below: "ids_below ids w" and rm: "room w"
    and pl: "placeable ids w moved"
  obtains w' k where "create_tab_from_existing_pane w moved label = (w', k)" "k < length (ws_tabs w')"
    "ws_inv w' ids" "ws_id w' = ws_id w"
    "mset (ws_entries w') = add_mset (mp_pane_id moved, mp_pane_state moved) (mset (ws_entries w))"
proof -
  obtain w' k where c: "create_tab_from_existing_pane w moved label = (w', k)" by fastforce
  moreover have "ws_id w' = ws_id w"
    using c by (auto simp: create_tab_from_existing_pane_def Let_def register_if_missing_fields)
  ultimately show ?thesis using create_from_existing_ok [OF ok below rm pl c] that by blast
qed

subsection \<open>The session while the pane is out\<close>

definition parts_ok :: "id_counters \<Rightarrow> u64 \<Rightarrow> rstr list \<Rightarrow> app_state \<Rightarrow> bool" where
  "parts_ok ids n rs s \<longleftrightarrow> spaces_ok ids n (as_workspaces s) \<and> terms_ok s \<and> runtimes_ok ids rs s"

text \<open>The terminal of the pane is still there, the pane is not.\<close>

definition out_ok :: "id_counters \<Rightarrow> u64 \<Rightarrow> rstr list \<Rightarrow> moved_pane \<Rightarrow> app_state \<Rightarrow> bool" where
  "out_ok ids n rs mv s \<longleftrightarrow> spaces_ok ids n (as_workspaces s) \<and> cursor_ok s \<and> runtimes_ok ids rs s
     \<and> hm_ok (as_terminals s)
     \<and> fst ` set (as_terminals s) = insert (ps_attached_terminal_id (mp_pane_state mv)) (set (tids (all_entries (as_workspaces s))))
     \<and> mp_pane_id mv < ic_pane ids \<and> mp_pane_id mv \<notin> fst ` set (all_entries (as_workspaces s))
     \<and> issued ids (ps_attached_terminal_id (mp_pane_state mv))
     \<and> ps_attached_terminal_id (mp_pane_state mv) \<notin> set (tids (all_entries (as_workspaces s)))"

lemma switch_parts_ok:
  assumes "parts_ok ids n rs s" "tab_exists s k idx"
  shows "session_ok ids n rs (fst (switch_workspace_tab s k idx))"
proof -
  have "session_ok ids n rs (mark_session_dirty (s\<lparr>as_active := Some k, as_selected := k\<rparr>))"
    using assms by (auto simp: parts_ok_def session_ok_def terms_ok_def cursor_ok_def runtimes_ok_def)
  from session_ok_switch_tab [OF this, of k idx] assms(2) show ?thesis
    by (simp add: switch_workspace_tab_def Let_def get_workspace_def)
qed

lemma out_placeable:
  assumes "out_ok ids n rs mv s" "k < length (as_workspaces s)"
  shows "ws_ok {} (as_workspaces s ! k)" "ids_below ids (as_workspaces s ! k)" "placeable ids (as_workspaces s ! k) mv"
proof -
  have inv: "ws_inv (as_workspaces s ! k) ids" using assms spaces_ok_nth by (auto simp: out_ok_def)
  then show "ws_ok {} (as_workspaces s ! k)" "ids_below ids (as_workspaces s ! k)" by (simp_all add: ws_inv_def ws_wf_def)
  have "fst ` set (ws_entries (as_workspaces s ! k)) \<subseteq> fst ` set (all_entries (as_workspaces s))"
    "set (tids (ws_entries (as_workspaces s ! k))) \<subseteq> set (tids (all_entries (as_workspaces s)))"
    using ws_entries_subset [OF assms(2)] by (auto simp: set_tids)
  with assms(1) show "placeable ids (as_workspaces s ! k) mv" by (auto simp: out_ok_def placeable_def)
qed

lemma tids_single: "tids [(i, p)] = [ps_attached_terminal_id p]"
  by (simp add: tids_def)

text \<open>The pane lands in a workspace of the session, or in one of its own.\<close>

lemma out_lands:
  assumes out: "out_ok ids n rs mv s" and k: "k < length (as_workspaces s)"
    and w': "ws_inv w' ids" "ws_id w' = ws_id (as_workspaces s ! k)"
    and m: "mset (ws_entries w') = add_mset (mp_pane_id mv, mp_pane_state mv) (mset (ws_entries (as_workspaces s ! k)))"
  shows "session_ok ids n rs (put_workspace s k w')"
proof -
  let ?ws = "as_workspaces s" and ?t = "ps_attached_terminal_id (mp_pane_state mv)"
  have sp: "spaces_ok ids n ?ws" using out by (simp add: out_ok_def)
  note e = entry_added [OF m]
  have "spaces_ok ids n (?ws[k := w'])"
    using e(1,4) out by (intro spaces_ok_put [OF sp k w']) (auto simp: out_ok_def)
  moreover have "set (tids (all_entries (?ws[k := w']))) = insert ?t (set (tids (all_entries ?ws)))"
    using distinct_keys_mset(4) [OF all_entries_split(1) [OF k]]
      distinct_keys_mset(4) [OF all_entries_split(2) [OF k, of w']] e(4) by simp
  ultimately show ?thesis
    using out k by (auto simp: session_ok_def out_ok_def terms_ok_def cursor_ok_def runtimes_ok_def)
qed

lemma out_founds:
  assumes out: "out_ok ids n rs mv s" and n: "unat n + 1 < 2 ^ 64"
    and w: "ws_from_existing_pane discover label tab_label cwd mv n = (w, n')"
  shows "parts_ok ids n' rs (s\<lparr>as_workspaces := as_workspaces s @ [w]\<rparr>)" "ws_tabs w = [tab_from_existing_pane 1 tab_label mv]"
proof -
  let ?ws = "as_workspaces s" and ?t = "ps_attached_terminal_id (mp_pane_state mv)"
  have n': "n' = n + 1" using w by (auto simp: ws_from_existing_pane_def generate_workspace_id_def Let_def)
  have sp: "spaces_ok ids n ?ws" using out by (simp add: out_ok_def)
  have inv: "ws_inv w ids" using out by (intro from_existing_inv [OF _ _ w]) (simp_all add: out_ok_def)
  show tabs: "ws_tabs w = [tab_from_existing_pane 1 tab_label mv]"
    using w by (auto simp: ws_from_existing_pane_def new_workspace_def Let_def case_prod_beta)
  have wid: "ws_id w = fst (generate_workspace_id n)"
    using w by (auto simp: ws_from_existing_pane_def new_workspace_def Let_def case_prod_beta)
  have e: "ws_entries w = [(mp_pane_id mv, mp_pane_state mv)]"
    by (simp add: tabs entries_def tab_from_existing_wf)
  have n0: "0 < n" using sp by (simp add: spaces_ok_def)
  note nx = next_workspace_id [OF n0 n]
  have "spaces_ok ids (n + 1) (?ws @ [w])"
    using nx spaces_ok_fresh_id [OF sp] out
    by (intro spaces_ok_new [OF sp _ inv ids_le_refl]) (simp_all add: wid e tids_def less_imp_le out_ok_def)
  with out show "parts_ok ids n' rs (s\<lparr>as_workspaces := ?ws @ [w]\<rparr>)"
    by (auto simp: n' parts_ok_def out_ok_def terms_ok_def runtimes_ok_def e tids_single)
qed

subsection \<open>Checked requests\<close>

text \<open>What a resolved destination names, with \<open>k\<close> and \<open>idx\<close> the place the pane comes from.\<close>

definition tab_named :: "app_state \<Rightarrow> nat \<Rightarrow> nat \<Rightarrow> rstr \<Rightarrow> pane_id \<Rightarrow> bool" where
  "tab_named s tw tt h p \<longleftrightarrow> tab_exists s tw tt
     \<and> h = public_tab_id_for_number (ws_id (as_workspaces s ! tw)) (tab_number (ws_tabs (as_workspaces s ! tw) ! tt))
     \<and> p \<in> set (tab_pane_ids (ws_tabs (as_workspaces s ! tw) ! tt))"

definition dest_ok :: "app_state \<Rightarrow> nat \<Rightarrow> nat \<Rightarrow> resolved_destination \<Rightarrow> bool" where
  "dest_ok s k idx r = (case r of
     ExistingTab h p _ _ cross \<Rightarrow> \<exists>tw tt. tab_named s tw tt h p \<and> (tw, tt) \<noteq> (k, idx) \<and> cross = (k \<noteq> tw)
   | NewTab wid _ \<Rightarrow> \<exists>tw < length (as_workspaces s). wid = ws_id (as_workspaces s ! tw)
   | NewWorkspace _ _ \<Rightarrow> True)"

lemma parse_tab_exists: "parse_tab_id s h = Some (k, idx) \<Longrightarrow> tab_exists s k idx"
  by (auto simp: parse_tab_id_def bind_eq_Some_conv get_tab_Some split: option.splits prod.splits)

lemma session_ok_tab_wf:
  "session_ok ids n rs s \<Longrightarrow> tab_exists s k idx \<Longrightarrow> tab_wf (ws_tabs (as_workspaces s ! k) ! idx)"
  using ws_inv_tab_wf [OF session_ok_ws] by blast

lemma found_tab_pane:
  assumes "session_ok ids n rs s" "k < length (as_workspaces s)" "find_tab_index_for_pane (as_workspaces s ! k) p = Some idx"
  shows "tab_exists s k idx" "p \<in> set (tab_pane_ids (ws_tabs (as_workspaces s ! k) ! idx))"
proof -
  obtain q where q: "idx < length (ws_tabs (as_workspaces s ! k))"
    "hm_get (tab_panes (ws_tabs (as_workspaces s ! k) ! idx)) p = Some q"
    by (rule find_tab_index_Some [OF assms(3)])
  then show ex: "tab_exists s k idx" using assms(2) by simp
  from tab_wf_contains [OF session_ok_tab_wf [OF assms(1) ex], of p] q(2)
  show "p \<in> set (tab_pane_ids (ws_tabs (as_workspaces s ! k) ! idx))" by simp
qed

lemma resolve_tab_dest_ok:
  assumes ok: "session_ok ids n rs s"
    and res: "resolve_tab_destination s (k, idx, i) h tp d ratio = Some (Inr r)"
  shows "dest_ok s k idx r"
proof -
  obtain tw tt where pt: "parse_tab_id s h = Some (tw, tt)"
    using res by (auto simp: resolve_tab_destination_def split: option.splits)
  note ex = parse_tab_exists [OF pt]
  let ?t = "ws_tabs (as_workspaces s ! tw) ! tt"
  have gt: "get_tab s tw tt = Some ?t" using ex by (simp add: get_tab_Some)
  have foc: "tl_focus (tab_layout ?t) \<in> set (tab_pane_ids ?t)"
    using session_ok_tab_wf [OF ok ex] by (simp add: tab_wf_def tab_pane_ids_def layout_wf_def)
  have "\<exists>p. r = ExistingTab (public_tab_id_for_number (ws_id (as_workspaces s ! tw)) (tab_number ?t)) p d
        (case ratio of Some r \<Rightarrow> r | None \<Rightarrow> f32_half) (k \<noteq> tw) \<and> p \<in> set (tab_pane_ids ?t) \<and> (tw, tt) \<noteq> (k, idx)"
  proof (cases tp)
    case None
    with res pt gt foc ex show ?thesis
      by (auto simp: resolve_tab_destination_def session_public_tab_id_def get_workspace_def public_tab_number_def split: if_splits)
  next
    case (Some raw)
    obtain pw p where pp: "parse_pane_id s raw = Some (pw, p)"
      using res pt gt Some by (auto simp: resolve_tab_destination_def split: option.splits if_splits prod.splits)
    have f: "pw = tw \<and> find_tab_index_for_pane (as_workspaces s ! tw) p = Some tt"
      using res pt gt Some pp ex
      by (auto simp: resolve_tab_destination_def tab_of_parsed_pane_def get_workspace_def split: if_splits option.splits)
    with found_tab_pane(2) [OF ok, of tw p tt] ex res pt gt Some pp show ?thesis
      by (auto simp: resolve_tab_destination_def tab_of_parsed_pane_def get_workspace_def session_public_tab_id_def
          public_tab_number_def split: if_splits)
  qed
  then obtain p where p: "r = ExistingTab (public_tab_id_for_number (ws_id (as_workspaces s ! tw)) (tab_number ?t)) p d
      (case ratio of Some r \<Rightarrow> r | None \<Rightarrow> f32_half) (k \<noteq> tw)" "p \<in> set (tab_pane_ids ?t)" "(tw, tt) \<noteq> (k, idx)" by blast
  have "tab_named s tw tt (public_tab_id_for_number (ws_id (as_workspaces s ! tw)) (tab_number ?t)) p"
    using ex p(2) by (simp add: tab_named_def)
  with p(1,3) show ?thesis unfolding dest_ok_def by auto
qed

lemma resolve_dest_ok:
  assumes ok: "session_ok ids n rs s" and k: "k < length (as_workspaces s)"
    and res: "resolve_destination s (k, idx, i) (ws_id (as_workspaces s ! k)) dest = Some (Inr r)"
  shows "dest_ok s k idx r"
  using res k resolve_tab_dest_ok [OF ok, of k idx i]
  by (cases dest) (auto simp: resolve_destination_def dest_ok_def session_public_workspace_id_def get_workspace_Some
      split: option.splits)

lemma check_pane_move_ok:
  assumes ok: "session_ok ids n rs s" and c: "check_pane_move s h dest = Some (Inr m)"
  shows "cm_ws_idx m < length (as_workspaces s)"
    "find_tab_index_for_pane (as_workspaces s ! cm_ws_idx m) (cm_pane m) = Some (cm_tab_idx m)"
    "cm_previous_workspace_id m = ws_id (as_workspaces s ! cm_ws_idx m)"
    "dest_ok s (cm_ws_idx m) (cm_tab_idx m) (cm_resolved m)"
proof -
  have all: "cm_ws_idx m < length (as_workspaces s)
    \<and> find_tab_index_for_pane (as_workspaces s ! cm_ws_idx m) (cm_pane m) = Some (cm_tab_idx m)
    \<and> cm_previous_workspace_id m = ws_id (as_workspaces s ! cm_ws_idx m)
    \<and> resolve_destination s (cm_ws_idx m, cm_tab_idx m, cm_pane m) (ws_id (as_workspaces s ! cm_ws_idx m)) dest
        = Some (Inr (cm_resolved m))"
    using c unfolding check_pane_move_def Let_def
    by (auto simp: get_workspace_Some split: option.splits prod.splits if_splits sum.splits)
  then show "cm_ws_idx m < length (as_workspaces s)"
    "find_tab_index_for_pane (as_workspaces s ! cm_ws_idx m) (cm_pane m) = Some (cm_tab_idx m)"
    "cm_previous_workspace_id m = ws_id (as_workspaces s ! cm_ws_idx m)" by blast+
  show "dest_ok s (cm_ws_idx m) (cm_tab_idx m) (cm_resolved m)" using all resolve_dest_ok [OF ok] by blast
qed

subsection \<open>The pane leaves\<close>

lemma drop_empty_source_fields:
  "as_workspaces (drop_empty_source s k) = remove_at k (as_workspaces s)" "as_terminals (drop_empty_source s k) = as_terminals s"
  "as_terminal_runtime_shutdowns (drop_empty_source s k) = as_terminal_runtime_shutdowns s"
  by (simp_all add: drop_empty_source_def Let_def)

lemma drop_empty_source_cursor:
  assumes "cursor_ok s" "k < length (as_workspaces s)"
  shows "cursor_ok (drop_empty_source s k)"
proof (cases "remove_at k (as_workspaces s) = []")
  case True
  then show ?thesis by (simp add: cursor_ok_def drop_empty_source_def Let_def)
next
  case False
  obtain x where x: "as_active s = Some x" "x < length (as_workspaces s)" "as_selected s < length (as_workspaces s)"
    using assms by (auto simp: cursor_ok_def is_some_and_iff split: if_splits)
  have "length (remove_at k (as_workspaces s)) \<noteq> 0" using False by simp
  then have "1 < length (as_workspaces s)" using assms(2) length_remove_at [OF assms(2)] by linarith
  with False x assms(2) show ?thesis by (auto simp: cursor_ok_def drop_empty_source_def Let_def)
qed

lemma out_from_entry:
  assumes ok: "session_ok ids n rs s" and sp: "spaces_ok ids n (as_workspaces s')" and cur: "cursor_ok s'"
    and m: "mset (all_entries (as_workspaces s)) = add_mset (mp_pane_id mv, mp_pane_state mv) (mset (all_entries (as_workspaces s')))"
    and f: "mp_pane_id mv < ic_pane ids" "issued ids (ps_attached_terminal_id (mp_pane_state mv))"
      "as_terminals s' = as_terminals s" "as_terminal_runtime_shutdowns s' = as_terminal_runtime_shutdowns s"
  shows "out_ok ids n rs mv s'"
proof -
  have d: "distinct (map fst (all_entries (as_workspaces s)))" "distinct (tids (all_entries (as_workspaces s)))"
    "fst ` set (as_terminals s) = set (tids (all_entries (as_workspaces s)))"
    using ok by (simp_all add: session_ok_def spaces_ok_def terms_ok_def)
  have "runtimes_ok ids rs s'" using ok f(3,4) by (simp add: session_ok_def runtimes_ok_def)
  with entry_added [OF m] d sp cur f session_ok_hm [OF ok] show ?thesis by (simp add: out_ok_def)
qed

text \<open>To another workspace: an empty workspace is dropped, the others stay as they are.\<close>

lemma take_out_cross:
  assumes ok: "app_ok a" and k: "k < length (as_workspaces (ap_state a))"
    and i: "find_tab_index_for_pane (as_workspaces (ap_state a) ! k) i = Some idx"
  obtains s1 tk gone where "take_pane_out a k i h True = Some (a\<lparr>ap_state := s1\<rparr>, Some (tk, gone))"
    "out_ok (ap_ids a) (ap_next_workspace_id a) (ap_runtimes a) (tp_moved tk) s1" "mp_pane_id (tp_moved tk) = i"
    "\<And>j. j < length (as_workspaces (ap_state a)) \<Longrightarrow> j \<noteq> k \<Longrightarrow> as_workspaces (ap_state a) ! j \<in> set (as_workspaces s1)"
    "mset (all_entries (as_workspaces (ap_state a))) = add_mset (i, mp_pane_state (tp_moved tk)) (mset (all_entries (as_workspaces s1)))"
proof -
  let ?s = "ap_state a" and ?ids = "ap_ids a" and ?n = "ap_next_workspace_id a"
  let ?ws = "as_workspaces ?s"
  note so = app_ok_session [OF ok]
  have sp: "spaces_ok ?ids ?n ?ws" "cursor_ok ?s" using so by (simp_all add: session_ok_def)
  note inv = session_ok_ws [OF so k]
  obtain w1 tk where take: "ws_take_pane_for_move (?ws ! k) i = Some (w1, Some tk)" by (rule ws_take_total [OF inv i])
  show ?thesis
  proof (cases rule: ws_take_cases [OF inv take])
    case (2 tk')
    have tk: "tk' = tk" using 2(1) by simp
    note t = 2(2-) [unfolded tk]
    let ?u = "unregister_moved_pane w1 i"
    let ?s2 = "(put_workspace (put_workspace ?s k w1) k ?u)\<lparr>as_public_pane_id_aliases :=
        hm_insert (as_public_pane_id_aliases (put_workspace ?s k w1)) h i\<rparr>"
    have ws2: "as_workspaces ?s2 = ?ws[k := ?u]" "as_terminals ?s2 = as_terminals ?s"
      "as_terminal_runtime_shutdowns ?s2 = as_terminal_runtime_shutdowns ?s" "as_active ?s2 = as_active ?s" "as_selected ?s2 = as_selected ?s"
      by simp_all
    have u: "ws_tabs ?u = ws_tabs w1" "ws_id ?u = ws_id (?ws ! k)"
      using t(11) by (simp_all add: unregister_moved_pane_def unregister_pane_def)
    have m: "mset (all_entries ?ws) = add_mset (i, mp_pane_state (tp_moved tk)) (mset (all_entries (?ws[k := ?u])))"
      using all_entries_split(1) [OF k] all_entries_split(2) [OF k, of ?u] t(12) by (simp add: u)
    show ?thesis
    proof (cases "tp_workspace_empty tk")
      case False
      have uinv: "ws_inv ?u ?ids" using move_out_inv [OF inv take False] t(1) by simp
      have "spaces_ok ?ids ?n (?ws[k := ?u])"
        using t(3) by (intro spaces_ok_put [OF sp(1) k uinv u(2)]) (auto simp: u set_tids)
      moreover have "cursor_ok ?s2" using sp(2) by (simp add: cursor_ok_def)
      ultimately have "out_ok ?ids ?n (ap_runtimes a) (tp_moved tk) ?s2"
        using m t(1,4,5) by (intro out_from_entry [OF so]) (simp_all add: ws2)
      moreover have "take_pane_out a k i h True = Some (a\<lparr>ap_state := ?s2\<rparr>, Some (tk, False))"
        using take k False by (simp add: take_pane_out_def get_workspace_def)
      moreover have "?ws ! j \<in> set (as_workspaces ?s2)" if "j < length ?ws" "j \<noteq> k" for j
        using that nth_mem [of j "?ws[k := ?u]"] by simp
      ultimately show ?thesis using m t(1) ws2(1) by (intro that [of ?s2 tk False]) simp_all
    next
      case True
      define s3 where "s3 = drop_empty_source ?s2 k"
      have ws3: "as_workspaces s3 = remove_at k ?ws" "as_terminals s3 = as_terminals ?s"
        "as_terminal_runtime_shutdowns s3 = as_terminal_runtime_shutdowns ?s"
        by (simp_all add: s3_def drop_empty_source_fields remove_at_def)
      have "entries (ws_tabs w1) = []" using True t(7) by (simp add: entries_def)
      then have m3: "mset (all_entries ?ws) = add_mset (i, mp_pane_state (tp_moved tk)) (mset (all_entries (remove_at k ?ws)))"
        using all_entries_split(1) [OF k] t(12) by simp
      have "cursor_ok ?s2" using sp(2) by (simp add: cursor_ok_def)
      then have "cursor_ok s3" unfolding s3_def using k by (intro drop_empty_source_cursor) simp_all
      moreover have "spaces_ok ?ids ?n (remove_at k ?ws)"
        using mset_remove_at [OF k] by (intro spaces_ok_sub [OF sp(1)]) simp
      ultimately have "out_ok ?ids ?n (ap_runtimes a) (tp_moved tk) s3"
        using m3 t(1,4,5) by (intro out_from_entry [OF so]) (simp_all add: ws3)
      moreover have "take_pane_out a k i h True = Some (a\<lparr>ap_state := s3\<rparr>, Some (tk, True))"
        using take k True by (simp add: take_pane_out_def get_workspace_def s3_def)
      moreover have "?ws ! j \<in> set (as_workspaces s3)" if "j < length ?ws" "j \<noteq> k" for j
        using nth_mem_remove_at [OF k that] by (simp add: ws3)
      ultimately show ?thesis using m3 t(1) ws3 by (intro that [of s3 tk True]) simp_all
    qed
  qed simp
qed


subsection \<open>The pane lands\<close>

definition landed :: "app \<Rightarrow> moved_pane \<Rightarrow> app \<Rightarrow> nat \<times> nat \<times> pane_id \<Rightarrow> bool" where
  "landed a mv a' = (\<lambda>(tw, tt, i). ap_ids a' = ap_ids a \<and> ap_runtimes a' = ap_runtimes a
     \<and> parts_ok (ap_ids a') (ap_next_workspace_id a') (ap_runtimes a') (ap_state a')
     \<and> (cursor_ok (ap_state a') \<or> as_active (ap_state a') = None)
     \<and> tab_exists (ap_state a') tw tt \<and> i = mp_pane_id mv
     \<and> i \<in> fst ` set (ws_entries (as_workspaces (ap_state a') ! tw))
     \<and> mset (all_entries (as_workspaces (ap_state a')))
         = add_mset (mp_pane_id mv, mp_pane_state mv) (mset (all_entries (as_workspaces (ap_state a)))))"

lemma parse_tab_listed:
  assumes ids: "distinct (map ws_id (as_workspaces s))" and k: "k < length (as_workspaces s)"
    and nm: "named_below n (ws_id (as_workspaces s ! k))" and ok: "ws_ok out (as_workspaces s ! k)"
    and t: "t \<in> set (ws_tabs (as_workspaces s ! k))"
  obtains tt where "tt < length (ws_tabs (as_workspaces s ! k))" "ws_tabs (as_workspaces s ! k) ! tt = t"
    "parse_tab_id s (public_tab_id_for_number (ws_id (as_workspaces s ! k)) (tab_number t)) = Some (k, tt)"
proof -
  obtain tt where tt: "tt < length (ws_tabs (as_workspaces s ! k))" "ws_tabs (as_workspaces s ! k) ! tt = t"
    using t by (auto simp: in_set_conv_nth)
  have "distinct (map tab_number (ws_tabs (as_workspaces s ! k)))" "tab_number t \<noteq> 0"
    using ok t by (auto simp: ws_ok_def tabs_ok_def)
  with parse_tab_public [OF ids k nm tt(1)] tt show ?thesis by (intro that [OF tt]) simp
qed

lemma lands_by_put:
  assumes "session_ok (ap_ids a) (ap_next_workspace_id a) (ap_runtimes a) (put_workspace (ap_state a) k w')"
    and k: "k < length (as_workspaces (ap_state a))" and tt: "tt < length (ws_tabs w')"
    and m: "mset (ws_entries w') = add_mset (mp_pane_id mv, mp_pane_state mv) (mset (ws_entries (as_workspaces (ap_state a) ! k)))"
  shows "landed a mv (a\<lparr>ap_state := put_workspace (ap_state a) k w'\<rparr>) (k, tt, mp_pane_id mv)"
  using assms entry_added(1) [OF m] all_entries_split(1) [OF k] all_entries_split(2) [OF k, of w']
  by (simp add: landed_def session_ok_def parts_ok_def)

text \<open>Another workspace, or a new one, receives the pane.\<close>

lemma place_cross_tab:
  assumes out: "out_ok (ap_ids a) (ap_next_workspace_id a) (ap_runtimes a) mv (ap_state a)"
    and w: "w \<in> set (as_workspaces (ap_state a))" and rm: "room w"
    and t: "t \<in> set (ws_tabs w)" and p: "p \<in> set (tab_pane_ids t)"
  shows "\<exists>a' place. place_moved_pane discover cur a (ExistingTab (public_tab_id_for_number (ws_id w) (tab_number t)) p d ratio c) fcs tid mv
    = Some (a', Inr place) \<and> landed a mv a' place"
proof -
  let ?s = "ap_state a"
  obtain k where k: "k < length (as_workspaces ?s)" "w = as_workspaces ?s ! k" using w by (auto simp: in_set_conv_nth)
  have sp: "spaces_ok (ap_ids a) (ap_next_workspace_id a) (as_workspaces ?s)" using out by (simp add: out_ok_def)
  have ids: "distinct (map ws_id (as_workspaces ?s))" and nm: "named_below (ap_next_workspace_id a) (ws_id (as_workspaces ?s ! k))"
    using sp k by (simp_all add: spaces_ok_def)
  note pl = out_placeable [OF out k(1)]
  obtain tt where tt: "tt < length (ws_tabs w)" "ws_tabs w ! tt = t"
    "parse_tab_id ?s (public_tab_id_for_number (ws_id w) (tab_number t)) = Some (k, tt)"
    using parse_tab_listed [OF ids k(1) nm pl(1)] t k(2) by metis
  have tgt: "p \<in> set (tab_pane_ids (ws_tabs (as_workspaces ?s ! k) ! tt))" using p tt(2) k(2) by simp
  obtain w' where w': "insert_moved_pane_into_tab w tt p mv d ratio fcs = (w', Inr (mp_pane_id mv))"
    "ws_inv w' (ap_ids a)" "ws_id w' = ws_id w" "tt < length (ws_tabs w')"
    "mset (ws_entries w') = add_mset (mp_pane_id mv, mp_pane_state mv) (mset (ws_entries w))"
    using place_in_tab [OF pl(1) empty_subsetI pl(2) rm [unfolded k(2)] pl(3) tt(1) [unfolded k(2)] tgt] k(2) by metis
  note so = out_lands [OF out k(1) w'(2,3,5) [unfolded k(2)]]
  show ?thesis
    using lands_by_put [OF so k(1) w'(4) w'(5) [unfolded k(2)]] tt(3) w'(1) k by (simp add: place_moved_pane_def get_workspace_def)
qed

lemma place_cross_new_tab:
  assumes out: "out_ok (ap_ids a) (ap_next_workspace_id a) (ap_runtimes a) mv (ap_state a)"
    and w: "w \<in> set (as_workspaces (ap_state a))" and rm: "room w"
  shows "\<exists>a' place. place_moved_pane discover cur a (NewTab (ws_id w) label) fcs tid mv = Some (a', Inr place) \<and> landed a mv a' place"
proof -
  let ?s = "ap_state a"
  obtain k where k: "k < length (as_workspaces ?s)" "w = as_workspaces ?s ! k" using w by (auto simp: in_set_conv_nth)
  have ids: "distinct (map ws_id (as_workspaces ?s))" using out by (simp add: out_ok_def spaces_ok_def)
  note pl = out_placeable [OF out k(1)]
  obtain w' tt where w': "create_tab_from_existing_pane w mv label = (w', tt)" "tt < length (ws_tabs w')"
    "ws_inv w' (ap_ids a)" "ws_id w' = ws_id w"
    "mset (ws_entries w') = add_mset (mp_pane_id mv, mp_pane_state mv) (mset (ws_entries w))"
    using place_in_new_tab [OF pl(1) empty_subsetI pl(2) rm [unfolded k(2)] pl(3)] k(2) by metis
  note so = out_lands [OF out k(1) w'(3,4,5) [unfolded k(2)]]
  show ?thesis
    using lands_by_put [OF so k(1) w'(2) w'(5) [unfolded k(2)]] parse_workspace_named [OF ids k(1)] w'(1) k
    by (simp add: place_moved_pane_def get_workspace_def)
qed

lemma place_cross_new_workspace:
  assumes out: "out_ok (ap_ids a) (ap_next_workspace_id a) (ap_runtimes a) mv (ap_state a)"
    and n: "unat (ap_next_workspace_id a) + 1 < 2 ^ 64"
  shows "\<exists>a' place. place_moved_pane discover cur a (NewWorkspace label tab_label) fcs tid mv = Some (a', Inr place) \<and> landed a mv a' place"
proof -
  let ?s = "ap_state a"
  let ?cwd = "case hm_get (as_terminals ?s) tid of Some trm \<Rightarrow> ts_cwd trm | None \<Rightarrow> cur"
  obtain w n' where w: "ws_from_existing_pane discover label tab_label ?cwd mv (ap_next_workspace_id a) = (w, n')" by fastforce
  note f = out_founds [OF out n w]
  have e: "ws_entries w = [(mp_pane_id mv, mp_pane_state mv)]" by (simp add: f(2) entries_def tab_from_existing_wf)
  have "cursor_ok (?s\<lparr>as_workspaces := as_workspaces ?s @ [w]\<rparr>) \<or> as_active ?s = None"
    using out by (auto simp: out_ok_def cursor_ok_def is_some_and_iff split: if_splits)
  with w f e show ?thesis by (simp add: place_moved_pane_def landed_def)
qed


text \<open>Within its workspace, which keeps the number of the pane and may have no tab for a moment.\<close>

lemma take_out_within:
  assumes ok: "app_ok a" and k: "k < length (as_workspaces (ap_state a))" and rm: "room (as_workspaces (ap_state a) ! k)"
    and i: "find_tab_index_for_pane (as_workspaces (ap_state a) ! k) i = Some idx"
  obtains w1 tk where "take_pane_out a k i h False = Some (a\<lparr>ap_state := put_workspace (ap_state a) k w1\<rparr>, Some (tk, False))"
    "ws_ok {mp_pane_id (tp_moved tk)} w1" "ids_below (ap_ids a) w1" "room w1" "placeable (ap_ids a) w1 (tp_moved tk)"
    "ws_id w1 = ws_id (as_workspaces (ap_state a) ! k)" "mp_pane_id (tp_moved tk) = i"
    "\<And>j. j < length (ws_tabs (as_workspaces (ap_state a) ! k)) \<Longrightarrow> j \<noteq> idx
      \<Longrightarrow> ws_tabs (as_workspaces (ap_state a) ! k) ! j \<in> set (ws_tabs w1)"
    "mset (ws_entries (as_workspaces (ap_state a) ! k)) = add_mset (i, mp_pane_state (tp_moved tk)) (mset (ws_entries w1))"
proof -
  let ?w = "as_workspaces (ap_state a) ! k"
  note inv = session_ok_ws [OF app_ok_session [OF ok] k]
  obtain w1 tk where take: "ws_take_pane_for_move ?w i = Some (w1, Some tk)"
    "\<And>j. j < length (ws_tabs ?w) \<Longrightarrow> j \<noteq> idx \<Longrightarrow> ws_tabs ?w ! j \<in> set (ws_tabs w1)" by (rule ws_take_total [OF inv i]) blast
  note pl = taken_placeable [OF inv take(1) rm]
  show ?thesis
  proof (cases rule: ws_take_cases [OF inv take(1)])
    case (2 tk')
    have tk: "tk' = tk" using 2(1) by simp
    have "take_pane_out a k i h False = Some (a\<lparr>ap_state := put_workspace (ap_state a) k w1\<rparr>, Some (tk, False))"
      using take(1) k by (simp add: take_pane_out_def get_workspace_def)
    then show ?thesis using pl take(2) 2(2,12,13) by (intro that [of w1 tk]) (simp_all add: tk)
  qed simp
qed

lemma place_within:
  assumes ok: "app_ok a" and k: "k < length (as_workspaces (ap_state a))"
    and w1: "ws_ok {mp_pane_id mv} w1" "ids_below (ap_ids a) w1" "room w1" "placeable (ap_ids a) w1 mv"
      "ws_id w1 = ws_id (as_workspaces (ap_state a) ! k)"
      "mset (ws_entries (as_workspaces (ap_state a) ! k)) = add_mset (mp_pane_id mv, mp_pane_state mv) (mset (ws_entries w1))"
    and a1: "a1 = a\<lparr>ap_state := put_workspace (ap_state a) k w1\<rparr>"
    and res: "r = NewTab (ws_id w1) label
      \<or> (\<exists>t \<in> set (ws_tabs w1). p \<in> set (tab_pane_ids t) \<and> r = ExistingTab (public_tab_id_for_number (ws_id w1) (tab_number t)) p d ratio c)"
  shows "\<exists>a' place. place_moved_pane discover cur a1 r fcs tid mv = Some (a', Inr place) \<and> landed a1 mv a' place"
proof -
  let ?s = "ap_state a" and ?s1 = "put_workspace (ap_state a) k w1"
  note so = app_ok_session [OF ok]
  have s1: "as_workspaces ?s1 ! k = w1" "k < length (as_workspaces ?s1)" using k by simp_all
  have "map ws_id (as_workspaces ?s1) = map ws_id (as_workspaces ?s)" using k w1(5) by (simp add: map_update_same)
  then have ids: "distinct (map ws_id (as_workspaces ?s1))" using so by (simp add: session_ok_def spaces_ok_def)
  have nm: "named_below (ap_next_workspace_id a) (ws_id (as_workspaces ?s1 ! k))"
    using so k w1(5) by (simp add: session_ok_def spaces_ok_def)
  have land: "landed a1 mv (a1\<lparr>ap_state := put_workspace ?s1 k w'\<rparr>) (k, tt, mp_pane_id mv)"
    if w': "ws_inv w' (ap_ids a)" "ws_id w' = ws_id w1" "tt < length (ws_tabs w')"
      "mset (ws_entries w') = add_mset (mp_pane_id mv, mp_pane_state mv) (mset (ws_entries w1))" for w' tt
  proof -
    have "mset (ws_entries w') = mset (ws_entries (as_workspaces ?s ! k))" using w'(4) w1(6) by simp
    then have "set (ws_entries w') = set (ws_entries (as_workspaces ?s ! k))" by (rule mset_eq_setD)
    then have "session_ok (ap_ids a) (ap_next_workspace_id a) (ap_runtimes a) (put_workspace ?s k w')"
      using w'(1,2) w1(5) by (intro session_ok_put [OF so k]) (simp_all add: set_tids)
    then show ?thesis using lands_by_put [of a1 k w' tt mv] w'(3,4) s1 by (simp add: a1)
  qed
  from res show ?thesis
  proof
    assume r: "r = NewTab (ws_id w1) label"
    obtain w' tt where w': "create_tab_from_existing_pane w1 mv label = (w', tt)" "tt < length (ws_tabs w')"
      "ws_inv w' (ap_ids a)" "ws_id w' = ws_id w1"
      "mset (ws_entries w') = add_mset (mp_pane_id mv, mp_pane_state mv) (mset (ws_entries w1))"
      using place_in_new_tab [OF w1(1) subset_refl w1(2-4)] by metis
    show ?thesis
      using land [OF w'(3,4,2,5)] parse_workspace_named [OF ids s1(2)] w'(1) s1
      by (simp add: r a1 place_moved_pane_def get_workspace_def)
  next
    assume "\<exists>t \<in> set (ws_tabs w1). p \<in> set (tab_pane_ids t) \<and> r = ExistingTab (public_tab_id_for_number (ws_id w1) (tab_number t)) p d ratio c"
    then obtain t where t: "t \<in> set (ws_tabs w1)" "p \<in> set (tab_pane_ids t)"
      "r = ExistingTab (public_tab_id_for_number (ws_id w1) (tab_number t)) p d ratio c" by blast
    obtain tt where tt: "tt < length (ws_tabs w1)" "ws_tabs w1 ! tt = t"
      "parse_tab_id ?s1 (public_tab_id_for_number (ws_id w1) (tab_number t)) = Some (k, tt)"
      using parse_tab_listed [OF ids s1(2) nm] w1(1) t(1) s1(1) by metis
    have tgt: "p \<in> set (tab_pane_ids (ws_tabs w1 ! tt))" using t(2) tt(2) by simp
    obtain w' where w': "insert_moved_pane_into_tab w1 tt p mv d ratio fcs = (w', Inr (mp_pane_id mv))"
      "ws_inv w' (ap_ids a)" "ws_id w' = ws_id w1" "tt < length (ws_tabs w')"
      "mset (ws_entries w') = add_mset (mp_pane_id mv, mp_pane_state mv) (mset (ws_entries w1))"
      using place_in_tab [OF w1(1) subset_refl w1(2-4) tt(1) tgt] by metis
    show ?thesis
      using land [OF w'(2-5)] tt(3) w'(1) s1 by (simp add: t(3) a1 place_moved_pane_def get_workspace_def)
  qed
qed


subsection \<open>The answer\<close>

lemma entry_known:
  assumes ok: "session_ok ids n rs s" and k: "k < length (as_workspaces s)"
    and i: "i \<in> fst ` set (ws_entries (as_workspaces s ! k))"
  shows "session_public_pane_id s k i \<noteq> None" "pane_info_exists s k i"
proof -
  let ?w = "as_workspaces s ! k"
  note inv = session_ok_ws [OF ok k]
  from i obtain p where p: "(i, p) \<in> set (ws_entries ?w)" by auto
  have reg: "i \<in> fst ` set (ws_public_pane_numbers ?w)" using inv i by (simp add: ws_inv_def ws_wf_def ws_ok_def)
  then obtain m where m: "public_pane_number ?w i = Some m"
    by (cases "hm_get (ws_public_pane_numbers ?w) i") (auto simp: public_pane_number_def map_of_eq_None_iff)
  then show pub: "session_public_pane_id s k i \<noteq> None" using k by (simp add: session_public_pane_id_def get_workspace_def)
  obtain idx where idx: "find_tab_index_for_pane ?w i = Some idx" using find_tab_index_None [of ?w i] i by (cases "find_tab_index_for_pane ?w i") auto
  have "ws_pane_state ?w i = Some p"
    using iffD1 [OF hm_get_set [OF conjunct1 [OF ws_inv_distinct [OF inv]]] p] by (simp add: ws_pane_state_entries)
  moreover have "ps_attached_terminal_id p \<in> fst ` set (as_terminals s)"
    using ok p ws_entries_subset [OF k] by (force simp: session_ok_def terms_ok_def set_tids)
  then have "hm_contains (as_terminals s) (ps_attached_terminal_id p)" by (simp add: map_of_eq_None_iff)
  moreover have "session_public_tab_id s k idx \<noteq> None"
    using found_tab_pane(1) [OF ok k idx] by (simp add: session_public_tab_id_def get_workspace_def public_tab_number_def)
  ultimately show "pane_info_exists s k i"
    using k idx pub by (auto simp: pane_info_exists_def get_workspace_def)
qed

lemma tab_known:
  assumes ok: "session_ok ids n rs s" and ex: "tab_exists s k idx"
  shows "layout_snapshot_exists s k idx"
proof -
  let ?t = "ws_tabs (as_workspaces s ! k) ! idx"
  have wf: "tab_wf ?t" by (rule session_ok_tab_wf [OF ok ex])
  then have "tl_focus (tab_layout ?t) \<in> set (tab_pane_ids ?t)" by (simp add: tab_wf_def layout_wf_def tab_pane_ids_def)
  then have "tl_focus (tab_layout ?t) \<in> fst ` set (ws_entries (as_workspaces s ! k))"
    using tab_wf_contains [OF wf] ex by (force simp: entries_def map_of_eq_None_iff)
  from entry_known(1) [OF ok _ this] ex show ?thesis
    by (auto simp: layout_snapshot_exists_def get_tab_def get_workspace_def session_public_tab_id_def public_tab_number_def)
qed

text \<open>Which terminal each pane shows.\<close>

definition attachments :: "app_state \<Rightarrow> (pane_id \<times> rstr) multiset" where
  "attachments s = image_mset (\<lambda>(i, p). (i, ps_attached_terminal_id p)) (mset (all_entries (as_workspaces s)))"

lemma attachments_switch:
  "attachments (fst (switch_workspace_tab s k idx)) = attachments s"
proof (cases "tab_exists s k idx")
  case True
  let ?f = "\<lambda>e. (fst e, ps_attached_terminal_id (snd e))"
  have zip: "map ?f es = zip (map fst es) (tids es)" for es by (induction es) (simp_all add: tids_def)
  have "map ?f (ws_entries (switch_tab (as_workspaces s ! k) idx)) = map ?f (ws_entries (as_workspaces s ! k))"
    by (simp only: zip switch_tab_keys)
  then have "image_mset ?f (mset (ws_entries (switch_tab (as_workspaces s ! k) idx))) = image_mset ?f (mset (ws_entries (as_workspaces s ! k)))"
    by (metis mset_map)
  with True all_entries_split(1) [of k "as_workspaces s"] all_entries_split(2) [of k "as_workspaces s" "switch_tab (as_workspaces s ! k) idx"]
  show ?thesis by (simp add: attachments_def switch_workspace_tab_fields case_prod_unfold)
qed (auto simp: attachments_def switch_workspace_tab_fields)

lemma finish_landed:
  assumes l: "landed a mv a2 (tw, tt, i)"
  shows "\<exists>a' pm. finish_move a2 pf fcs r (tw, tt, i) h cw ct now = Some (a', Inr (Changed pm)) \<and> app_ok a' \<and> pm_pane_id pm = i
    \<and> pm_ws_idx pm = tw \<and> pm_tab_idx pm = tt \<and> attachments (ap_state a') = attachments (ap_state a2)"
proof -
  let ?ok = "session_ok (ap_ids a2) (ap_next_workspace_id a2) (ap_runtimes a2)"
  define s1 where "s1 = (if fcs \<or> as_active (ap_state a2) = None
      then record_pane_focus_change (fst (switch_workspace_tab (ap_state a2) tw tt)) pf tw i else ap_state a2)"
  have parts: "parts_ok (ap_ids a2) (ap_next_workspace_id a2) (ap_runtimes a2) (ap_state a2)" "tab_exists (ap_state a2) tw tt"
    and i: "i \<in> fst ` set (ws_entries (as_workspaces (ap_state a2) ! tw))"
    using l unfolding landed_def prod.case by blast+
  have ok1: "?ok s1"
  proof (cases "fcs \<or> as_active (ap_state a2) = None")
    case True
    with switch_parts_ok [OF parts] show ?thesis by (simp add: s1_def)
  next
    case False
    with l have "cursor_ok (ap_state a2)" unfolding landed_def prod.case by blast
    moreover have "s1 = ap_state a2" using False unfolding s1_def by (simp only: if_False)
    ultimately show ?thesis using parts(1) by (simp add: parts_ok_def session_ok_def)
  qed
  have ws1: "length (as_workspaces s1) = length (as_workspaces (ap_state a2))" "tab_exists s1 tw tt"
    using parts(2) by (simp_all add: s1_def switch_workspace_tab_fields switch_tab_def Let_def)
  have "map fst (ws_entries (as_workspaces s1 ! tw)) = map fst (ws_entries (as_workspaces (ap_state a2) ! tw))"
    using parts(2) by (simp add: s1_def switch_workspace_tab_fields switch_tab_keys)
  then have i1: "i \<in> fst ` set (ws_entries (as_workspaces s1 ! tw))" using i by (simp flip: set_map)
  have att: "attachments s1 = attachments (ap_state a2)"
    using attachments_switch [of "ap_state a2" tw tt] by (simp add: s1_def attachments_def)
  let ?s2 = "mark_session_dirty (remove_alias_shadowed_by_new_pane s1 i)"
  have ok2: "?ok ?s2" using ok1 by simp
  have "pane_info_exists ?s2 tw i" "layout_snapshot_exists ?s2 tw tt"
    using entry_known(2) [OF ok2, of tw i] tab_known [OF ok2, of tw tt] ws1(2) i1 by simp_all
  moreover have "app_ok (schedule_session_save (a2\<lparr>ap_state := ?s2\<rparr>) now)" using app_ok_state [OF ok2] by simp
  moreover have "attachments (ap_state (schedule_session_save (a2\<lparr>ap_state := ?s2\<rparr>) now)) = attachments (ap_state a2)"
    using att by (simp add: schedule_session_save_def attachments_def)
  ultimately show ?thesis unfolding finish_move_def Let_def prod.case s1_def [symmetric] by simp
qed


subsection \<open>The whole request\<close>

lemma attachments_landed: "landed a mv a' place \<Longrightarrow>
  mset (all_entries (as_workspaces s)) = add_mset (mp_pane_id mv, mp_pane_state mv) (mset (all_entries (as_workspaces (ap_state a))))
  \<Longrightarrow> attachments (ap_state a') = attachments s"
  by (simp add: landed_def attachments_def split: prod.splits)

lemma move_across:
  assumes ok: "app_ok a" and rm: "app_room a" and k: "k < length (as_workspaces (ap_state a))"
    and i: "find_tab_index_for_pane (as_workspaces (ap_state a) ! k) i = Some idx"
    and dest: "dest_ok (ap_state a) k idx r" and cross: "crosses_workspace r (ws_id (as_workspaces (ap_state a) ! k))"
  shows "\<exists>a1 tk gone a2 place. take_pane_out a k i h True = Some (a1, Some (tk, gone))
    \<and> place_moved_pane discover cur a1 r fcs tid (tp_moved tk) = Some (a2, Inr place)
    \<and> landed a1 (tp_moved tk) a2 place \<and> mp_pane_id (tp_moved tk) = i \<and> attachments (ap_state a2) = attachments (ap_state a)"
proof -
  let ?ws = "as_workspaces (ap_state a)"
  obtain s1 tk gone where out: "take_pane_out a k i h True = Some (a\<lparr>ap_state := s1\<rparr>, Some (tk, gone))"
    "out_ok (ap_ids a) (ap_next_workspace_id a) (ap_runtimes a) (tp_moved tk) s1" "mp_pane_id (tp_moved tk) = i"
    "\<And>j. j < length ?ws \<Longrightarrow> j \<noteq> k \<Longrightarrow> ?ws ! j \<in> set (as_workspaces s1)"
    "mset (all_entries ?ws) = add_mset (i, mp_pane_state (tp_moved tk)) (mset (all_entries (as_workspaces s1)))"
    using take_out_cross [OF ok k i] by metis
  let ?a1 = "a\<lparr>ap_state := s1\<rparr>"
  have o: "out_ok (ap_ids ?a1) (ap_next_workspace_id ?a1) (ap_runtimes ?a1) (tp_moved tk) (ap_state ?a1)" using out(2) by simp
  have others: "?ws ! j \<in> set (as_workspaces (ap_state ?a1)) \<and> room (?ws ! j)" if "j < length ?ws" "j \<noteq> k" for j
    using out(4) [OF that] rm that(1) by (simp add: app_room_def session_room_def)
  have "\<exists>a2 place. place_moved_pane discover cur ?a1 r fcs tid (tp_moved tk) = Some (a2, Inr place) \<and> landed ?a1 (tp_moved tk) a2 place"
  proof (cases r)
    case (ExistingTab h p d ratio c)
    with dest cross obtain tw tt where tn: "tab_named (ap_state a) tw tt h p" "tw \<noteq> k"
      by (auto simp: dest_ok_def crosses_workspace_def)
    then have tw: "tw < length ?ws" "ws_tabs (?ws ! tw) ! tt \<in> set (ws_tabs (?ws ! tw))" "p \<in> set (tab_pane_ids (ws_tabs (?ws ! tw) ! tt))"
      by (simp_all add: tab_named_def)
    from place_cross_tab [OF o conjunct1 [OF others [OF tw(1) tn(2)]] conjunct2 [OF others [OF tw(1) tn(2)]] tw(2,3)] tn
    show ?thesis by (simp add: ExistingTab tab_named_def)
  next
    case (NewTab wid label)
    with dest obtain tw where tw: "tw < length ?ws" "wid = ws_id (?ws ! tw)" by (auto simp: dest_ok_def)
    then have "tw \<noteq> k" using cross by (auto simp: NewTab crosses_workspace_def)
    from place_cross_new_tab [OF o conjunct1 [OF others [OF tw(1) this]] conjunct2 [OF others [OF tw(1) this]]]
    show ?thesis by (simp add: NewTab tw(2))
  next
    case (NewWorkspace label tab_label)
    from place_cross_new_workspace [OF o] rm show ?thesis by (simp add: NewWorkspace app_room_def)
  qed
  then obtain a2 place where pl: "place_moved_pane discover cur ?a1 r fcs tid (tp_moved tk) = Some (a2, Inr place)"
    "landed ?a1 (tp_moved tk) a2 place" by blast
  have "attachments (ap_state a2) = attachments (ap_state a)" using out(3,5) by (intro attachments_landed [OF pl(2)]) simp
  with out(1,3) pl show ?thesis by blast
qed

lemma move_inside:
  assumes ok: "app_ok a" and rm: "app_room a" and k: "k < length (as_workspaces (ap_state a))"
    and i: "find_tab_index_for_pane (as_workspaces (ap_state a) ! k) i = Some idx"
    and dest: "dest_ok (ap_state a) k idx r" and cross: "\<not> crosses_workspace r (ws_id (as_workspaces (ap_state a) ! k))"
  shows "\<exists>a1 tk gone a2 place. take_pane_out a k i h False = Some (a1, Some (tk, gone))
    \<and> place_moved_pane discover cur a1 r fcs tid (tp_moved tk) = Some (a2, Inr place)
    \<and> landed a1 (tp_moved tk) a2 place \<and> mp_pane_id (tp_moved tk) = i \<and> attachments (ap_state a2) = attachments (ap_state a)"
proof -
  let ?ws = "as_workspaces (ap_state a)"
  have rmk: "room (?ws ! k)" using rm k by (simp add: app_room_def session_room_def)
  obtain w1 tk where out: "take_pane_out a k i h False = Some (a\<lparr>ap_state := put_workspace (ap_state a) k w1\<rparr>, Some (tk, False))"
    "ws_ok {mp_pane_id (tp_moved tk)} w1" "ids_below (ap_ids a) w1" "room w1" "placeable (ap_ids a) w1 (tp_moved tk)"
    "ws_id w1 = ws_id (?ws ! k)" "mp_pane_id (tp_moved tk) = i"
    "\<And>j. j < length (ws_tabs (?ws ! k)) \<Longrightarrow> j \<noteq> idx \<Longrightarrow> ws_tabs (?ws ! k) ! j \<in> set (ws_tabs w1)"
    "mset (ws_entries (?ws ! k)) = add_mset (i, mp_pane_state (tp_moved tk)) (mset (ws_entries w1))"
    using take_out_within [OF ok k rmk i] by metis
  let ?a1 = "a\<lparr>ap_state := put_workspace (ap_state a) k w1\<rparr>"
  have m: "mset (ws_entries (?ws ! k)) = add_mset (mp_pane_id (tp_moved tk), mp_pane_state (tp_moved tk)) (mset (ws_entries w1))"
    using out(7,9) by simp
  have "\<exists>a2 place. place_moved_pane discover cur ?a1 r fcs tid (tp_moved tk) = Some (a2, Inr place) \<and> landed ?a1 (tp_moved tk) a2 place"
  proof (cases r)
    case (ExistingTab h p d ratio c)
    with dest cross obtain tt where tn: "tab_named (ap_state a) k tt h p" "tt \<noteq> idx"
      by (auto simp: dest_ok_def crosses_workspace_def)
    then have "ws_tabs (?ws ! k) ! tt \<in> set (ws_tabs w1)" "h = public_tab_id_for_number (ws_id w1) (tab_number (ws_tabs (?ws ! k) ! tt))"
      "p \<in> set (tab_pane_ids (ws_tabs (?ws ! k) ! tt))"
      using out(6) out(8) [of tt] by (simp_all add: tab_named_def)
    with place_within [OF ok k out(2-6) m refl, of r _ p d ratio c] show ?thesis unfolding ExistingTab by blast
  next
    case (NewTab wid label)
    with cross out(6) have "r = NewTab (ws_id w1) label" by (simp add: crosses_workspace_def)
    with place_within [OF ok k out(2-6) m refl, of r label] show ?thesis by blast
  next
    case NewWorkspace
    with cross show ?thesis by (simp add: crosses_workspace_def)
  qed
  then obtain a2 place where pl: "place_moved_pane discover cur ?a1 r fcs tid (tp_moved tk) = Some (a2, Inr place)"
    "landed ?a1 (tp_moved tk) a2 place" by blast
  have "mset (all_entries ?ws) = add_mset (mp_pane_id (tp_moved tk), mp_pane_state (tp_moved tk)) (mset (all_entries (as_workspaces (ap_state ?a1))))"
    using all_entries_split(1) [OF k] all_entries_split(2) [OF k, of w1] m by simp
  from attachments_landed [OF pl(2) this] out(1,7) pl show ?thesis by blast
qed

lemma pane_move_ok:
  assumes ok: "app_ok a" and rm: "app_room a" and c: "check_pane_move (ap_state a) h dest = Some (Inr m)"
  shows "\<exists>a' pm. handle_pane_move discover cur a h dest fcs now = Some (a', Inr (Changed pm)) \<and> app_ok a'
    \<and> pm_pane_id pm = cm_pane m \<and> attachments (ap_state a') = attachments (ap_state a)"
proof -
  note chk = check_pane_move_ok [OF app_ok_session [OF ok] c]
  let ?k = "cm_ws_idx m" and ?i = "cm_pane m" and ?r = "cm_resolved m"
  let ?cross = "crosses_workspace ?r (cm_previous_workspace_id m)"
  have "\<exists>a1 tk gone a2 place. take_pane_out a ?k ?i (cm_previous_pane_id m) ?cross = Some (a1, Some (tk, gone))
    \<and> place_moved_pane discover cur a1 ?r fcs (cm_terminal_id m) (tp_moved tk) = Some (a2, Inr place)
    \<and> landed a1 (tp_moved tk) a2 place \<and> mp_pane_id (tp_moved tk) = ?i \<and> attachments (ap_state a2) = attachments (ap_state a)"
    using move_across [OF ok rm chk(1,2,4)] move_inside [OF ok rm chk(1,2,4)] chk(3) by (cases ?cross) simp_all
  then obtain a1 tk gone a2 tw tt i where st: "take_pane_out a ?k ?i (cm_previous_pane_id m) ?cross = Some (a1, Some (tk, gone))"
    "place_moved_pane discover cur a1 ?r fcs (cm_terminal_id m) (tp_moved tk) = Some (a2, Inr (tw, tt, i))"
    "landed a1 (tp_moved tk) a2 (tw, tt, i)" "mp_pane_id (tp_moved tk) = ?i" "attachments (ap_state a2) = attachments (ap_state a)"
    by (metis prod_cases3)
  have "i = ?i" using st(3,4) by (simp add: landed_def)
  with finish_landed [OF st(3), of "current_pane_focus_target (ap_state a)" fcs ?r "cm_previous_pane_id m"
      "if gone then Some (cm_previous_workspace_id m) else None" "map_option (\<lambda>_. cm_previous_tab_id m) (tp_removed_tab_idx tk)" now] st(5)
  show ?thesis unfolding handle_pane_move_def c option.case sum.case Let_def st(1,2) prod.case by auto
qed

lemma handle_pane_move_ok:
  assumes ok: "app_ok a" and rm: "app_room a" and res: "handle_pane_move discover cur a h dest fcs now = Some (a', r)"
  shows "app_ok a'"
proof (cases "check_pane_move (ap_state a) h dest")
  case (Some chk)
  show ?thesis
  proof (cases chk)
    case (Inl answer)
    with Some ok res show ?thesis by (simp add: handle_pane_move_def)
  next
    case (Inr m)
    with Some have c: "check_pane_move (ap_state a) h dest = Some (Inr m)" by simp
    from pane_move_ok [OF ok rm c, of discover cur fcs now] res show ?thesis by auto
  qed
qed (use res in \<open>simp add: handle_pane_move_def\<close>)

end
