(* ===== verification/LayoutRequests.thy ===== *)
theory LayoutRequests
  imports AppSteps
begin

section \<open>Requests on the layout of a tab\<close>

text \<open>
  Swapping two panes, resizing a pane and setting the ratio of a split (\<open>app/api/panes.rs\<close>, \<open>app/api/layouts.rs\<close>), the
  membership of a workspace in a group of worktrees (\<open>app/api/worktrees.rs\<close>) and moving the selection in the list of
  workspaces (\<open>app/actions.rs\<close>), with the lemma for each that it keeps the invariant of the session. The order of the
  list on the screen is a parameter.
\<close>

subsection \<open>Swapping\<close>

datatype pane_swap_reason = NoNeighbor | SwapSamePane | SwapNotFound | CrossTab

record swap_request =
  sw_direction :: "nav_direction option"
  sw_pane_id :: "rstr option"
  sw_source_pane_id :: "rstr option"
  sw_target_pane_id :: "rstr option"

record resolved_swap =
  rs_ws_idx :: nat
  rs_tab_idx :: nat
  rs_source :: pane_id
  rs_target :: "pane_id option"
  rs_reason :: "pane_swap_reason option"

text \<open>A pane named by a handle with its workspace and tab; indexing the workspaces panics out of range.\<close>

definition locate_pane :: "app_state \<Rightarrow> rstr \<Rightarrow> (nat \<times> nat \<times> pane_id) option option" where
  "locate_pane s raw =
     (case parse_pane_id s raw of
        None \<Rightarrow> Some None
      | Some (ws_idx, i) \<Rightarrow>
          map_option (map_option (\<lambda>tab_idx. (ws_idx, tab_idx, i))) (tab_of_parsed_pane s (ws_idx, i)))"

definition resolve_directional_swap ::
  "rect_new \<Rightarrow> rect \<Rightarrow> app_state \<Rightarrow> rstr option \<Rightarrow> nav_direction \<Rightarrow> (rstr + resolved_swap) option" where
  "resolve_directional_swap rn area s target nav =
     (case resolve_optional_pane s target of
        None \<Rightarrow> Some (Inl ''pane_not_found'')
      | Some (ws_idx, source) \<Rightarrow>
          (case tab_of_parsed_pane s (ws_idx, source) of
             None \<Rightarrow> None
           | Some None \<Rightarrow> Some (Inl ''pane_not_found'')
           | Some (Some tab_idx) \<Rightarrow>
               (let found = directional_pane_target rn area s ws_idx tab_idx source nav
                in Some (Inr \<lparr>rs_ws_idx = ws_idx, rs_tab_idx = tab_idx, rs_source = source, rs_target = found,
                     rs_reason = (if found = None then Some NoNeighbor else None)\<rparr>))))"

definition explicit_swap_reason ::
  "(nat \<times> nat \<times> pane_id) option \<Rightarrow> (nat \<times> nat \<times> pane_id) option \<Rightarrow> pane_swap_reason option" where
  "explicit_swap_reason source target =
     (case (source, target) of
        (Some (sw, st, s), Some (tw, tt, t)) \<Rightarrow>
          if s = t then Some SwapSamePane else if sw \<noteq> tw \<or> st \<noteq> tt then Some CrossTab else None
      | _ \<Rightarrow> Some SwapNotFound)"

definition resolve_explicit_swap :: "app_state \<Rightarrow> rstr option \<Rightarrow> rstr option \<Rightarrow> (rstr + resolved_swap) option" where
  "resolve_explicit_swap s source_raw target_raw =
     (case (source_raw, target_raw) of
        (Some sr, Some tr) \<Rightarrow>
          Option.bind (locate_pane s sr) (\<lambda>source. Option.bind (locate_pane s tr) (\<lambda>target.
            (let context = or_else (map_option (\<lambda>(w, t, i). (w, t)) source) (or_else (map_option (\<lambda>(w, t, i). (w, t)) target)
                   (Option.bind (as_active s) (\<lambda>k. map_option (\<lambda>w. (k, ws_active_tab w)) (get_workspace s k))))
             in (case context of
                   None \<Rightarrow> Some (Inl ''pane_layout_unavailable'')
                 | Some (ws_idx, tab_idx) \<Rightarrow>
                     Some (Inr \<lparr>rs_ws_idx = ws_idx, rs_tab_idx = tab_idx,
                       rs_source = (case or_else (map_option (\<lambda>(w, t, i). i) source)
                           (map_option (\<lambda>t. tl_focus (tab_layout t)) (get_tab s ws_idx tab_idx)) of Some i \<Rightarrow> i | None \<Rightarrow> 0),
                       rs_target = map_option (\<lambda>(w, t, i). i) target,
                       rs_reason = explicit_swap_reason source target\<rparr>)))))
      | _ \<Rightarrow> Some (Inl ''invalid_pane_swap''))"

definition resolve_pane_swap :: "rect_new \<Rightarrow> rect \<Rightarrow> app_state \<Rightarrow> swap_request \<Rightarrow> (rstr + resolved_swap) option" where
  "resolve_pane_swap rn area s req =
     (if (sw_direction req \<noteq> None) = (sw_source_pane_id req \<noteq> None \<or> sw_target_pane_id req \<noteq> None)
      then Some (Inl ''invalid_pane_swap'')
      else (case sw_direction req of
              Some nav \<Rightarrow> resolve_directional_swap rn area s (sw_pane_id req) nav
            | None \<Rightarrow> resolve_explicit_swap s (sw_source_pane_id req) (sw_target_pane_id req)))"

definition apply_pane_swap :: "app \<Rightarrow> nat \<Rightarrow> nat \<Rightarrow> pane_id \<Rightarrow> pane_id \<Rightarrow> instant \<Rightarrow> app \<times> bool" where
  "apply_pane_swap a ws_idx tab_idx source target now =
     (let previous = current_pane_focus_target (ap_state a)
      in (case get_tab (ap_state a) ws_idx tab_idx of
            None \<Rightarrow> (a, False)
          | Some t \<Rightarrow>
              (let changed = snd (swap_panes (tab_layout t) source target);
                   s1 = update_tab (ap_state a) ws_idx tab_idx
                     (\<lambda>t. t\<lparr>tab_layout := focus_pane (fst (swap_panes (tab_layout t) source target)) source\<rparr>);
                   s2 = mark_session_dirty (record_pane_focus_change (fst (switch_workspace_tab s1 ws_idx tab_idx)) previous ws_idx source)
               in (if changed then schedule_session_save (a\<lparr>ap_state := s2\<rparr>) now else a\<lparr>ap_state := s1\<rparr>, changed))))"

definition handle_pane_swap ::
  "rect_new \<Rightarrow> rect \<Rightarrow> app \<Rightarrow> swap_request \<Rightarrow> instant \<Rightarrow> (bool \<times> pane_swap_reason option) handled" where
  "handle_pane_swap rn area a req now =
     (case resolve_pane_swap rn area (ap_state a) req of
        None \<Rightarrow> None
      | Some (Inl code) \<Rightarrow> Some (a, Inl code)
      | Some (Inr r) \<Rightarrow>
          (let (a1, changed) = (case (rs_reason r, rs_target r) of
                  (None, Some target) \<Rightarrow> apply_pane_swap a (rs_ws_idx r) (rs_tab_idx r) (rs_source r) target now
                | _ \<Rightarrow> (a, False))
           in Some (a1, if layout_snapshot_exists (ap_state a1) (rs_ws_idx r) (rs_tab_idx r) then Inr (changed, rs_reason r)
                        else Inl ''pane_layout_unavailable'')))"

subsection \<open>Ratios\<close>

text \<open>\<open>0.05f32\<close> is half of \<open>0.1f32\<close>; the amount is finite when its size is bounded.\<close>

definition f32_twentieth :: f32 where
  "f32_twentieth = F32_Fin (13421773 * 2 ^ 121)"

fun f32_abs :: "f32 \<Rightarrow> f32" where
  "f32_abs (F32_Fin x) = F32_Fin \<bar>x\<bar>"
| "f32_abs (F32_Inf neg) = F32_Inf False"
| "f32_abs F32_NaN = F32_NaN"

definition resize_amount :: "f32 option \<Rightarrow> f32" where
  "resize_amount amount =
     (let x = f32_abs (case opt_filter f32_is_finite amount of Some r \<Rightarrow> r | None \<Rightarrow> f32_twentieth)
      in if f32_less f32_half x then f32_half else x)"

definition handle_pane_resize ::
  "rect_new \<Rightarrow> rect \<Rightarrow> app \<Rightarrow> rstr option \<Rightarrow> nav_direction \<Rightarrow> f32 option \<Rightarrow> instant \<Rightarrow> bool handled" where
  "handle_pane_resize rn area a target nav amount now =
     (case resolve_optional_pane (ap_state a) target of
        None \<Rightarrow> Some (a, Inl ''pane_not_found'')
      | Some (ws_idx, i) \<Rightarrow>
          (case tab_of_parsed_pane (ap_state a) (ws_idx, i) of
             None \<Rightarrow> None
           | Some None \<Rightarrow> Some (a, Inl ''pane_not_found'')
           | Some (Some tab_idx) \<Rightarrow>
               (if session_public_pane_id (ap_state a) ws_idx i = None then Some (a, Inl ''pane_not_found'')
                else (let delta = resize_amount amount;
                          changed = is_some_and (\<lambda>t. snd (resize_pane rn (tab_layout t) i nav delta area)) (get_tab (ap_state a) ws_idx tab_idx);
                          a1 = (if get_tab (ap_state a) ws_idx tab_idx = None then a
                                else a\<lparr>ap_state := update_tab (ap_state a) ws_idx tab_idx
                                       (\<lambda>t. t\<lparr>tab_layout := fst (resize_pane rn (tab_layout t) i nav delta area)\<rparr>)\<rparr>);
                          a2 = (if changed then schedule_session_save a1 now else a1)
                      in Some (a2, if layout_snapshot_exists (ap_state a2) ws_idx tab_idx then Inr changed
                                   else Inl ''pane_layout_unavailable'')))))"

definition resolve_layout_export_target :: "app_state \<Rightarrow> rstr option \<Rightarrow> rstr option \<Rightarrow> (nat \<times> nat) option" where
  "resolve_layout_export_target s tab_id pane_id =
     (case (tab_id, pane_id) of
        (Some _, Some _) \<Rightarrow> None
      | (Some t, None) \<Rightarrow> parse_tab_id s t
      | (None, Some p) \<Rightarrow>
          Option.bind (parse_pane_id s p) (\<lambda>(ws_idx, i). Option.bind (get_workspace s ws_idx) (\<lambda>w.
            map_option (\<lambda>tab_idx. (ws_idx, tab_idx)) (find_tab_index_for_pane w i)))
      | (None, None) \<Rightarrow>
          Option.bind (as_active s) (\<lambda>ws_idx. map_option (\<lambda>w. (ws_idx, ws_active_tab w)) (get_workspace s ws_idx)))"

text \<open>\<open>layout_description\<close> answers when the tab and every pane of its tree have a handle.\<close>

definition layout_description_exists :: "app_state \<Rightarrow> nat \<Rightarrow> nat \<Rightarrow> bool" where
  "layout_description_exists s ws_idx tab_idx =
     is_some_and (\<lambda>t. session_public_tab_id s ws_idx tab_idx \<noteq> None
         \<and> session_public_pane_id s ws_idx (tl_focus (tab_layout t)) \<noteq> None
         \<and> list_all (\<lambda>i. tab_terminal_id t i \<noteq> None \<and> session_public_pane_id s ws_idx i \<noteq> None) (pane_ids (tab_layout t)))
       (get_tab s ws_idx tab_idx)"

definition handle_layout_set_split_ratio ::
  "app \<Rightarrow> rstr option \<Rightarrow> rstr option \<Rightarrow> bool list \<Rightarrow> f32 \<Rightarrow> instant \<Rightarrow> (nat \<times> nat) handled" where
  "handle_layout_set_split_ratio a tab_id pane_id path ratio now =
     (if \<not> f32_is_finite ratio then Some (a, Inl ''invalid_ratio'')
      else (case resolve_layout_export_target (ap_state a) tab_id pane_id of
              None \<Rightarrow> Some (a, Inl ''layout_not_found'')
            | Some (ws_idx, tab_idx) \<Rightarrow>
                (if \<not> is_some_and (\<lambda>t. snd (set_ratio_at (tab_layout t) path ratio)) (get_tab (ap_state a) ws_idx tab_idx)
                 then Some (a, Inl ''split_not_found'')
                 else (let a1 = schedule_session_save (a\<lparr>ap_state := update_tab (ap_state a) ws_idx tab_idx
                             (\<lambda>t. t\<lparr>tab_layout := fst (set_ratio_at (tab_layout t) path ratio)\<rparr>)\<rparr>) now
                       in Some (a1, if layout_description_exists (ap_state a1) ws_idx tab_idx then Inr (ws_idx, tab_idx)
                                    else Inl ''layout_not_found'')))))"

subsection \<open>Groups of worktrees and the selection\<close>

definition set_worktree_membership :: "app_state \<Rightarrow> nat \<Rightarrow> worktree_space_membership \<Rightarrow> app_state" where
  "set_worktree_membership s ws_idx membership =
     (case get_workspace s ws_idx of
        None \<Rightarrow> s
      | Some w \<Rightarrow>
          if ws_worktree_space w = Some membership then s
          else mark_session_dirty (put_workspace s ws_idx (w\<lparr>ws_worktree_space := Some membership\<rparr>)))"

text \<open>\<open>order\<close> is the list of workspaces in the order they are drawn; a missing one stands at the first place.\<close>

definition move_selected_workspace_by_visible_delta :: "nat list \<Rightarrow> app_state \<Rightarrow> int \<Rightarrow> app_state" where
  "move_selected_workspace_by_visible_delta order s delta =
     (if as_workspaces s = [] then s
      else (let current_pos = (case position (\<lambda>i. i = as_selected s) order of Some p \<Rightarrow> p | None \<Rightarrow> 0);
                target_pos = min (nat (min (int current_pos + delta) (2 ^ 64 - 1))) (length order - 1)
            in if target_pos < length order then s\<lparr>as_selected := order ! target_pos\<rparr> else s))"

subsection \<open>They keep the invariant\<close>

lemma session_ok_edit_layout:
  assumes "session_ok ids n rs s" "get_tab s k idx = Some t"
    and "\<And>l. layout_wf l \<Longrightarrow> layout_wf (f l) \<and> set (pane_ids (f l)) = set (pane_ids l)"
  shows "session_ok ids n rs (update_tab s k idx (\<lambda>t. t\<lparr>tab_layout := f (tab_layout t)\<rparr>))"
proof (rule session_ok_update_tab [OF assms(1)])
  show "k < length (as_workspaces s)" "idx < length (ws_tabs (as_workspaces s ! k))"
    using assms(2) by (simp_all add: get_tab_Some)
  show "tab_wf (t\<lparr>tab_layout := f (tab_layout t)\<rparr>) \<and> tab_number (t\<lparr>tab_layout := f (tab_layout t)\<rparr>) = tab_number t
      \<and> map fst (tab_panes (t\<lparr>tab_layout := f (tab_layout t)\<rparr>)) = map fst (tab_panes t)
      \<and> tids (tab_panes (t\<lparr>tab_layout := f (tab_layout t)\<rparr>)) = tids (tab_panes t)" if "tab_wf t" for t
    using that assms(3) [of "tab_layout t"] tab_wf_layout_edit [OF that]
    by (simp add: tab_pane_ids_def tab_wf_def)
qed

lemma swap_panes_ids: "set (pane_ids (fst (swap_panes l f s))) = set (pane_ids l)"
  by (auto simp: swap_panes_def pane_ids_def swap_ids image_iff)

lemma handle_pane_swap_ok:
  assumes ok: "app_ok a" and res: "handle_pane_swap rn area a req now = Some (a', r)"
  shows "app_ok a'"
proof -
  note so = app_ok_session [OF ok]
  have edit: "layout_wf (focus_pane (fst (swap_panes l i j)) i) \<and> set (pane_ids (focus_pane (fst (swap_panes l i j)) i)) = set (pane_ids l)"
    if "layout_wf l" for l i j
    using layout_tree.focus_keeps [OF layout_wf_swap [OF that, of i j], of i] swap_panes_ids [of l i j] by simp
  have sw: "app_ok (fst (apply_pane_swap a k idx i j now))" for k idx i j
  proof (cases "get_tab (ap_state a) k idx")
    case (Some t)
    have "session_ok (ap_ids a) (ap_next_workspace_id a) (ap_runtimes a)
       (update_tab (ap_state a) k idx (\<lambda>t. t\<lparr>tab_layout := focus_pane (fst (swap_panes (tab_layout t) i j)) i\<rparr>))"
      by (rule session_ok_edit_layout [where f = "\<lambda>l. focus_pane (fst (swap_panes l i j)) i", OF so Some edit])
    then show ?thesis using Some
      by (auto simp: apply_pane_swap_def Let_def intro!: app_ok_state switch_workspace_tab_ok)
  qed (simp add: apply_pane_swap_def Let_def ok)
  have sw': "apply_pane_swap a k idx i j now = (a1, c) \<Longrightarrow> app_ok a1" for k idx i j a1 c
    using sw [of k idx i j] by simp
  then show ?thesis using res ok
    by (auto simp: handle_pane_swap_def Let_def split: option.splits sum.splits prod.splits)
qed

lemma handle_pane_resize_ok:
  assumes ok: "app_ok a" and res: "handle_pane_resize rn area a target nav amount now = Some (a', r)"
  shows "app_ok a'"
proof -
  note so = app_ok_session [OF ok]
  have "app_ok (a\<lparr>ap_state := update_tab (ap_state a) k idx (\<lambda>t. t\<lparr>tab_layout := fst (resize_pane rn (tab_layout t) i nav d area)\<rparr>)\<rparr>)"
    if "get_tab (ap_state a) k idx = Some t" for k idx i d t
    using that resize_pane_keeps [of rn _ i nav d area] layout_wf_resize_pane [of _ rn i nav d area]
    by (intro app_ok_state session_ok_edit_layout [OF so]) auto
  then show ?thesis using res ok
    by (auto simp: handle_pane_resize_def Let_def split: option.splits if_splits prod.splits)
qed

lemma handle_layout_set_split_ratio_ok:
  assumes ok: "app_ok a" and res: "handle_layout_set_split_ratio a tab_id pane_id path ratio now = Some (a', r)"
  shows "app_ok a'"
proof -
  note so = app_ok_session [OF ok]
  have "app_ok (a\<lparr>ap_state := update_tab (ap_state a) k idx (\<lambda>t. t\<lparr>tab_layout := fst (set_ratio_at (tab_layout t) path ratio)\<rparr>)\<rparr>)"
    if "get_tab (ap_state a) k idx = Some t" for k idx t
    using that set_ratio_at_keeps [of _ path ratio] layout_wf_set_ratio [of _ path ratio]
    by (intro app_ok_state session_ok_edit_layout [OF so]) auto
  then show ?thesis using res ok
    by (auto simp: handle_layout_set_split_ratio_def Let_def is_some_and_iff split: option.splits if_splits prod.splits)
qed

lemma set_worktree_membership_ok:
  assumes "session_ok ids n rs s"
  shows "session_ok ids n rs (set_worktree_membership s k m)"
proof (cases "get_workspace s k")
  case (Some w)
  then have k: "k < length (as_workspaces s)" "w = as_workspaces s ! k" by (simp_all add: get_workspace_Some)
  have "ws_inv (w\<lparr>ws_worktree_space := Some m\<rparr>) ids"
    using session_ok_ws [OF assms k(1)] k(2) by (auto simp: ws_inv_def ws_wf_def ws_ok_def ids_below_def)
  then show ?thesis using Some k assms
    by (auto simp: set_worktree_membership_def intro!: session_ok_put [OF assms k(1)])
qed (simp add: set_worktree_membership_def assms)

lemma move_selected_ok:
  assumes "session_ok ids n rs s" "set order \<subseteq> {..<length (as_workspaces s)}"
  shows "session_ok ids n rs (move_selected_workspace_by_visible_delta order s delta)"
proof -
  have "order ! p < length (as_workspaces s)" if "p < length order" for p using assms(2) nth_mem [OF that] by auto
  then show ?thesis using assms(1)
    by (auto simp: move_selected_workspace_by_visible_delta_def Let_def session_ok_def terms_ok_def runtimes_ok_def cursor_ok_def
        split: if_splits)
qed

end
