(* ===== verification/SessionProps.thy ===== *)
theory SessionProps
  imports PaneMoveSteps LayoutRequests WorkspaceProps
begin

section \<open>Reachable sessions\<close>

text \<open>
  The application as a state machine. A step is one of the modelled requests of \<open>app/api\<close>, one event of the
  terminals and agents, one timer, a change of the selection or of the membership of a workspace in a group of
  worktrees, or the clean-up of runtimes; the outcome of a request does not matter. Not among the steps are the
  requests that start agents or apply whole layouts, the creation and removal of worktrees and the popups of plugins: a popup
  keeps a terminal that no pane shows. A step that starts a terminal or moves a pane is taken while the counters have
  room, and the clock is read in its thirteen-digit range. A session starts without
  workspaces; a workspace id counter starts at one.
\<close>

definition fresh_app :: "app \<Rightarrow> bool" where
  "fresh_app a \<longleftrightarrow> as_workspaces (ap_state a) = [] \<and> as_terminals (ap_state a) = [] \<and> as_active (ap_state a) = None
     \<and> as_selected (ap_state a) = 0 \<and> as_terminal_runtime_shutdowns (ap_state a) = []
     \<and> as_public_pane_id_aliases (ap_state a) = [] \<and> as_pane_id_aliases (ap_state a) = []
     \<and> ap_runtimes a = [] \<and> 0 < ap_next_workspace_id a"

abbreviation upd_state :: "app \<Rightarrow> app_state \<Rightarrow> app" where
  "upd_state a s \<equiv> a\<lparr>ap_state := s\<rparr>"

inductive app_step :: "app \<Rightarrow> app \<Rightarrow> bool" where
  workspace_create: "app_room a \<Longrightarrow> clock_in_range micros
    \<Longrightarrow> handle_workspace_create spawn discover a cwd fcs label env micros now = Some (a', r) \<Longrightarrow> app_step a a'"
| tab_create: "app_room a \<Longrightarrow> clock_in_range micros
    \<Longrightarrow> handle_tab_create spawn a wid cwd fcs label env micros now = Some (a', r) \<Longrightarrow> app_step a a'"
| pane_split: "app_room a \<Longrightarrow> clock_in_range micros
    \<Longrightarrow> handle_pane_split spawn a target wid d ratio cwd fcs pass env micros now = Some (a', r) \<Longrightarrow> app_step a a'"
| pane_move: "app_room a \<Longrightarrow> handle_pane_move discover cur a h dest fcs now = Some (a', r) \<Longrightarrow> app_step a a'"
| pane_close: "api_close_pane a h now = Some (a', r) \<Longrightarrow> app_step a a'"
| tab_close: "handle_tab_close a h now = Some (a', r) \<Longrightarrow> app_step a a'"
| workspace_close: "handle_workspace_close a h = Some (a', r) \<Longrightarrow> app_step a a'"
| workspace_focus: "handle_workspace_focus a h = Some (a', r) \<Longrightarrow> app_step a a'"
| tab_focus: "handle_tab_focus a h = Some (a', r) \<Longrightarrow> app_step a a'"
| pane_focus: "handle_pane_focus a h = Some (a', r) \<Longrightarrow> app_step a a'"
| pane_focus_direction: "handle_pane_focus_direction rn area a target nav = Some (a', r) \<Longrightarrow> app_step a a'"
| pane_zoom: "handle_pane_zoom a target command now = Some (a', r) \<Longrightarrow> app_step a a'"
| tab_move: "handle_tab_move a h to now = Some (a', r) \<Longrightarrow> app_step a a'"
| tab_rename: "handle_tab_rename a h label now = Some (a', r) \<Longrightarrow> app_step a a'"
| workspace_rename: "handle_workspace_rename a h label now = Some (a', r) \<Longrightarrow> app_step a a'"
| workspace_move: "handle_workspace_move a h to = Some (a', r) \<Longrightarrow> app_step a a'"
| workspace_move_block: "handle_workspace_move_block a requested before = Some (a', r) \<Longrightarrow> app_step a a'"
| pane_input_set: "handle_pane_input_set a h b = Some (a', r) \<Longrightarrow> app_step a a'"
| pane_rename: "handle_pane_rename a h name = Some (a', r) \<Longrightarrow> app_step a a'"
| pane_swap: "handle_pane_swap rn area a req now = Some (a', r) \<Longrightarrow> app_step a a'"
| pane_resize: "handle_pane_resize rn area a target nav amount now = Some (a', r) \<Longrightarrow> app_step a a'"
| split_ratio: "handle_layout_set_split_ratio a tab_h pane_h path ratio now = Some (a', r) \<Longrightarrow> app_step a a'"
| worktree_membership: "app_step a (upd_state a (set_worktree_membership (ap_state a) k m))"
| selection: "set order \<subseteq> {..<length (as_workspaces (ap_state a))}
    \<Longrightarrow> app_step a (upd_state a (move_selected_workspace_by_visible_delta order (ap_state a) delta))"
| event: "handle_app_event f is_dir (ap_state a) ev now clk = Some (s', u) \<Longrightarrow> app_step a (upd_state a s')"
| exit_published: "app_step a (upd_state a (fst (publish_pane_process_exit_if_agent f (ap_state a) i now clk)))"
| notifications: "app_step a (upd_state a (fst (drain_due_agent_notifications f (ap_state a) now)))"
| managed_agents: "app_step a (upd_state a (fst (reconcile_managed_agents_at (ap_state a) now)))"
| metadata: "app_step a (upd_state a (fst (session_expire_agent_metadata_at f (ap_state a) due now)))"
| tokens: "app_step a (upd_state a (fst (session_expire_metadata_tokens (ap_state a) now)))"
| tab_seen: "app_step a (upd_state a (fst (mark_active_tab_seen (ap_state a))))"
| shutdown: "app_step a (shutdown_detached_terminal_runtimes a)"

inductive app_reachable :: "app \<Rightarrow> bool" where
  start: "fresh_app a \<Longrightarrow> app_reachable a"
| step: "app_reachable a \<Longrightarrow> app_step a a' \<Longrightarrow> app_reachable a'"

lemmas request_steps = handle_workspace_create_ok handle_tab_create_ok handle_pane_split_ok handle_pane_move_ok
  api_close_pane_ok handle_tab_close_ok handle_workspace_close_ok handle_workspace_focus_ok handle_tab_focus_ok
  handle_pane_focus_ok handle_pane_focus_direction_ok handle_pane_zoom_ok handle_tab_move_ok handle_tab_rename_ok
  handle_workspace_rename_ok handle_workspace_move_ok handle_workspace_move_block_ok handle_pane_input_set_ok
  handle_pane_rename_ok handle_pane_swap_ok handle_pane_resize_ok handle_layout_set_split_ratio_ok

lemmas timer_steps = publish_exit_ok drain_ok reconcile_managed_ok expire_metadata_ok expire_tokens_ok mark_seen_ok
  set_worktree_membership_ok move_selected_ok

lemma fresh_app_ok: "fresh_app a \<Longrightarrow> app_ok a"
  by (simp add: fresh_app_def app_ok_def session_ok_def spaces_ok_def terms_ok_def cursor_ok_def runtimes_ok_def tids_def)

lemma app_step_ok: "app_step a a' \<Longrightarrow> app_ok a \<Longrightarrow> app_ok a'"
proof (induction rule: app_step.induct)
  case (event f is_dir a ev now clk s' u)
  then show ?case using handle_app_event_ok [OF app_ok_session] by (blast intro: app_ok_state)
next
  case (shutdown a)
  then show ?case by (rule shutdown_detached_ok)
qed (blast intro: request_steps app_ok_state timer_steps app_ok_session)+

lemma app_reachable_ok: "app_reachable a \<Longrightarrow> app_ok a"
  by (induction rule: app_reachable.induct) (blast intro: fresh_app_ok app_step_ok)+

section \<open>Properties of the session\<close>

subsection \<open>Inputs for the witnesses\<close>

text \<open>An empty session, one with a workspace of one tab, and one with a second tab.\<close>

definition demo_state :: app_state where
  "demo_state = \<lparr>as_terminals = [], as_pane_id_aliases = [], as_public_pane_id_aliases = [], as_workspaces = [],
     as_active = None, as_previous_pane_focus = None, as_selected = 0, as_toast = None, as_pending_agent_notifications = [],
     as_update_available = None, as_update_install_command = '''', as_latest_release_notes_available = False,
     as_update_dismissed = False, as_outer_terminal_focus = None, as_next_agent_state_change_seq = 0,
     as_confirm_close = True, as_sound = \<lparr>sc_enabled = False, sc_agents = (\<lambda>_. SoundDefault)\<rparr>,
     as_toast_config = \<lparr>tc_delivery = DeliverOff, tc_delay_seconds = 0\<rparr>, as_plugin_panes = [],
     as_session_dirty = False, as_terminal_runtime_shutdowns = []\<rparr>"

definition demo_start :: app where
  "demo_start = \<lparr>ap_state = demo_state, ap_runtimes = [], ap_ids = demo_ids 1 1, ap_next_workspace_id = 1,
     ap_no_session = True, ap_session_save_deadline = None\<rparr>"

definition demo_term :: "u64 \<Rightarrow> terminal_state" where
  "demo_term c = new_terminal (demo_tid c) ''/src'' LoginShell"

definition demo_app :: app where
  "demo_app = demo_start\<lparr>ap_state := demo_state\<lparr>as_terminals := [(demo_tid 1, demo_term 1)], as_workspaces := [demo_ws],
     as_active := Some 0, as_session_dirty := True\<rparr>, ap_runtimes := [demo_tid 1], ap_ids := demo_ids 2 2, ap_next_workspace_id := 2\<rparr>"

definition demo_app2 :: app where
  "demo_app2 = demo_app\<lparr>ap_state := (ap_state demo_app)\<lparr>as_terminals := [(demo_tid 1, demo_term 1), (demo_tid 2, demo_term 2)],
     as_workspaces := [demo_ws2]\<rparr>, ap_runtimes := [demo_tid 2, demo_tid 1], ap_ids := demo_ids 3 3\<rparr>"

lemma demo_tids_differ: "demo_tid 1 \<noteq> demo_tid 2"
  using terminal_id_alloc_inj [OF demo_clock demo_clock, of 1 2] by (auto simp: demo_tid_def)

lemma demo_fields [simp]:
  "as_workspaces (ap_state demo_app2) = [demo_ws2]" "as_active (ap_state demo_app2) = Some 0"
  "as_selected (ap_state demo_app2) = 0" "as_public_pane_id_aliases (ap_state demo_app2) = []"
  "ap_runtimes demo_app2 = [demo_tid 2, demo_tid 1]" "ap_ids demo_app2 = demo_ids 3 3" "ap_next_workspace_id demo_app2 = 2"
  "as_terminal_runtime_shutdowns (ap_state demo_app2) = []" "as_pane_id_aliases (ap_state demo_app2) = []"
  by (simp_all add: demo_app2_def demo_app_def demo_start_def demo_state_def)

lemma demo_created:
  "handle_workspace_create (\<lambda>_. None) (\<lambda>_. ''src'') demo_start ''/src'' False None [] (16 ^ 12) 0 = Some (demo_app, Inr 0)"
proof -
  have new: "ws_new_with_tab (\<lambda>_. None) (\<lambda>_. ''src'') ''/src'' LoginShell [] (16 ^ 12) (demo_ids 1 1) 1
    = (Inr (demo_ws, demo_term 1), demo_ids 2 2, 2)"
    by (simp add: ws_new_with_tab_def tab_new_with_runtime_def tile_layout_new_def pane_id_alloc_def demo_term_def
        demo_ids_def demo_ws_def demo_tab_def demo_tid_def case_prod_beta Let_def generate_workspace_id_def)
  have id: "ts_id (demo_term c) = demo_tid c" for c by (simp add: demo_term_def new_terminal_def terminal_new_def)
  have sw: "switch_tab demo_ws 0 = demo_ws"
    by (simp add: switch_tab_def demo_ws_def new_workspace_def demo_tab_def pane_state_new_def)
  have act: "ws_active_tab demo_ws = 0" by (simp add: demo_ws_def new_workspace_def)
  show ?thesis
    by (simp add: handle_workspace_create_def create_workspace_with_launch_env_def normalize_launch_env_def new [simplified] id sw act
        demo_start_def demo_app_def demo_state_def insert_runtime_def Let_def switch_workspace_def get_workspace_def put_workspace_def
        remove_alias_shadowed_by_new_pane_def schedule_session_save_def mark_session_dirty_def current_pane_focus_target_def
        record_pane_focus_after_navigation_def)
qed

lemma demo_tab_created:
  "handle_tab_create (\<lambda>_. None) demo_app None ''/src'' False None [] (16 ^ 12) 0 = Some (demo_app2, Inr (0, 1))"
proof -
  have new: "create_tab_with_runtime (\<lambda>_. None) demo_ws ''/src'' LoginShell [] (16 ^ 12) (demo_ids 2 2)
    = Some (Inr (1, demo_term 2), demo_ws2, demo_ids 3 3)"
    using demo_create_tab by (simp add: demo_term_def)
  have id: "ts_id (demo_term c) = demo_tid c" for c by (simp add: demo_term_def new_terminal_def terminal_new_def)
  show ?thesis
    using demo_tids_differ
    by (simp add: handle_tab_create_def normalize_launch_env_def new [simplified] id demo_app_def demo_app2_def demo_start_def demo_state_def
        insert_runtime_def Let_def get_workspace_def put_workspace_def remove_alias_shadowed_by_new_pane_def schedule_session_save_def)
qed

lemma demo_app2_reachable: "app_reachable demo_app2"
proof -
  have start: "fresh_app demo_start" by (simp add: fresh_app_def demo_start_def demo_state_def)
  have room1: "app_room demo_start"
    by (simp add: app_room_def session_room_def ids_room_def demo_start_def demo_state_def demo_ids_def)
  have room2: "app_room demo_app"
    using demo_room by (simp add: app_room_def session_room_def demo_app_def demo_start_def demo_state_def)
  show ?thesis
    using app_step.workspace_create [OF room1 demo_clock demo_created] app_step.tab_create [OF room2 demo_clock demo_tab_created]
    by (blast intro: app_reachable.intros start)
qed

lemma demo_app2_room: "app_room demo_app2"
  by (simp add: app_room_def session_room_def room_def ids_room_def demo_ws2_def demo_ws_def new_workspace_def demo_ids_def)

subsection \<open>The invariant\<close>

text \<open>Property C1. Start from an empty session and let it take, in any order, the modelled requests (create, split, move, swap,
  resize, zoom, focus, rename, reorder and close workspaces, tabs and panes), the events of terminals and agents, the
  timers, changes of the selection and of worktree groups; no popup is open, since a popup has a terminal outside of all
  panes. Then no pane is in two places and no terminal is shown twice, across all workspaces; the terminals the session
  keeps are those of its panes; the runtimes are those of the kept terminals and of the ones waiting to be shut down, and
  these are apart; workspace ids are distinct; and the active and the selected workspace exist, or there is none.\<close>

theorem app_reachable_invariant:
  assumes "app_reachable a"
  shows "distinct (map fst (all_entries (as_workspaces (ap_state a)))) \<and> distinct (tids (all_entries (as_workspaces (ap_state a))))
    \<and> fst ` set (as_terminals (ap_state a)) = set (tids (all_entries (as_workspaces (ap_state a))))
    \<and> set (ap_runtimes a) = fst ` set (as_terminals (ap_state a)) \<union> set (as_terminal_runtime_shutdowns (ap_state a))
    \<and> fst ` set (as_terminals (ap_state a)) \<inter> set (as_terminal_runtime_shutdowns (ap_state a)) = {}
    \<and> distinct (map ws_id (as_workspaces (ap_state a)))
    \<and> list_all ws_wf (as_workspaces (ap_state a))
    \<and> (case as_active (ap_state a) of None \<Rightarrow> as_workspaces (ap_state a) = [] | Some k \<Rightarrow> k < length (as_workspaces (ap_state a)))
    \<and> as_selected (ap_state a) < max 1 (length (as_workspaces (ap_state a)))"
proof -
  have "session_ok (ap_ids a) (ap_next_workspace_id a) (ap_runtimes a) (ap_state a)"
    using app_reachable_ok [OF assms] by (rule app_ok_session)
  then show ?thesis
    by (auto simp: session_ok_def spaces_ok_def terms_ok_def runtimes_ok_def cursor_ok_def ws_inv_def list_all_iff
        is_some_and_iff split: if_splits)
qed

theorem app_reachable_invariant_witness:
  "distinct (tids (all_entries (as_workspaces (ap_state demo_app2)))) \<and> as_workspaces (ap_state demo_app2) = [demo_ws2]"
  using app_reachable_invariant [OF demo_app2_reachable] by simp

subsection \<open>Handles\<close>

text \<open>The handle the interface gives out for a tab resolves to that tab, in every reachable session.\<close>

theorem public_tab_handle_resolves:
  assumes "app_reachable a" "tab_exists (ap_state a) k idx"
  shows "\<exists>h. session_public_tab_id (ap_state a) k idx = Some h \<and> parse_tab_id (ap_state a) h = Some (k, idx)"
proof -
  note so = app_ok_session [OF app_reachable_ok [OF assms(1)]]
  have "ws_ok {} (as_workspaces (ap_state a) ! k)" using session_ok_ws [OF so] assms(2) by (simp add: ws_inv_def ws_wf_def)
  then have "distinct (map tab_number (ws_tabs (as_workspaces (ap_state a) ! k)))"
    "tab_number (ws_tabs (as_workspaces (ap_state a) ! k) ! idx) \<noteq> 0"
    using nth_mem [OF conjunct2 [OF assms(2)]] by (force simp: ws_ok_def tabs_ok_def)+
  with parse_tab_public [of "ap_state a" k "ap_next_workspace_id a" idx] so assms(2) show ?thesis
    by (simp add: session_ok_def spaces_ok_def session_public_tab_id_def get_workspace_def public_tab_number_def)
qed

theorem public_tab_handle_resolves_witness:
  "\<exists>h. session_public_tab_id (ap_state demo_app2) 0 1 = Some h \<and> parse_tab_id (ap_state demo_app2) h = Some (0, 1)"
  using public_tab_handle_resolves [OF demo_app2_reachable, of 0 1] by simp

text \<open>The handle of a pane of the session resolves to that pane, unless the handle was recorded as an
  alias of a pane that moved away.\<close>

theorem public_pane_handle_resolves:
  assumes "app_reachable a" "k < length (as_workspaces (ap_state a))" "i \<in> fst ` set (ws_entries (as_workspaces (ap_state a) ! k))"
  shows "\<exists>h. session_public_pane_id (ap_state a) k i = Some h
    \<and> (h \<in> fst ` set (as_public_pane_id_aliases (ap_state a)) \<or> parse_pane_id (ap_state a) h = Some (k, i))"
proof -
  note so = app_ok_session [OF app_reachable_ok [OF assms(1)]]
  obtain h where h: "session_public_pane_id (ap_state a) k i = Some h" using entry_known(1) [OF so assms(2,3)] by auto
  have "numbers_ok (ws_public_pane_numbers (as_workspaces (ap_state a) ! k)) (ws_next_public_pane_number (as_workspaces (ap_state a) ! k))"
    using session_ok_ws [OF so assms(2)] by (simp add: ws_inv_def ws_wf_def ws_ok_def)
  with parse_pane_public [OF _ assms(2) _ _ h, of "ap_next_workspace_id a"] so assms(2) h show ?thesis
    by (auto simp: session_ok_def spaces_ok_def map_of_eq_None_iff)
qed

theorem public_pane_handle_resolves_witness:
  "\<exists>h. session_public_pane_id (ap_state demo_app2) 0 2 = Some h \<and> parse_pane_id (ap_state demo_app2) h = Some (0, 2)"
  using public_pane_handle_resolves [OF demo_app2_reachable, of 0 2]
  by (simp add: entries_def demo_tab_def demo_tab2_def)

subsection \<open>Moving a pane\<close>

text \<open>Property C6. A move that passed its checks succeeds: no step of it panics, the recovery of a failed move is not
  needed, the answer names the moved pane, and every pane of the session, the moved one included,
  still shows the terminal it showed before.\<close>

theorem checked_move_succeeds:
  assumes "app_reachable a" "app_room a" "check_pane_move (ap_state a) h dest = Some (Inr m)"
  shows "\<exists>a' pm. handle_pane_move discover cur a h dest fcs now = Some (a', Inr (Changed pm)) \<and> pm_pane_id pm = cm_pane m
    \<and> attachments (ap_state a') = attachments (ap_state a)"
  using pane_move_ok [OF app_reachable_ok [OF assms(1)] assms(2,3)] by blast

lemma demo_pane_handle: "parse_pane_id (ap_state demo_app2) ''p_2'' = Some (0, 2)"
proof -
  have "digits_value ''2'' = 2" by (simp add: digits_value_def byte_def)
  then show ?thesis
    by (simp add: parse_pane_id_def strip_prefix_def parse_u32_def parse_unsigned_def is_digit_def byte_def resolve_raw_pane_id_def find_pane_def
        ws_pane_state_def demo_tab_def demo_tab2_def)
qed

theorem checked_move_succeeds_witness:
  "\<exists>a' pm. handle_pane_move (\<lambda>_. ''src'') ''/'' demo_app2 ''p_2'' (DestNewWorkspace None None) True 0 = Some (a', Inr (Changed pm))
    \<and> pm_pane_id pm = 2 \<and> attachments (ap_state a') = attachments (ap_state demo_app2)"
proof -
  obtain m where m: "check_pane_move (ap_state demo_app2) ''p_2'' (DestNewWorkspace None None) = Some (Inr m)" "cm_pane m = 2"
    by (simp add: check_pane_move_def demo_pane_handle get_workspace_def find_tab_index_for_pane_def demo_tab_def demo_tab2_def
        session_public_tab_id_def public_tab_number_def tab_terminal_id_def resolve_destination_def Let_def)
  from checked_move_succeeds [OF demo_app2_reachable demo_app2_room m(1)] m(2) show ?thesis by simp
qed

text \<open>Property C38. A numeric workspace handle is not checked against the workspaces there are: a request to move a
  pane of an unzoomed tab to a new tab of a workspace whose number is past the last one panics.\<close>

theorem move_to_missing_workspace_panics:
  assumes "parse_pane_id s h = Some (k, i)" "find_tab_index_for_pane (as_workspaces s ! k) i = Some idx"
    and "k < length (as_workspaces s)" "idx < length (ws_tabs (as_workspaces s ! k))"
    and "tab_terminal_id (ws_tabs (as_workspaces s ! k) ! idx) i \<noteq> None" "tab_zoomed (ws_tabs (as_workspaces s ! k) ! idx) = False"
    and "parse_workspace_id s r = Some n" "length (as_workspaces s) \<le> n"
  shows "handle_pane_move discover cur (a\<lparr>ap_state := s\<rparr>) h (DestNewTab (Some r) label) fcs now = None"
  using assms
  by (auto simp: handle_pane_move_def check_pane_move_def get_workspace_def session_public_tab_id_def public_tab_number_def
      resolve_destination_def session_public_workspace_id_def Let_def)

theorem move_to_missing_workspace_panics_witness:
  "handle_pane_move (\<lambda>_. ''src'') ''/'' demo_app2 ''p_2'' (DestNewTab (Some ''9'') None) False 0 = None"
proof -
  have "parse_workspace_id (ap_state demo_app2) ''9'' = Some 8"
  proof -
    have "digits_value ''9'' = 9" "ws_id demo_ws2 \<noteq> ''9''"
      by (simp_all add: digits_value_def byte_def demo_ws2_def demo_ws_def new_workspace_def generate_workspace_id_def Let_def)
    then show ?thesis by (simp add: parse_workspace_id_def strip_prefix_def parse_usize_def parse_unsigned_def is_digit_def byte_def nat_checked_sub_def)
  qed
  from move_to_missing_workspace_panics [OF demo_pane_handle _ _ _ _ _ this, where a = demo_app2] show ?thesis
    by (simp add: find_tab_index_for_pane_def demo_tab_def demo_tab2_def tab_terminal_id_def)
qed

subsection \<open>Runtimes\<close>

text \<open>After the clean-up the terminals with a runtime are exactly the terminals some pane shows.\<close>

theorem cleanup_leaves_shown_runtimes:
  assumes "app_reachable a"
  shows "set (ap_runtimes (shutdown_detached_terminal_runtimes a)) = set (tids (all_entries (as_workspaces (ap_state a))))"
  using shutdown_detached_runtimes [OF app_reachable_ok [OF assms]] app_reachable_ok [OF assms]
  by (simp add: app_ok_def session_ok_def terms_ok_def)

theorem cleanup_leaves_shown_runtimes_witness:
  "set (ap_runtimes (shutdown_detached_terminal_runtimes demo_app2)) = {demo_tid 1, demo_tid 2}"
  using cleanup_leaves_shown_runtimes [OF demo_app2_reachable]
  by (simp add: entries_def tids_def demo_tab_def demo_tab2_def pane_state_new_def)

end
