(* ===== verification/SessionActionProps.thy ===== *)
theory SessionActionProps
  imports SessionProps
begin

section \<open>What the actions on the session do\<close>

text \<open>
  The effect of single actions of \<open>src/src/app/actions.rs\<close>, beyond keeping the invariant: what closing removes, where the focus
  goes and which notifications are due.
\<close>

subsection \<open>Closing\<close>

lemma nths_remove_at: "k < length xs \<Longrightarrow> \<forall>i \<in> A. i < k \<Longrightarrow> nths (remove_at k xs) (- A) = nths xs (- insert k A)"
proof -
  assume k: "k < length xs" and A: "\<forall>i \<in> A. i < k"
  have split: "xs = take k xs @ xs ! k # drop (Suc k) xs" using k by (simp add: id_take_nth_drop)
  have len: "length (take k xs) = k" using k by simp
  have above: "{j. j + k \<in> - A} = UNIV" "{j. Suc j + k \<in> - insert k A} = UNIV" using A by auto
  have low: "nths (take k xs) (- insert k A) = nths (take k xs) (- A)"
  proof -
    have "snd p \<noteq> k" if "p \<in> set (zip (take k xs) [0..<length (take k xs)])" for p
      using that set_zip_rightD [of "fst p" "snd p"] len by fastforce
    then show ?thesis unfolding nths_def by (auto intro!: arg_cong [where f = "map fst"] filter_cong)
  qed
  have "nths xs (- insert k A) = nths (take k xs @ xs ! k # drop (Suc k) xs) (- insert k A)" using split by simp
  also have "\<dots> = nths (take k xs) (- A) @ drop (Suc k) xs"
    using above(2) k by (simp add: nths_append nths_Cons low nths_all)
  finally show ?thesis using above(1) k by (simp add: remove_at_def nths_append nths_all)
qed

lemma remove_all_at_nths:
  "sorted_wrt (<) is \<Longrightarrow> \<forall>i \<in> set is. i < length xs \<Longrightarrow> remove_all_at is xs = nths xs (- set is)"
proof (induction "is" arbitrary: xs rule: rev_induct)
  case (snoc k "is")
  then have k: "k < length xs" and lt: "\<forall>i \<in> set is. i < k" by (simp_all add: sorted_wrt_append)
  have "remove_all_at is (remove_at k xs) = nths (remove_at k xs) (- set is)"
    using snoc.prems lt k by (intro snoc.IH) (auto simp: sorted_wrt_append)
  with nths_remove_at [OF k lt] show ?case by (simp add: remove_all_at_simps insert_commute)
qed (simp add: remove_all_at_simps nths_all)

lemma nth_in_nths: "i < length xs \<Longrightarrow> i \<in> A \<Longrightarrow> xs ! i \<in> set (nths xs A)"
  by (auto simp: set_nths)

text \<open>Two workspaces belong to the same group when their worktrees are of the same repository. The one with the main
  checkout leads the group when there is another one in it.\<close>

definition in_group_of :: "app_state \<Rightarrow> nat \<Rightarrow> nat \<Rightarrow> bool" where
  "in_group_of s k i \<longleftrightarrow> (\<exists>m m'. ws_worktree_space (as_workspaces s ! k) = Some m
     \<and> ws_worktree_space (as_workspaces s ! i) = Some m' \<and> wm_key m' = wm_key m)"

definition leads_group :: "app_state \<Rightarrow> nat \<Rightarrow> bool" where
  "leads_group s k \<longleftrightarrow> (\<exists>m. ws_worktree_space (as_workspaces s ! k) = Some m \<and> \<not> wm_is_linked_worktree m)
     \<and> (\<exists>i < length (as_workspaces s). i \<noteq> k \<and> in_group_of s k i)"

definition workspaces_to_close :: "app_state \<Rightarrow> nat set" where
  "workspaces_to_close s =
     (if leads_group s (as_selected s) then {i. i < length (as_workspaces s) \<and> in_group_of s (as_selected s) i}
      else {as_selected s})"

lemma enumerate_filter_indices:
  "set (map fst (filter (\<lambda>(_, w). P w) (enumerate 0 xs))) = {i. i < length xs \<and> P (xs ! i)}"
  "distinct (map fst (filter (\<lambda>(_, w). P w) (enumerate 0 xs)))"
proof -
  show "set (map fst (filter (\<lambda>(_, w). P w) (enumerate 0 xs))) = {i. i < length xs \<and> P (xs ! i)}"
    by (force simp: in_set_enumerate_eq image_iff)
  show "distinct (map fst (filter (\<lambda>(_, w). P w) (enumerate 0 xs)))"
    by (rule distinct_map_filter) simp
qed

lemma two_elements: "finite A \<Longrightarrow> k \<in> A \<Longrightarrow> 2 \<le> card A \<longleftrightarrow> (\<exists>i \<in> A. i \<noteq> k)"
  by (metis One_nat_def Suc_1 card_1_singleton_iff card_le_Suc0_iff_eq not_less_eq_eq singletonD)

lemma close_indices_set:
  assumes sel: "as_selected s < length (as_workspaces s)"
  shows "set (close_indices s) = workspaces_to_close s"
proof (cases "ws_worktree_space (as_workspaces s ! as_selected s)")
  case None
  with sel show ?thesis
    by (simp add: close_indices_def worktree_group_def get_workspace_def workspaces_to_close_def leads_group_def)
next
  case (Some m)
  define xs where "xs = map fst (filter (\<lambda>(_, w). is_some_and (\<lambda>m'. wm_key m' = wm_key m) (ws_worktree_space w)) (enumerate 0 (as_workspaces s)))"
  have group: "in_group_of s (as_selected s) i \<longleftrightarrow> is_some_and (\<lambda>m'. wm_key m' = wm_key m) (ws_worktree_space (as_workspaces s ! i))" for i
    using Some by (auto simp: in_group_of_def is_some_and_iff)
  have set: "set xs = {i. i < length (as_workspaces s) \<and> in_group_of s (as_selected s) i}" and dist: "distinct xs"
    unfolding xs_def using enumerate_filter_indices [of "\<lambda>w. is_some_and (\<lambda>m'. wm_key m' = wm_key m) (ws_worktree_space w)" "as_workspaces s"]
    by (simp_all add: group)
  have "as_selected s \<in> set xs" using sel Some by (simp add: set group)
  then have "2 \<le> length xs \<longleftrightarrow> (\<exists>i < length (as_workspaces s). i \<noteq> as_selected s \<and> in_group_of s (as_selected s) i)"
    using two_elements [of "set xs" "as_selected s"] distinct_card [OF dist] set by auto
  moreover have "worktree_group s (as_selected s) = (if \<not> wm_is_linked_worktree m \<and> 2 \<le> length xs then Some xs else None)"
    using sel Some by (simp add: worktree_group_def get_workspace_def xs_def)
  ultimately show ?thesis
    using Some set by (auto simp: close_indices_def workspaces_to_close_def leads_group_def)
qed

lemma position_distinct_key:
  assumes "distinct (map f xs)" "position (\<lambda>x. f x = f y) xs = Some j" "y \<in> set xs"
  shows "xs ! j = y"
proof -
  have "j < length xs" "f (xs ! j) = f y" using position_Some [OF assms(2)] by simp_all
  then show ?thesis using assms(1,3) by (auto simp: distinct_map inj_on_def)
qed

text \<open>Property C30. Closing the selected workspace removes it, or the whole group when it leads a group of worktrees,
  and nothing else: the others keep their order and everything in them, and the terminals kept are those of the workspaces
  that stay. When the active workspace stays, it stays active although its index may change, and the selection
  follows it; when it went too, the workspace now at the selected place, or the last one, becomes active; when none is
  left, none is active.\<close>

theorem close_selected_exact:
  assumes "app_reachable a" "as_workspaces (ap_state a) \<noteq> []"
    and "s = ap_state a" "s' = close_selected_workspace s" "gone = workspaces_to_close s"
  shows "as_workspaces s' = nths (as_workspaces s) (- gone)
    \<and> fst ` set (as_terminals s') = set (tids (all_entries (as_workspaces s')))
    \<and> (\<forall>k. as_active s = Some k \<and> k \<notin> gone \<longrightarrow>
        (\<exists>j < length (as_workspaces s'). as_active s' = Some j \<and> as_selected s' = j \<and> as_workspaces s' ! j = as_workspaces s ! k))
    \<and> (\<forall>k. as_active s = Some k \<and> k \<in> gone \<and> as_workspaces s' \<noteq> [] \<longrightarrow>
        as_selected s' = min (as_selected s) (length (as_workspaces s') - 1) \<and> as_active s' = Some (as_selected s'))
    \<and> (as_workspaces s' = [] \<longrightarrow> as_active s' = None \<and> as_selected s' = 0)"
proof -
  note so = app_ok_session [OF app_reachable_ok [OF assms(1)]]
  have cur: "cursor_ok s" and dist: "distinct (map ws_id (as_workspaces s))"
    using so by (simp_all add: assms(3) session_ok_def spaces_ok_def)
  have sel: "as_selected s < length (as_workspaces s)" using cur assms(2,3) by (simp add: cursor_ok_def)
  note idx = close_indices_ok [OF sel, unfolded close_indices_set [OF sel, folded assms(5)]]
  let ?ws = "nths (as_workspaces s) (- gone)"
  have left: "remove_all_at (close_indices s) (as_workspaces s) = ?ws"
    using remove_all_at_nths [OF close_indices_ok [OF sel]] close_indices_set [OF sel] assms(5) by simp
  have ws': "as_workspaces s' = ?ws" using assms(2,3) left by (simp add: assms(4) close_selected_eq)
  have dist': "distinct (map ws_id ?ws)" using dist by (simp only: nths_map [symmetric] distinct_nthsI)
  have terms: "fst ` set (as_terminals s') = set (tids (all_entries (as_workspaces s')))"
    using close_selected_ok [OF so] by (simp add: assms(3,4) session_ok_def terms_ok_def)
  have cursor: "as_active s' = Some (after_close s) \<and> as_selected s' = after_close s" if "?ws \<noteq> []"
    using that assms(2,3) left by (simp add: assms(4) close_selected_eq)
  have stays: "after_close s < length ?ws \<and> ?ws ! after_close s = as_workspaces s ! k" if k: "as_active s = Some k" "k \<notin> gone" for k
  proof -
    have kl: "k < length (as_workspaces s)" using cur assms(2,3) k(1) by (simp add: cursor_ok_def)
    then have mem: "as_workspaces s ! k \<in> set ?ws" using k(2) by (intro nth_in_nths) simp_all
    obtain j where j: "position (\<lambda>w. ws_id w = ws_id (as_workspaces s ! k)) ?ws = Some j" "j < length ?ws"
      by (rule position_ex [of ?ws "\<lambda>w. ws_id w = ws_id (as_workspaces s ! k)"]) (use mem in auto)
    have "after_close s = j" using j k kl by (simp add: after_close_def left get_workspace_def Let_def)
    then show ?thesis using j(2) position_distinct_key [OF dist' j(1) mem] by simp
  qed
  have goes: "after_close s = min (as_selected s) (length ?ws - 1)" if k: "as_active s = Some k" "k \<in> gone" for k
  proof -
    have kl: "k < length (as_workspaces s)" using cur assms(2,3) k(1) by (simp add: cursor_ok_def)
    have "ws_id w \<noteq> ws_id (as_workspaces s ! k)" if "w \<in> set ?ws" for w
    proof -
      from that obtain i where "i < length (as_workspaces s)" "i \<notin> gone" "w = as_workspaces s ! i" by (auto simp: set_nths)
      then show ?thesis using dist kl k(2) by (auto simp: distinct_conv_nth)
    qed
    then have "position (\<lambda>w. ws_id w = ws_id (as_workspaces s ! k)) ?ws = None" by simp
    then have "after_close s = (if length ?ws \<le> as_selected s then length ?ws - 1 else as_selected s)"
      using k kl by (simp add: after_close_def left get_workspace_def Let_def del: position_None)
    then show ?thesis by (auto simp: min_def)
  qed
  have none: "as_workspaces s' = [] \<longrightarrow> as_active s' = None \<and> as_selected s' = 0"
    using close_selected_ok [OF so] by (auto simp: assms(3,4) session_ok_def cursor_ok_def)
  have "\<exists>j < length (as_workspaces s'). as_active s' = Some j \<and> as_selected s' = j \<and> as_workspaces s' ! j = as_workspaces s ! k"
    if k: "as_active s = Some k" "k \<notin> gone" for k
  proof -
    have st: "after_close s < length ?ws" "?ws ! after_close s = as_workspaces s ! k" using stays [OF k] by simp_all
    then have "?ws \<noteq> []" by auto
    with st cursor ws' show ?thesis by auto
  qed
  moreover have "as_selected s' = min (as_selected s) (length (as_workspaces s') - 1) \<and> as_active s' = Some (as_selected s')"
    if "as_active s = Some k" "k \<in> gone" "as_workspaces s' \<noteq> []" for k
    using goes [OF that(1,2)] cursor that(3) ws' by simp
  ultimately show ?thesis using ws' terms none by blast
qed

subsection \<open>Reordering\<close>

text \<open>Moving a workspace takes it out and puts it in at the index meant, nothing else moves; the active
  and the selected workspace are the same workspaces as before.\<close>

theorem move_workspace_keeps_cursor:
  assumes "app_reachable a" "move_workspace (ap_state a) src ins = (s', True)"
  shows "as_workspaces s' = insert_at (if src < ins then ins - 1 else ins) (as_workspaces (ap_state a) ! src)
        (remove_at src (as_workspaces (ap_state a)))
    \<and> map_option (\<lambda>k. ws_id (as_workspaces s' ! k)) (as_active s') = map_option (\<lambda>k. ws_id (as_workspaces (ap_state a) ! k)) (as_active (ap_state a))
    \<and> ws_id (as_workspaces s' ! as_selected s') = ws_id (as_workspaces (ap_state a) ! as_selected (ap_state a))"
proof -
  let ?s = "ap_state a"
  let ?ws = "as_workspaces ?s"
  define ws' where "ws' = insert_at (if src < ins then ins - 1 else ins) (?ws ! src) (remove_at src ?ws)"
  have src: "src < length ?ws" "ins \<le> length ?ws" using assms(2) by (auto simp: move_workspace_def split: if_splits)
  have cur: "cursor_ok ?s" using app_reachable_ok [OF assms(1)] by (simp add: app_ok_def session_ok_def)
  then obtain x where x: "as_active ?s = Some x" "x < length ?ws" "as_selected ?s < length ?ws"
    using src(1) by (auto simp: cursor_ok_def is_some_and_iff split: if_splits)
  have "mset ws' = mset ?ws" using src mset_remove_at [OF src(1)] by (simp add: ws'_def mset_insert_at)
  then have mem: "?ws ! i \<in> set ws'" if "i < length ?ws" for i using nth_mem [OF that] mset_eq_setD by metis
  have found: "\<exists>j. position (\<lambda>w. ws_id w = ws_id (?ws ! i)) ws' = Some j \<and> ws_id (ws' ! j) = ws_id (?ws ! i)" if "i < length ?ws" for i
    by (rule position_ex [of ws' "\<lambda>w. ws_id w = ws_id (?ws ! i)"]) (use mem [OF that] in auto)
  have s': "s' = restore_indices ((mark_session_dirty ?s)\<lparr>as_workspaces := ws'\<rparr>)
      (map_option (\<lambda>k. ws_id (?ws ! k)) (as_active ?s)) (map_option ws_id (get_workspace ?s (as_selected ?s)))"
    using assms(2) src by (auto simp: move_workspace_def Let_def ws'_def dirty_get split: if_splits)
  show ?thesis
    using found [OF x(2)] found [OF x(3)] x by (auto simp: s' restore_indices_def get_workspace_def ws'_def [symmetric])
qed

text \<open>A session with two workspaces.\<close>

definition demo_tab3 :: tab where
  "demo_tab3 = demo_tab2\<lparr>tab_number := 1\<rparr>"

definition demo_ws3 :: workspace where
  "demo_ws3 = new_workspace (\<lambda>_. ''src'') (fst (generate_workspace_id 2)) None ''/src'' demo_tab3"

definition demo_app3 :: app where
  "demo_app3 = demo_app\<lparr>ap_state := (ap_state demo_app)\<lparr>as_terminals := [(demo_tid 1, demo_term 1), (demo_tid 2, demo_term 2)],
     as_workspaces := [demo_ws, demo_ws3]\<rparr>, ap_runtimes := [demo_tid 2, demo_tid 1], ap_ids := demo_ids 3 3, ap_next_workspace_id := 3\<rparr>"

lemma demo3_fields [simp]:
  "as_workspaces (ap_state demo_app3) = [demo_ws, demo_ws3]" "as_active (ap_state demo_app3) = Some 0"
  "as_selected (ap_state demo_app3) = 0"
  by (simp_all add: demo_app3_def demo_app_def demo_start_def demo_state_def)

lemma demo_workspace_added:
  "handle_workspace_create (\<lambda>_. None) (\<lambda>_. ''src'') demo_app ''/src'' False None [] (16 ^ 12) 0 = Some (demo_app3, Inr 1)"
proof -
  have new: "ws_new_with_tab (\<lambda>_. None) (\<lambda>_. ''src'') ''/src'' LoginShell [] (16 ^ 12) (demo_ids 2 2) 2
    = (Inr (demo_ws3, demo_term 2), demo_ids 3 3, 3)"
    by (simp add: ws_new_with_tab_def tab_new_with_runtime_def tile_layout_new_def pane_id_alloc_def demo_term_def
        demo_ids_def demo_ws3_def demo_tab3_def demo_tab2_def demo_tid_def case_prod_beta Let_def generate_workspace_id_def)
  have id: "ts_id (demo_term c) = demo_tid c" for c by (simp add: demo_term_def new_terminal_def terminal_new_def)
  show ?thesis
    using demo_tids_differ
    by (simp add: handle_workspace_create_def create_workspace_with_launch_env_def normalize_launch_env_def new [simplified] id
        demo_app_def demo_app3_def demo_start_def demo_state_def insert_runtime_def Let_def get_workspace_def put_workspace_def
        remove_alias_shadowed_by_new_pane_def schedule_session_save_def)
qed

lemma demo_app_reachable: "app_reachable demo_app"
proof -
  have "fresh_app demo_start" by (simp add: fresh_app_def demo_start_def demo_state_def)
  moreover have "app_room demo_start"
    by (simp add: app_room_def session_room_def ids_room_def demo_start_def demo_state_def demo_ids_def)
  ultimately show ?thesis
    using app_step.workspace_create [OF _ demo_clock demo_created] by (blast intro: app_reachable.intros)
qed

lemma demo_app3_reachable: "app_reachable demo_app3"
proof -
  have "app_room demo_app"
    using demo_room by (simp add: app_room_def session_room_def demo_app_def demo_start_def demo_state_def)
  from app_step.workspace_create [OF this demo_clock demo_workspace_added] demo_app_reachable
  show ?thesis by (rule app_reachable.step [rotated])
qed

text \<open>A third workspace, created with the focus; then the first two become a group and the first one is selected.\<close>

definition demo_tab4 :: tab where
  "demo_tab4 = \<lparr>tab_custom_name = None, tab_number = 1, tab_root_pane = 3,
     tab_layout = \<lparr>tl_root = Pane 3, tl_focus = 3, tl_prev_focus = None\<rparr>,
     tab_panes = [(3, pane_state_new (demo_tid 3))], tab_zoomed = False\<rparr>"

definition demo_ws4 :: workspace where
  "demo_ws4 = new_workspace (\<lambda>_. ''src'') (fst (generate_workspace_id 3)) None ''/src'' demo_tab4"

definition demo_app4 :: app where
  "demo_app4 = demo_app3\<lparr>ap_state := (ap_state demo_app3)\<lparr>
     as_terminals := [(demo_tid 1, demo_term 1), (demo_tid 2, demo_term 2), (demo_tid 3, demo_term 3)],
     as_workspaces := [demo_ws, demo_ws3, demo_ws4], as_active := Some 2, as_selected := 2,
     as_previous_pane_focus := Some \<lparr>ft_workspace_id = ws_id demo_ws, ft_pane_id = 1\<rparr>\<rparr>,
     ap_runtimes := [demo_tid 3, demo_tid 2, demo_tid 1], ap_ids := demo_ids 4 4, ap_next_workspace_id := 4\<rparr>"

lemma demo_tids_differ3: "demo_tid 1 \<noteq> demo_tid 3" "demo_tid 2 \<noteq> demo_tid 3"
  using terminal_id_alloc_inj [OF demo_clock demo_clock, of 1 3] terminal_id_alloc_inj [OF demo_clock demo_clock, of 2 3]
  by (auto simp: demo_tid_def)

lemma demo_third_added:
  "handle_workspace_create (\<lambda>_. None) (\<lambda>_. ''src'') demo_app3 ''/src'' True None [] (16 ^ 12) 0 = Some (demo_app4, Inr 2)"
proof -
  have new: "ws_new_with_tab (\<lambda>_. None) (\<lambda>_. ''src'') ''/src'' LoginShell [] (16 ^ 12) (demo_ids 3 3) 3
    = (Inr (demo_ws4, demo_term 3), demo_ids 4 4, 4)"
    by (simp add: ws_new_with_tab_def tab_new_with_runtime_def tile_layout_new_def pane_id_alloc_def demo_term_def
        demo_ids_def demo_ws4_def demo_tab4_def demo_tid_def case_prod_beta Let_def generate_workspace_id_def)
  have id: "ts_id (demo_term c) = demo_tid c" for c by (simp add: demo_term_def new_terminal_def terminal_new_def)
  have sw: "switch_tab demo_ws4 0 = demo_ws4"
    by (simp add: switch_tab_def demo_ws4_def new_workspace_def demo_tab4_def pane_state_new_def)
  have act: "ws_active_tab demo_ws4 = 0" "focused_pane_id demo_ws = Some 1" "focused_pane_id demo_ws4 = Some 3"
    by (simp_all add: demo_ws_def demo_ws4_def new_workspace_def focused_pane_id_def active_tab_def demo_tab_def demo_tab4_def)
  show ?thesis
    using demo_tids_differ demo_tids_differ3
    by (simp add: handle_workspace_create_def create_workspace_with_launch_env_def normalize_launch_env_def new [simplified] id sw act
        demo_app_def demo_app3_def demo_app4_def demo_start_def demo_state_def insert_runtime_def Let_def get_workspace_def put_workspace_def
        remove_alias_shadowed_by_new_pane_def schedule_session_save_def switch_workspace_def mark_session_dirty_def
        current_pane_focus_target_def record_pane_focus_after_navigation_def)
qed

definition demo_membership :: "bool \<Rightarrow> worktree_space_membership" where
  "demo_membership linked = \<lparr>wm_key = ''repo'', wm_label = ''repo'', wm_repo_root = ''/src'', wm_checkout_path = ''/src'',
     wm_is_linked_worktree = linked\<rparr>"

definition demo_grouped :: app where
  "demo_grouped = upd_state demo_app4 (move_selected_workspace_by_visible_delta [0, 1, 2]
     (set_worktree_membership (set_worktree_membership (ap_state demo_app4) 0 (demo_membership False)) 1 (demo_membership True)) (- 2))"

lemma demo_grouped_reachable: "app_reachable demo_grouped"
proof -
  have "app_room demo_app3"
    using demo_room by (simp add: app_room_def session_room_def demo_app3_def demo_app_def demo_start_def demo_state_def
        room_def ids_room_def demo_ids_def demo_ws3_def new_workspace_def)
  from app_step.workspace_create [OF this demo_clock demo_third_added]
  have 1: "app_reachable demo_app4" by (rule app_reachable.step [OF demo_app3_reachable])
  let ?a = "upd_state demo_app4 (set_worktree_membership (ap_state demo_app4) 0 (demo_membership False))"
  have 2: "app_reachable ?a" using app_step.worktree_membership by (rule app_reachable.step [OF 1])
  let ?b = "upd_state ?a (set_worktree_membership (ap_state ?a) 1 (demo_membership True))"
  have 3: "app_reachable ?b" using app_step.worktree_membership by (rule app_reachable.step [OF 2])
  have "set [0, 1, 2] \<subseteq> {..<length (as_workspaces (ap_state ?b))}"
    by (simp add: set_worktree_membership_def demo_app4_def get_workspace_def put_workspace_def mark_session_dirty_def)
  from app_reachable.step [OF 3 app_step.selection [OF this, of "- 2"]]
  show ?thesis by (simp add: demo_grouped_def)
qed

lemma demo_grouped_fields:
  "as_workspaces (ap_state demo_grouped) = [demo_ws\<lparr>ws_worktree_space := Some (demo_membership False)\<rparr>,
     demo_ws3\<lparr>ws_worktree_space := Some (demo_membership True)\<rparr>, demo_ws4]"
  "as_active (ap_state demo_grouped) = Some 2" "as_selected (ap_state demo_grouped) = 0"
  by (simp_all add: demo_grouped_def demo_app4_def move_selected_workspace_by_visible_delta_def set_worktree_membership_def
      get_workspace_def put_workspace_def mark_session_dirty_def demo_ws_def demo_ws3_def new_workspace_def Let_def)

theorem close_selected_exact_witness:
  "as_workspaces (close_selected_workspace (ap_state demo_grouped)) = [demo_ws4]
   \<and> fst ` set (as_terminals (close_selected_workspace (ap_state demo_grouped))) = {demo_tid 3}
   \<and> as_active (close_selected_workspace (ap_state demo_grouped)) = Some 0"
proof -
  have gone: "workspaces_to_close (ap_state demo_grouped) = {0, 1}"
    by (auto simp: workspaces_to_close_def leads_group_def in_group_of_def demo_grouped_fields demo_membership_def
        demo_ws4_def new_workspace_def less_Suc_eq numeral_3_eq_3)
  have left: "nths (as_workspaces (ap_state demo_grouped)) (- {0, 1}) = [demo_ws4]"
    by (simp add: demo_grouped_fields nths_Cons)
  note c = close_selected_exact [OF demo_grouped_reachable _ refl refl refl, unfolded gone left]
  have ws: "as_workspaces (close_selected_workspace (ap_state demo_grouped)) = [demo_ws4]"
    using c by (simp add: demo_grouped_fields)
  moreover have "tids (all_entries [demo_ws4]) = [demo_tid 3]"
    by (simp add: demo_ws4_def new_workspace_def demo_tab4_def tids_def entries_def pane_state_new_def)
  moreover have "as_active (close_selected_workspace (ap_state demo_grouped)) = Some 0"
    using c by (auto simp: demo_grouped_fields ws)
  ultimately show ?thesis using c by (simp add: demo_grouped_fields)
qed

theorem move_workspace_keeps_cursor_witness:
  "\<exists>s'. move_workspace (ap_state demo_app3) 0 2 = (s', True) \<and> as_workspaces s' = [demo_ws3, demo_ws]
    \<and> ws_id (as_workspaces s' ! as_selected s') = ws_id demo_ws"
proof -
  have "snd (move_workspace (ap_state demo_app3) 0 2)" by (simp add: move_workspace_def Let_def)
  then obtain s' where s': "move_workspace (ap_state demo_app3) 0 2 = (s', True)"
    by (cases "move_workspace (ap_state demo_app3) 0 2") simp
  note m = move_workspace_keeps_cursor [OF demo_app3_reachable s']
  have "as_workspaces s' = [demo_ws3, demo_ws]" using m by (simp add: insert_at_def remove_at_def)
  moreover have "ws_id (as_workspaces s' ! as_selected s') = ws_id demo_ws" using m by (elim conjE) (simp only: demo3_fields nth_Cons_0)
  ultimately show ?thesis using s' by blast
qed

subsection \<open>Focus\<close>

text \<open>Focusing a pane of the session makes its workspace active and its tab and itself focused there; the
  pane that had the focus before is remembered when the focus changed.\<close>

theorem focus_pane_takes_focus:
  assumes "app_reachable a" "k < length (as_workspaces (ap_state a))" "i \<in> fst ` set (ws_entries (as_workspaces (ap_state a) ! k))"
    and "focus_pane_in_workspace (ap_state a) k i = (s', changed)"
  shows "current_pane_focus_target s' = Some \<lparr>ft_workspace_id = ws_id (as_workspaces (ap_state a) ! k), ft_pane_id = i\<rparr>
    \<and> (changed \<longrightarrow> as_previous_pane_focus s' = current_pane_focus_target (ap_state a)) \<and> attachments s' = attachments (ap_state a)"
proof -
  let ?s = "ap_state a"
  let ?w = "as_workspaces ?s ! k"
  note so = app_ok_session [OF app_reachable_ok [OF assms(1)]]
  obtain idx where idx: "find_tab_index_for_pane ?w i = Some idx" using find_tab_index_None [of ?w i] assms(3)
    by (cases "find_tab_index_for_pane ?w i") auto
  note ft = found_tab_pane [OF so assms(2) idx]
  let ?t = "\<lparr>ft_workspace_id = ws_id ?w, ft_pane_id = i\<rparr>"
  show ?thesis
  proof (cases "current_pane_focus_target ?s = Some ?t")
    case True
    with assms(4) idx assms(2) show ?thesis by (auto simp: focus_pane_in_workspace_def get_workspace_def)
  next
    case False
    let ?s1 = "fst (switch_workspace_tab ?s k idx)"
    have ws1: "as_workspaces ?s1 = (as_workspaces ?s)[k := switch_tab ?w idx]" "as_active ?s1 = Some k"
      using ft(1) by (simp_all add: switch_workspace_tab_fields)
    have ex1: "tab_exists ?s1 k idx" using ft(1) by (simp add: ws1 switch_tab_def Let_def)
    let ?f = "\<lambda>t. t\<lparr>tab_layout := focus_pane (tab_layout t) i\<rparr>"
    have s': "s' = mark_session_dirty ((update_tab ?s1 k idx ?f)\<lparr>as_previous_pane_focus := current_pane_focus_target ?s\<rparr>)"
      using assms(4) idx assms(2) False ex1
      by (auto simp: focus_pane_in_workspace_def get_workspace_def get_tab_def Let_def split: if_splits)
    have lay: "tab_layout (ws_tabs (switch_tab ?w idx) ! idx) = tab_layout (ws_tabs ?w ! idx)" "ws_active_tab (switch_tab ?w idx) = idx"
      "ws_id (switch_tab ?w idx) = ws_id ?w" "idx < length (ws_tabs (switch_tab ?w idx))"
      using ft(1) by (simp_all add: switch_tab_def Let_def)
    have foc: "tl_focus (focus_pane (tab_layout (ws_tabs ?w ! idx)) i) = i"
      using ft(2) by (auto simp: focus_pane_def set_focus_def tab_pane_ids_def pane_ids_def split: option.split)
    have upd: "as_workspaces s' = (as_workspaces ?s)[k := (switch_tab ?w idx)\<lparr>ws_tabs :=
        (ws_tabs (switch_tab ?w idx))[idx := ?f (ws_tabs (switch_tab ?w idx) ! idx)]\<rparr>]" "as_active s' = Some k"
      "as_previous_pane_focus s' = current_pane_focus_target ?s"
      using ws1 assms(2) by (simp_all add: s' update_tab_def put_workspace_def mark_session_dirty_def)
    have "current_pane_focus_target s' = Some ?t"
      using assms(2) lay foc by (simp add: current_pane_focus_target_def upd get_workspace_def focused_pane_id_def active_tab_def)
    moreover have "map (\<lambda>t. tab_panes t) ((ws_tabs (switch_tab ?w idx))[idx := ?f (ws_tabs (switch_tab ?w idx) ! idx)])
        = map (\<lambda>t. tab_panes t) (ws_tabs (switch_tab ?w idx))"
      using lay(4) by (intro map_update_same) simp_all
    then have "ws_entries ((switch_tab ?w idx)\<lparr>ws_tabs := (ws_tabs (switch_tab ?w idx))[idx := ?f (ws_tabs (switch_tab ?w idx) ! idx)]\<rparr>)
        = ws_entries (switch_tab ?w idx)" by (simp add: entries_def)
    then have "map ws_entries (as_workspaces s') = map ws_entries (as_workspaces ?s1)"
      by (simp add: upd ws1 map_update)
    then have "attachments s' = attachments ?s1" by (simp add: attachments_def all_entries_def)
    ultimately show ?thesis using upd(3) attachments_switch [of ?s k idx] by simp
  qed
qed

theorem focus_pane_takes_focus_witness:
  "map_option ft_pane_id (current_pane_focus_target (fst (focus_pane_in_workspace (ap_state demo_app2) 0 2))) = Some 2"
proof -
  have "2 \<in> fst ` set (ws_entries (as_workspaces (ap_state demo_app2) ! 0))"
    by (simp add: entries_def demo_tab_def demo_tab2_def)
  from focus_pane_takes_focus [OF demo_app2_reachable _ this surjective_pairing] show ?thesis by simp
qed

subsection \<open>Events of one terminal\<close>

lemma seen_same_attachments:
  "attachments (put_workspace s k (set_pane_seen (as_workspaces s ! k) i b)) = attachments s"
proof (cases "k < length (as_workspaces s)")
  case True
  let ?w = "as_workspaces s ! k" and ?f = "\<lambda>(i, p). (i, ps_attached_terminal_id p)"
  have flag: "hm_get m i = Some p \<Longrightarrow> map ?f (hm_insert m i (p\<lparr>ps_seen := b\<rparr>)) = map ?f m" for m p
    by (induction m) auto
  have "map ?f (ws_entries (set_pane_seen ?w i b)) = map ?f (ws_entries ?w)"
  proof (cases "find_tab_index_for_pane ?w i")
    case (Some idx)
    from find_tab_index_Some [OF Some] obtain p where idx: "idx < length (ws_tabs ?w)"
      and p: "hm_get (tab_panes (ws_tabs ?w ! idx)) i = Some p" .
    let ?t = "(ws_tabs ?w ! idx)\<lparr>tab_panes := hm_insert (tab_panes (ws_tabs ?w ! idx)) i (p\<lparr>ps_seen := b\<rparr>)\<rparr>"
    have "map (\<lambda>t. map ?f (tab_panes t)) ((ws_tabs ?w)[idx := ?t]) = map (\<lambda>t. map ?f (tab_panes t)) (ws_tabs ?w)"
      using idx flag [OF p] by (intro map_update_same) simp_all
    then show ?thesis using Some p by (simp add: set_pane_seen_def Let_def entries_def map_concat comp_def)
  qed (simp add: set_pane_seen_def)
  then have "image_mset ?f (mset (ws_entries (set_pane_seen ?w i b))) = image_mset ?f (mset (ws_entries ?w))" by (metis mset_map)
  with True all_entries_split(1) [of k "as_workspaces s"] all_entries_split(2) [of k "as_workspaces s" "set_pane_seen ?w i b"]
  show ?thesis by (simp add: attachments_def)
qed (simp add: put_workspace_def attachments_def list_update_beyond)

definition same_session :: "app_state \<Rightarrow> app_state \<Rightarrow> bool" where
  "same_session s s' \<longleftrightarrow> attachments s' = attachments s \<and> map ws_id (as_workspaces s') = map ws_id (as_workspaces s)
     \<and> as_active s' = as_active s \<and> as_selected s' = as_selected s
     \<and> as_terminal_runtime_shutdowns s' = as_terminal_runtime_shutdowns s"

lemma same_session_change: "same_session s (fst (apply_pane_state_change f s k i c now))"
  "as_terminals (fst (apply_pane_state_change f s k i c now)) = as_terminals s"
proof -
  have wid: "ws_id (set_pane_seen w i b) = ws_id w" for w b by (simp add: set_pane_seen_def Let_def split: option.split)
  have "map ws_id ((as_workspaces s)[k := set_pane_seen (as_workspaces s ! k) i b]) = map ws_id (as_workspaces s)" for b
    by (cases "k < length (as_workspaces s)") (simp_all add: wid map_update_same list_update_beyond)
  then have seen: "same_session s (put_workspace s k (set_pane_seen (as_workspaces s ! k) i b))"
    "as_terminals (put_workspace s k (set_pane_seen (as_workspaces s ! k) i b)) = as_terminals s" for b
    using seen_same_attachments [of s k i b] by (simp_all add: same_session_def)
  have rec: "same_session s' (fst (record_or_deliver_agent_notification f s' k i c now))"
    "as_terminals (fst (record_or_deliver_agent_notification f s' k i c now)) = as_terminals s'" for s'
    by (auto simp: record_or_deliver_agent_notification_def same_session_def attachments_def Let_def split: option.split sound.split)
  have del: "same_session s' (apply_agent_notification_delivery s' d)"
    "as_terminals (apply_agent_notification_delivery s' d) = as_terminals s'" for s' d
    by (auto simp: apply_agent_notification_delivery_def same_session_def attachments_def split: option.split)
  have tr: "same_session s1 s2 \<Longrightarrow> same_session s2 s3 \<Longrightarrow> same_session s1 s3" for s1 s2 s3
    by (simp add: same_session_def)
  have "same_session s (fst (apply_pane_state_change f s k i c now))
    \<and> as_terminals (fst (apply_pane_state_change f s k i c now)) = as_terminals s"
  proof (cases "ws_pane_state (as_workspaces s ! k) i")
    case None
    then show ?thesis by (simp add: apply_pane_state_change_def same_session_def Let_def)
  next
    case (Some pane)
    define b where "b = (if ec_state c \<noteq> Idle then True
      else if is_completion_transition c then active_tab_suppresses_notifications (pane_is_in_active_tab s k i) (as_outer_terminal_focus s)
      else ps_seen pane)"
    define s1 where "s1 = put_workspace s k (set_pane_seen (as_workspaces s ! k) i b)"
    obtain s2 d where r: "record_or_deliver_agent_notification f s1 k i c now = (s2, d)" by fastforce
    have "same_session s s2" "as_terminals s2 = as_terminals s"
      using tr [OF seen(1) [of b], of s2] rec [of s1] seen(2) [of b] r by (simp_all add: s1_def)
    moreover have "fst (apply_pane_state_change f s k i c now) = (case d of None \<Rightarrow> s2 | Some d \<Rightarrow> apply_agent_notification_delivery s2 d)"
      unfolding apply_pane_state_change_def Let_def Some option.case b_def [symmetric] s1_def [symmetric] r prod.case
      by (cases d) simp_all
    ultimately show ?thesis using tr [OF _ del(1)] del(2) by (cases d) simp_all
  qed
  then show "same_session s (fst (apply_pane_state_change f s k i c now))"
    "as_terminals (fst (apply_pane_state_change f s k i c now)) = as_terminals s" by blast+
qed

lemma same_session_number: "same_session s (number_state_change s tid c)"
  by (auto simp: number_state_change_def same_session_def attachments_def Let_def split: option.split)

lemma number_state_change_others: "t \<noteq> tid \<Longrightarrow> hm_get (as_terminals (number_state_change s tid c)) t = hm_get (as_terminals s) t"
  by (auto simp: number_state_change_def Let_def split: option.split)

lemma find_in_enumerate:
  "find_map (\<lambda>(j, w). map_option (\<lambda>pane. (j, pane)) (g w)) (enumerate n xs)
    = map_option (\<lambda>k. (n + k, the (g (xs ! k)))) (position (\<lambda>w. g w \<noteq> None) xs)"
  by (induction xs arbitrary: n) (auto simp: option.map_comp comp_def split: option.split)

text \<open>Whatever is reported for a pane, the update changes no terminal but the one the pane shows, and
  moves nothing: the panes keep their terminals, the workspaces their order and ids, and the cursor
  and the runtimes to shut down stay.\<close>

theorem terminal_update_is_local:
  "same_session s (fst (update_terminal_state f s i upd now))
   \<and> (hm_get (as_terminals (fst (update_terminal_state f s i upd now))) t = hm_get (as_terminals s) t
      \<or> (\<exists>k p. find_pane s i = Some (k, p) \<and> t = ps_attached_terminal_id p))"
proof (cases "position (\<lambda>w. ws_pane_state w i \<noteq> None) (as_workspaces s)")
  case None
  show ?thesis unfolding update_terminal_state_def None option.case by (simp add: same_session_def)
next
  case (Some k)
  note pos = position_Some [OF Some]
  then obtain p where p: "ws_pane_state (as_workspaces s ! k) i = Some p" by auto
  have fp: "find_pane s i = Some (k, p)" using Some p by (simp add: find_pane_def find_in_enumerate)
  let ?tid = "ps_attached_terminal_id p"
  show ?thesis
  proof (cases "hm_get (as_terminals s) ?tid")
    case None
    with Some p show ?thesis by (simp add: update_terminal_state_def same_session_def Let_def)
  next
    case trm: (Some trm)
    have ins: "same_session s (s\<lparr>as_terminals := m\<rparr>)" "same_session s (mark_session_dirty (s\<lparr>as_terminals := m\<rparr>))" for m
      by (simp_all add: same_session_def attachments_def)
    obtain t1 mu where u: "upd trm = (t1, mu)" by fastforce
    show ?thesis
    proof (cases mu)
      case None
      with Some p trm u ins fp show ?thesis by (auto simp: update_terminal_state_def Let_def)
    next
      case mu: (Some mutation)
      obtain t2 ch where r: "reconcile_managed_agent_at t1 now False = (t2, ch)" by fastforce
      define s2 where "s2 = (if tm_session_ref_changed mutation \<or> ch \<or> ts_agent_name t2 \<noteq> ts_agent_name trm
        then mark_session_dirty (s\<lparr>as_terminals := hm_insert (as_terminals s) ?tid t2\<rparr>)
        else s\<lparr>as_terminals := hm_insert (as_terminals s) ?tid t2\<rparr>)"
      have s2: "same_session s s2" "t \<noteq> ?tid \<Longrightarrow> hm_get (as_terminals s2) t = hm_get (as_terminals s) t"
        using ins by (simp_all add: s2_def)
      have loc: "same_session s (fst (apply_pane_state_change f (number_state_change s2 ?tid c) k i c now))
        \<and> (hm_get (as_terminals (fst (apply_pane_state_change f (number_state_change s2 ?tid c) k i c now))) t = hm_get (as_terminals s) t
           \<or> t = ?tid)" for c
        using same_session_change [where s = "number_state_change s2 ?tid c" and f = f and k = k and i = i and c = c and now = now] same_session_number [of s2 ?tid c] s2
          number_state_change_others [of t ?tid s2 c] by (auto simp: same_session_def)
      define ch' where "ch' = or_else (tm_effective_state_change mutation)
        (if tm_agent_released mutation \<or> ts_agent_name t2 \<noteq> ts_agent_name trm then Some (unchanged_effective_state_change_at t2 now) else None)"
      have "fst (update_terminal_state f s i upd now) = (case ch' of None \<Rightarrow> s2
          | Some c \<Rightarrow> fst (apply_pane_state_change f (number_state_change s2 ?tid c) k i c now))"
        unfolding update_terminal_state_def Some option.case p Let_def trm u mu prod.case r s2_def [symmetric] ch'_def [symmetric]
        by (cases ch') (auto split: option.split prod.split)
      then show ?thesis using loc s2 fp by (cases ch') auto
    qed
  qed
qed

subsection \<open>Pending notifications\<close>

lemma drain_one_pending:
  "as_pending_agent_notifications (fst (drain_one f acc i)) = hm_remove (as_pending_agent_notifications (fst acc)) i"
  "length (snd (drain_one f acc i)) \<le> Suc (length (snd acc))"
proof -
  obtain s ds where acc: "acc = (s, ds)" by fastforce
  show "as_pending_agent_notifications (fst (drain_one f acc i)) = hm_remove (as_pending_agent_notifications (fst acc)) i"
    by (auto simp: acc drain_one_def Let_def delete_id map_of_eq_None_iff apply_agent_notification_delivery_def split: option.split)
  show "length (snd (drain_one f acc i)) \<le> Suc (length (snd acc))"
    by (simp add: acc drain_one_def Let_def split: option.split)
qed

lemma drain_pending:
  "as_pending_agent_notifications (fst (foldl (drain_one f) acc xs)) = filter (\<lambda>(i, _). i \<notin> set xs) (as_pending_agent_notifications (fst acc))
    \<and> length (snd (foldl (drain_one f) acc xs)) \<le> length (snd acc) + length xs"
proof (induction xs arbitrary: acc)
  case (Cons i xs)
  have "filter (\<lambda>(j, _). j \<notin> set xs) (hm_remove ps i) = filter (\<lambda>(j, _). j \<notin> set (i # xs)) ps" for ps :: "(pane_id \<times> 'a) list"
    by (induction ps) auto
  then show ?case using Cons.IH [of "drain_one f acc i"] drain_one_pending [of f acc i] by simp
qed simp

text \<open>The timer for notifications takes out exactly those whose delay is over and keeps the others as they
  were; it delivers at most one notification for each it took out, and what is still pending is
  due later.\<close>

theorem drain_takes_exactly_due:
  assumes "hm_ok (as_pending_agent_notifications s)" "drain_due_agent_notifications f s now = (s', ds)"
  shows "as_pending_agent_notifications s' = filter (\<lambda>(_, p). now < pn_deadline p) (as_pending_agent_notifications s)
    \<and> length ds \<le> length (filter (\<lambda>(_, p). pn_deadline p \<le> now) (as_pending_agent_notifications s))
    \<and> is_none_or (\<lambda>d. now < d) (next_pending_agent_notification_deadline s')"
proof -
  let ?ps = "as_pending_agent_notifications s"
  let ?due = "map fst (filter (\<lambda>(_, p). pn_deadline p \<le> now) ?ps)"
  have d: "foldl (drain_one f) (s, []) ?due = (s', ds)" using assms(2) by (simp add: drain_due_agent_notifications_def)
  have "i \<in> set ?due \<longleftrightarrow> pn_deadline p \<le> now" if p: "(i, p) \<in> set ?ps" for i p
  proof
    assume "i \<in> set ?due"
    then obtain q where q: "(i, q) \<in> set ?ps" "pn_deadline q \<le> now" by auto
    from eq_key_imp_eq_value [OF assms(1) p q(1)] q(2) show "pn_deadline p \<le> now" by simp
  next
    assume "pn_deadline p \<le> now"
    with p have "(i, p) \<in> set (filter (\<lambda>(_, p). pn_deadline p \<le> now) ?ps)" by simp
    then show "i \<in> set ?due" by (metis fst_conv image_eqI set_map)
  qed
  note due = this
  have "filter (\<lambda>(i, _). i \<notin> set ?due) ?ps = filter (\<lambda>(_, p). now < pn_deadline p) ?ps"
  proof (rule filter_cong [OF refl])
    fix e assume "e \<in> set ?ps"
    then show "(case e of (i, _) \<Rightarrow> i \<notin> set ?due) = (case e of (_, p) \<Rightarrow> now < pn_deadline p)"
      using due [of "fst e" "snd e"] by (simp only: prod.collapse case_prod_beta not_le)
  qed
  with conjunct1 [OF drain_pending, of f "(s, [])" ?due] d
  have pend: "as_pending_agent_notifications s' = filter (\<lambda>(_, p). now < pn_deadline p) ?ps" by simp
  have "is_none_or (\<lambda>d. now < d) (next_pending_agent_notification_deadline s')"
    by (cases "next_pending_agent_notification_deadline s'")
      (auto simp: next_pending_agent_notification_deadline_def pend is_none_or_def dest!: min_by_key_Some)
  with pend drain_pending [of f "(s, [])" ?due] d show ?thesis by simp
qed

theorem drain_takes_exactly_due_witness:
  "let p = \<lparr>pn_pane_id = 1, pn_workspace_id = ''w1'', pn_agent_label = ''pi'', pn_known_agent = None,
             pn_kind = Finished, pn_state = Idle, pn_deadline = 5\<rparr>;
       s = demo_state\<lparr>as_pending_agent_notifications := [(1, p), (2, p\<lparr>pn_deadline := 9\<rparr>)]\<rparr>
   in map fst (as_pending_agent_notifications (fst (drain_due_agent_notifications (\<lambda>x. x) s 7))) = [2]"
  unfolding Let_def
  by (subst conjunct1 [OF drain_takes_exactly_due [OF _ surjective_pairing]]) simp_all

subsection \<open>Aliases\<close>

text \<open>Closing workspaces leaves the aliases of their panes behind; only the death of a pane removes them.\<close>

lemma unattached_aliases:
  "as_public_pane_id_aliases (remove_unattached_terminal_ids s ts) = as_public_pane_id_aliases s"
proof -
  have "as_public_pane_id_aliases (remove_unattached_terminal_id s t) = as_public_pane_id_aliases s" for s t
    by (simp add: remove_unattached_terminal_id_def Let_def)
  then show ?thesis by (induction ts arbitrary: s) (simp_all add: remove_unattached_terminal_ids_def)
qed

theorem close_keeps_aliases:
  "as_public_pane_id_aliases (close_selected_workspace s) = as_public_pane_id_aliases s"
  by (simp add: close_selected_eq close_chosen_def unattached_aliases remove_plugin_pane_records_def mark_session_dirty_def Let_def)

end
