(* ===== verification/RustUtf8.thy ===== *)
theory RustUtf8
  imports RustStr
begin

section \<open>UTF-8 of the standard library\<close>

text \<open>
  A Rust \<open>char\<close> is a Unicode scalar value, here its number (\<open>uchar\<close>). \<open>encode_utf8\<close> writes one,
  \<open>utf8_next\<close> reads the first one of a byte string the way \<open>str::from_utf8\<close> does: it tells a
  complete character, an ill-formed sequence and an unexpected end apart (Unicode table 3-7),
  and \<open>valid_utf8\<close> is that \<open>from_utf8\<close> succeeds.
\<close>

type_synonym uchar = nat

definition is_scalar :: "nat \<Rightarrow> bool" where
  "is_scalar c \<longleftrightarrow> c < 1114112 \<and> \<not> (55296 \<le> c \<and> c \<le> 57343)"

definition char_from_u32 :: "nat \<Rightarrow> uchar option" where
  "char_from_u32 n = (if is_scalar n then Some n else None)"

definition encode_utf8 :: "uchar \<Rightarrow> rstr" where
  "encode_utf8 c = map char_of
     (if c < 128 then [c]
      else if c < 2048 then [192 + c div 64, 128 + c mod 64]
      else if c < 65536 then [224 + c div 4096, 128 + c div 64 mod 64, 128 + c mod 64]
      else [240 + c div 262144, 128 + c div 4096 mod 64, 128 + c div 64 mod 64, 128 + c mod 64])"

datatype utf8_step = Utf8_Char nat | Utf8_Invalid | Utf8_Incomplete

fun utf8_rest :: "(nat \<times> nat) list \<Rightarrow> nat \<Rightarrow> rstr \<Rightarrow> utf8_step" where
  "utf8_rest [] n s = Utf8_Char n"
| "utf8_rest (r # rs) n [] = Utf8_Incomplete"
| "utf8_rest ((lo, hi) # rs) n (c # cs) =
     (if lo \<le> byte c \<and> byte c \<le> hi then utf8_rest rs (n + 1) cs else Utf8_Invalid)"

definition utf8_ranges :: "nat \<Rightarrow> (nat \<times> nat) list option" where
  "utf8_ranges b =
     (if b < 128 then Some []
      else if 194 \<le> b \<and> b \<le> 223 then Some [(128, 191)]
      else if b = 224 then Some [(160, 191), (128, 191)]
      else if 225 \<le> b \<and> b \<le> 236 \<or> b = 238 \<or> b = 239 then Some [(128, 191), (128, 191)]
      else if b = 237 then Some [(128, 159), (128, 191)]
      else if b = 240 then Some [(144, 191), (128, 191), (128, 191)]
      else if 241 \<le> b \<and> b \<le> 243 then Some [(128, 191), (128, 191), (128, 191)]
      else if b = 244 then Some [(128, 143), (128, 191), (128, 191)]
      else None)"

text \<open>The first character of a non-empty byte string.\<close>

fun utf8_next :: "rstr \<Rightarrow> utf8_step" where
  "utf8_next [] = Utf8_Incomplete"
| "utf8_next (c # cs) =
     (case utf8_ranges (byte c) of None \<Rightarrow> Utf8_Invalid | Some rs \<Rightarrow> utf8_rest rs 1 cs)"

lemma utf8_rest_count: "utf8_rest rs n s = Utf8_Char k \<Longrightarrow> k = n + length rs"
  by (induction rs n s rule: utf8_rest.induct) (auto split: if_splits)

lemma utf8_next_pos: "utf8_next s = Utf8_Char k \<Longrightarrow> 0 < k \<and> s \<noteq> []"
  by (cases s) (auto dest: utf8_rest_count split: option.splits)

function valid_utf8 :: "rstr \<Rightarrow> bool" where
  "valid_utf8 s = (s = [] \<or> (case utf8_next s of Utf8_Char k \<Rightarrow> valid_utf8 (drop k s) | _ \<Rightarrow> False))"
  by auto
termination
  by (relation "measure length") (auto dest: utf8_next_pos)

declare valid_utf8.simps [simp del]

text \<open>The error of \<open>from_utf8\<close> is at the start and only for want of bytes.\<close>

definition starts_with_incomplete_utf8_char :: "rstr \<Rightarrow> bool" where
  "starts_with_incomplete_utf8_char s \<longleftrightarrow> s \<noteq> [] \<and> utf8_next s = Utf8_Incomplete"

subsection \<open>Slices\<close>

definition is_char_boundary :: "rstr \<Rightarrow> nat \<Rightarrow> bool" where
  "is_char_boundary s i \<longleftrightarrow> i = 0 \<or> i = length s \<or> (i < length s \<and> \<not> (128 \<le> byte (s ! i) \<and> byte (s ! i) \<le> 191))"

text \<open>\<open>&s[i..j]\<close>: a panic off a character boundary.\<close>

definition str_slice :: "rstr \<Rightarrow> nat \<Rightarrow> nat \<Rightarrow> rstr option" where
  "str_slice s i j =
     (if i \<le> j \<and> is_char_boundary s i \<and> is_char_boundary s j then Some (take (j - i) (drop i s)) else None)"

subsection \<open>Lemmas\<close>

lemma byte_char_of [simp]: "n < 256 \<Longrightarrow> byte (char_of n) = n"
  by (simp add: byte_def)

lemma byte_bound: "byte c < 256"
  by (simp add: byte_def)

lemma valid_utf8_Nil [simp]: "valid_utf8 []"
  by (simp add: valid_utf8.simps)

lemma valid_utf8_ascii: "list_all (\<lambda>c. byte c < 128) s \<Longrightarrow> valid_utf8 s"
  by (induction s) (simp_all add: valid_utf8.simps [of "_ # _"] utf8_ranges_def)

lemma utf8_rest_append: "utf8_rest rs n s \<noteq> Utf8_Incomplete \<Longrightarrow> utf8_rest rs n (s @ t) = utf8_rest rs n s"
  by (induction rs n s rule: utf8_rest.induct) auto

lemma utf8_rest_take:
  "utf8_rest rs n s = Utf8_Char k \<Longrightarrow> utf8_rest rs n (take (k - n) s) = Utf8_Char k"
  by (induction rs n s rule: utf8_rest.induct)
    (auto split: if_splits dest: utf8_rest_count simp: take_Cons')

text \<open>The digits of a scalar value in base 64.\<close>

lemma base64_two: "c = c div 64 * 64 + c mod (64 :: nat)"
  by simp

lemma base64_three: "c = (c div 4096 * 64 + c div 64 mod 64) * 64 + c mod (64 :: nat)"
proof -
  have "c div 4096 = c div 64 div 64" by (simp add: div_mult2_eq [symmetric])
  then show ?thesis by simp
qed

lemma base64_four:
  "c = ((c div 262144 * 64 + c div 4096 mod 64) * 64 + c div 64 mod 64) * 64 + c mod (64 :: nat)"
proof -
  have "c div 4096 = c div 64 div 64" "c div 262144 = c div 64 div 64 div 64"
    by (simp_all add: div_mult2_eq [symmetric])
  then show ?thesis by simp
qed

lemma is_scalar_cases:
  assumes "is_scalar c"
  obtains "c < 128" | "128 \<le> c" "c < 2048" "c div 64 < 32" | "2048 \<le> c" "c < 65536" "c div 4096 < 16"
    | "65536 \<le> c" "c < 1114112" "c div 262144 < 5"
proof -
  have "c < 2048 \<Longrightarrow> c div 64 < 32" "c < 65536 \<Longrightarrow> c div 4096 < 16" "c < 1114112 \<Longrightarrow> c div 262144 < 5"
    by (auto intro: less_mult_imp_div_less)
  then show thesis using assms that unfolding is_scalar_def by (meson not_le)
qed

lemma chars_encode_utf8:
  assumes "is_scalar c"
  shows "chars (encode_utf8 c @ s) = encode_utf8 c # chars s"
  using assms
  by (cases c rule: is_scalar_cases) (simp_all add: encode_utf8_def utf8_tail_def take_Cons' drop_Cons')

lemma codepoint_encode_utf8:
  assumes "is_scalar c"
  shows "codepoint (encode_utf8 c) = c"
  using assms
proof (cases c rule: is_scalar_cases)
  case 1
  then show ?thesis by (simp add: encode_utf8_def codepoint_def)
next
  case 2
  then show ?thesis using base64_two [of c] by (simp add: encode_utf8_def codepoint_def)
next
  case 3
  then show ?thesis using base64_three [of c] by (simp add: encode_utf8_def codepoint_def)
next
  case 4
  then show ?thesis using base64_four [of c] by (simp add: encode_utf8_def codepoint_def)
qed

section \<open>Lines of a string\<close>

text \<open>
  \<open>str::lines\<close> of the standard library and slices of a string at line starts. A string is cut into
  pieces that each keep their line feed; a line is a piece without its line feed, and without a
  carriage return before it.
\<close>

definition lf :: char where
  "lf = CHR 0x0a"

definition cr :: char where
  "cr = CHR 0x0d"

fun line_pieces :: "rstr \<Rightarrow> rstr list" where
  "line_pieces [] = []"
| "line_pieces (c # cs) =
     (if c = lf then [c] # line_pieces cs
      else case line_pieces cs of [] \<Rightarrow> [[c]] | p # ps \<Rightarrow> (c # p) # ps)"

definition strip_eol :: "rstr \<Rightarrow> rstr" where
  "strip_eol p =
     (if p \<noteq> [] \<and> last p = lf then
        let q = butlast p in if q \<noteq> [] \<and> last q = cr then butlast q else q
      else p)"

definition str_lines :: "rstr \<Rightarrow> rstr list" where
  "str_lines s = map strip_eol (line_pieces s)"

lemma concat_pieces [simp]: "concat (line_pieces s) = s"
  by (induction s) (auto split: list.split)

lemma pieces_nonempty: "[] \<notin> set (line_pieces s)"
  by (induction s) (auto split: list.split)

lemma length_str_lines [simp]: "length (str_lines s) = length (line_pieces s)"
  by (simp add: str_lines_def)

text \<open>Every piece but the last ends in a line feed, and has no other one.\<close>

lemma piece_ends:
  "i + 1 < length (line_pieces s) \<Longrightarrow> last (line_pieces s ! i) = lf"
proof (induction s arbitrary: i)
  case (Cons c cs)
  show ?case
  proof (cases "c = lf")
    case True
    then show ?thesis using Cons by (cases i) auto
  next
    case False
    show ?thesis
    proof (cases "line_pieces cs")
      case Nil
      then show ?thesis using Cons.prems False by simp
    next
      case (Cons p ps)
      have p: "p \<noteq> []" using pieces_nonempty [of cs] Cons by auto
      have "i + 1 < length (line_pieces cs)" using Cons.prems False Cons by simp
      then have "last (line_pieces cs ! i) = lf" by (rule Cons.IH)
      then show ?thesis using False Cons p by (cases i) auto
    qed
  qed
qed simp

lemma piece_single_lf: "p \<in> set (line_pieces s) \<Longrightarrow> lf \<notin> set (butlast p)"
proof (induction s arbitrary: p)
  case (Cons c cs)
  show ?case
  proof (cases "c = lf \<or> line_pieces cs = []")
    case True
    then show ?thesis using Cons by (auto split: if_splits)
  next
    case False
    then obtain q ps where q: "line_pieces cs = q # ps" by (cases "line_pieces cs") auto
    then have "q \<noteq> []" using pieces_nonempty [of cs] by auto
    then show ?thesis using Cons.prems Cons.IH False q by auto
  qed
qed simp

lemma piece_chars: "p \<in> set (line_pieces s) \<Longrightarrow> set p \<subseteq> set s"
  using concat_pieces [of s] by (metis UN_upper set_concat)

text \<open>Without carriage returns a line is its piece without the line feed.\<close>

lemma strip_eol_plain:
  assumes "cr \<notin> set p"
  shows "strip_eol p = (if p \<noteq> [] \<and> last p = lf then butlast p else p)"
proof -
  have "\<not> (butlast p \<noteq> [] \<and> last (butlast p) = cr)"
    using assms by (metis in_set_butlastD last_in_set)
  then show ?thesis unfolding strip_eol_def Let_def by auto
qed

lemma strip_eol_length: "p \<noteq> [] \<Longrightarrow> last p = lf \<Longrightarrow> cr \<notin> set p \<Longrightarrow> length (strip_eol p) + 1 = length p"
  by (simp add: strip_eol_plain)

subsection \<open>The offset of a line\<close>

text \<open>Where the piece \<open>i\<close> starts.\<close>

definition piece_start :: "rstr \<Rightarrow> nat \<Rightarrow> nat" where
  "piece_start s i = length (concat (take i (line_pieces s)))"

lemma piece_start_le: "piece_start s i \<le> length s"
proof -
  have "length s = piece_start s i + length (concat (drop i (line_pieces s)))"
    unfolding piece_start_def by (metis append_take_drop_id concat_append concat_pieces length_append)
  then show ?thesis by simp
qed

lemma take_piece_start: "take (piece_start s i) s = concat (take i (line_pieces s))"
  and drop_piece_start: "drop (piece_start s i) s = concat (drop i (line_pieces s))"
proof -
  have "s = concat (take i (line_pieces s)) @ concat (drop i (line_pieces s))"
    by (metis append_take_drop_id concat_append concat_pieces)
  then show "take (piece_start s i) s = concat (take i (line_pieces s))"
    "drop (piece_start s i) s = concat (drop i (line_pieces s))"
    unfolding piece_start_def by (metis append_eq_conv_conj)+
qed

lemma piece_start_mono: "i \<le> j \<Longrightarrow> piece_start s i \<le> piece_start s j"
  unfolding piece_start_def by (metis le_add1 length_append concat_append take_add le_Suc_ex)

lemma piece_start_end: "length (line_pieces s) \<le> i \<Longrightarrow> piece_start s i = length s"
  by (simp add: piece_start_def)

text \<open>The byte before a line start is a line feed.\<close>

lemma before_piece_start:
  assumes "0 < i" "i < length (line_pieces s)"
  shows "0 < piece_start s i \<and> s ! (piece_start s i - 1) = lf"
proof -
  obtain j where j: "i = Suc j" using assms(1) by (cases i) auto
  let ?p = "line_pieces s ! j"
  have t: "take i (line_pieces s) = take j (line_pieces s) @ [?p]"
    using assms(2) j by (simp add: take_Suc_conv_app_nth)
  have p: "?p \<noteq> []" using pieces_nonempty [of s] assms(2) j by (metis Suc_lessD nth_mem)
  have l: "last ?p = lf" using piece_ends [of j s] assms(2) j by simp
  have e: "concat (take i (line_pieces s)) = concat (take j (line_pieces s)) @ ?p" using t by simp
  then have ne: "concat (take i (line_pieces s)) \<noteq> []" and la: "last (concat (take i (line_pieces s))) = lf"
    using p l by simp_all
  have "s ! (piece_start s i - 1) = take (piece_start s i) s ! (piece_start s i - 1)"
    using ne by (simp add: piece_start_def)
  also have "\<dots> = lf" unfolding take_piece_start using la ne by (simp add: piece_start_def last_conv_nth)
  finally show ?thesis using ne by (simp add: piece_start_def)
qed

subsection \<open>Line starts are character boundaries\<close>

lemma utf8_rest_bytes:
  "utf8_rest rs n s = Utf8_Char k \<Longrightarrow> list_all (\<lambda>(lo, hi). 128 \<le> lo) rs \<Longrightarrow> i < k - n \<Longrightarrow> i < length s \<and> 128 \<le> byte (s ! i)"
proof (induction rs n s arbitrary: i rule: utf8_rest.induct)
  case (3 lo hi rs n c cs)
  have r: "utf8_rest rs (n + 1) cs = Utf8_Char k" "lo \<le> byte c" using 3(2) by (auto split: if_splits)
  show ?case
  proof (cases i)
    case 0
    then show ?thesis using r 3(3) by simp
  next
    case (Suc j)
    then show ?thesis using 3(1) [of j] r 3(2,3,4) by (auto split: if_splits)
  qed
qed simp_all

lemma utf8_ranges_bytes: "utf8_ranges b = Some rs \<Longrightarrow> list_all (\<lambda>(lo, hi). 128 \<le> lo) rs \<and> (128 \<le> b \<longrightarrow> 192 \<le> b)"
  by (auto simp: utf8_ranges_def split: if_splits)

lemma utf8_next_bytes:
  assumes "utf8_next s = Utf8_Char k"
  shows "\<not> (128 \<le> byte (hd s) \<and> byte (hd s) \<le> 191)" and "0 < i \<Longrightarrow> i < k \<Longrightarrow> 128 \<le> byte (s ! i)"
    and "byte (hd s) < 128 \<Longrightarrow> k = 1" and "k \<le> length s"
proof -
  obtain c cs where s: "s = c # cs" using assms utf8_next_pos by (cases s) auto
  obtain rs where rs: "utf8_ranges (byte c) = Some rs" "utf8_rest rs 1 cs = Utf8_Char k"
    using assms s by (auto split: option.splits)
  note b = utf8_ranges_bytes [OF rs(1)]
  show "\<not> (128 \<le> byte (hd s) \<and> byte (hd s) \<le> 191)" using b s by auto
  show "128 \<le> byte (s ! i)" if "0 < i" "i < k"
    using utf8_rest_bytes [OF rs(2), of "i - 1"] b that s by auto
  show "byte (hd s) < 128 \<Longrightarrow> k = 1" using rs s by (auto simp: utf8_ranges_def)
  have k: "k = 1 + length rs" using utf8_rest_count [OF rs(2)] .
  show "k \<le> length s"
  proof (cases rs)
    case (Cons r rs')
    then have "length rs - 1 < length cs" using utf8_rest_bytes [OF rs(2), of "length rs - 1"] b k by simp
    then show ?thesis using k s Cons by simp
  qed (use k s in simp)
qed

lemma after_ascii_boundary:
  "valid_utf8 s \<Longrightarrow> i + 1 < length s \<Longrightarrow> byte (s ! i) < 128 \<Longrightarrow> \<not> (128 \<le> byte (s ! (i + 1)) \<and> byte (s ! (i + 1)) \<le> 191)"
proof (induction s arbitrary: i rule: valid_utf8.induct)
  case (1 s)
  have "s \<noteq> []" using 1(3) by auto
  then obtain k where k: "utf8_next s = Utf8_Char k" "valid_utf8 (drop k s)"
    using 1(2) by (subst (asm) valid_utf8.simps) (auto split: utf8_step.splits)
  note b = utf8_next_bytes [OF k(1)]
  show ?case
  proof (cases "i < k")
    case True
    then have i0: "i = 0" using b(2) [of i] 1(4) by (cases i) auto
    then have k1: "k = 1" using b(3) 1(4) \<open>s \<noteq> []\<close> by (simp add: hd_conv_nth)
    have d: "drop 1 s \<noteq> []" using 1(3) by simp
    then obtain k' where "utf8_next (drop 1 s) = Utf8_Char k'"
      using k(2) k1 by (subst (asm) valid_utf8.simps) (auto split: utf8_step.splits)
    then have "\<not> (128 \<le> byte (hd (drop 1 s)) \<and> byte (hd (drop 1 s)) \<le> 191)" by (rule utf8_next_bytes)
    then show ?thesis using d i0 by (simp add: hd_drop_conv_nth)
  next
    case False
    then have "drop k s ! (i - k) = s ! i" "drop k s ! (i - k + 1) = s ! (i + 1)" "i - k + 1 < length (drop k s)"
      using 1(3) by simp_all
    then show ?thesis using 1(1) [OF k, of "i - k"] 1(4) by simp
  qed
qed

lemma piece_start_boundary:
  assumes "valid_utf8 s"
  shows "is_char_boundary s (piece_start s i)"
proof (cases "i = 0 \<or> length (line_pieces s) \<le> i \<or> piece_start s i = length s")
  case True
  then show ?thesis by (auto simp: is_char_boundary_def piece_start_def)
next
  case False
  then have b: "0 < piece_start s i" "s ! (piece_start s i - 1) = lf" "piece_start s i < length s"
    using before_piece_start [of i s] piece_start_le [of s i] by auto
  then show ?thesis
    using after_ascii_boundary [OF assms, of "piece_start s i - 1"] by (simp add: is_char_boundary_def lf_def byte_def)
qed

lemma slice_pieces:
  assumes "valid_utf8 s" "i \<le> j"
  shows "str_slice s (piece_start s i) (piece_start s j) = Some (concat (take (j - i) (drop i (line_pieces s))))"
proof -
  have "take (piece_start s j - piece_start s i) (drop (piece_start s i) s)
      = drop (piece_start s i) (take (piece_start s j) s)"
    using piece_start_mono [OF assms(2), of s] by (simp add: drop_take)
  also have "\<dots> = drop (piece_start s i) (concat (take i (line_pieces s) @ take (j - i) (drop i (line_pieces s))))"
    unfolding take_piece_start using assms(2) by (simp add: take_add [symmetric])
  also have "\<dots> = concat (take (j - i) (drop i (line_pieces s)))" by (simp add: piece_start_def)
  finally show ?thesis
    using piece_start_boundary [OF assms(1)] piece_start_mono [OF assms(2), of s] by (simp add: str_slice_def)
qed

end
