(* ===== verification/InputKeys.thy ===== *)
theory InputKeys
  imports RustUtf8
begin

section \<open>Keys, protocols and mouse events\<close>

text \<open>
  The model of \<open>src/src/input/model.rs\<close>: a key event with its code, modifiers, phase, repeat
  count, alternate codepoint, committed text and origin; the keyboard protocol a pane has
  negotiated and the mouse protocols. Key codes, modifiers and mouse kinds are the values of
  crossterm the source names; the modifier flags are a record, since only \<open>contains\<close>, union and
  difference are used. Characters are scalar values; numbers that no arithmetic touches
  (codepoints, function keys, repeat counts) are natural numbers, bounded where they are parsed.
\<close>

subsection \<open>Modifiers\<close>

record key_modifiers =
  km_shift :: bool
  km_control :: bool
  km_alt :: bool
  km_super :: bool
  km_hyper :: bool
  km_meta :: bool

definition mods_empty :: key_modifiers where
  "mods_empty = \<lparr>km_shift = False, km_control = False, km_alt = False, km_super = False,
     km_hyper = False, km_meta = False\<rparr>"

abbreviation only_shift :: key_modifiers where
  "only_shift \<equiv> mods_empty\<lparr>km_shift := True\<rparr>"

abbreviation only_alt :: key_modifiers where
  "only_alt \<equiv> mods_empty\<lparr>km_alt := True\<rparr>"

abbreviation only_control :: key_modifiers where
  "only_control \<equiv> mods_empty\<lparr>km_control := True\<rparr>"

subsection \<open>Key codes\<close>

datatype media_key_code =
  MkPlay | MkPause | MkPlayPause | MkReverse | MkStop | MkFastForward | MkRewind | MkTrackNext
  | MkTrackPrevious | MkRecord | MkLowerVolume | MkRaiseVolume | MkMuteVolume

datatype modifier_key_code =
  LeftShift | LeftControl | LeftAlt | LeftSuper | LeftHyper | LeftMeta | RightShift | RightControl
  | RightAlt | RightSuper | RightHyper | RightMeta | IsoLevel3Shift | IsoLevel5Shift

datatype key_code =
  KcBackspace | KcEnter | KcLeft | KcRight | KcUp | KcDown | KcHome | KcEnd | KcPageUp | KcPageDown
  | KcTab | KcBackTab | KcDelete | KcInsert | KcF nat | KcChar uchar | KcNull | KcEsc | KcCapsLock
  | KcScrollLock | KcNumLock | KcPrintScreen | KcPause | KcMenu | KcKeypadBegin
  | KcMedia media_key_code | KcModifier modifier_key_code

datatype key_event_kind = KPress | KRepeat | KRelease

subsection \<open>Key events\<close>

record windows_key_record =
  wr_key_down :: bool
  wr_repeat_count :: u16
  wr_virtual_key_code :: u16
  wr_virtual_scan_code :: u16
  wr_unicode :: u16
  wr_control_key_state :: u32

datatype physical_key_id = PhysicalKeyId u32

datatype key_identity = IdPhysical physical_key_id | IdSemantic key_code

datatype key_source =
  Synthesized
  | Vt rstr
  | WindowsConsole windows_key_record "physical_key_id option"

unbundle bit_operations_syntax

definition physical_key_id :: "windows_key_record \<Rightarrow> physical_key_id option" where
  "physical_key_id r =
     (if wr_virtual_scan_code r \<noteq> 0
      then Some (PhysicalKeyId (ucast (wr_virtual_scan_code r)
             OR push_bit 16 (of_bool (wr_control_key_state r AND 0x0100 \<noteq> 0))))
      else None)"

record terminal_key =
  tk_code :: key_code
  tk_modifiers :: key_modifiers
  tk_kind :: key_event_kind
  tk_repeat_count :: nat
  tk_shifted_codepoint :: "nat option"
  tk_generated_text :: "rstr option"
  tk_source :: key_source

definition new_key :: "key_code \<Rightarrow> key_modifiers \<Rightarrow> terminal_key" where
  "new_key code mods = \<lparr>tk_code = code, tk_modifiers = mods, tk_kind = KPress, tk_repeat_count = 1,
     tk_shifted_codepoint = None, tk_generated_text = None, tk_source = Synthesized\<rparr>"

definition with_kind :: "terminal_key \<Rightarrow> key_event_kind \<Rightarrow> terminal_key" where
  "with_kind k kind =
     (let k1 = (if kind = KRelease then k\<lparr>tk_repeat_count := 1, tk_generated_text := None\<rparr> else k)
      in k1\<lparr>tk_kind := kind\<rparr>)"

definition with_repeat_count :: "terminal_key \<Rightarrow> nat \<Rightarrow> terminal_key" where
  "with_repeat_count k n = k\<lparr>tk_repeat_count := (if tk_kind k = KRelease then 1 else max n 1)\<rparr>"

definition with_modifiers :: "terminal_key \<Rightarrow> key_modifiers \<Rightarrow> terminal_key" where
  "with_modifiers k mods = k\<lparr>tk_modifiers := mods\<rparr>"

definition with_shifted_codepoint :: "terminal_key \<Rightarrow> nat \<Rightarrow> terminal_key" where
  "with_shifted_codepoint k c = k\<lparr>tk_shifted_codepoint := Some c\<rparr>"

definition with_generated_text :: "terminal_key \<Rightarrow> rstr option \<Rightarrow> terminal_key" where
  "with_generated_text k text =
     k\<lparr>tk_generated_text := (if tk_kind k = KRelease then None else text)\<rparr>"

definition with_vt_bytes :: "terminal_key \<Rightarrow> rstr \<Rightarrow> terminal_key" where
  "with_vt_bytes k bytes = k\<lparr>tk_source := Vt bytes\<rparr>"

definition with_windows_record :: "terminal_key \<Rightarrow> windows_key_record \<Rightarrow> terminal_key" where
  "with_windows_record k r =
     k\<lparr>tk_repeat_count := (if tk_kind k = KRelease then 1 else max (unat (wr_repeat_count r)) 1),
       tk_source := WindowsConsole r (physical_key_id r)\<rparr>"

definition identity :: "terminal_key \<Rightarrow> key_identity" where
  "identity k = (case tk_source k of
       WindowsConsole r (Some p) \<Rightarrow> IdPhysical p
     | _ \<Rightarrow> IdSemantic (tk_code k))"

definition has_physical_identity :: "terminal_key \<Rightarrow> bool" where
  "has_physical_identity k = (case tk_source k of WindowsConsole r (Some p) \<Rightarrow> True | _ \<Rightarrow> False)"

text \<open>\<open>upper\<close> is \<open>char::is_uppercase\<close>, a table of the Unicode data.\<close>

definition with_text_commit :: "(uchar \<Rightarrow> bool) \<Rightarrow> terminal_key \<Rightarrow> terminal_key" where
  "with_text_commit upper k =
     (let text_only = (case tk_code k of
            KcChar ch \<Rightarrow> if upper ch then tk_modifiers k = only_shift \<or> tk_modifiers k = mods_empty
                        else tk_modifiers k = mods_empty
          | _ \<Rightarrow> False)
      in if text_only \<and> tk_kind k = KPress
         then k\<lparr>tk_generated_text := (case tk_code k of KcChar ch \<Rightarrow> Some (encode_utf8 ch) | _ \<Rightarrow> None)\<rparr>
         else k)"

subsection \<open>Protocols\<close>

datatype modify_other_keys_mode = Mode1 | Mode2

definition set_sequence :: "modify_other_keys_mode \<Rightarrow> rstr" where
  "set_sequence m = (case m of Mode1 \<Rightarrow> CHR 0x1b # ''[>4;1m'' | Mode2 \<Rightarrow> CHR 0x1b # ''[>4;2m'')"

definition host_modify_other_keys_mode_for_env ::
  "bool \<Rightarrow> rstr option \<Rightarrow> bool \<Rightarrow> bool \<Rightarrow> modify_other_keys_mode option" where
  "host_modify_other_keys_mode_for_env in_tmux term_program wezterm_pane alacritty_window_id =
     (if in_tmux then Some Mode2
      else if wezterm_pane \<or> alacritty_window_id
              \<or> (case term_program of Some p \<Rightarrow> eq_ignore_ascii_case p ''wezterm'' | None \<Rightarrow> False)
      then Some Mode1
      else None)"

datatype keyboard_protocol = Legacy | Kitty u16

definition from_kitty_flags :: "u16 \<Rightarrow> keyboard_protocol" where
  "from_kitty_flags flags = (if flags = 0 then Legacy else Kitty flags)"

definition kitty_report_all_keys :: u16 where
  "kitty_report_all_keys = 8"

definition reports_event_types :: "keyboard_protocol \<Rightarrow> bool" where
  "reports_event_types p = (case p of Kitty flags \<Rightarrow> flags AND 2 \<noteq> 0 | Legacy \<Rightarrow> False)"

definition reports_all_keys :: "keyboard_protocol \<Rightarrow> bool" where
  "reports_all_keys p = (case p of Kitty flags \<Rightarrow> flags AND kitty_report_all_keys \<noteq> 0 | Legacy \<Rightarrow> False)"

datatype mouse_protocol_mode = MpmNone | MpmPress | MpmPressRelease | MpmButtonMotion | MpmAnyMotion

definition reporting_enabled :: "mouse_protocol_mode \<Rightarrow> bool" where
  "reporting_enabled m \<longleftrightarrow> m \<noteq> MpmNone"

datatype mouse_protocol_encoding = EncDefault | EncUtf8 | EncSgr | EncSgrPixels

datatype mouse_button = MbLeft | MbRight | MbMiddle

datatype mouse_event_kind =
  MeDown mouse_button | MeUp mouse_button | MeDrag mouse_button | MeMoved
  | MeScrollDown | MeScrollUp | MeScrollLeft | MeScrollRight

record mouse_event =
  me_kind :: mouse_event_kind
  me_column :: nat
  me_row :: nat
  me_modifiers :: key_modifiers

subsection \<open>Well-formed key events\<close>

text \<open>
  What the constructors keep: a release carries no text and counts once, a count is never zero,
  and a physical identity is the one of the record it came from.
\<close>

definition key_ok :: "terminal_key \<Rightarrow> bool" where
  "key_ok k \<longleftrightarrow> 1 \<le> tk_repeat_count k
     \<and> (tk_kind k = KRelease \<longrightarrow> tk_repeat_count k = 1 \<and> tk_generated_text k = None)
     \<and> (case tk_source k of WindowsConsole r p \<Rightarrow> p = physical_key_id r | _ \<Rightarrow> True)"

named_theorems key_intros \<open>what the constructors of a key event keep\<close>

lemma key_ok_new [key_intros]: "key_ok (new_key c m)"
  by (simp add: key_ok_def new_key_def)

lemma key_ok_with_kind [key_intros]: "key_ok k \<Longrightarrow> key_ok (with_kind k kind)"
  by (simp add: key_ok_def with_kind_def)

lemma key_ok_with_repeat_count [key_intros]: "key_ok k \<Longrightarrow> key_ok (with_repeat_count k n)"
  by (simp add: key_ok_def with_repeat_count_def)

lemma key_ok_with_modifiers [key_intros]: "key_ok k \<Longrightarrow> key_ok (with_modifiers k m)"
  by (simp add: key_ok_def with_modifiers_def)

lemma key_ok_with_shifted [key_intros]: "key_ok k \<Longrightarrow> key_ok (with_shifted_codepoint k c)"
  by (simp add: key_ok_def with_shifted_codepoint_def)

lemma key_ok_with_generated_text [key_intros]: "key_ok k \<Longrightarrow> key_ok (with_generated_text k t)"
  by (simp add: key_ok_def with_generated_text_def)

lemma key_ok_with_vt_bytes [key_intros]: "key_ok k \<Longrightarrow> key_ok (with_vt_bytes k b)"
  by (simp add: key_ok_def with_vt_bytes_def)

lemma key_ok_with_windows_record [key_intros]: "key_ok k \<Longrightarrow> key_ok (with_windows_record k r)"
  by (simp add: key_ok_def with_windows_record_def)

lemma key_ok_with_text_commit [key_intros]: "key_ok k \<Longrightarrow> key_ok (with_text_commit u k)"
  by (simp add: key_ok_def with_text_commit_def Let_def split: key_code.splits)

end
