(* ===== verification/InputEncode.thy ===== *)
theory InputEncode
  imports InputKeys RustStr
begin

section \<open>Encoding input for a pane\<close>

text \<open>
  The model of \<open>src/src/input/encode.rs\<close>: the bytes a key or mouse event is sent to the child as,
  under the keyboard protocol and the mouse encoding the child has asked for. \<open>format!\<close> is
  concatenation with \<open>decimal\<close>.
\<close>

abbreviation esc :: rstr where
  "esc \<equiv> [CHR 0x1b]"

abbreviation csi :: rstr where
  "csi \<equiv> [CHR 0x1b, CHR ''['']"

subsection \<open>Modifiers and characters\<close>

definition xterm_modifier :: "key_modifiers \<Rightarrow> nat" where
  "xterm_modifier m = 1 + (if km_shift m then 1 else 0) + (if km_alt m then 2 else 0)
     + (if km_control m then 4 else 0)"

definition kitty_modifier :: "key_modifiers \<Rightarrow> nat" where
  "kitty_modifier m = xterm_modifier m + (if km_super m then 8 else 0)
     + (if km_hyper m then 16 else 0) + (if km_meta m then 32 else 0)"

definition is_ascii_upper :: "uchar \<Rightarrow> bool" where
  "is_ascii_upper c \<longleftrightarrow> 65 \<le> c \<and> c \<le> 90"

definition is_ascii_lower :: "uchar \<Rightarrow> bool" where
  "is_ascii_lower c \<longleftrightarrow> 97 \<le> c \<and> c \<le> 122"

definition to_ascii_upper :: "uchar \<Rightarrow> uchar" where
  "to_ascii_upper c = (if is_ascii_lower c then c - 32 else c)"

definition to_ascii_lower :: "uchar \<Rightarrow> uchar" where
  "to_ascii_lower c = (if is_ascii_upper c then c + 32 else c)"

abbreviation chr :: "char \<Rightarrow> uchar" where
  "chr c \<equiv> of_char c"

definition is_shifted_ascii_punctuation :: "uchar \<Rightarrow> bool" where
  "is_shifted_ascii_punctuation c \<longleftrightarrow> c \<in> set (map chr ''!@#$%^&*()_+{}|:<>?~'') \<or> c = 34"

definition shifted_text_char :: "terminal_key \<Rightarrow> uchar \<Rightarrow> uchar option" where
  "shifted_text_char k ch =
     (case Option.bind (tk_shifted_codepoint k) char_from_u32 of
        Some shifted \<Rightarrow> Some shifted
      | None \<Rightarrow>
          if is_ascii_upper ch then Some ch
          else if is_ascii_lower ch then Some (to_ascii_upper ch)
          else if is_shifted_ascii_punctuation ch then Some ch
          else None)"

definition text_char_for_key :: "terminal_key \<Rightarrow> uchar option" where
  "text_char_for_key k =
     (if tk_kind k = KRelease then None
      else case tk_code k of
        KcChar ch \<Rightarrow>
          if tk_modifiers k = mods_empty then Some ch
          else if tk_modifiers k = only_shift then shifted_text_char k ch
          else None
      | _ \<Rightarrow> None)"

definition encode_text_input :: "terminal_key \<Rightarrow> rstr option" where
  "encode_text_input k = map_option encode_utf8 (text_char_for_key k)"

definition text_codepoint_for_key :: "terminal_key \<Rightarrow> nat option" where
  "text_codepoint_for_key k =
     Option.bind (text_char_for_key k)
       (\<lambda>ch. if ch < 32 \<or> (127 \<le> ch \<and> ch < 160) then None else Some ch)"

subsection \<open>The Kitty protocol\<close>

definition canonical_kitty_char :: "uchar \<Rightarrow> key_modifiers \<Rightarrow> uchar" where
  "canonical_kitty_char ch m = (if km_shift m \<and> is_ascii_upper ch then to_ascii_lower ch else ch)"

definition alternate_shifted_codepoint :: "terminal_key \<Rightarrow> u16 \<Rightarrow> nat option" where
  "alternate_shifted_codepoint k flags =
     (if flags AND 4 = 0 then None
      else case tk_shifted_codepoint k of
        Some shifted \<Rightarrow> Some shifted
      | None \<Rightarrow> (case tk_code k of
            KcChar ch \<Rightarrow> if km_shift (tk_modifiers k) \<and> is_ascii_upper ch then Some ch else None
          | _ \<Rightarrow> None))"

definition kitty_event_number :: "key_event_kind \<Rightarrow> nat" where
  "kitty_event_number kind = (case kind of KPress \<Rightarrow> 1 | KRepeat \<Rightarrow> 2 | KRelease \<Rightarrow> 3)"

definition kitty_event_suffix :: "terminal_key \<Rightarrow> u16 \<Rightarrow> nat option" where
  "kitty_event_suffix k flags =
     (if flags AND 2 = 0 then None else Some (kitty_event_number (tk_kind k)))"

definition has_legacy_form :: "key_code \<Rightarrow> bool" where
  "has_legacy_form c = (case c of
       KcUp \<Rightarrow> True | KcDown \<Rightarrow> True | KcLeft \<Rightarrow> True | KcRight \<Rightarrow> True | KcHome \<Rightarrow> True | KcEnd \<Rightarrow> True
     | KcPageUp \<Rightarrow> True | KcPageDown \<Rightarrow> True | KcInsert \<Rightarrow> True | KcDelete \<Rightarrow> True | KcF n \<Rightarrow> True
     | _ \<Rightarrow> False)"

definition kitty_codepoint :: "terminal_key \<Rightarrow> u16 \<Rightarrow> (nat \<times> nat option) option" where
  "kitty_codepoint k flags = (case tk_code k of
       KcChar c \<Rightarrow> Some (canonical_kitty_char c (tk_modifiers k), alternate_shifted_codepoint k flags)
     | KcEnter \<Rightarrow> Some (13, None)
     | KcTab \<Rightarrow> Some (9, None)
     | KcBackspace \<Rightarrow> Some (127, None)
     | KcEsc \<Rightarrow> Some (27, None)
     | KcLeft \<Rightarrow> Some (57417, None)
     | KcRight \<Rightarrow> Some (57418, None)
     | KcUp \<Rightarrow> Some (57419, None)
     | KcDown \<Rightarrow> Some (57420, None)
     | KcPageUp \<Rightarrow> Some (57421, None)
     | KcPageDown \<Rightarrow> Some (57422, None)
     | KcHome \<Rightarrow> Some (57423, None)
     | KcEnd \<Rightarrow> Some (57424, None)
     | KcInsert \<Rightarrow> Some (57425, None)
     | KcDelete \<Rightarrow> Some (57426, None)
     | _ \<Rightarrow> None)"

text \<open>An optional field of a sequence with its separator.\<close>

definition opt_field :: "char \<Rightarrow> nat option \<Rightarrow> rstr" where
  "opt_field sep v = (case v of None \<Rightarrow> [] | Some n \<Rightarrow> sep # decimal n)"

definition try_encode_csi_u :: "terminal_key \<Rightarrow> u16 \<Rightarrow> rstr option" where
  "try_encode_csi_u k flags =
     (let mods = tk_modifiers k;
          event_suffix = kitty_event_suffix k flags;
          report_all_keys = (flags AND kitty_report_all_keys \<noteq> 0)
      in if \<not> report_all_keys \<and> mods = mods_empty \<and> tk_code k \<in> {KcEnter, KcTab, KcBackspace} then None
         else if mods = mods_empty \<and> event_suffix = None \<and> \<not> report_all_keys then None
         else if has_legacy_form (tk_code k) \<and> event_suffix = None \<and> \<not> report_all_keys then None
         else map_option (\<lambda>(codepoint, alternate_shifted).
             csi @ decimal codepoint @ opt_field CHR '':'' alternate_shifted
             @ CHR '';'' # decimal (kitty_modifier mods) @ opt_field CHR '':'' event_suffix
             @ (if flags AND 16 \<noteq> 0 then opt_field CHR '';'' (text_codepoint_for_key k) else [])
             @ ''u'')
           (kitty_codepoint k flags))"

subsection \<open>The legacy encodings\<close>

definition special_final :: "key_code \<Rightarrow> char option" where
  "special_final c = (case c of
       KcUp \<Rightarrow> Some CHR ''A'' | KcDown \<Rightarrow> Some CHR ''B'' | KcRight \<Rightarrow> Some CHR ''C''
     | KcLeft \<Rightarrow> Some CHR ''D'' | KcHome \<Rightarrow> Some CHR ''H'' | KcEnd \<Rightarrow> Some CHR ''F''
     | KcF n \<Rightarrow> map_of [(1, CHR ''P''), (2, CHR ''Q''), (3, CHR ''R''), (4, CHR ''S'')] n
     | _ \<Rightarrow> None)"

definition special_number :: "key_code \<Rightarrow> nat option" where
  "special_number c = (case c of
       KcInsert \<Rightarrow> Some 2 | KcDelete \<Rightarrow> Some 3 | KcPageUp \<Rightarrow> Some 5 | KcPageDown \<Rightarrow> Some 6
     | KcF n \<Rightarrow> map_of [(5, 15), (6, 17), (7, 18), (8, 19), (9, 20), (10, 21), (11, 23), (12, 24)] n
     | _ \<Rightarrow> None)"

definition encode_modified_special :: "key_code \<Rightarrow> key_modifiers \<Rightarrow> rstr option" where
  "encode_modified_special code mods =
     (let modifier = xterm_modifier mods
      in if modifier \<le> 1 then None
         else case special_final code of
           Some f \<Rightarrow> Some (csi @ ''1;'' @ decimal modifier @ [f])
         | None \<Rightarrow> map_option (\<lambda>n. csi @ decimal n @ '';'' @ decimal modifier @ ''~'') (special_number code))"

definition encode_f_key :: "nat \<Rightarrow> rstr" where
  "encode_f_key n = (case map_of
     [(1, esc @ ''OP''), (2, esc @ ''OQ''), (3, esc @ ''OR''), (4, esc @ ''OS''),
      (5, csi @ ''15~''), (6, csi @ ''17~''), (7, csi @ ''18~''), (8, csi @ ''19~''),
      (9, csi @ ''20~''), (10, csi @ ''21~''), (11, csi @ ''23~''), (12, csi @ ''24~'')] n of Some b \<Rightarrow> b | None \<Rightarrow> [])"

definition control_byte :: "uchar \<Rightarrow> nat" where
  "control_byte ch =
     (let upper = to_ascii_upper ch
      in if 65 \<le> upper \<and> upper \<le> 90 then upper - 64
         else if upper \<in> {chr CHR '' '', chr CHR ''@'', chr CHR ''2''} then 0
         else if upper \<in> {chr CHR ''['', chr CHR ''3''} then 27
         else if upper \<in> {92, chr CHR ''4''} then 28
         else if upper \<in> {chr CHR '']'', chr CHR ''5''} then 29
         else if upper \<in> {chr CHR ''^'', chr CHR ''6''} then 30
         else if upper \<in> {chr CHR ''_'', chr CHR ''/'', chr CHR ''7'', chr CHR ''-''} then 31
         else ch mod 256)"

definition encode_legacy_inner :: "terminal_key \<Rightarrow> rstr" where
  "encode_legacy_inner k = (case tk_code k of
       KcChar ch \<Rightarrow>
         if km_control (tk_modifiers k) then [char_of (control_byte ch)]
         else encode_utf8 (if tk_modifiers k = only_shift
                           then (case shifted_text_char k ch of Some s \<Rightarrow> s | None \<Rightarrow> ch) else ch)
     | KcEnter \<Rightarrow> [CHR 0x0d]
     | KcBackspace \<Rightarrow> [CHR 0x7f]
     | KcTab \<Rightarrow> [CHR 0x09]
     | KcBackTab \<Rightarrow> csi @ ''Z''
     | KcEsc \<Rightarrow> esc
     | KcLeft \<Rightarrow> csi @ ''D''
     | KcRight \<Rightarrow> csi @ ''C''
     | KcUp \<Rightarrow> csi @ ''A''
     | KcDown \<Rightarrow> csi @ ''B''
     | KcHome \<Rightarrow> csi @ ''H''
     | KcEnd \<Rightarrow> csi @ ''F''
     | KcPageUp \<Rightarrow> csi @ ''5~''
     | KcPageDown \<Rightarrow> csi @ ''6~''
     | KcDelete \<Rightarrow> csi @ ''3~''
     | KcInsert \<Rightarrow> csi @ ''2~''
     | KcF n \<Rightarrow> encode_f_key n
     | _ \<Rightarrow> [])"

definition encode_legacy :: "terminal_key \<Rightarrow> rstr" where
  "encode_legacy k =
     (let mods = tk_modifiers k
      in case (if mods \<noteq> mods_empty then encode_modified_special (tk_code k) mods else None) of
           Some bytes \<Rightarrow> bytes
         | None \<Rightarrow>
             if km_alt mods then esc @ encode_legacy_inner (with_modifiers k (mods\<lparr>km_alt := False\<rparr>))
             else encode_legacy_inner k)"

definition encode_cursor_key :: "key_code \<Rightarrow> bool \<Rightarrow> rstr" where
  "encode_cursor_key code application_cursor =
     (case (code, application_cursor) of
        (KcUp, True) \<Rightarrow> esc @ ''OA''
      | (KcDown, True) \<Rightarrow> esc @ ''OB''
      | (KcRight, True) \<Rightarrow> esc @ ''OC''
      | (KcLeft, True) \<Rightarrow> esc @ ''OD''
      | (KcUp, False) \<Rightarrow> csi @ ''A''
      | (KcDown, False) \<Rightarrow> csi @ ''B''
      | (KcRight, False) \<Rightarrow> csi @ ''C''
      | (KcLeft, False) \<Rightarrow> csi @ ''D''
      | _ \<Rightarrow> encode_legacy (new_key code mods_empty))"

definition encode_terminal_key :: "terminal_key \<Rightarrow> keyboard_protocol \<Rightarrow> rstr" where
  "encode_terminal_key k protocol =
     (let release = (tk_kind k = KRelease);
          kitty_first = (reports_all_keys protocol \<or> release \<and> reports_event_types protocol);
          csi_u = (case protocol of Kitty flags \<Rightarrow> try_encode_csi_u k flags | Legacy \<Rightarrow> None)
      in case (if release then None else tk_generated_text k) of
           Some text \<Rightarrow> text
         | None \<Rightarrow>
             if release \<and> \<not> reports_event_types protocol then []
             else case (if kitty_first then csi_u else None) of
               Some bytes \<Rightarrow> bytes
             | None \<Rightarrow> (case encode_text_input k of
                 Some bytes \<Rightarrow> bytes
               | None \<Rightarrow> (case (if kitty_first then None else csi_u) of
                   Some bytes \<Rightarrow> bytes
                 | None \<Rightarrow> if release \<and> reports_event_types protocol then [] else encode_legacy k)))"

subsection \<open>Mouse reports\<close>

definition push_mouse_codepoint :: "nat \<Rightarrow> rstr option" where
  "push_mouse_codepoint value = map_option encode_utf8 (char_from_u32 value)"

definition u8_byte :: "nat \<Rightarrow> rstr option" where
  "u8_byte n = (if n < 256 then Some [char_of n] else None)"

definition encode_mouse_cb ::
  "nat \<Rightarrow> bool \<Rightarrow> nat \<Rightarrow> nat \<Rightarrow> key_modifiers \<Rightarrow> mouse_protocol_encoding \<Rightarrow> rstr option" where
  "encode_mouse_cb base_button release column row mods encoding =
     (let cb = (if release then (if encoding \<in> {EncSgr, EncSgrPixels} then base_button else 3) else base_button)
               + (if km_shift mods then 4 else 0) + (if km_alt mods then 8 else 0)
               + (if km_control mods then 16 else 0);
          col = column + 1;
          rw = row + 1
      in case encoding of
           EncDefault \<Rightarrow>
             Option.bind (u8_byte (cb + 32)) (\<lambda>c.
             Option.bind (u8_byte (col + 32)) (\<lambda>x.
             Option.bind (u8_byte (rw + 32)) (\<lambda>y. Some (csi @ ''M'' @ c @ x @ y))))
         | EncUtf8 \<Rightarrow>
             Option.bind (push_mouse_codepoint (cb + 32)) (\<lambda>c.
             Option.bind (push_mouse_codepoint (col + 32)) (\<lambda>x.
             Option.bind (push_mouse_codepoint (rw + 32)) (\<lambda>y. Some (csi @ ''M'' @ c @ x @ y))))
         | _ \<Rightarrow> Some (csi @ ''<'' @ decimal cb @ '';'' @ decimal col @ '';'' @ decimal rw
                  @ [if release then CHR ''m'' else CHR ''M'']))"

definition encode_mouse_scroll ::
  "mouse_event_kind \<Rightarrow> nat \<Rightarrow> nat \<Rightarrow> key_modifiers \<Rightarrow> mouse_protocol_encoding \<Rightarrow> rstr option" where
  "encode_mouse_scroll kind column row mods encoding =
     Option.bind (case kind of MeScrollUp \<Rightarrow> Some 64 | MeScrollDown \<Rightarrow> Some 65 | MeScrollLeft \<Rightarrow> Some 66
        | MeScrollRight \<Rightarrow> Some 67 | _ \<Rightarrow> None)
       (\<lambda>button. encode_mouse_cb button False column row mods encoding)"

definition mouse_button_code :: "mouse_button \<Rightarrow> nat" where
  "mouse_button_code b = (case b of MbLeft \<Rightarrow> 0 | MbMiddle \<Rightarrow> 1 | MbRight \<Rightarrow> 2)"

definition encode_mouse_button ::
  "mouse_event_kind \<Rightarrow> nat \<Rightarrow> nat \<Rightarrow> key_modifiers \<Rightarrow> mouse_protocol_encoding \<Rightarrow> rstr option" where
  "encode_mouse_button kind column row mods encoding =
     Option.bind (case kind of MeDown b \<Rightarrow> Some (mouse_button_code b, False)
        | MeUp b \<Rightarrow> Some (mouse_button_code b, True)
        | MeDrag b \<Rightarrow> Some (32 + mouse_button_code b, False) | _ \<Rightarrow> None)
       (\<lambda>(button, release). encode_mouse_cb button release column row mods encoding)"

end
