(* ===== verification/InputParse.thy ===== *)
theory InputParse
  imports InputEncode
begin

section \<open>Parsing key sequences\<close>

text \<open>
  The model of \<open>src/src/input/parse.rs\<close>: a complete sequence of terminal input read as one key, in
  the Kitty protocol, in xterm's \<open>modifyOtherKeys\<close> form or in the legacy forms, in that order.
  Every \<open>?\<close> is a bind of the option.
\<close>

subsection \<open>Fields\<close>

definition key_modifiers_from_u8 :: "nat \<Rightarrow> key_modifiers" where
  "key_modifiers_from_u8 m = \<lparr>km_shift = m AND 1 \<noteq> 0, km_control = m AND 4 \<noteq> 0,
     km_alt = m AND 2 \<noteq> 0, km_super = m AND 8 \<noteq> 0, km_hyper = m AND 16 \<noteq> 0, km_meta = m AND 32 \<noteq> 0\<rparr>"

definition parse_modifier :: "rstr \<Rightarrow> nat option" where
  "parse_modifier s = Option.bind (parse_unsigned 256 s) (\<lambda>n. nat_checked_sub n 1)"

definition split_modifier_and_event :: "rstr \<Rightarrow> rstr \<times> rstr option" where
  "split_modifier_and_event s =
     (case split_once CHR '':'' s of
        Some (modifier, event) \<Rightarrow> if modifier \<noteq> [] then (modifier, Some event) else (s, None)
      | None \<Rightarrow> (s, None))"

definition parse_kitty_event_type :: "rstr option \<Rightarrow> key_event_kind option" where
  "parse_kitty_event_type v =
     (let t = (case v of Some t \<Rightarrow> t | None \<Rightarrow> ''1'')
      in if t = ''1'' then Some KPress else if t = ''2'' then Some KRepeat
         else if t = ''3'' then Some KRelease else None)"

definition is_kitty_functional_codepoint :: "nat \<Rightarrow> bool" where
  "is_kitty_functional_codepoint c \<longleftrightarrow> 57358 \<le> c \<and> c \<le> 57454"

definition kitty_functional_keys :: "(nat \<times> key_code) list" where
  "kitty_functional_keys =
     [(8, KcBackspace), (127, KcBackspace), (9, KcTab), (13, KcEnter), (57414, KcEnter), (27, KcEsc),
      (57358, KcCapsLock), (57359, KcScrollLock), (57360, KcNumLock), (57361, KcPrintScreen),
      (57362, KcPause), (57363, KcMenu),
      (57399, KcChar (chr CHR ''0'')), (57400, KcChar (chr CHR ''1'')), (57401, KcChar (chr CHR ''2'')),
      (57402, KcChar (chr CHR ''3'')), (57403, KcChar (chr CHR ''4'')), (57404, KcChar (chr CHR ''5'')),
      (57405, KcChar (chr CHR ''6'')), (57406, KcChar (chr CHR ''7'')), (57407, KcChar (chr CHR ''8'')),
      (57408, KcChar (chr CHR ''9'')), (57409, KcChar (chr CHR ''.'')), (57410, KcChar (chr CHR ''/'')),
      (57411, KcChar (chr CHR ''*'')), (57412, KcChar (chr CHR ''-'')), (57413, KcChar (chr CHR ''+'')),
      (57415, KcChar (chr CHR ''='')), (57416, KcChar (chr CHR '','')),
      (57417, KcLeft), (57418, KcRight), (57419, KcUp), (57420, KcDown), (57421, KcPageUp),
      (57422, KcPageDown), (57423, KcHome), (57424, KcEnd), (57425, KcInsert), (57426, KcDelete),
      (57427, KcKeypadBegin),
      (57428, KcMedia MkPlay), (57429, KcMedia MkPause), (57430, KcMedia MkPlayPause),
      (57431, KcMedia MkReverse), (57432, KcMedia MkStop), (57433, KcMedia MkFastForward),
      (57434, KcMedia MkRewind), (57435, KcMedia MkTrackNext), (57436, KcMedia MkTrackPrevious),
      (57437, KcMedia MkRecord), (57438, KcMedia MkLowerVolume), (57439, KcMedia MkRaiseVolume),
      (57440, KcMedia MkMuteVolume),
      (57441, KcModifier LeftShift), (57442, KcModifier LeftControl), (57443, KcModifier LeftAlt),
      (57444, KcModifier LeftSuper), (57445, KcModifier LeftHyper), (57446, KcModifier LeftMeta),
      (57447, KcModifier RightShift), (57448, KcModifier RightControl), (57449, KcModifier RightAlt),
      (57450, KcModifier RightSuper), (57451, KcModifier RightHyper), (57452, KcModifier RightMeta),
      (57453, KcModifier IsoLevel3Shift), (57454, KcModifier IsoLevel5Shift)]"

definition kitty_codepoint_to_keycode :: "nat \<Rightarrow> key_code option" where
  "kitty_codepoint_to_keycode c =
     (case map_of kitty_functional_keys c of
        Some k \<Rightarrow> Some k
      | None \<Rightarrow>
          if 57376 \<le> c \<and> c \<le> 57398 then Some (KcF (c - 57376 + 13))
          else if is_kitty_functional_codepoint c then None
          else map_option KcChar (char_from_u32 c))"

definition is_char :: "key_code \<Rightarrow> bool" where
  "is_char c = (case c of KcChar ch \<Rightarrow> True | _ \<Rightarrow> False)"

subsection \<open>The Kitty protocol and modifyOtherKeys\<close>

definition nth_field :: "'a list \<Rightarrow> nat \<Rightarrow> 'a option" where
  "nth_field xs i = (if i < length xs then Some (xs ! i) else None)"

definition parse_kitty_key_sequence :: "rstr \<Rightarrow> terminal_key option" where
  "parse_kitty_key_sequence data =
     Option.bind (strip_prefix csi data) (\<lambda>rest.
     Option.bind (strip_suffix CHR ''u'' rest) (\<lambda>body.
       let fields = split_on (\<lambda>c. c = CHR '';'') body;
           key_part = hd fields;
           modifier_part = (case nth_field fields 1 of Some m \<Rightarrow> m | None \<Rightarrow> ''1'');
           associated_text = nth_field fields 2
       in if 3 < length fields then None
          else
            let (modifier_text, event_type) = split_modifier_and_event modifier_part;
                key_fields = split_on (\<lambda>c. c = CHR '':'') key_part
            in
            Option.bind (parse_modifier modifier_text) (\<lambda>modifier.
            Option.bind (parse_unsigned (2 ^ 32) (hd key_fields)) (\<lambda>codepoint.
              let shifted_codepoint =
                Option.bind (nth_field key_fields 1) (\<lambda>f. if f = [] then None else parse_unsigned (2 ^ 32) f)
              in
              if (case associated_text of
                    Some t \<Rightarrow> parse_unsigned (2 ^ 32) t \<noteq> Some codepoint | None \<Rightarrow> False) then None
              else
              Option.bind (kitty_codepoint_to_keycode codepoint) (\<lambda>code.
              Option.bind (parse_kitty_event_type event_type) (\<lambda>kind.
                let mods = key_modifiers_from_u8 modifier;
                    forced = (is_char code \<and> (case shifted_codepoint of
                        Some s \<Rightarrow> s \<noteq> codepoint \<and> char_from_u32 s \<noteq> None | None \<Rightarrow> False));
                    mods' = (if forced then mods\<lparr>km_shift := True\<rparr> else mods);
                    key = with_kind (new_key code mods') kind
                in Some (case shifted_codepoint of
                     Some s \<Rightarrow> with_shifted_codepoint key s | None \<Rightarrow> key)))))))"

definition parse_modify_other_keys_sequence :: "rstr \<Rightarrow> terminal_key option" where
  "parse_modify_other_keys_sequence data =
     Option.bind (strip_prefix (csi @ ''27;'') data) (\<lambda>rest.
     Option.bind (strip_suffix CHR ''~'' rest) (\<lambda>body.
     Option.bind (split_once CHR '';'' body) (\<lambda>(modifier_part, codepoint_part).
     Option.bind (parse_modifier modifier_part) (\<lambda>modifier.
     Option.bind (parse_unsigned (2 ^ 32) codepoint_part) (\<lambda>codepoint.
     Option.bind (kitty_codepoint_to_keycode codepoint) (\<lambda>code.
       Some (new_key code (key_modifiers_from_u8 modifier))))))))"

subsection \<open>The legacy sequences\<close>

definition parse_legacy_ctrl_char :: "uchar \<Rightarrow> terminal_key option" where
  "parse_legacy_ctrl_char c =
     map_option (\<lambda>ch. new_key (KcChar ch) only_control)
       (if c = 0 then Some 32
        else if 1 \<le> c \<and> c \<le> 26 then char_from_u32 (c + 96)
        else if c = 27 then Some (chr CHR ''['')
        else if c = 28 then Some 92
        else if c = 29 then Some (chr CHR '']'')
        else if c = 30 then Some (chr CHR ''^'')
        else if c = 31 then Some (chr CHR ''_'')
        else None)"

definition alpha_final :: "char \<Rightarrow> bool" where
  "alpha_final c \<longleftrightarrow> (65 \<le> byte c \<and> byte c \<le> 90) \<or> (97 \<le> byte c \<and> byte c \<le> 122)"

definition final_keys :: "(char \<times> key_code) list" where
  "final_keys = [(CHR ''A'', KcUp), (CHR ''B'', KcDown), (CHR ''C'', KcRight), (CHR ''D'', KcLeft),
     (CHR ''H'', KcHome), (CHR ''F'', KcEnd), (CHR ''P'', KcF 1), (CHR ''Q'', KcF 2),
     (CHR ''R'', KcF 3), (CHR ''S'', KcF 4)]"

definition tilde_keys :: "(rstr \<times> key_code) list" where
  "tilde_keys = [(''2'', KcInsert), (''3'', KcDelete), (''5'', KcPageUp), (''6'', KcPageDown),
     (''15'', KcF 5), (''17'', KcF 6), (''18'', KcF 7), (''19'', KcF 8), (''20'', KcF 9),
     (''21'', KcF 10), (''23'', KcF 11), (''24'', KcF 12)]"

definition modified_key :: "key_code option \<Rightarrow> rstr \<Rightarrow> terminal_key option" where
  "modified_key code modifier_and_event =
     (let (modifier_text, event_type) = split_modifier_and_event modifier_and_event in
      Option.bind (parse_modifier modifier_text) (\<lambda>m.
      Option.bind code (\<lambda>c.
      Option.bind (parse_kitty_event_type event_type) (\<lambda>kind.
        Some (with_kind (new_key c (key_modifiers_from_u8 m)) kind)))))"

definition parse_tilde_sequence :: "rstr \<Rightarrow> terminal_key option" where
  "parse_tilde_sequence body =
     Option.bind (strip_suffix CHR ''~'' body) (\<lambda>t.
     Option.bind (split_once CHR '';'' t) (\<lambda>(code_part, modifier_part).
       modified_key (map_of tilde_keys code_part) modifier_part))"

definition parse_xterm_modified_special_sequence :: "rstr \<Rightarrow> terminal_key option" where
  "parse_xterm_modified_special_sequence data =
     Option.bind (strip_prefix csi data) (\<lambda>body.
       case strip_prefix ''1;'' body of
         Some b \<Rightarrow>
           if b = [] then None
           else if alpha_final (last b) then modified_key (map_of final_keys (last b)) (butlast b)
           else parse_tilde_sequence body
       | None \<Rightarrow> parse_tilde_sequence body)"

definition legacy_special_keys :: "(rstr \<times> key_code) list" where
  "legacy_special_keys =
     [(csi @ ''A'', KcUp), (esc @ ''OA'', KcUp), (csi @ ''B'', KcDown), (esc @ ''OB'', KcDown),
      (csi @ ''C'', KcRight), (esc @ ''OC'', KcRight), (csi @ ''D'', KcLeft), (esc @ ''OD'', KcLeft),
      (csi @ ''H'', KcHome), (esc @ ''OH'', KcHome), (csi @ ''1~'', KcHome), (csi @ ''7~'', KcHome),
      (csi @ ''F'', KcEnd), (esc @ ''OF'', KcEnd), (csi @ ''4~'', KcEnd), (csi @ ''8~'', KcEnd),
      (csi @ ''5~'', KcPageUp), (csi @ ''6~'', KcPageDown), (csi @ ''2~'', KcInsert), (csi @ ''3~'', KcDelete),
      (esc @ ''Op'', KcChar (chr CHR ''0'')), (esc @ ''Oq'', KcChar (chr CHR ''1'')),
      (esc @ ''Or'', KcChar (chr CHR ''2'')), (esc @ ''Os'', KcChar (chr CHR ''3'')),
      (esc @ ''Ot'', KcChar (chr CHR ''4'')), (esc @ ''Ou'', KcChar (chr CHR ''5'')),
      (esc @ ''Ov'', KcChar (chr CHR ''6'')), (esc @ ''Ow'', KcChar (chr CHR ''7'')),
      (esc @ ''Ox'', KcChar (chr CHR ''8'')), (esc @ ''Oy'', KcChar (chr CHR ''9'')),
      (esc @ ''On'', KcChar (chr CHR ''.'')), (esc @ ''Ol'', KcChar (chr CHR '','')),
      (esc @ ''Om'', KcChar (chr CHR ''-'')), (esc @ ''Ok'', KcChar (chr CHR ''+'')),
      (esc @ ''Oj'', KcChar (chr CHR ''*'')), (esc @ ''Oo'', KcChar (chr CHR ''/'')),
      (esc @ ''OM'', KcEnter),
      (esc @ ''OP'', KcF 1), (csi @ ''11~'', KcF 1), (esc @ ''OQ'', KcF 2), (csi @ ''12~'', KcF 2),
      (esc @ ''OR'', KcF 3), (csi @ ''13~'', KcF 3), (esc @ ''OS'', KcF 4), (csi @ ''14~'', KcF 4),
      (csi @ ''15~'', KcF 5), (csi @ ''17~'', KcF 6), (csi @ ''18~'', KcF 7), (csi @ ''19~'', KcF 8),
      (csi @ ''20~'', KcF 9), (csi @ ''21~'', KcF 10), (csi @ ''23~'', KcF 11), (csi @ ''24~'', KcF 12)]"

definition parse_legacy_special_sequence :: "rstr \<Rightarrow> terminal_key option" where
  "parse_legacy_special_sequence data =
     (case map_of [(esc @ csi @ ''A'', KcUp), (esc @ csi @ ''B'', KcDown), (esc @ csi @ ''C'', KcRight),
                   (esc @ csi @ ''D'', KcLeft)] data of
        Some c \<Rightarrow> Some (new_key c only_alt)
      | None \<Rightarrow> (case map_of legacy_special_keys data of
          Some c \<Rightarrow> Some (new_key c mods_empty)
        | None \<Rightarrow> if data = csi @ ''Z'' then Some (new_key KcBackTab only_shift)
                  else parse_xterm_modified_special_sequence data))"

fun parse_legacy_key_sequence :: "rstr \<Rightarrow> terminal_key option" where
  "parse_legacy_key_sequence [] = None"
| "parse_legacy_key_sequence (c # rest) =
     (case parse_legacy_special_sequence (c # rest) of
        Some k \<Rightarrow> Some k
      | None \<Rightarrow>
          if c # rest = [CHR 0x0d] then Some (new_key KcEnter mods_empty)
          else if c # rest = [CHR 0x09] then Some (new_key KcTab mods_empty)
          else if c # rest = esc then Some (new_key KcEsc mods_empty)
          else if c # rest = esc @ [CHR 0x7f] then Some (new_key KcBackspace only_alt)
          else if c # rest = [CHR 0x7f] then Some (new_key KcBackspace mods_empty)
          else if c = CHR 0x1b then
            (if length (chars rest) = 1
             then map_option (\<lambda>k. k\<lparr>tk_modifiers := (tk_modifiers k)\<lparr>km_alt := True\<rparr>\<rparr>)
                    (parse_legacy_key_sequence rest)
             else None)
          else if length (chars (c # rest)) = 1 then
            (let ch = codepoint (c # rest) in
             case parse_legacy_ctrl_char ch of
               Some k \<Rightarrow> Some k
             | None \<Rightarrow> Some (new_key (KcChar ch) (if is_ascii_upper ch then only_shift else mods_empty)))
          else None)"

definition parse_terminal_key_sequence :: "rstr \<Rightarrow> terminal_key option" where
  "parse_terminal_key_sequence data =
     (case parse_kitty_key_sequence data of
        Some k \<Rightarrow> Some k
      | None \<Rightarrow> (case parse_modify_other_keys_sequence data of
          Some k \<Rightarrow> Some k
        | None \<Rightarrow> parse_legacy_key_sequence data))"

end
