(* ===== verification/InputRoundtrip.thy ===== *)
theory InputRoundtrip
  imports InputParse
begin

section \<open>What is encoded is parsed back\<close>

text \<open>
  The encoders of \<open>src/src/input/encode.rs\<close> against the parsers of \<open>src/src/input/parse.rs\<close>: a key
  sent in the Kitty protocol, a special key sent in xterm's form with or without modifiers, and a
  typed character are each read back as the key they were.
\<close>

subsection \<open>Fields\<close>

lemma strip_prefix_Cons [simp]:
  "strip_prefix [] s = Some s" "strip_prefix (a # p) (b # s) = (if a = b then strip_prefix p s else None)"
  by (simp_all add: strip_prefix_def)

lemma modifiers_roundtrip [simp]: "key_modifiers_from_u8 (kitty_modifier m - 1) = m"
  by (cases m)
    (simp add: key_modifiers_from_u8_def kitty_modifier_def xterm_modifier_def
       flip: numeral_2_eq_2 numeral_3_eq_3)

lemmas modifiers_roundtrip_Suc [simp] = modifiers_roundtrip [unfolded One_nat_def]

lemma kitty_modifier_range: "1 \<le> kitty_modifier m" "kitty_modifier m < 256"
  by (simp_all add: kitty_modifier_def xterm_modifier_def)

lemma parse_modifier_decimal [simp]: "1 \<le> n \<Longrightarrow> n < 256 \<Longrightarrow> parse_modifier (decimal n) = Some (n - 1)"
  by (simp add: parse_modifier_def nat_checked_sub_def)

lemma not_digits [simp]: "\<not> is_digit CHR '':''" "\<not> is_digit CHR '';''" "\<not> is_digit CHR ''u''" "\<not> is_digit CHR ''~''"
  by (simp_all add: is_digit_def byte_def)

lemma digits_no_sep [simp]:
  "CHR '':'' \<notin> set (decimal n)" "CHR '';'' \<notin> set (decimal n)"
  by (simp_all add: decimal_no_char)

lemma split_modifier_plain [simp]: "split_modifier_and_event (decimal n) = (decimal n, None)"
  by (simp add: split_modifier_and_event_def)

lemma split_modifier_event [simp]:
  "split_modifier_and_event (decimal n @ opt_field CHR '':'' e) = (decimal n, map_option decimal e)"
  by (cases e) (simp_all add: split_modifier_and_event_def opt_field_def)

lemma split_key_part [simp]:
  "split_on (\<lambda>c. c = CHR '':'') (decimal n @ opt_field CHR '':'' s)
     = decimal n # (case s of None \<Rightarrow> [] | Some v \<Rightarrow> [decimal v])"
proof -
  have no: "\<forall>x \<in> set (decimal v). x \<noteq> CHR '':''" for v using digits_no_sep by metis
  show ?thesis using no by (cases s) (simp_all add: opt_field_def split_on_clean split_on_append)
qed

lemma opt_field_no_semicolon [simp]: "CHR '';'' \<notin> set (opt_field CHR '':'' s)"
  by (cases s) (simp_all add: opt_field_def)

lemma split_semicolon [simp]:
  "CHR '';'' \<notin> set a \<Longrightarrow> CHR '';'' \<notin> set b \<Longrightarrow> split_on (\<lambda>c. c = CHR '';'') (a @ CHR '';'' # b) = [a, b]"
proof -
  assume a: "CHR '';'' \<notin> set a" "CHR '';'' \<notin> set b"
  then have "\<forall>x \<in> set a. x \<noteq> CHR '';''" "\<forall>x \<in> set b. x \<noteq> CHR '';''" by metis+
  then show ?thesis by (simp add: split_on_clean split_on_append)
qed

lemma decimal_one_two_three: "decimal 1 = ''1''" "decimal 2 = ''2''" "decimal 3 = ''3''"
  by (simp_all add: decimal_eval)

lemma event_roundtrip [simp]: "parse_kitty_event_type (Some (decimal (kitty_event_number kind))) = Some kind"
  using decimal_one_two_three
  by (cases kind) (simp_all add: parse_kitty_event_type_def kitty_event_number_def)

subsection \<open>The Kitty protocol\<close>

text \<open>The Kitty sequence with its four numbers, and what it is parsed to.\<close>

definition kitty_sequence :: "nat \<Rightarrow> nat option \<Rightarrow> nat \<Rightarrow> nat option \<Rightarrow> rstr" where
  "kitty_sequence cp sh m ev =
     csi @ decimal cp @ opt_field CHR '':'' sh @ CHR '';'' # decimal m @ opt_field CHR '':'' ev @ ''u''"

lemma parse_kitty_sequence:
  assumes "cp < 2 ^ 32" "kitty_codepoint_to_keycode cp = Some code"
    and "\<And>s. sh = Some s \<Longrightarrow> s < 2 ^ 32"
    and "\<And>s. sh = Some s \<Longrightarrow> is_char code \<Longrightarrow> km_shift mods \<or> s = cp \<or> \<not> is_scalar s"
    and "ev = map_option kitty_event_number kind"
  shows "parse_kitty_key_sequence (kitty_sequence cp sh (kitty_modifier mods) ev)
    = Some (with_kind (new_key code mods) (case kind of Some k \<Rightarrow> k | None \<Rightarrow> KPress)
              \<lparr>tk_shifted_codepoint := sh\<rparr>)"
proof -
  let ?a = "decimal cp @ opt_field CHR '':'' sh"
  let ?b = "decimal (kitty_modifier mods) @ opt_field CHR '':'' ev"
  have seq: "kitty_sequence cp sh (kitty_modifier mods) ev = csi @ ((?a @ CHR '';'' # ?b) @ ''u'')"
    by (simp add: kitty_sequence_def)
  have fields: "split_on (\<lambda>c. c = CHR '';'') (?a @ CHR '';'' # ?b) = [?a, ?b]"
    by (rule split_semicolon) simp_all
  have forced: "mods\<lparr>km_shift := True\<rparr> = mods" if "km_shift mods" using that by (cases mods) simp
  have kind: "parse_kitty_event_type (map_option decimal ev) = Some (case kind of Some k \<Rightarrow> k | None \<Rightarrow> KPress)"
    unfolding assms(5) by (cases kind) (simp_all add: parse_kitty_event_type_def [of None])
  have strip: "strip_suffix CHR ''u'' ((?a @ CHR '';'' # ?b) @ ''u'') = Some (?a @ CHR '';'' # ?b)"
    by (simp only: strip_suffix_snoc if_True simp_thms)
  show ?thesis
    unfolding seq parse_kitty_key_sequence_def strip_prefix_append Option.bind.bind_lunit strip fields
    using assms kitty_modifier_range [of mods] kind forced
    by (cases sh) (auto simp: nth_field_def Let_def char_from_u32_def with_kind_def new_key_def
        with_shifted_codepoint_def)
qed

lemma char_u32: "is_scalar c \<Longrightarrow> c < 2 ^ 32"
  by (simp add: is_scalar_def)

text \<open>A character that is sent under its own number: not one of the keys the protocol numbers.\<close>

definition plain_scalar :: "uchar \<Rightarrow> bool" where
  "plain_scalar c \<longleftrightarrow> is_scalar c \<and> c \<notin> {8, 9, 13, 27, 127} \<and> \<not> is_kitty_functional_codepoint c"

lemma functional_keys_range:
  "map_of kitty_functional_keys c = Some k \<Longrightarrow> c \<in> {8, 9, 13, 27, 127} \<or> is_kitty_functional_codepoint c"
proof -
  assume "map_of kitty_functional_keys c = Some k"
  then have "c \<in> set (map fst kitty_functional_keys)" by (metis map_of_eq_None_iff option.distinct(1) set_map)
  moreover have "list_all (\<lambda>c. c \<in> {8, 9, 13, 27, 127} \<or> is_kitty_functional_codepoint c) (map fst kitty_functional_keys)"
    by (simp add: kitty_functional_keys_def is_kitty_functional_codepoint_def)
  ultimately show ?thesis unfolding list_all_iff by blast
qed

lemma plain_scalar_keycode: "plain_scalar c \<Longrightarrow> kitty_codepoint_to_keycode c = Some (KcChar c)"
  using functional_keys_range [of c]
  by (cases "map_of kitty_functional_keys c")
    (auto simp: plain_scalar_def kitty_codepoint_to_keycode_def char_from_u32_def is_kitty_functional_codepoint_def)

lemma plain_scalar_canonical: "plain_scalar c \<Longrightarrow> plain_scalar (canonical_kitty_char c m)"
  by (auto simp: plain_scalar_def canonical_kitty_char_def to_ascii_lower_def is_ascii_upper_def is_scalar_def
      is_kitty_functional_codepoint_def)

text \<open>The key a Kitty sequence stands for: the letter without its Shift, the phase if it is reported.\<close>

definition kitty_view :: "terminal_key \<Rightarrow> u16 \<Rightarrow> terminal_key" where
  "kitty_view k flags =
     with_kind (new_key (case tk_code k of KcChar c \<Rightarrow> KcChar (canonical_kitty_char c (tk_modifiers k)) | c \<Rightarrow> c)
        (tk_modifiers k)) (if flags AND 2 \<noteq> 0 then tk_kind k else KPress)
     \<lparr>tk_shifted_codepoint := (case tk_code k of KcChar c \<Rightarrow> alternate_shifted_codepoint k flags | _ \<Rightarrow> None)\<rparr>"

text \<open>
  What the sequence can carry: a character has its own number, and an alternate codepoint fits and
  agrees with the modifiers (an alternate that is another character implies Shift).
\<close>

definition kitty_sendable :: "terminal_key \<Rightarrow> u16 \<Rightarrow> bool" where
  "kitty_sendable k flags \<longleftrightarrow> (case tk_code k of
       KcChar c \<Rightarrow> plain_scalar c \<and> (case alternate_shifted_codepoint k flags of
           Some s \<Rightarrow> s < 2 ^ 32 \<and> (km_shift (tk_modifiers k) \<or> s = c \<or> \<not> is_scalar s)
         | None \<Rightarrow> True)
     | _ \<Rightarrow> True)"

lemma kitty_codepoint_view:
  assumes "kitty_codepoint k flags = Some (cp, sh)" "kitty_sendable k flags"
  shows "cp < 2 ^ 32
    \<and> kitty_codepoint_to_keycode cp
        = Some (case tk_code k of KcChar c \<Rightarrow> KcChar (canonical_kitty_char c (tk_modifiers k)) | c \<Rightarrow> c)
    \<and> sh = (case tk_code k of KcChar c \<Rightarrow> alternate_shifted_codepoint k flags | _ \<Rightarrow> None)"
proof (cases "tk_code k")
  case (KcChar c)
  then have c: "plain_scalar (canonical_kitty_char c (tk_modifiers k))"
    using assms(2) by (auto simp: kitty_sendable_def intro: plain_scalar_canonical)
  then show ?thesis using assms(1) KcChar plain_scalar_keycode [OF c] char_u32
    by (auto simp: kitty_codepoint_def plain_scalar_def)
qed (use assms(1) in \<open>auto simp: kitty_codepoint_def kitty_codepoint_to_keycode_def kitty_functional_keys_def\<close>)

lemma try_encode_form:
  assumes "try_encode_csi_u k flags = Some bytes" "flags AND 16 = 0"
  obtains cp sh where "kitty_codepoint k flags = Some (cp, sh)"
    "bytes = kitty_sequence cp sh (kitty_modifier (tk_modifiers k)) (kitty_event_suffix k flags)"
  using assms by (auto simp: try_encode_csi_u_def kitty_sequence_def Let_def split: if_splits)

lemma canonical_shift: "km_shift m \<or> canonical_kitty_char c m = c"
  by (simp add: canonical_kitty_char_def)

lemma csi_u_parsed:
  assumes "try_encode_csi_u k flags = Some bytes" "flags AND 16 = 0" "kitty_sendable k flags"
  shows "parse_kitty_key_sequence bytes = Some (kitty_view k flags)"
proof -
  obtain cp sh where cp: "kitty_codepoint k flags = Some (cp, sh)"
    "bytes = kitty_sequence cp sh (kitty_modifier (tk_modifiers k)) (kitty_event_suffix k flags)"
    using assms(1,2) by (rule try_encode_form)
  let ?code = "case tk_code k of KcChar c \<Rightarrow> KcChar (canonical_kitty_char c (tk_modifiers k)) | c \<Rightarrow> c"
  let ?kind = "if flags AND 2 \<noteq> 0 then Some (tk_kind k) else None"
  note v = kitty_codepoint_view [OF cp(1) assms(3)]
  have "parse_kitty_key_sequence bytes = Some (with_kind (new_key ?code (tk_modifiers k))
      (case ?kind of Some k \<Rightarrow> k | None \<Rightarrow> KPress) \<lparr>tk_shifted_codepoint := sh\<rparr>)"
    unfolding cp(2)
  proof (rule parse_kitty_sequence)
    show "cp < 2 ^ 32" "kitty_codepoint_to_keycode cp = Some ?code" using v by auto
    show "kitty_event_suffix k flags = map_option kitty_event_number ?kind"
      by (simp add: kitty_event_suffix_def)
  next
    fix s assume s: "sh = Some s"
    then show "s < 2 ^ 32" using v assms(3) by (auto simp: kitty_sendable_def split: key_code.splits)
    assume "is_char ?code"
    then obtain c where c: "tk_code k = KcChar c" by (auto simp: is_char_def split: key_code.splits)
    then have "cp = canonical_kitty_char c (tk_modifiers k)" using cp(1) by (simp add: kitty_codepoint_def)
    then show "km_shift (tk_modifiers k) \<or> s = cp \<or> \<not> is_scalar s"
      using s v assms(3) c canonical_shift [of "tk_modifiers k" c] by (auto simp: kitty_sendable_def)
  qed
  then show ?thesis using v by (simp add: kitty_view_def)
qed

subsection \<open>Special keys\<close>

definition special_keys :: "key_code list" where
  "special_keys = [KcUp, KcDown, KcRight, KcLeft, KcHome, KcEnd, KcInsert, KcDelete, KcPageUp, KcPageDown]
     @ map KcF [1, 2, 3, 4, 5, 6, 7, 8, 9, 10, 11, 12]"

definition xterm_mods :: "key_modifiers \<Rightarrow> key_modifiers" where
  "xterm_mods m = m\<lparr>km_super := False, km_hyper := False, km_meta := False\<rparr>"

definition xterm_mods_list :: "key_modifiers list" where
  "xterm_mods_list = concat (map (\<lambda>s. concat (map (\<lambda>c. map (\<lambda>a.
     \<lparr>km_shift = s, km_control = c, km_alt = a, km_super = False, km_hyper = False, km_meta = False\<rparr>)
     [False, True]) [False, True])) [False, True])"

lemma xterm_mods_listed: "xterm_mods m \<in> set xterm_mods_list"
  by (cases m) (auto simp: xterm_mods_def xterm_mods_list_def)

lemma xterm_modifier_range: "1 \<le> xterm_modifier m" "xterm_modifier m < 9"
  by (simp_all add: xterm_modifier_def)

lemma xterm_roundtrip [simp]: "key_modifiers_from_u8 (xterm_modifier m - Suc 0) = xterm_mods m"
  by (cases m)
    (simp add: key_modifiers_from_u8_def xterm_modifier_def xterm_mods_def
       flip: numeral_2_eq_2 numeral_3_eq_3)

lemma xterm_mods_none: "xterm_modifier m \<le> 1 \<Longrightarrow> xterm_mods m = mods_empty"
  by (cases m) (auto simp: xterm_modifier_def xterm_mods_def mods_empty_def split: if_splits)

lemma no_special_key:
  assumes "5 < length data"
  shows "parse_legacy_special_sequence data = parse_xterm_modified_special_sequence data"
proof -
  have "map_of [(esc @ csi @ ''A'', KcUp), (esc @ csi @ ''B'', KcDown), (esc @ csi @ ''C'', KcRight),
                (esc @ csi @ ''D'', KcLeft)] data = None"
    using assms by (auto simp: map_of_eq_None_iff)
  moreover have "map_of legacy_special_keys data = None"
  proof -
    have "list_all (\<lambda>e. length (fst e) \<le> 5) legacy_special_keys" by (simp add: legacy_special_keys_def)
    then have "data \<notin> fst ` set legacy_special_keys" using assms by (auto simp: list_all_iff)
    then show ?thesis by (simp add: map_of_eq_None_iff)
  qed
  moreover have "data \<noteq> csi @ ''Z''" using assms by auto
  ultimately show ?thesis by (simp add: parse_legacy_special_sequence_def)
qed

lemma parse_legacy_hit:
  "parse_legacy_special_sequence d = Some k \<Longrightarrow> d \<noteq> [] \<Longrightarrow> parse_legacy_key_sequence d = Some k"
  by (cases d) simp_all

lemma modified_key_decimal:
  "1 \<le> m \<Longrightarrow> m < 9 \<Longrightarrow> modified_key (Some c) (decimal m) = Some (new_key c (key_modifiers_from_u8 (m - 1)))"
  by (simp add: modified_key_def parse_kitty_event_type_def with_kind_def new_key_def)

lemma modified_final_parsed:
  assumes "special_final c = Some f" "c \<in> set special_keys" "1 \<le> m" "m < 9"
  shows "parse_terminal_key_sequence (csi @ ''1;'' @ decimal m @ [f]) = Some (new_key c (key_modifiers_from_u8 (m - 1)))"
proof -
  have f: "f \<noteq> CHR ''u''" "alpha_final f" "map_of final_keys f = Some c"
    using assms(1,2) by (auto simp: special_keys_def special_final_def alpha_final_def byte_def final_keys_def
        split: key_code.splits)
  let ?data = "csi @ ''1;'' @ decimal m @ [f]"
  have len: "5 < length ?data" by (cases "decimal m") auto
  have "parse_kitty_key_sequence ?data = None" using f(1)
    by (simp add: parse_kitty_key_sequence_def strip_prefix_def strip_suffix_def)
  moreover have "parse_modify_other_keys_sequence ?data = None"
    by (simp add: parse_modify_other_keys_sequence_def strip_prefix_def)
  moreover have "parse_legacy_special_sequence ?data = Some (new_key c (key_modifiers_from_u8 (m - 1)))"
    unfolding no_special_key [OF len] using f(2,3) modified_key_decimal [OF assms(3,4), of c]
    by (simp add: parse_xterm_modified_special_sequence_def)
  then have "parse_legacy_key_sequence ?data = Some (new_key c (key_modifiers_from_u8 (m - 1)))"
    by (rule parse_legacy_hit) simp
  ultimately show ?thesis by (simp add: parse_terminal_key_sequence_def)
qed

lemma special_number_part:
  assumes "special_number c = Some n"
  shows "map_of tilde_keys (decimal n) = Some c"
    and "\<not> prefix ''27;'' (decimal n @ CHR '';'' # s)" "\<not> prefix ''1;'' (decimal n @ CHR '';'' # s)"
  using assms
  by (auto simp: special_number_def tilde_keys_def decimal_eval split: key_code.splits if_splits)

lemma modified_tilde_parsed:
  assumes "special_number c = Some n" "1 \<le> m" "m < 9"
  shows "parse_terminal_key_sequence (csi @ decimal n @ '';'' @ decimal m @ ''~'') = Some (new_key c (key_modifiers_from_u8 (m - 1)))"
proof -
  let ?data = "csi @ decimal n @ '';'' @ decimal m @ ''~''"
  note n = special_number_part(1) [OF assms(1)]
  have tilde: "strip_suffix CHR ''~'' (decimal n @ CHR '';'' # decimal m @ ''~'') = Some (decimal n @ CHR '';'' # decimal m)"
    using strip_suffix_snoc [of "CHR ''~''" "decimal n @ CHR '';'' # decimal m" "CHR ''~''"] by simp
  have len: "5 < length ?data" by (cases "decimal m"; cases "decimal n") auto
  have "parse_kitty_key_sequence ?data = None"
    by (simp add: parse_kitty_key_sequence_def strip_prefix_def strip_suffix_def)
  moreover have "\<not> prefix ''27;'' (decimal n @ CHR '';'' # decimal m @ ''~'')"
    "\<not> prefix ''1;'' (decimal n @ CHR '';'' # decimal m @ ''~'')"
    using special_number_part [OF assms(1)] by blast+
  then have "parse_modify_other_keys_sequence ?data = None"
    "strip_prefix ''1;'' (decimal n @ CHR '';'' # decimal m @ ''~'') = None"
    by (simp_all add: parse_modify_other_keys_sequence_def strip_prefix_def)
  moreover from this(2) have "parse_legacy_special_sequence ?data = Some (new_key c (key_modifiers_from_u8 (m - 1)))"
    unfolding no_special_key [OF len] using n modified_key_decimal [OF assms(2,3), of c]
    by (simp add: parse_xterm_modified_special_sequence_def parse_tilde_sequence_def tilde)
  then have "parse_legacy_key_sequence ?data = Some (new_key c (key_modifiers_from_u8 (m - 1)))"
    by (rule parse_legacy_hit) simp
  ultimately show ?thesis by (simp add: parse_terminal_key_sequence_def)
qed

text \<open>Without modifiers each special key has one fixed sequence.\<close>

lemma special_inner:
  "tk_code k \<in> set special_keys \<Longrightarrow> encode_legacy_inner k = encode_legacy_inner (new_key (tk_code k) mods_empty)"
  by (auto simp: encode_legacy_inner_def new_key_def special_keys_def)

lemma plain_special_parsed:
  "list_all (\<lambda>c. parse_terminal_key_sequence (encode_legacy_inner (new_key c mods_empty)) = Some (new_key c mods_empty))
     special_keys"
  by code_simp

lemma special_coded: "c \<in> set special_keys \<Longrightarrow> special_final c \<noteq> None \<or> special_number c \<noteq> None"
  by (auto simp: special_keys_def special_final_def special_number_def)

lemma special_key_parsed:
  assumes "tk_code k \<in> set special_keys"
  shows "parse_terminal_key_sequence (encode_legacy k) = Some (new_key (tk_code k) (xterm_mods (tk_modifiers k)))"
proof (cases "xterm_modifier (tk_modifiers k) \<le> 1")
  case True
  then have m: "\<not> km_alt (tk_modifiers k)" by (auto simp: xterm_modifier_def split: if_splits)
  have "encode_legacy k = encode_legacy_inner (new_key (tk_code k) mods_empty)"
    using True m special_inner [OF assms] by (auto simp: encode_legacy_def encode_modified_special_def Let_def)
  then show ?thesis using plain_special_parsed assms xterm_mods_none [OF True] by (simp add: list_all_iff)
next
  case False
  then have "tk_modifiers k \<noteq> mods_empty" by (auto simp: xterm_modifier_def mods_empty_def)
  then have e: "encode_legacy k = bytes" if "encode_modified_special (tk_code k) (tk_modifiers k) = Some bytes" for bytes
    using that by (simp add: encode_legacy_def)
  show ?thesis
  proof (cases "special_final (tk_code k)")
    case (Some f)
    then have "encode_legacy k = csi @ ''1;'' @ decimal (xterm_modifier (tk_modifiers k)) @ [f]"
      using False by (intro e) (simp add: encode_modified_special_def)
    then show ?thesis
      using modified_final_parsed [OF Some assms xterm_modifier_range] by simp
  next
    case None
    then obtain n where n: "special_number (tk_code k) = Some n" using special_coded [OF assms] by auto
    then have "encode_legacy k = csi @ decimal n @ '';'' @ decimal (xterm_modifier (tk_modifiers k)) @ ''~''"
      using False None by (intro e) (simp add: encode_modified_special_def)
    then show ?thesis using modified_tilde_parsed [OF n xterm_modifier_range] by simp
  qed
qed

subsection \<open>Typed characters\<close>

lemma single_char: "is_scalar c \<Longrightarrow> chars (encode_utf8 c) = [encode_utf8 c]"
  using chars_encode_utf8 [of c "[]"] by simp

lemma first_byte:
  assumes "is_scalar c"
  obtains b bs where "encode_utf8 c = b # bs" "byte b = c \<and> bs = [] \<and> c < 128 \<or> 192 \<le> byte b \<and> 128 \<le> c"
  using assms
proof (cases c rule: is_scalar_cases)
  case 1
  then show thesis by (intro that [of "char_of c" "[]"]) (simp_all add: encode_utf8_def)
qed (force intro: that simp: encode_utf8_def)+

lemma no_table_entry:
  assumes "hd data \<noteq> CHR 0x1b"
  shows "parse_legacy_special_sequence data = None" "parse_kitty_key_sequence data = None"
    "parse_modify_other_keys_sequence data = None"
proof -
  have p: "\<not> prefix (CHR 0x1b # s) data" for s using assms by (auto simp: prefix_def)
  have "list_all (\<lambda>e. hd (fst e) = CHR 0x1b) legacy_special_keys" by (simp add: legacy_special_keys_def)
  then have "data \<notin> fst ` set legacy_special_keys" using assms by (auto simp: list_all_iff)
  then have "map_of legacy_special_keys data = None" by (simp add: map_of_eq_None_iff)
  moreover have "data \<noteq> CHR 0x1b # s" for s using assms by auto
  ultimately show "parse_legacy_special_sequence data = None"
    using p by (simp add: parse_legacy_special_sequence_def parse_xterm_modified_special_sequence_def strip_prefix_def)
  show "parse_kitty_key_sequence data = None" "parse_modify_other_keys_sequence data = None"
    using p by (simp_all add: parse_kitty_key_sequence_def parse_modify_other_keys_sequence_def strip_prefix_def)
qed

lemma typed_char_parsed:
  assumes "is_scalar c" "32 \<le> c" "c \<noteq> 127"
  shows "parse_terminal_key_sequence (encode_utf8 c)
    = Some (new_key (KcChar c) (if is_ascii_upper c then only_shift else mods_empty))"
proof -
  obtain b bs where b: "encode_utf8 c = b # bs" "byte b = c \<and> bs = [] \<and> c < 128 \<or> 192 \<le> byte b \<and> 128 \<le> c"
    using first_byte [OF assms(1)] by blast
  have ne: "b \<noteq> CHR 0x1b" "b # bs \<noteq> [CHR 0x0d]" "b # bs \<noteq> [CHR 0x09]" "b # bs \<noteq> [CHR 0x7f]"
    using b(2) assms(2,3) by (auto simp: byte_def)
  have "parse_legacy_ctrl_char c = None" using assms(2) by (simp add: parse_legacy_ctrl_char_def)
  moreover have "length (chars (b # bs)) = 1" "codepoint (b # bs) = c"
    using single_char [OF assms(1)] codepoint_encode_utf8 [OF assms(1)] b(1) by simp_all
  ultimately have "parse_legacy_key_sequence (b # bs)
      = Some (new_key (KcChar c) (if is_ascii_upper c then only_shift else mods_empty))"
    using ne no_table_entry(1) [of "b # bs"] by auto
  then show ?thesis using no_table_entry(2,3) [of "b # bs"] ne(1) b(1)
    by (simp add: parse_terminal_key_sequence_def)
qed

end
