(* ===== verification/InputMouse.thy ===== *)
theory InputMouse
  imports InputRoundtrip LayoutGeometry
begin

section \<open>Mouse reports and pixels\<close>

text \<open>
  The mouse side of terminal input: the decoding of mouse reports in
  \<open>src/src/raw_input.rs\<close> and the pixel geometry of \<open>src/src/input/mouse.rs\<close>, which maps a pixel
  report of the host to a cell of the grid and to a pixel of the pane. The geometry keeps its
  machine integers, since the code widens to 64 bits to multiply and casts back.
\<close>

subsection \<open>Reports\<close>

definition mouse_kind :: "nat \<Rightarrow> bool \<Rightarrow> mouse_event_kind option" where
  "mouse_kind button_number dragging =
     map_of [((0, False), MeDown MbLeft), ((1, False), MeDown MbMiddle), ((2, False), MeDown MbRight),
       ((0, True), MeDrag MbLeft), ((1, True), MeDrag MbMiddle), ((2, True), MeDrag MbRight),
       ((3, False), MeUp MbLeft),
       ((3, True), MeMoved), ((4, True), MeMoved), ((5, True), MeMoved), ((8, True), MeMoved), ((9, True), MeMoved),
       ((4, False), MeScrollUp), ((5, False), MeScrollDown), ((6, False), MeScrollLeft), ((7, False), MeScrollRight)]
       (button_number, dragging)"

definition parse_mouse_cb :: "nat \<Rightarrow> (mouse_event_kind \<times> key_modifiers) option" where
  "parse_mouse_cb cb =
     map_option (\<lambda>kind. (kind, mods_empty\<lparr>km_shift := cb AND 4 \<noteq> 0, km_alt := cb AND 8 \<noteq> 0,
         km_control := cb AND 16 \<noteq> 0\<rparr>))
       (mouse_kind ((cb AND 3) OR drop_bit 4 (cb AND 192)) (cb AND 32 = 32))"

definition parse_default_mouse :: "rstr \<Rightarrow> mouse_event option" where
  "parse_default_mouse s = (case s of
       [a, b, c, encoded_cb, encoded_column, encoded_row] \<Rightarrow>
         if [a, b, c] = csi @ ''M'' then
           Option.bind (nat_checked_sub (byte encoded_cb) 32) (\<lambda>cb.
           Option.bind (nat_checked_sub (byte encoded_column) 33) (\<lambda>column.
           Option.bind (nat_checked_sub (byte encoded_row) 33) (\<lambda>row.
           map_option (\<lambda>(kind, mods). \<lparr>me_kind = kind, me_column = column, me_row = row, me_modifiers = mods\<rparr>)
             (parse_mouse_cb cb))))
         else None
     | _ \<Rightarrow> None)"

definition parse_coordinate :: "rstr \<Rightarrow> nat option" where
  "parse_coordinate s = Option.bind (parse_unsigned 65536 s) (\<lambda>n. nat_checked_sub n 1)"

definition parse_sgr_mouse :: "rstr \<Rightarrow> mouse_event option" where
  "parse_sgr_mouse s =
     Option.bind (strip_prefix (csi @ ''<'') s) (\<lambda>body.
       if body = [] \<or> last body \<notin> {CHR ''M'', CHR ''m''} then None
       else
         let parts = split_on (\<lambda>c. c = CHR '';'') (butlast body) in
         Option.bind (Option.bind (nth_field parts 0) (parse_unsigned 256)) (\<lambda>cb.
         Option.bind (Option.bind (nth_field parts 1) parse_coordinate) (\<lambda>column.
         Option.bind (Option.bind (nth_field parts 2) parse_coordinate) (\<lambda>row.
         map_option (\<lambda>(kind, mods).
             \<lparr>me_kind = (if last body = CHR ''m'' then (case kind of MeDown b \<Rightarrow> MeUp b | other \<Rightarrow> other) else kind),
              me_column = column, me_row = row, me_modifiers = mods\<rparr>)
           (parse_mouse_cb cb)))))"

definition parse_number :: "rstr \<Rightarrow> nat option" where
  "parse_number v = (if v \<noteq> [] \<and> list_all is_digit v then parse_unsigned (2 ^ 32) v else None)"

definition or_else :: "'a option \<Rightarrow> 'a option \<Rightarrow> 'a option" where
  "or_else a b = (case a of Some x \<Rightarrow> Some x | None \<Rightarrow> b)"

definition parse_report :: "rstr \<Rightarrow> (nat \<times> nat) option" where
  "parse_report data =
     Option.bind (strip_prefix (csi @ ''<'') data) (\<lambda>rest.
     Option.bind (or_else (strip_suffix CHR ''M'' rest) (strip_suffix CHR ''m'' rest)) (\<lambda>body.
       let fields = split_on (\<lambda>c. c = CHR '';'') body in
       Option.bind (Option.bind (nth_field fields 0) parse_number) (\<lambda>_.
       Option.bind (Option.bind (nth_field fields 1) parse_number) (\<lambda>x.
       Option.bind (Option.bind (nth_field fields 2) parse_number) (\<lambda>y.
         if nth_field fields 3 = None then Some (x, y) else None)))))"

definition report_at_cell :: "rstr \<Rightarrow> u16 \<Rightarrow> u16 \<Rightarrow> rstr option" where
  "report_at_cell data column row =
     Option.bind (strip_prefix (csi @ ''<'') data) (\<lambda>body.
       let suffix = (if body \<noteq> [] \<and> last body = CHR ''M'' then CHR ''M'' else CHR ''m'') in
       Option.bind (strip_suffix suffix body) (\<lambda>body'.
       Option.bind (nth_field (split_on (\<lambda>c. c = CHR '';'') body') 0) (\<lambda>buttons.
         if valid_utf8 buttons
         then Some (csi @ ''<'' @ buttons @ '';'' @ decimal (unat column + 1) @ '';''
                    @ decimal (unat row + 1) @ [suffix])
         else None)))"

subsection \<open>Geometry\<close>

record host_geometry =
  hg_cols :: u16
  hg_rows :: u16
  hg_width_px :: u32
  hg_height_px :: u32

record host_pixels =
  hp_x :: u32
  hp_y :: u32
  hp_geometry :: host_geometry

datatype position = PosCell u16 u16 | PosPixels u32 u32

definition new_geometry :: "u16 \<Rightarrow> u16 \<Rightarrow> u32 \<Rightarrow> u32 \<Rightarrow> host_geometry option" where
  "new_geometry cols rows width_px height_px =
     (if 0 < cols \<and> 0 < rows \<and> 0 < width_px \<and> 0 < height_px
      then Some \<lparr>hg_cols = cols, hg_rows = rows, hg_width_px = width_px, hg_height_px = height_px\<rparr> else None)"

definition checked_sub :: "'a::len word \<Rightarrow> 'a word \<Rightarrow> 'a word option" where
  "checked_sub a b = (if b \<le> a then Some (a - b) else None)"

definition checked_add :: "'a::len word \<Rightarrow> 'a word \<Rightarrow> 'a word option" where
  "checked_add a b = (if unat a + unat b < 2 ^ LENGTH('a) then Some (a + b) else None)"

definition boundary :: "u16 \<Rightarrow> u16 \<Rightarrow> u32 \<Rightarrow> u32 option" where
  "boundary index count extent =
     (if 0 < count \<and> index \<le> count \<and> 0 < extent
      then Some (ucast ((ucast index :: u64) * ucast extent div ucast count)) else None)"

definition grid_cell :: "u32 \<Rightarrow> u16 \<Rightarrow> u32 \<Rightarrow> u16 option" where
  "grid_cell pixel count extent =
     (if count = 0 \<or> extent = 0 \<or> extent \<le> pixel then None
      else let cell = (((ucast pixel :: u64) + 1) * ucast count - 1) div ucast extent
           in if unat cell < 2 ^ 16 \<and> (ucast cell :: u16) < count then Some (ucast cell) else None)"

definition scale :: "u32 \<Rightarrow> u32 \<Rightarrow> u32 \<Rightarrow> u32" where
  "scale pixel source target =
     ucast (min ((ucast pixel :: u64) * ucast target div ucast source) (ucast (saturating_sub target 1)))"

definition geometry_cell :: "host_geometry \<Rightarrow> u32 \<Rightarrow> u32 \<Rightarrow> (u16 \<times> u16) option" where
  "geometry_cell g x y =
     Option.bind (Option.bind (checked_sub x 1) (\<lambda>p. grid_cell p (hg_cols g) (hg_width_px g))) (\<lambda>c.
     Option.bind (Option.bind (checked_sub y 1) (\<lambda>p. grid_cell p (hg_rows g) (hg_height_px g))) (\<lambda>r.
     Some (c, r)))"

definition column_boundary :: "host_geometry \<Rightarrow> u16 \<Rightarrow> u32 option" where
  "column_boundary g column = boundary column (hg_cols g) (hg_width_px g)"

definition row_boundary :: "host_geometry \<Rightarrow> u16 \<Rightarrow> u32 option" where
  "row_boundary g row = boundary row (hg_rows g) (hg_height_px g)"

definition pane_position :: "host_pixels \<Rightarrow> rect \<Rightarrow> u32 \<Rightarrow> u32 \<Rightarrow> position option" where
  "pane_position h inner child_width_px child_height_px =
     Option.bind (column_boundary (hp_geometry h) (rect_x inner)) (\<lambda>start_x.
     Option.bind (row_boundary (hp_geometry h) (rect_y inner)) (\<lambda>start_y.
     Option.bind (Option.bind (checked_add (rect_x inner) (rect_width inner)) (column_boundary (hp_geometry h))) (\<lambda>end_x.
     Option.bind (Option.bind (checked_add (rect_y inner) (rect_height inner)) (row_boundary (hp_geometry h))) (\<lambda>end_y.
     Option.bind (Option.bind (checked_sub (hp_x h) 1) (\<lambda>p. checked_sub p start_x)) (\<lambda>x.
     Option.bind (Option.bind (checked_sub (hp_y h) 1) (\<lambda>p. checked_sub p start_y)) (\<lambda>y.
     Option.bind (checked_sub end_x start_x) (\<lambda>source_width.
     Option.bind (checked_sub end_y start_y) (\<lambda>source_height.
       if source_width \<le> x \<or> source_height \<le> y \<or> child_width_px = 0 \<or> child_height_px = 0 then None
       else Option.bind (checked_add (scale x source_width child_width_px) 1) (\<lambda>px.
            Option.bind (checked_add (scale y source_height child_height_px) 1) (\<lambda>py.
              Some (PosPixels px py)))))))))))"

subsection \<open>The arithmetic does not wrap\<close>

lemma u16_bound: "unat (a :: u16) < 65536"
  by (rule order.strict_trans2 [OF unsigned_less]) simp

lemma u32_bound: "unat (b :: u32) < 4294967296"
  by (rule order.strict_trans2 [OF unsigned_less]) simp

lemma u16_u32_bound: "unat (a :: u16) * unat (b :: u32) < 2 ^ 48"
proof -
  have "unat a < 2 ^ 16" "unat b < 2 ^ 32" using u16_bound [of a] u32_bound [of b] by simp_all
  then have "unat a * unat b < 2 ^ 16 * 2 ^ 32" by (intro mult_strict_mono) auto
  then show ?thesis by simp
qed

lemma unat_wide [simp]:
  "unat (ucast (a :: u16) :: u64) = unat a" "unat (ucast (b :: u32) :: u64) = unat b"
  using u16_bound [of a] u32_bound [of b]
  by (simp_all add: unsigned_ucast_eq take_bit_nat_eq_self)

lemma boundary_exact:
  assumes "0 < count" "index \<le> count" "0 < extent"
  obtains b where "boundary index count extent = Some b"
    "unat b = unat index * unat extent div unat count" "unat b \<le> unat extent"
proof -
  let ?w = "(ucast index :: u64) * ucast extent"
  have w: "unat ?w = unat index * unat extent"
    using u16_u32_bound [of index extent] by (simp add: unat_word_ariths)
  have le: "unat index * unat extent div unat count \<le> unat extent"
    using assms by (metis div_le_mono mult_le_mono1 nonzero_mult_div_cancel_left unat_gt_0 word_le_nat_alt word_not_simps(1) not_less_zero less_irrefl)
  have "unat (ucast (?w div ucast count) :: u32) = unat index * unat extent div unat count"
    using le u32_bound [of extent] w by (simp add: unsigned_ucast_eq unat_div take_bit_nat_eq_self)
  then show thesis using that assms le by (simp add: boundary_def)
qed

lemma grid_cell_exact:
  assumes "0 < count" "pixel < extent"
  obtains c where "grid_cell pixel count extent = Some c"
    "unat c = ((unat pixel + 1) * unat count - 1) div unat extent" "c < count"
proof -
  let ?p = "(ucast pixel :: u64) + 1"
  have p: "unat ?p = unat pixel + 1" 
    using u32_bound [of pixel] by (simp add: unat_word_ariths)
  have pe: "unat pixel + 1 \<le> unat extent" using assms by (simp add: word_less_nat_alt)
  have c0: "0 < unat count" using assms by (simp add: word_less_nat_alt)
  have "(unat pixel + 1) * unat count \<le> unat extent * unat count" using pe by (rule mult_le_mono1)
  also have "\<dots> < 2 ^ 48" using u16_u32_bound [of count extent] by (simp add: mult.commute)
  finally have m: "(unat pixel + 1) * unat count < 2 ^ 64" by simp
  have mul: "unat (?p * ucast count) = (unat pixel + 1) * unat count"
    using m p by (simp add: unat_word_ariths)
  have "(1 :: u64) \<le> ?p * ucast count" using mul c0 by (simp add: word_le_nat_alt)
  then have sub: "unat (?p * ucast count - 1) = (unat pixel + 1) * unat count - 1"
    using mul by (simp add: unat_sub)
  define w where "w = (?p * ucast count - 1) div ucast extent"
  have cell: "unat w = ((unat pixel + 1) * unat count - 1) div unat extent"
    unfolding w_def using sub by (simp add: unat_div)
  have "(unat pixel + 1) * unat count - 1 < unat extent * unat count"
    using \<open>(unat pixel + 1) * unat count \<le> unat extent * unat count\<close> c0 by simp
  then have lt: "unat w < unat count" unfolding cell by (simp add: less_mult_imp_div_less mult.commute)
  then have small: "unat w < 2 ^ 16" using u16_bound [of count] by simp
  then have narrow: "unat (ucast w :: u16) = unat w" by (simp add: unsigned_ucast_eq take_bit_nat_eq_self)
  have lt': "(ucast w :: u16) < count" using lt narrow by (simp add: word_less_nat_alt)
  have "count \<noteq> 0" "extent \<noteq> 0" "\<not> extent \<le> pixel" using assms by (auto simp: not_le)
  then have "grid_cell pixel count extent = Some (ucast w)"
    unfolding grid_cell_def Let_def w_def [symmetric] using small lt' by simp
  then show thesis using that cell narrow lt' by simp
qed

subsection \<open>Cells and boundaries\<close>

lemma grid_cell_some:
  assumes "grid_cell pixel count extent = Some c"
  shows "0 < count" "pixel < extent" "unat c = ((unat pixel + 1) * unat count - 1) div unat extent" "c < count"
proof -
  show a: "0 < count" "pixel < extent"
    using assms by (auto simp: grid_cell_def word_neq_0_conv not_le split: if_splits)
  show "unat c = ((unat pixel + 1) * unat count - 1) div unat extent" "c < count"
    using assms grid_cell_exact [OF a] by auto
qed

text \<open>The boundaries as numbers, with what the two roundings have to do with each other.\<close>

lemma cell_start: "(G :: nat) = ((P + 1) * C - 1) div E \<Longrightarrow> 0 < C \<Longrightarrow> G * E div C \<le> P"
proof -
  assume g: "G = ((P + 1) * C - 1) div E" and c: "0 < C"
  have "G * E \<le> (P + 1) * C - 1" unfolding g by (rule div_times_less_eq_dividend)
  also have "\<dots> < (P + 1) * C" using c by simp
  finally have "G * E div C < P + 1" by (simp add: less_mult_imp_div_less)
  then show ?thesis by simp
qed

lemma cell_end: "(G :: nat) = ((P + 1) * C - 1) div E \<Longrightarrow> 0 < C \<Longrightarrow> 0 < E \<Longrightarrow> P < (G + 1) * E div C"
proof -
  assume g: "G = ((P + 1) * C - 1) div E" and c: "0 < C" and e: "0 < E"
  have "(P + 1) * C - 1 < (G + 1) * E" unfolding g using e
    by (metis dividend_less_div_times mult.commute Suc_eq_plus1 mult_Suc add.commute)
  then have "(P + 1) * C \<le> (G + 1) * E" using c by linarith
  then have "P + 1 \<le> (G + 1) * E div C" using c by (simp add: less_eq_div_iff_mult_less_eq)
  then show ?thesis by simp
qed

lemma cell_within_boundaries:
  assumes "grid_cell pixel count extent = Some c"
  shows "\<exists>a b. boundary c count extent = Some a \<and> boundary (c + 1) count extent = Some b \<and> a \<le> pixel \<and> pixel < b"
proof -
  note g = grid_cell_some [OF assms]
  have pos: "0 < unat count" "0 < unat extent" "0 < extent" using g(1,2) by (auto simp: word_less_nat_alt)
  have c1: "unat (c + 1) = unat c + 1"
    using g(4) u16_bound [of count] by (simp add: word_less_nat_alt unat_word_ariths)
  obtain a where a: "boundary c count extent = Some a" "unat a = unat c * unat extent div unat count"
    using g(1,4) pos(3) by (elim boundary_exact [of count c extent]) auto
  obtain b where b: "boundary (c + 1) count extent = Some b" "unat b = (unat c + 1) * unat extent div unat count"
    using g(1,4) pos(3) c1 boundary_exact [of count "c + 1" extent]
    by (auto simp: word_le_nat_alt word_less_nat_alt)
  have "a \<le> pixel" unfolding word_le_nat_alt a(2) using g(3) pos(1) by (rule cell_start)
  moreover have "pixel < b" unfolding word_less_nat_alt b(2) using g(3) pos(1,2) by (rule cell_end)
  ultimately show ?thesis using a(1) b(1) by blast
qed

lemma scale_bound:
  assumes "0 < target"
  shows "unat (scale pixel source target) < unat target"
proof -
  let ?m = "min ((ucast pixel :: u64) * ucast target div ucast source) (ucast (saturating_sub target 1))"
  have "?m \<le> ucast (saturating_sub target 1)" by simp
  then have "unat ?m \<le> unat (saturating_sub target 1)" unfolding word_le_nat_alt by simp
  also have "\<dots> = unat target - 1" by (simp add: unat_saturating_sub)
  finally have m: "unat ?m < unat target" using assms by (simp add: word_less_nat_alt)
  then have "unat (ucast ?m :: u32) = unat ?m" using u32_bound [of target]
    by (simp add: unsigned_ucast_eq take_bit_nat_eq_self del: min_def)
  then show ?thesis using m by (simp add: scale_def)
qed

text \<open>One axis of the position: the pixel is inside the pane and its scaled place inside the child.\<close>

lemma axis_position:
  assumes "Option.bind (checked_sub x 1) (\<lambda>p. grid_cell p count extent) = Some c"
    and "start \<le> c" "unat c < unat start + unat width" "unat start + unat width \<le> unat count" "0 < child"
  obtains s e v w px where "boundary start count extent = Some s"
    "Option.bind (checked_add start width) (\<lambda>i. boundary i count extent) = Some e"
    "Option.bind (checked_sub x 1) (\<lambda>p. checked_sub p s) = Some v" "checked_sub e s = Some w" "v < w"
    "checked_add (scale v w child) 1 = Some px" "1 \<le> unat px" "unat px \<le> unat child"
proof -
  obtain p where p: "checked_sub x 1 = Some p" "grid_cell p count extent = Some c"
    using assms(1) by (auto simp: bind_eq_Some_conv)
  note g = grid_cell_some [OF p(2)]
  have pos: "0 < unat count" "0 < unat extent" "0 < extent" using g(1,2) by (auto simp: word_less_nat_alt)
  have small: "unat start + unat width < 65536" using assms(4) u16_bound [of count] by simp
  then have sum: "unat (start + width) = unat start + unat width" by (simp add: unat_word_ariths)
  obtain s where s: "boundary start count extent = Some s" "unat s = unat start * unat extent div unat count"
    using g(1) pos(3) assms(4) by (elim boundary_exact [of count start extent]) (auto simp: word_le_nat_alt)
  obtain e where e: "boundary (start + width) count extent = Some e"
      "unat e = (unat start + unat width) * unat extent div unat count"
    using g(1) pos(3) assms(4) sum boundary_exact [of count "start + width" extent]
    by (auto simp: word_le_nat_alt)
  have "unat s \<le> unat c * unat extent div unat count" unfolding s(2)
    using assms(2) by (intro div_le_mono mult_le_mono1) (simp add: word_le_nat_alt)
  also have "\<dots> \<le> unat p" using g(3) pos(1) by (rule cell_start)
  finally have sp: "unat s \<le> unat p" .
  have "unat p < (unat c + 1) * unat extent div unat count" using g(3) pos(1,2) by (rule cell_end)
  also have "\<dots> \<le> unat e" unfolding e(2) using assms(3) by (intro div_le_mono mult_le_mono1) simp
  finally have pe: "unat p < unat e" .
  have v: "p - s < e - s" using sp pe by (simp add: word_less_nat_alt unat_sub word_le_nat_alt)
  have sc: "unat (scale (p - s) (e - s) child) < unat child" using assms(5) by (rule scale_bound)
  then have px: "unat (scale (p - s) (e - s) child + 1) = unat (scale (p - s) (e - s) child) + 1"
    using u32_bound [of child] by (simp add: unat_word_ariths)
  show thesis
  proof (rule that [of s e "p - s" "e - s" "scale (p - s) (e - s) child + 1"])
    show "Option.bind (checked_add start width) (\<lambda>i. boundary i count extent) = Some e"
      using e(1) small by (simp add: checked_add_def)
    show "Option.bind (checked_sub x 1) (\<lambda>p. checked_sub p s) = Some (p - s)"
      using p(1) sp by (simp add: checked_sub_def word_le_nat_alt)
    show "checked_sub e s = Some (e - s)" using sp pe by (simp add: checked_sub_def word_le_nat_alt)
    show "checked_add (scale (p - s) (e - s) child) 1 = Some (scale (p - s) (e - s) child + 1)"
      using sc u32_bound [of child] by (simp add: checked_add_def)
  qed (use s(1) v px sc in simp_all)
qed

lemma pane_position_inside:
  assumes "geometry_cell (hp_geometry h) (hp_x h) (hp_y h) = Some (c, r)"
    and "rect_x inner \<le> c" "unat c < unat (rect_x inner) + unat (rect_width inner)"
    and "rect_y inner \<le> r" "unat r < unat (rect_y inner) + unat (rect_height inner)"
    and "unat (rect_x inner) + unat (rect_width inner) \<le> unat (hg_cols (hp_geometry h))"
    and "unat (rect_y inner) + unat (rect_height inner) \<le> unat (hg_rows (hp_geometry h))"
    and "0 < width_px" "0 < height_px"
  shows "\<exists>px py. pane_position h inner width_px height_px = Some (PosPixels px py)
    \<and> 1 \<le> unat px \<and> unat px \<le> unat width_px \<and> 1 \<le> unat py \<and> unat py \<le> unat height_px"
proof -
  have c: "Option.bind (checked_sub (hp_x h) 1) (\<lambda>p. grid_cell p (hg_cols (hp_geometry h)) (hg_width_px (hp_geometry h))) = Some c"
    and r: "Option.bind (checked_sub (hp_y h) 1) (\<lambda>p. grid_cell p (hg_rows (hp_geometry h)) (hg_height_px (hp_geometry h))) = Some r"
    using assms(1) unfolding geometry_cell_def by (auto simp: bind_eq_Some_conv)
  obtain s e v w px where x: "boundary (rect_x inner) (hg_cols (hp_geometry h)) (hg_width_px (hp_geometry h)) = Some s"
    "Option.bind (checked_add (rect_x inner) (rect_width inner)) (\<lambda>i. boundary i (hg_cols (hp_geometry h)) (hg_width_px (hp_geometry h))) = Some e"
    "Option.bind (checked_sub (hp_x h) 1) (\<lambda>p. checked_sub p s) = Some v" "checked_sub e s = Some w" "v < w"
    "checked_add (scale v w width_px) 1 = Some px" "1 \<le> unat px" "unat px \<le> unat width_px"
    by (rule axis_position [OF c assms(2,3,6,8)])
  obtain s' e' v' w' py where y: "boundary (rect_y inner) (hg_rows (hp_geometry h)) (hg_height_px (hp_geometry h)) = Some s'"
    "Option.bind (checked_add (rect_y inner) (rect_height inner)) (\<lambda>i. boundary i (hg_rows (hp_geometry h)) (hg_height_px (hp_geometry h))) = Some e'"
    "Option.bind (checked_sub (hp_y h) 1) (\<lambda>p. checked_sub p s') = Some v'" "checked_sub e' s' = Some w'" "v' < w'"
    "checked_add (scale v' w' height_px) 1 = Some py" "1 \<le> unat py" "unat py \<le> unat height_px"
    by (rule axis_position [OF r assms(4,5,7,9)])
  have "pane_position h inner width_px height_px = Some (PosPixels px py)"
    unfolding pane_position_def column_boundary_def row_boundary_def x(1-4) y(1-4) Option.bind.bind_lunit
    using x(5,6) y(5,6) assms(8,9) by auto
  then show ?thesis using x(7,8) y(7,8) by blast
qed

section \<open>Mouse reports read back\<close>

text \<open>
  The mouse encoders of \<open>src/src/input/encode.rs\<close> against the report parsers of
  \<open>src/src/raw_input.rs\<close>, and the report rewritten to cell coordinates by
  \<open>src/src/input/mouse.rs\<close>.
\<close>

subsection \<open>The button byte\<close>

definition cb_modifiers :: "key_modifiers \<Rightarrow> nat" where
  "cb_modifiers m = (if km_shift m then 4 else 0) + (if km_alt m then 8 else 0) + (if km_control m then 16 else 0)"

lemma cb_modifiers_le: "cb_modifiers m \<le> 28"
  by (simp add: cb_modifiers_def)

lemma encode_mouse_cb_eq:
  "encode_mouse_cb base release column row m EncSgr
     = Some (csi @ ''<'' @ decimal (base + cb_modifiers m) @ '';'' @ decimal (column + 1) @ '';''
             @ decimal (row + 1) @ [if release then CHR ''m'' else CHR ''M''])"
  "encode_mouse_cb base release column row m EncDefault
     = Option.bind (u8_byte ((if release then 3 else base) + cb_modifiers m + 32)) (\<lambda>c.
       Option.bind (u8_byte (column + 33)) (\<lambda>x. Option.bind (u8_byte (row + 33)) (\<lambda>y.
         Some (csi @ ''M'' @ c @ x @ y))))"
  by (auto simp: encode_mouse_cb_def cb_modifiers_def Let_def add_ac)

definition plain_cbs :: "(nat \<times> mouse_event_kind) list" where
  "plain_cbs = [(0, MeDown MbLeft), (1, MeDown MbMiddle), (2, MeDown MbRight), (32, MeDrag MbLeft), (33, MeDrag MbMiddle),
      (34, MeDrag MbRight), (3, MeUp MbLeft), (64, MeScrollUp), (65, MeScrollDown), (66, MeScrollLeft), (67, MeScrollRight)]"

definition plain_cb :: "nat \<Rightarrow> mouse_event_kind \<Rightarrow> bool" where
  "plain_cb base kind \<longleftrightarrow> (base, kind) \<in> set plain_cbs"

lemma plain_cbs_parsed:
  "list_all (\<lambda>(base, kind). list_all (\<lambda>m. parse_mouse_cb (base + cb_modifiers m) = Some (kind, m)) xterm_mods_list) plain_cbs"
  by (simp add: plain_cbs_def xterm_mods_list_def cb_modifiers_def parse_mouse_cb_def mouse_kind_def mods_empty_def
      drop_bit_eq_div flip: numeral_2_eq_2 numeral_3_eq_3)

lemma mouse_cb_parsed: "plain_cb base kind \<Longrightarrow> parse_mouse_cb (base + cb_modifiers m) = Some (kind, xterm_mods m)"
proof -
  assume "plain_cb base kind"
  moreover have "cb_modifiers m = cb_modifiers (xterm_mods m)" by (simp add: cb_modifiers_def xterm_mods_def)
  ultimately show ?thesis
    using plain_cbs_parsed xterm_mods_listed [of m] by (force simp: plain_cb_def list_all_iff)
qed

lemma plain_cb_small: "plain_cb base kind \<Longrightarrow> base + cb_modifiers m < 224"
  using cb_modifiers_le [of m] by (auto simp: plain_cb_def plain_cbs_def)

subsection \<open>The SGR encoding\<close>

lemma split_three:
  assumes "CHR '';'' \<notin> set a" "CHR '';'' \<notin> set b" "CHR '';'' \<notin> set c"
  shows "split_on (\<lambda>c. c = CHR '';'') (a @ CHR '';'' # b @ CHR '';'' # c) = [a, b, c]"
proof -
  have "\<forall>x \<in> set a. x \<noteq> CHR '';''" "\<forall>x \<in> set b. x \<noteq> CHR '';''" "\<forall>x \<in> set c. x \<noteq> CHR '';''"
    using assms by metis+
  then show ?thesis by (simp add: split_on_clean split_on_append)
qed

lemma parse_coordinate_decimal: "n < 65535 \<Longrightarrow> parse_coordinate (decimal (n + 1)) = Some n"
  by (simp add: parse_coordinate_def nat_checked_sub_def)

lemma parse_sgr_report:
  assumes "CHR '';'' \<notin> set buttons" "column < 65535" "row < 65535" "f \<in> {CHR ''M'', CHR ''m''}"
  shows "parse_sgr_mouse (csi @ ''<'' @ buttons @ '';'' @ decimal (column + 1) @ '';'' @ decimal (row + 1) @ [f])
    = Option.bind (parse_unsigned 256 buttons) (\<lambda>cb. map_option (\<lambda>(kind, mods).
        \<lparr>me_kind = (if f = CHR ''m'' then (case kind of MeDown b \<Rightarrow> MeUp b | other \<Rightarrow> other) else kind),
         me_column = column, me_row = row, me_modifiers = mods\<rparr>) (parse_mouse_cb cb))"
proof -
  let ?body = "buttons @ CHR '';'' # decimal (column + 1) @ CHR '';'' # decimal (row + 1)"
  have eq: "csi @ ''<'' @ buttons @ '';'' @ decimal (column + 1) @ '';'' @ decimal (row + 1) @ [f]
      = (csi @ ''<'') @ (?body @ [f])" by simp
  have parts: "split_on (\<lambda>c. c = CHR '';'') ?body = [buttons, decimal (column + 1), decimal (row + 1)]"
    by (rule split_three) (simp_all add: assms(1))
  have "\<not> (?body @ [f] = [] \<or> last (?body @ [f]) \<notin> {CHR ''M'', CHR ''m''})"
    "last (?body @ [f]) = f" "butlast (?body @ [f]) = ?body"
    using assms(4) by (simp_all only: last_snoc butlast_snoc append_is_Nil_conv) simp
  then show ?thesis
    unfolding eq parse_sgr_mouse_def strip_prefix_append Option.bind.bind_lunit Let_def
    by (simp only: parts if_False nth_field_def)
      (simp add: parse_coordinate_decimal [OF assms(2), simplified] parse_coordinate_decimal [OF assms(3), simplified])
qed

lemma button_cases:
  assumes "encode_mouse_button kind column row m enc = Some bytes"
  obtains base release where "encode_mouse_cb base release column row m enc = Some bytes"
    "if release then \<exists>b. kind = MeUp b \<and> plain_cb base (MeDown b) else plain_cb base kind"
    "release \<longleftrightarrow> (\<exists>b. kind = MeUp b)"
  using assms
proof (cases kind)
  case (MeDown b)
  then show thesis using assms that [of "mouse_button_code b" False]
    by (cases b) (simp_all add: encode_mouse_button_def mouse_button_code_def plain_cb_def plain_cbs_def)
next
  case (MeUp b)
  then show thesis using assms that [of "mouse_button_code b" True]
    by (cases b) (simp_all add: encode_mouse_button_def mouse_button_code_def plain_cb_def plain_cbs_def)
next
  case (MeDrag b)
  then show thesis using assms that [of "32 + mouse_button_code b" False]
    by (cases b) (simp_all add: encode_mouse_button_def mouse_button_code_def plain_cb_def plain_cbs_def)
qed (simp_all add: encode_mouse_button_def)

lemma scroll_cases:
  assumes "encode_mouse_scroll kind column row m enc = Some bytes"
  obtains base where "encode_mouse_cb base False column row m enc = Some bytes" "plain_cb base kind"
  using assms
  by (cases kind) (auto simp: encode_mouse_scroll_def plain_cb_def plain_cbs_def)

lemma sgr_plain:
  assumes "plain_cb base kind" "column < 65535" "row < 65535"
  shows "parse_sgr_mouse (csi @ ''<'' @ decimal (base + cb_modifiers m) @ '';'' @ decimal (column + 1) @ '';''
           @ decimal (row + 1) @ [if release then CHR ''m'' else CHR ''M''])
    = Some \<lparr>me_kind = (if release then (case kind of MeDown b \<Rightarrow> MeUp b | other \<Rightarrow> other) else kind),
         me_column = column, me_row = row, me_modifiers = xterm_mods m\<rparr>"
  using parse_sgr_report [OF _ assms(2,3), of "decimal (base + cb_modifiers m)" "if release then CHR ''m'' else CHR ''M''"]
    mouse_cb_parsed [OF assms(1), of m] plain_cb_small [OF assms(1), of m]
  by auto

lemma sgr_button_parsed:
  assumes "encode_mouse_button kind column row m EncSgr = Some bytes" "column < 65535" "row < 65535"
  shows "parse_sgr_mouse bytes = Some \<lparr>me_kind = kind, me_column = column, me_row = row, me_modifiers = xterm_mods m\<rparr>"
proof -
  obtain base release where b: "encode_mouse_cb base release column row m EncSgr = Some bytes"
    "if release then \<exists>b. kind = MeUp b \<and> plain_cb base (MeDown b) else plain_cb base kind"
    by (rule button_cases [OF assms(1)])
  show ?thesis
  proof (cases release)
    case True
    then obtain b' where k: "kind = MeUp b'" "plain_cb base (MeDown b')" using b(2) by auto
    show ?thesis using b(1) True k(1) sgr_plain [OF k(2) assms(2,3), of m True] by (simp add: encode_mouse_cb_eq)
  next
    case False
    then have k: "plain_cb base kind" using b(2) by simp
    show ?thesis using b(1) False sgr_plain [OF k assms(2,3), of m False] by (simp add: encode_mouse_cb_eq)
  qed
qed

lemma sgr_scroll_parsed:
  assumes "encode_mouse_scroll kind column row m EncSgr = Some bytes" "column < 65535" "row < 65535"
  shows "parse_sgr_mouse bytes = Some \<lparr>me_kind = kind, me_column = column, me_row = row, me_modifiers = xterm_mods m\<rparr>"
proof -
  obtain base where b: "encode_mouse_cb base False column row m EncSgr = Some bytes" "plain_cb base kind"
    by (rule scroll_cases [OF assms(1)])
  then show ?thesis using sgr_plain [OF b(2) assms(2,3), of m False] by (simp add: encode_mouse_cb_eq)
qed

subsection \<open>The default encoding\<close>

lemma default_plain:
  assumes "plain_cb (if release then 3 else base) kind"
  shows "encode_mouse_cb base release column row m EncDefault = Some bytes \<Longrightarrow> column \<le> 222 \<and> row \<le> 222 \<and>
    parse_default_mouse bytes = Some \<lparr>me_kind = kind, me_column = column, me_row = row, me_modifiers = xterm_mods m\<rparr>"
    and "column \<le> 222 \<Longrightarrow> row \<le> 222 \<Longrightarrow> \<exists>bytes. encode_mouse_cb base release column row m EncDefault = Some bytes"
  using mouse_cb_parsed [OF assms, of m] plain_cb_small [OF assms, of m]
  by (auto simp: encode_mouse_cb_eq u8_byte_def parse_default_mouse_def nat_checked_sub_def bind_eq_Some_conv
      split: if_splits)

subsection \<open>The report at a cell\<close>

lemma split_on_first: "split_on p s = (if \<exists>x \<in> set s. p x then takeWhile (\<lambda>x. \<not> p x) s
    # split_on p (tl (dropWhile (\<lambda>x. \<not> p x) s)) else [s])"
  by (induction s) simp_all

lemma split_on_not_Nil [simp]: "split_on p s \<noteq> []"
  by (subst split_on_first) simp

lemma first_field_clean: "CHR '';'' \<notin> set (split_on (\<lambda>c. c = CHR '';'') s ! 0)"
  by (subst split_on_first) (auto dest: set_takeWhileD)

lemma report_at_cell_parsed:
  assumes "report_at_cell data column row = Some bytes" "column < 65535" "row < 65535"
  shows "parse_sgr_mouse bytes = Some e \<Longrightarrow> me_column e = unat column \<and> me_row e = unat row"
proof -
  obtain f body' where b: "f \<in> {CHR ''M'', CHR ''m''}"
    "bytes = csi @ ''<'' @ (split_on (\<lambda>c. c = CHR '';'') body' ! 0) @ '';'' @ decimal (unat column + 1) @ '';''
      @ decimal (unat row + 1) @ [f]"
    using assms(1) unfolding report_at_cell_def Let_def
    by (auto simp: bind_eq_Some_conv nth_field_def split: if_splits)
  have "unat column < 65535" "unat row < 65535" using assms(2,3) by (simp_all add: word_less_nat_alt)
  then show "parse_sgr_mouse bytes = Some e \<Longrightarrow> me_column e = unat column \<and> me_row e = unat row"
    unfolding b(2) using parse_sgr_report [OF first_field_clean _ _ b(1)] by (auto simp: bind_eq_Some_conv)
qed

end
