(* ===== verification/InputLease.thy ===== *)
theory InputLease
  imports InputKeys
begin

section \<open>Key leases\<close>

text \<open>
  The model of \<open>src/src/app/input/lease.rs\<close> and of the routing of key events in
  \<open>src/src/app/mod.rs\<close> and \<open>src/src/app/input/terminal.rs\<close>: a pressed key holds a lease until it is
  released. A key that went to a terminal is leased to it, so its repeats and its release go to the
  same terminal even if the focus has moved; a key the program consumed itself is leased with what
  its repeats may do. What the rest of the program does with a key is a record of functions over
  a state of any type: a handler may change the leases too (closing a pane releases its keys).
\<close>

subsection \<open>The lease table\<close>

datatype terminal_input_target = InputTarget rstr

datatype terminal_input_context = CtxPane | CtxPopup rstr

type_synonym lease_key = "u64 \<times> key_identity"

definition new_lease_key :: "u64 \<Rightarrow> terminal_key \<Rightarrow> lease_key" where
  "new_lease_key source_id k = (source_id, identity k)"

record forwarded_lease =
  fl_target :: terminal_input_target
  fl_key :: terminal_key

datatype consumed_lease = ReprocessRepeats terminal_input_context | SuppressRepeats

datatype input_lease = Forwarded forwarded_lease | Consumed consumed_lease

datatype repeat_plan =
  PlanForwarded terminal_input_target
  | PlanReprocess terminal_input_context nat bool
  | PlanIgnore

type_synonym lease_table = "(lease_key, input_lease) hmap"

definition insert_forwarded :: "lease_table \<Rightarrow> lease_key \<Rightarrow> terminal_input_target \<Rightarrow> terminal_key \<Rightarrow> lease_table" where
  "insert_forwarded T lk target original = hm_insert T lk (Forwarded \<lparr>fl_target = target, fl_key = original\<rparr>)"

definition insert_consumed :: "lease_table \<Rightarrow> lease_key \<Rightarrow> consumed_lease \<Rightarrow> lease_table" where
  "insert_consumed T lk disposition = hm_insert T lk (Consumed disposition)"

definition normalize_press :: "lease_table \<Rightarrow> lease_key \<Rightarrow> terminal_key \<Rightarrow> lease_table \<times> terminal_key" where
  "normalize_press T lk k =
     (if tk_kind k \<noteq> KPress \<or> tk_generated_text k \<noteq> None then (T, k)
      else if has_physical_identity k \<and> hm_contains T lk then (T, with_kind k KRepeat)
      else (hm_remove T lk, k))"

definition complete_press ::
  "lease_table \<Rightarrow> lease_key \<Rightarrow> terminal_key \<Rightarrow> terminal_input_context option \<Rightarrow> terminal_input_context option
     \<Rightarrow> terminal_input_target option \<Rightarrow> lease_table \<times> repeat_plan" where
  "complete_press T lk k initial resulting target =
     (if tk_generated_text k \<noteq> None then (T, PlanIgnore)
      else case target of
        Some t \<Rightarrow> (insert_forwarded T lk t k, PlanIgnore)
      | None \<Rightarrow>
          (let T1 = (if hm_contains T lk then T
                else insert_consumed T lk (case (initial, resulting) of
                    (Some i, Some r) \<Rightarrow> if i = r then ReprocessRepeats i else SuppressRepeats
                  | _ \<Rightarrow> SuppressRepeats))
           in (T1, case hm_get T1 lk of
                Some (Consumed (ReprocessRepeats context)) \<Rightarrow>
                  if 1 < tk_repeat_count k then PlanReprocess context (tk_repeat_count k - 1) True else PlanIgnore
              | _ \<Rightarrow> PlanIgnore)))"

definition plan_repeat ::
  "lease_table \<Rightarrow> lease_key \<Rightarrow> terminal_key \<Rightarrow> terminal_input_context option \<Rightarrow> lease_table \<times> repeat_plan" where
  "plan_repeat T lk k current =
     (case hm_get T lk of
        Some (Forwarded l) \<Rightarrow> (T, PlanForwarded (fl_target l))
      | Some (Consumed (ReprocessRepeats context)) \<Rightarrow>
          if current = Some context then (T, PlanReprocess context (tk_repeat_count k) True)
          else (insert_consumed T lk SuppressRepeats, PlanIgnore)
      | Some (Consumed SuppressRepeats) \<Rightarrow> (T, PlanIgnore)
      | None \<Rightarrow> (T, case current of
            Some context \<Rightarrow> PlanReprocess context (tk_repeat_count k) False
          | None \<Rightarrow> PlanIgnore))"

definition reprocess_allowed ::
  "lease_table \<Rightarrow> lease_key \<Rightarrow> terminal_input_context \<Rightarrow> terminal_input_context option \<Rightarrow> bool \<Rightarrow> lease_table \<times> bool" where
  "reprocess_allowed T lk expected current tracked =
     (let allowed = (current = Some expected)
      in (if tracked \<and> \<not> allowed then insert_consumed T lk SuppressRepeats else T, allowed))"

definition remove_forwarded :: "lease_table \<Rightarrow> lease_key \<Rightarrow> lease_table \<times> forwarded_lease option" where
  "remove_forwarded T lk =
     (hm_remove T lk, case hm_get T lk of Some (Forwarded l) \<Rightarrow> Some l | _ \<Rightarrow> None)"

fun remove_keys :: "lease_table \<Rightarrow> lease_key list \<Rightarrow> lease_table \<times> forwarded_lease list" where
  "remove_keys T [] = (T, [])"
| "remove_keys T (lk # lks) =
     (let (T1, removed) = remove_forwarded T lk;
          (T2, rest) = remove_keys T1 lks
      in (T2, (case removed of Some l \<Rightarrow> [l] | None \<Rightarrow> []) @ rest))"

definition remove_source :: "lease_table \<Rightarrow> u64 \<Rightarrow> lease_table \<times> forwarded_lease list" where
  "remove_source T source_id = remove_keys T (filter (\<lambda>lk. fst lk = source_id) (map fst T))"

definition leased_to :: "terminal_input_target \<Rightarrow> input_lease \<Rightarrow> bool" where
  "leased_to target l = (case l of Forwarded f \<Rightarrow> fl_target f = target | Consumed _ \<Rightarrow> False)"

definition remove_target :: "lease_table \<Rightarrow> terminal_input_target \<Rightarrow> lease_table \<times> forwarded_lease list" where
  "remove_target T target = remove_keys T (map fst (filter (\<lambda>(lk, l). leased_to target l) T))"

subsection \<open>Routing key events\<close>

record 'w key_app =
  ka_leases :: lease_table
  ka_world :: 'w

record 'w key_host =
  kh_context :: "'w \<Rightarrow> terminal_input_context option"
  kh_terminal_key :: "u64 \<Rightarrow> terminal_key \<Rightarrow> 'w key_app \<Rightarrow> 'w key_app \<times> terminal_input_target option"
  kh_other_key :: "terminal_key \<Rightarrow> 'w key_app \<Rightarrow> 'w key_app"
  kh_forward :: "terminal_input_target \<Rightarrow> terminal_key \<Rightarrow> 'w \<Rightarrow> 'w \<times> bool"

definition forward_key :: "'w key_host \<Rightarrow> terminal_input_target \<Rightarrow> terminal_key \<Rightarrow> 'w key_app \<Rightarrow> 'w key_app \<times> bool" where
  "forward_key H target k a =
     (let (w, sent) = kh_forward H target k (ka_world a) in (a\<lparr>ka_world := w\<rparr>, sent))"

definition drop_lease :: "lease_key \<Rightarrow> 'w key_app \<Rightarrow> 'w key_app" where
  "drop_lease lk a = a\<lparr>ka_leases := hm_remove (ka_leases a) lk\<rparr>"

text \<open>The loop of a reprocessed key, with the target it was forwarded to so far.\<close>

fun reprocess_loop ::
  "'w key_host \<Rightarrow> u64 \<Rightarrow> lease_key \<Rightarrow> terminal_key \<Rightarrow> terminal_input_context \<Rightarrow> bool \<Rightarrow> nat
     \<Rightarrow> terminal_input_target option \<Rightarrow> 'w key_app \<Rightarrow> 'w key_app" where
  "reprocess_loop H source_id lk k context tracked 0 forwarded a = a"
| "reprocess_loop H source_id lk k context tracked (Suc n) forwarded a =
     (case forwarded of
        Some target \<Rightarrow>
          (let (a1, sent) = forward_key H target k a
           in if sent then reprocess_loop H source_id lk k context tracked n forwarded a1 else drop_lease lk a1)
      | None \<Rightarrow>
          (let (T, allowed) = reprocess_allowed (ka_leases a) lk context (kh_context H (ka_world a)) tracked;
               a1 = a\<lparr>ka_leases := T\<rparr>
           in if \<not> allowed then a1
              else
                let (a2, sent_to) = kh_terminal_key H source_id k a1
                in case (if tracked then sent_to else None) of
                     Some target \<Rightarrow>
                       reprocess_loop H source_id lk k context tracked n (Some target)
                         (a2\<lparr>ka_leases := insert_forwarded (ka_leases a2) lk target k\<rparr>)
                   | None \<Rightarrow> reprocess_loop H source_id lk k context tracked n None a2))"

definition execute_repeat_plan ::
  "'w key_host \<Rightarrow> u64 \<Rightarrow> lease_key \<Rightarrow> terminal_key \<Rightarrow> repeat_plan \<Rightarrow> 'w key_app \<Rightarrow> 'w key_app" where
  "execute_repeat_plan H source_id lk k plan a = (case plan of
       PlanForwarded target \<Rightarrow>
         (let (a1, sent) = forward_key H target k a in if sent then a1 else drop_lease lk a1)
     | PlanReprocess context repetitions tracked \<Rightarrow>
         reprocess_loop H source_id lk (with_repeat_count (with_kind k KRepeat) 1) context tracked repetitions None a
     | PlanIgnore \<Rightarrow> a)"

definition route_key :: "'w key_host \<Rightarrow> u64 \<Rightarrow> terminal_key \<Rightarrow> 'w key_app \<Rightarrow> 'w key_app" where
  "route_key H source_id key0 a =
     (let lk = new_lease_key source_id key0;
          (T, k) = normalize_press (ka_leases a) lk key0;
          a1 = a\<lparr>ka_leases := T\<rparr>
      in case tk_kind k of
           KPress \<Rightarrow>
             (let initial = kh_context H (ka_world a1);
                  (a2, target) = (if initial \<noteq> None then kh_terminal_key H source_id k a1 else (kh_other_key H k a1, None));
                  (T2, plan) = complete_press (ka_leases a2) lk k initial (kh_context H (ka_world a2)) target
              in execute_repeat_plan H source_id lk k plan (a2\<lparr>ka_leases := T2\<rparr>))
         | KRepeat \<Rightarrow>
             (let (T2, plan) = plan_repeat (ka_leases a1) lk k (kh_context H (ka_world a1))
              in execute_repeat_plan H source_id lk k plan (a1\<lparr>ka_leases := T2\<rparr>))
         | KRelease \<Rightarrow>
             (let (T2, removed) = remove_forwarded (ka_leases a1) lk;
                  a2 = a1\<lparr>ka_leases := T2\<rparr>
              in case removed of Some l \<Rightarrow> fst (forward_key H (fl_target l) k a2) | None \<Rightarrow> a2))"

definition release_all :: "'w key_host \<Rightarrow> forwarded_lease list \<Rightarrow> 'w key_app \<Rightarrow> 'w key_app" where
  "release_all H pressed a = fold (\<lambda>l a. fst (forward_key H (fl_target l) (with_kind (fl_key l) KRelease) a)) pressed a"

definition release_input_source :: "'w key_host \<Rightarrow> u64 \<Rightarrow> 'w key_app \<Rightarrow> 'w key_app" where
  "release_input_source H source_id a =
     (let (T, pressed) = remove_source (ka_leases a) source_id in release_all H pressed (a\<lparr>ka_leases := T\<rparr>))"

definition release_input_target :: "'w key_host \<Rightarrow> terminal_input_target \<Rightarrow> 'w key_app \<Rightarrow> 'w key_app" where
  "release_input_target H target a =
     (let (T, pressed) = remove_target (ka_leases a) target in release_all H pressed (a\<lparr>ka_leases := T\<rparr>))"

subsection \<open>The table is well formed\<close>

text \<open>One lease per key of a source, and a forwarded key is stored under its own identity.\<close>

definition lease_ok :: "lease_key \<Rightarrow> input_lease \<Rightarrow> bool" where
  "lease_ok lk l = (case l of Forwarded f \<Rightarrow> identity (fl_key f) = snd lk \<and> key_ok (fl_key f)
       \<and> tk_kind (fl_key f) \<noteq> KRelease | Consumed _ \<Rightarrow> True)"

definition leases_ok :: "lease_table \<Rightarrow> bool" where
  "leases_ok T \<longleftrightarrow> hm_ok T \<and> (\<forall>lk l. hm_get T lk = Some l \<longrightarrow> lease_ok lk l)"

lemma leases_ok_insert: "leases_ok T \<Longrightarrow> lease_ok lk l \<Longrightarrow> leases_ok (hm_insert T lk l)"
  by (auto simp: leases_ok_def)

lemma leases_ok_remove: "leases_ok T \<Longrightarrow> leases_ok (hm_remove T lk)"
  by (auto simp: leases_ok_def split: if_splits)

lemma identity_kind [simp]: "identity (with_kind k kind) = identity k"
  by (cases "tk_source k") (simp_all add: identity_def with_kind_def split: option.split)

lemma identity_count [simp]: "identity (with_repeat_count k n) = identity k"
  by (cases "tk_source k") (simp_all add: identity_def with_repeat_count_def split: option.split)

lemma kind_simps [simp]: "tk_kind (with_kind k kind) = kind" "tk_kind (with_repeat_count k n) = tk_kind k"
  by (simp_all add: with_kind_def with_repeat_count_def)

lemma leases_ok_consumed: "leases_ok T \<Longrightarrow> leases_ok (insert_consumed T lk c)"
  unfolding insert_consumed_def by (rule leases_ok_insert) (simp_all add: lease_ok_def)

lemma leases_ok_forwarded:
  "leases_ok T \<Longrightarrow> identity k = snd lk \<Longrightarrow> key_ok k \<Longrightarrow> tk_kind k \<noteq> KRelease \<Longrightarrow> leases_ok (insert_forwarded T lk t k)"
  unfolding insert_forwarded_def by (rule leases_ok_insert) (simp_all add: lease_ok_def)

lemma lease_key_kind [simp]: "new_lease_key s (with_kind k kind) = new_lease_key s k"
  by (simp add: new_lease_key_def)

lemma remove_keys_get:
  "hm_ok T \<Longrightarrow> hm_ok (fst (remove_keys T lks)) \<and> hm_get (fst (remove_keys T lks)) lk = (if lk \<in> set lks then None else hm_get T lk)"
  by (induction lks arbitrary: T) (auto simp: remove_forwarded_def case_prod_unfold Let_def)

definition forwarded_of :: "input_lease option \<Rightarrow> forwarded_lease list" where
  "forwarded_of l = (case l of Some (Forwarded f) \<Rightarrow> [f] | _ \<Rightarrow> [])"

lemma remove_keys_leases:
  "distinct lks \<Longrightarrow> snd (remove_keys T lks) = concat (map (\<lambda>lk. forwarded_of (hm_get T lk)) lks)"
proof (induction lks arbitrary: T)
  case (Cons a lks)
  have eq: "map (\<lambda>lk. forwarded_of (hm_get (hm_remove T a) lk)) lks = map (\<lambda>lk. forwarded_of (hm_get T lk)) lks"
    using Cons.prems by (intro map_cong refl) auto
  have "snd (remove_keys T (a # lks)) = forwarded_of (hm_get T a) @ snd (remove_keys (hm_remove T a) lks)"
    by (simp add: remove_forwarded_def case_prod_unfold Let_def forwarded_of_def split: option.split input_lease.split)
  then show ?case using Cons.IH [of "hm_remove T a"] Cons.prems
    by (simp only: eq) simp
qed simp

lemma leases_in_order:
  assumes "hm_ok T"
  shows "concat (map (\<lambda>lk. forwarded_of (hm_get T lk)) (map fst (filter p T)))
    = concat (map (\<lambda>(lk, l). forwarded_of (Some l)) (filter p T))"
proof -
  have "map (\<lambda>lk. forwarded_of (hm_get T lk)) (map fst (filter p T)) = map (\<lambda>(lk, l). forwarded_of (Some l)) (filter p T)"
    unfolding map_map by (rule map_cong [OF refl]) (use hm_get_set [OF assms] in \<open>auto\<close>)
  then show ?thesis by (simp only:)
qed

text \<open>The leases a source or a terminal holds, in the order of the table.\<close>

definition held_leases :: "(lease_key \<times> input_lease \<Rightarrow> bool) \<Rightarrow> lease_table \<Rightarrow> forwarded_lease list" where
  "held_leases p T = concat (map (\<lambda>(lk, l). forwarded_of (Some l)) (filter p T))"

lemma distinct_filtered_keys: "hm_ok T \<Longrightarrow> distinct (map fst (filter p T))"
  by (rule hm_ok_retain)

lemma remove_source_exact:
  assumes "hm_ok T"
  shows "snd (remove_source T s) = held_leases (\<lambda>(lk, l). fst lk = s) T"
    and "hm_ok (fst (remove_source T s))"
    and "hm_get (fst (remove_source T s)) lk = (if fst lk = s then None else hm_get T lk)"
proof -
  have keys: "filter (\<lambda>lk. fst lk = s) (map fst T) = map fst (filter (\<lambda>(lk, l). fst lk = s) T)"
    by (simp add: filter_map comp_def case_prod_unfold)
  show "snd (remove_source T s) = held_leases (\<lambda>(lk, l). fst lk = s) T"
    unfolding remove_source_def keys held_leases_def
    by (simp only: remove_keys_leases [OF distinct_filtered_keys [OF assms]] leases_in_order [OF assms])
  show "hm_ok (fst (remove_source T s))"
    unfolding remove_source_def using remove_keys_get [OF assms] by blast
  have "hm_get T lk = None" if "lk \<notin> fst ` set T"
    using that by (simp add: map_of_eq_None_iff)
  then show "hm_get (fst (remove_source T s)) lk = (if fst lk = s then None else hm_get T lk)"
    unfolding remove_source_def using remove_keys_get [OF assms] by auto
qed

lemma remove_target_exact:
  assumes "hm_ok T"
  shows "snd (remove_target T t) = held_leases (\<lambda>(lk, l). leased_to t l) T"
    and "hm_ok (fst (remove_target T t))"
    and "hm_get (fst (remove_target T t)) lk
      = (case hm_get T lk of Some l \<Rightarrow> if leased_to t l then None else Some l | None \<Rightarrow> None)"
proof -
  show "snd (remove_target T t) = held_leases (\<lambda>(lk, l). leased_to t l) T"
    unfolding remove_target_def held_leases_def
    by (simp only: remove_keys_leases [OF distinct_filtered_keys [OF assms]] leases_in_order [OF assms])
  show "hm_ok (fst (remove_target T t))"
    unfolding remove_target_def using remove_keys_get [OF assms] by blast
  have "lk \<in> set (map fst (filter (\<lambda>(lk, l). leased_to t l) T)) \<longleftrightarrow> (\<exists>l. (lk, l) \<in> set T \<and> leased_to t l)"
    by force
  then have "lk \<in> set (map fst (filter (\<lambda>(lk, l). leased_to t l) T)) \<longleftrightarrow> (\<exists>l. hm_get T lk = Some l \<and> leased_to t l)"
    unfolding hm_get_set [OF assms] .
  then show "hm_get (fst (remove_target T t)) lk
      = (case hm_get T lk of Some l \<Rightarrow> if leased_to t l then None else Some l | None \<Rightarrow> None)"
    unfolding remove_target_def using remove_keys_get [OF assms] by (auto split: option.split)
qed

subsection \<open>Every operation keeps the table well formed\<close>

lemma leases_ok_remove_source: "leases_ok T \<Longrightarrow> leases_ok (fst (remove_source T s))"
  using remove_source_exact(2,3) [of T s] unfolding leases_ok_def by auto

lemma leases_ok_remove_target: "leases_ok T \<Longrightarrow> leases_ok (fst (remove_target T t))"
  using remove_target_exact(2,3) [of T t] unfolding leases_ok_def by (auto split: option.splits if_splits)

lemma leases_ok_normalize: "leases_ok T \<Longrightarrow> leases_ok (fst (normalize_press T lk k))"
  by (simp add: normalize_press_def leases_ok_remove)

lemma normalize_press_key:
  assumes "normalize_press T lk k0 = (T1, k)" "key_ok k0"
  shows "key_ok k \<and> identity k = identity k0 \<and> tk_generated_text k = tk_generated_text k0
    \<and> (k = k0 \<or> k = with_kind k0 KRepeat \<and> tk_kind k0 = KPress)"
  using assms key_ok_with_kind [of k0 KRepeat] identity_kind [of k0 KRepeat] unfolding normalize_press_def
  by (auto simp: with_kind_def split: if_splits)

lemma leases_ok_complete:
  assumes "leases_ok T" "identity k = snd lk" "key_ok k" "tk_kind k \<noteq> KRelease"
  shows "leases_ok (fst (complete_press T lk k i r t))"
  using leases_ok_forwarded [OF assms] leases_ok_consumed [OF assms(1)] assms(1)
  by (auto simp: complete_press_def Let_def split: option.splits)

lemma leases_ok_plan: "leases_ok T \<Longrightarrow> leases_ok (fst (plan_repeat T lk k c))"
  by (auto simp: plan_repeat_def leases_ok_consumed split: option.splits input_lease.splits consumed_lease.splits)

lemma leases_ok_allowed: "leases_ok T \<Longrightarrow> leases_ok (fst (reprocess_allowed T lk e c tr))"
  by (simp add: reprocess_allowed_def Let_def leases_ok_consumed)

text \<open>What the handlers promise.\<close>

definition host_keeps_leases :: "'w key_host \<Rightarrow> bool" where
  "host_keeps_leases H \<longleftrightarrow> (\<forall>s k a. leases_ok (ka_leases a)
      \<longrightarrow> leases_ok (ka_leases (fst (kh_terminal_key H s k a))) \<and> leases_ok (ka_leases (kh_other_key H k a)))"

lemma forward_key_leases [simp]: "ka_leases (fst (forward_key H t k a)) = ka_leases a"
  by (simp add: forward_key_def case_prod_unfold Let_def)

lemma leases_ok_reprocess:
  assumes "host_keeps_leases H" "identity k = snd lk" "key_ok k" "tk_kind k \<noteq> KRelease" "leases_ok (ka_leases a)"
  shows "leases_ok (ka_leases (reprocess_loop H s lk k context tracked n forwarded a))"
  using assms(5)
proof (induction n arbitrary: forwarded a)
  case (Suc n)
  show ?case
  proof (cases forwarded)
    case None
    define a1 where "a1 = a\<lparr>ka_leases := fst (reprocess_allowed (ka_leases a) lk context (kh_context H (ka_world a)) tracked)\<rparr>"
    have 1: "leases_ok (ka_leases a1)"
      unfolding a1_def using leases_ok_allowed [OF Suc.prems] by simp
    define a2 where "a2 = fst (kh_terminal_key H s k a1)"
    have 2: "leases_ok (ka_leases a2)"
      unfolding a2_def using assms(1) 1 unfolding host_keeps_leases_def by blast
    have 3: "leases_ok (insert_forwarded (ka_leases a2) lk t k)" for t
      by (rule leases_ok_forwarded [OF 2 assms(2,3,4)])
    show ?thesis
      using 1 2 3 Suc.IH None
      by (auto simp: Let_def case_prod_unfold a1_def [symmetric] a2_def [symmetric] split: option.split)
  next
    case (Some t)
    then show ?thesis using Suc.IH [of "fst (forward_key H t k a)"] Suc.prems
      by (simp add: case_prod_unfold Let_def drop_lease_def leases_ok_remove)
  qed
qed simp

lemma leases_ok_execute:
  assumes "host_keeps_leases H" "identity k = snd lk" "key_ok k" "leases_ok (ka_leases a)"
  shows "leases_ok (ka_leases (execute_repeat_plan H s lk k plan a))"
proof (cases plan)
  case (PlanForwarded t)
  then show ?thesis using assms(4)
    by (simp add: execute_repeat_plan_def case_prod_unfold Let_def drop_lease_def leases_ok_remove)
next
  case (PlanReprocess c n tr)
  have "leases_ok (ka_leases (reprocess_loop H s lk (with_repeat_count (with_kind k KRepeat) 1) c tr n None a))"
    by (rule leases_ok_reprocess) (use assms in \<open>simp_all add: key_ok_with_repeat_count key_ok_with_kind\<close>)
  then show ?thesis using PlanReprocess by (simp add: execute_repeat_plan_def)
qed (simp add: execute_repeat_plan_def assms)

lemma route_key_keeps:
  assumes H: "host_keeps_leases H" and k0: "key_ok k0" and ok: "leases_ok (ka_leases a)"
  shows "leases_ok (ka_leases (route_key H s k0 a))"
proof -
  define lk where "lk = new_lease_key s k0"
  obtain T k where n: "normalize_press (ka_leases a) lk k0 = (T, k)" by fastforce
  define a1 where "a1 = a\<lparr>ka_leases := T\<rparr>"
  have a1: "leases_ok (ka_leases a1)" using leases_ok_normalize [OF ok, of lk k0] n by (simp add: a1_def)
  have k: "key_ok k" "identity k = snd lk"
    using normalize_press_key [OF n k0] by (simp_all add: lk_def new_lease_key_def)
  show ?thesis
  proof (cases "tk_kind k")
    case KPress
    define init where "init = kh_context H (ka_world a1)"
    obtain a2 t where h: "(if init \<noteq> None then kh_terminal_key H s k a1 else (kh_other_key H k a1, None)) = (a2, t)"
      by fastforce
    have a2: "leases_ok (ka_leases a2)"
      using h H a1 unfolding host_keeps_leases_def by (metis fst_conv)
    obtain T2 plan where c: "complete_press (ka_leases a2) lk k init (kh_context H (ka_world a2)) t = (T2, plan)"
      by fastforce
    have "leases_ok T2" using leases_ok_complete [OF a2 k(2,1), of init "kh_context H (ka_world a2)" t] KPress
      unfolding c by simp
    then have "leases_ok (ka_leases (execute_repeat_plan H s lk k plan (a2\<lparr>ka_leases := T2\<rparr>)))"
      by (intro leases_ok_execute [OF H k(2,1)]) simp
    then show ?thesis
      unfolding route_key_def Let_def lk_def [symmetric] n prod.case a1_def [symmetric] KPress key_event_kind.case
        init_def [symmetric] h c .
  next
    case KRepeat
    obtain T2 plan where c: "plan_repeat (ka_leases a1) lk k (kh_context H (ka_world a1)) = (T2, plan)" by fastforce
    have "leases_ok T2" using leases_ok_plan [OF a1] c by (metis fst_conv)
    then have "leases_ok (ka_leases (execute_repeat_plan H s lk k plan (a1\<lparr>ka_leases := T2\<rparr>)))"
      by (intro leases_ok_execute [OF H k(2,1)]) simp
    then show ?thesis
      unfolding route_key_def Let_def lk_def [symmetric] n prod.case a1_def [symmetric] KRepeat key_event_kind.case c .
  next
    case KRelease
    show ?thesis using a1
      unfolding route_key_def Let_def lk_def [symmetric] n prod.case a1_def [symmetric] KRelease key_event_kind.case
      by (auto simp: remove_forwarded_def leases_ok_remove split: option.split)
  qed
qed

subsection \<open>A held key stays with its terminal\<close>

definition as_repeat :: "terminal_key \<Rightarrow> terminal_key" where
  "as_repeat k = (if tk_kind k = KPress then with_kind k KRepeat else k)"

definition repeats :: "u64 \<Rightarrow> lease_key \<Rightarrow> terminal_key \<Rightarrow> bool" where
  "repeats s lk k \<longleftrightarrow> new_lease_key s k = lk
     \<and> (tk_kind k = KRepeat \<or> tk_kind k = KPress \<and> has_physical_identity k \<and> tk_generated_text k = None)"

lemma normalize_repeat:
  assumes "repeats s lk k" "hm_get T lk \<noteq> None"
  shows "normalize_press T lk k = (T, as_repeat k) \<and> tk_kind (as_repeat k) = KRepeat"
  using assms by (auto simp: repeats_def normalize_press_def as_repeat_def)

lemma route_repeat:
  assumes r: "repeats s lk k" and l: "hm_get (ka_leases a) lk = Some (Forwarded l)"
    and sent: "snd (kh_forward H (fl_target l) (as_repeat k) (ka_world a))"
  shows "route_key H s k a = a\<lparr>ka_world := fst (kh_forward H (fl_target l) (as_repeat k) (ka_world a))\<rparr>"
proof -
  have lk: "new_lease_key s k = lk" using r by (simp add: repeats_def)
  have n: "normalize_press (ka_leases a) lk k = (ka_leases a, as_repeat k)" and kd: "tk_kind (as_repeat k) = KRepeat"
    using normalize_repeat [OF r, of "ka_leases a"] l by simp_all
  have p: "plan_repeat (ka_leases a) lk (as_repeat k) c = (ka_leases a, PlanForwarded (fl_target l))" for c
    using l by (simp add: plan_repeat_def)
  show ?thesis
    using sent by (simp add: route_key_def Let_def lk n kd p execute_repeat_plan_def forward_key_def case_prod_unfold)
qed

lemma route_release:
  assumes "new_lease_key s k = lk" "tk_kind k = KRelease" "hm_get (ka_leases a) lk = Some (Forwarded l)"
  shows "route_key H s k a
    = (drop_lease lk a)\<lparr>ka_world := fst (kh_forward H (fl_target l) k (ka_world a))\<rparr>"
  using assms by (simp add: route_key_def Let_def normalize_press_def remove_forwarded_def forward_key_def
      case_prod_unfold drop_lease_def)

text \<open>Other keys leave a lease alone, as long as what the program does with them does not end it.\<close>

definition host_spares_lease :: "'w key_host \<Rightarrow> lease_key \<Rightarrow> input_lease \<Rightarrow> bool" where
  "host_spares_lease H lk l \<longleftrightarrow> (\<forall>s k a. hm_get (ka_leases a) lk = Some l
      \<longrightarrow> hm_get (ka_leases (fst (kh_terminal_key H s k a))) lk = Some l \<and> hm_get (ka_leases (kh_other_key H k a)) lk = Some l)"

lemma table_spares [simp]:
  assumes "lk' \<noteq> lk"
  shows "hm_get (fst (normalize_press T lk' k)) lk = hm_get T lk"
    "hm_get (fst (complete_press T lk' k i r t)) lk = hm_get T lk"
    "hm_get (fst (plan_repeat T lk' k c)) lk = hm_get T lk"
    "hm_get (fst (reprocess_allowed T lk' e c tr)) lk = hm_get T lk"
    "hm_get (fst (remove_forwarded T lk')) lk = hm_get T lk"
    "hm_get (insert_forwarded T lk' t' k) lk = hm_get T lk"
  using assms by (auto simp: normalize_press_def complete_press_def plan_repeat_def reprocess_allowed_def remove_forwarded_def
      insert_forwarded_def insert_consumed_def Let_def split: option.split input_lease.split consumed_lease.split)

lemma drop_spares [simp]: "lk' \<noteq> lk \<Longrightarrow> hm_get (ka_leases (drop_lease lk' a)) lk = hm_get (ka_leases a) lk"
  by (simp add: drop_lease_def)

lemma reprocess_spares:
  assumes H: "host_spares_lease H lk l" and ne: "lk' \<noteq> lk"
  shows "hm_get (ka_leases a) lk = Some l \<Longrightarrow> hm_get (ka_leases (reprocess_loop H s lk' k context tracked n forwarded a)) lk = Some l"
proof (induction n arbitrary: forwarded a)
  case (Suc n)
  show ?case
  proof (cases forwarded)
    case None
    define a1 where "a1 = a\<lparr>ka_leases := fst (reprocess_allowed (ka_leases a) lk' context (kh_context H (ka_world a)) tracked)\<rparr>"
    have 1: "hm_get (ka_leases a1) lk = Some l" using Suc.prems ne by (simp add: a1_def)
    define a2 where "a2 = fst (kh_terminal_key H s k a1)"
    have 2: "hm_get (ka_leases a2) lk = Some l" unfolding a2_def using H 1 unfolding host_spares_lease_def by blast
    show ?thesis
      using 1 2 Suc.IH None ne
      by (auto simp: Let_def case_prod_unfold a1_def [symmetric] a2_def [symmetric] split: option.split)
  next
    case (Some t)
    then show ?thesis using Suc.IH [of "fst (forward_key H t k a)"] Suc.prems ne
      by (simp add: case_prod_unfold Let_def)
  qed
qed simp

lemma execute_spares:
  assumes H: "host_spares_lease H lk l" and ne: "lk' \<noteq> lk" and l: "hm_get (ka_leases a) lk = Some l"
  shows "hm_get (ka_leases (execute_repeat_plan H s lk' k plan a)) lk = Some l"
proof (cases plan)
  case (PlanReprocess c n tr)
  then show ?thesis using reprocess_spares [OF H ne l] by (simp add: execute_repeat_plan_def)
qed (use ne l in \<open>simp_all add: execute_repeat_plan_def case_prod_unfold Let_def\<close>)

lemma route_spares:
  assumes H: "host_spares_lease H lk l" and ne: "new_lease_key s k0 \<noteq> lk" and l: "hm_get (ka_leases a) lk = Some l"
  shows "hm_get (ka_leases (route_key H s k0 a)) lk = Some l"
proof -
  let ?lk = "new_lease_key s k0"
  obtain T k where n: "normalize_press (ka_leases a) ?lk k0 = (T, k)" by fastforce
  define a1 where "a1 = a\<lparr>ka_leases := T\<rparr>"
  have a1: "hm_get (ka_leases a1) lk = Some l"
    using table_spares(1) [OF ne, of "ka_leases a" k0] l n by (simp add: a1_def)
  note unf = route_key_def Let_def n prod.case a1_def [symmetric]
  show ?thesis
  proof (cases "tk_kind k")
    case KPress
    define init where "init = kh_context H (ka_world a1)"
    obtain a2 t where h: "(if init \<noteq> None then kh_terminal_key H s k a1 else (kh_other_key H k a1, None)) = (a2, t)"
      by fastforce
    have a2: "hm_get (ka_leases a2) lk = Some l"
      using h H a1 unfolding host_spares_lease_def by (metis fst_conv)
    obtain T2 plan where c: "complete_press (ka_leases a2) ?lk k init (kh_context H (ka_world a2)) t = (T2, plan)"
      by fastforce
    have "hm_get T2 lk = Some l" using table_spares(2) [OF ne, of "ka_leases a2" k init "kh_context H (ka_world a2)" t] a2 c by simp
    then have "hm_get (ka_leases (execute_repeat_plan H s ?lk k plan (a2\<lparr>ka_leases := T2\<rparr>))) lk = Some l"
      by (intro execute_spares [OF H ne]) simp
    then show ?thesis unfolding unf KPress key_event_kind.case init_def [symmetric] h c .
  next
    case KRepeat
    obtain T2 plan where c: "plan_repeat (ka_leases a1) ?lk k (kh_context H (ka_world a1)) = (T2, plan)" by fastforce
    have "hm_get T2 lk = Some l" using table_spares(3) [OF ne, of "ka_leases a1" k "kh_context H (ka_world a1)"] a1 c by simp
    then have "hm_get (ka_leases (execute_repeat_plan H s ?lk k plan (a1\<lparr>ka_leases := T2\<rparr>))) lk = Some l"
      by (intro execute_spares [OF H ne]) simp
    then show ?thesis unfolding unf KRepeat key_event_kind.case c .
  next
    case KRelease
    show ?thesis using a1 ne unfolding unf KRelease key_event_kind.case
      by (auto simp: remove_forwarded_def split: option.split)
  qed
qed

text \<open>A pressed key that a terminal took is leased to that terminal.\<close>

lemma route_press:
  assumes k: "tk_kind k = KPress" "tk_generated_text k = None"
    and new: "hm_get (ka_leases a) (new_lease_key s k) = None"
    and ctx: "kh_context H (ka_world a) \<noteq> None"
    and h: "kh_terminal_key H s k (drop_lease (new_lease_key s k) a) = (a2, Some t)"
  shows "route_key H s k a = a2\<lparr>ka_leases := insert_forwarded (ka_leases a2) (new_lease_key s k) t k\<rparr>"
  using assms by (simp add: route_key_def Let_def normalize_press_def drop_lease_def complete_press_def
      execute_repeat_plan_def)

subsection \<open>Releasing a source or a terminal\<close>

lemma release_all_eq:
  "release_all H pressed a = a\<lparr>ka_world :=
     fold (\<lambda>l w. fst (kh_forward H (fl_target l) (with_kind (fl_key l) KRelease) w)) pressed (ka_world a)\<rparr>"
  unfolding release_all_def
  by (induction pressed arbitrary: a) (simp_all add: forward_key_def case_prod_unfold Let_def)

end
