(* ===== verification/InputProps.thy ===== *)
theory InputProps
  imports InputMouse InputLease
begin

section \<open>Properties of the input path\<close>

text \<open>
  What holds between the two ends of the input path: the keys and mouse reports the encoders of
  \<open>src/src/input/encode.rs\<close> write are the ones \<open>parse.rs\<close> and \<open>raw_input.rs\<close> read, host pixels land in
  the pane they belong to (\<open>mouse.rs\<close>), and a held key stays with its terminal
  (\<open>src/src/app/input/lease.rs\<close>).
\<close>

subsection \<open>Keys\<close>

text \<open>Property C31. A key sent under the Kitty protocol with all keys reported is read back: the parser
  finds the key without the Shift of a letter, its modifiers, its phase if phases are reported and
  its alternate codepoint. The associated text (flag 16) is not sent; the key has a Kitty number,
  an alternate codepoint that is another character comes with Shift, and a release is only sent where
  phases are.
\<close>

theorem kitty_reports_roundtrip:
  assumes "flags AND kitty_report_all_keys \<noteq> 0" "flags AND 16 = 0"
    and "kitty_codepoint k flags \<noteq> None" "kitty_sendable k flags"
    and "if tk_kind k = KRelease then flags AND 2 \<noteq> 0 else tk_generated_text k = None"
  shows "parse_terminal_key_sequence (encode_terminal_key k (Kitty flags)) = Some (kitty_view k flags)"
proof -
  obtain bytes where b: "try_encode_csi_u k flags = Some bytes"
    using assms(1,3) by (auto simp: try_encode_csi_u_def Let_def)
  then have "encode_terminal_key k (Kitty flags) = bytes"
    using assms(1,5) by (auto simp: encode_terminal_key_def reports_all_keys_def reports_event_types_def Let_def split: if_splits)
  then show ?thesis using csi_u_parsed [OF b assms(2,4)] by (simp add: parse_terminal_key_sequence_def)
qed

theorem kitty_reports_roundtrip_witness:
  "parse_terminal_key_sequence (encode_terminal_key (new_key KcEnter only_shift) (Kitty 8))
     = Some (kitty_view (new_key KcEnter only_shift) 8)"
  by (rule kitty_reports_roundtrip)
    (simp_all add: kitty_report_all_keys_def kitty_codepoint_def kitty_sendable_def new_key_def)

text \<open>An arrow, Home, End, Insert, Delete, Page or function key sent in its legacy form is
  read back as the same key with its Shift, Alt and Control; xterm has no place for the other
  modifiers.
\<close>

theorem legacy_special_key_roundtrip:
  assumes "tk_code k \<in> set special_keys" "tk_kind k \<noteq> KRelease" "tk_generated_text k = None"
  shows "parse_terminal_key_sequence (encode_terminal_key k Legacy)
    = Some (new_key (tk_code k) (xterm_mods (tk_modifiers k)))"
proof -
  have "encode_text_input k = None"
    using assms(1) by (auto simp: encode_text_input_def text_char_for_key_def special_keys_def)
  then have "encode_terminal_key k Legacy = encode_legacy k"
    using assms(2,3) by (simp add: encode_terminal_key_def reports_all_keys_def)
  then show ?thesis using special_key_parsed [OF assms(1)] by simp
qed

theorem legacy_special_key_roundtrip_witness:
  "parse_terminal_key_sequence (encode_terminal_key (new_key KcPageUp only_shift) Legacy)
    = Some (new_key KcPageUp (xterm_mods only_shift))"
  using legacy_special_key_roundtrip [of "new_key KcPageUp only_shift"]
  by (simp add: special_keys_def new_key_def)

subsection \<open>Mouse\<close>

text \<open>An SGR report of a button or of the wheel, at any cell a terminal can have, is read
  back as the same event at the same cell, a release and a drag included; Super, Hyper and Meta are
  not sent.
\<close>

theorem sgr_mouse_roundtrip:
  assumes "column < 65535" "row < 65535"
    and "encode_mouse_button kind column row m EncSgr = Some bytes \<or> encode_mouse_scroll kind column row m EncSgr = Some bytes"
  shows "parse_sgr_mouse bytes
    = Some \<lparr>me_kind = kind, me_column = column, me_row = row, me_modifiers = xterm_mods m\<rparr>"
  using assms(3) sgr_button_parsed [OF _ assms(1,2)] sgr_scroll_parsed [OF _ assms(1,2)] by blast

theorem sgr_mouse_roundtrip_witness:
  "parse_sgr_mouse (the (encode_mouse_button (MeUp MbLeft) 7 300 only_shift EncSgr))
     = Some \<lparr>me_kind = MeUp MbLeft, me_column = 7, me_row = 300, me_modifiers = xterm_mods only_shift\<rparr>"
proof -
  obtain bytes where "encode_mouse_button (MeUp MbLeft) 7 300 only_shift EncSgr = Some bytes"
    by (simp add: encode_mouse_button_def encode_mouse_cb_eq)
  then show ?thesis using sgr_mouse_roundtrip [of 7 300 "MeUp MbLeft" only_shift bytes] by simp
qed

text \<open>A pixel of the host window that lies in a cell of a pane is reported to the child at
  a pixel of the child's own size, counted from one, and no product of the scaling wraps around.
\<close>

theorem pane_pixel_inside:
  assumes "geometry_cell (hp_geometry h) (hp_x h) (hp_y h) = Some (c, r)"
    and "rect_x inner \<le> c" "unat c < unat (rect_x inner) + unat (rect_width inner)"
    and "rect_y inner \<le> r" "unat r < unat (rect_y inner) + unat (rect_height inner)"
    and "unat (rect_x inner) + unat (rect_width inner) \<le> unat (hg_cols (hp_geometry h))"
    and "unat (rect_y inner) + unat (rect_height inner) \<le> unat (hg_rows (hp_geometry h))"
    and "0 < width_px" "0 < height_px"
  shows "\<exists>px py. pane_position h inner width_px height_px = Some (PosPixels px py)
    \<and> 1 \<le> unat px \<and> unat px \<le> unat width_px \<and> 1 \<le> unat py \<and> unat py \<le> unat height_px"
  using assms by (rule pane_position_inside)

theorem pane_pixel_inside_witness:
  "\<exists>px py. pane_position \<lparr>hp_x = 15, hp_y = 25, hp_geometry = \<lparr>hg_cols = 10, hg_rows = 5, hg_width_px = 100, hg_height_px = 100\<rparr>\<rparr>
       \<lparr>rect_x = 1, rect_y = 1, rect_width = 4, rect_height = 3\<rparr> 40 60 = Some (PosPixels px py) \<and> unat px \<le> 40"
proof -
  let ?g = "\<lparr>hg_cols = 10, hg_rows = 5, hg_width_px = 100, hg_height_px = 100\<rparr> :: host_geometry"
  have "geometry_cell ?g 15 25 = Some (1, 1)"
    by (simp add: geometry_cell_def grid_cell_def checked_sub_def Let_def)
  then show ?thesis
    using pane_pixel_inside [of "\<lparr>hp_x = 15, hp_y = 25, hp_geometry = ?g\<rparr>" 1 1
        "\<lparr>rect_x = 1, rect_y = 1, rect_width = 4, rect_height = 3\<rparr>" 40 60] by auto
qed

subsection \<open>Held keys\<close>

text \<open>One thing that happens to the leases: a key event, a client that leaves, a terminal that closes.\<close>

datatype key_step = KeyArrives u64 terminal_key | SourceLeaves u64 | TargetCloses terminal_input_target

definition take_key_step :: "'w key_host \<Rightarrow> key_step \<Rightarrow> 'w key_app \<Rightarrow> 'w key_app" where
  "take_key_step H st a = (case st of
       KeyArrives s k \<Rightarrow> route_key H s k a
     | SourceLeaves s \<Rightarrow> release_input_source H s a
     | TargetCloses t \<Rightarrow> release_input_target H t a)"

definition step_key_ok :: "key_step \<Rightarrow> bool" where
  "step_key_ok st = (case st of KeyArrives s k \<Rightarrow> key_ok k | _ \<Rightarrow> True)"

lemma take_key_step_keeps:
  "host_keeps_leases H \<Longrightarrow> step_key_ok st \<Longrightarrow> leases_ok (ka_leases a) \<Longrightarrow> leases_ok (ka_leases (take_key_step H st a))"
  by (cases st) (simp_all add: take_key_step_def step_key_ok_def route_key_keeps release_input_source_def
      release_input_target_def release_all_eq case_prod_unfold Let_def leases_ok_remove_source leases_ok_remove_target)

text \<open>Property C15. The lease table stays well formed over any sequence of key events, leaving clients
  and closing terminals: one lease per client and key, and a forwarded lease holds a pressed key
  under its own identity, so that the release made from it names the key that is down. The handlers of
  keys and the senders, which are parameters, are assumed to keep the table well formed themselves.
\<close>

theorem lease_table_invariant:
  assumes "host_keeps_leases H" "list_all step_key_ok steps" "leases_ok (ka_leases a)"
  shows "leases_ok (ka_leases (fold (take_key_step H) steps a))"
  using assms(2,3)
proof (induction steps arbitrary: a)
  case (Cons st steps)
  show ?case using Cons.IH [of "take_key_step H st a"] Cons.prems take_key_step_keeps [OF assms(1)] by simp
qed simp

text \<open>A host whose every key goes to one terminal, with the log of what the terminal got.\<close>

definition one_terminal :: "(terminal_input_target \<times> terminal_key) list key_host" where
  "one_terminal = \<lparr>kh_context = (\<lambda>w. if length w < 2 then Some CtxPane else None),
     kh_terminal_key = (\<lambda>s k a. (a\<lparr>ka_world := ka_world a @ [(InputTarget ''term_a'', k)]\<rparr>, Some (InputTarget ''term_a''))),
     kh_other_key = (\<lambda>k a. a), kh_forward = (\<lambda>t k w. (w @ [(t, k)], True))\<rparr>"

theorem lease_table_invariant_witness:
  "leases_ok (ka_leases (fold (take_key_step one_terminal)
     [KeyArrives 1 (new_key KcUp mods_empty), SourceLeaves 1] \<lparr>ka_leases = [], ka_world = []\<rparr>))"
proof (rule lease_table_invariant)
  show "host_keeps_leases one_terminal" by (simp add: host_keeps_leases_def one_terminal_def)
qed (simp_all add: step_key_ok_def key_ok_new leases_ok_def)

text \<open>What may happen while a key is held on a terminal: the key repeats, or something that concerns other keys, other clients
  and other terminals.\<close>

definition step_spares :: "lease_key \<Rightarrow> terminal_input_target \<Rightarrow> key_step \<Rightarrow> bool" where
  "step_spares lk t st = (case st of
       KeyArrives s k \<Rightarrow> new_lease_key s k \<noteq> lk \<or> repeats s lk k
     | SourceLeaves s \<Rightarrow> s \<noteq> fst lk
     | TargetCloses t' \<Rightarrow> t' \<noteq> t)"

lemma spared_lease_kept:
  assumes "step_spares lk t st" "host_spares_lease H lk (Forwarded l)" "fl_target l = t"
    and "\<And>k2 w. snd (kh_forward H t k2 w)" "hm_ok (ka_leases a)" "hm_get (ka_leases a) lk = Some (Forwarded l)"
  shows "hm_get (ka_leases (take_key_step H st a)) lk = Some (Forwarded l)"
proof (cases st)
  case (KeyArrives s k)
  then show ?thesis
    using assms route_spares [OF assms(2) _ assms(6), of s k] route_repeat [of s lk k a l H]
    by (auto simp: take_key_step_def step_spares_def)
next
  case (SourceLeaves s)
  then show ?thesis using assms remove_source_exact(3) [OF assms(5)]
    by (auto simp: take_key_step_def step_spares_def release_input_source_def release_all_eq case_prod_unfold Let_def)
next
  case (TargetCloses t')
  then show ?thesis using assms remove_target_exact(3) [OF assms(5)]
    by (auto simp: take_key_step_def step_spares_def release_input_target_def release_all_eq case_prod_unfold Let_def leased_to_def)
qed

text \<open>Property C8. A key without text that a terminal took when it was pressed stays with that terminal, as long as what is
  sent there arrives: whatever happens in between to other keys, other clients and other terminals, and whatever has
  the focus by then, every repeat of it, a second press of the same physical key among them, is sent to that terminal and
  nothing else changes, and so is its release, which ends the lease. The handlers of the other keys are
  assumed not to end the lease, that is not to close the terminal.
\<close>

theorem held_key_stays_with_its_terminal:
  assumes "tk_kind k = KPress" "tk_generated_text k = None" "lk = new_lease_key s k"
    and "leases_ok (ka_leases a)" "hm_get (ka_leases a) lk = None" "kh_context H (ka_world a) \<noteq> None"
    and "kh_terminal_key H s k (drop_lease lk a) = (a2, Some t)"
    and "host_keeps_leases H" "host_spares_lease H lk (Forwarded \<lparr>fl_target = t, fl_key = k\<rparr>)" "\<And>k2 w. snd (kh_forward H t k2 w)"
    and "key_ok k" "list_all step_key_ok steps" "list_all (step_spares lk t) steps"
    and "b = fold (take_key_step H) steps (route_key H s k a)"
    and "repeats s lk k2" "new_lease_key s r = lk" "tk_kind r = KRelease"
  shows "hm_get (ka_leases b) lk = Some (Forwarded \<lparr>fl_target = t, fl_key = k\<rparr>)
    \<and> route_key H s k2 b = b\<lparr>ka_world := fst (kh_forward H t (as_repeat k2) (ka_world b))\<rparr>
    \<and> route_key H s r b = (drop_lease lk b)\<lparr>ka_world := fst (kh_forward H t r (ka_world b))\<rparr>"
proof -
  let ?l = "\<lparr>fl_target = t, fl_key = k\<rparr>"
  have p: "route_key H s k a = a2\<lparr>ka_leases := insert_forwarded (ka_leases a2) lk t k\<rparr>"
    unfolding assms(3) by (rule route_press [OF assms(1,2) assms(5,6,7) [unfolded assms(3)]])
  have start: "leases_ok (ka_leases (route_key H s k a))" "hm_get (ka_leases (route_key H s k a)) lk = Some (Forwarded ?l)"
    by (rule route_key_keeps [OF assms(8,11,4)]) (simp add: p insert_forwarded_def)
  have "leases_ok (ka_leases (fold (take_key_step H) xs c)) \<and> hm_get (ka_leases (fold (take_key_step H) xs c)) lk = Some (Forwarded ?l)"
    if "list_all step_key_ok xs" "list_all (step_spares lk t) xs" "leases_ok (ka_leases c)" "hm_get (ka_leases c) lk = Some (Forwarded ?l)" for xs c
    using that
  proof (induction xs arbitrary: c)
    case (Cons st xs)
    have "hm_ok (ka_leases c)" using Cons.prems(3) by (simp add: leases_ok_def)
    with Cons show ?case
      using take_key_step_keeps [OF assms(8), of st c] spared_lease_kept [OF _ assms(9) _ assms(10), of st c] by simp
  qed simp
  from this [OF assms(12,13) start] have l: "hm_get (ka_leases b) lk = Some (Forwarded ?l)" by (simp add: assms(14))
  then show ?thesis using route_repeat [OF assms(15) l] route_release [OF assms(16,17) l] assms(10) by simp
qed

text \<open>In the witness another key and another client come in between.\<close>

theorem held_key_stays_with_its_terminal_witness:
  "route_key one_terminal 1 (with_kind (new_key KcUp mods_empty) KRelease)
     (fold (take_key_step one_terminal) [KeyArrives 1 (new_key KcDown mods_empty), KeyArrives 1 (with_kind (new_key KcUp mods_empty) KRepeat),
        SourceLeaves 2, TargetCloses (InputTarget ''term_b'')] (route_key one_terminal 1 (new_key KcUp mods_empty) \<lparr>ka_leases = [], ka_world = []\<rparr>))
   = \<lparr>ka_leases = [((1, IdSemantic KcDown), Forwarded \<lparr>fl_target = InputTarget ''term_a'', fl_key = new_key KcDown mods_empty\<rparr>)],
      ka_world = map (Pair (InputTarget ''term_a'')) [new_key KcUp mods_empty, new_key KcDown mods_empty,
        with_kind (new_key KcUp mods_empty) KRepeat, with_kind (new_key KcUp mods_empty) KRelease]\<rparr>"
proof -
  let ?k = "new_key KcUp mods_empty" and ?d = "new_key KcDown mods_empty" and ?a = "\<lparr>ka_leases = [], ka_world = []\<rparr>"
  let ?steps = "[KeyArrives 1 ?d, KeyArrives 1 (with_kind ?k KRepeat), SourceLeaves 2, TargetCloses (InputTarget ''term_b'')]"
  define b where "b = fold (take_key_step one_terminal) ?steps (route_key one_terminal 1 ?k ?a)"
  have lk: "new_lease_key 1 ?k = (1, IdSemantic KcUp)" "new_lease_key 1 ?d = (1, IdSemantic KcDown)"
    by (simp_all add: new_lease_key_def identity_def new_key_def)
  let ?t = "InputTarget ''term_a''"
  let ?L = "\<lambda>k. Forwarded \<lparr>fl_target = ?t, fl_key = k\<rparr>"
  let ?a1 = "\<lparr>ka_leases = [((1, IdSemantic KcUp), ?L ?k)], ka_world = [(?t, ?k)]\<rparr>"
  let ?a2 = "\<lparr>ka_leases = [((1, IdSemantic KcUp), ?L ?k), ((1, IdSemantic KcDown), ?L ?d)], ka_world = [(?t, ?k), (?t, ?d)]\<rparr>"
  let ?a3 = "?a2\<lparr>ka_world := [(?t, ?k), (?t, ?d), (?t, with_kind ?k KRepeat)]\<rparr>"
  have kinds: "tk_kind ?k = KPress" "tk_generated_text ?k = None" "tk_kind ?d = KPress" "tk_generated_text ?d = None"
    by (simp_all add: new_key_def)
  have 1: "route_key one_terminal 1 ?k ?a = ?a1"
    by (subst route_press [OF kinds(1,2), of ?a 1 one_terminal "?a\<lparr>ka_world := [(?t, ?k)]\<rparr>" ?t])
      (simp_all add: lk one_terminal_def drop_lease_def insert_forwarded_def)
  have 2: "route_key one_terminal 1 ?d ?a1 = ?a2"
    by (subst route_press [OF kinds(3,4), of ?a1 1 one_terminal "?a1\<lparr>ka_world := [(?t, ?k), (?t, ?d)]\<rparr>" ?t])
      (simp_all add: lk one_terminal_def drop_lease_def insert_forwarded_def)
  have rep: "repeats 1 (1, IdSemantic KcUp) (with_kind ?k KRepeat)" "as_repeat (with_kind ?k KRepeat) = with_kind ?k KRepeat"
    by (simp_all add: repeats_def as_repeat_def lk)
  have 3: "route_key one_terminal 1 (with_kind ?k KRepeat) ?a2 = ?a3"
    using route_repeat [OF rep(1), of ?a2 "\<lparr>fl_target = ?t, fl_key = ?k\<rparr>" one_terminal] rep(2) by (simp add: one_terminal_def)
  have b: "b = ?a3"
    by (simp add: b_def take_key_step_def 1 2 3 release_input_source_def remove_source_def
        release_input_target_def remove_target_def leased_to_def release_all_def)
  have "route_key one_terminal 1 (with_kind ?k KRelease) b = (drop_lease (1, IdSemantic KcUp) b)\<lparr>ka_world :=
      fst (kh_forward one_terminal (InputTarget ''term_a'') (with_kind ?k KRelease) (ka_world b))\<rparr>"
    using held_key_stays_with_its_terminal [of ?k "(1, IdSemantic KcUp)" 1 ?a one_terminal "?a\<lparr>ka_world := [(InputTarget ''term_a'', ?k)]\<rparr>"
        "InputTarget ''term_a''" ?steps b "with_kind ?k KRepeat" "with_kind ?k KRelease"]
    by (simp add: lk kinds rep b_def leases_ok_def host_keeps_leases_def host_spares_lease_def one_terminal_def drop_lease_def step_key_ok_def
        key_ok_new step_spares_def key_ok_with_kind)
  then show ?thesis unfolding b_def [symmetric] by (simp add: b drop_lease_def one_terminal_def)
qed

text \<open>When a client leaves, every key it held on a terminal is released there, in the order
  of the table and nowhere else, and the table keeps exactly the leases of the other clients; when
  a terminal closes, the same holds for the keys leased to it.
\<close>

theorem leaving_releases_held_keys:
  assumes "hm_ok (ka_leases a)"
  shows "ka_world (release_input_source H s a) = fold (\<lambda>l w. fst (kh_forward H (fl_target l) (with_kind (fl_key l) KRelease) w))
        (held_leases (\<lambda>(lk, l). fst lk = s) (ka_leases a)) (ka_world a)
    \<and> hm_get (ka_leases (release_input_source H s a)) lk = (if fst lk = s then None else hm_get (ka_leases a) lk)
    \<and> ka_world (release_input_target H t a) = fold (\<lambda>l w. fst (kh_forward H (fl_target l) (with_kind (fl_key l) KRelease) w))
        (held_leases (\<lambda>(lk, l). leased_to t l) (ka_leases a)) (ka_world a)
    \<and> hm_get (ka_leases (release_input_target H t a)) lk
      = (case hm_get (ka_leases a) lk of Some l \<Rightarrow> if leased_to t l then None else Some l | None \<Rightarrow> None)"
  using remove_source_exact [OF assms] remove_target_exact [OF assms]
  by (simp add: release_input_source_def release_input_target_def release_all_eq case_prod_unfold Let_def)

theorem leaving_releases_held_keys_witness:
  "ka_world (release_input_source one_terminal 1
     \<lparr>ka_leases = [((1, IdSemantic KcUp), Forwarded \<lparr>fl_target = InputTarget ''term_a'', fl_key = new_key KcUp mods_empty\<rparr>)], ka_world = []\<rparr>)
   = [(InputTarget ''term_a'', with_kind (new_key KcUp mods_empty) KRelease)]"
  using leaving_releases_held_keys [of "\<lparr>ka_leases = [((1, IdSemantic KcUp), Forwarded \<lparr>fl_target = InputTarget ''term_a'',
      fl_key = new_key KcUp mods_empty\<rparr>)], ka_world = []\<rparr>" one_terminal 1]
  by (simp add: held_leases_def forwarded_of_def one_terminal_def)

end
