(* ===== verification/TerminalTheme.thy ===== *)
theory TerminalTheme
  imports InputKeys RustStr
begin

section \<open>Colours of the host terminal\<close>

text \<open>
  The model of \<open>src/src/terminal_theme.rs\<close>: the colours a host terminal reports, parsed from its
  OSC replies and written back as OSC commands. The slices of a \<open>#\<close> colour cut the string at
  byte positions, and \<open>str\<close> indexing panics inside a character: the parsers return \<open>None\<close> for
  such a panic and \<open>Some\<close> of their optional result otherwise.
\<close>

record rgb_color =
  rgb_r :: u8
  rgb_g :: u8
  rgb_b :: u8

datatype host_appearance = ApDark | ApLight

datatype default_color_kind = Foreground | Background

record terminal_theme =
  th_foreground :: "rgb_color option"
  th_background :: "rgb_color option"
  th_palette :: "u8 \<Rightarrow> rgb_color option"

definition default_theme :: terminal_theme where
  "default_theme = \<lparr>th_foreground = None, th_background = None, th_palette = (\<lambda>_. None)\<rparr>"

definition color_scheme_report :: "host_appearance \<Rightarrow> rstr" where
  "color_scheme_report a = (case a of ApDark \<Rightarrow> CHR 0x1b # ''[?997;1n'' | ApLight \<Rightarrow> CHR 0x1b # ''[?997;2n'')"

definition inferred_appearance :: "rgb_color \<Rightarrow> host_appearance" where
  "inferred_appearance c =
     (let luminance = (ucast (rgb_r c) :: u32) * 299 + ucast (rgb_g c) * 587 + ucast (rgb_b c) * 114
      in if luminance \<ge> 128000 then ApLight else ApDark)"

definition with_color :: "terminal_theme \<Rightarrow> default_color_kind \<Rightarrow> rgb_color \<Rightarrow> terminal_theme" where
  "with_color t kind color = (case kind of
       Foreground \<Rightarrow> t\<lparr>th_foreground := Some color\<rparr>
     | Background \<Rightarrow> t\<lparr>th_background := Some color\<rparr>)"

definition with_palette_color :: "terminal_theme \<Rightarrow> u8 \<Rightarrow> rgb_color \<Rightarrow> terminal_theme" where
  "with_palette_color t index color = t\<lparr>th_palette := (th_palette t)(index := Some color)\<rparr>"

definition theme_is_empty :: "terminal_theme \<Rightarrow> bool" where
  "theme_is_empty t \<longleftrightarrow> th_foreground t = None \<and> th_background t = None"

subsection \<open>Parsing a colour\<close>

definition hex_digit :: "char \<Rightarrow> nat option" where
  "hex_digit c =
     (let b = byte c in
      if 48 \<le> b \<and> b \<le> 57 then Some (b - 48)
      else if 97 \<le> b \<and> b \<le> 102 then Some (b - 87)
      else if 65 \<le> b \<and> b \<le> 70 then Some (b - 55)
      else None)"

definition hex_value :: "rstr \<Rightarrow> nat" where
  "hex_value s = foldl (\<lambda>n c. 16 * n + (case hex_digit c of Some d \<Rightarrow> d | None \<Rightarrow> 0)) 0 s"

definition parse_hex_component :: "rstr \<Rightarrow> u8 option" where
  "parse_hex_component s =
     (if s = [] \<or> 4 < length s \<or> \<not> list_all (\<lambda>c. hex_digit c \<noteq> None) s then None
      else let m = 16 ^ length s - 1 in Some (of_nat ((hex_value s * 255 + m div 2) div m)))"

text \<open>A component that does not parse ends the function with its own \<open>None\<close>.\<close>

definition then_component ::
  "rstr option \<Rightarrow> (u8 \<Rightarrow> 'a option option) \<Rightarrow> 'a option option" where
  "then_component part k =
     Option.bind part (\<lambda>s. case parse_hex_component s of None \<Rightarrow> Some None | Some v \<Rightarrow> k v)"

definition parse_rgb_color :: "rstr \<Rightarrow> rgb_color option option" where
  "parse_rgb_color value =
     (case strip_prefix ''rgb:'' value of
        Some rgb \<Rightarrow>
          Some (case split_on (\<lambda>c. c = CHR ''/'') rgb of
              [r, g, b] \<Rightarrow>
                Option.bind (parse_hex_component r) (\<lambda>r.
                Option.bind (parse_hex_component g) (\<lambda>g.
                Option.bind (parse_hex_component b) (\<lambda>b. Some \<lparr>rgb_r = r, rgb_g = g, rgb_b = b\<rparr>)))
            | _ \<Rightarrow> None)
      | None \<Rightarrow> (case strip_prefix ''#'' value of
          Some hex \<Rightarrow>
            (let digits = length hex div 3 in
             if digits \<notin> {1, 2, 3, 4} \<or> length hex \<noteq> digits * 3 then Some None
             else then_component (str_slice hex 0 digits) (\<lambda>r.
                  then_component (str_slice hex digits (digits * 2)) (\<lambda>g.
                  then_component (str_slice hex (digits * 2) (length hex)) (\<lambda>b.
                    Some (Some \<lparr>rgb_r = r, rgb_g = g, rgb_b = b\<rparr>)))))
        | None \<Rightarrow> Some None))"

subsection \<open>Replies and commands\<close>

definition strip_st_or_bel :: "rstr \<Rightarrow> rstr option" where
  "strip_st_or_bel s =
     (if suffix [CHR 0x1b, CHR 0x5c] s then Some (take (length s - 2) s) else strip_suffix CHR 0x07 s)"

definition osc_color_value :: "rstr \<Rightarrow> (rstr \<times> rstr) option" where
  "osc_color_value rest = Option.bind (strip_st_or_bel rest) (split_once CHR '';'')"

definition parse_default_color_response :: "rstr \<Rightarrow> (default_color_kind \<times> rgb_color) option option" where
  "parse_default_color_response s =
     (case Option.bind (strip_prefix [CHR 0x1b, CHR '']''] s) osc_color_value of
        None \<Rightarrow> Some None
      | Some (command, value) \<Rightarrow>
          (case map_of [(''10'', Foreground), (''11'', Background)] command of
             None \<Rightarrow> Some None
           | Some kind \<Rightarrow> map_option (map_option (Pair kind)) (parse_rgb_color value)))"

definition parse_palette_color_response :: "rstr \<Rightarrow> (u8 \<times> rgb_color) option option" where
  "parse_palette_color_response s =
     (case Option.bind (strip_prefix (CHR 0x1b # '']4;'') s) osc_color_value of
        None \<Rightarrow> Some None
      | Some (index, value) \<Rightarrow>
          (case parse_unsigned 256 index of
             None \<Rightarrow> Some None
           | Some i \<Rightarrow> map_option (map_option (Pair (of_nat i))) (parse_rgb_color value)))"

definition hex2 :: "u8 \<Rightarrow> rstr" where
  "hex2 v = [''0123456789abcdef'' ! (unat v div 16), ''0123456789abcdef'' ! (unat v mod 16)]"

definition st :: rstr where
  "st = [CHR 0x1b, CHR 0x5c]"

definition osc_set_default_color_sequence :: "default_color_kind \<Rightarrow> rgb_color \<Rightarrow> rstr" where
  "osc_set_default_color_sequence kind c =
     (let command = (case kind of Foreground \<Rightarrow> 10 | Background \<Rightarrow> 11)
      in [CHR 0x1b, CHR '']''] @ decimal command @ '';rgb:'' @ hex2 (rgb_r c) @ ''/'' @ hex2 (rgb_g c)
         @ ''/'' @ hex2 (rgb_b c) @ st)"

definition osc_reset_default_color_sequence :: "default_color_kind \<Rightarrow> rstr" where
  "osc_reset_default_color_sequence kind =
     (case kind of Foreground \<Rightarrow> CHR 0x1b # '']110'' @ st | Background \<Rightarrow> CHR 0x1b # '']111'' @ st)"

definition host_terminal_theme_query_sequence :: rstr where
  "host_terminal_theme_query_sequence =
     CHR 0x1b # '']10;?'' @ st @ CHR 0x1b # '']11;?'' @ st
     @ concat (map (\<lambda>index. CHR 0x1b # '']4;'' @ decimal index @ '';?'' @ st) [0..<256])"

subsection \<open>A colour that is set is read back\<close>

lemma hex2_parsed: "parse_hex_component (hex2 v) = Some v"
proof -
  have d: "hex_digit (''0123456789abcdef'' ! n) = Some n" if "n < 16" for n
  proof -
    have "list_all (\<lambda>n. hex_digit (''0123456789abcdef'' ! n) = Some n) [0..<16]" by code_simp
    then show ?thesis using that by (simp add: list_all_iff)
  qed
  have v: "unat v < 256" by (rule order.strict_trans2 [OF unsigned_less]) simp
  have dm: "unat v div 16 < 16" "unat v mod 16 < 16" using v by auto
  have "hex_value (hex2 v) = unat v" using d [OF dm(1)] d [OF dm(2)] by (simp add: hex_value_def hex2_def)
  moreover have "list_all (\<lambda>c. hex_digit c \<noteq> None) (hex2 v)" "length (hex2 v) = 2"
    using d [OF dm(1)] d [OF dm(2)] by (simp_all add: hex2_def)
  moreover have "(unat v * 255 + 255 div 2) div 255 = unat v" by simp
  moreover have "hex2 v \<noteq> []" by (simp add: hex2_def)
  ultimately show ?thesis by (simp add: parse_hex_component_def)
qed

lemma hex2_no_char: "c \<in> set (hex2 v) \<Longrightarrow> hex_digit c \<noteq> None"
  using hex2_parsed [of v] by (auto simp: parse_hex_component_def list_all_iff split: if_splits)

lemma set_color_parsed:
  "parse_default_color_response (osc_set_default_color_sequence kind c) = Some (Some (kind, c))"
proof -
  let ?rgb = "hex2 (rgb_r c) @ CHR ''/'' # hex2 (rgb_g c) @ CHR ''/'' # hex2 (rgb_b c)"
  have "hex_digit CHR ''/'' = None" "hex_digit CHR '';'' = None" by (simp_all add: hex_digit_def byte_def)
  then have no: "\<forall>x \<in> set (hex2 v). x \<noteq> CHR ''/''" for v using hex2_no_char by metis
  have split: "split_on (\<lambda>c. c = CHR ''/'') ?rgb = [hex2 (rgb_r c), hex2 (rgb_g c), hex2 (rgb_b c)]"
    using no by (simp add: split_on_clean split_on_append)
  have color: "parse_rgb_color (''rgb:'' @ ?rgb) = Some (Some c)"
    using split by (simp add: parse_rgb_color_def strip_prefix_def hex2_parsed)
  have body: "osc_color_value (decimal n @ CHR '';'' # s @ st) = Some (decimal n, s)" for n s
  proof -
    have s: "strip_st_or_bel ((decimal n @ CHR '';'' # s) @ st) = Some (decimal n @ CHR '';'' # s)"
      unfolding strip_st_or_bel_def st_def by (simp add: suffix_def)
    have "CHR '';'' \<notin> set (decimal n)" by (rule decimal_no_char) (simp add: is_digit_def byte_def)
    then show ?thesis using s by (simp add: osc_color_value_def)
  qed
  have "osc_set_default_color_sequence kind c = [CHR 0x1b, CHR '']'']
     @ (decimal (case kind of Foreground \<Rightarrow> 10 | Background \<Rightarrow> 11) @ CHR '';'' # (''rgb:'' @ ?rgb) @ st)"
    by (simp add: osc_set_default_color_sequence_def Let_def)
  then have "Option.bind (strip_prefix [CHR 0x1b, CHR '']''] (osc_set_default_color_sequence kind c)) osc_color_value
     = Some (decimal (case kind of Foreground \<Rightarrow> 10 | Background \<Rightarrow> 11), ''rgb:'' @ ?rgb)"
    by (simp only: strip_prefix_def prefix_def) (simp add: body [of _ "''rgb:'' @ ?rgb", simplified])
  moreover have "decimal 10 = ''10''" "decimal 11 = ''11''" by (simp_all add: decimal_eval)
  ultimately show ?thesis
    using color by (cases kind) (simp_all add: parse_default_color_response_def)
qed

text \<open>A value that is ASCII never panics.\<close>

lemma ascii_color_no_panic: "list_all (\<lambda>c. byte c < 128) value \<Longrightarrow> parse_rgb_color value \<noteq> None"
proof -
  assume a: "list_all (\<lambda>c. byte c < 128) value"
  have slice: "\<exists>y. str_slice hex i j = Some y" if "strip_prefix ''#'' value = Some hex" "i \<le> j" "j \<le> length hex" for hex i j
  proof -
    have "list_all (\<lambda>c. byte c < 128) hex"
      using a that(1) by (auto simp: strip_prefix_def list_all_iff dest: in_set_dropD split: if_splits)
    then have "byte (hex ! k) < 128" if "k < length hex" for k using that by (simp add: list_all_length)
    then have "is_char_boundary hex k" if "k \<le> length hex" for k
      using that by (cases "k = length hex") (simp_all add: is_char_boundary_def not_le)
    then show ?thesis using that(2,3) by (simp add: str_slice_def)
  qed
  have step: "\<exists>y. then_component s k = Some y" if "\<exists>y. s = Some y" "\<And>v. \<exists>y. k v = Some y"
    for s and k :: "u8 \<Rightarrow> rgb_color option option"
    using that by (auto simp: then_component_def split: option.splits)
  have "\<exists>y. parse_rgb_color value = Some y"
  proof (cases "strip_prefix ''rgb:'' value")
    case None
    show ?thesis
    proof (cases "strip_prefix ''#'' value")
      case (Some hex)
      let ?d = "length hex div 3"
      have "\<exists>y. then_component (str_slice hex 0 ?d) (\<lambda>r. then_component (str_slice hex ?d (?d * 2)) (\<lambda>g.
          then_component (str_slice hex (?d * 2) (length hex)) (\<lambda>b. Some (Some \<lparr>rgb_r = r, rgb_g = g, rgb_b = b\<rparr>)))) = Some y"
        by (intro step slice [OF Some] exI refl) auto
      then show ?thesis unfolding parse_rgb_color_def None Some option.case Let_def by auto
    qed (simp add: parse_rgb_color_def None)
  qed (simp add: parse_rgb_color_def)
  then show ?thesis by blast
qed

end
