(* ===== verification/RawFramer.thy ===== *)
theory RawFramer
  imports InputMouse TerminalTheme
begin

section \<open>Framing raw terminal input\<close>

text \<open>
  The model of \<open>src/src/raw_input.rs\<close>: bytes of the host terminal arrive in arbitrary pieces, a
  framer cuts them into complete sequences and each sequence becomes one event. The buffer and the
  few flags of the framer are a record; \<open>push\<close> and \<open>flush_timeout\<close> return the chunks and the new
  framer, or \<open>None\<close> where the code panics (only the colour parser can, see \<open>TerminalTheme\<close>).
  Logging is left out. \<open>upper\<close> is \<open>char::is_uppercase\<close>.
\<close>

subsection \<open>Searching bytes\<close>

fun find_subsequence :: "rstr \<Rightarrow> rstr \<Rightarrow> nat option" where
  "find_subsequence [] needle = (if needle = [] then Some 0 else None)"
| "find_subsequence (c # cs) needle =
     (if prefix needle (c # cs) then Some 0 else map_option Suc (find_subsequence cs needle))"

fun position_of :: "(char \<Rightarrow> bool) \<Rightarrow> rstr \<Rightarrow> nat option" where
  "position_of p [] = None"
| "position_of p (c # cs) = (if p c then Some 0 else map_option Suc (position_of p cs))"

definition find_csi_final :: "rstr \<Rightarrow> (char \<Rightarrow> bool) \<Rightarrow> nat option" where
  "find_csi_final buffer finals = map_option (\<lambda>i. i + 3) (position_of finals (drop 2 buffer))"

definition mouse_final :: "char \<Rightarrow> bool" where
  "mouse_final c \<longleftrightarrow> c \<in> {CHR ''M'', CHR ''m''}"

definition csi_final :: "char \<Rightarrow> bool" where
  "csi_final c \<longleftrightarrow> 64 \<le> byte c \<and> byte c \<le> 126"

definition paste_start :: rstr where
  "paste_start = csi @ ''200~''"

definition paste_end :: rstr where
  "paste_end = csi @ ''201~''"

definition is_complete_text_bracketed_paste :: "rstr \<Rightarrow> bool" where
  "is_complete_text_bracketed_paste data =
     (prefix paste_start data \<and>
      (case find_subsequence data paste_end of
         None \<Rightarrow> False
       | Some e \<Rightarrow> e + length paste_end = length data
           \<and> valid_utf8 (drop (length paste_start) (take e data))))"

subsection \<open>Control strings\<close>

datatype control_family = FamOsc | FamStTerminated | FamHostReplyCsi | FamOrphanedSgrMouseTail

datatype control_string = CsComplete nat control_family | CsIncomplete control_family

definition st_string_terminator :: "rstr \<Rightarrow> nat option" where
  "st_string_terminator buffer = map_option (\<lambda>i. i + 2) (find_subsequence buffer st)"

definition osc_string_terminator :: "rstr \<Rightarrow> nat option" where
  "osc_string_terminator buffer =
     (case (st_string_terminator buffer, map_option Suc (position_of (\<lambda>c. c = CHR 0x07) buffer)) of
        (Some s, Some b) \<Rightarrow> Some (min s b)
      | (Some s, None) \<Rightarrow> Some s
      | (None, b) \<Rightarrow> b)"

definition control_string_terminator_for_family :: "rstr \<Rightarrow> control_family \<Rightarrow> nat option" where
  "control_string_terminator_for_family buffer family = (case family of
       FamOsc \<Rightarrow> osc_string_terminator buffer
     | FamStTerminated \<Rightarrow> st_string_terminator buffer
     | FamHostReplyCsi \<Rightarrow> None
     | FamOrphanedSgrMouseTail \<Rightarrow> map_option Suc (position_of mouse_final buffer))"

definition control_introducer :: "rstr \<Rightarrow> control_family option" where
  "control_introducer buffer =
     (case buffer of
        a # b # _ \<Rightarrow>
          if a \<noteq> CHR 0x1b then None
          else if b = CHR '']'' then Some FamOsc
          else if b \<in> {CHR ''P'', CHR ''_'', CHR ''^'', CHR ''X''} then Some FamStTerminated
          else None
      | _ \<Rightarrow> None)"

definition control_string :: "rstr \<Rightarrow> control_string option" where
  "control_string buffer =
     map_option (\<lambda>family. case control_string_terminator_for_family buffer family of
          Some len \<Rightarrow> CsComplete len family | None \<Rightarrow> CsIncomplete family)
       (control_introducer buffer)"

subsection \<open>Complete sequences\<close>

definition utf8_char_width :: "nat \<Rightarrow> nat option" where
  "utf8_char_width b =
     (if b < 0x80 then Some 1
      else if b AND 0xE0 = 0xC0 then Some 2
      else if b AND 0xF0 = 0xE0 then Some 3
      else if b AND 0xF8 = 0xF0 then Some 4
      else None)"

definition first_complete_utf8_char_len :: "rstr \<Rightarrow> nat option" where
  "first_complete_utf8_char_len buffer =
     (case buffer of
        [] \<Rightarrow> None
      | c # _ \<Rightarrow> Option.bind (utf8_char_width (byte c))
          (\<lambda>width. if length buffer < width \<or> \<not> valid_utf8 (take width buffer) then None else Some width))"

text \<open>An ESC before a mouse report is a key of its own: \<open>Some n\<close> decides the length (\<open>None\<close> inside waits).\<close>

definition escape_before_mouse :: "rstr \<Rightarrow> nat option option" where
  "escape_before_mouse buffer =
     (case (if prefix (esc @ csi @ ''<'') buffer then find_csi_final (tl buffer) mouse_final else None) of
        Some mouse_len \<Rightarrow>
          (let mouse_sequence = take mouse_len (tl buffer) in
           if \<not> valid_utf8 mouse_sequence then Some None
           else if parse_sgr_mouse mouse_sequence \<noteq> None then Some (Some 1) else None)
      | None \<Rightarrow>
          if 7 \<le> length buffer \<and> prefix (esc @ csi @ ''M'') buffer \<and> parse_default_mouse (take 6 (tl buffer)) \<noteq> None
          then Some (Some 1) else None)"

fun complete_escape_sequence_len :: "rstr \<Rightarrow> nat option" where
  "complete_escape_sequence_len [] = None"
| "complete_escape_sequence_len (c # rest) =
     (let buffer = c # rest in
      if length buffer = 1 then None
      else case escape_before_mouse buffer of
        Some r \<Rightarrow> r
      | None \<Rightarrow>
          if prefix (esc @ esc) buffer then map_option Suc (complete_escape_sequence_len rest)
          else if prefix csi buffer then
            (if prefix (csi @ ''<'') buffer then find_csi_final buffer mouse_final
             else if prefix (csi @ ''M'') buffer then (if 6 \<le> length buffer then Some 6 else None)
             else find_csi_final buffer csi_final)
          else case control_string buffer of
            Some (CsComplete len _) \<Rightarrow> Some len
          | Some (CsIncomplete _) \<Rightarrow> None
          | None \<Rightarrow>
              if prefix (esc @ ''O'') buffer then (if 3 \<le> length buffer then Some 3 else None)
              else Option.bind (utf8_char_width (byte (hd rest))) (\<lambda>w.
                if length buffer < 1 + w \<or> \<not> valid_utf8 (take w rest) then None else Some (1 + w)))"

subsection \<open>Events\<close>

datatype raw_input_event =
  EvKey terminal_key
  | EvText rstr
  | EvPaste rstr
  | EvMouse mouse_event
  | EvFocusGained
  | EvFocusLost
  | EvHostDefaultColor default_color_kind rgb_color
  | EvHostPaletteColors "(u8 \<times> rgb_color) list"
  | EvHostColorSchemeChanged host_appearance
  | EvHostCellSizeReport nat nat
  | EvUnsupported

definition dark_report :: rstr where
  "dark_report = csi @ ''?997;1n''"

definition light_report :: rstr where
  "light_report = csi @ ''?997;2n''"

definition parse_host_color_scheme_report :: "rstr \<Rightarrow> host_appearance option" where
  "parse_host_color_scheme_report buffer =
     (if buffer = dark_report then Some ApDark else if buffer = light_report then Some ApLight else None)"

definition parse_host_cell_size_report :: "rstr \<Rightarrow> (nat \<times> nat) option" where
  "parse_host_cell_size_report buffer =
     Option.bind (strip_prefix csi buffer) (\<lambda>rest.
     Option.bind (strip_suffix CHR ''t'' rest) (\<lambda>body.
       if \<not> valid_utf8 body then None
       else
         let params = split_on (\<lambda>c. c = CHR '';'') body in
         if nth_field params 0 \<noteq> Some ''6'' then None
         else
           Option.bind (Option.bind (nth_field params 1) (parse_unsigned (2 ^ 32))) (\<lambda>height_px.
           Option.bind (Option.bind (nth_field params 2) (parse_unsigned (2 ^ 32))) (\<lambda>width_px.
             if nth_field params 3 \<noteq> None \<or> width_px = 0 \<or> height_px = 0 then None
             else Some (width_px, height_px)))))"

definition plain_escape_event :: "rstr \<Rightarrow> raw_input_event" where
  "plain_escape_event s =
     (if s = csi @ ''I'' then EvFocusGained
      else if s = csi @ ''O'' then EvFocusLost
      else case parse_host_color_scheme_report s of
        Some appearance \<Rightarrow> EvHostColorSchemeChanged appearance
      | None \<Rightarrow> (case parse_host_cell_size_report s of
          Some (width_px, height_px) \<Rightarrow> EvHostCellSizeReport width_px height_px
        | None \<Rightarrow> (case parse_sgr_mouse s of
            Some mouse \<Rightarrow> EvMouse mouse
          | None \<Rightarrow> (case parse_terminal_key_sequence s of
              Some key \<Rightarrow> EvKey (with_vt_bytes key s)
            | None \<Rightarrow> EvUnsupported))))"

text \<open>The event of a complete escape sequence: a panic, no event, or an event.\<close>

definition escape_event :: "rstr \<Rightarrow> raw_input_event option option" where
  "escape_event s =
     (if prefix (csi @ ''M'') s then
        Some (Some (case parse_default_mouse s of Some m \<Rightarrow> EvMouse m | None \<Rightarrow> EvUnsupported))
      else if \<not> valid_utf8 s then Some None
      else
        Option.bind (parse_default_color_response s) (\<lambda>default_color. case default_color of
            Some (kind, color) \<Rightarrow> Some (Some (EvHostDefaultColor kind color))
          | None \<Rightarrow>
              Option.bind (parse_palette_color_response s) (\<lambda>palette. case palette of
                Some entry \<Rightarrow> Some (Some (EvHostPaletteColors [entry]))
              | None \<Rightarrow> Some (Some (plain_escape_event s)))))"

definition text_event :: "(uchar \<Rightarrow> bool) \<Rightarrow> rstr \<Rightarrow> raw_input_event option" where
  "text_event upper s =
     map_option (\<lambda>k. EvKey (with_vt_bytes (with_text_commit upper k) s)) (parse_terminal_key_sequence s)"

definition extract_one_event :: "(uchar \<Rightarrow> bool) \<Rightarrow> rstr \<Rightarrow> (raw_input_event \<times> nat) option option" where
  "extract_one_event upper buffer =
     (if buffer = [] then Some None
      else if prefix paste_start buffer then
        Some (Option.bind (find_subsequence buffer paste_end) (\<lambda>e.
          let content = drop (length paste_start) (take e buffer) in
          if valid_utf8 content then Some (EvPaste content, e + length paste_end) else None))
      else if hd buffer = CHR 0x1b then
        (case complete_escape_sequence_len buffer of
           None \<Rightarrow> Some None
         | Some len \<Rightarrow> map_option (map_option (\<lambda>e. (e, len))) (escape_event (take len buffer)))
      else
        Some (Option.bind (first_complete_utf8_char_len buffer) (\<lambda>consumed.
          map_option (\<lambda>e. (e, consumed)) (text_event upper (take consumed buffer)))))"

section \<open>The byte framer\<close>

text \<open>
  \<open>RawInputByteFramer\<close> and \<open>RawInputFramer\<close> of \<open>src/src/raw_input.rs\<close>: the loop that drains complete
  sequences out of the buffer, the discarding of tails that have lost their introducer, and what a
  flush after the input timeout does with an incomplete buffer. One turn of the drain loop is
  \<open>drain_step\<close>.
\<close>

record byte_framer =
  bf_buffer :: rstr
  bf_discard_until :: "control_family option"
  bf_discarded_tail_bytes :: nat
  bf_lone_escape_recently_flushed :: bool
  bf_host_color_replies_awaited :: nat
  bf_host_cell_size_replies_awaited :: nat
  bf_host_appearance_reply_awaited :: bool
  bf_held_pending_host_reply_esc :: bool
  bf_host_color_scheme_change_tracking :: bool
  bf_host_appearance_query_on_focus :: bool
  bf_split_coalesced_escape :: bool

definition default_framer :: byte_framer where
  "default_framer = \<lparr>bf_buffer = [], bf_discard_until = None, bf_discarded_tail_bytes = 0,
     bf_lone_escape_recently_flushed = False, bf_host_color_replies_awaited = 0,
     bf_host_cell_size_replies_awaited = 0, bf_host_appearance_reply_awaited = False,
     bf_held_pending_host_reply_esc = False, bf_host_color_scheme_change_tracking = False,
     bf_host_appearance_query_on_focus = False, bf_split_coalesced_escape = False\<rparr>"

definition with_host_input_policy :: "bool \<Rightarrow> byte_framer" where
  "with_host_input_policy preserve_legacy_doubled_escape_input =
     default_framer\<lparr>bf_split_coalesced_escape := \<not> preserve_legacy_doubled_escape_input\<rparr>"

definition host_color_query_replies :: nat where
  "host_color_query_replies = 258"

definition max_orphaned_sgr_mouse_tail_bytes :: nat where
  "max_orphaned_sgr_mouse_tail_bytes = 32"

definition max_discarded_control_tail_bytes :: nat where
  "max_discarded_control_tail_bytes = 128"

definition host_color_query_sent :: "byte_framer \<Rightarrow> byte_framer" where
  "host_color_query_sent f =
     f\<lparr>bf_host_color_replies_awaited := host_color_query_replies, bf_held_pending_host_reply_esc := False\<rparr>"

definition host_appearance_query_sent :: "byte_framer \<Rightarrow> byte_framer" where
  "host_appearance_query_sent f =
     f\<lparr>bf_host_appearance_reply_awaited := True, bf_held_pending_host_reply_esc := False\<rparr>"

definition host_cell_size_query_sent :: "byte_framer \<Rightarrow> byte_framer" where
  "host_cell_size_query_sent f =
     f\<lparr>bf_host_cell_size_replies_awaited := 1, bf_held_pending_host_reply_esc := False\<rparr>"

definition awaiting_host_reply :: "byte_framer \<Rightarrow> bool" where
  "awaiting_host_reply f \<longleftrightarrow> 0 < bf_host_color_replies_awaited f
     \<or> 0 < bf_host_cell_size_replies_awaited f \<or> bf_host_appearance_reply_awaited f"

subsection \<open>Incomplete starts\<close>

definition digit_or_semicolon :: "char \<Rightarrow> bool" where
  "digit_or_semicolon c \<longleftrightarrow> is_digit c \<or> c = CHR '';''"

definition starts_with_incomplete_sgr_mouse_sequence :: "rstr \<Rightarrow> bool" where
  "starts_with_incomplete_sgr_mouse_sequence b \<longleftrightarrow>
     prefix (csi @ ''<'') b \<and> list_all digit_or_semicolon (drop 3 b)"

definition starts_with_incomplete_default_mouse_sequence :: "rstr \<Rightarrow> bool" where
  "starts_with_incomplete_default_mouse_sequence b \<longleftrightarrow> prefix (csi @ ''M'') b \<and> length b < 6"

definition starts_with_incomplete_orphaned_sgr_mouse_tail :: "rstr \<Rightarrow> bool" where
  "starts_with_incomplete_orphaned_sgr_mouse_tail b \<longleftrightarrow>
     length b \<le> max_orphaned_sgr_mouse_tail_bytes \<and>
     (length b < 3 \<and> prefix b ''[<'' \<or> prefix ''[<'' b \<and> list_all digit_or_semicolon (drop 2 b))"

definition starts_with_incomplete_default_color_response :: "rstr \<Rightarrow> bool" where
  "starts_with_incomplete_default_color_response b \<longleftrightarrow>
     control_string b = Some (CsIncomplete FamOsc)
     \<and> (prefix (esc @ '']10;'') b \<or> prefix (esc @ '']11;'') b)"

definition starts_with_incomplete_host_color_scheme_report :: "rstr \<Rightarrow> bool" where
  "starts_with_incomplete_host_color_scheme_report b \<longleftrightarrow>
     prefix (csi @ ''?'') b \<and> (prefix b dark_report \<or> prefix b light_report) \<and> length b < length dark_report"

definition starts_with_incomplete_host_cell_size_report :: "rstr \<Rightarrow> bool" where
  "starts_with_incomplete_host_cell_size_report b =
     (case strip_prefix csi b of
        None \<Rightarrow> False
      | Some body \<Rightarrow>
          if body = [] \<or> last body = CHR ''t'' then False
          else
            let params = split_on (\<lambda>c. c = CHR '';'') body;
                height = nth_field params 1;
                width = nth_field params 2
            in nth_field params 0 = Some ''6'' \<and> nth_field params 3 = None
               \<and> (case height of None \<Rightarrow> True | Some v \<Rightarrow> list_all is_digit v)
               \<and> (case width of None \<Rightarrow> True | Some v \<Rightarrow> list_all is_digit v)
               \<and> \<not> (height = Some [] \<and> width \<noteq> None))"

definition has_pending_incomplete_mouse_sequence :: "byte_framer \<Rightarrow> bool" where
  "has_pending_incomplete_mouse_sequence f \<longleftrightarrow>
     starts_with_incomplete_sgr_mouse_sequence (bf_buffer f)
     \<or> starts_with_incomplete_default_mouse_sequence (bf_buffer f)"

subsection \<open>Discarding\<close>

text \<open>The rest of the buffer after a complete orphaned mouse tail, if there is one.\<close>

definition discard_complete_orphaned_sgr_mouse_tail :: "rstr \<Rightarrow> rstr option" where
  "discard_complete_orphaned_sgr_mouse_tail b =
     Option.bind (control_string_terminator_for_family b FamOrphanedSgrMouseTail) (\<lambda>terminator_len.
       let sequence = esc @ take terminator_len b in
       if max_orphaned_sgr_mouse_tail_bytes < terminator_len \<or> \<not> valid_utf8 sequence
          \<or> parse_sgr_mouse sequence = None
       then None else Some (drop terminator_len b))"

text \<open>The buffer, the count and whether the discarding is over.\<close>

definition discard_host_reply_csi_tail :: "rstr \<Rightarrow> nat \<Rightarrow> rstr \<times> nat \<times> bool" where
  "discard_host_reply_csi_tail b d =
     (let remaining = max_discarded_control_tail_bytes - d;
          inspected = min (length b) remaining
      in case position_of (\<lambda>c. \<not> (0x20 \<le> byte c \<and> byte c \<le> 0x3f)) (take inspected b) of
           Some i \<Rightarrow> (if csi_final (b ! i) then drop (i + 1) b else drop i b, d, True)
         | None \<Rightarrow> (drop inspected b, d + inspected, max_discarded_control_tail_bytes \<le> d + inspected))"

definition discard_orphaned_sgr_mouse_tail :: "rstr \<Rightarrow> nat \<Rightarrow> rstr \<times> nat \<times> bool" where
  "discard_orphaned_sgr_mouse_tail b d =
     (let remaining = max_discarded_control_tail_bytes - d;
          inspected = min (length b) remaining
      in case position_of (\<lambda>c. \<not> digit_or_semicolon c) (take inspected b) of
           Some i \<Rightarrow> (if mouse_final (b ! i) then drop (i + 1) b else drop i b, d, True)
         | None \<Rightarrow> ([], d + inspected, inspected < length b))"

definition discard_or_buffer_orphaned_sgr_mouse_tail :: "byte_framer \<Rightarrow> byte_framer" where
  "discard_or_buffer_orphaned_sgr_mouse_tail f =
     (case discard_complete_orphaned_sgr_mouse_tail (bf_buffer f) of
        Some rest \<Rightarrow> f\<lparr>bf_buffer := rest\<rparr>
      | None \<Rightarrow> f\<lparr>bf_discarded_tail_bytes := length (bf_buffer f),
            bf_discard_until := (if length (bf_buffer f) \<le> max_discarded_control_tail_bytes
              then Some FamOrphanedSgrMouseTail else None),
            bf_buffer := []\<rparr>)"

definition osc_tail_byte :: "char \<Rightarrow> bool" where
  "osc_tail_byte c \<longleftrightarrow> is_digit c \<or> c \<in> set '';:/#?._-+rgbRGB'' \<or> c = CHR 0x1b"

definition plausible_control_string_tail :: "control_family \<Rightarrow> rstr \<Rightarrow> bool" where
  "plausible_control_string_tail family b = (case family of
       FamOsc \<Rightarrow> list_all osc_tail_byte b
     | FamStTerminated \<Rightarrow> b \<noteq> [] \<and> last b = CHR 0x1b
     | FamHostReplyCsi \<Rightarrow> False
     | FamOrphanedSgrMouseTail \<Rightarrow> list_all (\<lambda>c. digit_or_semicolon c \<or> mouse_final c) b)"

definition stop_discarding :: "byte_framer \<Rightarrow> byte_framer" where
  "stop_discarding f = f\<lparr>bf_discard_until := None, bf_discarded_tail_bytes := 0\<rparr>"

subsection \<open>The drain loop\<close>

datatype drain_result = DrainStop byte_framer | DrainContinue "rstr list" byte_framer

text \<open>What an extracted event does to the windows in which host replies are awaited.\<close>

definition note_event :: "raw_input_event \<Rightarrow> byte_framer \<Rightarrow> byte_framer" where
  "note_event e f =
     (let f1 = (case e of
          EvHostDefaultColor kind color \<Rightarrow> f\<lparr>bf_host_color_replies_awaited := bf_host_color_replies_awaited f - 1\<rparr>
        | EvHostPaletteColors colors \<Rightarrow> f\<lparr>bf_host_color_replies_awaited := bf_host_color_replies_awaited f - 1\<rparr>
        | EvHostCellSizeReport width height \<Rightarrow>
            f\<lparr>bf_host_cell_size_replies_awaited := bf_host_cell_size_replies_awaited f - 1\<rparr>
        | EvFocusGained \<Rightarrow> if bf_host_appearance_query_on_focus f then host_appearance_query_sent f else f
        | EvHostColorSchemeChanged appearance \<Rightarrow>
            (let f0 = f\<lparr>bf_host_appearance_reply_awaited := False\<rparr>
             in if bf_host_color_scheme_change_tracking f0 then host_color_query_sent f0 else f0)
        | _ \<Rightarrow> f)
      in f1\<lparr>bf_held_pending_host_reply_esc := False\<rparr>)"

definition extract_step :: "(uchar \<Rightarrow> bool) \<Rightarrow> byte_framer \<Rightarrow> drain_result option" where
  "extract_step upper f =
     (if bf_split_coalesced_escape f \<and> prefix (esc @ esc) (bf_buffer f) then
        Some (DrainContinue [esc] (f\<lparr>bf_buffer := drop 1 (bf_buffer f)\<rparr>))
      else Option.bind (extract_one_event upper (bf_buffer f)) (\<lambda>r. Some (case r of
             None \<Rightarrow> DrainStop f
           | Some (event, consumed) \<Rightarrow>
               DrainContinue [take consumed (bf_buffer f)]
                 ((note_event event f)\<lparr>bf_buffer := drop consumed (bf_buffer f)\<rparr>))))"

definition discard_step :: "byte_framer \<Rightarrow> control_family \<Rightarrow> drain_result" where
  "discard_step f family = (case family of
       FamHostReplyCsi \<Rightarrow>
         (let (b, d, over) = discard_host_reply_csi_tail (bf_buffer f) (bf_discarded_tail_bytes f);
              f' = f\<lparr>bf_buffer := b, bf_discarded_tail_bytes := d\<rparr>
          in if over then DrainContinue [] (stop_discarding f') else DrainStop f')
     | FamOrphanedSgrMouseTail \<Rightarrow>
         (let (b, d, over) = discard_orphaned_sgr_mouse_tail (bf_buffer f) (bf_discarded_tail_bytes f);
              f' = f\<lparr>bf_buffer := b, bf_discarded_tail_bytes := d\<rparr>
          in if over then DrainContinue [] (stop_discarding f') else DrainStop f')
     | _ \<Rightarrow> (case control_string_terminator_for_family (bf_buffer f) family of
           None \<Rightarrow> DrainStop f
         | Some len \<Rightarrow> DrainContinue [] (stop_discarding (f\<lparr>bf_buffer := drop len (bf_buffer f)\<rparr>))))"

definition drain_step :: "(uchar \<Rightarrow> bool) \<Rightarrow> byte_framer \<Rightarrow> drain_result option" where
  "drain_step upper f =
     (if bf_lone_escape_recently_flushed f \<and> starts_with_incomplete_orphaned_sgr_mouse_tail (bf_buffer f)
      then Some (DrainStop f)
      else
        let dropped = (if bf_lone_escape_recently_flushed f
              then discard_complete_orphaned_sgr_mouse_tail (bf_buffer f) else None);
            f1 = f\<lparr>bf_lone_escape_recently_flushed := False\<rparr>
        in case dropped of
             Some rest \<Rightarrow> Some (DrainContinue [] (f1\<lparr>bf_buffer := rest\<rparr>))
           | None \<Rightarrow> (case bf_discard_until f1 of
               Some family \<Rightarrow> Some (discard_step f1 family)
             | None \<Rightarrow> extract_step upper f1))"

end
