(* ===== verification/RawExtract.thy ===== *)
theory RawExtract
  imports RawFramer
begin

section \<open>What one extraction looks at\<close>

text \<open>
  A complete sequence at the start of the buffer is recognised from its own bytes: appending more
  input does not change it, and cutting the buffer right after it does not either, unless the
  sequence is an ESC in front of another one.
\<close>

subsection \<open>Searching\<close>

lemma find_subsequence_some:
  "find_subsequence h n = Some i \<Longrightarrow> n \<noteq> [] \<Longrightarrow> i + length n \<le> length h \<and> prefix n (drop i h)"
  by (induction h arbitrary: i) (auto split: if_splits dest: prefix_length_le)

lemma find_subsequence_append:
  "find_subsequence h n = Some i \<Longrightarrow> n \<noteq> [] \<Longrightarrow> find_subsequence (h @ t) n = Some i"
proof (induction h arbitrary: i)
  case (Cons c h)
  show ?case
  proof (cases "prefix n (c # h)")
    case True
    then have "prefix n (c # h @ t)" by (metis append_Cons prefix_prefix)
    then show ?thesis using True Cons.prems(1) by simp
  next
    case False
    then obtain j where j: "find_subsequence h n = Some j" "i = Suc j" using Cons.prems(1) by auto
    then have "length n \<le> length h" using find_subsequence_some [OF j(1) Cons.prems(2)] by simp
    then have "\<not> prefix n (c # h @ t)" using False
      by (metis append_Cons le_Suc_eq length_Cons prefix_length_prefix prefixI)
    then show ?thesis using j Cons.IH [OF j(1) Cons.prems(2)] by simp
  qed
qed simp

lemma position_of_some: "position_of p s = Some i \<Longrightarrow> i < length s \<and> p (s ! i)"
  by (induction s arbitrary: i) (auto split: if_splits)

lemma position_of_append: "position_of p s = Some i \<Longrightarrow> position_of p (s @ t) = Some i"
  by (induction s arbitrary: i) (auto split: if_splits)

lemma position_of_take: "position_of p s = Some i \<Longrightarrow> i < k \<Longrightarrow> position_of p (take k s) = Some i"
  by (induction s arbitrary: i k) (auto split: if_splits simp: take_Cons' )

lemma position_of_none: "position_of p s = None \<longleftrightarrow> (\<forall>x \<in> set s. \<not> p x)"
  by (induction s) auto

lemma position_of_later: "position_of p s = None \<Longrightarrow> position_of p (s @ t) = Some i \<Longrightarrow> length s \<le> i"
  using position_of_some [of p "s @ t" i] by (force simp: position_of_none nth_append split: if_splits)

lemma find_subsequence_none: "find_subsequence h n = None \<Longrightarrow> n \<noteq> [] \<Longrightarrow> \<not> prefix n (drop i h)"
  by (induction h arbitrary: i) (auto split: if_splits simp: drop_Cons')

lemma prefix_iff_take: "prefix p s \<longleftrightarrow> take (length p) s = p"
  by (metis append_eq_conv_conj prefix_def)

lemma prefix_append_iff: "length p \<le> length s \<Longrightarrow> prefix p (s @ t) \<longleftrightarrow> prefix p s"
  by (simp add: prefix_iff_take)

lemma prefix_take_iff: "length p \<le> n \<Longrightarrow> prefix p (take n s) \<longleftrightarrow> prefix p s"
  by (simp add: prefix_iff_take min_absorb1)

lemma find_subsequence_later:
  assumes "find_subsequence s n = None" "n \<noteq> []" "find_subsequence (s @ t) n = Some i"
  shows "length s < i + length n"
proof (rule ccontr)
  assume l: "\<not> length s < i + length n"
  have "prefix n (drop i (s @ t))" using find_subsequence_some [OF assms(3,2)] by blast
  then have "prefix n (drop i s)" using l by (simp add: prefix_append_iff)
  then show False using find_subsequence_none [OF assms(1,2)] by blast
qed

lemma find_subsequence_take:
  "find_subsequence h n = Some i \<Longrightarrow> n \<noteq> [] \<Longrightarrow> i + length n \<le> k \<Longrightarrow> find_subsequence (take k h) n = Some i"
proof (induction h arbitrary: i k)
  case (Cons c h)
  then obtain k' where k: "k = Suc k'" by (cases k) auto
  have p: "prefix n (c # take k' h) \<longleftrightarrow> prefix n (c # h)"
    using Cons.prems(3) prefix_take_iff [of n k "c # h"] k by simp
  show ?case
  proof (cases "prefix n (c # h)")
    case True
    then show ?thesis using Cons.prems(1) k p by simp
  next
    case False
    then obtain j where j: "find_subsequence h n = Some j" "i = Suc j" using Cons.prems(1) by auto
    then show ?thesis using Cons.IH [OF j(1) Cons.prems(2), of k'] Cons.prems(3) k p False by simp
  qed
qed simp

lemma find_csi_final_some: "find_csi_final s p = Some n \<Longrightarrow> 2 < n \<and> n \<le> length s"
  by (auto simp: find_csi_final_def dest: position_of_some)

lemma find_csi_final_append: "find_csi_final s p = Some n \<Longrightarrow> find_csi_final (s @ t) p = Some n"
proof -
  assume n: "find_csi_final s p = Some n"
  then obtain i where i: "position_of p (drop 2 s) = Some i" "n = i + 3" by (auto simp: find_csi_final_def)
  have "2 \<le> length s" using position_of_some [OF i(1)] by auto
  then have "drop 2 (s @ t) = drop 2 s @ t" by simp
  then show ?thesis using i position_of_append [OF i(1), of t] by (simp add: find_csi_final_def)
qed

lemma find_csi_final_take: "find_csi_final s p = Some n \<Longrightarrow> find_csi_final (take n s) p = Some n"
  by (auto simp: find_csi_final_def drop_take intro: position_of_take)

lemma take_le_append: "m \<le> length u \<Longrightarrow> take m (u @ t) = take m u"
  by simp

subsection \<open>Terminators\<close>

lemma st_terminator_some: "st_string_terminator s = Some n \<Longrightarrow> 2 \<le> n \<and> n \<le> length s"
  using find_subsequence_some [of s st] by (auto simp: st_string_terminator_def st_def)

lemma st_terminator_append: "st_string_terminator s = Some n \<Longrightarrow> st_string_terminator (s @ t) = Some n"
  using find_subsequence_append [of s st _ t] by (auto simp: st_string_terminator_def st_def)

lemma osc_terminator_some: "osc_string_terminator s = Some n \<Longrightarrow> 1 \<le> n \<and> n \<le> length s"
  using st_terminator_some [of s]
  by (auto simp: osc_string_terminator_def Suc_le_eq min_def dest!: position_of_some split: option.splits if_splits)

lemma osc_terminator_append:
  assumes "osc_string_terminator s = Some n"
  shows "osc_string_terminator (s @ t) = Some n"
proof (cases "st_string_terminator s")
  case (Some a)
  note sa = st_terminator_append [OF Some, of t]
  show ?thesis
  proof (cases "position_of (\<lambda>c. c = CHR 0x07) s")
    case None
    have "a \<le> Suc b" if "position_of (\<lambda>c. c = CHR 0x07) (s @ t) = Some b" for b
      using position_of_later [OF None that] st_terminator_some [OF Some] by simp
    then show ?thesis using assms Some None sa
      by (cases "position_of (\<lambda>c. c = CHR 0x07) (s @ t)") (auto simp: osc_string_terminator_def)
  next
    case (Some b)
    then show ?thesis using assms \<open>st_string_terminator s = Some a\<close> sa position_of_append [OF Some, of t]
      by (simp add: osc_string_terminator_def)
  qed
next
  case None
  then obtain b where b: "position_of (\<lambda>c. c = CHR 0x07) s = Some b" "n = Suc b"
    using assms by (auto simp: osc_string_terminator_def)
  note ba = position_of_append [OF b(1), of t]
  have "Suc b \<le> a" if "st_string_terminator (s @ t) = Some a" for a
  proof -
    obtain i where i: "find_subsequence (s @ t) st = Some i" "a = i + 2"
      using \<open>st_string_terminator (s @ t) = Some a\<close> unfolding st_string_terminator_def by blast
    have "find_subsequence s st = None" using None by (simp add: st_string_terminator_def)
    then have "length s < i + length st" using i(1) by (intro find_subsequence_later) (simp_all add: st_def)
    then show ?thesis using position_of_some [OF b(1)] i(2) by (simp add: st_def)
  qed
  then show ?thesis using b(2) ba
    by (cases "st_string_terminator (s @ t)") (auto simp: osc_string_terminator_def)
qed

lemma st_terminator_take: "st_string_terminator s = Some n \<Longrightarrow> n \<le> k \<Longrightarrow> st_string_terminator (take k s) = Some n"
  using find_subsequence_take [of s st _ k] by (auto simp: st_string_terminator_def st_def)

lemma find_subsequence_take_none: "find_subsequence h n = None \<Longrightarrow> n \<noteq> [] \<Longrightarrow> find_subsequence (take k h) n = None"
  using find_subsequence_append [of "take k h" n _ "drop k h"] by (cases "find_subsequence (take k h) n") auto

lemma position_of_take_none: "position_of p s = None \<Longrightarrow> position_of p (take k s) = None"
  by (auto simp: position_of_none dest: in_set_takeD)

lemma osc_terminator_take:
  assumes "osc_string_terminator s = Some n"
  shows "osc_string_terminator (take n s) = Some n"
proof -
  let ?u = "take n s"
  have len: "length ?u = n" using osc_terminator_some [OF assms] by simp
  have same: "osc_string_terminator ?u = Some m \<Longrightarrow> m = n" for m
    using osc_terminator_append [of ?u m "drop n s"] assms by simp
  have "osc_string_terminator ?u \<noteq> None"
  proof (cases "st_string_terminator s = Some n")
    case True
    then show ?thesis using st_terminator_take [OF True, of n]
      by (simp add: osc_string_terminator_def split: option.split)
  next
    case False
    then obtain b where b: "position_of (\<lambda>c. c = CHR 0x07) s = Some b" "n = Suc b"
      using assms by (auto simp: osc_string_terminator_def min_def split: option.splits if_splits)
    have "position_of (\<lambda>c. c = CHR 0x07) ?u = Some b" using b by (intro position_of_take) simp_all
    then show ?thesis by (simp add: osc_string_terminator_def split: option.split)
  qed
  then show ?thesis using same by auto
qed

subsection \<open>Complete escape sequences\<close>

text \<open>The part of the case distinction after the mouse check and the doubled escape.\<close>

definition escape_body_len :: "rstr \<Rightarrow> nat option" where
  "escape_body_len buffer =
     (if prefix csi buffer then
        (if prefix (csi @ ''<'') buffer then find_csi_final buffer mouse_final
         else if prefix (csi @ ''M'') buffer then (if 6 \<le> length buffer then Some 6 else None)
         else find_csi_final buffer csi_final)
      else case control_string buffer of
        Some (CsComplete len _) \<Rightarrow> Some len
      | Some (CsIncomplete _) \<Rightarrow> None
      | None \<Rightarrow>
          if prefix (esc @ ''O'') buffer then (if 3 \<le> length buffer then Some 3 else None)
          else Option.bind (utf8_char_width (byte (hd (tl buffer)))) (\<lambda>w.
            if length buffer < 1 + w \<or> \<not> valid_utf8 (take w (tl buffer)) then None else Some (1 + w)))"

lemma complete_unfold:
  "buffer \<noteq> [] \<Longrightarrow> complete_escape_sequence_len buffer =
     (if length buffer = 1 then None
      else case escape_before_mouse buffer of
        Some r \<Rightarrow> r
      | None \<Rightarrow> if prefix (esc @ esc) buffer then map_option Suc (complete_escape_sequence_len (tl buffer))
                else escape_body_len buffer)"
proof (cases buffer)
  case (Cons c rest)
  show ?thesis
    unfolding Cons complete_escape_sequence_len.simps(2) escape_body_len_def Let_def list.sel
    by (simp only: list.distinct simp_thms)
qed simp

declare complete_escape_sequence_len.simps(2) [simp del]

lemma no_mouse_without_double: "\<not> prefix (esc @ esc) s \<Longrightarrow> escape_before_mouse s = None"
proof -
  assume n: "\<not> prefix (esc @ esc) s"
  have "\<not> prefix ((esc @ esc) @ x) s" for x using n by (metis append_prefixD)
  from this [of "''[<''"] this [of "''[M''"] show ?thesis by (simp add: escape_before_mouse_def)
qed

lemma complete_single_escape:
  assumes "\<not> prefix (esc @ esc) s" "2 \<le> length s"
  shows "complete_escape_sequence_len s = escape_body_len s"
proof -
  have "s \<noteq> []" "length s \<noteq> 1" using assms(2) by auto
  then show ?thesis using no_mouse_without_double [OF assms(1)] assms(1) by (simp add: complete_unfold)
qed

lemma two_bytes:
  assumes "2 \<le> length s"
  obtains a b r where "s = a # b # r"
  using assms by (cases s; cases "tl s") auto

lemma control_introducer_append: "2 \<le> length s \<Longrightarrow> control_introducer (s @ t) = control_introducer s"
  by (erule two_bytes) (simp add: control_introducer_def)

lemma terminator_props:
  assumes "control_string_terminator_for_family s fam = Some n" "fam \<in> {FamOsc, FamStTerminated}"
  shows "1 \<le> n" "n \<le> length s" "control_string_terminator_for_family (s @ t) fam = Some n"
    "control_string_terminator_for_family (take n s) fam = Some n"
  using assms osc_terminator_some [of s n] st_terminator_some [of s n] osc_terminator_append [of s n t]
    st_terminator_append [of s n t] osc_terminator_take [of s n] st_terminator_take [of s n n]
  by (auto simp: control_string_terminator_for_family_def)

lemma introducer_family: "control_introducer s = Some fam \<Longrightarrow> fam \<in> {FamOsc, FamStTerminated}"
  by (auto simp: control_introducer_def split: list.splits if_splits)

lemma utf8_char_width_pos: "utf8_char_width b = Some w \<Longrightarrow> 1 \<le> w"
  by (auto simp: utf8_char_width_def split: if_splits)

lemma escape_body_cases:
  assumes "escape_body_len s = Some n" "2 \<le> length s"
  obtains (mouse) "prefix (csi @ ''<'') s" "find_csi_final s mouse_final = Some n"
    | (default) "prefix (csi @ ''M'') s" "n = 6" "6 \<le> length s"
    | (csi) "prefix csi s" "\<not> prefix (csi @ ''<'') s" "\<not> prefix (csi @ ''M'') s" "find_csi_final s csi_final = Some n"
    | (control) fam where "\<not> prefix csi s" "control_introducer s = Some fam"
        "control_string_terminator_for_family s fam = Some n"
    | (ss3) "\<not> prefix csi s" "control_introducer s = None" "prefix (esc @ ''O'') s" "n = 3" "3 \<le> length s"
    | (alt) w where "\<not> prefix csi s" "control_introducer s = None" "\<not> prefix (esc @ ''O'') s"
        "utf8_char_width (byte (hd (tl s))) = Some w" "n = 1 + w" "1 + w \<le> length s" "valid_utf8 (take w (tl s))"
proof (cases "prefix csi s")
  case True
  then show thesis using assms mouse default csi by (auto simp: escape_body_len_def split: if_splits)
next
  case False
  show thesis
  proof (cases "control_introducer s")
    case None
    then have "(if prefix (esc @ ''O'') s then (if 3 \<le> length s then Some 3 else None)
        else Option.bind (utf8_char_width (byte (hd (tl s)))) (\<lambda>w.
          if length s < 1 + w \<or> \<not> valid_utf8 (take w (tl s)) then None else Some (1 + w))) = Some n"
      using assms(1) False by (simp add: escape_body_len_def control_string_def)
    then show thesis using ss3 [OF False None] alt [OF False None]
      by (auto simp: bind_eq_Some_conv not_less split: if_splits)
  next
    case (Some fam)
    then show thesis using assms(1) False control [OF False Some]
      by (auto simp: escape_body_len_def control_string_def split: option.splits)
  qed
qed

lemma prefix_csi_start: "prefix (csi @ x) s \<Longrightarrow> prefix csi s"
  by (metis append_prefixD)

lemma introduced_terminator:
  assumes "control_introducer s = Some fam" "control_string_terminator_for_family s fam = Some n"
  shows "2 \<le> n"
proof -
  have "s \<noteq> []" "hd s = CHR 0x1b" using assms(1) by (auto simp: control_introducer_def split: list.splits if_splits)
  then have "0 < i" if "position_of (\<lambda>c. c = CHR 0x07) s = Some i" for i
    using position_of_some [OF that] by (cases i) (auto simp: hd_conv_nth)
  then show ?thesis using assms(2) introducer_family [OF assms(1)] st_terminator_some [of s]
    by (force simp: control_string_terminator_for_family_def osc_string_terminator_def split: option.splits)
qed

text \<open>The body only depends on its first \<open>n\<close> bytes: a string that agrees there has the same length.\<close>

lemma escape_body_agree:
  assumes "escape_body_len s = Some n" "2 \<le> length s" "take n u = take n s" "n \<le> length u"
    and find: "\<And>p. find_csi_final s p = Some n \<Longrightarrow> find_csi_final u p = Some n"
    and ctl: "\<And>fam. fam \<in> {FamOsc, FamStTerminated} \<Longrightarrow> control_string_terminator_for_family s fam = Some n
      \<Longrightarrow> control_string_terminator_for_family u fam = Some n"
  shows "2 \<le> n \<and> n \<le> length s \<and> escape_body_len u = Some n"
proof -
  have pre: "prefix x u \<longleftrightarrow> prefix x s" if "length x \<le> n" for x
    using that prefix_take_iff [of x n u] prefix_take_iff [of x n s] assms(3) by simp
  have intro: "control_introducer u = control_introducer s" if "2 \<le> n"
  proof -
    have "control_introducer s = control_introducer (take n s)" if "2 \<le> length s" for s
      using control_introducer_append [of "take n s" "drop n s"] \<open>2 \<le> n\<close> that by simp
    then show ?thesis using assms(2-4) that by (metis order_trans)
  qed
  show ?thesis using assms(1,2)
  proof (cases rule: escape_body_cases)
    case mouse
    then have n: "3 \<le> n" "n \<le> length s" using find_csi_final_some by force+
    then show ?thesis using mouse pre [of csi] pre [of "csi @ ''<''"] find [OF mouse(2)] prefix_csi_start [OF mouse(1)]
      by (auto simp: escape_body_len_def)
  next
    case default
    have m: "prefix (csi @ ''M'') u" using default pre [of "csi @ ''M''"] by simp
    then have "\<not> prefix (csi @ ''<'') u" by (auto simp: prefix_def)
    then show ?thesis using default m prefix_csi_start [OF m] assms(4) by (simp add: escape_body_len_def)
  next
    case csi
    then have n: "3 \<le> n" "n \<le> length s" using find_csi_final_some by force+
    then show ?thesis using csi pre [of csi] pre [of "csi @ ''<''"] pre [of "csi @ ''M''"] find [OF csi(4)]
      by (auto simp: escape_body_len_def)
  next
    case (control fam)
    note f = introducer_family [OF control(2)]
    have t: "2 \<le> n" "n \<le> length s"
      using introduced_terminator [OF control(2,3)] terminator_props(2) [OF control(3) f] by auto
    have "control_string u = Some (CsComplete n fam)"
      using ctl [OF f control(3)] intro [OF t(1)] control(2) by (simp add: control_string_def)
    moreover have "\<not> prefix csi u" using pre [of csi] control(1) t(1) by simp
    ultimately show ?thesis using t by (simp add: escape_body_len_def)
  next
    case ss3
    then show ?thesis using pre [of csi] pre [of "esc @ ''O''"] intro assms(4)
      by (auto simp: escape_body_len_def control_string_def)
  next
    case (alt w)
    then have n: "2 \<le> n" "n \<le> length s" using utf8_char_width_pos by auto
    have tl: "take w (tl u) = take w (tl s)"
      using assms(3) alt(5) tl_take [of n u] tl_take [of n s] by simp
    moreover have "1 \<le> w" using utf8_char_width_pos [OF alt(4)] .
    ultimately have hd: "hd (tl u) = hd (tl s)"
      by (metis hd_take less_le_trans zero_less_one)
    show ?thesis using alt n tl hd pre [of csi] pre [of "esc @ ''O''"] intro assms(4)
      by (auto simp: escape_body_len_def control_string_def)
  qed
qed

lemma escape_body_append:
  assumes "escape_body_len s = Some n" "2 \<le> length s"
  shows "2 \<le> n" "n \<le> length s" "escape_body_len (s @ t) = Some n" "escape_body_len (take n s) = Some n"
proof -
  have n: "n \<le> length s" using assms
  proof (cases rule: escape_body_cases)
    case (control fam)
    then show ?thesis using terminator_props(2) introducer_family by blast
  qed (use find_csi_final_some in auto)
  have t: "control_string_terminator_for_family u fam = Some n"
    if "fam \<in> {FamOsc, FamStTerminated}" "control_string_terminator_for_family s fam = Some n" "u \<in> {s @ t, take n s}" for fam u
    using that terminator_props(3,4) [OF that(2,1)] by blast
  have "2 \<le> n \<and> n \<le> length s \<and> escape_body_len (s @ t) = Some n"
  proof (rule escape_body_agree [OF assms])
    show "take n (s @ t) = take n s" "n \<le> length (s @ t)" using n by simp_all
  qed (blast intro: find_csi_final_append t)+
  then show "2 \<le> n" "n \<le> length s" "escape_body_len (s @ t) = Some n" by blast+
  have "2 \<le> n \<and> n \<le> length s \<and> escape_body_len (take n s) = Some n"
  proof (rule escape_body_agree [OF assms])
    show "take n (take n s) = take n s" "n \<le> length (take n s)" using n by simp_all
  qed (blast intro: find_csi_final_take t)+
  then show "escape_body_len (take n s) = Some n" by blast
qed

lemma escape_before_mouse_append:
  assumes "escape_before_mouse s = Some (Some n)"
  shows "n = 1 \<and> escape_before_mouse (s @ t) = Some (Some 1)"
proof (cases "prefix (esc @ csi @ ''<'') s")
  case True
  then have pt: "prefix (esc @ csi @ ''<'') (s @ t)" by (metis prefix_append)
  have "\<not> prefix (esc @ csi @ ''M'') s" using True by (auto simp: prefix_def)
  then obtain m where m: "find_csi_final (tl s) mouse_final = Some m"
    using assms True by (auto simp: escape_before_mouse_def split: option.splits)
  have s: "s \<noteq> []" using True by auto
  have "take m (tl (s @ t)) = take m (tl s)" using find_csi_final_some [OF m] s by simp
  moreover have "find_csi_final (tl (s @ t)) mouse_final = Some m" using find_csi_final_append [OF m] s by simp
  ultimately show ?thesis using assms m True pt
    unfolding escape_before_mouse_def by (auto simp: Let_def split: if_splits)
next
  case False
  then have d: "7 \<le> length s" "prefix (esc @ csi @ ''M'') s" "parse_default_mouse (take 6 (tl s)) \<noteq> None" "n = 1"
    using assms by (auto simp: escape_before_mouse_def split: if_splits)
  then have pt: "prefix (esc @ csi @ ''M'') (s @ t)" by (metis prefix_append)
  then have "\<not> prefix (esc @ csi @ ''<'') (s @ t)" by (auto simp: prefix_def)
  moreover have "s \<noteq> []" using d(1) by auto
  ultimately show ?thesis using d pt by (simp add: escape_before_mouse_def)
qed

lemma sgr_len: "complete_escape_sequence_len (CHR 0x1b # CHR ''['' # CHR ''<'' # r)
    = find_csi_final (CHR 0x1b # CHR ''['' # CHR ''<'' # r) mouse_final"
  by (subst complete_single_escape) (simp_all add: escape_body_len_def)

lemma default_len: "complete_escape_sequence_len (CHR 0x1b # CHR ''['' # CHR ''M'' # r)
    = (if 3 \<le> length r then Some 6 else None)"
  by (subst complete_single_escape) (simp_all add: escape_body_len_def)

lemma escape_before_mouse_stays:
  assumes "prefix (esc @ esc) s" "escape_before_mouse s = None" "complete_escape_sequence_len (tl s) = Some m"
  shows "escape_before_mouse (s @ t) = None"
proof -
  obtain r where s: "s = CHR 0x1b # CHR 0x1b # r" using assms(1) by (auto simp: prefix_def)
  show ?thesis
  proof (cases r)
    case Nil
    then show ?thesis using assms(3) s by (simp add: complete_unfold)
  next
    case (Cons x r1)
    show ?thesis
    proof (cases "x = CHR ''[''")
      case False
      then show ?thesis using s Cons by (simp add: escape_before_mouse_def)
    next
      case x: True
      show ?thesis
      proof (cases r1)
        case Nil
        have "complete_escape_sequence_len csi = None"
          by (subst complete_single_escape) (simp_all add: escape_body_len_def find_csi_final_def)
        then show ?thesis using assms(3) s Cons x Nil by simp
      next
        case c: (Cons y r2)
        consider "y = CHR ''<''" | "y = CHR ''M''" | "y \<noteq> CHR ''<''" "y \<noteq> CHR ''M''" by blast
        then show ?thesis
        proof cases
          case 1
          let ?u = "CHR 0x1b # CHR ''['' # CHR ''<'' # r2"
          have f: "find_csi_final ?u mouse_final = Some m"
            using assms(3) s Cons x c 1 by (simp add: sgr_len)
          have "find_csi_final (?u @ t) mouse_final = Some m" "take m (?u @ t) = take m ?u"
            using find_csi_final_append [OF f, of t] find_csi_final_some [OF f] take_le_append [of m ?u t] by blast+
          then show ?thesis using assms(2) f s Cons x c 1
            by (simp add: escape_before_mouse_def Let_def split: if_splits)
        next
          case 2
          then have "3 \<le> length r2" using assms(3) s Cons x c by (simp add: default_len split: if_splits)
          then show ?thesis using assms(2) s Cons x c 2 by (simp add: escape_before_mouse_def split: if_splits)
        next
          case 3
          then show ?thesis using s Cons x c by (simp add: escape_before_mouse_def)
        qed
      qed
    qed
  qed
qed

lemma complete_append:
  "complete_escape_sequence_len s = Some n \<Longrightarrow>
     0 < n \<and> n \<le> length s \<and> complete_escape_sequence_len (s @ t) = Some n"
proof (induction s arbitrary: n)
  case (Cons c rest)
  let ?s = "c # rest"
  have len: "2 \<le> length ?s" using Cons.prems by (cases rest) (auto simp: complete_unfold)
  then have one: "length ?s \<noteq> 1" "length (?s @ t) \<noteq> 1" by auto
  have pre: "prefix (esc @ esc) (?s @ t) \<longleftrightarrow> prefix (esc @ esc) ?s" using len by (intro prefix_append_iff) simp
  show ?case
  proof (cases "prefix (esc @ esc) ?s")
    case False
    then have "escape_body_len ?s = Some n" using Cons.prems complete_single_escape [OF False len] by simp
    note b = escape_body_append [OF this len]
    have "complete_escape_sequence_len (?s @ t) = escape_body_len (?s @ t)"
      using pre False len by (intro complete_single_escape) auto
    then show ?thesis using b by auto
  next
    case True
    show ?thesis
    proof (cases "escape_before_mouse ?s")
      case (Some r)
      then have "escape_before_mouse ?s = Some (Some n)"
        using Cons.prems one(1) by (subst (asm) complete_unfold) auto
      note e = escape_before_mouse_append [OF this, of t]
      then show ?thesis using one(2) len by (subst complete_unfold) auto
    next
      case None
      then obtain m where m: "complete_escape_sequence_len rest = Some m" "n = Suc m"
        using Cons.prems one(1) True by (subst (asm) complete_unfold) auto
      have "escape_before_mouse (?s @ t) = None"
        using escape_before_mouse_stays [OF True None] m(1) by simp
      then show ?thesis using Cons.IH [OF m(1)] m(2) one(2) pre True by (subst complete_unfold) auto
    qed
  qed
qed simp

text \<open>Cut after the sequence: only a doubled ESC looks further.\<close>

lemma complete_take:
  assumes "complete_escape_sequence_len s = Some n" "\<not> prefix (esc @ esc) s"
  shows "complete_escape_sequence_len (take n s) = Some n"
proof -
  have ne: "s \<noteq> []" using assms(1) by auto
  then have "length s \<noteq> 1" using assms(1) by (auto simp: complete_unfold)
  then have len: "2 \<le> length s" using ne by (cases s; cases "tl s") auto
  have "escape_body_len s = Some n" using assms(1) complete_single_escape [OF assms(2) len] by simp
  note b = escape_body_append [OF this len]
  have "\<not> prefix (esc @ esc) (take n s)" using assms(2) b(1) by (simp add: prefix_take_iff)
  then show ?thesis using b by (subst complete_single_escape) auto
qed

subsection \<open>Extraction\<close>

lemma paste_start_pieces: "k < 6 \<Longrightarrow> complete_escape_sequence_len (take k paste_start) = None"
proof -
  have "list_all (\<lambda>k. complete_escape_sequence_len (take k paste_start) = None) [0..<6]" by code_simp
  then show "k < 6 \<Longrightarrow> ?thesis" by (simp add: list_all_iff)
qed

lemma paste_start_split:
  assumes "prefix paste_start (s @ t)" "\<not> prefix paste_start s" "s \<noteq> []"
  shows "hd s = CHR 0x1b \<and> complete_escape_sequence_len s = None"
proof -
  have l: "length s < 6"
  proof (rule ccontr)
    assume "\<not> length s < 6"
    then show False using assms(1,2) prefix_append_iff [of paste_start s t] by (simp add: paste_start_def)
  qed
  have "take 6 (s @ t) = paste_start"
    using assms(1) unfolding prefix_iff_take by (simp add: paste_start_def eval_nat_numeral)
  then have "take (length s) paste_start = s" using l by (metis append_eq_conv_conj less_imp_le min_absorb1 take_take)
  moreover from this assms(3) have "hd s = CHR 0x1b" by (cases s) (auto simp: paste_start_def)
  ultimately show ?thesis using paste_start_pieces [OF l] by simp
qed

lemma first_char_append:
  assumes "first_complete_utf8_char_len s = Some n"
  shows "0 < n" "n \<le> length s" "first_complete_utf8_char_len (s @ t) = Some n"
    "first_complete_utf8_char_len (take n s) = Some n"
proof -
  obtain c r where s: "s = c # r" using assms by (cases s) (auto simp: first_complete_utf8_char_len_def)
  have w: "utf8_char_width (byte c) = Some n" "n \<le> length s" "valid_utf8 (take n s)"
    using assms s by (auto simp: first_complete_utf8_char_len_def bind_eq_Some_conv split: if_splits)
  have n: "1 \<le> n" using utf8_char_width_pos [OF w(1)] .
  show "0 < n" "n \<le> length s" using n w(2) by simp_all
  show "first_complete_utf8_char_len (s @ t) = Some n"
    using w s take_le_append [OF w(2), of t] by (simp add: first_complete_utf8_char_len_def)
  have "take n s = c # take (n - 1) r" using s n by (cases n) simp_all
  then show "first_complete_utf8_char_len (take n s) = Some n"
    using w s n by (simp add: first_complete_utf8_char_len_def min_absorb2 take_Cons')
qed

text \<open>What an extraction is, by the first byte.\<close>

lemma extract_cases:
  assumes "extract_one_event upper s \<noteq> Some None"
  obtains (paste) e where "prefix paste_start s" "find_subsequence s paste_end = Some e"
      "valid_utf8 (drop (length paste_start) (take e s))"
      "extract_one_event upper s = Some (Some (EvPaste (drop (length paste_start) (take e s)), e + length paste_end))"
    | (escape) len where "\<not> prefix paste_start s" "s \<noteq> []" "hd s = CHR 0x1b"
      "complete_escape_sequence_len s = Some len"
      "extract_one_event upper s = map_option (map_option (\<lambda>e. (e, len))) (escape_event (take len s))"
    | (char) n e where "\<not> prefix paste_start s" "s \<noteq> []" "hd s \<noteq> CHR 0x1b"
      "first_complete_utf8_char_len s = Some n" "text_event upper (take n s) = Some e"
      "extract_one_event upper s = Some (Some (e, n))"
proof (cases "prefix paste_start s")
  case True
  then have "s \<noteq> []" by (auto simp: paste_start_def)
  then show thesis using assms True paste
    by (cases "find_subsequence s paste_end") (auto simp: extract_one_event_def Let_def split: if_splits)
next
  case np: False
  have s: "s \<noteq> []" using assms by (auto simp: extract_one_event_def)
  show thesis
  proof (cases "hd s = CHR 0x1b")
    case True
    then show thesis using assms np s escape [OF np s True]
      by (cases "complete_escape_sequence_len s") (auto simp: extract_one_event_def)
  next
    case False
    then show thesis using assms np s char [OF np s False]
      by (cases "first_complete_utf8_char_len s"; cases "text_event upper (take (the (first_complete_utf8_char_len s)) s)")
        (auto simp: extract_one_event_def)
  qed
qed

lemma with_length:
  "map_option (map_option (\<lambda>e. (e, len))) x = Some (Some (e, n)) \<Longrightarrow> n = len \<and> x = Some (Some e)"
  by (cases x) (auto simp: map_option_case split: option.splits)

lemma extract_bounds: "extract_one_event upper s = Some (Some (e, n)) \<Longrightarrow> 0 < n \<and> n \<le> length s"
proof -
  assume x: "extract_one_event upper s = Some (Some (e, n))"
  then have "extract_one_event upper s \<noteq> Some None" by simp
  then show ?thesis
  proof (cases rule: extract_cases)
    case (paste i)
    then show ?thesis using x find_subsequence_some [OF paste(2)] by (auto simp: paste_end_def)
  next
    case (escape len)
    then have "n = len" using x by (metis with_length)
    then show ?thesis using complete_append [OF escape(4)] by auto
  next
    case (char k e')
    then show ?thesis using x first_char_append [OF char(4)] by auto
  qed
qed

lemma paste_end_not_Nil: "paste_end \<noteq> []"
  by (simp add: paste_end_def)

lemma paste_start_not_Nil: "paste_start \<noteq> []"
  by (simp add: paste_start_def)

lemma extract_append:
  assumes "extract_one_event upper s \<noteq> Some None"
  shows "extract_one_event upper (s @ t) = extract_one_event upper s"
  using assms
proof (cases rule: extract_cases)
  case (paste e)
  have p: "prefix paste_start (s @ t)" using paste(1) by (metis prefix_append)
  have "take e (s @ t) = take e s" using find_subsequence_some [OF paste(2) paste_end_not_Nil] by simp
  then show ?thesis using p paste find_subsequence_append [OF paste(2) paste_end_not_Nil, of t] paste_start_not_Nil
    by (auto simp: extract_one_event_def [of _ "s @ t"])
next
  case (escape len)
  have "\<not> prefix paste_start (s @ t)" using paste_start_split [OF _ escape(1,2)] escape(4) by auto
  moreover note c = complete_append [OF escape(4), of t]
  moreover have "take len (s @ t) = take len s" using c by simp
  ultimately show ?thesis using escape by (simp add: extract_one_event_def [of _ "s @ t"])
next
  case (char n e)
  have "\<not> prefix paste_start (s @ t)" using paste_start_split [OF _ char(1,2)] char(3) by auto
  moreover note c = first_char_append [OF char(4)]
  moreover have "take n (s @ t) = take n s" using c(2) by simp
  ultimately show ?thesis using char by (simp add: extract_one_event_def [of _ "s @ t"])
qed

lemma extract_take:
  assumes "extract_one_event upper s = Some (Some (e, n))" "\<not> prefix (esc @ esc) s"
  shows "extract_one_event upper (take n s) = Some (Some (e, n))"
proof -
  have "extract_one_event upper s \<noteq> Some None" using assms(1) by simp
  then show ?thesis
  proof (cases rule: extract_cases)
    case (paste i)
    have n: "n = i + length paste_end" using assms(1) paste(4) by simp
    have f: "find_subsequence (take n s) paste_end = Some i"
      using find_subsequence_take [OF paste(2) paste_end_not_Nil, of n] n by simp
    have "6 \<le> n" using n by (simp add: paste_end_def)
    then have "prefix paste_start (take n s)" using paste(1) by (subst prefix_take_iff) (simp_all add: paste_start_def)
    moreover have "take n s \<noteq> []" using calculation paste_start_not_Nil by (metis prefix_bot.extremum_uniqueI)
    moreover have "take i (take n s) = take i s" using n by simp
    ultimately show ?thesis unfolding extract_one_event_def [of _ "take n s"]
      using paste f assms(1) n by simp
  next
    case (escape len)
    have n: "n = len" using escape(5) assms(1) by (metis with_length)
    note c = complete_append [OF escape(4)]
    have "\<not> prefix paste_start (take n s)" using escape(1) by (metis prefix_order.trans take_is_prefix)
    moreover have "take n s \<noteq> []" "hd (take n s) = CHR 0x1b" using c n escape(2,3) by auto
    ultimately show ?thesis unfolding extract_one_event_def [of _ "take n s"]
      using escape(5) assms complete_take [OF escape(4) assms(2)] n by simp
  next
    case (char k e')
    have n: "n = k" using char(6) assms(1) by simp
    note c = first_char_append [OF char(4)]
    have "\<not> prefix paste_start (take n s)" using char(1) by (metis prefix_order.trans take_is_prefix)
    moreover have "take n s \<noteq> []" "hd (take n s) \<noteq> CHR 0x1b" using c n char(2,3) by auto
    ultimately show ?thesis unfolding extract_one_event_def [of _ "take n s"]
      using char c(4) assms n by simp
  qed
qed

end
