(* ===== verification/RawFraming.thy ===== *)
theory RawFraming
  imports RawExtract
begin

section \<open>Draining and flushing\<close>

text \<open>
  The drain loop of \<open>RawInputByteFramer\<close> with its termination, \<open>push\<close>, the flush after the input
  timeout, and the events of the chunks (\<open>RawInputFramer\<close>), all in \<open>src/src/raw_input.rs\<close>.
\<close>

subsection \<open>The loop ends\<close>

definition drain_measure :: "byte_framer \<Rightarrow> nat" where
  "drain_measure f = 2 * length (bf_buffer f) + (if bf_discard_until f = None then 0 else 1)"

lemma discard_complete_shorter:
  "discard_complete_orphaned_sgr_mouse_tail b = Some r \<Longrightarrow> length r < length b"
  by (auto simp: discard_complete_orphaned_sgr_mouse_tail_def control_string_terminator_for_family_def
      bind_eq_Some_conv Let_def split: if_splits dest!: position_of_some)

lemma discard_host_length: "fst (discard_host_reply_csi_tail b d) = b' \<Longrightarrow> length b' \<le> length b"
  by (auto simp: discard_host_reply_csi_tail_def Let_def split: option.splits)

lemma discard_orphan_length: "fst (discard_orphaned_sgr_mouse_tail b d) = b' \<Longrightarrow> length b' \<le> length b"
  by (auto simp: discard_orphaned_sgr_mouse_tail_def Let_def split: option.splits)

lemma discard_step_measure:
  assumes "discard_step f family = DrainContinue cs f'" "bf_discard_until f \<noteq> None"
  shows "drain_measure f' < drain_measure f"
proof -
  have "bf_discard_until f' = None" "length (bf_buffer f') \<le> length (bf_buffer f)"
    using assms(1) discard_host_length [of "bf_buffer f" "bf_discarded_tail_bytes f"]
      discard_orphan_length [of "bf_buffer f" "bf_discarded_tail_bytes f"]
    by (auto simp: discard_step_def stop_discarding_def Let_def split: control_family.splits prod.splits if_splits option.splits)
  then show ?thesis using assms(2) by (auto simp: drain_measure_def)
qed

lemma note_event_fields [simp]:
  "bf_buffer (note_event e f) = bf_buffer f" "bf_discard_until (note_event e f) = bf_discard_until f"
  "bf_lone_escape_recently_flushed (note_event e f) = bf_lone_escape_recently_flushed f"
  "bf_split_coalesced_escape (note_event e f) = bf_split_coalesced_escape f"
  "bf_discarded_tail_bytes (note_event e f) = bf_discarded_tail_bytes f"
  by (simp_all add: note_event_def Let_def host_appearance_query_sent_def host_color_query_sent_def
      split: raw_input_event.split)

lemma extract_step_measure:
  assumes "extract_step upper f = Some (DrainContinue cs f')"
  shows "drain_measure f' < drain_measure f"
proof (cases "bf_split_coalesced_escape f \<and> prefix (esc @ esc) (bf_buffer f)")
  case True
  then have "2 \<le> length (bf_buffer f)" by (auto dest: prefix_length_le)
  then show ?thesis using assms True by (auto simp: extract_step_def drain_measure_def)
next
  case False
  then obtain e n where "extract_one_event upper (bf_buffer f) = Some (Some (e, n))"
    "f' = (note_event e f)\<lparr>bf_buffer := drop n (bf_buffer f)\<rparr>"
    using assms by (auto simp: extract_step_def bind_eq_Some_conv split: option.splits)
  then show ?thesis using extract_bounds [of upper "bf_buffer f" e n] by (auto simp: drain_measure_def)
qed

lemma drain_step_measure:
  assumes "drain_step upper f = Some (DrainContinue cs f')"
  shows "drain_measure f' < drain_measure f"
proof -
  let ?f1 = "f\<lparr>bf_lone_escape_recently_flushed := False\<rparr>"
  have m: "drain_measure ?f1 = drain_measure f" by (simp add: drain_measure_def)
  show ?thesis
  proof (cases "if bf_lone_escape_recently_flushed f then discard_complete_orphaned_sgr_mouse_tail (bf_buffer f) else None")
    case (Some r)
    then have "f' = ?f1\<lparr>bf_buffer := r\<rparr>" "discard_complete_orphaned_sgr_mouse_tail (bf_buffer f) = Some r"
      using assms by (auto simp: drain_step_def split: if_splits)
    then show ?thesis using discard_complete_shorter by (simp add: drain_measure_def)
  next
    case None
    show ?thesis
    proof (cases "bf_discard_until f")
      case (Some family)
      then have "discard_step ?f1 family = DrainContinue cs f'"
        using assms None by (simp add: drain_step_def split: if_splits)
      then show ?thesis using discard_step_measure [of ?f1] Some m by simp
    next
      case n: None
      then have "extract_step upper ?f1 = Some (DrainContinue cs f')"
        using assms None by (simp add: drain_step_def split: if_splits)
      then show ?thesis using extract_step_measure [of upper ?f1] m by simp
    qed
  qed
qed

function drain_available_chunks :: "(uchar \<Rightarrow> bool) \<Rightarrow> byte_framer \<Rightarrow> (rstr list \<times> byte_framer) option" where
  "drain_available_chunks upper f =
     (case drain_step upper f of
        None \<Rightarrow> None
      | Some (DrainStop f') \<Rightarrow> Some ([], f')
      | Some (DrainContinue cs f') \<Rightarrow>
          map_option (\<lambda>(chunks, f''). (cs @ chunks, f'')) (drain_available_chunks upper f'))"
  by auto
termination
  by (relation "measure (\<lambda>(upper, f). drain_measure f)") (auto dest: drain_step_measure)

declare drain_available_chunks.simps [simp del]

definition push :: "(uchar \<Rightarrow> bool) \<Rightarrow> byte_framer \<Rightarrow> rstr \<Rightarrow> (rstr list \<times> byte_framer) option" where
  "push upper f data = drain_available_chunks upper (f\<lparr>bf_buffer := bf_buffer f @ data\<rparr>)"

subsection \<open>The flush after the timeout\<close>

definition flush_discarding :: "byte_framer \<Rightarrow> control_family \<Rightarrow> byte_framer" where
  "flush_discarding f family =
     (if family = FamHostReplyCsi then f
      else if family = FamOrphanedSgrMouseTail then stop_discarding (f\<lparr>bf_buffer := []\<rparr>)
      else
        let b = bf_buffer f;
            keep_split_st = (b \<noteq> [] \<and> last b = CHR 0x1b);
            d = bf_discarded_tail_bytes f + length b
        in if plausible_control_string_tail family b \<and> d \<le> max_discarded_control_tail_bytes
           then f\<lparr>bf_discarded_tail_bytes := d, bf_buffer := (if keep_split_st then esc else [])\<rparr>
           else stop_discarding (f\<lparr>bf_buffer := []\<rparr>))"

definition discard_from :: "byte_framer \<Rightarrow> control_family \<Rightarrow> byte_framer" where
  "discard_from f family = f\<lparr>bf_discard_until := Some family, bf_discarded_tail_bytes := 0, bf_buffer := []\<rparr>"

text \<open>A key, a pending character, or nothing that could still become one.\<close>

definition flush_plain :: "byte_framer \<Rightarrow> rstr list \<times> byte_framer" where
  "flush_plain f =
     (let b = bf_buffer f in
      if b = esc then
        (if awaiting_host_reply f \<and> \<not> bf_held_pending_host_reply_esc f
         then ([], f\<lparr>bf_held_pending_host_reply_esc := True\<rparr>)
         else ([b], f\<lparr>bf_host_color_replies_awaited := 0, bf_host_cell_size_replies_awaited := 0,
                bf_host_appearance_reply_awaited := False, bf_held_pending_host_reply_esc := False,
                bf_lone_escape_recently_flushed := True, bf_buffer := []\<rparr>))
      else if valid_utf8 b \<and> parse_terminal_key_sequence b \<noteq> None then ([b], f\<lparr>bf_buffer := []\<rparr>)
      else if starts_with_incomplete_utf8_char b then ([], f)
      else if b \<noteq> [] \<and> hd b = CHR 0x1b \<and> starts_with_incomplete_utf8_char (tl b) then ([], f)
      else ([], f\<lparr>bf_lone_escape_recently_flushed := False, bf_buffer := []\<rparr>))"

definition flush_replies :: "byte_framer \<Rightarrow> rstr list \<times> byte_framer" where
  "flush_replies f =
     (let b = bf_buffer f in
      if 0 < bf_host_cell_size_replies_awaited f \<and> starts_with_incomplete_host_cell_size_report b then
        ([], discard_from (f\<lparr>bf_host_cell_size_replies_awaited := 0, bf_held_pending_host_reply_esc := False\<rparr>) FamHostReplyCsi)
      else if starts_with_incomplete_host_color_scheme_report b then
        (if bf_host_appearance_reply_awaited f \<and> \<not> bf_held_pending_host_reply_esc f
         then ([], f\<lparr>bf_held_pending_host_reply_esc := True\<rparr>)
         else ([], discard_from (f\<lparr>bf_host_appearance_reply_awaited := False, bf_held_pending_host_reply_esc := False\<rparr>) FamHostReplyCsi))
      else case control_string b of
        Some (CsIncomplete family) \<Rightarrow> ([], discard_from f family)
      | _ \<Rightarrow> flush_plain f)"

definition flush_incomplete :: "byte_framer \<Rightarrow> rstr list \<times> byte_framer" where
  "flush_incomplete f =
     (case bf_discard_until f of
        Some family \<Rightarrow> ([], flush_discarding f family)
      | None \<Rightarrow>
          let b = bf_buffer f in
          if b = [] then ([], f)
          else if bf_lone_escape_recently_flushed f \<and> prefix ''[<'' b then
            ([], (discard_or_buffer_orphaned_sgr_mouse_tail f)\<lparr>bf_lone_escape_recently_flushed := False\<rparr>)
          else if starts_with_incomplete_sgr_mouse_sequence b then
            ([], f\<lparr>bf_discarded_tail_bytes := length b,
                bf_discard_until := (if length b \<le> max_discarded_control_tail_bytes then Some FamOrphanedSgrMouseTail else None),
                bf_buffer := []\<rparr>)
          else if prefix paste_start b \<and> find_subsequence b paste_end = None then ([], f)
          else if starts_with_incomplete_default_color_response b then ([], f)
          else if (0 < bf_host_cell_size_replies_awaited f \<or> bf_host_appearance_reply_awaited f) \<and> b = csi then
            (if \<not> bf_held_pending_host_reply_esc f then ([], f\<lparr>bf_held_pending_host_reply_esc := True\<rparr>)
             else flush_replies (f\<lparr>bf_host_cell_size_replies_awaited := 0, bf_host_appearance_reply_awaited := False,
                    bf_held_pending_host_reply_esc := False\<rparr>))
          else flush_replies f)"

definition flush_timeout :: "(uchar \<Rightarrow> bool) \<Rightarrow> byte_framer \<Rightarrow> (rstr list \<times> byte_framer) option" where
  "flush_timeout upper f =
     map_option (\<lambda>(chunks, f1). let (extra, f2) = flush_incomplete f1 in (chunks @ extra, f2))
       (drain_available_chunks upper f)"

subsection \<open>Events\<close>

definition chunk_event :: "(uchar \<Rightarrow> bool) \<Rightarrow> rstr \<Rightarrow> raw_input_event option option" where
  "chunk_event upper chunk =
     (if chunk = esc then Some (Some (EvKey (with_vt_bytes (new_key KcEsc mods_empty) chunk)))
      else map_option (map_option fst) (extract_one_event upper chunk))"

fun events_from_chunks :: "(uchar \<Rightarrow> bool) \<Rightarrow> rstr list \<Rightarrow> raw_input_event list option" where
  "events_from_chunks upper [] = Some []"
| "events_from_chunks upper (c # cs) =
     Option.bind (chunk_event upper c) (\<lambda>e.
       map_option (\<lambda>es. case e of None \<Rightarrow> es | Some x \<Rightarrow> x # es) (events_from_chunks upper cs))"

definition push_events :: "(uchar \<Rightarrow> bool) \<Rightarrow> byte_framer \<Rightarrow> rstr \<Rightarrow> (raw_input_event list \<times> byte_framer) option" where
  "push_events upper f data =
     Option.bind (push upper f data) (\<lambda>(chunks, f'). map_option (\<lambda>es. (es, f')) (events_from_chunks upper chunks))"

definition flush_events :: "(uchar \<Rightarrow> bool) \<Rightarrow> byte_framer \<Rightarrow> (raw_input_event list \<times> byte_framer) option" where
  "flush_events upper f =
     Option.bind (flush_timeout upper f) (\<lambda>(chunks, f'). map_option (\<lambda>es. (es, f')) (events_from_chunks upper chunks))"

definition parse_raw_input_bytes_sync :: "(uchar \<Rightarrow> bool) \<Rightarrow> rstr \<Rightarrow> raw_input_event list option" where
  "parse_raw_input_bytes_sync upper data =
     Option.bind (push_events upper default_framer data) (\<lambda>(events, f).
       map_option (\<lambda>(more, _). events @ more) (flush_events upper f))"

section \<open>Framing\<close>

text \<open>
  The drain loop of \<open>src/src/raw_input.rs\<close> while nothing is being discarded: it does not matter how
  the input is cut into reads, no byte is lost or reordered, and every chunk is read as a
  well-formed event again.
\<close>

subsection \<open>Outside discarding\<close>

text \<open>The framer is cutting sequences: it is not discarding and has not just flushed a lone ESC.\<close>

definition framing :: "byte_framer \<Rightarrow> bool" where
  "framing f \<longleftrightarrow> bf_discard_until f = None \<and> \<not> bf_lone_escape_recently_flushed f"

lemma lone_cleared: "\<not> bf_lone_escape_recently_flushed f \<Longrightarrow> f\<lparr>bf_lone_escape_recently_flushed := False\<rparr> = f"
  by (cases f) simp

lemma framing_step: "framing f \<Longrightarrow> drain_step upper f = extract_step upper f"
  by (simp add: framing_def drain_step_def lone_cleared)

abbreviation with_input :: "rstr \<Rightarrow> byte_framer \<Rightarrow> byte_framer" where
  "with_input t f \<equiv> f\<lparr>bf_buffer := bf_buffer f @ t\<rparr>"

lemma framing_more [simp]: "framing (with_input t f) = framing f"
  by (simp add: framing_def)

lemma extract_step_cases:
  obtains (split) "bf_split_coalesced_escape f" "prefix (esc @ esc) (bf_buffer f)"
      "extract_step upper f = Some (DrainContinue [esc] (f\<lparr>bf_buffer := drop 1 (bf_buffer f)\<rparr>))"
    | (panic) "\<not> (bf_split_coalesced_escape f \<and> prefix (esc @ esc) (bf_buffer f))"
      "extract_one_event upper (bf_buffer f) = None" "extract_step upper f = None"
    | (stop) "\<not> (bf_split_coalesced_escape f \<and> prefix (esc @ esc) (bf_buffer f))"
      "extract_one_event upper (bf_buffer f) = Some None" "extract_step upper f = Some (DrainStop f)"
    | (event) e n where "\<not> (bf_split_coalesced_escape f \<and> prefix (esc @ esc) (bf_buffer f))"
      "extract_one_event upper (bf_buffer f) = Some (Some (e, n))" "0 < n" "n \<le> length (bf_buffer f)"
      "extract_step upper f = Some (DrainContinue [take n (bf_buffer f)]
          ((note_event e f)\<lparr>bf_buffer := drop n (bf_buffer f)\<rparr>))"
proof (cases "bf_split_coalesced_escape f \<and> prefix (esc @ esc) (bf_buffer f)")
  case True
  then show thesis using split by (simp add: extract_step_def)
next
  case False
  show thesis
  proof (cases "extract_one_event upper (bf_buffer f)")
    case None
    then show thesis using panic [OF False None] False by (auto simp: extract_step_def)
  next
    case (Some r)
    show thesis
    proof (cases r)
      case None
      then show thesis using stop [OF False] Some False by (auto simp: extract_step_def)
    next
      case (Some p)
      then obtain e n where p: "extract_one_event upper (bf_buffer f) = Some (Some (e, n))"
        using \<open>extract_one_event upper (bf_buffer f) = Some r\<close> by (cases p) auto
      then show thesis using event [OF False p] extract_bounds [OF p] False by (auto simp: extract_step_def)
    qed
  qed
qed

lemma note_more: "note_event e (with_input t f) = with_input t (note_event e f)"
  by (simp add: note_event_def Let_def host_appearance_query_sent_def host_color_query_sent_def
      split: raw_input_event.split)

lemma double_escape_decided:
  assumes "extract_one_event upper s \<noteq> Some None"
  shows "prefix (esc @ esc) (s @ t) \<longleftrightarrow> prefix (esc @ esc) s"
proof (cases "2 \<le> length s")
  case True
  then show ?thesis by (intro prefix_append_iff) simp
next
  case False
  have "s \<noteq> []" using assms by (auto simp: extract_one_event_def)
  then obtain c where s: "s = [c]" using False by (cases s; cases "tl s") auto
  have "c \<noteq> CHR 0x1b"
  proof
    assume "c = CHR 0x1b"
    then show False using assms s by (simp add: extract_one_event_def paste_start_def complete_unfold)
  qed
  then show ?thesis using s by simp
qed

text \<open>One turn of the loop sees appended input only if it had to stop.\<close>

definition result_more :: "rstr \<Rightarrow> drain_result \<Rightarrow> drain_result" where
  "result_more t r = (case r of DrainStop f \<Rightarrow> DrainStop (with_input t f) | DrainContinue cs f \<Rightarrow> DrainContinue cs (with_input t f))"

lemma extract_step_more:
  assumes "extract_step upper f \<noteq> Some (DrainStop f)"
  shows "extract_step upper (with_input t f) = map_option (result_more t) (extract_step upper f)"
proof (cases rule: extract_step_cases [of f upper])
  case split
  then have "prefix (esc @ esc) (bf_buffer f @ t)" by (metis prefix_append)
  moreover have "drop 1 (bf_buffer f @ t) = drop 1 (bf_buffer f) @ t" using split(2) by (cases "bf_buffer f") auto
  ultimately show ?thesis using split by (simp add: extract_step_def [of _ "with_input t f"] result_more_def)
next
  case panic
  have "extract_one_event upper (bf_buffer f) \<noteq> Some None" using panic(2) by simp
  note d = double_escape_decided [OF this, of t] extract_append [OF this, of t]
  then show ?thesis using panic by (auto simp: extract_step_def [of _ "with_input t f"])
next
  case stop
  then show ?thesis using assms by simp
next
  case (event e n)
  have "extract_one_event upper (bf_buffer f) \<noteq> Some None" using event(2) by simp
  note d = double_escape_decided [OF this, of t] extract_append [OF this, of t]
  have "take n (bf_buffer f @ t) = take n (bf_buffer f)" "drop n (bf_buffer f @ t) = drop n (bf_buffer f) @ t"
    using event(4) by simp_all
  moreover have "\<not> (bf_split_coalesced_escape f \<and> prefix (esc @ esc) (bf_buffer f @ t))" using event(1) d(1) by simp
  ultimately show ?thesis using event d note_more [of e f t]
    by (auto simp: extract_step_def [of _ "with_input t f"] result_more_def)
qed

lemma extract_step_framing:
  assumes "extract_step upper f = Some (DrainContinue cs f')" "framing f"
  shows "framing f'" "concat cs @ bf_buffer f' = bf_buffer f" "cs \<noteq> []" "[] \<notin> set cs"
  using assms
  by (cases rule: extract_step_cases [of f upper]; auto simp: framing_def prefix_def)+

lemma drain_framing:
  "framing f \<Longrightarrow> drain_available_chunks upper f =
     (case extract_step upper f of
        None \<Rightarrow> None
      | Some (DrainStop f') \<Rightarrow> Some ([], f')
      | Some (DrainContinue cs f') \<Rightarrow>
          map_option (\<lambda>(chunks, f''). (cs @ chunks, f'')) (drain_available_chunks upper f'))"
  by (subst drain_available_chunks.simps) (simp add: framing_step)

lemma extract_step_stop: "extract_step upper f = Some (DrainStop f') \<Longrightarrow> f' = f"
  by (cases rule: extract_step_cases [of f upper]) auto

text \<open>Induction over the loop while it is framing.\<close>

lemma framing_induct [consumes 1, case_names panic stop continue]:
  assumes "framing f"
    and "\<And>f. framing f \<Longrightarrow> extract_step upper f = None \<Longrightarrow> P f"
    and "\<And>f. framing f \<Longrightarrow> extract_step upper f = Some (DrainStop f) \<Longrightarrow> P f"
    and "\<And>f cs f'. framing f \<Longrightarrow> extract_step upper f = Some (DrainContinue cs f') \<Longrightarrow> framing f' \<Longrightarrow> P f' \<Longrightarrow> P f"
  shows "P f"
  using assms(1)
proof (induction "drain_measure f" arbitrary: f rule: less_induct)
  case less
  show ?case
  proof (cases "extract_step upper f")
    case None
    then show ?thesis using assms(2) less.prems by blast
  next
    case (Some r)
    show ?thesis
    proof (cases r)
      case (DrainStop f')
      then show ?thesis using assms(3) less.prems Some extract_step_stop [of upper f f'] by blast
    next
      case (DrainContinue cs f')
      then have st: "extract_step upper f = Some (DrainContinue cs f')" using Some by simp
      show ?thesis
        using assms(4) [OF less.prems st] less.hyps [OF extract_step_measure [OF st]]
          extract_step_framing(1) [OF st less.prems] by blast
    qed
  qed
qed

lemma drain_more:
  "framing f \<Longrightarrow> drain_available_chunks upper (with_input t f) =
     Option.bind (drain_available_chunks upper f) (\<lambda>(chunks, f1).
       map_option (\<lambda>(chunks2, f2). (chunks @ chunks2, f2)) (drain_available_chunks upper (with_input t f1)))"
proof (induction f rule: framing_induct [where upper = upper])
  case (panic f)
  then show ?case using extract_step_more [of upper f t] by (simp add: drain_framing)
next
  case (stop f)
  then show ?case by (simp add: drain_framing [of f] option.map_ident case_prod_unfold)
next
  case (continue f cs f')
  have "extract_step upper (with_input t f) = Some (DrainContinue cs (with_input t f'))"
    using extract_step_more [of upper f t] continue(2) by (simp add: result_more_def)
  then have "drain_available_chunks upper (with_input t f)
      = map_option (\<lambda>(chunks, f''). (cs @ chunks, f'')) (drain_available_chunks upper (with_input t f'))"
    using continue(1) by (simp add: drain_framing)
  also have "\<dots> = Option.bind (drain_available_chunks upper f) (\<lambda>(chunks, f1).
       map_option (\<lambda>(chunks2, f2). (chunks @ chunks2, f2)) (drain_available_chunks upper (with_input t f1)))"
    unfolding continue(4) using continue(1,2)
    by (cases "drain_available_chunks upper f'")
      (auto simp: drain_framing option.map_comp o_def case_prod_unfold)
  finally show ?case .
qed

lemma drain_bytes:
  "framing f \<Longrightarrow> drain_available_chunks upper f = Some (chunks, f') \<Longrightarrow>
     concat chunks @ bf_buffer f' = bf_buffer f \<and> framing f' \<and> [] \<notin> set chunks"
proof (induction f arbitrary: chunks rule: framing_induct [where upper = upper])
  case (continue f cs f1)
  then show ?case using extract_step_framing [OF continue(2,1)] by (fastforce simp: drain_framing)
qed (simp_all add: drain_framing)

subsection \<open>Every chunk is an event\<close>

lemma framed_chunks:
  "framing f \<Longrightarrow> bf_split_coalesced_escape f \<Longrightarrow> drain_available_chunks upper f = Some (chunks, f') \<Longrightarrow>
     \<exists>es. events_from_chunks upper chunks = Some es \<and> length es = length chunks"
proof (induction f arbitrary: chunks rule: framing_induct [where upper = upper])
  case (continue f cs f1)
  obtain rest where r: "chunks = cs @ rest" "drain_available_chunks upper f1 = Some (rest, f')"
    using continue(2,6) by (auto simp: drain_framing [OF continue(1)])
  have one: "\<exists>c e. cs = [c] \<and> chunk_event upper c = Some (Some e) \<and> bf_split_coalesced_escape f1"
  proof (cases rule: extract_step_cases [of f upper])
    case split
    then show ?thesis using continue(2,5) by (auto simp: chunk_event_def)
  next
    case (event e n)
    have "\<not> prefix (esc @ esc) (bf_buffer f)" using event(1) continue(5) by blast
    note t = extract_take [OF event(2) this]
    have "\<exists>x. chunk_event upper (take n (bf_buffer f)) = Some (Some x)"
      unfolding chunk_event_def t by simp
    moreover have "cs = [take n (bf_buffer f)]" "bf_split_coalesced_escape f1"
      using continue(2,5) event(5) by auto
    ultimately show ?thesis by blast
  qed (use continue(2) in auto)
  then obtain c e where c: "cs = [c]" "chunk_event upper c = Some (Some e)" "bf_split_coalesced_escape f1" by blast
  obtain es where "events_from_chunks upper rest = Some es" "length es = length rest"
    using continue(4) [OF c(3) r(2)] by blast
  then show ?case using r(1) c(1,2) by simp
qed (simp_all add: drain_framing)

subsection \<open>What an event carries\<close>

text \<open>An event read from exactly the bytes \<open>c\<close>.\<close>

definition event_ok :: "rstr \<Rightarrow> raw_input_event \<Rightarrow> bool" where
  "event_ok c e = (case e of
       EvKey k \<Rightarrow> key_ok k \<and> tk_source k = Vt c
     | EvPaste text \<Rightarrow> valid_utf8 text \<and> c = paste_start @ text @ paste_end
     | EvMouse m \<Rightarrow> me_column m < 65536 \<and> me_row m < 65536
     | EvHostPaletteColors colors \<Rightarrow> length colors = 1
     | EvHostCellSizeReport w h \<Rightarrow> 0 < w \<and> w < 2 ^ 32 \<and> 0 < h \<and> h < 2 ^ 32
     | _ \<Rightarrow> True)"

text \<open>A property of every value an optional computation can return.\<close>

definition returns :: "('a \<Rightarrow> bool) \<Rightarrow> 'a option \<Rightarrow> bool" where
  "returns P x \<longleftrightarrow> (\<forall>v. x = Some v \<longrightarrow> P v)"

named_theorems returns_intros \<open>the steps of an optional computation\<close>

lemma returns_bind [returns_intros]: "(\<And>v. returns P (f v)) \<Longrightarrow> returns P (Option.bind x f)"
  by (cases x) (auto simp: returns_def)

lemma returns_if [returns_intros]: "(c \<Longrightarrow> returns P a) \<Longrightarrow> (\<not> c \<Longrightarrow> returns P b) \<Longrightarrow> returns P (if c then a else b)"
  by simp

lemma returns_option [returns_intros]:
  "returns P a \<Longrightarrow> (\<And>v. returns P (f v)) \<Longrightarrow> returns P (case x of None \<Rightarrow> a | Some v \<Rightarrow> f v)"
  by (cases x) simp_all

lemma returns_or [returns_intros]: "returns P x \<Longrightarrow> (x = None \<Longrightarrow> returns P a) \<Longrightarrow> returns P (case x of None \<Rightarrow> a | Some v \<Rightarrow> Some v)"
  by (cases x) simp_all

lemma returns_pair [returns_intros]: "(\<And>a b. returns P (f a b)) \<Longrightarrow> returns P (case p of (a, b) \<Rightarrow> f a b)"
  by (cases p) simp

lemma returns_Some [returns_intros]: "P v \<Longrightarrow> returns P (Some v)"
  by (simp add: returns_def)

lemma returns_None [returns_intros]: "returns P None"
  by (simp add: returns_def)

lemma returns_map [returns_intros]: "(\<And>v. P (f v)) \<Longrightarrow> returns P (map_option f x)"
  by (cases x) (simp_all add: returns_def)

lemma shifted_key_ok: "key_ok k \<Longrightarrow> key_ok (case x of None \<Rightarrow> k | Some v \<Rightarrow> with_shifted_codepoint k v)"
  by (cases x) (simp_all add: key_intros)

lemma kitty_key_ok: "returns key_ok (parse_kitty_key_sequence s)"
  unfolding parse_kitty_key_sequence_def Let_def
  by (intro returns_intros shifted_key_ok key_intros)

lemma other_key_ok: "returns key_ok (parse_modify_other_keys_sequence s)"
  unfolding parse_modify_other_keys_sequence_def by (intro returns_intros key_intros)

lemma modified_key_ok: "returns key_ok (modified_key c s)"
  unfolding modified_key_def Let_def by (intro returns_intros key_intros)

lemma tilde_key_ok: "returns key_ok (parse_tilde_sequence s)"
  unfolding parse_tilde_sequence_def by (intro returns_intros modified_key_ok)

lemma special_key_ok: "returns key_ok (parse_legacy_special_sequence s)"
  unfolding parse_legacy_special_sequence_def parse_xterm_modified_special_sequence_def
  by (intro returns_intros key_intros modified_key_ok tilde_key_ok)

lemma ctrl_key_ok: "returns key_ok (parse_legacy_ctrl_char c)"
  unfolding parse_legacy_ctrl_char_def by (intro returns_intros key_intros)

lemma alt_key_ok: "key_ok k \<Longrightarrow> key_ok (k\<lparr>tk_modifiers := m\<rparr>)"
  by (simp add: key_ok_def)

lemma returns_alt: "returns key_ok x \<Longrightarrow> returns key_ok (map_option (\<lambda>k. k\<lparr>tk_modifiers := f k\<rparr>) x)"
  by (cases x) (simp_all add: returns_def alt_key_ok)

lemma legacy_key_ok: "returns key_ok (parse_legacy_key_sequence s)"
proof (induction s rule: parse_legacy_key_sequence.induct)
  case (2 c rest)
  show ?case unfolding parse_legacy_key_sequence.simps(2) Let_def
    by (intro returns_or returns_if returns_alt returns_Some returns_None special_key_ok ctrl_key_ok key_intros 2)
qed (simp add: returns_def)

lemma parsed_key_ok: "parse_terminal_key_sequence s = Some k \<Longrightarrow> key_ok k"
proof -
  have "returns key_ok (parse_terminal_key_sequence s)"
    unfolding parse_terminal_key_sequence_def by (intro returns_or kitty_key_ok other_key_ok legacy_key_ok)
  then show "parse_terminal_key_sequence s = Some k \<Longrightarrow> key_ok k" by (simp add: returns_def)
qed

lemma vt_source [simp]: "tk_source (with_vt_bytes k b) = Vt b"
  by (simp add: with_vt_bytes_def)

lemma byte_coordinates: "parse_default_mouse s = Some m \<Longrightarrow> me_column m < 65536 \<and> me_row m < 65536"
proof -
  have b: "byte c - 33 < 65536" for c using byte_bound [of c] by simp
  show "parse_default_mouse s = Some m \<Longrightarrow> ?thesis"
    by (auto simp: parse_default_mouse_def bind_eq_Some_conv nat_checked_sub_def split: list.splits if_splits intro: b)
qed

lemma coordinate_bound: "parse_coordinate s = Some n \<Longrightarrow> n < 65536"
  by (auto simp: parse_coordinate_def bind_eq_Some_conv nat_checked_sub_def split: if_splits dest!: parse_unsigned_bound)

lemma sgr_coordinates: "parse_sgr_mouse s = Some m \<Longrightarrow> me_column m < 65536 \<and> me_row m < 65536"
  unfolding parse_sgr_mouse_def Let_def
  by (auto simp: bind_eq_Some_conv split: if_splits dest: coordinate_bound)

lemma cell_size_ok: "parse_host_cell_size_report s = Some (w, h) \<Longrightarrow> 0 < w \<and> w < 2 ^ 32 \<and> 0 < h \<and> h < 2 ^ 32"
  unfolding parse_host_cell_size_report_def Let_def
  by (auto simp: bind_eq_Some_conv split: if_splits dest!: parse_unsigned_bound)

lemma plain_escape_event_ok: "event_ok s (plain_escape_event s)"
  unfolding plain_escape_event_def
  by (auto simp: event_ok_def split: option.splits intro!: key_intros dest: parsed_key_ok sgr_coordinates cell_size_ok)

lemma escape_event_ok: "escape_event s = Some (Some e) \<Longrightarrow> event_ok s e"
  unfolding escape_event_def
  by (auto simp: bind_eq_Some_conv plain_escape_event_ok split: if_splits option.splits)
    (auto simp: event_ok_def dest: byte_coordinates split: option.splits)

lemma text_event_ok: "text_event upper s = Some e \<Longrightarrow> event_ok s e"
  unfolding text_event_def by (auto simp: event_ok_def intro!: key_intros dest: parsed_key_ok)

lemma pasted_bytes:
  assumes "prefix paste_start s" "find_subsequence s paste_end = Some i"
  shows "take (i + length paste_end) s = paste_start @ drop (length paste_start) (take i s) @ paste_end"
proof -
  have f: "prefix paste_end (drop i s)" using find_subsequence_some [OF assms(2) paste_end_not_Nil] by simp
  obtain r where s: "s = paste_start @ r" using assms(1) by (auto simp: prefix_def)
  have "6 \<le> i"
  proof (rule ccontr)
    assume "\<not> 6 \<le> i"
    then consider "i = 0" | "i = 1" | "i = 2" | "i = 3" | "i = 4" | "i = 5" by linarith
    then show False using f unfolding s by cases (simp_all add: paste_start_def paste_end_def)
  qed
  then have "take i s = paste_start @ drop (length paste_start) (take i s)"
    unfolding s by (simp add: paste_start_def take_Cons')
  moreover have "take (i + length paste_end) s = take i s @ paste_end"
    using f by (auto simp: take_add prefix_def)
  ultimately show ?thesis by simp
qed

lemma extract_event_ok:
  assumes "extract_one_event upper s = Some (Some (e, n))"
  shows "event_ok (take n s) e"
proof -
  have "extract_one_event upper s \<noteq> Some None" using assms by simp
  then show ?thesis
  proof (cases rule: extract_cases)
    case (paste i)
    then have "n = i + length paste_end" "e = EvPaste (drop (length paste_start) (take i s))" using assms by auto
    moreover have "take (i + length paste_end) s = paste_start @ drop (length paste_start) (take i s) @ paste_end"
      by (rule pasted_bytes [OF paste(1,2)])
    ultimately show ?thesis using paste(3) by (simp add: event_ok_def)
  next
    case (escape len)
    then have "n = len" "escape_event (take len s) = Some (Some e)" using assms by (metis with_length)+
    then show ?thesis using escape_event_ok by simp
  next
    case (char k e')
    then show ?thesis using assms text_event_ok by auto
  qed
qed

lemma chunk_event_ok: "chunk_event upper c = Some (Some e) \<Longrightarrow> \<exists>b. event_ok b e"
  by (auto simp: chunk_event_def event_ok_def map_option_case split: if_splits option.splits intro!: key_intros
      dest!: extract_event_ok)

lemma events_ok: "events_from_chunks upper cs = Some es \<Longrightarrow> list_all (\<lambda>e. \<exists>b. event_ok b e) es"
  by (induction cs arbitrary: es) (auto simp: bind_eq_Some_conv split: option.splits dest: chunk_event_ok)

text \<open>A chunk of a push is read as a whole, since appending never changes what was read.\<close>

lemma cut_chunk_event:
  assumes "extract_one_event upper s = Some (Some (e, n))" "chunk_event upper (take n s) = Some (Some e')"
  shows "event_ok (take n s) e'"
proof (cases "take n s = esc")
  case True
  then show ?thesis using assms(2) by (auto simp: chunk_event_def event_ok_def intro!: key_intros)
next
  case False
  then obtain n' where x: "extract_one_event upper (take n s) = Some (Some (e', n'))"
    using assms(2) by (auto simp: chunk_event_def map_option_case split: option.splits)
  then have "extract_one_event upper (take n s @ drop n s) = Some (Some (e', n'))" by (subst extract_append) auto
  then have "n' = n" using assms(1) by simp
  then show ?thesis using extract_event_ok [OF x] by simp
qed

lemma esc_event_ok: "chunk_event upper esc = Some (Some e) \<Longrightarrow> event_ok esc e"
  by (auto simp: chunk_event_def event_ok_def intro!: key_intros)

lemma extract_step_events:
  assumes "extract_step upper f = Some (DrainContinue cs f')"
  shows "list_all (\<lambda>c. \<forall>e. chunk_event upper c = Some (Some e) \<longrightarrow> event_ok c e) cs"
proof (cases rule: extract_step_cases [of f upper])
  case split
  then show ?thesis using assms by (auto dest: esc_event_ok)
next
  case (event e n)
  then show ?thesis using assms cut_chunk_event [OF event(2)] by auto
qed (use assms in auto)

lemma drain_step_events:
  assumes "drain_step upper f = Some (DrainContinue cs f')"
  shows "list_all (\<lambda>c. \<forall>e. chunk_event upper c = Some (Some e) \<longrightarrow> event_ok c e) cs"
  using assms extract_step_events
  by (auto simp: drain_step_def discard_step_def Let_def split: if_splits option.splits control_family.splits prod.splits)

lemma drained_events:
  "drain_available_chunks upper f = Some (chunks, f') \<Longrightarrow>
     list_all (\<lambda>c. \<forall>e. chunk_event upper c = Some (Some e) \<longrightarrow> event_ok c e) chunks"
proof (induction upper f arbitrary: chunks rule: drain_available_chunks.induct)
  case (1 upper f)
  obtain r where r: "drain_step upper f = Some r"
    using "1.prems" by (subst (asm) drain_available_chunks.simps) (auto split: option.splits)
  show ?case
  proof (cases r)
    case (DrainStop f1)
    then show ?thesis using "1.prems" r by (subst (asm) drain_available_chunks.simps) simp
  next
    case (DrainContinue cs f1)
    then obtain rest where rest: "drain_available_chunks upper f1 = Some (rest, f')" "chunks = cs @ rest"
      using "1.prems" r by (subst (asm) drain_available_chunks.simps) auto
    show ?thesis using "1.IH" [OF r DrainContinue rest(1)] drain_step_events [of upper f cs f1] r
      unfolding rest(2) DrainContinue by simp
  qed
qed

text \<open>The chunks that gave the events, in their order.\<close>

lemma events_of_chunks:
  "events_from_chunks upper chunks = Some es \<Longrightarrow>
     list_all (\<lambda>c. \<forall>e. chunk_event upper c = Some (Some e) \<longrightarrow> event_ok c e) chunks \<Longrightarrow>
     \<exists>cs. subseq cs chunks \<and> list_all2 event_ok cs es"
proof (induction chunks arbitrary: es)
  case (Cons c chunks)
  obtain x es' where x: "chunk_event upper c = Some x" "events_from_chunks upper chunks = Some es'"
      "es = (case x of None \<Rightarrow> es' | Some e \<Rightarrow> e # es')"
    using Cons.prems(1) by (auto simp: bind_eq_Some_conv)
  obtain cs where cs: "subseq cs chunks" "list_all2 event_ok cs es'" using Cons.IH [OF x(2)] Cons.prems(2) by auto
  show ?case
  proof (cases x)
    case None
    then show ?thesis using cs x(3) by auto
  next
    case (Some e)
    then have "subseq (c # cs) (c # chunks)" "list_all2 event_ok (c # cs) es" using cs x Cons.prems(2) by auto
    then show ?thesis by blast
  qed
qed simp

end
