(* ===== verification/RawFlush.thy ===== *)
theory RawFlush
  imports RawFraming
begin

section \<open>Idle flushes\<close>

text \<open>
  What a flush of the framer of \<open>src/src/raw_input.rs\<close> leaves in the buffer: nothing, an unfinished
  piece that may still be completed, or the start of a host reply, held for one more flush.
\<close>

text \<open>What may stay in an idle buffer: an unfinished paste, colour reply or character.\<close>

definition waits :: "rstr \<Rightarrow> bool" where
  "waits b \<longleftrightarrow> prefix paste_start b \<and> find_subsequence b paste_end = None
     \<or> starts_with_incomplete_default_color_response b
     \<or> starts_with_incomplete_utf8_char b
     \<or> b \<noteq> [] \<and> hd b = CHR 0x1b \<and> starts_with_incomplete_utf8_char (tl b)"

definition settled :: "byte_framer \<Rightarrow> bool" where
  "settled f \<longleftrightarrow> bf_buffer f = [] \<or> waits (bf_buffer f) \<or> bf_discard_until f \<noteq> None \<and> bf_buffer f = esc"

definition stopped :: "(uchar \<Rightarrow> bool) \<Rightarrow> byte_framer \<Rightarrow> bool" where
  "stopped upper f \<longleftrightarrow> drain_step upper f = Some (DrainStop f)"

lemma discard_host_stop:
  "discard_host_reply_csi_tail b d = (b', d', False) \<Longrightarrow> b' = [] \<and> d' < max_discarded_control_tail_bytes"
  by (auto simp: discard_host_reply_csi_tail_def Let_def split: option.splits)

lemma discard_orphan_stop: "discard_orphaned_sgr_mouse_tail b d = (b', d', False) \<Longrightarrow> b' = []"
  by (auto simp: discard_orphaned_sgr_mouse_tail_def Let_def split: option.splits)

lemma discard_step_stops:
  assumes "discard_step f family = DrainStop f'"
  shows "discard_step f' family = DrainStop f' \<and> bf_discard_until f' = bf_discard_until f
    \<and> bf_lone_escape_recently_flushed f' = bf_lone_escape_recently_flushed f
    \<and> (family \<in> {FamHostReplyCsi, FamOrphanedSgrMouseTail} \<longrightarrow> bf_buffer f' = [])"
proof (cases family)
  case FamHostReplyCsi
  then obtain d where "f' = f\<lparr>bf_buffer := [], bf_discarded_tail_bytes := d\<rparr>" "d < max_discarded_control_tail_bytes"
    using assms discard_host_stop [of "bf_buffer f" "bf_discarded_tail_bytes f"]
    by (auto simp: discard_step_def Let_def split: prod.splits if_splits)
  then show ?thesis using FamHostReplyCsi
    by (simp add: discard_step_def discard_host_reply_csi_tail_def)
next
  case FamOrphanedSgrMouseTail
  then obtain d where "f' = f\<lparr>bf_buffer := [], bf_discarded_tail_bytes := d\<rparr>"
    using assms discard_orphan_stop [of "bf_buffer f" "bf_discarded_tail_bytes f"]
    by (auto simp: discard_step_def Let_def split: prod.splits if_splits)
  then show ?thesis using FamOrphanedSgrMouseTail
    by (simp add: discard_step_def discard_orphaned_sgr_mouse_tail_def)
qed (use assms in \<open>auto simp: discard_step_def split: option.splits\<close>)

text \<open>A lone ESC was flushed only while nothing is being discarded.\<close>

definition framer_ok :: "byte_framer \<Rightarrow> bool" where
  "framer_ok f \<longleftrightarrow> (bf_lone_escape_recently_flushed f \<longrightarrow> bf_discard_until f = None)"

lemma drain_step_stops:
  assumes "drain_step upper f = Some (DrainStop f')" "framer_ok f"
  shows "stopped upper f' \<and> framer_ok f' \<and> (bf_discard_until f' = Some FamHostReplyCsi \<longrightarrow> bf_buffer f' = [])
    \<and> (bf_lone_escape_recently_flushed f' \<longrightarrow> starts_with_incomplete_orphaned_sgr_mouse_tail (bf_buffer f'))"
proof -
  let ?f1 = "f\<lparr>bf_lone_escape_recently_flushed := False\<rparr>"
  consider "bf_lone_escape_recently_flushed f" "starts_with_incomplete_orphaned_sgr_mouse_tail (bf_buffer f)" "f' = f"
    | family where "bf_discard_until f = Some family" "discard_step ?f1 family = DrainStop f'"
    | "bf_discard_until f = None" "extract_step upper ?f1 = Some (DrainStop f')"
    using assms(1) by (auto simp: drain_step_def Let_def split: if_splits option.splits)
  then show ?thesis
  proof cases
    case 1
    then show ?thesis using assms by (simp add: stopped_def framer_ok_def)
  next
    case (2 family)
    note d = discard_step_stops [OF 2(2)]
    then have "f'\<lparr>bf_lone_escape_recently_flushed := False\<rparr> = f'" by (simp add: lone_cleared)
    then show ?thesis using d 2(1) by (auto simp: stopped_def drain_step_def lone_cleared framer_ok_def)
  next
    case 3
    then have f': "f' = ?f1" using extract_step_stop by blast
    then have "framing f'" using 3(1) by (simp add: framing_def)
    then show ?thesis using 3 f' framing_step [of f' upper] by (simp add: stopped_def framer_ok_def)
  qed
qed

lemma drain_step_framer_ok:
  assumes "drain_step upper f = Some (DrainContinue cs f')"
  shows "framer_ok f'"
proof -
  have "bf_lone_escape_recently_flushed (case extract_step upper g of Some (DrainContinue cs h) \<Rightarrow> h | _ \<Rightarrow> g)
      = bf_lone_escape_recently_flushed g" for g
    by (cases rule: extract_step_cases [of g upper]) simp_all
  note e = this [of "f\<lparr>bf_lone_escape_recently_flushed := False\<rparr>"]
  show ?thesis using assms e
    by (auto simp: drain_step_def framer_ok_def discard_step_def stop_discarding_def Let_def
        split: if_splits option.splits control_family.splits prod.splits)
qed

lemma drain_stopped:
  "drain_available_chunks upper f = Some (cs, f') \<Longrightarrow> framer_ok f \<Longrightarrow>
     stopped upper f' \<and> framer_ok f' \<and> (bf_discard_until f' = Some FamHostReplyCsi \<longrightarrow> bf_buffer f' = [])
     \<and> (bf_lone_escape_recently_flushed f' \<longrightarrow> starts_with_incomplete_orphaned_sgr_mouse_tail (bf_buffer f'))"
proof (induction upper f arbitrary: cs rule: drain_available_chunks.induct)
  case (1 upper f)
  show ?case
  proof (cases "drain_step upper f")
    case None
    then show ?thesis using 1(2) by (subst (asm) drain_available_chunks.simps) simp
  next
    case (Some r)
    show ?thesis
    proof (cases r)
      case (DrainStop g)
      then have "g = f'" using 1(2) Some by (subst (asm) drain_available_chunks.simps) simp
      then show ?thesis using drain_step_stops [of upper f f'] Some DrainStop 1(3) by simp
    next
      case (DrainContinue c g)
      then obtain cs' where "drain_available_chunks upper g = Some (cs', f')"
        using 1(2) Some by (subst (asm) drain_available_chunks.simps) auto
      then show ?thesis using 1(1) [OF Some DrainContinue] drain_step_framer_ok [of upper f c g] Some DrainContinue
        by blast
    qed
  qed
qed

lemma stopped_drain: "stopped upper f \<Longrightarrow> drain_available_chunks upper f = Some ([], f)"
  by (subst drain_available_chunks.simps) (simp add: stopped_def)

lemma held_irrelevant:
  assumes "stopped upper f" "bf_discard_until f = None"
  shows "stopped upper (f\<lparr>bf_held_pending_host_reply_esc := b\<rparr>)"
proof (cases "bf_lone_escape_recently_flushed f \<and> starts_with_incomplete_orphaned_sgr_mouse_tail (bf_buffer f)")
  case True
  then show ?thesis by (simp add: stopped_def drain_step_def)
next
  case False
  let ?f1 = "f\<lparr>bf_lone_escape_recently_flushed := False\<rparr>"
  have st: "extract_step upper ?f1 = Some (DrainStop f)"
    using assms False by (auto simp: stopped_def drain_step_def Let_def split: if_splits option.splits)
  have "bf_lone_escape_recently_flushed f = bf_lone_escape_recently_flushed ?f1"
    by (rule arg_cong [OF extract_step_stop [OF st]])
  then have fl: "\<not> bf_lone_escape_recently_flushed f" by simp
  then have "framing f" using assms(2) by (simp add: framing_def)
  moreover have "extract_step upper f = Some (DrainStop f)" using st lone_cleared [OF fl] by simp
  then have "extract_step upper (f\<lparr>bf_held_pending_host_reply_esc := b\<rparr>) = Some (DrainStop (f\<lparr>bf_held_pending_host_reply_esc := b\<rparr>))"
    by (cases rule: extract_step_cases [of f upper]) (auto simp: extract_step_def)
  ultimately show ?thesis using framing_step [of "f\<lparr>bf_held_pending_host_reply_esc := b\<rparr>" upper]
    by (simp add: stopped_def framing_def)
qed

text \<open>What a flush leaves: nothing, an unfinished piece, or a reply held for one more flush.\<close>

definition held_once :: "byte_framer \<Rightarrow> byte_framer \<Rightarrow> bool" where
  "held_once f f' \<longleftrightarrow> \<not> bf_held_pending_host_reply_esc f \<and> bf_discard_until f = None
     \<and> f' = f\<lparr>bf_held_pending_host_reply_esc := True\<rparr>"

definition left_over :: "byte_framer \<Rightarrow> byte_framer \<Rightarrow> bool" where
  "left_over f f' \<longleftrightarrow> framer_ok f' \<and>
     (bf_buffer f' = [] \<or> bf_discard_until f' \<in> {Some FamOsc, Some FamStTerminated} \<and> bf_buffer f' = esc
      \<or> bf_discard_until f = None \<and> f' = f \<and> waits (bf_buffer f) \<or> held_once f f')"

lemma left_over_if:
  "(c \<Longrightarrow> left_over f (snd a)) \<Longrightarrow> (\<not> c \<Longrightarrow> left_over f (snd b)) \<Longrightarrow> left_over f (snd (if c then a else b))"
  by simp

lemma flush_plain_left:
  assumes "framer_ok f" "bf_discard_until f = None"
  shows "left_over f (snd (flush_plain f))"
  using assms unfolding flush_plain_def Let_def
  by (auto simp: left_over_def framer_ok_def held_once_def waits_def)

lemma flush_replies_left:
  assumes "framer_ok f" "bf_discard_until f = None" "\<not> bf_lone_escape_recently_flushed f \<or> hd (bf_buffer f) \<noteq> CHR 0x1b"
    "bf_buffer f \<noteq> []"
  shows "left_over f (snd (flush_replies f))"
proof -
  have esc_start: "hd (bf_buffer f) = CHR 0x1b" if "prefix (CHR 0x1b # p) (bf_buffer f)" for p
    using that by (auto simp: prefix_def)
  have cell: "\<not> bf_lone_escape_recently_flushed f" if "starts_with_incomplete_host_cell_size_report (bf_buffer f)"
    using that assms(3) esc_start
    by (auto simp: starts_with_incomplete_host_cell_size_report_def strip_prefix_def split: if_splits)
  have scheme: "\<not> bf_lone_escape_recently_flushed f" if "starts_with_incomplete_host_color_scheme_report (bf_buffer f)"
    using that assms(3) esc_start by (auto simp: starts_with_incomplete_host_color_scheme_report_def)
  have control: "\<not> bf_lone_escape_recently_flushed f" if "control_string (bf_buffer f) \<noteq> None"
    using that assms(3) by (auto simp: control_string_def control_introducer_def split: list.splits if_splits)
  show ?thesis
  proof (cases "control_string (bf_buffer f)")
    case None
    then show ?thesis using cell scheme flush_plain_left [OF assms(1,2)] assms(2) unfolding flush_replies_def Let_def
      by (auto simp: left_over_def framer_ok_def held_once_def discard_from_def)
  next
    case (Some c)
    then show ?thesis using cell scheme control flush_plain_left [OF assms(1,2)] assms(2) unfolding flush_replies_def Let_def
      by (cases c) (auto simp: left_over_def framer_ok_def held_once_def discard_from_def)
  qed
qed

lemma csi_is_a_key: "valid_utf8 csi" "parse_terminal_key_sequence csi \<noteq> None"
proof -
  show "valid_utf8 csi" by (simp add: valid_utf8_ascii byte_def)
  have k: "parse_kitty_key_sequence csi = None" "parse_modify_other_keys_sequence csi = None"
    by (simp_all add: parse_kitty_key_sequence_def parse_modify_other_keys_sequence_def strip_suffix_def strip_prefix_def)
  have "parse_legacy_key_sequence ''['' \<noteq> None"
    using no_table_entry(1) [of "''[''"] by (simp add: Let_def split: option.split)
  moreover have "length (chars ''['') = 1" by simp
  ultimately have "parse_legacy_key_sequence csi \<noteq> None" by (auto split: option.split)
  then show "parse_terminal_key_sequence csi \<noteq> None" using k by (simp add: parse_terminal_key_sequence_def)
qed

lemma flush_csi:
  "bf_buffer f = csi \<Longrightarrow> bf_host_cell_size_replies_awaited f = 0 \<Longrightarrow> snd (flush_replies f) = f\<lparr>bf_buffer := []\<rparr>"
  using csi_is_a_key
  by (simp add: flush_replies_def flush_plain_def starts_with_incomplete_host_color_scheme_report_def
      control_string_def control_introducer_def)

lemma incomplete_tail_kept:
  assumes "starts_with_incomplete_orphaned_sgr_mouse_tail b"
  shows "discard_complete_orphaned_sgr_mouse_tail b = None"
proof -
  have "\<not> mouse_final c" if "digit_or_semicolon c \<or> c \<in> {CHR ''['', CHR ''<''}" for c
    using that by (auto simp: digit_or_semicolon_def mouse_final_def is_digit_def byte_def)
  moreover have "digit_or_semicolon c \<or> c \<in> {CHR ''['', CHR ''<''}" if "c \<in> set b" for c
    using assms that
    by (auto simp: starts_with_incomplete_orphaned_sgr_mouse_tail_def prefix_def Cons_eq_append_conv list_all_iff)
  ultimately have "position_of mouse_final b = None" by (auto simp: position_of_none)
  then show ?thesis
    by (simp add: discard_complete_orphaned_sgr_mouse_tail_def control_string_terminator_for_family_def)
qed

lemma flush_incomplete_left:
  assumes "framer_ok f" "bf_discard_until f = Some FamHostReplyCsi \<Longrightarrow> bf_buffer f = []"
    "bf_lone_escape_recently_flushed f \<Longrightarrow> starts_with_incomplete_orphaned_sgr_mouse_tail (bf_buffer f)"
  shows "left_over f (snd (flush_incomplete f))"
proof (cases "bf_discard_until f")
  case (Some family)
  then have "\<not> bf_lone_escape_recently_flushed f" using assms(1) by (auto simp: framer_ok_def)
  then show ?thesis using Some assms(2)
    by (cases family)
      (auto simp: flush_incomplete_def flush_discarding_def left_over_def framer_ok_def stop_discarding_def Let_def)
next
  case None
  have lone: "\<not> bf_lone_escape_recently_flushed f \<or> hd (bf_buffer f) \<noteq> CHR 0x1b" if "bf_buffer f \<noteq> []"
    using assms(3) that by (cases "bf_buffer f")
      (auto simp: starts_with_incomplete_orphaned_sgr_mouse_tail_def prefix_def)
  have mouse: "\<not> bf_lone_escape_recently_flushed f" if "starts_with_incomplete_sgr_mouse_sequence (bf_buffer f)"
    using lone that by (auto simp: starts_with_incomplete_sgr_mouse_sequence_def prefix_def)
  show ?thesis unfolding flush_incomplete_def None option.case Let_def
  proof (intro left_over_if)
    assume "bf_lone_escape_recently_flushed f \<and> prefix ''[<'' (bf_buffer f)"
    then have "discard_complete_orphaned_sgr_mouse_tail (bf_buffer f) = None"
      using assms(3) incomplete_tail_kept by blast
    then show "left_over f (snd ([], (discard_or_buffer_orphaned_sgr_mouse_tail f)\<lparr>bf_lone_escape_recently_flushed := False\<rparr>))"
      by (simp add: left_over_def framer_ok_def discard_or_buffer_orphaned_sgr_mouse_tail_def)
  next
    assume "starts_with_incomplete_sgr_mouse_sequence (bf_buffer f)"
    then show "left_over f (snd ([], f\<lparr>bf_discarded_tail_bytes := length (bf_buffer f),
          bf_discard_until := if length (bf_buffer f) \<le> max_discarded_control_tail_bytes then Some FamOrphanedSgrMouseTail else None,
          bf_buffer := []\<rparr>))"
      using mouse by (simp add: left_over_def framer_ok_def)
  next
    assume c: "(0 < bf_host_cell_size_replies_awaited f \<or> bf_host_appearance_reply_awaited f) \<and> bf_buffer f = csi"
    assume "\<not> \<not> bf_held_pending_host_reply_esc f"
    have "\<not> bf_lone_escape_recently_flushed f" using lone c by auto
    then show "left_over f (snd (flush_replies (f\<lparr>bf_host_cell_size_replies_awaited := 0,
        bf_host_appearance_reply_awaited := False, bf_held_pending_host_reply_esc := False\<rparr>)))"
      using flush_csi c by (simp add: left_over_def framer_ok_def)
  next
    assume "bf_buffer f \<noteq> []"
    then show "left_over f (snd (flush_replies f))" using flush_replies_left [OF assms(1) None] lone by blast
  next
    assume "bf_buffer f = []"
    then show "left_over f (snd ([], f))" using assms(1) by (simp add: left_over_def)
  next
    assume "prefix paste_start (bf_buffer f) \<and> find_subsequence (bf_buffer f) paste_end = None"
    then have "waits (bf_buffer f)" unfolding waits_def by blast
    then show "left_over f (snd ([], f))" using assms(1) None by (simp add: left_over_def)
  next
    assume "starts_with_incomplete_default_color_response (bf_buffer f)"
    then have "waits (bf_buffer f)" unfolding waits_def by blast
    then show "left_over f (snd ([], f))" using assms(1) None by (simp add: left_over_def)
  next
    assume "\<not> bf_held_pending_host_reply_esc f"
    then have "held_once f (f\<lparr>bf_held_pending_host_reply_esc := True\<rparr>)" using None by (simp add: held_once_def)
    then show "left_over f (snd ([], f\<lparr>bf_held_pending_host_reply_esc := True\<rparr>))"
      using assms(1) unfolding left_over_def snd_conv by (simp add: framer_ok_def)
  qed
qed

lemma drain_step_stop_measure:
  assumes "drain_step upper f = Some (DrainStop f')"
  shows "drain_measure f' \<le> drain_measure f"
proof -
  have d: "drain_measure h \<le> drain_measure g" if "discard_step g family = DrainStop h" for g h family
    using that discard_host_length [of "bf_buffer g" "bf_discarded_tail_bytes g"]
      discard_orphan_length [of "bf_buffer g" "bf_discarded_tail_bytes g"]
    by (auto simp: discard_step_def drain_measure_def Let_def split: control_family.splits prod.splits if_splits option.splits)
  have m: "drain_measure (f\<lparr>bf_lone_escape_recently_flushed := False\<rparr>) = drain_measure f" by (simp add: drain_measure_def)
  show ?thesis using assms m d [of "f\<lparr>bf_lone_escape_recently_flushed := False\<rparr>"]
      extract_step_stop [of upper "f\<lparr>bf_lone_escape_recently_flushed := False\<rparr>"]
    by (auto simp: drain_step_def Let_def split: if_splits option.splits)
qed

lemma drain_measure_le: "drain_available_chunks upper f = Some (cs, f') \<Longrightarrow> drain_measure f' \<le> drain_measure f"
proof (induction upper f arbitrary: cs rule: drain_available_chunks.induct)
  case (1 upper f)
  show ?case
  proof (cases "drain_step upper f")
    case None
    then show ?thesis using 1(2) by (subst (asm) drain_available_chunks.simps) simp
  next
    case (Some r)
    show ?thesis
    proof (cases r)
      case (DrainStop g)
      then have "g = f'" using 1(2) Some by (subst (asm) drain_available_chunks.simps) simp
      then show ?thesis using drain_step_stop_measure [of upper f f'] Some DrainStop by simp
    next
      case (DrainContinue c g)
      then obtain cs' where "drain_available_chunks upper g = Some (cs', f')"
        using 1(2) Some by (subst (asm) drain_available_chunks.simps) auto
      then show ?thesis using 1(1) [OF Some DrainContinue] drain_step_measure [of upper f c g] Some DrainContinue
        by fastforce
    qed
  qed
qed

lemma drain_empty: "drain_available_chunks upper f = Some (cs, f') \<Longrightarrow> bf_buffer f = [] \<Longrightarrow> bf_buffer f' = []"
  using drain_measure_le [of upper f cs f'] by (cases "bf_buffer f'") (auto simp: drain_measure_def split: if_splits)

lemma flush_timeout_left:
  assumes "flush_timeout upper f = Some (cs, f')" "framer_ok f"
  obtains c g where "drain_available_chunks upper f = Some (c, g)" "stopped upper g" "framer_ok g" "left_over g f'"
proof -
  obtain c g where g: "drain_available_chunks upper f = Some (c, g)" "f' = snd (flush_incomplete g)"
    using assms(1) by (cases "drain_available_chunks upper f") (auto simp: flush_timeout_def Let_def case_prod_unfold)
  note d = drain_stopped [OF g(1) assms(2)]
  have "left_over g (snd (flush_incomplete g))" using d by (intro flush_incomplete_left) blast+
  then show thesis using that g d by blast
qed

lemma held_escape_discarding:
  assumes "bf_discard_until f \<in> {Some FamOsc, Some FamStTerminated}" "bf_buffer f = esc" "framer_ok f"
  shows "stopped upper f"
proof -
  have l: "\<not> bf_lone_escape_recently_flushed f" using assms(1,3) by (auto simp: framer_ok_def)
  have "find_subsequence esc st = None" by (simp add: st_def)
  then have "control_string_terminator_for_family esc FamOsc = None" "control_string_terminator_for_family esc FamStTerminated = None"
    by (simp_all add: control_string_terminator_for_family_def osc_string_terminator_def st_string_terminator_def)
  then show ?thesis using assms(1,2) l lone_cleared [OF l]
    by (auto simp: stopped_def drain_step_def discard_step_def)
qed

lemma flush_twice_settles:
  assumes "framer_ok f" "flush_timeout upper f = Some (c1, f1)" "flush_timeout upper f1 = Some (c2, f2)"
  shows "settled f2"
proof -
  obtain d1 g1 where g1: "drain_available_chunks upper f = Some (d1, g1)" "stopped upper g1" "framer_ok g1" "left_over g1 f1"
    by (rule flush_timeout_left [OF assms(2,1)])
  have ok1: "framer_ok f1" using g1(4) by (simp add: left_over_def)
  obtain d2 g2 where g2: "drain_available_chunks upper f1 = Some (d2, g2)" "stopped upper g2" "framer_ok g2" "left_over g2 f2"
    by (rule flush_timeout_left [OF assms(3) ok1])
  consider "bf_buffer f1 = []" | "bf_discard_until f1 \<in> {Some FamOsc, Some FamStTerminated}" "bf_buffer f1 = esc"
    | "bf_discard_until g1 = None" "f1 = g1" "waits (bf_buffer g1)" | "held_once g1 f1"
    using g1(4) by (auto simp: left_over_def)
  then have "bf_buffer g2 = [] \<or> bf_discard_until g2 \<noteq> None \<or> waits (bf_buffer g2) \<or> bf_held_pending_host_reply_esc g2"
  proof cases
    case 1
    then show ?thesis using drain_empty [OF g2(1)] by simp
  next
    case 2
    then have "g2 = f1" using stopped_drain [OF held_escape_discarding [OF 2 ok1]] g2(1) by simp
    then show ?thesis using 2 by auto
  next
    case 3
    then have "g2 = g1" using stopped_drain [OF g1(2)] g2(1) by simp
    then show ?thesis using 3 by simp
  next
    case 4
    then have "f1 = g1\<lparr>bf_held_pending_host_reply_esc := True\<rparr>" "bf_discard_until g1 = None" by (simp_all add: held_once_def)
    then have "stopped upper f1" using held_irrelevant [OF g1(2)] by simp
    then have "g2 = f1" using stopped_drain [of upper f1] g2(1) by simp
    then show ?thesis using 4 by (simp add: held_once_def)
  qed
  then show ?thesis using g2(4) by (auto simp: left_over_def held_once_def settled_def)
qed

section \<open>Delivering events\<close>

text \<open>
  What the input reader of \<open>src/src/raw_input.rs\<close> does around the framer: the questions it asks
  about the buffer and the events, the timeout it waits, and the channel. The colours of the host's
  palette arrive as 256 replies and are sent on in batches; the channel is the list of what was sent.
\<close>

definition enable_host_color_scheme_change_tracking :: "byte_framer \<Rightarrow> byte_framer" where
  "enable_host_color_scheme_change_tracking f = f\<lparr>bf_host_color_scheme_change_tracking := True\<rparr>"

definition enable_host_appearance_query_on_focus :: "byte_framer \<Rightarrow> byte_framer" where
  "enable_host_appearance_query_on_focus f = f\<lparr>bf_host_appearance_query_on_focus := True\<rparr>"

definition has_pending_input :: "byte_framer \<Rightarrow> bool" where
  "has_pending_input f \<longleftrightarrow> bf_buffer f \<noteq> []"

definition has_pending_lone_escape :: "byte_framer \<Rightarrow> bool" where
  "has_pending_lone_escape f \<longleftrightarrow> bf_buffer f = esc"

definition events_require_host_surface_redraw :: "raw_input_event list \<Rightarrow> bool \<Rightarrow> bool" where
  "events_require_host_surface_redraw events redraw_on_focus_gained
     \<longleftrightarrow> redraw_on_focus_gained \<and> list_ex (\<lambda>e. e = EvFocusGained) events"

definition events_require_host_terminal_appearance_query :: "raw_input_event list \<Rightarrow> bool" where
  "events_require_host_terminal_appearance_query events = list_ex (\<lambda>e. e = EvFocusGained) events"

definition events_require_host_terminal_theme_query :: "raw_input_event list \<Rightarrow> bool" where
  "events_require_host_terminal_theme_query events
     = list_ex (\<lambda>e. case e of EvHostColorSchemeChanged _ \<Rightarrow> True | _ \<Rightarrow> False) events"

definition input_flush_timeout_ms :: "byte_framer \<Rightarrow> int" where
  "input_flush_timeout_ms f = (if has_pending_incomplete_mouse_sequence f then 150 else 10)"

subsection \<open>The palette\<close>

type_synonym palette = "(u8 \<times> rgb_color) list"

definition flush_host_palette_events :: "raw_input_event list \<Rightarrow> palette \<Rightarrow> raw_input_event list \<times> palette" where
  "flush_host_palette_events sent pending =
     (if pending = [] then (sent, []) else (sent @ [EvHostPaletteColors pending], []))"

definition send_raw_input_event ::
  "raw_input_event \<Rightarrow> raw_input_event list \<times> palette \<Rightarrow> raw_input_event list \<times> palette" where
  "send_raw_input_event e tx =
     (let (sent, pending) = tx in case e of
        EvHostPaletteColors colors \<Rightarrow>
          (let pending' = pending @ colors
           in if length pending' = 256 then flush_host_palette_events sent pending' else (sent, pending'))
      | EvHostDefaultColor _ _ \<Rightarrow> (sent @ [e], pending)
      | _ \<Rightarrow> (let (sent', pending') = flush_host_palette_events sent pending in (sent' @ [e], pending')))"

definition send_raw_input_events ::
  "raw_input_event list \<Rightarrow> raw_input_event list \<times> palette \<Rightarrow> raw_input_event list \<times> palette" where
  "send_raw_input_events events tx = fold send_raw_input_event events tx"

definition colors_of :: "raw_input_event \<Rightarrow> palette" where
  "colors_of e = (case e of EvHostPaletteColors colors \<Rightarrow> colors | _ \<Rightarrow> [])"

definition is_palette :: "raw_input_event \<Rightarrow> bool" where
  "is_palette e = (case e of EvHostPaletteColors _ \<Rightarrow> True | _ \<Rightarrow> False)"

text \<open>All colours that were sent or are pending, and the other events, in their order.\<close>

definition tx_colors :: "raw_input_event list \<times> palette \<Rightarrow> palette" where
  "tx_colors tx = concat (map colors_of (fst tx)) @ snd tx"

definition tx_others :: "raw_input_event list \<times> palette \<Rightarrow> raw_input_event list" where
  "tx_others tx = filter (\<lambda>e. \<not> is_palette e) (fst tx)"

lemma send_one:
  "tx_colors (send_raw_input_event e tx) = tx_colors tx @ colors_of e"
  "tx_others (send_raw_input_event e tx) = tx_others tx @ (if is_palette e then [] else [e])"
  by (cases tx; cases e; simp add: send_raw_input_event_def flush_host_palette_events_def tx_colors_def tx_others_def
      colors_of_def is_palette_def Let_def)+

lemma sent_in_order:
  "tx_colors (send_raw_input_events es tx) = tx_colors tx @ concat (map colors_of es)"
  "tx_others (send_raw_input_events es tx) = tx_others tx @ filter (\<lambda>e. \<not> is_palette e) es"
  unfolding send_raw_input_events_def by (induction es arbitrary: tx) (simp_all add: send_one)

text \<open>The events of the framer carry one colour each, so a batch never exceeds the palette.\<close>

lemma send_one_pending:
  "event_ok b e \<Longrightarrow> length (snd tx) < 256 \<Longrightarrow> length (snd (send_raw_input_event e tx)) < 256"
  by (cases tx; cases e) (auto simp: send_raw_input_event_def flush_host_palette_events_def event_ok_def Let_def)

lemma pending_bounded:
  "list_all (\<lambda>e. \<exists>b. event_ok b e) es \<Longrightarrow> length (snd tx) < 256 \<Longrightarrow> length (snd (send_raw_input_events es tx)) < 256"
  unfolding send_raw_input_events_def
proof (induction es arbitrary: tx)
  case (Cons e es)
  obtain b where "event_ok b e" using Cons.prems(1) by auto
  from Cons.IH [OF _ send_one_pending [OF this Cons.prems(2)]] Cons.prems(1) show ?case by simp
qed simp

subsection \<open>One turn of the reader\<close>

text \<open>
  The body of the loop of \<open>spawn_input_reader\<close>: the bytes of one read, and what the two polls of
  standard input said (\<open>quiet\<close>: nothing more within the timeout).
\<close>

definition reader_turn ::
  "(uchar \<Rightarrow> bool) \<Rightarrow> rstr \<Rightarrow> bool \<Rightarrow> bool \<Rightarrow> byte_framer \<times> (raw_input_event list \<times> palette)
     \<Rightarrow> (byte_framer \<times> (raw_input_event list \<times> palette)) option" where
  "reader_turn upper data quiet still_quiet state =
     (let (f, tx) = state in
      Option.bind (push_events upper f data) (\<lambda>(events, f1).
        let tx1 = send_raw_input_events events tx in
        if \<not> quiet then Some (f1, tx1)
        else
          Option.bind (flush_events upper f1) (\<lambda>(events2, f2).
            let held_escape = has_pending_input f1 \<and> events2 = [];
                tx2 = case_prod flush_host_palette_events (send_raw_input_events events2 tx1)
            in if held_escape \<and> still_quiet then
                 Option.bind (flush_events upper f2) (\<lambda>(events3, f3).
                   Some (f3, case_prod flush_host_palette_events (send_raw_input_events events3 tx2)))
               else Some (f2, tx2))))"

lemma flush_palette_pending [simp]: "snd (case_prod flush_host_palette_events tx) = []"
  by (simp add: flush_host_palette_events_def case_prod_unfold)

lemma push_events_framer:
  assumes "push_events upper f data = Some (es, f1)" "framer_ok f"
  shows "stopped upper f1 \<and> framer_ok f1 \<and> (bf_discard_until f1 = Some FamHostReplyCsi \<longrightarrow> bf_buffer f1 = [])
    \<and> (bf_lone_escape_recently_flushed f1 \<longrightarrow> starts_with_incomplete_orphaned_sgr_mouse_tail (bf_buffer f1))"
proof -
  obtain cs where d: "drain_available_chunks upper (with_input data f) = Some (cs, f1)"
    using assms(1) by (auto simp: push_events_def push_def bind_eq_Some_conv)
  have "framer_ok (with_input data f)" using assms(2) by (simp add: framer_ok_def)
  then show ?thesis by (rule drain_stopped [OF d])
qed

lemma flush_events_timeout:
  assumes "flush_events upper f = Some (es, f1)"
  obtains cs where "flush_timeout upper f = Some (cs, f1)" "events_from_chunks upper cs = Some es"
  using assms by (auto simp: flush_events_def bind_eq_Some_conv)

text \<open>A flush of a stopped framer is the flush of its buffer.\<close>

lemma stopped_flush: "stopped upper f \<Longrightarrow> flush_timeout upper f = Some (flush_incomplete f)"
  by (simp add: flush_timeout_def stopped_drain Let_def case_prod_unfold)

definition flushes_all :: "rstr list \<times> byte_framer \<Rightarrow> bool" where
  "flushes_all p \<longleftrightarrow> (fst p \<noteq> [] \<longrightarrow> bf_buffer (snd p) = [])"

lemma flushes_all_if: "(c \<Longrightarrow> flushes_all p) \<Longrightarrow> (\<not> c \<Longrightarrow> flushes_all q) \<Longrightarrow> flushes_all (if c then p else q)"
  by simp

lemma flushes_all_pair: "flushes_all ([], f)" "bf_buffer f = [] \<Longrightarrow> flushes_all (cs, f)"
  by (simp_all add: flushes_all_def)

lemma flush_chunk_empties: "flushes_all (flush_incomplete f)"
proof -
  have p: "flushes_all (flush_plain g)" for g
    unfolding flush_plain_def Let_def by (intro flushes_all_if flushes_all_pair) simp_all
  have r: "flushes_all (flush_replies g)" for g
    unfolding flush_replies_def Let_def
    by (cases "control_string (bf_buffer g)"; simp only: option.case; intro flushes_all_if flushes_all_pair p)
      (auto simp: flushes_all_pair(1) p split: control_string.split)
  show ?thesis unfolding flush_incomplete_def Let_def
    by (cases "bf_discard_until f"; simp only: option.case; intro flushes_all_if flushes_all_pair r)
qed

lemma flush_empty: "bf_buffer f = [] \<Longrightarrow> bf_buffer (snd (flush_incomplete f)) = []"
  by (auto simp: flush_incomplete_def flush_discarding_def stop_discarding_def Let_def split: option.split)

lemma quiet_turn_settles_framer:
  assumes "reader_turn upper data True True (f, tx) = Some (f', tx')" "framer_ok f"
  shows "settled f' \<and> framer_ok f'"
proof -
  obtain es f1 where p: "push_events upper f data = Some (es, f1)"
    using assms(1) by (auto simp: reader_turn_def bind_eq_Some_conv)
  note s = push_events_framer [OF p assms(2)]
  obtain es2 f2 where e2: "flush_events upper f1 = Some (es2, f2)"
    using assms(1) p by (auto simp: reader_turn_def Let_def bind_eq_Some_conv)
  obtain cs where c: "flush_timeout upper f1 = Some (cs, f2)" "events_from_chunks upper cs = Some es2"
    by (rule flush_events_timeout [OF e2])
  have fl: "cs = fst (flush_incomplete f1)" "f2 = snd (flush_incomplete f1)"
    using c(1) stopped_flush s by (metis fst_conv option.inject snd_conv)+
  have ok2: "framer_ok f2"
    using flush_incomplete_left [of f1] s unfolding fl(2) left_over_def by blast
  show ?thesis
  proof (cases "has_pending_input f1 \<and> es2 = []")
    case True
    then obtain es3 where e3: "flush_events upper f2 = Some (es3, f')"
      using assms(1) p e2 by (auto simp: reader_turn_def Let_def bind_eq_Some_conv)
    obtain cs3 where c3: "flush_timeout upper f2 = Some (cs3, f')" by (rule flush_events_timeout [OF e3])
    obtain d g where "left_over g f'" by (rule flush_timeout_left [OF c3 ok2])
    then show ?thesis using flush_twice_settles [OF _ c(1) c3] s by (simp add: left_over_def)
  next
    case False
    then have "f' = f2" using assms(1) p e2 by (auto simp: reader_turn_def Let_def)
    moreover have "bf_buffer f2 = []"
    proof (cases "es2 = []")
      case True
      then show ?thesis using False flush_empty [of f1] by (simp add: has_pending_input_def fl(2))
    next
      case False
      then have "cs \<noteq> []" using c(2) by auto
      then show ?thesis using flush_chunk_empties [of f1] fl by (simp add: flushes_all_def)
    qed
    ultimately show ?thesis using ok2 by (simp add: settled_def)
  qed
qed

end
