(* ===== verification/RawInputProps.thy ===== *)
theory RawInputProps
  imports RawFlush
begin

section \<open>ASCII input\<close>

text \<open>
  The only panic of \<open>src/src/raw_input.rs\<close> is in the colour parser of \<open>src/src/terminal_theme.rs\<close>,
  which cuts a colour at byte positions. On ASCII input no cut is inside a character, so the framer
  always returns.
\<close>

definition ascii :: "rstr \<Rightarrow> bool" where
  "ascii s = list_all (\<lambda>c. byte c < 128) s"

lemma ascii_subset: "ascii s \<Longrightarrow> set t \<subseteq> set s \<Longrightarrow> ascii t"
  by (auto simp: ascii_def list_all_iff)

lemma ascii_parts [simp]: "ascii []" "ascii (s @ t) \<longleftrightarrow> ascii s \<and> ascii t"
  by (simp_all add: ascii_def)

lemma set_tl_subset: "set (tl s) \<subseteq> set s"
  by (cases s) auto

lemma ascii_take_drop: "ascii s \<Longrightarrow> ascii (take n s)" "ascii s \<Longrightarrow> ascii (drop n s)" "ascii s \<Longrightarrow> ascii (tl s)"
  by (erule ascii_subset, rule set_take_subset set_drop_subset set_tl_subset)+

lemma ascii_esc [simp]: "ascii esc"
  by (simp add: ascii_def byte_def)

subsection \<open>Events\<close>

lemma color_value_subset: "osc_color_value rest = Some (command, colour) \<Longrightarrow> set colour \<subseteq> set rest"
proof -
  assume a: "osc_color_value rest = Some (command, colour)"
  then obtain s where s: "strip_st_or_bel rest = Some s" "split_once CHR '';'' s = Some (command, colour)"
    by (auto simp: osc_color_value_def bind_eq_Some_conv)
  have "set s \<subseteq> set rest"
    using s(1) by (auto simp: strip_st_or_bel_def strip_suffix_def split: if_splits dest: in_set_takeD in_set_butlastD)
  moreover have "set (tl (dropWhile p s)) \<subseteq> set s" for p
    using set_tl_subset [of "dropWhile p s"] by (auto dest: set_dropWhileD)
  ultimately show "set colour \<subseteq> set rest" using s(2) by (auto simp: split_once_def split: if_splits)
qed

lemma ascii_colour:
  assumes "ascii s" "Option.bind (strip_prefix p s) osc_color_value = Some (command, colour)"
  shows "parse_rgb_color colour \<noteq> None"
proof (rule ascii_color_no_panic)
  obtain rest where r: "strip_prefix p s = Some rest" "osc_color_value rest = Some (command, colour)"
    using assms(2) by (auto simp: bind_eq_Some_conv)
  have "set rest \<subseteq> set s" using r(1) by (auto simp: strip_prefix_def split: if_splits dest: in_set_dropD)
  then show "list_all (\<lambda>c. byte c < 128) colour"
    using color_value_subset [OF r(2)] ascii_subset [OF assms(1)] by (simp add: ascii_def)
qed

lemma ascii_default_reply: "ascii s \<Longrightarrow> \<exists>r. parse_default_color_response s = Some r"
  unfolding parse_default_color_response_def
  by (auto split: option.split dest: ascii_colour)

lemma ascii_palette_reply: "ascii s \<Longrightarrow> \<exists>r. parse_palette_color_response s = Some r"
  unfolding parse_palette_color_response_def
  by (auto split: option.split dest: ascii_colour)

lemma ascii_escape_event: "ascii s \<Longrightarrow> \<exists>r. escape_event s = Some r"
  using ascii_default_reply [of s] ascii_palette_reply [of s] unfolding escape_event_def
  by (auto split: option.split)

lemma ascii_extract: "ascii s \<Longrightarrow> \<exists>r. extract_one_event upper s = Some r"
proof (cases "complete_escape_sequence_len s")
  case (Some len)
  assume "ascii s"
  then obtain r where "escape_event (take len s) = Some r" using ascii_escape_event ascii_take_drop(1) by blast
  then show ?thesis unfolding extract_one_event_def Some option.case by simp
qed (simp add: extract_one_event_def)

lemma ascii_chunks: "list_all ascii chunks \<Longrightarrow> \<exists>es. events_from_chunks upper chunks = Some es"
  by (induction chunks) (auto simp: chunk_event_def dest: ascii_extract [where upper = upper])

subsection \<open>The loop\<close>

lemma discard_subset:
  "set (fst (discard_host_reply_csi_tail b d)) \<subseteq> set b" "set (fst (discard_orphaned_sgr_mouse_tail b d)) \<subseteq> set b"
  by (auto simp: discard_host_reply_csi_tail_def discard_orphaned_sgr_mouse_tail_def Let_def
      split: option.split dest: in_set_dropD)

lemma ascii_discard_step:
  assumes "ascii (bf_buffer f)"
  shows "case discard_step f family of DrainStop f' \<Rightarrow> ascii (bf_buffer f') | DrainContinue cs f' \<Rightarrow> cs = [] \<and> ascii (bf_buffer f')"
  using assms ascii_subset [OF assms discard_subset(1)] ascii_subset [OF assms discard_subset(2)]
  by (auto simp: discard_step_def stop_discarding_def Let_def case_prod_unfold ascii_take_drop
      split: control_family.split option.split)

lemma ascii_drain_step:
  assumes "ascii (bf_buffer f)"
  obtains (stop) f' where "drain_step upper f = Some (DrainStop f')" "ascii (bf_buffer f')"
    | (continue) cs f' where "drain_step upper f = Some (DrainContinue cs f')" "ascii (bf_buffer f')" "list_all ascii cs"
proof -
  let ?f1 = "f\<lparr>bf_lone_escape_recently_flushed := False\<rparr>"
  have drop: "ascii r" if "discard_complete_orphaned_sgr_mouse_tail (bf_buffer f) = Some r" for r
    using that assms by (auto simp: discard_complete_orphaned_sgr_mouse_tail_def bind_eq_Some_conv Let_def ascii_take_drop split: if_splits)
  have disc: "case discard_step ?f1 family of DrainStop f' \<Rightarrow> ascii (bf_buffer f') | DrainContinue cs f' \<Rightarrow> cs = [] \<and> ascii (bf_buffer f')" for family
    by (rule ascii_discard_step) (simp add: assms)
  have ext: "\<exists>f'. extract_step upper ?f1 = Some (DrainStop f') \<and> ascii (bf_buffer f')
    \<or> (\<exists>cs f'. extract_step upper ?f1 = Some (DrainContinue cs f') \<and> ascii (bf_buffer f') \<and> list_all ascii cs)"
    using assms ascii_extract [OF assms, of upper]
    by (cases rule: extract_step_cases [of ?f1 upper]) (auto simp: ascii_take_drop)
  have "(\<exists>f'. drain_step upper f = Some (DrainStop f') \<and> ascii (bf_buffer f'))
    \<or> (\<exists>cs f'. drain_step upper f = Some (DrainContinue cs f') \<and> ascii (bf_buffer f') \<and> list_all ascii cs)"
  proof (cases "bf_lone_escape_recently_flushed f \<and> starts_with_incomplete_orphaned_sgr_mouse_tail (bf_buffer f)")
    case True
    then show ?thesis using assms by (simp add: drain_step_def)
  next
    case False
    show ?thesis
    proof (cases "if bf_lone_escape_recently_flushed f then discard_complete_orphaned_sgr_mouse_tail (bf_buffer f) else None")
      case (Some r)
      then show ?thesis using False drop by (auto simp: drain_step_def split: if_splits)
    next
      case None
      show ?thesis
      proof (cases "bf_discard_until f")
        case None': None
        have "drain_step upper f = extract_step upper ?f1"
          unfolding drain_step_def Let_def if_not_P [OF False] None option.case by (simp add: None')
        then show ?thesis using ext by auto
      next
        case (Some family)
        have "drain_step upper f = Some (discard_step ?f1 family)"
          unfolding drain_step_def Let_def if_not_P [OF False] None option.case by (simp add: Some)
        then show ?thesis using disc [of family] by (cases "discard_step ?f1 family") auto
      qed
    qed
  qed
  then show thesis using that by blast
qed

lemma ascii_drain:
  "ascii (bf_buffer f) \<Longrightarrow> \<exists>cs f'. drain_available_chunks upper f = Some (cs, f') \<and> ascii (bf_buffer f') \<and> list_all ascii cs"
proof (induction upper f rule: drain_available_chunks.induct)
  case (1 upper f)
  from 1(2) show ?case
  proof (cases rule: ascii_drain_step [of f upper])
    case (stop f')
    then show ?thesis by (subst drain_available_chunks.simps) simp
  next
    case (continue cs f')
    obtain cs' f'' where "drain_available_chunks upper f' = Some (cs', f'')" "ascii (bf_buffer f'')" "list_all ascii cs'"
      using 1(1) [OF continue(1) refl continue(2)] by blast
    then show ?thesis using continue by (subst drain_available_chunks.simps) simp
  qed
qed

lemma ascii_push_events:
  assumes "ascii (bf_buffer f)" "ascii data"
  obtains es f' where "push_events upper f data = Some (es, f')" "ascii (bf_buffer f')"
proof -
  obtain cs f' where c: "push upper f data = Some (cs, f')" "ascii (bf_buffer f')" "list_all ascii cs"
    using ascii_drain [of "with_input data f" upper] assms unfolding push_def by auto
  moreover obtain es where "events_from_chunks upper cs = Some es" using ascii_chunks [OF c(3)] by blast
  ultimately show thesis using that by (simp add: push_events_def)
qed

subsection \<open>The flush\<close>

lemma flush_chunks: "set (fst (flush_incomplete f)) \<subseteq> {bf_buffer f}"
proof -
  have p: "bf_buffer g = b \<Longrightarrow> set (fst (flush_plain g)) \<subseteq> {b}" for g b by (simp add: flush_plain_def Let_def)
  have r: "bf_buffer g = b \<Longrightarrow> set (fst (flush_replies g)) \<subseteq> {b}" for g b
    using p [of g b] by (simp add: flush_replies_def Let_def split: option.split control_string.split)
  then show ?thesis unfolding flush_incomplete_def Let_def
    by (simp only: if_distrib [of fst] if_distrib [of set] fst_conv split: option.split) (auto intro!: r)
qed

lemma ascii_flush_events:
  assumes "ascii (bf_buffer f)"
  shows "\<exists>es f'. flush_events upper f = Some (es, f')"
proof -
  obtain cs f1 where d: "drain_available_chunks upper f = Some (cs, f1)" "ascii (bf_buffer f1)" "list_all ascii cs"
    using ascii_drain [OF assms] by blast
  have "list_all ascii (cs @ fst (flush_incomplete f1))"
    using d(2,3) flush_chunks [of f1] by (auto simp: list_all_iff)
  then obtain es where "events_from_chunks upper (cs @ fst (flush_incomplete f1)) = Some es"
    using ascii_chunks by blast
  then show ?thesis using d(1) by (simp add: flush_events_def flush_timeout_def Let_def case_prod_unfold)
qed

section \<open>Properties of the raw input framer\<close>

text \<open>
  What the framer of \<open>src/src/raw_input.rs\<close> promises its callers: the result does not depend on how
  the bytes were cut into reads, no byte is lost, every event is well formed, an idle framer comes
  to rest, and two inputs on which it fails.
\<close>

lemma push_append: "push upper f (a @ b) = drain_available_chunks upper (with_input b (with_input a f))"
  by (simp add: push_def)

text \<open>Property C7. The framer may be fed in pieces: outside the discarding of a lost tail, and
  unless the timeout has just flushed a lone ESC, after which such a tail may follow, pushing \<open>a @ b\<close> at once gives the chunks and the framer that pushing \<open>a\<close> and then \<open>b\<close> gives (and it panics
  exactly if one of the two pushes does), wherever a sequence is cut.
\<close>

theorem push_is_chunk_independent:
  assumes "framing f"
  shows "push upper f (a @ b) = Option.bind (push upper f a) (\<lambda>(chunks, f1).
    map_option (\<lambda>(chunks2, f2). (chunks @ chunks2, f2)) (push upper f1 b))"
  unfolding push_append using drain_more [of "with_input a f" upper b] assms by (simp add: push_def)

theorem push_is_chunk_independent_witness:
  "push (\<lambda>_. False) default_framer (''[A'' @ ''x'') = Option.bind (push (\<lambda>_. False) default_framer ''[A'') (\<lambda>(chunks, f1).
    map_option (\<lambda>(chunks2, f2). (chunks @ chunks2, f2)) (push (\<lambda>_. False) f1 ''x''))"
  by (rule push_is_chunk_independent) (simp add: framing_def default_framer_def)

text \<open>Property C13. While the framer is cutting sequences, so neither discarding a lost tail nor just after
  the timeout flushed a lone ESC, pushed bytes are neither lost nor reordered: the chunks and what stays in
  the buffer are the old buffer and the data, no chunk is empty, the framer goes on cutting sequences,
  and with the host input policy that splits doubled escapes every chunk is read as exactly one event.
\<close>

theorem pushed_bytes_are_kept:
  assumes "framing f" "push upper f data = Some (chunks, f')"
  shows "concat chunks @ bf_buffer f' = bf_buffer f @ data \<and> [] \<notin> set chunks \<and> framing f'
    \<and> (bf_split_coalesced_escape f \<longrightarrow>
        (\<exists>es. events_from_chunks upper chunks = Some es \<and> length es = length chunks))"
  using drain_bytes [of "with_input data f" upper chunks f'] framed_chunks [of "with_input data f" upper chunks f'] assms
  by (simp add: push_def)

theorem pushed_bytes_are_kept_witness:
  "length (the (events_from_chunks (\<lambda>_. False) [esc, esc @ ''[A''])) = 2"
proof -
  let ?f = "with_host_input_policy False"
  have "framing ?f" by (simp add: framing_def with_host_input_policy_def default_framer_def)
  moreover have "push (\<lambda>_. False) ?f (esc @ esc @ ''[A'') = Some ([esc, esc @ ''[A''], ?f)" by code_simp
  ultimately have "\<exists>es. events_from_chunks (\<lambda>_. False) [esc, esc @ ''[A''] = Some es \<and> length es = 2"
    using pushed_bytes_are_kept [of ?f "\<lambda>_. False" "esc @ esc @ ''[A''" "[esc, esc @ ''[A'']" ?f]
    by (simp add: with_host_input_policy_def numeral_2_eq_2 del: events_from_chunks.simps)
  then show ?thesis by auto
qed



text \<open>Property C14. A quiet turn of the input reader comes to rest: when standard input stays silent after
  a read, the one or two flushes of the turn leave an empty buffer, an unfinished paste, colour reply
  or character, or the ESC of a terminator while a tail is discarded, and no palette colour is held
  back. A half-received key or mouse report does not stay in the buffer, and the next turn starts
  from a framer of the same kind.
\<close>

theorem quiet_turn_settles:
  assumes "reader_turn upper data True True (f, tx) = Some (f', tx')" "framer_ok f"
  shows "settled f' \<and> framer_ok f' \<and> snd tx' = []"
proof -
  have "snd tx' = []"
    using assms(1) by (auto simp: reader_turn_def Let_def bind_eq_Some_conv split: if_splits)
  then show ?thesis using quiet_turn_settles_framer [OF assms] by blast
qed

theorem quiet_turn_settles_witness:
  "settled (default_framer\<lparr>bf_lone_escape_recently_flushed := True\<rparr>)"
proof -
  have "reader_turn (\<lambda>_. False) esc True True (default_framer, [], [])
      = Some (default_framer\<lparr>bf_lone_escape_recently_flushed := True\<rparr>, [EvKey (with_vt_bytes (new_key KcEsc mods_empty) esc)], [])"
    by code_simp
  moreover have "framer_ok default_framer" by (simp add: framer_ok_def default_framer_def)
  ultimately show ?thesis using quiet_turn_settles by blast
qed

text \<open>ASCII input never panics: from an ASCII buffer a push of ASCII bytes returns its events
  and an ASCII buffer again, and so does the parser that pushes and flushes at once.
\<close>

theorem ascii_input_never_panics:
  assumes "ascii (bf_buffer f)" "ascii data"
  shows "(\<exists>es f'. push_events upper f data = Some (es, f') \<and> ascii (bf_buffer f') \<and> flush_events upper f' \<noteq> None)
    \<and> parse_raw_input_bytes_sync upper data \<noteq> None"
proof -
  obtain es f' where p: "push_events upper f data = Some (es, f')" "ascii (bf_buffer f')"
    by (rule ascii_push_events [OF assms])
  have "ascii (bf_buffer default_framer)" by (simp add: default_framer_def)
  then obtain es2 f2 where q: "push_events upper default_framer data = Some (es2, f2)" "ascii (bf_buffer f2)"
    by (rule ascii_push_events [OF _ assms(2)])
  show ?thesis using p q ascii_flush_events [OF p(2), of upper] ascii_flush_events [OF q(2), of upper]
    by (auto simp: parse_raw_input_bytes_sync_def)
qed

theorem ascii_input_never_panics_witness:
  "parse_raw_input_bytes_sync (\<lambda>_. False) (esc @ '']11;#abc'' @ [CHR 0x07]) \<noteq> None"
proof -
  have "ascii (esc @ '']11;#abc'' @ [CHR 0x07])" by (simp add: ascii_def byte_def)
  moreover have "ascii (bf_buffer default_framer)" by (simp add: default_framer_def)
  ultimately show ?thesis using ascii_input_never_panics by blast
qed










text \<open>Property C39. While the framer is cutting sequences and does not split doubled escapes, an Alt+Esc in its
  legacy form ESC ESC is a key to the parser and a chunk to the framer, but the chunk is read back as no
  event: whatever replies are awaited, the push returns nothing, the flush after the timeout empties the
  buffer, and the key is lost.
\<close>

theorem doubled_escape_is_lost:
  assumes "framing f" "bf_buffer f = []" "\<not> bf_split_coalesced_escape f"
  shows "parse_terminal_key_sequence (esc @ esc) = Some (new_key KcEsc (mods_empty\<lparr>km_alt := True\<rparr>))
   \<and> push_events upper f (esc @ esc) = Some ([], f\<lparr>bf_buffer := esc @ esc\<rparr>)
   \<and> flush_timeout upper (f\<lparr>bf_buffer := esc @ esc\<rparr>) = Some ([esc @ esc], f)
   \<and> flush_events upper (f\<lparr>bf_buffer := esc @ esc\<rparr>) = Some ([], f)"
proof -
  let ?g = "f\<lparr>bf_buffer := esc @ esc\<rparr>"
  have key: "parse_terminal_key_sequence (esc @ esc) = Some (new_key KcEsc (mods_empty\<lparr>km_alt := True\<rparr>))" by code_simp
  have none: "extract_one_event upper (esc @ esc) = Some None" by code_simp
  have fg: "framing ?g" using assms(1) by (simp add: framing_def)
  have drain: "drain_available_chunks upper ?g = Some ([], ?g)"
    using assms(3) fg none by (simp add: drain_framing extract_step_def)
  then have push: "push upper f (esc @ esc) = Some ([], ?g)" using assms(2) by (simp add: push_def)
  have same: "f\<lparr>bf_buffer := []\<rparr> = f" using assms(2) by (cases f) simp
  have "valid_utf8 (esc @ esc)" by code_simp
  then have plain: "flush_plain ?g = ([esc @ esc], f)" using key same by (simp add: flush_plain_def)
  have false: "\<not> starts_with_incomplete_sgr_mouse_sequence (esc @ esc)" "\<not> starts_with_incomplete_default_mouse_sequence (esc @ esc)"
      "\<not> starts_with_incomplete_default_color_response (esc @ esc)" "\<not> starts_with_incomplete_host_color_scheme_report (esc @ esc)"
      "\<not> starts_with_incomplete_host_cell_size_report (esc @ esc)" "control_string (esc @ esc) = None"
      "\<not> prefix paste_start (esc @ esc)" "esc @ esc \<noteq> csi" by code_simp+
  have "flush_incomplete ?g = ([esc @ esc], f)"
    using assms(1) false plain by (simp add: flush_incomplete_def framing_def flush_replies_def)
  then have flush: "flush_timeout upper ?g = Some ([esc @ esc], f)" using drain by (simp add: flush_timeout_def)
  have "chunk_event upper (esc @ esc) = Some None" using none by (simp add: chunk_event_def)
  then show ?thesis using key push flush by (simp add: push_events_def flush_events_def)
qed

theorem doubled_escape_is_lost_witness:
  "push_events (\<lambda>_. False) (host_color_query_sent default_framer) (esc @ esc)
     = Some ([], (host_color_query_sent default_framer)\<lparr>bf_buffer := esc @ esc\<rparr>)
   \<and> flush_events (\<lambda>_. False) ((host_color_query_sent default_framer)\<lparr>bf_buffer := esc @ esc\<rparr>)
     = Some ([], host_color_query_sent default_framer)"
  using doubled_escape_is_lost [of "host_color_query_sent default_framer" "\<lambda>_. False"]
  by (simp add: framing_def host_color_query_sent_def default_framer_def)

end
