(* ===== verification/ManifestRegion.thy ===== *)
theory ManifestRegion
  imports RustUtf8 RustStr
begin

section \<open>Regions of the screen\<close>

text \<open>
  The part of \<open>src/src/detect/manifest.rs\<close> that cuts the region a rule looks at out of the text of
  the screen: \<open>region\<close> and the functions it calls. A slice off a character boundary panics, which is
  \<open>None\<close>. The code computes the offset of a line as the lengths of the lines before it plus one byte
  each; lemma \<open>offset_exact\<close> shows that this is the start of the line in a text without carriage
  returns.
\<close>

record detection_input =
  di_screen :: rstr
  di_osc_title :: rstr
  di_osc_progress :: rstr

definition rposition :: "('a \<Rightarrow> bool) \<Rightarrow> 'a list \<Rightarrow> nat option" where
  "rposition p xs = map_option (\<lambda>k. length xs - 1 - k) (position p (rev xs))"

definition blank :: "rstr \<Rightarrow> bool" where
  "blank line \<longleftrightarrow> trim line = []"

subsection \<open>Slices at lines\<close>

definition line_start_offset :: "rstr \<Rightarrow> rstr list \<Rightarrow> nat \<Rightarrow> nat" where
  "line_start_offset content lines index =
     min (sum_list (map (\<lambda>line. length line + 1) (take index lines))) (length content)"

definition slice_from_line_index :: "rstr \<Rightarrow> rstr list \<Rightarrow> nat \<Rightarrow> rstr option" where
  "slice_from_line_index content lines index =
     str_slice content (min (line_start_offset content lines index) (length content)) (length content)"

definition bottom_lines :: "rstr \<Rightarrow> nat \<Rightarrow> rstr option" where
  "bottom_lines content count =
     (let lines = str_lines content in slice_from_line_index content lines (length lines - count))"

definition non_empty_indices :: "rstr list \<Rightarrow> nat list" where
  "non_empty_indices lines = filter (\<lambda>i. \<not> blank (lines ! i)) [0..<length lines]"

definition bottom_non_empty_lines :: "rstr \<Rightarrow> nat \<Rightarrow> rstr option" where
  "bottom_non_empty_lines content count =
     (let lines = str_lines content;
          taken = take count (rev (non_empty_indices lines))
      in if taken = [] then Some [] else slice_from_line_index content lines (last taken))"

definition top_non_empty_lines :: "rstr \<Rightarrow> nat \<Rightarrow> rstr option" where
  "top_non_empty_lines content count =
     (let lines = str_lines content;
          taken = take count (non_empty_indices lines)
      in if taken = [] then Some []
         else str_slice content 0 (line_start_offset content lines (last taken + 1)))"

subsection \<open>Codex prompts\<close>

definition starts_with_char :: "nat list \<Rightarrow> rstr \<Rightarrow> bool" where
  "starts_with_char bytes s = prefix (map char_of bytes) s"

definition prompt_char :: rstr where
  "prompt_char = map char_of [0xE2, 0x80, 0xBA :: nat]"

definition codex_prompt_line :: "rstr \<Rightarrow> bool" where
  "codex_prompt_line line \<longleftrightarrow> line = prompt_char \<or> prefix (prompt_char @ '' '') line"

definition codex_block_marker_line :: "rstr \<Rightarrow> bool" where
  "codex_block_marker_line line \<longleftrightarrow>
     starts_with_char [0xE2, 0x80, 0xA2] line \<or> starts_with_char [0xE2, 0x96, 0xA0] line
     \<or> starts_with_char [0xE2, 0x9C, 0x97] line \<or> starts_with_char [0xE2, 0x9C, 0x93] line"

definition current_codex_prompt_index :: "rstr list \<Rightarrow> nat option" where
  "current_codex_prompt_index lines =
     Option.bind (rposition codex_prompt_line lines) (\<lambda>prompt_index.
       if list_ex codex_block_marker_line (drop (prompt_index + 1) lines) then None else Some prompt_index)"

definition after_last_prompt_marker :: "rstr \<Rightarrow> rstr option" where
  "after_last_prompt_marker content =
     (let lines = str_lines content in
      case rposition codex_prompt_line lines of
        None \<Rightarrow> Some content
      | Some index \<Rightarrow> slice_from_line_index content lines (index + 1))"

definition before_current_prompt_marker :: "rstr \<Rightarrow> rstr option" where
  "before_current_prompt_marker content =
     (let lines = str_lines content in
      case current_codex_prompt_index lines of
        None \<Rightarrow> Some content
      | Some index \<Rightarrow>
          (let byte_offset = sum_list (map (\<lambda>line. length line + 1) (take index lines))
           in str_slice content 0 (min byte_offset (length content))))"

definition whole_recent_without_current_prompt_marker :: "rstr \<Rightarrow> rstr" where
  "whole_recent_without_current_prompt_marker content =
     (if current_codex_prompt_index (str_lines content) \<noteq> None then [] else content)"

definition current_prompt_block_marker :: "rstr \<Rightarrow> rstr option" where
  "current_prompt_block_marker content =
     (let lines = str_lines content in
      Option.bind (current_codex_prompt_index lines) (\<lambda>prompt_index.
        find codex_block_marker_line (rev (take prompt_index lines))))"

definition after_current_prompt_block_marker :: "rstr \<Rightarrow> rstr option option" where
  "after_current_prompt_block_marker content =
     (let lines = str_lines content in
      case Option.bind (current_codex_prompt_index lines)
          (\<lambda>prompt_index. rposition codex_block_marker_line (take prompt_index lines)) of
        None \<Rightarrow> Some None
      | Some block_index \<Rightarrow> map_option Some (slice_from_line_index content lines block_index))"

subsection \<open>Boxes\<close>

definition rule_char :: rstr where
  "rule_char = map char_of [0xE2, 0x94, 0x80 :: nat]"

definition is_horizontal_rule :: "rstr \<Rightarrow> bool" where
  "is_horizontal_rule line =
     (let trimmed = trim line;
          rule_chars = length (takeWhile (\<lambda>ch. ch = rule_char) (chars trimmed));
          suffix = trim_start (concat (drop rule_chars (chars trimmed)))
      in trimmed \<noteq> [] \<and> rule_chars \<noteq> 0 \<and> (suffix = [] \<or> 3 \<le> rule_chars))"

fun second_border :: "rstr list \<Rightarrow> nat \<Rightarrow> nat list \<Rightarrow> nat option" where
  "second_border lines border_count [] = None"
| "second_border lines border_count (index # rest) =
     (if is_horizontal_rule (lines ! index) then
        if border_count + 1 = 2 then Some index else second_border lines (border_count + 1) rest
      else second_border lines border_count rest)"

definition prompt_box_top_border_index :: "rstr list \<Rightarrow> nat option" where
  "prompt_box_top_border_index lines = second_border lines 0 (rev [0..<length lines])"

definition prompt_box_body :: "rstr \<Rightarrow> rstr option option" where
  "prompt_box_body content =
     (let lines = str_lines content in
      case prompt_box_top_border_index lines of
        None \<Rightarrow> Some None
      | Some border \<Rightarrow>
          (let start = line_start_offset content lines (border + 1);
               end_index = (case position is_horizontal_rule (drop (border + 1) lines) of
                   Some relative \<Rightarrow> border + 1 + relative | None \<Rightarrow> length lines);
               end_offset = line_start_offset content lines end_index
           in map_option Some (str_slice content (min start (length content)) (min end_offset (length content)))))"

definition above_prompt_box :: "rstr \<Rightarrow> rstr option" where
  "above_prompt_box content =
     (let lines = str_lines content in
      case prompt_box_top_border_index lines of
        None \<Rightarrow> Some content
      | Some border \<Rightarrow> str_slice content 0 (min (line_start_offset content lines border) (length content)))"

definition rule_end_step :: "rstr \<Rightarrow> rstr \<Rightarrow> nat \<times> nat \<Rightarrow> nat \<times> nat" where
  "rule_end_step content line state =
     (let (offset, last_rule_end) = state;
          next_offset = offset + length line + 1
      in (next_offset, if is_horizontal_rule line then min next_offset (length content) else last_rule_end))"

definition after_last_horizontal_rule :: "rstr \<Rightarrow> rstr option" where
  "after_last_horizontal_rule content =
     str_slice content (snd (fold (rule_end_step content) (str_lines content) (0, 0))) (length content)"

definition last_non_empty_line :: "rstr \<Rightarrow> rstr" where
  "last_non_empty_line content =
     (case find (\<lambda>line. \<not> blank line) (rev (str_lines content)) of Some line \<Rightarrow> line | None \<Rightarrow> [])"

subsection \<open>The region of a rule\<close>

definition parenthesised :: "rstr \<Rightarrow> rstr \<Rightarrow> rstr option" where
  "parenthesised name spec =
     Option.bind (strip_prefix name spec) (\<lambda>rest.
     Option.bind (strip_prefix ''('' rest) (strip_suffix CHR '')''))"

definition region_count :: "rstr \<Rightarrow> rstr \<Rightarrow> nat option" where
  "region_count spec name = Option.bind (parenthesised name spec) (parse_unsigned (2 ^ 64))"

definition max_top_region_line_count :: nat where
  "max_top_region_line_count = 65535"

definition top_region_count :: "rstr \<Rightarrow> nat option" where
  "top_region_count spec =
     Option.bind (parenthesised ''top_non_empty_lines'' spec) (\<lambda>count.
       if prefix ''0'' count \<or> \<not> list_all is_digit count then None
       else Option.bind (parse_unsigned (2 ^ 64) count)
              (\<lambda>n. if n \<le> max_top_region_line_count then Some n else None))"

definition or_empty :: "rstr option \<Rightarrow> rstr" where
  "or_empty s = (case s of Some t \<Rightarrow> t | None \<Rightarrow> [])"

definition counted_region :: "rstr \<Rightarrow> rstr \<Rightarrow> rstr option" where
  "counted_region content trimmed =
     (case region_count trimmed ''bottom_lines'' of
        Some count \<Rightarrow> bottom_lines content count
      | None \<Rightarrow> (case region_count trimmed ''bottom_non_empty_lines'' of
          Some count \<Rightarrow> bottom_non_empty_lines content count
        | None \<Rightarrow> (case top_region_count trimmed of
            Some count \<Rightarrow> top_non_empty_lines content count
          | None \<Rightarrow> Some [])))"

definition region :: "detection_input \<Rightarrow> rstr \<Rightarrow> rstr option" where
  "region input spec =
     (let trimmed = trim spec; content = di_screen input in
      if trimmed = ''osc_title'' then Some (di_osc_title input)
      else if trimmed = ''osc_progress'' then Some (di_osc_progress input)
      else if trimmed = ''whole_recent'' then Some content
      else if trimmed = ''after_last_prompt_marker'' then after_last_prompt_marker content
      else if trimmed = ''before_current_prompt_marker'' then before_current_prompt_marker content
      else if trimmed = ''whole_recent_without_current_prompt_marker''
        then Some (whole_recent_without_current_prompt_marker content)
      else if trimmed = ''current_prompt_block_marker'' then Some (or_empty (current_prompt_block_marker content))
      else if trimmed = ''after_current_prompt_block_marker''
        then map_option or_empty (after_current_prompt_block_marker content)
      else if trimmed = ''prompt_box_body'' then map_option or_empty (prompt_box_body content)
      else if trimmed = ''above_prompt_box'' then above_prompt_box content
      else if trimmed = ''last_non_empty_above_prompt_box''
        then map_option last_non_empty_line (above_prompt_box content)
      else if trimmed = ''after_last_horizontal_rule'' then after_last_horizontal_rule content
      else counted_region content trimmed)"

subsection \<open>Offsets are line starts\<close>

lemma sum_lines_exact:
  assumes "\<And>p. p \<in> set ps \<Longrightarrow> p \<noteq> [] \<and> last p = lf \<and> cr \<notin> set p"
  shows "sum_list (map (\<lambda>line. length line + 1) (map strip_eol ps)) = length (concat ps)"
  using assms
proof (induction ps)
  case (Cons p ps)
  have "length (strip_eol p) + 1 = length p" using Cons.prems [of p] by (intro strip_eol_length) simp_all
  then show ?case using Cons by simp
qed simp

lemma sum_lines_ge:
  "(\<And>p. p \<in> set ps \<Longrightarrow> cr \<notin> set p) \<Longrightarrow> length (concat ps) \<le> sum_list (map (\<lambda>line. length line + 1) (map strip_eol ps))"
proof (induction ps)
  case (Cons p ps)
  have "length p \<le> length (strip_eol p) + 1" using Cons.prems [of p] by (simp add: strip_eol_plain)
  then show ?case using Cons by simp
qed simp

lemma offset_exact:
  assumes "cr \<notin> set s"
  shows "line_start_offset s (str_lines s) i = piece_start s i"
proof -
  have no: "cr \<notin> set p" if "p \<in> set (line_pieces s)" for p using piece_chars [OF that] assms by auto
  have take: "take i (str_lines s) = map strip_eol (take i (line_pieces s))" by (simp add: str_lines_def take_map)
  show ?thesis
  proof (cases "i < length (line_pieces s)")
    case True
    have "p \<noteq> [] \<and> last p = lf \<and> cr \<notin> set p" if p: "p \<in> set (take i (line_pieces s))" for p
    proof -
      obtain j where j: "j < i" "p = line_pieces s ! j" using p True by (auto simp: in_set_conv_nth)
      have "p \<in> set (line_pieces s)" using p in_set_takeD by fast
      then have "p \<noteq> []" "cr \<notin> set p" using no pieces_nonempty [of s] by metis+
      then show ?thesis using j piece_ends [of j s] True by simp
    qed
    then have "sum_list (map (\<lambda>line. length line + 1) (take i (str_lines s))) = piece_start s i"
      unfolding take piece_start_def by (rule sum_lines_exact)
    then show ?thesis using piece_start_le [of s i] by (simp add: line_start_offset_def)
  next
    case False
    have "length (concat (line_pieces s)) \<le> sum_list (map (\<lambda>line. length line + 1) (map strip_eol (line_pieces s)))"
      using no by (rule sum_lines_ge)
    then show ?thesis using False piece_start_end [of s i] take by (simp add: line_start_offset_def)
  qed
qed

text \<open>Some whole lines of the screen.\<close>

definition line_block :: "rstr \<Rightarrow> rstr \<Rightarrow> bool" where
  "line_block s r \<longleftrightarrow> (\<exists>i n. r = concat (take n (drop i (line_pieces s))))"

definition plain_screen :: "rstr \<Rightarrow> bool" where
  "plain_screen s \<longleftrightarrow> valid_utf8 s \<and> cr \<notin> set s"

lemma slice_from_exact:
  assumes "plain_screen s"
  shows "slice_from_line_index s (str_lines s) i = Some (concat (drop i (line_pieces s)))"
proof (cases "i \<le> length (line_pieces s)")
  case True
  then show ?thesis
    using assms slice_pieces [of s i "length (line_pieces s)"] piece_start_le [of s i] piece_start_end [of s "length (line_pieces s)"]
    by (simp add: slice_from_line_index_def plain_screen_def offset_exact min_absorb1)
next
  case False
  then show ?thesis
    using assms slice_pieces [of s i i] piece_start_end [of s i]
    by (simp add: slice_from_line_index_def plain_screen_def offset_exact)
qed

lemma slice_to_exact:
  assumes "plain_screen s"
  shows "str_slice s 0 (line_start_offset s (str_lines s) i) = Some (concat (take i (line_pieces s)))"
  using assms slice_pieces [of s 0 i] by (simp add: plain_screen_def offset_exact piece_start_def [of s 0])

lemma offset_min [simp]: "min (line_start_offset s ls i) (length s) = line_start_offset s ls i"
  by (simp add: line_start_offset_def)

lemma blocks [intro!]:
  "line_block s []" "line_block s s" "line_block s (concat (drop i (line_pieces s)))" "line_block s (concat (take n (line_pieces s)))"
  "line_block s (concat (take n (drop i (line_pieces s))))"
proof -
  show "line_block s []" unfolding line_block_def by (rule exI [of _ 0], rule exI [of _ 0]) simp
  show "line_block s s" unfolding line_block_def
    by (rule exI [of _ 0], rule exI [of _ "length (line_pieces s)"]) simp
  show "line_block s (concat (drop i (line_pieces s)))" unfolding line_block_def
    by (rule exI [of _ i], rule exI [of _ "length (line_pieces s)"]) simp
  show "line_block s (concat (take n (line_pieces s)))" unfolding line_block_def
    by (rule exI [of _ 0], rule exI [of _ n]) simp
  show "line_block s (concat (take n (drop i (line_pieces s))))" unfolding line_block_def by blast
qed

lemma rule_end_exact:
  assumes "cr \<notin> set s"
  shows "\<exists>i. snd (fold (rule_end_step s) (str_lines s) (0, 0)) = piece_start s i"
proof -
  have "k \<le> length (str_lines s) \<Longrightarrow> fst (fold (rule_end_step s) (take k (str_lines s)) (0, 0))
        = sum_list (map (\<lambda>line. length line + 1) (take k (str_lines s)))
      \<and> (\<exists>i. snd (fold (rule_end_step s) (take k (str_lines s)) (0, 0)) = piece_start s i)" for k
  proof (induction k)
    case 0
    then show ?case by (auto intro: exI [of _ 0] simp: piece_start_def)
  next
    case (Suc k)
    obtain offset e where st: "fold (rule_end_step s) (take k (str_lines s)) (0, 0) = (offset, e)" by fastforce
    have t: "take (Suc k) (str_lines s) = take k (str_lines s) @ [str_lines s ! k]"
      using Suc.prems by (simp add: take_Suc_conv_app_nth)
    have o: "offset = sum_list (map (\<lambda>line. length line + 1) (take k (str_lines s)))" and e: "\<exists>i. e = piece_start s i"
      using Suc st by auto
    have f: "fold (rule_end_step s) (take (Suc k) (str_lines s)) (0, 0) = rule_end_step s (str_lines s ! k) (offset, e)"
      unfolding t using st by simp
    have "min (offset + length (str_lines s ! k) + 1) (length s) = line_start_offset s (str_lines s) (Suc k)"
      unfolding line_start_offset_def t using o by simp
    then have m: "min (offset + length (str_lines s ! k) + 1) (length s) = piece_start s (Suc k)"
      using offset_exact [OF assms] by simp
    have sum: "sum_list (map (\<lambda>line. length line + 1) (take (Suc k) (str_lines s))) = offset + length (str_lines s ! k) + 1"
      unfolding t using o by simp
    show ?case unfolding f sum
      using m e unfolding rule_end_step_def Let_def prod.case fst_conv snd_conv by (cases "is_horizontal_rule (str_lines s ! k)") auto
  qed
  from this [of "length (str_lines s)"] show ?thesis by simp
qed

lemma region_cases:
  assumes "plain_screen s"
  shows "\<exists>r. after_last_prompt_marker s = Some r \<and> line_block s r"
    and "\<exists>r. before_current_prompt_marker s = Some r \<and> line_block s r"
    and "\<exists>r. after_current_prompt_block_marker s = Some r \<and> line_block s (or_empty r)"
    and "\<exists>r. prompt_box_body s = Some r \<and> line_block s (or_empty r)"
    and "\<exists>r. above_prompt_box s = Some r \<and> line_block s r"
    and "\<exists>r. after_last_horizontal_rule s = Some r \<and> line_block s r"
    and "\<exists>r. counted_region s spec = Some r \<and> line_block s r"
proof -
  note onwards = slice_from_exact [OF assms] and upto = slice_to_exact [OF assms]
  show "\<exists>r. after_last_prompt_marker s = Some r \<and> line_block s r"
    by (auto simp: after_last_prompt_marker_def onwards Let_def split: option.split)
  have "str_slice s 0 (min (sum_list (map (\<lambda>line. length line + 1) (take i (str_lines s)))) (length s))
      = Some (concat (take i (line_pieces s)))" for i
    using upto [of i] by (simp add: line_start_offset_def)
  then show "\<exists>r. before_current_prompt_marker s = Some r \<and> line_block s r"
    by (auto simp: before_current_prompt_marker_def Let_def split: option.split)
  show "\<exists>r. after_current_prompt_block_marker s = Some r \<and> line_block s (or_empty r)"
    by (auto simp: after_current_prompt_block_marker_def onwards or_empty_def Let_def split: option.split)
  show "\<exists>r. above_prompt_box s = Some r \<and> line_block s r"
    by (auto simp: above_prompt_box_def upto Let_def split: option.split)
  obtain i where i: "snd (fold (rule_end_step s) (str_lines s) (0, 0)) = piece_start s i"
    using rule_end_exact assms unfolding plain_screen_def by blast
  have "slice_from_line_index s (str_lines s) i = str_slice s (piece_start s i) (length s)"
    using assms piece_start_le [of s i] by (simp add: slice_from_line_index_def offset_exact plain_screen_def min_absorb1)
  then have "after_last_horizontal_rule s = Some (concat (drop i (line_pieces s)))"
    using onwards [of i] by (simp add: after_last_horizontal_rule_def i)
  then show "\<exists>r. after_last_horizontal_rule s = Some r \<and> line_block s r" by auto
  show "\<exists>r. counted_region s spec = Some r \<and> line_block s r"
    by (auto simp: counted_region_def bottom_lines_def bottom_non_empty_lines_def top_non_empty_lines_def onwards upto Let_def
        split: option.split)
  have "line_start_offset s (str_lines s) j = piece_start s j" for j
    using assms by (simp add: offset_exact plain_screen_def)
  moreover have "i \<le> j \<Longrightarrow> str_slice s (piece_start s i) (piece_start s j) = Some (concat (take (j - i) (drop i (line_pieces s))))" for i j
    using slice_pieces assms by (simp add: plain_screen_def)
  ultimately have box: "border + 1 \<le> e \<Longrightarrow> \<exists>r. map_option Some (str_slice s (line_start_offset s (str_lines s) (border + 1))
      (line_start_offset s (str_lines s) e)) = Some r \<and> line_block s (or_empty r)" for border e
    by (auto simp: or_empty_def)
  have second: "second_border ls b idxs = Some t \<Longrightarrow> t \<in> set idxs" for ls b and idxs :: "nat list" and t
    by (induction ls b idxs rule: second_border.induct) (auto split: if_splits)
  then have "prompt_box_top_border_index (str_lines s) = Some t \<Longrightarrow> t < length (str_lines s)" for t
    unfolding prompt_box_top_border_index_def by force
  then have below: "prompt_box_top_border_index (str_lines s) = Some t \<Longrightarrow> t + 1 \<le> length (str_lines s)" for t by fastforce
  show "\<exists>r. prompt_box_body s = Some r \<and> line_block s (or_empty r)"
  proof (cases "prompt_box_top_border_index (str_lines s)")
    case None
    then have "prompt_box_body s = Some None" by (simp add: prompt_box_body_def Let_def)
    moreover have "line_block s (or_empty None)" unfolding or_empty_def by simp blast
    ultimately show ?thesis by blast
  next
    case (Some t)
    show ?thesis unfolding prompt_box_body_def Let_def offset_min Some option.case
      by (rule box) (use below [OF Some] in \<open>simp split: option.split\<close>)
  qed
qed

subsection \<open>The last non-empty lines\<close>

lemma line_pieces_append:
  "p \<noteq> [] \<Longrightarrow> last p = lf \<Longrightarrow> lf \<notin> set (butlast p) \<Longrightarrow> line_pieces (p @ rest) = p # line_pieces rest"
proof (induction p)
  case (Cons c cs)
  then show ?case by (cases "cs = []") (auto split: if_splits)
qed simp

lemma line_pieces_one: "p \<noteq> [] \<Longrightarrow> lf \<notin> set (butlast p) \<Longrightarrow> line_pieces p = [p]"
proof (induction p)
  case (Cons c cs)
  then show ?case by (cases "cs = []") (auto split: if_splits)
qed simp

lemma line_pieces_concat:
  assumes "\<And>p. p \<in> set ps \<Longrightarrow> p \<noteq> [] \<and> lf \<notin> set (butlast p)" "\<And>i. i + 1 < length ps \<Longrightarrow> last (ps ! i) = lf"
  shows "line_pieces (concat ps) = ps"
  using assms
proof (induction ps)
  case (Cons p ps)
  have p: "p \<noteq> []" "lf \<notin> set (butlast p)" using Cons.prems(1) [of p] by simp_all
  have IH: "line_pieces (concat ps) = ps"
  proof (rule Cons.IH)
    show "q \<in> set ps \<Longrightarrow> q \<noteq> [] \<and> lf \<notin> set (butlast q)" for q using Cons.prems(1) by simp
    show "i + 1 < length ps \<Longrightarrow> last (ps ! i) = lf" for i using Cons.prems(2) [of "Suc i"] by simp
  qed
  show ?case
  proof (cases "ps = []")
    case True
    then show ?thesis using p line_pieces_one by simp
  next
    case False
    then have "last p = lf" using Cons.prems(2) [of 0] by simp
    then show ?thesis using p line_pieces_append IH by simp
  qed
qed simp

lemma str_lines_suffix: "str_lines (concat (drop i (line_pieces s))) = drop i (str_lines s)"
proof -
  have "line_pieces (concat (drop i (line_pieces s))) = drop i (line_pieces s)"
  proof (rule line_pieces_concat)
    show "p \<noteq> [] \<and> lf \<notin> set (butlast p)" if "p \<in> set (drop i (line_pieces s))" for p
      using in_set_dropD [OF that] pieces_nonempty [of s] piece_single_lf [of p s] by metis
    show "j + 1 < length (drop i (line_pieces s)) \<Longrightarrow> last (drop i (line_pieces s) ! j) = lf" for j
      using piece_ends [of "i + j" s] by simp
  qed
  then show ?thesis by (simp add: str_lines_def drop_map)
qed

lemma filter_upt_drop: "filter p (drop i xs) = map ((!) xs) (filter (\<lambda>j. p (xs ! j)) [i..<length xs])"
proof -
  have "drop i xs = map ((!) xs) [i..<length xs]"
    by (rule nth_equalityI) auto
  then show ?thesis by (simp add: filter_map comp_def)
qed

text \<open>Filtering from the \<open>count\<close>-th last hit on keeps the last \<open>count\<close> hits.\<close>

lemma last_hits:
  assumes "take count (rev (filter q [0..<n])) \<noteq> []"
  shows "filter q [last (take count (rev (filter q [0..<n])))..<n]
    = drop (length (filter q [0..<n]) - count) (filter q [0..<n])"
proof -
  let ?xs = "filter q [0..<n]" and ?k = "length (filter q [0..<n]) - count"
  have c: "0 < count" "?xs \<noteq> []" using assms by auto
  then have k: "?k < length ?xs" by (cases "length ?xs") auto
  have "take count (rev ?xs) = rev (drop ?k ?xs)"
    by (cases "count \<le> length ?xs") (simp_all add: rev_drop)
  then have l: "last (take count (rev ?xs)) = ?xs ! ?k" using k by (simp add: last_rev hd_drop_conv_nth)
  have split: "filter q [0..<n] = take ?k ?xs @ drop ?k ?xs" by simp
  have m: "?xs ! ?k < n" using nth_mem [OF k] by auto
  have "[0..<n] = [0..<?xs ! ?k] @ [?xs ! ?k..<n]" using m upt_add_eq_append [of 0 "?xs ! ?k" "n - ?xs ! ?k"] by simp
  then have two: "?xs = filter q [0..<?xs ! ?k] @ filter q [?xs ! ?k..<n]" by (metis filter_append)
  have s: "sorted_wrt (<) ?xs" by (intro sorted_wrt_filter) simp
  have hit: "q (?xs ! ?k)" using nth_mem [OF k] by (auto simp del: nth_mem)
  have "m < n \<Longrightarrow> q m \<Longrightarrow> filter q [m..<n] = m # filter q [Suc m..<n]" for m by (simp add: upt_conv_Cons)
  then obtain rest where h: "filter q [?xs ! ?k..<n] = ?xs ! ?k # rest" using m hit by blast
  have at: "ys = as @ y # bs \<Longrightarrow> ys ! length as = y \<and> length as < length ys" for ys as bs :: "nat list" and y by simp
  have "length (filter q [0..<?xs ! ?k]) = ?k"
    using at [OF two [unfolded h]] k s by (metis linorder_neqE_nat order_less_irrefl sorted_wrt_nth_less)
  moreover have "ys = as @ bs \<Longrightarrow> drop (length as) ys = bs" for ys as bs :: "nat list" by simp
  ultimately have "drop ?k ?xs = filter q [?xs ! ?k..<n]" using two by metis
  then show ?thesis using l by simp
qed

lemma bottom_non_empty_exact:
  assumes "plain_screen s"
  shows "\<exists>r. bottom_non_empty_lines s count = Some r \<and> line_block s r
    \<and> filter (\<lambda>line. \<not> blank line) (str_lines r)
      = drop (length (filter (\<lambda>line. \<not> blank line) (str_lines s)) - count) (filter (\<lambda>line. \<not> blank line) (str_lines s))"
proof -
  let ?ls = "str_lines s" and ?nb = "\<lambda>line. \<not> blank line"
  have all: "filter ?nb ?ls = map ((!) ?ls) (non_empty_indices ?ls)"
    using filter_upt_drop [of ?nb 0 ?ls] by (simp add: non_empty_indices_def)
  show ?thesis
  proof (cases "take count (rev (non_empty_indices ?ls)) = []")
    case True
    then have "count = 0 \<or> filter ?nb ?ls = []" unfolding all by auto
    then have "drop (length (filter ?nb ?ls) - count) (filter ?nb ?ls) = []" by auto
    moreover have "bottom_non_empty_lines s count = Some []" using True by (simp add: bottom_non_empty_lines_def Let_def)
    moreover have "str_lines [] = []" by (simp add: str_lines_def)
    moreover have "line_block s []" by blast
    ultimately show ?thesis by simp
  next
    case False
    let ?i = "last (take count (rev (non_empty_indices ?ls)))"
    have r: "bottom_non_empty_lines s count = Some (concat (drop ?i (line_pieces s)))"
      using False slice_from_exact [OF assms] by (simp add: bottom_non_empty_lines_def Let_def)
    have "filter ?nb (drop ?i ?ls) = map ((!) ?ls) (drop (length (non_empty_indices ?ls) - count) (non_empty_indices ?ls))"
      using last_hits [of count "\<lambda>j. ?nb (?ls ! j)" "length ?ls"] False
      unfolding filter_upt_drop non_empty_indices_def by simp
    then have "filter ?nb (str_lines (concat (drop ?i (line_pieces s)))) = drop (length (filter ?nb ?ls) - count) (filter ?nb ?ls)"
      unfolding str_lines_suffix all by (simp add: drop_map)
    then show ?thesis using r by auto
  qed
qed

end
