(* ===== verification/ManifestVersions.thy ===== *)
theory ManifestVersions
  imports RustStr
begin

section \<open>Versions of detection manifests\<close>

text \<open>
  \<open>ManifestVersion\<close> of \<open>src/src/detect/manifest_update.rs\<close>: dotted decimal numbers, compared segment
  by segment with missing segments read as zero. The type wraps the string it was parsed from, and
  two versions are equal when they compare equal, so \<open>1\<close> and \<open>1.0\<close> are one version. The last lemmas
  show the law Rust's \<open>Ord\<close> and \<open>Eq\<close> ask of an implementation.
\<close>

type_synonym manifest_version = rstr

datatype version_error =
    EmptyVersion
  | EmptySegment rstr
  | NotNumeric rstr
  | OversizedSegment rstr

definition dot_segments :: "rstr \<Rightarrow> rstr list" where
  "dot_segments = split_on (\<lambda>c. c = CHR ''.'')"

fun check_segments :: "rstr \<Rightarrow> rstr list \<Rightarrow> version_error option" where
  "check_segments trimmed [] = None"
| "check_segments trimmed (segment # rest) =
     (if segment = [] then Some (EmptySegment trimmed)
      else if \<not> list_all is_digit segment then Some (NotNumeric trimmed)
      else if parse_unsigned (2 ^ 64) segment = None then Some (OversizedSegment trimmed)
      else check_segments trimmed rest)"

definition parse_version :: "rstr \<Rightarrow> version_error + manifest_version" where
  "parse_version text =
     (let trimmed = trim text in
      if trimmed = [] then Inl EmptyVersion
      else case check_segments trimmed (dot_segments trimmed) of
        Some err \<Rightarrow> Inl err
      | None \<Rightarrow> Inr trimmed)"

datatype ordering = OrderingLess | OrderingEqual | OrderingGreater

definition segment_number :: "rstr \<Rightarrow> nat" where
  "segment_number segment = (case parse_unsigned (2 ^ 64) segment of Some n \<Rightarrow> n | None \<Rightarrow> 0)"

definition number_cmp :: "nat \<Rightarrow> nat \<Rightarrow> ordering" where
  "number_cmp a b = (if a < b then OrderingLess else if a = b then OrderingEqual else OrderingGreater)"

fun segments_cmp :: "rstr list \<Rightarrow> rstr list \<Rightarrow> ordering" where
  "segments_cmp (l # ls) (r # rs) =
     (case number_cmp (segment_number l) (segment_number r) of
        OrderingEqual \<Rightarrow> segments_cmp ls rs
      | other \<Rightarrow> other)"
| "segments_cmp (l # ls) [] = (if segment_number l = 0 then segments_cmp ls [] else OrderingGreater)"
| "segments_cmp [] (r # rs) = (if segment_number r = 0 then segments_cmp [] rs else OrderingLess)"
| "segments_cmp [] [] = OrderingEqual"

definition version_cmp :: "manifest_version \<Rightarrow> manifest_version \<Rightarrow> ordering" where
  "version_cmp left right = segments_cmp (dot_segments left) (dot_segments right)"

subsection \<open>The order of the zero-padded numbers\<close>

definition padded :: "rstr list \<Rightarrow> nat \<Rightarrow> nat" where
  "padded segments i = (if i < length segments then segment_number (segments ! i) else 0)"

text \<open>The first position at which two sequences of numbers differ decides.\<close>

definition first_less :: "(nat \<Rightarrow> nat) \<Rightarrow> (nat \<Rightarrow> nat) \<Rightarrow> bool" where
  "first_less f g \<longleftrightarrow> (\<exists>i. f i < g i \<and> (\<forall>j < i. f j = g j))"

lemma padded_Nil [simp]: "padded [] = (\<lambda>i. 0)"
  by (simp add: padded_def fun_eq_iff)

lemma padded_Cons: "padded (x # xs) = case_nat (segment_number x) (padded xs)"
  by (auto simp: padded_def fun_eq_iff split: nat.split)

lemma first_less_case_nat [simp]:
  "first_less (case_nat a f) (case_nat b g) \<longleftrightarrow> a < b \<or> a = b \<and> first_less f g"
proof
  assume "first_less (case_nat a f) (case_nat b g)"
  then obtain i where i: "case_nat a f i < case_nat b g i" "\<forall>j < i. case_nat a f j = case_nat b g j"
    unfolding first_less_def by blast
  show "a < b \<or> a = b \<and> first_less f g"
  proof (cases i)
    case (Suc k)
    have "\<forall>j < k. f j = g j"
    proof (intro allI impI)
      fix j assume "j < k"
      then have "Suc j < i" using Suc by simp
      from i(2) [rule_format, OF this] show "f j = g j" by simp
    qed
    then have "first_less f g" using i(1) Suc unfolding first_less_def by auto
    moreover have "a = b" using i(2) [rule_format, of 0] Suc by simp
    ultimately show ?thesis by simp
  qed (use i in simp)
next
  assume h: "a < b \<or> a = b \<and> first_less f g"
  show "first_less (case_nat a f) (case_nat b g)"
  proof (cases "a < b")
    case True
    then show ?thesis unfolding first_less_def by (auto intro: exI [of _ 0])
  next
    case False
    then obtain i where "f i < g i" "\<forall>j < i. f j = g j" "a = b" using h unfolding first_less_def by auto
    then show ?thesis unfolding first_less_def
      by (intro exI [of _ "Suc i"]) (auto split: nat.split)
  qed
qed

lemma zero_case_nat: "(\<lambda>i. 0 :: nat) = case_nat 0 (\<lambda>i. 0)"
  by (auto simp: fun_eq_iff split: nat.split)

lemma case_nat_inject [simp]: "case_nat a f = case_nat b g \<longleftrightarrow> a = b \<and> f = g"
proof
  assume e: "case_nat a f = case_nat b g"
  have "a = b" using fun_cong [OF e, of 0] by simp
  moreover have "f i = g i" for i using fun_cong [OF e, of "Suc i"] by simp
  ultimately show "a = b \<and> f = g" by auto
qed simp

lemma segments_cmp_exact:
  "(segments_cmp ls rs = OrderingLess \<longleftrightarrow> first_less (padded ls) (padded rs))
   \<and> (segments_cmp ls rs = OrderingGreater \<longleftrightarrow> first_less (padded rs) (padded ls))
   \<and> (segments_cmp ls rs = OrderingEqual \<longleftrightarrow> padded ls = padded rs)"
proof (induction ls rs rule: segments_cmp.induct)
  case (1 l ls r rs)
  then show ?case by (auto simp: padded_Cons number_cmp_def split: ordering.split)
next
  case (2 l ls)
  have z: "padded [] = case_nat 0 (padded [])" by (simp add: zero_case_nat [symmetric])
  show ?case using 2 unfolding padded_Cons by (subst (1 2 3) z) (auto simp del: padded_Nil)
next
  case (3 r rs)
  have z: "padded [] = case_nat 0 (padded [])" by (simp add: zero_case_nat [symmetric])
  show ?case using 3 unfolding padded_Cons by (subst (1 2 3) z) (auto simp del: padded_Nil)
next
  case 4
  show ?case by (simp add: first_less_def)
qed

definition version_number :: "manifest_version \<Rightarrow> nat \<Rightarrow> nat" where
  "version_number v = padded (dot_segments v)"

lemma version_cmp_exact:
  "(version_cmp l r = OrderingLess \<longleftrightarrow> first_less (version_number l) (version_number r))
   \<and> (version_cmp l r = OrderingGreater \<longleftrightarrow> first_less (version_number r) (version_number l))
   \<and> (version_cmp l r = OrderingEqual \<longleftrightarrow> version_number l = version_number r)"
  unfolding version_cmp_def version_number_def by (rule segments_cmp_exact)

lemma first_less_trans: "first_less f g \<Longrightarrow> first_less g h \<Longrightarrow> first_less f h"
proof -
  assume "first_less f g" "first_less g h"
  then obtain i k where i: "f i < g i" "\<forall>j < i. f j = g j" and k: "g k < h k" "\<forall>j < k. g j = h j"
    unfolding first_less_def by blast
  consider "i < k" | "i = k" | "k < i" by linarith
  then show "first_less f h" unfolding first_less_def
  proof cases
    case 1
    then show "\<exists>i. f i < h i \<and> (\<forall>j < i. f j = h j)" using i k by (intro exI [of _ i]) auto
  next
    case 2
    then show "\<exists>i. f i < h i \<and> (\<forall>j < i. f j = h j)" using i k by (intro exI [of _ i]) auto
  next
    case 3
    then show "\<exists>i. f i < h i \<and> (\<forall>j < i. f j = h j)" using i k by (intro exI [of _ k]) auto
  qed
qed

lemma version_less_trans:
  "version_cmp a b = OrderingLess \<Longrightarrow> version_cmp b c = OrderingLess \<Longrightarrow> version_cmp a c = OrderingLess"
  using version_cmp_exact first_less_trans by blast

lemma version_cmp_swap: "version_cmp a b = OrderingLess \<longleftrightarrow> version_cmp b a = OrderingGreater"
  using version_cmp_exact by blast

lemma version_not_less_trans:
  "version_cmp b a \<noteq> OrderingLess \<Longrightarrow> version_cmp c b \<noteq> OrderingLess \<Longrightarrow> version_cmp c a \<noteq> OrderingLess"
  by (metis ordering.exhaust version_cmp_exact version_less_trans)

lemma parsed_version_trimmed: "parse_version text = Inr v \<Longrightarrow> v = trim text"
  by (auto simp: parse_version_def Let_def split: if_splits option.splits)

lemma parsed_segments:
  "parse_version text = Inr v \<Longrightarrow> list_all (\<lambda>s. s \<noteq> [] \<and> list_all is_digit s \<and> segment_number s < 2 ^ 64) (dot_segments v)"
proof -
  have "parse_unsigned b s = Some n \<Longrightarrow> n < b" for b s n
    by (auto simp: parse_unsigned_def Let_def split: if_splits option.splits)
  then have "check_segments t ss = None \<Longrightarrow> list_all (\<lambda>s. s \<noteq> [] \<and> list_all is_digit s \<and> segment_number s < 2 ^ 64) ss" for t ss
    by (induction t ss rule: check_segments.induct) (auto simp: segment_number_def split: if_splits option.splits)
  then show "parse_version text = Inr v \<Longrightarrow> ?thesis"
    by (auto simp: parse_version_def Let_def split: if_splits option.splits)
qed

end
