(* ===== verification/ManifestModel.thy ===== *)
theory ManifestModel
  imports ManifestRegion ManifestVersions Agents
begin

section \<open>Detection manifests: data, validation and compilation\<close>

text \<open>
  The data of \<open>src/src/detect/manifest.rs\<close>, \<open>validate_manifest\<close> with the limits it enforces and
  \<open>compile_manifest\<close>. The regular expressions are those of the crate \<open>regex\<close>, a parameter
  \<open>regex_new\<close>: a pattern is refused with a message or becomes a matcher. \<open>lower\<close> stands for
  \<open>str::to_lowercase\<close> on the whole of Unicode, whose tables are not written out: every theorem
  holds for each \<open>lower\<close>. A gate holds lists of gates, so validation and compilation are recursions
  over the nesting.
\<close>

type_synonym regex_new = "rstr \<Rightarrow> rstr + (rstr \<Rightarrow> bool)"

datatype manifest_gate = ManifestGate
  (gate_all: "manifest_gate list") (gate_any: "manifest_gate list") (gate_not: "manifest_gate list")
  (gate_contains: "rstr list") (gate_regex: "rstr list") (gate_line_regex: "rstr list")

text \<open>\<open>ManifestState\<close> has the four constructors of \<open>AgentState\<close>, and the conversion maps each to its
  namesake. Priorities are \<open>i32\<close> values that the code only compares.\<close>

datatype manifest_state = MIdle | MWorking | MBlocked | MUnknown

fun agent_state_of :: "manifest_state \<Rightarrow> agent_state" where
  "agent_state_of MIdle = Idle"
| "agent_state_of MWorking = Working"
| "agent_state_of MBlocked = Blocked"
| "agent_state_of MUnknown = Unknown"

record manifest_rule =
  mr_id :: rstr
  mr_state :: "manifest_state option"
  mr_priority :: int
  mr_region :: rstr
  mr_visible_idle :: bool
  mr_visible_blocker :: bool
  mr_visible_working :: bool
  mr_skip_state_update :: bool
  mr_all :: "manifest_gate list"
  mr_any :: "manifest_gate list"
  mr_not :: "manifest_gate list"
  mr_contains :: "rstr list"
  mr_regex :: "rstr list"
  mr_line_regex :: "rstr list"

record agent_manifest =
  am_id :: rstr
  am_version :: "manifest_version option"
  am_min_engine_version :: "u32 option"
  am_updated_at :: "rstr option"
  am_aliases :: "rstr list"
  am_rules :: "manifest_rule list"

definition manifest_gate_from_rule :: "manifest_rule \<Rightarrow> manifest_gate" where
  "manifest_gate_from_rule rule =
     ManifestGate (mr_all rule) (mr_any rule) (mr_not rule) (mr_contains rule) (mr_regex rule) (mr_line_regex rule)"

definition rule_state :: "manifest_rule \<Rightarrow> agent_state" where
  "rule_state rule = (case mr_state rule of Some s \<Rightarrow> agent_state_of s | None \<Rightarrow> Unknown)"

subsection \<open>Limits\<close>

definition max_rules_per_manifest :: nat where "max_rules_per_manifest = 128"
definition max_gate_depth :: nat where "max_gate_depth = 8"
definition max_total_gates :: nat where "max_total_gates = 512"
definition max_matchers_per_gate :: nat where "max_matchers_per_gate = 32"
definition max_total_matchers :: nat where "max_total_matchers = 1024"
definition max_matcher_chars :: nat where "max_matcher_chars = 512"
definition top_non_empty_lines_engine_version :: u32 where "top_non_empty_lines_engine_version = 3"

datatype gate_error =
    ExceedsDepth rstr
  | ExceedsGates
  | TooManyDirectMatchers rstr nat
  | ExceedsMatchers
  | MatcherTooLong rstr
  | NoPositiveMatcher rstr
  | InvalidPattern rstr rstr rstr rstr
  | EmptyNotGate rstr
  | NotGateWithoutMatcher

datatype manifest_error =
    NoRules
  | TooManyRules nat
  | EmptyRuleId
  | SkipWithoutUnknown rstr
  | SkipWithVisible rstr
  | InvalidRegion rstr rstr
  | TopRegionNeedsEngine rstr
  | InvalidGates rstr gate_error

record manifest_complexity =
  total_gates :: nat
  total_matchers :: nat

definition no_complexity :: manifest_complexity where
  "no_complexity = \<lparr>total_gates = 0, total_matchers = 0\<rparr>"

definition gate_has_positive_matcher :: "manifest_gate \<Rightarrow> bool" where
  "gate_has_positive_matcher gate \<longleftrightarrow>
     gate_contains gate \<noteq> [] \<or> gate_regex gate \<noteq> [] \<or> gate_line_regex gate \<noteq> []
     \<or> gate_all gate \<noteq> [] \<or> gate_any gate \<noteq> []"

definition gate_has_any_matcher :: "manifest_gate \<Rightarrow> bool" where
  "gate_has_any_matcher gate \<longleftrightarrow> gate_has_positive_matcher gate \<or> gate_not gate \<noteq> []"

definition validate_matcher_limits ::
    "manifest_gate \<Rightarrow> rstr \<Rightarrow> manifest_complexity \<Rightarrow> gate_error + manifest_complexity" where
  "validate_matcher_limits gate ctx complexity =
     (let matcher_count = length (gate_contains gate) + length (gate_regex gate) + length (gate_line_regex gate);
          complexity' = complexity\<lparr>total_matchers := total_matchers complexity + matcher_count\<rparr>
      in if max_matchers_per_gate < matcher_count then Inl (TooManyDirectMatchers ctx matcher_count)
      else if max_total_matchers < total_matchers complexity' then Inl ExceedsMatchers
      else if list_ex (\<lambda>s. max_matcher_chars < length (chars s))
          (gate_contains gate @ gate_regex gate @ gate_line_regex gate) then Inl (MatcherTooLong ctx)
      else Inr complexity')"

fun validate_regex_patterns :: "regex_new \<Rightarrow> rstr list \<Rightarrow> rstr \<Rightarrow> rstr \<Rightarrow> gate_error option" where
  "validate_regex_patterns rx [] ctx field = None"
| "validate_regex_patterns rx (pattern # rest) ctx field =
     (case rx pattern of
        Inl err \<Rightarrow> Some (InvalidPattern ctx field pattern err)
      | Inr _ \<Rightarrow> validate_regex_patterns rx rest ctx field)"

text \<open>A loop whose body may return early with an error.\<close>

fun try_fold :: "('a \<Rightarrow> 's \<Rightarrow> 'e + 's) \<Rightarrow> 'a list \<Rightarrow> 's \<Rightarrow> 'e + 's" where
  "try_fold f [] s = Inr s"
| "try_fold f (x # xs) s = (case f x s of Inl e \<Rightarrow> Inl e | Inr s' \<Rightarrow> try_fold f xs s')"

lemma try_fold_cong [fundef_cong]:
  "xs = ys \<Longrightarrow> s = t \<Longrightarrow> (\<And>x r. x \<in> set ys \<Longrightarrow> f x r = g x r) \<Longrightarrow> try_fold f xs s = try_fold g ys t"
  by (induction xs arbitrary: s t ys) (auto split: sum.split)

definition then_ok :: "'e + 's \<Rightarrow> ('s \<Rightarrow> 'e + 't) \<Rightarrow> 'e + 't" where
  "then_ok r k = (case r of Inl e \<Rightarrow> Inl e | Inr s \<Rightarrow> k s)"

lemma then_ok_cong [fundef_cong]: "r = r' \<Longrightarrow> (\<And>s. r' = Inr s \<Longrightarrow> k s = k' s) \<Longrightarrow> then_ok r k = then_ok r' k'"
  by (auto simp: then_ok_def split: sum.split)

lemma then_ok_simps [simp]: "then_ok (Inl e) k = Inl e" "then_ok (Inr s) k = k s"
  by (simp_all add: then_ok_def)

lemma then_ok_Inr [simp]: "then_ok r k = Inr t \<longleftrightarrow> (\<exists>s. r = Inr s \<and> k s = Inr t)"
  by (cases r) auto

definition ok_unless :: "'e option \<Rightarrow> 's \<Rightarrow> 'e + 's" where
  "ok_unless err s = (case err of Some e \<Rightarrow> Inl e | None \<Rightarrow> Inr s)"

lemma ok_unless_Inr [simp]: "ok_unless err s = Inr t \<longleftrightarrow> err = None \<and> s = t"
  by (auto simp: ok_unless_def split: option.split)

definition enter_gate :: "rstr \<Rightarrow> nat \<Rightarrow> manifest_complexity \<Rightarrow> gate_error + manifest_complexity" where
  "enter_gate ctx depth complexity =
     (let complexity' = complexity\<lparr>total_gates := total_gates complexity + 1\<rparr>
      in if max_gate_depth < depth then Inl (ExceedsDepth ctx)
      else if max_total_gates < total_gates complexity' then Inl ExceedsGates
      else Inr complexity')"

fun validate_gate :: "regex_new \<Rightarrow> manifest_gate \<Rightarrow> rstr \<Rightarrow> nat \<Rightarrow> manifest_complexity \<Rightarrow> gate_error + manifest_complexity"
  and validate_not_gate :: "regex_new \<Rightarrow> manifest_gate \<Rightarrow> nat \<Rightarrow> manifest_complexity \<Rightarrow> gate_error + manifest_complexity" where
  "validate_gate rx (ManifestGate all any not_gate contains regex line_regex) ctx depth complexity =
     then_ok (enter_gate ctx depth complexity) (\<lambda>c.
     then_ok (validate_matcher_limits (ManifestGate all any not_gate contains regex line_regex) ctx c) (\<lambda>c.
     if \<not> gate_has_positive_matcher (ManifestGate all any not_gate contains regex line_regex)
     then Inl (NoPositiveMatcher ctx)
     else then_ok (ok_unless (validate_regex_patterns rx regex ctx ''regex'') c) (\<lambda>c.
     then_ok (ok_unless (validate_regex_patterns rx line_regex ctx ''line_regex'') c) (\<lambda>c.
     then_ok (try_fold (\<lambda>nested. validate_gate rx nested ''all gate'' (depth + 1)) all c) (\<lambda>c.
     then_ok (try_fold (\<lambda>nested. validate_gate rx nested ''any gate'' (depth + 1)) any c) (\<lambda>c.
     try_fold (\<lambda>nested s. if \<not> gate_has_any_matcher nested then Inl (EmptyNotGate ctx)
                        else validate_not_gate rx nested (depth + 1) s) not_gate c))))))"
| "validate_not_gate rx (ManifestGate all any not_gate contains regex line_regex) depth complexity =
     then_ok (enter_gate ''not gate'' depth complexity) (\<lambda>c.
     then_ok (validate_matcher_limits (ManifestGate all any not_gate contains regex line_regex) ''not gate'' c) (\<lambda>c.
     if \<not> gate_has_any_matcher (ManifestGate all any not_gate contains regex line_regex)
     then Inl NotGateWithoutMatcher
     else then_ok (ok_unless (validate_regex_patterns rx regex ''not gate'' ''regex'') c) (\<lambda>c.
     then_ok (ok_unless (validate_regex_patterns rx line_regex ''not gate'' ''line_regex'') c) (\<lambda>c.
     then_ok (try_fold (\<lambda>nested. validate_gate rx nested ''not all gate'' (depth + 1)) all c) (\<lambda>c.
     then_ok (try_fold (\<lambda>nested. validate_gate rx nested ''not any gate'' (depth + 1)) any c) (\<lambda>c.
     try_fold (\<lambda>nested. validate_not_gate rx nested (depth + 1)) not_gate c))))))"

definition validate_rule_gate ::
    "regex_new \<Rightarrow> manifest_rule \<Rightarrow> manifest_complexity \<Rightarrow> gate_error + manifest_complexity" where
  "validate_rule_gate rx rule complexity = validate_gate rx (manifest_gate_from_rule rule) ''rule'' 0 complexity"

definition fixed_regions :: "rstr list" where
  "fixed_regions = [''whole_recent'', ''after_last_prompt_marker'', ''before_current_prompt_marker'',
     ''whole_recent_without_current_prompt_marker'', ''current_prompt_block_marker'',
     ''after_current_prompt_block_marker'', ''prompt_box_body'', ''above_prompt_box'',
     ''last_non_empty_above_prompt_box'', ''after_last_horizontal_rule'', ''osc_title'', ''osc_progress'']"

definition validate_region_name :: "rstr \<Rightarrow> rstr option" where
  "validate_region_name spec =
     (let trimmed = trim spec in
      if trimmed \<in> set fixed_regions then None
      else if region_count trimmed ''bottom_lines'' \<noteq> None
          \<or> region_count trimmed ''bottom_non_empty_lines'' \<noteq> None \<or> top_region_count trimmed \<noteq> None then None
      else Some trimmed)"

definition validate_rule ::
    "regex_new \<Rightarrow> u32 option \<Rightarrow> manifest_rule \<Rightarrow> manifest_complexity \<Rightarrow> manifest_error + manifest_complexity" where
  "validate_rule rx min_engine rule complexity =
     (if trim (mr_id rule) = [] then Inl EmptyRuleId
      else if mr_skip_state_update rule \<and> mr_state rule \<noteq> Some MUnknown then Inl (SkipWithoutUnknown (mr_id rule))
      else if mr_skip_state_update rule
          \<and> (mr_visible_idle rule \<or> mr_visible_blocker rule \<or> mr_visible_working rule)
        then Inl (SkipWithVisible (mr_id rule))
      else case validate_region_name (mr_region rule) of
        Some err \<Rightarrow> Inl (InvalidRegion (mr_id rule) err)
      | None \<Rightarrow>
          (if prefix ''top_non_empty_lines('' (trim (mr_region rule))
              \<and> (case min_engine of Some v \<Rightarrow> v < top_non_empty_lines_engine_version | None \<Rightarrow> False)
           then Inl (TopRegionNeedsEngine (mr_id rule))
           else case validate_rule_gate rx rule complexity of
             Inl err \<Rightarrow> Inl (InvalidGates (mr_id rule) err)
           | Inr c \<Rightarrow> Inr c))"

definition validate_manifest :: "regex_new \<Rightarrow> agent_manifest \<Rightarrow> manifest_error + unit" where
  "validate_manifest rx manifest =
     (if am_rules manifest = [] then Inl NoRules
      else if max_rules_per_manifest < length (am_rules manifest) then Inl (TooManyRules (length (am_rules manifest)))
      else case try_fold (validate_rule rx (am_min_engine_version manifest)) (am_rules manifest) no_complexity of
        Inl err \<Rightarrow> Inl err
      | Inr _ \<Rightarrow> Inr ())"

subsection \<open>Compilation\<close>

datatype compiled_gate = CompiledGate
  (compiled_all: "compiled_gate list") (compiled_any: "compiled_gate list") (compiled_not: "compiled_gate list")
  (compiled_contains: "rstr list") (compiled_regex: "(rstr \<Rightarrow> bool) list") (compiled_line_regex: "(rstr \<Rightarrow> bool) list")

text \<open>\<open>collect\<close> of an iterator of results: the values, or the first error.\<close>

fun collect_results :: "('a \<Rightarrow> 'e + 'b) \<Rightarrow> 'a list \<Rightarrow> 'e + 'b list" where
  "collect_results f [] = Inr []"
| "collect_results f (x # xs) = then_ok (f x) (\<lambda>y. then_ok (collect_results f xs) (\<lambda>ys. Inr (y # ys)))"

lemma collect_results_cong [fundef_cong]:
  "xs = ys \<Longrightarrow> (\<And>x. x \<in> set ys \<Longrightarrow> f x = g x) \<Longrightarrow> collect_results f xs = collect_results g ys"
  by (induction xs arbitrary: ys) auto

lemma collect_results_all: "(\<And>x. x \<in> set xs \<Longrightarrow> \<exists>y. f x = Inr y) \<Longrightarrow> \<exists>ys. collect_results f xs = Inr ys"
  by (induction xs) auto

lemma collect_results_length: "collect_results f xs = Inr ys \<Longrightarrow> length ys = length xs \<and> (\<forall>i < length xs. f (xs ! i) = Inr (ys ! i))"
  by (induction xs arbitrary: ys) (auto simp: nth_Cons split: nat.split)

fun compile_gate :: "regex_new \<Rightarrow> (rstr \<Rightarrow> rstr) \<Rightarrow> manifest_gate \<Rightarrow> rstr + compiled_gate" where
  "compile_gate rx lower (ManifestGate all any not_gate contains regex line_regex) =
     then_ok (collect_results (compile_gate rx lower) all) (\<lambda>c_all.
     then_ok (collect_results (compile_gate rx lower) any) (\<lambda>c_any.
     then_ok (collect_results (compile_gate rx lower) not_gate) (\<lambda>c_not.
     then_ok (collect_results rx regex) (\<lambda>c_regex.
     then_ok (collect_results rx line_regex) (\<lambda>c_line.
     Inr (CompiledGate c_all c_any c_not (map lower contains) c_regex c_line))))))"

definition compile_manifest :: "regex_new \<Rightarrow> (rstr \<Rightarrow> rstr) \<Rightarrow> agent_manifest \<Rightarrow> (rstr \<times> rstr) + compiled_gate list" where
  "compile_manifest rx lower manifest =
     collect_results (\<lambda>rule. case compile_gate rx lower (manifest_gate_from_rule rule) of
         Inl err \<Rightarrow> Inl (mr_id rule, err)
       | Inr gate \<Rightarrow> Inr gate) (am_rules manifest)"

subsection \<open>What validation guarantees\<close>

fun gate_count :: "manifest_gate \<Rightarrow> nat" where
  "gate_count (ManifestGate all any not_gate contains regex line_regex) =
     1 + sum_list (map gate_count all) + sum_list (map gate_count any) + sum_list (map gate_count not_gate)"

fun matcher_count :: "manifest_gate \<Rightarrow> nat" where
  "matcher_count (ManifestGate all any not_gate contains regex line_regex) =
     length contains + length regex + length line_regex
     + sum_list (map matcher_count all) + sum_list (map matcher_count any) + sum_list (map matcher_count not_gate)"

text \<open>The limits on the gates nested from a depth on.\<close>

fun gate_within :: "regex_new \<Rightarrow> nat \<Rightarrow> manifest_gate \<Rightarrow> bool" where
  "gate_within rx depth (ManifestGate all any not_gate contains regex line_regex) \<longleftrightarrow>
     depth \<le> max_gate_depth
     \<and> length contains + length regex + length line_regex \<le> max_matchers_per_gate
     \<and> list_all (\<lambda>s. length (chars s) \<le> max_matcher_chars) (contains @ regex @ line_regex)
     \<and> list_all (\<lambda>p. \<exists>m. rx p = Inr m) (regex @ line_regex)
     \<and> gate_has_any_matcher (ManifestGate all any not_gate contains regex line_regex)
     \<and> list_all (gate_within rx (depth + 1)) (all @ any @ not_gate)"

lemma patterns_valid: "validate_regex_patterns rx ps ctx field = None \<longleftrightarrow> list_all (\<lambda>p. \<exists>m. rx p = Inr m) ps"
  by (induction rx ps ctx field rule: validate_regex_patterns.induct) (auto split: sum.split)

text \<open>A gate passes: it adds its gates and matchers to the counters and is within the limits.\<close>

definition gate_counted :: "regex_new \<Rightarrow> manifest_gate \<Rightarrow> nat \<Rightarrow> manifest_complexity \<Rightarrow> manifest_complexity \<Rightarrow> bool" where
  "gate_counted rx gate depth c c' \<longleftrightarrow>
     total_gates c' = total_gates c + gate_count gate
     \<and> total_matchers c' = total_matchers c + matcher_count gate
     \<and> total_gates c' \<le> max_total_gates \<and> total_matchers c' \<le> max_total_matchers
     \<and> gate_within rx depth gate"

definition gates_counted :: "regex_new \<Rightarrow> manifest_gate list \<Rightarrow> nat \<Rightarrow> manifest_complexity \<Rightarrow> manifest_complexity \<Rightarrow> bool" where
  "gates_counted rx gates depth c c' \<longleftrightarrow>
     total_gates c' = total_gates c + sum_list (map gate_count gates)
     \<and> total_matchers c' = total_matchers c + sum_list (map matcher_count gates)
     \<and> (total_gates c \<le> max_total_gates \<and> total_matchers c \<le> max_total_matchers
        \<longrightarrow> total_gates c' \<le> max_total_gates \<and> total_matchers c' \<le> max_total_matchers)
     \<and> list_all (gate_within rx depth) gates"

lemma try_fold_counted:
  assumes "\<And>gate s t. gate \<in> set gates \<Longrightarrow> f gate s = Inr t \<Longrightarrow> gate_counted rx gate depth s t"
    and "try_fold f gates c = Inr c'"
  shows "gates_counted rx gates depth c c'"
  using assms
proof (induction gates arbitrary: c)
  case (Cons gate gates)
  obtain s where s: "f gate c = Inr s" "try_fold f gates s = Inr c'"
    using Cons.prems(2) by (auto split: sum.splits)
  have "gate_counted rx gate depth c s" using Cons.prems(1) s(1) by simp
  moreover have "gates_counted rx gates depth s c'" using Cons.IH Cons.prems(1) s(2) by simp
  ultimately show ?case unfolding gate_counted_def gates_counted_def by simp
qed (simp add: gates_counted_def)

lemma limits_counted:
  assumes "enter_gate ctx depth c = Inr c1" "validate_matcher_limits gate ctx' c1 = Inr c2"
  shows "depth \<le> max_gate_depth \<and> total_gates c2 = total_gates c + 1 \<and> total_gates c2 \<le> max_total_gates
    \<and> total_matchers c2 = total_matchers c + (length (gate_contains gate) + length (gate_regex gate) + length (gate_line_regex gate))
    \<and> total_matchers c2 \<le> max_total_matchers
    \<and> length (gate_contains gate) + length (gate_regex gate) + length (gate_line_regex gate) \<le> max_matchers_per_gate
    \<and> list_all (\<lambda>s. length (chars s) \<le> max_matcher_chars) (gate_contains gate @ gate_regex gate @ gate_line_regex gate)"
  using assms unfolding enter_gate_def validate_matcher_limits_def Let_def
  by (auto simp: list_ex_iff list_all_iff not_less split: if_splits)

lemma gate_counted_from:
  assumes g: "gate = ManifestGate all any not_gate contains regex line_regex"
    and e: "enter_gate ctx depth c = Inr c1" "validate_matcher_limits gate ctx' c1 = Inr c2"
    and m: "gate_has_any_matcher gate"
    and r: "list_all (\<lambda>p. \<exists>m. rx p = Inr m) (regex @ line_regex)"
    and l: "gates_counted rx all (depth + 1) c2 c3" "gates_counted rx any (depth + 1) c3 c4" "gates_counted rx not_gate (depth + 1) c4 c5"
  shows "gate_counted rx gate depth c c5"
proof -
  note k = limits_counted [OF e]
  have "gate_within rx depth gate" using k m r l unfolding g gates_counted_def by simp
  moreover have "total_gates c5 = total_gates c + gate_count gate" "total_matchers c5 = total_matchers c + matcher_count gate"
    using k l unfolding g gates_counted_def by simp_all
  moreover have "total_gates c5 \<le> max_total_gates" "total_matchers c5 \<le> max_total_matchers"
    using k l unfolding gates_counted_def by simp_all
  ultimately show ?thesis unfolding gate_counted_def by simp
qed

lemma validated_gate_counted:
  "(validate_gate rx gate ctx depth c = Inr c' \<longrightarrow> gate_counted rx gate depth c c')
   \<and> (validate_not_gate rx gate depth c = Inr c' \<longrightarrow> gate_counted rx gate depth c c')"
proof (induction gate arbitrary: ctx depth c c')
  case (ManifestGate all any not_gate contains regex line_regex)
  let ?g = "ManifestGate all any not_gate contains regex line_regex"
  have nest: "try_fold (\<lambda>n. validate_gate rx n cx (depth + 1)) gs s = Inr t \<Longrightarrow> gates_counted rx gs (depth + 1) s t"
    if "gs = all \<or> gs = any" for gs cx s t
    by (erule try_fold_counted [rotated]) (use ManifestGate that in blast)
  have nots: "try_fold (\<lambda>n. validate_not_gate rx n (depth + 1)) not_gate s = Inr t \<Longrightarrow> gates_counted rx not_gate (depth + 1) s t" for s t
    by (erule try_fold_counted [rotated]) (use ManifestGate in blast)
  have guarded: "try_fold (\<lambda>n s. if \<not> gate_has_any_matcher n then Inl (EmptyNotGate ctx)
      else validate_not_gate rx n (depth + 1) s) not_gate s = Inr t \<Longrightarrow> gates_counted rx not_gate (depth + 1) s t" for s t
    by (erule try_fold_counted [rotated]) (use ManifestGate in \<open>auto split: if_splits\<close>)
  have "gate_counted rx ?g depth c c'" if v: "validate_gate rx ?g ctx depth c = Inr c'"
  proof -
    obtain c1 c2 c3 c4 where e: "enter_gate ctx depth c = Inr c1" "validate_matcher_limits ?g ctx c1 = Inr c2"
      and m: "gate_has_positive_matcher ?g"
      and r: "list_all (\<lambda>p. \<exists>m. rx p = Inr m) regex" "list_all (\<lambda>p. \<exists>m. rx p = Inr m) line_regex"
      and l: "try_fold (\<lambda>n. validate_gate rx n ''all gate'' (depth + 1)) all c2 = Inr c3"
        "try_fold (\<lambda>n. validate_gate rx n ''any gate'' (depth + 1)) any c3 = Inr c4"
        "try_fold (\<lambda>n s. if \<not> gate_has_any_matcher n then Inl (EmptyNotGate ctx)
          else validate_not_gate rx n (depth + 1) s) not_gate c4 = Inr c'"
      using v by (auto simp: patterns_valid split: if_splits)
    show ?thesis
      by (rule gate_counted_from [OF refl e _ _ nest [OF _ l(1)] nest [OF _ l(2)] guarded [OF l(3)]])
        (use m r in \<open>simp_all add: gate_has_any_matcher_def\<close>)
  qed
  moreover have "gate_counted rx ?g depth c c'" if v: "validate_not_gate rx ?g depth c = Inr c'"
  proof -
    obtain c1 c2 c3 c4 where e: "enter_gate ''not gate'' depth c = Inr c1" "validate_matcher_limits ?g ''not gate'' c1 = Inr c2"
      and m: "gate_has_any_matcher ?g"
      and r: "list_all (\<lambda>p. \<exists>m. rx p = Inr m) regex" "list_all (\<lambda>p. \<exists>m. rx p = Inr m) line_regex"
      and l: "try_fold (\<lambda>n. validate_gate rx n ''not all gate'' (depth + 1)) all c2 = Inr c3"
        "try_fold (\<lambda>n. validate_gate rx n ''not any gate'' (depth + 1)) any c3 = Inr c4"
        "try_fold (\<lambda>n. validate_not_gate rx n (depth + 1)) not_gate c4 = Inr c'"
      using v by (auto simp: patterns_valid split: if_splits)
    show ?thesis
      by (rule gate_counted_from [OF refl e _ _ nest [OF _ l(1)] nest [OF _ l(2)] nots [OF l(3)]]) (use m r in simp_all)
  qed
  ultimately show ?case by blast
qed

lemma within_compiles: "gate_within rx depth gate \<Longrightarrow> \<exists>compiled. compile_gate rx lower gate = Inr compiled"
proof (induction gate arbitrary: depth)
  case (ManifestGate all any not_gate contains regex line_regex)
  have "\<exists>cs. collect_results (compile_gate rx lower) gs = Inr cs" if "gs = all \<or> gs = any \<or> gs = not_gate" for gs
  proof (rule collect_results_all)
    fix g assume g: "g \<in> set gs"
    have "gate_within rx (depth + 1) g" using ManifestGate.prems that g by (auto simp: list_all_iff)
    then show "\<exists>y. compile_gate rx lower g = Inr y" using ManifestGate.IH that g by blast
  qed
  moreover have "\<exists>cs. collect_results rx ps = Inr cs" if "ps = regex \<or> ps = line_regex" for ps
    by (rule collect_results_all) (use ManifestGate.prems that in \<open>auto simp: list_all_iff\<close>)
  ultimately show ?case by (metis (no_types, lifting) compile_gate.simps then_ok_simps(2))
qed

end
