(* ===== verification/ManifestLoad.thy ===== *)
theory ManifestLoad
  imports ManifestModel
begin

section \<open>Loading detection manifests\<close>

text \<open>
  The part of \<open>src/src/detect/manifest.rs\<close> that chooses the manifest of an agent: the copy bundled
  with the program, the copy fetched from the catalog and the user's own file, in that ascending
  order, each only when it parses, validates, belongs to the agent and compiles.
  What lies outside the program is the record \<open>manifest_env\<close>: the TOML parser with the derived
  \<open>Deserialize\<close>, the regular expressions, the contents of the bundled files, the files on disk as one
  snapshot (missing, unreadable with a message, or text) and the update status. The outer option of a
  result is \<open>None\<close> when the code panics. Warnings and errors keep their parts instead of the formatted
  sentence.
\<close>

datatype load_error =
    ReadError rstr
  | TomlError rstr
  | InvalidManifest manifest_error
  | WrongManifestId rstr rstr
  | MissingManifestVersion
  | MissingEngineVersion
  | EngineTooNew u32

record manifest_env =
  me_toml :: "rstr \<Rightarrow> rstr + agent_manifest"
  me_regex :: regex_new
  me_lower :: "rstr \<Rightarrow> rstr"
  me_bundled :: "rstr \<Rightarrow> rstr"
  me_files :: "rstr \<Rightarrow> (rstr + rstr) option"
  me_override_path :: "agent \<Rightarrow> rstr"
  me_remote_path :: "agent \<Rightarrow> rstr"
  me_update_status :: "agent \<Rightarrow> (rstr \<times> rstr option) option"

datatype manifest_source =
    BundledSource
  | RemoteSource rstr manifest_version
  | OverrideSource rstr

datatype manifest_warning =
    OverrideNotCompiled rstr "rstr \<times> rstr"
  | OverrideOfOtherAgent rstr rstr rstr
  | OverrideNotLoaded rstr load_error
  | RemoteOlderThanBundled rstr manifest_version manifest_version
  | RemoteNotCompiled rstr "rstr \<times> rstr"
  | RemoteNotLoaded rstr load_error

record loaded_manifest =
  lm_manifest :: agent_manifest
  lm_compiled_rules :: "compiled_gate list"
  lm_source :: manifest_source
  lm_warning :: "manifest_warning option"
  lm_cached_remote_version :: "rstr option"
  lm_local_override_shadowing_remote :: bool

definition manifest_engine_version :: u32 where
  "manifest_engine_version = 3"

subsection \<open>Parsing\<close>

definition parse_manifest :: "manifest_env \<Rightarrow> rstr \<Rightarrow> load_error + agent_manifest" where
  "parse_manifest env content =
     (case me_toml env content of
        Inl err \<Rightarrow> Inl (TomlError err)
      | Inr manifest \<Rightarrow>
          (case validate_manifest (me_regex env) manifest of
             Inl err \<Rightarrow> Inl (InvalidManifest err)
           | Inr _ \<Rightarrow> Inr manifest))"

definition manifest_matches_agent :: "agent_manifest \<Rightarrow> agent \<Rightarrow> bool" where
  "manifest_matches_agent manifest agent \<longleftrightarrow>
     am_id manifest = agent_label agent
     \<or> list_ex (\<lambda>alias. alias = agent_label agent) (am_aliases manifest)
     \<or> parse_agent_label (am_id manifest) = Some agent
     \<or> list_ex (\<lambda>alias. parse_agent_label alias = Some agent) (am_aliases manifest)"

definition parse_remote_manifest_for_agent ::
    "manifest_env \<Rightarrow> agent \<Rightarrow> rstr \<Rightarrow> load_error + (agent_manifest \<times> manifest_version)" where
  "parse_remote_manifest_for_agent env agent content =
     (case parse_manifest env content of
        Inl err \<Rightarrow> Inl err
      | Inr manifest \<Rightarrow>
          (if \<not> manifest_matches_agent manifest agent then Inl (WrongManifestId (am_id manifest) (agent_label agent))
           else case am_version manifest of
             None \<Rightarrow> Inl MissingManifestVersion
           | Some version \<Rightarrow>
               (case am_min_engine_version manifest of
                  None \<Rightarrow> Inl MissingEngineVersion
                | Some min_engine \<Rightarrow>
                    (if manifest_engine_version < min_engine then Inl (EngineTooNew min_engine)
                     else Inr (manifest, version)))))"

subsection \<open>The bundled manifest\<close>

definition bundled_ids :: "rstr list" where
  "bundled_ids = [''amp'', ''agy'', ''claude'', ''cline'', ''codex'', ''cursor'', ''devin'', ''droid'', ''gemini'',
     ''grok'', ''hermes'', ''kilo'', ''kimi'', ''kiro'', ''maki'', ''opencode'', ''pi'', ''qodercli'', ''reasonix'',
     ''copilot'', ''dsh'']"

definition bundled_manifest :: "manifest_env \<Rightarrow> agent \<Rightarrow> agent_manifest option option" where
  "bundled_manifest env agent =
     (if agent_label agent \<in> set bundled_ids then
        (case parse_manifest env (me_bundled env (agent_label agent)) of
           Inl _ \<Rightarrow> None
         | Inr manifest \<Rightarrow> Some (Some manifest))
      else Some None)"

definition load_compiled :: "manifest_env \<Rightarrow> agent_manifest \<Rightarrow> manifest_source \<Rightarrow> manifest_warning option
    \<Rightarrow> rstr option \<Rightarrow> bool \<Rightarrow> (rstr \<times> rstr) + loaded_manifest" where
  "load_compiled env manifest source warning cached shadowing =
     then_ok (compile_manifest (me_regex env) (me_lower env) manifest) (\<lambda>rules.
       Inr \<lparr>lm_manifest = manifest, lm_compiled_rules = rules, lm_source = source, lm_warning = warning,
            lm_cached_remote_version = cached, lm_local_override_shadowing_remote = shadowing\<rparr>)"

definition bundled_loaded_manifest :: "manifest_env \<Rightarrow> agent_manifest \<Rightarrow> manifest_warning option
    \<Rightarrow> rstr option \<Rightarrow> bool \<Rightarrow> loaded_manifest option" where
  "bundled_loaded_manifest env manifest warning cached shadowing =
     (case load_compiled env manifest BundledSource warning cached shadowing of
        Inl _ \<Rightarrow> None
      | Inr loaded \<Rightarrow> Some loaded)"

subsection \<open>The fetched manifest\<close>

definition read_remote_manifest ::
    "manifest_env \<Rightarrow> agent \<Rightarrow> agent_manifest \<Rightarrow> loaded_manifest option option" where
  "read_remote_manifest env agent bundled =
     (let path = me_remote_path env agent in
      case me_files env path of
        None \<Rightarrow> Some None
      | Some (Inl err) \<Rightarrow>
          map_option Some (bundled_loaded_manifest env bundled (Some (RemoteNotLoaded path (ReadError err))) None False)
      | Some (Inr content) \<Rightarrow>
          (case parse_remote_manifest_for_agent env agent content of
             Inl err \<Rightarrow> map_option Some (bundled_loaded_manifest env bundled (Some (RemoteNotLoaded path err)) None False)
           | Inr (manifest, _) \<Rightarrow>
               (let version = (case am_version manifest of Some v \<Rightarrow> v | None \<Rightarrow> ''unknown'');
                    remote = (case load_compiled env manifest (RemoteSource path version) None None False of
                        Inr loaded \<Rightarrow> Some (Some loaded)
                      | Inl err \<Rightarrow> map_option Some
                          (bundled_loaded_manifest env bundled (Some (RemoteNotCompiled path err)) None False))
                in case (am_version manifest, am_version bundled) of
                     (Some remote_version, Some bundled_version) \<Rightarrow>
                       (if version_cmp remote_version bundled_version = OrderingLess then
                          map_option Some (bundled_loaded_manifest env bundled
                            (Some (RemoteOlderThanBundled path remote_version bundled_version)) (Some remote_version) False)
                        else remote)
                   | _ \<Rightarrow> remote)))"

subsection \<open>The choice\<close>

definition cached_version_of :: "loaded_manifest \<Rightarrow> rstr option" where
  "cached_version_of loaded =
     (if lm_cached_remote_version loaded \<noteq> None then lm_cached_remote_version loaded
      else case lm_source loaded of RemoteSource path version \<Rightarrow> Some version | _ \<Rightarrow> None)"

definition remote_or_bundled ::
    "manifest_env \<Rightarrow> agent_manifest \<Rightarrow> loaded_manifest option \<Rightarrow> rstr option \<Rightarrow> bool \<Rightarrow> loaded_manifest option" where
  "remote_or_bundled env bundled remote cached shadowing =
     (case remote of Some loaded \<Rightarrow> Some loaded | None \<Rightarrow> bundled_loaded_manifest env bundled None cached shadowing)"

definition read_override_manifest :: "manifest_env \<Rightarrow> rstr + rstr \<Rightarrow> load_error + agent_manifest" where
  "read_override_manifest env file =
     (case file of Inl err \<Rightarrow> Inl (ReadError err) | Inr content \<Rightarrow> parse_manifest env content)"

definition load_manifest_uncached :: "manifest_env \<Rightarrow> agent \<Rightarrow> loaded_manifest option option" where
  "load_manifest_uncached env agent =
     Option.bind (bundled_manifest env agent) (\<lambda>found.
     case found of
       None \<Rightarrow> Some None
     | Some bundled \<Rightarrow>
         Option.bind (read_remote_manifest env agent bundled) (\<lambda>remote.
         let cached = Option.bind remote cached_version_of;
             path = me_override_path env agent;
             shadowing = (me_files env path \<noteq> None \<and> cached \<noteq> None);
             remote' = map_option (\<lambda>loaded. loaded\<lparr>lm_cached_remote_version := cached,
                 lm_local_override_shadowing_remote := shadowing\<rparr>) remote;
             other = (\<lambda>warning. map_option (\<lambda>loaded. Some (loaded\<lparr>lm_warning := Some warning\<rparr>))
                 (remote_or_bundled env bundled remote' cached shadowing))
         in case me_files env path of
              None \<Rightarrow> map_option Some (remote_or_bundled env bundled remote' cached shadowing)
            | Some file \<Rightarrow>
                (case read_override_manifest env file of
                   Inr manifest \<Rightarrow>
                     (if manifest_matches_agent manifest agent then
                        (case load_compiled env manifest (OverrideSource path) None cached shadowing of
                           Inr loaded \<Rightarrow> Some (Some loaded)
                         | Inl err \<Rightarrow> other (OverrideNotCompiled path err))
                      else other (OverrideOfOtherAgent path (am_id manifest) (agent_label agent)))
                 | Inl err \<Rightarrow> other (OverrideNotLoaded path err))))"

subsection \<open>The cache\<close>

definition screen_manifest_agents :: "agent list" where
  "screen_manifest_agents = [Pi, Claude, Codex, Gemini, Cursor, Devin, Antigravity, Cline, OpenCode, GithubCopilot,
     Kimi, Kiro, Droid, Amp, Grok, Hermes, Kilo, Qodercli, Maki, Reasonix, Dsh]"

type_synonym manifest_cache = "(agent \<times> loaded_manifest option) list"

fun build_cache_for :: "manifest_env \<Rightarrow> agent list \<Rightarrow> manifest_cache option" where
  "build_cache_for env [] = Some []"
| "build_cache_for env (agent # rest) =
     Option.bind (load_manifest_uncached env agent) (\<lambda>loaded.
     map_option ((#) (agent, loaded)) (build_cache_for env rest))"

definition build_manifest_cache :: "manifest_env \<Rightarrow> manifest_cache option" where
  "build_manifest_cache env = build_cache_for env screen_manifest_agents"

definition load_manifest :: "manifest_cache \<Rightarrow> agent \<Rightarrow> loaded_manifest option" where
  "load_manifest cache agent =
     (case find (\<lambda>(cached_agent, _). cached_agent = agent) cache of
        Some (_, loaded) \<Rightarrow> loaded
      | None \<Rightarrow> None)"

record manifest_summary =
  sm_agent :: agent
  sm_active_source :: manifest_source
  sm_active_version :: "manifest_version option"
  sm_cached_remote_version :: "rstr option"
  sm_local_override_shadowing_remote :: bool
  sm_warning :: "manifest_warning option"

definition manifest_summary_from_loaded :: "agent \<Rightarrow> loaded_manifest \<Rightarrow> manifest_summary" where
  "manifest_summary_from_loaded agent loaded =
     \<lparr>sm_agent = agent, sm_active_source = lm_source loaded, sm_active_version = am_version (lm_manifest loaded),
      sm_cached_remote_version = lm_cached_remote_version loaded,
      sm_local_override_shadowing_remote = lm_local_override_shadowing_remote loaded, sm_warning = lm_warning loaded\<rparr>"

definition manifest_summaries_from_cache :: "manifest_cache \<Rightarrow> manifest_summary list" where
  "manifest_summaries_from_cache cache =
     concat (map (\<lambda>(agent, loaded). case loaded of Some l \<Rightarrow> [manifest_summary_from_loaded agent l] | None \<Rightarrow> []) cache)"

definition reload_manifests :: "manifest_env \<Rightarrow> (manifest_cache \<times> manifest_summary list) option" where
  "reload_manifests env = map_option (\<lambda>cache. (cache, manifest_summaries_from_cache cache)) (build_manifest_cache env)"

subsection \<open>A validated manifest\<close>

definition rule_ok :: "regex_new \<Rightarrow> manifest_rule \<Rightarrow> bool" where
  "rule_ok rx rule \<longleftrightarrow>
     trim (mr_id rule) \<noteq> [] \<and> validate_region_name (mr_region rule) = None
     \<and> (mr_skip_state_update rule \<longrightarrow> mr_state rule = Some MUnknown
        \<and> \<not> mr_visible_idle rule \<and> \<not> mr_visible_blocker rule \<and> \<not> mr_visible_working rule)
     \<and> gate_within rx 0 (manifest_gate_from_rule rule)"

definition manifest_ok :: "regex_new \<Rightarrow> agent_manifest \<Rightarrow> bool" where
  "manifest_ok rx manifest \<longleftrightarrow>
     am_rules manifest \<noteq> [] \<and> length (am_rules manifest) \<le> max_rules_per_manifest
     \<and> list_all (rule_ok rx) (am_rules manifest)
     \<and> sum_list (map (gate_count \<circ> manifest_gate_from_rule) (am_rules manifest)) \<le> max_total_gates
     \<and> sum_list (map (matcher_count \<circ> manifest_gate_from_rule) (am_rules manifest)) \<le> max_total_matchers"

lemma validate_rule_ok:
  assumes "validate_rule rx min_engine rule c = Inr c'"
  shows "rule_ok rx rule \<and> gate_counted rx (manifest_gate_from_rule rule) 0 c c'"
proof -
  have v: "validate_gate rx (manifest_gate_from_rule rule) ''rule'' 0 c = Inr c'"
    using assms by (auto simp: validate_rule_def validate_rule_gate_def split: if_splits option.splits sum.splits)
  then have k: "gate_counted rx (manifest_gate_from_rule rule) 0 c c'" using validated_gate_counted by blast
  then have "gate_within rx 0 (manifest_gate_from_rule rule)" by (simp add: gate_counted_def)
  then show ?thesis using assms k
    by (auto simp: validate_rule_def rule_ok_def split: if_splits option.splits sum.splits)
qed

lemma try_fold_rules:
  assumes "try_fold (validate_rule rx min_engine) rules c = Inr c'"
  shows "list_all (rule_ok rx) rules
    \<and> total_gates c' = total_gates c + sum_list (map (gate_count \<circ> manifest_gate_from_rule) rules)
    \<and> total_matchers c' = total_matchers c + sum_list (map (matcher_count \<circ> manifest_gate_from_rule) rules)
    \<and> (rules \<noteq> [] \<longrightarrow> total_gates c' \<le> max_total_gates \<and> total_matchers c' \<le> max_total_matchers)"
  using assms
proof (induction rules arbitrary: c)
  case (Cons rule rules)
  obtain s where s: "validate_rule rx min_engine rule c = Inr s" "try_fold (validate_rule rx min_engine) rules s = Inr c'"
    using Cons.prems by (auto split: sum.splits)
  note validate_rule_ok [OF s(1)] and Cons.IH [OF s(2)]
  then show ?case using s(2) by (cases rules) (auto simp: gate_counted_def)
qed simp

lemma validated_manifest_ok: "validate_manifest rx manifest = Inr () \<Longrightarrow> manifest_ok rx manifest"
proof -
  assume v: "validate_manifest rx manifest = Inr ()"
  then obtain c where c: "try_fold (validate_rule rx (am_min_engine_version manifest)) (am_rules manifest) no_complexity = Inr c"
    and n: "am_rules manifest \<noteq> []" "length (am_rules manifest) \<le> max_rules_per_manifest"
    by (auto simp: validate_manifest_def not_less split: if_splits sum.splits)
  show ?thesis using try_fold_rules [OF c] n by (auto simp: manifest_ok_def no_complexity_def)
qed

lemma parsed_manifest_ok: "parse_manifest env content = Inr manifest \<Longrightarrow> manifest_ok (me_regex env) manifest"
  by (auto simp: parse_manifest_def intro: validated_manifest_ok split: sum.splits)

lemma ok_compiles:
  assumes "manifest_ok rx manifest"
  shows "\<exists>rules. compile_manifest rx lower manifest = Inr rules"
  unfolding compile_manifest_def
proof (rule collect_results_all)
  fix rule assume "rule \<in> set (am_rules manifest)"
  then have "gate_within rx 0 (manifest_gate_from_rule rule)" using assms by (auto simp: manifest_ok_def rule_ok_def list_all_iff)
  then obtain g where "compile_gate rx lower (manifest_gate_from_rule rule) = Inr g" using within_compiles by blast
  then show "\<exists>y. (case compile_gate rx lower (manifest_gate_from_rule rule) of Inl err \<Rightarrow> Inl (mr_id rule, err) | Inr gate \<Rightarrow> Inr gate) = Inr y"
    by simp
qed

text \<open>What a loaded manifest is: validated, with its own compiled gates.\<close>

definition loaded_ok :: "manifest_env \<Rightarrow> loaded_manifest \<Rightarrow> bool" where
  "loaded_ok env loaded \<longleftrightarrow> manifest_ok (me_regex env) (lm_manifest loaded)
     \<and> compile_manifest (me_regex env) (me_lower env) (lm_manifest loaded) = Inr (lm_compiled_rules loaded)"

lemma load_compiled_ok:
  assumes "manifest_ok (me_regex env) manifest"
  shows "\<exists>rules. load_compiled env manifest source warning cached shadowing
      = Inr \<lparr>lm_manifest = manifest, lm_compiled_rules = rules, lm_source = source, lm_warning = warning,
            lm_cached_remote_version = cached, lm_local_override_shadowing_remote = shadowing\<rparr>
    \<and> compile_manifest (me_regex env) (me_lower env) manifest = Inr rules"
  using ok_compiles [OF assms, of "me_lower env"] by (auto simp: load_compiled_def)

end
