(* ===== verification/ManifestDetect.thy ===== *)
theory ManifestDetect
  imports ManifestLoad
begin

section \<open>Detection by manifest rules\<close>

text \<open>
  The evaluation of a loaded manifest on a screen (\<open>evaluate_loaded_manifest\<close> and the functions around
  it in \<open>src/src/detect/manifest.rs\<close>, with \<open>detect_agent_with_osc\<close> of \<open>src/src/detect/mod.rs\<close>). Every
  rule is evaluated on its region; the matching rule of the highest priority decides, the earliest one
  among equals. A region that panics makes the evaluation \<open>None\<close>.
\<close>

fun compiled_gate_matches :: "compiled_gate \<Rightarrow> rstr \<Rightarrow> rstr \<Rightarrow> bool" where
  "compiled_gate_matches (CompiledGate all any not_gate contains regex line_regex) text lower_text =
     (if \<not> list_all (\<lambda>needle. sublist needle lower_text) contains then False
      else if \<not> list_all (\<lambda>is_match. is_match text) regex then False
      else if \<not> list_all (\<lambda>is_match. list_ex is_match (str_lines text)) line_regex then False
      else if \<not> list_all (\<lambda>nested. compiled_gate_matches nested text lower_text) all then False
      else if any \<noteq> [] \<and> \<not> list_ex (\<lambda>nested. compiled_gate_matches nested text lower_text) any then False
      else if list_ex (\<lambda>nested. compiled_gate_matches nested text lower_text) not_gate then False
      else True)"

definition compiled_rule_matches :: "(rstr \<Rightarrow> rstr) \<Rightarrow> compiled_gate \<Rightarrow> rstr \<Rightarrow> bool" where
  "compiled_rule_matches lower gate text = compiled_gate_matches gate text (lower text)"

record rule_evidence =
  re_contains :: "rstr list"
  re_regex :: "rstr list"
  re_line_regex :: "rstr list"
  re_all_count :: nat
  re_any_count :: nat
  re_not_count :: nat
  re_region_bytes :: nat
  re_region_preview :: rstr

record evaluated_rule =
  ev_id :: rstr
  ev_priority :: int
  ev_region :: rstr
  ev_evidence :: rule_evidence
  ev_state :: agent_state
  ev_matched :: bool

record matched_rule =
  mt_id :: rstr
  mt_priority :: int
  mt_region :: rstr
  mt_state :: agent_state

record detection_explain =
  de_agent :: "rstr option"
  de_state :: agent_state
  de_source :: "manifest_source option"
  de_matched_rule :: "matched_rule option"
  de_screen_detection_skipped :: bool
  de_visible_idle :: bool
  de_visible_blocker :: bool
  de_visible_working :: bool
  de_skip_state_update :: bool
  de_skipped_update_reason :: "rstr option"
  de_fallback_reason :: "rstr option"
  de_evaluated_rules :: "evaluated_rule list"
  de_warning :: "manifest_warning option"
  de_manifest_version :: "rstr option"
  de_cached_remote_version :: "rstr option"
  de_local_override_shadowing_remote :: bool
  de_remote_update_status :: "rstr option"
  de_remote_update_error :: "rstr option"

record agent_detection =
  ad_state :: agent_state
  ad_skip_state_update :: bool
  ad_visible_idle :: bool
  ad_visible_blocker :: bool
  ad_visible_working :: bool

definition bounded_preview :: "rstr \<Rightarrow> rstr" where
  "bounded_preview text = concat (take 240 (chars text)) @ (if 240 < length (chars text) then ''...'' else [])"

definition rule_evidence :: "manifest_rule \<Rightarrow> rstr \<Rightarrow> rule_evidence" where
  "rule_evidence rule region_text =
     \<lparr>re_contains = mr_contains rule, re_regex = mr_regex rule, re_line_regex = mr_line_regex rule,
      re_all_count = length (mr_all rule), re_any_count = length (mr_any rule), re_not_count = length (mr_not rule),
      re_region_bytes = length region_text, re_region_preview = bounded_preview region_text\<rparr>"

definition evaluated :: "manifest_rule \<Rightarrow> rstr \<Rightarrow> bool \<Rightarrow> evaluated_rule" where
  "evaluated rule region_text hit =
     \<lparr>ev_id = mr_id rule, ev_priority = mr_priority rule, ev_region = mr_region rule,
      ev_evidence = rule_evidence rule region_text, ev_state = rule_state rule, ev_matched = hit\<rparr>"

definition keep_better :: "manifest_rule \<Rightarrow> (manifest_rule \<times> rstr) option \<Rightarrow> (manifest_rule \<times> rstr) option" where
  "keep_better rule matched =
     (case matched of
        Some (previous, region_name) \<Rightarrow>
          if mr_priority rule \<le> mr_priority previous then matched else Some (rule, mr_region rule)
      | None \<Rightarrow> Some (rule, mr_region rule))"

fun evaluate_rules :: "(rstr \<Rightarrow> rstr) \<Rightarrow> detection_input \<Rightarrow> (manifest_rule \<times> compiled_gate) list
    \<Rightarrow> (manifest_rule \<times> rstr) option \<Rightarrow> evaluated_rule list
    \<Rightarrow> ((manifest_rule \<times> rstr) option \<times> evaluated_rule list) option" where
  "evaluate_rules lower input [] matched done_rules = Some (matched, done_rules)"
| "evaluate_rules lower input ((rule, gate) # rest) matched done_rules =
     Option.bind (region input (mr_region rule)) (\<lambda>region_text.
     let hit = compiled_rule_matches lower gate region_text in
     evaluate_rules lower input rest (if hit then keep_better rule matched else matched)
       (done_rules @ [evaluated rule region_text hit]))"

definition default_known_agent_idle_fallback :: rstr where
  "default_known_agent_idle_fallback = ''default_known_agent_idle_fallback''"

definition fallback_explain :: "manifest_env \<Rightarrow> agent option \<Rightarrow> (loaded_manifest \<times> evaluated_rule list) option
    \<Rightarrow> bool \<Rightarrow> detection_explain" where
  "fallback_explain env agent ctx include_update_status =
     (let status = (if include_update_status then Option.bind agent (me_update_status env) else None)
      in \<lparr>de_agent = map_option agent_label agent,
          de_state = (if agent \<noteq> None then Idle else Unknown),
          de_source = map_option (\<lambda>(loaded, _). lm_source loaded) ctx,
          de_matched_rule = None, de_screen_detection_skipped = False,
          de_visible_idle = False, de_visible_blocker = False, de_visible_working = False,
          de_skip_state_update = False, de_skipped_update_reason = None,
          de_fallback_reason = (if agent \<noteq> None then Some default_known_agent_idle_fallback else None),
          de_evaluated_rules = (case ctx of Some (_, rules) \<Rightarrow> rules | None \<Rightarrow> []),
          de_warning = Option.bind ctx (\<lambda>(loaded, _). lm_warning loaded),
          de_manifest_version = Option.bind ctx (\<lambda>(loaded, _). am_version (lm_manifest loaded)),
          de_cached_remote_version = Option.bind ctx (\<lambda>(loaded, _). lm_cached_remote_version loaded),
          de_local_override_shadowing_remote =
            (case ctx of Some (loaded, _) \<Rightarrow> lm_local_override_shadowing_remote loaded | None \<Rightarrow> False),
          de_remote_update_status = map_option fst status,
          de_remote_update_error = Option.bind status snd\<rparr>)"

definition explain_match :: "manifest_env \<Rightarrow> agent \<Rightarrow> loaded_manifest \<Rightarrow> manifest_rule \<Rightarrow> rstr
    \<Rightarrow> evaluated_rule list \<Rightarrow> bool \<Rightarrow> detection_explain" where
  "explain_match env agent loaded rule region_name rules include_update_status =
     (let state = rule_state rule;
          status = (if include_update_status then me_update_status env agent else None)
      in \<lparr>de_agent = Some (agent_label agent), de_state = state, de_source = Some (lm_source loaded),
          de_matched_rule = Some \<lparr>mt_id = mr_id rule, mt_priority = mr_priority rule,
            mt_region = region_name, mt_state = state\<rparr>,
          de_screen_detection_skipped = False,
          de_visible_idle = (mr_visible_idle rule \<and> state = Idle),
          de_visible_blocker = (mr_visible_blocker rule \<and> state = Blocked),
          de_visible_working = (mr_visible_working rule \<and> state = Working),
          de_skip_state_update = mr_skip_state_update rule,
          de_skipped_update_reason =
            (if mr_skip_state_update rule then Some (''matched_rule:'' @ mr_id rule) else None),
          de_fallback_reason = None, de_evaluated_rules = rules,
          de_warning = lm_warning loaded,
          de_manifest_version = am_version (lm_manifest loaded),
          de_cached_remote_version = lm_cached_remote_version loaded,
          de_local_override_shadowing_remote = lm_local_override_shadowing_remote loaded,
          de_remote_update_status = map_option fst status,
          de_remote_update_error = Option.bind status snd\<rparr>)"

definition evaluate_loaded_manifest ::
    "manifest_env \<Rightarrow> agent \<Rightarrow> detection_input \<Rightarrow> loaded_manifest \<Rightarrow> bool \<Rightarrow> detection_explain option" where
  "evaluate_loaded_manifest env agent input loaded include_update_status =
     map_option (\<lambda>(matched, rules).
         case matched of
           None \<Rightarrow> fallback_explain env (Some agent) (Some (loaded, rules)) include_update_status
         | Some (rule, region_name) \<Rightarrow> explain_match env agent loaded rule region_name rules include_update_status)
       (evaluate_rules (me_lower env) input (zip (am_rules (lm_manifest loaded)) (lm_compiled_rules loaded)) None [])"

definition into_detection :: "detection_explain \<Rightarrow> agent_detection" where
  "into_detection e =
     \<lparr>ad_state = de_state e, ad_skip_state_update = de_skip_state_update e, ad_visible_idle = de_visible_idle e,
      ad_visible_blocker = de_visible_blocker e, ad_visible_working = de_visible_working e\<rparr>"

definition explain_with_input ::
    "manifest_env \<Rightarrow> manifest_cache \<Rightarrow> agent \<Rightarrow> detection_input \<Rightarrow> detection_explain option" where
  "explain_with_input env cache agent input =
     (case load_manifest cache agent of
        None \<Rightarrow> Some (fallback_explain env (Some agent) None True)
      | Some loaded \<Rightarrow> evaluate_loaded_manifest env agent input loaded True)"

definition detect_with_osc ::
    "manifest_env \<Rightarrow> manifest_cache \<Rightarrow> agent \<Rightarrow> detection_input \<Rightarrow> agent_detection option" where
  "detect_with_osc env cache agent input =
     (case load_manifest cache agent of
        None \<Rightarrow> Some (into_detection (fallback_explain env (Some agent) None False))
      | Some loaded \<Rightarrow> map_option into_detection (evaluate_loaded_manifest env agent input loaded False))"

definition explain_for_label ::
    "manifest_env \<Rightarrow> manifest_cache \<Rightarrow> rstr \<Rightarrow> rstr \<Rightarrow> detection_explain option" where
  "explain_for_label env cache label screen_content =
     (case parse_agent_label label of
        None \<Rightarrow> Some ((fallback_explain env None None False)\<lparr>de_agent := Some label, de_fallback_reason := Some ''unknown_agent''\<rparr>)
      | Some agent \<Rightarrow> explain_with_input env cache agent
          \<lparr>di_screen = screen_content, di_osc_title = [], di_osc_progress = []\<rparr>)"

definition should_skip_state_update ::
    "manifest_env \<Rightarrow> manifest_cache \<Rightarrow> agent \<Rightarrow> rstr \<Rightarrow> bool option" where
  "should_skip_state_update env cache agent screen_content =
     (case load_manifest cache agent of
        None \<Rightarrow> Some False
      | Some loaded \<Rightarrow> map_option de_skip_state_update (evaluate_loaded_manifest env agent
          \<lparr>di_screen = screen_content, di_osc_title = [], di_osc_progress = []\<rparr> loaded False))"

definition detect_agent_with_osc ::
    "manifest_env \<Rightarrow> manifest_cache \<Rightarrow> agent option \<Rightarrow> rstr \<Rightarrow> rstr \<Rightarrow> rstr \<Rightarrow> agent_detection option" where
  "detect_agent_with_osc env cache agent screen_content osc_title osc_progress =
     (case agent of
        None \<Rightarrow> Some \<lparr>ad_state = Unknown, ad_skip_state_update = False, ad_visible_idle = False,
                     ad_visible_blocker = False, ad_visible_working = False\<rparr>
      | Some a \<Rightarrow> detect_with_osc env cache a
          \<lparr>di_screen = screen_content, di_osc_title = osc_title, di_osc_progress = osc_progress\<rparr>)"

subsection \<open>Gates read on their source\<close>

text \<open>What a gate of the manifest says of a text, without the compiled form.\<close>

fun gate_holds :: "regex_new \<Rightarrow> (rstr \<Rightarrow> rstr) \<Rightarrow> rstr \<Rightarrow> manifest_gate \<Rightarrow> bool" where
  "gate_holds rx lower text (ManifestGate all any not_gate contains regex line_regex) \<longleftrightarrow>
     list_all (\<lambda>needle. sublist (lower needle) (lower text)) contains
     \<and> list_all (\<lambda>p. \<exists>m. rx p = Inr m \<and> m text) regex
     \<and> list_all (\<lambda>p. \<exists>m. rx p = Inr m \<and> list_ex m (str_lines text)) line_regex
     \<and> list_all (gate_holds rx lower text) all
     \<and> (any = [] \<or> list_ex (gate_holds rx lower text) any)
     \<and> \<not> list_ex (gate_holds rx lower text) not_gate"

lemma collect_results_pred:
  assumes "collect_results f xs = Inr ys" "\<And>x y. x \<in> set xs \<Longrightarrow> f x = Inr y \<Longrightarrow> p y = q x"
  shows "list_all p ys = list_all q xs \<and> list_ex p ys = list_ex q xs \<and> (ys = [] \<longleftrightarrow> xs = [])"
  using assms
proof (induction xs arbitrary: ys)
  case (Cons x xs)
  obtain y zs where y: "f x = Inr y" "collect_results f xs = Inr zs" "ys = y # zs" using Cons.prems(1) by auto
  have "p y = q x" using Cons.prems(2) [of x y] y(1) by simp
  moreover have "list_all p zs = list_all q xs \<and> list_ex p zs = list_ex q xs"
    using Cons.IH [OF y(2)] Cons.prems(2) by simp
  ultimately show ?case using y(3) by simp
qed simp

lemma compiled_exact:
  "compile_gate rx lower gate = Inr compiled \<Longrightarrow>
     compiled_gate_matches compiled text (lower text) = gate_holds rx lower text gate"
proof (induction gate arbitrary: compiled)
  case (ManifestGate all any not_gate contains regex line_regex)
  obtain c_all c_any c_not c_regex c_line where
      c: "collect_results (compile_gate rx lower) all = Inr c_all" "collect_results (compile_gate rx lower) any = Inr c_any"
        "collect_results (compile_gate rx lower) not_gate = Inr c_not" "collect_results rx regex = Inr c_regex"
        "collect_results rx line_regex = Inr c_line"
    and e: "compiled = CompiledGate c_all c_any c_not (map lower contains) c_regex c_line"
    using ManifestGate.prems by auto
  let ?m = "\<lambda>nested. compiled_gate_matches nested text (lower text)" and ?h = "gate_holds rx lower text"
  have a: "list_all ?m c_all = list_all ?h all" using collect_results_pred [OF c(1), of ?m ?h] ManifestGate.IH(1) by blast
  have b: "list_ex ?m c_any = list_ex ?h any" "c_any = [] \<longleftrightarrow> any = []"
    using collect_results_pred [OF c(2), of ?m ?h] ManifestGate.IH(2) by blast+
  have n: "list_ex ?m c_not = list_ex ?h not_gate" using collect_results_pred [OF c(3), of ?m ?h] ManifestGate.IH(3) by blast
  have r: "list_all (\<lambda>m. m text) c_regex = list_all (\<lambda>p. \<exists>m. rx p = Inr m \<and> m text) regex"
    using collect_results_pred [OF c(4), of "\<lambda>m. m text" "\<lambda>p. \<exists>m. rx p = Inr m \<and> m text"] by simp
  have l: "list_all (\<lambda>m. list_ex m (str_lines text)) c_line = list_all (\<lambda>p. \<exists>m. rx p = Inr m \<and> list_ex m (str_lines text)) line_regex"
    using collect_results_pred [OF c(5), of "\<lambda>m. list_ex m (str_lines text)" "\<lambda>p. \<exists>m. rx p = Inr m \<and> list_ex m (str_lines text)"]
    by simp
  have "list_all (\<lambda>needle. sublist needle (lower text)) (map lower contains) = list_all (\<lambda>needle. sublist (lower needle) (lower text)) contains"
    by (simp add: list.pred_map comp_def)
  then show ?case unfolding e compiled_gate_matches.simps gate_holds.simps a b n r l by auto
qed

text \<open>The rule applies: its region exists and its gate holds there.\<close>

definition rule_applies :: "regex_new \<Rightarrow> (rstr \<Rightarrow> rstr) \<Rightarrow> detection_input \<Rightarrow> manifest_rule \<Rightarrow> bool" where
  "rule_applies rx lower input rule \<longleftrightarrow>
     (case region input (mr_region rule) of
        Some text \<Rightarrow> gate_holds rx lower text (manifest_gate_from_rule rule)
      | None \<Rightarrow> False)"

subsection \<open>The best match\<close>

lemma keep_better_all:
  "fold keep_better rules None = Some (m, r) \<Longrightarrow>
     r = mr_region m \<and> (\<exists>i < length rules. rules ! i = m
       \<and> (\<forall>j < length rules. mr_priority (rules ! j) \<le> mr_priority m \<and> (j < i \<longrightarrow> mr_priority (rules ! j) < mr_priority m)))"
proof (induction rules arbitrary: m r rule: rev_induct)
  case (snoc x xs)
  show ?case
  proof (cases "xs = []")
    case True
    then show ?thesis using snoc.prems by (auto simp: keep_better_def)
  next
    case False
    have f: "keep_better x (fold keep_better xs None) = Some (m, r)" using snoc.prems by simp
    have "fold keep_better xs None \<noteq> None" using False
      by (cases xs rule: rev_cases) (auto simp: keep_better_def split: option.splits if_splits prod.splits)
    then obtain m' r' where p: "fold keep_better xs None = Some (m', r')" by auto
    then obtain i where i: "r' = mr_region m'" "i < length xs" "xs ! i = m'"
      "\<forall>j < length xs. mr_priority (xs ! j) \<le> mr_priority m' \<and> (j < i \<longrightarrow> mr_priority (xs ! j) < mr_priority m')"
      using snoc.IH [OF p] by auto
    show ?thesis
    proof (cases "mr_priority x \<le> mr_priority m'")
      case True
      then have "m = m'" "r = r'" using f p by (simp_all add: keep_better_def)
      then show ?thesis using i True by (auto simp: nth_append less_Suc_eq intro!: exI [of _ i])
    next
      case False
      then have "m = x" "r = mr_region x" using f p by (auto simp: keep_better_def)
      moreover have "j < length xs \<Longrightarrow> mr_priority (xs ! j) < mr_priority x" for j using i(4) False by fastforce
      ultimately show ?thesis by (auto simp: nth_append less_Suc_eq intro!: exI [of _ "length xs"] intro: less_imp_le)
    qed
  qed
qed simp

lemma fold_keep_better_None: "fold keep_better rules None = None \<longleftrightarrow> rules = []"
  by (cases rules rule: rev_cases) (auto simp: keep_better_def split: option.splits if_splits prod.splits)

lemma evaluate_rules_exact:
  assumes "length rules = length gates"
    and "\<And>i. i < length rules \<Longrightarrow> compile_gate rx lower (manifest_gate_from_rule (rules ! i)) = Inr (gates ! i)"
    and "\<And>rule. rule \<in> set rules \<Longrightarrow> region input (mr_region rule) \<noteq> None"
  shows "\<exists>evs. evaluate_rules lower input (zip rules gates) matched done_rules
        = Some (fold keep_better (filter (rule_applies rx lower input) rules) matched, done_rules @ evs)
      \<and> map (\<lambda>e. (ev_id e, ev_matched e)) evs = map (\<lambda>r. (mr_id r, rule_applies rx lower input r)) rules"
  using assms
proof (induction rules gates arbitrary: matched done_rules rule: list_induct2)
  case (Cons rule rules gate gates)
  obtain t where t: "region input (mr_region rule) = Some t" using Cons.prems(2) [of rule] by auto
  have "compile_gate rx lower (manifest_gate_from_rule rule) = Inr gate" using Cons.prems(1) [of 0] by simp
  then have hit: "compiled_rule_matches lower gate t = rule_applies rx lower input rule"
    using t by (simp add: compiled_rule_matches_def compiled_exact rule_applies_def)
  have rest: "i < length rules \<Longrightarrow> compile_gate rx lower (manifest_gate_from_rule (rules ! i)) = Inr (gates ! i)" for i
    using Cons.prems(1) [of "Suc i"] by simp
  obtain evs where evs: "evaluate_rules lower input (zip rules gates)
      (if rule_applies rx lower input rule then keep_better rule matched else matched)
      (done_rules @ [evaluated rule t (rule_applies rx lower input rule)])
    = Some (fold keep_better (filter (rule_applies rx lower input) rules)
        (if rule_applies rx lower input rule then keep_better rule matched else matched),
        (done_rules @ [evaluated rule t (rule_applies rx lower input rule)]) @ evs)"
    "map (\<lambda>e. (ev_id e, ev_matched e)) evs = map (\<lambda>r. (mr_id r, rule_applies rx lower input r)) rules"
    using Cons.IH [OF rest] Cons.prems(2) by fastforce
  then show ?case
    by (intro exI [of _ "evaluated rule t (rule_applies rx lower input rule) # evs"]) (simp add: t hit evaluated_def)
qed simp

end
