(* ===== verification/ManifestProps.thy ===== *)
theory ManifestProps
  imports ManifestDetect
begin

section \<open>Properties of screen detection\<close>

text \<open>
  What the manifests promise: which of the three copies of a manifest is used, that a manifest that was
  read can always be compiled and evaluated, which rule decides, and what the detection reports.
\<close>

subsection \<open>Regions\<close>

lemma line_block_sublist: "line_block s r \<Longrightarrow> sublist r s"
proof -
  assume "line_block s r"
  then obtain i n where r: "r = concat (take n (drop i (line_pieces s)))" by (auto simp: line_block_def)
  have "concat (line_pieces s) = concat (take i (line_pieces s)) @ r @ concat (drop n (drop i (line_pieces s)))"
    unfolding r by (metis append_take_drop_id concat_append)
  then show ?thesis by (metis concat_pieces sublist_appendI)
qed

lemma str_line_sublist: "line \<in> set (str_lines s) \<Longrightarrow> sublist line s"
proof -
  assume "line \<in> set (str_lines s)"
  then obtain i where i: "i < length (line_pieces s)" "line = strip_eol (line_pieces s ! i)"
    by (auto simp: str_lines_def in_set_conv_nth)
  have "prefix line (line_pieces s ! i)" unfolding i(2) strip_eol_def Let_def
    by (auto intro: prefix_order.order_trans [OF prefixeq_butlast prefixeq_butlast] prefixeq_butlast)
  then have "sublist line (line_pieces s ! i)" by simp
  moreover have "line_block s (line_pieces s ! i)"
    unfolding line_block_def using i(1) by (intro exI [of _ i] exI [of _ 1]) (simp add: take_Suc hd_drop_conv_nth)
  ultimately show ?thesis using line_block_sublist sublist_order.order_trans by blast
qed

lemma marker_line_sublist: "sublist (or_empty (current_prompt_block_marker s)) s"
proof (cases "current_prompt_block_marker s")
  case (Some line)
  then have "line \<in> set (str_lines s)"
    by (auto simp: current_prompt_block_marker_def Let_def find_Some_iff bind_eq_Some_conv rev_nth dest: in_set_takeD nth_mem)
  then show ?thesis using Some by (simp add: or_empty_def str_line_sublist)
qed (simp add: or_empty_def)

lemma last_line_sublist: "sublist (last_non_empty_line r) r"
proof (cases "find (\<lambda>line. \<not> blank line) (rev (str_lines r))")
  case (Some line)
  then have "line \<in> set (str_lines r)" by (metis find_Some_iff nth_mem set_rev)
  then show ?thesis using Some by (simp add: last_non_empty_line_def str_line_sublist)
qed (simp add: last_non_empty_line_def)

lemma region_safe:
  assumes "plain_screen (di_screen input)"
  shows "\<exists>r. region input spec = Some r
    \<and> (trim spec \<notin> {''osc_title'', ''osc_progress''} \<longrightarrow> sublist r (di_screen input))"
proof -
  let ?s = "di_screen input"
  have block: "(\<exists>r. x = Some r \<and> line_block ?s r) \<Longrightarrow> \<exists>r. x = Some r \<and> sublist r ?s" for x using line_block_sublist by blast
  have opt: "(\<exists>r. x = Some r \<and> line_block ?s (or_empty r)) \<Longrightarrow> \<exists>r. map_option or_empty x = Some r \<and> sublist r ?s" for x
    using line_block_sublist by auto
  note cases = region_cases [OF assms]
  have last: "\<exists>r. map_option last_non_empty_line (above_prompt_box ?s) = Some r \<and> sublist r ?s"
    using block [OF cases(5)] last_line_sublist sublist_order.order_trans by fastforce
  have if_rule: "(b \<Longrightarrow> Q x) \<Longrightarrow> (\<not> b \<Longrightarrow> Q y) \<Longrightarrow> Q (if b then x else y)" for b Q and x y :: "rstr option" by simp
  show ?thesis unfolding region_def Let_def
    by (intro if_rule [where Q = "\<lambda>x. \<exists>r. x = Some r \<and> (trim spec \<notin> {''osc_title'', ''osc_progress''} \<longrightarrow> sublist r ?s)"])
      (use block [OF cases(1)] block [OF cases(2)] opt [OF cases(3)] opt [OF cases(4)] block [OF cases(5)] last block [OF cases(6)]
        block [OF cases(7)] marker_line_sublist [of ?s] in \<open>auto simp: whole_recent_without_current_prompt_marker_def\<close>)
qed

text \<open>Property C24. On the text of a screen without carriage returns no region panics, whatever the name of
  the region is: it is a contiguous part of the text, and the two regions of the terminal title and progress
  are those strings.\<close>

theorem regions_never_panic:
  assumes "plain_screen (di_screen input)"
  shows "(\<exists>r. region input spec = Some r
      \<and> (trim spec \<notin> {''osc_title'', ''osc_progress''} \<longrightarrow> sublist r (di_screen input)))
    \<and> (trim spec = ''osc_title'' \<longrightarrow> region input spec = Some (di_osc_title input))
    \<and> (trim spec = ''osc_progress'' \<longrightarrow> region input spec = Some (di_osc_progress input))"
  using region_safe [OF assms, of spec] by (auto simp: region_def Let_def)

definition sample_screen :: rstr where
  "sample_screen = ''a'' @ [lf] @ '' '' @ [lf] @ ''b'' @ [lf] @ map char_of [0xE2, 0x82, 0xAC :: nat] @ [lf] @ ''d''"

definition sample_input :: detection_input where
  "sample_input = \<lparr>di_screen = sample_screen, di_osc_title = ''t'', di_osc_progress = []\<rparr>"

lemma sample_plain: "plain_screen sample_screen"
  by code_simp

theorem regions_never_panic_witness:
  "\<exists>r. region sample_input ''bottom_lines(2)'' = Some r \<and> sublist r (di_screen sample_input)"
proof -
  have "trim ''bottom_lines(2)'' = ''bottom_lines(2)''" by (rule trim_plain) (simp add: plain_def byte_def)
  then show ?thesis using regions_never_panic [of sample_input "''bottom_lines(2)''"] by (simp add: sample_input_def sample_plain)
qed

text \<open>The region of the last \<open>count\<close> non-empty lines holds exactly those: it starts at the
  line of the \<open>count\<close>-th last of them, and its non-empty lines are the last \<open>count\<close> non-empty lines of the
  screen, all of them when there are fewer.\<close>

theorem bottom_non_empty_region_exact:
  assumes "plain_screen s"
  shows "\<exists>r. bottom_non_empty_lines s count = Some r \<and> line_block s r
    \<and> filter (\<lambda>line. \<not> blank line) (str_lines r)
      = drop (length (filter (\<lambda>line. \<not> blank line) (str_lines s)) - count) (filter (\<lambda>line. \<not> blank line) (str_lines s))"
  using assms by (rule bottom_non_empty_exact)

theorem bottom_non_empty_region_exact_witness:
  "\<exists>r. bottom_non_empty_lines sample_screen 3 = Some r \<and> line_block sample_screen r
    \<and> filter (\<lambda>line. \<not> blank line) (str_lines r)
      = drop (length (filter (\<lambda>line. \<not> blank line) (str_lines sample_screen)) - 3)
          (filter (\<lambda>line. \<not> blank line) (str_lines sample_screen))"
  by (rule bottom_non_empty_region_exact [OF sample_plain])







subsection \<open>Reading a manifest\<close>

text \<open>Property C22. A manifest that was read and validated is within every limit: at most 128 rules, 512 gates and
  1024 matchers in all, and in each gate at any depth, which is at most 8, at most 32 matchers of at most 512 characters,
  each pattern of which is a valid regular expression. So it always compiles, to as many gates as it has
  rules.\<close>

theorem parsed_manifest_compiles:
  assumes "parse_manifest env content = Inr manifest"
  shows "length (am_rules manifest) \<in> {1..128}
    \<and> sum_list (map (gate_count \<circ> manifest_gate_from_rule) (am_rules manifest)) \<le> 512
    \<and> sum_list (map (matcher_count \<circ> manifest_gate_from_rule) (am_rules manifest)) \<le> 1024
    \<and> list_all (\<lambda>rule. gate_within (me_regex env) 0 (manifest_gate_from_rule rule)) (am_rules manifest)
    \<and> (\<exists>gates. compile_manifest (me_regex env) (me_lower env) manifest = Inr gates
        \<and> length gates = length (am_rules manifest))"
proof -
  have ok: "manifest_ok (me_regex env) manifest" using assms by (rule parsed_manifest_ok)
  obtain gates where g: "compile_manifest (me_regex env) (me_lower env) manifest = Inr gates" using ok_compiles [OF ok] by blast
  then have "length gates = length (am_rules manifest)" unfolding compile_manifest_def using collect_results_length by blast
  then show ?thesis using ok g
    by (auto simp: manifest_ok_def rule_ok_def list_all_iff max_rules_per_manifest_def max_total_gates_def
        max_total_matchers_def Suc_le_eq)
qed

definition sample_rule :: "rstr \<Rightarrow> manifest_state \<Rightarrow> int \<Rightarrow> rstr \<Rightarrow> manifest_rule" where
  "sample_rule rule_id state priority needle =
     \<lparr>mr_id = rule_id, mr_state = Some state, mr_priority = priority, mr_region = ''whole_recent'',
      mr_visible_idle = False, mr_visible_blocker = (state = MBlocked), mr_visible_working = False,
      mr_skip_state_update = (state = MUnknown), mr_all = [], mr_any = [], mr_not = [],
      mr_contains = [needle], mr_regex = [], mr_line_regex = []\<rparr>"

definition sample_manifest :: agent_manifest where
  "sample_manifest = \<lparr>am_id = ''pi'', am_version = Some ''1.2'', am_min_engine_version = Some 1, am_updated_at = None,
     am_aliases = [],
     am_rules = [sample_rule ''work'' MWorking 1 ''a'', sample_rule ''ask'' MBlocked 5 ''b'', sample_rule ''late'' MIdle 5 ''d'']\<rparr>"

text \<open>Every file holds the sample manifest; a pattern matches the text equal to it.\<close>

definition sample_env :: manifest_env where
  "sample_env = \<lparr>me_toml = (\<lambda>content. Inr sample_manifest), me_regex = (\<lambda>p. Inr (\<lambda>t. t = p)), me_lower = (\<lambda>t. t),
     me_bundled = (\<lambda>label. []), me_files = (\<lambda>path. None), me_override_path = (\<lambda>a. ''o''),
     me_remote_path = (\<lambda>a. ''r''), me_update_status = (\<lambda>a. None)\<rparr>"

lemma sample_parses: "parse_manifest sample_env content = Inr sample_manifest"
proof -
  have t: "trim s = s" if "plain s" for s using that by (rule trim_plain)
  have "validate_manifest (me_regex sample_env) sample_manifest = Inr ()"
    by (simp add: validate_manifest_def sample_manifest_def validate_rule_def sample_rule_def validate_rule_gate_def
        sample_env_def t plain_def byte_def validate_region_name_def fixed_regions_def Let_def manifest_gate_from_rule_def
        enter_gate_def validate_matcher_limits_def gate_has_positive_matcher_def ok_unless_def no_complexity_def
        max_rules_per_manifest_def max_gate_depth_def max_total_gates_def max_matchers_per_gate_def max_total_matchers_def
        max_matcher_chars_def utf8_tail_def)
  then show ?thesis by (simp add: parse_manifest_def sample_env_def)
qed

theorem parsed_manifest_compiles_witness:
  "length (am_rules sample_manifest) \<in> {1..128}
    \<and> sum_list (map (gate_count \<circ> manifest_gate_from_rule) (am_rules sample_manifest)) \<le> 512
    \<and> sum_list (map (matcher_count \<circ> manifest_gate_from_rule) (am_rules sample_manifest)) \<le> 1024
    \<and> list_all (\<lambda>rule. gate_within (me_regex sample_env) 0 (manifest_gate_from_rule rule)) (am_rules sample_manifest)
    \<and> (\<exists>gates. compile_manifest (me_regex sample_env) (me_lower sample_env) sample_manifest = Inr gates
        \<and> length gates = length (am_rules sample_manifest))"
  by (rule parsed_manifest_compiles [OF sample_parses])

subsection \<open>Choosing the copy\<close>

definition override_choice :: "manifest_env \<Rightarrow> agent \<Rightarrow> agent_manifest option" where
  "override_choice env agent =
     (case me_files env (me_override_path env agent) of
        Some (Inr content) \<Rightarrow>
          (case parse_manifest env content of
             Inr manifest \<Rightarrow> if manifest_matches_agent manifest agent then Some manifest else None
           | Inl _ \<Rightarrow> None)
      | _ \<Rightarrow> None)"

definition remote_choice :: "manifest_env \<Rightarrow> agent \<Rightarrow> agent_manifest \<Rightarrow> (agent_manifest \<times> manifest_version) option" where
  "remote_choice env agent bundled =
     (case me_files env (me_remote_path env agent) of
        Some (Inr content) \<Rightarrow>
          (case parse_remote_manifest_for_agent env agent content of
             Inr (manifest, version) \<Rightarrow>
               (case am_version bundled of
                  Some v \<Rightarrow> if version_cmp version v = OrderingLess then None else Some (manifest, version)
                | None \<Rightarrow> Some (manifest, version))
           | Inl _ \<Rightarrow> None)
      | _ \<Rightarrow> None)"

definition chosen_manifest :: "manifest_env \<Rightarrow> agent \<Rightarrow> agent_manifest \<Rightarrow> agent_manifest \<times> manifest_source" where
  "chosen_manifest env agent bundled =
     (case override_choice env agent of
        Some manifest \<Rightarrow> (manifest, OverrideSource (me_override_path env agent))
      | None \<Rightarrow> (case remote_choice env agent bundled of
          Some (manifest, version) \<Rightarrow> (manifest, RemoteSource (me_remote_path env agent) version)
        | None \<Rightarrow> (bundled, BundledSource)))"

lemma parse_remote_facts:
  assumes "parse_remote_manifest_for_agent env agent content = Inr (manifest, version)"
  shows "parse_manifest env content = Inr manifest \<and> am_version manifest = Some version \<and> manifest_matches_agent manifest agent"
  using assms by (auto simp: parse_remote_manifest_for_agent_def split: sum.splits if_splits option.splits)

lemma bundled_loads:
  assumes "manifest_ok (me_regex env) bundled"
  shows "\<exists>l. bundled_loaded_manifest env bundled warning cached shadowing = Some l \<and> loaded_ok env l
    \<and> lm_source l = BundledSource \<and> lm_manifest l = bundled \<and> lm_warning l = warning"
  using load_compiled_ok [OF assms, of BundledSource warning cached shadowing] assms
  by (auto simp: bundled_loaded_manifest_def loaded_ok_def)

lemma remote_loads:
  assumes "manifest_ok (me_regex env) bundled"
  shows "\<exists>remote. read_remote_manifest env agent bundled = Some remote
    \<and> (case remote of
         None \<Rightarrow> me_files env (me_remote_path env agent) = None \<and> remote_choice env agent bundled = None
       | Some l \<Rightarrow> loaded_ok env l
           \<and> (case remote_choice env agent bundled of
                Some (manifest, version) \<Rightarrow> lm_source l = RemoteSource (me_remote_path env agent) version \<and> lm_manifest l = manifest
              | None \<Rightarrow> lm_source l = BundledSource \<and> lm_manifest l = bundled \<and> lm_warning l \<noteq> None))"
proof -
  let ?path = "me_remote_path env agent"
  note b = bundled_loads [OF assms]
  consider "me_files env ?path = None" | err where "me_files env ?path = Some (Inl err)"
    | content err where "me_files env ?path = Some (Inr content)" "parse_remote_manifest_for_agent env agent content = Inl err"
    | content manifest version where "me_files env ?path = Some (Inr content)"
        "parse_remote_manifest_for_agent env agent content = Inr (manifest, version)"
    by (metis option.exhaust sum.exhaust prod.exhaust)
  then show ?thesis
  proof cases
    case 1
    then show ?thesis by (simp add: read_remote_manifest_def remote_choice_def Let_def)
  next
    case (2 err)
    then show ?thesis using b [of "Some (RemoteNotLoaded ?path (ReadError err))" None False]
      by (auto simp: read_remote_manifest_def remote_choice_def Let_def)
  next
    case (3 content err)
    then show ?thesis using b [of "Some (RemoteNotLoaded ?path err)" None False]
      by (auto simp: read_remote_manifest_def remote_choice_def Let_def)
  next
    case (4 content manifest version)
    note f = parse_remote_facts [OF 4(2)]
    have ok: "manifest_ok (me_regex env) manifest" using f parsed_manifest_ok by blast
    show ?thesis
    proof (cases "\<exists>v. am_version bundled = Some v \<and> version_cmp version v = OrderingLess")
      case True
      then obtain v where v: "am_version bundled = Some v" "version_cmp version v = OrderingLess" by blast
      show ?thesis using b [of "Some (RemoteOlderThanBundled ?path version v)" "Some version" False] 4 f v
        by (auto simp: read_remote_manifest_def remote_choice_def Let_def)
    next
      case False
      then show ?thesis using load_compiled_ok [OF ok, of "RemoteSource ?path version" None None False] 4 f ok
        by (auto simp: read_remote_manifest_def remote_choice_def Let_def loaded_ok_def split: option.split)
    qed
  qed
qed

lemma loaded_ok_update [simp]:
  "loaded_ok env (l\<lparr>lm_warning := w\<rparr>) = loaded_ok env l"
  "loaded_ok env (l\<lparr>lm_cached_remote_version := c, lm_local_override_shadowing_remote := b\<rparr>) = loaded_ok env l"
  by (simp_all add: loaded_ok_def)

text \<open>Without the user's file the fetched or the bundled copy is used.\<close>

lemma others_load:
  assumes "manifest_ok (me_regex env) bundled" "read_remote_manifest env agent bundled = Some remote"
  shows "\<exists>l. remote_or_bundled env bundled (map_option (\<lambda>loaded. loaded\<lparr>lm_cached_remote_version := cached,
        lm_local_override_shadowing_remote := shadowing\<rparr>) remote) cached shadowing = Some l
    \<and> loaded_ok env l
    \<and> (lm_manifest l, lm_source l) = (case remote_choice env agent bundled of
         Some (manifest, version) \<Rightarrow> (manifest, RemoteSource (me_remote_path env agent) version)
       | None \<Rightarrow> (bundled, BundledSource))
    \<and> (remote_choice env agent bundled = None \<and> me_files env (me_remote_path env agent) \<noteq> None \<longrightarrow> lm_warning l \<noteq> None)"
proof (cases remote)
  case None
  then show ?thesis using remote_loads [OF assms(1), of agent] assms(2) bundled_loads [OF assms(1), of None cached shadowing]
    by (auto simp: remote_or_bundled_def)
next
  case (Some l)
  then show ?thesis using remote_loads [OF assms(1), of agent] assms(2)
    by (auto simp: remote_or_bundled_def split: option.splits)
qed

lemma loads_chosen:
  assumes "bundled_manifest env agent = Some (Some bundled)"
  shows "\<exists>l. load_manifest_uncached env agent = Some (Some l) \<and> loaded_ok env l
    \<and> (lm_manifest l, lm_source l) = chosen_manifest env agent bundled
    \<and> (override_choice env agent = None \<and> me_files env (me_override_path env agent) \<noteq> None \<longrightarrow> lm_warning l \<noteq> None)
    \<and> (lm_source l = BundledSource \<and> me_files env (me_remote_path env agent) \<noteq> None \<longrightarrow> lm_warning l \<noteq> None)"
proof -
  have ok: "manifest_ok (me_regex env) bundled"
    using assms by (auto simp: bundled_manifest_def intro: parsed_manifest_ok split: if_splits sum.splits)
  obtain remote where r: "read_remote_manifest env agent bundled = Some remote" using remote_loads [OF ok, of agent] by blast
  let ?path = "me_override_path env agent"
  let ?cached = "Option.bind remote cached_version_of"
  let ?shadowing = "me_files env ?path \<noteq> None \<and> Option.bind remote cached_version_of \<noteq> None"
  note o = others_load [OF ok r, where cached = ?cached and shadowing = ?shadowing]
  consider "me_files env ?path = None" | err where "me_files env ?path = Some (Inl err)"
    | content err where "me_files env ?path = Some (Inr content)" "parse_manifest env content = Inl err"
    | content manifest where "me_files env ?path = Some (Inr content)" "parse_manifest env content = Inr manifest"
        "\<not> manifest_matches_agent manifest agent"
    | content manifest where "me_files env ?path = Some (Inr content)" "parse_manifest env content = Inr manifest"
        "manifest_matches_agent manifest agent"
    by (metis option.exhaust sum.exhaust)
  then show ?thesis
  proof cases
    case 1
    then have c: "override_choice env agent = None" by (simp add: override_choice_def)
    show ?thesis using o 1 assms r unfolding load_manifest_uncached_def chosen_manifest_def c
      by (auto simp: Let_def split: option.splits)
  next
    case (2 err)
    then have c: "override_choice env agent = None" by (simp add: override_choice_def)
    show ?thesis using o 2 assms r unfolding load_manifest_uncached_def chosen_manifest_def c
      by (auto simp: Let_def read_override_manifest_def split: option.splits)
  next
    case (3 content err)
    then have c: "override_choice env agent = None" by (simp add: override_choice_def)
    show ?thesis using o 3 assms r unfolding load_manifest_uncached_def chosen_manifest_def c
      by (auto simp: Let_def read_override_manifest_def split: option.splits)
  next
    case (4 content manifest)
    then have c: "override_choice env agent = None" by (simp add: override_choice_def)
    show ?thesis using o 4 assms r unfolding load_manifest_uncached_def chosen_manifest_def c
      by (auto simp: Let_def read_override_manifest_def split: option.splits)
  next
    case (5 content manifest)
    then have c: "override_choice env agent = Some manifest" by (simp add: override_choice_def)
    have m: "manifest_ok (me_regex env) manifest" using 5 parsed_manifest_ok by blast
    show ?thesis using load_compiled_ok [OF m, of "OverrideSource ?path" None ?cached ?shadowing] m 5 assms r
      unfolding load_manifest_uncached_def chosen_manifest_def c
      by (auto simp: Let_def read_override_manifest_def loaded_ok_def)
  qed
qed


lemma sample_bundled: "agent_label agent \<in> set bundled_ids \<Longrightarrow> bundled_manifest sample_env agent = Some (Some sample_manifest)"
  by (simp add: bundled_manifest_def sample_parses)


subsection \<open>The cache\<close>

text \<open>A manifest in the cache was loaded for its agent and is well-formed.\<close>

lemma cache_entries:
  assumes "build_cache_for env agents = Some cache"
  shows "list_all (\<lambda>(agent, loaded). load_manifest_uncached env agent = Some loaded) cache \<and> map fst cache = agents"
  using assms
proof (induction agents arbitrary: cache)
  case (Cons agent agents)
  then show ?case by (auto simp: bind_eq_Some_conv)
qed simp

lemma cached_loaded:
  assumes "build_manifest_cache env = Some cache" "load_manifest cache agent = Some loaded"
  shows "load_manifest_uncached env agent = Some (Some loaded)"
proof -
  have "list_all (\<lambda>(agent, loaded). load_manifest_uncached env agent = Some loaded) cache"
    using cache_entries assms(1) unfolding build_manifest_cache_def by blast
  moreover obtain a where f: "find (\<lambda>(cached_agent, _). cached_agent = agent) cache = Some (a, Some loaded)"
    using assms(2) by (auto simp: load_manifest_def split: option.splits prod.splits)
  have "(a, Some loaded) \<in> set cache" using f by (metis find_Some_iff nth_mem)
  moreover have "a = agent" using f by (metis (mono_tags, lifting) case_prodD find_Some_iff)
  ultimately show ?thesis by (auto simp: list_all_iff)
qed

lemma uncached_ok:
  assumes "load_manifest_uncached env agent = Some (Some loaded)"
  shows "loaded_ok env loaded"
proof -
  obtain bundled where "bundled_manifest env agent = Some (Some bundled)"
    using assms by (auto simp: load_manifest_uncached_def bind_eq_Some_conv split: option.splits)
  from loads_chosen [OF this] assms show ?thesis by auto
qed

subsection \<open>The deciding rule\<close>

lemma evaluate_exact:
  assumes "loaded_ok env loaded" "plain_screen (di_screen input)"
  shows "\<exists>evs. evaluate_rules (me_lower env) input (zip (am_rules (lm_manifest loaded)) (lm_compiled_rules loaded)) None []
        = Some (fold keep_better (filter (rule_applies (me_regex env) (me_lower env) input) (am_rules (lm_manifest loaded))) None, evs)
      \<and> map (\<lambda>e. (ev_id e, ev_matched e)) evs
        = map (\<lambda>r. (mr_id r, rule_applies (me_regex env) (me_lower env) input r)) (am_rules (lm_manifest loaded))"
proof -
  let ?rules = "am_rules (lm_manifest loaded)" and ?gates = "lm_compiled_rules loaded"
  have c: "compile_manifest (me_regex env) (me_lower env) (lm_manifest loaded) = Inr ?gates" using assms(1) by (simp add: loaded_ok_def)
  have len: "length ?rules = length ?gates" using collect_results_length [OF c [unfolded compile_manifest_def]] by simp
  have g: "compile_gate (me_regex env) (me_lower env) (manifest_gate_from_rule (?rules ! i)) = Inr (?gates ! i)"
    if i: "i < length ?rules" for i
  proof -
    have "(case compile_gate (me_regex env) (me_lower env) (manifest_gate_from_rule (?rules ! i)) of
        Inl err \<Rightarrow> Inl (mr_id (?rules ! i), err) | Inr gate \<Rightarrow> Inr gate) = Inr (?gates ! i)"
      using collect_results_length [OF c [unfolded compile_manifest_def]] i by blast
    then show ?thesis by (cases "compile_gate (me_regex env) (me_lower env) (manifest_gate_from_rule (?rules ! i))") simp_all
  qed
  have r: "region input (mr_region rule) \<noteq> None" for rule using region_safe [OF assms(2), of "mr_region rule"] by auto
  show ?thesis using evaluate_rules_exact [OF len g r, of None "[]"] by simp
qed

text \<open>The report of a rule that decides.\<close>

definition decided_by :: "manifest_rule \<Rightarrow> detection_explain \<Rightarrow> bool" where
  "decided_by rule e \<longleftrightarrow> de_state e = rule_state rule
     \<and> de_matched_rule e = Some \<lparr>mt_id = mr_id rule, mt_priority = mr_priority rule, mt_region = mr_region rule, mt_state = rule_state rule\<rparr>
     \<and> de_skip_state_update e = mr_skip_state_update rule \<and> de_fallback_reason e = None
     \<and> de_visible_idle e = (mr_visible_idle rule \<and> rule_state rule = Idle)
     \<and> de_visible_blocker e = (mr_visible_blocker rule \<and> rule_state rule = Blocked)
     \<and> de_visible_working e = (mr_visible_working rule \<and> rule_state rule = Working)"

text \<open>No rule applied: a known agent is idle.\<close>

definition idle_fallback :: "detection_explain \<Rightarrow> bool" where
  "idle_fallback e \<longleftrightarrow> de_state e = Idle \<and> de_matched_rule e = None
     \<and> de_fallback_reason e = Some default_known_agent_idle_fallback
     \<and> \<not> de_skip_state_update e \<and> \<not> de_visible_idle e \<and> \<not> de_visible_blocker e \<and> \<not> de_visible_working e"

text \<open>The earliest of the rules that have the highest priority.\<close>

definition earliest_best :: "manifest_rule list \<Rightarrow> manifest_rule \<Rightarrow> bool" where
  "earliest_best rules rule \<longleftrightarrow> (\<exists>i < length rules. rules ! i = rule
     \<and> (\<forall>j < length rules. mr_priority (rules ! j) \<le> mr_priority rule \<and> (j < i \<longrightarrow> mr_priority (rules ! j) < mr_priority rule)))"

lemma decision:
  assumes "loaded_ok env loaded" "plain_screen (di_screen input)"
  defines "hits \<equiv> filter (rule_applies (me_regex env) (me_lower env) input) (am_rules (lm_manifest loaded))"
  shows "\<exists>e. evaluate_loaded_manifest env agent input loaded status = Some e
    \<and> (if hits = [] then idle_fallback e else \<exists>rule. earliest_best hits rule \<and> decided_by rule e)
    \<and> map (\<lambda>e. (ev_id e, ev_matched e)) (de_evaluated_rules e)
      = map (\<lambda>r. (mr_id r, rule_applies (me_regex env) (me_lower env) input r)) (am_rules (lm_manifest loaded))"
proof -
  obtain evs where e: "evaluate_rules (me_lower env) input (zip (am_rules (lm_manifest loaded)) (lm_compiled_rules loaded)) None []
        = Some (fold keep_better hits None, evs)"
      and m: "map (\<lambda>e. (ev_id e, ev_matched e)) evs
        = map (\<lambda>r. (mr_id r, rule_applies (me_regex env) (me_lower env) input r)) (am_rules (lm_manifest loaded))"
    using evaluate_exact [OF assms(1, 2)] unfolding hits_def by blast
  show ?thesis
  proof (cases "hits = []")
    case True
    then show ?thesis using m
      by (simp add: evaluate_loaded_manifest_def e fallback_explain_def Let_def idle_fallback_def)
  next
    case False
    then obtain rule r where f: "fold keep_better hits None = Some (rule, r)" using fold_keep_better_None by fastforce
    from keep_better_all [OF f] have b: "r = mr_region rule" "earliest_best hits rule" unfolding earliest_best_def by blast+
    have "evaluate_loaded_manifest env agent input loaded status = Some (explain_match env agent loaded rule r evs status)"
      by (simp add: evaluate_loaded_manifest_def e f)
    moreover have "decided_by rule (explain_match env agent loaded rule r evs status)"
      by (simp add: decided_by_def explain_match_def Let_def b)
    moreover have "de_evaluated_rules (explain_match env agent loaded rule r evs status) = evs"
      by (simp add: explain_match_def Let_def)
    ultimately show ?thesis using False b(2) m by auto
  qed
qed

text \<open>Property C9. On a screen without carriage returns the evaluation of an agent's manifest never panics,
  and the rule that decides is the earliest among those of the highest priority whose gate holds in their
  region, read on the manifest itself rather than on the compiled gates: its state is reported, with its
  visible evidence where that fits the state. When no rule applies the agent is idle by default. The report
  lists every rule with whether it applied, and the detection is the report without its explanation.\<close>

theorem best_rule_decides:
  assumes "build_manifest_cache env = Some cache" "load_manifest cache agent = Some loaded" "plain_screen (di_screen input)"
  shows "\<exists>e. explain_with_input env cache agent input = Some e
    \<and> detect_with_osc env cache agent input = Some (into_detection e)
    \<and> (let hits = filter (rule_applies (me_regex env) (me_lower env) input) (am_rules (lm_manifest loaded)) in
        if hits = [] then idle_fallback e else \<exists>rule. earliest_best hits rule \<and> decided_by rule e)
    \<and> map (\<lambda>e. (ev_id e, ev_matched e)) (de_evaluated_rules e)
      = map (\<lambda>r. (mr_id r, rule_applies (me_regex env) (me_lower env) input r)) (am_rules (lm_manifest loaded))"
proof -
  have ok: "loaded_ok env loaded" using cached_loaded [OF assms(1, 2)] uncached_ok by blast
  have "map_option into_detection (evaluate_loaded_manifest env agent input loaded True)
      = map_option into_detection (evaluate_loaded_manifest env agent input loaded False)"
    by (auto simp: evaluate_loaded_manifest_def option.map_comp explain_match_def fallback_explain_def into_detection_def Let_def
        intro!: option.map_cong split: option.split)
  then have "e = evaluate_loaded_manifest env agent input loaded True \<Longrightarrow>
      detect_with_osc env cache agent input = map_option into_detection e" for e
    using assms(2) by (simp add: detect_with_osc_def)
  moreover have "explain_with_input env cache agent input = evaluate_loaded_manifest env agent input loaded True"
    using assms(2) by (simp add: explain_with_input_def)
  ultimately show ?thesis using decision [OF ok assms(3), of agent True] unfolding Let_def by fastforce
qed

lemma cache_builds:
  "(\<And>a. a \<in> set agents \<Longrightarrow> \<exists>b. bundled_manifest env a = Some (Some b)) \<Longrightarrow> \<exists>cache. build_cache_for env agents = Some cache"
proof (induction agents)
  case (Cons agent agents)
  obtain b where b: "bundled_manifest env agent = Some (Some b)" using Cons.prems [of agent] by auto
  from loads_chosen [OF b] obtain l where "load_manifest_uncached env agent = Some (Some l)" by blast
  then show ?case using Cons by auto
qed simp

lemma sample_cache: "\<exists>cache loaded. build_manifest_cache sample_env = Some cache \<and> load_manifest cache Pi = Some loaded"
proof -
  have "list_all (\<lambda>a. agent_label a \<in> set bundled_ids) screen_manifest_agents"
    by (simp add: screen_manifest_agents_def bundled_ids_def)
  then have "\<exists>cache. build_cache_for sample_env screen_manifest_agents = Some cache"
    by (intro cache_builds) (auto simp: list_all_iff intro: sample_bundled)
  then obtain cache where c: "build_cache_for sample_env screen_manifest_agents = Some cache" by blast
  then obtain x rest where r: "cache = (Pi, x) # rest" "load_manifest_uncached sample_env Pi = Some x"
    by (auto simp: screen_manifest_agents_def bind_eq_Some_conv)
  have "bundled_manifest sample_env Pi = Some (Some sample_manifest)" by (rule sample_bundled) (simp add: bundled_ids_def)
  from loads_chosen [OF this] r(2) obtain l where "x = Some l" by auto
  then show ?thesis using c r by (auto simp: build_manifest_cache_def load_manifest_def)
qed

theorem best_rule_decides_witness:
  "\<exists>cache loaded. build_manifest_cache sample_env = Some cache \<and> load_manifest cache Pi = Some loaded
    \<and> plain_screen (di_screen sample_input)
    \<and> (\<exists>e. explain_with_input sample_env cache Pi sample_input = Some e
    \<and> detect_with_osc sample_env cache Pi sample_input = Some (into_detection e)
    \<and> (let hits = filter (rule_applies (me_regex sample_env) (me_lower sample_env) sample_input) (am_rules (lm_manifest loaded)) in
        if hits = [] then idle_fallback e else \<exists>rule. earliest_best hits rule \<and> decided_by rule e)
    \<and> map (\<lambda>e. (ev_id e, ev_matched e)) (de_evaluated_rules e)
      = map (\<lambda>r. (mr_id r, rule_applies (me_regex sample_env) (me_lower sample_env) sample_input r)) (am_rules (lm_manifest loaded)))"
proof -
  obtain cache loaded where c: "build_manifest_cache sample_env = Some cache" "load_manifest cache Pi = Some loaded"
    using sample_cache by blast
  have p: "plain_screen (di_screen sample_input)" by (simp add: sample_input_def sample_plain)
  show ?thesis using best_rule_decides [OF c p] c p by blast
qed

lemma matched_rule_listed:
  "evaluate_rules lower input rs matched done_rules = Some (Some (rule, name), evs) \<Longrightarrow>
     rule \<in> set (map fst rs) \<or> (\<exists>n. matched = Some (rule, n))"
proof (induction rs arbitrary: matched done_rules)
  case (Cons x rest)
  obtain r gate where x: "x = (r, gate)" by fastforce
  obtain t where t: "region input (mr_region r) = Some t" and e: "evaluate_rules lower input rest
      (if compiled_rule_matches lower gate t then keep_better r matched else matched)
      (done_rules @ [evaluated r t (compiled_rule_matches lower gate t)]) = Some (Some (rule, name), evs)"
    using Cons.prems by (auto simp: x bind_eq_Some_conv Let_def)
  have "keep_better r matched = Some (rule, n) \<Longrightarrow> rule = r \<or> matched = Some (rule, n)" for n
    by (auto simp: keep_better_def split: option.splits if_splits prod.splits)
  then show ?case using Cons.IH [OF e] by (auto simp: x split: if_splits)
qed simp

text \<open>Property C23. Whatever the screen, a detection is consistent: the visible evidence for a state comes only with
  that state, so at most one of the three flags is set, a detection that leaves the published state alone reports the
  unknown state without evidence, and without a known agent the state is unknown.\<close>

theorem detection_evidence_fits_state:
  assumes "build_manifest_cache env = Some cache"
    and "detect_agent_with_osc env cache agent screen title progress = Some d"
  shows "(ad_visible_idle d \<longrightarrow> ad_state d = Idle) \<and> (ad_visible_blocker d \<longrightarrow> ad_state d = Blocked)
    \<and> (ad_visible_working d \<longrightarrow> ad_state d = Working)
    \<and> (ad_skip_state_update d \<longrightarrow> ad_state d = Unknown)
    \<and> (agent = None \<longrightarrow> ad_state d = Unknown \<and> \<not> ad_skip_state_update d)"
proof (cases agent)
  case None
  then show ?thesis using assms(2) by (auto simp: detect_agent_with_osc_def)
next
  case (Some a)
  show ?thesis
  proof (cases "load_manifest cache a")
    case None
    then show ?thesis using assms(2) Some
      by (auto simp: detect_agent_with_osc_def detect_with_osc_def fallback_explain_def into_detection_def Let_def)
  next
    case (Some loaded)
    then have ok: "manifest_ok (me_regex env) (lm_manifest loaded)"
      using cached_loaded [OF assms(1)] uncached_ok unfolding loaded_ok_def by blast
    obtain input e where e: "evaluate_loaded_manifest env a input loaded False = Some e" "d = into_detection e"
      using assms(2) Some \<open>agent = Some a\<close> by (auto simp: detect_agent_with_osc_def detect_with_osc_def)
    then obtain matched evs where m: "evaluate_rules (me_lower env) input
          (zip (am_rules (lm_manifest loaded)) (lm_compiled_rules loaded)) None [] = Some (matched, evs)"
      by (auto simp: evaluate_loaded_manifest_def)
    show ?thesis
    proof (cases matched)
      case None
      then show ?thesis using e m \<open>agent = Some a\<close>
        by (auto simp: evaluate_loaded_manifest_def fallback_explain_def into_detection_def Let_def)
    next
      case (Some p)
      obtain rule name where p: "p = (rule, name)" by fastforce
      have "rule \<in> set (am_rules (lm_manifest loaded))"
        using matched_rule_listed m unfolding Some p by (fastforce dest: set_zip_leftD)
      then have "rule_ok (me_regex env) rule" using ok by (auto simp: manifest_ok_def list_all_iff)
      then show ?thesis using e m \<open>agent = Some a\<close> unfolding Some p
        by (auto simp: evaluate_loaded_manifest_def explain_match_def into_detection_def Let_def rule_ok_def rule_state_def)
    qed
  qed
qed

theorem detection_evidence_fits_state_witness:
  "\<exists>cache d. build_manifest_cache sample_env = Some cache
    \<and> detect_agent_with_osc sample_env cache (Some Pi) sample_screen ''t'' [] = Some d
    \<and> \<not> (ad_visible_idle d \<and> ad_state d \<noteq> Idle) \<and> \<not> (ad_visible_blocker d \<and> ad_state d \<noteq> Blocked)
    \<and> \<not> (ad_visible_working d \<and> ad_state d \<noteq> Working) \<and> \<not> (ad_skip_state_update d \<and> ad_state d \<noteq> Unknown)"
proof -
  obtain cache loaded where c: "build_manifest_cache sample_env = Some cache" "load_manifest cache Pi = Some loaded"
    using sample_cache by blast
  have "loaded_ok sample_env loaded" using cached_loaded [OF c] uncached_ok by blast
  moreover have "plain_screen (di_screen sample_input)" by (simp add: sample_input_def sample_plain)
  ultimately obtain e where "evaluate_loaded_manifest sample_env Pi sample_input loaded False = Some e" using decision by blast
  then have d: "detect_agent_with_osc sample_env cache (Some Pi) sample_screen ''t'' [] = Some (into_detection e)"
    using c by (simp add: detect_agent_with_osc_def detect_with_osc_def sample_input_def)
  show ?thesis using detection_evidence_fits_state [OF c(1) d] c(1) d by blast
qed

subsection \<open>Versions\<close>

text \<open>Property C33. Versions are compared as sequences of numbers, a missing number being zero: the first
  place where they differ decides, and versions without one are equal, so \<open>1.2\<close> equals \<open>1.2.0\<close>. The
  comparison is antisymmetric and transitive, which Rust's \<open>Ord\<close> demands.\<close>

theorem versions_compare_as_numbers:
  "(version_cmp l r = OrderingLess \<longleftrightarrow>
      (\<exists>i. version_number l i < version_number r i \<and> (\<forall>j < i. version_number l j = version_number r j)))
   \<and> (version_cmp l r = OrderingEqual \<longleftrightarrow> (\<forall>i. version_number l i = version_number r i))
   \<and> (version_cmp l r = OrderingGreater \<longleftrightarrow> version_cmp r l = OrderingLess)
   \<and> (version_cmp l m \<noteq> OrderingGreater \<and> version_cmp m r \<noteq> OrderingGreater \<longrightarrow> version_cmp l r \<noteq> OrderingGreater)"
  using version_cmp_exact [of l r] version_cmp_swap [of r l] version_not_less_trans [of m l r]
    version_cmp_swap [of m l] version_cmp_swap [of r m]
  unfolding first_less_def fun_eq_iff by blast

theorem versions_compare_as_numbers_witness:
  "version_cmp ''1'' ''2'' = OrderingLess \<and> version_cmp ''2'' ''2.0'' = OrderingEqual \<and> version_cmp ''1'' ''2.0'' \<noteq> OrderingGreater"
proof -
  have n: "segment_number ''0'' = 0" "segment_number ''1'' = 1" "segment_number ''2'' = 2"
    by (simp_all add: segment_number_def parse_unsigned_def strip_prefix_def is_digit_def digits_value_def byte_def)
  have v: "version_cmp ''1'' ''2'' = OrderingLess" "version_cmp ''2'' ''2.0'' = OrderingEqual"
    by (simp_all add: version_cmp_def dot_segments_def number_cmp_def n)
  then have "version_cmp ''1'' ''2'' \<noteq> OrderingGreater \<and> version_cmp ''2'' ''2.0'' \<noteq> OrderingGreater" by simp
  then have "version_cmp ''1'' ''2.0'' \<noteq> OrderingGreater"
    using versions_compare_as_numbers [of "''1''" "''2.0''" "''2''"] by blast
  then show ?thesis using v by blast
qed

end
