(* ===== verification/ManifestUpdate.thy ===== *)
theory ManifestUpdate
  imports ManifestProps
begin

section \<open>Updating the fetched manifests\<close>

text \<open>
  \<open>src/src/detect/manifest_update.rs\<close>: the catalog, the comparison of a fetched manifest with the one on
  disk and the update of all agents with its status. What lies outside is the record \<open>update_host\<close>: the TOML
  parser of the catalog, the answers of \<open>curl\<close> by URL, the result of writing a file (\<open>atomic_write\<close> renames
  a finished file over the old one, so a failed write leaves the old text), the saved status, the result
  of saving it, and the clock. The files are those of \<open>manifest_env\<close>, and a step returns the environment
  with the files it wrote.
\<close>

record catalog_entry =
  ce_id :: rstr
  ce_path :: rstr

record manifest_catalog =
  mc_schema_version :: u32
  mc_agents :: "catalog_entry list"

datatype catalog_error =
    CatalogNotFetched rstr
  | CatalogToml rstr
  | UnsupportedSchema u32
  | EmptyCatalogPath rstr
  | UnsafeCatalogPath rstr rstr
  | DuplicateCatalogAgent rstr
  | NoBasePath rstr
  | UnsafeManifestPath rstr

datatype update_error =
    ManifestNotFetched rstr
  | ManifestRefused load_error
  | OlderThanCached manifest_version manifest_version
  | ChangedWithoutBump manifest_version
  | CommitFailed rstr

record agent_remote_status =
  rs_cached_version :: "manifest_version option"
  rs_attempted_version :: "manifest_version option"
  rs_last_checked_unix :: "u64 option"
  rs_last_result :: rstr
  rs_last_error :: "update_error option"

datatype check_result = Checked | CheckFailed catalog_error | SaveFailed rstr

record update_status =
  us_last_check_unix :: "u64 option"
  us_last_result :: "check_result option"
  us_agents :: "rstr \<rightharpoonup> agent_remote_status"

record update_host =
  uh_catalog_toml :: "rstr \<Rightarrow> rstr + manifest_catalog"
  uh_fetch :: "rstr \<Rightarrow> rstr + rstr"
  uh_commit :: "rstr \<Rightarrow> rstr \<Rightarrow> rstr option"
  uh_status :: update_status
  uh_save_status :: "update_status \<Rightarrow> rstr option"
  uh_now :: u64

type_synonym update_commit = "agent \<times> manifest_version"

subsection \<open>The catalog\<close>

definition unsafe_path :: "rstr \<Rightarrow> bool" where
  "unsafe_path path \<longleftrightarrow> sublist ''://'' path \<or> prefix ''/'' path
     \<or> list_ex (\<lambda>part. part = ''..'') (split_on (\<lambda>c. c = CHR ''/'') path)"

fun catalog_agents :: "catalog_entry list \<Rightarrow> agent list \<Rightarrow> (agent \<times> rstr) list \<Rightarrow> catalog_error + (agent \<times> rstr) list" where
  "catalog_agents [] seen agents = Inr agents"
| "catalog_agents (entry # rest) seen agents =
     (case parse_agent_label (ce_id entry) of
        None \<Rightarrow> catalog_agents rest seen agents
      | Some agent \<Rightarrow>
          (if trim (ce_path entry) = [] then Inl (EmptyCatalogPath (ce_id entry))
           else if unsafe_path (ce_path entry) then Inl (UnsafeCatalogPath (ce_id entry) (ce_path entry))
           else if agent \<in> set seen then Inl (DuplicateCatalogAgent (ce_id entry))
           else catalog_agents rest (agent # seen) (agents @ [(agent, ce_path entry)])))"

definition parse_catalog :: "update_host \<Rightarrow> rstr \<Rightarrow> catalog_error + (agent \<times> rstr) list" where
  "parse_catalog host content =
     (case uh_catalog_toml host content of
        Inl err \<Rightarrow> Inl (CatalogToml err)
      | Inr catalog \<Rightarrow>
          (if mc_schema_version catalog \<noteq> 1 then Inl (UnsupportedSchema (mc_schema_version catalog))
           else catalog_agents (mc_agents catalog) [] []))"

definition base_url :: "rstr \<Rightarrow> catalog_error + rstr" where
  "base_url url =
     (if CHR ''/'' \<notin> set url then Inl (NoBasePath url)
      else Inr (butlast (drop_end_while (\<lambda>c. c \<noteq> CHR ''/'') url)))"

definition join_url :: "rstr \<Rightarrow> rstr \<Rightarrow> catalog_error + rstr" where
  "join_url base path =
     (if unsafe_path path then Inl (UnsafeManifestPath path)
      else Inr (drop_end_while (\<lambda>c. c = CHR ''/'') base @ ''/'' @ path))"

subsection \<open>One manifest\<close>

definition cached_remote_version :: "manifest_env \<Rightarrow> agent \<Rightarrow> manifest_version option" where
  "cached_remote_version env agent =
     (case me_files env (me_remote_path env agent) of
        Some (Inr content) \<Rightarrow>
          (case parse_remote_manifest_for_agent env agent content of Inr (_, version) \<Rightarrow> Some version | Inl _ \<Rightarrow> None)
      | _ \<Rightarrow> None)"

definition commit_remote_manifest :: "update_host \<Rightarrow> manifest_env \<Rightarrow> agent \<Rightarrow> rstr \<Rightarrow> manifest_env \<times> rstr option" where
  "commit_remote_manifest host env agent content =
     (case uh_commit host (me_remote_path env agent) content of
        Some err \<Rightarrow> (env, Some err)
      | None \<Rightarrow> (env\<lparr>me_files := (me_files env)(me_remote_path env agent \<mapsto> Inr content)\<rparr>, None))"

definition process_agent_manifest ::
    "update_host \<Rightarrow> manifest_env \<Rightarrow> agent \<Rightarrow> rstr \<Rightarrow> manifest_env \<times> (update_error + update_commit option)" where
  "process_agent_manifest host env agent content =
     (case parse_remote_manifest_for_agent env agent content of
        Inl err \<Rightarrow> (env, Inl (ManifestRefused err))
      | Inr (_, version) \<Rightarrow>
          (let store = (case commit_remote_manifest host env agent content of
               (env', Some err) \<Rightarrow> (env', Inl (CommitFailed err))
             | (env', None) \<Rightarrow> (env', Inr (Some (agent, version))))
           in case cached_remote_version env agent of
                None \<Rightarrow> store
              | Some current \<Rightarrow>
                  (case version_cmp version current of
                     OrderingLess \<Rightarrow> (env, Inl (OlderThanCached version current))
                   | OrderingEqual \<Rightarrow>
                       (let committed = (case me_files env (me_remote_path env agent) of Some (Inr text) \<Rightarrow> text | _ \<Rightarrow> [])
                        in if committed \<noteq> content then (env, Inl (ChangedWithoutBump version)) else (env, Inr None))
                   | OrderingGreater \<Rightarrow> store)))"

subsection \<open>All agents\<close>

definition remote_status :: "update_host \<Rightarrow> manifest_env \<Rightarrow> agent \<Rightarrow> update_error + update_commit option \<Rightarrow> agent_remote_status" where
  "remote_status host env agent outcome =
     (case outcome of
        Inr (Some (_, version)) \<Rightarrow>
          \<lparr>rs_cached_version = Some version, rs_attempted_version = Some version, rs_last_checked_unix = Some (uh_now host),
           rs_last_result = ''updated'', rs_last_error = None\<rparr>
      | Inr None \<Rightarrow>
          \<lparr>rs_cached_version = cached_remote_version env agent, rs_attempted_version = None,
           rs_last_checked_unix = Some (uh_now host), rs_last_result = ''current'', rs_last_error = None\<rparr>
      | Inl err \<Rightarrow>
          \<lparr>rs_cached_version = cached_remote_version env agent, rs_attempted_version = None,
           rs_last_checked_unix = Some (uh_now host), rs_last_result = ''failed'', rs_last_error = Some err\<rparr>)"

definition update_entry :: "update_host \<Rightarrow> manifest_env \<Rightarrow> agent \<Rightarrow> rstr \<Rightarrow> manifest_env \<times> (update_error + update_commit option)" where
  "update_entry host env agent url =
     (case uh_fetch host url of
        Inl err \<Rightarrow> (env, Inl (ManifestNotFetched err))
      | Inr content \<Rightarrow> process_agent_manifest host env agent content)"

fun update_entries :: "update_host \<Rightarrow> rstr \<Rightarrow> (agent \<times> rstr) list \<Rightarrow> manifest_env \<Rightarrow> update_status \<Rightarrow> update_commit list
    \<Rightarrow> manifest_env \<times> (catalog_error + (update_status \<times> update_commit list))" where
  "update_entries host base [] env status updated = (env, Inr (status, updated))"
| "update_entries host base ((agent, path) # rest) env status updated =
     (case join_url base path of
        Inl err \<Rightarrow> (env, Inl err)
      | Inr url \<Rightarrow>
          (let (env', outcome) = update_entry host env agent url;
               status' = status\<lparr>us_agents := (us_agents status)(agent_label agent \<mapsto> remote_status host env' agent outcome)\<rparr>;
               updated' = (case outcome of Inr (Some commit) \<Rightarrow> updated @ [commit] | _ \<Rightarrow> updated)
           in update_entries host base rest env' status' updated'))"

definition check_and_update_from_url ::
    "update_host \<Rightarrow> rstr \<Rightarrow> manifest_env \<Rightarrow> manifest_env \<times> (catalog_error + (update_status \<times> update_commit list))" where
  "check_and_update_from_url host url env =
     (case uh_fetch host url of
        Inl err \<Rightarrow> (env, Inl (CatalogNotFetched err))
      | Inr content \<Rightarrow>
          (case parse_catalog host content of
             Inl err \<Rightarrow> (env, Inl err)
           | Inr catalog \<Rightarrow>
               (case base_url url of
                  Inl err \<Rightarrow> (env, Inl err)
                | Inr base \<Rightarrow>
                    (let status = (uh_status host)\<lparr>us_last_check_unix := Some (uh_now host), us_last_result := Some Checked\<rparr>
                     in case update_entries host base catalog env status [] of
                          (env', Inl err) \<Rightarrow> (env', Inl err)
                        | (env', Inr (status', updated)) \<Rightarrow>
                            (env', Inr (case uh_save_status host status' of
                               Some err \<Rightarrow> (status'\<lparr>us_last_result := Some (SaveFailed err)\<rparr>, updated)
                             | None \<Rightarrow> (status', updated)))))))"

text \<open>The background task: manifests are loaded anew when one changed. The result holds the new cache, the outer
  option being a panic while loading, and the event sent to the application.\<close>

definition auto_update :: "update_host \<Rightarrow> rstr \<Rightarrow> manifest_env \<Rightarrow> manifest_cache
    \<Rightarrow> manifest_env \<times> (manifest_cache \<times> update_commit list \<times> update_status) option" where
  "auto_update host url env cache =
     (case check_and_update_from_url host url env of
        (env', Inr (status, updated)) \<Rightarrow>
          (env', if updated = [] then Some (cache, updated, status)
                 else map_option (\<lambda>(cache', _). (cache', updated, status)) (reload_manifests env'))
      | (env', Inl err) \<Rightarrow>
          (env', Some (cache, [], (uh_status host)\<lparr>us_last_check_unix := Some (uh_now host), us_last_result := Some (CheckFailed err)\<rparr>)))"

subsection \<open>Lemmas\<close>



















subsection \<open>Properties\<close>






end
