(* ===== verification/PaneDetection.thy ===== *)
theory PaneDetection
  imports ManifestProps
begin

section \<open>From detections to published states\<close>

text \<open>
  \<open>src/src/pane/agent_detection.rs\<close>: what the detection task of a pane does with one scan of the screen.
  A change from working to plain idle is held back until further scans confirm it, everything else is
  published at once when it changes something, and a blocker that stays visible is published again from
  time to time. Instants are nanoseconds of one monotonic clock, so \<open>duration_since\<close> is subtraction of
  natural numbers, which saturates as the code's does.
\<close>

definition agent_pending_idle_confirmations :: u8 where "agent_pending_idle_confirmations = 3"
definition agent_pending_idle_cap :: duration where "agent_pending_idle_cap = 700000000"
definition stable_visible_signal_refresh :: duration where "stable_visible_signal_refresh = 800000000"

record detection_publish_state =
  dp_state :: agent_state
  dp_visible_idle :: bool
  dp_visible_blocker :: bool
  dp_visible_working :: bool

record pending_idle_confirmation =
  pi_started_at :: "instant option"
  pi_confirmations :: u8

definition pending_idle_active :: "pending_idle_confirmation \<Rightarrow> bool" where
  "pending_idle_active p \<longleftrightarrow> pi_started_at p \<noteq> None"

definition pending_idle_clear :: "pending_idle_confirmation \<Rightarrow> pending_idle_confirmation" where
  "pending_idle_clear p = p\<lparr>pi_started_at := None, pi_confirmations := 0\<rparr>"

definition working_to_plain_idle :: "detection_publish_state \<Rightarrow> detection_publish_state \<Rightarrow> bool \<Rightarrow> bool \<Rightarrow> bool" where
  "working_to_plain_idle previous next agent_changed process_exited \<longleftrightarrow>
     dp_state previous = Working \<and> dp_state next = Idle
     \<and> \<not> dp_visible_idle next \<and> \<not> dp_visible_blocker next \<and> \<not> agent_changed \<and> \<not> process_exited"

definition should_hold_working_to_idle ::
    "pending_idle_confirmation \<Rightarrow> detection_publish_state \<Rightarrow> detection_publish_state \<Rightarrow> bool \<Rightarrow> bool \<Rightarrow> instant
     \<Rightarrow> pending_idle_confirmation \<times> bool" where
  "should_hold_working_to_idle p previous next agent_changed process_exited now =
     (if \<not> working_to_plain_idle previous next agent_changed process_exited then (pending_idle_clear p, False)
      else case pi_started_at p of
        None \<Rightarrow> (p\<lparr>pi_started_at := Some now, pi_confirmations := 0\<rparr>, True)
      | Some started_at \<Rightarrow>
          (if agent_pending_idle_cap \<le> now - started_at then (pending_idle_clear p, False)
           else let p' = p\<lparr>pi_confirmations := saturating_add (pi_confirmations p) 1\<rparr>
                in if agent_pending_idle_confirmations \<le> pi_confirmations p' then (pending_idle_clear p', False)
                   else (p', True)))"

record screen_read_input =
  sr_state :: agent_state
  sr_agent :: "agent option"
  sr_pending_idle_active :: bool
  sr_agent_changed :: bool
  sr_process_exited :: bool
  sr_current_content_seq :: "u64 option"
  sr_last_scan_content_seq :: "u64 option"

definition should_skip_idle_screen_scan :: "screen_read_input \<Rightarrow> bool" where
  "should_skip_idle_screen_scan i \<longleftrightarrow>
     (if sr_state i \<noteq> Idle \<or> sr_agent i = None \<or> sr_pending_idle_active i \<or> sr_agent_changed i \<or> sr_process_exited i
      then False
      else sr_current_content_seq i \<noteq> None \<and> sr_last_scan_content_seq i = sr_current_content_seq i)"

datatype screen_read_decision = ReadScreen | SkipScreen

definition decide_detection_screen_read :: "screen_read_input \<Rightarrow> screen_read_decision" where
  "decide_detection_screen_read i = (if should_skip_idle_screen_scan i then SkipScreen else ReadScreen)"

definition should_publish_detection_update ::
    "detection_publish_state \<Rightarrow> detection_publish_state \<Rightarrow> bool \<Rightarrow> bool \<Rightarrow> bool \<Rightarrow> bool" where
  "should_publish_detection_update previous next agent_changed process_exited refresh_due \<longleftrightarrow>
     dp_state next \<noteq> dp_state previous \<or> dp_visible_idle next \<noteq> dp_visible_idle previous
     \<or> dp_visible_blocker next \<noteq> dp_visible_blocker previous \<or> dp_visible_working next \<noteq> dp_visible_working previous
     \<or> agent_changed \<or> process_exited
     \<or> (refresh_due \<and> dp_visible_blocker next \<and> dp_visible_blocker previous)"

definition stable_visible_signal_refresh_due ::
    "detection_publish_state \<Rightarrow> detection_publish_state \<Rightarrow> instant option \<Rightarrow> instant \<Rightarrow> bool" where
  "stable_visible_signal_refresh_due previous next last_refresh now \<longleftrightarrow>
     (dp_visible_blocker next \<and> dp_visible_blocker previous)
     \<and> (case last_refresh of None \<Rightarrow> True | Some refreshed \<Rightarrow> stable_visible_signal_refresh \<le> now - refreshed)"

datatype transition_decision = NoTransition | PublishNext

record detection_transition_input =
  ti_previous_publish :: detection_publish_state
  ti_next_publish :: detection_publish_state
  ti_agent_changed :: bool
  ti_process_exited :: bool
  ti_stable_refresh_due :: bool
  ti_now :: instant

definition decide_detection_transition ::
    "detection_transition_input \<Rightarrow> pending_idle_confirmation \<Rightarrow> pending_idle_confirmation \<times> transition_decision" where
  "decide_detection_transition i p =
     (let (p', hold) = should_hold_working_to_idle p (ti_previous_publish i) (ti_next_publish i) (ti_agent_changed i)
            (ti_process_exited i) (ti_now i)
      in if hold then (p', NoTransition)
         else if should_publish_detection_update (ti_previous_publish i) (ti_next_publish i) (ti_agent_changed i)
            (ti_process_exited i) (ti_stable_refresh_due i) then (p', PublishNext)
         else (p', NoTransition))"

datatype publish_decision =
    NoPublish
  | Publish agent_state (publish_idle: bool) (publish_blocker: bool) (publish_working: bool) (publish_exited: bool)

record screen_publish_input =
  sp_current_state :: agent_state
  sp_last_visible_idle :: bool
  sp_last_visible_blocker :: bool
  sp_last_visible_working :: bool
  sp_last_visible_signal_refresh :: "instant option"
  sp_screen_detection :: agent_detection
  sp_process_exited :: bool
  sp_agent_changed :: bool
  sp_now :: instant

definition stabilize_agent_detection :: "agent_detection \<Rightarrow> agent_state" where
  "stabilize_agent_detection detection = ad_state detection"

definition previous_publish :: "screen_publish_input \<Rightarrow> detection_publish_state" where
  "previous_publish i =
     \<lparr>dp_state = sp_current_state i, dp_visible_idle = sp_last_visible_idle i,
      dp_visible_blocker = sp_last_visible_blocker i, dp_visible_working = sp_last_visible_working i\<rparr>"

definition next_publish :: "agent_detection \<Rightarrow> detection_publish_state" where
  "next_publish detection =
     (let new_state = stabilize_agent_detection detection
      in \<lparr>dp_state = new_state, dp_visible_idle = (ad_visible_idle detection \<and> new_state = Idle),
          dp_visible_blocker = (ad_visible_blocker detection \<and> new_state = Blocked),
          dp_visible_working = (ad_visible_working detection \<and> new_state = Working)\<rparr>)"

definition decide_screen_detection_publish ::
    "screen_publish_input \<Rightarrow> pending_idle_confirmation \<Rightarrow> pending_idle_confirmation \<times> publish_decision" where
  "decide_screen_detection_publish i p =
     (let previous = previous_publish i; next = next_publish (sp_screen_detection i);
          (p', decision) = decide_detection_transition
            \<lparr>ti_previous_publish = previous, ti_next_publish = next, ti_agent_changed = sp_agent_changed i,
             ti_process_exited = sp_process_exited i,
             ti_stable_refresh_due = stable_visible_signal_refresh_due previous next (sp_last_visible_signal_refresh i) (sp_now i),
             ti_now = sp_now i\<rparr> p
      in case decision of
           NoTransition \<Rightarrow> (p', NoPublish)
         | PublishNext \<Rightarrow> (p', Publish (dp_state next) (dp_visible_idle next) (dp_visible_blocker next)
             (dp_visible_working next) (sp_process_exited i)))"

text \<open>The outer option is a panic of the detection, the inner one no update.\<close>

definition detection_update_for_publish_with_osc ::
    "manifest_env \<Rightarrow> manifest_cache \<Rightarrow> agent option \<Rightarrow> rstr \<Rightarrow> rstr \<Rightarrow> rstr \<Rightarrow> bool \<Rightarrow> agent_detection option option" where
  "detection_update_for_publish_with_osc env cache agent content osc_title osc_progress process_exited =
     (if process_exited then
        Some (Some \<lparr>ad_state = Idle, ad_skip_state_update = False, ad_visible_idle = True,
                    ad_visible_blocker = False, ad_visible_working = False\<rparr>)
      else map_option (\<lambda>detection. if ad_skip_state_update detection then None else Some detection)
        (detect_agent_with_osc env cache agent content osc_title osc_progress))"

text \<open>The counter of changes is an atomic 64-bit integer: it wraps.\<close>

definition observe_detection_content_change :: "rstr \<Rightarrow> u64 \<Rightarrow> u64" where
  "observe_detection_content_change bytes content_seq = (if bytes \<noteq> [] then content_seq + 1 else content_seq)"

definition mark_detection_content_changed :: "u64 \<Rightarrow> u64" where
  "mark_detection_content_changed content_seq = content_seq + 1"

subsection \<open>Successive scans\<close>

text \<open>Scans that each find a plain idle screen while working is what was published.\<close>

definition plain_idle_scan :: "screen_publish_input \<Rightarrow> bool" where
  "plain_idle_scan i \<longleftrightarrow> working_to_plain_idle (previous_publish i) (next_publish (sp_screen_detection i)) (sp_agent_changed i) (sp_process_exited i)"

fun publish_scans :: "screen_publish_input list \<Rightarrow> pending_idle_confirmation \<Rightarrow> pending_idle_confirmation \<times> publish_decision list" where
  "publish_scans [] p = (p, [])"
| "publish_scans (i # is) p =
     (let (p', d) = decide_screen_detection_publish i p; (p'', ds) = publish_scans is p' in (p'', d # ds))"

lemma publish_changes: "plain_idle_scan i \<Longrightarrow> should_publish_detection_update (previous_publish i) (next_publish (sp_screen_detection i))
    (sp_agent_changed i) (sp_process_exited i) due"
  by (simp add: plain_idle_scan_def working_to_plain_idle_def should_publish_detection_update_def)

lemma scan_cleared:
  "plain_idle_scan i \<Longrightarrow> pi_started_at p = None \<Longrightarrow>
     decide_screen_detection_publish i p = (p\<lparr>pi_started_at := Some (sp_now i), pi_confirmations := 0\<rparr>, NoPublish)"
  by (simp add: decide_screen_detection_publish_def decide_detection_transition_def should_hold_working_to_idle_def
      plain_idle_scan_def Let_def)

definition idle_published :: "screen_publish_input \<Rightarrow> publish_decision" where
  "idle_published i = Publish Idle False False (dp_visible_working (next_publish (sp_screen_detection i))) (sp_process_exited i)"

lemma scan_pending:
  assumes "plain_idle_scan i" "pi_started_at p = Some t" "pi_confirmations p < 3"
  shows "decide_screen_detection_publish i p =
     (if agent_pending_idle_cap \<le> sp_now i - t \<or> pi_confirmations p = 2 then (\<lparr>pi_started_at = None, pi_confirmations = 0\<rparr>, idle_published i)
      else (p\<lparr>pi_confirmations := pi_confirmations p + 1\<rparr>, NoPublish))"
proof -
  have c: "pi_confirmations p = 0 \<or> pi_confirmations p = 1 \<or> pi_confirmations p = 2"
  proof -
    have "unat (pi_confirmations p) < 3" using assms(3) by (simp add: word_less_nat_alt)
    then have "unat (pi_confirmations p) \<in> {0, 1, 2}" by auto
    then show ?thesis by (auto simp: word_unat_eq_iff)
  qed
  have n: "dp_state (next_publish (sp_screen_detection i)) = Idle" "\<not> dp_visible_idle (next_publish (sp_screen_detection i))"
      "\<not> dp_visible_blocker (next_publish (sp_screen_detection i))"
    using assms(1) by (simp_all add: plain_idle_scan_def working_to_plain_idle_def)
  have w: "working_to_plain_idle (previous_publish i) (next_publish (sp_screen_detection i)) (sp_agent_changed i) (sp_process_exited i)"
    using assms(1) by (simp add: plain_idle_scan_def)
  have clear: "pending_idle_clear q = \<lparr>pi_started_at = None, pi_confirmations = 0\<rparr>" for q :: pending_idle_confirmation
    by (simp add: pending_idle_clear_def)
  have small: "saturating_add (0 :: u8) 1 = 1" "saturating_add (1 :: u8) 1 = 2" "saturating_add (2 :: u8) 1 = 3"
    by (simp_all add: saturating_add_def)
  have ord: "\<not> (3 :: u8) \<le> 1" "\<not> (3 :: u8) \<le> 2" by (simp_all add: word_le_nat_alt)
  show ?thesis
    using c by (auto simp: decide_screen_detection_publish_def decide_detection_transition_def should_hold_working_to_idle_def
      w assms(2) Let_def clear small ord agent_pending_idle_confirmations_def publish_changes [OF assms(1)] idle_published_def n)
qed

lemma decide_not_waiting:
  assumes "\<not> plain_idle_scan i"
  shows "decide_screen_detection_publish i p = (pending_idle_clear p,
    if should_publish_detection_update (previous_publish i) (next_publish (sp_screen_detection i)) (sp_agent_changed i) (sp_process_exited i)
        (stable_visible_signal_refresh_due (previous_publish i) (next_publish (sp_screen_detection i))
          (sp_last_visible_signal_refresh i) (sp_now i))
    then Publish (dp_state (next_publish (sp_screen_detection i))) (dp_visible_idle (next_publish (sp_screen_detection i)))
      (dp_visible_blocker (next_publish (sp_screen_detection i))) (dp_visible_working (next_publish (sp_screen_detection i))) (sp_process_exited i)
    else NoPublish)"
  using assms by (simp add: decide_screen_detection_publish_def decide_detection_transition_def should_hold_working_to_idle_def
      plain_idle_scan_def Let_def)

subsection \<open>Properties\<close>

text \<open>Property C18. A working agent whose screen turns plainly idle is published as idle after at most four
  scans: the first one only starts the wait, and the wait ends at the third scan after it, or at an earlier
  one that comes 0.7 seconds or more after the first. Until then nothing is published.\<close>

theorem plain_idle_is_confirmed:
  assumes "list_all plain_idle_scan scans" "4 \<le> length scans" "pi_started_at p = None"
  shows "\<exists>k \<in> {1, 2, 3}. snd (publish_scans scans p) ! k = idle_published (scans ! k)
    \<and> (\<forall>j < k. snd (publish_scans scans p) ! j = NoPublish)
    \<and> (k = 3 \<or> agent_pending_idle_cap \<le> sp_now (scans ! k) - sp_now (scans ! 0))
    \<and> (\<forall>j. 1 \<le> j \<and> j < k \<longrightarrow> sp_now (scans ! j) - sp_now (scans ! 0) < agent_pending_idle_cap)"
proof -
  obtain i0 i1 i2 i3 rest where s: "scans = i0 # i1 # i2 # i3 # rest"
    using assms(2) by (auto simp: Suc_le_length_iff numeral_eq_Suc)
  have i: "plain_idle_scan i0" "plain_idle_scan i1" "plain_idle_scan i2" "plain_idle_scan i3" using assms(1) s by simp_all
  let ?ds = "snd (publish_scans scans p)"
  define p1 where "p1 = p\<lparr>pi_started_at := Some (sp_now i0), pi_confirmations := 0\<rparr>"
  have p1: "pi_started_at p1 = Some (sp_now i0)" "pi_confirmations p1 = 0" by (simp_all add: p1_def)
  have d0: "decide_screen_detection_publish i0 p = (p1, NoPublish)" using scan_cleared [OF i(1) assms(3)] by (simp add: p1_def)
  let ?late = "\<lambda>i. agent_pending_idle_cap \<le> sp_now i - sp_now i0"
  define p2 where "p2 = p1\<lparr>pi_confirmations := 1\<rparr>"
  have p2: "pi_started_at p2 = Some (sp_now i0)" "pi_confirmations p2 = 1" by (simp_all add: p2_def p1)
  define p3 where "p3 = p2\<lparr>pi_confirmations := 2\<rparr>"
  have p3: "pi_started_at p3 = Some (sp_now i0)" "pi_confirmations p3 = 2" by (simp_all add: p3_def p2)
  have d1: "decide_screen_detection_publish i1 p1 = (if ?late i1 then (\<lparr>pi_started_at = None, pi_confirmations = 0\<rparr>, idle_published i1) else (p2, NoPublish))"
    using scan_pending [OF i(2) p1(1)] p1(2) by (simp add: p2_def)
  have d2: "decide_screen_detection_publish i2 p2 = (if ?late i2 then (\<lparr>pi_started_at = None, pi_confirmations = 0\<rparr>, idle_published i2) else (p3, NoPublish))"
    using scan_pending [OF i(3) p2(1)] p2(2) by (simp add: p3_def word_less_nat_alt)
  have d3: "decide_screen_detection_publish i3 p3 = (\<lparr>pi_started_at = None, pi_confirmations = 0\<rparr>, idle_published i3)"
    using scan_pending [OF i(4) p3(1)] p3(2) by (simp add: word_less_nat_alt)
  show ?thesis
  proof (cases "?late i1")
    case True
    then show ?thesis by (intro bexI [of _ 1]) (simp_all add: s d0 d1 Let_def split_beta)
  next
    case n1: False
    show ?thesis
    proof (cases "?late i2")
      case True
      then show ?thesis using n1
        by (intro bexI [of _ 2]) (auto simp: s d0 d1 d2 Let_def split_beta less_Suc_eq numeral_2_eq_2)
    next
      case False
      then show ?thesis using n1
        by (intro bexI [of _ 3]) (auto simp: s d0 d1 d2 d3 Let_def split_beta less_Suc_eq numeral_3_eq_3)
    qed
  qed
qed

definition sample_scan :: "instant \<Rightarrow> screen_publish_input" where
  "sample_scan now = \<lparr>sp_current_state = Working, sp_last_visible_idle = False, sp_last_visible_blocker = False,
     sp_last_visible_working = False, sp_last_visible_signal_refresh = None,
     sp_screen_detection = \<lparr>ad_state = Idle, ad_skip_state_update = False, ad_visible_idle = False,
       ad_visible_blocker = False, ad_visible_working = False\<rparr>,
     sp_process_exited = False, sp_agent_changed = False, sp_now = now\<rparr>"

theorem plain_idle_is_confirmed_witness:
  "\<exists>k \<in> {1, 2, 3}. snd (publish_scans (map sample_scan [0, 100000000, 800000000, 900000000]) \<lparr>pi_started_at = None, pi_confirmations = 0\<rparr>) ! k
    = idle_published (map sample_scan [0, 100000000, 800000000, 900000000] ! k)"
  using plain_idle_is_confirmed [of "map sample_scan [0, 100000000, 800000000, 900000000]" "\<lparr>pi_started_at = None, pi_confirmations = 0\<rparr>"]
  by (auto simp: plain_idle_scan_def working_to_plain_idle_def sample_scan_def previous_publish_def next_publish_def
      stabilize_agent_detection_def Let_def)

text \<open>Property C19. Nothing but the change from working to plain idle ever waits: after any other scan the wait is over,
  and a change of the state, of the visible evidence, of the agent or the exit of its process is published at once
  as the scan found it. So when a scan publishes nothing, either it waits for a plain idle, or it found exactly
  what was published before.\<close>

theorem only_plain_idle_waits:
  assumes "decide_screen_detection_publish i p = (p', decision)"
  shows "(decision = NoPublish \<longrightarrow> plain_idle_scan i \<or> next_publish (sp_screen_detection i) = previous_publish i)
    \<and> (\<not> plain_idle_scan i \<longrightarrow> pi_started_at p' = None
        \<and> (next_publish (sp_screen_detection i) \<noteq> previous_publish i \<or> sp_agent_changed i \<or> sp_process_exited i
           \<longrightarrow> decision = Publish (ad_state (sp_screen_detection i))
             (ad_visible_idle (sp_screen_detection i) \<and> ad_state (sp_screen_detection i) = Idle)
             (ad_visible_blocker (sp_screen_detection i) \<and> ad_state (sp_screen_detection i) = Blocked)
             (ad_visible_working (sp_screen_detection i) \<and> ad_state (sp_screen_detection i) = Working) (sp_process_exited i)))"
proof (cases "plain_idle_scan i")
  case False
  have "next_publish d = \<lparr>dp_state = dp_state (next_publish d), dp_visible_idle = dp_visible_idle (next_publish d),
      dp_visible_blocker = dp_visible_blocker (next_publish d), dp_visible_working = dp_visible_working (next_publish d)\<rparr>" for d
    by simp
  then have "next_publish d = previous_publish i \<longleftrightarrow> dp_state (next_publish d) = dp_state (previous_publish i)
      \<and> dp_visible_idle (next_publish d) = dp_visible_idle (previous_publish i)
      \<and> dp_visible_blocker (next_publish d) = dp_visible_blocker (previous_publish i)
      \<and> dp_visible_working (next_publish d) = dp_visible_working (previous_publish i)" for d by auto
  moreover have "dp_state (next_publish d) = ad_state d" "dp_visible_idle (next_publish d) = (ad_visible_idle d \<and> ad_state d = Idle)"
    "dp_visible_blocker (next_publish d) = (ad_visible_blocker d \<and> ad_state d = Blocked)"
    "dp_visible_working (next_publish d) = (ad_visible_working d \<and> ad_state d = Working)" for d
    by (simp_all add: next_publish_def stabilize_agent_detection_def Let_def)
  ultimately show ?thesis using assms False unfolding decide_not_waiting [OF False]
    by (auto simp: pending_idle_clear_def should_publish_detection_update_def split: if_splits)
qed simp

theorem only_plain_idle_waits_witness:
  "snd (decide_screen_detection_publish ((sample_scan 5)\<lparr>sp_agent_changed := True\<rparr>) \<lparr>pi_started_at = Some 1, pi_confirmations = 2\<rparr>)
    = Publish Idle False False False False"
proof -
  let ?i = "(sample_scan 5)\<lparr>sp_agent_changed := True\<rparr>"
  have "\<not> plain_idle_scan ?i" by (simp add: plain_idle_scan_def working_to_plain_idle_def)
  then show ?thesis using only_plain_idle_waits [OF surjective_pairing, of ?i "\<lparr>pi_started_at = Some 1, pi_confirmations = 2\<rparr>"]
    by (simp add: sample_scan_def)
qed

end
