(* ===== verification/PaneOsc.thy ===== *)
theory PaneOsc
  imports PaneDetection TerminalTheme AgentIdentify
begin

section \<open>Operating system commands in the output of a pane\<close>

text \<open>
  \<open>src/src/pane/osc.rs\<close>: three state machines read the bytes a program writes and pick the operating system
  commands out of them: the two trackers of default colours share one machine, the collector serves the titles
  and progress of agents, which detection reads, and the debugging evidence. A body that grows past its limit is discarded up
  to its end. Also here: reported directories, the filter for scrollback clears and the restoring of the
  host's colours. Bytes are characters, and a state is fed byte by byte, so how the output is cut into reads does not matter.
\<close>

subsection \<open>Bytes\<close>

abbreviation esc :: char where "esc \<equiv> CHR 0x1b"
abbreviation bel :: char where "bel \<equiv> CHR 0x07"
abbreviation backslash :: char where "backslash \<equiv> CHR 0x5c"

text \<open>\<open>String::from_utf8_lossy\<close>: the longest prefix of a character an ill-formed sequence starts with becomes one
  replacement character.\<close>

fun matched_tail :: "(nat \<times> nat) list \<Rightarrow> rstr \<Rightarrow> nat" where
  "matched_tail ((lo, hi) # rs) (c # cs) = (if lo \<le> byte c \<and> byte c \<le> hi then 1 + matched_tail rs cs else 0)"
| "matched_tail rs cs = 0"

definition ill_formed_length :: "rstr \<Rightarrow> nat" where
  "ill_formed_length s = (case s of [] \<Rightarrow> 0 | c # cs \<Rightarrow>
     (case utf8_ranges (byte c) of None \<Rightarrow> 1 | Some rs \<Rightarrow> 1 + matched_tail rs cs))"

definition replacement_char :: rstr where
  "replacement_char = map char_of [0xEF, 0xBF, 0xBD :: nat]"

lemma ill_formed_length_pos: "s \<noteq> [] \<Longrightarrow> 0 < ill_formed_length s"
  by (cases s) (simp_all add: ill_formed_length_def split: option.split)

function from_utf8_lossy :: "rstr \<Rightarrow> rstr" where
  "from_utf8_lossy s =
     (if s = [] then []
      else case utf8_next s of
        Utf8_Char k \<Rightarrow> take k s @ from_utf8_lossy (drop k s)
      | _ \<Rightarrow> replacement_char @ from_utf8_lossy (drop (ill_formed_length s) s))"
  by auto
termination
  by (relation "measure length") (use ill_formed_length_pos in \<open>auto dest: utf8_next_pos\<close>)

declare from_utf8_lossy.simps [simp del]

subsection \<open>The trackers of default colours\<close>

datatype default_color_query = QueryForeground | QueryBackground | QueryCursor

fun osc_number :: "default_color_query \<Rightarrow> u8" where
  "osc_number QueryForeground = 10"
| "osc_number QueryBackground = 11"
| "osc_number QueryCursor = 12"

datatype default_color_event =
    ColorQuery default_color_query
  | ColorSet default_color_query
  | ColorReset default_color_query
  | PaletteQuery u8

datatype tracker_state =
    TrGround | TrEscape | TrOscBody | TrOscEscape | TrIgnoreString | TrIgnoreStringEscape | TrOversizedOsc | TrOversizedOscEscape

definition is_ignored_string_intro :: "char \<Rightarrow> bool" where
  "is_ignored_string_intro c \<longleftrightarrow> c \<in> {CHR ''P'', CHR ''_'', CHR 0x5e, CHR ''X''}"

text \<open>The step both trackers share: the new state and body, and the body when it was complete.\<close>

fun tracker_step :: "tracker_state \<Rightarrow> rstr \<Rightarrow> char \<Rightarrow> tracker_state \<times> rstr \<times> rstr option" where
  "tracker_step TrGround body b = (if b = esc then TrEscape else TrGround, body, None)"
| "tracker_step TrEscape body b =
     (if b = CHR '']'' then (TrOscBody, [], None)
      else if is_ignored_string_intro b then (TrIgnoreString, [], None)
      else if b = esc then (TrEscape, body, None)
      else (TrGround, body, None))"
| "tracker_step TrOscBody body b =
     (if b = bel then (TrGround, [], Some body)
      else if b = esc then (TrOscEscape, body, None)
      else (TrOscBody, body @ [b], None))"
| "tracker_step TrOscEscape body b =
     (if b = backslash then (TrGround, [], Some body) else (TrOscBody, body @ [esc, b], None))"
| "tracker_step TrIgnoreString body b = (if b = esc then TrIgnoreStringEscape else TrIgnoreString, body, None)"
| "tracker_step TrIgnoreStringEscape body b =
     (if b = backslash then TrGround else if b \<noteq> esc then TrIgnoreString else TrIgnoreStringEscape, body, None)"
| "tracker_step TrOversizedOsc body b =
     (if b = esc then TrOversizedOscEscape else if b = bel then TrGround else TrOversizedOsc, body, None)"
| "tracker_step TrOversizedOscEscape body b =
     (if b = backslash then TrGround else if b \<noteq> esc then TrOversizedOsc else TrOversizedOscEscape, body, None)"

definition tracker_limit :: "tracker_state \<times> rstr \<Rightarrow> tracker_state \<times> rstr" where
  "tracker_limit sb = (if 1024 < length (snd sb) then (TrOversizedOsc, []) else sb)"

definition parse_palette_color_query :: "rstr \<Rightarrow> default_color_event option" where
  "parse_palette_color_query body =
     Option.bind (strip_prefix ''4;'' body) (\<lambda>rest.
     Option.bind (if suffix '';?'' rest then Some (take (length rest - 2) rest) else None) (\<lambda>index.
       if index = [] \<or> 3 < length index \<or> \<not> list_all is_digit index then None
       else if digits_value index < 256 then Some (PaletteQuery (of_nat (digits_value index))) else None))"

definition color_at :: "nat \<Rightarrow> default_color_query option" where
  "color_at n = (if n = 10 then Some QueryForeground else if n = 11 then Some QueryBackground
     else if n = 12 then Some QueryCursor else None)"

fun set_events :: "nat \<Rightarrow> rstr list \<Rightarrow> default_color_event list" where
  "set_events n [] = []"
| "set_events n (value # rest) =
     (if value = ''?'' then set_events (n + 1) rest
      else case color_at n of Some q \<Rightarrow> ColorSet q # set_events (n + 1) rest | None \<Rightarrow> set_events (n + 1) rest)"

definition parse_default_color_set_events :: "rstr \<Rightarrow> default_color_event list" where
  "parse_default_color_set_events body =
     (case position (\<lambda>b. b = CHR '';'') body of
        None \<Rightarrow> []
      | Some separator \<Rightarrow>
          (let command = take separator body;
               values = filter (\<lambda>v. v \<noteq> []) (split_on (\<lambda>b. b = CHR '';'') (drop (separator + 1) body))
           in if command = ''10'' then set_events 10 values
              else if command = ''11'' then set_events 11 values
              else if command = ''12'' then set_events 12 values
              else []))"

definition single_color_event :: "rstr \<Rightarrow> default_color_event option" where
  "single_color_event body =
     (if body = ''10;?'' then Some (ColorQuery QueryForeground)
      else if body = ''11;?'' then Some (ColorQuery QueryBackground)
      else if body = ''12;?'' then Some (ColorQuery QueryCursor)
      else if body = ''110'' \<or> body = ''110;'' then Some (ColorReset QueryForeground)
      else if body = ''111'' \<or> body = ''111;'' then Some (ColorReset QueryBackground)
      else parse_palette_color_query body)"

definition parse_default_color_events :: "rstr \<Rightarrow> default_color_event list" where
  "parse_default_color_events body =
     (case single_color_event body of Some event \<Rightarrow> [event] | None \<Rightarrow> parse_default_color_set_events body)"

definition is_default_color_set_osc :: "rstr \<Rightarrow> bool" where
  "is_default_color_set_osc body \<longleftrightarrow> list_ex (\<lambda>e. case e of ColorSet _ \<Rightarrow> True | _ \<Rightarrow> False) (parse_default_color_events body)"

record default_color_osc_tracker =
  ct_state :: tracker_state
  ct_body :: rstr

definition osc_tracker_byte :: "char \<Rightarrow> default_color_osc_tracker \<times> bool \<Rightarrow> default_color_osc_tracker \<times> bool" where
  "osc_tracker_byte b ts =
     (let (t, saw) = ts;
          (state, body, complete) = tracker_step (ct_state t) (ct_body t) b;
          saw' = (saw \<or> (case complete of Some c \<Rightarrow> is_default_color_set_osc c | None \<Rightarrow> False));
          (state', body') = tracker_limit (state, body)
      in (\<lparr>ct_state = state', ct_body = body'\<rparr>, saw'))"

definition osc_tracker_observe :: "default_color_osc_tracker \<Rightarrow> rstr \<Rightarrow> default_color_osc_tracker \<times> bool" where
  "osc_tracker_observe t bytes = fold osc_tracker_byte bytes (t, False)"

record default_color_event_tracker =
  et_state :: tracker_state
  et_body :: rstr
  et_pending :: "(nat \<times> default_color_event) list"

definition event_tracker_byte :: "nat \<times> char \<Rightarrow> default_color_event_tracker \<Rightarrow> default_color_event_tracker" where
  "event_tracker_byte ib t =
     (let (index, b) = ib;
          (state, body, complete) = tracker_step (et_state t) (et_body t) b;
          finalized = (case complete of
            Some c \<Rightarrow> map (Pair (index + 1)) (parse_default_color_events c) | None \<Rightarrow> []);
          (state', body') = tracker_limit (state, body)
      in \<lparr>et_state = state', et_body = body', et_pending = et_pending t @ finalized\<rparr>)"

definition event_tracker_observe :: "default_color_event_tracker \<Rightarrow> rstr \<Rightarrow> default_color_event_tracker" where
  "event_tracker_observe t bytes = fold event_tracker_byte (zip [0..<length bytes] bytes) t"

definition in_progress_event :: "default_color_event_tracker \<Rightarrow> default_color_event option" where
  "in_progress_event t =
     (if et_state t \<noteq> TrOscBody \<and> et_state t \<noteq> TrOscEscape then None
      else case parse_default_color_events (et_body t) of [event] \<Rightarrow> Some event | _ \<Rightarrow> None)"

definition drain_pending_events ::
    "default_color_event_tracker \<Rightarrow> default_color_event_tracker \<times> (nat \<times> default_color_event) list" where
  "drain_pending_events t = (t\<lparr>et_pending := []\<rparr>, et_pending t)"

subsection \<open>The collector\<close>

datatype collector_state =
    OsGround | OsEscape | OsBody | OsBodyEscape | OsIgnoringString | OsIgnoringStringEscape | OsDiscarding | OsDiscardingEscape

record osc_collector =
  oc_state :: collector_state
  oc_body :: rstr

definition max_body_bytes :: nat where "max_body_bytes = 4096"

definition collector_push :: "char \<Rightarrow> osc_collector \<Rightarrow> osc_collector" where
  "collector_push b c =
     (let body = oc_body c @ [b]
      in if max_body_bytes < length body then \<lparr>oc_state = OsDiscarding, oc_body = []\<rparr>
         else \<lparr>oc_state = OsBody, oc_body = body\<rparr>)"

definition collector_finish :: "osc_collector \<Rightarrow> osc_collector \<times> rstr option" where
  "collector_finish c = (\<lparr>oc_state = OsGround, oc_body = []\<rparr>, Some (oc_body c))"

text \<open>The body handed to the receiver, if the byte completes one.\<close>

definition body_escape_step :: "char \<Rightarrow> osc_collector \<Rightarrow> osc_collector \<times> rstr option" where
  "body_escape_step b c =
     (if b = backslash then collector_finish c
      else if b = bel then
        (let c' = collector_push esc c
         in if oc_state c' = OsBody then collector_finish c' else (c'\<lparr>oc_state := OsGround\<rparr>, None))
      else if b = esc then
        (let c' = collector_push esc c
         in (c'\<lparr>oc_state := (case oc_state c' of OsBody \<Rightarrow> OsBodyEscape | OsDiscarding \<Rightarrow> OsDiscardingEscape | s \<Rightarrow> s)\<rparr>, None))
      else
        (let c' = collector_push esc c
         in (if oc_state c' = OsBody then collector_push b c' else c', None)))"

definition collector_step :: "char \<Rightarrow> osc_collector \<Rightarrow> osc_collector \<times> rstr option" where
  "collector_step b c =
     (case oc_state c of
        OsGround \<Rightarrow> (if b = esc then c\<lparr>oc_state := OsEscape\<rparr> else c, None)
      | OsEscape \<Rightarrow>
          (if b = CHR '']'' then \<lparr>oc_state = OsBody, oc_body = []\<rparr>
           else if b = esc then c\<lparr>oc_state := OsEscape\<rparr>
           else if is_ignored_string_intro b then c\<lparr>oc_state := OsIgnoringString\<rparr>
           else c\<lparr>oc_state := OsGround\<rparr>, None)
      | OsBody \<Rightarrow>
          (if b = bel then collector_finish c
           else if b = esc then (c\<lparr>oc_state := OsBodyEscape\<rparr>, None)
           else (collector_push b c, None))
      | OsBodyEscape \<Rightarrow> body_escape_step b c
      | OsIgnoringString \<Rightarrow> (if b = esc then c\<lparr>oc_state := OsIgnoringStringEscape\<rparr> else c, None)
      | OsIgnoringStringEscape \<Rightarrow>
          (if b = backslash then c\<lparr>oc_state := OsGround\<rparr>
           else if b \<noteq> esc then c\<lparr>oc_state := OsIgnoringString\<rparr> else c, None)
      | OsDiscarding \<Rightarrow>
          (if b = bel then c\<lparr>oc_state := OsGround\<rparr>
           else if b = esc then c\<lparr>oc_state := OsDiscardingEscape\<rparr> else c, None)
      | OsDiscardingEscape \<Rightarrow>
          (if b = backslash then c\<lparr>oc_state := OsGround\<rparr>
           else if b \<noteq> esc then c\<lparr>oc_state := OsDiscarding\<rparr> else c, None))"

fun collector_observe :: "rstr \<Rightarrow> osc_collector \<Rightarrow> osc_collector \<times> rstr list" where
  "collector_observe [] c = (c, [])"
| "collector_observe (b # bs) c =
     (let (c', received) = collector_step b c; (c'', rest) = collector_observe bs c'
      in (c'', (case received of Some body \<Rightarrow> [body] | None \<Rightarrow> []) @ rest))"

definition new_collector :: osc_collector where
  "new_collector = \<lparr>oc_state = OsGround, oc_body = []\<rparr>"

subsection \<open>Titles and progress of agents\<close>

definition agent_osc_max_chars :: nat where "agent_osc_max_chars = 256"

record agent_osc_tracker =
  at_collector :: osc_collector
  at_latest_title :: "rstr option"
  at_terminal_title :: "rstr option"
  at_latest_progress :: "rstr option"

definition parse_agent_osc_body :: "rstr \<Rightarrow> (rstr \<times> rstr) option" where
  "parse_agent_osc_body body =
     map_option (\<lambda>sep. (take sep body, drop (sep + 1) body)) (position (\<lambda>b. b = CHR '';'') body)"

definition sanitize_agent_osc_string :: "rstr \<Rightarrow> nat \<Rightarrow> rstr" where
  "sanitize_agent_osc_string payload max_chars =
     concat (take max_chars (filter (\<lambda>ch. \<not> is_control ch) (chars (from_utf8_lossy payload))))"

definition agent_osc_receive :: "rstr \<Rightarrow> agent_osc_tracker \<Rightarrow> agent_osc_tracker" where
  "agent_osc_receive body t =
     (case parse_agent_osc_body body of
        None \<Rightarrow> t
      | Some (command, payload) \<Rightarrow>
          (if command = ''0'' \<or> command = ''2'' then
             (let title = sanitize_agent_osc_string payload agent_osc_max_chars;
                  shown = (if title = [] then None else Some title)
              in t\<lparr>at_terminal_title := shown, at_latest_title := shown\<rparr>)
           else if command = ''9'' then
             t\<lparr>at_latest_progress := Some (sanitize_agent_osc_string payload agent_osc_max_chars)\<rparr>
           else t))"

definition agent_osc_observe :: "agent_osc_tracker \<Rightarrow> rstr \<Rightarrow> agent_osc_tracker" where
  "agent_osc_observe t bytes =
     (let (c, bodies) = collector_observe bytes (at_collector t)
      in fold agent_osc_receive bodies (t\<lparr>at_collector := c\<rparr>))"

definition latest_title :: "agent_osc_tracker \<Rightarrow> rstr" where
  "latest_title t = (case at_latest_title t of Some s \<Rightarrow> s | None \<Rightarrow> [])"

definition latest_progress :: "agent_osc_tracker \<Rightarrow> rstr" where
  "latest_progress t = (case at_latest_progress t of Some s \<Rightarrow> s | None \<Rightarrow> [])"

definition seed_terminal_title :: "agent_osc_tracker \<Rightarrow> rstr option \<Rightarrow> agent_osc_tracker" where
  "seed_terminal_title t title = t\<lparr>at_terminal_title := title\<rparr>"

definition clear_retained :: "agent_osc_tracker \<Rightarrow> agent_osc_tracker" where
  "clear_retained t = t\<lparr>at_latest_title := None, at_latest_progress := None\<rparr>"

subsection \<open>Debugging evidence\<close>

record osc_debug_tracker =
  dt_enabled :: bool
  dt_collector :: osc_collector
  dt_pending :: "(rstr \<times> rstr) list"

definition sanitized_osc_debug_payload :: "rstr \<Rightarrow> rstr" where
  "sanitized_osc_debug_payload payload =
     (let text = chars (from_utf8_lossy payload)
      in concat (take 512 (filter (\<lambda>ch. \<not> is_control ch) text)) @ (if 512 < length text then ''...'' else []))"

definition parse_osc_debug_event :: "rstr \<Rightarrow> (rstr \<times> rstr) option" where
  "parse_osc_debug_event body =
     Option.bind (parse_agent_osc_body body) (\<lambda>(command, payload).
       if command \<in> {''0'', ''2'', ''9'', ''21337''} then Some (command, sanitized_osc_debug_payload payload) else None)"

definition osc_debug_observe :: "osc_debug_tracker \<Rightarrow> rstr \<Rightarrow> osc_debug_tracker" where
  "osc_debug_observe t bytes =
     (if \<not> dt_enabled t then t
      else let (c, bodies) = collector_observe bytes (dt_collector t)
           in t\<lparr>dt_collector := c, dt_pending := dt_pending t @ List.map_filter parse_osc_debug_event bodies\<rparr>)"

definition osc_debug_enabled :: "rstr option \<Rightarrow> bool" where
  "osc_debug_enabled value =
     (case value of Some v \<Rightarrow> map ascii_lower (trim v) \<in> {''1'', ''true'', ''yes'', ''on''} | None \<Rightarrow> False)"

definition osc_debug_drain :: "osc_debug_tracker \<Rightarrow> osc_debug_tracker \<times> (rstr \<times> rstr) list" where
  "osc_debug_drain t = (t\<lparr>dt_pending := []\<rparr>, dt_pending t)"

subsection \<open>Reported directories\<close>

definition nibble :: "char \<Rightarrow> nat option" where
  "nibble b =
     (if 48 \<le> byte b \<and> byte b \<le> 57 then Some (byte b - 48)
      else if 97 \<le> byte b \<and> byte b \<le> 102 then Some (byte b - 97 + 10)
      else if 65 \<le> byte b \<and> byte b \<le> 70 then Some (byte b - 65 + 10)
      else None)"

text \<open>The loop over the bytes, with the bytes read so far.\<close>

function percent_bytes :: "rstr \<Rightarrow> rstr option" where
  "percent_bytes [] = Some []"
| "percent_bytes (b # bs) =
     (if b = CHR ''%'' then
        (case bs of
           hi # lo # rest \<Rightarrow>
             (case (nibble hi, nibble lo) of
                (Some h, Some l) \<Rightarrow> map_option ((#) (char_of (h * 16 + l))) (percent_bytes rest)
              | _ \<Rightarrow> None)
         | _ \<Rightarrow> None)
      else map_option ((#) b) (percent_bytes bs))"
  by pat_completeness auto
termination
  by (relation "measure length") auto

definition percent_decode_utf8 :: "rstr \<Rightarrow> rstr option" where
  "percent_decode_utf8 input =
     Option.bind (percent_bytes input) (\<lambda>output. if valid_utf8 output then Some output else None)"

definition parse_file_uri_cwd :: "rstr \<Rightarrow> rstr option" where
  "parse_file_uri_cwd uri =
     Option.bind (strip_prefix ''file://'' uri) (\<lambda>rest.
     Option.bind
       (if prefix ''/'' rest then Some rest
        else case position (\<lambda>b. b = CHR ''/'') rest of
          Some slash \<Rightarrow>
            (let host = take slash rest
             in if \<not> (host = [] \<or> eq_ignore_ascii_case host ''localhost'') then None else Some (drop slash rest))
        | None \<Rightarrow> Some rest)
       percent_decode_utf8)"

definition parse_reported_cwd :: "rstr \<Rightarrow> rstr option" where
  "parse_reported_cwd bytes =
     (if \<not> valid_utf8 bytes then None
      else let text = trim bytes in
        if prefix ''file://'' text then parse_file_uri_cwd text
        else let path = trim_matches (\<lambda>b. b = CHR 0x22) text in if path \<noteq> [] then Some path else None)"

subsection \<open>Scrollback clears\<close>

definition clear_short :: rstr where "clear_short = esc # ''[3J''"
definition clear_long :: rstr where "clear_long = esc # ''[?3J''"

definition foreground_job_is_shell :: "foreground_job \<Rightarrow> u32 \<Rightarrow> bool" where
  "foreground_job_is_shell job shell_pid \<longleftrightarrow> list_ex (\<lambda>p. fp_pid p = shell_pid) (fj_processes job)"

definition foreground_job_uses_droid_scrollback_compat :: "foreground_job \<Rightarrow> bool" where
  "foreground_job_uses_droid_scrollback_compat job \<longleftrightarrow> list_ex (\<lambda>p.
     eq_ignore_ascii_case (fp_name p) ''droid''
     \<or> (case fp_argv0 p of Some a \<Rightarrow> eq_ignore_ascii_case a ''droid'' | None \<Rightarrow> False)
     \<or> (case fp_cmdline p of
          Some c \<Rightarrow> eq_ignore_ascii_case c ''droid'' \<or> prefix ''droid '' c \<or> sublist ''/droid'' (map ascii_lower c)
        | None \<Rightarrow> False)) (fj_processes job)"

definition contains_scrollback_clear_sequence :: "rstr \<Rightarrow> bool" where
  "contains_scrollback_clear_sequence bytes \<longleftrightarrow> sublist clear_short bytes \<or> sublist clear_long bytes"

function strip_clears :: "rstr \<Rightarrow> rstr" where
  "strip_clears bytes =
     (if bytes = [] then []
      else if prefix clear_short bytes then strip_clears (drop 4 bytes)
      else if prefix clear_long bytes then strip_clears (drop 5 bytes)
      else hd bytes # strip_clears (tl bytes))"
  by auto
termination
  by (relation "measure length") auto

declare strip_clears.simps [simp del]

definition strip_scrollback_clear_sequences :: "rstr \<Rightarrow> rstr" where
  "strip_scrollback_clear_sequences bytes =
     (if \<not> contains_scrollback_clear_sequence bytes then bytes else strip_clears bytes)"

definition maybe_filter_primary_screen_scrollback_clear :: "rstr \<Rightarrow> bool \<Rightarrow> foreground_job option \<Rightarrow> rstr" where
  "maybe_filter_primary_screen_scrollback_clear bytes alternate_screen job =
     (if alternate_screen \<or> \<not> contains_scrollback_clear_sequence bytes
        \<or> \<not> (case job of Some j \<Rightarrow> foreground_job_uses_droid_scrollback_compat j | None \<Rightarrow> False)
      then bytes else strip_scrollback_clear_sequences bytes)"

subsection \<open>The host's colours\<close>

text \<open>The fields of \<open>GhosttyPaneCore\<close> this code reads and writes; the terminal is the bytes written to it.\<close>

record theme_core =
  tc_owner_pgid :: "u32 option"
  tc_child_foreground_changed :: bool
  tc_child_background_changed :: bool
  tc_host_theme :: terminal_theme
  tc_written :: rstr

definition should_restore_host_terminal_theme :: "u32 \<Rightarrow> u32 \<Rightarrow> bool \<Rightarrow> foreground_job option \<Rightarrow> bool" where
  "should_restore_host_terminal_theme owner_pgid shell_pid alternate_screen job =
     (if alternate_screen then False
      else case job of
        None \<Rightarrow> False
      | Some j \<Rightarrow> fj_process_group_id j \<noteq> owner_pgid \<and> foreground_job_is_shell j shell_pid)"

definition write_host_default_color :: "default_color_kind \<Rightarrow> rgb_color option \<Rightarrow> rstr" where
  "write_host_default_color kind color =
     (case color of
        Some c \<Rightarrow> osc_set_default_color_sequence kind c
      | None \<Rightarrow> osc_reset_default_color_sequence kind)"

definition write_host_terminal_theme_selective :: "terminal_theme \<Rightarrow> bool \<Rightarrow> bool \<Rightarrow> rstr" where
  "write_host_terminal_theme_selective theme foreground background =
     (if foreground then write_host_default_color Foreground (th_foreground theme) else [])
     @ (if background then write_host_default_color Background (th_background theme) else [])"

definition write_host_terminal_theme :: "terminal_theme \<Rightarrow> rstr" where
  "write_host_terminal_theme theme = write_host_terminal_theme_selective theme True True"

definition restore_host_terminal_theme_if_needed ::
    "theme_core \<Rightarrow> u32 \<Rightarrow> bool \<Rightarrow> foreground_job option \<Rightarrow> theme_core \<times> bool" where
  "restore_host_terminal_theme_if_needed core shell_pid alternate_screen job =
     (case tc_owner_pgid core of
        None \<Rightarrow> (core, False)
      | Some owner_pgid \<Rightarrow>
          (if theme_is_empty (tc_host_theme core) then (core, False)
           else if \<not> should_restore_host_terminal_theme owner_pgid shell_pid alternate_screen job then (core, False)
           else (core\<lparr>tc_owner_pgid := None, tc_child_foreground_changed := False, tc_child_background_changed := False,
                   tc_written := tc_written core @ write_host_terminal_theme (tc_host_theme core)\<rparr>, True)))"

subsection \<open>How the collector runs\<close>

lemma collector_observe_append:
  "collector_observe (a @ b) c =
     (let (c', r) = collector_observe a c; (c'', s) = collector_observe b c' in (c'', r @ s))"
  by (induction a arbitrary: c) (auto simp: Let_def split: prod.splits)

lemma agent_osc_observe_append: "agent_osc_observe t (a @ b) = agent_osc_observe (agent_osc_observe t a) b"
proof -
  have coll: "at_collector (fold agent_osc_receive bodies u) = at_collector u" for bodies u
    by (induction bodies arbitrary: u) (simp_all add: agent_osc_receive_def Let_def split: option.split prod.split)
  have one: "(agent_osc_receive body u)\<lparr>at_collector := c\<rparr> = agent_osc_receive body (u\<lparr>at_collector := c\<rparr>)" for body u c
    by (cases u) (simp add: agent_osc_receive_def Let_def split: option.split prod.split)
  have swap: "(fold agent_osc_receive bodies u)\<lparr>at_collector := c\<rparr> = fold agent_osc_receive bodies (u\<lparr>at_collector := c\<rparr>)" for bodies u c
    by (induction bodies arbitrary: u) (simp_all add: one)
  obtain c1 r1 where a: "collector_observe a (at_collector t) = (c1, r1)" by fastforce
  obtain c2 r2 where b: "collector_observe b c1 = (c2, r2)" by fastforce
  have "agent_osc_observe t (a @ b) = fold agent_osc_receive (r1 @ r2) (t\<lparr>at_collector := c2\<rparr>)"
    by (simp add: agent_osc_observe_def collector_observe_append a b)
  also have "\<dots> = fold agent_osc_receive r2 ((fold agent_osc_receive r1 (t\<lparr>at_collector := c1\<rparr>))\<lparr>at_collector := c2\<rparr>)"
    by (simp add: swap)
  also have "\<dots> = agent_osc_observe (agent_osc_observe t a) b" by (simp add: agent_osc_observe_def a coll b)
  finally show ?thesis .
qed

text \<open>Bytes that neither end nor escape a body.\<close>

definition plain_body :: "rstr \<Rightarrow> bool" where
  "plain_body s \<longleftrightarrow> esc \<notin> set s \<and> bel \<notin> set s"

lemma collector_body:
  "plain_body s \<Longrightarrow> oc_state c = OsBody \<Longrightarrow> length (oc_body c) + length s \<le> max_body_bytes
     \<Longrightarrow> collector_observe s c = (c\<lparr>oc_body := oc_body c @ s\<rparr>, [])"
proof (induction s arbitrary: c)
  case (Cons b s)
  let ?c = "\<lparr>oc_state = OsBody, oc_body = oc_body c @ [b]\<rparr>"
  have "b \<noteq> esc" "b \<noteq> bel" using Cons.prems(1) by (auto simp: plain_body_def)
  then have "collector_step b c = (?c, None)"
    using Cons.prems by (simp add: collector_step_def collector_push_def)
  moreover have "collector_observe s ?c = (?c\<lparr>oc_body := oc_body ?c @ s\<rparr>, [])"
    using Cons.prems by (intro Cons.IH) (simp_all add: plain_body_def)
  moreover have "oc_state c = OsBody" by (rule Cons.prems)
  ultimately show ?case by (cases c) simp
qed simp

lemma collector_discards:
  "plain_body s \<Longrightarrow> oc_state c = OsDiscarding \<Longrightarrow> collector_observe s c = (c, [])"
  by (induction s) (auto simp: collector_step_def plain_body_def)

lemma collector_oversized:
  assumes "plain_body s" "max_body_bytes < length s"
  shows "collector_observe s \<lparr>oc_state = OsBody, oc_body = []\<rparr> = (\<lparr>oc_state = OsDiscarding, oc_body = []\<rparr>, [])"
proof -
  have t: "plain_body (take max_body_bytes s)" "plain_body (drop (max_body_bytes + 1) s)"
    using assms(1) by (auto simp: plain_body_def dest: in_set_takeD in_set_dropD)
  have b: "s ! max_body_bytes \<noteq> esc" "s ! max_body_bytes \<noteq> bel"
    using assms(1) nth_mem [OF assms(2)] unfolding plain_body_def by metis+
  have s: "s = take max_body_bytes s @ s ! max_body_bytes # drop (max_body_bytes + 1) s"
    using assms(2) by (simp add: id_take_nth_drop)
  have first: "collector_observe (take max_body_bytes s) \<lparr>oc_state = OsBody, oc_body = []\<rparr>
      = (\<lparr>oc_state = OsBody, oc_body = take max_body_bytes s\<rparr>, [])"
    using collector_body [OF t(1), of "\<lparr>oc_state = OsBody, oc_body = []\<rparr>"] by simp
  have step: "collector_step (s ! max_body_bytes) \<lparr>oc_state = OsBody, oc_body = take max_body_bytes s\<rparr>
      = (\<lparr>oc_state = OsDiscarding, oc_body = []\<rparr>, None)"
    using b assms(2) by (simp add: collector_step_def collector_push_def)
  show ?thesis
    by (subst s) (simp add: collector_observe_append first step collector_discards [OF t(2) [unfolded add.commute [of _ 1] plus_1_eq_Suc]])
qed

end
