(* ===== verification/PaneOscProps.thy ===== *)
theory PaneOscProps
  imports PaneOsc
begin

section \<open>Properties of the operating system commands\<close>

text \<open>
  What \<open>src/src/pane/osc.rs\<close> promises: commands are received whole and once, memory stays bounded, titles reach the detection,
  reported directories are read back, and what the scrollback filter removes.
\<close>

subsection \<open>Delivery\<close>

lemma start_body:
  "oc_state c \<in> {OsGround, OsEscape} \<Longrightarrow> collector_observe [esc, CHR '']''] c = (\<lparr>oc_state = OsBody, oc_body = []\<rparr>, [])"
  by (cases c) (auto simp: collector_step_def Let_def)

text \<open>The two ways to end a body.\<close>

definition terminator :: "bool \<Rightarrow> rstr" where
  "terminator short = (if short then [bel] else [esc, backslash])"

lemma end_body: "collector_observe (terminator short) \<lparr>oc_state = OsBody, oc_body = body\<rparr> = (new_collector, [body])"
  by (simp add: terminator_def collector_step_def body_escape_step_def collector_finish_def new_collector_def Let_def)

lemma end_discard: "collector_observe (terminator short) \<lparr>oc_state = OsDiscarding, oc_body = []\<rparr> = (new_collector, [])"
  by (simp add: terminator_def collector_step_def new_collector_def Let_def)

lemma deliver:
  assumes "plain_body body" "oc_state c \<in> {OsGround, OsEscape}"
  shows "collector_observe ([esc, CHR '']''] @ body @ terminator short) c
    = (new_collector, if length body \<le> max_body_bytes then [body] else [])"
proof (cases "length body \<le> max_body_bytes")
  case True
  have "collector_observe body \<lparr>oc_state = OsBody, oc_body = []\<rparr> = (\<lparr>oc_state = OsBody, oc_body = body\<rparr>, [])"
    using collector_body [OF assms(1), of "\<lparr>oc_state = OsBody, oc_body = []\<rparr>"] True by simp
  then show ?thesis using True by (simp add: collector_observe_append start_body [OF assms(2)] end_body del: append.simps collector_observe.simps)
next
  case False
  then show ?thesis
    by (simp add: collector_observe_append start_body [OF assms(2)] collector_oversized [OF assms(1)] end_discard del: append.simps collector_observe.simps)
qed

text \<open>Property C20. The collector hands on exactly the bodies that were written: between two commands, a command with a
  body without escape and bell bytes is received once and unchanged, whichever terminator ends it and however the bytes
  are cut into reads, when it has at most 4096 bytes, and not at all when it is longer; afterwards the collector waits for
  the next command with an empty body.\<close>

theorem command_is_received_once:
  assumes "plain_body body" "oc_state c \<in> {OsGround, OsEscape}" "first @ second = [esc, CHR '']''] @ body @ terminator short"
  shows "(case collector_observe first c of (c', r) \<Rightarrow> case collector_observe second c' of (c'', s) \<Rightarrow> (c'', r @ s))
    = (new_collector, if length body \<le> 4096 then [body] else [])"
proof -
  have "(case collector_observe first c of (c', r) \<Rightarrow> case collector_observe second c' of (c'', s) \<Rightarrow> (c'', r @ s))
      = collector_observe (first @ second) c"
    by (simp add: collector_observe_append Let_def)
  then show ?thesis unfolding assms(3) by (simp add: deliver [OF assms(1, 2)] max_body_bytes_def del: append.simps)
qed

theorem command_is_received_once_witness:
  "(case collector_observe [esc] new_collector of (c', r) \<Rightarrow>
      case collector_observe ('']0;hi'' @ [bel]) c' of (c'', s) \<Rightarrow> (c'', r @ s)) = (new_collector, [''0;hi''])"
  using command_is_received_once [of "''0;hi''" new_collector "[esc]" "'']0;hi'' @ [bel]" True]
  by (simp add: plain_body_def new_collector_def terminator_def)

subsection \<open>Resynchronisation and bounds\<close>

lemma push_bounded: "length (oc_body (collector_push b c)) \<le> max_body_bytes"
  by (simp add: collector_push_def max_body_bytes_def Let_def)

lemma step_bounded: "length (oc_body c) \<le> max_body_bytes \<Longrightarrow> length (oc_body (fst (collector_step b c))) \<le> max_body_bytes"
  using push_bounded by (auto simp: collector_step_def body_escape_step_def collector_finish_def Let_def split: collector_state.split)

lemma step_received:
  "length (oc_body c) \<le> max_body_bytes \<Longrightarrow> snd (collector_step b c) = Some body \<Longrightarrow> length body \<le> max_body_bytes"
  using push_bounded
  by (auto simp: collector_step_def body_escape_step_def collector_finish_def Let_def split: collector_state.splits if_splits)

lemma observe_bounded:
  "length (oc_body c) \<le> max_body_bytes \<Longrightarrow> length (oc_body (fst (collector_observe bytes c))) \<le> max_body_bytes
    \<and> list_all (\<lambda>body. length body \<le> max_body_bytes) (snd (collector_observe bytes c))"
proof (induction bytes arbitrary: c)
  case (Cons b bytes)
  obtain c' r where s: "collector_step b c = (c', r)" by fastforce
  have "length (oc_body c') \<le> max_body_bytes" using step_bounded [OF Cons.prems, of b] s by simp
  note IH = Cons.IH [OF this]
  have "r = Some body \<Longrightarrow> length body \<le> max_body_bytes" for body using step_received [OF Cons.prems, of b body] s by simp
  then show ?case using IH by (auto simp: s Let_def split_beta split: option.split)
qed simp

lemma resync: "oc_state (fst (collector_observe [esc, backslash] c)) = OsGround"
  by (cases "oc_state c")
    (auto simp: collector_step_def body_escape_step_def collector_finish_def collector_push_def is_ignored_string_intro_def Let_def split_beta)

text \<open>Property C21. No output can fill the memory of the collector or leave it stuck: whatever bytes a program writes, the
  body kept and every body handed on has at most 4096 bytes, and the string terminator brings the collector back to
  the ground state from every state, so the next command is read from its start.\<close>

theorem collector_stays_bounded:
  assumes "collector_observe bytes new_collector = (c, bodies)"
  shows "length (oc_body c) \<le> 4096 \<and> list_all (\<lambda>body. length body \<le> 4096) bodies
    \<and> oc_state (fst (collector_observe [esc, backslash] c)) = OsGround"
  using observe_bounded [of new_collector bytes] assms resync [of c] by (simp add: new_collector_def max_body_bytes_def)

theorem collector_stays_bounded_witness:
  "\<exists>c bodies. collector_observe ([esc] @ '']0;x'' @ [esc, esc]) new_collector = (c, bodies)
    \<and> length (oc_body c) \<le> 4096 \<and> oc_state (fst (collector_observe [esc, backslash] c)) = OsGround"
proof -
  obtain c bodies where e: "collector_observe ([esc] @ '']0;x'' @ [esc, esc]) new_collector = (c, bodies)" by fastforce
  from collector_stays_bounded [OF e] e show ?thesis by blast
qed

subsection \<open>Titles reach detection\<close>

text \<open>Text that the sanitising keeps: well-formed, without control characters and not too long.\<close>

definition shown_title :: "rstr \<Rightarrow> bool" where
  "shown_title s \<longleftrightarrow> s \<noteq> [] \<and> from_utf8_lossy s = s \<and> list_all (\<lambda>ch. \<not> is_control ch) (chars s) \<and> length (chars s) \<le> 256"

lemma sanitize_shown: "shown_title s \<Longrightarrow> sanitize_agent_osc_string s agent_osc_max_chars = s"
  by (simp add: shown_title_def sanitize_agent_osc_string_def agent_osc_max_chars_def list_all_iff filter_id_conv)

text \<open>Property C17. A title reaches the screen detection: when an idle tracker reads the command that sets the window title
  (0 or 2) with a shown title of at most 4094 bytes, ended either way and cut into reads anywhere, both recorded titles
  are that title, the progress is kept, and the region of the title that the rules of a manifest look at is that
  title. Clearing what is retained, which the pane does when its agent changes, removes the title
  the rules look at and keeps the shown one.\<close>

theorem title_reaches_detection:
  assumes "oc_state (at_collector t) \<in> {OsGround, OsEscape}" "command \<in> {''0'', ''2''}"
    and "plain_body title" "shown_title title" "length title \<le> 4094"
    and "first @ second = [esc, CHR '']''] @ command @ '';'' @ title @ terminator short"
  defines "u \<equiv> agent_osc_observe (agent_osc_observe t first) second"
  shows "latest_title u = title \<and> at_terminal_title u = Some title \<and> latest_progress u = latest_progress t
    \<and> region \<lparr>di_screen = screen, di_osc_title = latest_title u, di_osc_progress = latest_progress u\<rparr> ''osc_title'' = Some title
    \<and> latest_title (clear_retained u) = [] \<and> at_terminal_title (clear_retained u) = Some title"
proof -
  let ?body = "command @ '';'' @ title"
  have plain: "plain_body ?body" using assms(2, 3) by (auto simp: plain_body_def)
  have len: "length ?body \<le> max_body_bytes" using assms(2, 5) by (auto simp: max_body_bytes_def)
  have "u = agent_osc_observe t ([esc, CHR '']''] @ ?body @ terminator short)"
    unfolding u_def agent_osc_observe_append [symmetric] assms(6) by simp
  also have "\<dots> = agent_osc_receive ?body (t\<lparr>at_collector := new_collector\<rparr>)"
    using deliver [OF plain assms(1), of short] len by (simp add: agent_osc_observe_def del: append.simps)
  also have "\<dots> = t\<lparr>at_collector := new_collector, at_terminal_title := Some title, at_latest_title := Some title\<rparr>"
  proof -
    have "parse_agent_osc_body ?body = Some (command, title)" using assms(2) by (auto simp: parse_agent_osc_body_def)
    moreover have "title \<noteq> []" using assms(4) by (simp add: shown_title_def)
    ultimately show ?thesis using assms(2) sanitize_shown [OF assms(4)] by (auto simp: agent_osc_receive_def Let_def)
  qed
  finally have u: "u = t\<lparr>at_collector := new_collector, at_terminal_title := Some title, at_latest_title := Some title\<rparr>" .
  have "trim ''osc_title'' = ''osc_title''" by (rule trim_plain) (simp add: plain_def byte_def)
  then show ?thesis unfolding u by (simp add: latest_title_def latest_progress_def region_def clear_retained_def Let_def)
qed

definition sample_tracker :: agent_osc_tracker where
  "sample_tracker = \<lparr>at_collector = new_collector, at_latest_title = None, at_terminal_title = None, at_latest_progress = None\<rparr>"

theorem title_reaches_detection_witness:
  "latest_title (agent_osc_observe (agent_osc_observe sample_tracker [esc]) ('']2;hi'' @ [bel])) = ''hi''"
proof -
  have l: "from_utf8_lossy ''hi'' = ''hi''"
    by (simp add: from_utf8_lossy.simps utf8_ranges_def byte_def)
  have "shown_title ''hi''"
    by (simp add: shown_title_def l utf8_tail_def byte_def is_control_def codepoint_def)
  then show ?thesis
    using title_reaches_detection [of sample_tracker "''2''" "''hi''" "[esc]" "'']2;hi'' @ [bel]" True]
    by (simp add: sample_tracker_def new_collector_def plain_body_def terminator_def)
qed

subsection \<open>The scrollback filter\<close>

lemma prefix_clear: "prefix clear_short (b # bs) \<or> prefix clear_long (b # bs) \<Longrightarrow> b = esc"
  by (auto simp: clear_short_def clear_long_def)

lemma strip_plain_prefix: "esc \<notin> set s \<Longrightarrow> strip_clears (s @ r) = s @ strip_clears r"
proof (induction s)
  case (Cons b s)
  have "\<not> prefix clear_short (b # s @ r)" "\<not> prefix clear_long (b # s @ r)" using Cons.prems prefix_clear by auto
  then show ?case using Cons by (simp add: strip_clears.simps [of "b # s @ r"])
qed simp

lemma strip_short [simp]: "strip_clears (clear_short @ r) = strip_clears r"
  by (subst strip_clears.simps) (simp add: clear_short_def)

lemma strip_long [simp]: "strip_clears (clear_long @ r) = strip_clears r"
  by (subst strip_clears.simps) (simp add: clear_short_def clear_long_def)

lemma strip_pieces:
  "list_all (\<lambda>(piece, clear). esc \<notin> set piece \<and> clear \<in> {clear_short, clear_long}) pieces \<Longrightarrow> esc \<notin> set rest \<Longrightarrow>
     strip_clears (concat (map (\<lambda>(piece, clear). piece @ clear) pieces) @ rest) = concat (map fst pieces) @ rest"
proof (induction pieces)
  case Nil
  then show ?case using strip_plain_prefix [of rest "[]"] by (simp add: strip_clears.simps [of "[]"])
next
  case (Cons p pieces)
  then show ?case by (auto simp: strip_plain_prefix)
qed

text \<open>For the agent it was made for, on the primary screen, the filter removes the clears of the scrollback
  and nothing else: pieces of output without escape bytes come through unchanged and in order when clears of either form
  stand between them. For other programs and on the alternate screen the output is untouched.\<close>

theorem filter_removes_only_clears:
  assumes "list_all (\<lambda>(piece, clear). esc \<notin> set piece \<and> clear \<in> {clear_short, clear_long}) pieces" "esc \<notin> set rest"
    and "bytes = concat (map (\<lambda>(piece, clear). piece @ clear) pieces) @ rest"
  shows "maybe_filter_primary_screen_scrollback_clear bytes alternate_screen job
    = (if \<not> alternate_screen \<and> (\<exists>j. job = Some j \<and> foreground_job_uses_droid_scrollback_compat j)
       then concat (map fst pieces) @ rest else bytes)"
proof (cases "contains_scrollback_clear_sequence bytes")
  case True
  then show ?thesis using strip_pieces [OF assms(1, 2)] assms(3)
    by (auto simp: maybe_filter_primary_screen_scrollback_clear_def strip_scrollback_clear_sequences_def split: option.split)
next
  case False
  have "pieces = []"
  proof (rule ccontr)
    assume "pieces \<noteq> []"
    then obtain piece clear more where p: "pieces = (piece, clear) # more" by (cases pieces) auto
    then have "clear \<in> {clear_short, clear_long}" using assms(1) by simp
    moreover have "sublist clear bytes" unfolding assms(3) p by simp
    ultimately show False using False by (auto simp: contains_scrollback_clear_sequence_def)
  qed
  then show ?thesis using False assms(3) by (simp add: maybe_filter_primary_screen_scrollback_clear_def)
qed

definition droid_job :: foreground_job where
  "droid_job = \<lparr>fj_process_group_id = 7, fj_processes = [\<lparr>fp_pid = 7, fp_name = ''droid'', fp_argv0 = None, fp_argv = None, fp_cmdline = None\<rparr>]\<rparr>"

lemma droid_job: "foreground_job_uses_droid_scrollback_compat droid_job"
  by (simp add: foreground_job_uses_droid_scrollback_compat_def droid_job_def eq_ignore_ascii_case_def)

theorem filter_removes_only_clears_witness:
  "maybe_filter_primary_screen_scrollback_clear (''a'' @ clear_short @ ''b'' @ clear_long @ ''c'') False (Some droid_job) = ''abc''"
  using filter_removes_only_clears [of "[(''a'', clear_short), (''b'', clear_long)]" "''c''"
      "''a'' @ clear_short @ ''b'' @ clear_long @ ''c''" False "Some droid_job"] droid_job by simp

text \<open>Without a clear there is nothing to remove.\<close>

lemma strip_no_clear: "\<not> contains_scrollback_clear_sequence s \<Longrightarrow> strip_clears s = s"
proof (induction s)
  case (Cons b s)
  then have "\<not> contains_scrollback_clear_sequence s" "\<not> prefix clear_short (b # s)" "\<not> prefix clear_long (b # s)"
    by (auto simp: contains_scrollback_clear_sequence_def sublist_Cons_right)
  then show ?case using Cons.IH by (simp add: strip_clears.simps [of "b # s"])
qed (simp add: strip_clears.simps)

lemma filter_strips:
  assumes "foreground_job_uses_droid_scrollback_compat job"
  shows "maybe_filter_primary_screen_scrollback_clear s False (Some job) = strip_clears s"
  using assms strip_no_clear [of s]
  by (simp add: maybe_filter_primary_screen_scrollback_clear_def strip_scrollback_clear_sequences_def)

text \<open>The first part of a clear that was cut.\<close>

definition begun_clear :: "rstr \<Rightarrow> bool" where
  "begun_clear a \<longleftrightarrow> a \<in> {[esc], esc # ''['', esc # ''[3'', esc # ''[?'', esc # ''[?3''}"

lemma strip_begun:
  assumes "begun_clear a" "r = [] \<or> hd r = esc"
  shows "strip_clears (a @ r) = a @ strip_clears r"
proof -
  obtain a' where a': "a = esc # a'" "esc \<notin> set a'" using assms(1) by (auto simp: begun_clear_def)
  have "\<not> prefix clear_short (a @ r)" "\<not> prefix clear_long (a @ r)"
    using assms by (cases r; auto simp: begun_clear_def clear_short_def clear_long_def)+
  then have "strip_clears (a @ r) = esc # strip_clears (a' @ r)" using a'(1) by (simp add: strip_clears.simps [of "esc # a' @ r"])
  then show ?thesis using strip_plain_prefix [OF a'(2)] a'(1) by simp
qed

lemma clear_cut:
  assumes "clear \<in> {clear_short, clear_long}" "a @ b = clear" "a \<noteq> []" "b \<noteq> []"
  shows "begun_clear a" "esc \<notin> set b"
  using assms
  by (auto simp: begun_clear_def clear_short_def clear_long_def append_eq_Cons_conv)

text \<open>Property C35. The filter works on one read of output at a time and in one pass, so a clear can come through.
  Whatever job it filters for, wherever a clear of either form is cut into two parts and whatever output without
  escape bytes stands around it: when the parts arrive in two reads the clear is not seen in either, although
  it is removed when they arrive together; and a clear of either form that stands between the two parts is
  removed, which leaves them as a clear again.\<close>

theorem filtered_output_still_clears:
  assumes "foreground_job_uses_droid_scrollback_compat job"
    and "clear \<in> {clear_short, clear_long}" "inner \<in> {clear_short, clear_long}"
    and "a @ b = clear" "a \<noteq> []" "b \<noteq> []" "esc \<notin> set before" "esc \<notin> set behind"
  shows "maybe_filter_primary_screen_scrollback_clear (before @ a) False (Some job)
     @ maybe_filter_primary_screen_scrollback_clear (b @ behind) False (Some job) = before @ clear @ behind
   \<and> maybe_filter_primary_screen_scrollback_clear (before @ clear @ behind) False (Some job) = before @ behind
   \<and> maybe_filter_primary_screen_scrollback_clear (before @ a @ inner @ b @ behind) False (Some job) = before @ clear @ behind"
proof -
  note cut = clear_cut [OF assms(2, 4-6)] and strips = filter_strips [OF assms(1)]
  have empty: "strip_clears [] = []" by (simp add: strip_clears.simps)
  have behind: "strip_clears (b @ behind) = b @ behind" "strip_clears behind = behind"
    using strip_plain_prefix [of "b @ behind" "[]"] strip_plain_prefix [of behind "[]"] cut(2) assms(8) empty by simp_all
  have "strip_clears (before @ a) = before @ a"
    using strip_plain_prefix [OF assms(7)] strip_begun [OF cut(1), of "[]"] empty by simp
  moreover have "strip_clears (before @ clear @ behind) = before @ behind"
    using strip_plain_prefix [OF assms(7)] assms(2) behind(2) by auto
  moreover have "strip_clears (before @ a @ inner @ b @ behind) = before @ a @ b @ behind"
  proof -
    have "hd (inner @ b @ behind) = esc" using assms(3) by (auto simp: clear_short_def clear_long_def)
    then show ?thesis
      using strip_plain_prefix [OF assms(7)] strip_begun [OF cut(1), of "inner @ b @ behind"] assms(3) behind(1) by auto
  qed
  moreover have "a @ b @ behind = clear @ behind" using assms(4) by simp
  ultimately show ?thesis using behind(1) unfolding strips by simp
qed

theorem filtered_output_still_clears_witness:
  "maybe_filter_primary_screen_scrollback_clear (''ab'' @ esc # ''['') False (Some droid_job)
     @ maybe_filter_primary_screen_scrollback_clear (''3J'' @ ''c'') False (Some droid_job) = ''ab'' @ clear_short @ ''c''
   \<and> maybe_filter_primary_screen_scrollback_clear (''ab'' @ (esc # ''['') @ clear_long @ ''3J'' @ ''c'') False (Some droid_job)
     = ''ab'' @ clear_short @ ''c''"
  using filtered_output_still_clears [OF droid_job, of clear_short clear_long "esc # ''[''" "''3J''" "''ab''" "''c''"]
  by (simp add: clear_short_def)

subsection \<open>Reported directories\<close>











end
