(* ===== verification/Spec2Isabelle.thy ===== *)
theory Spec2Isabelle
  imports LayoutProps AgentProps TerminalMetadataProps AggregateProps SessionActionProps
    InputProps RawInputProps ManifestUpdate PaneOscProps
begin

text \<open>
  podr is a terminal multiplexer for coding agents, a fork of herdr written in Rust. A server keeps workspaces of
  tabs, a tab tiles panes, a pane runs a program in a pseudo terminal, and for every pane the server tells whether
  the agent in it is idle, working or blocked. This development models the part of \<open>src/src\<close> that decides: the
  state of the session and of its terminals, the detection of agents and of what they do, and the path of keys,
  mouse reports and terminal output through the server. Drawing, sockets, processes and files stay outside and
  appear as parameters.

  \<^bold>\<open>How the parts interact.\<close> A client's request (\<open>app/api\<close>) is resolved from public handles to indices and ids, changes the
  session and its tabs, and asks for terminals to be started or shut down. Bytes that a program writes pass the trackers
  of \<open>pane/osc.rs\<close>, which retain its title; the detection task gives title and screen to the manifest rules of
  \<open>detect/manifest.rs\<close>, decides in \<open>pane/agent_detection.rs\<close> what to publish, and the session applies it to the terminal
  (\<open>terminal/state.rs\<close>), where it is arbitrated with what hooks of the agent reported; a change reaches the
  notifications and the panel of agents. Bytes of the host terminal are framed by \<open>raw_input.rs\<close>, parsed by \<open>input/parse.rs\<close>,
  routed by the key leases, and encoded for the pane by \<open>input/encode.rs\<close>.

  \<^bold>\<open>Shared theories.\<close> Prelude: machine integers as words with saturating and checked operations, hash maps as association lists,
  iterator adaptors, clock instants. RustStr and RustUtf8: strings as lists of bytes with \<open>chars\<close>, \<open>trim\<close>, \<open>split\<close>, \<open>lines\<close>,
  slices that panic off a character boundary, numbers as text, the validity of UTF-8. F32: binary32 exactly, as
  integer multiples of the smallest subnormal.

  \<^bold>\<open>Components, with the lemmas about them.\<close>
  \<^item> Tiling layout, \<open>layout.rs\<close>: Layout (tree, focus, edits), LayoutGeometry (rectangles, borders, neighbours, resizing),
    LayoutSteps (one split, the tree, reachable layouts), LayoutProps. Every cell of the area lies in exactly one pane; every sequence of
    edits keeps the tree well formed. The locale \<open>pane_tree\<close> is what a tab relies on.
  \<^item> Agents, \<open>detect/mod.rs\<close> and \<open>agent_resume.rs\<close>: Agents, AgentIdentify, AgentResume, AgentProps.
  \<^item> Terminal state, \<open>terminal/state.rs\<close>, \<open>terminal/metadata.rs\<close>, \<open>terminal/title.rs\<close>, \<open>metadata_tokens.rs\<close>: MetadataTokens, TerminalState,
    TerminalPresentation, TerminalSession, TerminalHooks, TerminalDetect, TerminalMetadata hold the operations; TerminalSteps and TerminalAuthority
    the step relation over all of them with its invariants; TerminalProps and TerminalMetadataProps what is promised of late, stale and
    cleared reports, of process exits and of metadata. The locale \<open>seq_gate\<close> is the contract of the three gates of sequence numbers.
  \<^item> Workspaces and tabs, \<open>workspace.rs\<close>, \<open>workspace/tab.rs\<close>, \<open>workspace/aggregate.rs\<close>, \<open>pane/state.rs\<close>: PublicIds, Tabs, Workspaces, then WorkspaceInv (the
    invariant the authors assert in their tests), WorkspaceSteps, WorkspaceReach, WorkspaceRefine (an abstract map from panes to terminals
    and the simulation), WorkspaceProps, AggregateProps.
  \<^item> Session, \<open>app/state.rs\<close>, \<open>app/actions.rs\<close>, \<open>app/ids.rs\<close>, \<open>app/api\<close>, \<open>app/creation.rs\<close>, \<open>app/runtime.rs\<close>: Session, SessionClose, AppEvents,
    SessionApi, SessionHandlers, PaneMove and LayoutRequests (swapping, resizing, ratios, worktree groups) hold the operations; SessionHandles the invariant; SessionSteps, SessionEventSteps, SessionCloseSteps, SessionGrow,
    AppSteps, AppOpenSteps, PaneMoveSteps one lemma per operation and handler; SessionProps the step relation of the modelled
    requests, events and timers with its reachable states, and SessionActionProps what single actions do.
  \<^item> Screen detection, \<open>detect/manifest.rs\<close> and \<open>detect/manifest_update.rs\<close>: ManifestRegion (regions of the screen), ManifestModel (rules, gates, validation,
    compilation), ManifestVersions, ManifestLoad (which copy is used, the cache), ManifestDetect (evaluation), ManifestProps, ManifestUpdate
    (the update from the catalog, which never downgrades).
  \<^item> Publishing, \<open>pane/agent_detection.rs\<close>: PaneDetection. Output of panes, \<open>pane/osc.rs\<close>: PaneOsc, PaneOscProps.
  \<^item> Input, \<open>input/\<close>, \<open>terminal_theme.rs\<close>, \<open>raw_input.rs\<close>, \<open>app/input/lease.rs\<close>: InputKeys, InputEncode, InputParse, InputRoundtrip, InputMouse, InputLease,
    InputProps; TerminalTheme, RawFramer, RawExtract, RawFraming, RawFlush, RawInputProps. Keys and mouse reports survive encoding and
    parsing; while no lost tail is being discarded the framing does not depend on how the bytes are cut and no byte is lost;
    every event comes from one chunk of bytes; and a held key stays with its terminal.

  \<^bold>\<open>Conventions.\<close> A definition has the name of the Rust item it models, with a prefix or suffix where Isabelle has that name already.
  A struct is a record whose fields carry a short prefix, a method takes the record and returns the new one. A panic is the \<open>None\<close>
  of an outermost option and an error is a value. A loop is a recursion on its list or has a termination proof. The one recursion on a
  count is \<open>reprocess_loop\<close>, whose count is the number of repetitions the code loops over, so it is not a bound of the model.

  \<^bold>\<open>Bounds and assumptions.\<close> Ids and public numbers are 32 and 64 bit words, and steps that take a new one have the premise that the counter
  has room (\<open>room\<close>, \<open>ids_room\<close>, \<open>app_room\<close>), as the code does not check for the wrap. Workspace and terminal ids are made of the microseconds of the clock;
  the premise \<open>clock_in_range\<close> fixes the width of that number to thirteen hexadecimal digits, which holds from 1978 to 2112. Properties of
  regions assume a text without carriage returns (\<open>plain_screen\<close>), which is what the terminal emulator delivers; what happens otherwise is a property of
  its own. A hash map is a list whose order is one iteration order, so a theorem about all lists holds for all orders.

  \<^bold>\<open>Parameters.\<close> \<open>Rect::new\<close> of ratatui (\<open>rn\<close>), the resolution of paths on disk (\<open>resolve\<close>), starting a terminal (\<open>spawn\<close>), the label found for a directory
  (\<open>discover\<close>), the current directory, \<open>char::is_uppercase\<close> and Unicode lower case in manifests, the crates \<open>toml\<close> and \<open>regex\<close>, the files of manifests and the answers of
  \<open>curl\<close>, the handling of a key by the rest of the program (\<open>key_host\<close>), and the clock, which is an argument of every operation that reads it.

  \<^bold>\<open>Not modelled.\<close> The event loop and the state of the user interface in \<open>app\<close> (modes, copy mode, navigator, sidebar, settings); the drawing in \<open>ui\<close>;
  sockets, frames and rendering in \<open>server\<close>, \<open>client\<close>, \<open>protocol\<close> and \<open>api\<close>; pseudo terminals and the terminal emulator in \<open>pane\<close>, \<open>pty\<close> and \<open>ghostty\<close>, of which only
  the files named above are modelled; snapshots in \<open>persist\<close>; configuration, integrations, command line, updates, remote sessions and
  platform calls. They are input and output, glue around libraries, or data without decisions. Of the requests,
  those that apply a whole layout, start an agent, create or remove a worktree on disk, or open a popup or pane of a plugin (a popup has a
  terminal outside of all panes, so the reachable sessions are those without one); of the modelled ones, the response payloads, the
  events to subscribers, the plugin hooks and the logging are left out; of a workspace, the cached Git status; of the build, everything but Unix.
\<close>

end
